(* ===== verification/Prelude.thy ===== *)
theory Prelude
  imports Main "HOL-Library.Multiset" "HOL-Library.Char_ord" "HOL-Library.List_Lexorder" "HOL-Library.AList"
begin

text \<open>
  Shared vocabulary of the development: thrown errors as values, JavaScript numbers, decimal text,
  insertion-ordered maps, the stable array sort, and the generic facts about grouping a list of
  records by a key. Every component theory builds on these.
\<close>

named_theorems result_simps \<open>how a computation that may throw decomposes\<close>
named_theorems omap_simps \<open>insertion-ordered maps\<close>

subsection \<open>Thrown errors\<close>

text \<open>
  A function of the source that can throw returns a sum: \<open>Inl\<close> the thrown error with its message,
  \<open>Inr\<close> the returned value.
\<close>

datatype js_error =
    Error string
  | RangeError string

type_synonym 'a result = "js_error + 'a"

definition ebind :: "'e + 'a \<Rightarrow> ('a \<Rightarrow> 'e + 'b) \<Rightarrow> 'e + 'b" where
  "ebind r f = (case r of Inl e \<Rightarrow> Inl e | Inr x \<Rightarrow> f x)"

definition returns :: "'e + 'a \<Rightarrow> bool" where
  "returns r = (case r of Inl _ \<Rightarrow> False | Inr _ \<Rightarrow> True)"

lemma ebind_simps [simp, result_simps]:
  "ebind (Inl e) f = Inl e"
  "ebind (Inr x) f = f x"
  by (simp_all add: ebind_def)

lemma ebind_Inr_iff [result_simps]: "ebind r f = Inr y \<longleftrightarrow> (\<exists>x. r = Inr x \<and> f x = Inr y)"
  by (cases r) simp_all

lemma ebind_Inl_iff [result_simps]:
  "ebind r f = Inl e \<longleftrightarrow> r = Inl e \<or> (\<exists>x. r = Inr x \<and> f x = Inl e)"
  by (cases r) simp_all

lemma returns_simps [simp, result_simps]: "\<not> returns (Inl e)" "returns (Inr x)"
  by (simp_all add: returns_def)

lemma returns_iff: "returns r \<longleftrightarrow> (\<exists>x. r = Inr x)"
  by (cases r) simp_all

text \<open>The HTTP exceptions the services throw, with their message or code.\<close>

datatype http_error =
    BadRequest string
  | Forbidden string
  | NotFound string
  | Conflict string
  | ServiceUnavailable string
  | ServerError string

type_synonym 'a http = "http_error + 'a"

subsection \<open>Numbers\<close>

text \<open>
  A \<open>bigint\<close> of the source is an \<open>int\<close>. A \<open>number\<close> that the code tests with \<open>Number.isInteger\<close> or
  \<open>Number.isSafeInteger\<close> before use is a \<open>jsnum\<close>: either an integral value or something else (a
  fraction, an infinity, NaN). A \<open>number\<close> that comes from an integer column is an \<open>int\<close>.
\<close>

datatype jsnum = JInt int | JNonInt

definition MAX_SAFE_INTEGER :: int where
  "MAX_SAFE_INTEGER = 9007199254740991"

definition safe_int :: "int \<Rightarrow> bool" where
  "safe_int i \<longleftrightarrow> - MAX_SAFE_INTEGER \<le> i \<and> i \<le> MAX_SAFE_INTEGER"

fun isSafeInteger :: "jsnum \<Rightarrow> bool" where
  "isSafeInteger (JInt i) = safe_int i"
| "isSafeInteger JNonInt = False"

fun isInteger :: "jsnum \<Rightarrow> bool" where
  "isInteger (JInt i) = True"
| "isInteger JNonInt = False"

fun int_of_num :: "jsnum \<Rightarrow> int" where
  "int_of_num (JInt i) = i"
| "int_of_num JNonInt = 0"

lemma isSafeInteger_iff: "isSafeInteger n \<longleftrightarrow> (\<exists>i. n = JInt i \<and> safe_int i)"
  by (cases n) simp_all

lemma isInteger_iff: "isInteger n \<longleftrightarrow> (\<exists>i. n = JInt i)"
  by (cases n) simp_all

subsection \<open>Characters and decimal text\<close>

definition char_code :: "char \<Rightarrow> nat" where
  "char_code c = of_char c"

definition is_digit :: "char \<Rightarrow> bool" where
  "is_digit c \<longleftrightarrow> 48 \<le> char_code c \<and> char_code c \<le> 57"

definition is_upper :: "char \<Rightarrow> bool" where
  "is_upper c \<longleftrightarrow> 65 \<le> char_code c \<and> char_code c \<le> 90"

definition is_lower :: "char \<Rightarrow> bool" where
  "is_lower c \<longleftrightarrow> 97 \<le> char_code c \<and> char_code c \<le> 122"

text \<open>The white space \<open>String.prototype.trim\<close> removes, among the characters below 256.\<close>

definition is_space :: "char \<Rightarrow> bool" where
  "is_space c \<longleftrightarrow> (9 \<le> char_code c \<and> char_code c \<le> 13) \<or> char_code c = 32 \<or> char_code c = 160"

definition trim :: "string \<Rightarrow> string" where
  "trim s = rev (dropWhile is_space (rev (dropWhile is_space s)))"

definition digit_value :: "char \<Rightarrow> nat" where
  "digit_value c = char_code c - 48"

definition digit_char :: "nat \<Rightarrow> char" where
  "digit_char d = char_of (48 + d)"

text \<open>\<open>BigInt(text)\<close> of a text of digits, and \<open>toString\<close> of a non-negative \<open>bigint\<close>.\<close>

definition nat_of_digits :: "string \<Rightarrow> nat" where
  "nat_of_digits s = foldl (\<lambda>n c. 10 * n + digit_value c) 0 s"

fun string_of_nat :: "nat \<Rightarrow> string" where
  "string_of_nat n = (if n < 10 then [digit_char n] else string_of_nat (n div 10) @ [digit_char (n mod 10)])"

declare string_of_nat.simps [simp del]

definition string_of_int :: "int \<Rightarrow> string" where
  "string_of_int i = (if i < 0 then CHR ''-'' # string_of_nat (nat (- i)) else string_of_nat (nat i))"

definition padStart :: "nat \<Rightarrow> char \<Rightarrow> string \<Rightarrow> string" where
  "padStart n c s = replicate (n - length s) c @ s"

definition padEnd :: "nat \<Rightarrow> char \<Rightarrow> string \<Rightarrow> string" where
  "padEnd n c s = s @ replicate (n - length s) c"


lemma digit_char_props [simp]:
  assumes "d < 10"
  shows "is_digit (digit_char d)" "digit_value (digit_char d) = d"
  using assms by (simp_all add: is_digit_def digit_char_def digit_value_def char_code_def)

lemma digit_char_not_space [simp]: "d < 10 \<Longrightarrow> \<not> is_space (digit_char d)"
  by (simp add: is_space_def digit_char_def char_code_def)

lemma string_of_nat_nonempty [simp]: "string_of_nat n \<noteq> []"
  by (subst string_of_nat.simps) simp

lemma string_of_nat_digits: "list_all is_digit (string_of_nat n)"
proof (induction n rule: string_of_nat.induct)
  case (1 n)
  then show ?case
    by (cases "n < 10") (simp_all add: string_of_nat.simps [of n])
qed

lemma nat_of_digits_snoc: "nat_of_digits (s @ [c]) = 10 * nat_of_digits s + digit_value c"
  by (simp add: nat_of_digits_def)

lemma nat_of_digits_Nil [simp]: "nat_of_digits [] = 0"
  by (simp add: nat_of_digits_def)

lemma nat_of_digits_string_of_nat [simp]: "nat_of_digits (string_of_nat n) = n"
proof (induction n rule: string_of_nat.induct)
  case (1 n)
  show ?case
  proof (cases "n < 10")
    case True
    then show ?thesis by (simp add: string_of_nat.simps [of n] nat_of_digits_def)
  next
    case False
    with 1 show ?thesis by (simp add: string_of_nat.simps [of n] nat_of_digits_snoc)
  qed
qed

lemma foldl_digits: "foldl (\<lambda>n c. 10 * n + digit_value c) a s = a * 10 ^ length s + nat_of_digits s"
proof (induction s rule: rev_induct)
  case Nil
  then show ?case by simp
next
  case (snoc c s)
  then show ?case by (simp add: nat_of_digits_snoc algebra_simps)
qed

lemma nat_of_digits_append: "nat_of_digits (s @ t) = nat_of_digits s * 10 ^ length t + nat_of_digits t"
  using foldl_digits [of "nat_of_digits s" t] by (simp add: nat_of_digits_def)

lemma digit_value_0 [simp]: "digit_value (CHR ''0'') = 0"
  by (simp add: digit_value_def char_code_def)

lemma nat_of_digits_zeros [simp]: "nat_of_digits (replicate k (CHR ''0'')) = 0"
  by (induction k) (simp_all add: nat_of_digits_def)

lemma nat_of_digits_padStart [simp]: "nat_of_digits (padStart n (CHR ''0'') s) = nat_of_digits s"
  by (simp add: padStart_def nat_of_digits_append)

lemma length_padStart [simp]: "length (padStart n c s) = max n (length s)"
  by (simp add: padStart_def)

lemma string_of_nat_snoc:
  "d < 10 \<Longrightarrow> string_of_nat (10 * n + d) = (if n = 0 then [] else string_of_nat n) @ [digit_char d]"
  by (cases "n = 0") (simp_all add: string_of_nat.simps [of "10 * n + d"] string_of_nat.simps [of d])

lemma digit_char_value: "is_digit c \<Longrightarrow> digit_char (digit_value c) = c"
  by (simp add: digit_char_def digit_value_def is_digit_def char_code_def)

lemma nat_of_digits_bound: "list_all is_digit s \<Longrightarrow> nat_of_digits s < 10 ^ length s"
proof (induction s rule: rev_induct)
  case (snoc c s)
  then have "nat_of_digits s < 10 ^ length s" "digit_value c < 10" by (auto simp: is_digit_def digit_value_def)
  then show ?case by (simp add: nat_of_digits_snoc)
qed simp

lemma padStart_digits:
  assumes "list_all is_digit s" "s \<noteq> []"
  shows "padStart (length s) (CHR ''0'') (string_of_nat (nat_of_digits s)) = s"
  using assms
proof (induction s rule: rev_induct)
  case (snoc c s)
  have c: "is_digit c" using snoc.prems by simp
  then have d: "digit_value c < 10" by (auto simp: is_digit_def digit_value_def)
  note str = string_of_nat_snoc [OF d, of "nat_of_digits s"] digit_char_value [OF c]
  show ?case
  proof (cases "s = []")
    case True
    then show ?thesis using str by (simp add: padStart_def nat_of_digits_def)
  next
    case False
    then have IH: "padStart (length s) (CHR ''0'') (string_of_nat (nat_of_digits s)) = s" using snoc by simp
    show ?thesis
    proof (cases "nat_of_digits s = 0")
      case True
      have "string_of_nat 0 = ''0''" by code_simp
      with IH True have "replicate (length s - 1) (CHR ''0'') @ ''0'' = s" by (simp add: padStart_def)
      moreover have "replicate (length s - 1) (CHR ''0'') @ ''0'' = replicate (length s) (CHR ''0'')"
        using False by (metis One_nat_def Suc_diff_1 length_greater_0_conv replicate_Suc replicate_append_same)
      ultimately show ?thesis using True str by (simp add: padStart_def nat_of_digits_snoc)
    next
      case False
      then show ?thesis using IH str by (simp add: padStart_def nat_of_digits_snoc)
    qed
  qed
qed simp

lemma length_string_of_nat_le: "n < 10 ^ k \<Longrightarrow> 0 < k \<Longrightarrow> length (string_of_nat n) \<le> k"
proof (induction k arbitrary: n)
  case 0
  then show ?case by simp
next
  case (Suc k)
  show ?case
  proof (cases "n < 10")
    case True
    then show ?thesis by (simp add: string_of_nat.simps [of n])
  next
    case False
    with Suc.prems have "n div 10 < 10 ^ k" and "0 < k"
      by (auto simp: less_mult_imp_div_less mult.commute intro: gr0I)
    with Suc.IH [of "n div 10"] False show ?thesis
      by (simp add: string_of_nat.simps [of n])
  qed
qed

lemma trim_id:
  assumes "list_all (\<lambda>c. \<not> is_space c) s"
  shows "trim s = s"
proof -
  have "dropWhile is_space t = t" if "list_all (\<lambda>c. \<not> is_space c) t" for t
    using that by (cases t) simp_all
  with assms show ?thesis by (simp add: trim_def list_all_rev)
qed

subsection \<open>Insertion-ordered maps\<close>

text \<open>
  A JavaScript \<open>Map\<close> iterates its entries in insertion order; \<open>set\<close> on a present key keeps the
  entry's place. It is an association list whose keys are distinct.
\<close>

type_synonym ('k, 'v) omap = "('k \<times> 'v) list"

definition omap_get :: "('k, 'v) omap \<Rightarrow> 'k \<Rightarrow> 'v option" where
  "omap_get m k = map_of m k"

fun omap_put :: "'k \<Rightarrow> 'v \<Rightarrow> ('k, 'v) omap \<Rightarrow> ('k, 'v) omap" where
  "omap_put k v [] = [(k, v)]"
| "omap_put k v ((k', v') # m) = (if k' = k then (k, v) # m else (k', v') # omap_put k v m)"

definition omap_keys :: "('k, 'v) omap \<Rightarrow> 'k list" where
  "omap_keys m = map fst m"

definition omap_values :: "('k, 'v) omap \<Rightarrow> 'v list" where
  "omap_values m = map snd m"

definition omap_ok :: "('k, 'v) omap \<Rightarrow> bool" where
  "omap_ok m = distinct (omap_keys m)"

definition omap_getd :: "('k \<Rightarrow> 'v) \<Rightarrow> ('k, 'v) omap \<Rightarrow> 'k \<Rightarrow> 'v" where
  "omap_getd ini m k = (case omap_get m k of None \<Rightarrow> ini k | Some v \<Rightarrow> v)"

lemma omap_get_put [simp, omap_simps]:
  "omap_get (omap_put k v m) k' = (if k' = k then Some v else omap_get m k')"
  by (induction k v m rule: omap_put.induct) (auto simp: omap_get_def)

lemma omap_getd_put [simp, omap_simps]:
  "omap_getd ini (omap_put k v m) k' = (if k' = k then v else omap_getd ini m k')"
  by (simp add: omap_getd_def)

lemma omap_get_Nil [simp, omap_simps]: "omap_get [] k = None"
  by (simp add: omap_get_def)

lemma omap_keys_Nil [simp, omap_simps]: "omap_keys [] = []"
  by (simp add: omap_keys_def)

lemma omap_keys_put [omap_simps]:
  "omap_keys (omap_put k v m) = (if k \<in> set (omap_keys m) then omap_keys m else omap_keys m @ [k])"
  by (induction k v m rule: omap_put.induct) (auto simp: omap_keys_def)

lemma set_omap_keys_put [simp, omap_simps]:
  "set (omap_keys (omap_put k v m)) = insert k (set (omap_keys m))"
  by (auto simp: omap_keys_put)

lemma omap_ok_Nil [simp, omap_simps]: "omap_ok []"
  by (simp add: omap_ok_def)

lemma omap_ok_put [simp, omap_simps]: "omap_ok m \<Longrightarrow> omap_ok (omap_put k v m)"
  by (simp add: omap_ok_def omap_keys_put)

lemma omap_get_None_iff [omap_simps]: "omap_get m k = None \<longleftrightarrow> k \<notin> set (omap_keys m)"
  by (simp add: omap_get_def omap_keys_def map_of_eq_None_iff)

lemma omap_get_Some_iff: "omap_ok m \<Longrightarrow> omap_get m k = Some v \<longleftrightarrow> (k, v) \<in> set m"
  by (simp add: omap_get_def omap_ok_def omap_keys_def map_of_eq_Some_iff)


lemma omap_values_put_sum:
  assumes "omap_ok m"
  shows "sum_list (map (f :: 'v \<Rightarrow> int) (omap_values (omap_put k v m))) =
         sum_list (map f (omap_values m)) + f v - (case omap_get m k of None \<Rightarrow> 0 | Some w \<Rightarrow> f w)"
  using assms
  by (induction k v m rule: omap_put.induct)
     (auto simp: omap_values_def omap_get_def omap_ok_def omap_keys_def split: option.splits dest: map_of_SomeD)

subsection \<open>Grouping records by a key\<close>

text \<open>
  The recurring loop of the source: look the row of an item's key up (or start a new one), update
  it with the item, store it back. \<open>ini\<close> starts the row of the first item of a key.
\<close>

definition group_step :: "('a \<Rightarrow> 'k) \<Rightarrow> ('a \<Rightarrow> 'r) \<Rightarrow> ('r \<Rightarrow> 'a \<Rightarrow> 'r) \<Rightarrow> ('k, 'r) omap \<Rightarrow> 'a \<Rightarrow> ('k, 'r) omap" where
  "group_step key ini upd m x = omap_put (key x) (upd (omap_getd (\<lambda>_. ini x) m (key x)) x) m"

definition group_by :: "('a \<Rightarrow> 'k) \<Rightarrow> ('a \<Rightarrow> 'r) \<Rightarrow> ('r \<Rightarrow> 'a \<Rightarrow> 'r) \<Rightarrow> 'a list \<Rightarrow> ('k, 'r) omap" where
  "group_by key ini upd xs = foldl (group_step key ini upd) [] xs"

definition group_row :: "('a \<Rightarrow> 'r) \<Rightarrow> ('r \<Rightarrow> 'a \<Rightarrow> 'r) \<Rightarrow> 'a list \<Rightarrow> 'r option" where
  "group_row ini upd ys = (case ys of [] \<Rightarrow> None | y # _ \<Rightarrow> Some (foldl upd (ini y) ys))"

lemma group_by_Nil [simp]: "group_by key ini upd [] = []"
  by (simp add: group_by_def)

lemma group_by_snoc: "group_by key ini upd (xs @ [x]) = group_step key ini upd (group_by key ini upd xs) x"
  by (simp add: group_by_def)

lemma omap_ok_group_by [simp, omap_simps]: "omap_ok (group_by key ini upd xs)"
  by (induction xs rule: rev_induct) (simp_all add: group_by_snoc group_step_def)

lemma set_omap_keys_group_by [simp, omap_simps]: "set (omap_keys (group_by key ini upd xs)) = key ` set xs"
  by (induction xs rule: rev_induct) (simp_all add: group_by_snoc group_step_def)

lemma group_row_snoc:
  "group_row ini upd (ys @ [y]) =
     Some (upd (case group_row ini upd ys of None \<Rightarrow> ini y | Some r \<Rightarrow> r) y)"
  by (cases ys) (simp_all add: group_row_def)

text \<open>Looking a key up in the grouped map is folding exactly the items of that key, in order.\<close>

theorem omap_get_group_by:
  "omap_get (group_by key ini upd xs) k = group_row ini upd (filter (\<lambda>x. key x = k) xs)"
proof (induction xs rule: rev_induct)
  case Nil
  then show ?case by (simp add: group_row_def)
next
  case (snoc x xs)
  show ?case
  proof (cases "key x = k")
    case True
    with snoc show ?thesis
      by (simp add: group_by_snoc group_step_def group_row_snoc omap_getd_def)
  next
    case False
    with snoc show ?thesis by (simp add: group_by_snoc group_step_def)
  qed
qed

lemma group_row_props:
  assumes "group_row ini upd ys = Some r" and "\<And>y. y \<in> set ys \<Longrightarrow> P (ini y)"
    and "\<And>r y. y \<in> set ys \<Longrightarrow> P r \<Longrightarrow> P (upd r y)"
  shows "P r"
  using assms
proof (induction ys arbitrary: r rule: rev_induct)
  case Nil
  then show ?case by (simp add: group_row_def)
next
  case (snoc y ys)
  show ?case
  proof (cases "group_row ini upd ys")
    case None
    with snoc.prems show ?thesis by (auto simp: group_row_snoc)
  next
    case (Some r')
    have "P r'"
      by (rule snoc.IH [OF Some]) (use snoc.prems(2,3) in auto)
    with Some snoc.prems show ?thesis by (auto simp: group_row_snoc)
  qed
qed

lemma in_set_group_by_iff:
  "(k, r) \<in> set (group_by key ini upd xs) \<longleftrightarrow> group_row ini upd (filter (\<lambda>x. key x = k) xs) = Some r"
  by (simp flip: omap_get_Some_iff add: omap_get_group_by)

text \<open>
  Contract of a grouping whose rows carry an additive figure: a new row starts at zero and each
  item adds its amount. Then every row holds the sum of its own items, and the rows together
  hold the sum of all items: nothing is lost, duplicated or put under another key.
\<close>

locale additive_rows =
  fixes ini :: "'a \<Rightarrow> 'r" and upd :: "'r \<Rightarrow> 'a \<Rightarrow> 'r"
    and proj :: "'r \<Rightarrow> int" and amt :: "'a \<Rightarrow> int"
  assumes proj_ini: "proj (ini x) = 0"
    and proj_upd: "proj (upd r x) = proj r + amt x"
begin

lemma proj_foldl: "proj (foldl upd r ys) = proj r + sum_list (map amt ys)"
  by (induction ys arbitrary: r) (simp_all add: proj_upd)

lemma row_total: "group_row ini upd ys = Some r \<Longrightarrow> proj r = sum_list (map amt ys)"
  by (cases ys) (auto simp: group_row_def proj_foldl proj_ini proj_upd)

lemma rows_total:
  "sum_list (map proj (omap_values (group_by key ini upd xs))) = sum_list (map amt xs)"
proof (induction xs rule: rev_induct)
  case Nil
  then show ?case by (simp add: omap_values_def)
next
  case (snoc x xs)
  then show ?case
    by (simp add: group_by_snoc group_step_def omap_values_put_sum omap_getd_def proj_upd proj_ini
        split: option.split)
qed

end

subsection \<open>The stable array sort\<close>

text \<open>
  \<open>Array.prototype.sort\<close> with a comparator is stable. For a comparator that is total and transitive
  the stable result is unique, so insertion sort computes it.
\<close>

fun insert_sorted :: "('a \<Rightarrow> 'a \<Rightarrow> int) \<Rightarrow> 'a \<Rightarrow> 'a list \<Rightarrow> 'a list" where
  "insert_sorted cmp x [] = [x]"
| "insert_sorted cmp x (y # ys) = (if cmp x y \<le> 0 then x # y # ys else y # insert_sorted cmp x ys)"

definition js_sort :: "('a \<Rightarrow> 'a \<Rightarrow> int) \<Rightarrow> 'a list \<Rightarrow> 'a list" where
  "js_sort cmp xs = foldr (insert_sorted cmp) xs []"

lemma js_sort_simps [simp]:
  "js_sort cmp [] = []"
  "js_sort cmp (x # xs) = insert_sorted cmp x (js_sort cmp xs)"
  by (simp_all add: js_sort_def)

lemma mset_insert_sorted [simp]: "mset (insert_sorted cmp x ys) = add_mset x (mset ys)"
  by (induction ys) auto

lemma mset_js_sort [simp]: "mset (js_sort cmp xs) = mset xs"
  by (induction xs) simp_all

lemma set_js_sort [simp]: "set (js_sort cmp xs) = set xs"
  by (metis mset_js_sort set_mset_mset)

lemma length_js_sort [simp]: "length (js_sort cmp xs) = length xs"
  by (metis mset_js_sort size_mset)

lemma distinct_js_sort [simp]: "distinct (js_sort cmp xs) = distinct xs"
  by (metis mset_js_sort mset_eq_imp_distinct_iff)

lemma sum_list_map_js_sort [simp]: "sum_list (map (f :: 'a \<Rightarrow> int) (js_sort cmp xs)) = sum_list (map f xs)"
  by (metis mset_js_sort mset_map sum_mset_sum_list)

lemma distinct_map_js_sort [simp]: "distinct (map f (js_sort cmp xs)) = distinct (map f xs)"
  by (metis mset_js_sort mset_eq_imp_distinct_iff mset_map)

locale comparator =
  fixes cmp :: "'a \<Rightarrow> 'a \<Rightarrow> int"
  assumes cmp_total: "cmp x y \<le> 0 \<or> cmp y x \<le> 0"
    and cmp_trans: "cmp x y \<le> 0 \<Longrightarrow> cmp y z \<le> 0 \<Longrightarrow> cmp x z \<le> 0"
begin

lemma sorted_insert:
  "sorted_wrt (\<lambda>x y. cmp x y \<le> 0) ys \<Longrightarrow> sorted_wrt (\<lambda>x y. cmp x y \<le> 0) (insert_sorted cmp x ys)"
proof (induction ys)
  case Nil
  then show ?case by simp
next
  case (Cons y ys)
  have "set (insert_sorted cmp x ys) = insert x (set ys)"
    by (metis mset_insert_sorted set_mset_add_mset_insert set_mset_mset)
  with Cons show ?case using cmp_total [of x y] by (auto intro: cmp_trans)
qed

lemma sorted_js_sort: "sorted_wrt (\<lambda>x y. cmp x y \<le> 0) (js_sort cmp xs)"
  by (induction xs) (simp_all add: sorted_insert)

lemma js_sort_least: "js_sort cmp xs = x # ys \<Longrightarrow> y \<in> set xs \<Longrightarrow> cmp x y \<le> 0"
  using sorted_js_sort [of xs] set_js_sort [of cmp xs] cmp_total [of x x] by auto

lemma js_sort_fixed: "sorted_wrt (\<lambda>x y. cmp x y \<le> 0) xs \<Longrightarrow> js_sort cmp xs = xs"
proof (induction xs)
  case (Cons x xs)
  then show ?case by (cases xs) auto
qed simp

end

locale strict_comparator = comparator +
  assumes cmp_antisym: "cmp x y \<le> 0 \<Longrightarrow> cmp y x \<le> 0 \<Longrightarrow> x = y"
begin

lemma sorted_unique:
  assumes "sorted_wrt (\<lambda>x y. cmp x y \<le> 0) xs" "sorted_wrt (\<lambda>x y. cmp x y \<le> 0) ys" "mset xs = mset ys"
  shows "xs = ys"
  using assms
proof (induction xs arbitrary: ys)
  case Nil
  then show ?case by simp
next
  case (Cons x xs)
  then obtain y ys' where ys: "ys = y # ys'" by (cases ys) auto
  have "x \<in> set ys" "y \<in> set (x # xs)"
    using Cons.prems(3) ys by (metis list.set_intros(1) set_mset_mset)+
  with Cons.prems(1,2) ys have "x = y"
    using cmp_total [of x x] by (auto intro: cmp_antisym)
  with Cons.prems ys Cons.IH [of ys'] show ?case by simp
qed

text \<open>The order in which the items arrive does not matter.\<close>

lemma js_sort_perm: "mset xs = mset ys \<Longrightarrow> js_sort cmp xs = js_sort cmp ys"
  by (rule sorted_unique) (simp_all add: sorted_js_sort)

end

text \<open>\<open>a || b\<close> on comparator results: the first difference decides.\<close>

definition cmp_then :: "int \<Rightarrow> int \<Rightarrow> int" where
  "cmp_then a b = (if a \<noteq> 0 then a else b)"

text \<open>\<open>new Map(xs.map(x => [key(x), x]))\<close> read at a key: the last item with the key.\<close>

definition last_with :: "('a \<Rightarrow> 'k) \<Rightarrow> 'a list \<Rightarrow> 'k \<Rightarrow> 'a option" where
  "last_with key xs k = find (\<lambda>x. key x = k) (rev xs)"

lemma find_SomeD: "find P xs = Some x \<Longrightarrow> P x \<and> x \<in> set xs"
  by (induction xs) (auto split: if_splits)

lemma last_with_Some: "last_with key xs k = Some x \<Longrightarrow> x \<in> set xs \<and> key x = k"
  by (auto simp: last_with_def dest: find_SomeD)

lemma last_with_None: "last_with key xs k = None \<longleftrightarrow> k \<notin> key ` set xs"
  by (auto simp: last_with_def find_None_iff)

lemma last_with_unique:
  assumes "distinct (map key xs)" "x \<in> set xs"
  shows "last_with key xs (key x) = Some x"
proof (cases "last_with key xs (key x)")
  case None
  with assms(2) show ?thesis by (auto simp: last_with_None)
next
  case (Some y)
  with last_with_Some [OF Some] assms show ?thesis by (auto simp: distinct_map inj_on_def)
qed

text \<open>Comparing texts by code unit, as \<open><\<close> and \<open>>\<close> do.\<close>

definition cmp_text :: "string \<Rightarrow> string \<Rightarrow> int" where
  "cmp_text a b = (if a < b then -1 else if b < a then 1 else 0)"

interpretation text_order: strict_comparator cmp_text
  by unfold_locales (auto simp: cmp_text_def split: if_splits)

subsection \<open>Texts with a prefix or a suffix\<close>

definition after_prefix :: "string \<Rightarrow> string \<Rightarrow> string option" where
  "after_prefix p s = (if take (length p) s = p then Some (drop (length p) s) else None)"

definition endsWith :: "string \<Rightarrow> string \<Rightarrow> bool" where
  "endsWith s suf \<longleftrightarrow> length suf \<le> length s \<and> drop (length s - length suf) s = suf"

text \<open>The character class \<open>.\<close> of a regular expression without the \<open>s\<close> flag.\<close>

definition is_dot :: "char \<Rightarrow> bool" where
  "is_dot c \<longleftrightarrow> char_code c \<noteq> 10 \<and> char_code c \<noteq> 13"

lemma after_prefix_Some [simp]: "after_prefix p s = Some t \<longleftrightarrow> s = p @ t"
proof
  assume "after_prefix p s = Some t"
  then have "take (length p) s = p" "drop (length p) s = t"
    by (auto simp: after_prefix_def split: if_splits)
  then show "s = p @ t" by (metis append_take_drop_id)
qed (simp add: after_prefix_def)

lemma endsWith_append [simp]: "endsWith (s @ suf) suf"
  by (simp add: endsWith_def)

subsection \<open>Sums over the items that satisfy a test\<close>

definition sum_where :: "('a \<Rightarrow> bool) \<Rightarrow> ('a \<Rightarrow> int) \<Rightarrow> 'a list \<Rightarrow> int" where
  "sum_where P f xs = sum_list (map f (filter P xs))"

lemma sum_where_simps [simp]:
  "sum_where P f [] = 0"
  "sum_where P f (x # xs) = (if P x then f x else 0) + sum_where P f xs"
  by (simp_all add: sum_where_def)

lemma sum_where_append [simp]: "sum_where P f (xs @ ys) = sum_where P f xs + sum_where P f ys"
  by (simp add: sum_where_def)

lemma sum_list_if: "(\<Sum>x\<leftarrow>xs. if P x then f x else 0) = sum_where P f xs"
  by (induction xs) simp_all

lemma sum_where_filter: "sum_where P f (filter Q xs) = sum_where (\<lambda>x. Q x \<and> P x) f xs"
  by (induction xs) simp_all

lemma sum_where_nonneg: "(\<And>x. x \<in> set xs \<Longrightarrow> P x \<Longrightarrow> 0 \<le> f x) \<Longrightarrow> 0 \<le> sum_where P f xs"
  by (induction xs) (simp_all add: add_nonneg_nonneg)

lemma sum_where_cong:
  "(\<And>x. x \<in> set xs \<Longrightarrow> P x \<longleftrightarrow> Q x) \<Longrightarrow> (\<And>x. x \<in> set xs \<Longrightarrow> Q x \<Longrightarrow> f x = g x) \<Longrightarrow> sum_where P f xs = sum_where Q g xs"
  by (induction xs) simp_all

lemma sum_where_sum:
  "distinct xs \<Longrightarrow> sum_where P f xs = sum f {x \<in> set xs. P x}"
  by (simp add: sum_where_def sum_list_distinct_conv_sum_set)

subsection \<open>Collations\<close>

text \<open>
  What the code relies on of \<open>localeCompare\<close> and of the comparators it builds from it: the two
  directions agree and the order is transitive. Every such comparison is a comparator, and so are
  the projections and lexicographic combinations of them.
\<close>

locale collation =
  fixes coll :: "'a \<Rightarrow> 'a \<Rightarrow> int"
  assumes coll_sym: "0 < coll x y \<longleftrightarrow> coll y x < 0"
    and coll_trans: "coll x y \<le> 0 \<Longrightarrow> coll y z \<le> 0 \<Longrightarrow> coll x z \<le> 0"
begin

lemma coll_le_iff: "coll x y \<le> 0 \<longleftrightarrow> \<not> coll y x < 0"
  using coll_sym [of x y] by linarith

lemma coll_eq_sym: "coll x y = 0 \<longleftrightarrow> coll y x = 0"
  using coll_sym [of x y] coll_sym [of y x] by linarith

lemma coll_less_trans:
  assumes "coll x y < 0" "coll y z \<le> 0"
  shows "coll x z < 0"
proof (rule ccontr)
  assume "\<not> coll x z < 0"
  then have "coll z x \<le> 0" by (simp add: coll_le_iff)
  with assms(2) have "coll y x \<le> 0" by (rule coll_trans)
  with assms(1) show False by (simp add: coll_le_iff)
qed

lemma coll_less_trans2:
  assumes "coll x y \<le> 0" "coll y z < 0"
  shows "coll x z < 0"
proof (rule ccontr)
  assume "\<not> coll x z < 0"
  then have "coll z x \<le> 0" by (simp add: coll_le_iff)
  then have "coll z y \<le> 0" using assms(1) by (rule coll_trans)
  with assms(2) show False by (simp add: coll_le_iff)
qed

end

lemma collation_comparator: "collation c \<Longrightarrow> comparator c"
  by unfold_locales (metis collation.coll_le_iff less_imp_le not_le, rule collation.coll_trans)

sublocale collation \<subseteq> comparator coll
  by (rule collation_comparator) (rule collation_axioms)

lemma collation_by: "collation c \<Longrightarrow> collation (\<lambda>x y. c (f x) (f y))"
  unfolding collation_def by blast

lemma collation_minus: "collation (\<lambda>x y. f x - f y :: int)"
  by unfold_locales auto

lemma collation_cmp_then:
  assumes "collation c" "collation d"
  shows "collation (\<lambda>x y. cmp_then (c x y) (d x y))"
proof
  show "0 < cmp_then (c x y) (d x y) \<longleftrightarrow> cmp_then (c y x) (d y x) < 0" for x y
    using collation.coll_sym [OF assms(1), of x y] collation.coll_eq_sym [OF assms(1), of x y]
      collation.coll_sym [OF assms(2), of x y] by (simp add: cmp_then_def)
next
  fix x y z
  assume "cmp_then (c x y) (d x y) \<le> 0" "cmp_then (c y z) (d y z) \<le> 0"
  then have xy: "c x y < 0 \<or> c x y = 0 \<and> d x y \<le> 0" and yz: "c y z < 0 \<or> c y z = 0 \<and> d y z \<le> 0"
    by (auto simp: cmp_then_def split: if_splits)
  consider "c x y < 0" | "c y z < 0" | "c x y = 0" "c y z = 0" using xy yz by blast
  then show "cmp_then (c x z) (d x z) \<le> 0"
  proof cases
    case 1
    have "c y z \<le> 0" using yz by auto
    with 1 have "c x z < 0" by (rule collation.coll_less_trans [OF assms(1)])
    then show ?thesis by (simp add: cmp_then_def)
  next
    case 2
    have "c x y \<le> 0" using xy by auto
    then have "c x z < 0" using 2 by (rule collation.coll_less_trans2 [OF assms(1)])
    then show ?thesis by (simp add: cmp_then_def)
  next
    case 3
    have "c x z \<le> 0" by (rule collation.coll_trans [OF assms(1), of x y]) (simp_all add: 3)
    moreover have "d x z \<le> 0" by (rule collation.coll_trans [OF assms(2), of x y]) (use 3 xy yz in auto)
    ultimately show ?thesis by (simp add: cmp_then_def)
  qed
qed

interpretation text_collation: collation cmp_text
  by unfold_locales (auto simp: cmp_text_def split: if_splits)

lemma concat_map_Nil: "concat (map g xs) = [] \<longleftrightarrow> (\<forall>x \<in> set xs. g x = [])"
  by (auto simp: concat_eq_Nil_conv)

text \<open>\<open>Set.add\<close>: insertion-ordered, without repetition.\<close>

definition set_add :: "'a \<Rightarrow> 'a list \<Rightarrow> 'a list" where
  "set_add x xs = (if x \<in> set xs then xs else xs @ [x])"

lemma set_set_add [simp]: "set (set_add x xs) = insert x (set xs)"
  by (auto simp: set_add_def)

lemma distinct_set_add [simp]: "distinct (set_add x xs) = distinct xs"
  by (simp add: set_add_def)

subsection \<open>Upper case and tokens\<close>

text \<open>
  Texts are Latin-1 here. Of their characters two have an upper case outside Latin-1 (y with diaeresis and
  the micro sign, which stay as they are); the sharp s becomes two letters.
\<close>

definition upper_char :: "char \<Rightarrow> string" where
  "upper_char c =
     (if is_lower c \<or> (224 \<le> char_code c \<and> char_code c \<le> 254 \<and> char_code c \<noteq> 247) then [char_of (char_code c - 32)]
      else if char_code c = 223 then ''SS''
      else [c])"

definition toUpperCase :: "string \<Rightarrow> string" where
  "toUpperCase s = concat (map upper_char s)"

text \<open>The character class \<open>[A-Z0-9]\<close>.\<close>

definition is_alnum :: "char \<Rightarrow> bool" where
  "is_alnum c \<longleftrightarrow> is_upper c \<or> is_digit c"

text \<open>\<open>split\<close> at runs of other characters, without the empty pieces.\<close>

fun tokens_of :: "string \<Rightarrow> string \<Rightarrow> string list" where
  "tokens_of word [] = (if word = [] then [] else [rev word])"
| "tokens_of word (c # s) =
     (if is_alnum c then tokens_of (c # word) s
      else (if word = [] then [] else [rev word]) @ tokens_of [] s)"

subsection \<open>Loops that may throw\<close>

fun efold :: "('s \<Rightarrow> 'a \<Rightarrow> 'e + 's) \<Rightarrow> 's \<Rightarrow> 'a list \<Rightarrow> 'e + 's" where
  "efold f s [] = Inr s"
| "efold f s (x # xs) = ebind (f s x) (\<lambda>s'. efold f s' xs)"

lemma efold_append: "efold f s (xs @ ys) = ebind (efold f s xs) (\<lambda>s'. efold f s' ys)"
proof (induction xs arbitrary: s)
  case (Cons x xs)
  then show ?case by (cases "f s x") simp_all
qed simp

text \<open>An invariant of the loop's body relates what was consumed to the state.\<close>

lemma efold_invariant:
  assumes "efold f s xs = Inr s'" and "P [] s"
    and "\<And>ys x zs s1 s2. xs = ys @ x # zs \<Longrightarrow> P ys s1 \<Longrightarrow> f s1 x = Inr s2 \<Longrightarrow> P (ys @ [x]) s2"
  shows "P xs s'"
  using assms
proof (induction xs arbitrary: s' rule: rev_induct)
  case Nil
  then show ?case by simp
next
  case (snoc x xs)
  then obtain s1 where s1: "efold f s xs = Inr s1" "f s1 x = Inr s'"
    by (auto simp: efold_append result_simps)
  have "P xs s1"
    by (rule snoc.IH [OF s1(1) snoc.prems(2)]) (use snoc.prems(3) in \<open>metis append.assoc append_Cons\<close>)
  then show ?case using snoc.prems(3) [of xs x "[]"] s1(2) by simp
qed

subsection \<open>Rows that keep a tag\<close>

text \<open>
  A grouping whose rows carry, beside an additive figure, a tag every item of the row shares (its
  currency, say). When the key decides the tag, the rows of a tag hold the sum of the items of the tag.
\<close>

locale tagged_rows = additive_rows ini upd proj amt
  for ini :: "'a \<Rightarrow> 'r" and upd :: "'r \<Rightarrow> 'a \<Rightarrow> 'r" and proj :: "'r \<Rightarrow> int" and amt :: "'a \<Rightarrow> int" +
  fixes tag :: "'a \<Rightarrow> 't" and row_tag :: "'r \<Rightarrow> 't"
  assumes row_tag_ini: "row_tag (ini x) = tag x"
    and row_tag_upd: "row_tag (upd r x) = row_tag r"
begin

lemma row_tag_foldl: "row_tag (foldl upd r ys) = row_tag r"
  by (induction ys arbitrary: r) (simp_all add: row_tag_upd)

lemma row_tag_group_row: "group_row ini upd ys = Some r \<Longrightarrow> row_tag r = tag (hd ys)"
  by (cases ys) (auto simp: group_row_def row_tag_foldl row_tag_upd row_tag_ini)

lemma tagged_total:
  assumes "\<And>x y. x \<in> set xs \<Longrightarrow> y \<in> set xs \<Longrightarrow> key x = key y \<Longrightarrow> tag x = tag y"
  shows "sum_where (\<lambda>r. row_tag r = c) proj (omap_values (group_by key ini upd xs)) = sum_where (\<lambda>x. tag x = c) amt xs"
  using assms
proof (induction xs rule: rev_induct)
  case Nil
  then show ?case by (simp add: omap_values_def)
next
  case (snoc x xs)
  let ?m = "group_by key ini upd xs"
  let ?f = "\<lambda>r. if row_tag r = c then proj r else 0"
  have IH: "sum_list (map ?f (omap_values ?m)) = sum_where (\<lambda>x. tag x = c) amt xs"
    using snoc by (simp add: sum_list_if)
  have old: "row_tag w = tag x" if "omap_get ?m (key x) = Some w" for w
  proof -
    let ?ys = "filter (\<lambda>y. key y = key x) xs"
    have row: "group_row ini upd ?ys = Some w" using that by (simp add: omap_get_group_by)
    then have "?ys \<noteq> []" by (auto simp: group_row_def)
    then have "hd ?ys \<in> set ?ys" by (rule hd_in_set)
    with snoc.prems [of "hd ?ys" x] row_tag_group_row [OF row] show ?thesis by simp
  qed
  have "sum_list (map ?f (omap_values (group_by key ini upd (xs @ [x])))) =
      sum_list (map ?f (omap_values ?m)) + (if tag x = c then amt x else 0)"
    using old
    by (cases "omap_get ?m (key x)")
       (simp_all add: group_by_snoc group_step_def omap_values_put_sum omap_getd_def proj_upd proj_ini row_tag_upd row_tag_ini)
  then show ?case by (simp add: IH sum_list_if [symmetric])
qed

end

lemma sum_where_map: "sum_where P f (map g xs) = sum_where (\<lambda>x. P (g x)) (\<lambda>x. f (g x)) xs"
  by (induction xs) simp_all

lemma sum_where_concat_map: "sum_where P f (concat (map g xs)) = (\<Sum>x\<leftarrow>xs. sum_where P f (g x))"
  by (induction xs) simp_all

lemma sum_where_js_sort [simp]: "sum_where P f (js_sort cmp xs) = sum_where P f xs"
  by (metis mset_js_sort mset_filter mset_map sum_mset_sum_list sum_where_def)

text \<open>A text split by a separator that occurs in only one of its parts.\<close>

lemma prefix_sep_inj:
  assumes "c \<notin> set a" "c \<notin> set a'" "a @ c # b = a' @ c # b'"
  shows "a = a' \<and> b = b'"
proof -
  have "takeWhile (\<lambda>x. x \<noteq> c) (a @ c # b) = a" "takeWhile (\<lambda>x. x \<noteq> c) (a' @ c # b') = a'"
    using assms(1,2) by (subst takeWhile_append2; auto)+
  with assms(3) show ?thesis by auto
qed

lemma suffix_sep_inj:
  assumes "c \<notin> set b" "c \<notin> set b'" "a @ c # b = a' @ c # b'"
  shows "a = a' \<and> b = b'"
proof -
  have "rev b @ c # rev a = rev b' @ c # rev a'"
    using arg_cong [OF assms(3), of rev] by simp
  with prefix_sep_inj [of c "rev b" "rev b'" "rev a" "rev a'"] assms(1,2) show ?thesis by simp
qed

definition includes_text :: "string \<Rightarrow> string \<Rightarrow> bool" where
  "includes_text s sub \<longleftrightarrow> list_ex (\<lambda>n. take (length sub) (drop n s) = sub) [0..<Suc (length s)]"

definition startsWith :: "string \<Rightarrow> string \<Rightarrow> bool" where
  "startsWith s p \<longleftrightarrow> take (length p) s = p"

subsection \<open>Splitting and joining\<close>

fun split_on :: "char \<Rightarrow> string \<Rightarrow> string \<Rightarrow> string list" where
  "split_on sep word [] = [rev word]"
| "split_on sep word (c # s) = (if c = sep then rev word # split_on sep [] s else split_on sep (c # word) s)"

fun join_text :: "string \<Rightarrow> string list \<Rightarrow> string" where
  "join_text sep [] = []"
| "join_text sep [x] = x"
| "join_text sep (x # xs) = x @ sep @ join_text sep xs"

end
