(* ===== verification/Money.thy ===== *)
theory Money
  imports Prelude
begin

text \<open>
  Money in integer minor units (\<open>packages/money/src/index.ts\<close>): construction, addition, the ISO-4217
  exponent table, and the exact conversions between minor units and major-unit decimal text.
  Text is modelled over ASCII; \<open>Intl.NumberFormat\<close>, which the display formatter calls, is a parameter.
\<close>

subsection \<open>Amounts\<close>

type_synonym CurrencyCode = string

record Money =
  amountMinor :: int
  currency :: CurrencyCode

text \<open>The test \<open>/^[A-Z]{3}$/\<close>.\<close>

definition iso_alpha :: "string \<Rightarrow> bool" where
  "iso_alpha c \<longleftrightarrow> length c = 3 \<and> list_all is_upper c"

text \<open>
  The sum \<open>add\<close> passes on is a double; two safe integers sum to at most \<open>2^54\<close>, where an inexact
  sum is itself outside the safe range, so the exact sum decides the same test.
\<close>

definition money :: "jsnum \<Rightarrow> CurrencyCode \<Rightarrow> Money result" where
  "money amount c =
     (if \<not> isSafeInteger amount then Inl (Error ''Money must use a safe integer minor amount'')
      else if \<not> iso_alpha c then Inl (Error ''Currency must be an ISO-4217 alpha code'')
      else Inr \<lparr>amountMinor = int_of_num amount, currency = c\<rparr>)"

definition add :: "Money \<Rightarrow> Money \<Rightarrow> Money result" where
  "add left right =
     (if currency left \<noteq> currency right then Inl (Error ''Cannot add different currencies'')
      else money (JInt (amountMinor left + amountMinor right)) (currency left))"

definition money_ok :: "Money \<Rightarrow> bool" where
  "money_ok m \<longleftrightarrow> safe_int (amountMinor m) \<and> iso_alpha (currency m)"

lemma money_Inr_iff:
  "money n c = Inr m \<longleftrightarrow> (\<exists>i. n = JInt i \<and> safe_int i \<and> iso_alpha c \<and> m = \<lparr>amountMinor = i, currency = c\<rparr>)"
  by (cases n) (auto simp: money_def)

lemma money_gives_ok: "money n c = Inr m \<Longrightarrow> money_ok m"
  by (auto simp: money_Inr_iff money_ok_def)

subsection \<open>Currency exponents\<close>

definition MINOR_UNIT_EXPONENTS :: "(CurrencyCode \<times> nat) list" where
  "MINOR_UNIT_EXPONENTS =
    [(''AED'', 2), (''AUD'', 2), (''BHD'', 3), (''CAD'', 2), (''EUR'', 2), (''GBP'', 2), (''INR'', 2), (''JPY'', 0),
     (''KWD'', 3), (''OMR'', 3), (''QAR'', 2), (''SAR'', 2), (''SGD'', 2), (''THB'', 2), (''AZN'', 2), (''USD'', 2)]"

definition minorUnitExponent :: "CurrencyCode \<Rightarrow> nat result" where
  "minorUnitExponent c =
     (if \<not> iso_alpha c then Inl (Error ''Currency must be an ISO-4217 alpha code'')
      else case map_of MINOR_UNIT_EXPONENTS c of
             None \<Rightarrow> Inl (Error ''Unsupported currency'')
           | Some exponent \<Rightarrow> Inr exponent)"

definition supported :: "CurrencyCode \<Rightarrow> bool" where
  "supported c \<longleftrightarrow> returns (minorUnitExponent c)"

lemma minorUnitExponent_le: "minorUnitExponent c = Inr e \<Longrightarrow> e \<le> 3"
  by (auto simp: minorUnitExponent_def MINOR_UNIT_EXPONENTS_def split: if_splits)

lemma supported_iff: "supported c \<longleftrightarrow> (\<exists>e. minorUnitExponent c = Inr e)"
  by (simp add: supported_def returns_iff)

subsection \<open>Decimal text to minor units and reread\<close>

text \<open>The pattern \<open>/^(\d+)(?:\.(\d+))?$/\<close>: whole digits, then an optional point with at least one digit.\<close>

definition MAJOR_AMOUNT :: "string \<Rightarrow> (string \<times> string option) option" where
  "MAJOR_AMOUNT s =
     (let whole = takeWhile is_digit s; rest = dropWhile is_digit s in
      if whole = [] then None
      else case rest of
             [] \<Rightarrow> Some (whole, None)
           | c # fraction \<Rightarrow>
               if c = CHR ''.'' \<and> fraction \<noteq> [] \<and> list_all is_digit fraction then Some (whole, Some fraction) else None)"

definition majorUnitsToMinor :: "string \<Rightarrow> CurrencyCode \<Rightarrow> int result" where
  "majorUnitsToMinor input c =
     ebind (minorUnitExponent c) (\<lambda>exponent.
       case MAJOR_AMOUNT (trim input) of
         None \<Rightarrow> Inl (Error ''Invalid major-unit amount'')
       | Some (whole, frac) \<Rightarrow>
           let fraction = (case frac of None \<Rightarrow> [] | Some f \<Rightarrow> f) in
           if length fraction > exponent then Inl (Error ''Amount exceeds the currency scale'')
           else let scale = 10 ^ exponent;
                    padded = padEnd exponent (CHR ''0'') fraction;
                    minor = nat_of_digits whole * scale + nat_of_digits (if padded = [] then ''0'' else padded) in
                if int minor > MAX_SAFE_INTEGER then Inl (Error ''Amount exceeds a safe integer'')
                else Inr (int minor))"

definition minorUnitsToMajorInput :: "jsnum \<Rightarrow> CurrencyCode \<Rightarrow> string result" where
  "minorUnitsToMajorInput amount c =
     (if \<not> isSafeInteger amount \<or> int_of_num amount < 0 then Inl (Error ''Money must use a safe integer minor amount'')
      else ebind (minorUnitExponent c) (\<lambda>exponent.
        let scale = 10 ^ exponent;
            amt = nat (int_of_num amount);
            whole = amt div scale;
            fraction = amt mod scale in
        if exponent = 0 \<or> fraction = 0 then Inr (string_of_nat whole)
        else Inr (string_of_nat whole @ ''.'' @ padStart exponent (CHR ''0'') (string_of_nat fraction))))"

text \<open>
  \<open>formatMinorUnits\<close> places the digits into the parts \<open>Intl.NumberFormat\<close> reports for the locale:
  \<open>grouping\<close> formats the whole part, \<open>parts\<close> are the typed parts of a formatted zero. The quotient of
  two doubles below \<open>2^53\<close> by a scale of at most 1000 truncates to the integer quotient.
\<close>

datatype part_type = P_INTEGER | P_FRACTION | P_DECIMAL | P_OTHER

definition formatMinorUnits ::
  "(nat \<Rightarrow> string) \<Rightarrow> (CurrencyCode \<Rightarrow> nat \<Rightarrow> (part_type \<times> string) list) \<Rightarrow> jsnum \<Rightarrow> CurrencyCode \<Rightarrow> string result" where
  "formatMinorUnits grouping parts amount c =
     (if \<not> isSafeInteger amount then Inl (Error ''Money must use a safe integer minor amount'')
      else ebind (minorUnitExponent c) (\<lambda>exponent.
        let negative = int_of_num amount < 0;
            absolute = nat \<bar>int_of_num amount\<bar>;
            scale = 10 ^ exponent;
            whole = absolute div scale;
            fraction = absolute mod scale;
            groupedWhole = grouping whole;
            show_part = (\<lambda>(t, v). case t of
                P_INTEGER \<Rightarrow> (if negative then ''-'' else '''') @ groupedWhole
              | P_FRACTION \<Rightarrow> padStart exponent (CHR ''0'') (string_of_nat fraction)
              | P_DECIMAL \<Rightarrow> (if exponent = 0 then '''' else v)
              | P_OTHER \<Rightarrow> v) in
        Inr (concat (map show_part (parts c exponent)))))"

lemma MAJOR_AMOUNT_whole:
  assumes "list_all is_digit w" "w \<noteq> []"
  shows "MAJOR_AMOUNT w = Some (w, None)"
proof -
  have "takeWhile is_digit w = w" and "dropWhile is_digit w = []"
    using assms(1) by (simp_all add: list_all_iff)
  then show ?thesis using assms(2) by (simp only: MAJOR_AMOUNT_def Let_def) simp
qed

lemma MAJOR_AMOUNT_fraction:
  assumes "list_all is_digit w" "w \<noteq> []" "list_all is_digit f" "f \<noteq> []"
  shows "MAJOR_AMOUNT (w @ ''.'' @ f) = Some (w, Some f)"
proof -
  have "\<not> is_digit (CHR ''.'')" by (simp add: is_digit_def char_code_def)
  with assms(1) have "takeWhile is_digit (w @ ''.'' @ f) = w" "dropWhile is_digit (w @ ''.'' @ f) = ''.'' @ f"
    by (simp_all add: list_all_iff takeWhile_append dropWhile_append)
  with assms show ?thesis by (simp add: MAJOR_AMOUNT_def)
qed


lemma dot_not_space: "\<not> is_space (CHR ''.'')"
  by (simp add: is_space_def char_code_def)

lemma digit_not_space: "is_digit c \<Longrightarrow> \<not> is_space c"
  by (auto simp: is_digit_def is_space_def)

lemma list_all_digit_not_space: "list_all is_digit s \<Longrightarrow> list_all (\<lambda>c. \<not> is_space c) s"
  by (auto simp: list_all_iff digit_not_space)

lemma list_all_digit_padStart: "list_all is_digit s \<Longrightarrow> list_all is_digit (padStart n (CHR ''0'') s)"
  by (auto simp: padStart_def list_all_iff is_digit_def char_code_def)

lemma majorUnitsToMinor_whole:
  assumes e: "minorUnitExponent c = Inr e" and bound: "int (n * 10 ^ e) \<le> MAX_SAFE_INTEGER"
  shows "majorUnitsToMinor (string_of_nat n) c = Inr (int (n * 10 ^ e))"
proof -
  have digits: "list_all is_digit (string_of_nat n)" by (rule string_of_nat_digits)
  have "MAJOR_AMOUNT (trim (string_of_nat n)) = Some (string_of_nat n, None)"
    using digits by (simp add: trim_id list_all_digit_not_space MAJOR_AMOUNT_whole)
  moreover have "nat_of_digits (if padEnd e (CHR ''0'') [] = [] then ''0'' else padEnd e (CHR ''0'') []) = 0"
    by (simp add: padEnd_def) (simp add: nat_of_digits_def)
  ultimately show ?thesis
    using e bound unfolding majorUnitsToMinor_def by (simp add: Let_def del: of_nat_mult of_nat_power)
qed

lemma majorUnitsToMinor_fraction:
  assumes e: "minorUnitExponent c = Inr e" and f: "list_all is_digit f" "length f = e" "f \<noteq> []"
    and bound: "int (n * 10 ^ e + nat_of_digits f) \<le> MAX_SAFE_INTEGER"
  shows "majorUnitsToMinor (string_of_nat n @ ''.'' @ f) c = Inr (int (n * 10 ^ e + nat_of_digits f))"
proof -
  have digits: "list_all is_digit (string_of_nat n)" by (rule string_of_nat_digits)
  have "trim (string_of_nat n @ ''.'' @ f) = string_of_nat n @ ''.'' @ f"
    by (rule trim_id) (use digits f(1) in \<open>simp add: list_all_digit_not_space dot_not_space\<close>)
  then have "MAJOR_AMOUNT (trim (string_of_nat n @ ''.'' @ f)) = Some (string_of_nat n, Some f)"
    using MAJOR_AMOUNT_fraction [OF digits string_of_nat_nonempty f(1,3)] by simp
  moreover have "padEnd e (CHR ''0'') f = f" using f(2) by (simp add: padEnd_def)
  ultimately show ?thesis
    using e f bound unfolding majorUnitsToMinor_def by (simp add: Let_def del: of_nat_mult of_nat_power of_nat_add)
qed

text \<open>
  Writing an amount as a major-unit text and reading it reread gives the same amount, for every
  non-negative safe integer and every supported currency, with no loss to rounding.
\<close>

theorem major_minor_roundtrip:
  assumes "0 \<le> a" "safe_int a" "supported c"
  shows "\<exists>t. minorUnitsToMajorInput (JInt a) c = Inr t \<and> majorUnitsToMinor t c = Inr a"
proof -
  obtain e where e: "minorUnitExponent c = Inr e"
    using assms(3) by (auto simp: supported_iff)
  define n w f where "n = nat a" and "w = n div 10 ^ e" and "f = n mod 10 ^ e"
  have n: "n = w * 10 ^ e + f" unfolding w_def f_def by (rule div_mult_mod_eq [symmetric])
  have a: "a = int n" "int n \<le> MAX_SAFE_INTEGER"
    using assms(1,2) by (simp_all add: n_def safe_int_def)
  show ?thesis
  proof (cases "e = 0 \<or> f = 0")
    case True
    then have "f = 0" by (auto simp: f_def)
    with n have "w * 10 ^ e = n" by (simp only: add_0_right)
    with a(1) have reread: "int (w * 10 ^ e) = a" by (simp only:)
    have "minorUnitsToMajorInput (JInt a) c = Inr (string_of_nat w)"
      using assms True e unfolding minorUnitsToMajorInput_def
      by (auto simp: Let_def n_def w_def f_def)
    moreover have "majorUnitsToMinor (string_of_nat w) c = Inr (int (w * 10 ^ e))"
      using majorUnitsToMinor_whole [OF e] reread a by metis
    ultimately show ?thesis using reread by auto
  next
    case False
    let ?p = "padStart e (CHR ''0'') (string_of_nat f)"
    have "f < 10 ^ e" by (simp add: f_def)
    then have "length (string_of_nat f) \<le> e" using False by (intro length_string_of_nat_le) auto
    then have len: "length ?p = e" by simp
    have ne: "?p \<noteq> []" by (simp add: padStart_def)
    have "list_all is_digit ?p"
      by (intro list_all_digit_padStart string_of_nat_digits)
    note reread = majorUnitsToMinor_fraction [OF e this len ne, of w]
    have "w * 10 ^ e + nat_of_digits ?p = n"
      by (simp only: nat_of_digits_padStart nat_of_digits_string_of_nat n [symmetric])
    with reread a have reread: "majorUnitsToMinor (string_of_nat w @ ''.'' @ ?p) c = Inr a" by metis
    have "minorUnitsToMajorInput (JInt a) c = Inr (string_of_nat w @ ''.'' @ ?p)"
      using assms False e unfolding minorUnitsToMajorInput_def
      by (auto simp: Let_def n_def w_def f_def)
    with reread show ?thesis by auto
  qed
qed

theorem major_minor_roundtrip_witness:
  "\<exists>t. minorUnitsToMajorInput (JInt 120305) ''KWD'' = Inr t \<and> majorUnitsToMinor t ''KWD'' = Inr 120305"
  by (rule major_minor_roundtrip)
     (simp_all add: safe_int_def MAX_SAFE_INTEGER_def supported_def minorUnitExponent_def iso_alpha_def
        is_upper_def char_code_def MINOR_UNIT_EXPONENTS_def)

text \<open>
  \<open>add\<close> is exact and closed over well-formed money: two amounts of one currency whose sum is a safe
  integer add to exactly that sum in the same currency; any other pair is refused, never rounded.
\<close>

theorem add_exact_or_refused:
  assumes "money_ok x" "money_ok y"
  shows "add x y =
    (if currency x \<noteq> currency y then Inl (Error ''Cannot add different currencies'')
     else if safe_int (amountMinor x + amountMinor y)
          then Inr \<lparr>amountMinor = amountMinor x + amountMinor y, currency = currency x\<rparr>
          else Inl (Error ''Money must use a safe integer minor amount''))"
  using assms by (simp add: add_def money_def money_ok_def)

theorem add_exact_or_refused_witness:
  "add \<lparr>amountMinor = 100, currency = ''USD''\<rparr> \<lparr>amountMinor = 5, currency = ''USD''\<rparr> =
     Inr \<lparr>amountMinor = 105, currency = ''USD''\<rparr>"
  by (subst add_exact_or_refused)
     (simp_all add: money_ok_def safe_int_def MAX_SAFE_INTEGER_def iso_alpha_def is_upper_def char_code_def)

end
