(* ===== verification/Ledger.thy ===== *)
theory Ledger
  imports Prelude
begin

text \<open>
  Ledger arithmetic (\<open>packages/money/src/ledger.ts\<close>): the sign every entry kind is stored with, the
  balance, what an account may still spend, and the position totals per currency. Amounts are
  \<open>bigint\<close> minor units, so \<open>int\<close>. \<open>localeCompare\<close> is the parameter \<open>collate\<close>.
\<close>

subsection \<open>Entry kinds and their sign\<close>

text \<open>
  A kind is text at run time; a kind that is not a key of the table looks up as undefined (\<open>None\<close>),
  and the kind that may carry either sign looks up as null (\<open>Some None\<close>).
\<close>

type_synonym LedgerEntryKind = string

definition LEDGER_SIGN :: "LedgerEntryKind \<Rightarrow> int option option" where
  "LEDGER_SIGN = map_of
     [(''CREDIT'', Some 1), (''DEBIT'', Some (-1)), (''HOLD'', Some (-1)), (''RELEASE'', Some 1),
      (''REFUND'', Some 1), (''ADJUSTMENT'', None), (''REVERSAL'', Some (-1))]"

definition sign_of :: "int \<Rightarrow> int" where
  "sign_of amount = (if amount > 0 then 1 else -1)"

definition isLedgerSignValid :: "LedgerEntryKind \<Rightarrow> int \<Rightarrow> bool" where
  "isLedgerSignValid kind amount =
     (case LEDGER_SIGN kind of
        None \<Rightarrow> False
      | Some sign \<Rightarrow>
          if amount = 0 then False
          else (case sign of None \<Rightarrow> True | Some s \<Rightarrow> sign_of amount = s))"

definition assertLedgerSign :: "LedgerEntryKind \<Rightarrow> int \<Rightarrow> unit result" where
  "assertLedgerSign kind amount =
     (case LEDGER_SIGN kind of
        None \<Rightarrow> Inl (Error ''Unknown ledger entry kind'')
      | Some sign \<Rightarrow>
          if amount = 0 then Inl (Error ''Ledger amount must be non-zero'')
          else (case sign of
                  None \<Rightarrow> Inr ()
                | Some s \<Rightarrow>
                    if sign_of amount \<noteq> s
                    then Inl (Error (''Ledger '' @ kind @ '' must be '' @ (if s = 1 then ''positive'' else ''negative'')))
                    else Inr ()))"

subsection \<open>Balance and spending\<close>

definition ledgerBalance :: "int list \<Rightarrow> int" where
  "ledgerBalance amounts = foldl (+) 0 amounts"

record spend_input =
  balanceMinor :: int
  creditLineMinor :: int
  pendingMinor :: "int option"

definition availableMinor :: "spend_input \<Rightarrow> int" where
  "availableMinor i = balanceMinor i + creditLineMinor i - (case pendingMinor i of None \<Rightarrow> 0 | Some p \<Rightarrow> p)"

definition canSpend :: "spend_input \<Rightarrow> int \<Rightarrow> bool" where
  "canSpend i amount \<longleftrightarrow> amount \<ge> 0 \<and> availableMinor i \<ge> amount"

definition isOverdrawn :: "int \<Rightarrow> int \<Rightarrow> bool" where
  "isOverdrawn balance creditLine \<longleftrightarrow>
     availableMinor \<lparr>balanceMinor = balance, creditLineMinor = creditLine, pendingMinor = None\<rparr> < 0"

definition refundWithin :: "int \<Rightarrow> int \<Rightarrow> bool" where
  "refundWithin refund authorizedRefundable \<longleftrightarrow>
     refund \<ge> 0 \<and> authorizedRefundable \<ge> 0 \<and> refund \<le> authorizedRefundable"

subsection \<open>Positions per currency\<close>

record account_position =
  ap_currency :: string
  ap_balanceMinor :: int
  ap_creditLineMinor :: int

record CurrencyPosition =
  cp_currency :: string
  cp_accounts :: int
  cp_balanceMinor :: int
  cp_creditLineMinor :: int
  cp_availableMinor :: int
  cp_overdrawnAccounts :: int

definition new_position :: "account_position \<Rightarrow> CurrencyPosition" where
  "new_position a = \<lparr>cp_currency = ap_currency a, cp_accounts = 0, cp_balanceMinor = 0, cp_creditLineMinor = 0,
     cp_availableMinor = 0, cp_overdrawnAccounts = 0\<rparr>"

definition add_account :: "CurrencyPosition \<Rightarrow> account_position \<Rightarrow> CurrencyPosition" where
  "add_account row a = row\<lparr>
     cp_accounts := cp_accounts row + 1,
     cp_balanceMinor := cp_balanceMinor row + ap_balanceMinor a,
     cp_creditLineMinor := cp_creditLineMinor row + ap_creditLineMinor a,
     cp_overdrawnAccounts := cp_overdrawnAccounts row + (if isOverdrawn (ap_balanceMinor a) (ap_creditLineMinor a) then 1 else 0)\<rparr>"

definition with_available :: "CurrencyPosition \<Rightarrow> CurrencyPosition" where
  "with_available row = row\<lparr>cp_availableMinor :=
     availableMinor \<lparr>balanceMinor = cp_balanceMinor row, creditLineMinor = cp_creditLineMinor row, pendingMinor = None\<rparr>\<rparr>"

definition positionsByCurrency :: "(string \<Rightarrow> string \<Rightarrow> int) \<Rightarrow> account_position list \<Rightarrow> CurrencyPosition list" where
  "positionsByCurrency collate accounts =
     js_sort (\<lambda>x y. collate (cp_currency x) (cp_currency y))
       (map with_available (omap_values (group_by ap_currency new_position add_account accounts)))"

subsection \<open>Lemmas\<close>

lemma sign_of_cases: "amount \<noteq> 0 \<Longrightarrow> sign_of amount = sgn amount"
  by (simp add: sign_of_def sgn_if)

lemma assertLedgerSign_iff: "returns (assertLedgerSign kind amount) \<longleftrightarrow> isLedgerSignValid kind amount"
  by (simp add: assertLedgerSign_def isLedgerSignValid_def split: option.split)

lemma ledgerBalance_eq [simp]: "ledgerBalance amounts = sum_list amounts"
proof -
  have "foldl (+) s amounts = s + sum_list amounts" for s :: int
    by (induction amounts arbitrary: s) simp_all
  then show ?thesis by (simp add: ledgerBalance_def)
qed

lemma isOverdrawn_iff: "isOverdrawn b c \<longleftrightarrow> b + c < 0"
  by (simp add: isOverdrawn_def availableMinor_def)

lemma isLedgerSignValid_simps [simp]:
  "isLedgerSignValid ''CREDIT'' a \<longleftrightarrow> a > 0"
  "isLedgerSignValid ''DEBIT'' a \<longleftrightarrow> a < 0"
  "isLedgerSignValid ''HOLD'' a \<longleftrightarrow> a < 0"
  "isLedgerSignValid ''RELEASE'' a \<longleftrightarrow> a > 0"
  "isLedgerSignValid ''REFUND'' a \<longleftrightarrow> a > 0"
  "isLedgerSignValid ''ADJUSTMENT'' a \<longleftrightarrow> a \<noteq> 0"
  "isLedgerSignValid ''REVERSAL'' a \<longleftrightarrow> a < 0"
  by (auto simp: isLedgerSignValid_def LEDGER_SIGN_def sign_of_def)

interpretation position_balance: additive_rows new_position add_account cp_balanceMinor ap_balanceMinor
  by unfold_locales (simp_all add: new_position_def add_account_def)

interpretation position_credit: additive_rows new_position add_account cp_creditLineMinor ap_creditLineMinor
  by unfold_locales (simp_all add: new_position_def add_account_def)

interpretation position_count: additive_rows new_position add_account cp_accounts "\<lambda>_. 1"
  by unfold_locales (simp_all add: new_position_def add_account_def)

interpretation position_overdrawn: additive_rows new_position add_account cp_overdrawnAccounts
    "\<lambda>a. if isOverdrawn (ap_balanceMinor a) (ap_creditLineMinor a) then 1 else 0"
  by unfold_locales (simp_all add: new_position_def add_account_def)


text \<open>What the row of a currency should say, written directly over the accounts of that currency.\<close>

definition position_spec :: "account_position list \<Rightarrow> string \<Rightarrow> CurrencyPosition" where
  "position_spec accounts c =
     (let own = filter (\<lambda>a. ap_currency a = c) accounts in
      \<lparr>cp_currency = c, cp_accounts = int (length own),
       cp_balanceMinor = (\<Sum>a\<leftarrow>own. ap_balanceMinor a),
       cp_creditLineMinor = (\<Sum>a\<leftarrow>own. ap_creditLineMinor a),
       cp_availableMinor = (\<Sum>a\<leftarrow>own. ap_balanceMinor a) + (\<Sum>a\<leftarrow>own. ap_creditLineMinor a),
       cp_overdrawnAccounts = int (length (filter (\<lambda>a. ap_balanceMinor a + ap_creditLineMinor a < 0) own))\<rparr>)"

lemma sum_list_ones: "(\<Sum>a\<leftarrow>xs. if P a then 1 else (0::int)) = int (length (filter P xs))"
  by (induction xs) simp_all

lemma position_row:
  assumes "group_row new_position add_account ys = Some r" and "\<And>y. y \<in> set ys \<Longrightarrow> ap_currency y = c"
  shows "cp_currency r = c" and "cp_availableMinor r = 0"
proof -
  have "cp_currency r = c \<and> cp_availableMinor r = 0"
    by (rule group_row_props [OF assms(1)]) (use assms(2) in \<open>auto simp: new_position_def add_account_def\<close>)
  then show "cp_currency r = c" and "cp_availableMinor r = 0" by simp_all
qed

lemma position_row_spec:
  assumes "group_row new_position add_account (filter (\<lambda>a. ap_currency a = c) accounts) = Some r"
  shows "with_available r = position_spec accounts c"
proof -
  have "cp_currency r = c" by (rule position_row(1) [OF assms]) simp
  then show ?thesis
    using position_balance.row_total [OF assms] position_credit.row_total [OF assms]
      position_count.row_total [OF assms] position_overdrawn.row_total [OF assms]
    by (simp add: with_available_def availableMinor_def position_spec_def Let_def isOverdrawn_iff
        sum_list_ones sum_list_triv)
qed

lemma position_rows:
  "map with_available (omap_values (group_by ap_currency new_position add_account accounts)) =
   map (position_spec accounts) (omap_keys (group_by ap_currency new_position add_account accounts))"
proof -
  have "with_available r = position_spec accounts k"
    if "(k, r) \<in> set (group_by ap_currency new_position add_account accounts)" for k r
    using that by (intro position_row_spec) (simp add: in_set_group_by_iff)
  then show ?thesis by (auto simp: omap_values_def omap_keys_def)
qed

lemma cp_currency_spec [simp]: "cp_currency (position_spec accounts c) = c"
  by (simp add: position_spec_def Let_def)

text \<open>
  The position report is exact: whatever the collation, it has one row per currency that some
  account has, and that row counts the accounts of the currency, sums their balances and credit
  lines, adds the two as available, and counts the accounts below minus their credit line. No
  amount is put under another currency.
\<close>

theorem positionsByCurrency_exact:
  "set (positionsByCurrency collate accounts) = position_spec accounts ` ap_currency ` set accounts
   \<and> distinct (map cp_currency (positionsByCurrency collate accounts))"
proof -
  let ?g = "group_by ap_currency new_position add_account accounts"
  have "distinct (omap_keys ?g)"
    using omap_ok_group_by [of ap_currency new_position add_account accounts] by (simp add: omap_ok_def)
  then have "distinct (map cp_currency (positionsByCurrency collate accounts))"
    by (simp add: positionsByCurrency_def position_rows comp_def)
  then show ?thesis by (simp add: positionsByCurrency_def position_rows)
qed

text \<open>
  The spend test protects the credit line: when an amount passes \<open>canSpend\<close> for a position, posting
  the amount as a debit leaves the account not overdrawn, and what remains available is exactly the
  old figure less the amount; an amount that is negative or above what is available never passes.
\<close>

theorem canSpend_sound:
  "canSpend i amount \<longleftrightarrow>
     0 \<le> amount \<and> availableMinor (i\<lparr>balanceMinor := balanceMinor i - amount\<rparr>) = availableMinor i - amount
     \<and> 0 \<le> availableMinor (i\<lparr>balanceMinor := balanceMinor i - amount\<rparr>)"
  by (auto simp: canSpend_def availableMinor_def split: option.split)

text \<open>
  The sign rule is one rule: an append is accepted exactly for a known kind with a non-zero amount
  whose sign is the one the kind is stored with, so a kind with a fixed direction never carries the
  other one and an adjustment may carry either.
\<close>

theorem assertLedgerSign_exact:
  "assertLedgerSign kind amount = Inr () \<longleftrightarrow>
     (\<exists>sign. LEDGER_SIGN kind = Some sign \<and> amount \<noteq> 0 \<and> (sign = None \<or> sign = Some (sgn amount)))"
  by (auto simp: assertLedgerSign_def sign_of_cases split: option.split)

end
