(* ===== verification/Ledger_Integrity.thy ===== *)
theory Ledger_Integrity
  imports Ledger
begin

text \<open>
  Ledger integrity and sub-ledger reconciliation (\<open>packages/money/src/ledger-integrity.ts\<close>): the rules
  every stored entry must keep, the booking lifecycle folded from the entries, the tie-out to the
  bookings, receipts, adjustments and their audit events, and the per-currency roll-forward.
  A \<open>Date\<close> is its time in milliseconds.
\<close>

subsection \<open>Codes and severities\<close>

datatype IntegritySeverity = critical | warning

datatype IntegrityCode =
    ENTRY_SIGN_INVALID | ENTRY_CURRENCY_MISMATCH | ENTRY_ACCOUNT_UNKNOWN
  | ACCOUNT_OVER_CREDIT_LINE
  | BOOKING_SPLIT_ACROSS_ACCOUNTS | RESERVATION_OVER_RELEASED | SETTLEMENT_UNBALANCED | CHARGE_WITHOUT_RESERVATION
  | REFUND_EXCEEDS_CHARGE | RESERVATION_STALE
  | BOOKING_NOT_FOUND | CHARGE_AMOUNT_MISMATCH | CONFIRMED_NOT_CHARGED | CHARGED_NOT_CONFIRMED | RESERVATION_ON_CLOSED_BOOKING
  | CANCELLED_REFUND_NOT_POSTED | REFUND_MISMATCH
  | RECEIPT_NOT_IN_LEDGER | CREDIT_WITHOUT_RECEIPT
  | ADJUSTMENT_WITHOUT_APPROVAL | REVERSAL_EXCEEDS_RECEIPT
  | ADJUSTMENT_AUDIT_MISSING
  | LEDGER_CHAIN_BROKEN | LEDGER_CHAIN_ENTRY_UNCHAINED

fun INTEGRITY_SEVERITY :: "IntegrityCode \<Rightarrow> IntegritySeverity" where
  "INTEGRITY_SEVERITY ACCOUNT_OVER_CREDIT_LINE = warning"
| "INTEGRITY_SEVERITY RESERVATION_STALE = warning"
| "INTEGRITY_SEVERITY _ = critical"

fun code_text :: "IntegrityCode \<Rightarrow> string" where
  "code_text ENTRY_SIGN_INVALID = ''ENTRY_SIGN_INVALID''"
| "code_text ENTRY_CURRENCY_MISMATCH = ''ENTRY_CURRENCY_MISMATCH''"
| "code_text ENTRY_ACCOUNT_UNKNOWN = ''ENTRY_ACCOUNT_UNKNOWN''"
| "code_text ACCOUNT_OVER_CREDIT_LINE = ''ACCOUNT_OVER_CREDIT_LINE''"
| "code_text BOOKING_SPLIT_ACROSS_ACCOUNTS = ''BOOKING_SPLIT_ACROSS_ACCOUNTS''"
| "code_text RESERVATION_OVER_RELEASED = ''RESERVATION_OVER_RELEASED''"
| "code_text SETTLEMENT_UNBALANCED = ''SETTLEMENT_UNBALANCED''"
| "code_text CHARGE_WITHOUT_RESERVATION = ''CHARGE_WITHOUT_RESERVATION''"
| "code_text REFUND_EXCEEDS_CHARGE = ''REFUND_EXCEEDS_CHARGE''"
| "code_text RESERVATION_STALE = ''RESERVATION_STALE''"
| "code_text BOOKING_NOT_FOUND = ''BOOKING_NOT_FOUND''"
| "code_text CHARGE_AMOUNT_MISMATCH = ''CHARGE_AMOUNT_MISMATCH''"
| "code_text CONFIRMED_NOT_CHARGED = ''CONFIRMED_NOT_CHARGED''"
| "code_text CHARGED_NOT_CONFIRMED = ''CHARGED_NOT_CONFIRMED''"
| "code_text RESERVATION_ON_CLOSED_BOOKING = ''RESERVATION_ON_CLOSED_BOOKING''"
| "code_text CANCELLED_REFUND_NOT_POSTED = ''CANCELLED_REFUND_NOT_POSTED''"
| "code_text REFUND_MISMATCH = ''REFUND_MISMATCH''"
| "code_text RECEIPT_NOT_IN_LEDGER = ''RECEIPT_NOT_IN_LEDGER''"
| "code_text CREDIT_WITHOUT_RECEIPT = ''CREDIT_WITHOUT_RECEIPT''"
| "code_text ADJUSTMENT_WITHOUT_APPROVAL = ''ADJUSTMENT_WITHOUT_APPROVAL''"
| "code_text REVERSAL_EXCEEDS_RECEIPT = ''REVERSAL_EXCEEDS_RECEIPT''"
| "code_text ADJUSTMENT_AUDIT_MISSING = ''ADJUSTMENT_AUDIT_MISSING''"
| "code_text LEDGER_CHAIN_BROKEN = ''LEDGER_CHAIN_BROKEN''"
| "code_text LEDGER_CHAIN_ENTRY_UNCHAINED = ''LEDGER_CHAIN_ENTRY_UNCHAINED''"

subsection \<open>Records\<close>

record IntegrityAccount =
  ia_id :: string
  ia_currency :: string
  ia_agencyId :: "string option"
  ia_creditLineMinor :: int

record IntegrityEntry =
  ie_id :: string
  ie_accountId :: string
  ie_type :: LedgerEntryKind
  ie_amountMinor :: int
  ie_currency :: string
  ie_reference :: "string option"
  ie_idempotencyKey :: string
  ie_at :: int

text \<open>\<open>cancellationRefundMinor\<close>: undefined is \<open>None\<close>, null is \<open>Some None\<close>.\<close>

record IntegrityBooking =
  ib_id :: string
  ib_status :: string
  ib_currency :: string
  ib_totalMinor :: int
  ib_cancellationRefundMinor :: "int option option"

record IntegrityReceipt =
  ir_id :: string
  ir_status :: string
  ir_accountId :: "string option"
  ir_ledgerEntryId :: "string option"
  ir_amountMinor :: int
  ir_currency :: string

record IntegrityAdjustment =
  ij_id :: string
  ij_kind :: string
  ij_status :: string
  ij_accountId :: string
  ij_ledgerEntryId :: "string option"
  ij_amountMinor :: int
  ij_currency :: string
  ij_receiptId :: "string option"

record IntegrityAdjustmentAudit =
  iu_adjustmentId :: string
  iu_ledgerEntryId :: "string option"

datatype ChainReason = SEQUENCE_GAP | PREV_HASH_MISMATCH | ENTRY_MISSING | ENTRY_HASH_MISMATCH | ENTRY_UNCHAINED

record ChainBreak =
  cb_accountId :: string
  cb_entryId :: "string option"
  cb_seq :: "int option"
  cb_reason :: ChainReason

record IntegrityInput =
  in_accounts :: "IntegrityAccount list"
  in_entries :: "IntegrityEntry list"
  in_bookings :: "IntegrityBooking list"
  in_receipts :: "IntegrityReceipt list"
  in_adjustments :: "IntegrityAdjustment list option"
  in_adjustmentAudits :: "IntegrityAdjustmentAudit list option"
  in_chainBreaks :: "ChainBreak list option"
  in_now :: int
  in_staleReservationMinutes :: int

record IntegrityFinding =
  fi_code :: IntegrityCode
  fi_severity :: IntegritySeverity
  fi_currency :: "string option"
  fi_accountId :: "string option"
  fi_bookingId :: "string option"
  fi_receiptId :: "string option"
  fi_entryId :: "string option"
  fi_amounts :: "(string \<times> int) list"

record IntegrityCurrencyTotals =
  ct_currency :: string
  ct_accounts :: int
  ct_entries :: int
  ct_fundingCreditsMinor :: int
  ct_otherCreditsMinor :: int
  ct_chargesMinor :: int
  ct_refundsMinor :: int
  ct_openReservationsMinor :: int
  ct_balanceMinor :: int
  ct_adjustmentsMinor :: int
  ct_reversalsMinor :: int
  ct_postedReceiptsMinor :: int

record BookingLedgerFacts =
  bf_bookingId :: string
  bf_accountIds :: "string list"
  bf_currency :: string
  bf_holdMinor :: int
  bf_releasedMinor :: int
  bf_settleReleaseMinor :: int
  bf_chargeMinor :: int
  bf_refundMinor :: int
  bf_firstHoldAt :: "int option"

record IntegrityReport =
  rp_findings :: "IntegrityFinding list"
  rp_totals :: "IntegrityCurrencyTotals list"
  rp_bookingsChecked :: nat
  rp_receiptsChecked :: nat

subsection \<open>What a reference names\<close>

definition CHARGED_STATES :: "string list" where
  "CHARGED_STATES = [''CONFIRMED'', ''AMEND_REQUESTED'', ''CANCEL_REQUESTED'', ''CHECKED_OUT'', ''NO_SHOW'']"

definition UNCHARGED_CLOSED_STATES :: "string list" where
  "UNCHARGED_CLOSED_STATES = [''FAILED'', ''REJECTED'']"

text \<open>The patterns \<open>/^booking:(.+)$/\<close> and \<open>/^funding:(.+)$/\<close> and the group they capture.\<close>

definition capture_ref :: "string \<Rightarrow> string \<Rightarrow> string option" where
  "capture_ref prefix s =
     (case after_prefix prefix s of
        None \<Rightarrow> None
      | Some t \<Rightarrow> if t \<noteq> [] \<and> list_all is_dot t then Some t else None)"

definition BOOKING_REF :: "string \<Rightarrow> string option" where
  "BOOKING_REF = capture_ref ''booking:''"

definition FUNDING_REF :: "string \<Rightarrow> string option" where
  "FUNDING_REF = capture_ref ''funding:''"

definition bookingIdOf :: "string option \<Rightarrow> string option" where
  "bookingIdOf reference = (case reference of None \<Rightarrow> None | Some r \<Rightarrow> if r = [] then None else BOOKING_REF r)"

definition fundingIdOf :: "IntegrityEntry \<Rightarrow> string option" where
  "fundingIdOf e =
     (if ie_type e = ''CREDIT'' then case ie_reference e of None \<Rightarrow> None | Some r \<Rightarrow> if r = [] then None else FUNDING_REF r
      else None)"

subsection \<open>Facts per booking\<close>

definition new_facts :: "string \<Rightarrow> IntegrityEntry \<Rightarrow> BookingLedgerFacts" where
  "new_facts bookingId e = \<lparr>bf_bookingId = bookingId, bf_accountIds = [], bf_currency = ie_currency e, bf_holdMinor = 0,
     bf_releasedMinor = 0, bf_settleReleaseMinor = 0, bf_chargeMinor = 0, bf_refundMinor = 0, bf_firstHoldAt = None\<rparr>"

definition add_fact :: "BookingLedgerFacts \<Rightarrow> IntegrityEntry \<Rightarrow> BookingLedgerFacts" where
  "add_fact f0 e =
     (let f = f0\<lparr>bf_accountIds := set_add (ie_accountId e) (bf_accountIds f0)\<rparr> in
      if ie_type e = ''HOLD'' then
        f\<lparr>bf_holdMinor := bf_holdMinor f + \<bar>ie_amountMinor e\<bar>,
          bf_firstHoldAt := (case bf_firstHoldAt f of
             None \<Rightarrow> Some (ie_at e)
           | Some at \<Rightarrow> if ie_at e < at then Some (ie_at e) else Some at)\<rparr>
      else if ie_type e = ''RELEASE'' then
        (if endsWith (ie_idempotencyKey e) '':settle-release''
         then f\<lparr>bf_settleReleaseMinor := bf_settleReleaseMinor f + ie_amountMinor e\<rparr>
         else f\<lparr>bf_releasedMinor := bf_releasedMinor f + ie_amountMinor e\<rparr>)
      else if ie_type e = ''DEBIT'' then f\<lparr>bf_chargeMinor := bf_chargeMinor f + \<bar>ie_amountMinor e\<bar>\<rparr>
      else if ie_type e = ''REFUND'' then f\<lparr>bf_refundMinor := bf_refundMinor f + ie_amountMinor e\<rparr>
      else f)"

fun facts_loop :: "(string, BookingLedgerFacts) omap \<Rightarrow> IntegrityEntry list \<Rightarrow> (string, BookingLedgerFacts) omap" where
  "facts_loop facts [] = facts"
| "facts_loop facts (e # es) =
     (case bookingIdOf (ie_reference e) of
        None \<Rightarrow> facts_loop facts es
      | Some bookingId \<Rightarrow>
          facts_loop (omap_put bookingId (add_fact (omap_getd (\<lambda>_. new_facts bookingId e) facts bookingId) e) facts) es)"

definition bookingLedgerFacts :: "IntegrityEntry list \<Rightarrow> (string, BookingLedgerFacts) omap" where
  "bookingLedgerFacts entries = facts_loop [] entries"

definition openReservationMinor :: "BookingLedgerFacts \<Rightarrow> int" where
  "openReservationMinor f = bf_holdMinor f - bf_releasedMinor f - bf_settleReleaseMinor f"

subsection \<open>Totals per currency\<close>

definition new_totals :: "string \<Rightarrow> IntegrityCurrencyTotals" where
  "new_totals c = \<lparr>ct_currency = c, ct_accounts = 0, ct_entries = 0, ct_fundingCreditsMinor = 0, ct_otherCreditsMinor = 0,
     ct_chargesMinor = 0, ct_refundsMinor = 0, ct_openReservationsMinor = 0, ct_balanceMinor = 0, ct_adjustmentsMinor = 0,
     ct_reversalsMinor = 0, ct_postedReceiptsMinor = 0\<rparr>"

text \<open>Updating the row \<open>totalsFor\<close> returns, which it creates when the currency is new.\<close>

definition totalsFor ::
  "string \<Rightarrow> (IntegrityCurrencyTotals \<Rightarrow> IntegrityCurrencyTotals) \<Rightarrow> (string, IntegrityCurrencyTotals) omap
    \<Rightarrow> (string, IntegrityCurrencyTotals) omap" where
  "totalsFor c f totals = omap_put c (f (omap_getd new_totals totals c)) totals"

definition count_account :: "IntegrityCurrencyTotals \<Rightarrow> IntegrityCurrencyTotals" where
  "count_account row = row\<lparr>ct_accounts := ct_accounts row + 1\<rparr>"

definition add_entry :: "IntegrityEntry \<Rightarrow> IntegrityCurrencyTotals \<Rightarrow> IntegrityCurrencyTotals" where
  "add_entry e row0 =
     (let row = row0\<lparr>ct_entries := ct_entries row0 + 1, ct_balanceMinor := ct_balanceMinor row0 + ie_amountMinor e\<rparr>;
          amount = ie_amountMinor e in
      if ie_type e = ''CREDIT'' then
        (if fundingIdOf e \<noteq> None then row\<lparr>ct_fundingCreditsMinor := ct_fundingCreditsMinor row + amount\<rparr>
         else row\<lparr>ct_otherCreditsMinor := ct_otherCreditsMinor row + amount\<rparr>)
      else if ie_type e = ''DEBIT'' then row\<lparr>ct_chargesMinor := ct_chargesMinor row + \<bar>amount\<bar>\<rparr>
      else if ie_type e = ''REFUND'' then row\<lparr>ct_refundsMinor := ct_refundsMinor row + amount\<rparr>
      else if ie_type e = ''ADJUSTMENT'' then row\<lparr>ct_adjustmentsMinor := ct_adjustmentsMinor row + amount\<rparr>
      else if ie_type e = ''REVERSAL'' then row\<lparr>ct_reversalsMinor := ct_reversalsMinor row + \<bar>amount\<bar>\<rparr>
      else row\<lparr>ct_openReservationsMinor := ct_openReservationsMinor row - amount\<rparr>)"

definition add_receipt :: "IntegrityReceipt \<Rightarrow> IntegrityCurrencyTotals \<Rightarrow> IntegrityCurrencyTotals" where
  "add_receipt r row = row\<lparr>ct_postedReceiptsMinor := ct_postedReceiptsMinor row + ir_amountMinor r\<rparr>"

text \<open>The three loops that touch the totals: accounts, entries, posted receipts.\<close>

definition currency_totals :: "IntegrityInput \<Rightarrow> (string, IntegrityCurrencyTotals) omap" where
  "currency_totals i =
     (let t1 = foldl (\<lambda>t a. totalsFor (ia_currency a) count_account t) [] (in_accounts i);
          t2 = foldl (\<lambda>t e. totalsFor (ie_currency e) (add_entry e) t) t1 (in_entries i) in
      foldl (\<lambda>t r. if ir_status r \<noteq> ''POSTED'' then t else totalsFor (ir_currency r) (add_receipt r) t) t2 (in_receipts i))"

subsection \<open>Findings\<close>

text \<open>The partial record of what a finding points at; an absent field is null in the finding.\<close>

record finding_at =
  at_currency :: "string option"
  at_accountId :: "string option"
  at_bookingId :: "string option"
  at_receiptId :: "string option"
  at_entryId :: "string option"

definition nowhere :: finding_at where
  "nowhere = \<lparr>at_currency = None, at_accountId = None, at_bookingId = None, at_receiptId = None, at_entryId = None\<rparr>"

definition finding :: "IntegrityCode \<Rightarrow> finding_at \<Rightarrow> (string \<times> int) list \<Rightarrow> IntegrityFinding" where
  "finding code at amounts = \<lparr>fi_code = code, fi_severity = INTEGRITY_SEVERITY code, fi_currency = at_currency at,
     fi_accountId = at_accountId at, fi_bookingId = at_bookingId at, fi_receiptId = at_receiptId at,
     fi_entryId = at_entryId at, fi_amounts = amounts\<rparr>"

text \<open>\<open>if (condition) add(code, at, amounts)\<close>.\<close>

definition add_if :: "bool \<Rightarrow> IntegrityCode \<Rightarrow> finding_at \<Rightarrow> (string \<times> int) list \<Rightarrow> IntegrityFinding list" where
  "add_if condition code at amounts = (if condition then [finding code at amounts] else [])"

lemma add_if_Nil [simp]: "add_if c code at amounts = [] \<longleftrightarrow> \<not> c"
  by (simp add: add_if_def)

lemma add_if_code: "f \<in> set (add_if c code at amounts) \<longleftrightarrow> c \<and> f = finding code at amounts"
  by (auto simp: add_if_def)

definition entry_findings :: "IntegrityAccount list \<Rightarrow> IntegrityEntry \<Rightarrow> IntegrityFinding list" where
  "entry_findings accounts e =
     (let at = nowhere\<lparr>at_currency := Some (ie_currency e), at_accountId := Some (ie_accountId e),
                       at_entryId := Some (ie_id e), at_bookingId := bookingIdOf (ie_reference e)\<rparr>;
          amounts = [(''amountMinor'', ie_amountMinor e)] in
      add_if (\<not> isLedgerSignValid (ie_type e) (ie_amountMinor e)) ENTRY_SIGN_INVALID at amounts @
      (case last_with ia_id accounts (ie_accountId e) of
         None \<Rightarrow> [finding ENTRY_ACCOUNT_UNKNOWN at amounts]
       | Some account \<Rightarrow> add_if (ia_currency account \<noteq> ie_currency e) ENTRY_CURRENCY_MISMATCH at amounts))"

definition entry_balances :: "IntegrityEntry list \<Rightarrow> (string, int) omap" where
  "entry_balances entries = group_by ie_accountId (\<lambda>_. 0) (\<lambda>b e. b + ie_amountMinor e) entries"

definition account_findings :: "(string, int) omap \<Rightarrow> IntegrityAccount \<Rightarrow> IntegrityFinding list" where
  "account_findings balances a =
     (let balance = omap_getd (\<lambda>_. 0) balances (ia_id a) in
      add_if (balance + ia_creditLineMinor a < 0) ACCOUNT_OVER_CREDIT_LINE
        (nowhere\<lparr>at_currency := Some (ia_currency a), at_accountId := Some (ia_id a)\<rparr>)
        [(''balanceMinor'', balance), (''creditLineMinor'', ia_creditLineMinor a),
         (''overByMinor'', - (balance + ia_creditLineMinor a))])"

definition facts_at :: "BookingLedgerFacts \<Rightarrow> finding_at" where
  "facts_at f = nowhere\<lparr>at_currency := Some (bf_currency f), at_bookingId := Some (bf_bookingId f),
     at_accountId := (case bf_accountIds f of [a] \<Rightarrow> Some a | _ \<Rightarrow> None)\<rparr>"

definition lifecycle_findings :: "int \<Rightarrow> BookingLedgerFacts \<Rightarrow> IntegrityFinding list" where
  "lifecycle_findings staleBefore f =
     (let at = facts_at f; open = openReservationMinor f in
      add_if (length (bf_accountIds f) > 1) BOOKING_SPLIT_ACROSS_ACCOUNTS at [(''accounts'', int (length (bf_accountIds f)))] @
      add_if (open < 0) RESERVATION_OVER_RELEASED at
        [(''holdMinor'', bf_holdMinor f), (''releasedMinor'', bf_releasedMinor f), (''settleReleaseMinor'', bf_settleReleaseMinor f)] @
      add_if (bf_settleReleaseMinor f \<noteq> bf_chargeMinor f) SETTLEMENT_UNBALANCED at
        [(''settleReleaseMinor'', bf_settleReleaseMinor f), (''chargeMinor'', bf_chargeMinor f)] @
      add_if (bf_chargeMinor f > 0 \<and> bf_holdMinor f = 0) CHARGE_WITHOUT_RESERVATION at [(''chargeMinor'', bf_chargeMinor f)] @
      add_if (bf_refundMinor f > bf_chargeMinor f) REFUND_EXCEEDS_CHARGE at
        [(''chargeMinor'', bf_chargeMinor f), (''refundMinor'', bf_refundMinor f)] @
      add_if (open > 0 \<and> (case bf_firstHoldAt f of None \<Rightarrow> False | Some first \<Rightarrow> first < staleBefore)) RESERVATION_STALE at
        [(''openReservationMinor'', open)])"

definition cancellation_findings :: "BookingLedgerFacts \<Rightarrow> IntegrityBooking \<Rightarrow> IntegrityFinding list" where
  "cancellation_findings f b =
     (if ib_status b = ''CANCELLED'' \<and> bf_chargeMinor f > 0 then
        case ib_cancellationRefundMinor b of
          None \<Rightarrow> [finding CANCELLED_REFUND_NOT_POSTED (facts_at f)
            [(''chargeMinor'', bf_chargeMinor f), (''refundMinor'', bf_refundMinor f)]]
        | Some r \<Rightarrow>
            let expected = (case r of None \<Rightarrow> 0 | Some x \<Rightarrow> x) in
            add_if (expected \<noteq> bf_refundMinor f) REFUND_MISMATCH (facts_at f)
              [(''expectedRefundMinor'', expected), (''refundMinor'', bf_refundMinor f)]
      else [])"

definition tie_out_findings :: "IntegrityBooking list \<Rightarrow> BookingLedgerFacts \<Rightarrow> IntegrityFinding list" where
  "tie_out_findings bookings f =
     (let at = facts_at f; open = openReservationMinor f in
      case last_with ib_id bookings (bf_bookingId f) of
        None \<Rightarrow> [finding BOOKING_NOT_FOUND at
          [(''holdMinor'', bf_holdMinor f), (''chargeMinor'', bf_chargeMinor f), (''refundMinor'', bf_refundMinor f)]]
      | Some b \<Rightarrow>
          add_if (ib_currency b \<noteq> bf_currency f \<or> (bf_holdMinor f > 0 \<and> bf_holdMinor f \<noteq> ib_totalMinor b)
                  \<or> (bf_chargeMinor f > 0 \<and> bf_chargeMinor f \<noteq> ib_totalMinor b)) CHARGE_AMOUNT_MISMATCH at
            [(''bookingTotalMinor'', ib_totalMinor b), (''holdMinor'', bf_holdMinor f), (''chargeMinor'', bf_chargeMinor f)] @
          add_if (bf_holdMinor f > 0 \<and> ib_status b \<in> set CHARGED_STATES \<and> bf_chargeMinor f = 0) CONFIRMED_NOT_CHARGED at
            [(''bookingTotalMinor'', ib_totalMinor b), (''openReservationMinor'', open)] @
          add_if (bf_chargeMinor f > 0 \<and> ib_status b \<notin> set CHARGED_STATES \<and> ib_status b \<noteq> ''CANCELLED'') CHARGED_NOT_CONFIRMED at
            [(''chargeMinor'', bf_chargeMinor f)] @
          add_if (open > 0 \<and> (ib_status b \<in> set UNCHARGED_CLOSED_STATES \<or> ib_status b = ''CANCELLED''))
            RESERVATION_ON_CLOSED_BOOKING at [(''openReservationMinor'', open)] @
          cancellation_findings f b)"

definition receipt_entry :: "IntegrityEntry list \<Rightarrow> IntegrityReceipt \<Rightarrow> IntegrityEntry option" where
  "receipt_entry entries r =
     (case ir_ledgerEntryId r of None \<Rightarrow> None | Some x \<Rightarrow> if x = [] then None else last_with ie_id entries x)"

definition receipt_findings :: "IntegrityEntry list \<Rightarrow> IntegrityReceipt \<Rightarrow> IntegrityFinding list" where
  "receipt_findings entries r =
     (let e = receipt_entry entries r;
          at = nowhere\<lparr>at_currency := Some (ir_currency r), at_receiptId := Some (ir_id r), at_accountId := ir_accountId r,
                       at_entryId := ir_ledgerEntryId r\<rparr> in
      add_if (ir_status r = ''POSTED'' \<and>
              (case e of None \<Rightarrow> True
               | Some e \<Rightarrow> ie_type e \<noteq> ''CREDIT'' \<or> ie_amountMinor e \<noteq> ir_amountMinor r \<or> ie_currency e \<noteq> ir_currency r
                           \<or> Some (ie_accountId e) \<noteq> ir_accountId r \<or> ie_reference e \<noteq> Some (''funding:'' @ ir_id r)))
        RECEIPT_NOT_IN_LEDGER at
        [(''receiptMinor'', ir_amountMinor r), (''ledgerMinor'', case e of None \<Rightarrow> 0 | Some e \<Rightarrow> ie_amountMinor e)])"

definition credit_findings :: "IntegrityReceipt list \<Rightarrow> IntegrityEntry \<Rightarrow> IntegrityFinding list" where
  "credit_findings receipts e =
     (case fundingIdOf e of
        None \<Rightarrow> []
      | Some receiptId \<Rightarrow>
          add_if (case last_with ir_id receipts receiptId of
                    None \<Rightarrow> True
                  | Some r \<Rightarrow> ir_status r \<noteq> ''POSTED'' \<or> ir_ledgerEntryId r \<noteq> Some (ie_id e))
            CREDIT_WITHOUT_RECEIPT
            (nowhere\<lparr>at_currency := Some (ie_currency e), at_accountId := Some (ie_accountId e), at_entryId := Some (ie_id e),
                     at_receiptId := Some receiptId\<rparr>)
            [(''amountMinor'', ie_amountMinor e)])"

subsection \<open>Adjustments, audit evidence, chain breaks\<close>

definition truthy_text :: "string option \<Rightarrow> bool" where
  "truthy_text t \<longleftrightarrow> t \<noteq> None \<and> t \<noteq> Some []"

definition approved_for :: "IntegrityAdjustment list \<Rightarrow> string \<Rightarrow> IntegrityAdjustment option" where
  "approved_for adjustments entryId =
     last_with (\<lambda>a. ij_ledgerEntryId a) (filter (\<lambda>a. ij_status a = ''APPROVED'' \<and> truthy_text (ij_ledgerEntryId a)) adjustments)
       (Some entryId)"

definition adjustment_kind :: "IntegrityEntry \<Rightarrow> bool" where
  "adjustment_kind e \<longleftrightarrow> ie_type e = ''ADJUSTMENT'' \<or> ie_type e = ''REVERSAL''"

definition adjustment_agrees :: "IntegrityAdjustment option \<Rightarrow> IntegrityEntry \<Rightarrow> bool" where
  "adjustment_agrees a e =
     (case a of None \<Rightarrow> False
      | Some a \<Rightarrow> ij_kind a = ie_type e \<and> ij_accountId a = ie_accountId e \<and> ij_amountMinor a = ie_amountMinor e
                  \<and> ij_currency a = ie_currency e)"

definition entry_at :: "IntegrityEntry \<Rightarrow> finding_at" where
  "entry_at e = nowhere\<lparr>at_currency := Some (ie_currency e), at_accountId := Some (ie_accountId e), at_entryId := Some (ie_id e)\<rparr>"

definition adjustment_findings :: "IntegrityAdjustment list \<Rightarrow> IntegrityEntry \<Rightarrow> IntegrityFinding list" where
  "adjustment_findings adjustments e =
     (let a = approved_for adjustments (ie_id e) in
      add_if (adjustment_kind e \<and> \<not> adjustment_agrees a e) ADJUSTMENT_WITHOUT_APPROVAL (entry_at e)
        [(''amountMinor'', ie_amountMinor e), (''recordedMinor'', case a of None \<Rightarrow> 0 | Some a \<Rightarrow> ij_amountMinor a)])"

text \<open>The receipt an approved reversal entry takes back, when it names one.\<close>

definition reversed_receipt :: "IntegrityAdjustment list \<Rightarrow> IntegrityEntry \<Rightarrow> string option" where
  "reversed_receipt adjustments e =
     (case approved_for adjustments (ie_id e) of
        None \<Rightarrow> None
      | Some a \<Rightarrow> if adjustment_agrees (Some a) e \<and> ie_type e = ''REVERSAL'' \<and> truthy_text (ij_receiptId a) then ij_receiptId a
                  else None)"

definition reversedByReceipt :: "IntegrityAdjustment list \<Rightarrow> IntegrityEntry list \<Rightarrow> (string, int) omap" where
  "reversedByReceipt adjustments entries =
     foldl (\<lambda>m e. case reversed_receipt adjustments e of
                    None \<Rightarrow> m
                  | Some receiptId \<Rightarrow> omap_put receiptId (omap_getd (\<lambda>_. 0) m receiptId + \<bar>ie_amountMinor e\<bar>) m) [] entries"

definition reversal_findings :: "IntegrityReceipt list \<Rightarrow> string \<times> int \<Rightarrow> IntegrityFinding list" where
  "reversal_findings receipts x =
     (let (receiptId, reversed) = x; r = last_with ir_id receipts receiptId in
      add_if (case r of None \<Rightarrow> True | Some r \<Rightarrow> ir_status r \<noteq> ''POSTED'' \<or> reversed > ir_amountMinor r) REVERSAL_EXCEEDS_RECEIPT
        (nowhere\<lparr>at_currency := map_option ir_currency r, at_receiptId := Some receiptId,
                 at_accountId := (case r of None \<Rightarrow> None | Some r \<Rightarrow> ir_accountId r)\<rparr>)
        [(''receiptMinor'', case r of None \<Rightarrow> 0 | Some r \<Rightarrow> ir_amountMinor r), (''reversedMinor'', reversed)])"

definition audit_evidence :: "IntegrityAdjustmentAudit list \<Rightarrow> string list" where
  "audit_evidence audits =
     concat (map (\<lambda>a. case iu_ledgerEntryId a of
       None \<Rightarrow> [] | Some x \<Rightarrow> if x = [] then [] else [iu_adjustmentId a @ '':'' @ x]) audits)"

definition audit_findings ::
  "IntegrityAdjustment list \<Rightarrow> IntegrityAdjustmentAudit list \<Rightarrow> IntegrityEntry \<Rightarrow> IntegrityFinding list" where
  "audit_findings adjustments audits e =
     (case approved_for adjustments (ie_id e) of
        None \<Rightarrow> []
      | Some a \<Rightarrow> add_if (adjustment_kind e \<and> adjustment_agrees (Some a) e
                        \<and> ij_id a @ '':'' @ ie_id e \<notin> set (audit_evidence audits))
                    ADJUSTMENT_AUDIT_MISSING (entry_at e) [(''amountMinor'', ie_amountMinor e)])"

definition chain_finding :: "IntegrityAccount list \<Rightarrow> ChainBreak \<Rightarrow> IntegrityFinding" where
  "chain_finding accounts b =
     finding (if cb_reason b = ENTRY_UNCHAINED then LEDGER_CHAIN_ENTRY_UNCHAINED else LEDGER_CHAIN_BROKEN)
       (nowhere\<lparr>at_currency := map_option ia_currency (last_with ia_id accounts (cb_accountId b)),
                at_accountId := Some (cb_accountId b), at_entryId := cb_entryId b\<rparr>)
       (case cb_seq b of None \<Rightarrow> [] | Some n \<Rightarrow> [(''seq'', n)])"

subsection \<open>The report\<close>

definition severity_order :: "IntegrityFinding \<Rightarrow> int" where
  "severity_order f = (if fi_severity f = critical then 0 else 1)"

definition finding_place :: "IntegrityFinding \<Rightarrow> string" where
  "finding_place f = (case fi_bookingId f of Some b \<Rightarrow> b | None \<Rightarrow> case fi_accountId f of Some a \<Rightarrow> a | None \<Rightarrow> [])"

definition cmp_finding :: "(string \<Rightarrow> string \<Rightarrow> int) \<Rightarrow> IntegrityFinding \<Rightarrow> IntegrityFinding \<Rightarrow> int" where
  "cmp_finding collate x y =
     cmp_then (severity_order x - severity_order y)
       (cmp_then (collate (code_text (fi_code x)) (code_text (fi_code y))) (collate (finding_place x) (finding_place y)))"

definition adjustment_section :: "IntegrityInput \<Rightarrow> IntegrityFinding list" where
  "adjustment_section i =
     (case in_adjustments i of
        None \<Rightarrow> []
      | Some adjustments \<Rightarrow>
          concat (map (adjustment_findings adjustments) (in_entries i)) @
          concat (map (reversal_findings (in_receipts i)) (reversedByReceipt adjustments (in_entries i))) @
          (case in_adjustmentAudits i of
             None \<Rightarrow> []
           | Some audits \<Rightarrow> concat (map (audit_findings adjustments audits) (in_entries i))))"

definition all_findings :: "IntegrityInput \<Rightarrow> IntegrityFinding list" where
  "all_findings i =
     (let facts = omap_values (bookingLedgerFacts (in_entries i));
          staleBefore = in_now i - in_staleReservationMinutes i * 60000 in
      concat (map (entry_findings (in_accounts i)) (in_entries i)) @
      concat (map (account_findings (entry_balances (in_entries i))) (in_accounts i)) @
      concat (map (\<lambda>f. lifecycle_findings staleBefore f @ tie_out_findings (in_bookings i) f) facts) @
      concat (map (receipt_findings (in_entries i)) (in_receipts i)) @
      concat (map (credit_findings (in_receipts i)) (in_entries i)) @
      adjustment_section i @
      (case in_chainBreaks i of None \<Rightarrow> [] | Some breaks \<Rightarrow> map (chain_finding (in_accounts i)) breaks))"

definition checkLedgerIntegrity :: "(string \<Rightarrow> string \<Rightarrow> int) \<Rightarrow> IntegrityInput \<Rightarrow> IntegrityReport" where
  "checkLedgerIntegrity collate i =
     \<lparr>rp_findings = js_sort (cmp_finding collate) (all_findings i),
      rp_totals = js_sort (\<lambda>x y. collate (ct_currency x) (ct_currency y)) (omap_values (currency_totals i)),
      rp_bookingsChecked = length (bookingLedgerFacts (in_entries i)),
      rp_receiptsChecked = length (in_receipts i)\<rparr>"

subsection \<open>The facts of a booking, from its entries alone\<close>

definition of_booking :: "string \<Rightarrow> IntegrityEntry \<Rightarrow> bool" where
  "of_booking b e \<longleftrightarrow> bookingIdOf (ie_reference e) = Some b"

definition of_type :: "string \<Rightarrow> IntegrityEntry \<Rightarrow> bool" where
  "of_type t e \<longleftrightarrow> ie_type e = t"

definition is_settle_release :: "IntegrityEntry \<Rightarrow> bool" where
  "is_settle_release e \<longleftrightarrow> endsWith (ie_idempotencyKey e) '':settle-release''"

definition held :: "IntegrityEntry list \<Rightarrow> int" where
  "held = sum_where (of_type ''HOLD'') (\<lambda>e. \<bar>ie_amountMinor e\<bar>)"

definition released :: "IntegrityEntry list \<Rightarrow> int" where
  "released = sum_where (\<lambda>e. of_type ''RELEASE'' e \<and> \<not> is_settle_release e) ie_amountMinor"

definition settle_released :: "IntegrityEntry list \<Rightarrow> int" where
  "settle_released = sum_where (\<lambda>e. of_type ''RELEASE'' e \<and> is_settle_release e) ie_amountMinor"

definition charged :: "IntegrityEntry list \<Rightarrow> int" where
  "charged = sum_where (of_type ''DEBIT'') (\<lambda>e. \<bar>ie_amountMinor e\<bar>)"

definition refunded :: "IntegrityEntry list \<Rightarrow> int" where
  "refunded = sum_where (of_type ''REFUND'') ie_amountMinor"

definition entry_booking :: "IntegrityEntry \<Rightarrow> string" where
  "entry_booking e = (case bookingIdOf (ie_reference e) of None \<Rightarrow> [] | Some b \<Rightarrow> b)"

definition has_booking :: "IntegrityEntry \<Rightarrow> bool" where
  "has_booking e \<longleftrightarrow> bookingIdOf (ie_reference e) \<noteq> None"

abbreviation facts_ini :: "IntegrityEntry \<Rightarrow> BookingLedgerFacts" where
  "facts_ini e \<equiv> new_facts (entry_booking e) e"

lemma facts_loop_group_step:
  "facts_loop m es = foldl (group_step entry_booking facts_ini add_fact) m (filter has_booking es)"
  by (induction es arbitrary: m)
     (auto simp: entry_booking_def has_booking_def group_step_def split: option.split)

lemma bookingLedgerFacts_group_by:
  "bookingLedgerFacts es = group_by entry_booking facts_ini add_fact (filter has_booking es)"
  by (simp add: bookingLedgerFacts_def facts_loop_group_step group_by_def)

lemma filter_of_booking: "filter (\<lambda>e. has_booking e \<and> entry_booking e = b) es = filter (of_booking b) es"
  by (induction es) (auto simp: entry_booking_def has_booking_def of_booking_def split: option.splits)

interpretation fact_held: additive_rows facts_ini add_fact bf_holdMinor
    "\<lambda>e. if of_type ''HOLD'' e then \<bar>ie_amountMinor e\<bar> else 0"
  by unfold_locales (simp_all add: new_facts_def add_fact_def of_type_def Let_def)

interpretation fact_released: additive_rows facts_ini add_fact bf_releasedMinor
    "\<lambda>e. if of_type ''RELEASE'' e \<and> \<not> is_settle_release e then ie_amountMinor e else 0"
  by unfold_locales (simp_all add: new_facts_def add_fact_def of_type_def is_settle_release_def Let_def)

interpretation fact_settled: additive_rows facts_ini add_fact bf_settleReleaseMinor
    "\<lambda>e. if of_type ''RELEASE'' e \<and> is_settle_release e then ie_amountMinor e else 0"
  by unfold_locales (simp_all add: new_facts_def add_fact_def of_type_def is_settle_release_def Let_def)

interpretation fact_charged: additive_rows facts_ini add_fact bf_chargeMinor
    "\<lambda>e. if of_type ''DEBIT'' e then \<bar>ie_amountMinor e\<bar> else 0"
  by unfold_locales (simp_all add: new_facts_def add_fact_def of_type_def Let_def)

interpretation fact_refunded: additive_rows facts_ini add_fact bf_refundMinor
    "\<lambda>e. if of_type ''REFUND'' e then ie_amountMinor e else 0"
  by unfold_locales (simp_all add: new_facts_def add_fact_def of_type_def Let_def)

lemmas facts_sums = fact_held.row_total fact_released.row_total fact_settled.row_total fact_charged.row_total
  fact_refunded.row_total

definition account_set :: "IntegrityEntry list \<Rightarrow> string list" where
  "account_set es = foldl (\<lambda>xs e. set_add (ie_accountId e) xs) [] es"

definition first_hold :: "IntegrityEntry list \<Rightarrow> int option" where
  "first_hold es = (case map ie_at (filter (of_type ''HOLD'') es) of [] \<Rightarrow> None | x # xs \<Rightarrow> Some (foldl min x xs))"

lemma first_hold_snoc:
  "first_hold (es @ [e]) =
     (if of_type ''HOLD'' e
      then Some (case first_hold es of None \<Rightarrow> ie_at e | Some at \<Rightarrow> if ie_at e < at then ie_at e else at)
      else first_hold es)"
  by (auto simp: first_hold_def min_def split: list.split)

lemma add_fact_other [simp]:
  "bf_bookingId (add_fact f e) = bf_bookingId f"
  "bf_currency (add_fact f e) = bf_currency f"
  "bf_accountIds (add_fact f e) = set_add (ie_accountId e) (bf_accountIds f)"
  "bf_firstHoldAt (add_fact f e) =
     (if of_type ''HOLD'' e
      then Some (case bf_firstHoldAt f of None \<Rightarrow> ie_at e | Some at \<Rightarrow> if ie_at e < at then ie_at e else at)
      else bf_firstHoldAt f)"
  by (simp_all add: add_fact_def Let_def of_type_def split: option.split)

lemma foldl_add_fact_other:
  "bf_bookingId (foldl add_fact (new_facts b e) es) = b"
  "bf_currency (foldl add_fact (new_facts b e) es) = ie_currency e"
  "bf_accountIds (foldl add_fact (new_facts b e) es) = account_set es"
  "bf_firstHoldAt (foldl add_fact (new_facts b e) es) = first_hold es"
proof (induction es rule: rev_induct)
  case Nil
  {
    case 1 show ?case by (simp add: new_facts_def)
  next
    case 2 show ?case by (simp add: new_facts_def)
  next
    case 3 show ?case by (simp add: new_facts_def account_set_def)
  next
    case 4 show ?case by (simp add: new_facts_def first_hold_def)
  }
next
  case (snoc x xs)
  {
    case 1 from snoc show ?case by simp
  next
    case 2 from snoc show ?case by simp
  next
    case 3 from snoc show ?case by (simp add: account_set_def)
  next
    case 4 from snoc show ?case by (simp add: first_hold_snoc)
  }
qed

lemma account_set_props: "set (account_set es) = ie_accountId ` set es \<and> distinct (account_set es)"
  by (induction es rule: rev_induct) (auto simp: account_set_def set_add_def)

text \<open>
  The abstract content of a booking's ledger: what its own entries, in any interleaving with those
  of other bookings, add up to.
\<close>

definition facts_spec :: "string \<Rightarrow> IntegrityEntry list \<Rightarrow> BookingLedgerFacts" where
  "facts_spec b own = \<lparr>bf_bookingId = b, bf_accountIds = account_set own, bf_currency = ie_currency (hd own),
     bf_holdMinor = held own, bf_releasedMinor = released own, bf_settleReleaseMinor = settle_released own,
     bf_chargeMinor = charged own, bf_refundMinor = refunded own, bf_firstHoldAt = first_hold own\<rparr>"

lemma facts_row:
  assumes "group_row facts_ini add_fact own = Some f" "\<And>e. e \<in> set own \<Longrightarrow> entry_booking e = b"
  shows "f = facts_spec b own"
proof -
  obtain e es where own: "own = e # es" using assms(1) by (cases own) (auto simp: group_row_def)
  then have "f = foldl add_fact (new_facts b e) own"
    using assms by (simp add: group_row_def)
  then show ?thesis
    using own facts_sums [OF assms(1)] foldl_add_fact_other [of b e own]
    by (auto simp: facts_spec_def held_def released_def settle_released_def charged_def refunded_def sum_list_if)
qed

lemma in_bookingLedgerFacts:
  "(b, f) \<in> set (bookingLedgerFacts es) \<longleftrightarrow> filter (of_booking b) es \<noteq> [] \<and> f = facts_spec b (filter (of_booking b) es)"
proof -
  let ?own = "filter (of_booking b) es"
  have row: "f = facts_spec b ?own" if "group_row facts_ini add_fact ?own = Some f" for f
    by (rule facts_row [OF that]) (auto simp: of_booking_def entry_booking_def)
  have "(b, f) \<in> set (bookingLedgerFacts es) \<longleftrightarrow> group_row facts_ini add_fact ?own = Some f"
    by (simp add: bookingLedgerFacts_group_by in_set_group_by_iff filter_of_booking)
  then show ?thesis using row by (cases ?own) (auto simp: group_row_def)
qed

text \<open>
  The per-booking fold is exact: a booking has facts exactly when some entry refers to it, and
  they are then the sums of that booking's own entries by kind (with the settle-release split off
  from the plain release), its accounts without repetition and its earliest hold, however the
  entries of different bookings are interleaved.
\<close>

theorem bookingLedgerFacts_exact:
  "omap_get (bookingLedgerFacts es) b =
     (if filter (of_booking b) es = [] then None else Some (facts_spec b (filter (of_booking b) es)))"
proof -
  have "omap_ok (bookingLedgerFacts es)" by (simp add: bookingLedgerFacts_group_by)
  from omap_get_Some_iff [OF this, of b] show ?thesis
    by (cases "omap_get (bookingLedgerFacts es) b") (auto simp: in_bookingLedgerFacts)
qed

lemma set_facts: "set (omap_values (bookingLedgerFacts es)) =
    (\<lambda>b. facts_spec b (filter (of_booking b) es)) ` {b. filter (of_booking b) es \<noteq> []}"
proof (rule set_eqI)
  fix f
  have "f \<in> set (omap_values (bookingLedgerFacts es)) \<longleftrightarrow> (\<exists>b. (b, f) \<in> set (bookingLedgerFacts es))"
    by (force simp: omap_values_def)
  then show "f \<in> set (omap_values (bookingLedgerFacts es)) \<longleftrightarrow>
      f \<in> (\<lambda>b. facts_spec b (filter (of_booking b) es)) ` {b. filter (of_booking b) es \<noteq> []}"
    by (auto simp: in_bookingLedgerFacts image_iff)
qed

subsection \<open>The totals as one grouping\<close>

text \<open>The three loops over the totals are one grouping of the events that touch a currency's row.\<close>

datatype total_event = T_account IntegrityAccount | T_entry IntegrityEntry | T_receipt IntegrityReceipt

fun event_currency :: "total_event \<Rightarrow> string" where
  "event_currency (T_account a) = ia_currency a"
| "event_currency (T_entry e) = ie_currency e"
| "event_currency (T_receipt r) = ir_currency r"

fun event_update :: "IntegrityCurrencyTotals \<Rightarrow> total_event \<Rightarrow> IntegrityCurrencyTotals" where
  "event_update row (T_account a) = count_account row"
| "event_update row (T_entry e) = add_entry e row"
| "event_update row (T_receipt r) = add_receipt r row"

definition total_events :: "IntegrityInput \<Rightarrow> total_event list" where
  "total_events i = map T_account (in_accounts i) @ map T_entry (in_entries i) @
     map T_receipt (filter (\<lambda>r. ir_status r = ''POSTED'') (in_receipts i))"

abbreviation event_ini :: "total_event \<Rightarrow> IntegrityCurrencyTotals" where
  "event_ini x \<equiv> new_totals (event_currency x)"

lemma totalsFor_group_step:
  "totalsFor (event_currency x) (\<lambda>row. event_update row x) m = group_step event_currency event_ini event_update m x"
  by (simp add: totalsFor_def group_step_def omap_getd_def)

lemma foldl_posted:
  "foldl (\<lambda>t r. if ir_status r \<noteq> ''POSTED'' then t else g t r) t rs = foldl g t (filter (\<lambda>r. ir_status r = ''POSTED'') rs)"
  by (induction rs arbitrary: t) simp_all

lemma currency_totals_group_by:
  "currency_totals i = group_by event_currency event_ini event_update (total_events i)"
proof -
  have "foldl (\<lambda>t a. totalsFor (ia_currency a) count_account t) t as =
      foldl (\<lambda>t a. group_step event_currency event_ini event_update t (T_account a)) t as" for t as
    by (intro foldl_cong refl) (simp flip: totalsFor_group_step)
  moreover have "foldl (\<lambda>t e. totalsFor (ie_currency e) (add_entry e) t) t es =
      foldl (\<lambda>t e. group_step event_currency event_ini event_update t (T_entry e)) t es" for t es
    by (intro foldl_cong refl) (simp flip: totalsFor_group_step)
  moreover have "foldl (\<lambda>t r. totalsFor (ir_currency r) (add_receipt r) t) t rs =
      foldl (\<lambda>t r. group_step event_currency event_ini event_update t (T_receipt r)) t rs" for t rs
    by (intro foldl_cong refl) (simp flip: totalsFor_group_step)
  ultimately show ?thesis
    by (simp add: currency_totals_def Let_def foldl_posted group_by_def total_events_def foldl_map)
qed

text \<open>By how much an entry breaks the roll-forward of its row: only a wrongly signed entry does.\<close>

definition drift :: "IntegrityEntry \<Rightarrow> int" where
  "drift e = (if ie_type e = ''DEBIT'' \<or> ie_type e = ''REVERSAL'' then ie_amountMinor e + \<bar>ie_amountMinor e\<bar> else 0)"

definition rolled_forward :: "IntegrityCurrencyTotals \<Rightarrow> int" where
  "rolled_forward row = ct_fundingCreditsMinor row + ct_otherCreditsMinor row - ct_chargesMinor row + ct_refundsMinor row
     - ct_openReservationsMinor row + ct_adjustmentsMinor row - ct_reversalsMinor row"

fun on_entry :: "(IntegrityEntry \<Rightarrow> int) \<Rightarrow> total_event \<Rightarrow> int" where
  "on_entry f (T_entry e) = f e"
| "on_entry f _ = 0"

fun on_receipt :: "(IntegrityReceipt \<Rightarrow> int) \<Rightarrow> total_event \<Rightarrow> int" where
  "on_receipt f (T_receipt r) = f r"
| "on_receipt f _ = 0"

lemmas event_update_defs = new_totals_def count_account_def add_entry_def add_receipt_def Let_def

interpretation total_drift: additive_rows event_ini event_update "\<lambda>row. ct_balanceMinor row - rolled_forward row" "on_entry drift"
proof
  show "ct_balanceMinor (event_update r x) - rolled_forward (event_update r x) =
        ct_balanceMinor r - rolled_forward r + on_entry drift x" for r x
    by (cases x) (auto simp: event_update_defs drift_def rolled_forward_def)
qed (simp add: new_totals_def rolled_forward_def)

interpretation total_balance: additive_rows event_ini event_update ct_balanceMinor "on_entry ie_amountMinor"
proof
  show "ct_balanceMinor (event_update r x) = ct_balanceMinor r + on_entry ie_amountMinor x" for r x
    by (cases x) (auto simp: event_update_defs)
qed (simp add: new_totals_def)

interpretation total_funding: additive_rows event_ini event_update ct_fundingCreditsMinor
    "on_entry (\<lambda>e. if fundingIdOf e \<noteq> None then ie_amountMinor e else 0)"
proof
  show "ct_fundingCreditsMinor (event_update r x) =
      ct_fundingCreditsMinor r + on_entry (\<lambda>e. if fundingIdOf e \<noteq> None then ie_amountMinor e else 0) x" for r x
    by (cases x) (auto simp: event_update_defs fundingIdOf_def)
qed (simp add: new_totals_def)

interpretation total_receipts: additive_rows event_ini event_update ct_postedReceiptsMinor "on_receipt ir_amountMinor"
proof
  show "ct_postedReceiptsMinor (event_update r x) = ct_postedReceiptsMinor r + on_receipt ir_amountMinor x" for r x
    by (cases x) (auto simp: event_update_defs)
qed (simp add: new_totals_def)

lemma event_update_currency [simp]: "ct_currency (event_update r x) = ct_currency r"
  by (cases x) (auto simp: event_update_defs)

lemma sum_on_entry:
  "sum_list (map (on_entry f) (filter (\<lambda>x. event_currency x = c) (total_events i))) =
   sum_where (\<lambda>e. ie_currency e = c) f (in_entries i)"
proof -
  have "sum_list (map (on_entry f) (filter (\<lambda>x. event_currency x = c) (map T_account as))) = 0" for as
    by (induction as) simp_all
  moreover have "sum_list (map (on_entry f) (filter (\<lambda>x. event_currency x = c) (map T_receipt rs))) = 0" for rs
    by (induction rs) simp_all
  moreover have "sum_list (map (on_entry f) (filter (\<lambda>x. event_currency x = c) (map T_entry es))) =
      sum_where (\<lambda>e. ie_currency e = c) f es" for es
    by (induction es) simp_all
  ultimately show ?thesis by (simp add: total_events_def)
qed

lemma sum_on_receipt:
  "sum_list (map (on_receipt f) (filter (\<lambda>x. event_currency x = c) (total_events i))) =
   sum_where (\<lambda>r. ir_status r = ''POSTED'' \<and> ir_currency r = c) f (in_receipts i)"
proof -
  have "sum_list (map (on_receipt f) (filter (\<lambda>x. event_currency x = c) (map T_account as))) = 0" for as
    by (induction as) simp_all
  moreover have "sum_list (map (on_receipt f) (filter (\<lambda>x. event_currency x = c) (map T_entry es))) = 0" for es
    by (induction es) simp_all
  moreover have "sum_list (map (on_receipt f) (filter (\<lambda>x. event_currency x = c) (map T_receipt rs))) =
      sum_where (\<lambda>r. ir_currency r = c) f rs" for rs
    by (induction rs) simp_all
  ultimately show ?thesis by (simp add: total_events_def sum_where_filter)
qed

lemma totals_row:
  assumes "row \<in> set (omap_values (currency_totals i))"
  shows "ct_balanceMinor row = sum_where (\<lambda>e. ie_currency e = ct_currency row) ie_amountMinor (in_entries i)"
    and "ct_balanceMinor row - rolled_forward row = sum_where (\<lambda>e. ie_currency e = ct_currency row) drift (in_entries i)"
    and "ct_fundingCreditsMinor row =
      sum_where (\<lambda>e. ie_currency e = ct_currency row \<and> fundingIdOf e \<noteq> None) ie_amountMinor (in_entries i)"
    and "ct_postedReceiptsMinor row =
      sum_where (\<lambda>r. ir_status r = ''POSTED'' \<and> ir_currency r = ct_currency row) ir_amountMinor (in_receipts i)"
proof -
  obtain c where "(c, row) \<in> set (currency_totals i)"
    using assms by (force simp: omap_values_def)
  then have row: "group_row event_ini event_update (filter (\<lambda>x. event_currency x = c) (total_events i)) = Some row"
    by (simp add: currency_totals_group_by in_set_group_by_iff)
  have c: "ct_currency row = c"
    by (rule group_row_props [OF row]) (auto simp: new_totals_def)
  have funding: "sum_where (\<lambda>e. ie_currency e = c) (\<lambda>e. if fundingIdOf e \<noteq> None then ie_amountMinor e else 0) es =
      sum_where (\<lambda>e. ie_currency e = c \<and> fundingIdOf e \<noteq> None) ie_amountMinor es" for es
    by (induction es) simp_all
  show "ct_balanceMinor row = sum_where (\<lambda>e. ie_currency e = ct_currency row) ie_amountMinor (in_entries i)"
    using total_balance.row_total [OF row] by (simp add: sum_on_entry c)
  show "ct_balanceMinor row - rolled_forward row = sum_where (\<lambda>e. ie_currency e = ct_currency row) drift (in_entries i)"
    using total_drift.row_total [OF row] by (simp add: sum_on_entry c)
  show "ct_fundingCreditsMinor row =
      sum_where (\<lambda>e. ie_currency e = ct_currency row \<and> fundingIdOf e \<noteq> None) ie_amountMinor (in_entries i)"
    using total_funding.row_total [OF row] by (simp only: sum_on_entry c funding)
  show "ct_postedReceiptsMinor row =
      sum_where (\<lambda>r. ir_status r = ''POSTED'' \<and> ir_currency r = ct_currency row) ir_amountMinor (in_receipts i)"
    using total_receipts.row_total [OF row] by (simp add: sum_on_receipt c)
qed

subsection \<open>What the absence of a finding says\<close>

definition reports :: "IntegrityInput \<Rightarrow> IntegrityCode \<Rightarrow> bool" where
  "reports i code \<longleftrightarrow> (\<exists>f \<in> set (all_findings i). fi_code f = code)"

lemma reports_checkLedgerIntegrity:
  "code \<in> fi_code ` set (rp_findings (checkLedgerIntegrity collate i)) \<longleftrightarrow> reports i code"
  by (auto simp: checkLedgerIntegrity_def reports_def)

lemma fi_code_finding [simp]: "fi_code (finding code at amounts) = code"
  by (simp add: finding_def)

lemma all_findings_entry: "e \<in> set (in_entries i) \<Longrightarrow> f \<in> set (entry_findings (in_accounts i) e) \<Longrightarrow> f \<in> set (all_findings i)"
  by (auto simp: all_findings_def Let_def)

lemma all_findings_receipt:
  "r \<in> set (in_receipts i) \<Longrightarrow> f \<in> set (receipt_findings (in_entries i) r) \<Longrightarrow> f \<in> set (all_findings i)"
  by (auto simp: all_findings_def Let_def)

lemma all_findings_credit:
  "e \<in> set (in_entries i) \<Longrightarrow> f \<in> set (credit_findings (in_receipts i) e) \<Longrightarrow> f \<in> set (all_findings i)"
  by (auto simp: all_findings_def Let_def)

lemma no_sign_finding:
  assumes "\<not> reports i ENTRY_SIGN_INVALID" "e \<in> set (in_entries i)"
  shows "isLedgerSignValid (ie_type e) (ie_amountMinor e)"
proof (rule ccontr)
  assume "\<not> isLedgerSignValid (ie_type e) (ie_amountMinor e)"
  then have "\<exists>f \<in> set (entry_findings (in_accounts i) e). fi_code f = ENTRY_SIGN_INVALID"
    by (simp add: entry_findings_def Let_def add_if_def)
  with assms show False using all_findings_entry by (auto simp: reports_def)
qed

lemma drift_0: "isLedgerSignValid (ie_type e) (ie_amountMinor e) \<Longrightarrow> drift e = 0"
  by (auto simp: drift_def)

text \<open>
  The roll-forward of every currency closes: when no entry is reported with an invalid sign, each
  total row's balance is exactly the sum of the currency's stored entries and equals funding credits
  plus other credits less charges plus refunds less open reservations plus adjustments less reversals.
\<close>

theorem roll_forward_closes:
  assumes "ENTRY_SIGN_INVALID \<notin> fi_code ` set (rp_findings (checkLedgerIntegrity collate i))"
    and "row \<in> set (rp_totals (checkLedgerIntegrity collate i))"
  shows "ct_balanceMinor row = sum_where (\<lambda>e. ie_currency e = ct_currency row) ie_amountMinor (in_entries i)
    \<and> ct_balanceMinor row = ct_fundingCreditsMinor row + ct_otherCreditsMinor row - ct_chargesMinor row
        + ct_refundsMinor row - ct_openReservationsMinor row + ct_adjustmentsMinor row - ct_reversalsMinor row"
proof -
  have row: "row \<in> set (omap_values (currency_totals i))"
    using assms(2) by (simp add: checkLedgerIntegrity_def)
  have "drift e = 0" if "e \<in> set (in_entries i)" for e
    using assms(1) that by (intro drift_0 no_sign_finding) (simp_all add: reports_checkLedgerIntegrity)
  then have "sum_where (\<lambda>e. ie_currency e = ct_currency row) drift (in_entries i) =
      sum_where (\<lambda>e. ie_currency e = ct_currency row) (\<lambda>_. 0) (in_entries i)"
    by (intro sum_where_cong) simp_all
  also have "\<dots> = 0" by (simp add: sum_where_def)
  finally show ?thesis
    using totals_row(1,2) [OF row] by (simp add: rolled_forward_def)
qed

subsection \<open>A ledger to evaluate the report on\<close>

definition sample_entry :: "string \<Rightarrow> string \<Rightarrow> int \<Rightarrow> string \<Rightarrow> string \<Rightarrow> IntegrityEntry" where
  "sample_entry eid type amount reference key = \<lparr>ie_id = eid, ie_accountId = ''acc-1'', ie_type = type, ie_amountMinor = amount,
     ie_currency = ''AED'', ie_reference = Some reference, ie_idempotencyKey = key, ie_at = 1000\<rparr>"

definition sample_input :: IntegrityInput where
  "sample_input = \<lparr>
     in_accounts = [\<lparr>ia_id = ''acc-1'', ia_currency = ''AED'', ia_agencyId = Some ''ag-1'', ia_creditLineMinor = 0\<rparr>],
     in_entries = [sample_entry ''e1'' ''CREDIT'' 5000 ''funding:r1'' ''funding:r1'',
                   sample_entry ''e2'' ''HOLD'' (-3000) ''booking:b1'' ''booking:b1:authorize'',
                   sample_entry ''e3'' ''RELEASE'' 3000 ''booking:b1'' ''booking:b1:settle-release'',
                   sample_entry ''e4'' ''DEBIT'' (-3000) ''booking:b1'' ''booking:b1:settle-debit''],
     in_bookings = [\<lparr>ib_id = ''b1'', ib_status = ''CONFIRMED'', ib_currency = ''AED'', ib_totalMinor = 3000,
                      ib_cancellationRefundMinor = None\<rparr>],
     in_receipts = [\<lparr>ir_id = ''r1'', ir_status = ''POSTED'', ir_accountId = Some ''acc-1'', ir_ledgerEntryId = Some ''e1'',
                      ir_amountMinor = 5000, ir_currency = ''AED''\<rparr>],
     in_adjustments = Some [], in_adjustmentAudits = Some [], in_chainBreaks = Some [],
     in_now = 2000, in_staleReservationMinutes = 60\<rparr>"

lemma sample_clean: "rp_findings (checkLedgerIntegrity cmp_text sample_input) = []"
  by code_simp

definition sample_row :: IntegrityCurrencyTotals where
  "sample_row = \<lparr>ct_currency = ''AED'', ct_accounts = 1, ct_entries = 4, ct_fundingCreditsMinor = 5000, ct_otherCreditsMinor = 0,
     ct_chargesMinor = 3000, ct_refundsMinor = 0, ct_openReservationsMinor = 0, ct_balanceMinor = 2000,
     ct_adjustmentsMinor = 0, ct_reversalsMinor = 0, ct_postedReceiptsMinor = 5000\<rparr>"

lemma sample_totals: "rp_totals (checkLedgerIntegrity cmp_text sample_input) = [sample_row]"
  by code_simp

lemma roll_forward_closes_witness:
  "ct_balanceMinor sample_row = sum_where (\<lambda>e. ie_currency e = ct_currency sample_row) ie_amountMinor (in_entries sample_input)
    \<and> ct_balanceMinor sample_row = ct_fundingCreditsMinor sample_row + ct_otherCreditsMinor sample_row
        - ct_chargesMinor sample_row + ct_refundsMinor sample_row - ct_openReservationsMinor sample_row
        + ct_adjustmentsMinor sample_row - ct_reversalsMinor sample_row"
  by (rule roll_forward_closes [where collate = cmp_text]) (simp_all add: sample_clean sample_totals)

subsection \<open>Receipts and funding credits\<close>

definition receipt_rule :: "IntegrityInput \<Rightarrow> IntegrityReceipt \<Rightarrow> bool" where
  "receipt_rule i r \<longleftrightarrow> (\<exists>e. receipt_entry (in_entries i) r = Some e \<and> ie_type e = ''CREDIT'' \<and> ie_amountMinor e = ir_amountMinor r
     \<and> ie_currency e = ir_currency r \<and> Some (ie_accountId e) = ir_accountId r \<and> ie_reference e = Some (''funding:'' @ ir_id r))"

definition credit_rule :: "IntegrityInput \<Rightarrow> IntegrityEntry \<Rightarrow> bool" where
  "credit_rule i e \<longleftrightarrow> (\<exists>r. last_with ir_id (in_receipts i) (the (fundingIdOf e)) = Some r \<and> ir_status r = ''POSTED''
     \<and> ir_ledgerEntryId r = Some (ie_id e))"

lemma receipt_findings_Nil:
  "receipt_findings (in_entries i) r = [] \<longleftrightarrow> ir_status r \<noteq> ''POSTED'' \<or> receipt_rule i r"
  by (auto simp: receipt_findings_def receipt_rule_def Let_def split: option.splits)

lemma credit_findings_Nil: "credit_findings (in_receipts i) e = [] \<longleftrightarrow> fundingIdOf e = None \<or> credit_rule i e"
  by (auto simp: credit_findings_def credit_rule_def split: option.splits)

lemma receipt_findings_code: "f \<in> set (receipt_findings es r) \<Longrightarrow> fi_code f = RECEIPT_NOT_IN_LEDGER"
  by (auto simp: receipt_findings_def Let_def add_if_code)

lemma credit_findings_code: "f \<in> set (credit_findings rs e) \<Longrightarrow> fi_code f = CREDIT_WITHOUT_RECEIPT"
  by (auto simp: credit_findings_def add_if_code split: option.splits)

lemma no_finding:
  assumes "\<not> reports i code" "\<And>f. f \<in> set fs \<Longrightarrow> f \<in> set (all_findings i) \<and> fi_code f = code"
  shows "fs = []"
  using assms(1) assms(2) [of "hd fs"] by (cases fs) (auto simp: reports_def)

lemma no_receipt_finding:
  assumes "\<not> reports i RECEIPT_NOT_IN_LEDGER" "r \<in> set (in_receipts i)" "ir_status r = ''POSTED''"
  shows "receipt_rule i r"
proof -
  have "receipt_findings (in_entries i) r = []"
    using all_findings_receipt [OF assms(2)] receipt_findings_code by (intro no_finding [OF assms(1)]) blast
  with assms(3) show ?thesis by (simp add: receipt_findings_Nil)
qed

lemma no_credit_finding:
  assumes "\<not> reports i CREDIT_WITHOUT_RECEIPT" "e \<in> set (in_entries i)" "fundingIdOf e \<noteq> None"
  shows "credit_rule i e"
proof -
  have "credit_findings (in_receipts i) e = []"
    using all_findings_credit [OF assms(2)] credit_findings_code by (intro no_finding [OF assms(1)]) blast
  with assms(3) show ?thesis by (auto simp: credit_findings_Nil)
qed

lemma capture_ref_append: "capture_ref p (p @ t) = (if t \<noteq> [] \<and> list_all is_dot t then Some t else None)"
  by (simp add: capture_ref_def after_prefix_def)

lemma capture_ref_Some: "capture_ref p s = Some t \<longleftrightarrow> s = p @ t \<and> t \<noteq> [] \<and> list_all is_dot t"
proof (cases "after_prefix p s")
  case None
  then have "s \<noteq> p @ t" by (auto simp: after_prefix_def split: if_splits)
  with None show ?thesis by (simp add: capture_ref_def)
next
  case (Some u)
  then have "s = p @ u" by simp
  then show ?thesis by (auto simp: capture_ref_append)
qed

definition plain_id :: "string \<Rightarrow> bool" where
  "plain_id t \<longleftrightarrow> t \<noteq> [] \<and> list_all is_dot t"

lemma fundingIdOf_Some:
  "fundingIdOf e = Some t \<longleftrightarrow> ie_type e = ''CREDIT'' \<and> ie_reference e = Some (''funding:'' @ t) \<and> plain_id t"
  by (auto simp: fundingIdOf_def FUNDING_REF_def capture_ref_Some plain_id_def split: option.split)

lemma receipts_bij:
  assumes clean: "\<not> reports i RECEIPT_NOT_IN_LEDGER" "\<not> reports i CREDIT_WITHOUT_RECEIPT"
    and ids: "distinct (map ie_id (in_entries i))" "distinct (map ir_id (in_receipts i))"
      "list_all (\<lambda>r. plain_id (ir_id r)) (in_receipts i)"
  shows "bij_betw (\<lambda>r. the (receipt_entry (in_entries i) r))
     {r \<in> set (in_receipts i). ir_status r = ''POSTED'' \<and> ir_currency r = c}
     {e \<in> set (in_entries i). ie_currency e = c \<and> fundingIdOf e \<noteq> None}"
    (is "bij_betw ?h ?R ?E")
proof (rule bij_betw_imageI)
  have rule: "receipt_rule i r" if "r \<in> ?R" for r
    using that clean(1) by (intro no_receipt_finding) auto
  show "inj_on ?h ?R"
  proof (rule inj_onI)
    fix r r' assume r: "r \<in> ?R" "r' \<in> ?R" and "?h r = ?h r'"
    with rule [of r] rule [of r'] have "ir_id r = ir_id r'" by (auto simp: receipt_rule_def)
    with r ids(2) show "r = r'" by (auto simp: distinct_map inj_on_def)
  qed
  have "?h r \<in> ?E" if r: "r \<in> ?R" for r
  proof -
    obtain e where e: "receipt_entry (in_entries i) r = Some e" "ie_type e = ''CREDIT''" "ie_currency e = c"
        "ie_reference e = Some (''funding:'' @ ir_id r)"
      using rule [OF r] r by (auto simp: receipt_rule_def)
    then have "e \<in> set (in_entries i)"
      by (auto simp: receipt_entry_def dest: last_with_Some split: option.splits if_splits)
    moreover have "plain_id (ir_id r)" using ids(3) r by (auto simp: list_all_iff)
    ultimately show ?thesis using e by (auto simp: fundingIdOf_Some)
  qed
  moreover have "\<exists>r \<in> ?R. ?h r = e" if e: "e \<in> ?E" for e
  proof -
    have "credit_rule i e" using e clean(2) by (intro no_credit_finding) auto
    then obtain r where r: "last_with ir_id (in_receipts i) (the (fundingIdOf e)) = Some r" "ir_status r = ''POSTED''"
        "ir_ledgerEntryId r = Some (ie_id e)"
      by (auto simp: credit_rule_def)
    then have "r \<in> set (in_receipts i)" by (auto dest: last_with_Some)
    then have rr: "receipt_rule i r" using clean(1) r(2) by (intro no_receipt_finding)
    have "last_with ie_id (in_entries i) (ie_id e) = Some e"
      using e ids(1) by (intro last_with_unique) auto
    with rr r(3) have "receipt_entry (in_entries i) r = Some e" "ir_currency r = ie_currency e"
      by (auto simp: receipt_rule_def receipt_entry_def split: if_splits)
    with e r(2) \<open>r \<in> set (in_receipts i)\<close> show ?thesis by (intro bexI [of _ r]) auto
  qed
  ultimately show "?h ` ?R = ?E" by (auto simp: image_iff)
qed

text \<open>
  The receipt register ties to the ledger: when neither a receipt without its credit nor a credit
  without its receipt is reported (and the ids are distinct and plain), the POSTED receipts and the
  funding credits of each currency correspond one to one, so the two register totals of the
  currency's row are equal.
\<close>

theorem receipts_tie_to_funding:
  assumes "RECEIPT_NOT_IN_LEDGER \<notin> fi_code ` set (rp_findings (checkLedgerIntegrity collate i))"
    and "CREDIT_WITHOUT_RECEIPT \<notin> fi_code ` set (rp_findings (checkLedgerIntegrity collate i))"
    and "distinct (map ie_id (in_entries i))" "distinct (map ir_id (in_receipts i))"
    and "list_all (\<lambda>r. plain_id (ir_id r)) (in_receipts i)"
    and "row \<in> set (rp_totals (checkLedgerIntegrity collate i))"
  shows "ct_postedReceiptsMinor row = ct_fundingCreditsMinor row"
proof -
  have row: "row \<in> set (omap_values (currency_totals i))"
    using assms(6) by (simp add: checkLedgerIntegrity_def)
  have distinct: "distinct (in_entries i)" "distinct (in_receipts i)"
    using assms(3,4) by (auto simp: distinct_map)
  have clean: "\<not> reports i RECEIPT_NOT_IN_LEDGER" "\<not> reports i CREDIT_WITHOUT_RECEIPT"
    using assms(1,2) by (simp_all add: reports_checkLedgerIntegrity)
  let ?R = "{r \<in> set (in_receipts i). ir_status r = ''POSTED'' \<and> ir_currency r = ct_currency row}"
  have "ir_amountMinor r = ie_amountMinor (the (receipt_entry (in_entries i) r))" if "r \<in> ?R" for r
    using no_receipt_finding [OF clean(1), of r] that by (auto simp: receipt_rule_def)
  then have "sum ir_amountMinor ?R = sum (\<lambda>r. ie_amountMinor (the (receipt_entry (in_entries i) r))) ?R"
    by (intro sum.cong refl)
  also have "\<dots> = sum ie_amountMinor {e \<in> set (in_entries i). ie_currency e = ct_currency row \<and> fundingIdOf e \<noteq> None}"
    by (rule sum.reindex_bij_betw [OF receipts_bij [OF clean assms(3,4,5)]])
  finally show ?thesis
    by (simp add: totals_row(3,4) [OF row] sum_where_sum distinct)
qed

lemma receipts_tie_to_funding_witness:
  "ct_postedReceiptsMinor sample_row = ct_fundingCreditsMinor sample_row"
proof (rule receipts_tie_to_funding [where collate = cmp_text and i = sample_input])
  show "distinct (map ie_id (in_entries sample_input))" "distinct (map ir_id (in_receipts sample_input))"
    "list_all (\<lambda>r. plain_id (ir_id r)) (in_receipts sample_input)" by code_simp+
qed (simp_all add: sample_clean sample_totals)

subsection \<open>The order of the findings\<close>

lemma collation_findings: "collation collate \<Longrightarrow> collation (cmp_finding collate)"
  unfolding cmp_finding_def [abs_def]
  by (rule collation_cmp_then [OF collation_minus collation_cmp_then [OF collation_by collation_by]])

lemma cmp_finding_severity:
  "cmp_finding collate x y \<le> 0 \<Longrightarrow> fi_severity y = critical \<Longrightarrow> fi_severity x = critical"
  by (auto simp: cmp_finding_def cmp_then_def severity_order_def split: if_splits)

text \<open>
  The report loses no finding and lists every critical one before any warning: the sorted findings
  are the found ones in another order, and whenever a later finding is critical every earlier one is,
  for any consistent collation of the texts that break ties.
\<close>

theorem criticals_first:
  assumes "collation collate"
  shows "mset (rp_findings (checkLedgerIntegrity collate i)) = mset (all_findings i)
    \<and> sorted_wrt (\<lambda>x y. fi_severity y \<noteq> critical \<or> fi_severity x = critical)
        (rp_findings (checkLedgerIntegrity collate i))"
proof -
  have "comparator (cmp_finding collate)"
    by (intro collation_comparator collation_findings assms)
  then have "sorted_wrt (\<lambda>x y. cmp_finding collate x y \<le> 0) (js_sort (cmp_finding collate) (all_findings i))"
    by (rule comparator.sorted_js_sort)
  then have "sorted_wrt (\<lambda>x y. fi_severity y \<noteq> critical \<or> fi_severity x = critical)
      (js_sort (cmp_finding collate) (all_findings i))"
    by (rule sorted_wrt_mono_rel [rotated]) (use cmp_finding_severity in blast)
  then show ?thesis by (simp add: checkLedgerIntegrity_def)
qed

lemma criticals_first_witness:
  "sorted_wrt (\<lambda>x y. fi_severity y \<noteq> critical \<or> fi_severity x = critical)
     (rp_findings (checkLedgerIntegrity cmp_text (sample_input\<lparr>in_bookings := []\<rparr>)))"
  using criticals_first [OF text_collation.collation_axioms] by blast

subsection \<open>When the report is clean\<close>

text \<open>
  The rules of the ledger, stated on the stored records alone: no folded facts, no maps, no order of
  evaluation.
\<close>

definition entry_rule :: "IntegrityInput \<Rightarrow> IntegrityEntry \<Rightarrow> bool" where
  "entry_rule i e \<longleftrightarrow> isLedgerSignValid (ie_type e) (ie_amountMinor e)
     \<and> (\<exists>a. last_with ia_id (in_accounts i) (ie_accountId e) = Some a \<and> ia_currency a = ie_currency e)"

definition account_rule :: "IntegrityInput \<Rightarrow> IntegrityAccount \<Rightarrow> bool" where
  "account_rule i a \<longleftrightarrow>
     0 \<le> sum_where (\<lambda>e. ie_accountId e = ia_id a) ie_amountMinor (in_entries i) + ia_creditLineMinor a"

text \<open>The lifecycle of one booking: \<open>own\<close> are the entries that refer to it.\<close>

definition lifecycle_rule :: "IntegrityInput \<Rightarrow> IntegrityEntry list \<Rightarrow> bool" where
  "lifecycle_rule i own \<longleftrightarrow>
     (\<forall>e \<in> set own. \<forall>e' \<in> set own. ie_accountId e = ie_accountId e')
     \<and> released own + settle_released own \<le> held own
     \<and> settle_released own = charged own
     \<and> (charged own = 0 \<or> held own > 0)
     \<and> refunded own \<le> charged own
     \<and> (released own + settle_released own = held own
        \<or> (\<forall>e \<in> set own. of_type ''HOLD'' e \<longrightarrow> ie_at e \<ge> in_now i - in_staleReservationMinutes i * 60000))"

definition booking_rule :: "IntegrityEntry list \<Rightarrow> IntegrityBooking \<Rightarrow> bool" where
  "booking_rule own b \<longleftrightarrow>
     ib_currency b = ie_currency (hd own) \<and> held own \<in> {0, ib_totalMinor b} \<and> charged own \<in> {0, ib_totalMinor b}
     \<and> (if ib_status b \<in> set CHARGED_STATES then held own = 0 \<or> charged own > 0
        else if ib_status b = ''CANCELLED'' then
          released own + settle_released own = held own
          \<and> (charged own = 0 \<or> ib_cancellationRefundMinor b = Some (Some (refunded own))
             \<or> ib_cancellationRefundMinor b = Some None \<and> refunded own = 0)
        else charged own = 0
          \<and> (ib_status b \<in> set UNCHARGED_CLOSED_STATES \<longrightarrow> released own + settle_released own = held own))"

lemma held_nonneg: "0 \<le> held own" and charged_nonneg: "0 \<le> charged own"
  by (simp_all add: held_def charged_def sum_where_nonneg)

lemma first_hold_before:
  "(case first_hold own of None \<Rightarrow> False | Some first \<Rightarrow> first < t) \<longleftrightarrow> (\<exists>e \<in> set own. of_type ''HOLD'' e \<and> ie_at e < t)"
proof (induction own rule: rev_induct)
  case Nil
  then show ?case by (simp add: first_hold_def)
next
  case (snoc e own)
  then show ?case by (cases "first_hold own") (auto simp: first_hold_snoc)
qed

lemma single_account: "\<not> length (account_set own) > 1 \<longleftrightarrow> (\<forall>e \<in> set own. \<forall>e' \<in> set own. ie_accountId e = ie_accountId e')"
proof -
  have len: "length (account_set own) = card (ie_accountId ` set own)"
    using account_set_props [of own] by (metis distinct_card)
  have "card (ie_accountId ` set own) \<le> Suc 0 \<longleftrightarrow> (\<forall>x \<in> ie_accountId ` set own. \<forall>y \<in> ie_accountId ` set own. x = y)"
    by (rule card_le_Suc0_iff_eq) simp
  then show ?thesis by (auto simp: len not_less)
qed

lemma lifecycle_findings_Nil:
  "lifecycle_findings (in_now i - in_staleReservationMinutes i * 60000) (facts_spec b own) = [] \<longleftrightarrow> lifecycle_rule i own"
proof -
  have open_pos: "openReservationMinor (facts_spec b own) = held own - released own - settle_released own"
    by (simp add: openReservationMinor_def facts_spec_def)
  let ?stale = "in_now i - in_staleReservationMinutes i * 60000"
  let ?young = "\<forall>e \<in> set own. of_type ''HOLD'' e \<longrightarrow> ?stale \<le> ie_at e"
  have young: "(case first_hold own of None \<Rightarrow> False | Some first \<Rightarrow> first < ?stale) \<longleftrightarrow> \<not> ?young"
    by (auto simp: first_hold_before not_le)
  have "lifecycle_findings ?stale (facts_spec b own) = [] \<longleftrightarrow>
      \<not> length (account_set own) > 1 \<and> \<not> held own - released own - settle_released own < 0
      \<and> settle_released own = charged own \<and> \<not> (charged own > 0 \<and> held own = 0) \<and> \<not> refunded own > charged own
      \<and> \<not> (held own - released own - settle_released own > 0 \<and> \<not> ?young)"
    unfolding lifecycle_findings_def Let_def append_is_Nil_conv add_if_Nil open_pos
    by (simp add: facts_spec_def young)
  also have "\<dots> \<longleftrightarrow> lifecycle_rule i own"
    using held_nonneg [of own] charged_nonneg [of own]
    unfolding lifecycle_rule_def single_account by (safe; linarith)
  finally show ?thesis .
qed

lemma CHARGED_not_CANCELLED [simp]: "''CANCELLED'' \<notin> set CHARGED_STATES" "''CANCELLED'' \<notin> set UNCHARGED_CLOSED_STATES"
  by (simp_all add: CHARGED_STATES_def UNCHARGED_CLOSED_STATES_def)

lemma uncharged_not_charged: "s \<in> set UNCHARGED_CLOSED_STATES \<Longrightarrow> s \<notin> set CHARGED_STATES"
  by (auto simp: CHARGED_STATES_def UNCHARGED_CLOSED_STATES_def)

lemma facts_spec_sel [simp]:
  "bf_bookingId (facts_spec b own) = b" "bf_currency (facts_spec b own) = ie_currency (hd own)"
  "bf_holdMinor (facts_spec b own) = held own" "bf_chargeMinor (facts_spec b own) = charged own"
  "bf_refundMinor (facts_spec b own) = refunded own"
  "openReservationMinor (facts_spec b own) = held own - released own - settle_released own"
  by (simp_all add: facts_spec_def openReservationMinor_def)

lemma tie_out_findings_Nil:
  assumes "lifecycle_rule i own"
  shows "tie_out_findings bookings (facts_spec b own) = [] \<longleftrightarrow>
    (\<exists>bk. last_with ib_id bookings b = Some bk \<and> booking_rule own bk)"
proof (cases "last_with ib_id bookings b")
  case None
  then show ?thesis by (simp add: tie_out_findings_def)
next
  case (Some bk)
  let ?refund = "ib_status bk \<noteq> ''CANCELLED'' \<or> charged own \<le> 0 \<or> ib_cancellationRefundMinor bk = Some (Some (refunded own))
      \<or> ib_cancellationRefundMinor bk = Some None \<and> refunded own = 0"
  have refund: "cancellation_findings (facts_spec b own) bk = [] \<longleftrightarrow> ?refund"
    by (auto simp: cancellation_findings_def Let_def split: option.split)
  have released: "released own + settle_released own \<le> held own"
    using assms by (simp add: lifecycle_rule_def)
  have "tie_out_findings bookings (facts_spec b own) = [] \<longleftrightarrow>
      \<not> (ib_currency bk \<noteq> ie_currency (hd own) \<or> (held own > 0 \<and> held own \<noteq> ib_totalMinor bk)
         \<or> (charged own > 0 \<and> charged own \<noteq> ib_totalMinor bk))
      \<and> \<not> (held own > 0 \<and> ib_status bk \<in> set CHARGED_STATES \<and> charged own = 0)
      \<and> \<not> (charged own > 0 \<and> ib_status bk \<notin> set CHARGED_STATES \<and> ib_status bk \<noteq> ''CANCELLED'')
      \<and> \<not> (held own - released own - settle_released own > 0
            \<and> (ib_status bk \<in> set UNCHARGED_CLOSED_STATES \<or> ib_status bk = ''CANCELLED''))
      \<and> ?refund"
    unfolding tie_out_findings_def Let_def by (simp add: Some refund)
  also have "\<dots> \<longleftrightarrow> booking_rule own bk"
  proof -
    have signs: "held own > 0 \<longleftrightarrow> held own \<noteq> 0" "charged own > 0 \<longleftrightarrow> charged own \<noteq> 0" "charged own \<le> 0 \<longleftrightarrow> charged own = 0"
      "held own - released own - settle_released own > 0 \<longleftrightarrow> released own + settle_released own \<noteq> held own"
      using held_nonneg [of own] charged_nonneg [of own] released by linarith+
    show ?thesis
      unfolding booking_rule_def signs using uncharged_not_charged [of "ib_status bk"]
      by (cases "ib_status bk \<in> set CHARGED_STATES"; cases "ib_status bk = ''CANCELLED''") auto
  qed
  finally show ?thesis by (simp add: Some)
qed

lemma entry_balances_get: "omap_getd (\<lambda>_. 0) (entry_balances es) acc = sum_where (\<lambda>e. ie_accountId e = acc) ie_amountMinor es"
proof -
  have sum: "foldl (\<lambda>b e. b + ie_amountMinor e) s es = s + sum_list (map ie_amountMinor es)" for s es
    by (induction es arbitrary: s) simp_all
  show ?thesis
    by (cases "filter (\<lambda>e. ie_accountId e = acc) es")
       (simp_all add: omap_getd_def entry_balances_def omap_get_group_by group_row_def sum_where_def sum)
qed

text \<open>Adjustments and reversals.\<close>

definition reversed_of :: "IntegrityAdjustment list \<Rightarrow> IntegrityEntry list \<Rightarrow> string \<Rightarrow> int" where
  "reversed_of adjustments es rid =
     sum_where (\<lambda>e. reversed_receipt adjustments e = Some rid) (\<lambda>e. \<bar>ie_amountMinor e\<bar>) es"

lemma reversedByReceipt_props:
  "omap_ok (reversedByReceipt adjustments es)
   \<and> omap_get (reversedByReceipt adjustments es) rid =
      (if \<exists>e \<in> set es. reversed_receipt adjustments e = Some rid then Some (reversed_of adjustments es rid) else None)"
proof (induction es rule: rev_induct)
  case Nil
  then show ?case by (simp add: reversedByReceipt_def)
next
  case (snoc e es)
  have step: "reversedByReceipt adjustments (es @ [e]) =
    (case reversed_receipt adjustments e of
       None \<Rightarrow> reversedByReceipt adjustments es
     | Some r \<Rightarrow> omap_put r (omap_getd (\<lambda>_. 0) (reversedByReceipt adjustments es) r + \<bar>ie_amountMinor e\<bar>)
         (reversedByReceipt adjustments es))"
    by (simp add: reversedByReceipt_def split: option.split)
  have none: "reversed_of adjustments es r = 0" if "\<not> (\<exists>e \<in> set es. reversed_receipt adjustments e = Some r)" for r
    using that by (induction es) (auto simp: reversed_of_def)
  show ?case
  proof (cases "reversed_receipt adjustments e")
    case None
    with snoc show ?thesis by (auto simp: step reversed_of_def)
  next
    case (Some r)
    show ?thesis
      using snoc none [of r] by (auto simp: step Some omap_getd_def reversed_of_def)
  qed
qed

definition reversal_rule :: "IntegrityInput \<Rightarrow> IntegrityAdjustment list \<Rightarrow> IntegrityEntry \<Rightarrow> bool" where
  "reversal_rule i adjustments e \<longleftrightarrow>
     (case reversed_receipt adjustments e of
        None \<Rightarrow> True
      | Some rid \<Rightarrow> \<exists>r. last_with ir_id (in_receipts i) rid = Some r \<and> ir_status r = ''POSTED''
                        \<and> reversed_of adjustments (in_entries i) rid \<le> ir_amountMinor r)"

definition audited :: "IntegrityInput \<Rightarrow> IntegrityAdjustment list \<Rightarrow> IntegrityEntry \<Rightarrow> bool" where
  "audited i adjustments e \<longleftrightarrow>
     (case in_adjustmentAudits i of
        None \<Rightarrow> True
      | Some audits \<Rightarrow> \<exists>a. approved_for adjustments (ie_id e) = Some a
          \<and> ij_id a @ '':'' @ ie_id e \<in> set (audit_evidence audits))"

definition adjustments_rule :: "IntegrityInput \<Rightarrow> bool" where
  "adjustments_rule i \<longleftrightarrow>
     (case in_adjustments i of
        None \<Rightarrow> True
      | Some adjustments \<Rightarrow> \<forall>e \<in> set (in_entries i). reversal_rule i adjustments e \<and>
          (adjustment_kind e \<longrightarrow> adjustment_agrees (approved_for adjustments (ie_id e)) e \<and> audited i adjustments e))"

lemma reversal_findings_Nil:
  "concat (map (reversal_findings (in_receipts i)) (reversedByReceipt adjustments (in_entries i))) = [] \<longleftrightarrow>
    (\<forall>e \<in> set (in_entries i). reversal_rule i adjustments e)"
proof -
  let ?m = "reversedByReceipt adjustments (in_entries i)"
  have mem: "(rid, n) \<in> set ?m \<longleftrightarrow> (\<exists>e \<in> set (in_entries i). reversed_receipt adjustments e = Some rid)
      \<and> n = reversed_of adjustments (in_entries i) rid" for rid n
    using reversedByReceipt_props [of adjustments "in_entries i" rid] omap_get_Some_iff [of ?m rid n]
    by (auto split: if_splits)
  have "concat (map (reversal_findings (in_receipts i)) ?m) = [] \<longleftrightarrow>
      (\<forall>rid n. (rid, n) \<in> set ?m \<longrightarrow> reversal_findings (in_receipts i) (rid, n) = [])"
    by (auto simp: concat_eq_Nil_conv)
  also have "\<dots> \<longleftrightarrow> (\<forall>e \<in> set (in_entries i). reversal_rule i adjustments e)"
    by (auto simp: mem reversal_findings_def reversal_rule_def Let_def not_less split: option.splits)
  finally show ?thesis .
qed

lemma adjustment_section_Nil: "adjustment_section i = [] \<longleftrightarrow> adjustments_rule i"
proof (cases "in_adjustments i")
  case None
  then show ?thesis by (simp add: adjustment_section_def adjustments_rule_def)
next
  case (Some adjustments)
  have agreed: "concat (map (adjustment_findings adjustments) (in_entries i)) = [] \<longleftrightarrow>
      (\<forall>e \<in> set (in_entries i). adjustment_kind e \<longrightarrow> adjustment_agrees (approved_for adjustments (ie_id e)) e)"
    by (auto simp: adjustment_findings_def Let_def)
  have evidence: "audit_findings adjustments audits e = [] \<longleftrightarrow>
      (adjustment_kind e \<and> adjustment_agrees (approved_for adjustments (ie_id e)) e \<longrightarrow>
        (\<exists>a. approved_for adjustments (ie_id e) = Some a \<and> ij_id a @ '':'' @ ie_id e \<in> set (audit_evidence audits)))" for audits e
    by (auto simp: audit_findings_def adjustment_agrees_def split: option.split)
  have evidenced: "concat (map (audit_findings adjustments audits) (in_entries i)) = [] \<longleftrightarrow>
      (\<forall>e \<in> set (in_entries i). adjustment_kind e \<and> adjustment_agrees (approved_for adjustments (ie_id e)) e \<longrightarrow>
        (\<exists>a. approved_for adjustments (ie_id e) = Some a \<and> ij_id a @ '':'' @ ie_id e \<in> set (audit_evidence audits)))" for audits
    by (simp only: concat_map_Nil evidence)
  show ?thesis
    unfolding adjustment_section_def adjustments_rule_def Some option.case append_is_Nil_conv agreed reversal_findings_Nil audited_def
    by (cases "in_adjustmentAudits i") (auto simp: evidenced simp del: concat_eq_Nil_conv)
qed

definition ledger_rules :: "IntegrityInput \<Rightarrow> bool" where
  "ledger_rules i \<longleftrightarrow>
     list_all (entry_rule i) (in_entries i)
     \<and> list_all (account_rule i) (in_accounts i)
     \<and> (\<forall>b. let own = filter (of_booking b) (in_entries i) in
          own = [] \<or> lifecycle_rule i own \<and> (\<exists>bk. last_with ib_id (in_bookings i) b = Some bk \<and> booking_rule own bk))
     \<and> list_all (\<lambda>r. ir_status r \<noteq> ''POSTED'' \<or> receipt_rule i r) (in_receipts i)
     \<and> list_all (\<lambda>e. fundingIdOf e = None \<or> credit_rule i e) (in_entries i)
     \<and> adjustments_rule i
     \<and> in_chainBreaks i \<in> {None, Some []}"

lemma entry_findings_Nil: "entry_findings (in_accounts i) e = [] \<longleftrightarrow> entry_rule i e"
  by (auto simp: entry_findings_def entry_rule_def Let_def split: option.splits)

lemma account_findings_Nil: "account_findings (entry_balances (in_entries i)) a = [] \<longleftrightarrow> account_rule i a"
  by (auto simp: account_findings_def account_rule_def Let_def entry_balances_get)

lemma booking_findings_Nil:
  "concat (map (\<lambda>f. lifecycle_findings (in_now i - in_staleReservationMinutes i * 60000) f @ tie_out_findings (in_bookings i) f)
     (omap_values (bookingLedgerFacts (in_entries i)))) = [] \<longleftrightarrow>
   (\<forall>b. let own = filter (of_booking b) (in_entries i) in
      own = [] \<or> lifecycle_rule i own \<and> (\<exists>bk. last_with ib_id (in_bookings i) b = Some bk \<and> booking_rule own bk))"
proof -
  let ?own = "\<lambda>b. filter (of_booking b) (in_entries i)"
  let ?ok = "\<lambda>f. lifecycle_findings (in_now i - in_staleReservationMinutes i * 60000) f = [] \<and> tie_out_findings (in_bookings i) f = []"
  have "?ok (facts_spec b own) \<longleftrightarrow> lifecycle_rule i own \<and> (\<exists>bk. last_with ib_id (in_bookings i) b = Some bk \<and> booking_rule own bk)"
    for b own using tie_out_findings_Nil [of i own] by (auto simp: lifecycle_findings_Nil)
  moreover have "(\<forall>f \<in> set (omap_values (bookingLedgerFacts (in_entries i))). ?ok f) \<longleftrightarrow>
      (\<forall>b. ?own b = [] \<or> ?ok (facts_spec b (?own b)))"
    unfolding set_facts by blast
  ultimately show ?thesis by (simp only: concat_map_Nil append_is_Nil_conv Let_def)
qed

text \<open>
  C20. A clean report is a complete verdict: it has no finding exactly when the stored records keep every
  rule of the ledger. Each entry carries its sign and its account's currency; no account is below its
  credit line; each booking sits on one account, releases no more than it held, turns exactly the
  released reservation into its charge, refunds no more than the charge and agrees with the booking
  record and its cancellation; receipts, adjustments and audit events match; no link is broken.
\<close>

theorem clean_report_iff:
  "rp_findings (checkLedgerIntegrity collate i) = [] \<longleftrightarrow> ledger_rules i"
proof -
  have sorted_Nil: "js_sort cmp xs = [] \<longleftrightarrow> xs = []" for cmp and xs :: "IntegrityFinding list"
    by (metis length_0_conv length_js_sort)
  have lists: "concat (map g xs) = [] \<longleftrightarrow> list_all (\<lambda>x. g x = []) xs" for g and xs :: "'z list"
    by (simp add: list_all_iff)
  have "rp_findings (checkLedgerIntegrity collate i) = [] \<longleftrightarrow> all_findings i = []"
    by (simp add: checkLedgerIntegrity_def sorted_Nil)
  also have "\<dots> \<longleftrightarrow> ledger_rules i"
    unfolding all_findings_def ledger_rules_def Let_def append_is_Nil_conv booking_findings_Nil [unfolded Let_def]
      adjustment_section_Nil
    by (simp only: lists entry_findings_Nil account_findings_Nil receipt_findings_Nil credit_findings_Nil)
       (cases "in_chainBreaks i", simp_all)
  finally show ?thesis .
qed

end
