(* ===== verification/Reconciliation.thy ===== *)
theory Reconciliation
  imports Ledger_Integrity Money
begin

text \<open>
  Supplier statement reconciliation (\<open>packages/money/src/reconciliation.ts\<close>): matching statement lines
  to ledger items by an exact reference, classifying each line and each uncovered item, the
  settlement figures per currency, and which decisions need a second person. The items of a run are
  distinct objects, so an item is identified by its place in the input.
\<close>

subsection \<open>Data\<close>

datatype StatementLineKind = CHARGE | CREDIT | SURCHARGE

record StatementLineInput =
  sl_lineId :: string
  sl_reference :: string
  sl_kind :: StatementLineKind
  sl_currency :: string
  sl_amountMinor :: int

datatype ItemState = PAYABLE | CANCELLED

record LedgerItemInput =
  li_bookingId :: string
  li_references :: "string list"
  li_currency :: string
  li_netMinor :: "int option"
  li_state :: ItemState
  li_expectedCreditMinor :: "int option"
  li_previouslyInvoiced :: bool

record ReconcilePolicy =
  roundingToleranceMinor :: int

datatype FindingType =
    MATCHED | ROUNDING_VARIANCE | AMOUNT_OVERCHARGE | AMOUNT_UNDERCHARGE | CURRENCY_MISMATCH | UNINVOICED_SURCHARGE
  | UNMATCHED_LINE | AMBIGUOUS_REFERENCE | DUPLICATE_LINE | NET_UNKNOWN | CHARGE_ON_CANCELLED | CREDIT_MATCHED
  | CREDIT_VARIANCE | CREDIT_WITHOUT_CANCELLATION | CREDIT_AMOUNT_UNKNOWN | MISSING_FROM_STATEMENT | CREDIT_NOT_RECEIVED

definition CLEAN_FINDING_TYPES :: "FindingType list" where
  "CLEAN_FINDING_TYPES = [MATCHED, CREDIT_MATCHED]"

definition isException :: "FindingType \<Rightarrow> bool" where
  "isException type \<longleftrightarrow> type \<notin> set CLEAN_FINDING_TYPES"

datatype MatchRule = REFERENCE_AND_NET_EXACT | REFERENCE_AND_CREDIT_EXACT | REFERENCE_ONLY | NONE

record Finding =
  fd_key :: string
  fd_type :: FindingType
  fd_rule :: MatchRule
  fd_lineId :: "string option"
  fd_bookingId :: "string option"
  fd_currency :: string
  fd_statementMinor :: "int option"
  fd_ledgerMinor :: "int option"
  fd_varianceMinor :: "int option"

record SettlementSummary =
  ss_currency :: string
  ss_chargesMinor :: int
  ss_creditsMinor :: int
  ss_statementNetMinor :: int
  ss_matchedMinor :: int
  ss_exceptionMinor :: int

record ReconcileResult =
  rr_findings :: "Finding list"
  rr_settlement :: "SettlementSummary list"

subsection \<open>Matching\<close>

definition normaliseReference :: "string \<Rightarrow> string" where
  "normaliseReference reference = toUpperCase (trim reference)"

definition classifyAmount :: "int \<Rightarrow> int \<Rightarrow> ReconcilePolicy \<Rightarrow> FindingType \<times> int" where
  "classifyAmount statement ledger policy =
     (let variance = statement - ledger in
      if variance = 0 then (MATCHED, variance)
      else if \<bar>variance\<bar> \<le> roundingToleranceMinor policy then (ROUNDING_VARIANCE, variance)
      else (if variance > 0 then AMOUNT_OVERCHARGE else AMOUNT_UNDERCHARGE, variance))"

text \<open>The reference index: for each normalised reference the places of the items that carry it.\<close>

fun index_references :: "nat \<Rightarrow> (string, nat list) omap \<Rightarrow> string list \<Rightarrow> (string, nat list) omap" where
  "index_references n m [] = m"
| "index_references n m (reference # rs) =
     (let key = normaliseReference reference in
      if key = [] then index_references n m rs
      else index_references n (omap_put key (set_add n (omap_getd (\<lambda>_. []) m key)) m) rs)"

fun index_items :: "nat \<Rightarrow> (string, nat list) omap \<Rightarrow> LedgerItemInput list \<Rightarrow> (string, nat list) omap" where
  "index_items n m [] = m"
| "index_items n m (item # items) = index_items (Suc n) (index_references n m (li_references item)) items"

definition byReference :: "LedgerItemInput list \<Rightarrow> (string, nat list) omap" where
  "byReference items = index_items 0 [] items"

datatype Side = CHARGE_SIDE | CREDIT_SIDE

record match_state =
  ms_findings :: "Finding list"
  ms_covered :: "(string, Side list) omap"
  ms_seen :: "string list"

definition cover :: "LedgerItemInput \<Rightarrow> Side \<Rightarrow> match_state \<Rightarrow> match_state" where
  "cover item kind s = s\<lparr>ms_covered :=
     omap_put (li_bookingId item) (set_add kind (omap_getd (\<lambda>_. []) (ms_covered s) (li_bookingId item))) (ms_covered s)\<rparr>"

definition emit ::
  "StatementLineInput \<Rightarrow> FindingType \<Rightarrow> MatchRule \<Rightarrow> LedgerItemInput option \<Rightarrow> int option \<Rightarrow> int option \<Rightarrow> match_state \<Rightarrow> match_state" where
  "emit line type rule item ledgerMinor varianceMinor s = s\<lparr>ms_findings := ms_findings s @
     [\<lparr>fd_key = sl_lineId line, fd_type = type, fd_rule = rule, fd_lineId = Some (sl_lineId line),
       fd_bookingId = map_option li_bookingId item, fd_currency = sl_currency line,
       fd_statementMinor = Some (sl_amountMinor line), fd_ledgerMinor = ledgerMinor, fd_varianceMinor = varianceMinor\<rparr>]\<rparr>"

fun kind_text :: "StatementLineKind \<Rightarrow> string" where
  "kind_text CHARGE = ''CHARGE''"
| "kind_text CREDIT = ''CREDIT''"
| "kind_text SURCHARGE = ''SURCHARGE''"

definition line_identity :: "StatementLineInput \<Rightarrow> string" where
  "line_identity line = normaliseReference (sl_reference line) @ [char_of (0 :: nat)] @ kind_text (sl_kind line) @
     [char_of (0 :: nat)] @ sl_currency line @ [char_of (0 :: nat)] @ string_of_int (sl_amountMinor line)"

definition match_charge :: "ReconcilePolicy \<Rightarrow> StatementLineInput \<Rightarrow> LedgerItemInput \<Rightarrow> match_state \<Rightarrow> match_state" where
  "match_charge policy line item s0 =
     (let s = cover item CHARGE_SIDE s0 in
      if li_state item = CANCELLED then emit line CHARGE_ON_CANCELLED REFERENCE_ONLY (Some item) (li_netMinor item) None s
      else case li_netMinor item of
        None \<Rightarrow> emit line NET_UNKNOWN REFERENCE_ONLY (Some item) None None s
      | Some net \<Rightarrow>
          if li_currency item \<noteq> sl_currency line
          then emit line CURRENCY_MISMATCH REFERENCE_ONLY (Some item) (Some net) None s
          else let (type, variance) = classifyAmount (sl_amountMinor line) net policy in
               emit line type (if type = MATCHED then REFERENCE_AND_NET_EXACT else REFERENCE_ONLY) (Some item) (Some net)
                 (Some variance) s)"

definition match_credit :: "ReconcilePolicy \<Rightarrow> StatementLineInput \<Rightarrow> LedgerItemInput \<Rightarrow> match_state \<Rightarrow> match_state" where
  "match_credit policy line item s0 =
     (let s = cover item CREDIT_SIDE s0 in
      if li_state item \<noteq> CANCELLED then emit line CREDIT_WITHOUT_CANCELLATION REFERENCE_ONLY (Some item) None None s
      else case li_expectedCreditMinor item of
        None \<Rightarrow> emit line CREDIT_AMOUNT_UNKNOWN REFERENCE_ONLY (Some item) None None s
      | Some credit \<Rightarrow>
          if li_currency item \<noteq> sl_currency line
          then emit line CURRENCY_MISMATCH REFERENCE_ONLY (Some item) (Some credit) None s
          else let (type, variance) = classifyAmount (sl_amountMinor line) credit policy in
               if type = MATCHED
               then emit line CREDIT_MATCHED REFERENCE_AND_CREDIT_EXACT (Some item) (Some credit) (Some variance) s
               else emit line CREDIT_VARIANCE REFERENCE_ONLY (Some item) (Some credit) (Some variance) s)"

definition match_line ::
  "LedgerItemInput list \<Rightarrow> ReconcilePolicy \<Rightarrow> match_state \<Rightarrow> StatementLineInput \<Rightarrow> match_state result" where
  "match_line items policy s line =
     (if sl_amountMinor line \<le> 0 then Inl (Error ''A statement line amount must be a positive magnitude'')
      else if line_identity line \<in> set (ms_seen s) then Inr (emit line DUPLICATE_LINE NONE None None None s)
      else
        let s1 = s\<lparr>ms_seen := set_add (line_identity line) (ms_seen s)\<rparr> in
        case omap_getd (\<lambda>_. []) (byReference items) (normaliseReference (sl_reference line)) of
          [] \<Rightarrow> Inr (emit line UNMATCHED_LINE NONE None None None s1)
        | _ # _ # _ \<Rightarrow> Inr (emit line AMBIGUOUS_REFERENCE NONE None None None s1)
        | [n] \<Rightarrow>
            let item = items ! n in
            Inr (case sl_kind line of
                   SURCHARGE \<Rightarrow> emit line UNINVOICED_SURCHARGE REFERENCE_ONLY (Some item) (li_netMinor item) None s1
                 | CHARGE \<Rightarrow> match_charge policy line item s1
                 | CREDIT \<Rightarrow> match_credit policy line item s1))"

definition ledger_finding :: "LedgerItemInput \<Rightarrow> FindingType \<Rightarrow> string \<Rightarrow> int option \<Rightarrow> Finding" where
  "ledger_finding item type type_text ledgerMinor =
     \<lparr>fd_key = ''ledger:'' @ li_bookingId item @ '':'' @ type_text, fd_type = type, fd_rule = NONE, fd_lineId = None,
      fd_bookingId = Some (li_bookingId item), fd_currency = li_currency item, fd_statementMinor = None,
      fd_ledgerMinor = ledgerMinor, fd_varianceMinor = None\<rparr>"

definition uncovered_findings :: "(string, Side list) omap \<Rightarrow> LedgerItemInput \<Rightarrow> Finding list" where
  "uncovered_findings covered item =
     (let kinds = omap_getd (\<lambda>_. []) covered (li_bookingId item) in
      (if li_state item = PAYABLE \<and> li_netMinor item \<noteq> None \<and> CHARGE_SIDE \<notin> set kinds
       then [ledger_finding item MISSING_FROM_STATEMENT ''MISSING_FROM_STATEMENT'' (li_netMinor item)] else []) @
      (if li_state item = CANCELLED \<and> li_previouslyInvoiced item
          \<and> (case li_expectedCreditMinor item of None \<Rightarrow> False | Some credit \<Rightarrow> credit > 0) \<and> CREDIT_SIDE \<notin> set kinds
       then [ledger_finding item CREDIT_NOT_RECEIVED ''CREDIT_NOT_RECEIVED'' (li_expectedCreditMinor item)] else []))"

subsection \<open>Settlement figures\<close>

definition byLine :: "Finding list \<Rightarrow> string \<Rightarrow> Finding option" where
  "byLine findings lineId = last_with fd_lineId (filter (\<lambda>f. truthy_text (fd_lineId f)) findings) (Some lineId)"

definition new_summary :: "StatementLineInput \<Rightarrow> SettlementSummary" where
  "new_summary line = \<lparr>ss_currency = sl_currency line, ss_chargesMinor = 0, ss_creditsMinor = 0, ss_statementNetMinor = 0,
     ss_matchedMinor = 0, ss_exceptionMinor = 0\<rparr>"

definition add_line :: "Finding list \<Rightarrow> SettlementSummary \<Rightarrow> StatementLineInput \<Rightarrow> SettlementSummary" where
  "add_line findings row line =
     (let r1 = (if sl_kind line = CREDIT then row\<lparr>ss_creditsMinor := ss_creditsMinor row + sl_amountMinor line\<rparr>
                else row\<lparr>ss_chargesMinor := ss_chargesMinor row + sl_amountMinor line\<rparr>);
          r2 = (case byLine findings (sl_lineId line) of
                  None \<Rightarrow> r1
                | Some f \<Rightarrow> if isException (fd_type f) then r1\<lparr>ss_exceptionMinor := ss_exceptionMinor r1 + sl_amountMinor line\<rparr>
                            else r1\<lparr>ss_matchedMinor := ss_matchedMinor r1 + sl_amountMinor line\<rparr>) in
      r2\<lparr>ss_statementNetMinor := ss_chargesMinor r2 - ss_creditsMinor r2\<rparr>)"

definition summariseSettlement ::
  "(string \<Rightarrow> string \<Rightarrow> int) \<Rightarrow> StatementLineInput list \<Rightarrow> Finding list \<Rightarrow> SettlementSummary list" where
  "summariseSettlement collate lines findings =
     js_sort (\<lambda>a b. collate (ss_currency a) (ss_currency b))
       (omap_values (group_by sl_currency new_summary (add_line findings) lines))"

definition reconcileStatement ::
  "(string \<Rightarrow> string \<Rightarrow> int) \<Rightarrow> StatementLineInput list \<Rightarrow> LedgerItemInput list \<Rightarrow> ReconcilePolicy \<Rightarrow> ReconcileResult result" where
  "reconcileStatement collate lines items policy =
     (if roundingToleranceMinor policy < 0 then Inl (Error ''Rounding tolerance must not be negative'')
      else ebind (efold (match_line items policy) \<lparr>ms_findings = [], ms_covered = [], ms_seen = []\<rparr> lines) (\<lambda>s.
        let findings = ms_findings s @ concat (map (uncovered_findings (ms_covered s)) items) in
        Inr \<lparr>rr_findings = findings, rr_settlement = summariseSettlement collate lines findings\<rparr>))"

subsection \<open>Decisions\<close>

datatype ResolutionAction = ACCEPT_STATEMENT | KEEP_LEDGER_AND_DISPUTE | WRITE_OFF_VARIANCE | REJECT_STATEMENT_LINE | ACKNOWLEDGE

datatype Severity = LOW | MEDIUM | HIGH

text \<open>The severity and the allowed actions per exception; the hint is display text and left out.\<close>

record ExceptionRule =
  er_severity :: Severity
  er_actions :: "ResolutionAction list"

abbreviation exception_rule :: "Severity \<Rightarrow> ResolutionAction list \<Rightarrow> ExceptionRule option" where
  "exception_rule s as \<equiv> Some \<lparr>er_severity = s, er_actions = as\<rparr>"

fun EXCEPTION_RULES :: "FindingType \<Rightarrow> ExceptionRule option" where
  "EXCEPTION_RULES MATCHED = None"
| "EXCEPTION_RULES CREDIT_MATCHED = None"
| "EXCEPTION_RULES ROUNDING_VARIANCE = exception_rule LOW [WRITE_OFF_VARIANCE, KEEP_LEDGER_AND_DISPUTE]"
| "EXCEPTION_RULES AMOUNT_OVERCHARGE = exception_rule HIGH [KEEP_LEDGER_AND_DISPUTE, ACCEPT_STATEMENT, REJECT_STATEMENT_LINE]"
| "EXCEPTION_RULES AMOUNT_UNDERCHARGE = exception_rule MEDIUM [ACCEPT_STATEMENT, KEEP_LEDGER_AND_DISPUTE]"
| "EXCEPTION_RULES CURRENCY_MISMATCH = exception_rule HIGH [KEEP_LEDGER_AND_DISPUTE, ACCEPT_STATEMENT, REJECT_STATEMENT_LINE]"
| "EXCEPTION_RULES UNINVOICED_SURCHARGE = exception_rule HIGH [KEEP_LEDGER_AND_DISPUTE, ACCEPT_STATEMENT, REJECT_STATEMENT_LINE]"
| "EXCEPTION_RULES UNMATCHED_LINE = exception_rule MEDIUM [REJECT_STATEMENT_LINE, KEEP_LEDGER_AND_DISPUTE]"
| "EXCEPTION_RULES AMBIGUOUS_REFERENCE = exception_rule MEDIUM [REJECT_STATEMENT_LINE, KEEP_LEDGER_AND_DISPUTE]"
| "EXCEPTION_RULES DUPLICATE_LINE = exception_rule MEDIUM [REJECT_STATEMENT_LINE, KEEP_LEDGER_AND_DISPUTE]"
| "EXCEPTION_RULES NET_UNKNOWN = exception_rule MEDIUM [KEEP_LEDGER_AND_DISPUTE, ACKNOWLEDGE]"
| "EXCEPTION_RULES CHARGE_ON_CANCELLED = exception_rule HIGH [KEEP_LEDGER_AND_DISPUTE, ACCEPT_STATEMENT, REJECT_STATEMENT_LINE]"
| "EXCEPTION_RULES CREDIT_VARIANCE = exception_rule MEDIUM [KEEP_LEDGER_AND_DISPUTE, ACCEPT_STATEMENT]"
| "EXCEPTION_RULES CREDIT_WITHOUT_CANCELLATION = exception_rule MEDIUM [REJECT_STATEMENT_LINE, KEEP_LEDGER_AND_DISPUTE]"
| "EXCEPTION_RULES CREDIT_AMOUNT_UNKNOWN = exception_rule MEDIUM [KEEP_LEDGER_AND_DISPUTE, ACKNOWLEDGE]"
| "EXCEPTION_RULES MISSING_FROM_STATEMENT = exception_rule LOW [ACKNOWLEDGE, KEEP_LEDGER_AND_DISPUTE]"
| "EXCEPTION_RULES CREDIT_NOT_RECEIVED = exception_rule HIGH [KEEP_LEDGER_AND_DISPUTE, ACKNOWLEDGE]"

definition SECOND_APPROVAL_MAJOR_UNITS :: int where
  "SECOND_APPROVAL_MAJOR_UNITS = 100"

definition secondApprovalThresholdMinor :: "string \<Rightarrow> int result" where
  "secondApprovalThresholdMinor c =
     ebind (minorUnitExponent c) (\<lambda>e. Inr (SECOND_APPROVAL_MAJOR_UNITS * 10 ^ e))"

definition amountAtStake :: "Finding \<Rightarrow> int option" where
  "amountAtStake f =
     (case fd_varianceMinor f of
        Some v \<Rightarrow> Some \<bar>v\<bar>
      | None \<Rightarrow> case fd_statementMinor f of Some s \<Rightarrow> Some s | None \<Rightarrow> fd_ledgerMinor f)"

definition needsSecondApproval :: "ResolutionAction \<Rightarrow> Finding \<Rightarrow> bool result" where
  "needsSecondApproval action f =
     (if action = KEEP_LEDGER_AND_DISPUTE \<or> action = ACKNOWLEDGE then Inr False
      else let stake = (if action = REJECT_STATEMENT_LINE
                        then (case fd_statementMinor f of Some s \<Rightarrow> Some s | None \<Rightarrow> fd_ledgerMinor f)
                        else amountAtStake f) in
           case stake of
             None \<Rightarrow> Inr True
           | Some a \<Rightarrow> ebind (secondApprovalThresholdMinor (fd_currency f)) (\<lambda>t. Inr (a \<ge> t)))"

subsection \<open>The reference index\<close>

definition carries :: "string \<Rightarrow> LedgerItemInput \<Rightarrow> bool" where
  "carries key item \<longleftrightarrow> key \<noteq> [] \<and> key \<in> normaliseReference ` set (li_references item)"

definition carriers :: "string \<Rightarrow> nat \<Rightarrow> LedgerItemInput list \<Rightarrow> nat list" where
  "carriers key n items = map fst (filter (\<lambda>x. carries key (snd x)) (enumerate n items))"

lemma set_add_idem [simp]: "set_add x (set_add x xs) = set_add x xs"
  by (simp add: set_add_def)

lemma index_references_get:
  "omap_getd (\<lambda>_. []) (index_references n m refs) key =
     (if key \<noteq> [] \<and> key \<in> normaliseReference ` set refs then set_add n (omap_getd (\<lambda>_. []) m key)
      else omap_getd (\<lambda>_. []) m key)"
proof (induction n m refs rule: index_references.induct)
  case (2 n m reference rs)
  let ?k = "normaliseReference reference"
  show ?case using 2 by (auto simp: Let_def)
qed simp

lemma index_items_get:
  assumes "\<forall>k \<in> set (omap_getd (\<lambda>_. []) m key). k < n"
  shows "omap_getd (\<lambda>_. []) (index_items n m items) key = omap_getd (\<lambda>_. []) m key @ carriers key n items"
  using assms
proof (induction items arbitrary: n m)
  case Nil
  then show ?case by (simp add: carriers_def)
next
  case (Cons item items)
  let ?m = "index_references n m (li_references item)"
  have m: "omap_getd (\<lambda>_. []) ?m key = omap_getd (\<lambda>_. []) m key @ (if carries key item then [n] else [])"
    using Cons.prems by (auto simp: index_references_get carries_def set_add_def)
  then have "\<forall>k \<in> set (omap_getd (\<lambda>_. []) ?m key). k < Suc n" using Cons.prems by (auto simp: less_Suc_eq)
  from Cons.IH [OF this] m show ?case by (simp add: carriers_def)
qed

lemma byReference_get: "omap_getd (\<lambda>_. []) (byReference items) key = carriers key 0 items"
  unfolding byReference_def by (subst index_items_get) (simp_all add: omap_getd_def)

lemma map_nth_carriers: "map (\<lambda>k. items ! (k - n)) (carriers key n items) = filter (carries key) items"
proof (induction items arbitrary: n)
  case Nil
  then show ?case by (simp add: carriers_def)
next
  case (Cons item items)
  have "map (\<lambda>k. (item # items) ! (k - n)) (carriers key (Suc n) items) = map (\<lambda>k. items ! (k - Suc n)) (carriers key (Suc n) items)"
    by (auto simp: carriers_def in_set_enumerate_eq nth_Cons' intro!: map_cong)
  with Cons [of "Suc n"] show ?case by (simp add: carriers_def)
qed

subsection \<open>One finding per line\<close>

text \<open>The only item that carries a reference.\<close>

definition sole_item :: "LedgerItemInput list \<Rightarrow> string \<Rightarrow> LedgerItemInput option" where
  "sole_item items reference =
     (case filter (carries (normaliseReference reference)) items of [item] \<Rightarrow> Some item | _ \<Rightarrow> None)"

lemma candidates_cases:
  assumes "omap_getd (\<lambda>_. []) (byReference items) (normaliseReference reference) = ns"
  shows "(case ns of [n] \<Rightarrow> Some (items ! n) | _ \<Rightarrow> None) = sole_item items reference"
proof -
  have "map (\<lambda>k. items ! k) ns = filter (carries (normaliseReference reference)) items"
    using map_nth_carriers [of items 0 "normaliseReference reference"] assms by (simp add: byReference_get)
  then show ?thesis by (auto simp: sole_item_def split: list.split)
qed

definition fresh :: "StatementLineInput list \<Rightarrow> StatementLineInput \<Rightarrow> bool" where
  "fresh earlier line \<longleftrightarrow> line_identity line \<notin> line_identity ` set earlier"

definition exact_charge :: "LedgerItemInput list \<Rightarrow> StatementLineInput \<Rightarrow> bool" where
  "exact_charge items line \<longleftrightarrow> sl_kind line = CHARGE \<and>
     (\<exists>item. sole_item items (sl_reference line) = Some item \<and> li_state item = PAYABLE \<and> li_currency item = sl_currency line
        \<and> li_netMinor item = Some (sl_amountMinor line))"

definition exact_credit :: "LedgerItemInput list \<Rightarrow> StatementLineInput \<Rightarrow> bool" where
  "exact_credit items line \<longleftrightarrow> sl_kind line = CREDIT \<and>
     (\<exists>item. sole_item items (sl_reference line) = Some item \<and> li_state item = CANCELLED \<and> li_currency item = sl_currency line
        \<and> li_expectedCreditMinor item = Some (sl_amountMinor line))"

definition line_finding_ok :: "LedgerItemInput list \<Rightarrow> StatementLineInput list \<Rightarrow> StatementLineInput \<Rightarrow> Finding \<Rightarrow> bool" where
  "line_finding_ok items earlier line f \<longleftrightarrow>
     fd_lineId f = Some (sl_lineId line) \<and> fd_statementMinor f = Some (sl_amountMinor line) \<and> fd_currency f = sl_currency line
     \<and> (fd_type f = MATCHED \<longleftrightarrow> fresh earlier line \<and> exact_charge items line)
     \<and> (fd_type f = CREDIT_MATCHED \<longleftrightarrow> fresh earlier line \<and> exact_credit items line)
     \<and> (fd_type f = DUPLICATE_LINE \<longleftrightarrow> \<not> fresh earlier line)"

lemma not_CANCELLED [simp]: "s \<noteq> CANCELLED \<longleftrightarrow> s = PAYABLE"
  by (cases s) simp_all

lemma classifyAmount_MATCHED: "fst (classifyAmount s l policy) = MATCHED \<longleftrightarrow> s = l"
  by (auto simp: classifyAmount_def Let_def)

lemma classifyAmount_range:
  "fst (classifyAmount s l policy) \<in> {MATCHED, ROUNDING_VARIANCE, AMOUNT_OVERCHARGE, AMOUNT_UNDERCHARGE}"
  by (auto simp: classifyAmount_def Let_def)

lemma match_charge_finding:
  assumes "sole_item items (sl_reference line) = Some item" "sl_kind line = CHARGE" "fresh earlier line"
  shows "\<exists>f. ms_findings (match_charge policy line item s) = ms_findings s @ [f] \<and> line_finding_ok items earlier line f"
  using assms classifyAmount_MATCHED [of "sl_amountMinor line" "the (li_netMinor item)" policy]
    classifyAmount_range [of "sl_amountMinor line" "the (li_netMinor item)" policy]
  by (cases "li_state item"; cases "li_netMinor item")
     (auto simp: match_charge_def cover_def emit_def Let_def line_finding_ok_def exact_charge_def exact_credit_def
        split: prod.split)

lemma match_credit_finding:
  assumes "sole_item items (sl_reference line) = Some item" "sl_kind line = CREDIT" "fresh earlier line"
  shows "\<exists>f. ms_findings (match_credit policy line item s) = ms_findings s @ [f] \<and> line_finding_ok items earlier line f"
  using assms classifyAmount_MATCHED [of "sl_amountMinor line" "the (li_expectedCreditMinor item)" policy]
  by (cases "li_state item"; cases "li_expectedCreditMinor item")
     (auto simp: match_credit_def cover_def emit_def Let_def line_finding_ok_def exact_charge_def exact_credit_def
        split: prod.split)

lemma match_seen [simp]:
  "ms_seen (emit line type rule i l v s) = ms_seen s"
  "ms_seen (match_charge policy line item s) = ms_seen s"
  "ms_seen (match_credit policy line item s) = ms_seen s"
  by (simp_all add: match_charge_def match_credit_def emit_def cover_def Let_def split: option.split prod.split)

definition lines_invariant :: "LedgerItemInput list \<Rightarrow> StatementLineInput list \<Rightarrow> match_state \<Rightarrow> bool" where
  "lines_invariant items done s \<longleftrightarrow>
     set (ms_seen s) = line_identity ` set done \<and> length (ms_findings s) = length done
     \<and> (\<forall>k < length done. line_finding_ok items (take k done) (done ! k) (ms_findings s ! k))"

lemma lines_invariant_step:
  assumes inv: "lines_invariant items done s" and step: "match_line items policy s line = Inr s'"
  shows "lines_invariant items (done @ [line]) s'"
proof -
  have "\<exists>f. ms_findings s' = ms_findings s @ [f] \<and> line_finding_ok items done line f"
    and seen: "set (ms_seen s') = insert (line_identity line) (set (ms_seen s))"
  proof -
    have pos: "\<not> sl_amountMinor line \<le> 0" using step by (auto simp: match_line_def)
    show "\<exists>f. ms_findings s' = ms_findings s @ [f] \<and> line_finding_ok items done line f"
    proof (cases "line_identity line \<in> set (ms_seen s)")
      case True
      with step pos inv show ?thesis
        by (auto simp: match_line_def emit_def line_finding_ok_def fresh_def lines_invariant_def)
    next
      case False
      with inv have fresh: "fresh done line" by (simp add: fresh_def lines_invariant_def)
      define ns where "ns = omap_getd (\<lambda>_. []) (byReference items) (normaliseReference (sl_reference line))"
      note sole = candidates_cases [OF ns_def [symmetric]]
      consider "ns = [] \<or> (\<exists>a b c. ns = a # b # c)" | n where "ns = [n]" by (metis list.exhaust)
      then show ?thesis
      proof cases
        case 1
        then have "sole_item items (sl_reference line) = None" using sole by auto
        with 1 step pos False fresh show ?thesis
          by (auto simp: match_line_def ns_def [symmetric] Let_def emit_def line_finding_ok_def exact_charge_def exact_credit_def)
      next
        case (2 n)
        then have item: "sole_item items (sl_reference line) = Some (items ! n)" using sole by simp
        let ?s = "s\<lparr>ms_seen := set_add (line_identity line) (ms_seen s)\<rparr>"
        have s': "s' = (case sl_kind line of
                   SURCHARGE \<Rightarrow> emit line UNINVOICED_SURCHARGE REFERENCE_ONLY (Some (items ! n)) (li_netMinor (items ! n)) None ?s
                 | CHARGE \<Rightarrow> match_charge policy line (items ! n) ?s
                 | CREDIT \<Rightarrow> match_credit policy line (items ! n) ?s)"
          using step pos False 2 by (simp add: match_line_def ns_def [symmetric] Let_def)
        show ?thesis
        proof (cases "sl_kind line")
          case CHARGE
          then show ?thesis using match_charge_finding [OF item CHARGE fresh, of policy ?s] by (simp add: s')
        next
          case CREDIT
          then show ?thesis using match_credit_finding [OF item CREDIT fresh, of policy ?s] by (simp add: s')
        next
          case SURCHARGE
          then show ?thesis
            using fresh by (simp add: s' emit_def line_finding_ok_def exact_charge_def exact_credit_def)
        qed
      qed
    qed
    show "set (ms_seen s') = insert (line_identity line) (set (ms_seen s))"
      using step pos by (auto simp: match_line_def Let_def split: if_splits list.splits StatementLineKind.splits)
  qed
  then show ?thesis
    using inv by (auto simp: lines_invariant_def nth_append less_Suc_eq)
qed

lemma efold_lines_invariant:
  assumes "efold (match_line items policy) \<lparr>ms_findings = [], ms_covered = [], ms_seen = []\<rparr> lines = Inr s"
  shows "lines_invariant items lines s"
  by (rule efold_invariant [OF assms]) (simp add: lines_invariant_def, rule lines_invariant_step)

lemma uncovered_no_line: "f \<in> set (uncovered_findings covered item) \<Longrightarrow> fd_lineId f = None"
  by (auto simp: uncovered_findings_def ledger_finding_def Let_def split: if_splits)

lemma reconcileStatement_lines:
  assumes "reconcileStatement collate lines items policy = Inr r"
  shows "\<exists>lf rest. rr_findings r = lf @ rest \<and> length lf = length lines \<and> list_all (\<lambda>f. fd_lineId f = None) rest
    \<and> list_all (\<lambda>k. line_finding_ok items (take k lines) (lines ! k) (lf ! k)) [0..<length lines]
    \<and> rr_settlement r = summariseSettlement collate lines (rr_findings r)"
proof -
  obtain s where s: "efold (match_line items policy) \<lparr>ms_findings = [], ms_covered = [], ms_seen = []\<rparr> lines = Inr s"
    and r: "rr_findings r = ms_findings s @ concat (map (uncovered_findings (ms_covered s)) items)"
      "rr_settlement r = summariseSettlement collate lines (rr_findings r)"
    using assms by (auto simp: reconcileStatement_def result_simps Let_def split: if_splits)
  from efold_lines_invariant [OF s] r show ?thesis
    by (intro exI [of _ "ms_findings s"] exI [of _ "concat (map (uncovered_findings (ms_covered s)) items)"])
       (auto simp: lines_invariant_def list_all_iff dest: uncovered_no_line)
qed

text \<open>
  C31. Every statement line gets exactly one finding, in statement order, for its own amount and
  currency, and the ledger-side findings follow. A line is MATCHED exactly when it is no repetition of
  an earlier line and is a charge whose reference is carried by one item alone, payable, in the same
  currency, with exactly that net; CREDIT_MATCHED likewise for a cancelled item's expected credit.
  No tolerance, conversion or guess ever closes a line.
\<close>

theorem reconcile_lines_exact:
  assumes "reconcileStatement collate lines items policy = Inr r"
  shows "\<exists>lf rest. rr_findings r = lf @ rest \<and> length lf = length lines \<and> list_all (\<lambda>f. fd_lineId f = None) rest
    \<and> list_all (\<lambda>k. fd_lineId (lf ! k) = Some (sl_lineId (lines ! k))
        \<and> fd_statementMinor (lf ! k) = Some (sl_amountMinor (lines ! k)) \<and> fd_currency (lf ! k) = sl_currency (lines ! k)
        \<and> (fd_type (lf ! k) = MATCHED \<longleftrightarrow> fresh (take k lines) (lines ! k) \<and> exact_charge items (lines ! k))
        \<and> (fd_type (lf ! k) = CREDIT_MATCHED \<longleftrightarrow> fresh (take k lines) (lines ! k) \<and> exact_credit items (lines ! k))
        \<and> (fd_type (lf ! k) = DUPLICATE_LINE \<longleftrightarrow> \<not> fresh (take k lines) (lines ! k))) [0..<length lines]"
  using reconcileStatement_lines [OF assms] unfolding line_finding_ok_def by blast

definition sample_item :: LedgerItemInput where
  "sample_item = \<lparr>li_bookingId = ''b1'', li_references = ['' fb-1 '', ''SUP9''], li_currency = ''EUR'', li_netMinor = Some 900,
     li_state = PAYABLE, li_expectedCreditMinor = None, li_previouslyInvoiced = False\<rparr>"

definition sample_line :: "string \<Rightarrow> string \<Rightarrow> int \<Rightarrow> StatementLineInput" where
  "sample_line lid reference amount = \<lparr>sl_lineId = lid, sl_reference = reference, sl_kind = CHARGE, sl_currency = ''EUR'',
     sl_amountMinor = amount\<rparr>"

definition sample_lines :: "StatementLineInput list" where
  "sample_lines = [sample_line ''l1'' ''FB-1'' 900, sample_line ''l2'' ''FB-1'' 950, sample_line ''l3'' ''fb-1'' 900]"

definition sample_result :: ReconcileResult where
  "sample_result = (case reconcileStatement cmp_text sample_lines [sample_item] \<lparr>roundingToleranceMinor = 0\<rparr> of
     Inr r \<Rightarrow> r | Inl _ \<Rightarrow> \<lparr>rr_findings = [], rr_settlement = []\<rparr>)"

lemma sample_reconciled:
  "reconcileStatement cmp_text sample_lines [sample_item] \<lparr>roundingToleranceMinor = 0\<rparr> = Inr sample_result"
proof -
  have "returns (reconcileStatement cmp_text sample_lines [sample_item] \<lparr>roundingToleranceMinor = 0\<rparr>)" by code_simp
  then show ?thesis by (auto simp: sample_result_def returns_iff)
qed

lemma reconcile_lines_exact_witness:
  "map fd_type (rr_findings sample_result) = [MATCHED, AMOUNT_OVERCHARGE, DUPLICATE_LINE]
   \<and> (\<exists>lf rest. rr_findings sample_result = lf @ rest \<and> length lf = 3)"
proof
  show "map fd_type (rr_findings sample_result) = [MATCHED, AMOUNT_OVERCHARGE, DUPLICATE_LINE]" by code_simp
  have "length sample_lines = 3" by (simp add: sample_lines_def)
  then show "\<exists>lf rest. rr_findings sample_result = lf @ rest \<and> length lf = 3"
    using reconcile_lines_exact [OF sample_reconciled] by auto
qed

subsection \<open>The settlement figures\<close>

interpretation summary_charges: additive_rows new_summary "add_line fs" ss_chargesMinor
    "\<lambda>line. if sl_kind line \<noteq> CREDIT then sl_amountMinor line else 0"
  by unfold_locales (auto simp: new_summary_def add_line_def Let_def split: option.split)

interpretation summary_credits: additive_rows new_summary "add_line fs" ss_creditsMinor
    "\<lambda>line. if sl_kind line = CREDIT then sl_amountMinor line else 0"
  by unfold_locales (auto simp: new_summary_def add_line_def Let_def split: option.split)

lemma add_line_currency [simp]: "ss_currency (add_line fs row line) = ss_currency row"
  by (simp add: add_line_def Let_def split: option.split)

lemma add_line_net: "ss_statementNetMinor (add_line fs row line) = ss_chargesMinor (add_line fs row line) - ss_creditsMinor (add_line fs row line)"
  by (simp add: add_line_def Let_def)

lemma add_line_closed:
  assumes "byLine fs (sl_lineId line) \<noteq> None"
    and "ss_matchedMinor row + ss_exceptionMinor row = ss_chargesMinor row + ss_creditsMinor row"
  shows "ss_matchedMinor (add_line fs row line) + ss_exceptionMinor (add_line fs row line) =
    ss_chargesMinor (add_line fs row line) + ss_creditsMinor (add_line fs row line)"
  using assms by (auto simp: add_line_def Let_def split: option.split)

lemma byLine_found:
  assumes "Some lid \<in> fd_lineId ` set fs" "lid \<noteq> []"
  shows "byLine fs lid \<noteq> None"
proof -
  from assms obtain f where "f \<in> set fs" "fd_lineId f = Some lid" by auto
  with assms(2) have "f \<in> set (filter (\<lambda>f. truthy_text (fd_lineId f)) fs)" "Some lid = fd_lineId f"
    by (simp_all add: truthy_text_def)
  then have "Some lid \<in> fd_lineId ` set (filter (\<lambda>f. truthy_text (fd_lineId f)) fs)" by (rule rev_image_eqI)
  then show ?thesis by (simp add: byLine_def last_with_None del: set_filter)
qed

text \<open>
  The settlement figures tie out: when every line has an id, each currency's row sums exactly the
  charges and the credits of the lines in that currency, asks for their difference, and splits the
  line amounts completely into cleanly matched and exception, so no amount is lost or counted twice.
\<close>

theorem settlement_ties_out:
  assumes "reconcileStatement collate lines items policy = Inr r"
    and "list_all (\<lambda>line. sl_lineId line \<noteq> []) lines" and "row \<in> set (rr_settlement r)"
  shows "ss_chargesMinor row = sum_where (\<lambda>l. sl_currency l = ss_currency row \<and> sl_kind l \<noteq> CREDIT) sl_amountMinor lines
    \<and> ss_creditsMinor row = sum_where (\<lambda>l. sl_currency l = ss_currency row \<and> sl_kind l = CREDIT) sl_amountMinor lines
    \<and> ss_statementNetMinor row = ss_chargesMinor row - ss_creditsMinor row
    \<and> ss_matchedMinor row + ss_exceptionMinor row = ss_chargesMinor row + ss_creditsMinor row"
proof -
  let ?fs = "rr_findings r"
  obtain lf rest where fs: "?fs = lf @ rest" "length lf = length lines"
      "list_all (\<lambda>k. line_finding_ok items (take k lines) (lines ! k) (lf ! k)) [0..<length lines]"
      "rr_settlement r = summariseSettlement collate lines ?fs"
    using reconcileStatement_lines [OF assms(1)] by blast
  have found: "byLine ?fs (sl_lineId line) \<noteq> None" if "line \<in> set lines" for line
  proof -
    from that obtain k where k: "k < length lines" "line = lines ! k" by (auto simp: in_set_conv_nth)
    with fs have "fd_lineId (lf ! k) = Some (sl_lineId line)" by (auto simp: list_all_iff line_finding_ok_def)
    moreover have "lf ! k \<in> set ?fs" using k fs by simp
    ultimately show ?thesis using assms(2) that by (intro byLine_found) (auto simp: list_all_iff image_iff intro!: bexI [of _ "lf ! k"])
  qed
  obtain c where "(c, row) \<in> set (group_by sl_currency new_summary (add_line ?fs) lines)"
    using assms(3) by (auto simp: fs(4) summariseSettlement_def omap_values_def)
  then have row: "group_row new_summary (add_line ?fs) (filter (\<lambda>l. sl_currency l = c) lines) = Some row"
    by (simp add: in_set_group_by_iff)
  have "ss_currency row = c \<and> ss_statementNetMinor row = ss_chargesMinor row - ss_creditsMinor row
      \<and> ss_matchedMinor row + ss_exceptionMinor row = ss_chargesMinor row + ss_creditsMinor row"
    by (rule group_row_props [OF row]) (auto simp: new_summary_def add_line_net intro!: add_line_closed found)
  then show ?thesis
    using summary_charges.row_total [OF row] summary_credits.row_total [OF row]
    by (simp add: sum_list_if sum_where_filter)
qed

lemma settlement_ties_out_witness:
  "list_all (\<lambda>row. ss_matchedMinor row + ss_exceptionMinor row = ss_chargesMinor row + ss_creditsMinor row)
     (rr_settlement sample_result)"
proof -
  have "list_all (\<lambda>line. sl_lineId line \<noteq> []) sample_lines" by code_simp
  from settlement_ties_out [OF sample_reconciled this] show ?thesis by (simp add: list_all_iff)
qed

end
