(* ===== verification/General_Ledger.thy ===== *)
theory General_Ledger
  imports Ledger Money
begin

text \<open>
  The double-entry journal derived from the agency ledger (\<open>packages/money/src/gl.ts\<close>) and its CSV
  export (\<open>gl-export.ts\<close>): the category of an entry, the fold of the entries per currency and
  category, the journal lines, the account totals and the balance check.
\<close>

subsection \<open>Categories, accounts and the default chart\<close>

datatype GlAccountType = ASSET | LIABILITY | EQUITY | REVENUE | EXPENSE

datatype GlCategory =
    FUNDING_RECEIVED | PAYMENT_REVERSAL | OTHER_CREDIT | COMMISSION_PAYOUT | RESERVATION | BOOKING_CHARGE
  | BOOKING_REFUND | CREDIT_NOTE | ADJUSTMENT

fun category_text :: "GlCategory \<Rightarrow> string" where
  "category_text FUNDING_RECEIVED = ''FUNDING_RECEIVED''"
| "category_text PAYMENT_REVERSAL = ''PAYMENT_REVERSAL''"
| "category_text OTHER_CREDIT = ''OTHER_CREDIT''"
| "category_text COMMISSION_PAYOUT = ''COMMISSION_PAYOUT''"
| "category_text RESERVATION = ''RESERVATION''"
| "category_text BOOKING_CHARGE = ''BOOKING_CHARGE''"
| "category_text BOOKING_REFUND = ''BOOKING_REFUND''"
| "category_text CREDIT_NOTE = ''CREDIT_NOTE''"
| "category_text ADJUSTMENT = ''ADJUSTMENT''"

record GlLedgerEntry =
  ge_type :: string
  ge_amountMinor :: int
  ge_currency :: string
  ge_reference :: "string option"
  ge_idempotencyKey :: string

definition classifyEntry :: "GlLedgerEntry \<Rightarrow> GlCategory option" where
  "classifyEntry e =
     (if ge_type e = ''CREDIT'' then
        Some (if (case ge_reference e of None \<Rightarrow> False | Some r \<Rightarrow> startsWith r ''funding:'') then FUNDING_RECEIVED
              else if includes_text (ge_idempotencyKey e) '':commission-payout:'' then COMMISSION_PAYOUT
              else OTHER_CREDIT)
      else if ge_type e = ''REVERSAL'' then Some PAYMENT_REVERSAL
      else if ge_type e = ''HOLD'' \<or> ge_type e = ''RELEASE'' then Some RESERVATION
      else if ge_type e = ''DEBIT'' then Some BOOKING_CHARGE
      else if ge_type e = ''REFUND'' then
        Some (if includes_text (ge_idempotencyKey e) '':credit-note:'' then CREDIT_NOTE else BOOKING_REFUND)
      else if ge_type e = ''ADJUSTMENT'' then Some ADJUSTMENT
      else None)"

record GlAccountRef =
  ga_code :: string
  ga_name :: string
  ga_type :: GlAccountType

record GlMappingPair =
  gm_debit :: GlAccountRef
  gm_credit :: GlAccountRef

type_synonym GlMapping = "GlCategory \<Rightarrow> GlMappingPair"

definition DEFAULT_GL_ACCOUNTS :: "GlAccountRef list" where
  "DEFAULT_GL_ACCOUNTS =
    [\<lparr>ga_code = ''1000'', ga_name = ''Bank'', ga_type = ASSET\<rparr>,
     \<lparr>ga_code = ''1900'', ga_name = ''Unclassified ledger movements (suspense)'', ga_type = ASSET\<rparr>,
     \<lparr>ga_code = ''2100'', ga_name = ''Agency account balances'', ga_type = LIABILITY\<rparr>,
     \<lparr>ga_code = ''2110'', ga_name = ''Agency reservations in progress'', ga_type = LIABILITY\<rparr>,
     \<lparr>ga_code = ''2200'', ga_name = ''Booking proceeds not yet earned'', ga_type = LIABILITY\<rparr>,
     \<lparr>ga_code = ''6100'', ga_name = ''Agency commission'', ga_type = EXPENSE\<rparr>,
     \<lparr>ga_code = ''6200'', ga_name = ''Credit notes and goodwill'', ga_type = EXPENSE\<rparr>,
     \<lparr>ga_code = ''6900'', ga_name = ''Agency account adjustments'', ga_type = EXPENSE\<rparr>]"

fun DEFAULT_GL_MAPPINGS :: "GlCategory \<Rightarrow> string \<times> string" where
  "DEFAULT_GL_MAPPINGS FUNDING_RECEIVED = (''1000'', ''2100'')"
| "DEFAULT_GL_MAPPINGS PAYMENT_REVERSAL = (''1000'', ''2100'')"
| "DEFAULT_GL_MAPPINGS OTHER_CREDIT = (''1900'', ''2100'')"
| "DEFAULT_GL_MAPPINGS COMMISSION_PAYOUT = (''6100'', ''2100'')"
| "DEFAULT_GL_MAPPINGS RESERVATION = (''2110'', ''2100'')"
| "DEFAULT_GL_MAPPINGS BOOKING_CHARGE = (''2200'', ''2100'')"
| "DEFAULT_GL_MAPPINGS BOOKING_REFUND = (''2200'', ''2100'')"
| "DEFAULT_GL_MAPPINGS CREDIT_NOTE = (''6200'', ''2100'')"
| "DEFAULT_GL_MAPPINGS ADJUSTMENT = (''6900'', ''2100'')"

subsection \<open>Folding the ledger\<close>

record GlCategoryGroup =
  gg_currency :: string
  gg_category :: GlCategory
  gg_positiveMinor :: int
  gg_positiveCount :: nat
  gg_negativeMinor :: int
  gg_negativeCount :: nat

record GlFold =
  gf_groups :: "(string, GlCategoryGroup) omap"
  gf_unmapped :: nat
  gf_entries :: nat
  gf_netByCurrency :: "(string, int) omap"

definition new_fold :: GlFold where
  "new_fold = \<lparr>gf_groups = [], gf_unmapped = 0, gf_entries = 0, gf_netByCurrency = []\<rparr>"

definition new_group :: "string \<Rightarrow> GlCategory \<Rightarrow> GlCategoryGroup" where
  "new_group c category = \<lparr>gg_currency = c, gg_category = category, gg_positiveMinor = 0, gg_positiveCount = 0,
     gg_negativeMinor = 0, gg_negativeCount = 0\<rparr>"

definition group_add :: "GlCategoryGroup \<Rightarrow> int \<Rightarrow> GlCategoryGroup" where
  "group_add g amount =
     (if amount > 0 then g\<lparr>gg_positiveMinor := gg_positiveMinor g + amount, gg_positiveCount := gg_positiveCount g + 1\<rparr>
      else g\<lparr>gg_negativeMinor := gg_negativeMinor g + - amount, gg_negativeCount := gg_negativeCount g + 1\<rparr>)"

definition fold_key :: "string \<Rightarrow> GlCategory \<Rightarrow> string" where
  "fold_key c category = c @ CHR ''|'' # category_text category"

definition gl_add :: "GlFold \<Rightarrow> GlLedgerEntry \<Rightarrow> GlFold" where
  "gl_add s0 e =
     (let c = ge_currency e;
          s = s0\<lparr>gf_entries := gf_entries s0 + 1,
                 gf_netByCurrency := omap_put c (omap_getd (\<lambda>_. 0) (gf_netByCurrency s0) c + ge_amountMinor e) (gf_netByCurrency s0)\<rparr> in
      case classifyEntry e of
        None \<Rightarrow> s\<lparr>gf_unmapped := gf_unmapped s + 1\<rparr>
      | Some category \<Rightarrow>
          if ge_amountMinor e = 0 then s\<lparr>gf_unmapped := gf_unmapped s + 1\<rparr>
          else let key = fold_key c category;
                   g = omap_getd (\<lambda>_. new_group c category) (gf_groups s) key in
               s\<lparr>gf_groups := omap_put key (group_add g (ge_amountMinor e)) (gf_groups s)\<rparr>)"

definition gl_fold :: "GlLedgerEntry list \<Rightarrow> GlFold" where
  "gl_fold es = foldl gl_add new_fold es"

definition gl_result :: "GlFold \<Rightarrow> GlCategoryGroup list" where
  "gl_result s = omap_values (gf_groups s)"

subsection \<open>The journal\<close>

datatype Direction = POSITIVE | NEGATIVE

fun direction_text :: "Direction \<Rightarrow> string" where
  "direction_text POSITIVE = ''POSITIVE''"
| "direction_text NEGATIVE = ''NEGATIVE''"

record JournalLine =
  jl_currency :: string
  jl_category :: GlCategory
  jl_direction :: Direction
  jl_entries :: nat
  jl_amountMinor :: int
  jl_debit :: GlAccountRef
  jl_credit :: GlAccountRef

record JournalAccountTotal =
  jt_currency :: string
  jt_account :: GlAccountRef
  jt_debitMinor :: int
  jt_creditMinor :: int

record Journal =
  jo_lines :: "JournalLine list"
  jo_accountTotals :: "JournalAccountTotal list"
  jo_balanced :: bool

definition group_lines :: "GlMapping \<Rightarrow> GlCategoryGroup \<Rightarrow> JournalLine list" where
  "group_lines mapping g =
     (let m = mapping (gg_category g) in
      (if gg_positiveMinor g > 0
       then [\<lparr>jl_currency = gg_currency g, jl_category = gg_category g, jl_direction = POSITIVE, jl_entries = gg_positiveCount g,
              jl_amountMinor = gg_positiveMinor g, jl_debit = gm_debit m, jl_credit = gm_credit m\<rparr>] else []) @
      (if gg_negativeMinor g > 0
       then [\<lparr>jl_currency = gg_currency g, jl_category = gg_category g, jl_direction = NEGATIVE, jl_entries = gg_negativeCount g,
              jl_amountMinor = gg_negativeMinor g, jl_debit = gm_credit m, jl_credit = gm_debit m\<rparr>] else []))"

definition cmp_line :: "(string \<Rightarrow> string \<Rightarrow> int) \<Rightarrow> JournalLine \<Rightarrow> JournalLine \<Rightarrow> int" where
  "cmp_line collate a b =
     cmp_then (collate (jl_currency a) (jl_currency b))
       (cmp_then (collate (category_text (jl_category a)) (category_text (jl_category b)))
          (collate (direction_text (jl_direction a)) (direction_text (jl_direction b))))"

datatype JournalSide = DEBIT_SIDE | CREDIT_SIDE

definition journal_key :: "string \<Rightarrow> GlAccountRef \<Rightarrow> string" where
  "journal_key c account = c @ CHR ''|'' # ga_code account"

definition add_side :: "JournalSide \<Rightarrow> int \<Rightarrow> JournalAccountTotal \<Rightarrow> JournalAccountTotal" where
  "add_side side amount t = (case side of
       DEBIT_SIDE \<Rightarrow> t\<lparr>jt_debitMinor := jt_debitMinor t + amount\<rparr>
     | CREDIT_SIDE \<Rightarrow> t\<lparr>jt_creditMinor := jt_creditMinor t + amount\<rparr>)"

definition bump ::
  "string \<Rightarrow> GlAccountRef \<Rightarrow> JournalSide \<Rightarrow> int \<Rightarrow> (string, JournalAccountTotal) omap \<Rightarrow> (string, JournalAccountTotal) omap" where
  "bump c account side amount totals =
     (let key = journal_key c account;
          t = omap_getd (\<lambda>_. \<lparr>jt_currency = c, jt_account = account, jt_debitMinor = 0, jt_creditMinor = 0\<rparr>) totals key in
      omap_put key (add_side side amount t) totals)"

definition account_totals :: "JournalLine list \<Rightarrow> (string, JournalAccountTotal) omap" where
  "account_totals lines =
     foldl (\<lambda>totals l. bump (jl_currency l) (jl_credit l) CREDIT_SIDE (jl_amountMinor l)
                          (bump (jl_currency l) (jl_debit l) DEBIT_SIDE (jl_amountMinor l) totals)) [] lines"

definition side_by_currency :: "(JournalAccountTotal \<Rightarrow> int) \<Rightarrow> JournalAccountTotal list \<Rightarrow> (string, int) omap" where
  "side_by_currency side totals =
     foldl (\<lambda>m t. omap_put (jt_currency t) (omap_getd (\<lambda>_. 0) m (jt_currency t) + side t) m) [] totals"

definition journal_balanced :: "JournalAccountTotal list \<Rightarrow> bool" where
  "journal_balanced totals =
     (let debit = side_by_currency jt_debitMinor totals; credit = side_by_currency jt_creditMinor totals in
      list_all (\<lambda>c. omap_getd (\<lambda>_. 0) debit c = omap_getd (\<lambda>_. 0) credit c) (omap_keys debit @ omap_keys credit))"

definition buildJournal :: "(string \<Rightarrow> string \<Rightarrow> int) \<Rightarrow> GlCategoryGroup list \<Rightarrow> GlMapping \<Rightarrow> Journal" where
  "buildJournal collate groups mapping =
     (let lines = js_sort (cmp_line collate) (concat (map (group_lines mapping) groups));
          accountTotals = js_sort (\<lambda>a b. cmp_then (collate (jt_currency a) (jt_currency b))
                                          (collate (ga_code (jt_account a)) (ga_code (jt_account b))))
                            (omap_values (account_totals lines)) in
      \<lparr>jo_lines = lines, jo_accountTotals = accountTotals, jo_balanced = journal_balanced accountTotals\<rparr>)"

definition mappingProblem :: "GlAccountRef option \<Rightarrow> GlAccountRef option \<Rightarrow> string option" where
  "mappingProblem debit credit =
     (case (debit, credit) of
        (Some d, Some c) \<Rightarrow> if ga_code d = ga_code c then Some ''The debit and credit accounts must differ'' else None
      | _ \<Rightarrow> Some ''Both accounts must exist and be active'')"

subsection \<open>CSV export\<close>

definition minorToMajorString :: "int \<Rightarrow> string \<Rightarrow> string result" where
  "minorToMajorString amount c =
     ebind (minorUnitExponent c) (\<lambda>exponent.
       let negative = amount < 0;
           digits = padStart (exponent + 1) (CHR ''0'') (string_of_nat (nat \<bar>amount\<bar>));
           whole = (if exponent = 0 then digits else take (length digits - exponent) digits);
           fraction = (if exponent = 0 then [] else CHR ''.'' # drop (length digits - exponent) digits) in
       Inr ((if negative then ''-'' else []) @ whole @ fraction))"

definition formula_start :: "char \<Rightarrow> bool" where
  "formula_start c \<longleftrightarrow> c \<in> {CHR ''='', CHR ''+'', CHR ''-'', CHR ''@'', CHR 0x09, CHR 0x0D}"

definition needs_quotes :: "char \<Rightarrow> bool" where
  "needs_quotes c \<longleftrightarrow> c \<in> {CHR 0x22, CHR '','', CHR 0x0D, CHR 0x0A}"

definition csvField :: "string option \<Rightarrow> string" where
  "csvField value =
     (let text = (case value of None \<Rightarrow> [] | Some v \<Rightarrow> v);
          text = (case text of [] \<Rightarrow> [] | c # _ \<Rightarrow> if formula_start c then CHR 0x27 # text else text) in
      if list_ex needs_quotes text
      then [CHR 0x22] @ concat (map (\<lambda>c. if c = CHR 0x22 then [c, c] else [c]) text) @ [CHR 0x22]
      else text)"

record ExportJournalLine =
  xl_currency :: string
  xl_category :: string
  xl_direction :: string
  xl_entries :: nat
  xl_amountMinor :: int
  xl_debit :: string
  xl_debitName :: string
  xl_credit :: string
  xl_creditName :: string

record ExportAccountTotal =
  xt_currency :: string
  xt_accountCode :: string
  xt_accountName :: string
  xt_debitMinor :: int
  xt_creditMinor :: int

definition JOURNAL_LINES_COLUMNS :: "string list" where
  "JOURNAL_LINES_COLUMNS = [''month'', ''currency'', ''line'', ''category'', ''direction'', ''entries'', ''debit_account'',
     ''debit_account_name'', ''credit_account'', ''credit_account_name'', ''amount'', ''amount_minor'', ''mapping_version'']"

definition JOURNAL_TOTALS_COLUMNS :: "string list" where
  "JOURNAL_TOTALS_COLUMNS = [''month'', ''currency'', ''account'', ''account_name'', ''debit'', ''credit'', ''debit_minor'', ''credit_minor'']"

fun join :: "string \<Rightarrow> string list \<Rightarrow> string" where
  "join sep [] = []"
| "join sep [x] = x"
| "join sep (x # xs) = x @ sep @ join sep xs"

text \<open>The file starts with the byte order mark, here as its UTF-8 bytes, and ends every row with CR LF.\<close>

definition csv_file :: "string option list list \<Rightarrow> string" where
  "csv_file rows = [CHR 0xEF, CHR 0xBB, CHR 0xBF] @
     join [CHR 0x0D, CHR 0x0A] (map (\<lambda>r. join '','' (map csvField r)) rows) @ [CHR 0x0D, CHR 0x0A]"

fun journal_rows ::
  "string \<Rightarrow> (string \<Rightarrow> nat option) \<Rightarrow> (string, nat) omap \<Rightarrow> ExportJournalLine list \<Rightarrow> string option list list result" where
  "journal_rows month versions counters [] = Inr []"
| "journal_rows month versions counters (l # ls) =
     (let n = omap_getd (\<lambda>_. 0) counters (xl_currency l) + 1 in
      ebind (minorToMajorString (xl_amountMinor l) (xl_currency l)) (\<lambda>amount.
      ebind (journal_rows month versions (omap_put (xl_currency l) n counters) ls) (\<lambda>rows.
        Inr ([Some month, Some (xl_currency l), Some (string_of_nat n), Some (xl_category l), Some (xl_direction l),
              Some (string_of_nat (xl_entries l)), Some (xl_debit l), Some (xl_debitName l), Some (xl_credit l), Some (xl_creditName l),
              Some amount, Some (string_of_int (xl_amountMinor l)),
              Some (case versions (xl_category l) of None \<Rightarrow> [] | Some v \<Rightarrow> string_of_nat v)] # rows))))"

definition journalLinesCsv :: "string \<Rightarrow> ExportJournalLine list \<Rightarrow> (string \<Rightarrow> nat option) \<Rightarrow> string result" where
  "journalLinesCsv month lines versions =
     ebind (journal_rows month versions [] lines) (\<lambda>rows. Inr (csv_file (map Some JOURNAL_LINES_COLUMNS # rows)))"

fun total_rows :: "string \<Rightarrow> ExportAccountTotal list \<Rightarrow> string option list list result" where
  "total_rows month [] = Inr []"
| "total_rows month (t # ts) =
     ebind (minorToMajorString (xt_debitMinor t) (xt_currency t)) (\<lambda>debit.
     ebind (minorToMajorString (xt_creditMinor t) (xt_currency t)) (\<lambda>credit.
     ebind (total_rows month ts) (\<lambda>rows.
       Inr ([Some month, Some (xt_currency t), Some (xt_accountCode t), Some (xt_accountName t), Some debit, Some credit,
             Some (string_of_int (xt_debitMinor t)), Some (string_of_int (xt_creditMinor t))] # rows))))"

definition journalTotalsCsv :: "string \<Rightarrow> ExportAccountTotal list \<Rightarrow> string result" where
  "journalTotalsCsv month totals =
     ebind (total_rows month totals) (\<lambda>rows. Inr (csv_file (map Some JOURNAL_TOTALS_COLUMNS # rows)))"

subsection \<open>The fold as a grouping\<close>

definition entry_category :: "GlLedgerEntry \<Rightarrow> GlCategory" where
  "entry_category e = (case classifyEntry e of None \<Rightarrow> ADJUSTMENT | Some c \<Rightarrow> c)"

definition mapped :: "GlLedgerEntry \<Rightarrow> bool" where
  "mapped e \<longleftrightarrow> classifyEntry e \<noteq> None \<and> ge_amountMinor e \<noteq> 0"

definition entry_key :: "GlLedgerEntry \<Rightarrow> string" where
  "entry_key e = fold_key (ge_currency e) (entry_category e)"

definition entry_group :: "GlLedgerEntry \<Rightarrow> GlCategoryGroup" where
  "entry_group e = new_group (ge_currency e) (entry_category e)"

definition entry_add :: "GlCategoryGroup \<Rightarrow> GlLedgerEntry \<Rightarrow> GlCategoryGroup" where
  "entry_add g e = group_add g (ge_amountMinor e)"

lemma gl_add_mapped:
  "gf_groups (gl_add s e) = (if mapped e then group_step entry_key entry_group entry_add (gf_groups s) e else gf_groups s)"
  "gf_unmapped (gl_add s e) = gf_unmapped s + (if mapped e then 0 else 1)"
  "gf_entries (gl_add s e) = gf_entries s + 1"
  "omap_getd (\<lambda>_. 0) (gf_netByCurrency (gl_add s e)) c =
     omap_getd (\<lambda>_. 0) (gf_netByCurrency s) c + (if ge_currency e = c then ge_amountMinor e else 0)"
  by (simp_all add: gl_add_def mapped_def Let_def group_step_def entry_key_def entry_group_def entry_add_def entry_category_def
      split: option.split)

lemma gl_fold_props:
  "gf_groups (gl_fold es) = group_by entry_key entry_group entry_add (filter mapped es)
   \<and> gf_unmapped (gl_fold es) = length (filter (\<lambda>e. \<not> mapped e) es) \<and> gf_entries (gl_fold es) = length es
   \<and> omap_getd (\<lambda>_. 0) (gf_netByCurrency (gl_fold es)) c = sum_where (\<lambda>e. ge_currency e = c) ge_amountMinor es"
  by (induction es rule: rev_induct)
     (simp_all add: gl_fold_def new_fold_def omap_getd_def [of _ "[]"] gl_add_mapped group_by_snoc)

lemma category_no_bar: "CHR ''|'' \<notin> set (category_text c)"
  by (cases c) simp_all

lemma category_text_inj [simp]: "category_text a = category_text b \<longleftrightarrow> a = b"
  by (cases a; cases b) simp_all

lemma entry_key_inj: "entry_key x = entry_key y \<longleftrightarrow> ge_currency x = ge_currency y \<and> entry_category x = entry_category y"
  using suffix_sep_inj [OF category_no_bar category_no_bar] by (auto simp: entry_key_def fold_key_def)

definition group_net :: "GlCategoryGroup \<Rightarrow> int" where
  "group_net g = gg_positiveMinor g - gg_negativeMinor g"

interpretation gl_net: tagged_rows entry_group entry_add group_net ge_amountMinor ge_currency gg_currency
  by unfold_locales (simp_all add: entry_group_def new_group_def entry_add_def group_add_def group_net_def)

interpretation gl_count: additive_rows entry_group entry_add "\<lambda>g. int (gg_positiveCount g) + int (gg_negativeCount g)" "\<lambda>_. 1"
  by unfold_locales (simp_all add: entry_group_def new_group_def entry_add_def group_add_def)

lemma gl_groups_total:
  "sum_where (\<lambda>g. gg_currency g = c) group_net (gl_result (gl_fold es)) =
   sum_where (\<lambda>e. ge_currency e = c) ge_amountMinor (filter mapped es)"
proof -
  have "gf_groups (gl_fold es) = group_by entry_key entry_group entry_add (filter mapped es)"
    using gl_fold_props [of es] by blast
  then show ?thesis
    unfolding gl_result_def by (simp only:) (rule gl_net.tagged_total, simp add: entry_key_inj)
qed

text \<open>
  The fold loses nothing: it counts every entry, either in exactly one group or as unmapped; its net
  per currency is the exact signed sum of the currency's entries; and the groups of a currency net to
  that sum less the entries the chart cannot map.
\<close>

theorem gl_fold_conserves:
  "gf_entries (gl_fold es) = length es
   \<and> (\<Sum>g\<leftarrow>gl_result (gl_fold es). int (gg_positiveCount g) + int (gg_negativeCount g)) + int (gf_unmapped (gl_fold es))
       = int (gf_entries (gl_fold es))
   \<and> omap_getd (\<lambda>_. 0) (gf_netByCurrency (gl_fold es)) c = sum_where (\<lambda>e. ge_currency e = c) ge_amountMinor es
   \<and> sum_where (\<lambda>g. gg_currency g = c) (\<lambda>g. gg_positiveMinor g - gg_negativeMinor g) (gl_result (gl_fold es))
       + sum_where (\<lambda>e. ge_currency e = c \<and> classifyEntry e = None) ge_amountMinor es
       = omap_getd (\<lambda>_. 0) (gf_netByCurrency (gl_fold es)) c"
proof -
  have "int (length (filter mapped es)) + int (length (filter (\<lambda>e. \<not> mapped e) es)) = int (length es)"
    by (simp only: of_nat_add [symmetric] sum_length_filter_compl)
  moreover have "(\<Sum>g\<leftarrow>gl_result (gl_fold es). int (gg_positiveCount g) + int (gg_negativeCount g)) = int (length (filter mapped es))"
    using gl_count.rows_total [of entry_key "filter mapped es"] gl_fold_props [of es] by (simp add: gl_result_def sum_list_triv)
  moreover have "sum_where (\<lambda>e. ge_currency e = c) ge_amountMinor (filter mapped es)
      + sum_where (\<lambda>e. ge_currency e = c \<and> classifyEntry e = None) ge_amountMinor es
      = sum_where (\<lambda>e. ge_currency e = c) ge_amountMinor es"
    by (induction es) (auto simp: mapped_def)
  ultimately show ?thesis
    using gl_fold_props [of es c] gl_groups_total [of c es] by (simp add: group_net_def [abs_def])
qed

lemma gl_groups_nonneg:
  "g \<in> set (gl_result (gl_fold es)) \<Longrightarrow> 0 \<le> gg_positiveMinor g \<and> 0 \<le> gg_negativeMinor g"
proof -
  assume "g \<in> set (gl_result (gl_fold es))"
  then obtain k where "(k, g) \<in> set (group_by entry_key entry_group entry_add (filter mapped es))"
    using gl_fold_props [of es] by (auto simp: gl_result_def omap_values_def)
  then have "group_row entry_group entry_add (filter (\<lambda>e. entry_key e = k) (filter mapped es)) = Some g"
    by (simp only: in_set_group_by_iff)
  then show "0 \<le> gg_positiveMinor g \<and> 0 \<le> gg_negativeMinor g"
    by (rule group_row_props) (auto simp: entry_group_def new_group_def entry_add_def group_add_def)
qed

lemma gl_groups_currency: "g \<in> set (gl_result (gl_fold es)) \<Longrightarrow> gg_currency g \<in> ge_currency ` set es"
proof -
  assume "g \<in> set (gl_result (gl_fold es))"
  then obtain k where "(k, g) \<in> set (group_by entry_key entry_group entry_add (filter mapped es))"
    using gl_fold_props [of es] by (auto simp: gl_result_def omap_values_def)
  then have "group_row entry_group entry_add (filter (\<lambda>e. entry_key e = k) (filter mapped es)) = Some g"
    by (simp only: in_set_group_by_iff)
  then show "gg_currency g \<in> ge_currency ` set es"
    by (rule group_row_props) (auto simp: entry_group_def new_group_def entry_add_def group_add_def)
qed

subsection \<open>The account totals as a grouping of postings\<close>

record posting =
  po_currency :: string
  po_account :: GlAccountRef
  po_side :: JournalSide
  po_amount :: int

definition line_postings :: "JournalLine \<Rightarrow> posting list" where
  "line_postings l =
     [\<lparr>po_currency = jl_currency l, po_account = jl_debit l, po_side = DEBIT_SIDE, po_amount = jl_amountMinor l\<rparr>,
      \<lparr>po_currency = jl_currency l, po_account = jl_credit l, po_side = CREDIT_SIDE, po_amount = jl_amountMinor l\<rparr>]"

definition posting_key :: "posting \<Rightarrow> string" where
  "posting_key p = journal_key (po_currency p) (po_account p)"

definition posting_total :: "posting \<Rightarrow> JournalAccountTotal" where
  "posting_total p = \<lparr>jt_currency = po_currency p, jt_account = po_account p, jt_debitMinor = 0, jt_creditMinor = 0\<rparr>"

definition posting_add :: "JournalAccountTotal \<Rightarrow> posting \<Rightarrow> JournalAccountTotal" where
  "posting_add t p = add_side (po_side p) (po_amount p) t"

lemma account_totals_group_by:
  "account_totals lines = group_by posting_key posting_total posting_add (concat (map line_postings lines))"
proof (induction lines rule: rev_induct)
  case Nil
  then show ?case by (simp add: account_totals_def)
next
  case (snoc l lines)
  have "bump (po_currency p) (po_account p) (po_side p) (po_amount p) m = group_step posting_key posting_total posting_add m p"
    for p m by (simp add: bump_def Let_def group_step_def posting_key_def posting_total_def posting_add_def)
  note this [of "\<lparr>po_currency = jl_currency l, po_account = jl_debit l, po_side = DEBIT_SIDE, po_amount = jl_amountMinor l\<rparr>"]
    this [of "\<lparr>po_currency = jl_currency l, po_account = jl_credit l, po_side = CREDIT_SIDE, po_amount = jl_amountMinor l\<rparr>"]
  with snoc show ?case
    by (simp add: account_totals_def line_postings_def group_by_def)
qed

definition on_side :: "JournalSide \<Rightarrow> posting \<Rightarrow> int" where
  "on_side side p = (if po_side p = side then po_amount p else 0)"

lemma add_side_simps [simp]:
  "jt_currency (add_side side a t) = jt_currency t" "jt_account (add_side side a t) = jt_account t"
  "jt_debitMinor (add_side side a t) = jt_debitMinor t + (if side = DEBIT_SIDE then a else 0)"
  "jt_creditMinor (add_side side a t) = jt_creditMinor t + (if side = CREDIT_SIDE then a else 0)"
  by (simp_all add: add_side_def split: JournalSide.split)

interpretation jt_debits: tagged_rows posting_total posting_add jt_debitMinor "on_side DEBIT_SIDE" po_currency jt_currency
  by unfold_locales (simp_all add: posting_total_def posting_add_def on_side_def)

interpretation jt_credits: tagged_rows posting_total posting_add jt_creditMinor "on_side CREDIT_SIDE" po_currency jt_currency
  by unfold_locales (simp_all add: posting_total_def posting_add_def on_side_def)

interpretation jt_account_net: tagged_rows posting_total posting_add "\<lambda>t. jt_creditMinor t - jt_debitMinor t"
    "\<lambda>p. on_side CREDIT_SIDE p - on_side DEBIT_SIDE p" "\<lambda>p. (po_currency p, ga_code (po_account p))"
    "\<lambda>t. (jt_currency t, ga_code (jt_account t))"
  by unfold_locales (auto simp: posting_total_def posting_add_def on_side_def)

definition bar_free :: "string \<Rightarrow> bool" where
  "bar_free c \<longleftrightarrow> CHR ''|'' \<notin> set c"

lemma posting_key_inj:
  assumes "list_all (\<lambda>l. bar_free (jl_currency l)) lines"
    and "x \<in> set (concat (map line_postings lines))" "y \<in> set (concat (map line_postings lines))" "posting_key x = posting_key y"
  shows "po_currency x = po_currency y" "ga_code (po_account x) = ga_code (po_account y)"
proof -
  have "bar_free (po_currency x)" "bar_free (po_currency y)"
    using assms(1-3) by (auto simp: line_postings_def list_all_iff)
  with assms(4) show "po_currency x = po_currency y" "ga_code (po_account x) = ga_code (po_account y)"
    using prefix_sep_inj [of "CHR ''|''" "po_currency x" "po_currency y"]
    by (auto simp: posting_key_def journal_key_def bar_free_def)
qed

lemma side_by_currency_get: "omap_getd (\<lambda>_. 0) (side_by_currency side totals) c = sum_where (\<lambda>t. jt_currency t = c) side totals"
  by (induction totals rule: rev_induct) (auto simp: side_by_currency_def omap_getd_def [of _ "[]"])

lemma postings_balance:
  "sum_where (\<lambda>p. po_currency p = c) (on_side DEBIT_SIDE) (concat (map line_postings lines)) =
   sum_where (\<lambda>p. po_currency p = c) (on_side CREDIT_SIDE) (concat (map line_postings lines))"
  by (induction lines) (simp_all add: line_postings_def on_side_def)

lemma account_totals_balanced:
  assumes "list_all (\<lambda>l. bar_free (jl_currency l)) lines"
  shows "sum_where (\<lambda>t. jt_currency t = c) jt_debitMinor (omap_values (account_totals lines)) =
    sum_where (\<lambda>t. jt_currency t = c) jt_creditMinor (omap_values (account_totals lines))"
  unfolding account_totals_group_by
  by (subst jt_debits.tagged_total, erule (2) posting_key_inj(1) [OF assms],
      subst jt_credits.tagged_total, erule (2) posting_key_inj(1) [OF assms], rule postings_balance)

lemma group_lines_currency: "l \<in> set (group_lines mapping g) \<Longrightarrow> jl_currency l = gg_currency g"
  by (auto simp: group_lines_def Let_def split: if_splits)

lemma journal_lines_bar_free:
  assumes "list_all (\<lambda>g. bar_free (gg_currency g)) groups"
  shows "list_all (\<lambda>l. bar_free (jl_currency l)) (jo_lines (buildJournal collate groups mapping))"
  using assms by (auto simp: buildJournal_def Let_def list_all_iff dest: group_lines_currency)

text \<open>
  Every journal balances: whatever the groups, the mapping and the collation, the debits and the
  credits of each currency are equal over the account totals and the journal reports itself balanced,
  as long as no currency code contains the separator of the account keys.
\<close>

theorem journal_always_balanced:
  assumes "list_all (\<lambda>g. bar_free (gg_currency g)) groups"
  shows "jo_balanced (buildJournal collate groups mapping)
    \<and> sum_where (\<lambda>t. jt_currency t = c) jt_debitMinor (jo_accountTotals (buildJournal collate groups mapping)) =
      sum_where (\<lambda>t. jt_currency t = c) jt_creditMinor (jo_accountTotals (buildJournal collate groups mapping))"
proof -
  let ?J = "buildJournal collate groups mapping"
  have sums: "sum_where (\<lambda>t. jt_currency t = c) jt_debitMinor (jo_accountTotals ?J) =
      sum_where (\<lambda>t. jt_currency t = c) jt_creditMinor (jo_accountTotals ?J)" for c
    using account_totals_balanced [OF journal_lines_bar_free [OF assms], of c collate mapping]
    by (simp add: buildJournal_def Let_def)
  moreover have "jo_balanced ?J = journal_balanced (jo_accountTotals ?J)"
    by (simp add: buildJournal_def Let_def)
  ultimately show ?thesis
    by (simp add: journal_balanced_def Let_def side_by_currency_get list_all_iff)
qed

subsection \<open>The journal and the ledger\<close>

definition credits_account :: "string \<Rightarrow> GlMapping \<Rightarrow> bool" where
  "credits_account a mapping \<longleftrightarrow> (\<forall>cat. ga_code (gm_credit (mapping cat)) = a \<and> ga_code (gm_debit (mapping cat)) \<noteq> a)"

lemma group_lines_account_net:
  assumes "credits_account a mapping" "0 \<le> gg_positiveMinor g" "0 \<le> gg_negativeMinor g"
  shows "(\<Sum>l\<leftarrow>group_lines mapping g. sum_where (\<lambda>p. (po_currency p, ga_code (po_account p)) = (c, a))
      (\<lambda>p. on_side CREDIT_SIDE p - on_side DEBIT_SIDE p) (line_postings l)) = (if gg_currency g = c then group_net g else 0)"
  using assms by (auto simp: group_lines_def Let_def line_postings_def on_side_def credits_account_def group_net_def)

lemma sum_list_concat_map: "sum_list (map (f :: 'z \<Rightarrow> int) (concat (map g xs))) = (\<Sum>x\<leftarrow>xs. sum_list (map f (g x)))"
  by (induction xs) simp_all

text \<open>
  C17. The journal ties to the ledger: when every category credits one account (as the default chart does
  with the agency balances) and no category debits it, and the fold left nothing unmapped, that
  account's credits less its debits in a currency are exactly the signed sum of the ledger entries of
  the currency, reservations, releases, charges and reversals included.
\<close>

theorem journal_ties_to_ledger:
  assumes "credits_account a mapping" and "gf_unmapped (gl_fold es) = 0"
    and "list_all (\<lambda>e. bar_free (ge_currency e)) es"
  shows "sum_where (\<lambda>t. (jt_currency t, ga_code (jt_account t)) = (c, a)) (\<lambda>t. jt_creditMinor t - jt_debitMinor t)
      (jo_accountTotals (buildJournal collate (gl_result (gl_fold es)) mapping))
    = sum_where (\<lambda>e. ge_currency e = c) ge_amountMinor es"
proof -
  let ?groups = "gl_result (gl_fold es)" and ?J = "buildJournal collate (gl_result (gl_fold es)) mapping"
  let ?tag = "\<lambda>p. (po_currency p, ga_code (po_account p)) = (c, a)"
  let ?net = "\<lambda>p. on_side CREDIT_SIDE p - on_side DEBIT_SIDE p"
  have "list_all (\<lambda>g. bar_free (gg_currency g)) ?groups"
    using assms(3) gl_groups_currency [of _ es] by (force simp: list_all_iff)
  then have bar: "list_all (\<lambda>l. bar_free (jl_currency l)) (jo_lines ?J)" by (rule journal_lines_bar_free)
  have keyed: "(po_currency x, ga_code (po_account x)) = (po_currency y, ga_code (po_account y))"
    if "x \<in> set (concat (map line_postings (jo_lines ?J)))" "y \<in> set (concat (map line_postings (jo_lines ?J)))"
      "posting_key x = posting_key y" for x y
    using posting_key_inj [OF bar that] by simp
  have "sum_where (\<lambda>t. (jt_currency t, ga_code (jt_account t)) = (c, a)) (\<lambda>t. jt_creditMinor t - jt_debitMinor t)
        (jo_accountTotals ?J) =
      sum_where (\<lambda>t. (jt_currency t, ga_code (jt_account t)) = (c, a)) (\<lambda>t. jt_creditMinor t - jt_debitMinor t)
        (omap_values (group_by posting_key posting_total posting_add (concat (map line_postings (jo_lines ?J)))))"
    by (simp add: buildJournal_def Let_def account_totals_group_by)
  also have "\<dots> = sum_where ?tag ?net (concat (map line_postings (jo_lines ?J)))"
    by (rule jt_account_net.tagged_total) (rule keyed)
  also have "\<dots> = (\<Sum>l\<leftarrow>concat (map (group_lines mapping) ?groups). sum_where ?tag ?net (line_postings l))"
    by (simp add: buildJournal_def Let_def sum_where_concat_map)
  also have "\<dots> = (\<Sum>g\<leftarrow>?groups. if gg_currency g = c then group_net g else 0)"
    unfolding sum_list_concat_map
    by (intro arg_cong [where f = sum_list] map_cong refl group_lines_account_net assms(1))
       (use gl_groups_nonneg in auto)
  also have "\<dots> = sum_where (\<lambda>e. ge_currency e = c) ge_amountMinor (filter mapped es)"
    by (simp add: sum_list_if gl_groups_total)
  also have "filter mapped es = es"
    using assms(2) gl_fold_props [of es] by (auto simp: filter_id_conv filter_empty_conv)
  finally show ?thesis .
qed

definition default_account :: "string \<Rightarrow> GlAccountRef" where
  "default_account code = (case find (\<lambda>a. ga_code a = code) DEFAULT_GL_ACCOUNTS of
     Some a \<Rightarrow> a | None \<Rightarrow> \<lparr>ga_code = code, ga_name = [], ga_type = ASSET\<rparr>)"

definition default_mapping :: GlMapping where
  "default_mapping cat = \<lparr>gm_debit = default_account (fst (DEFAULT_GL_MAPPINGS cat)),
     gm_credit = default_account (snd (DEFAULT_GL_MAPPINGS cat))\<rparr>"

lemma default_account_code [simp]: "ga_code (default_account code) = code"
  by (auto simp: default_account_def dest: find_SomeD split: option.split)

lemma default_credits_account: "credits_account ''2100'' default_mapping"
  unfolding credits_account_def
proof
  show "ga_code (gm_credit (default_mapping cat)) = ''2100'' \<and> ga_code (gm_debit (default_mapping cat)) \<noteq> ''2100''" for cat
    by (cases cat) (simp_all add: default_mapping_def)
qed

definition sample_gl :: "GlLedgerEntry list" where
  "sample_gl =
    [\<lparr>ge_type = ''CREDIT'', ge_amountMinor = 5000, ge_currency = ''AED'', ge_reference = Some ''funding:r1'', ge_idempotencyKey = ''k1''\<rparr>,
     \<lparr>ge_type = ''HOLD'', ge_amountMinor = -3000, ge_currency = ''AED'', ge_reference = Some ''booking:b1'', ge_idempotencyKey = ''k2''\<rparr>]"

lemma journal_ties_to_ledger_witness:
  "sum_where (\<lambda>t. (jt_currency t, ga_code (jt_account t)) = (''AED'', ''2100'')) (\<lambda>t. jt_creditMinor t - jt_debitMinor t)
      (jo_accountTotals (buildJournal cmp_text (gl_result (gl_fold sample_gl)) default_mapping)) = 2000"
proof -
  have "gf_unmapped (gl_fold sample_gl) = 0" "list_all (\<lambda>e. bar_free (ge_currency e)) sample_gl"
    "sum_where (\<lambda>e. ge_currency e = ''AED'') ge_amountMinor sample_gl = 2000" by code_simp+
  with journal_ties_to_ledger [OF default_credits_account this(1,2), of "''AED''" cmp_text] show ?thesis by simp
qed

lemma journal_always_balanced_witness:
  "jo_balanced (buildJournal cmp_text (gl_result (gl_fold sample_gl)) default_mapping)"
proof -
  have "list_all (\<lambda>g. bar_free (gg_currency g)) (gl_result (gl_fold sample_gl))" by code_simp
  then show ?thesis using journal_always_balanced by blast
qed

subsection \<open>CSV cells\<close>

text \<open>The text a cell stands for: guarded with an apostrophe when a spreadsheet would run it.\<close>

definition guarded :: "string option \<Rightarrow> string" where
  "guarded value = (case value of None \<Rightarrow> [] | Some text \<Rightarrow>
     (case text of [] \<Rightarrow> [] | c # _ \<Rightarrow> if formula_start c then CHR 0x27 # text else text))"

text \<open>Reading a cell up to the separator: the text and what follows the cell.\<close>

fun read_quoted :: "string \<Rightarrow> (string \<times> string) option" where
  "read_quoted [] = None"
| "read_quoted (c # s) =
     (if c \<noteq> CHR 0x22 then map_option (\<lambda>(t, r). (c # t, r)) (read_quoted s)
      else case s of
        d # s' \<Rightarrow> if d = CHR 0x22 then map_option (\<lambda>(t, r). (c # t, r)) (read_quoted s') else Some ([], s)
      | [] \<Rightarrow> Some ([], []))"

definition read_cell :: "string \<Rightarrow> (string \<times> string) option" where
  "read_cell s = (case s of
     c # s' \<Rightarrow> if c = CHR 0x22 then read_quoted s' else Some (takeWhile (\<lambda>c. \<not> needs_quotes c) s, dropWhile (\<lambda>c. \<not> needs_quotes c) s)
   | [] \<Rightarrow> Some ([], []))"

abbreviation double_quote :: "string \<Rightarrow> string" where
  "double_quote t \<equiv> concat (map (\<lambda>c. if c = CHR 0x22 then [c, c] else [c]) t)"

lemma read_quoted_double:
  assumes "rest = [] \<or> hd rest \<noteq> CHR 0x22"
  shows "read_quoted (double_quote t @ CHR 0x22 # rest) = Some (t, rest)"
  using assms by (induction t) (auto split: list.split)

lemma formula_start_not_quote: "\<not> formula_start (CHR 0x22)" "\<not> formula_start (CHR 0x27)"
  by (simp_all add: formula_start_def)

lemma csvField_guarded:
  "csvField v = (if list_ex needs_quotes (guarded v) then [CHR 0x22] @ double_quote (guarded v) @ [CHR 0x22] else guarded v)"
proof -
  have "(case (case v of None \<Rightarrow> [] | Some t \<Rightarrow> t) of [] \<Rightarrow> [] | c # _ \<Rightarrow>
      if formula_start c then CHR 0x27 # (case v of None \<Rightarrow> [] | Some t \<Rightarrow> t) else (case v of None \<Rightarrow> [] | Some t \<Rightarrow> t)) = guarded v"
    by (auto simp: guarded_def split: option.split list.split)
  then show ?thesis by (simp only: csvField_def Let_def)
qed

lemma guarded_start: "guarded v = c # t \<Longrightarrow> \<not> formula_start c"
  by (auto simp: guarded_def formula_start_not_quote split: option.splits list.splits if_splits)

text \<open>
  A CSV cell is safe and lossless: it never begins with a character a spreadsheet reads as a formula,
  and a reader of the cell followed by a separator (or by the end) recovers exactly the text, guarded by
  an apostrophe where it would have been one, and stops at the separator whatever quotes, commas or line
  breaks the text contains.
\<close>

theorem csv_cell_safe:
  "(case csvField v of [] \<Rightarrow> True | c # _ \<Rightarrow> \<not> formula_start c)
   \<and> read_cell (csvField v @ CHR '','' # rest) = Some (guarded v, CHR '','' # rest)
   \<and> read_cell (csvField v) = Some (guarded v, [])"
proof (cases "list_ex needs_quotes (guarded v)")
  case True
  then have "csvField v = CHR 0x22 # double_quote (guarded v) @ [CHR 0x22]"
    by (simp add: csvField_guarded)
  then show ?thesis
    using read_quoted_double [of "[]" "guarded v"] read_quoted_double [of "CHR '','' # rest" "guarded v"]
    by (simp add: read_cell_def formula_start_not_quote)
next
  case False
  then have plain: "csvField v = guarded v" and free: "\<forall>c \<in> set (guarded v). \<not> needs_quotes c"
    by (simp_all add: csvField_guarded list_ex_iff)
  have quote: "needs_quotes (CHR 0x22)" "needs_quotes (CHR '','')" by (simp_all add: needs_quotes_def)
  have "takeWhile (\<lambda>c. \<not> needs_quotes c) (guarded v @ CHR '','' # rest) = guarded v"
    "dropWhile (\<lambda>c. \<not> needs_quotes c) (guarded v @ CHR '','' # rest) = CHR '','' # rest"
    "takeWhile (\<lambda>c. \<not> needs_quotes c) (guarded v) = guarded v" "dropWhile (\<lambda>c. \<not> needs_quotes c) (guarded v) = []"
    using free quote by (simp_all add: takeWhile_append dropWhile_append)
  then show ?thesis
    using free quote guarded_start [of v]
    by (cases "guarded v") (auto simp: plain read_cell_def)
qed

end
