(* ===== verification/Credit_Risk.thy ===== *)
theory Credit_Risk
  imports Prelude
begin

text \<open>
  Dynamic credit risk of one agency (\<open>packages/money/src/credit-risk.ts\<close>): utilisation of the credit
  line in basis points, the aging rules, the state (OK, WATCH, MARGIN_CALL, PAUSED) and the payment that
  restores it. Amounts are \<open>bigint\<close>; the policy thresholds are numbers the code checks first.
\<close>

record CreditRiskPolicy =
  watchBp :: jsnum
  marginCallBp :: jsnum
  pauseBp :: jsnum
  overdueAfterDays :: jsnum
  overdueShareOfLineBp :: jsnum
  refuseAfterDays :: jsnum

datatype CreditRiskState = OK | WATCH | MARGIN_CALL | PAUSED

datatype CreditPauseReason = UTILISATION | OVERDUE_DAYS | OVERDUE_AMOUNT

record CreditRiskInput =
  cr_balanceMinor :: int
  cr_creditLineMinor :: int
  cr_pendingMinor :: int
  cr_unpaidMinor :: int
  cr_overdueUnpaidMinor :: int
  cr_daysOverdue :: int

record CreditRiskResult =
  cr_state :: CreditRiskState
  cr_reasons :: "CreditPauseReason list"
  cr_drawnMinor :: int
  cr_utilisationBp :: "int option"
  cr_projectedUtilisationBp :: "int option"
  cr_paymentToRestoreMinor :: int

definition BP :: int where
  "BP = 10000"

definition policy_ok :: "CreditRiskPolicy \<Rightarrow> bool" where
  "policy_ok p \<longleftrightarrow>
     isInteger (watchBp p) \<and> isInteger (marginCallBp p) \<and> isInteger (pauseBp p) \<and> int_of_num (watchBp p) > 0
     \<and> int_of_num (watchBp p) \<le> int_of_num (marginCallBp p) \<and> int_of_num (marginCallBp p) \<le> int_of_num (pauseBp p)
     \<and> int_of_num (pauseBp p) \<le> 10000
     \<and> isInteger (overdueAfterDays p) \<and> int_of_num (overdueAfterDays p) \<ge> 0
     \<and> isInteger (refuseAfterDays p) \<and> int_of_num (refuseAfterDays p) \<ge> int_of_num (overdueAfterDays p)
     \<and> isInteger (overdueShareOfLineBp p) \<and> int_of_num (overdueShareOfLineBp p) > 0 \<and> int_of_num (overdueShareOfLineBp p) \<le> 10000"

definition assertPolicy :: "CreditRiskPolicy \<Rightarrow> unit result" where
  "assertPolicy p = (if policy_ok p then Inr () else Inl (Error ''Invalid credit risk policy''))"

text \<open>\<open>bigint\<close> division truncates; both operands are non-negative where the code divides.\<close>

definition bpOf :: "int \<Rightarrow> int \<Rightarrow> int" where
  "bpOf part whole = (part * BP) div whole"

definition atLeast :: "int \<Rightarrow> int \<Rightarrow> jsnum \<Rightarrow> bool" where
  "atLeast part whole bp \<longleftrightarrow> part * BP \<ge> whole * int_of_num bp"

definition evaluateCreditRisk :: "CreditRiskInput \<Rightarrow> CreditRiskPolicy \<Rightarrow> int \<Rightarrow> CreditRiskResult result" where
  "evaluateCreditRisk i policy newAmount =
     ebind (assertPolicy policy) (\<lambda>_.
       if newAmount < 0 \<or> cr_pendingMinor i < 0 \<or> cr_unpaidMinor i < 0 \<or> cr_overdueUnpaidMinor i < 0
          \<or> cr_creditLineMinor i < 0 \<or> cr_daysOverdue i < 0
       then Inl (Error ''Credit risk inputs must not be negative'')
       else
         let owed = (if cr_balanceMinor i < 0 then - cr_balanceMinor i else 0);
             drawn = owed + cr_pendingMinor i;
             line = cr_creditLineMinor i;
             reasons1 = (if cr_daysOverdue i \<ge> int_of_num (refuseAfterDays policy) \<and> cr_unpaidMinor i > 0 then [OVERDUE_DAYS] else []) in
         if line = 0 then
           Inr \<lparr>cr_state = (if reasons1 \<noteq> [] then PAUSED else OK), cr_reasons = reasons1, cr_drawnMinor = drawn,
                cr_utilisationBp = None, cr_projectedUtilisationBp = None, cr_paymentToRestoreMinor = 0\<rparr>
         else
           let reasons2 = reasons1 @ (if cr_overdueUnpaidMinor i > 0 \<and> atLeast (cr_overdueUnpaidMinor i) line (overdueShareOfLineBp policy)
                                      then [OVERDUE_AMOUNT] else []);
               projected = drawn + newAmount;
               reasons = reasons2 @ (if newAmount > 0 \<and> atLeast projected line (pauseBp policy) then [UTILISATION] else []);
               utilisation = bpOf drawn line;
               projectedBp = bpOf projected line;
               belowWatch = (line * int_of_num (watchBp policy) + BP - 1) div BP - 1;
               restore = (if atLeast drawn line (marginCallBp policy) \<and> drawn > belowWatch then drawn - belowWatch else 0);
               state = (if reasons \<noteq> [] then PAUSED
                        else if atLeast drawn line (marginCallBp policy) then MARGIN_CALL
                        else if atLeast drawn line (watchBp policy) then WATCH else OK) in
           Inr \<lparr>cr_state = state, cr_reasons = reasons, cr_drawnMinor = drawn, cr_utilisationBp = Some utilisation,
                cr_projectedUtilisationBp = Some projectedBp, cr_paymentToRestoreMinor = restore\<rparr>)"

subsection \<open>Lemmas\<close>

definition owed :: "CreditRiskInput \<Rightarrow> int" where
  "owed i = max 0 (- cr_balanceMinor i)"

definition drawn :: "CreditRiskInput \<Rightarrow> int" where
  "drawn i = owed i + cr_pendingMinor i"

lemma ceil_div_bounds:
  fixes n :: int
  assumes "0 < d"
  shows "n \<le> (n + d - 1) div d * d" "((n + d - 1) div d - 1) * d < n"
proof -
  have "(n + d - 1) div d * d = n + d - 1 - (n + d - 1) mod d" by (simp add: minus_mod_eq_div_mult [symmetric])
  moreover have "0 \<le> (n + d - 1) mod d" "(n + d - 1) mod d < d" using assms by simp_all
  ultimately show "n \<le> (n + d - 1) div d * d" "((n + d - 1) div d - 1) * d < n"
    by (simp_all add: left_diff_distrib)
qed

text \<open>The largest amount strictly below a share of the line.\<close>

lemma below_share:
  fixes line bp x :: int
  shows "x \<le> (line * bp + BP - 1) div BP - 1 \<longleftrightarrow> x * BP < line * bp"
proof
  let ?c = "(line * bp + BP - 1) div BP"
  have c: "line * bp \<le> ?c * BP" "(?c - 1) * BP < line * bp"
    by (rule ceil_div_bounds; simp add: BP_def)+
  show "x * BP < line * bp" if "x \<le> ?c - 1"
  proof -
    have "x * BP \<le> (?c - 1) * BP" using that by (intro mult_right_mono) (simp_all add: BP_def)
    with c(2) show ?thesis by linarith
  qed
  show "x \<le> ?c - 1" if "x * BP < line * bp"
  proof -
    have "x * BP < ?c * BP" using that c(1) by linarith
    then show ?thesis by (simp add: BP_def)
  qed
qed

lemma evaluate_passes:
  assumes "evaluateCreditRisk i policy new = Inr r"
  shows "policy_ok policy" "\<not> (new < 0 \<or> cr_pendingMinor i < 0 \<or> cr_unpaidMinor i < 0 \<or> cr_overdueUnpaidMinor i < 0
      \<or> cr_creditLineMinor i < 0 \<or> cr_daysOverdue i < 0)"
proof -
  let ?negative = "new < 0 \<or> cr_pendingMinor i < 0 \<or> cr_unpaidMinor i < 0 \<or> cr_overdueUnpaidMinor i < 0
      \<or> cr_creditLineMinor i < 0 \<or> cr_daysOverdue i < 0"
  have "\<not> returns (evaluateCreditRisk i policy new)" if "\<not> policy_ok policy \<or> ?negative"
    using that by (auto simp: evaluateCreditRisk_def assertPolicy_def)
  with assms show "policy_ok policy" "\<not> ?negative" by (metis returns_simps(2))+
qed

lemma evaluate_Inr:
  assumes "evaluateCreditRisk i policy new = Inr r"
  shows "policy_ok policy" "0 \<le> new" "0 \<le> cr_pendingMinor i" "0 \<le> cr_creditLineMinor i"
    "0 \<le> cr_daysOverdue i"
  using evaluate_passes [OF assms] by simp_all

text \<open>The parts of a result, over the drawn amount: the reasons it lists, when it pauses, and the payment it asks for.\<close>

lemma evaluate_parts:
  assumes "evaluateCreditRisk i policy new = Inr r"
  defines "line \<equiv> cr_creditLineMinor i" and "watch \<equiv> (cr_creditLineMinor i * int_of_num (watchBp policy) + BP - 1) div BP - 1"
  shows "cr_drawnMinor r = drawn i"
    and "cr_reasons r = (if cr_daysOverdue i \<ge> int_of_num (refuseAfterDays policy) \<and> cr_unpaidMinor i > 0 then [OVERDUE_DAYS] else [])
      @ (if line \<noteq> 0 \<and> cr_overdueUnpaidMinor i > 0 \<and> atLeast (cr_overdueUnpaidMinor i) line (overdueShareOfLineBp policy) then [OVERDUE_AMOUNT] else [])
      @ (if line \<noteq> 0 \<and> new > 0 \<and> atLeast (drawn i + new) line (pauseBp policy) then [UTILISATION] else [])"
    and "cr_state r \<noteq> PAUSED \<longleftrightarrow> cr_reasons r = []"
    and "cr_paymentToRestoreMinor r = (if line \<noteq> 0 \<and> atLeast (drawn i) line (marginCallBp policy) \<and> drawn i > watch then drawn i - watch else 0)"
proof -
  have owed: "(if cr_balanceMinor i < 0 then - cr_balanceMinor i else 0) + cr_pendingMinor i = drawn i"
    by (simp add: drawn_def owed_def)
  note pass = evaluate_passes [OF assms(1)]
  note r = assms(1) [unfolded evaluateCreditRisk_def assertPolicy_def if_P [OF pass(1)] ebind_simps if_not_P [OF pass(2)] Let_def owed]
  show "cr_drawnMinor r = drawn i" using r by (cases "line = 0") (auto simp: line_def split del: if_split)
  show "cr_reasons r = (if cr_daysOverdue i \<ge> int_of_num (refuseAfterDays policy) \<and> cr_unpaidMinor i > 0 then [OVERDUE_DAYS] else [])
      @ (if line \<noteq> 0 \<and> cr_overdueUnpaidMinor i > 0 \<and> atLeast (cr_overdueUnpaidMinor i) line (overdueShareOfLineBp policy) then [OVERDUE_AMOUNT] else [])
      @ (if line \<noteq> 0 \<and> new > 0 \<and> atLeast (drawn i + new) line (pauseBp policy) then [UTILISATION] else [])"
    using r by (cases "line = 0") (auto simp: line_def split del: if_split)
  have calm: "(if a then MARGIN_CALL else if b then WATCH else OK) \<noteq> PAUSED" for a b by simp
  show "cr_state r \<noteq> PAUSED \<longleftrightarrow> cr_reasons r = []" using r by (cases "line = 0") (auto simp: line_def calm)
  show "cr_paymentToRestoreMinor r = (if line \<noteq> 0 \<and> atLeast (drawn i) line (marginCallBp policy) \<and> drawn i > watch then drawn i - watch else 0)"
    using r unfolding line_def watch_def by (cases "cr_creditLineMinor i = 0") (auto split del: if_split)
qed

lemma evaluate_drawn: "evaluateCreditRisk i policy new = Inr r \<Longrightarrow> cr_drawnMinor r = drawn i"
  by (rule evaluate_parts(1))

lemma evaluate_reasons:
  assumes "evaluateCreditRisk i policy new = Inr r" "0 < new" "cr_reasons r = []"
  shows "cr_creditLineMinor i = 0 \<or> (drawn i + new) * BP < cr_creditLineMinor i * int_of_num (pauseBp policy)"
    and "cr_unpaidMinor i \<le> 0 \<or> cr_daysOverdue i < int_of_num (refuseAfterDays policy)"
    and "cr_creditLineMinor i = 0 \<or> cr_overdueUnpaidMinor i \<le> 0
       \<or> cr_overdueUnpaidMinor i * BP < cr_creditLineMinor i * int_of_num (overdueShareOfLineBp policy)"
  using assms(2,3) unfolding evaluate_parts(2) [OF assms(1)] by (auto simp: atLeast_def split: if_splits)

lemma evaluate_quiet:
  assumes "policy_ok policy" "drawn j * BP < cr_creditLineMinor j * int_of_num (watchBp policy)"
    and "0 \<le> cr_pendingMinor j" "0 < cr_creditLineMinor j" "cr_unpaidMinor j = 0" "cr_overdueUnpaidMinor j = 0" "0 \<le> cr_daysOverdue j"
  shows "map_sum id cr_state (evaluateCreditRisk j policy 0) = Inr OK"
proof -
  have "cr_creditLineMinor j * int_of_num (watchBp policy) \<le> cr_creditLineMinor j * int_of_num (marginCallBp policy)"
    using assms(1,4) by (intro mult_left_mono) (auto simp: policy_ok_def)
  with assms(2) have low: "\<not> atLeast (drawn j) (cr_creditLineMinor j) (watchBp policy)"
    "\<not> atLeast (drawn j) (cr_creditLineMinor j) (marginCallBp policy)"
    by (simp_all add: atLeast_def)
  have owed: "(if cr_balanceMinor j < 0 then - cr_balanceMinor j else 0) + cr_pendingMinor j = drawn j"
    by (simp add: drawn_def owed_def)
  have "\<not> (cr_pendingMinor j < 0)" "\<not> (cr_daysOverdue j < 0)" "\<not> (cr_creditLineMinor j < 0)" "cr_creditLineMinor j \<noteq> 0"
    using assms(3,4,7) by simp_all
  with assms(1,5,6) low show ?thesis
    by (simp add: evaluateCreditRisk_def assertPolicy_def owed Let_def)
qed

text \<open>
  A new hold never takes an agency to its pause level: when a positive amount is evaluated and the
  agency is not PAUSED, the drawn amount with the new one is strictly below the pause share of its
  line, its charges are not overdue past the refusal age, and its aged unpaid charges are below the
  allowed share; an agency without a line is paused only for overdue charges.
\<close>

theorem accepted_hold_below_pause:
  assumes "evaluateCreditRisk i policy new = Inr r" "0 < new" "cr_state r \<noteq> PAUSED"
  shows "(cr_creditLineMinor i = 0 \<or> (drawn i + new) * BP < cr_creditLineMinor i * int_of_num (pauseBp policy))
    \<and> (cr_unpaidMinor i \<le> 0 \<or> cr_daysOverdue i < int_of_num (refuseAfterDays policy))
    \<and> (cr_creditLineMinor i = 0 \<or> cr_overdueUnpaidMinor i \<le> 0
       \<or> cr_overdueUnpaidMinor i * BP < cr_creditLineMinor i * int_of_num (overdueShareOfLineBp policy))"
  using evaluate_reasons [OF assms(1,2) iffD1 [OF evaluate_parts(3) [OF assms(1)] assms(3)]] by blast

definition sample_policy :: CreditRiskPolicy where
  "sample_policy = \<lparr>watchBp = JInt 7000, marginCallBp = JInt 8500, pauseBp = JInt 10000, overdueAfterDays = JInt 7,
     overdueShareOfLineBp = JInt 2500, refuseAfterDays = JInt 30\<rparr>"

definition sample_agency :: CreditRiskInput where
  "sample_agency = \<lparr>cr_balanceMinor = -90000, cr_creditLineMinor = 100000, cr_pendingMinor = 1000, cr_unpaidMinor = 90000,
     cr_overdueUnpaidMinor = 0, cr_daysOverdue = 3\<rparr>"

definition sample_risk :: "int \<Rightarrow> CreditRiskResult" where
  "sample_risk new = (case evaluateCreditRisk sample_agency sample_policy new of Inr r \<Rightarrow> r
     | Inl _ \<Rightarrow> \<lparr>cr_state = OK, cr_reasons = [], cr_drawnMinor = 0, cr_utilisationBp = None, cr_projectedUtilisationBp = None,
                 cr_paymentToRestoreMinor = 0\<rparr>)"

lemma sample_risk_eval: "evaluateCreditRisk sample_agency sample_policy 100 = Inr (sample_risk 100)"
    "evaluateCreditRisk sample_agency sample_policy 0 = Inr (sample_risk 0)"
proof -
  have "returns (evaluateCreditRisk sample_agency sample_policy 100)" "returns (evaluateCreditRisk sample_agency sample_policy 0)"
    by code_simp+
  then show "evaluateCreditRisk sample_agency sample_policy 100 = Inr (sample_risk 100)"
    "evaluateCreditRisk sample_agency sample_policy 0 = Inr (sample_risk 0)"
    by (auto simp: sample_risk_def returns_iff)
qed

lemma accepted_hold_below_pause_witness: "(drawn sample_agency + 100) * BP < 100000 * 10000"
proof -
  have "cr_state (sample_risk 100) \<noteq> PAUSED" by code_simp
  from accepted_hold_below_pause [OF sample_risk_eval(1) _ this] show ?thesis
    by (simp add: sample_agency_def sample_policy_def)
qed

text \<open>
  The payment asked for is the least one that restores the line: paying it takes the drawn amount
  strictly below the watch share, paying one minor unit less does not, and it is asked for exactly when
  the drawn amount is at or above the margin-call share. Recording it as a deposit (where it does not
  exceed what is owed) and evaluating again, with no aged charges, gives OK.
\<close>

theorem payment_restores_line:
  assumes "evaluateCreditRisk i policy new = Inr r" "0 < cr_creditLineMinor i"
    and "drawn i * BP \<ge> cr_creditLineMinor i * int_of_num (marginCallBp policy)"
  shows "(drawn i - cr_paymentToRestoreMinor r) * BP < cr_creditLineMinor i * int_of_num (watchBp policy)
    \<and> (drawn i - cr_paymentToRestoreMinor r + 1) * BP \<ge> cr_creditLineMinor i * int_of_num (watchBp policy)
    \<and> 0 < cr_paymentToRestoreMinor r
    \<and> (owed i < cr_paymentToRestoreMinor r \<or>
       map_sum id cr_state (evaluateCreditRisk (i\<lparr>cr_balanceMinor := cr_balanceMinor i + cr_paymentToRestoreMinor r,
          cr_unpaidMinor := 0, cr_overdueUnpaidMinor := 0\<rparr>) policy 0) = Inr OK)"
proof -
  let ?line = "cr_creditLineMinor i" and ?watch = "int_of_num (watchBp policy)"
  define below where "below = (?line * ?watch + BP - 1) div BP - 1"
  have policy: "policy_ok policy" using evaluate_Inr [OF assms(1)] by blast
  have le: "?line * ?watch \<le> ?line * int_of_num (marginCallBp policy)"
    using policy assms(2) by (intro mult_left_mono) (auto simp: policy_ok_def)
  have share: "x \<le> below \<longleftrightarrow> x * BP < ?line * ?watch" for x
    unfolding below_def by (rule below_share)
  have "below < drawn i" using share [of "drawn i"] assms(3) le by linarith
  then have pay: "cr_paymentToRestoreMinor r = drawn i - below"
    using evaluate_parts(4) [OF assms(1)] assms(2,3) by (simp add: atLeast_def below_def)
  have least: "below * BP < ?line * ?watch" "(below + 1) * BP \<ge> ?line * ?watch"
    using share [of below] share [of "below + 1"] by auto
  have again: "map_sum id cr_state (evaluateCreditRisk (i\<lparr>cr_balanceMinor := cr_balanceMinor i + (drawn i - below),
          cr_unpaidMinor := 0, cr_overdueUnpaidMinor := 0\<rparr>) policy 0) = Inr OK" if "\<not> owed i < drawn i - below"
  proof (rule evaluate_quiet [OF policy])
    let ?j = "i\<lparr>cr_balanceMinor := cr_balanceMinor i + (drawn i - below), cr_unpaidMinor := 0, cr_overdueUnpaidMinor := 0\<rparr>"
    have "drawn ?j = below"
      using that \<open>below < drawn i\<close> by (simp add: drawn_def owed_def)
    then show "drawn ?j * BP < cr_creditLineMinor ?j * ?watch" using least(1) by simp
  qed (use assms(2) evaluate_Inr [OF assms(1)] in simp_all)
  show ?thesis
    unfolding pay using least again \<open>below < drawn i\<close> by auto
qed

lemma payment_restores_line_witness:
  "cr_paymentToRestoreMinor (sample_risk 0) = 21001 \<and> (drawn sample_agency - 21001) * BP < 100000 * 7000"
proof -
  have "cr_paymentToRestoreMinor (sample_risk 0) = 21001" by code_simp
  with payment_restores_line [OF sample_risk_eval(2)] show ?thesis
    by (simp add: sample_agency_def sample_policy_def drawn_def owed_def BP_def)
qed

end
