(* ===== verification/Calendar.thy ===== *)
theory Calendar
  imports Prelude
begin

text \<open>
  The proleptic Gregorian calendar as JavaScript's \<open>Date\<close> computes it in UTC: day numbers since
  1970-01-01, civil dates, ISO day texts, weekdays, and the night ranges the inventory and pricing code
  builds from them (\<open>apps/api/src/inventory/room-sales/engine.ts\<close>). Years run from March, so the leap
  day is the last day of its year.
\<close>

subsection \<open>Day numbers\<close>

definition MS_PER_DAY :: int where
  "MS_PER_DAY = 86400000"

definition year_of_era_start :: "int \<Rightarrow> int" where
  "year_of_era_start yoe = 365 * yoe + yoe div 4 - yoe div 100"

text \<open>Day number of a civil date with months 1..12; as in \<open>Date.UTC\<close>, a day past the month's end rolls over.\<close>

definition day_of :: "int \<Rightarrow> int \<Rightarrow> int \<Rightarrow> int" where
  "day_of y m d =
     (let y' = (if m \<le> 2 then y - 1 else y);
          doy = (153 * ((m + 9) mod 12) + 2) div 5 + d - 1 in
      (y' div 400) * 146097 + year_of_era_start (y' mod 400) + doy - 719468)"

text \<open>The year of a 400-year era and the day of that year; the month and the day of the month.\<close>

definition year_day :: "int \<Rightarrow> int \<times> int" where
  "year_day doe =
     (let c = (if doe = 146096 then 3 else doe div 36524); r = doe - 36524 * c;
          q = r div 1461; s = r mod 1461;
          yy = (if s = 1460 then 3 else s div 365) in
      (100 * c + 4 * q + yy, s - 365 * yy))"

definition month_day :: "int \<Rightarrow> int \<times> int" where
  "month_day doy =
     (let mp = (5 * doy + 2) div 153 in
      (if mp < 10 then mp + 3 else mp - 9, doy - (153 * mp + 2) div 5 + 1))"

definition civil_of :: "int \<Rightarrow> int \<times> int \<times> int" where
  "civil_of n =
     (let z = n + 719468; (yoe, doy) = year_day (z mod 146097); (m, d) = month_day doy;
          y = z div 146097 * 400 + yoe in
      (if m \<le> 2 then y + 1 else y, m, d))"

definition leap_year :: "int \<Rightarrow> bool" where
  "leap_year y \<longleftrightarrow> y mod 4 = 0 \<and> (y mod 100 \<noteq> 0 \<or> y mod 400 = 0)"

definition month_length :: "int \<Rightarrow> int \<Rightarrow> int" where
  "month_length y m = (if m = 2 then (if leap_year y then 29 else 28) else if m \<in> {4, 6, 9, 11} then 30 else 31)"

definition valid_date :: "int \<Rightarrow> int \<Rightarrow> int \<Rightarrow> bool" where
  "valid_date y m d \<longleftrightarrow> 1 \<le> m \<and> m \<le> 12 \<and> 1 \<le> d \<and> d \<le> month_length y m"

text \<open>Day of the week, 0 Monday .. 6 Sunday; 1970-01-01 was a Thursday.\<close>

definition weekday_of_day :: "int \<Rightarrow> nat" where
  "weekday_of_day n = nat ((n + 3) mod 7)"

subsection \<open>ISO day texts\<close>

definition year_text :: "int \<Rightarrow> string" where
  "year_text y =
     (if 0 \<le> y \<and> y \<le> 9999 then padStart 4 (CHR ''0'') (string_of_nat (nat y))
      else (if y < 0 then ''-'' else ''+'') @ padStart 6 (CHR ''0'') (string_of_nat (nat \<bar>y\<bar>)))"

definition two_digits :: "int \<Rightarrow> string" where
  "two_digits n = padStart 2 (CHR ''0'') (string_of_nat (nat n))"

text \<open>\<open>toISOString().slice(0, 10)\<close> of the midnight of a day.\<close>

definition iso_of_day :: "int \<Rightarrow> string" where
  "iso_of_day n = (let (y, m, d) = civil_of n in take 10 (year_text y @ ''-'' @ two_digits m @ ''-'' @ two_digits d))"

text \<open>The pattern \<open>/^\d{4}-\d{2}-\d{2}$/\<close>.\<close>

definition date_shape :: "string \<Rightarrow> bool" where
  "date_shape s \<longleftrightarrow> length s = 10 \<and> s ! 4 = CHR ''-'' \<and> s ! 7 = CHR ''-''
     \<and> list_all is_digit (take 4 s) \<and> list_all is_digit (take 2 (drop 5 s)) \<and> list_all is_digit (drop 8 s)"

definition year_part :: "string \<Rightarrow> int" where
  "year_part s = int (nat_of_digits (take 4 s))"

definition month_part :: "string \<Rightarrow> int" where
  "month_part s = int (nat_of_digits (take 2 (drop 5 s)))"

definition day_part :: "string \<Rightarrow> int" where
  "day_part s = int (nat_of_digits (take 2 (drop 8 s)))"

definition isIsoDate :: "string \<Rightarrow> bool" where
  "isIsoDate s \<longleftrightarrow> date_shape s \<and> valid_date (year_part s) (month_part s) (day_part s)"

definition dayNumber :: "string \<Rightarrow> int" where
  "dayNumber s = day_of (year_part s) (month_part s) (day_part s)"

definition addDays :: "string \<Rightarrow> int \<Rightarrow> string" where
  "addDays date n = iso_of_day (dayNumber date + n)"

definition weekdayBit :: "string \<Rightarrow> nat" where
  "weekdayBit day = weekday_of_day (dayNumber day)"

datatype Weekday = MON | TUE | WED | THU | FRI | SAT | SUN

definition WEEKDAYS :: "Weekday list" where
  "WEEKDAYS = [MON, TUE, WED, THU, FRI, SAT, SUN]"

definition weekdayOf :: "string \<Rightarrow> Weekday" where
  "weekdayOf date = WEEKDAYS ! weekdayBit date"

definition leadDays :: "string \<Rightarrow> string \<Rightarrow> int" where
  "leadDays today checkIn = dayNumber checkIn - dayNumber today"

subsection \<open>Night ranges\<close>

text \<open>
  The loop collects a date and gives up as soon as it holds more than the limit, so the number of
  collected dates bounds it.
\<close>

function collect_dates :: "(string \<Rightarrow> bool) \<Rightarrow> nat \<Rightarrow> string \<Rightarrow> string list \<Rightarrow> string list option" where
  "collect_dates continue limit date acc =
     (if \<not> continue date then Some acc
      else if length acc + 1 > limit then None
      else collect_dates continue limit (addDays date 1) (acc @ [date]))"
  by pat_completeness auto
termination
  by (relation "measure (\<lambda>(_, limit, _, acc). Suc limit - length acc)") auto

declare collect_dates.simps [simp del]

definition stayNights :: "string \<Rightarrow> string \<Rightarrow> string list option" where
  "stayNights checkIn checkOut =
     (if \<not> isIsoDate checkIn \<or> \<not> isIsoDate checkOut \<or> checkOut \<le> checkIn then None
      else collect_dates (\<lambda>date. date < checkOut) 30 checkIn [])"

definition rangeDays :: nat where
  "rangeDays = 62"

definition inclusiveDates :: "string \<Rightarrow> string \<Rightarrow> string list option" where
  "inclusiveDates from_date to_date =
     (if \<not> isIsoDate from_date \<or> \<not> isIsoDate to_date \<or> to_date < from_date then None
      else collect_dates (\<lambda>date. date \<le> to_date) rangeDays from_date [])"

subsection \<open>The two directions agree\<close>

lemma era_split:
  fixes c q yy :: int
  assumes "0 \<le> c" "c \<le> 3" "0 \<le> q" "q \<le> 24" "0 \<le> yy" "yy \<le> 3"
  shows "year_of_era_start (100 * c + 4 * q + yy) = 36524 * c + 1461 * q + 365 * yy"
proof -
  have "(yy + (25 * c + q) * 4) div 4 = 25 * c + q + yy div 4" "((4 * q + yy) + c * 100) div 100 = c + (4 * q + yy) div 100"
    by simp_all
  moreover have "yy div 4 = 0" "(4 * q + yy) div 100 = 0"
    using assms by (simp_all add: div_pos_pos_trivial)
  moreover have "yy + (25 * c + q) * 4 = 100 * c + 4 * q + yy" "(4 * q + yy) + c * 100 = 100 * c + 4 * q + yy" by simp_all
  ultimately have "(100 * c + 4 * q + yy) div 4 = 25 * c + q" "(100 * c + 4 * q + yy) div 100 = c"
    by simp_all
  then show ?thesis by (simp add: year_of_era_start_def algebra_simps)
qed

lemma civil_bounds:
  fixes doe :: int
  assumes "0 \<le> doe" "doe < 146097"
    and "c = (if doe = 146096 then 3 else doe div 36524)" "r = doe - 36524 * c"
    and "q = r div 1461" "s = r mod 1461" "yy = (if s = 1460 then 3 else s div 365)" "doy = s - 365 * yy"
  shows "0 \<le> c \<and> c \<le> 3" "0 \<le> q \<and> q \<le> 24" "0 \<le> yy \<and> yy \<le> 3" "0 \<le> doy \<and> doy \<le> 365"
    "doe = 36524 * c + 1461 * q + 365 * yy + doy"
proof -
  have part: "0 \<le> doe div 36524" "doe = 146096 \<or> doe div 36524 \<le> 3"
    using assms(1,2) zdiv_mono1 [of doe 146095 36524] by (auto simp: pos_imp_zdiv_nonneg_iff)
  then show c: "0 \<le> c \<and> c \<le> 3" using assms(3) by auto
  have r: "0 \<le> r \<and> r \<le> 36524"
  proof (cases "doe = 146096")
    case True
    then show ?thesis using assms(3,4) by simp
  next
    case False
    then have "r = doe mod 36524" using assms(3,4) by (simp add: minus_mult_div_eq_mod)
    then show ?thesis by (simp add: order_less_imp_le)
  qed
  have rs: "r = 1461 * q + s" using assms(5,6) by (simp only: mult_div_mod_eq)
  have s: "0 \<le> s \<and> s \<le> 1460" using assms(6) pos_mod_bound [of 1461 r] by simp
  show "0 \<le> q \<and> q \<le> 24"
    using r zdiv_mono1 [of r 36524 1461] by (auto simp: assms(5) pos_imp_zdiv_nonneg_iff)
  have y: "s = 1460 \<or> s div 365 \<le> 3" "0 \<le> s div 365"
    using s zdiv_mono1 [of s 1459 365] by (auto simp: pos_imp_zdiv_nonneg_iff)
  then show "0 \<le> yy \<and> yy \<le> 3" using assms(7) by auto
  show "0 \<le> doy \<and> doy \<le> 365"
  proof (cases "s = 1460")
    case True
    then show ?thesis using assms(7,8) by simp
  next
    case False
    then have "doy = s mod 365" using assms(7,8) by (simp add: minus_mult_div_eq_mod)
    then show ?thesis by (simp add: order_less_imp_le)
  qed
  show "doe = 36524 * c + 1461 * q + 365 * yy + doy"
    using assms(4,8) rs by linarith
qed

lemma year_day_inverse:
  assumes "0 \<le> doe" "doe < 146097" "year_day doe = (yoe, doy)"
  shows "0 \<le> yoe \<and> yoe < 400 \<and> 0 \<le> doy \<and> doy \<le> 365 \<and> year_of_era_start yoe + doy = doe"
proof -
  define c where "c = (if doe = 146096 then 3 else doe div 36524)"
  define r where "r = doe - 36524 * c"
  define q s where "q = r div 1461" and "s = r mod 1461"
  define yy where "yy = (if s = 1460 then 3 else s div 365)"
  have "year_day doe = (100 * c + 4 * q + yy, s - 365 * yy)"
    by (simp only: year_day_def Let_def c_def r_def q_def s_def yy_def)
  with assms(3) have yoe: "yoe = 100 * c + 4 * q + yy" and doy: "doy = s - 365 * yy" by simp_all
  note b = civil_bounds [OF assms(1,2) c_def r_def q_def s_def yy_def doy]
  have "year_of_era_start yoe = 36524 * c + 1461 * q + 365 * yy"
    unfolding yoe using b(1-3) by (intro era_split) simp_all
  with b yoe show ?thesis by linarith
qed

lemma twelve_months: "{0..11 :: int} = {0, 1, 2, 3, 4, 5, 6, 7, 8, 9, 10, 11}" "{1..12 :: int} = {1, 2, 3, 4, 5, 6, 7, 8, 9, 10, 11, 12}"
  by (simp_all add: simp_from_to)

lemma month_day_inverse:
  assumes "0 \<le> doy" "doy \<le> 365" "month_day doy = (m, d)"
  shows "1 \<le> m \<and> m \<le> 12 \<and> 1 \<le> d \<and> d \<le> 31 \<and> (153 * ((m + 9) mod 12) + 2) div 5 + d - 1 = doy"
proof -
  define mp where "mp = (5 * doy + 2) div 153"
  have mp: "153 * mp \<le> 5 * doy + 2" "5 * doy + 2 < 153 * mp + 153"
    using minus_mod_eq_mult_div [of "5 * doy + 2" 153] pos_mod_sign [of 153 "5 * doy + 2"] pos_mod_bound [of 153 "5 * doy + 2"]
    unfolding mp_def by linarith+
  have md: "m = (if mp < 10 then mp + 3 else mp - 9)" "d = doy - (153 * mp + 2) div 5 + 1"
    using assms(3) by (auto simp: month_day_def mp_def Let_def)
  have "mp \<in> {0..11}" using mp assms(1,2) by simp
  then have "mp \<in> {0, 1, 2, 3, 4, 5, 6, 7, 8, 9, 10, 11}" by (simp only: twelve_months(1))
  then show ?thesis using mp assms(1,2) by (elim insertE) (simp_all add: md)
qed

theorem day_of_civil_of: "(case civil_of n of (y, m, d) \<Rightarrow> day_of y m d) = n"
proof -
  define era doe where "era = (n + 719468) div 146097" and "doe = (n + 719468) mod 146097"
  obtain yoe doy m d where yd: "year_day doe = (yoe, doy)" and md: "month_day doy = (m, d)" by fastforce
  have doe: "0 \<le> doe" "doe < 146097" by (simp_all add: doe_def)
  have yoe: "0 \<le> yoe" "yoe < 400" "0 \<le> doy" "doy \<le> 365" "year_of_era_start yoe + doy = doe"
    using year_day_inverse [OF doe yd] by blast+
  have doy: "(153 * ((m + 9) mod 12) + 2) div 5 + d - 1 = doy"
    using month_day_inverse [OF yoe(3,4) md] by blast
  have civil: "civil_of n = (if m \<le> 2 then era * 400 + yoe + 1 else era * 400 + yoe, m, d)"
    unfolding civil_of_def Let_def doe_def [symmetric] era_def [symmetric] yd md prod.case ..
  have "(if m \<le> 2 then (if m \<le> 2 then era * 400 + yoe + 1 else era * 400 + yoe) - 1
      else (if m \<le> 2 then era * 400 + yoe + 1 else era * 400 + yoe)) = yoe + era * 400" by simp
  moreover have "(yoe + era * 400) div 400 = era" "(yoe + era * 400) mod 400 = yoe"
    using yoe(1,2) by simp_all
  ultimately have "day_of (if m \<le> 2 then era * 400 + yoe + 1 else era * 400 + yoe) m d =
      era * 146097 + year_of_era_start yoe + doy - 719468"
    unfolding day_of_def Let_def doy by (simp only:)
  also have "\<dots> = era * 146097 + doe - 719468" using yoe(5) by linarith
  also have "\<dots> = n" using div_mult_mod_eq [of "n + 719468" 146097] unfolding era_def doe_def by linarith
  finally show ?thesis by (simp only: civil prod.case)
qed

text \<open>The day after the last day of a year of the era.\<close>

definition era_year_end :: "int \<Rightarrow> int" where
  "era_year_end y = (if y = 399 then 146097 else year_of_era_start (y + 1))"

lemma div_next:
  fixes k y :: int
  assumes "0 < k"
  shows "(y + 1) div k = (if (y + 1) mod k = 0 then y div k + 1 else y div k)"
proof -
  let ?c = "(y + 1) div k" and ?m = "(y + 1) mod k"
  have split: "y = k * ?c + ?m - 1" using mult_div_mod_eq [of k "y + 1"] by linarith
  show ?thesis
  proof (cases "?m = 0")
    case True
    with split have "y = k * (?c - 1) + (k - 1)" by (simp add: right_diff_distrib)
    then have "y div k = ?c - 1" using assms by (intro int_div_pos_eq [of _ _ _ "k - 1"]) auto
    with True show ?thesis by simp
  next
    case False
    with assms have "0 \<le> ?m - 1" "?m - 1 < k" using pos_mod_sign [of k "y + 1"] pos_mod_bound [of k "y + 1"] by linarith+
    moreover have "y = k * ?c + (?m - 1)" using split by linarith
    ultimately have "y div k = ?c" by (intro int_div_pos_eq [of _ _ _ "?m - 1"])
    with False show ?thesis by simp
  qed
qed

lemma era_step:
  assumes "0 \<le> y" "y < 399"
  shows "year_of_era_start y + 365 \<le> year_of_era_start (y + 1)" "leap_year (y + 1) \<Longrightarrow> year_of_era_start (y + 1) = year_of_era_start y + 366"
proof -
  have "(y + 1) mod 4 = 0" if "(y + 1) mod 100 = 0"
    using that mod_mod_cancel [of 4 100 "y + 1"] by simp
  then show "year_of_era_start y + 365 \<le> year_of_era_start (y + 1)"
    using div_next [of 4 y] div_next [of 100 y] by (auto simp: year_of_era_start_def)
  assume "leap_year (y + 1)"
  then have "(y + 1) mod 4 = 0" "(y + 1) mod 100 \<noteq> 0" using assms by (auto simp: leap_year_def)
  then show "year_of_era_start (y + 1) = year_of_era_start y + 366"
    using div_next [of 4 y] div_next [of 100 y] by (simp add: year_of_era_start_def)
qed

lemma era_starts:
  assumes "0 \<le> y" "y < 400"
  shows "year_day (year_of_era_start y) = (y, 0)" "year_of_era_start y + 365 \<le> era_year_end y"
    "leap_year (y + 1) \<Longrightarrow> era_year_end y = year_of_era_start y + 366"
    "0 \<le> year_of_era_start y" "era_year_end y \<le> 146097"
proof -
  define c r where "c = y div 100" and "r = y mod 100"
  define q yy where "q = r div 4" and "yy = r mod 4"
  have r: "0 \<le> r" "r \<le> 99" using pos_mod_bound [of 100 y] by (simp_all add: r_def)
  have b: "0 \<le> c" "c \<le> 3" "0 \<le> q" "q \<le> 24" "0 \<le> yy" "yy \<le> 3"
    using assms zdiv_mono1 [of y 399 100] zdiv_mono1 [of r 99 4] r pos_mod_bound [of 4 r]
    by (auto simp: c_def q_def yy_def pos_imp_zdiv_nonneg_iff)
  have y: "y = 100 * c + 4 * q + yy"
    using mult_div_mod_eq [of 100 y] mult_div_mod_eq [of 4 r] by (simp add: c_def q_def yy_def r_def)
  have start: "year_of_era_start y = 36524 * c + 1461 * q + 365 * yy" unfolding y by (rule era_split [OF b])
  have "year_of_era_start y div 36524 = c" "year_of_era_start y \<noteq> 146096"
    using b by (auto simp: start intro!: int_div_pos_eq [of _ _ _ "1461 * q + 365 * yy"])
  moreover have "(year_of_era_start y - 36524 * c) div 1461 = q" "(year_of_era_start y - 36524 * c) mod 1461 = 365 * yy"
    using b by (auto simp: start intro!: int_div_pos_eq [of _ _ _ "365 * yy"] int_mod_pos_eq [of _ _ q])
  ultimately show "year_day (year_of_era_start y) = (y, 0)"
    using b by (auto simp: year_day_def Let_def y)
  have last: "year_of_era_start 399 = 145731" by (simp add: year_of_era_start_def)
  have ends: "y < 399 \<or> y = 399" using assms by auto
  show "year_of_era_start y + 365 \<le> era_year_end y" "leap_year (y + 1) \<Longrightarrow> era_year_end y = year_of_era_start y + 366"
    using era_step [OF assms(1)] ends last by (auto simp: era_year_end_def)
  show "0 \<le> year_of_era_start y" using b by (simp add: start)
  show "era_year_end y \<le> 146097"
  proof (cases "y = 399")
    case False
    have "year_of_era_start (y + 1) \<le> year_of_era_start y + 366"
      using div_next [of 4 y] div_next [of 100 y] by (auto simp: year_of_era_start_def)
    then show ?thesis using b False by (simp add: era_year_end_def start)
  qed (simp add: era_year_end_def)
qed

lemma era_start_mono:
  assumes "0 \<le> a" "a < b" "b < 400"
  shows "era_year_end a \<le> year_of_era_start b"
proof -
  have "year_of_era_start (a + 1) \<le> year_of_era_start (a + 1 + int k)" if "a + 1 + int k < 400" for k
    using that
  proof (induction k)
    case (Suc k)
    then have "year_of_era_start (a + 1 + int k) + 365 \<le> era_year_end (a + 1 + int k)"
      using era_starts(2) [of "a + 1 + int k"] assms(1) by simp
    moreover have "era_year_end (a + 1 + int k) = year_of_era_start (a + 1 + int (Suc k))"
      using Suc.prems by (simp add: era_year_end_def algebra_simps)
    ultimately show ?case using Suc by simp
  qed simp
  moreover have "a + 1 + int (nat (b - a - 1)) = b" using assms by simp
  ultimately have "year_of_era_start (a + 1) \<le> year_of_era_start b" using assms(3) by metis
  then show ?thesis using assms by (simp add: era_year_end_def)
qed

lemma year_day_of_start:
  assumes "0 \<le> yoe" "yoe < 400" "0 \<le> doy" "year_of_era_start yoe + doy < era_year_end yoe"
  shows "year_day (year_of_era_start yoe + doy) = (yoe, doy)"
proof (cases "doy = 0")
  case True
  then show ?thesis using era_starts(1) [OF assms(1,2)] by simp
next
  case False
  let ?doe = "year_of_era_start yoe + doy"
  obtain y r where yr: "year_day ?doe = (y, r)" by fastforce
  have "0 \<le> ?doe" "?doe < 146097" using assms(3,4) era_starts(4,5) [OF assms(1,2)] by linarith+
  note b = year_day_inverse [OF this yr]
  have "\<not> y < yoe"
  proof
    assume "y < yoe"
    then have "era_year_end y \<le> year_of_era_start yoe" "year_of_era_start y + 365 \<le> era_year_end y"
      using b assms(1,2) era_start_mono [of y yoe] era_starts(2) [of y] by auto
    with b assms(3) False show False by linarith
  qed
  moreover have "\<not> yoe < y"
  proof
    assume "yoe < y"
    then have "era_year_end yoe \<le> year_of_era_start y" using b assms(1) era_start_mono [of yoe y] by auto
    with b assms(4) show False by linarith
  qed
  ultimately have "y = yoe" by simp
  moreover from this b have "r = doy" by simp
  ultimately show ?thesis using yr by simp
qed

lemma month_day_of_civil:
  assumes "1 \<le> m" "m \<le> 12" "1 \<le> d" "d \<le> (if m = 2 then 29 else if m \<in> {4, 6, 9, 11} then 30 else 31)"
  shows "month_day ((153 * ((m + 9) mod 12) + 2) div 5 + d - 1) = (m, d)"
    "0 \<le> (153 * ((m + 9) mod 12) + 2) div 5 + d - 1"
    "(153 * ((m + 9) mod 12) + 2) div 5 + d - 1 \<le> (if m = 2 \<and> d = 29 then 365 else 364)"
proof -
  let ?doy = "(153 * ((m + 9) mod 12) + 2) div 5 + d - 1" and ?k = "(m + 9) mod 12"
  have at: "month_day x = (if k < 10 then k + 3 else k - 9, x - (153 * k + 2) div 5 + 1)" if "153 * k \<le> 5 * x + 2" "5 * x + 2 < 153 * k + 153" for x k
  proof -
    have "(5 * x + 2) div 153 = k" using that by (intro int_div_pos_eq [of _ _ _ "5 * x + 2 - 153 * k"]) simp_all
    then show ?thesis by (simp add: month_day_def)
  qed
  have "m \<in> {1..12}" using assms(1,2) by simp
  then have "m \<in> {1, 2, 3, 4, 5, 6, 7, 8, 9, 10, 11, 12}" by (simp only: twelve_months(2))
  then have "month_day ?doy = (m, d) \<and> 0 \<le> ?doy \<and> ?doy \<le> (if m = 2 \<and> d = 29 then 365 else 364)"
    using at [of ?k ?doy] assms(3,4) by (elim insertE) (simp_all split: if_splits)
  then show "month_day ?doy = (m, d)" "0 \<le> ?doy" "?doy \<le> (if m = 2 \<and> d = 29 then 365 else 364)" by blast+
qed

lemma leap_year_era: "leap_year (400 * e + y) = leap_year y"
proof -
  have "(y + (100 * e) * 4) mod 4 = y mod 4" "(y + (4 * e) * 100) mod 100 = y mod 100" "(y + e * 400) mod 400 = y mod 400"
    by (rule mod_mult_self1)+
  moreover have "y + (100 * e) * 4 = 400 * e + y" "y + (4 * e) * 100 = 400 * e + y" "y + e * 400 = 400 * e + y" by simp_all
  ultimately have "(400 * e + y) mod 4 = y mod 4" "(400 * e + y) mod 100 = y mod 100" "(400 * e + y) mod 400 = y mod 400" by metis+
  then show ?thesis by (simp add: leap_year_def)
qed

theorem civil_of_day_of:
  assumes "valid_date y m d"
  shows "civil_of (day_of y m d) = (y, m, d)"
proof -
  define y' where "y' = (if m \<le> 2 then y - 1 else y)"
  define doy where "doy = (153 * ((m + 9) mod 12) + 2) div 5 + d - 1"
  let ?e = "y' div 400" and ?yoe = "y' mod 400"
  have md: "1 \<le> m" "m \<le> 12" "1 \<le> d" "d \<le> (if m = 2 then 29 else if m \<in> {4, 6, 9, 11} then 30 else 31)"
    using assms by (auto simp: valid_date_def month_length_def split: if_splits)
  note c = month_day_of_civil [OF md, folded doy_def]
  have yoe: "0 \<le> ?yoe" "?yoe < 400" by simp_all
  have last: "year_of_era_start ?yoe + doy < era_year_end ?yoe"
  proof (cases "m = 2 \<and> d = 29")
    case True
    then have "leap_year y" using assms by (auto simp: valid_date_def month_length_def split: if_splits)
    moreover have "y = 400 * ?e + (?yoe + 1)" using True by (simp add: y'_def)
    ultimately have "leap_year (?yoe + 1)" by (metis leap_year_era)
    then show ?thesis using era_starts(3) [OF yoe] c(3) True by simp
  next
    case False
    have "doy \<le> 364" using c(3) unfolding if_not_P [OF False] .
    then show ?thesis using era_starts(2) [OF yoe] by linarith
  qed
  note yd = year_day_of_start [OF yoe c(2) last]
  have z: "day_of y m d + 719468 = (year_of_era_start ?yoe + doy) + ?e * 146097"
    by (simp add: day_of_def Let_def y'_def doy_def)
  have doe: "0 \<le> year_of_era_start ?yoe + doy" "year_of_era_start ?yoe + doy < 146097"
    using c(2) last era_starts(4,5) [OF yoe] by linarith+
  have "(day_of y m d + 719468) div 146097 = ?e" "(day_of y m d + 719468) mod 146097 = year_of_era_start ?yoe + doy"
    unfolding z using doe by simp_all
  then have "civil_of (day_of y m d) = (if m \<le> 2 then ?e * 400 + ?yoe + 1 else ?e * 400 + ?yoe, m, d)"
    by (simp add: civil_of_def Let_def yd c(1))
  moreover have "?e * 400 + ?yoe = y'" by simp
  ultimately show ?thesis by (simp add: y'_def)
qed

lemma civil_of_inj: "civil_of a = civil_of b \<Longrightarrow> a = b"
  by (metis day_of_civil_of)

lemma weekday_of_day_less: "weekday_of_day n < 7"
  by (simp add: weekday_of_day_def nat_less_iff)

lemma weekday_of_day_Suc: "weekday_of_day (n + 1) = (weekday_of_day n + 1) mod 7"
proof -
  let ?k = "(n + 3) mod 7"
  have "(n + 1 + 3) mod 7 = (?k + 1) mod 7" by (simp add: mod_simps add.commute)
  moreover have "nat ((?k + 1) mod 7) = (nat ?k + 1) mod 7"
    by (simp add: nat_mod_distrib nat_add_distrib)
  ultimately show ?thesis by (simp only: weekday_of_day_def)
qed

subsection \<open>Texts of days\<close>

text \<open>The days of the years 0 to 9599 and a little more: every date a booking can carry.\<close>

definition plausible_day :: "int \<Rightarrow> bool" where
  "plausible_day n \<longleftrightarrow> -719468 \<le> n \<and> n < 2786860"

lemma civil_of_plausible:
  assumes "plausible_day n" "civil_of n = (y, m, d)"
  shows "0 \<le> y \<and> y \<le> 9999 \<and> 1 \<le> m \<and> m \<le> 12 \<and> 1 \<le> d \<and> d \<le> 31"
proof -
  define era where "era = (n + 719468) div 146097"
  obtain yoe doy m' d' where yd: "year_day ((n + 719468) mod 146097) = (yoe, doy)" and md: "month_day doy = (m', d')"
    by fastforce
  have yoe: "0 \<le> yoe" "yoe < 400" "0 \<le> doy" "doy \<le> 365"
    using year_day_inverse [OF _ _ yd] by simp_all
  have md': "1 \<le> m' \<and> m' \<le> 12 \<and> 1 \<le> d' \<and> d' \<le> 31"
    using month_day_inverse [OF yoe(3,4) md] by blast
  have era: "0 \<le> era" "era \<le> 23"
    using assms(1) zdiv_mono1 [of "n + 719468" 3506327 146097]
    by (auto simp: plausible_day_def era_def pos_imp_zdiv_nonneg_iff)
  have "y = (if m' \<le> 2 then era * 400 + yoe + 1 else era * 400 + yoe)" "m = m'" "d = d'"
    using assms(2) unfolding civil_of_def Let_def yd md prod.case era_def [symmetric] by auto
  with yoe(1,2) era md' show ?thesis by auto
qed

lemma length_two_digits: "0 \<le> n \<Longrightarrow> n < 100 \<Longrightarrow> length (two_digits n) = 2"
  using length_string_of_nat_le [of "nat n" 2] by (simp add: two_digits_def)

lemma nat_of_two_digits: "0 \<le> n \<Longrightarrow> int (nat_of_digits (two_digits n)) = n"
  by (simp add: two_digits_def)

lemma length_year_text: "0 \<le> y \<Longrightarrow> y \<le> 9999 \<Longrightarrow> length (year_text y) = 4"
  using length_string_of_nat_le [of "nat y" 4] by (simp add: year_text_def)

lemma nat_of_year_text: "0 \<le> y \<Longrightarrow> y \<le> 9999 \<Longrightarrow> int (nat_of_digits (year_text y)) = y"
  by (simp add: year_text_def)

text \<open>Printing a day and reading it again gives the day.\<close>

theorem dayNumber_iso_of_day:
  assumes "plausible_day n"
  shows "dayNumber (iso_of_day n) = n"
proof -
  obtain y m d where c: "civil_of n = (y, m, d)" by (cases "civil_of n") auto
  have b: "0 \<le> y" "y \<le> 9999" "1 \<le> m" "m \<le> 12" "1 \<le> d" "d \<le> 31"
    using civil_of_plausible [OF assms c] by blast+
  let ?Y = "year_text y" and ?M = "two_digits m" and ?D = "two_digits d"
  have len: "length ?Y = 4" "length ?M = 2" "length ?D = 2"
    using b by (simp_all add: length_year_text length_two_digits)
  have iso: "iso_of_day n = ?Y @ ''-'' @ ?M @ ''-'' @ ?D"
    using len by (simp add: iso_of_day_def c)
  have "year_part (iso_of_day n) = y" "month_part (iso_of_day n) = m" "day_part (iso_of_day n) = d"
    using len b unfolding year_part_def month_part_def day_part_def iso
    by (simp_all add: nat_of_year_text nat_of_two_digits)
  with day_of_civil_of [of n] c show ?thesis by (simp add: dayNumber_def)
qed

text \<open>Reading a day and printing it gives the text back.\<close>

theorem iso_of_dayNumber:
  assumes "isIsoDate s"
  shows "iso_of_day (dayNumber s) = s"
proof -
  have sh: "length s = 10" "s ! 4 = CHR ''-''" "s ! 7 = CHR ''-''" "list_all is_digit (take 4 s)"
      "list_all is_digit (take 2 (drop 5 s))" "list_all is_digit (take 2 (drop 8 s))"
    and v: "valid_date (year_part s) (month_part s) (day_part s)"
    using assms by (simp_all add: isIsoDate_def date_shape_def)
  have "year_part s \<le> 9999"
    using nat_of_digits_bound [OF sh(4)] sh(1) by (simp add: year_part_def)
  then have "year_text (year_part s) = padStart (length (take 4 s)) (CHR ''0'') (string_of_nat (nat_of_digits (take 4 s)))"
    using sh(1) by (simp add: year_text_def year_part_def)
  also have "\<dots> = take 4 s" using sh by (intro padStart_digits) auto
  finally have y: "year_text (year_part s) = take 4 s" .
  have "two_digits (month_part s) = padStart (length (take 2 (drop 5 s))) (CHR ''0'') (string_of_nat (nat_of_digits (take 2 (drop 5 s))))"
    using sh(1) by (simp add: two_digits_def month_part_def)
  also have "\<dots> = take 2 (drop 5 s)" using sh by (intro padStart_digits) auto
  finally have m: "two_digits (month_part s) = take 2 (drop 5 s)" .
  have "two_digits (day_part s) = padStart (length (take 2 (drop 8 s))) (CHR ''0'') (string_of_nat (nat_of_digits (take 2 (drop 8 s))))"
    using sh(1) by (simp add: two_digits_def day_part_def)
  also have "\<dots> = take 2 (drop 8 s)" using sh by (intro padStart_digits) auto
  finally have d: "two_digits (day_part s) = take 2 (drop 8 s)" .
  have s: "s = take 4 s @ ''-'' @ take 2 (drop 5 s) @ ''-'' @ take 2 (drop 8 s)"
  proof -
    obtain a b c e f g h i j k where "s = [a, b, c, e, f, g, h, i, j, k]"
      using sh(1) by (auto simp: length_Suc_conv numeral_eq_Suc)
    then show ?thesis using sh(2,3) by (simp add: numeral_eq_Suc)
  qed
  have "iso_of_day (dayNumber s) = take 10 (take 4 s @ ''-'' @ take 2 (drop 5 s) @ ''-'' @ take 2 (drop 8 s))"
    by (simp add: iso_of_day_def dayNumber_def civil_of_day_of [OF v] y m d)
  then show ?thesis using s sh(1) by (metis le_refl take_all)
qed

lemma collect_dates_Some:
  assumes "collect_dates continue limit date acc = Some ns"
  shows "\<exists>k. length ns = length acc + k \<and> (k = 0 \<or> length ns \<le> limit)
    \<and> ns = acc @ map (\<lambda>j. ((\<lambda>x. addDays x 1) ^^ j) date) [0..<k]
    \<and> \<not> continue (((\<lambda>x. addDays x 1) ^^ k) date)
    \<and> list_all continue (map (\<lambda>j. ((\<lambda>x. addDays x 1) ^^ j) date) [0..<k])"
  using assms
proof (induction continue limit date acc rule: collect_dates.induct)
  case (1 continue limit date acc)
  let ?next = "\<lambda>x. addDays x 1"
  show ?case
  proof (cases "continue date")
    case False
    with "1.prems" show ?thesis by (intro exI [of _ 0]) (simp add: collect_dates.simps [of continue limit date acc])
  next
    case True
    with "1.prems" have small: "\<not> length acc + 1 > limit"
      and rec: "collect_dates continue limit (?next date) (acc @ [date]) = Some ns"
      by (simp_all add: collect_dates.simps [of continue limit date acc] split: if_splits)
    obtain k where k: "length ns = length (acc @ [date]) + k" "k = 0 \<or> length ns \<le> limit"
      "ns = (acc @ [date]) @ map (\<lambda>j. (?next ^^ j) (?next date)) [0..<k]" "\<not> continue ((?next ^^ k) (?next date))"
      "list_all continue (map (\<lambda>j. (?next ^^ j) (?next date)) [0..<k])"
      using "1.IH" [OF _ small rec] True by blast
    have shift: "map (\<lambda>j. (?next ^^ j) (?next date)) [0..<k] = map (\<lambda>j. (?next ^^ j) date) [1..<Suc k]"
      using funpow_swap1 [of ?next _ date] by (simp add: map_Suc_upt [symmetric] del: upt_Suc)
    have "[0..<Suc k] = 0 # [1..<Suc k]" by (simp add: upt_conv_Cons)
    with k shift small True show ?thesis
      using funpow_swap1 [of ?next k date] by (intro exI [of _ "Suc k"]) (auto simp del: upt_Suc)
  qed
qed

lemma dayNumber_funpow:
  assumes "plausible_day (dayNumber date)" "plausible_day (dayNumber date + int k)"
  shows "dayNumber (((\<lambda>x. addDays x 1) ^^ k) date) = dayNumber date + int k"
  using assms
proof (induction k)
  case (Suc k)
  then have "plausible_day (dayNumber date + int k)" by (simp add: plausible_day_def)
  with Suc have "dayNumber (((\<lambda>x. addDays x 1) ^^ k) date) = dayNumber date + int k" by simp
  with Suc.prems show ?case by (simp add: addDays_def dayNumber_iso_of_day add.commute add.left_commute)
qed simp

text \<open>
  A stay's nights are a gapless run from check-in: when they are listed, there are 1 to 30 of them,
  the first is the check-in date, each lies before check-out, the day after the last does not, and
  their day numbers are consecutive, so no night is skipped, repeated or charged after check-out.
\<close>

theorem stayNights_run:
  assumes "stayNights checkIn checkOut = Some ns" "plausible_day (dayNumber checkIn)" "plausible_day (dayNumber checkIn + 31)"
  shows "ns \<noteq> [] \<and> length ns \<le> 30 \<and> hd ns = checkIn \<and> list_all (\<lambda>d. d < checkOut) ns
    \<and> \<not> addDays (last ns) 1 < checkOut
    \<and> map dayNumber ns = map (\<lambda>k. dayNumber checkIn + int k) [0..<length ns]"
proof -
  let ?next = "\<lambda>x. addDays x 1"
  have c: "collect_dates (\<lambda>date. date < checkOut) 30 checkIn [] = Some ns" and before: "checkIn < checkOut"
    using assms(1) by (auto simp: stayNights_def split: if_splits)
  obtain k where k: "length ns = k" "k = 0 \<or> length ns \<le> 30" "ns = map (\<lambda>j. (?next ^^ j) checkIn) [0..<k]"
    "\<not> (?next ^^ k) checkIn < checkOut" "list_all (\<lambda>d. d < checkOut) (map (\<lambda>j. (?next ^^ j) checkIn) [0..<k])"
    using collect_dates_Some [OF c] by auto
  have pos: "k \<noteq> 0" using k(4) before by (auto intro: ccontr)
  then have last: "last ns = (?next ^^ (k - 1)) checkIn" and hd: "hd ns = checkIn"
    by (simp_all add: k(3) last_conv_nth hd_conv_nth)
  have "?next (last ns) = (?next ^^ k) checkIn"
    using pos by (cases k) (simp_all add: last)
  moreover have "dayNumber ((?next ^^ j) checkIn) = dayNumber checkIn + int j" if "j < k" for j
    using that k(1,2) pos assms(2,3) by (intro dayNumber_funpow) (auto simp: plausible_day_def)
  ultimately show ?thesis
    using k pos hd by auto
qed

end
