(* ===== verification/Finance_Period.thy ===== *)
theory Finance_Period
  imports Calendar
begin

text \<open>
  Finance period close (\<open>packages/money/src/period.ts\<close>): a period is one calendar month in UTC, closed in
  order with no gap, and its control totals tie opening, movement and closing per currency. A \<open>Date\<close> is
  its time in milliseconds. Closing months one after another is a step relation over the closed ranges.
\<close>

subsection \<open>Months\<close>

record PeriodRange =
  pr_month :: string
  pr_start :: int
  pr_end :: int

text \<open>\<open>Date.UTC(year, index, 1)\<close> with a month index 0..12.\<close>

definition utc_month_start :: "int \<Rightarrow> int \<Rightarrow> int" where
  "utc_month_start year index =
     (if index = 12 then day_of (year + 1) 1 1 else day_of year (index + 1) 1) * MS_PER_DAY"

definition PERIOD_CLOSE_GRACE_MINUTES :: int where
  "PERIOD_CLOSE_GRACE_MINUTES = 5"

definition month_shape :: "string \<Rightarrow> bool" where
  "month_shape s \<longleftrightarrow> length s = 7 \<and> list_all is_digit (take 4 s) \<and> s ! 4 = CHR ''-'' \<and> list_all is_digit (drop 5 s)
     \<and> 1 \<le> nat_of_digits (drop 5 s) \<and> nat_of_digits (drop 5 s) \<le> 12"

definition monthRange :: "string \<Rightarrow> PeriodRange option" where
  "monthRange month =
     (if \<not> month_shape month then None
      else let year = int (nat_of_digits (take 4 month)); index = int (nat_of_digits (drop 5 month)) - 1 in
           if year < 2000 \<or> year > 2999 then None
           else Some \<lparr>pr_month = month, pr_start = utc_month_start year index, pr_end = utc_month_start year (index + 1)\<rparr>)"

subsection \<open>Blockers\<close>

datatype PeriodBlocker = PERIOD_NOT_ENDED | PERIOD_ALREADY_CLOSED | PERIOD_NOT_NEXT | INTEGRITY_ISSUES | INTEGRITY_INCOMPLETE

datatype Verdict = CLEAN | WARNINGS | ISSUES | INCOMPLETE

record PeriodBlockerInput =
  pb_range :: PeriodRange
  pb_now :: int
  pb_alreadyClosed :: bool
  pb_lastClosedEnd :: "int option"
  pb_earliestEntryAt :: "int option"
  pb_verdict :: Verdict

text \<open>The first instant of the month of a time.\<close>

definition month_start_of :: "int \<Rightarrow> int" where
  "month_start_of t = (case civil_of (t div MS_PER_DAY) of (y, m, d) \<Rightarrow> utc_month_start y (m - 1))"

definition periodBlockers :: "PeriodBlockerInput \<Rightarrow> PeriodBlocker list" where
  "periodBlockers i =
     (let expectedStart = (case pb_lastClosedEnd i of Some e \<Rightarrow> Some e | None \<Rightarrow> map_option month_start_of (pb_earliestEntryAt i)) in
      (if pb_alreadyClosed i then [PERIOD_ALREADY_CLOSED]
       else if expectedStart \<noteq> None \<and> expectedStart \<noteq> Some (pr_start (pb_range i)) then [PERIOD_NOT_NEXT] else []) @
      (if pr_end (pb_range i) > pb_now i - PERIOD_CLOSE_GRACE_MINUTES * 60000 then [PERIOD_NOT_ENDED] else []) @
      (if pb_verdict i = ISSUES then [INTEGRITY_ISSUES] else []) @
      (if pb_verdict i = INCOMPLETE then [INTEGRITY_INCOMPLETE] else []))"

subsection \<open>Control totals\<close>

record PeriodGroup =
  pg_currency :: string
  pg_type :: string
  pg_entries :: int
  pg_sumMinor :: int

record PeriodBalance =
  pl_currency :: string
  pl_sumMinor :: int

record PeriodTypeTotal =
  py_type :: string
  py_entries :: int
  py_sumMinor :: int

record PeriodCurrencyTotals =
  pc_currency :: string
  pc_entries :: int
  pc_openingMinor :: int
  pc_movementMinor :: int
  pc_closingMinor :: int
  pc_byType :: "PeriodTypeTotal list"

definition period_row :: "string \<Rightarrow> PeriodCurrencyTotals" where
  "period_row c = \<lparr>pc_currency = c, pc_entries = 0, pc_openingMinor = 0, pc_movementMinor = 0, pc_closingMinor = 0, pc_byType = []\<rparr>"

text \<open>Updating the row of a currency, which is created when it is new.\<close>

definition on_row ::
  "string \<Rightarrow> (PeriodCurrencyTotals \<Rightarrow> PeriodCurrencyTotals) \<Rightarrow> (string, PeriodCurrencyTotals) omap \<Rightarrow> (string, PeriodCurrencyTotals) omap" where
  "on_row c f rows = omap_put c (f (omap_getd period_row rows c)) rows"

definition add_opening :: "PeriodBalance \<Rightarrow> PeriodCurrencyTotals \<Rightarrow> PeriodCurrencyTotals" where
  "add_opening x r = r\<lparr>pc_openingMinor := pc_openingMinor r + pl_sumMinor x\<rparr>"

definition add_closing :: "PeriodBalance \<Rightarrow> PeriodCurrencyTotals \<Rightarrow> PeriodCurrencyTotals" where
  "add_closing c r = r\<lparr>pc_closingMinor := pc_closingMinor r + pl_sumMinor c\<rparr>"

definition add_movement :: "PeriodGroup \<Rightarrow> PeriodCurrencyTotals \<Rightarrow> PeriodCurrencyTotals" where
  "add_movement g r = r\<lparr>pc_entries := pc_entries r + pg_entries g, pc_movementMinor := pc_movementMinor r + pg_sumMinor g,
     pc_byType := pc_byType r @ [\<lparr>py_type = pg_type g, py_entries = pg_entries g, py_sumMinor = pg_sumMinor g\<rparr>]\<rparr>"

definition period_rows :: "PeriodBalance list \<Rightarrow> PeriodGroup list \<Rightarrow> PeriodBalance list \<Rightarrow> (string, PeriodCurrencyTotals) omap" where
  "period_rows opening movements closing =
     (let r1 = foldl (\<lambda>rows x. on_row (pl_currency x) (add_opening x) rows) [] opening;
          r2 = foldl (\<lambda>rows x. on_row (pl_currency x) (add_closing x) rows) r1 closing in
      foldl (\<lambda>rows g. on_row (pg_currency g) (add_movement g) rows) r2 movements)"

definition tie_message :: "PeriodCurrencyTotals \<Rightarrow> string" where
  "tie_message r = ''Period totals do not tie for '' @ pc_currency r @ '': opening '' @ string_of_int (pc_openingMinor r) @
     '' + movement '' @ string_of_int (pc_movementMinor r) @ '' is not closing '' @ string_of_int (pc_closingMinor r)"

fun tie_rows :: "(string \<Rightarrow> string \<Rightarrow> int) \<Rightarrow> PeriodCurrencyTotals list \<Rightarrow> PeriodCurrencyTotals list result" where
  "tie_rows collate [] = Inr []"
| "tie_rows collate (r # rs) =
     (if pc_openingMinor r + pc_movementMinor r \<noteq> pc_closingMinor r then Inl (Error (tie_message r))
      else ebind (tie_rows collate rs) (\<lambda>rest.
        Inr (r\<lparr>pc_byType := js_sort (\<lambda>a b. collate (py_type a) (py_type b)) (pc_byType r)\<rparr> # rest)))"

definition buildPeriodTotals ::
  "(string \<Rightarrow> string \<Rightarrow> int) \<Rightarrow> PeriodBalance list \<Rightarrow> PeriodGroup list \<Rightarrow> PeriodBalance list \<Rightarrow> PeriodCurrencyTotals list result" where
  "buildPeriodTotals collate opening movements closing =
     ebind (tie_rows collate (omap_values (period_rows opening movements closing))) (\<lambda>rows.
       Inr (js_sort (\<lambda>a b. collate (pc_currency a) (pc_currency b)) rows))"

subsection \<open>The rows as one grouping\<close>

datatype period_event = P_opening PeriodBalance | P_closing PeriodBalance | P_movement PeriodGroup

fun pe_currency :: "period_event \<Rightarrow> string" where
  "pe_currency (P_opening x) = pl_currency x"
| "pe_currency (P_closing x) = pl_currency x"
| "pe_currency (P_movement g) = pg_currency g"

fun pe_update :: "PeriodCurrencyTotals \<Rightarrow> period_event \<Rightarrow> PeriodCurrencyTotals" where
  "pe_update r (P_opening x) = add_opening x r"
| "pe_update r (P_closing x) = add_closing x r"
| "pe_update r (P_movement g) = add_movement g r"

abbreviation pe_ini :: "period_event \<Rightarrow> PeriodCurrencyTotals" where
  "pe_ini x \<equiv> period_row (pe_currency x)"

definition period_events :: "PeriodBalance list \<Rightarrow> PeriodGroup list \<Rightarrow> PeriodBalance list \<Rightarrow> period_event list" where
  "period_events opening movements closing = map P_opening opening @ map P_closing closing @ map P_movement movements"

lemma on_row_group_step: "on_row (pe_currency x) (\<lambda>r. pe_update r x) m = group_step pe_currency pe_ini pe_update m x"
  by (simp add: on_row_def group_step_def omap_getd_def)

lemma period_rows_group_by:
  "period_rows opening movements closing = group_by pe_currency pe_ini pe_update (period_events opening movements closing)"
proof -
  have "foldl (\<lambda>rows x. on_row (pl_currency x) (add_opening x) rows) t xs =
      foldl (\<lambda>rows x. group_step pe_currency pe_ini pe_update rows (P_opening x)) t xs" for t xs
    by (intro foldl_cong refl) (simp flip: on_row_group_step)
  moreover have "foldl (\<lambda>rows x. on_row (pl_currency x) (add_closing x) rows) t xs =
      foldl (\<lambda>rows x. group_step pe_currency pe_ini pe_update rows (P_closing x)) t xs" for t xs
    by (intro foldl_cong refl) (simp flip: on_row_group_step)
  moreover have "foldl (\<lambda>rows x. on_row (pg_currency x) (add_movement x) rows) t xs =
      foldl (\<lambda>rows x. group_step pe_currency pe_ini pe_update rows (P_movement x)) t xs" for t xs
    by (intro foldl_cong refl) (simp flip: on_row_group_step)
  ultimately show ?thesis
    by (simp add: period_rows_def Let_def group_by_def period_events_def foldl_map)
qed

fun opening_of :: "period_event \<Rightarrow> int" where
  "opening_of (P_opening x) = pl_sumMinor x" | "opening_of _ = 0"

fun closing_of :: "period_event \<Rightarrow> int" where
  "closing_of (P_closing x) = pl_sumMinor x" | "closing_of _ = 0"

fun movement_of :: "period_event \<Rightarrow> int" where
  "movement_of (P_movement g) = pg_sumMinor g" | "movement_of _ = 0"

lemmas pe_defs = period_row_def add_opening_def add_closing_def add_movement_def

interpretation row_opening: additive_rows pe_ini pe_update pc_openingMinor opening_of
proof
  show "pc_openingMinor (pe_update r x) = pc_openingMinor r + opening_of x" for r x by (cases x) (simp_all add: pe_defs)
qed (simp add: pe_defs)

interpretation row_closing: additive_rows pe_ini pe_update pc_closingMinor closing_of
proof
  show "pc_closingMinor (pe_update r x) = pc_closingMinor r + closing_of x" for r x by (cases x) (simp_all add: pe_defs)
qed (simp add: pe_defs)

interpretation row_movement: additive_rows pe_ini pe_update pc_movementMinor movement_of
proof
  show "pc_movementMinor (pe_update r x) = pc_movementMinor r + movement_of x" for r x by (cases x) (simp_all add: pe_defs)
qed (simp add: pe_defs)

lemma pe_sums:
  fixes ops :: "PeriodBalance list" and moves :: "PeriodGroup list" and cls :: "PeriodBalance list" and c :: string
  defines "evs \<equiv> filter (\<lambda>x. pe_currency x = c) (period_events ops moves cls)"
  shows "sum_list (map opening_of evs) = sum_where (\<lambda>x. pl_currency x = c) pl_sumMinor ops"
    and "sum_list (map closing_of evs) = sum_where (\<lambda>x. pl_currency x = c) pl_sumMinor cls"
    and "sum_list (map movement_of evs) = sum_where (\<lambda>g. pg_currency g = c) pg_sumMinor moves"
proof -
  have zero: "sum_list (map closing_of (filter (\<lambda>x. pe_currency x = c) (map P_opening xs))) = 0"
    "sum_list (map movement_of (filter (\<lambda>x. pe_currency x = c) (map P_opening xs))) = 0"
    "sum_list (map opening_of (filter (\<lambda>x. pe_currency x = c) (map P_closing xs))) = 0"
    "sum_list (map movement_of (filter (\<lambda>x. pe_currency x = c) (map P_closing xs))) = 0" for xs
    by (induction xs) simp_all
  have zero': "sum_list (map opening_of (filter (\<lambda>x. pe_currency x = c) (map P_movement xs))) = 0"
    "sum_list (map closing_of (filter (\<lambda>x. pe_currency x = c) (map P_movement xs))) = 0" for xs
    by (induction xs) simp_all
  have own: "sum_list (map opening_of (filter (\<lambda>x. pe_currency x = c) (map P_opening xs))) = sum_where (\<lambda>x. pl_currency x = c) pl_sumMinor xs"
    "sum_list (map closing_of (filter (\<lambda>x. pe_currency x = c) (map P_closing xs))) = sum_where (\<lambda>x. pl_currency x = c) pl_sumMinor xs" for xs
    by (induction xs) simp_all
  have own': "sum_list (map movement_of (filter (\<lambda>x. pe_currency x = c) (map P_movement xs))) = sum_where (\<lambda>g. pg_currency g = c) pg_sumMinor xs" for xs
    by (induction xs) simp_all
  show "sum_list (map opening_of evs) = sum_where (\<lambda>x. pl_currency x = c) pl_sumMinor ops"
    "sum_list (map closing_of evs) = sum_where (\<lambda>x. pl_currency x = c) pl_sumMinor cls"
    "sum_list (map movement_of evs) = sum_where (\<lambda>g. pg_currency g = c) pg_sumMinor moves"
    by (simp_all add: evs_def period_events_def zero zero' own own' del: filter_map)
qed

lemma tie_rows_Inr:
  "tie_rows collate rs = Inr out \<Longrightarrow>
     list_all2 (\<lambda>r r'. \<exists>t. r' = r\<lparr>pc_byType := t\<rparr> \<and> mset t = mset (pc_byType r)) rs out
     \<and> list_all (\<lambda>r. pc_openingMinor r + pc_movementMinor r = pc_closingMinor r) out"
proof (induction collate rs arbitrary: out rule: tie_rows.induct)
  case (2 collate r rs)
  then obtain rest where rest: "tie_rows collate rs = Inr rest" "pc_openingMinor r + pc_movementMinor r = pc_closingMinor r"
    "out = r\<lparr>pc_byType := js_sort (\<lambda>a b. collate (py_type a) (py_type b)) (pc_byType r)\<rparr> # rest"
    by (auto simp: result_simps split: if_splits)
  with 2 show ?case by (auto intro!: exI [of _ "js_sort (\<lambda>a b. collate (py_type a) (py_type b)) (pc_byType r)"])
qed simp

text \<open>
  Period totals are returned only when they tie: every row's opening, movement and closing are the
  exact sums of the currency's balances and groups, opening plus movement is closing, and the totals by
  type add up to the movement. One currency out of balance and no totals are returned at all.
\<close>

theorem period_totals_tie:
  assumes "buildPeriodTotals collate opening movements closing = Inr rows" "r \<in> set rows"
  shows "pc_openingMinor r = sum_where (\<lambda>x. pl_currency x = pc_currency r) pl_sumMinor opening
    \<and> pc_movementMinor r = sum_where (\<lambda>g. pg_currency g = pc_currency r) pg_sumMinor movements
    \<and> pc_closingMinor r = sum_where (\<lambda>x. pl_currency x = pc_currency r) pl_sumMinor closing
    \<and> pc_openingMinor r + pc_movementMinor r = pc_closingMinor r
    \<and> (\<Sum>t\<leftarrow>pc_byType r. py_sumMinor t) = pc_movementMinor r"
proof -
  obtain out where out: "tie_rows collate (omap_values (period_rows opening movements closing)) = Inr out" "r \<in> set out"
    using assms by (auto simp: buildPeriodTotals_def result_simps)
  note tied = tie_rows_Inr [OF out(1)]
  let ?rows = "omap_values (period_rows opening movements closing)"
  obtain k where k: "k < length out" "r = out ! k" using out(2) by (auto simp: in_set_conv_nth)
  have pairs: "list_all2 (\<lambda>r r'. \<exists>t. r' = r\<lparr>pc_byType := t\<rparr> \<and> mset t = mset (pc_byType r)) ?rows out"
    using tied by (rule conjunct1)
  define r0 where "r0 = ?rows ! k"
  have "r0 \<in> set ?rows" unfolding r0_def using k(1) list_all2_lengthD [OF pairs] by simp
  moreover obtain t where "r = r0\<lparr>pc_byType := t\<rparr>" "mset t = mset (pc_byType r0)"
    using list_all2_nthD2 [OF pairs k(1)] unfolding r0_def k(2) by blast
  ultimately have r0: "r0 \<in> set ?rows" "r = r0\<lparr>pc_byType := t\<rparr>" "mset t = mset (pc_byType r0)" by blast+
  obtain c where "(c, r0) \<in> set (period_rows opening movements closing)"
    using r0(1) by (auto simp: omap_values_def)
  then have row: "group_row pe_ini pe_update (filter (\<lambda>x. pe_currency x = c) (period_events opening movements closing)) = Some r0"
    by (simp add: period_rows_group_by in_set_group_by_iff)
  have "pc_currency r0 = c \<and> (\<Sum>t\<leftarrow>pc_byType r0. py_sumMinor t) = pc_movementMinor r0"
  proof (rule group_row_props [OF row])
    show "pc_currency (pe_update s x) = c \<and> (\<Sum>t\<leftarrow>pc_byType (pe_update s x). py_sumMinor t) = pc_movementMinor (pe_update s x)"
      if "pc_currency s = c \<and> (\<Sum>t\<leftarrow>pc_byType s. py_sumMinor t) = pc_movementMinor s" for s x
      using that by (cases x) (simp_all add: pe_defs)
  qed (auto simp: pe_defs)
  moreover have "(\<Sum>t\<leftarrow>t. py_sumMinor t) = (\<Sum>t\<leftarrow>pc_byType r0. py_sumMinor t)"
    using r0(3) by (metis mset_map sum_mset_sum_list)
  moreover have "pc_openingMinor r + pc_movementMinor r = pc_closingMinor r"
    using tied out(2) by (auto simp: list_all_iff)
  ultimately show ?thesis
    using row_opening.row_total [OF row] row_closing.row_total [OF row] row_movement.row_total [OF row]
    by (simp add: r0(2) pe_sums)
qed

lemma period_totals_tie_witness:
  "pc_closingMinor \<lparr>pc_currency = ''AED'', pc_entries = 2, pc_openingMinor = 100, pc_movementMinor = 50, pc_closingMinor = 150,
     pc_byType = [\<lparr>py_type = ''CREDIT'', py_entries = 1, py_sumMinor = 80\<rparr>, \<lparr>py_type = ''HOLD'', py_entries = 1, py_sumMinor = -30\<rparr>]\<rparr>
   = sum_where (\<lambda>x. pl_currency x = ''AED'') pl_sumMinor [\<lparr>pl_currency = ''AED'', pl_sumMinor = 150\<rparr>]"
proof -
  let ?r = "\<lparr>pc_currency = ''AED'', pc_entries = 2, pc_openingMinor = 100, pc_movementMinor = 50, pc_closingMinor = 150,
     pc_byType = [\<lparr>py_type = ''CREDIT'', py_entries = 1, py_sumMinor = 80\<rparr>, \<lparr>py_type = ''HOLD'', py_entries = 1, py_sumMinor = -30\<rparr>]\<rparr>"
  have "buildPeriodTotals cmp_text [\<lparr>pl_currency = ''AED'', pl_sumMinor = 100\<rparr>]
      [\<lparr>pg_currency = ''AED'', pg_type = ''HOLD'', pg_entries = 1, pg_sumMinor = -30\<rparr>,
       \<lparr>pg_currency = ''AED'', pg_type = ''CREDIT'', pg_entries = 1, pg_sumMinor = 80\<rparr>]
      [\<lparr>pl_currency = ''AED'', pl_sumMinor = 150\<rparr>] = Inr [?r]"
    by code_simp
  from period_totals_tie [OF this, of ?r] show ?thesis by simp
qed

end
