(* ===== verification/Ledger_Store.thy ===== *)
theory Ledger_Store
  imports Ledger Money
begin

text \<open>
  The transactional ledger layer (\<open>apps/api/src/ledger/ledger-core.ts\<close>): the ledger table as the list of
  its rows in insertion order, the checked append, and every balance and grouping query the API reads it
  with. A tenant's transaction sees its own rows; times are milliseconds.
\<close>

subsection \<open>Rows and refusals\<close>

record ledger_row =
  lr_id :: string
  lr_tenantId :: string
  lr_walletId :: string
  lr_type :: LedgerEntryKind
  lr_amountMinor :: int
  lr_currency :: string
  lr_idempotencyKey :: string
  lr_reference :: "string option"
  lr_immutableAt :: int

record LedgerAppend =
  la_tenantId :: string
  la_walletId :: string
  la_type :: LedgerEntryKind
  la_amountMinor :: int
  la_currency :: string
  la_idempotencyKey :: string
  la_reference :: "string option"

definition assertValidAppend :: "LedgerAppend \<Rightarrow> unit http" where
  "assertValidAppend i =
     (if trim (la_idempotencyKey i) = [] then Inl (BadRequest ''Ledger idempotency key is required'')
      else if \<not> iso_alpha (la_currency i) then Inl (BadRequest ''Ledger currency must be an ISO-4217 alpha code'')
      else case assertLedgerSign (la_type i) (la_amountMinor i) of
             Inl (Error m) \<Rightarrow> Inl (BadRequest m)
           | Inl (RangeError m) \<Rightarrow> Inl (BadRequest m)
           | Inr _ \<Rightarrow> Inr ())"

text \<open>The row the database stores: the id and the time are its own.\<close>

definition append_row :: "string \<Rightarrow> int \<Rightarrow> LedgerAppend \<Rightarrow> ledger_row" where
  "append_row rid at i = \<lparr>lr_id = rid, lr_tenantId = la_tenantId i, lr_walletId = la_walletId i, lr_type = la_type i,
     lr_amountMinor = la_amountMinor i, lr_currency = la_currency i, lr_idempotencyKey = la_idempotencyKey i,
     lr_reference = la_reference i, lr_immutableAt = at\<rparr>"

definition appendLedgerEntry :: "string \<Rightarrow> int \<Rightarrow> LedgerAppend \<Rightarrow> ledger_row list \<Rightarrow> (ledger_row list \<times> ledger_row) http" where
  "appendLedgerEntry rid at i rows =
     ebind (assertValidAppend i) (\<lambda>_. let row = append_row rid at i in Inr (rows @ [row], row))"

subsection \<open>Balances and groupings\<close>

definition walletBalanceMinor :: "ledger_row list \<Rightarrow> string \<Rightarrow> string \<Rightarrow> string option \<Rightarrow> int" where
  "walletBalanceMinor rows tenantId walletId cur =
     sum_where (\<lambda>r. lr_tenantId r = tenantId \<and> lr_walletId r = walletId \<and> (case cur of None \<Rightarrow> True | Some c \<Rightarrow> lr_currency r = c))
       lr_amountMinor rows"

definition referenceSumMinor :: "ledger_row list \<Rightarrow> string \<Rightarrow> string \<Rightarrow> string \<Rightarrow> LedgerEntryKind \<Rightarrow> int" where
  "referenceSumMinor rows tenantId walletId reference type =
     sum_where (\<lambda>r. lr_tenantId r = tenantId \<and> lr_walletId r = walletId \<and> lr_reference r = Some reference \<and> lr_type r = type)
       lr_amountMinor rows"

record WalletTotals =
  wt_balanceMinor :: int
  wt_entryCount :: nat
  wt_lastEntryAt :: "int option"

definition new_totals :: WalletTotals where
  "new_totals = \<lparr>wt_balanceMinor = 0, wt_entryCount = 0, wt_lastEntryAt = None\<rparr>"

definition add_totals :: "WalletTotals \<Rightarrow> ledger_row \<Rightarrow> WalletTotals" where
  "add_totals t r = \<lparr>wt_balanceMinor = wt_balanceMinor t + lr_amountMinor r, wt_entryCount = wt_entryCount t + 1,
     wt_lastEntryAt = Some (case wt_lastEntryAt t of None \<Rightarrow> lr_immutableAt r | Some a \<Rightarrow> max a (lr_immutableAt r))\<rparr>"

definition walletTotals :: "ledger_row list \<Rightarrow> string \<Rightarrow> string list option \<Rightarrow> (string, WalletTotals) omap" where
  "walletTotals rows tenantId walletIds =
     (if walletIds = Some [] then []
      else group_by lr_walletId (\<lambda>_. new_totals) add_totals
             (filter (\<lambda>r. lr_tenantId r = tenantId \<and> (case walletIds of None \<Rightarrow> True | Some ids \<Rightarrow> lr_walletId r \<in> set ids)) rows))"

definition totalsOf :: "(string, WalletTotals) omap \<Rightarrow> string \<Rightarrow> WalletTotals" where
  "totalsOf totals walletId = omap_getd (\<lambda>_. new_totals) totals walletId"

record LedgerWindowGroup =
  lg_currency :: string
  lg_type :: LedgerEntryKind
  lg_sumMinor :: int
  lg_entries :: nat

definition new_window_group :: "ledger_row \<Rightarrow> LedgerWindowGroup" where
  "new_window_group r = \<lparr>lg_currency = lr_currency r, lg_type = lr_type r, lg_sumMinor = 0, lg_entries = 0\<rparr>"

definition add_window_row :: "LedgerWindowGroup \<Rightarrow> ledger_row \<Rightarrow> LedgerWindowGroup" where
  "add_window_row g r = g\<lparr>lg_sumMinor := lg_sumMinor g + lr_amountMinor r, lg_entries := lg_entries g + 1\<rparr>"

definition grouped_by_type :: "ledger_row list \<Rightarrow> LedgerWindowGroup list" where
  "grouped_by_type rows = omap_values (group_by (\<lambda>r. (lr_currency r, lr_type r)) new_window_group add_window_row rows)"

definition ledgerWindowGroups :: "ledger_row list \<Rightarrow> string \<Rightarrow> int \<Rightarrow> int \<Rightarrow> LedgerWindowGroup list" where
  "ledgerWindowGroups rows tenantId from_at to_at =
     grouped_by_type (filter (\<lambda>r. lr_tenantId r = tenantId \<and> from_at \<le> lr_immutableAt r \<and> lr_immutableAt r \<le> to_at) rows)"

definition ledgerBalancesBefore :: "ledger_row list \<Rightarrow> string \<Rightarrow> int \<Rightarrow> (string, int) omap" where
  "ledgerBalancesBefore rows tenantId before =
     group_by lr_currency (\<lambda>_. 0) (\<lambda>s r. s + lr_amountMinor r)
       (filter (\<lambda>r. lr_tenantId r = tenantId \<and> lr_immutableAt r < before) rows)"

definition ledgerRangeGroups :: "ledger_row list \<Rightarrow> string \<Rightarrow> int \<Rightarrow> int \<Rightarrow> LedgerWindowGroup list" where
  "ledgerRangeGroups rows tenantId from_at end_at =
     grouped_by_type (filter (\<lambda>r. lr_tenantId r = tenantId \<and> from_at \<le> lr_immutableAt r \<and> lr_immutableAt r < end_at) rows)"

subsection \<open>Folding a range in pages\<close>

definition LEDGER_FOLD_ENTRY_LIMIT :: nat where
  "LEDGER_FOLD_ENTRY_LIMIT = 500000"

definition FOLD_PAGE :: nat where
  "FOLD_PAGE = 2000"

definition range_rows :: "ledger_row list \<Rightarrow> string \<Rightarrow> int \<Rightarrow> int \<Rightarrow> ledger_row list" where
  "range_rows rows tenantId from_at end_at =
     js_sort (\<lambda>a b. cmp_text (lr_id a) (lr_id b))
       (filter (\<lambda>r. lr_tenantId r = tenantId \<and> from_at \<le> lr_immutableAt r \<and> lr_immutableAt r < end_at) rows)"

text \<open>A page of the rows after the cursor's row.\<close>

definition find_page :: "nat \<Rightarrow> ledger_row list \<Rightarrow> string option \<Rightarrow> ledger_row list" where
  "find_page page rows cursor =
     take page (case cursor of None \<Rightarrow> rows | Some c \<Rightarrow> tl (dropWhile (\<lambda>r. lr_id r \<noteq> c) rows))"

fun visit_page :: "('s \<Rightarrow> ledger_row \<Rightarrow> 's) \<Rightarrow> nat \<Rightarrow> nat \<Rightarrow> ledger_row list \<Rightarrow> 's \<Rightarrow> 's \<times> nat \<times> bool" where
  "visit_page visit limit seen [] s = (s, seen, False)"
| "visit_page visit limit seen (r # rs) s =
     (if seen \<ge> limit then (s, seen, True) else visit_page visit limit (seen + 1) rs (visit s r))"

text \<open>The page loop, with the number of pages it may read as fuel; a loop that does not end is \<open>None\<close>.\<close>

fun fold_pages ::
  "nat \<Rightarrow> ('s \<Rightarrow> ledger_row \<Rightarrow> 's) \<Rightarrow> nat \<Rightarrow> nat \<Rightarrow> ledger_row list \<Rightarrow> string option \<Rightarrow> nat \<Rightarrow> 's \<Rightarrow> ('s \<times> bool) option" where
  "fold_pages 0 visit page limit rows cursor seen s = None"
| "fold_pages (Suc fuel) visit page limit rows cursor seen s =
     (let p = find_page page rows cursor in
      case visit_page visit limit seen p s of
        (s', seen', capped) \<Rightarrow>
          if capped then Some (s', True)
          else if length p < page then Some (s', False)
          else fold_pages fuel visit page limit rows (Some (lr_id (last p))) seen' s')"

definition foldLedgerRange ::
  "nat \<Rightarrow> ledger_row list \<Rightarrow> string \<Rightarrow> int \<Rightarrow> int \<Rightarrow> ('s \<Rightarrow> ledger_row \<Rightarrow> 's) \<Rightarrow> nat \<Rightarrow> 's \<Rightarrow> ('s \<times> bool) option" where
  "foldLedgerRange fuel rows tenantId from_at end_at visit limit s =
     fold_pages fuel visit FOLD_PAGE limit (range_rows rows tenantId from_at end_at) None 0 s"

subsection \<open>Lemmas\<close>

lemma assertValidAppend_iff:
  "assertValidAppend i = Inr () \<longleftrightarrow> trim (la_idempotencyKey i) \<noteq> [] \<and> iso_alpha (la_currency i)
     \<and> isLedgerSignValid (la_type i) (la_amountMinor i)"
proof (cases "assertLedgerSign (la_type i) (la_amountMinor i)")
  case (Inl e)
  then show ?thesis
    using assertLedgerSign_iff [of "la_type i" "la_amountMinor i"] by (cases e) (simp_all add: assertValidAppend_def)
next
  case (Inr u)
  then show ?thesis
    using assertLedgerSign_iff [of "la_type i" "la_amountMinor i"] by (simp add: assertValidAppend_def)
qed

lemma appendLedgerEntry_Inr:
  "appendLedgerEntry rid at i rows = Inr (rows', row) \<longleftrightarrow>
     assertValidAppend i = Inr () \<and> row = append_row rid at i \<and> rows' = rows @ [row]"
  by (auto simp: appendLedgerEntry_def result_simps Let_def)

lemma append_row_sel [simp]:
  "lr_tenantId (append_row rid at i) = la_tenantId i" "lr_walletId (append_row rid at i) = la_walletId i"
  "lr_type (append_row rid at i) = la_type i" "lr_amountMinor (append_row rid at i) = la_amountMinor i"
  "lr_currency (append_row rid at i) = la_currency i" "lr_idempotencyKey (append_row rid at i) = la_idempotencyKey i"
  "lr_reference (append_row rid at i) = la_reference i" "lr_immutableAt (append_row rid at i) = at"
  by (simp_all add: append_row_def)

lemma visit_page_eq:
  "seen \<le> limit \<Longrightarrow> visit_page visit limit seen p s =
     (foldl visit s (take (limit - seen) p), min limit (seen + length p), seen + length p > limit)"
proof (induction visit limit seen p s rule: visit_page.induct)
  case (2 visit limit seen r rs s)
  show ?case
  proof (cases "seen \<ge> limit")
    case True
    with 2 show ?thesis by simp
  next
    case False
    then have "limit - seen = Suc (limit - Suc seen)" by simp
    with 2 False show ?thesis by simp
  qed
qed simp

lemma find_page_after:
  assumes "distinct (map lr_id (xs @ ys))"
  shows "find_page page (xs @ ys) (if xs = [] then None else Some (lr_id (last xs))) = take page ys"
proof (cases xs rule: rev_cases)
  case Nil
  then show ?thesis by (simp add: find_page_def)
next
  case (snoc zs x)
  then have "\<forall>r \<in> set zs. lr_id r \<noteq> lr_id x" using assms by (auto simp: image_iff)
  then have "dropWhile (\<lambda>r. lr_id r \<noteq> lr_id x) (zs @ x # ys) = x # ys"
    by (subst dropWhile_append2) auto
  then show ?thesis using snoc by (simp add: find_page_def)
qed

lemma fold_pages_eq:
  assumes "distinct (map lr_id (xs @ ys))" "0 < page" "length xs \<le> limit" "length ys div page < fuel"
  shows "fold_pages fuel visit page limit (xs @ ys) (if xs = [] then None else Some (lr_id (last xs))) (length xs) s =
    Some (foldl visit s (take (limit - length xs) ys), length xs + length ys > limit)"
  using assms
proof (induction fuel arbitrary: xs ys s)
  case 0
  then show ?case by simp
next
  case (Suc fuel)
  let ?p = "take page ys"
  have page: "find_page page (xs @ ys) (if xs = [] then None else Some (lr_id (last xs))) = ?p"
    using Suc.prems(1) by (rule find_page_after)
  note visited = visit_page_eq [OF Suc.prems(3), of visit ?p s]
  show ?case
  proof (cases "length xs + length ?p > limit")
    case True
    then have "limit - length xs \<le> page" "length xs + length ys > limit" by auto
    with True show ?thesis by (simp add: page visited min_absorb1 del: length_take)
  next
    case small: False
    show ?thesis
    proof (cases "length ys < page")
      case True
      with small show ?thesis by (simp add: page visit_page_eq [OF Suc.prems(3)])
    next
      case False
      let ?xs = "xs @ ?p" and ?ys = "drop page ys"
      have p: "?p \<noteq> []" "length ?p = page" using False Suc.prems(2) by auto
      have "length ?ys div page < fuel"
        using Suc.prems(2,4) False by (simp add: le_div_geq)
      then have "fold_pages fuel visit page limit (?xs @ ?ys) (if ?xs = [] then None else Some (lr_id (last ?xs))) (length ?xs)
          (foldl visit s ?p) =
        Some (foldl visit (foldl visit s ?p) (take (limit - length ?xs) ?ys), length ?xs + length ?ys > limit)"
        using Suc.prems(1,2) small by (intro Suc.IH) auto
      moreover have "foldl visit (foldl visit s ?p) (take (limit - length ?xs) ?ys) = foldl visit s (take (limit - length xs) ys)"
      proof -
        have "take (limit - length xs) ys = ?p @ take (limit - length xs - page) ?ys"
          using p small take_add [of page "limit - length xs - page" ys] by simp
        then show ?thesis using p by (simp add: diff_diff_left)
      qed
      moreover have "take (limit - length xs) ?p = ?p" using small by (intro take_all) simp
      ultimately show ?thesis
        using False small p by (simp add: page visited) 
    qed
  qed
qed

lemma distinct_range_rows: "distinct (map lr_id rows) \<Longrightarrow> distinct (map lr_id (range_rows rows tenantId a b))"
  by (simp add: range_rows_def distinct_map_filter)

text \<open>
  C38. The paged fold ends and visits every row once: with the rows' ids distinct, whatever the number of
  pages, it returns the fold over the rows of the range in id order up to the limit, and says capped
  exactly when the range holds more rows than the limit; no row is skipped or repeated at a page boundary.
\<close>

theorem foldLedgerRange_complete:
  assumes "distinct (map lr_id rows)" and "length (range_rows rows tenantId a b) < fuel"
  shows "foldLedgerRange fuel rows tenantId a b visit limit s =
    Some (foldl visit s (take limit (range_rows rows tenantId a b)), length (range_rows rows tenantId a b) > limit)"
proof -
  have "length (range_rows rows tenantId a b) div FOLD_PAGE < fuel"
    using assms(2) div_le_dividend [of "length (range_rows rows tenantId a b)" FOLD_PAGE] by linarith
  then show ?thesis
    using fold_pages_eq [of "[]" "range_rows rows tenantId a b" FOLD_PAGE limit fuel visit s] distinct_range_rows [OF assms(1)]
    by (simp add: foldLedgerRange_def FOLD_PAGE_def)
qed

definition sample_row :: "string \<Rightarrow> int \<Rightarrow> ledger_row" where
  "sample_row rid amount = \<lparr>lr_id = rid, lr_tenantId = ''t1'', lr_walletId = ''w1'', lr_type = ''CREDIT'', lr_amountMinor = amount,
     lr_currency = ''AED'', lr_idempotencyKey = rid, lr_reference = None, lr_immutableAt = 5\<rparr>"

lemma foldLedgerRange_complete_witness:
  "foldLedgerRange 4 [sample_row ''b'' 2, sample_row ''a'' 1, sample_row ''c'' 3] ''t1'' 0 10 (\<lambda>ids r. ids @ [lr_id r]) 2 [] =
     Some ([''a'', ''b''], True)"
proof -
  let ?rows = "[sample_row ''b'' 2, sample_row ''a'' 1, sample_row ''c'' 3]"
  have "distinct (map lr_id ?rows)" and range: "range_rows ?rows ''t1'' 0 10 = [sample_row ''a'' 1, sample_row ''b'' 2, sample_row ''c'' 3]"
    by code_simp+
  then show ?thesis
    by (subst foldLedgerRange_complete) (simp_all add: numeral_eq_Suc, simp_all add: sample_row_def)
qed

end
