(* ===== verification/Period_Close.thy ===== *)
theory Period_Close
  imports Finance_Period Ledger_Store
begin

text \<open>
  Closing a finance period (\<open>apps/api/src/finance-periods/finance-period.service.ts\<close>): the state a close is
  decided on, the control totals read from the ledger in the closing transaction, and the stored close.
  Months are closed and entries appended in any order; an entry that commits late is dated at most the
  grace period before now.
\<close>

subsection \<open>State\<close>

record FinancePeriodClose =
  fc_start :: int
  fc_end :: int
  fc_verdict :: Verdict
  fc_totals :: "PeriodCurrencyTotals list"
  fc_note :: "string option"
  fc_closedById :: string

record fp_state =
  fs_now :: int
  fs_rows :: "ledger_row list"
  fs_closes :: "FinancePeriodClose list"

definition is_control :: "char \<Rightarrow> bool" where
  "is_control c \<longleftrightarrow> char_code c \<le> 31 \<or> char_code c = 127"

definition rangeOf :: "string \<Rightarrow> PeriodRange http" where
  "rangeOf month =
     (case monthRange (trim month) of
        None \<Rightarrow> Inl (BadRequest ''month must be a calendar month written YYYY-MM'')
      | Some r \<Rightarrow> Inr r)"

definition period_balance :: "string \<times> int \<Rightarrow> PeriodBalance" where
  "period_balance x = \<lparr>pl_currency = fst x, pl_sumMinor = snd x\<rparr>"

definition period_group :: "LedgerWindowGroup \<Rightarrow> PeriodGroup" where
  "period_group g = \<lparr>pg_currency = lg_currency g, pg_type = lg_type g, pg_entries = int (lg_entries g), pg_sumMinor = lg_sumMinor g\<rparr>"

definition totals :: "(string \<Rightarrow> string \<Rightarrow> int) \<Rightarrow> ledger_row list \<Rightarrow> string \<Rightarrow> int \<Rightarrow> int \<Rightarrow> PeriodCurrencyTotals list result" where
  "totals collate rows tenantId start_at end_at =
     buildPeriodTotals collate
       (map period_balance (ledgerBalancesBefore rows tenantId start_at))
       (map period_group (ledgerRangeGroups rows tenantId start_at end_at))
       (map period_balance (ledgerBalancesBefore rows tenantId end_at))"

definition lastClosedEnd :: "fp_state \<Rightarrow> int option" where
  "lastClosedEnd s = (case map fc_end (fs_closes s) of [] \<Rightarrow> None | x # xs \<Rightarrow> Some (foldl max x xs))"

definition earliestEntryAt :: "fp_state \<Rightarrow> string \<Rightarrow> int option" where
  "earliestEntryAt s tenantId =
     (case map lr_immutableAt (filter (\<lambda>r. lr_tenantId r = tenantId) (fs_rows s)) of [] \<Rightarrow> None | x # xs \<Rightarrow> Some (foldl min x xs))"

definition close_input :: "fp_state \<Rightarrow> string \<Rightarrow> PeriodRange \<Rightarrow> Verdict \<Rightarrow> PeriodBlockerInput" where
  "close_input s tenantId rng verdict = \<lparr>pb_range = rng, pb_now = fs_now s,
     pb_alreadyClosed = list_ex (\<lambda>c. fc_start c = pr_start rng) (fs_closes s), pb_lastClosedEnd = lastClosedEnd s,
     pb_earliestEntryAt = earliestEntryAt s tenantId, pb_verdict = verdict\<rparr>"

fun blocker_text :: "PeriodBlocker \<Rightarrow> string" where
  "blocker_text PERIOD_NOT_ENDED = ''PERIOD_NOT_ENDED''"
| "blocker_text PERIOD_ALREADY_CLOSED = ''PERIOD_ALREADY_CLOSED''"
| "blocker_text PERIOD_NOT_NEXT = ''PERIOD_NOT_NEXT''"
| "blocker_text INTEGRITY_ISSUES = ''INTEGRITY_ISSUES''"
| "blocker_text INTEGRITY_INCOMPLETE = ''INTEGRITY_INCOMPLETE''"

fun blockers_text :: "PeriodBlocker list \<Rightarrow> string" where
  "blockers_text [] = []"
| "blockers_text [b] = blocker_text b"
| "blockers_text (b # bs) = blocker_text b @ '', '' @ blockers_text bs"

definition note_ok :: "string option \<Rightarrow> bool" where
  "note_ok note = (case note of None \<Rightarrow> True | Some n \<Rightarrow> 3 \<le> length n \<and> length n \<le> 500 \<and> \<not> list_ex is_control n)"

definition close ::
  "(string \<Rightarrow> string \<Rightarrow> int) \<Rightarrow> bool \<Rightarrow> fp_state \<Rightarrow> string \<Rightarrow> string \<Rightarrow> string \<Rightarrow> string option \<Rightarrow> Verdict \<Rightarrow> fp_state http" where
  "close collate enabled s tenantId userId month note verdict =
     (if \<not> enabled then Inl (ServiceUnavailable ''Finance period close is not enabled on this deployment.'')
      else ebind (rangeOf month) (\<lambda>rng.
        let note' = map_option trim note in
        if \<not> note_ok note' then Inl (BadRequest ''note must be 3 to 500 printable characters'')
        else if verdict = ISSUES then Inl (Conflict ''The ledger integrity report is ISSUES; resolve it before closing a period.'')
        else if verdict = INCOMPLETE then Inl (Conflict ''The ledger integrity report is INCOMPLETE; resolve it before closing a period.'')
        else
          let blockers = periodBlockers (close_input s tenantId rng verdict) in
          if blockers \<noteq> [] then Inl (Conflict (''This month cannot be closed: '' @ blockers_text blockers))
          else case totals collate (fs_rows s) tenantId (pr_start rng) (pr_end rng) of
                 Inl _ \<Rightarrow> Inl (Conflict ''The ledger changed while the period was being closed; try again.'')
               | Inr t \<Rightarrow> Inr (s\<lparr>fs_closes := fs_closes s @
                   [\<lparr>fc_start = pr_start rng, fc_end = pr_end rng, fc_verdict = verdict, fc_totals = t, fc_note = note',
                     fc_closedById = userId\<rparr>]\<rparr>)))"

subsection \<open>Steps\<close>

text \<open>
  The ledger of one tenant: time passes, an entry is appended dated within the grace period before now,
  a month is closed.
\<close>

definition grace_ms :: int where
  "grace_ms = PERIOD_CLOSE_GRACE_MINUTES * 60000"

inductive fp_step :: "(string \<Rightarrow> string \<Rightarrow> int) \<Rightarrow> string \<Rightarrow> fp_state \<Rightarrow> fp_state \<Rightarrow> bool" for collate tenantId where
  tick: "fs_now s \<le> t \<Longrightarrow> fp_step collate tenantId s (s\<lparr>fs_now := t\<rparr>)"
| append: "fs_now s - grace_ms < lr_immutableAt r \<Longrightarrow> fp_step collate tenantId s (s\<lparr>fs_rows := fs_rows s @ [r]\<rparr>)"
| closed: "close collate enabled s tenantId userId month note verdict = Inr s' \<Longrightarrow> fp_step collate tenantId s s'"

inductive_cases fp_stepE: "fp_step collate tenantId s s'"

fun contiguous :: "FinancePeriodClose list \<Rightarrow> bool" where
  "contiguous [] = True"
| "contiguous [c] = True"
| "contiguous (c # d # cs) = (fc_start d = fc_end c \<and> contiguous (d # cs))"

definition fp_inv :: "(string \<Rightarrow> string \<Rightarrow> int) \<Rightarrow> string \<Rightarrow> fp_state \<Rightarrow> bool" where
  "fp_inv collate tenantId s \<longleftrightarrow> contiguous (fs_closes s)
     \<and> list_all (\<lambda>c. fc_start c \<le> fc_end c \<and> fc_end c \<le> fs_now s - grace_ms \<and> fc_verdict c \<in> {CLEAN, WARNINGS}
          \<and> totals collate (fs_rows s) tenantId (fc_start c) (fc_end c) = Inr (fc_totals c)) (fs_closes s)"

lemma close_Inr:
  assumes "close collate enabled s tenantId userId month note verdict = Inr s'"
  shows "\<exists>rng t n. monthRange (trim month) = Some rng \<and> verdict \<in> {CLEAN, WARNINGS}
    \<and> periodBlockers (close_input s tenantId rng verdict) = []
    \<and> totals collate (fs_rows s) tenantId (pr_start rng) (pr_end rng) = Inr t
    \<and> s' = s\<lparr>fs_closes := fs_closes s @ [\<lparr>fc_start = pr_start rng, fc_end = pr_end rng, fc_verdict = verdict,
        fc_totals = t, fc_note = n, fc_closedById = userId\<rparr>]\<rparr>"
  using assms
  by (cases verdict) (auto simp: close_def rangeOf_def Let_def result_simps split: if_splits option.splits sum.splits)

lemma totals_append:
  assumes "end_at \<le> lr_immutableAt r" "start_at \<le> end_at"
  shows "totals collate (rows @ [r]) tenantId start_at end_at = totals collate rows tenantId start_at end_at"
  using assms by (simp add: totals_def ledgerBalancesBefore_def ledgerRangeGroups_def)

lemma contiguous_snoc: "contiguous (cs @ [c]) \<longleftrightarrow> contiguous cs \<and> (cs = [] \<or> fc_start c = fc_end (last cs))"
  by (induction cs rule: contiguous.induct) auto

lemma contiguous_last_max:
  "contiguous cs \<Longrightarrow> list_all (\<lambda>c. fc_start c \<le> fc_end c) cs \<Longrightarrow> x \<in> set cs \<Longrightarrow> fc_end x \<le> fc_end (last cs)"
proof (induction cs arbitrary: x rule: contiguous.induct)
  case (3 c d cs)
  have rest: "fc_end y \<le> fc_end (last (d # cs))" if "y \<in> set (d # cs)" for y using 3 that by simp
  have "fc_end c \<le> fc_end d" using "3.prems" by simp
  also have "\<dots> \<le> fc_end (last (d # cs))" by (rule rest) simp
  finally show ?case using rest [of x] "3.prems"(3) by auto
qed simp_all

lemma foldl_max_start: "x \<le> foldl max x (xs :: int list)"
proof (induction xs arbitrary: x)
  case (Cons a xs)
  have "x \<le> max x a" by simp
  also have "\<dots> \<le> foldl max (max x a) xs" by (rule Cons.IH)
  finally show ?case by simp
qed simp

lemma foldl_max_ge: "y \<in> insert x (set xs) \<Longrightarrow> y \<le> foldl max x (xs :: int list)"
proof (induction xs arbitrary: x)
  case (Cons a xs)
  show ?case
  proof (cases "y \<in> set xs")
    case True
    with Cons.IH [of "max x a"] show ?thesis by simp
  next
    case False
    with Cons.prems have "y \<le> max x a" by auto
    also have "\<dots> \<le> foldl max (max x a) xs" by (rule foldl_max_start)
    finally show ?thesis by simp
  qed
qed simp

lemma foldl_max_in: "foldl max x (xs :: int list) \<in> insert x (set xs)"
  by (induction xs arbitrary: x) (auto simp: max_def)

lemma lastClosedEnd_eq:
  assumes "fp_inv collate tenantId s" "fs_closes s \<noteq> []"
  shows "lastClosedEnd s = Some (fc_end (last (fs_closes s)))"
proof -
  obtain c cs where cs: "fs_closes s = c # cs" using assms(2) by (cases "fs_closes s") auto
  let ?m = "foldl max (fc_end c) (map fc_end cs)"
  have "\<forall>d \<in> set (fs_closes s). fc_end d \<le> fc_end (last (fs_closes s))"
    using assms(1) by (auto simp: fp_inv_def list_all_iff intro!: contiguous_last_max)
  moreover have "?m \<in> fc_end ` set (fs_closes s)" using foldl_max_in [of "fc_end c" "map fc_end cs"] by (auto simp: cs)
  moreover have "fc_end (last (fs_closes s)) \<le> ?m"
    using last_in_set [of "c # cs"] by (intro foldl_max_ge) (auto simp: cs)
  ultimately have "?m = fc_end (last (fs_closes s))" by force
  then show ?thesis by (simp add: lastClosedEnd_def cs)
qed

lemma march_after_february: "day_of year 2 1 \<le> day_of year 3 1"
proof -
  define q k where "q = year div 400" and "k = year mod 400"
  have year: "year = 400 * q + k" and k: "0 \<le> k" "k < 400" by (simp_all add: q_def k_def)
  have doy: "(153 * (((2 :: int) + 9) mod 12) + 2) div 5 + 1 - 1 = 337" "(153 * (((3 :: int) + 9) mod 12) + 2) div 5 + 1 - 1 = 0"
    by simp_all
  have now: "day_of year 3 1 = q * 146097 + year_of_era_start k - 719468"
    unfolding day_of_def Let_def doy q_def k_def by simp
  show ?thesis
  proof (cases "k = 0")
    case True
    then have "(year - 1) div 400 = q - 1" "(year - 1) mod 400 = 399"
      using year int_div_pos_eq [of "year - 1" 400 "q - 1" 399] int_mod_pos_eq [of "year - 1" 400 "q - 1" 399] by simp_all
    then have "day_of year 2 1 = (q - 1) * 146097 + year_of_era_start 399 + 337 - 719468"
      unfolding day_of_def Let_def doy by simp
    then show ?thesis by (simp add: now True year_of_era_start_def)
  next
    case False
    then have "(year - 1) div 400 = q" "(year - 1) mod 400 = k - 1"
      using year k int_div_pos_eq [of "year - 1" 400 q "k - 1"] int_mod_pos_eq [of "year - 1" 400 q "k - 1"] by simp_all
    then have before: "day_of year 2 1 = q * 146097 + year_of_era_start (k - 1) + 337 - 719468"
      unfolding day_of_def Let_def doy by simp
    have "year_of_era_start (k - 1) + 337 \<le> year_of_era_start k" using False k era_step(1) [of "k - 1"] by simp
    then show ?thesis by (simp add: now before)
  qed
qed

lemma january_after_december: "day_of year 12 1 \<le> day_of (year + 1) 1 1"
  by (simp add: day_of_def Let_def)

lemma month_order:
  assumes "0 \<le> index" "index \<le> 11"
  shows "utc_month_start year index \<le> utc_month_start year (index + 1)"
proof -
  have "index \<in> {0..11}" using assms by simp
  then have "index \<in> {0, 1, 2, 3, 4, 5, 6, 7, 8, 9, 10, 11}" by (simp only: twelve_months(1))
  then show ?thesis
    using march_after_february [of year] january_after_december [of year]
    by (elim insertE) (simp_all add: utc_month_start_def MS_PER_DAY_def, simp_all add: day_of_def Let_def)
qed

lemma monthRange_order: "monthRange m = Some r \<Longrightarrow> pr_start r \<le> pr_end r"
  using month_order [of "int (nat_of_digits (drop 5 m)) - 1"]
  by (auto simp: monthRange_def month_shape_def Let_def split: if_splits)

lemma fp_step_keeps_inv:
  assumes "fp_step collate tenantId s s'" "fp_inv collate tenantId s"
  shows "fp_inv collate tenantId s'"
  using assms(1)
proof cases
  case (tick t)
  with assms(2) show ?thesis by (auto simp: fp_inv_def list_all_iff)
next
  case (append r)
  with assms(2) show ?thesis by (auto simp: fp_inv_def list_all_iff totals_append)
next
  case (closed enabled userId month text_note verdict)
  obtain rng t n where c: "monthRange (trim month) = Some rng" "verdict \<in> {CLEAN, WARNINGS}"
      "periodBlockers (close_input s tenantId rng verdict) = []"
      "totals collate (fs_rows s) tenantId (pr_start rng) (pr_end rng) = Inr t"
      "s' = s\<lparr>fs_closes := fs_closes s @ [\<lparr>fc_start = pr_start rng, fc_end = pr_end rng, fc_verdict = verdict,
        fc_totals = t, fc_note = n, fc_closedById = userId\<rparr>]\<rparr>"
    using close_Inr [OF closed] by blast
  have "fs_closes s = [] \<or> pr_start rng = fc_end (last (fs_closes s))"
    using c(3) lastClosedEnd_eq [OF assms(2)]
    by (cases "fs_closes s = []") (auto simp: periodBlockers_def close_input_def Let_def split: if_splits)
  moreover have "pr_end rng \<le> fs_now s - grace_ms"
    using c(3) by (auto simp: periodBlockers_def close_input_def Let_def grace_ms_def split: if_splits)
  ultimately show ?thesis
    using assms(2) c(2,4) monthRange_order [OF c(1)] by (auto simp: c(5) fp_inv_def contiguous_snoc)
qed

text \<open>
  C23. Closed periods are final: however closes, late-committing entries and time interleave, the closed
  months follow each other with no gap or overlap, each ended at least the grace period ago on a clean or
  warning verdict, and the control totals stored for it are still exactly those the ledger gives now, so
  no later entry ever changes a closed month.
\<close>

theorem closed_periods_final:
  assumes "fs_closes s = []" "(fp_step collate tenantId)\<^sup>*\<^sup>* s s'"
  shows "contiguous (fs_closes s')
     \<and> list_all (\<lambda>c. fc_end c \<le> fs_now s' - grace_ms \<and> fc_verdict c \<in> {CLEAN, WARNINGS}
          \<and> totals collate (fs_rows s') tenantId (fc_start c) (fc_end c) = Inr (fc_totals c)) (fs_closes s')"
proof -
  have "fp_inv collate tenantId s" using assms(1) by (simp add: fp_inv_def)
  with assms(2) have "fp_inv collate tenantId s'"
    by (induction rule: rtranclp_induct) (auto intro: fp_step_keeps_inv)
  then show ?thesis by (auto simp: fp_inv_def list_all_iff)
qed

definition sample_books :: fp_state where
  "sample_books = \<lparr>fs_now = day_of 2025 2 1 * MS_PER_DAY + 400000, fs_rows =
     [\<lparr>lr_id = ''e1'', lr_tenantId = ''t1'', lr_walletId = ''w1'', lr_type = ''CREDIT'', lr_amountMinor = 700, lr_currency = ''AED'',
       lr_idempotencyKey = ''k1'', lr_reference = None, lr_immutableAt = day_of 2025 1 20 * MS_PER_DAY\<rparr>], fs_closes = []\<rparr>"

definition sample_closed :: fp_state where
  "sample_closed = (case close cmp_text True sample_books ''t1'' ''u1'' ''2025-01'' None CLEAN of Inr s \<Rightarrow> s | Inl _ \<Rightarrow> sample_books)"

lemma closed_periods_final_witness:
  "map fc_totals (fs_closes sample_closed) = [[\<lparr>pc_currency = ''AED'', pc_entries = 1, pc_openingMinor = 0, pc_movementMinor = 700,
      pc_closingMinor = 700, pc_byType = [\<lparr>py_type = ''CREDIT'', py_entries = 1, py_sumMinor = 700\<rparr>]\<rparr>]]
   \<and> contiguous (fs_closes sample_closed)"
proof
  show "map fc_totals (fs_closes sample_closed) = [[\<lparr>pc_currency = ''AED'', pc_entries = 1, pc_openingMinor = 0, pc_movementMinor = 700,
      pc_closingMinor = 700, pc_byType = [\<lparr>py_type = ''CREDIT'', py_entries = 1, py_sumMinor = 700\<rparr>]\<rparr>]]" by code_simp
  have "returns (close cmp_text True sample_books ''t1'' ''u1'' ''2025-01'' None CLEAN)" by code_simp
  then have "close cmp_text True sample_books ''t1'' ''u1'' ''2025-01'' None CLEAN = Inr sample_closed"
    by (auto simp: sample_closed_def returns_iff)
  then have "(fp_step cmp_text ''t1'')\<^sup>*\<^sup>* sample_books sample_closed" by (intro r_into_rtranclp) (rule closed)
  moreover have "fs_closes sample_books = []" by (simp add: sample_books_def)
  ultimately show "contiguous (fs_closes sample_closed)" using closed_periods_final by blast
qed

end
