(* ===== verification/Wallet_Ledger.thy ===== *)
theory Wallet_Ledger
  imports Ledger_Store
begin

text \<open>
  Posting to the wallets (\<open>apps/api/src/agent/ledger.service.ts\<close>, \<open>apps/api/src/ledger/wallet-lock.ts\<close>,
  \<open>agent/agency-account.ts\<close>, \<open>agent/currency.ts\<close>): the enabled currencies, the credit line of an account,
  the idempotent post with its wallet lock and its race with a concurrent insert, and the direct
  adjustment with its audit trail. A database transaction is a function of the state; a thrown error
  rolls it back. What a transaction reads before it holds a lock may be an earlier state \<open>seen\<close>.
\<close>

subsection \<open>Enabled currencies\<close>

definition SUPPORTED_SETTLEMENT_CURRENCIES :: "string list" where
  "SUPPORTED_SETTLEMENT_CURRENCIES = [''AED'', ''USD'', ''EUR'', ''INR'', ''GBP'', ''SAR'', ''QAR'', ''OMR'', ''KWD'', ''BHD'',
     ''SGD'', ''AUD'', ''CAD'', ''JPY'']"

definition DEFAULT_ENABLED_CURRENCIES :: "string list" where
  "DEFAULT_ENABLED_CURRENCIES = [''AED'']"

definition enabledSettlementCurrencies :: "string option \<Rightarrow> string list http" where
  "enabledSettlementCurrencies env =
     (let raw = (case env of None \<Rightarrow> [] | Some v \<Rightarrow> trim v) in
      if raw = [] then Inr DEFAULT_ENABLED_CURRENCIES
      else let codes = filter (\<lambda>c. c \<noteq> []) (map (\<lambda>c. toUpperCase (trim c)) (split_on (CHR '','') [] raw)) in
           if codes = [] \<or> \<not> distinct codes \<or> list_ex (\<lambda>c. c \<notin> set SUPPORTED_SETTLEMENT_CURRENCIES) codes
           then Inl (ServerError (''SETTLEMENT_CURRENCIES must be a comma-separated list of distinct supported ISO codes ('' @
                  join_text '', '' SUPPORTED_SETTLEMENT_CURRENCIES @ '')''))
           else Inr codes)"

definition assertSupportedSettlementCurrency :: "string option \<Rightarrow> string \<Rightarrow> unit http" where
  "assertSupportedSettlementCurrency env value =
     ebind (enabledSettlementCurrencies env) (\<lambda>codes.
       if value \<notin> set codes then Inl (BadRequest (''Currency is not enabled. Enabled: '' @ join_text '', '' codes @ ''.'')) else Inr ())"

subsection \<open>The state\<close>

record wallet_row =
  wa_id :: string
  wa_tenantId :: string
  wa_agencyId :: "string option"
  wa_currency :: string
  wa_creditLimit :: int

record limit_row =
  al_tenantId :: string
  al_agencyId :: string
  al_currency :: string
  al_limitMinor :: int

record audit_event =
  au_tenantId :: string
  au_userId :: string
  au_action :: string
  au_entityType :: string
  au_entityId :: string
  au_code :: "string option"
  au_balanceBefore :: "int option"
  au_balanceAfter :: "int option"

text \<open>The column \<open>cachedBalance\<close> is kept beside the wallets: nothing the code decides reads it.\<close>

record wl_state =
  ws_rows :: "ledger_row list"
  ws_wallets :: "wallet_row list"
  ws_limits :: "limit_row list"
  ws_cachedBalance :: "(string, int) omap"
  ws_audits :: "audit_event list"

definition agencyCreditLineMinor :: "wl_state \<Rightarrow> string \<Rightarrow> string \<Rightarrow> string \<Rightarrow> int" where
  "agencyCreditLineMinor s tenantId agencyId cur =
     (case find (\<lambda>l. al_tenantId l = tenantId \<and> al_agencyId l = agencyId) (ws_limits s) of
        None \<Rightarrow> 0
      | Some l \<Rightarrow> if al_currency l = cur then al_limitMinor l else 0)"

definition agency_account :: "wallet_row \<Rightarrow> bool" where
  "agency_account w \<longleftrightarrow> wa_agencyId w \<noteq> None \<and> wa_agencyId w \<noteq> Some []"

definition accountCreditLineMinor :: "wl_state \<Rightarrow> wallet_row \<Rightarrow> int" where
  "accountCreditLineMinor s w =
     (if agency_account w then agencyCreditLineMinor s (wa_tenantId w) (the (wa_agencyId w)) (wa_currency w) else wa_creditLimit w)"

definition find_wallet :: "wl_state \<Rightarrow> string \<Rightarrow> string \<Rightarrow> wallet_row option" where
  "find_wallet s tenantId walletId = find (\<lambda>w. wa_id w = walletId \<and> wa_tenantId w = tenantId) (ws_wallets s)"

definition lockWalletRow :: "wl_state \<Rightarrow> string \<Rightarrow> string \<Rightarrow> unit http" where
  "lockWalletRow s tenantId walletId =
     (if length (filter (\<lambda>w. wa_id w = walletId \<and> wa_tenantId w = tenantId) (ws_wallets s)) \<noteq> 1
      then Inl (Forbidden ''Wallet is unavailable'') else Inr ())"

definition assertSpendableUnderLock :: "wl_state \<Rightarrow> wallet_row \<Rightarrow> int \<Rightarrow> int http" where
  "assertSpendableUnderLock s w amount =
     (let balance = walletBalanceMinor (ws_rows s) (wa_tenantId w) (wa_id w) (Some (wa_currency w));
          line = accountCreditLineMinor s w in
      if \<not> canSpend \<lparr>balanceMinor = balance, creditLineMinor = line, pendingMinor = None\<rparr> amount
      then Inl (Conflict ''Insufficient wallet credit'') else Inr balance)"

subsection \<open>Posting\<close>

definition entry_key :: "ledger_row \<Rightarrow> string \<times> string" where
  "entry_key r = (lr_walletId r, lr_idempotencyKey r)"

definition find_entry :: "ledger_row list \<Rightarrow> string \<Rightarrow> string \<Rightarrow> string \<Rightarrow> ledger_row option" where
  "find_entry rows tenantId walletId key = find (\<lambda>r. lr_walletId r = walletId \<and> lr_idempotencyKey r = key \<and> lr_tenantId r = tenantId) rows"

definition same_intent :: "ledger_row \<Rightarrow> LedgerAppend \<Rightarrow> bool" where
  "same_intent r i \<longleftrightarrow> lr_tenantId r = la_tenantId i \<and> lr_currency r = la_currency i \<and> lr_amountMinor r = la_amountMinor i
     \<and> lr_type r = la_type i \<and> lr_reference r = la_reference i"

definition assertSameIntent :: "ledger_row \<Rightarrow> LedgerAppend \<Rightarrow> unit http" where
  "assertSameIntent existing i =
     (if \<not> same_intent existing i then Inl (Conflict ''Ledger idempotency key was reused with different financial intent'') else Inr ())"

text \<open>
  The insert runs against the state at commit. The unique index on wallet and key refuses a second row;
  the transaction is then rolled back and a new one reads the row that won the race.
\<close>

definition insert_or_raced :: "string \<Rightarrow> int \<Rightarrow> wl_state \<Rightarrow> LedgerAppend \<Rightarrow> (wl_state \<times> ledger_row) http" where
  "insert_or_raced rid at s i =
     (if (la_walletId i, la_idempotencyKey i) \<in> entry_key ` set (ws_rows s) then
        case find_entry (ws_rows s) (la_tenantId i) (la_walletId i) (la_idempotencyKey i) of
          None \<Rightarrow> Inl (ServerError ''P2002'')
        | Some raced \<Rightarrow> ebind (assertSameIntent raced i) (\<lambda>_. Inr (s, raced))
      else ebind (appendLedgerEntry rid at i (ws_rows s)) (\<lambda>(rows, row). Inr (s\<lparr>ws_rows := rows\<rparr>, row)))"

definition post :: "string option \<Rightarrow> string \<Rightarrow> int \<Rightarrow> wl_state \<Rightarrow> wl_state \<Rightarrow> LedgerAppend \<Rightarrow> (wl_state \<times> ledger_row) http" where
  "post env rid at seen s i =
     ebind (assertSupportedSettlementCurrency env (la_currency i)) (\<lambda>_.
     ebind (assertValidAppend i) (\<lambda>_.
       case find_wallet seen (la_tenantId i) (la_walletId i) of
         None \<Rightarrow> Inl (Forbidden ''Wallet is unavailable'')
       | Some w \<Rightarrow>
           if wa_currency w \<noteq> la_currency i then Inl (Conflict ''Wallet currency mismatch'')
           else if la_amountMinor i < 0 then
             ebind (lockWalletRow s (la_tenantId i) (wa_id w)) (\<lambda>_.
               case find_entry (ws_rows s) (la_tenantId i) (la_walletId i) (la_idempotencyKey i) of
                 Some existing \<Rightarrow> ebind (assertSameIntent existing i) (\<lambda>_. Inr (s, existing))
               | None \<Rightarrow> ebind (assertSpendableUnderLock s w (- la_amountMinor i)) (\<lambda>_. insert_or_raced rid at s i))
           else
             case find_entry (ws_rows seen) (la_tenantId i) (la_walletId i) (la_idempotencyKey i) of
               Some existing \<Rightarrow> ebind (assertSameIntent existing i) (\<lambda>_. Inr (s, existing))
             | None \<Rightarrow> insert_or_raced rid at s i))"

subsection \<open>Direct adjustments\<close>

record AdjustmentInput =
  aj_tenantId :: string
  aj_userId :: string
  aj_walletId :: "string option"
  aj_currency :: string
  aj_type :: LedgerEntryKind
  aj_amountMinor :: int
  aj_authorizedRefundableMinor :: "int option"
  aj_reference :: string
  aj_idempotencyKey :: string

record AdjustmentResult =
  ar_entry :: ledger_row
  ar_walletId :: string
  ar_durableBalanceMinor :: int
  ar_creditLimitMinor :: int
  ar_availableCreditMinor :: int

text \<open>A refusal the service audits after the rollback carries a code and the wallet, if one was found.\<close>

datatype refusal =
    Thrown http_error
  | DirectLedgerRefusal http_error string "string option"

definition assertRefundWithinAuthorized :: "int \<Rightarrow> int option \<Rightarrow> string option \<Rightarrow> refusal + unit" where
  "assertRefundWithinAuthorized refund authorized walletId =
     (case authorized of
        None \<Rightarrow> Inr ()
      | Some a \<Rightarrow> if \<not> refundWithin refund a
                   then Inl (DirectLedgerRefusal (BadRequest ''Refund exceeds authorized refundable amount'') ''REFUND_EXCEEDS_AUTHORIZED'' walletId)
                   else Inr ())"

definition lift_thrown :: "'a http \<Rightarrow> refusal + 'a" where
  "lift_thrown r = (case r of Inl e \<Rightarrow> Inl (Thrown e) | Inr x \<Rightarrow> Inr x)"

definition adjustment_append :: "AdjustmentInput \<Rightarrow> string \<Rightarrow> LedgerAppend" where
  "adjustment_append a walletId = \<lparr>la_tenantId = aj_tenantId a, la_walletId = walletId, la_type = aj_type a,
     la_amountMinor = (if aj_type a = ''DEBIT'' then - aj_amountMinor a else aj_amountMinor a), la_currency = aj_currency a,
     la_idempotencyKey = trim (aj_idempotencyKey a), la_reference = Some (trim (aj_reference a))\<rparr>"

definition adjustment_wallet :: "wl_state \<Rightarrow> AdjustmentInput \<Rightarrow> wallet_row option" where
  "adjustment_wallet s a =
     (case aj_walletId a of
        Some wid \<Rightarrow> (if wid = [] then find (\<lambda>w. wa_tenantId w = aj_tenantId a \<and> wa_currency w = aj_currency a) (ws_wallets s)
                     else find_wallet s (aj_tenantId a) wid)
      | None \<Rightarrow> find (\<lambda>w. wa_tenantId w = aj_tenantId a \<and> wa_currency w = aj_currency a) (ws_wallets s))"

definition audit :: "AdjustmentInput \<Rightarrow> string \<Rightarrow> string \<Rightarrow> string \<Rightarrow> string option \<Rightarrow> int option \<Rightarrow> int option \<Rightarrow> audit_event" where
  "audit a action entity entityId code before after = \<lparr>au_tenantId = aj_tenantId a, au_userId = aj_userId a, au_action = action,
     au_entityType = entity, au_entityId = entityId, au_code = code, au_balanceBefore = before, au_balanceAfter = after\<rparr>"

definition adjustment_result :: "ledger_row \<Rightarrow> wallet_row \<Rightarrow> int \<Rightarrow> AdjustmentResult" where
  "adjustment_result entry w balance = \<lparr>ar_entry = entry, ar_walletId = wa_id w, ar_durableBalanceMinor = balance,
     ar_creditLimitMinor = wa_creditLimit w, ar_availableCreditMinor = wa_creditLimit w + balance\<rparr>"

definition replay_adjustment :: "wl_state \<Rightarrow> AdjustmentInput \<Rightarrow> wallet_row \<Rightarrow> ledger_row \<Rightarrow> refusal + (wl_state \<times> AdjustmentResult)" where
  "replay_adjustment s a w existing =
     (case assertSameIntent existing (adjustment_append a (wa_id w)) of
        Inl e \<Rightarrow> Inl (DirectLedgerRefusal e ''IDEMPOTENCY_CONFLICT'' (Some (wa_id w)))
      | Inr _ \<Rightarrow> Inr (s\<lparr>ws_audits := ws_audits s @ [audit a ''finance.ledger.adjustment_replayed'' ''ledger_entry'' (lr_id existing) None None None]\<rparr>,
                      adjustment_result existing w (walletBalanceMinor (ws_rows s) (aj_tenantId a) (wa_id w) (Some (aj_currency a)))))"

definition new_adjustment ::
  "string \<Rightarrow> int \<Rightarrow> wl_state \<Rightarrow> AdjustmentInput \<Rightarrow> wallet_row \<Rightarrow> refusal + (wl_state \<times> AdjustmentResult)" where
  "new_adjustment rid at s a w =
     (let i = adjustment_append a (wa_id w);
          prior = referenceSumMinor (ws_rows s) (aj_tenantId a) (wa_id w) (trim (aj_reference a)) ''REFUND'';
          before = walletBalanceMinor (ws_rows s) (aj_tenantId a) (wa_id w) (Some (aj_currency a)) in
      ebind (if aj_type a = ''REFUND''
             then assertRefundWithinAuthorized (\<bar>prior\<bar> + aj_amountMinor a) (aj_authorizedRefundableMinor a) (Some (wa_id w)) else Inr ()) (\<lambda>_.
      if aj_type a = ''DEBIT'' \<and> wa_creditLimit w + before + la_amountMinor i < 0
      then Inl (DirectLedgerRefusal (Conflict ''Insufficient B2B agency credit limit for debit adjustment'') ''INSUFFICIENT_CREDIT'' (Some (wa_id w)))
      else ebind (lift_thrown (appendLedgerEntry rid at i (ws_rows s))) (\<lambda>(rows, row).
        let after = before + la_amountMinor i in
        Inr (s\<lparr>ws_rows := rows, ws_cachedBalance := omap_put (wa_id w) after (ws_cachedBalance s),
               ws_audits := ws_audits s @ [audit a ''finance.ledger.adjustment_posted'' ''ledger_entry'' (lr_id row) None (Some before) (Some after)]\<rparr>,
             adjustment_result row w after))))"

definition adjust_transaction :: "string \<Rightarrow> int \<Rightarrow> wl_state \<Rightarrow> AdjustmentInput \<Rightarrow> refusal + (wl_state \<times> AdjustmentResult)" where
  "adjust_transaction rid at s a =
     (case adjustment_wallet s a of
        None \<Rightarrow> Inl (DirectLedgerRefusal (Forbidden ''Wallet is unavailable for tenant and currency'') ''WALLET_UNAVAILABLE'' (aj_walletId a))
      | Some w \<Rightarrow>
          if wa_currency w \<noteq> aj_currency a
          then Inl (DirectLedgerRefusal (Conflict ''Wallet currency mismatch'') ''CURRENCY_MISMATCH'' (Some (wa_id w)))
          else ebind (lift_thrown (lockWalletRow s (aj_tenantId a) (wa_id w))) (\<lambda>_.
            case find_entry (ws_rows s) (aj_tenantId a) (wa_id w) (trim (aj_idempotencyKey a)) of
              Some existing \<Rightarrow> replay_adjustment s a w existing
            | None \<Rightarrow> new_adjustment rid at s a w))"

definition recordDirectRefusal :: "wl_state \<Rightarrow> AdjustmentInput \<Rightarrow> string \<Rightarrow> string option \<Rightarrow> wl_state" where
  "recordDirectRefusal s a code walletId = s\<lparr>ws_audits := ws_audits s @
     [audit a ''finance.ledger.adjustment_denied'' (if walletId \<noteq> None \<and> walletId \<noteq> Some [] then ''wallet'' else ''ledger_entry'')
        (case walletId of None \<Rightarrow> aj_currency a | Some w \<Rightarrow> w) (Some code) None None]\<rparr>"

definition postB2BLedgerAdjustment ::
  "string option \<Rightarrow> string \<Rightarrow> int \<Rightarrow> wl_state \<Rightarrow> AdjustmentInput \<Rightarrow> wl_state \<times> AdjustmentResult http" where
  "postB2BLedgerAdjustment env rid at s a =
     (case assertSupportedSettlementCurrency env (aj_currency a) of
        Inl e \<Rightarrow> (s, Inl e)
      | Inr _ \<Rightarrow>
          if trim (aj_idempotencyKey a) = [] \<or> trim (aj_reference a) = []
          then (s, Inl (BadRequest ''Ledger idempotencyKey and reference are required''))
          else if aj_amountMinor a \<le> 0 then (s, Inl (BadRequest ''Adjustment amountMinor must be positive''))
          else
            case ebind (if aj_type a = ''REFUND''
                        then assertRefundWithinAuthorized (aj_amountMinor a) (aj_authorizedRefundableMinor a) (aj_walletId a) else Inr ())
                   (\<lambda>_. adjust_transaction rid at s a) of
              Inr (s', r) \<Rightarrow> (s', Inr r)
            | Inl (Thrown e) \<Rightarrow> (s, Inl e)
            | Inl (DirectLedgerRefusal e code walletId) \<Rightarrow> (recordDirectRefusal s a code walletId, Inl e))"

subsection \<open>Invariant\<close>

definition wallet_balance :: "wl_state \<Rightarrow> wallet_row \<Rightarrow> int" where
  "wallet_balance s w = walletBalanceMinor (ws_rows s) (wa_tenantId w) (wa_id w) (Some (wa_currency w))"

text \<open>What the schema's constraints give: wallet ids are unique, lines are not negative, an agency account has no stored limit.\<close>

definition accounts_ok :: "wl_state \<Rightarrow> bool" where
  "accounts_ok s \<longleftrightarrow> distinct (map wa_id (ws_wallets s)) \<and> list_all (\<lambda>l. 0 \<le> al_limitMinor l) (ws_limits s)
     \<and> list_all (\<lambda>w. 0 \<le> wa_creditLimit w \<and> (agency_account w \<longrightarrow> wa_creditLimit w = 0)) (ws_wallets s)"

definition row_ok :: "wl_state \<Rightarrow> ledger_row \<Rightarrow> bool" where
  "row_ok s r \<longleftrightarrow> isLedgerSignValid (lr_type r) (lr_amountMinor r)
     \<and> (\<exists>w \<in> set (ws_wallets s). wa_id w = lr_walletId r \<and> wa_tenantId w = lr_tenantId r \<and> wa_currency w = lr_currency r)"

definition wl_inv :: "wl_state \<Rightarrow> bool" where
  "wl_inv s \<longleftrightarrow> accounts_ok s \<and> distinct (map entry_key (ws_rows s)) \<and> list_all (row_ok s) (ws_rows s)
     \<and> list_all (\<lambda>w. 0 \<le> wallet_balance s w + accountCreditLineMinor s w) (ws_wallets s)"

text \<open>A state a transaction may have read: the same accounts and a prefix of the rows.\<close>

definition snapshot_of :: "wl_state \<Rightarrow> wl_state \<Rightarrow> bool" where
  "snapshot_of seen s \<longleftrightarrow> ws_wallets seen = ws_wallets s \<and> (\<exists>more. ws_rows s = ws_rows seen @ more)"

inductive wl_step :: "wl_state \<Rightarrow> wl_state \<Rightarrow> bool" where
  posted: "snapshot_of seen s \<Longrightarrow> post env rid at seen s i = Inr (s', row) \<Longrightarrow> wl_step s s'"
| adjusted: "postB2BLedgerAdjustment env rid at s a = (s', r) \<Longrightarrow> wl_step s s'"

inductive_cases wl_stepE: "wl_step s s'"

subsection \<open>What a post does\<close>

lemma find_entry_Some: "find_entry rows t w k = Some r \<Longrightarrow> r \<in> set rows \<and> lr_walletId r = w \<and> lr_idempotencyKey r = k \<and> lr_tenantId r = t"
  by (auto simp: find_entry_def dest: find_SomeD)

lemma find_wallet_Some: "find_wallet s t wid = Some w \<Longrightarrow> w \<in> set (ws_wallets s) \<and> wa_id w = wid \<and> wa_tenantId w = t"
  by (auto simp: find_wallet_def dest: find_SomeD)

lemma assertSameIntent_Inr [simp]: "assertSameIntent r i = Inr u \<longleftrightarrow> same_intent r i"
  by (simp add: assertSameIntent_def)

definition appended :: "string \<Rightarrow> int \<Rightarrow> wl_state \<Rightarrow> LedgerAppend \<Rightarrow> wl_state \<Rightarrow> ledger_row \<Rightarrow> bool" where
  "appended rid at s i s' row \<longleftrightarrow> row = append_row rid at i \<and> s' = s\<lparr>ws_rows := ws_rows s @ [row]\<rparr>
     \<and> (la_walletId i, la_idempotencyKey i) \<notin> entry_key ` set (ws_rows s)"

definition replayed :: "wl_state \<Rightarrow> LedgerAppend \<Rightarrow> wl_state \<Rightarrow> ledger_row \<Rightarrow> bool" where
  "replayed s i s' row \<longleftrightarrow> s' = s \<and> row \<in> set (ws_rows s) \<and> same_intent row i
     \<and> entry_key row = (la_walletId i, la_idempotencyKey i)"

lemma insert_or_raced_Inr:
  "insert_or_raced rid at s i = Inr (s', row) \<Longrightarrow> appended rid at s i s' row \<or> replayed s i s' row"
  by (auto simp: insert_or_raced_def result_simps appendLedgerEntry_Inr appended_def replayed_def entry_key_def
      dest: find_entry_Some split: if_splits option.splits)

lemma find_entry_prefix: "snapshot_of seen s \<Longrightarrow> find_entry (ws_rows seen) t w k = Some r \<Longrightarrow> r \<in> set (ws_rows s)"
  by (auto simp: snapshot_of_def dest: find_entry_Some)

lemma post_Inr:
  assumes "snapshot_of seen s" "post env rid at seen s i = Inr (s', row)"
  shows "assertValidAppend i = Inr () \<and>
    (\<exists>w. find_wallet s (la_tenantId i) (la_walletId i) = Some w \<and> wa_currency w = la_currency i
      \<and> (appended rid at s i s' row \<and> (la_amountMinor i < 0 \<longrightarrow> (\<exists>b. assertSpendableUnderLock s w (- la_amountMinor i) = Inr b))
         \<or> replayed s i s' row))"
proof -
  obtain u w where valid: "assertValidAppend i = Inr u" and w: "find_wallet seen (la_tenantId i) (la_walletId i) = Some w"
    "wa_currency w = la_currency i"
    using assms(2) by (auto simp: post_def result_simps split: option.splits if_splits)
  have same: "find_wallet s = find_wallet seen"
    using assms(1) by (intro ext) (simp add: find_wallet_def snapshot_of_def)
  have "appended rid at s i s' row \<and> (la_amountMinor i < 0 \<longrightarrow> (\<exists>b. assertSpendableUnderLock s w (- la_amountMinor i) = Inr b))
       \<or> replayed s i s' row"
  proof (cases "la_amountMinor i < 0")
    case True
    show ?thesis
    proof (cases "find_entry (ws_rows s) (la_tenantId i) (la_walletId i) (la_idempotencyKey i)")
      case None
      with assms(2) w True show ?thesis
        by (auto simp: post_def result_simps dest!: insert_or_raced_Inr)
    next
      case (Some r)
      with assms(2) w True find_entry_Some [OF Some] show ?thesis
        by (auto simp: post_def result_simps replayed_def entry_key_def)
    qed
  next
    case False
    show ?thesis
    proof (cases "find_entry (ws_rows seen) (la_tenantId i) (la_walletId i) (la_idempotencyKey i)")
      case None
      with assms(2) w False show ?thesis
        by (auto simp: post_def result_simps dest!: insert_or_raced_Inr)
    next
      case (Some r)
      with assms(2) w False find_entry_Some [OF Some] find_entry_prefix [OF assms(1) Some] show ?thesis
        by (auto simp: post_def result_simps replayed_def entry_key_def)
    qed
  qed
  with valid w same show ?thesis by auto
qed

text \<open>
  C32. A post is exactly-once and append-only, also in a race: when it returns a row, that row carries the
  posted intent and is in the ledger afterwards, and either it was appended at the end of the rows with a
  wallet and key no row had, or the state is untouched because the intent was already recorded, whatever
  earlier state the transaction read before it inserted.
\<close>

theorem post_exactly_once:
  assumes "snapshot_of seen s" "post env rid at seen s i = Inr (s', row)" "distinct (map entry_key (ws_rows s))"
  shows "row \<in> set (ws_rows s') \<and> same_intent row i \<and> entry_key row = (la_walletId i, la_idempotencyKey i)
    \<and> distinct (map entry_key (ws_rows s')) \<and> (s' = s \<or> s' = s\<lparr>ws_rows := ws_rows s @ [row]\<rparr>)"
  using post_Inr [OF assms(1,2)] assms(3)
  by (auto simp: appended_def replayed_def same_intent_def entry_key_def image_iff)

subsection \<open>The invariant is kept by every step\<close>

lemma wallet_balance_append:
  "wallet_balance (s\<lparr>ws_rows := ws_rows s @ [row]\<rparr>) w = wallet_balance s w +
     (if lr_tenantId row = wa_tenantId w \<and> lr_walletId row = wa_id w \<and> lr_currency row = wa_currency w then lr_amountMinor row else 0)"
  by (simp add: wallet_balance_def walletBalanceMinor_def)

lemma append_keeps_inv:
  assumes inv: "wl_inv s" and w: "w \<in> set (ws_wallets s)"
    and row: "lr_walletId row = wa_id w" "lr_tenantId row = wa_tenantId w" "lr_currency row = wa_currency w"
      "isLedgerSignValid (lr_type row) (lr_amountMinor row)" "entry_key row \<notin> entry_key ` set (ws_rows s)"
    and spend: "lr_amountMinor row < 0 \<Longrightarrow> 0 \<le> wallet_balance s w + accountCreditLineMinor s w + lr_amountMinor row"
    and s': "ws_rows s' = ws_rows s @ [row]" "ws_wallets s' = ws_wallets s" "ws_limits s' = ws_limits s"
  shows "wl_inv s'"
proof -
  have line: "accountCreditLineMinor s' v = accountCreditLineMinor s v" for v
    by (simp add: accountCreditLineMinor_def agencyCreditLineMinor_def s')
  have balance: "wallet_balance s' v = wallet_balance (s\<lparr>ws_rows := ws_rows s @ [row]\<rparr>) v" for v
    by (simp add: wallet_balance_def s')
  have ids: "v = w" if "v \<in> set (ws_wallets s)" "wa_id v = wa_id w" for v
    using that w inv by (auto simp: wl_inv_def accounts_ok_def distinct_map inj_on_def)
  have "0 \<le> wallet_balance s' v + accountCreditLineMinor s' v" if "v \<in> set (ws_wallets s)" for v
  proof -
    have old: "0 \<le> wallet_balance s v + accountCreditLineMinor s v" using inv that by (simp add: wl_inv_def list_all_iff)
    show ?thesis
    proof (cases "v = w")
      case True
      with row(1-3) have "wallet_balance s' v = wallet_balance s w + lr_amountMinor row"
        by (simp only: balance wallet_balance_append) simp
      then show ?thesis using old spend True unfolding line by (cases "lr_amountMinor row < 0") simp_all
    next
      case False
      then have "lr_walletId row \<noteq> wa_id v" using ids [OF that] row(1) by metis
      then have "wallet_balance s' v = wallet_balance s v" by (simp only: balance wallet_balance_append) simp
      then show ?thesis using old unfolding line by simp
    qed
  qed
  moreover have "list_all (row_ok s') (ws_rows s')"
    using inv w row(1-4) by (auto simp: wl_inv_def row_ok_def list_all_iff s')
  moreover have "accounts_ok s'" using inv by (simp add: wl_inv_def accounts_ok_def s')
  ultimately show ?thesis using inv row(5) by (simp add: wl_inv_def s' list_all_iff)
qed

lemma wl_inv_cong:
  assumes "ws_rows s' = ws_rows s" "ws_wallets s' = ws_wallets s" "ws_limits s' = ws_limits s"
  shows "wl_inv s' = wl_inv s"
proof -
  have "accountCreditLineMinor s' = accountCreditLineMinor s" "wallet_balance s' = wallet_balance s" "row_ok s' = row_ok s"
    "accounts_ok s' = accounts_ok s"
    using assms by (simp_all add: fun_eq_iff accountCreditLineMinor_def agencyCreditLineMinor_def wallet_balance_def row_ok_def accounts_ok_def)
  with assms show ?thesis by (simp add: wl_inv_def)
qed

lemma post_keeps_inv:
  assumes "wl_inv s" "snapshot_of seen s" "post env rid at seen s i = Inr (s', row)"
  shows "wl_inv s'"
proof -
  obtain w where w: "find_wallet s (la_tenantId i) (la_walletId i) = Some w" "wa_currency w = la_currency i"
    and result: "appended rid at s i s' row \<and> (la_amountMinor i < 0 \<longrightarrow> (\<exists>b. assertSpendableUnderLock s w (- la_amountMinor i) = Inr b))
         \<or> replayed s i s' row"
    and valid: "assertValidAppend i = Inr ()"
    using post_Inr [OF assms(2,3)] by blast
  show ?thesis
  proof (cases "replayed s i s' row")
    case True
    with assms(1) show ?thesis by (simp add: replayed_def)
  next
    case False
    with result have app: "appended rid at s i s' row"
      and spend: "la_amountMinor i < 0 \<longrightarrow> (\<exists>b. assertSpendableUnderLock s w (- la_amountMinor i) = Inr b)" by blast+
    have row: "row = append_row rid at i" and s': "s' = s\<lparr>ws_rows := ws_rows s @ [row]\<rparr>"
      and fresh: "(la_walletId i, la_idempotencyKey i) \<notin> entry_key ` set (ws_rows s)"
      using app by (simp_all add: appended_def)
    have member: "w \<in> set (ws_wallets s)" "wa_id w = la_walletId i" "wa_tenantId w = la_tenantId i"
      using find_wallet_Some [OF w(1)] by simp_all
    show ?thesis
    proof (rule append_keeps_inv [OF assms(1) member(1), of row])
      show "0 \<le> wallet_balance s w + accountCreditLineMinor s w + lr_amountMinor row" if "lr_amountMinor row < 0"
        using spend that
        by (auto simp: row assertSpendableUnderLock_def Let_def canSpend_def availableMinor_def wallet_balance_def split: if_splits)
      show "entry_key row \<notin> entry_key ` set (ws_rows s)" using fresh by (simp add: row entry_key_def)
      show "isLedgerSignValid (lr_type row) (lr_amountMinor row)" using valid by (simp add: row assertValidAppend_iff)
    qed (simp_all add: row s' member w(2))
  qed
qed

lemma new_adjustment_Inr:
  assumes "new_adjustment rid at s a w = Inr (s', r)"
  shows "assertValidAppend (adjustment_append a (wa_id w)) = Inr ()
    \<and> ws_rows s' = ws_rows s @ [append_row rid at (adjustment_append a (wa_id w))] \<and> ws_wallets s' = ws_wallets s \<and> ws_limits s' = ws_limits s
    \<and> (aj_type a \<noteq> ''DEBIT'' \<or> 0 \<le> wa_creditLimit w + walletBalanceMinor (ws_rows s) (aj_tenantId a) (wa_id w) (Some (aj_currency a)) - aj_amountMinor a)"
  using assms
  by (auto simp: new_adjustment_def Let_def result_simps lift_thrown_def appendLedgerEntry_Inr adjustment_append_def
      split: if_splits sum.splits prod.splits)

lemma adjustment_wallet_Some:
  "adjustment_wallet s a = Some w \<Longrightarrow> w \<in> set (ws_wallets s) \<and> wa_tenantId w = aj_tenantId a"
  by (auto simp: adjustment_wallet_def dest: find_SomeD find_wallet_Some split: option.splits if_splits)

lemma key_fresh:
  assumes "wl_inv s" "w \<in> set (ws_wallets s)" "find_entry (ws_rows s) (wa_tenantId w) (wa_id w) key = None"
  shows "(wa_id w, key) \<notin> entry_key ` set (ws_rows s)"
proof
  assume "(wa_id w, key) \<in> entry_key ` set (ws_rows s)"
  then obtain r where r: "r \<in> set (ws_rows s)" "lr_walletId r = wa_id w" "lr_idempotencyKey r = key" by (auto simp: entry_key_def)
  then obtain v where v: "v \<in> set (ws_wallets s)" "wa_id v = wa_id w" "wa_tenantId v = lr_tenantId r"
    using assms(1) by (auto simp: wl_inv_def row_ok_def list_all_iff)
  then have "v = w" using assms(1,2) by (auto simp: wl_inv_def accounts_ok_def distinct_map inj_on_def)
  with r v assms(3) show False by (auto simp: find_entry_def find_None_iff)
qed

lemma adjust_transaction_keeps_inv:
  assumes "wl_inv s" "adjust_transaction rid at s a = Inr (s', r)" "0 < aj_amountMinor a"
  shows "wl_inv s'"
proof -
  obtain w where w: "adjustment_wallet s a = Some w" "wa_currency w = aj_currency a"
    using assms(2) by (auto simp: adjust_transaction_def split: option.splits if_splits)
  note wallet = adjustment_wallet_Some [OF w(1)]
  show ?thesis
  proof (cases "find_entry (ws_rows s) (aj_tenantId a) (wa_id w) (trim (aj_idempotencyKey a))")
    case (Some existing)
    with assms(2) w have "replay_adjustment s a w existing = Inr (s', r)"
      by (auto simp: adjust_transaction_def result_simps)
    then have "ws_rows s' = ws_rows s" "ws_wallets s' = ws_wallets s" "ws_limits s' = ws_limits s"
      by (auto simp: replay_adjustment_def split: sum.splits)
    with assms(1) show ?thesis by (simp add: wl_inv_cong [of s' s])
  next
    case None
    with assms(2) w have "new_adjustment rid at s a w = Inr (s', r)"
      by (auto simp: adjust_transaction_def result_simps)
    note new = new_adjustment_Inr [OF this]
    let ?row = "append_row rid at (adjustment_append a (wa_id w))"
    have limit: "wa_creditLimit w \<le> accountCreditLineMinor s w"
    proof (cases "agency_account w")
      case True
      have "0 \<le> agencyCreditLineMinor s t ag c" for t ag c
        using assms(1) by (auto simp: agencyCreditLineMinor_def wl_inv_def accounts_ok_def list_all_iff dest: find_SomeD split: option.split)
      with True wallet assms(1) show ?thesis by (auto simp: accountCreditLineMinor_def wl_inv_def accounts_ok_def list_all_iff)
    next
      case False
      then show ?thesis by (simp add: accountCreditLineMinor_def)
    qed
    show ?thesis
    proof (rule append_keeps_inv [OF assms(1), of w ?row])
      show "0 \<le> wallet_balance s w + accountCreditLineMinor s w + lr_amountMinor ?row" if "lr_amountMinor ?row < 0"
        using that new limit assms(3) wallet w(2) by (auto simp: adjustment_append_def wallet_balance_def split: if_splits)
      show "entry_key ?row \<notin> entry_key ` set (ws_rows s)"
        using key_fresh [OF assms(1), of w "trim (aj_idempotencyKey a)"] None wallet
        by (simp add: entry_key_def adjustment_append_def)
    qed (use new wallet w in \<open>auto simp: assertValidAppend_iff adjustment_append_def split: if_splits\<close>)
  qed
qed

lemma adjustment_keeps_inv:
  assumes "wl_inv s" "postB2BLedgerAdjustment env rid at s a = (s', r)"
  shows "wl_inv s'"
proof -
  have denied: "wl_inv (recordDirectRefusal s a code walletId)" for code walletId
    using assms(1) wl_inv_cong [of "recordDirectRefusal s a code walletId" s] by (simp add: recordDirectRefusal_def)
  show ?thesis
    using assms denied adjust_transaction_keeps_inv [OF assms(1), of rid at a]
    by (auto simp: postB2BLedgerAdjustment_def result_simps not_le split: sum.splits if_splits refusal.splits)
qed

lemma wl_step_keeps_inv: "wl_step s s' \<Longrightarrow> wl_inv s \<Longrightarrow> wl_inv s'"
  by (erule wl_stepE) (blast intro: post_keeps_inv adjustment_keeps_inv)+

text \<open>
  C2. No sequence of posts and adjustments, in any order and with any race between unlocked posts, takes
  an account below its credit line or records an idempotency key twice on a wallet: from a state that
  keeps these rules every reachable state keeps them, with every row signed as its kind demands and
  carrying its wallet's tenant and currency.
\<close>

theorem ledger_never_overdraws:
  assumes "wl_inv s" "wl_step\<^sup>*\<^sup>* s s'"
  shows "list_all (\<lambda>w. 0 \<le> wallet_balance s' w + accountCreditLineMinor s' w) (ws_wallets s')
    \<and> distinct (map entry_key (ws_rows s'))
    \<and> list_all (\<lambda>r. isLedgerSignValid (lr_type r) (lr_amountMinor r)
        \<and> (\<exists>w \<in> set (ws_wallets s'). wa_id w = lr_walletId r \<and> wa_tenantId w = lr_tenantId r \<and> wa_currency w = lr_currency r)) (ws_rows s')"
proof -
  have "wl_inv s'" using assms(2,1) by (induction rule: rtranclp_induct) (auto intro: wl_step_keeps_inv)
  then show ?thesis by (simp add: wl_inv_def row_ok_def [abs_def])
qed

subsection \<open>A wallet to run it on\<close>

definition sample_state :: wl_state where
  "sample_state = \<lparr>ws_rows = [], ws_wallets = [\<lparr>wa_id = ''w1'', wa_tenantId = ''t1'', wa_agencyId = Some ''a1'', wa_currency = ''AED'', wa_creditLimit = 0\<rparr>],
     ws_limits = [\<lparr>al_tenantId = ''t1'', al_agencyId = ''a1'', al_currency = ''AED'', al_limitMinor = 1000\<rparr>], ws_cachedBalance = [], ws_audits = []\<rparr>"

definition sample_append :: "int \<Rightarrow> LedgerAppend" where
  "sample_append amount = \<lparr>la_tenantId = ''t1'', la_walletId = ''w1'', la_type = ''HOLD'', la_amountMinor = amount, la_currency = ''AED'',
     la_idempotencyKey = ''k1'', la_reference = Some ''booking:b1''\<rparr>"

definition sample_posted :: wl_state where
  "sample_posted = sample_state\<lparr>ws_rows := [append_row ''e1'' 5 (sample_append (-900))]\<rparr>"

lemma sample_inv: "wl_inv sample_state"
  by (simp add: wl_inv_def accounts_ok_def sample_state_def agency_account_def wallet_balance_def walletBalanceMinor_def
      accountCreditLineMinor_def agencyCreditLineMinor_def)

lemma sample_post: "post None ''e1'' 5 sample_state sample_state (sample_append (-900)) = Inr (sample_posted, append_row ''e1'' 5 (sample_append (-900)))"
  by code_simp

lemma snapshot_refl: "snapshot_of s s"
  by (simp add: snapshot_of_def)

lemma post_exactly_once_witness:
  "append_row ''e1'' 5 (sample_append (-900)) \<in> set (ws_rows sample_posted) \<and> distinct (map entry_key (ws_rows sample_posted))"
proof -
  have "distinct (map entry_key (ws_rows sample_state))" by (simp add: sample_state_def)
  from post_exactly_once [OF snapshot_refl sample_post this] show ?thesis by blast
qed

lemma ledger_never_overdraws_witness:
  "list_all (\<lambda>w. 0 \<le> wallet_balance sample_posted w + accountCreditLineMinor sample_posted w) (ws_wallets sample_posted)"
proof -
  have "wl_step\<^sup>*\<^sup>* sample_state sample_posted" by (rule r_into_rtranclp, rule posted [OF snapshot_refl sample_post])
  from ledger_never_overdraws [OF sample_inv this] show ?thesis by blast
qed

end
