(* ===== verification/Credit_Aging.thy ===== *)
theory Credit_Aging
  imports Prelude
begin

text \<open>
  First-in first-out aging of one agency account (\<open>apps/api/src/agent/credit-aging.ts\<close>): charges in
  posting order, payments applied to a booking's own charge and then to the oldest, money left over kept
  as prepaid for later charges. Times are milliseconds.
\<close>

record AgingEntry =
  ae_type :: string
  ae_amountMinor :: int
  ae_reference :: "string option"
  ae_at :: int

datatype AgencyOverdueState = CURRENT | NOTICE | HOLDS_REFUSED

record Aging =
  ag_state :: AgencyOverdueState
  ag_unpaidMinor :: int
  ag_overdueUnpaidMinor :: int
  ag_oldestUnpaidAt :: "int option"
  ag_daysOverdue :: int

definition overdueNoticeDays :: int where
  "overdueNoticeDays = 7"

definition refuseHoldsAfterDays :: int where
  "refuseHoldsAfterDays = 30"

definition DAY_MS :: int where
  "DAY_MS = 86400000"

record charge =
  ch_amount :: int
  ch_at :: int
  ch_reference :: "string option"

record aging_state =
  as_charges :: "charge list"
  as_prepaid :: int

text \<open>One pass over the charges that satisfy a test: each takes what it can of the money left.\<close>

fun pay_pass :: "(charge \<Rightarrow> bool) \<Rightarrow> int \<Rightarrow> charge list \<Rightarrow> charge list \<times> int" where
  "pay_pass test left [] = ([], left)"
| "pay_pass test left (c # cs) =
     (if left = 0 then (c # cs, left)
      else if test c \<and> ch_amount c > 0 then
        let p = (if ch_amount c < left then ch_amount c else left);
            (cs', left') = pay_pass test (left - p) cs in
        (c\<lparr>ch_amount := ch_amount c - p\<rparr> # cs', left')
      else let (cs', left') = pay_pass test left cs in (c # cs', left'))"

definition pay :: "int \<Rightarrow> string option \<Rightarrow> aging_state \<Rightarrow> aging_state" where
  "pay amount reference s =
     (let (cs1, left1) = (if reference = None \<or> reference = Some [] then (as_charges s, amount)
                          else pay_pass (\<lambda>c. ch_reference c = reference) amount (as_charges s));
          (cs2, left2) = pay_pass (\<lambda>_. True) left1 cs1 in
      \<lparr>as_charges = cs2, as_prepaid = as_prepaid s + left2\<rparr>)"

definition add_charge :: "AgingEntry \<Rightarrow> aging_state \<Rightarrow> aging_state" where
  "add_charge e s =
     (let charge = - ae_amountMinor e;
          fromPrepaid = (if as_prepaid s < charge then as_prepaid s else charge);
          prepaid = as_prepaid s - fromPrepaid;
          rest = charge - fromPrepaid in
      \<lparr>as_charges = as_charges s @ (if rest > 0 then [\<lparr>ch_amount = rest, ch_at = ae_at e, ch_reference = ae_reference e\<rparr>] else []),
       as_prepaid = prepaid\<rparr>)"

definition age_entry :: "aging_state \<Rightarrow> AgingEntry \<Rightarrow> aging_state" where
  "age_entry s e =
     (if ae_type e \<in> {''DEBIT'', ''REVERSAL'', ''ADJUSTMENT''} \<and> ae_amountMinor e < 0 then add_charge e s
      else if ae_type e \<in> {''CREDIT'', ''REFUND'', ''ADJUSTMENT''} \<and> ae_amountMinor e > 0
      then pay (ae_amountMinor e) (if ae_type e = ''REFUND'' then ae_reference e else None) s
      else s)"

definition age_entries :: "AgingEntry list \<Rightarrow> aging_state" where
  "age_entries es = foldl age_entry \<lparr>as_charges = [], as_prepaid = 0\<rparr> es"

definition ageAccount :: "AgingEntry list \<Rightarrow> int \<Rightarrow> Aging" where
  "ageAccount entries now =
     (let open_charges = filter (\<lambda>c. ch_amount c > 0) (as_charges (age_entries entries));
          unpaid = sum_list (map ch_amount open_charges);
          oldest = (case open_charges of [] \<Rightarrow> None | c # _ \<Rightarrow> Some (foldl (\<lambda>a c. if ch_at c < a then ch_at c else a) (ch_at c) open_charges));
          overdueBefore = now - overdueNoticeDays * DAY_MS;
          overdueUnpaid = sum_list (map ch_amount (filter (\<lambda>c. ch_at c \<le> overdueBefore) open_charges));
          days = (case oldest of None \<Rightarrow> 0 | Some t \<Rightarrow> max 0 ((now - t) div DAY_MS));
          state = (if oldest = None then CURRENT
                   else if days \<ge> refuseHoldsAfterDays then HOLDS_REFUSED
                   else if days \<ge> overdueNoticeDays then NOTICE else CURRENT) in
      \<lparr>ag_state = state, ag_unpaidMinor = unpaid, ag_overdueUnpaidMinor = overdueUnpaid, ag_oldestUnpaidAt = oldest, ag_daysOverdue = days\<rparr>)"

subsection \<open>Lemmas\<close>

abbreviation owed_by :: "charge list \<Rightarrow> int" where
  "owed_by cs \<equiv> sum_list (map ch_amount cs)"

lemma pay_pass_props:
  assumes "pay_pass test left cs = (cs', left')" "0 \<le> left" "\<forall>c \<in> set cs. 0 \<le> ch_amount c"
  shows "0 \<le> left' \<and> left' \<le> left \<and> owed_by cs' = owed_by cs - (left - left') \<and> (\<forall>c \<in> set cs'. 0 \<le> ch_amount c)
    \<and> map ch_at cs' = map ch_at cs \<and> (left' = 0 \<or> (\<forall>c \<in> set cs'. test c \<longrightarrow> ch_amount c = 0) \<or> \<not> (\<forall>c. test c))"
  using assms
proof (induction test left cs arbitrary: cs' left' rule: pay_pass.induct)
  case (2 test left c cs)
  show ?case
  proof (cases "left = 0")
    case True
    then show ?thesis using 2(3-5) by simp
  next
    case left: False
    show ?thesis
    proof (cases "test c \<and> ch_amount c > 0")
      case True
      define p where "p = (if ch_amount c < left then ch_amount c else left)"
      obtain ds d where rec: "pay_pass test (left - p) cs = (ds, d)" by fastforce
      have out: "cs' = c\<lparr>ch_amount := ch_amount c - p\<rparr> # ds" "left' = d"
        using 2(3) left True rec by (simp_all add: p_def [symmetric] Let_def)
      have p: "0 < p" "p \<le> left" "p \<le> ch_amount c" "p < ch_amount c \<Longrightarrow> p = left"
        using True 2(4) left by (auto simp: p_def)
      have "0 \<le> d \<and> d \<le> left - p \<and> owed_by ds = owed_by cs - (left - p - d) \<and> (\<forall>c \<in> set ds. 0 \<le> ch_amount c)
        \<and> map ch_at ds = map ch_at cs \<and> (d = 0 \<or> (\<forall>c \<in> set ds. test c \<longrightarrow> ch_amount c = 0) \<or> \<not> (\<forall>c. test c))"
        using "2.IH"(1) [OF left True p_def, of ds d] rec p 2(5) by simp
      with p show ?thesis by (auto simp: out)
    next
      case False
      obtain ds d where rec: "pay_pass test left cs = (ds, d)" by fastforce
      have out: "cs' = c # ds" "left' = d" using 2(3) left False rec by auto
      have "0 \<le> d \<and> d \<le> left \<and> owed_by ds = owed_by cs - (left - d) \<and> (\<forall>c \<in> set ds. 0 \<le> ch_amount c)
        \<and> map ch_at ds = map ch_at cs \<and> (d = 0 \<or> (\<forall>c \<in> set ds. test c \<longrightarrow> ch_amount c = 0) \<or> \<not> (\<forall>c. test c))"
        using "2.IH"(2) [OF left False, of ds d] rec 2(4,5) by simp
      with False 2(5) show ?thesis by (auto simp: out)
    qed
  qed
qed auto

text \<open>Invariant: amounts are non-negative, and money is prepaid only when nothing is owed.\<close>

definition aging_ok :: "aging_state \<Rightarrow> bool" where
  "aging_ok s \<longleftrightarrow> 0 \<le> as_prepaid s \<and> list_all (\<lambda>c. 0 \<le> ch_amount c) (as_charges s)
     \<and> (as_prepaid s = 0 \<or> list_all (\<lambda>c. ch_amount c = 0) (as_charges s))"

definition net_owed :: "aging_state \<Rightarrow> int" where
  "net_owed s = owed_by (as_charges s) - as_prepaid s"

lemma owed_by_zero: "list_all (\<lambda>c. ch_amount c = 0) cs \<Longrightarrow> owed_by cs = 0"
  by (induction cs) simp_all

lemma owed_by_nonneg: "list_all (\<lambda>c. 0 \<le> ch_amount c) cs \<Longrightarrow> 0 \<le> owed_by cs"
  by (induction cs) simp_all

lemma owed_by_zero_iff: "list_all (\<lambda>c. 0 \<le> ch_amount c) cs \<Longrightarrow> owed_by cs = 0 \<longleftrightarrow> list_all (\<lambda>c. ch_amount c = 0) cs"
proof (induction cs)
  case (Cons c cs)
  with owed_by_nonneg [of cs] show ?case by auto
qed simp

lemma pay_ok:
  assumes "aging_ok s" "0 < amount"
  shows "aging_ok (pay amount reference s) \<and> net_owed (pay amount reference s) = net_owed s - amount"
proof -
  obtain cs1 l1 where one: "(if reference = None \<or> reference = Some [] then (as_charges s, amount)
      else pay_pass (\<lambda>c. ch_reference c = reference) amount (as_charges s)) = (cs1, l1)" by fastforce
  obtain cs2 l2 where two: "pay_pass (\<lambda>_. True) l1 cs1 = (cs2, l2)" by fastforce
  have nonneg: "\<forall>c \<in> set (as_charges s). 0 \<le> ch_amount c" using assms(1) by (simp add: aging_ok_def list_all_iff)
  have first: "0 \<le> l1 \<and> l1 \<le> amount \<and> owed_by cs1 = owed_by (as_charges s) - (amount - l1) \<and> (\<forall>c \<in> set cs1. 0 \<le> ch_amount c)"
  proof (cases "reference = None \<or> reference = Some []")
    case True
    with one nonneg assms(2) show ?thesis by auto
  next
    case False
    with one have "pay_pass (\<lambda>c. ch_reference c = reference) amount (as_charges s) = (cs1, l1)" by simp
    from pay_pass_props [OF this] nonneg assms(2) show ?thesis by auto
  qed
  have second: "0 \<le> l2" "l2 \<le> l1" "owed_by cs2 = owed_by cs1 - (l1 - l2)" "\<forall>c \<in> set cs2. 0 \<le> ch_amount c"
    "l2 = 0 \<or> (\<forall>c \<in> set cs2. ch_amount c = 0)"
    using pay_pass_props [OF two] first by auto
  have pay: "pay amount reference s = \<lparr>as_charges = cs2, as_prepaid = as_prepaid s + l2\<rparr>"
    by (simp add: pay_def one two)
  have "as_prepaid s = 0 \<or> list_all (\<lambda>c. ch_amount c = 0) cs2"
  proof (cases "as_prepaid s = 0")
    case False
    then have "owed_by (as_charges s) = 0" using assms(1) by (auto simp: aging_ok_def owed_by_zero)
    moreover have "0 \<le> owed_by cs2" using second(4) by (intro owed_by_nonneg) (simp add: list_all_iff)
    ultimately have "owed_by cs2 = 0" using first second by linarith
    with second(4) show ?thesis using owed_by_zero_iff [of cs2] by (simp add: list_all_iff)
  qed simp
  with first second assms(1) show ?thesis
    by (auto simp: pay aging_ok_def net_owed_def list_all_iff)
qed

lemma add_charge_ok:
  assumes "aging_ok s" "ae_amountMinor e < 0"
  shows "aging_ok (add_charge e s) \<and> net_owed (add_charge e s) = net_owed s - ae_amountMinor e"
  using assms by (auto simp: add_charge_def Let_def aging_ok_def net_owed_def)

text \<open>The settled amount of an entry: what the aging counts, with its stored sign.\<close>

definition settled_amount :: "AgingEntry \<Rightarrow> int" where
  "settled_amount e =
     (if (ae_type e \<in> {''DEBIT'', ''REVERSAL'', ''ADJUSTMENT''} \<and> ae_amountMinor e < 0)
         \<or> (ae_type e \<in> {''CREDIT'', ''REFUND'', ''ADJUSTMENT''} \<and> ae_amountMinor e > 0) then ae_amountMinor e else 0)"

lemma age_entry_ok:
  assumes "aging_ok s"
  shows "aging_ok (age_entry s e) \<and> net_owed (age_entry s e) = net_owed s - settled_amount e"
proof (cases "ae_type e \<in> {''DEBIT'', ''REVERSAL'', ''ADJUSTMENT''} \<and> ae_amountMinor e < 0")
  case True
  with add_charge_ok [OF assms] show ?thesis unfolding age_entry_def settled_amount_def by simp
next
  case no_charge: False
  show ?thesis
  proof (cases "ae_type e \<in> {''CREDIT'', ''REFUND'', ''ADJUSTMENT''} \<and> ae_amountMinor e > 0")
    case True
    with no_charge pay_ok [OF assms] show ?thesis unfolding age_entry_def settled_amount_def by simp
  next
    case False
    with no_charge assms show ?thesis unfolding age_entry_def settled_amount_def by (simp only: if_False) simp
  qed
qed

lemma age_entries_ok:
  "aging_ok (age_entries es) \<and> net_owed (age_entries es) = - (\<Sum>e\<leftarrow>es. settled_amount e)"
proof (induction es rule: rev_induct)
  case Nil
  then show ?case by (simp add: age_entries_def aging_ok_def net_owed_def)
next
  case (snoc e es)
  have "age_entries (es @ [e]) = age_entry (age_entries es) e" by (simp add: age_entries_def)
  with snoc age_entry_ok [of "age_entries es" e] show ?case by simp
qed

lemma owed_by_open: "owed_by (filter (\<lambda>c. ch_amount c > 0) cs) = owed_by cs" if "list_all (\<lambda>c. 0 \<le> ch_amount c) cs"
  using that by (induction cs) auto

lemma overdue_le:
  "list_all (\<lambda>c. 0 \<le> ch_amount c) cs \<Longrightarrow> 0 \<le> owed_by (filter P cs) \<and> owed_by (filter P cs) \<le> owed_by cs"
  by (induction cs) auto

text \<open>
  Aging keeps the books: whatever the order of charges, payments, refunds of a booking, adjustments
  and reversals, what is reported unpaid is exactly what the settled entries of the account sum to below
  zero, and nothing when they do not; the overdue part is never more than the whole, and the account is
  current with zero days whenever nothing is owed.
\<close>

theorem ageAccount_unpaid_exact:
  "ag_unpaidMinor (ageAccount es now) = max 0 (- (\<Sum>e\<leftarrow>es. settled_amount e))
   \<and> 0 \<le> ag_overdueUnpaidMinor (ageAccount es now)
   \<and> ag_overdueUnpaidMinor (ageAccount es now) \<le> ag_unpaidMinor (ageAccount es now)
   \<and> (ag_unpaidMinor (ageAccount es now) = 0 \<longrightarrow>
      ag_state (ageAccount es now) = CURRENT \<and> ag_daysOverdue (ageAccount es now) = 0 \<and> ag_oldestUnpaidAt (ageAccount es now) = None)"
proof -
  let ?s = "age_entries es"
  let ?open = "filter (\<lambda>c. ch_amount c > 0) (as_charges ?s)"
  have ok: "aging_ok ?s" and net: "net_owed ?s = - (\<Sum>e\<leftarrow>es. settled_amount e)" using age_entries_ok by blast+
  have nonneg: "list_all (\<lambda>c. 0 \<le> ch_amount c) (as_charges ?s)" using ok by (simp add: aging_ok_def)
  have unpaid: "ag_unpaidMinor (ageAccount es now) = owed_by (as_charges ?s)"
    using owed_by_open [OF nonneg] by (simp add: ageAccount_def Let_def)
  have overdue: "ag_overdueUnpaidMinor (ageAccount es now) = owed_by (filter (\<lambda>c. ch_at c \<le> now - overdueNoticeDays * DAY_MS) ?open)"
    by (simp add: ageAccount_def Let_def)
  have exact: "owed_by (as_charges ?s) = max 0 (net_owed ?s)"
    using ok owed_by_nonneg [OF nonneg] owed_by_zero [of "as_charges ?s"] by (auto simp: aging_ok_def net_owed_def)
  have "list_all (\<lambda>c. 0 \<le> ch_amount c) ?open" by (simp add: list_all_iff)
  from overdue_le [OF this] have part: "0 \<le> ag_overdueUnpaidMinor (ageAccount es now)"
    "ag_overdueUnpaidMinor (ageAccount es now) \<le> ag_unpaidMinor (ageAccount es now)"
    unfolding overdue unpaid using owed_by_open [OF nonneg] by auto
  have "?open = []" if "ag_unpaidMinor (ageAccount es now) = 0"
  proof -
    have "\<forall>c \<in> set (as_charges ?s). ch_amount c = 0"
      using that owed_by_zero_iff [OF nonneg] unfolding unpaid by (simp add: list_all_iff)
    then show ?thesis by (simp add: filter_empty_conv)
  qed
  then have "ag_unpaidMinor (ageAccount es now) = 0 \<longrightarrow>
      ag_state (ageAccount es now) = CURRENT \<and> ag_daysOverdue (ageAccount es now) = 0 \<and> ag_oldestUnpaidAt (ageAccount es now) = None"
    by (auto simp: ageAccount_def Let_def)
  with part show ?thesis by (simp add: unpaid exact net)
qed

definition sample_account :: "AgingEntry list" where
  "sample_account =
     [\<lparr>ae_type = ''DEBIT'', ae_amountMinor = -500, ae_reference = Some ''booking:b1'', ae_at = 0\<rparr>,
      \<lparr>ae_type = ''DEBIT'', ae_amountMinor = -300, ae_reference = Some ''booking:b2'', ae_at = 86400000\<rparr>,
      \<lparr>ae_type = ''REFUND'', ae_amountMinor = 300, ae_reference = Some ''booking:b2'', ae_at = 172800000\<rparr>,
      \<lparr>ae_type = ''CREDIT'', ae_amountMinor = 600, ae_reference = None, ae_at = 259200000\<rparr>]"

lemma ageAccount_unpaid_exact_witness:
  "ag_unpaidMinor (ageAccount sample_account 3000000000) = 0
   \<and> ag_unpaidMinor (ageAccount (take 3 sample_account) 3000000000) = 500
   \<and> ag_state (ageAccount (take 3 sample_account) 3000000000) = HOLDS_REFUSED
   \<and> ag_state (ageAccount sample_account 3000000000) = CURRENT"
proof -
  have paid: "ag_unpaidMinor (ageAccount sample_account 3000000000) = 0" by code_simp
  moreover have "ag_unpaidMinor (ageAccount (take 3 sample_account) 3000000000) = 500
      \<and> ag_state (ageAccount (take 3 sample_account) 3000000000) = HOLDS_REFUSED" by code_simp
  ultimately show ?thesis using ageAccount_unpaid_exact [of sample_account 3000000000] by simp
qed

end
