(* ===== verification/Agency_Credit.thy ===== *)
theory Agency_Credit
  imports Wallet_Ledger Credit_Risk Credit_Aging
begin

text \<open>
  The credit control of an agency account (\<open>apps/api/src/agent/agency-account.ts\<close>): its position from the
  ledger, the approved line and the pending holds, its aging, and the refusal of a hold or a prebook when
  the agency is overdue or paused. The members and holds tables are read beside the wallet state.
\<close>

subsection \<open>Position\<close>

definition PENDING_STATUSES :: "string list" where
  "PENDING_STATUSES = [''HOLD_PENDING'', ''HELD'']"

record member_row =
  mb_tenantId :: string
  mb_agencyId :: string
  mb_userId :: string

record hold_row =
  hd_tenantId :: string
  hd_currency :: string
  hd_createdByUserId :: string
  hd_status :: string
  hd_expiresAt :: int
  hd_sellAmountMinor :: int

record credit_db =
  cd_ledger :: wl_state
  cd_members :: "member_row list"
  cd_holds :: "hold_row list"

definition agencyPendingMinor :: "credit_db \<Rightarrow> string \<Rightarrow> string \<Rightarrow> string \<Rightarrow> int \<Rightarrow> int" where
  "agencyPendingMinor db tenantId agencyId cur now =
     (let members = map mb_userId (filter (\<lambda>m. mb_tenantId m = tenantId \<and> mb_agencyId m = agencyId) (cd_members db)) in
      if members = [] then 0
      else sum_where (\<lambda>h. hd_tenantId h = tenantId \<and> hd_currency h = cur \<and> hd_createdByUserId h \<in> set members
                        \<and> hd_status h \<in> set PENDING_STATUSES \<and> hd_expiresAt h > now) hd_sellAmountMinor (cd_holds db))"

record AgencyPosition =
  ps_accountId :: "string option"
  ps_currency :: string
  ps_balanceMinor :: int
  ps_creditLineMinor :: int
  ps_pendingMinor :: int
  ps_availableMinor :: int

definition agency_wallet :: "credit_db \<Rightarrow> string \<Rightarrow> string \<Rightarrow> string \<Rightarrow> wallet_row option" where
  "agency_wallet db tenantId agencyId cur =
     find (\<lambda>w. wa_tenantId w = tenantId \<and> wa_agencyId w = Some agencyId \<and> wa_currency w = cur) (ws_wallets (cd_ledger db))"

definition agencyPosition :: "credit_db \<Rightarrow> string \<Rightarrow> string \<Rightarrow> string \<Rightarrow> int \<Rightarrow> AgencyPosition" where
  "agencyPosition db tenantId agencyId cur now =
     (let account = agency_wallet db tenantId agencyId cur;
          balance = (case account of None \<Rightarrow> 0 | Some w \<Rightarrow> walletBalanceMinor (ws_rows (cd_ledger db)) tenantId (wa_id w) None);
          creditLine = agencyCreditLineMinor (cd_ledger db) tenantId agencyId cur;
          pending = agencyPendingMinor db tenantId agencyId cur now in
      \<lparr>ps_accountId = map_option wa_id account, ps_currency = cur, ps_balanceMinor = balance, ps_creditLineMinor = creditLine,
       ps_pendingMinor = pending,
       ps_availableMinor = availableMinor \<lparr>balanceMinor = balance, creditLineMinor = creditLine, pendingMinor = Some pending\<rparr>\<rparr>)"

subsection \<open>Aging and risk\<close>

text \<open>The settled entries of an account in posting order; rows are stored in that order, ids break ties.\<close>

definition aging_rows :: "credit_db \<Rightarrow> string \<Rightarrow> string \<Rightarrow> AgingEntry list" where
  "aging_rows db tenantId accountId =
     map (\<lambda>r. \<lparr>ae_type = lr_type r, ae_amountMinor = lr_amountMinor r, ae_reference = lr_reference r, ae_at = lr_immutableAt r\<rparr>)
       (js_sort (\<lambda>a b. cmp_then (lr_immutableAt a - lr_immutableAt b) (cmp_text (lr_id a) (lr_id b)))
         (filter (\<lambda>r. lr_tenantId r = tenantId \<and> lr_walletId r = accountId
            \<and> lr_type r \<in> {''DEBIT'', ''CREDIT'', ''REFUND'', ''ADJUSTMENT'', ''REVERSAL''}) (ws_rows (cd_ledger db))))"

definition accountAging :: "credit_db \<Rightarrow> string \<Rightarrow> string option \<Rightarrow> int \<Rightarrow> Aging" where
  "accountAging db tenantId accountId now =
     (case accountId of
        None \<Rightarrow> ageAccount [] now
      | Some a \<Rightarrow> if a = [] then ageAccount [] now else ageAccount (aging_rows db tenantId a) now)"

definition AGENCY_CREDIT_RISK_POLICY :: CreditRiskPolicy where
  "AGENCY_CREDIT_RISK_POLICY = \<lparr>watchBp = JInt 8000, marginCallBp = JInt 9000, pauseBp = JInt 9500, overdueAfterDays = JInt 7,
     overdueShareOfLineBp = JInt 5000, refuseAfterDays = JInt 30\<rparr>"

definition assertNotOverdue :: "Aging \<Rightarrow> unit http" where
  "assertNotOverdue a =
     (if ag_state a \<noteq> HOLDS_REFUSED then Inr ()
      else Inl (Forbidden (''Your agency has charges unpaid for '' @ string_of_int (ag_daysOverdue a) @
             '' days. New holds are refused after 30 days until a payment is received.'')))"

definition risk_input :: "AgencyPosition \<Rightarrow> Aging \<Rightarrow> CreditRiskInput" where
  "risk_input p a = \<lparr>cr_balanceMinor = ps_balanceMinor p, cr_creditLineMinor = ps_creditLineMinor p, cr_pendingMinor = ps_pendingMinor p,
     cr_unpaidMinor = ag_unpaidMinor a, cr_overdueUnpaidMinor = ag_overdueUnpaidMinor a, cr_daysOverdue = ag_daysOverdue a\<rparr>"

definition riskOf :: "AgencyPosition \<Rightarrow> Aging \<Rightarrow> int \<Rightarrow> CreditRiskResult result" where
  "riskOf p a new = evaluateCreditRisk (risk_input p a) AGENCY_CREDIT_RISK_POLICY new"

definition agencyCreditRisk ::
  "credit_db \<Rightarrow> string \<Rightarrow> string \<Rightarrow> string \<Rightarrow> int \<Rightarrow> int \<Rightarrow> AgencyPosition \<times> Aging \<times> CreditRiskResult result" where
  "agencyCreditRisk db tenantId agencyId cur now new =
     (let position = agencyPosition db tenantId agencyId cur now;
          aging = accountAging db tenantId (ps_accountId position) now in
      (position, aging, riskOf position aging new))"

datatype risk_mode = Enforce | Shadow

definition creditRiskMode :: "string option \<Rightarrow> risk_mode" where
  "creditRiskMode env = (if env = Some ''enforce'' then Enforce else Shadow)"

datatype risk_scope = HOLD_SCOPE | PREBOOK_SCOPE

text \<open>What the control leaves behind when it lets the agency through: the reasons of a shadow audit event, if one is written.\<close>

definition enforceCreditRisk ::
  "risk_mode \<Rightarrow> credit_db \<Rightarrow> string \<Rightarrow> string \<Rightarrow> string \<Rightarrow> int \<Rightarrow> int \<Rightarrow> risk_scope \<Rightarrow> CreditPauseReason list option http" where
  "enforceCreditRisk mode db tenantId agencyId cur now amount scope =
     (let (position, aging, risk) = agencyCreditRisk db tenantId agencyId cur now (if scope = HOLD_SCOPE then amount else 0) in
      case risk of
        Inl (Error m) \<Rightarrow> Inl (ServerError m)
      | Inl (RangeError m) \<Rightarrow> Inl (ServerError m)
      | Inr r \<Rightarrow>
          let reasons = filter (\<lambda>x. scope = HOLD_SCOPE \<or> x \<noteq> UTILISATION) (cr_reasons r) in
          if reasons = [] then Inr None
          else if mode = Enforce then Inl (Forbidden ''Your agency credit is paused. Send a payment or contact your account manager.'')
          else if scope = HOLD_SCOPE then Inr (Some reasons) else Inr None)"

subsection \<open>Booking account\<close>

text \<open>The account a booking is charged to, opened when the agency has none in the currency.\<close>

definition bookingAccountFor ::
  "risk_mode \<Rightarrow> string \<Rightarrow> credit_db \<Rightarrow> string \<Rightarrow> string \<Rightarrow> string \<Rightarrow> int \<Rightarrow> (credit_db \<times> string \<times> string) http" where
  "bookingAccountFor mode newId db tenantId userId cur now =
     (case find (\<lambda>m. mb_tenantId m = tenantId \<and> mb_userId m = userId) (cd_members db) of
        None \<Rightarrow> Inl (Forbidden ''Your user is not linked to an agency, so it cannot book. Ask your administrator to add you to your agency.'')
      | Some m \<Rightarrow>
          let agencyId = mb_agencyId m;
              (db', accountId) =
                (case agency_wallet db tenantId agencyId cur of
                   Some w \<Rightarrow> (db, wa_id w)
                 | None \<Rightarrow> (db\<lparr>cd_ledger := (cd_ledger db)\<lparr>ws_wallets := ws_wallets (cd_ledger db) @
                     [\<lparr>wa_id = newId, wa_tenantId = tenantId, wa_agencyId = Some agencyId, wa_currency = cur, wa_creditLimit = 0\<rparr>]\<rparr>\<rparr>, newId)) in
          ebind (assertNotOverdue (accountAging db' tenantId (Some accountId) now)) (\<lambda>_.
          ebind (enforceCreditRisk mode db' tenantId agencyId cur now 0 PREBOOK_SCOPE) (\<lambda>_.
            Inr (db', accountId, agencyId))))"

subsection \<open>Lemmas\<close>

text \<open>
  In enforce mode the credit control stands between an agency and its line: when a hold of a positive
  amount passes, what the agency owes by its ledger balance, plus its pending holds, plus the new amount
  is strictly below 95 per cent of its approved line in that currency, its charges are unpaid for fewer
  than 30 days, and its aged charges are below half the line; an agency with no line is bound by the days.
\<close>

theorem hold_within_credit_line:
  assumes "enforceCreditRisk Enforce db tenantId agencyId cur now amount HOLD_SCOPE = Inr out" "0 < amount"
  shows "let p = agencyPosition db tenantId agencyId cur now; a = accountAging db tenantId (ps_accountId p) now;
             line = agencyCreditLineMinor (cd_ledger db) tenantId agencyId cur in
    out = None
    \<and> (line = 0 \<or> (max 0 (- ps_balanceMinor p) + ps_pendingMinor p + amount) * 10000 < line * 9500)
    \<and> (ag_unpaidMinor a \<le> 0 \<or> ag_daysOverdue a < 30)
    \<and> (line = 0 \<or> ag_overdueUnpaidMinor a \<le> 0 \<or> ag_overdueUnpaidMinor a * 10000 < line * 5000)"
proof -
  let ?p = "agencyPosition db tenantId agencyId cur now"
  let ?a = "accountAging db tenantId (ps_accountId ?p) now"
  obtain r where r: "evaluateCreditRisk (risk_input ?p ?a) AGENCY_CREDIT_RISK_POLICY amount = Inr r" "cr_reasons r = []" "out = None"
    using assms(1)
    by (auto simp: enforceCreditRisk_def agencyCreditRisk_def riskOf_def Let_def split: sum.splits js_error.splits if_splits)
  have line: "ps_creditLineMinor ?p = agencyCreditLineMinor (cd_ledger db) tenantId agencyId cur"
    by (simp add: agencyPosition_def Let_def)
  show ?thesis
    using evaluate_reasons [OF r(1) assms(2) r(2)] r(3)
    unfolding Let_def line [symmetric]
    by (simp add: risk_input_def AGENCY_CREDIT_RISK_POLICY_def drawn_def owed_def BP_def)
qed

definition sample_db :: credit_db where
  "sample_db = \<lparr>cd_ledger = sample_posted, cd_members = [\<lparr>mb_tenantId = ''t1'', mb_agencyId = ''a1'', mb_userId = ''u1''\<rparr>], cd_holds = []\<rparr>"

lemma hold_within_credit_line_witness:
  "enforceCreditRisk Enforce sample_db ''t1'' ''a1'' ''AED'' 10 49 HOLD_SCOPE = Inr None \<and> (900 + 49) * 10000 < (1000 * 9500 :: int)"
proof -
  have e: "enforceCreditRisk Enforce sample_db ''t1'' ''a1'' ''AED'' 10 49 HOLD_SCOPE = Inr None" by code_simp
  have p: "ps_balanceMinor (agencyPosition sample_db ''t1'' ''a1'' ''AED'' 10) = -900"
    "ps_pendingMinor (agencyPosition sample_db ''t1'' ''a1'' ''AED'' 10) = 0"
    "agencyCreditLineMinor (cd_ledger sample_db) ''t1'' ''a1'' ''AED'' = 1000" by code_simp+
  show ?thesis
    using hold_within_credit_line [OF e] e by (simp add: Let_def p)
qed

end
