(* ===== verification/Bank_Matching.thy ===== *)
theory Bank_Matching
  imports Prelude
begin

text \<open>
  Bank statement matching (\<open>packages/money/src/bank-matching.ts\<close>): parsed bank movements against the
  payments the system expects. The theory models the reference keys of a movement, the loop over the
  movements with its consumed, touched and seen sets, the payments missing from the statement and the
  summary per currency. \<open>collate\<close> stands for \<open>localeCompare\<close>.
\<close>

subsection \<open>Data\<close>

datatype BankDirection = CREDIT | DEBIT

record BankStatementEntry =
  be_entryRef :: string
  be_direction :: BankDirection
  be_currency :: string
  be_amountMinor :: int
  be_bookingDate :: string
  be_valueDate :: string
  be_references :: "string list"
  be_remittanceInfo :: string

datatype ExpectedPaymentKind = SUPPLIER_SETTLEMENT | FUNDING_RECEIPT

record ExpectedPayment =
  ep_id :: string
  ep_kind :: ExpectedPaymentKind
  ep_reference :: string
  ep_currency :: string
  ep_amountMinor :: int
  ep_direction :: BankDirection
  ep_date :: string

datatype BankMatchType =
    MATCHED_PAYMENT
  | AMOUNT_MISMATCH
  | CURRENCY_MISMATCH
  | DIRECTION_MISMATCH
  | AMBIGUOUS_REFERENCE
  | DUPLICATE_ENTRY
  | DUPLICATE_PAYMENT
  | UNMATCHED_ENTRY
  | EXPECTED_NOT_ON_STATEMENT

definition isBankException :: "BankMatchType \<Rightarrow> bool" where
  "isBankException t \<longleftrightarrow> t \<noteq> MATCHED_PAYMENT"

record BankMatchFinding =
  bf_key :: string
  bf_type :: BankMatchType
  bf_entryRef :: "string option"
  bf_expectedId :: "string option"
  bf_expectedKind :: "ExpectedPaymentKind option"
  bf_currency :: string
  bf_bankMinor :: "int option"
  bf_expectedMinor :: "int option"
  bf_varianceMinor :: "int option"

record BankMatchSummaryRow =
  bm_currency :: string
  bm_matched :: nat
  bm_exceptions :: nat
  bm_matchedMinor :: int
  bm_unmatchedCreditMinor :: int
  bm_unmatchedDebitMinor :: int

record BankMatchResult =
  br_findings :: "BankMatchFinding list"
  br_summary :: "BankMatchSummaryRow list"

subsection \<open>Reference keys\<close>

definition MIN_REFERENCE_LENGTH :: nat where "MIN_REFERENCE_LENGTH = 6"
definition MAX_WINDOW :: nat where "MAX_WINDOW = 6"

definition normalise :: "string \<Rightarrow> string" where
  "normalise value = filter is_alnum (toUpperCase value)"

definition add_reference :: "string list \<Rightarrow> string \<Rightarrow> string list" where
  "add_reference keys ref = (let n = normalise ref in if n = [] then keys else set_add n keys)"

text \<open>The runs of at most \<open>k\<close> tokens that start at the first one, each appended to the text joined so far.\<close>

fun add_windows :: "nat \<Rightarrow> string \<Rightarrow> string list \<Rightarrow> string list \<Rightarrow> string list" where
  "add_windows 0 joined tokens keys = keys"
| "add_windows (Suc k) joined [] keys = keys"
| "add_windows (Suc k) joined (t # tokens) keys = add_windows k (joined @ t) tokens (set_add (joined @ t) keys)"

fun add_all_windows :: "string list \<Rightarrow> string list \<Rightarrow> string list" where
  "add_all_windows [] keys = keys"
| "add_all_windows (t # tokens) keys = add_all_windows tokens (add_windows MAX_WINDOW [] (t # tokens) keys)"

definition searchKeys :: "BankStatementEntry \<Rightarrow> string list" where
  "searchKeys e = add_all_windows (tokens_of [] (toUpperCase (be_remittanceInfo e))) (foldl add_reference [] (be_references e))"

fun direction_text :: "BankDirection \<Rightarrow> string" where
  "direction_text CREDIT = ''CREDIT''"
| "direction_text DEBIT = ''DEBIT''"

definition fingerprint :: "BankStatementEntry \<Rightarrow> string" where
  "fingerprint e = join_text [CHR 0x00] [be_entryRef e, be_valueDate e, direction_text (be_direction e), be_currency e,
     string_of_int (be_amountMinor e), join_text ''|'' (js_sort cmp_text (be_references e))]"

definition index_payment :: "(string, ExpectedPayment list) omap \<Rightarrow> ExpectedPayment \<Rightarrow> (string, ExpectedPayment list) omap" where
  "index_payment m p =
     (let key = normalise (ep_reference p) in
      if length key < MIN_REFERENCE_LENGTH then m else omap_put key (omap_getd (\<lambda>_. []) m key @ [p]) m)"

definition byRef :: "ExpectedPayment list \<Rightarrow> (string, ExpectedPayment list) omap" where
  "byRef expected = foldl index_payment [] expected"

subsection \<open>Matching\<close>

record bank_state =
  bs_findings :: "BankMatchFinding list"
  bs_consumed :: "string list"
  bs_touched :: "string list"
  bs_seen :: "string list"

definition entry_finding :: "nat \<Rightarrow> BankStatementEntry \<Rightarrow> BankMatchType \<Rightarrow> ExpectedPayment option \<Rightarrow> int option \<Rightarrow> BankMatchFinding" where
  "entry_finding index e type payment variance = \<lparr>bf_key = ''entry:'' @ string_of_nat (index + 1), bf_type = type,
     bf_entryRef = Some (be_entryRef e), bf_expectedId = map_option ep_id payment, bf_expectedKind = map_option ep_kind payment,
     bf_currency = be_currency e, bf_bankMinor = Some (be_amountMinor e), bf_expectedMinor = map_option ep_amountMinor payment,
     bf_varianceMinor = variance\<rparr>"

definition entry_hits :: "(string, ExpectedPayment list) omap \<Rightarrow> BankStatementEntry \<Rightarrow> (string, ExpectedPayment) omap" where
  "entry_hits idx e =
     foldl (\<lambda>hits key. foldl (\<lambda>hits payment. omap_put (ep_id payment) payment hits) hits (omap_getd (\<lambda>_. []) idx key)) [] (searchKeys e)"

definition push_finding :: "BankMatchFinding \<Rightarrow> bank_state \<Rightarrow> bank_state" where
  "push_finding f st = st\<lparr>bs_findings := bs_findings st @ [f]\<rparr>"

definition match_payment :: "nat \<Rightarrow> BankStatementEntry \<Rightarrow> ExpectedPayment \<Rightarrow> bank_state \<Rightarrow> bank_state" where
  "match_payment index e payment st =
     (if ep_id payment \<in> set (bs_consumed st) then push_finding (entry_finding index e DUPLICATE_PAYMENT (Some payment) None) st
      else if be_direction e \<noteq> ep_direction payment then push_finding (entry_finding index e DIRECTION_MISMATCH (Some payment) None) st
      else if be_currency e \<noteq> ep_currency payment then push_finding (entry_finding index e CURRENCY_MISMATCH (Some payment) None) st
      else
        let variance = be_amountMinor e - ep_amountMinor payment in
        if variance \<noteq> 0 then push_finding (entry_finding index e AMOUNT_MISMATCH (Some payment) (Some variance)) st
        else push_finding (entry_finding index e MATCHED_PAYMENT (Some payment) (Some 0))
               (st\<lparr>bs_consumed := set_add (ep_id payment) (bs_consumed st)\<rparr>))"

definition match_entry :: "(string, ExpectedPayment list) omap \<Rightarrow> bank_state \<Rightarrow> nat \<times> BankStatementEntry \<Rightarrow> bank_state" where
  "match_entry idx st x =
     (case x of (index, e) \<Rightarrow>
        if fingerprint e \<in> set (bs_seen st) then push_finding (entry_finding index e DUPLICATE_ENTRY None None) st
        else
          let st = st\<lparr>bs_seen := set_add (fingerprint e) (bs_seen st)\<rparr> in
          case entry_hits idx e of
            [] \<Rightarrow> push_finding (entry_finding index e UNMATCHED_ENTRY None None) st
          | [(i, payment)] \<Rightarrow> match_payment index e payment (st\<lparr>bs_touched := set_add (ep_id payment) (bs_touched st)\<rparr>)
          | hits \<Rightarrow> push_finding (entry_finding index e AMBIGUOUS_REFERENCE None None)
                      (st\<lparr>bs_touched := foldl (\<lambda>t i. set_add i t) (bs_touched st) (omap_keys hits)\<rparr>))"

definition match_entries :: "BankStatementEntry list \<Rightarrow> ExpectedPayment list \<Rightarrow> string list \<Rightarrow> bank_state" where
  "match_entries entries expected alreadyMatchedIds =
     foldl (match_entry (byRef expected))
       \<lparr>bs_findings = [], bs_consumed = alreadyMatchedIds, bs_touched = [], bs_seen = []\<rparr> (enumerate 0 entries)"

definition missing_finding :: "ExpectedPayment \<Rightarrow> BankMatchFinding" where
  "missing_finding p = \<lparr>bf_key = ''expected:'' @ ep_id p, bf_type = EXPECTED_NOT_ON_STATEMENT, bf_entryRef = None,
     bf_expectedId = Some (ep_id p), bf_expectedKind = Some (ep_kind p), bf_currency = ep_currency p, bf_bankMinor = None,
     bf_expectedMinor = Some (ep_amountMinor p), bf_varianceMinor = None\<rparr>"

definition missing_payments :: "bank_state \<Rightarrow> ExpectedPayment list \<Rightarrow> string \<Rightarrow> string \<Rightarrow> BankMatchFinding list" where
  "missing_payments st expected period_from period_to =
     map missing_finding (filter (\<lambda>p. \<not> (ep_id p \<in> set (bs_touched st) \<or> ep_id p \<in> set (bs_consumed st)
        \<or> ep_date p < period_from \<or> period_to < ep_date p)) expected)"

subsection \<open>Summary\<close>

definition new_bank_row :: "string \<Rightarrow> BankMatchSummaryRow" where
  "new_bank_row cur = \<lparr>bm_currency = cur, bm_matched = 0, bm_exceptions = 0, bm_matchedMinor = 0,
     bm_unmatchedCreditMinor = 0, bm_unmatchedDebitMinor = 0\<rparr>"

definition count_finding :: "BankMatchSummaryRow \<Rightarrow> BankMatchFinding \<Rightarrow> BankMatchSummaryRow" where
  "count_finding r f =
     (if bf_type f = MATCHED_PAYMENT
      then r\<lparr>bm_matched := bm_matched r + 1, bm_matchedMinor := bm_matchedMinor r + (case bf_bankMinor f of None \<Rightarrow> 0 | Some b \<Rightarrow> b)\<rparr>
      else r\<lparr>bm_exceptions := bm_exceptions r + 1\<rparr>)"

definition entry_of_key :: "BankStatementEntry list \<Rightarrow> string \<Rightarrow> BankStatementEntry" where
  "entry_of_key entries key = entries ! (nat_of_digits (drop (length ''entry:'') key) - 1)"

definition add_suspense ::
  "BankStatementEntry list \<Rightarrow> (string, BankMatchSummaryRow) omap \<Rightarrow> BankMatchFinding \<Rightarrow> (string, BankMatchSummaryRow) omap" where
  "add_suspense entries rows f =
     (if bf_type f \<noteq> UNMATCHED_ENTRY then rows
      else
        let e = entry_of_key entries (bf_key f); r = omap_getd new_bank_row rows (be_currency e) in
        omap_put (be_currency e)
          (if be_direction e = CREDIT then r\<lparr>bm_unmatchedCreditMinor := bm_unmatchedCreditMinor r + be_amountMinor e\<rparr>
           else r\<lparr>bm_unmatchedDebitMinor := bm_unmatchedDebitMinor r + be_amountMinor e\<rparr>) rows)"

definition summary_rows :: "BankStatementEntry list \<Rightarrow> BankMatchFinding list \<Rightarrow> (string, BankMatchSummaryRow) omap" where
  "summary_rows entries findings =
     foldl (add_suspense entries) (group_by bf_currency (\<lambda>f. new_bank_row (bf_currency f)) count_finding findings) findings"

definition matchBankStatement ::
  "(string \<Rightarrow> string \<Rightarrow> int) \<Rightarrow> BankStatementEntry list \<Rightarrow> ExpectedPayment list \<Rightarrow> string \<Rightarrow> string \<Rightarrow> string list \<Rightarrow> BankMatchResult" where
  "matchBankStatement collate entries expected period_from period_to alreadyMatchedIds =
     (let st = match_entries entries expected alreadyMatchedIds;
          findings = bs_findings st @ missing_payments st expected period_from period_to in
      \<lparr>br_findings = findings,
       br_summary = js_sort (\<lambda>a b. collate (bm_currency a) (bm_currency b)) (omap_values (summary_rows entries findings))\<rparr>)"

subsection \<open>The reference index\<close>

definition quotes :: "BankStatementEntry \<Rightarrow> ExpectedPayment \<Rightarrow> bool" where
  "quotes e p \<longleftrightarrow> normalise (ep_reference p) \<in> set (searchKeys e) \<and> MIN_REFERENCE_LENGTH \<le> length (normalise (ep_reference p))"

definition fresh_entry :: "BankStatementEntry list \<Rightarrow> nat \<Rightarrow> bool" where
  "fresh_entry es n \<longleftrightarrow> fingerprint (es ! n) \<notin> fingerprint ` set (take n es)"

definition agrees :: "BankStatementEntry \<Rightarrow> ExpectedPayment \<Rightarrow> bool" where
  "agrees e p \<longleftrightarrow> be_direction e = ep_direction p \<and> be_currency e = ep_currency p \<and> be_amountMinor e = ep_amountMinor p"

definition only_quotes :: "ExpectedPayment list \<Rightarrow> BankStatementEntry \<Rightarrow> ExpectedPayment \<Rightarrow> bool" where
  "only_quotes expected e p \<longleftrightarrow> p \<in> set expected \<and> quotes e p \<and> (\<forall>q \<in> set expected. quotes e q \<longrightarrow> ep_id q = ep_id p)"

lemma byRef_get:
  "set (omap_getd (\<lambda>_. []) (byRef expected) key) = {p \<in> set expected. normalise (ep_reference p) = key \<and> MIN_REFERENCE_LENGTH \<le> length key}"
proof (induction expected rule: rev_induct)
  case Nil
  then show ?case by (simp add: byRef_def omap_getd_def)
next
  case (snoc p expected)
  have "byRef (expected @ [p]) = index_payment (byRef expected) p" by (simp add: byRef_def)
  with snoc show ?case by (auto simp: index_payment_def Let_def)
qed

lemma in_omap_put: "(i, v) \<in> set (omap_put k w m) \<Longrightarrow> (i, v) = (k, w) \<or> (i, v) \<in> set m"
  by (induction k w m rule: omap_put.induct) (auto split: if_splits)

abbreviation put_payment :: "(string, ExpectedPayment) omap \<Rightarrow> ExpectedPayment \<Rightarrow> (string, ExpectedPayment) omap" where
  "put_payment hits p \<equiv> omap_put (ep_id p) p hits"

lemma put_payments:
  "omap_ok h \<Longrightarrow> omap_ok (foldl put_payment h ps) \<and> set (omap_keys (foldl put_payment h ps)) = set (omap_keys h) \<union> ep_id ` set ps
     \<and> (\<forall>(i, p) \<in> set (foldl put_payment h ps). (i, p) \<in> set h \<or> p \<in> set ps \<and> i = ep_id p)"
proof (induction ps arbitrary: h)
  case (Cons q ps)
  from Cons.IH [of "put_payment h q"] Cons.prems show ?case by (auto dest: in_omap_put)
qed auto

lemma entry_hits_flat:
  "entry_hits idx e = foldl put_payment [] (concat (map (omap_getd (\<lambda>_. []) idx) (searchKeys e)))"
proof -
  have "foldl (\<lambda>hits key. foldl put_payment hits (omap_getd (\<lambda>_. []) idx key)) h keys
      = foldl put_payment h (concat (map (omap_getd (\<lambda>_. []) idx) keys))" for h keys
    by (induction keys arbitrary: h) simp_all
  then show ?thesis by (simp add: entry_hits_def)
qed

lemma entry_hits_props:
  "omap_ok (entry_hits (byRef expected) e)"
  "set (omap_keys (entry_hits (byRef expected) e)) = ep_id ` {p \<in> set expected. quotes e p}"
  "(i, p) \<in> set (entry_hits (byRef expected) e) \<Longrightarrow> p \<in> set expected \<and> quotes e p \<and> i = ep_id p"
proof -
  let ?ps = "concat (map (omap_getd (\<lambda>_. []) (byRef expected)) (searchKeys e))"
  have ps: "set ?ps = {p \<in> set expected. quotes e p}" by (auto simp: byRef_get quotes_def)
  note put = put_payments [of "[]" ?ps, folded entry_hits_flat, unfolded ps]
  show "omap_ok (entry_hits (byRef expected) e)"
    "set (omap_keys (entry_hits (byRef expected) e)) = ep_id ` {p \<in> set expected. quotes e p}"
    using put by simp_all
  show "(i, p) \<in> set (entry_hits (byRef expected) e) \<Longrightarrow> p \<in> set expected \<and> quotes e p \<and> i = ep_id p"
    using put by auto
qed

text \<open>The three outcomes of the lookup, as the code distinguishes them by the size of the map.\<close>

lemma entry_hits_single:
  assumes "entry_hits (byRef expected) e = [(i, p)]"
  shows "i = ep_id p \<and> only_quotes expected e p"
proof -
  have p: "p \<in> set expected" "quotes e p" "i = ep_id p"
    using entry_hits_props(3) [of i p expected e] by (simp_all add: assms)
  have keys: "ep_id ` {p \<in> set expected. quotes e p} = {i}"
    using entry_hits_props(2) [of expected e] by (simp add: assms omap_keys_def)
  have "ep_id q = i" if "q \<in> set expected" "quotes e q" for q
  proof -
    have "ep_id q \<in> ep_id ` {p \<in> set expected. quotes e p}" by (rule imageI) (simp add: that)
    then show ?thesis by (simp add: keys)
  qed
  with p show ?thesis by (simp add: only_quotes_def)
qed

lemma only_quotes_hits:
  assumes "only_quotes expected e p" "distinct (map ep_id expected)"
  shows "entry_hits (byRef expected) e = [(ep_id p, p)]"
proof -
  let ?h = "entry_hits (byRef expected) e"
  have keys: "set (omap_keys ?h) = {ep_id p}" using assms(1) unfolding entry_hits_props(2) only_quotes_def by blast
  moreover have "distinct (omap_keys ?h)" using entry_hits_props(1) by (simp add: omap_ok_def)
  ultimately have "length ?h = 1" using distinct_card [of "omap_keys ?h"] by (simp add: omap_keys_def)
  then obtain i q where h: "?h = [(i, q)]" by (auto simp: length_Suc_conv)
  then have "q \<in> set expected" "i = ep_id p" "i = ep_id q"
    using entry_hits_props(3) [of i q expected e] keys by (auto simp: omap_keys_def)
  moreover have "p \<in> set expected" using assms(1) by (simp add: only_quotes_def)
  ultimately have "q = p" using assms(2) by (auto simp: distinct_map inj_on_def)
  with h \<open>i = ep_id p\<close> show ?thesis by simp
qed

subsection \<open>One movement\<close>

lemma set_foldl_set_add: "set (foldl (\<lambda>t i. set_add i t) t is) = set t \<union> set is"
  by (induction "is" arbitrary: t) auto

lemma match_entry_finding:
  "\<exists>type payment variance. bs_findings (match_entry idx st (n, e)) = bs_findings st @ [entry_finding n e type payment variance]"
  by (auto simp: match_entry_def match_payment_def push_finding_def Let_def split: list.splits prod.splits)

lemma match_entry_seen: "set (bs_seen (match_entry idx st (n, e))) = insert (fingerprint e) (set (bs_seen st))"
  by (auto simp: match_entry_def match_payment_def push_finding_def Let_def split: list.splits prod.splits)

lemma match_entry_touched:
  "set (bs_touched (match_entry idx st (n, e))) =
     set (bs_touched st) \<union> (if fingerprint e \<in> set (bs_seen st) then {} else set (omap_keys (entry_hits idx e)))"
  if "\<And>i p. (i, p) \<in> set (entry_hits idx e) \<Longrightarrow> i = ep_id p"
  using that
  by (auto simp: match_entry_def match_payment_def push_finding_def Let_def set_foldl_set_add omap_keys_def split: list.splits prod.splits)

lemma match_entry_matched:
  assumes "bs_findings (match_entry (byRef expected) st (n, e)) = bs_findings st @ [f]"
  shows "if bf_type f = MATCHED_PAYMENT
         then \<exists>p. f = entry_finding n e MATCHED_PAYMENT (Some p) (Some 0) \<and> only_quotes expected e p \<and> agrees e p
                \<and> ep_id p \<notin> set (bs_consumed st)
                \<and> set (bs_consumed (match_entry (byRef expected) st (n, e))) = insert (ep_id p) (set (bs_consumed st))
         else bs_consumed (match_entry (byRef expected) st (n, e)) = bs_consumed st"
proof -
  consider (dup) "fingerprint e \<in> set (bs_seen st)" | (none) "entry_hits (byRef expected) e = []" "fingerprint e \<notin> set (bs_seen st)"
    | (one) i p where "entry_hits (byRef expected) e = [(i, p)]" "fingerprint e \<notin> set (bs_seen st)"
    | (many) x y zs where "entry_hits (byRef expected) e = x # y # zs" "fingerprint e \<notin> set (bs_seen st)"
    by (metis (no_types) list.exhaust prod.exhaust)
  then show ?thesis
  proof cases
    case one
    with entry_hits_single [OF one(1)] assms show ?thesis
      by (auto simp: match_entry_def match_payment_def push_finding_def Let_def entry_finding_def agrees_def split: if_splits)
  qed (use assms in \<open>auto simp: match_entry_def push_finding_def Let_def entry_finding_def split: if_splits prod.splits\<close>)
qed

subsection \<open>The loop\<close>

lemma match_entries_snoc:
  "match_entries (es @ [e]) expected al = match_entry (byRef expected) (match_entries es expected al) (length es, e)"
  by (simp add: match_entries_def enumerate_append_eq)

lemma match_entries_Nil: "match_entries [] expected al = \<lparr>bs_findings = [], bs_consumed = al, bs_touched = [], bs_seen = []\<rparr>"
  by (simp add: match_entries_def)

lemma findings_snoc:
  obtains type payment variance where
    "bs_findings (match_entries (es @ [e]) expected al) =
       bs_findings (match_entries es expected al) @ [entry_finding (length es) e type payment variance]"
  using match_entry_finding [of "byRef expected" "match_entries es expected al" "length es" e] by (auto simp: match_entries_snoc)

lemma length_findings [simp]: "length (bs_findings (match_entries es expected al)) = length es"
proof (induction es rule: rev_induct)
  case (snoc e es)
  then show ?case by (rule_tac findings_snoc [of es e expected al]) simp
qed (simp add: match_entries_Nil)

lemma findings_nth:
  "n < length es \<Longrightarrow> \<exists>type payment variance. bs_findings (match_entries es expected al) ! n = entry_finding n (es ! n) type payment variance"
proof (induction es rule: rev_induct)
  case (snoc e es)
  obtain t p v where f: "bs_findings (match_entries (es @ [e]) expected al) =
      bs_findings (match_entries es expected al) @ [entry_finding (length es) e t p v]" by (rule findings_snoc)
  show ?case
  proof (cases "n = length es")
    case True
    then show ?thesis by (auto simp: f nth_append)
  next
    case False
    with snoc show ?thesis by (simp add: f nth_append)
  qed
qed simp

lemma findings_prefix:
  "n < length es \<Longrightarrow> bs_findings (match_entries es expected al) ! n = last (bs_findings (match_entries (take (Suc n) es) expected al))"
proof (induction es rule: rev_induct)
  case (snoc e es)
  obtain t p v where f: "bs_findings (match_entries (es @ [e]) expected al) =
      bs_findings (match_entries es expected al) @ [entry_finding (length es) e t p v]" by (rule findings_snoc)
  show ?case
  proof (cases "n = length es")
    case True
    then show ?thesis by (simp add: f nth_append)
  next
    case False
    with snoc show ?thesis by (simp add: f nth_append)
  qed
qed simp

lemma seen_entries: "set (bs_seen (match_entries es expected al)) = fingerprint ` set es"
  by (induction es rule: rev_induct) (simp_all add: match_entries_Nil match_entries_snoc match_entry_seen)

lemma touched_entries:
  "i \<in> set (bs_touched (match_entries es expected al)) \<longleftrightarrow>
     (\<exists>n < length es. \<exists>p \<in> set expected. fresh_entry es n \<and> quotes (es ! n) p \<and> ep_id p = i)"
proof (induction es rule: rev_induct)
  case Nil
  then show ?case by (simp add: match_entries_Nil)
next
  case (snoc e es)
  have ids: "j = ep_id p" if "(j, p) \<in> set (entry_hits (byRef expected) e)" for j p
    using entry_hits_props(3) [OF that] by simp
  have touched: "set (bs_touched (match_entry (byRef expected) (match_entries es expected al) (length es, e))) =
      set (bs_touched (match_entries es expected al)) \<union> (if fingerprint e \<in> set (bs_seen (match_entries es expected al)) then {}
        else set (omap_keys (entry_hits (byRef expected) e)))"
    by (rule match_entry_touched) (rule ids)
  have step: "i \<in> set (bs_touched (match_entries (es @ [e]) expected al)) \<longleftrightarrow>
      i \<in> set (bs_touched (match_entries es expected al)) \<or>
      fingerprint e \<notin> fingerprint ` set es \<and> (\<exists>p \<in> set expected. quotes e p \<and> ep_id p = i)"
    unfolding match_entries_snoc touched [unfolded seen_entries entry_hits_props(2)] by auto
  have old: "fresh_entry (es @ [e]) n = fresh_entry es n" "(es @ [e]) ! n = es ! n" if "n < length es" for n
    using that by (simp_all add: fresh_entry_def nth_append)
  have new: "fresh_entry (es @ [e]) (length es) \<longleftrightarrow> fingerprint e \<notin> fingerprint ` set es" by (simp add: fresh_entry_def)
  show ?case
    unfolding step snoc length_append_singleton Ex_less_Suc using new by (simp add: old cong: conj_cong) blast
qed

lemma last_finding:
  assumes "bs_findings (match_entries (es @ [e]) expected al) = bs_findings (match_entries es expected al) @ [f]"
  shows "if bf_type f = MATCHED_PAYMENT
         then \<exists>p. f = entry_finding (length es) e MATCHED_PAYMENT (Some p) (Some 0) \<and> only_quotes expected e p \<and> agrees e p
                \<and> ep_id p \<notin> set (bs_consumed (match_entries es expected al))
                \<and> set (bs_consumed (match_entries (es @ [e]) expected al)) = insert (ep_id p) (set (bs_consumed (match_entries es expected al)))
         else bs_consumed (match_entries (es @ [e]) expected al) = bs_consumed (match_entries es expected al)"
  using assms match_entry_matched [of expected "match_entries es expected al" "length es" e f] by (simp add: match_entries_snoc)

text \<open>The payments consumed are those matched before and those matched here, each here once.\<close>

abbreviation matched_ids :: "BankMatchFinding list \<Rightarrow> string option list" where
  "matched_ids fs \<equiv> map bf_expectedId (filter (\<lambda>f. bf_type f = MATCHED_PAYMENT) fs)"

lemma consumed_entries:
  "distinct (matched_ids (bs_findings (match_entries es expected al)))
   \<and> set (bs_consumed (match_entries es expected al)) = set al \<union> {i. Some i \<in> set (matched_ids (bs_findings (match_entries es expected al)))}
   \<and> (\<forall>i. Some i \<in> set (matched_ids (bs_findings (match_entries es expected al))) \<longrightarrow> i \<notin> set al)"
proof (induction es rule: rev_induct)
  case Nil
  then show ?case by (simp add: match_entries_Nil)
next
  case (snoc e es)
  obtain t p v where f: "bs_findings (match_entries (es @ [e]) expected al) =
      bs_findings (match_entries es expected al) @ [entry_finding (length es) e t p v]" by (rule findings_snoc)
  show ?case
  proof (cases "t = MATCHED_PAYMENT")
    case True
    with last_finding [OF f] obtain q where q: "p = Some q" "ep_id q \<notin> set (bs_consumed (match_entries es expected al))"
      "set (bs_consumed (match_entries (es @ [e]) expected al)) = insert (ep_id q) (set (bs_consumed (match_entries es expected al)))"
      by (auto simp: entry_finding_def)
    have "matched_ids (bs_findings (match_entries (es @ [e]) expected al)) = matched_ids (bs_findings (match_entries es expected al)) @ [Some (ep_id q)]"
      using True q(1) by (simp add: f entry_finding_def)
    with snoc q(2,3) show ?thesis by auto
  next
    case False
    with last_finding [OF f] have "bs_consumed (match_entries (es @ [e]) expected al) = bs_consumed (match_entries es expected al)"
      by (simp add: entry_finding_def)
    moreover have "matched_ids (bs_findings (match_entries (es @ [e]) expected al)) = matched_ids (bs_findings (match_entries es expected al))"
      using False by (simp add: f entry_finding_def)
    ultimately show ?thesis using snoc by simp
  qed
qed

lemma matched_nth:
  assumes "n < length es" "bf_type (bs_findings (match_entries es expected al) ! n) = MATCHED_PAYMENT"
  shows "\<exists>p. bs_findings (match_entries es expected al) ! n = entry_finding n (es ! n) MATCHED_PAYMENT (Some p) (Some 0)
    \<and> only_quotes expected (es ! n) p \<and> agrees (es ! n) p"
proof -
  have es: "take (Suc n) es = take n es @ [es ! n]" using assms(1) by (simp add: take_Suc_conv_app_nth)
  have len: "length (take n es) = n" using assms(1) by simp
  obtain t p v where f: "bs_findings (match_entries (take n es @ [es ! n]) expected al) =
      bs_findings (match_entries (take n es) expected al) @ [entry_finding (length (take n es)) (es ! n) t p v]" by (rule findings_snoc)
  have "bs_findings (match_entries es expected al) ! n = entry_finding n (es ! n) t p v"
    using findings_prefix [OF assms(1), of expected al] unfolding es f len by simp
  then show ?thesis using last_finding [OF f] assms(2) unfolding len by auto
qed

lemma matched_fresh:
  assumes "n < length es" "bf_type (bs_findings (match_entries es expected al) ! n) = MATCHED_PAYMENT"
  shows "fresh_entry es n"
proof (rule ccontr)
  assume dup: "\<not> fresh_entry es n"
  have es: "take (Suc n) es = take n es @ [es ! n]" using assms(1) by (simp add: take_Suc_conv_app_nth)
  have len: "length (take n es) = n" using assms(1) by simp
  have "fingerprint (es ! n) \<in> set (bs_seen (match_entries (take n es) expected al))"
    using dup by (simp add: seen_entries fresh_entry_def)
  then have "bs_findings (match_entries (take (Suc n) es) expected al) =
      bs_findings (match_entries (take n es) expected al) @ [entry_finding n (es ! n) DUPLICATE_ENTRY None None]"
    unfolding es match_entries_snoc len by (simp add: match_entry_def push_finding_def)
  then show False using findings_prefix [OF assms(1), of expected al] assms(2) by (simp add: entry_finding_def)
qed

lemma missing_type: "f \<in> set (missing_payments st expected a b) \<Longrightarrow> bf_type f = EXPECTED_NOT_ON_STATEMENT"
  by (auto simp: missing_payments_def missing_finding_def)

lemma missing_finding_inj: "missing_finding p = missing_finding q \<Longrightarrow> ep_id p = ep_id q"
  by (simp add: missing_finding_def)

lemma findings_split:
  "br_findings (matchBankStatement collate entries expected from_date to_date al) =
     bs_findings (match_entries entries expected al) @ missing_payments (match_entries entries expected al) expected from_date to_date"
  by (simp add: matchBankStatement_def Let_def)

lemma entry_not_missing:
  "f \<in> set (bs_findings (match_entries es expected al)) \<Longrightarrow> bf_entryRef f \<noteq> None"
proof -
  assume "f \<in> set (bs_findings (match_entries es expected al))"
  then obtain n where n: "n < length es" "f = bs_findings (match_entries es expected al) ! n" by (auto simp: in_set_conv_nth)
  then show ?thesis using findings_nth [OF n(1), of expected al] by (auto simp: entry_finding_def)
qed

lemma same_id: "distinct (map ep_id expected) \<Longrightarrow> p \<in> set expected \<Longrightarrow> q \<in> set expected \<Longrightarrow> ep_id q = ep_id p \<Longrightarrow> q = p"
  by (auto simp: distinct_map inj_on_def)

lemma matched_quotes:
  assumes "distinct (map ep_id expected)" "p \<in> set expected" "Some (ep_id p) \<in> set (matched_ids (bs_findings (match_entries es expected al)))"
  shows "\<exists>n < length es. bf_type (bs_findings (match_entries es expected al) ! n) = MATCHED_PAYMENT \<and> quotes (es ! n) p"
proof -
  from assms(3) obtain f where f: "f \<in> set (bs_findings (match_entries es expected al))" "bf_type f = MATCHED_PAYMENT"
    "bf_expectedId f = Some (ep_id p)" by auto
  from f(1) obtain n where n: "n < length es" "f = bs_findings (match_entries es expected al) ! n" by (auto simp: in_set_conv_nth)
  have m: "bf_type (bs_findings (match_entries es expected al) ! n) = MATCHED_PAYMENT" using f(2) n(2) by simp
  obtain q where q: "f = entry_finding n (es ! n) MATCHED_PAYMENT (Some q) (Some 0)" "only_quotes expected (es ! n) q"
    using matched_nth [OF n(1) m] unfolding n(2) by blast
  have "q \<in> set expected" using q(2) unfolding only_quotes_def by blast
  moreover have "ep_id q = ep_id p" using q(1) f(3) by (simp add: entry_finding_def)
  ultimately have "q = p" by (rule same_id [OF assms(1,2)])
  with q(2) have "quotes (es ! n) p" unfolding only_quotes_def by blast
  with n(1) m show ?thesis by blast
qed

text \<open>A payment is reported missing when it is in the period and nothing consumed or touched it.\<close>

lemma missing_reported:
  assumes "distinct (map ep_id expected)" "p \<in> set expected"
  shows "missing_finding p \<in> set (br_findings (matchBankStatement collate entries expected from_date to_date al)) \<longleftrightarrow>
    from_date \<le> ep_date p \<and> ep_date p \<le> to_date \<and> ep_id p \<notin> set al
    \<and> (\<forall>n < length entries. fresh_entry entries n \<longrightarrow> \<not> quotes (entries ! n) p)"
proof -
  let ?st = "match_entries entries expected al"
  have same: "q = p" if "q \<in> set expected" "ep_id q = ep_id p" for q
    using assms that by (auto simp: distinct_map inj_on_def)
  have "missing_finding p \<notin> set (bs_findings ?st)"
    using entry_not_missing [of "missing_finding p" entries expected al] by (auto simp: missing_finding_def)
  moreover have in_missing: "missing_finding p \<in> set (missing_payments ?st expected from_date to_date) \<longleftrightarrow>
      \<not> (ep_id p \<in> set (bs_touched ?st) \<or> ep_id p \<in> set (bs_consumed ?st) \<or> ep_date p < from_date \<or> to_date < ep_date p)"
    (is "_ \<longleftrightarrow> ?P p")
  proof
    assume "missing_finding p \<in> set (missing_payments ?st expected from_date to_date)"
    then obtain q where q: "q \<in> set expected" "?P q" "missing_finding p = missing_finding q" unfolding missing_payments_def by auto
    have "q = p" by (rule same [OF q(1)]) (simp add: missing_finding_inj [OF q(3)])
    with q(2) show "?P p" by simp
  qed (use assms(2) in \<open>simp add: missing_payments_def\<close>)
  ultimately have listed: "missing_finding p \<in> set (br_findings (matchBankStatement collate entries expected from_date to_date al)) \<longleftrightarrow>
      from_date \<le> ep_date p \<and> ep_date p \<le> to_date \<and> ep_id p \<notin> set (bs_touched ?st) \<and> ep_id p \<notin> set (bs_consumed ?st)"
    unfolding findings_split set_append Un_iff in_missing by auto
  have touched: "ep_id p \<in> set (bs_touched ?st) \<longleftrightarrow> (\<exists>n < length entries. fresh_entry entries n \<and> quotes (entries ! n) p)"
    using same assms(2) by (auto simp: touched_entries)
  have here: "\<exists>n < length entries. fresh_entry entries n \<and> quotes (entries ! n) p"
    if "Some (ep_id p) \<in> set (matched_ids (bs_findings ?st))"
    using matched_quotes [OF assms that] matched_fresh by blast
  show ?thesis
    using consumed_entries [of entries expected al] touched here unfolding listed by blast
qed

lemma matched_ids_all:
  "matched_ids (br_findings (matchBankStatement collate entries expected from_date to_date al)) =
     matched_ids (bs_findings (match_entries entries expected al))"
proof -
  have "filter (\<lambda>f. bf_type f = MATCHED_PAYMENT) (missing_payments st expected from_date to_date) = []" for st
    by (auto simp: filter_empty_conv dest: missing_type)
  then show ?thesis by (simp add: findings_split)
qed

text \<open>
  C29. Matching a bank statement is exact and pays at most once: every movement has its one finding, in
  statement order and with its own currency and amount; no payment is matched by two movements or when an
  earlier statement matched it; a match means a reference of at least six characters that names this payment
  only, and equal direction, currency and amount; and an expected payment of the period is reported missing
  exactly when nothing on this statement quotes it and nothing matched it before.
\<close>

theorem bank_match_exact:
  fixes collate entries expected from_date to_date al
  defines "fs \<equiv> br_findings (matchBankStatement collate entries expected from_date to_date al)"
  assumes "distinct (map ep_id expected)"
  shows "length entries \<le> length fs \<and> distinct (matched_ids fs) \<and> (\<forall>i \<in> set al. Some i \<notin> set (matched_ids fs))
    \<and> (\<forall>n < length entries. bf_key (fs ! n) = ''entry:'' @ string_of_nat (n + 1) \<and> bf_currency (fs ! n) = be_currency (entries ! n)
          \<and> bf_bankMinor (fs ! n) = Some (be_amountMinor (entries ! n))
          \<and> (bf_type (fs ! n) = MATCHED_PAYMENT \<longrightarrow>
               (\<exists>p. bf_expectedId (fs ! n) = Some (ep_id p) \<and> only_quotes expected (entries ! n) p \<and> agrees (entries ! n) p)))
    \<and> (\<forall>p \<in> set expected. missing_finding p \<in> set fs \<longleftrightarrow> from_date \<le> ep_date p \<and> ep_date p \<le> to_date \<and> ep_id p \<notin> set al
          \<and> (\<forall>n < length entries. fresh_entry entries n \<longrightarrow> \<not> quotes (entries ! n) p))"
proof -
  let ?bs = "bs_findings (match_entries entries expected al)"
  have nth: "fs ! n = ?bs ! n" if "n < length entries" for n using that by (simp add: fs_def findings_split nth_append)
  have row: "bf_key (fs ! n) = ''entry:'' @ string_of_nat (n + 1)" "bf_currency (fs ! n) = be_currency (entries ! n)"
      "bf_bankMinor (fs ! n) = Some (be_amountMinor (entries ! n))" if "n < length entries" for n
    using findings_nth [OF that, of expected al] by (auto simp: nth [OF that] entry_finding_def)
  have "\<exists>p. bf_expectedId (fs ! n) = Some (ep_id p) \<and> only_quotes expected (entries ! n) p \<and> agrees (entries ! n) p"
    if "n < length entries" "bf_type (fs ! n) = MATCHED_PAYMENT" for n
    using matched_nth [of n entries expected al] that nth by (auto simp: entry_finding_def)
  moreover have "length entries \<le> length fs" by (simp add: fs_def findings_split)
  moreover have "distinct (matched_ids fs)" "\<forall>i \<in> set al. Some i \<notin> set (matched_ids fs)"
    using consumed_entries [of entries expected al] unfolding fs_def matched_ids_all by blast+
  ultimately show ?thesis using row missing_reported [OF assms(2)] unfolding fs_def by blast
qed


definition sample_payments :: "ExpectedPayment list" where
  "sample_payments =
     [\<lparr>ep_id = ''p1'', ep_kind = FUNDING_RECEIPT, ep_reference = ''INV-2024/001'', ep_currency = ''AED'', ep_amountMinor = 5, ep_direction = CREDIT,
       ep_date = ''2024-05-02''\<rparr>,
      \<lparr>ep_id = ''p2'', ep_kind = SUPPLIER_SETTLEMENT, ep_reference = ''SET778899'', ep_currency = ''AED'', ep_amountMinor = 9, ep_direction = DEBIT,
       ep_date = ''2024-05-03''\<rparr>]"

definition sample_statement :: "BankStatementEntry list" where
  "sample_statement =
     [\<lparr>be_entryRef = ''s:1'', be_direction = CREDIT, be_currency = ''AED'', be_amountMinor = 5, be_bookingDate = ''2024-05-02'',
       be_valueDate = ''2024-05-02'', be_references = [], be_remittanceInfo = ''payment inv 2024 001 thanks''\<rparr>,
      \<lparr>be_entryRef = ''s:2'', be_direction = CREDIT, be_currency = ''AED'', be_amountMinor = 5, be_bookingDate = ''2024-05-04'',
       be_valueDate = ''2024-05-04'', be_references = [''INV2024001''], be_remittanceInfo = []\<rparr>]"

lemma bank_match_exact_witness:
  "map bf_type (br_findings (matchBankStatement cmp_text sample_statement sample_payments ''2024-05-01'' ''2024-05-31'' [])) =
     [MATCHED_PAYMENT, DUPLICATE_PAYMENT, EXPECTED_NOT_ON_STATEMENT]
   \<and> distinct (matched_ids (br_findings (matchBankStatement cmp_text sample_statement sample_payments ''2024-05-01'' ''2024-05-31'' [])))"
proof -
  have "distinct (map ep_id sample_payments)" by (simp add: sample_payments_def)
  moreover have "map bf_type (br_findings (matchBankStatement cmp_text sample_statement sample_payments ''2024-05-01'' ''2024-05-31'' [])) =
     [MATCHED_PAYMENT, DUPLICATE_PAYMENT, EXPECTED_NOT_ON_STATEMENT]" by code_simp
  moreover from calculation(1)
  have "distinct (matched_ids (br_findings (matchBankStatement cmp_text sample_statement sample_payments ''2024-05-01'' ''2024-05-31'' [])))"
    by (rule bank_match_exact [THEN conjunct2, THEN conjunct1])
  ultimately show ?thesis by (intro conjI)
qed


end
