(* ===== verification/Settlement_Fx.thy ===== *)
theory Settlement_Fx
  imports Money
begin

text \<open>
  Settlement currency conversion: the margin-protected conversion of \<open>packages/pricing/src/fx.ts\<close> and the
  booking conversion of \<open>apps/api/src/supply/fx.ts\<close>, with the decimal text of a rate. All amounts and
  rates are \<open>bigint\<close>; basis points and times are numbers the code tests with \<open>Number.isSafeInteger\<close>.
\<close>

subsection \<open>Conversion with a margin\<close>

definition FX_RATE_SCALE :: int where "FX_RATE_SCALE = 100000000"
definition FX_MAX_TOTAL_MARGIN_BP :: int where "FX_MAX_TOTAL_MARGIN_BP = 2500"

record FxQuoteWithMargin =
  fxm_from :: string
  fxm_to :: string
  fxm_rateScaled :: int
  fxm_bufferBp :: jsnum
  fxm_volatilityBp :: jsnum
  fxm_asOfMs :: jsnum
  fxm_maxAgeMs :: jsnum

definition assertBp :: "string \<Rightarrow> jsnum \<Rightarrow> unit result" where
  "assertBp name v =
     (if \<not> isSafeInteger v \<or> int_of_num v < 0 then Inl (Error (name @ '' must be a non-negative integer'')) else Inr ())"

definition convertWithMargin :: "int \<Rightarrow> FxQuoteWithMargin \<Rightarrow> int \<Rightarrow> int result" where
  "convertWithMargin amount fx nowMs =
     ebind (assertBp ''bufferBp'' (fxm_bufferBp fx)) (\<lambda>_.
     ebind (assertBp ''volatilityBp'' (fxm_volatilityBp fx)) (\<lambda>_.
     let margin = int_of_num (fxm_bufferBp fx) + int_of_num (fxm_volatilityBp fx) in
     if margin > FX_MAX_TOTAL_MARGIN_BP then Inl (Error ''FX buffer plus volatility margin exceeds the allowed maximum'')
     else if fxm_rateScaled fx \<le> 0 then Inl (Error ''FX rate must be positive'')
     else if amount < 0 then Inl (Error ''Amount must not be negative'')
     else if \<not> isSafeInteger (fxm_asOfMs fx) \<or> \<not> isSafeInteger (fxm_maxAgeMs fx) \<or> int_of_num (fxm_maxAgeMs fx) < 0
     then Inl (Error ''FX freshness window is invalid'')
     else if nowMs - int_of_num (fxm_asOfMs fx) > int_of_num (fxm_maxAgeMs fx) then Inl (Error ''FX rate is stale'')
     else if nowMs < int_of_num (fxm_asOfMs fx) then Inl (Error ''FX rate is dated in the future'')
     else
       ebind (minorUnitExponent (fxm_from fx)) (\<lambda>from_exp.
       ebind (minorUnitExponent (fxm_to fx)) (\<lambda>to_exp.
       let numerator = amount * fxm_rateScaled fx * (10000 + margin) * 10 ^ to_exp;
           denominator = FX_RATE_SCALE * 10000 * 10 ^ from_exp in
       Inr ((numerator + denominator div 2) div denominator)))))"

subsection \<open>Corridors\<close>

definition FX_STABLE_MAJORS :: "string list" where
  "FX_STABLE_MAJORS = [''USD'', ''AED'', ''EUR'', ''GBP'']"

definition HOUR_MS :: int where "HOUR_MS = 3600000"

datatype FxCorridor = STABLE | EMERGING

record FxCorridorPolicy =
  fxp_corridor :: FxCorridor
  fxp_minVolatilityBp :: int
  fxp_maxVolatilityBp :: int
  fxp_maxAgeMs :: int
  fxp_hardExpireMs :: int

definition fxCorridorPolicy :: "string \<Rightarrow> string \<Rightarrow> FxCorridorPolicy" where
  "fxCorridorPolicy from_cur to_cur =
     (if from_cur \<in> set FX_STABLE_MAJORS \<and> to_cur \<in> set FX_STABLE_MAJORS
      then \<lparr>fxp_corridor = STABLE, fxp_minVolatilityBp = 30, fxp_maxVolatilityBp = 50, fxp_maxAgeMs = 4 * HOUR_MS, fxp_hardExpireMs = 12 * HOUR_MS\<rparr>
      else \<lparr>fxp_corridor = EMERGING, fxp_minVolatilityBp = 100, fxp_maxVolatilityBp = 150, fxp_maxAgeMs = 1 * HOUR_MS, fxp_hardExpireMs = 12 * HOUR_MS\<rparr>)"

datatype FxRateFreshness = FRESH | STALE | EXPIRED

definition fxRateFreshness :: "FxCorridorPolicy \<Rightarrow> int \<Rightarrow> int \<Rightarrow> FxRateFreshness" where
  "fxRateFreshness policy asOfMs nowMs =
     (let age = nowMs - asOfMs in
      if age > fxp_hardExpireMs policy then EXPIRED else if age > fxp_maxAgeMs policy then STALE else FRESH)"

fun corridor_text :: "FxCorridor \<Rightarrow> string" where
  "corridor_text STABLE = ''stable''"
| "corridor_text EMERGING = ''emerging''"

definition fxVolatilityOutOfBand :: "FxCorridorPolicy \<Rightarrow> int \<Rightarrow> string option" where
  "fxVolatilityOutOfBand policy volatilityBp =
     (if volatilityBp < fxp_minVolatilityBp policy \<or> volatilityBp > fxp_maxVolatilityBp policy
      then Some (''Volatility margin '' @ string_of_int volatilityBp @ '' bp is outside the '' @ corridor_text (fxp_corridor policy) @
             '' corridor band '' @ string_of_int (fxp_minVolatilityBp policy) @ '' to '' @ string_of_int (fxp_maxVolatilityBp policy) @ '' bp'')
      else None)"

subsection \<open>Conversion at booking\<close>

definition RATE_SCALE :: int where "RATE_SCALE = 100000000"

record FxQuote =
  fx_from :: string
  fx_to :: string
  fx_rateScaled :: int
  fx_bufferBp :: int

definition convertMinor :: "int \<Rightarrow> FxQuote \<Rightarrow> int result" where
  "convertMinor amount fx =
     ebind (minorUnitExponent (fx_from fx)) (\<lambda>from_exp.
     ebind (minorUnitExponent (fx_to fx)) (\<lambda>to_exp.
     let numerator = amount * fx_rateScaled fx * (10000 + fx_bufferBp fx) * 10 ^ to_exp;
         denominator = RATE_SCALE * 10000 * 10 ^ from_exp;
         sign = (if numerator < 0 then -1 else 1);
         absolute = (if numerator < 0 then - numerator else numerator) in
     Inr (sign * ((absolute + denominator div 2) div denominator))))"

text \<open>Rates and buffers are not negative here (they come from \<open>parseRate\<close> and a checked column).\<close>

definition effectiveRateDecimal :: "int \<Rightarrow> int \<Rightarrow> string" where
  "effectiveRateDecimal rateScaled bufferBp =
     (let scaled = (rateScaled * (10000 + bufferBp) + 5000) div 10000;
          whole = scaled div RATE_SCALE;
          fraction = padStart 8 (CHR ''0'') (string_of_int (scaled mod RATE_SCALE)) in
      string_of_int whole @ ''.'' @ fraction)"

text \<open>The pattern \<open>/^(\d{1,9})(?:\.(\d{1,8}))?$/\<close>.\<close>

definition RATE_TEXT :: "string \<Rightarrow> (string \<times> string option) option" where
  "RATE_TEXT s =
     (let whole = takeWhile is_digit s; rest = dropWhile is_digit s in
      if whole = [] \<or> length whole > 9 then None
      else case rest of
             [] \<Rightarrow> Some (whole, None)
           | c # fraction \<Rightarrow>
               if c = CHR ''.'' \<and> fraction \<noteq> [] \<and> length fraction \<le> 8 \<and> list_all is_digit fraction then Some (whole, Some fraction) else None)"

definition parseRate :: "string \<Rightarrow> int option" where
  "parseRate text_in =
     (case RATE_TEXT (trim text_in) of
        None \<Rightarrow> None
      | Some (whole, frac) \<Rightarrow>
          let v = int (nat_of_digits whole) * RATE_SCALE
                + int (nat_of_digits (padEnd 8 (CHR ''0'') (case frac of None \<Rightarrow> [] | Some f \<Rightarrow> f))) in
          if v > 0 then Some v else None)"

subsection \<open>Rounding\<close>

lemma round_half_up_nearest:
  assumes "0 < (d :: int)" "even d"
  shows "2 * n - d < 2 * (d * ((n + d div 2) div d))" and "2 * (d * ((n + d div 2) div d)) \<le> 2 * n + d"
proof -
  let ?q = "(n + d div 2) div d"
  have "d * ?q + (n + d div 2) mod d = n + d div 2" by (rule mult_div_mod_eq)
  moreover have "0 \<le> (n + d div 2) mod d" "(n + d div 2) mod d < d" using assms(1) by simp_all
  moreover have "2 * (d div 2) = d" using assms(2) by simp
  ultimately show "2 * n - d < 2 * (d * ?q)" "2 * (d * ?q) \<le> 2 * n + d" by linarith+
qed

lemma round_half_up_mono: "0 < (d :: int) \<Longrightarrow> m \<le> n \<Longrightarrow> (m + d div 2) div d \<le> (n + d div 2) div d"
  by (intro zdiv_mono1) simp_all

lemma convertWithMargin_Inr:
  assumes "convertWithMargin amount fx nowMs = Inr r"
  shows "\<exists>buf vol asOf maxAge ef et. fxm_bufferBp fx = JInt buf \<and> fxm_volatilityBp fx = JInt vol \<and> 0 \<le> buf \<and> 0 \<le> vol
    \<and> buf + vol \<le> FX_MAX_TOTAL_MARGIN_BP \<and> 0 < fxm_rateScaled fx \<and> 0 \<le> amount
    \<and> fxm_asOfMs fx = JInt asOf \<and> fxm_maxAgeMs fx = JInt maxAge \<and> asOf \<le> nowMs \<and> nowMs - asOf \<le> maxAge
    \<and> minorUnitExponent (fxm_from fx) = Inr ef \<and> minorUnitExponent (fxm_to fx) = Inr et
    \<and> r = (amount * fxm_rateScaled fx * (10000 + (buf + vol)) * 10 ^ et + (FX_RATE_SCALE * 10000 * 10 ^ ef) div 2)
            div (FX_RATE_SCALE * 10000 * 10 ^ ef)"
  using assms
  by (auto simp: convertWithMargin_def assertBp_def Let_def result_simps isSafeInteger_iff split: if_splits)

definition booking_quote :: "FxQuoteWithMargin \<Rightarrow> FxQuote" where
  "booking_quote fx = \<lparr>fx_from = fxm_from fx, fx_to = fxm_to fx, fx_rateScaled = fxm_rateScaled fx,
     fx_bufferBp = int_of_num (fxm_bufferBp fx)\<rparr>"

text \<open>
  A converted amount is fresh, nearest and never short: when the margin conversion returns, the rate
  was no older than allowed and not from the future, the result is the nearest minor unit to the exact
  product at the widened rate, it is never below what the booking conversion gives at the same buffer, and
  with no volatility margin the two conversions agree.
\<close>

theorem fx_conversion_sound:
  assumes "convertWithMargin amount fx nowMs = Inr r"
  shows "int_of_num (fxm_asOfMs fx) \<le> nowMs \<and> nowMs - int_of_num (fxm_asOfMs fx) \<le> int_of_num (fxm_maxAgeMs fx)
    \<and> (\<exists>ef et m. minorUnitExponent (fxm_from fx) = Inr ef \<and> minorUnitExponent (fxm_to fx) = Inr et
        \<and> \<bar>2 * (amount * fxm_rateScaled fx * (10000 + int_of_num (fxm_bufferBp fx) + int_of_num (fxm_volatilityBp fx)) * 10 ^ et)
             - 2 * (FX_RATE_SCALE * 10000 * 10 ^ ef * r)\<bar> \<le> FX_RATE_SCALE * 10000 * 10 ^ ef
        \<and> convertMinor amount (booking_quote fx) = Inr m \<and> 0 \<le> m \<and> m \<le> r
        \<and> (fxm_volatilityBp fx = JInt 0 \<longrightarrow> m = r))"
proof -
  obtain buf vol asOf maxAge ef et where
    fx: "fxm_bufferBp fx = JInt buf" "fxm_volatilityBp fx = JInt vol" "0 \<le> buf" "0 \<le> vol" "0 < fxm_rateScaled fx" "0 \<le> amount"
      "fxm_asOfMs fx = JInt asOf" "fxm_maxAgeMs fx = JInt maxAge" "asOf \<le> nowMs" "nowMs - asOf \<le> maxAge"
    and ef: "minorUnitExponent (fxm_from fx) = Inr ef" "minorUnitExponent (fxm_to fx) = Inr et"
    and r: "r = (amount * fxm_rateScaled fx * (10000 + (buf + vol)) * 10 ^ et + (FX_RATE_SCALE * 10000 * 10 ^ ef) div 2)
            div (FX_RATE_SCALE * 10000 * 10 ^ ef)"
    using convertWithMargin_Inr [OF assms] by blast
  define d where "d = FX_RATE_SCALE * 10000 * 10 ^ ef"
  define n0 where "n0 = amount * fxm_rateScaled fx * (10000 + buf) * 10 ^ et"
  define n where "n = amount * fxm_rateScaled fx * (10000 + (buf + vol)) * 10 ^ et"
  have d: "0 < d" "even d" by (simp_all add: d_def FX_RATE_SCALE_def)
  have n: "n = n0 + amount * fxm_rateScaled fx * vol * 10 ^ et" by (simp add: n_def n0_def algebra_simps)
  have n0: "0 \<le> n0" "n0 \<le> n" unfolding n using fx by (simp_all add: n0_def)
  have r': "r = (n + d div 2) div d" by (simp add: r n_def d_def)
  have "\<not> n0 < 0" using n0(1) by simp
  moreover have "n0 = amount * fxm_rateScaled fx * (10000 + buf) * 10 ^ et" "d = RATE_SCALE * 10000 * 10 ^ ef"
    by (simp_all add: n0_def d_def FX_RATE_SCALE_def RATE_SCALE_def)
  ultimately have m: "convertMinor amount (booking_quote fx) = Inr ((n0 + d div 2) div d)"
    by (simp add: convertMinor_def booking_quote_def fx(1) ef Let_def)
  have m_le: "0 \<le> (n0 + d div 2) div d" "(n0 + d div 2) div d \<le> r"
    using d n0 unfolding r' by (simp_all add: pos_imp_zdiv_nonneg_iff round_half_up_mono)
  have same: "(n0 + d div 2) div d = r" if "vol = 0" using that n by (simp add: r')
  have near: "\<bar>2 * n - 2 * (d * r)\<bar> \<le> d" using round_half_up_nearest [OF d, of n] unfolding r' by linarith
  show ?thesis
    using fx(9,10) ef m m_le same near by (auto simp: fx(1,2,7,8) n_def d_def add.assoc)
qed

definition sample_fx :: FxQuoteWithMargin where
  "sample_fx = \<lparr>fxm_from = ''USD'', fxm_to = ''JPY'', fxm_rateScaled = 15012345678, fxm_bufferBp = JInt 50, fxm_volatilityBp = JInt 30,
     fxm_asOfMs = JInt 1000, fxm_maxAgeMs = JInt 3600000\<rparr>"

lemma fx_conversion_sound_witness:
  "convertWithMargin 10000 sample_fx 2000 = Inr 15132 \<and> (\<exists>m. convertMinor 10000 (booking_quote sample_fx) = Inr m \<and> m \<le> 15132)"
proof -
  have ok: "convertWithMargin 10000 sample_fx 2000 = Inr 15132" by code_simp
  show ?thesis using fx_conversion_sound [OF ok] ok by blast
qed

subsection \<open>Rate text\<close>

lemma RATE_TEXT_fraction:
  assumes "list_all is_digit w" "w \<noteq> []" "length w \<le> 9" "list_all is_digit f" "f \<noteq> []" "length f \<le> 8"
  shows "RATE_TEXT (w @ ''.'' @ f) = Some (w, Some f)"
proof -
  have "\<not> is_digit (CHR ''.'')" by (simp add: is_digit_def char_code_def)
  with assms(1) have "takeWhile is_digit (w @ ''.'' @ f) = w" "dropWhile is_digit (w @ ''.'' @ f) = ''.'' @ f"
    by (simp_all add: list_all_iff takeWhile_append dropWhile_append)
  with assms show ?thesis by (simp add: RATE_TEXT_def)
qed

text \<open>
  A rate written as the eight-place decimal text a booking freezes reads back as the same scaled rate,
  for every positive rate of at most nine whole digits.
\<close>

theorem rate_text_roundtrip:
  assumes "0 < r" "r < 10 ^ 9 * RATE_SCALE"
  shows "parseRate (effectiveRateDecimal r 0) = Some r"
proof -
  define w where "w = nat (r div RATE_SCALE)"
  define f where "f = nat (r mod RATE_SCALE)"
  let ?w = "string_of_nat w" and ?f = "padStart 8 (CHR ''0'') (string_of_nat f)"
  have q: "0 \<le> r div RATE_SCALE" "r div RATE_SCALE < 10 ^ 9" "0 \<le> r mod RATE_SCALE" "r mod RATE_SCALE < 10 ^ 8"
    using assms by (simp_all add: RATE_SCALE_def)
  have r: "int w * RATE_SCALE + int f = r" using q by (simp add: w_def f_def)
  have w: "w < 10 ^ 9" and f: "f < 10 ^ 8" using q by (simp_all add: w_def f_def nat_less_iff)
  have text_eq: "effectiveRateDecimal r 0 = ?w @ ''.'' @ ?f"
    using q by (simp add: effectiveRateDecimal_def Let_def string_of_int_def w_def f_def)
  have lens: "length ?w \<le> 9" "length ?f = 8"
    using length_string_of_nat_le [OF w] length_string_of_nat_le [OF f] by simp_all
  have ne: "?f \<noteq> []" using lens(2) by (metis list.size(3) zero_neq_numeral)
  have digits: "list_all is_digit ?w" "list_all is_digit ?f" by (simp_all add: string_of_nat_digits list_all_digit_padStart)
  have "trim (?w @ ''.'' @ ?f) = ?w @ ''.'' @ ?f"
    by (rule trim_id) (use digits in \<open>simp add: list_all_digit_not_space dot_not_space\<close>)
  moreover have "RATE_TEXT (?w @ ''.'' @ ?f) = Some (?w, Some ?f)"
    by (rule RATE_TEXT_fraction [OF digits(1) string_of_nat_nonempty lens(1) digits(2) ne]) (simp only: lens(2) order_refl)
  moreover have "padEnd 8 (CHR ''0'') ?f = ?f" using lens(2) by (simp add: padEnd_def)
  ultimately show ?thesis using assms(1) r unfolding parseRate_def text_eq by (simp add: Let_def)
qed

lemma rate_text_roundtrip_witness: "parseRate (effectiveRateDecimal 367250000 0) = Some 367250000"
  by (rule rate_text_roundtrip) (simp_all add: RATE_SCALE_def)

end
