(* ===== verification/Pricing.thy ===== *)
theory Pricing
  imports Money "HOL-Library.Signed_Division"
begin

text \<open>
  Selling prices (\<open>packages/pricing/src/{markup,cascade,guards}.ts\<close>): the percent markup, the cascade of
  markup layers with its trace, the choice of one rule per layer, and the margin and parity guards.
  A \<open>bigint\<close> division is \<open>sdiv\<close> where its numerator can be negative. \<open>collate\<close> stands for \<open>localeCompare\<close>.
\<close>

subsection \<open>Percent markup\<close>

definition MAX_MARKUP_BASIS_POINTS :: int where "MAX_MARKUP_BASIS_POINTS = 10000"

definition bp_ok :: "jsnum \<Rightarrow> bool" where
  "bp_ok bp \<longleftrightarrow> isSafeInteger bp \<and> 0 \<le> int_of_num bp \<and> int_of_num bp \<le> MAX_MARKUP_BASIS_POINTS"

definition markupMinor :: "int \<Rightarrow> jsnum \<Rightarrow> int result" where
  "markupMinor net bp =
     (if \<not> bp_ok bp then Inl (Error ''Markup basis points must be an integer from 0 to 10000'')
      else if net < 0 then Inl (Error ''Net amount must not be negative'')
      else Inr ((net * int_of_num bp + 5000) div 10000))"

definition applyPercentMarkup :: "Money \<Rightarrow> jsnum \<Rightarrow> Money result" where
  "applyPercentMarkup net bp =
     ebind (markupMinor (amountMinor net) bp) (\<lambda>markup.
       let sell = amountMinor net + markup in
       if sell > MAX_SAFE_INTEGER then Inl (Error ''Marked-up amount exceeds the safe integer range'')
       else money (JInt sell) (currency net))"

subsection \<open>The cascade\<close>

datatype MarkupLayerName = SUPPLIER_CONTRACT | AGENCY_TIER | CLIENT | GLOBAL_OVERRIDE

definition MARKUP_LAYERS :: "MarkupLayerName list" where
  "MARKUP_LAYERS = [SUPPLIER_CONTRACT, AGENCY_TIER, CLIENT, GLOBAL_OVERRIDE]"

fun layer_text :: "MarkupLayerName \<Rightarrow> string" where
  "layer_text SUPPLIER_CONTRACT = ''SUPPLIER_CONTRACT''"
| "layer_text AGENCY_TIER = ''AGENCY_TIER''"
| "layer_text CLIENT = ''CLIENT''"
| "layer_text GLOBAL_OVERRIDE = ''GLOBAL_OVERRIDE''"

datatype percent_base = RUNNING | NET

datatype LayerAdjustment =
    PERCENT jsnum percent_base
  | FIXED int
  | SET_SELL int

datatype layer_kind = K_PERCENT | K_FIXED | K_SET_SELL

fun kind_of :: "LayerAdjustment \<Rightarrow> layer_kind" where
  "kind_of (PERCENT _ _) = K_PERCENT"
| "kind_of (FIXED _) = K_FIXED"
| "kind_of (SET_SELL _) = K_SET_SELL"

record MarkupLayer =
  ml_layer :: MarkupLayerName
  ml_ruleId :: string
  ml_adjustment :: LayerAdjustment

record LayerTraceStep =
  ts_layer :: MarkupLayerName
  ts_ruleId :: string
  ts_kind :: layer_kind
  ts_beforeMinor :: int
  ts_deltaMinor :: int
  ts_afterMinor :: int

record CascadeResult =
  cr_netMinor :: int
  cr_sellMinor :: int
  cr_markupMinor :: int
  cr_trace :: "LayerTraceStep list"

fun ORDER :: "MarkupLayerName \<Rightarrow> int" where
  "ORDER SUPPLIER_CONTRACT = 0"
| "ORDER AGENCY_TIER = 1"
| "ORDER CLIENT = 2"
| "ORDER GLOBAL_OVERRIDE = 3"

record cascade_state =
  cs_running :: int
  cs_previous :: int
  cs_trace :: "LayerTraceStep list"

fun adjusted_amount :: "int \<Rightarrow> MarkupLayerName \<Rightarrow> int \<Rightarrow> LayerAdjustment \<Rightarrow> int result" where
  "adjusted_amount net layer running (PERCENT bp base) =
     (if \<not> bp_ok bp then Inl (Error ''Markup basis points must be an integer from 0 to 10000'')
      else ebind (markupMinor (if base = NET then net else running) bp) (\<lambda>m. Inr (running + m)))"
| "adjusted_amount net layer running (FIXED amount) =
     (if amount < 0 then Inl (Error ''A fixed markup must not be negative'') else Inr (running + amount))"
| "adjusted_amount net layer running (SET_SELL amount) =
     (if layer \<noteq> GLOBAL_OVERRIDE then Inl (Error ''Only the global override layer may set the sell amount'') else Inr amount)"

definition cascade_step :: "int \<Rightarrow> cascade_state \<Rightarrow> MarkupLayer \<Rightarrow> cascade_state result" where
  "cascade_step net st l =
     (if ORDER (ml_layer l) \<le> cs_previous st
      then Inl (Error (''Markup layer '' @ layer_text (ml_layer l) @ '' is repeated or out of order''))
      else ebind (adjusted_amount net (ml_layer l) (cs_running st) (ml_adjustment l)) (\<lambda>next_amount.
        if next_amount < net then Inl (Error (''Layer '' @ layer_text (ml_layer l) @ '' would sell below net''))
        else Inr \<lparr>cs_running = next_amount, cs_previous = ORDER (ml_layer l),
               cs_trace = cs_trace st @ [\<lparr>ts_layer = ml_layer l, ts_ruleId = ml_ruleId l, ts_kind = kind_of (ml_adjustment l),
                 ts_beforeMinor = cs_running st, ts_deltaMinor = next_amount - cs_running st, ts_afterMinor = next_amount\<rparr>]\<rparr>))"

definition applyMarkupCascade :: "int \<Rightarrow> MarkupLayer list \<Rightarrow> CascadeResult result" where
  "applyMarkupCascade net layers =
     (if net < 1 then Inl (Error ''Net amount must be at least one minor unit'')
      else ebind (efold (cascade_step net) \<lparr>cs_running = net, cs_previous = -1, cs_trace = []\<rparr> layers) (\<lambda>st.
        Inr \<lparr>cr_netMinor = net, cr_sellMinor = cs_running st, cr_markupMinor = cs_running st - net, cr_trace = cs_trace st\<rparr>))"

subsection \<open>Rules\<close>

record CascadeTarget =
  ct_supplierId :: string
  ct_hotelId :: string
  ct_countryCode :: string
  ct_city :: string
  ct_starRating :: "int option"
  ct_chainCode :: "string option"
  ct_agencyId :: "string option"
  ct_agencyTierId :: "string option"

record CascadeRule =
  rl_ruleId :: string
  rl_layer :: MarkupLayerName
  rl_adjustment :: LayerAdjustment
  rl_supplierId :: "string option"
  rl_hotelId :: "string option"
  rl_countryCode :: "string option"
  rl_city :: "string option"
  rl_starRating :: "int option"
  rl_chainCode :: "string option"
  rl_agencyId :: "string option"
  rl_agencyTierId :: "string option"

text \<open>A target field of a rule is \<open>None\<close> when the rule does not name it.\<close>

definition field_ok :: "'a option \<Rightarrow> 'a option \<Rightarrow> bool" where
  "field_ok wanted actual \<longleftrightarrow> wanted = None \<or> wanted = actual"

definition rule_matches :: "CascadeRule \<Rightarrow> CascadeTarget \<Rightarrow> bool" where
  "rule_matches r t \<longleftrightarrow> field_ok (rl_supplierId r) (Some (ct_supplierId t)) \<and> field_ok (rl_hotelId r) (Some (ct_hotelId t))
     \<and> field_ok (rl_countryCode r) (Some (ct_countryCode t)) \<and> field_ok (rl_city r) (Some (ct_city t))
     \<and> field_ok (rl_starRating r) (ct_starRating t) \<and> field_ok (rl_chainCode r) (ct_chainCode t)
     \<and> field_ok (rl_agencyId r) (ct_agencyId t) \<and> field_ok (rl_agencyTierId r) (ct_agencyTierId t)"

definition specificity :: "CascadeRule \<Rightarrow> nat" where
  "specificity r = length (filter (\<lambda>named. named)
     [rl_supplierId r \<noteq> None, rl_hotelId r \<noteq> None, rl_countryCode r \<noteq> None, rl_city r \<noteq> None, rl_starRating r \<noteq> None,
      rl_chainCode r \<noteq> None, rl_agencyId r \<noteq> None, rl_agencyTierId r \<noteq> None])"

definition layer_candidates :: "CascadeRule list \<Rightarrow> CascadeTarget \<Rightarrow> MarkupLayerName \<Rightarrow> CascadeRule list" where
  "layer_candidates rules target layer = filter (\<lambda>r. rl_layer r = layer \<and> rule_matches r target) rules"

definition choose_layer :: "CascadeRule list \<Rightarrow> CascadeTarget \<Rightarrow> MarkupLayer list \<Rightarrow> MarkupLayerName \<Rightarrow> MarkupLayer list result" where
  "choose_layer rules target chosen layer =
     (let candidates = layer_candidates rules target layer in
      if candidates = [] then Inr chosen
      else
        let top = fold max (map specificity candidates) 0;
            best = filter (\<lambda>r. specificity r = top) candidates in
        if length best > 1
        then Inl (Error (''Ambiguous '' @ layer_text layer @ '' rules: '' @ join_text '', '' (js_sort cmp_text (map rl_ruleId best))))
        else Inr (chosen @ [\<lparr>ml_layer = layer, ml_ruleId = rl_ruleId (hd best), ml_adjustment = rl_adjustment (hd best)\<rparr>]))"

definition selectCascadeLayers :: "CascadeRule list \<Rightarrow> CascadeTarget \<Rightarrow> MarkupLayer list result" where
  "selectCascadeLayers rules target = efold (choose_layer rules target) [] MARKUP_LAYERS"

subsection \<open>Guards\<close>

datatype GuardSeverity = FAIL | WARN

record MarginFloor =
  mf_minMarginBp :: int
  mf_minMarginMinor :: int
  mf_blockBelowBp :: "int option"

definition marginBp :: "int \<Rightarrow> int \<Rightarrow> int option" where
  "marginBp net sell = (if sell \<le> 0 then None else Some (((sell - net) * 10000 * 2 + sell) sdiv (sell * 2)))"

definition warnBelowBp :: int where "warnBelowBp = 800"
definition blockBelowBp :: int where "blockBelowBp = 300"
definition DEFAULT_PARITY_TOLERANCE_BP :: int where "DEFAULT_PARITY_TOLERANCE_BP = 50"

datatype margin_code = MARGIN_NEGATIVE | MARGIN_BLOCKED | MARGIN_SQUEEZE

record MarginFinding =
  gf_code :: margin_code
  gf_severity :: GuardSeverity
  gf_marginBp :: "int option"
  gf_marginMinor :: int

definition checkMargin :: "int \<Rightarrow> int \<Rightarrow> MarginFloor \<Rightarrow> MarginFinding option" where
  "checkMargin net sell floor_policy =
     (let marginMinor = sell - net; bp = marginBp net sell in
      if marginMinor < 0 \<or> bp = None
      then Some \<lparr>gf_code = MARGIN_NEGATIVE, gf_severity = FAIL, gf_marginBp = bp, gf_marginMinor = marginMinor\<rparr>
      else if mf_blockBelowBp floor_policy \<noteq> None \<and> the bp < the (mf_blockBelowBp floor_policy)
      then Some \<lparr>gf_code = MARGIN_BLOCKED, gf_severity = FAIL, gf_marginBp = bp, gf_marginMinor = marginMinor\<rparr>
      else if the bp < mf_minMarginBp floor_policy \<or> marginMinor < mf_minMarginMinor floor_policy
      then Some \<lparr>gf_code = MARGIN_SQUEEZE, gf_severity = WARN, gf_marginBp = bp, gf_marginMinor = marginMinor\<rparr>
      else None)"

record ChannelPrice =
  cp_channel :: string
  cp_sellMinor :: int

record ParityFinding =
  pf_severity :: GuardSeverity
  pf_lowestChannel :: string
  pf_highestChannel :: string
  pf_spreadBp :: int

definition cmp_price :: "(string \<Rightarrow> string \<Rightarrow> int) \<Rightarrow> ChannelPrice \<Rightarrow> ChannelPrice \<Rightarrow> int" where
  "cmp_price collate a b =
     (if cp_sellMinor a < cp_sellMinor b then -1 else if cp_sellMinor b < cp_sellMinor a then 1 else collate (cp_channel a) (cp_channel b))"

definition checkChannelParity :: "(string \<Rightarrow> string \<Rightarrow> int) \<Rightarrow> ChannelPrice list \<Rightarrow> jsnum \<Rightarrow> ParityFinding option result" where
  "checkChannelParity collate prices toleranceBp =
     (if \<not> isSafeInteger toleranceBp \<or> int_of_num toleranceBp < 0 then Inl (Error ''Tolerance must be a non-negative integer'')
      else if length prices < 2 then Inr None
      else if list_ex (\<lambda>p. cp_sellMinor p \<le> 0) prices then Inl (Error ''Channel prices must be positive'')
      else
        let sorted_prices = js_sort (cmp_price collate) prices; low = hd sorted_prices; high = last sorted_prices;
            spreadBp = ((cp_sellMinor high - cp_sellMinor low) * 10000 * 2 + cp_sellMinor low) sdiv (cp_sellMinor low * 2) in
        Inr (if spreadBp > int_of_num toleranceBp
             then Some \<lparr>pf_severity = FAIL, pf_lowestChannel = cp_channel low, pf_highestChannel = cp_channel high, pf_spreadBp = spreadBp\<rparr>
             else None))"

record BaselineParityFinding =
  bp_severity :: GuardSeverity
  bp_channel :: string
  bp_baselineMinor :: int
  bp_sellMinor :: int
  bp_variationMinor :: int
  bp_variationBp :: int

definition checkParityAgainstBaseline :: "string \<Rightarrow> int \<Rightarrow> int \<Rightarrow> jsnum \<Rightarrow> int \<Rightarrow> BaselineParityFinding option result" where
  "checkParityAgainstBaseline channel sell baseline toleranceBp absoluteMinor =
     (if \<not> isSafeInteger toleranceBp \<or> int_of_num toleranceBp < 0 \<or> absoluteMinor < 0 then Inl (Error ''Tolerance must be non-negative'')
      else if sell \<le> 0 \<or> baseline \<le> 0 then Inl (Error ''Prices must be positive'')
      else
        let variationMinor = (if sell > baseline then sell - baseline else baseline - sell);
            variationBp = (variationMinor * 10000 * 2 + baseline) sdiv (baseline * 2) in
        Inr (if variationBp > int_of_num toleranceBp \<and> variationMinor > absoluteMinor
             then Some \<lparr>bp_severity = FAIL, bp_channel = channel, bp_baselineMinor = baseline, bp_sellMinor = sell,
                    bp_variationMinor = variationMinor, bp_variationBp = variationBp\<rparr>
             else None))"

text \<open>The layers are ordered as the code numbers them.\<close>

instantiation MarkupLayerName :: linorder
begin

definition less_eq_MarkupLayerName :: "MarkupLayerName \<Rightarrow> MarkupLayerName \<Rightarrow> bool" where
  "less_eq_MarkupLayerName a b \<longleftrightarrow> ORDER a \<le> ORDER b"

definition less_MarkupLayerName :: "MarkupLayerName \<Rightarrow> MarkupLayerName \<Rightarrow> bool" where
  "less_MarkupLayerName a b \<longleftrightarrow> ORDER a < ORDER b"

instance
proof
  fix x y z :: MarkupLayerName
  show "x = y" if "x \<le> y" "y \<le> x"
    using that by (cases x; cases y) (simp_all add: less_eq_MarkupLayerName_def)
qed (auto simp: less_eq_MarkupLayerName_def less_MarkupLayerName_def)

end

subsection \<open>The trace\<close>

fun telescopes :: "int \<Rightarrow> LayerTraceStep list \<Rightarrow> int \<Rightarrow> bool" where
  "telescopes a [] b \<longleftrightarrow> a = b"
| "telescopes a (s # ss) b \<longleftrightarrow> ts_beforeMinor s = a \<and> ts_afterMinor s = a + ts_deltaMinor s \<and> telescopes (ts_afterMinor s) ss b"

lemma telescopes_snoc:
  "telescopes a (ss @ [s]) b \<longleftrightarrow> telescopes a ss (ts_beforeMinor s) \<and> ts_afterMinor s = ts_beforeMinor s + ts_deltaMinor s \<and> b = ts_afterMinor s"
  by (induction ss arbitrary: a) auto

fun exact_amount :: "int \<Rightarrow> int \<Rightarrow> LayerAdjustment \<Rightarrow> int" where
  "exact_amount net before (PERCENT bp base) = before + ((if base = NET then net else before) * int_of_num bp + 5000) div 10000"
| "exact_amount net before (FIXED amount) = before + amount"
| "exact_amount net before (SET_SELL amount) = amount"

definition traces :: "int \<Rightarrow> MarkupLayer \<Rightarrow> LayerTraceStep \<Rightarrow> bool" where
  "traces net l s \<longleftrightarrow> ts_layer s = ml_layer l \<and> ts_ruleId s = ml_ruleId l \<and> ts_kind s = kind_of (ml_adjustment l)
     \<and> ts_afterMinor s = exact_amount net (ts_beforeMinor s) (ml_adjustment l) \<and> net \<le> ts_afterMinor s"

lemma adjusted_amount_Inr: "adjusted_amount net layer running adj = Inr x \<Longrightarrow> x = exact_amount net running adj"
  by (cases adj) (auto simp: markupMinor_def result_simps split: if_splits)

definition cascade_inv :: "int \<Rightarrow> MarkupLayer list \<Rightarrow> cascade_state \<Rightarrow> bool" where
  "cascade_inv net ls st \<longleftrightarrow> net \<le> cs_running st \<and> telescopes net (cs_trace st) (cs_running st) \<and> list_all2 (traces net) ls (cs_trace st)
     \<and> sorted_wrt (<) (map ml_layer ls) \<and> (\<forall>l \<in> set ls. ORDER (ml_layer l) \<le> cs_previous st)"

lemma cascade_step_inv:
  assumes "cascade_inv net ls st" "cascade_step net st l = Inr st'"
  shows "cascade_inv net (ls @ [l]) st'"
proof -
  obtain x where x: "\<not> ORDER (ml_layer l) \<le> cs_previous st" "x = exact_amount net (cs_running st) (ml_adjustment l)" "net \<le> x"
    "st' = \<lparr>cs_running = x, cs_previous = ORDER (ml_layer l),
       cs_trace = cs_trace st @ [\<lparr>ts_layer = ml_layer l, ts_ruleId = ml_ruleId l, ts_kind = kind_of (ml_adjustment l),
         ts_beforeMinor = cs_running st, ts_deltaMinor = x - cs_running st, ts_afterMinor = x\<rparr>]\<rparr>"
    using assms(2) by (auto simp: cascade_step_def result_simps dest: adjusted_amount_Inr split: if_splits)
  moreover have "ml_layer k < ml_layer l" if "k \<in> set ls" for k
    using that x(1) assms(1) by (force simp: cascade_inv_def less_MarkupLayerName_def)
  ultimately show ?thesis
    using assms(1)
    by (simp add: cascade_inv_def telescopes_snoc traces_def sorted_wrt_append list_all2_lengthD list_all2_appendI less_imp_le less_MarkupLayerName_def)
qed

text \<open>
  A priced offer never sells below cost and its trace is the whole computation: when the cascade
  returns, the layers came in their fixed order and none twice, every step starts where the one before
  ended and is exactly what its rule prescribes (half-up percent on the net or the running amount, fixed
  amount, or pinned sell), no step is below the net, and the sell price is the last amount.
\<close>

theorem cascade_never_below_net:
  assumes "applyMarkupCascade net layers = Inr r"
  shows "1 \<le> net \<and> cr_netMinor r = net \<and> net \<le> cr_sellMinor r \<and> cr_markupMinor r = cr_sellMinor r - net
    \<and> telescopes net (cr_trace r) (cr_sellMinor r) \<and> list_all2 (traces net) layers (cr_trace r)
    \<and> sorted_wrt (<) (map ml_layer layers)"
proof -
  let ?s0 = "\<lparr>cs_running = net, cs_previous = -1, cs_trace = []\<rparr>"
  obtain st where st: "efold (cascade_step net) ?s0 layers = Inr st" "1 \<le> net"
    "r = \<lparr>cr_netMinor = net, cr_sellMinor = cs_running st, cr_markupMinor = cs_running st - net, cr_trace = cs_trace st\<rparr>"
    using assms by (auto simp: applyMarkupCascade_def result_simps split: if_splits)
  have "cascade_inv net layers st"
    by (rule efold_invariant [OF st(1)]) (auto simp: cascade_inv_def [of _ "[]"] intro: cascade_step_inv)
  then show ?thesis using st(2,3) by (simp add: cascade_inv_def)
qed

subsection \<open>One rule per layer\<close>

lemma fold_max_nat: "fold max (xs :: nat list) a = Max (insert a (set xs))"
  by (metis Max.set_eq_fold list.simps(15))

lemma fold_max_in: "c \<noteq> [] \<Longrightarrow> fold max (map specificity c) 0 \<in> specificity ` set c"
proof -
  assume "c \<noteq> []"
  let ?m = "fold max (map specificity c) 0"
  have m: "?m = Max (insert 0 (specificity ` set c))" by (simp add: fold_max_nat)
  obtain q where q: "q \<in> set c" using \<open>c \<noteq> []\<close> by (cases c) auto
  have le: "specificity q \<le> ?m" unfolding m using q by simp
  have m_in: "?m \<in> insert 0 (specificity ` set c)" unfolding m by (rule Max_in) auto
  show ?thesis
  proof (cases "?m = 0")
    case True
    then have "?m = specificity q" using le by simp
    then show ?thesis using q by (rule image_eqI)
  next
    case False
    then show ?thesis using m_in by (simp only: insert_iff simp_thms)
  qed
qed

text \<open>The rule a layer was given is the only one among its matching rules that is as specific.\<close>

definition chosen_for :: "CascadeRule list \<Rightarrow> CascadeTarget \<Rightarrow> MarkupLayer \<Rightarrow> bool" where
  "chosen_for rules target l \<longleftrightarrow>
     (\<exists>r. filter (\<lambda>q. specificity r \<le> specificity q) (layer_candidates rules target (ml_layer l)) = [r]
        \<and> ml_ruleId l = rl_ruleId r \<and> ml_adjustment l = rl_adjustment r)"

lemma choose_layer_Inr:
  assumes "choose_layer rules target chosen layer = Inr chosen'"
  shows "(layer_candidates rules target layer = [] \<and> chosen' = chosen)
    \<or> (\<exists>l. layer_candidates rules target layer \<noteq> [] \<and> chosen' = chosen @ [l] \<and> ml_layer l = layer \<and> chosen_for rules target l)"
proof (cases "layer_candidates rules target layer = []")
  case True
  with assms show ?thesis by (simp add: choose_layer_def)
next
  case False
  define c where "c = layer_candidates rules target layer"
  define top where "top = fold max (map specificity c) 0"
  define best where "best = filter (\<lambda>r. specificity r = top) c"
  have ne: "c \<noteq> []" using False by (simp add: c_def)
  have step: "\<not> length best > 1"
      "chosen' = chosen @ [\<lparr>ml_layer = layer, ml_ruleId = rl_ruleId (hd best), ml_adjustment = rl_adjustment (hd best)\<rparr>]"
    using assms ne unfolding choose_layer_def Let_def c_def [symmetric] top_def [symmetric] best_def [symmetric]
    by (simp_all split: if_splits)
  have le: "specificity q \<le> top" if "q \<in> set c" for q using that by (auto simp: top_def fold_max_nat)
  have "best \<noteq> []" using fold_max_in [of c] ne by (auto simp: best_def top_def filter_empty_conv)
  with step(1) obtain r where r: "best = [r]" by (cases best) auto
  have "r \<in> set best" by (simp add: r)
  then have "specificity r = top" by (simp add: best_def)
  then have "filter (\<lambda>q. specificity r \<le> specificity q) c = best"
    unfolding best_def using le by (intro filter_cong) (auto intro: le_antisym)
  with r have "chosen_for rules target \<lparr>ml_layer = layer, ml_ruleId = rl_ruleId (hd best), ml_adjustment = rl_adjustment (hd best)\<rparr>"
    by (auto simp: chosen_for_def c_def)
  with step(2) False show ?thesis by auto
qed

definition choose_inv :: "CascadeRule list \<Rightarrow> CascadeTarget \<Rightarrow> MarkupLayerName list \<Rightarrow> MarkupLayer list \<Rightarrow> bool" where
  "choose_inv rules target names chosen \<longleftrightarrow>
     map ml_layer chosen = filter (\<lambda>l. layer_candidates rules target l \<noteq> []) names \<and> list_all (chosen_for rules target) chosen"

text \<open>
  One rule per layer, never a guess: when rules are selected for an offer, a layer is charged exactly
  when some rule of it matches, the rule charged is the only matching rule of the layer that names as many
  target fields, and the layers come in the order the cascade accepts.
\<close>

theorem selected_rules_unambiguous:
  assumes "selectCascadeLayers rules target = Inr chosen"
  shows "map ml_layer chosen = filter (\<lambda>l. layer_candidates rules target l \<noteq> []) MARKUP_LAYERS
    \<and> list_all (chosen_for rules target) chosen
    \<and> sorted_wrt (<) (map ml_layer chosen)"
proof -
  have "choose_inv rules target MARKUP_LAYERS chosen"
  proof (rule efold_invariant [where f = "choose_layer rules target" and s = "[]" and P = "choose_inv rules target"])
    show "efold (choose_layer rules target) [] MARKUP_LAYERS = Inr chosen" using assms by (simp add: selectCascadeLayers_def)
    show "choose_inv rules target [] []" by (simp add: choose_inv_def)
    show "choose_inv rules target (ys @ [x]) s2"
      if "MARKUP_LAYERS = ys @ x # zs" "choose_inv rules target ys s1" "choose_layer rules target s1 x = Inr s2" for ys x zs s1 s2
      using choose_layer_Inr [OF that(3)] that(2) by (auto simp: choose_inv_def)
  qed
  moreover have "sorted_wrt (<) MARKUP_LAYERS" by (simp add: MARKUP_LAYERS_def less_MarkupLayerName_def)
  then have "sorted_wrt (<) (filter (\<lambda>l. layer_candidates rules target l \<noteq> []) MARKUP_LAYERS)" by (rule sorted_wrt_filter)
  ultimately show ?thesis by (simp add: choose_inv_def)
qed

subsection \<open>Margins\<close>

lemma sdiv_nonneg: "0 \<le> a \<Longrightarrow> 0 < b \<Longrightarrow> (a :: int) sdiv b = a div b"
  by (cases "a = 0") (simp_all add: signed_divide_int_def sgn_if)

lemma le_zdiv_iff: "0 < (d :: int) \<Longrightarrow> k \<le> n div d \<longleftrightarrow> k * d \<le> n"
proof
  assume d: "0 < d"
  show "k * d \<le> n" if "k \<le> n div d"
  proof -
    have "k * d \<le> n div d * d" using that d by (intro mult_right_mono) simp_all
    also have "\<dots> = n - n mod d" by (rule minus_mod_eq_div_mult [symmetric])
    also have "\<dots> \<le> n" using d by simp
    finally show ?thesis .
  qed
  show "k \<le> n div d" if "k * d \<le> n" using zdiv_mono1 [OF that d] d by simp
qed

lemma marginBp_ge:
  assumes "0 < sell" "net \<le> sell"
  shows "\<exists>bp. marginBp net sell = Some bp \<and> (k \<le> bp \<longleftrightarrow> sell * (2 * k - 1) \<le> 20000 * (sell - net))"
proof -
  have "marginBp net sell = Some ((20000 * (sell - net) + sell) div (2 * sell))"
    using assms by (simp add: marginBp_def sdiv_nonneg algebra_simps)
  moreover have "k \<le> (20000 * (sell - net) + sell) div (2 * sell) \<longleftrightarrow> k * (2 * sell) \<le> 20000 * (sell - net) + sell"
    using assms(1) by (simp add: le_zdiv_iff)
  ultimately show ?thesis by (auto simp: algebra_simps)
qed

text \<open>
  The margin guard passes exactly the healthy offers: no finding is raised when and only when the sell
  price is positive and not below the net, and its margin, compared in whole numbers with half-up rounding
  at the basis point, reaches the blocking threshold, the floor in basis points and the floor in minor units.
\<close>

theorem margin_guard_exact:
  "checkMargin net sell policy = None \<longleftrightarrow>
     0 < sell \<and> net \<le> sell \<and> mf_minMarginMinor policy \<le> sell - net
     \<and> sell * (2 * mf_minMarginBp policy - 1) \<le> 20000 * (sell - net)
     \<and> (case mf_blockBelowBp policy of None \<Rightarrow> True | Some b \<Rightarrow> sell * (2 * b - 1) \<le> 20000 * (sell - net))"
proof (cases "0 < sell \<and> net \<le> sell")
  case True
  then obtain bp where bp: "marginBp net sell = Some bp" by (auto simp: marginBp_def)
  have ge: "k \<le> bp \<longleftrightarrow> sell * (2 * k - 1) \<le> 20000 * (sell - net)" for k
    using marginBp_ge [of sell net k] True bp by auto
  show ?thesis unfolding ge [symmetric]
    by (cases "mf_blockBelowBp policy") (use True in \<open>auto simp: checkMargin_def Let_def bp\<close>)
next
  case False
  then show ?thesis by (auto simp: checkMargin_def Let_def marginBp_def)
qed

text \<open>Below cost the quotient truncates towards zero: a loss of exactly half the sell price reads one point less.\<close>

lemma marginBp_loss: "marginBp 3 2 = Some (- 4999) \<and> (2 - 3) * 10000 = - 5000 * (2 :: int)"
  by (simp add: marginBp_def signed_divide_int_def)

definition sample_layers :: "MarkupLayer list" where
  "sample_layers =
     [\<lparr>ml_layer = SUPPLIER_CONTRACT, ml_ruleId = ''r1'', ml_adjustment = PERCENT (JInt 1000) RUNNING\<rparr>,
      \<lparr>ml_layer = CLIENT, ml_ruleId = ''r2'', ml_adjustment = PERCENT (JInt 333) NET\<rparr>,
      \<lparr>ml_layer = GLOBAL_OVERRIDE, ml_ruleId = ''r3'', ml_adjustment = FIXED 5\<rparr>]"

definition sample_price :: CascadeResult where
  "sample_price = (case applyMarkupCascade 150 sample_layers of Inr r \<Rightarrow> r | Inl _ \<Rightarrow> \<lparr>cr_netMinor = 0, cr_sellMinor = 0, cr_markupMinor = 0, cr_trace = []\<rparr>)"

lemma cascade_never_below_net_witness:
  "cr_sellMinor sample_price = 175 \<and> telescopes 150 (cr_trace sample_price) 175"
proof -
  have sell: "cr_sellMinor sample_price = 175" by code_simp
  have "returns (applyMarkupCascade 150 sample_layers)" by code_simp
  then have "applyMarkupCascade 150 sample_layers = Inr sample_price" by (auto simp: sample_price_def returns_iff)
  from cascade_never_below_net [OF this] sell show ?thesis by simp
qed

definition sample_rules :: "CascadeRule list" where
  "sample_rules =
     [\<lparr>rl_ruleId = ''any'', rl_layer = CLIENT, rl_adjustment = FIXED 10, rl_supplierId = None, rl_hotelId = None, rl_countryCode = None,
       rl_city = None, rl_starRating = None, rl_chainCode = None, rl_agencyId = None, rl_agencyTierId = None\<rparr>,
      \<lparr>rl_ruleId = ''dubai'', rl_layer = CLIENT, rl_adjustment = FIXED 20, rl_supplierId = None, rl_hotelId = None, rl_countryCode = Some ''AE'',
       rl_city = None, rl_starRating = None, rl_chainCode = None, rl_agencyId = None, rl_agencyTierId = None\<rparr>]"

definition sample_target :: CascadeTarget where
  "sample_target = \<lparr>ct_supplierId = ''s'', ct_hotelId = ''h'', ct_countryCode = ''AE'', ct_city = ''Dubai'', ct_starRating = Some 5,
     ct_chainCode = None, ct_agencyId = None, ct_agencyTierId = None\<rparr>"

lemma selected_rules_unambiguous_witness:
  "selectCascadeLayers sample_rules sample_target = Inr [\<lparr>ml_layer = CLIENT, ml_ruleId = ''dubai'', ml_adjustment = FIXED 20\<rparr>]
   \<and> list_all (chosen_for sample_rules sample_target) [\<lparr>ml_layer = CLIENT, ml_ruleId = ''dubai'', ml_adjustment = FIXED 20\<rparr>]"
proof -
  have ok: "selectCascadeLayers sample_rules sample_target = Inr [\<lparr>ml_layer = CLIENT, ml_ruleId = ''dubai'', ml_adjustment = FIXED 20\<rparr>]"
    by code_simp
  show ?thesis using ok selected_rules_unambiguous [OF ok] by blast
qed

end
