(* ===== verification/Promotions.thy ===== *)
theory Promotions
  imports Calendar Pricing
begin

text \<open>
  Rate plan promotions and hotel deals (\<open>apps/api/src/supply/promotions.ts\<close>): when a rule applies to a stay,
  the nightly nets it leaves, the commercial guards of a deal, the stack of combinable promotions, and the
  choice of the promotion that prices the stay. Amounts are \<open>bigint\<close>; days are \<open>YYYY-MM-DD\<close> texts compared
  as texts. A field the source writes \<open>undefined\<close> or \<open>null\<close> is \<open>None\<close>.
\<close>

subsection \<open>Rules\<close>

datatype EngineKind =
    EARLY_BIRD | LAST_MINUTE | LONG_STAY | FREE_NIGHTS
  | PERCENT_OFF | FLASH_SALE | SUBSEQUENT_NIGHTS | EVERY_NTH_FREE | FIXED_OFF

datatype AmountScope = PER_NIGHT | PER_STAY
datatype StayWindowMode = WHOLE_STAY | NIGHTS_IN_WINDOW
datatype DiscountBase = ROOM_AND_GUESTS | ROOM_ONLY

record DealTerms =
  dt_amountMinor :: "int option"
  dt_currency :: "string option"
  dt_amountScope :: "AmountScope option"
  dt_fromNight :: "int option"
  dt_weekdays :: "int option"
  dt_activeFrom :: "string option"
  dt_activeTo :: "string option"
  dt_priority :: int
  dt_stackingGroup :: "string option"
  dt_incompatibleWith :: "string list"
  dt_channels :: "string list"
  dt_sourceMarkets :: "string list"
  dt_agencyIds :: "string list"
  dt_maxDiscountBp :: "int option"
  dt_minSellFloorMinor :: "int option"
  dt_minMarginBp :: "int option"

record PromotionRule =
  pm_id :: string
  pm_kind :: EngineKind
  pm_name :: string
  pm_percentBp :: "int option"
  pm_minLeadDays :: "int option"
  pm_maxLeadDays :: "int option"
  pm_minNights :: "int option"
  pm_freeNights :: "int option"
  pm_bookFrom :: "string option"
  pm_bookTo :: "string option"
  pm_stayFrom :: "string option"
  pm_stayTo :: "string option"
  pm_combinable :: "bool option"
  pm_stayWindowMode :: "StayWindowMode option"
  pm_discountBase :: "DiscountBase option"
  pm_deal :: "DealTerms option"

record promotion_buyer =
  pb_market :: "string option"
  pb_agencyId :: "string option"

record PromotionContext =
  px_today :: "string option"
  px_checkIn :: string
  px_dates :: "string list"
  px_buyer :: "promotion_buyer option"
  px_channel :: "string option"
  px_currency :: "string option"
  px_markups :: "jsnum option list option"

record combined_promotion =
  cb_id :: string
  cb_kind :: EngineKind
  cb_name :: string

record AppliedPromotion =
  ap_id :: string
  ap_kind :: EngineKind
  ap_name :: string
  ap_savingMinor :: int
  ap_fromDeal :: bool
  ap_combined :: "combined_promotion list option"

subsection \<open>Eligibility\<close>

definition within :: "string option \<Rightarrow> string option \<Rightarrow> string \<Rightarrow> bool" where
  "within lo hi day \<longleftrightarrow> (case lo of None \<Rightarrow> True | Some f \<Rightarrow> f \<le> day) \<and> (case hi of None \<Rightarrow> True | Some t \<Rightarrow> day \<le> t)"

definition inWindow :: "PromotionRule \<Rightarrow> string \<Rightarrow> bool" where
  "inWindow r day \<longleftrightarrow> within (pm_stayFrom r) (pm_stayTo r) day"

definition deal_weekdays :: "PromotionRule \<Rightarrow> int option" where
  "deal_weekdays r = (case pm_deal r of None \<Rightarrow> None | Some d \<Rightarrow> dt_weekdays d)"

definition weekdayOk :: "PromotionRule \<Rightarrow> string \<Rightarrow> bool" where
  "weekdayOk r day = (case deal_weekdays r of None \<Rightarrow> True | Some w \<Rightarrow> w div 2 ^ weekdayBit day mod 2 = 1)"

definition partialMode :: "PromotionRule \<Rightarrow> bool" where
  "partialMode r \<longleftrightarrow> pm_stayWindowMode r = Some NIGHTS_IN_WINDOW"

definition nightEligible :: "PromotionRule \<Rightarrow> string \<Rightarrow> bool" where
  "nightEligible r day \<longleftrightarrow> (\<not> partialMode r \<or> inWindow r day) \<and> weekdayOk r day"

definition isFreeKind :: "EngineKind \<Rightarrow> bool" where
  "isFreeKind k \<longleftrightarrow> k = FREE_NIGHTS \<or> k = EVERY_NTH_FREE"

text \<open>An inclusive window judged against a day that may be unknown: no window is open to everyone.\<close>

definition window_open :: "string option \<Rightarrow> string option \<Rightarrow> string option \<Rightarrow> bool" where
  "window_open lo hi today \<longleftrightarrow> (lo = None \<and> hi = None) \<or> (case today of None \<Rightarrow> False | Some t \<Rightarrow> within lo hi t)"

definition listed :: "string list \<Rightarrow> string option \<Rightarrow> bool" where
  "listed allow v \<longleftrightarrow> allow = [] \<or> (case v of None \<Rightarrow> False | Some x \<Rightarrow> x \<in> set allow)"

definition dealGate :: "PromotionRule \<Rightarrow> PromotionContext \<Rightarrow> bool" where
  "dealGate r ctx =
     (case pm_deal r of
        None \<Rightarrow> True
      | Some d \<Rightarrow> window_open (dt_activeFrom d) (dt_activeTo d) (px_today ctx)
          \<and> listed (dt_channels d) (px_channel ctx)
          \<and> listed (dt_sourceMarkets d) (case px_buyer ctx of None \<Rightarrow> None | Some b \<Rightarrow> pb_market b)
          \<and> listed (dt_agencyIds d) (case px_buyer ctx of None \<Rightarrow> None | Some b \<Rightarrow> pb_agencyId b))"

definition at_least :: "int option \<Rightarrow> int \<Rightarrow> int \<Rightarrow> bool" where
  "at_least bound dflt x \<longleftrightarrow> (case bound of None \<Rightarrow> dflt | Some b \<Rightarrow> b) \<le> x"

definition kind_applies :: "PromotionRule \<Rightarrow> PromotionContext \<Rightarrow> int \<Rightarrow> int option \<Rightarrow> bool" where
  "kind_applies r ctx nights lead =
     (case pm_kind r of
        EARLY_BIRD \<Rightarrow> (case (pm_minLeadDays r, lead) of (Some m, Some l) \<Rightarrow> m \<le> l | _ \<Rightarrow> False)
      | LAST_MINUTE \<Rightarrow> (case (pm_maxLeadDays r, lead) of (Some m, Some l) \<Rightarrow> 0 \<le> l \<and> l \<le> m | _ \<Rightarrow> False)
      | LONG_STAY \<Rightarrow> (case pm_minNights r of None \<Rightarrow> False | Some m \<Rightarrow> m \<le> nights)
      | FREE_NIGHTS \<Rightarrow> (case (pm_minNights r, pm_freeNights r) of (Some m, Some f) \<Rightarrow> m \<le> nights \<and> f < nights | _ \<Rightarrow> False)
      | PERCENT_OFF \<Rightarrow> pm_percentBp r \<noteq> None \<and> at_least (pm_minNights r) 1 nights
      | FLASH_SALE \<Rightarrow> pm_percentBp r \<noteq> None \<and> pm_bookFrom r \<noteq> None \<and> pm_bookTo r \<noteq> None \<and> at_least (pm_minNights r) 1 nights
      | SUBSEQUENT_NIGHTS \<Rightarrow> pm_percentBp r \<noteq> None
          \<and> (case pm_deal r of None \<Rightarrow> False | Some d \<Rightarrow> (case dt_fromNight d of None \<Rightarrow> False | Some n \<Rightarrow> n \<le> nights))
          \<and> at_least (pm_minNights r) 1 nights
      | EVERY_NTH_FREE \<Rightarrow> (case pm_minNights r of None \<Rightarrow> False | Some m \<Rightarrow> m \<le> nights)
      | FIXED_OFF \<Rightarrow>
          (case pm_deal r of
             None \<Rightarrow> False
           | Some d \<Rightarrow> (case dt_amountMinor d of None \<Rightarrow> False | Some a \<Rightarrow> 0 < a)
               \<and> dt_currency d \<noteq> None \<and> px_currency ctx \<noteq> None \<and> dt_currency d = px_currency ctx \<and> at_least (pm_minNights r) 1 nights))"

definition promotionApplies :: "PromotionRule \<Rightarrow> PromotionContext \<Rightarrow> bool" where
  "promotionApplies r ctx =
     (let nights = int (length (px_dates ctx)) in
      if nights < 1 then False
      else if \<not> dealGate r ctx then False
      else
        let lead = map_option (\<lambda>t. leadDays t (px_checkIn ctx)) (px_today ctx) in
        if \<not> window_open (pm_bookFrom r) (pm_bookTo r) (px_today ctx) then False
        else if partialMode r \<and> \<not> list_ex (inWindow r) (px_dates ctx) then False
        else if \<not> partialMode r \<and> \<not> list_all (inWindow r) (px_dates ctx) then False
        else if deal_weekdays r \<noteq> None \<and> \<not> list_ex (weekdayOk r) (px_dates ctx) then False
        else kind_applies r ctx nights lead)"

subsection \<open>Discounted nights\<close>

text \<open>The part of night \<open>i\<close> the rule may discount.\<close>

definition discount_base :: "PromotionRule \<Rightarrow> int list \<Rightarrow> int list option \<Rightarrow> nat \<Rightarrow> int" where
  "discount_base r nets bases i =
     (case bases of
        Some bs \<Rightarrow> if pm_discountBase r = Some ROOM_ONLY then (if bs ! i < nets ! i then bs ! i else nets ! i) else nets ! i
      | None \<Rightarrow> nets ! i)"

text \<open>\<open>slice(0, n)\<close>: a negative end counts from the end of the array.\<close>

definition slice_to :: "int \<Rightarrow> 'a list \<Rightarrow> 'a list" where
  "slice_to n xs = take (nat (if n < 0 then int (length xs) + n else n)) xs"

definition cmp_free :: "int list \<Rightarrow> string list \<Rightarrow> nat \<Rightarrow> nat \<Rightarrow> int" where
  "cmp_free nets dates a b =
     (if nets ! a < nets ! b then -1 else if nets ! a > nets ! b then 1
      else if dates ! a > dates ! b then -1 else if dates ! a < dates ! b then 1
      else int b - int a)"

definition eligible_nights :: "PromotionRule \<Rightarrow> int list \<Rightarrow> string list \<Rightarrow> nat list" where
  "eligible_nights r nets dates = filter (\<lambda>i. nightEligible r (dates ! i)) [0..<length nets]"

definition free_count :: "PromotionRule \<Rightarrow> nat \<Rightarrow> int" where
  "free_count r n =
     (if pm_kind r = FREE_NIGHTS then (case pm_freeNights r of None \<Rightarrow> 0 | Some f \<Rightarrow> f)
      else (case pm_minNights r of None \<Rightarrow> 0 | Some m \<Rightarrow> if m = 0 then 0 else int n div m))"

definition free_nets :: "PromotionRule \<Rightarrow> int list \<Rightarrow> string list \<Rightarrow> int list option \<Rightarrow> int list" where
  "free_nets r nets dates bases =
     (let free = slice_to (free_count r (length nets)) (js_sort (cmp_free nets dates) (eligible_nights r nets dates)) in
      map (\<lambda>i. if i \<in> set free then nets ! i - discount_base r nets bases i else nets ! i) [0..<length nets])"

definition fixed_share :: "PromotionRule \<Rightarrow> int \<Rightarrow> int \<Rightarrow> nat \<Rightarrow> int" where
  "fixed_share r amount parts k =
     (if (case pm_deal r of None \<Rightarrow> False | Some d \<Rightarrow> dt_amountScope d = Some PER_STAY)
      then amount div parts + (if int k < amount mod parts then 1 else 0)
      else amount)"

definition fixed_night :: "PromotionRule \<Rightarrow> int list \<Rightarrow> int list option \<Rightarrow> int \<Rightarrow> nat \<Rightarrow> int" where
  "fixed_night r nets bases give i =
     (let room = discount_base r nets bases i;
          cap1 = nets ! i - 1;
          cap2 = (if room < cap1 then room else cap1);
          cap = (if cap2 < 0 then 0 else cap2) in
      nets ! i - (if give > cap then cap else give))"

definition fixed_nets :: "PromotionRule \<Rightarrow> int list \<Rightarrow> string list \<Rightarrow> int list option \<Rightarrow> int list" where
  "fixed_nets r nets dates bases =
     (let amount = (case pm_deal r of None \<Rightarrow> 0 | Some d \<Rightarrow> (case dt_amountMinor d of None \<Rightarrow> 0 | Some a \<Rightarrow> a));
          nights = eligible_nights r nets dates in
      if nights = [] \<or> amount \<le> 0 then nets
      else foldl (\<lambda>out (k, i). out[i := fixed_night r nets bases (fixed_share r amount (int (length nights)) k) i]) nets (enumerate 0 nights))"

definition first_discounted :: "PromotionRule \<Rightarrow> int" where
  "first_discounted r =
     (if pm_kind r = SUBSEQUENT_NIGHTS
      then (case pm_deal r of None \<Rightarrow> 2 | Some d \<Rightarrow> (case dt_fromNight d of None \<Rightarrow> 2 | Some n \<Rightarrow> n)) - 1 else 0)"

definition percent_night :: "PromotionRule \<Rightarrow> int list \<Rightarrow> int list option \<Rightarrow> nat \<Rightarrow> int" where
  "percent_night r nets bases i =
     (let bp = (case pm_percentBp r of None \<Rightarrow> 0 | Some b \<Rightarrow> b);
          discount = (discount_base r nets bases i * bp + 5000) sdiv 10000;
          capped = (if discount > nets ! i - 1 then nets ! i - 1 else discount) in
      nets ! i - (if capped < 0 then 0 else capped))"

definition percent_nets :: "PromotionRule \<Rightarrow> int list \<Rightarrow> string list \<Rightarrow> int list option \<Rightarrow> int list" where
  "percent_nets r nets dates bases =
     map (\<lambda>i. if \<not> nightEligible r (dates ! i) \<or> int i < first_discounted r then nets ! i else percent_night r nets bases i) [0..<length nets]"

definition discountedNets :: "PromotionRule \<Rightarrow> int list \<Rightarrow> string list \<Rightarrow> int list option \<Rightarrow> int list" where
  "discountedNets r nets dates bases =
     (if length dates \<noteq> length nets then nets
      else if pm_discountBase r = Some ROOM_ONLY \<and> (case bases of None \<Rightarrow> False | Some bs \<Rightarrow> length bs \<noteq> length nets) then nets
      else if isFreeKind (pm_kind r) then free_nets r nets dates bases
      else if pm_kind r = FIXED_OFF then fixed_nets r nets dates bases
      else percent_nets r nets dates bases)"

subsection \<open>Guards\<close>

datatype GuardBreach = MAX_DISCOUNT_EXCEEDED | SELL_FLOOR_BREACHED | MARGIN_BELOW_MINIMUM | GUARD_UNVERIFIABLE

text \<open>\<open>ctx.markups?.[i]\<close>: the outer option is \<open>undefined\<close>, the inner one \<open>null\<close>.\<close>

definition markup_at :: "PromotionContext \<Rightarrow> nat \<Rightarrow> jsnum option option" where
  "markup_at ctx i = (case px_markups ctx of None \<Rightarrow> None | Some ms \<Rightarrow> if i < length ms then Some (ms ! i) else None)"

definition guard_night :: "DealTerms \<Rightarrow> PromotionContext \<Rightarrow> int list \<Rightarrow> int list \<Rightarrow> nat \<Rightarrow> GuardBreach option result" where
  "guard_night d ctx before after i =
     (if after ! i \<ge> before ! i then Inr None
      else case markup_at ctx i of
        None \<Rightarrow> Inr (Some GUARD_UNVERIFIABLE)
      | Some bp \<Rightarrow>
          ebind (case bp of None \<Rightarrow> Inr 0 | Some b \<Rightarrow> markupMinor (after ! i) b) (\<lambda>markup.
            let sell = after ! i + markup in
            if (case dt_minSellFloorMinor d of None \<Rightarrow> False | Some f \<Rightarrow> sell < f) then Inr (Some SELL_FLOOR_BREACHED)
            else case dt_minMarginBp d of
              None \<Rightarrow> Inr None
            | Some m \<Rightarrow> if bp = None then Inr (Some GUARD_UNVERIFIABLE)
                else if markup * 10000 < m * sell then Inr (Some MARGIN_BELOW_MINIMUM) else Inr None))"

fun guard_nights :: "DealTerms \<Rightarrow> PromotionContext \<Rightarrow> int list \<Rightarrow> int list \<Rightarrow> nat list \<Rightarrow> GuardBreach option result" where
  "guard_nights d ctx before after [] = Inr None"
| "guard_nights d ctx before after (i # is) =
     ebind (guard_night d ctx before after i) (\<lambda>b. case b of Some g \<Rightarrow> Inr (Some g) | None \<Rightarrow> guard_nights d ctx before after is)"

definition guardBreach :: "PromotionRule \<Rightarrow> int list \<Rightarrow> int list \<Rightarrow> PromotionContext \<Rightarrow> GuardBreach option result" where
  "guardBreach r before after ctx =
     (case pm_deal r of
        None \<Rightarrow> Inr None
      | Some d \<Rightarrow>
          let total = sum_list before in
          if (case dt_maxDiscountBp d of None \<Rightarrow> False | Some m \<Rightarrow> (total - sum_list after) * 10000 > total * m)
          then Inr (Some MAX_DISCOUNT_EXCEEDED)
          else if dt_minSellFloorMinor d = None \<and> dt_minMarginBp d = None then Inr None
          else guard_nights d ctx before after [0..<length after])"

subsection \<open>The stack of combinable promotions\<close>

definition deal_group :: "PromotionRule \<Rightarrow> string option" where
  "deal_group r = (case pm_deal r of None \<Rightarrow> None | Some d \<Rightarrow> dt_stackingGroup d)"

definition names_incompatible :: "PromotionRule \<Rightarrow> string \<Rightarrow> bool" where
  "names_incompatible r i \<longleftrightarrow> (case pm_deal r of None \<Rightarrow> False | Some d \<Rightarrow> i \<in> set (dt_incompatibleWith d))"

definition stackConflict :: "PromotionRule \<Rightarrow> PromotionRule list \<Rightarrow> bool" where
  "stackConflict r used \<longleftrightarrow>
     list_ex (\<lambda>q. (deal_group r \<noteq> None \<and> deal_group r = deal_group q) \<or> names_incompatible r (pm_id q) \<or> names_incompatible q (pm_id r)) used"

definition cmp_stack :: "PromotionRule \<Rightarrow> PromotionRule \<Rightarrow> int" where
  "cmp_stack a b =
     (if isFreeKind (pm_kind a) = isFreeKind (pm_kind b) then cmp_text (pm_id a) (pm_id b)
      else if isFreeKind (pm_kind a) then -1 else 1)"

record stack_state =
  st_rules :: "PromotionRule list"
  st_nets :: "int list"
  st_bases :: "int list option"
  st_conflicted :: "string list"
  st_guarded :: "string list"

fun any_breach :: "PromotionRule list \<Rightarrow> int list \<Rightarrow> int list \<Rightarrow> PromotionContext \<Rightarrow> bool result" where
  "any_breach [] before after ctx = Inr False"
| "any_breach (m # ms) before after ctx =
     ebind (guardBreach m before after ctx) (\<lambda>b. if b \<noteq> None then Inr True else any_breach ms before after ctx)"

text \<open>A base beyond the nights compares with \<open>NaN\<close> in the source and becomes zero.\<close>

definition shrink_bases :: "int list \<Rightarrow> int list \<Rightarrow> int list \<Rightarrow> int list" where
  "shrink_bases current after bs =
     map (\<lambda>i. if i < length current \<and> i < length after \<and> bs ! i > current ! i - after ! i
              then bs ! i - (current ! i - after ! i) else 0) [0..<length bs]"

definition stack_step :: "int list \<Rightarrow> PromotionContext \<Rightarrow> stack_state \<Rightarrow> PromotionRule \<Rightarrow> stack_state result" where
  "stack_step nets ctx st r =
     (if stackConflict r (st_rules st) then Inr (st\<lparr>st_conflicted := set_add (pm_id r) (st_conflicted st)\<rparr>)
      else
        let after = discountedNets r (st_nets st) (px_dates ctx) (st_bases st) in
        if sum_list after \<ge> sum_list (st_nets st) then Inr st
        else ebind (any_breach (st_rules st @ [r]) nets after ctx) (\<lambda>breach.
          if breach then Inr (st\<lparr>st_guarded := set_add (pm_id r) (st_guarded st)\<rparr>)
          else Inr (st\<lparr>st_rules := st_rules st @ [r], st_nets := after, st_bases := map_option (shrink_bases (st_nets st) after) (st_bases st)\<rparr>)))"

definition stackCombinable :: "PromotionRule list \<Rightarrow> int list \<Rightarrow> int list option \<Rightarrow> PromotionContext \<Rightarrow> stack_state result" where
  "stackCombinable rules nets bases ctx =
     efold (stack_step nets ctx) \<lparr>st_rules = [], st_nets = nets, st_bases = bases, st_conflicted = [], st_guarded = []\<rparr> (js_sort cmp_stack rules)"

subsection \<open>The promotion that prices the stay\<close>

datatype PromotionOutcome = APPLIED | NOT_ELIGIBLE | NO_SAVING | GUARD_BREACHED | OUTRANKED | EXCLUDED_BY_STACK_RULE

record PromotionConsideration =
  pc_id :: string
  pc_name :: string
  pc_outcome :: PromotionOutcome
  pc_guard :: "GuardBreach option"
  pc_savingMinor :: "int option"

record candidate =
  cd_rule :: PromotionRule
  cd_nets :: "int list"
  cd_saving :: int

record evaluation =
  ev_considered :: "(string, PromotionConsideration) omap"
  ev_seen :: "string list"
  ev_candidates :: "candidate list"

definition consideration :: "PromotionRule \<Rightarrow> PromotionOutcome \<Rightarrow> GuardBreach option \<Rightarrow> int option \<Rightarrow> PromotionConsideration" where
  "consideration r outcome guard saving =
     \<lparr>pc_id = pm_id r, pc_name = pm_name r, pc_outcome = outcome, pc_guard = guard, pc_savingMinor = saving\<rparr>"

definition consider_rule :: "PromotionContext \<Rightarrow> int list \<Rightarrow> int list option \<Rightarrow> evaluation \<Rightarrow> PromotionRule \<Rightarrow> evaluation result" where
  "consider_rule ctx nets bases ev r =
     (if pm_id r \<in> set (ev_seen ev) then Inr ev
      else
        let ev = ev\<lparr>ev_seen := set_add (pm_id r) (ev_seen ev)\<rparr>;
            note_as = (\<lambda>c. ev\<lparr>ev_considered := omap_put (pm_id r) c (ev_considered ev)\<rparr>) in
        if \<not> promotionApplies r ctx then Inr (note_as (consideration r NOT_ELIGIBLE None None))
        else
          let after = discountedNets r nets (px_dates ctx) bases; saving = sum_list nets - sum_list after in
          if saving \<le> 0 then Inr (note_as (consideration r NO_SAVING None None))
          else ebind (guardBreach r nets after ctx) (\<lambda>breach.
            case breach of
              Some g \<Rightarrow> Inr (note_as (consideration r GUARD_BREACHED (Some g) (Some saving)))
            | None \<Rightarrow> Inr ((note_as (consideration r OUTRANKED None (Some saving)))
                \<lparr>ev_candidates := ev_candidates ev @ [\<lparr>cd_rule = r, cd_nets = after, cd_saving = saving\<rparr>]\<rparr>)))"

definition deal_priority :: "PromotionRule \<Rightarrow> int" where
  "deal_priority r = (case pm_deal r of None \<Rightarrow> 0 | Some d \<Rightarrow> dt_priority d)"

definition better :: "candidate option \<Rightarrow> candidate \<Rightarrow> candidate option" where
  "better best c =
     (case best of
        None \<Rightarrow> Some c
      | Some b \<Rightarrow>
          if cd_saving c > cd_saving b then Some c
          else if cd_saving c = cd_saving b \<and>
            (deal_priority (cd_rule c) > deal_priority (cd_rule b)
             \<or> deal_priority (cd_rule c) = deal_priority (cd_rule b) \<and> pm_id (cd_rule c) < pm_id (cd_rule b))
          then Some c else Some b)"

definition mark_outcome :: "PromotionOutcome \<Rightarrow> (string, PromotionConsideration) omap \<Rightarrow> string \<Rightarrow> (string, PromotionConsideration) omap" where
  "mark_outcome outcome m i = (case omap_get m i of None \<Rightarrow> m | Some e \<Rightarrow> omap_put i (e\<lparr>pc_outcome := outcome\<rparr>) m)"

definition stack_applied :: "PromotionRule list \<Rightarrow> int \<Rightarrow> AppliedPromotion" where
  "stack_applied rules saving =
     \<lparr>ap_id = pm_id (hd rules), ap_kind = pm_kind (hd rules), ap_name = join_text '' + '' (map pm_name rules), ap_savingMinor = saving,
      ap_fromDeal = list_ex (\<lambda>r. pm_deal r \<noteq> None) rules,
      ap_combined = Some (map (\<lambda>r. \<lparr>cb_id = pm_id r, cb_kind = pm_kind r, cb_name = pm_name r\<rparr>) rules)\<rparr>"

definition single_applied :: "candidate \<Rightarrow> AppliedPromotion" where
  "single_applied c =
     \<lparr>ap_id = pm_id (cd_rule c), ap_kind = pm_kind (cd_rule c), ap_name = pm_name (cd_rule c), ap_savingMinor = cd_saving c,
      ap_fromDeal = (pm_deal (cd_rule c) \<noteq> None), ap_combined = None\<rparr>"

record PromotionEvaluation =
  pe_selected :: "(AppliedPromotion \<times> int list) option"
  pe_considered :: "PromotionConsideration list"

definition conclude :: "int list \<Rightarrow> evaluation \<Rightarrow> stack_state \<Rightarrow> PromotionEvaluation" where
  "conclude nets ev stack =
     (let best = foldl better None (ev_candidates ev);
          considered = foldl (mark_outcome EXCLUDED_BY_STACK_RULE) (ev_considered ev) (st_conflicted stack);
          stackSaving = sum_list nets - sum_list (st_nets stack) in
      if length (st_rules stack) > 1 \<and> stackSaving > (case best of None \<Rightarrow> 0 | Some b \<Rightarrow> cd_saving b)
      then \<lparr>pe_selected = Some (stack_applied (st_rules stack) stackSaving, st_nets stack),
            pe_considered = omap_values (foldl (mark_outcome APPLIED) considered (map pm_id (st_rules stack)))\<rparr>
      else case best of
        None \<Rightarrow> \<lparr>pe_selected = None, pe_considered = omap_values considered\<rparr>
      | Some b \<Rightarrow> \<lparr>pe_selected = Some (single_applied b, cd_nets b),
            pe_considered = omap_values (mark_outcome APPLIED considered (pm_id (cd_rule b)))\<rparr>)"

definition evaluatePromotions ::
  "PromotionRule list \<Rightarrow> PromotionContext \<Rightarrow> int list \<Rightarrow> int list option \<Rightarrow> PromotionEvaluation result" where
  "evaluatePromotions rules ctx nets bases =
     ebind (efold (consider_rule ctx nets bases) \<lparr>ev_considered = [], ev_seen = [], ev_candidates = []\<rparr> rules) (\<lambda>ev.
     ebind (stackCombinable (map cd_rule (filter (\<lambda>c. pm_combinable (cd_rule c) = Some True) (ev_candidates ev))) nets bases ctx) (\<lambda>stack.
     Inr (conclude nets ev stack)))"

definition selectPromotion ::
  "PromotionRule list \<Rightarrow> PromotionContext \<Rightarrow> int list \<Rightarrow> int list option \<Rightarrow> (AppliedPromotion \<times> int list) option result" where
  "selectPromotion rules ctx nets bases = ebind (evaluatePromotions rules ctx nets bases) (\<lambda>e. Inr (pe_selected e))"



subsection \<open>What a promotion can do to a night\<close>

lemma cmp_free_collation: "collation (cmp_free nets dates)"
  by unfold_locales (auto simp: cmp_free_def split: if_splits)

interpretation free_order: collation "cmp_free nets dates"
  by (rule cmp_free_collation)

lemma length_foldl_update: "length (foldl (\<lambda>out (k, i). out[i := f k i]) out kis) = length out"
  by (induction kis arbitrary: out) auto

lemma foldl_update_nth:
  assumes "i < length out"
  shows "foldl (\<lambda>out (k, i). out[i := f k i]) out kis ! i = out ! i \<or> (\<exists>k. (k, i) \<in> set kis \<and> foldl (\<lambda>out (k, i). out[i := f k i]) out kis ! i = f k i)"
  using assms
proof (induction kis rule: rev_induct)
  case (snoc x kis)
  obtain k j where x: "x = (k, j)" by (cases x)
  show ?case
  proof (cases "j = i")
    case True
    then show ?thesis using snoc.prems by (auto simp: x length_foldl_update)
  next
    case False
    then show ?thesis using snoc by (auto simp: x)
  qed
qed simp

lemma length_discountedNets [simp]: "length (discountedNets r nets dates bases) = length nets"
  by (simp add: discountedNets_def free_nets_def fixed_nets_def percent_nets_def Let_def length_foldl_update)

text \<open>The room-only base of a night is between nothing and the whole night.\<close>

definition nonneg :: "int list \<Rightarrow> bool" where
  "nonneg xs \<longleftrightarrow> list_all (\<lambda>x. 0 \<le> x) xs"

definition bases_ok :: "int list option \<Rightarrow> bool" where
  "bases_ok bases \<longleftrightarrow> (case bases of None \<Rightarrow> True | Some bs \<Rightarrow> nonneg bs)"

lemma nonneg_nth: "nonneg xs \<Longrightarrow> i < length xs \<Longrightarrow> 0 \<le> xs ! i"
  by (simp add: nonneg_def list_all_length)

lemma discount_base_bounds:
  assumes "nonneg nets" "bases_ok bases" "i < length nets"
    and "pm_discountBase r = Some ROOM_ONLY \<Longrightarrow> (case bases of None \<Rightarrow> True | Some bs \<Rightarrow> length bs = length nets)"
  shows "0 \<le> discount_base r nets bases i \<and> discount_base r nets bases i \<le> nets ! i"
  using assms nonneg_nth [of nets i]
  by (auto simp: discount_base_def bases_ok_def intro: nonneg_nth split: option.splits)

lemma percent_night_bounds:
  assumes "0 \<le> nets ! i"
  shows "0 \<le> percent_night r nets bases i \<and> percent_night r nets bases i \<le> nets ! i
    \<and> (1 \<le> nets ! i \<longrightarrow> 1 \<le> percent_night r nets bases i)"
  using assms by (auto simp: percent_night_def Let_def)

lemma fixed_share_nonneg: "0 < amount \<Longrightarrow> 0 \<le> parts \<Longrightarrow> 0 \<le> fixed_share r amount parts k"
  by (simp add: fixed_share_def pos_imp_zdiv_nonneg_iff zdiv_int) (metis add_nonneg_nonneg div_int_pos_iff less_imp_le zero_le_one)

lemma fixed_night_bounds:
  assumes "0 \<le> nets ! i" "0 \<le> give"
  shows "0 \<le> fixed_night r nets bases give i \<and> fixed_night r nets bases give i \<le> nets ! i
    \<and> (1 \<le> nets ! i \<longrightarrow> 1 \<le> fixed_night r nets bases give i)"
  using assms by (auto simp: fixed_night_def Let_def)

definition misaligned :: "PromotionRule \<Rightarrow> int list \<Rightarrow> string list \<Rightarrow> int list option \<Rightarrow> bool" where
  "misaligned r nets dates bases \<longleftrightarrow> length dates \<noteq> length nets
     \<or> pm_discountBase r = Some ROOM_ONLY \<and> (case bases of None \<Rightarrow> False | Some bs \<Rightarrow> length bs \<noteq> length nets)"

lemma discountedNets_eq:
  "discountedNets r nets dates bases =
     (if misaligned r nets dates bases then nets
      else if isFreeKind (pm_kind r) then free_nets r nets dates bases
      else if pm_kind r = FIXED_OFF then fixed_nets r nets dates bases
      else percent_nets r nets dates bases)"
  by (cases "length dates \<noteq> length nets";
      cases "pm_discountBase r = Some ROOM_ONLY \<and> (case bases of None \<Rightarrow> False | Some bs \<Rightarrow> length bs \<noteq> length nets)")
     (simp_all add: discountedNets_def misaligned_def)

text \<open>Every night stays between zero and its price; only a free-night kind can take one below one minor unit.\<close>

lemma discountedNets_bounds:
  assumes "nonneg nets" "bases_ok bases" "i < length nets"
  shows "0 \<le> discountedNets r nets dates bases ! i \<and> discountedNets r nets dates bases ! i \<le> nets ! i
    \<and> (\<not> isFreeKind (pm_kind r) \<longrightarrow> 1 \<le> nets ! i \<longrightarrow> 1 \<le> discountedNets r nets dates bases ! i)"
proof -
  have i: "0 \<le> nets ! i" using assms by (auto intro: nonneg_nth)
  let ?bad = "misaligned r nets dates bases"
  consider ?bad | (free) "\<not> ?bad" "isFreeKind (pm_kind r)" | (fixed) "\<not> ?bad" "\<not> isFreeKind (pm_kind r)" "pm_kind r = FIXED_OFF"
    | (percent) "\<not> ?bad" "\<not> isFreeKind (pm_kind r)" "pm_kind r \<noteq> FIXED_OFF" by blast
  then show ?thesis
  proof cases
    case 1
    then have "discountedNets r nets dates bases = nets" by (simp add: discountedNets_eq)
    then show ?thesis using i by simp
  next
    case free
    then have "0 \<le> discount_base r nets bases i \<and> discount_base r nets bases i \<le> nets ! i"
      by (intro discount_base_bounds assms) (auto simp: misaligned_def split: option.splits)
    then show ?thesis using free i assms(3) by (simp add: discountedNets_eq free_nets_def Let_def)
  next
    case fixed
    define amount where "amount = (case pm_deal r of None \<Rightarrow> 0 | Some d \<Rightarrow> (case dt_amountMinor d of None \<Rightarrow> 0 | Some a \<Rightarrow> a))"
    let ?nights = "eligible_nights r nets dates"
    let ?f = "\<lambda>k i. fixed_night r nets bases (fixed_share r amount (int (length ?nights)) k) i"
    have eq: "discountedNets r nets dates bases =
        (if ?nights = [] \<or> amount \<le> 0 then nets else foldl (\<lambda>out (k, i). out[i := ?f k i]) nets (enumerate 0 ?nights))"
      using fixed by (simp add: discountedNets_eq fixed_nets_def Let_def amount_def)
    show ?thesis
    proof (cases "?nights = [] \<or> amount \<le> 0")
      case True
      then show ?thesis using i by (simp add: eq)
    next
      case False
      have "0 \<le> ?f k i \<and> ?f k i \<le> nets ! i \<and> (1 \<le> nets ! i \<longrightarrow> 1 \<le> ?f k i)" for k
        by (rule fixed_night_bounds [OF i fixed_share_nonneg]) (use False in auto)
      with foldl_update_nth [OF assms(3), of ?f "enumerate 0 ?nights"] i False show ?thesis by (auto simp: eq)
    qed
  next
    case percent
    then show ?thesis using i assms(3) percent_night_bounds [OF i, of r bases]
      by (simp add: discountedNets_eq percent_nets_def)
  qed
qed

lemma member_le_sum_list_int: "\<forall>x \<in> set xs. 0 \<le> x \<Longrightarrow> y \<in> set xs \<Longrightarrow> y \<le> sum_list (xs :: int list)"
proof (induction xs)
  case (Cons a xs)
  have "0 \<le> sum_list xs" using Cons.prems(1) by (intro sum_list_nonneg) simp
  with Cons show ?case by auto
qed simp

definition freed_nights :: "PromotionRule \<Rightarrow> int list \<Rightarrow> string list \<Rightarrow> nat list" where
  "freed_nights r nets dates = slice_to (free_count r (length nets)) (js_sort (cmp_free nets dates) (eligible_nights r nets dates))"

lemma freed_nights_props:
  "distinct (freed_nights r nets dates)" "set (freed_nights r nets dates) \<subseteq> {..<length nets}"
  by (auto simp: freed_nights_def slice_to_def eligible_nights_def dest: in_set_takeD)

lemma take_sorted_least:
  "sorted_wrt P xs \<Longrightarrow> a \<in> set (take k xs) \<Longrightarrow> b \<in> set xs \<Longrightarrow> b \<notin> set (take k xs) \<Longrightarrow> P a b"
proof -
  assume P: "sorted_wrt P xs" "a \<in> set (take k xs)" "b \<in> set xs" "b \<notin> set (take k xs)"
  have "sorted_wrt P (take k xs @ drop k xs)" using P(1) by simp
  moreover have "b \<in> set (drop k xs)" using P(3,4) by (metis Un_iff append_take_drop_id set_append)
  ultimately show "P a b" using P(2) unfolding sorted_wrt_append by blast
qed

text \<open>The nights given free are the cheapest eligible ones.\<close>

lemma freed_cheapest:
  assumes "a \<in> set (freed_nights r nets dates)" "b \<in> set (eligible_nights r nets dates)" "b \<notin> set (freed_nights r nets dates)"
  shows "nets ! a \<le> nets ! b"
proof -
  have "cmp_free nets dates a b \<le> 0"
    using take_sorted_least [OF free_order.sorted_js_sort] assms unfolding freed_nights_def slice_to_def by (metis set_js_sort)
  then show ?thesis by (auto simp: cmp_free_def split: if_splits)
qed

lemma length_slice_to:
  assumes "k < int n" "length xs \<le> n" "0 < n"
  shows "length (slice_to k xs) < n"
proof -
  have "nat (if k < 0 then int (length xs) + k else k) < n" using assms by auto
  moreover have "length (slice_to k xs) \<le> nat (if k < 0 then int (length xs) + k else k)" by (simp add: slice_to_def)
  ultimately show ?thesis by (rule order.strict_trans1 [rotated])
qed

lemma freed_fewer:
  assumes "promotionApplies r ctx" "length nets = length (px_dates ctx)" "isFreeKind (pm_kind r)"
    and "pm_kind r = EVERY_NTH_FREE \<longrightarrow> pm_minNights r \<noteq> Some 1"
  shows "length (freed_nights r nets (px_dates ctx)) < length nets"
proof -
  let ?n = "int (length nets)" and ?k = "free_count r (length nets)"
  have n: "0 < length nets" and kind: "\<exists>lead. kind_applies r ctx ?n lead"
    using assms(1,2) by (auto simp: promotionApplies_def Let_def split: if_splits)
  have "?k < ?n"
  proof (cases "pm_kind r = FREE_NIGHTS")
    case True
    with kind show ?thesis by (auto simp: kind_applies_def free_count_def split: option.splits prod.splits)
  next
    case False
    then have every: "pm_kind r = EVERY_NTH_FREE" using assms(3) by (simp add: isFreeKind_def)
    with kind obtain m where m: "pm_minNights r = Some m" "m \<le> ?n" by (auto simp: kind_applies_def split: option.splits)
    have "?n div m < ?n" if "m \<noteq> 0"
    proof (cases "0 < m")
      case True
      then have "1 < m" using assms(4) every m(1) by auto
      then show ?thesis using n by (simp add: int_div_less_self)
    next
      case False
      then have "?n div m \<le> 0" using that n by (simp add: div_nonneg_neg_le0)
      then show ?thesis using n by linarith
    qed
    then show ?thesis using every m(1) n by (simp add: free_count_def)
  qed
  moreover have "length (eligible_nights r nets (px_dates ctx)) \<le> length nets"
    unfolding eligible_nights_def by (metis diff_zero length_filter_le length_upt)
  ultimately show ?thesis unfolding freed_nights_def using n by (intro length_slice_to) simp_all
qed

lemma free_night_nth:
  assumes "i < length nets" "isFreeKind (pm_kind r)" "\<not> misaligned r nets dates bases"
  shows "discountedNets r nets dates bases ! i =
    (if i \<in> set (freed_nights r nets dates) then nets ! i - discount_base r nets bases i else nets ! i)"
  using assms by (simp add: discountedNets_eq free_nets_def freed_nights_def Let_def)

lemma full_price_night:
  assumes "promotionApplies r ctx" "length nets = length (px_dates ctx)" "isFreeKind (pm_kind r)"
    and "pm_kind r = EVERY_NTH_FREE \<longrightarrow> pm_minNights r \<noteq> Some 1"
  shows "\<exists>i < length nets. discountedNets r nets (px_dates ctx) bases ! i = nets ! i"
proof (cases "misaligned r nets (px_dates ctx) bases")
  case True
  moreover have "0 < length nets" using assms(1,2) by (auto simp: promotionApplies_def Let_def split: if_splits)
  ultimately show ?thesis by (auto simp: discountedNets_eq)
next
  case False
  let ?F = "freed_nights r nets (px_dates ctx)"
  have "card (set ?F) < card {..<length nets}"
    using freed_fewer [OF assms] freed_nights_props(1) by (simp add: distinct_card)
  then have "set ?F \<noteq> {..<length nets}" by (metis less_irrefl)
  then obtain i where "i < length nets" "i \<notin> set ?F" using freed_nights_props(2) by blast
  then show ?thesis using free_night_nth [OF _ assms(3) False] by auto
qed

lemma discounted_sum_positive:
  assumes "promotionApplies r ctx" "length nets = length (px_dates ctx)" "\<forall>x \<in> set nets. 1 \<le> x" "bases_ok bases"
    and "pm_kind r = EVERY_NTH_FREE \<longrightarrow> pm_minNights r \<noteq> Some 1"
  shows "1 \<le> sum_list (discountedNets r nets (px_dates ctx) bases)"
proof -
  define after where "after = discountedNets r nets (px_dates ctx) bases"
  have nets: "nonneg nets" using assms(3) by (auto simp: nonneg_def list_all_iff)
  have one: "1 \<le> nets ! i" if "i < length nets" for i using assms(3) that by simp
  have len: "length after = length nets" by (simp add: after_def)
  note bounds = discountedNets_bounds [OF nets assms(4), where r = r and dates = "px_dates ctx", folded after_def]
  have n: "0 < length nets" using assms(1,2) by (auto simp: promotionApplies_def Let_def split: if_splits)
  have "\<exists>i < length after. 1 \<le> after ! i"
  proof (cases "isFreeKind (pm_kind r)")
    case True
    then show ?thesis using full_price_night [OF assms(1,2) _ assms(5), of bases] one len by (auto simp: after_def)
  next
    case False
    then show ?thesis using bounds [OF n] one [OF n] n len by auto
  qed
  then obtain i where i: "i < length after" "1 \<le> after ! i" by blast
  have "\<forall>x \<in> set after. 0 \<le> x" using bounds len by (auto simp: in_set_conv_nth)
  then have "after ! i \<le> sum_list after" using i(1) by (intro member_le_sum_list_int) auto
  with i(2) show ?thesis by (simp add: after_def)
qed

text \<open>
  C28. A promotion never gives a stay away: for a stay of nights that each cost something, every night after
  an applicable rule still costs between nothing and its old price, a percent or fixed discount leaves at
  least one minor unit on every night, a free-night rule leaves some night at its full price and frees none
  while a cheaper eligible one is charged, so the stay is never free (a deal that frees every single night
  apart, which the deal rules refuse).
\<close>

theorem promotion_keeps_paid_night:
  assumes "promotionApplies r ctx" "length nets = length (px_dates ctx)" "\<forall>x \<in> set nets. 1 \<le> x" "bases_ok bases"
    and "pm_kind r = EVERY_NTH_FREE \<longrightarrow> pm_minNights r \<noteq> Some 1"
  shows "let after = discountedNets r nets (px_dates ctx) bases in
    length after = length nets \<and> (\<forall>i < length nets. 0 \<le> after ! i \<and> after ! i \<le> nets ! i)
    \<and> (if isFreeKind (pm_kind r)
        then (\<exists>i < length nets. after ! i = nets ! i) \<and>
             (\<forall>i < length nets. \<forall>j < length nets. after ! i < nets ! i \<and> after ! j = nets ! j \<and> nets ! j < nets ! i
                \<and> 0 < discount_base r nets bases j \<longrightarrow> \<not> nightEligible r (px_dates ctx ! j))
        else \<forall>i < length nets. 1 \<le> after ! i)
    \<and> 1 \<le> sum_list after"
proof -
  define after where "after = discountedNets r nets (px_dates ctx) bases"
  have nets: "nonneg nets" using assms(3) by (auto simp: nonneg_def list_all_iff)
  have one: "1 \<le> nets ! i" if "i < length nets" for i using assms(3) that by simp
  have len: "length after = length nets" by (simp add: after_def)
  have bounds: "0 \<le> after ! i \<and> after ! i \<le> nets ! i" if "i < length nets" for i
    using discountedNets_bounds [OF nets assms(4) that] by (simp add: after_def)
  have paid: "\<forall>i < length nets. 1 \<le> after ! i" if "\<not> isFreeKind (pm_kind r)"
    using discountedNets_bounds [OF nets assms(4)] that one by (auto simp: after_def)
  have n: "0 < length nets" using assms(1,2) by (auto simp: promotionApplies_def Let_def split: if_splits)
  have free: "(\<exists>i < length nets. after ! i = nets ! i) \<and>
      (\<forall>i < length nets. \<forall>j < length nets. after ! i < nets ! i \<and> after ! j = nets ! j \<and> nets ! j < nets ! i
         \<and> 0 < discount_base r nets bases j \<longrightarrow> \<not> nightEligible r (px_dates ctx ! j))"
    if fk: "isFreeKind (pm_kind r)"
  proof (cases "misaligned r nets (px_dates ctx) bases")
    case True
    then have "after = nets" by (simp add: after_def discountedNets_eq)
    then show ?thesis using n by auto
  next
    case False
    let ?F = "freed_nights r nets (px_dates ctx)"
    note nth = free_night_nth [OF _ fk False, folded after_def]
    have "\<exists>i < length nets. after ! i = nets ! i"
      using full_price_night [OF assms(1,2) fk assms(5)] by (simp add: after_def)
    moreover have cheap: "\<not> nightEligible r (px_dates ctx ! j)"
      if "i < length nets" "j < length nets" "after ! i < nets ! i" "after ! j = nets ! j" "nets ! j < nets ! i"
        "0 < discount_base r nets bases j" for i j
    proof
      assume "nightEligible r (px_dates ctx ! j)"
      then have "j \<in> set (eligible_nights r nets (px_dates ctx))" using that(2) by (simp add: eligible_nights_def)
      moreover have "i \<in> set ?F" using nth [OF that(1)] that(3) by (auto split: if_splits)
      moreover have "j \<notin> set ?F" using nth [OF that(2)] that(4,6) by auto
      ultimately have "nets ! i \<le> nets ! j" by (intro freed_cheapest)
      then show False using that(5) by simp
    qed
    ultimately show ?thesis by (intro conjI allI impI) (simp, elim conjE, rule cheap)
  qed
  have "1 \<le> sum_list after" using discounted_sum_positive [OF assms] by (simp add: after_def)
  with len bounds free paid show ?thesis by (simp add: Let_def after_def [symmetric])
qed

subsection \<open>The choice\<close>

definition saving_of :: "PromotionRule \<Rightarrow> PromotionContext \<Rightarrow> int list \<Rightarrow> int list option \<Rightarrow> int" where
  "saving_of r ctx nets bases = sum_list nets - sum_list (discountedNets r nets (px_dates ctx) bases)"

text \<open>A rule is a candidate when it applies, saves something and breaks no guard.\<close>

definition is_candidate :: "PromotionContext \<Rightarrow> int list \<Rightarrow> int list option \<Rightarrow> PromotionRule \<Rightarrow> bool" where
  "is_candidate ctx nets bases r \<longleftrightarrow> promotionApplies r ctx \<and> 0 < saving_of r ctx nets bases
     \<and> guardBreach r nets (discountedNets r nets (px_dates ctx) bases) ctx = Inr None"

definition candidate_of :: "PromotionContext \<Rightarrow> int list \<Rightarrow> int list option \<Rightarrow> PromotionRule \<Rightarrow> candidate" where
  "candidate_of ctx nets bases r =
     \<lparr>cd_rule = r, cd_nets = discountedNets r nets (px_dates ctx) bases, cd_saving = saving_of r ctx nets bases\<rparr>"

lemma consider_rule_Inr:
  assumes "consider_rule ctx nets bases ev r = Inr ev'" "pm_id r \<notin> set (ev_seen ev)"
  shows "set (ev_seen ev') = insert (pm_id r) (set (ev_seen ev))
    \<and> ev_candidates ev' = ev_candidates ev @ (if is_candidate ctx nets bases r then [candidate_of ctx nets bases r] else [])"
proof (cases "promotionApplies r ctx \<and> 0 < saving_of r ctx nets bases")
  case True
  then have "\<not> sum_list nets \<le> sum_list (discountedNets r nets (px_dates ctx) bases)" by (simp add: saving_of_def)
  with True assms obtain b where b: "guardBreach r nets (discountedNets r nets (px_dates ctx) bases) ctx = Inr b"
    by (auto simp: consider_rule_def Let_def result_simps)
  with True assms \<open>\<not> _ \<le> _\<close> show ?thesis
    by (cases b) (auto simp: consider_rule_def Let_def is_candidate_def candidate_of_def saving_of_def)
next
  case False
  with assms show ?thesis by (auto simp: consider_rule_def Let_def is_candidate_def saving_of_def split: if_splits)
qed

lemma candidates_exact:
  assumes "efold (consider_rule ctx nets bases) \<lparr>ev_considered = [], ev_seen = [], ev_candidates = []\<rparr> rules = Inr ev"
    and "distinct (map pm_id rules)"
  shows "ev_candidates ev = map (candidate_of ctx nets bases) (filter (is_candidate ctx nets bases) rules)"
proof -
  let ?P = "\<lambda>rs ev. set (ev_seen ev) = pm_id ` set rs \<and>
      ev_candidates ev = map (candidate_of ctx nets bases) (filter (is_candidate ctx nets bases) rs)"
  have "?P rules ev"
  proof (rule efold_invariant [OF assms(1), of ?P])
    fix ys x zs s1 s2
    assume "rules = ys @ x # zs" "?P ys s1" "consider_rule ctx nets bases s1 x = Inr s2"
    moreover have "pm_id x \<notin> pm_id ` set ys" using assms(2) \<open>rules = _\<close> by auto
    ultimately show "?P (ys @ [x]) s2" using consider_rule_Inr [of ctx nets bases s1 x s2] by auto
  qed simp
  then show ?thesis by simp
qed

lemma better_max:
  "case foldl better best cs of
     None \<Rightarrow> best = None \<and> cs = []
   | Some b \<Rightarrow> (b \<in> set cs \<or> best = Some b) \<and> (\<forall>c \<in> set cs. cd_saving c \<le> cd_saving b)
       \<and> (\<forall>a. best = Some a \<longrightarrow> cd_saving a \<le> cd_saving b)"
proof (induction cs arbitrary: best)
  case Nil
  then show ?case by (cases best) auto
next
  case (Cons c cs)
  have "\<exists>b. better best c = Some b \<and> (b = c \<or> best = Some b) \<and> cd_saving c \<le> cd_saving b \<and> (\<forall>a. best = Some a \<longrightarrow> cd_saving a \<le> cd_saving b)"
    by (auto simp: better_def split: option.splits)
  then obtain b where b: "better best c = Some b" "b = c \<or> best = Some b" "cd_saving c \<le> cd_saving b"
    "\<forall>a. best = Some a \<longrightarrow> cd_saving a \<le> cd_saving b" by blast
  from Cons.IH [of "better best c"] b show ?case by (fastforce split: option.splits)
qed

definition stack_ok :: "PromotionContext \<Rightarrow> int list \<Rightarrow> PromotionRule list \<Rightarrow> stack_state \<Rightarrow> bool" where
  "stack_ok ctx nets rules st \<longleftrightarrow> set (st_rules st) \<subseteq> set rules
     \<and> (st_rules st \<noteq> [] \<longrightarrow> (\<forall>m \<in> set (st_rules st). guardBreach m nets (st_nets st) ctx = Inr None))
     \<and> (\<forall>a b. {a, b} \<subseteq> set (st_rules st) \<longrightarrow> a \<noteq> b \<longrightarrow> \<not> stackConflict a [b])"

lemma any_breach_False: "any_breach ms before after ctx = Inr False \<Longrightarrow> \<forall>m \<in> set ms. guardBreach m before after ctx = Inr None"
  by (induction ms) (auto simp: result_simps split: if_splits)

lemma stackConflict_sym: "stackConflict a [b] = stackConflict b [a]"
  by (cases "deal_group a"; cases "deal_group b") (auto simp: stackConflict_def)

lemma stackConflict_all: "\<not> stackConflict r used \<longleftrightarrow> (\<forall>q \<in> set used. \<not> stackConflict r [q])"
  by (auto simp: stackConflict_def list_ex_iff)

lemma stack_step_ok:
  assumes "stack_ok ctx nets rules st" "stack_step nets ctx st r = Inr st'" "r \<in> set rules"
  shows "stack_ok ctx nets rules st'"
proof (cases "st_rules st' = st_rules st")
  case True
  then have "st_nets st' = st_nets st"
    using assms(2) by (auto simp: stack_step_def Let_def result_simps split: if_splits)
  with True assms(1) show ?thesis by (simp add: stack_ok_def)
next
  case False
  define after where "after = discountedNets r (st_nets st) (px_dates ctx) (st_bases st)"
  have nc: "\<not> stackConflict r (st_rules st)" using False assms(2) by (auto simp: stack_step_def)
  have lt: "\<not> sum_list (st_nets st) \<le> sum_list after" using False assms(2) nc by (auto simp: stack_step_def Let_def after_def)
  obtain breach where b: "any_breach (st_rules st @ [r]) nets after ctx = Inr breach"
    using assms(2) nc lt by (auto simp: stack_step_def Let_def after_def ebind_Inr_iff)
  have "\<not> breach" using False assms(2) nc lt b by (auto simp: stack_step_def Let_def after_def)
  then have new: "st_rules st' = st_rules st @ [r]" "\<not> stackConflict r (st_rules st)"
    "any_breach (st_rules st @ [r]) nets (st_nets st') ctx = Inr False"
    using assms(2) nc lt b by (auto simp: stack_step_def Let_def after_def)
  have "\<not> stackConflict r [q]" "\<not> stackConflict q [r]" if "q \<in> set (st_rules st)" for q
    using new(2) that unfolding stackConflict_all [of r "st_rules st"] by (simp_all add: stackConflict_sym)
  with assms(1,3) any_breach_False [OF new(3)] show ?thesis unfolding stack_ok_def new(1) by auto
qed

lemma stackCombinable_ok:
  assumes "stackCombinable rules nets bases ctx = Inr st"
  shows "stack_ok ctx nets rules st"
proof -
  let ?s0 = "\<lparr>st_rules = [], st_nets = nets, st_bases = bases, st_conflicted = [], st_guarded = []\<rparr>"
  have run: "efold (stack_step nets ctx) ?s0 (js_sort cmp_stack rules) = Inr st" using assms by (simp add: stackCombinable_def)
  have mem: "x \<in> set rules" if "js_sort cmp_stack rules = ys @ x # zs" for ys x zs
    using that by (metis in_set_conv_decomp set_js_sort)
  show ?thesis
    by (rule efold_invariant [OF run, where P = "\<lambda>_. stack_ok ctx nets rules"])
       (auto simp: stack_ok_def [of _ _ _ ?s0] intro: stack_step_ok mem)
qed


definition plain_rule :: PromotionRule where
  "plain_rule = \<lparr>pm_id = ''p'', pm_kind = LONG_STAY, pm_name = ''Long stay'', pm_percentBp = Some 1000, pm_minLeadDays = None, pm_maxLeadDays = None,
     pm_minNights = Some 2, pm_freeNights = None, pm_bookFrom = None, pm_bookTo = None, pm_stayFrom = None, pm_stayTo = None,
     pm_combinable = Some True, pm_stayWindowMode = None, pm_discountBase = None, pm_deal = None\<rparr>"

definition free_rule :: PromotionRule where
  "free_rule = plain_rule\<lparr>pm_id := ''f'', pm_kind := FREE_NIGHTS, pm_name := ''Stay 3 pay 2'', pm_percentBp := None, pm_minNights := Some 3, pm_freeNights := Some 1\<rparr>"

definition sample_stay :: PromotionContext where
  "sample_stay = \<lparr>px_today = None, px_checkIn = ''2025-03-01'', px_dates = [''2025-03-01'', ''2025-03-02'', ''2025-03-03''], px_buyer = None,
     px_channel = None, px_currency = None, px_markups = None\<rparr>"

definition sample_evaluation :: PromotionEvaluation where
  "sample_evaluation = (case evaluatePromotions [plain_rule, free_rule] sample_stay [10000, 9000, 12000] None of
     Inr e \<Rightarrow> e | Inl _ \<Rightarrow> \<lparr>pe_selected = None, pe_considered = []\<rparr>)"

lemma promotion_keeps_paid_night_witness:
  "discountedNets free_rule [10000, 9000, 12000] (px_dates sample_stay) None = [10000, 0, 12000]
   \<and> 1 \<le> sum_list (discountedNets free_rule [10000, 9000, 12000] (px_dates sample_stay) None)"
proof -
  have eq: "discountedNets free_rule [10000, 9000, 12000] (px_dates sample_stay) None = [10000, 0, 12000]" by code_simp
  have "promotionApplies free_rule sample_stay" by code_simp
  then have "1 \<le> sum_list (discountedNets free_rule [10000, 9000, 12000] (px_dates sample_stay) None)"
    using promotion_keeps_paid_night [of free_rule sample_stay "[10000, 9000, 12000]" None]
    by (simp add: Let_def bases_ok_def sample_stay_def free_rule_def plain_rule_def)
  with eq show ?thesis by simp
qed


end
