(* ===== verification/Js_Values.thy ===== *)
theory Js_Values
  imports Calendar
begin

text \<open>
  Untyped request values: what \<open>unknown\<close> can hold after a JSON body is parsed, and the small checks the
  validators share (\<open>whole\<close>, \<open>isDay\<close>, the identifier patterns). Used by the promotion and deal rules.
\<close>

datatype jsval =
    JUndefined
  | JNull
  | JBool bool
  | JNum jsnum
  | JStr string
  | JArr "jsval list"
  | JObj "(string \<times> jsval) list"

definition field :: "(string \<times> jsval) list \<Rightarrow> string \<Rightarrow> jsval" where
  "field body key = (case map_of body key of None \<Rightarrow> JUndefined | Some v \<Rightarrow> v)"

text \<open>\<open>v == null\<close>\<close>

definition nullish :: "jsval \<Rightarrow> bool" where
  "nullish v \<longleftrightarrow> v = JUndefined \<or> v = JNull"

definition whole :: "jsval \<Rightarrow> int \<Rightarrow> int \<Rightarrow> bool" where
  "whole v lo hi \<longleftrightarrow> (case v of JNum (JInt i) \<Rightarrow> lo \<le> i \<and> i \<le> hi | _ \<Rightarrow> False)"

definition int_of_val :: "jsval \<Rightarrow> int" where
  "int_of_val v = (case v of JNum n \<Rightarrow> int_of_num n | _ \<Rightarrow> 0)"

text \<open>
  \<open>isDay\<close>: a text of the shape of a day whose month or day of the month is out of range makes an invalid
  \<open>Date\<close>, and \<open>toISOString\<close> of that throws. A day past the end of its month rolls over to another day.
\<close>

definition isDay :: "jsval \<Rightarrow> bool result" where
  "isDay v =
     (case v of
        JStr s \<Rightarrow>
          if \<not> date_shape s then Inr False
          else if month_part s < 1 \<or> month_part s > 12 \<or> day_part s < 1 \<or> day_part s > 31 then Inl (RangeError ''Invalid time value'')
          else Inr (valid_date (year_part s) (month_part s) (day_part s))
      | _ \<Rightarrow> Inr False)"

definition text_of :: "jsval \<Rightarrow> string" where
  "text_of v = (case v of JStr s \<Rightarrow> s | _ \<Rightarrow> [])"

text \<open>The character class \<open>[A-Za-z0-9_-]\<close>.\<close>

definition word_char :: "char \<Rightarrow> bool" where
  "word_char c \<longleftrightarrow> is_upper c \<or> is_lower c \<or> is_digit c \<or> c = CHR ''_'' \<or> c = CHR ''-''"

definition lower_char :: "char \<Rightarrow> char" where
  "lower_char c =
     (if is_upper c \<or> (192 \<le> char_code c \<and> char_code c \<le> 222 \<and> char_code c \<noteq> 215) then char_of (char_code c + 32) else c)"

definition toLowerCase :: "string \<Rightarrow> string" where
  "toLowerCase s = map lower_char s"

text \<open>\<open>JSON.stringify\<close> of a value without \<open>undefined\<close> and without fractions.\<close>

definition hex_digit :: "nat \<Rightarrow> char" where
  "hex_digit n = char_of (if n < 10 then 48 + n else 87 + n)"

definition json_char :: "char \<Rightarrow> string" where
  "json_char c =
     (let n = char_code c in
      if n = 34 \<or> n = 92 then [CHR 0x5C, c]
      else if n = 8 then [CHR 0x5C, CHR ''b'']
      else if n = 9 then [CHR 0x5C, CHR ''t'']
      else if n = 10 then [CHR 0x5C, CHR ''n'']
      else if n = 12 then [CHR 0x5C, CHR ''f'']
      else if n = 13 then [CHR 0x5C, CHR ''r'']
      else if n < 32 then [CHR 0x5C, CHR ''u'', CHR ''0'', CHR ''0'', hex_digit (n div 16), hex_digit (n mod 16)]
      else [c])"

definition json_string :: "string \<Rightarrow> string" where
  "json_string s = [CHR 0x22] @ concat (map json_char s) @ [CHR 0x22]"

fun json_text :: "jsval \<Rightarrow> string" where
  "json_text JUndefined = []"
| "json_text JNull = ''null''"
| "json_text (JBool b) = (if b then ''true'' else ''false'')"
| "json_text (JNum n) = string_of_int (int_of_num n)"
| "json_text (JStr s) = json_string s"
| "json_text (JArr vs) = ''['' @ join_text '','' (map json_text vs) @ '']''"
| "json_text (JObj kvs) = ''{'' @ join_text '','' (map (\<lambda>(k, v). json_string k @ '':'' @ json_text v) kvs) @ ''}''"

lemma whole_iff: "whole v lo hi \<longleftrightarrow> (\<exists>i. v = JNum (JInt i) \<and> lo \<le> i \<and> i \<le> hi)"
  by (auto simp: whole_def split: jsval.splits jsnum.splits)

lemma valid_date_bounds: "valid_date y m d \<Longrightarrow> 1 \<le> m \<and> m \<le> 12 \<and> 1 \<le> d \<and> d \<le> 31"
  by (simp add: valid_date_def month_length_def split: if_splits)

lemma isDay_True: "isDay v = Inr True \<longleftrightarrow> (\<exists>s. v = JStr s \<and> isIsoDate s)"
proof (cases v)
  case (JStr s)
  then show ?thesis using valid_date_bounds [of "year_part s" "month_part s" "day_part s"] by (auto simp: isDay_def isIsoDate_def)
qed (simp_all add: isDay_def)

text \<open>A month that does not exist is not reported but thrown.\<close>

lemma isDay_throws: "isDay (JStr ''2024-13-01'') = Inl (RangeError ''Invalid time value'') \<and> \<not> isIsoDate ''2024-13-01''"
  by code_simp

end
