(* ===== verification/Deals.thy ===== *)
theory Deals
  imports Js_Values Promotions
begin

text \<open>
  Hotel deals (\<open>apps/api/src/supply/deal-model.ts\<close>): the parser of a create or replace body, the lifecycle,
  the mapping of a stored deal to the rule the promotion engine prices with, and the database row. An issue
  keeps its code, field and severity; its message is display text and left out. The fingerprint of the terms
  is in Deal_Lifecycle.
\<close>

subsection \<open>Terms\<close>

datatype DealKind = PERCENT_OFF | EARLY_BIRD | FLASH_SALE | STAY_X_PAY_Y | SUBSEQUENT_NIGHTS | EVERY_NTH_FREE | FIXED_OFF

definition DEAL_KINDS :: "(string \<times> DealKind) list" where
  "DEAL_KINDS = [(''PERCENT_OFF'', PERCENT_OFF), (''EARLY_BIRD'', EARLY_BIRD), (''FLASH_SALE'', FLASH_SALE), (''STAY_X_PAY_Y'', STAY_X_PAY_Y),
     (''SUBSEQUENT_NIGHTS'', SUBSEQUENT_NIGHTS), (''EVERY_NTH_FREE'', EVERY_NTH_FREE), (''FIXED_OFF'', FIXED_OFF)]"

definition UNSUPPORTED_DEAL_KINDS :: "string list" where "UNSUPPORTED_DEAL_KINDS = [''PACKAGE_ADD_ON'']"
definition DEAL_CHANNELS :: "string list" where "DEAL_CHANNELS = [''PORTAL'', ''API'']"
definition MAX_DEAL_PLANS :: nat where "MAX_DEAL_PLANS = 100"
definition MAX_DEAL_PERCENT_BP :: int where "MAX_DEAL_PERCENT_BP = 9000"
definition MAX_DEAL_AMOUNT_MINOR :: int where "MAX_DEAL_AMOUNT_MINOR = 1000000000"
definition LARGE_DISCOUNT_BP :: int where "LARGE_DISCOUNT_BP = 5000"

record DealTermsRow =
  dl_code :: string
  dl_name :: string
  dl_kind :: DealKind
  dl_priority :: int
  dl_percentBp :: "int option"
  dl_amountMinor :: "int option"
  dl_currency :: "string option"
  dl_amountScope :: "AmountScope option"
  dl_minNights :: "int option"
  dl_freeNights :: "int option"
  dl_fromNight :: "int option"
  dl_minLeadDays :: "int option"
  dl_bookFrom :: "string option"
  dl_bookTo :: "string option"
  dl_stayFrom :: "string option"
  dl_stayTo :: "string option"
  dl_weekdays :: "int option"
  dl_stayWindowMode :: StayWindowMode
  dl_discountBase :: DiscountBase
  dl_combinable :: bool
  dl_stackingGroup :: "string option"
  dl_incompatibleDealIds :: "string list"
  dl_channels :: "string list"
  dl_sourceMarkets :: "string list"
  dl_agencyIds :: "string list"
  dl_maxDiscountBp :: "int option"
  dl_minSellFloorMinor :: "int option"
  dl_minMarginBp :: "int option"
  dl_activeFrom :: "string option"
  dl_activeTo :: "string option"
  dl_publicDescription :: "string option"
  dl_internalNotes :: "string option"
  dl_ratePlanIds :: "string list"

datatype IssueSeverity = ERROR | WARNING

record DealIssue =
  di_code :: string
  di_field :: "string option"
  di_severity :: IssueSeverity

definition issue :: "string \<Rightarrow> string \<Rightarrow> DealIssue" where
  "issue code fld = \<lparr>di_code = code, di_field = Some fld, di_severity = ERROR\<rparr>"

definition issue_if :: "bool \<Rightarrow> string \<Rightarrow> string \<Rightarrow> DealIssue list" where
  "issue_if test code fld = (if test then [issue code fld] else [])"

definition ALLOWED_KEYS :: "string list" where
  "ALLOWED_KEYS = [''idempotencyKey'', ''hotelId'', ''expectedVersion'', ''code'', ''name'', ''kind'', ''priority'', ''percentBp'', ''amountMinor'',
     ''currency'', ''amountScope'', ''minNights'', ''freeNights'', ''fromNight'', ''minLeadDays'', ''bookFrom'', ''bookTo'', ''stayFrom'', ''stayTo'',
     ''weekdays'', ''stayWindowMode'', ''discountBase'', ''combinable'', ''stackingGroup'', ''incompatibleDealIds'', ''channels'', ''sourceMarkets'',
     ''agencyIds'', ''maxDiscountBp'', ''minSellFloorMinor'', ''minMarginBp'', ''activeFrom'', ''activeTo'', ''publicDescription'', ''internalNotes'',
     ''ratePlanIds'', ''fundingSource'']"

subsection \<open>Field parsers\<close>

text \<open>\<open>text\<close>: the outer option is \<open>undefined\<close>, the inner one \<open>null\<close>.\<close>

definition parse_text :: "jsval \<Rightarrow> nat \<Rightarrow> string option option" where
  "parse_text v max_length =
     (case v of
        JUndefined \<Rightarrow> Some None
      | JNull \<Rightarrow> Some None
      | JStr s \<Rightarrow> if length (trim s) \<le> max_length then Some (Some (trim s)) else None
      | _ \<Rightarrow> None)"

text \<open>The pattern \<open>/^[1-9]\d{0,15}$/\<close>.\<close>

definition minor_shape :: "string \<Rightarrow> bool" where
  "minor_shape s \<longleftrightarrow> s \<noteq> [] \<and> length s \<le> 16 \<and> list_all is_digit s \<and> hd s \<noteq> CHR ''0''"

definition parseMinor :: "jsval \<Rightarrow> int \<Rightarrow> int option" where
  "parseMinor v max_minor =
     (case v of
        JStr s \<Rightarrow> if minor_shape s \<and> int (nat_of_digits s) \<le> max_minor then Some (int (nat_of_digits s)) else None
      | _ \<Rightarrow> None)"

definition weekdaysToMask :: "int list \<Rightarrow> int" where
  "weekdaysToMask days = foldl (\<lambda>m day. or m (2 ^ nat day)) 0 days"

definition maskToWeekdays :: "int option \<Rightarrow> int list" where
  "maskToWeekdays day_mask = (case day_mask of None \<Rightarrow> [] | Some m \<Rightarrow> filter (\<lambda>day. odd (m div 2 ^ nat day)) [0, 1, 2, 3, 4, 5, 6])"

type_synonym body = "(string \<times> jsval) list"

definition optInt :: "body \<Rightarrow> string \<Rightarrow> int \<Rightarrow> int \<Rightarrow> int option \<times> DealIssue list" where
  "optInt body fld lo hi =
     (let v = field body fld in
      if nullish v then (None, [])
      else if \<not> whole v lo hi then (None, [issue ''DEAL_NUMBER_INVALID'' fld])
      else (Some (int_of_val v), []))"

definition optDay :: "body \<Rightarrow> string \<Rightarrow> (string option \<times> DealIssue list) result" where
  "optDay body fld =
     (let v = field body fld in
      if nullish v \<or> v = JStr [] then Inr (None, [])
      else ebind (isDay v) (\<lambda>ok. Inr (if \<not> ok then (None, [issue ''DEAL_DATE_INVALID'' fld]) else (Some (text_of v), []))))"

definition optMinor :: "body \<Rightarrow> string \<Rightarrow> int \<Rightarrow> int option \<times> DealIssue list" where
  "optMinor body fld max_minor =
     (let v = field body fld in
      if nullish v \<or> v = JStr [] then (None, [])
      else case parseMinor v max_minor of None \<Rightarrow> (None, [issue ''DEAL_AMOUNT_INVALID'' fld]) | Some m \<Rightarrow> (Some m, []))"

definition parse_list :: "body \<Rightarrow> string \<Rightarrow> nat \<Rightarrow> (string \<Rightarrow> bool) \<Rightarrow> string list \<times> DealIssue list" where
  "parse_list body fld max_items valid =
     (let v = field body fld in
      if nullish v then ([], [])
      else case v of
        JArr items \<Rightarrow>
          if list_ex (\<lambda>item. case item of JStr s \<Rightarrow> \<not> valid (trim s) | _ \<Rightarrow> True) items then ([], [issue ''DEAL_LIST_INVALID'' fld])
          else
            let unique = js_sort cmp_text (foldl (\<lambda>u item. set_add (trim (text_of item)) u) [] items) in
            if length unique > max_items then ([], [issue ''DEAL_LIST_INVALID'' fld]) else (unique, [])
      | _ \<Rightarrow> ([], [issue ''DEAL_LIST_INVALID'' fld]))"

definition code_shape :: "string \<Rightarrow> bool" where
  "code_shape s \<longleftrightarrow> 2 \<le> length s \<and> length s \<le> 40 \<and> list_all word_char s \<and> (is_upper (hd s) \<or> is_lower (hd s) \<or> is_digit (hd s))"

definition id_shape :: "nat \<Rightarrow> string \<Rightarrow> bool" where
  "id_shape n s \<longleftrightarrow> s \<noteq> [] \<and> length s \<le> n \<and> list_all word_char s"

definition country_shape :: "string \<Rightarrow> bool" where
  "country_shape s \<longleftrightarrow> length s = 2 \<and> list_all is_upper s"

definition parse_weekdays :: "body \<Rightarrow> int option \<times> DealIssue list" where
  "parse_weekdays body =
     (let v = field body ''weekdays'' in
      if nullish v then (None, [])
      else case v of
        JArr days \<Rightarrow>
          if list_ex (\<lambda>d. \<not> whole d 0 6) days then (None, [issue ''DEAL_WEEKDAYS_INVALID'' ''weekdays''])
          else if days \<noteq> [] \<and> length (remdups (map int_of_val days)) < 7 then (Some (weekdaysToMask (map int_of_val days)), [])
          else (None, [])
      | _ \<Rightarrow> (None, [issue ''DEAL_WEEKDAYS_INVALID'' ''weekdays'']))"

definition scope_of :: "jsval \<Rightarrow> AmountScope option" where
  "scope_of v = (if v = JStr ''PER_NIGHT'' then Some PER_NIGHT else if v = JStr ''PER_STAY'' then Some PER_STAY else None)"

text \<open>A default stands in for \<open>undefined\<close> only.\<close>

definition or_undefined :: "jsval \<Rightarrow> jsval \<Rightarrow> jsval" where
  "or_undefined v dflt = (if v = JUndefined then dflt else v)"

definition present :: "body \<Rightarrow> string \<Rightarrow> bool" where
  "present body fld \<longleftrightarrow> \<not> nullish (field body fld)"

subsection \<open>The parser\<close>

text \<open>What the code rules of a kind require of the fields it read.\<close>

definition kind_issues ::
  "body \<Rightarrow> string list \<Rightarrow> DealKind \<Rightarrow> int option \<Rightarrow> int option \<Rightarrow> string option \<Rightarrow> jsval \<Rightarrow> int option \<Rightarrow> int option \<Rightarrow> int option \<Rightarrow> int option
     \<Rightarrow> string option \<Rightarrow> string option \<Rightarrow> DealIssue list" where
  "kind_issues body enabledCurrencies kind percentBp amount currencyRaw amountScope minNights freeNights fromNight minLeadDays bookFrom bookTo =
     (let percentKind = (kind \<in> {PERCENT_OFF, EARLY_BIRD, FLASH_SALE, SUBSEQUENT_NIGHTS}) in
      issue_if (percentKind \<and> percentBp = None) ''DEAL_PERCENT_REQUIRED'' ''percentBp''
      @ issue_if (\<not> percentKind \<and> present body ''percentBp'') ''DEAL_PERCENT_NOT_ALLOWED'' ''percentBp''
      @ issue_if (kind \<noteq> FIXED_OFF \<and> (present body ''amountMinor'' \<or> present body ''currency'' \<or> present body ''amountScope''))
          ''DEAL_AMOUNT_NOT_ALLOWED'' ''amountMinor''
      @ (if kind = FIXED_OFF
         then issue_if (amount = None) ''DEAL_AMOUNT_REQUIRED'' ''amountMinor''
           @ issue_if (case currencyRaw of None \<Rightarrow> True | Some c \<Rightarrow> \<not> iso_alpha c \<or> c \<notin> set enabledCurrencies) ''CURRENCY_NOT_ENABLED'' ''currency''
           @ issue_if (amountScope = JNull) ''DEAL_AMOUNT_SCOPE_INVALID'' ''amountScope''
         else [])
      @ (if kind = STAY_X_PAY_Y
         then issue_if (case minNights of None \<Rightarrow> True | Some m \<Rightarrow> m < 2) ''DEAL_NIGHTS_INVALID'' ''minNights''
           @ issue_if (case freeNights of None \<Rightarrow> True | Some f \<Rightarrow> (case minNights of None \<Rightarrow> False | Some m \<Rightarrow> m \<le> f)) ''DEAL_FREE_NIGHTS_INVALID'' ''freeNights''
         else issue_if (present body ''freeNights'') ''DEAL_FREE_NIGHTS_NOT_ALLOWED'' ''freeNights'')
      @ issue_if (kind = EVERY_NTH_FREE \<and> (case minNights of None \<Rightarrow> True | Some m \<Rightarrow> m < 2)) ''DEAL_NIGHTS_INVALID'' ''minNights''
      @ issue_if (if kind = EARLY_BIRD then minLeadDays = None else present body ''minLeadDays'') ''DEAL_LEAD_INVALID'' ''minLeadDays''
      @ issue_if (if kind = SUBSEQUENT_NIGHTS then fromNight = None else present body ''fromNight'') ''DEAL_FROM_NIGHT_INVALID'' ''fromNight''
      @ issue_if (kind = FLASH_SALE \<and> (bookFrom = None \<or> bookTo = None)) ''DEAL_FLASH_WINDOW_REQUIRED'' ''bookFrom'')"

definition date_order :: "string option \<Rightarrow> string option \<Rightarrow> bool" where
  "date_order a b \<longleftrightarrow> (case (a, b) of (Some x, Some y) \<Rightarrow> x \<le> y | _ \<Rightarrow> True)"

definition parse_kind :: "jsval \<Rightarrow> DealKind option \<times> DealIssue list" where
  "parse_kind v =
     (case v of
        JStr s \<Rightarrow>
          (map_of DEAL_KINDS s,
           if s \<in> set UNSUPPORTED_DEAL_KINDS then [issue ''PROMOTION_TYPE_UNSUPPORTED'' ''kind'']
           else issue_if (map_of DEAL_KINDS s = None) ''DEAL_KIND_INVALID'' ''kind'')
      | _ \<Rightarrow> (None, [issue ''DEAL_KIND_INVALID'' ''kind'']))"

text \<open>
  The fields as the parser's locals hold them. The six days are read first in a record, since reading a
  day can throw; the other locals are functions of the body.
\<close>

record DealDays =
  dd_bookFrom :: "string option"
  dd_bookTo :: "string option"
  dd_stayFrom :: "string option"
  dd_stayTo :: "string option"
  dd_activeFrom :: "string option"
  dd_activeTo :: "string option"
  dd_issues :: "DealIssue list"

definition parse_days :: "body \<Rightarrow> DealDays result" where
  "parse_days body =
     ebind (optDay body ''bookFrom'') (\<lambda>(bookFrom, d1).
     ebind (optDay body ''bookTo'') (\<lambda>(bookTo, d2).
     ebind (optDay body ''stayFrom'') (\<lambda>(stayFrom, d3).
     ebind (optDay body ''stayTo'') (\<lambda>(stayTo, d4).
     ebind (optDay body ''activeFrom'') (\<lambda>(activeFrom, d5).
     ebind (optDay body ''activeTo'') (\<lambda>(activeTo, d6).
       Inr \<lparr>dd_bookFrom = bookFrom, dd_bookTo = bookTo, dd_stayFrom = stayFrom, dd_stayTo = stayTo, dd_activeFrom = activeFrom,
         dd_activeTo = activeTo, dd_issues = d1 @ d2 @ d3 @ d4 @ d5 @ d6\<rparr>))))))"

definition percent_of :: "body \<Rightarrow> int option \<times> DealIssue list" where "percent_of body = optInt body ''percentBp'' 1 MAX_DEAL_PERCENT_BP"
definition min_nights_of :: "body \<Rightarrow> int option \<times> DealIssue list" where "min_nights_of body = optInt body ''minNights'' 1 365"
definition free_nights_of :: "body \<Rightarrow> int option \<times> DealIssue list" where "free_nights_of body = optInt body ''freeNights'' 1 364"
definition from_night_of :: "body \<Rightarrow> int option \<times> DealIssue list" where "from_night_of body = optInt body ''fromNight'' 2 365"
definition lead_days_of :: "body \<Rightarrow> int option \<times> DealIssue list" where "lead_days_of body = optInt body ''minLeadDays'' 1 730"
definition amount_of :: "body \<Rightarrow> int option \<times> DealIssue list" where "amount_of body = optMinor body ''amountMinor'' MAX_DEAL_AMOUNT_MINOR"
definition max_discount_of :: "body \<Rightarrow> int option \<times> DealIssue list" where "max_discount_of body = optInt body ''maxDiscountBp'' 1 MAX_DEAL_PERCENT_BP"
definition min_margin_of :: "body \<Rightarrow> int option \<times> DealIssue list" where "min_margin_of body = optInt body ''minMarginBp'' 1 MAX_DEAL_PERCENT_BP"
definition sell_floor_of :: "body \<Rightarrow> int option \<times> DealIssue list" where "sell_floor_of body = optMinor body ''minSellFloorMinor'' MAX_DEAL_AMOUNT_MINOR"
definition incompatible_of :: "body \<Rightarrow> string list \<times> DealIssue list" where "incompatible_of body = parse_list body ''incompatibleDealIds'' 20 (id_shape 64)"
definition channels_of :: "body \<Rightarrow> string list \<times> DealIssue list" where "channels_of body = parse_list body ''channels'' 2 (\<lambda>s. s \<in> set DEAL_CHANNELS)"
definition markets_of :: "body \<Rightarrow> string list \<times> DealIssue list" where "markets_of body = parse_list body ''sourceMarkets'' 250 country_shape"
definition agencies_of :: "body \<Rightarrow> string list \<times> DealIssue list" where "agencies_of body = parse_list body ''agencyIds'' 100 (id_shape 64)"
definition plans_of :: "body \<Rightarrow> string list \<times> DealIssue list" where "plans_of body = parse_list body ''ratePlanIds'' MAX_DEAL_PLANS (id_shape 64)"

definition priority_of :: "body \<Rightarrow> jsval" where
  "priority_of body = (if nullish (field body ''priority'') then JNum (JInt 0) else field body ''priority'')"

definition currency_of :: "body \<Rightarrow> string option" where
  "currency_of body = (case field body ''currency'' of JStr s \<Rightarrow> Some (toUpperCase (trim s)) | _ \<Rightarrow> None)"

definition amount_scope_of :: "body \<Rightarrow> jsval" where
  "amount_scope_of body = (if nullish (field body ''amountScope'') then JNull else field body ''amountScope'')"

definition stacking_group_of :: "body \<Rightarrow> jsval" where
  "stacking_group_of body =
     (let v = field body ''stackingGroup'' in if nullish v \<or> v = JStr [] then JNull else v)"

text \<open>The problems, in the order the parser adds them.\<close>

definition head_issues :: "body \<Rightarrow> DealIssue list" where
  "head_issues body =
     map (\<lambda>key. issue ''DEAL_FIELD_NOT_ALLOWED'' key) (filter (\<lambda>key. key \<notin> set ALLOWED_KEYS) (map fst body))
     @ issue_if (field body ''fundingSource'' \<noteq> JUndefined \<and> field body ''fundingSource'' \<noteq> JStr ''SUPPLIER'') ''DEAL_FUNDING_UNSUPPORTED'' ''fundingSource''
     @ snd (parse_kind (field body ''kind''))
     @ issue_if (\<not> code_shape (trim (text_of (field body ''code'')))) ''DEAL_CODE_INVALID'' ''code''
     @ (let name = trim (text_of (field body ''name'')) in issue_if (length name < 1 \<or> length name > 80) ''DEAL_NAME_INVALID'' ''name'')"

definition number_issues :: "body \<Rightarrow> DealIssue list" where
  "number_issues body =
     issue_if (\<not> whole (priority_of body) 0 100) ''DEAL_NUMBER_INVALID'' ''priority''
     @ snd (percent_of body) @ snd (min_nights_of body) @ snd (free_nights_of body) @ snd (from_night_of body) @ snd (lead_days_of body)
     @ snd (amount_of body)
     @ issue_if (amount_scope_of body \<noteq> JNull \<and> scope_of (amount_scope_of body) = None) ''DEAL_AMOUNT_SCOPE_INVALID'' ''amountScope''"

definition date_issues :: "DealDays \<Rightarrow> DealIssue list" where
  "date_issues days =
     dd_issues days
     @ issue_if (\<not> date_order (dd_bookFrom days) (dd_bookTo days)) ''DEAL_DATE_ORDER'' ''bookTo''
     @ issue_if (\<not> date_order (dd_stayFrom days) (dd_stayTo days)) ''DEAL_DATE_ORDER'' ''stayTo''
     @ issue_if (\<not> date_order (dd_activeFrom days) (dd_activeTo days)) ''DEAL_DATE_ORDER'' ''activeTo''"

definition choice_issues :: "body \<Rightarrow> DealDays \<Rightarrow> DealIssue list" where
  "choice_issues body days =
     (let stayWindowMode = or_undefined (field body ''stayWindowMode'') (JStr ''WHOLE_STAY'');
          discountBase = or_undefined (field body ''discountBase'') (JStr ''ROOM_AND_GUESTS'');
          combinable = or_undefined (field body ''combinable'') (JBool False);
          stackingGroup = stacking_group_of body in
      snd (parse_weekdays body)
      @ issue_if (stayWindowMode \<notin> {JStr ''WHOLE_STAY'', JStr ''NIGHTS_IN_WINDOW''}) ''DEAL_WINDOW_MODE_INVALID'' ''stayWindowMode''
      @ issue_if (stayWindowMode = JStr ''NIGHTS_IN_WINDOW'' \<and> dd_stayFrom days = None \<and> dd_stayTo days = None) ''DEAL_WINDOW_MODE_INVALID'' ''stayWindowMode''
      @ issue_if (discountBase \<notin> {JStr ''ROOM_AND_GUESTS'', JStr ''ROOM_ONLY''}) ''DEAL_BASE_INVALID'' ''discountBase''
      @ issue_if (combinable \<notin> {JBool True, JBool False}) ''DEAL_COMBINABLE_INVALID'' ''combinable''
      @ issue_if (stackingGroup \<noteq> JNull \<and> \<not> (case stackingGroup of JStr s \<Rightarrow> id_shape 40 s | _ \<Rightarrow> False)) ''DEAL_STACKING_GROUP_INVALID'' ''stackingGroup'')"

definition list_issues :: "body \<Rightarrow> DealIssue list" where
  "list_issues body =
     snd (incompatible_of body) @ snd (channels_of body) @ snd (markets_of body) @ snd (agencies_of body)
     @ snd (max_discount_of body) @ snd (min_margin_of body) @ snd (sell_floor_of body)
     @ issue_if (parse_text (field body ''publicDescription'') 500 = None) ''DEAL_TEXT_INVALID'' ''publicDescription''
     @ issue_if (parse_text (field body ''internalNotes'') 2000 = None) ''DEAL_TEXT_INVALID'' ''internalNotes''
     @ snd (plans_of body)"

definition final_issues :: "body \<Rightarrow> DealKind option \<Rightarrow> DealIssue list" where
  "final_issues body kind =
     (case (fst (amount_of body), fst (sell_floor_of body)) of
        (Some a, Some f) \<Rightarrow> if kind = Some FIXED_OFF \<and> f \<le> a \<and> amount_scope_of body = JStr ''PER_NIGHT''
          then [\<lparr>di_code = ''DEAL_FLOOR_BELOW_DISCOUNT'', di_field = Some ''minSellFloorMinor'', di_severity = WARNING\<rparr>] else []
      | _ \<Rightarrow> [])
     @ issue_if (length (fst (plans_of body)) < 1) ''DEAL_SCOPE_REQUIRED'' ''ratePlanIds''
     @ issue_if (case fst (percent_of body) of None \<Rightarrow> False | Some p \<Rightarrow> p > LARGE_DISCOUNT_BP \<and> fst (sell_floor_of body) = None)
         ''DEAL_LARGE_DISCOUNT_NEEDS_FLOOR'' ''minSellFloorMinor''"

definition deal_issues :: "body \<Rightarrow> string list \<Rightarrow> DealDays \<Rightarrow> DealIssue list" where
  "deal_issues body enabledCurrencies days =
     (let kind = fst (parse_kind (field body ''kind'')) in
      head_issues body @ number_issues body @ date_issues days @ choice_issues body days @ list_issues body
      @ (case kind of None \<Rightarrow> []
         | Some k \<Rightarrow> kind_issues body enabledCurrencies k (fst (percent_of body)) (fst (amount_of body)) (currency_of body) (amount_scope_of body)
             (fst (min_nights_of body)) (fst (free_nights_of body)) (fst (from_night_of body)) (fst (lead_days_of body))
             (dd_bookFrom days) (dd_bookTo days))
      @ final_issues body kind)"

definition deal_terms :: "body \<Rightarrow> DealKind \<Rightarrow> DealDays \<Rightarrow> DealTermsRow" where
  "deal_terms body kind days =
     \<lparr>dl_code = trim (text_of (field body ''code'')), dl_name = trim (text_of (field body ''name'')), dl_kind = kind,
      dl_priority = int_of_val (priority_of body), dl_percentBp = fst (percent_of body), dl_amountMinor = fst (amount_of body),
      dl_currency = (if kind = FIXED_OFF then currency_of body else None),
      dl_amountScope = (if kind = FIXED_OFF then scope_of (amount_scope_of body) else None), dl_minNights = fst (min_nights_of body),
      dl_freeNights = fst (free_nights_of body), dl_fromNight = fst (from_night_of body), dl_minLeadDays = fst (lead_days_of body),
      dl_bookFrom = dd_bookFrom days, dl_bookTo = dd_bookTo days, dl_stayFrom = dd_stayFrom days, dl_stayTo = dd_stayTo days,
      dl_weekdays = fst (parse_weekdays body),
      dl_stayWindowMode = (if or_undefined (field body ''stayWindowMode'') (JStr ''WHOLE_STAY'') = JStr ''NIGHTS_IN_WINDOW'' then NIGHTS_IN_WINDOW else WHOLE_STAY),
      dl_discountBase = (if or_undefined (field body ''discountBase'') (JStr ''ROOM_AND_GUESTS'') = JStr ''ROOM_ONLY'' then ROOM_ONLY else ROOM_AND_GUESTS),
      dl_combinable = (or_undefined (field body ''combinable'') (JBool False) = JBool True),
      dl_stackingGroup = (case stacking_group_of body of JStr s \<Rightarrow> Some s | _ \<Rightarrow> None), dl_incompatibleDealIds = fst (incompatible_of body),
      dl_channels = fst (channels_of body), dl_sourceMarkets = fst (markets_of body), dl_agencyIds = fst (agencies_of body),
      dl_maxDiscountBp = fst (max_discount_of body), dl_minSellFloorMinor = fst (sell_floor_of body), dl_minMarginBp = fst (min_margin_of body),
      dl_activeFrom = dd_activeFrom days, dl_activeTo = dd_activeTo days,
      dl_publicDescription = (case parse_text (field body ''publicDescription'') 500 of Some d \<Rightarrow> d | None \<Rightarrow> None),
      dl_internalNotes = (case parse_text (field body ''internalNotes'') 2000 of Some d \<Rightarrow> d | None \<Rightarrow> None),
      dl_ratePlanIds = fst (plans_of body)\<rparr>"

definition has_error :: "DealIssue list \<Rightarrow> bool" where
  "has_error is \<longleftrightarrow> list_ex (\<lambda>i. di_severity i = ERROR) is"

definition parse_fields :: "body \<Rightarrow> string list \<Rightarrow> (DealTermsRow option \<times> DealIssue list) result" where
  "parse_fields body enabledCurrencies =
     ebind (parse_days body) (\<lambda>days.
     let issues = deal_issues body enabledCurrencies days in
     Inr (case fst (parse_kind (field body ''kind'')) of
            None \<Rightarrow> (None, issues)
          | Some kind \<Rightarrow> if has_error issues then (None, issues) else (Some (deal_terms body kind days), issues)))"

definition parseDealInput :: "jsval \<Rightarrow> string list \<Rightarrow> (DealTermsRow option \<times> DealIssue list) result" where
  "parseDealInput v enabledCurrencies =
     (case v of
        JObj body \<Rightarrow> parse_fields body enabledCurrencies
      | _ \<Rightarrow> Inr (None, [\<lparr>di_code = ''DEAL_BODY_INVALID'', di_field = None, di_severity = ERROR\<rparr>]))"


subsection \<open>Lifecycle\<close>

datatype DealStatus =
    DRAFT | PENDING_APPROVAL | APPROVED | REJECTED | SCHEDULED | ACTIVE | PAUSED | SUSPENDED | EXPIRED | ARCHIVED

fun DEAL_TRANSITIONS :: "DealStatus \<Rightarrow> DealStatus list" where
  "DEAL_TRANSITIONS DRAFT = [PENDING_APPROVAL, ARCHIVED]"
| "DEAL_TRANSITIONS PENDING_APPROVAL = [APPROVED, REJECTED, DRAFT]"
| "DEAL_TRANSITIONS APPROVED = [SCHEDULED, ACTIVE, DRAFT]"
| "DEAL_TRANSITIONS REJECTED = [DRAFT, ARCHIVED]"
| "DEAL_TRANSITIONS SCHEDULED = [ACTIVE, PAUSED, SUSPENDED, EXPIRED]"
| "DEAL_TRANSITIONS ACTIVE = [PAUSED, SUSPENDED, EXPIRED]"
| "DEAL_TRANSITIONS PAUSED = [ACTIVE, SCHEDULED, SUSPENDED, EXPIRED, ARCHIVED]"
| "DEAL_TRANSITIONS SUSPENDED = [DRAFT, ARCHIVED]"
| "DEAL_TRANSITIONS EXPIRED = [ARCHIVED]"
| "DEAL_TRANSITIONS ARCHIVED = []"

definition canTransition :: "DealStatus \<Rightarrow> DealStatus \<Rightarrow> bool" where
  "canTransition from_status to_status \<longleftrightarrow> to_status \<in> set (DEAL_TRANSITIONS from_status)"

definition PRICING_STATUSES :: "DealStatus list" where "PRICING_STATUSES = [ACTIVE, SCHEDULED]"
definition TERMS_EDITABLE :: "DealStatus list" where "TERMS_EDITABLE = [DRAFT]"

definition effectiveDealStatus :: "DealStatus \<Rightarrow> string option \<Rightarrow> string option \<Rightarrow> string option \<Rightarrow> DealStatus" where
  "effectiveDealStatus status activeFrom activeTo today =
     (case today of
        None \<Rightarrow> status
      | Some t \<Rightarrow>
          if status = ACTIVE \<or> status = SCHEDULED \<or> status = PAUSED then
            if (case activeTo of None \<Rightarrow> False | Some u \<Rightarrow> t > u) then EXPIRED
            else if status = SCHEDULED \<and> (case activeFrom of None \<Rightarrow> True | Some f \<Rightarrow> f \<le> t) then ACTIVE
            else if status = ACTIVE \<and> (case activeFrom of None \<Rightarrow> False | Some f \<Rightarrow> t < f) then SCHEDULED
            else status
          else status)"

subsection \<open>Mapping to the engine\<close>

fun ENGINE_KIND :: "DealKind \<Rightarrow> EngineKind" where
  "ENGINE_KIND PERCENT_OFF = EngineKind.PERCENT_OFF"
| "ENGINE_KIND EARLY_BIRD = EngineKind.EARLY_BIRD"
| "ENGINE_KIND FLASH_SALE = EngineKind.FLASH_SALE"
| "ENGINE_KIND STAY_X_PAY_Y = FREE_NIGHTS"
| "ENGINE_KIND SUBSEQUENT_NIGHTS = EngineKind.SUBSEQUENT_NIGHTS"
| "ENGINE_KIND EVERY_NTH_FREE = EngineKind.EVERY_NTH_FREE"
| "ENGINE_KIND FIXED_OFF = EngineKind.FIXED_OFF"

definition dealToRule :: "string \<Rightarrow> DealTermsRow \<Rightarrow> PromotionRule" where
  "dealToRule i t = \<lparr>pm_id = i, pm_kind = ENGINE_KIND (dl_kind t), pm_name = dl_name t, pm_percentBp = dl_percentBp t,
     pm_minLeadDays = dl_minLeadDays t, pm_maxLeadDays = None, pm_minNights = dl_minNights t, pm_freeNights = dl_freeNights t,
     pm_bookFrom = dl_bookFrom t, pm_bookTo = dl_bookTo t, pm_stayFrom = dl_stayFrom t, pm_stayTo = dl_stayTo t,
     pm_combinable = Some (dl_combinable t), pm_stayWindowMode = Some (dl_stayWindowMode t), pm_discountBase = Some (dl_discountBase t),
     pm_deal = Some \<lparr>dt_amountMinor = dl_amountMinor t, dt_currency = dl_currency t, dt_amountScope = dl_amountScope t,
       dt_fromNight = dl_fromNight t, dt_weekdays = dl_weekdays t, dt_activeFrom = dl_activeFrom t, dt_activeTo = dl_activeTo t,
       dt_priority = dl_priority t, dt_stackingGroup = dl_stackingGroup t, dt_incompatibleWith = dl_incompatibleDealIds t,
       dt_channels = dl_channels t, dt_sourceMarkets = dl_sourceMarkets t, dt_agencyIds = dl_agencyIds t,
       dt_maxDiscountBp = dl_maxDiscountBp t, dt_minSellFloorMinor = dl_minSellFloorMinor t, dt_minMarginBp = dl_minMarginBp t\<rparr>\<rparr>"

text \<open>A stored row: a \<open>Date\<close> is its milliseconds; the text columns with a CHECK constraint have their type.\<close>

record DealRow =
  dr_code :: string
  dr_codeKey :: string
  dr_name :: string
  dr_kind :: DealKind
  dr_priority :: int
  dr_percentBp :: "int option"
  dr_amountMinor :: "int option"
  dr_currency :: "string option"
  dr_amountScope :: "AmountScope option"
  dr_minNights :: "int option"
  dr_freeNights :: "int option"
  dr_fromNight :: "int option"
  dr_minLeadDays :: "int option"
  dr_bookFrom :: "int option"
  dr_bookTo :: "int option"
  dr_stayFrom :: "int option"
  dr_stayTo :: "int option"
  dr_weekdays :: "int option"
  dr_stayWindowMode :: StayWindowMode
  dr_discountBase :: DiscountBase
  dr_combinable :: bool
  dr_stackingGroup :: "string option"
  dr_incompatibleDealIds :: "string list"
  dr_channels :: "string list"
  dr_sourceMarkets :: "string list"
  dr_agencyIds :: "string list"
  dr_maxDiscountBp :: "int option"
  dr_minSellFloorMinor :: "int option"
  dr_minMarginBp :: "int option"
  dr_activeFrom :: "int option"
  dr_activeTo :: "int option"
  dr_publicDescription :: "string option"
  dr_internalNotes :: "string option"

definition day_text :: "int option \<Rightarrow> string option" where
  "day_text v = map_option (\<lambda>ms. iso_of_day (ms div MS_PER_DAY)) v"

definition date_of :: "string option \<Rightarrow> int option" where
  "date_of v = (case v of None \<Rightarrow> None | Some s \<Rightarrow> if s = [] then None else Some (dayNumber s * MS_PER_DAY))"

definition sorted_texts :: "string list \<Rightarrow> string list" where
  "sorted_texts xs = js_sort cmp_text xs"

definition rowToTerms :: "DealRow \<Rightarrow> string list \<Rightarrow> DealTermsRow" where
  "rowToTerms r ratePlanIds = \<lparr>dl_code = dr_code r, dl_name = dr_name r, dl_kind = dr_kind r, dl_priority = dr_priority r,
     dl_percentBp = dr_percentBp r, dl_amountMinor = dr_amountMinor r, dl_currency = dr_currency r, dl_amountScope = dr_amountScope r,
     dl_minNights = dr_minNights r, dl_freeNights = dr_freeNights r, dl_fromNight = dr_fromNight r, dl_minLeadDays = dr_minLeadDays r,
     dl_bookFrom = day_text (dr_bookFrom r), dl_bookTo = day_text (dr_bookTo r), dl_stayFrom = day_text (dr_stayFrom r),
     dl_stayTo = day_text (dr_stayTo r), dl_weekdays = dr_weekdays r, dl_stayWindowMode = dr_stayWindowMode r,
     dl_discountBase = dr_discountBase r, dl_combinable = dr_combinable r, dl_stackingGroup = dr_stackingGroup r,
     dl_incompatibleDealIds = sorted_texts (dr_incompatibleDealIds r), dl_channels = sorted_texts (dr_channels r),
     dl_sourceMarkets = sorted_texts (dr_sourceMarkets r), dl_agencyIds = sorted_texts (dr_agencyIds r),
     dl_maxDiscountBp = dr_maxDiscountBp r, dl_minSellFloorMinor = dr_minSellFloorMinor r, dl_minMarginBp = dr_minMarginBp r,
     dl_activeFrom = day_text (dr_activeFrom r), dl_activeTo = day_text (dr_activeTo r), dl_publicDescription = dr_publicDescription r,
     dl_internalNotes = dr_internalNotes r, dl_ratePlanIds = sorted_texts ratePlanIds\<rparr>"

definition termsToColumns :: "DealTermsRow \<Rightarrow> DealRow" where
  "termsToColumns t = \<lparr>dr_code = dl_code t, dr_codeKey = toLowerCase (dl_code t), dr_name = dl_name t, dr_kind = dl_kind t,
     dr_priority = dl_priority t, dr_percentBp = dl_percentBp t, dr_amountMinor = dl_amountMinor t, dr_currency = dl_currency t,
     dr_amountScope = dl_amountScope t, dr_minNights = dl_minNights t, dr_freeNights = dl_freeNights t, dr_fromNight = dl_fromNight t,
     dr_minLeadDays = dl_minLeadDays t, dr_bookFrom = date_of (dl_bookFrom t), dr_bookTo = date_of (dl_bookTo t),
     dr_stayFrom = date_of (dl_stayFrom t), dr_stayTo = date_of (dl_stayTo t), dr_weekdays = dl_weekdays t,
     dr_stayWindowMode = dl_stayWindowMode t, dr_discountBase = dl_discountBase t, dr_combinable = dl_combinable t,
     dr_stackingGroup = dl_stackingGroup t, dr_incompatibleDealIds = dl_incompatibleDealIds t, dr_channels = dl_channels t,
     dr_sourceMarkets = dl_sourceMarkets t, dr_agencyIds = dl_agencyIds t, dr_maxDiscountBp = dl_maxDiscountBp t,
     dr_minSellFloorMinor = dl_minSellFloorMinor t, dr_minMarginBp = dl_minMarginBp t, dr_activeFrom = date_of (dl_activeFrom t),
     dr_activeTo = date_of (dl_activeTo t), dr_publicDescription = dl_publicDescription t, dr_internalNotes = dl_internalNotes t\<rparr>"

subsection \<open>Accepted deals\<close>

lemma has_error_simps [simp]:
  "has_error [] \<longleftrightarrow> False"
  "has_error (xs @ ys) \<longleftrightarrow> has_error xs \<or> has_error ys"
  "has_error (issue_if test code fld) \<longleftrightarrow> test"
  by (auto simp: has_error_def issue_if_def issue_def)

lemma optInt_bounds: "fst (optInt body fld lo hi) = Some x \<Longrightarrow> lo \<le> x \<and> x \<le> hi"
  by (auto simp: optInt_def Let_def whole_iff int_of_val_def split: if_splits)

lemma parseMinor_bounds: "parseMinor v hi = Some m \<Longrightarrow> 1 \<le> m \<and> m \<le> hi"
proof -
  assume "parseMinor v hi = Some m"
  then obtain s where s: "minor_shape s" "m = int (nat_of_digits s)" "m \<le> hi"
    by (auto simp: parseMinor_def split: jsval.splits if_splits)
  then obtain c r where c: "s = c # r" "is_digit c" "c \<noteq> CHR ''0''" by (cases s) (auto simp: minor_shape_def)
  then have "nat_of_digits s = digit_value c * 10 ^ length r + nat_of_digits r"
    using nat_of_digits_append [of "[c]" r] by (simp add: nat_of_digits_def)
  moreover have "char_code c \<noteq> 48"
  proof
    assume "char_code c = 48"
    then have "c = char_of (48::nat)" unfolding char_code_def by (metis char_of_char)
    moreover have "char_of (48::nat) = CHR ''0''" by code_simp
    ultimately show False using c(3) by simp
  qed
  then have "1 \<le> digit_value c" using c(2) by (auto simp: digit_value_def is_digit_def)
  then have "1 \<le> digit_value c * 10 ^ length r" by (simp add: Suc_le_eq)
  ultimately show ?thesis using s by linarith
qed

lemma optMinor_bounds: "fst (optMinor body fld hi) = Some m \<Longrightarrow> 1 \<le> m \<and> m \<le> hi"
  by (auto simp: optMinor_def Let_def dest: parseMinor_bounds split: if_splits option.splits)

lemma parse_fields_accepted:
  assumes "parse_fields body enabledCurrencies = Inr (Some t, is)"
  obtains days kind where "parse_days body = Inr days" "t = deal_terms body kind days"
    "fst (parse_kind (field body ''kind'')) = Some kind" "is = deal_issues body enabledCurrencies days" "\<not> has_error is"
  using assms by (cases "parse_days body") (auto simp: parse_fields_def Let_def split: option.splits if_splits)

lemma accepted_issues:
  assumes "\<not> has_error (deal_issues body enabledCurrencies days)" "fst (parse_kind (field body ''kind'')) = Some kind"
  shows "\<not> has_error (number_issues body)" "\<not> has_error (date_issues days)" "\<not> has_error (final_issues body (Some kind))"
    "\<not> has_error (kind_issues body enabledCurrencies kind (fst (percent_of body)) (fst (amount_of body)) (currency_of body) (amount_scope_of body)
      (fst (min_nights_of body)) (fst (free_nights_of body)) (fst (from_night_of body)) (fst (lead_days_of body))
      (dd_bookFrom days) (dd_bookTo days))"
  using assms by (simp_all add: deal_issues_def Let_def)

text \<open>What the parser guarantees of the terms it returns: every field a kind needs is there and in its range.\<close>

definition percent_wf :: "DealTermsRow \<Rightarrow> bool" where
  "percent_wf t \<longleftrightarrow>
     (case dl_percentBp t of
        None \<Rightarrow> dl_kind t \<notin> {PERCENT_OFF, EARLY_BIRD, FLASH_SALE, SUBSEQUENT_NIGHTS}
      | Some p \<Rightarrow> 1 \<le> p \<and> p \<le> MAX_DEAL_PERCENT_BP \<and> (p > LARGE_DISCOUNT_BP \<longrightarrow> dl_minSellFloorMinor t \<noteq> None))"

definition nights_wf :: "DealTermsRow \<Rightarrow> bool" where
  "nights_wf t \<longleftrightarrow>
     (dl_kind t \<in> {STAY_X_PAY_Y, EVERY_NTH_FREE} \<longrightarrow> (case dl_minNights t of None \<Rightarrow> False | Some m \<Rightarrow> 2 \<le> m \<and> m \<le> 365))
     \<and> (dl_kind t = STAY_X_PAY_Y \<longrightarrow> (case dl_freeNights t of None \<Rightarrow> False | Some f \<Rightarrow> 1 \<le> f \<and> f < the (dl_minNights t)))
     \<and> (dl_kind t = SUBSEQUENT_NIGHTS \<longrightarrow> (case dl_fromNight t of None \<Rightarrow> False | Some f \<Rightarrow> 2 \<le> f \<and> f \<le> 365))
     \<and> (dl_kind t = EARLY_BIRD \<longleftrightarrow> dl_minLeadDays t \<noteq> None)"

definition amount_wf :: "string list \<Rightarrow> DealTermsRow \<Rightarrow> bool" where
  "amount_wf enabledCurrencies t \<longleftrightarrow>
     (if dl_kind t = FIXED_OFF
      then (case dl_amountMinor t of None \<Rightarrow> False | Some a \<Rightarrow> 1 \<le> a \<and> a \<le> MAX_DEAL_AMOUNT_MINOR)
        \<and> dl_amountScope t \<noteq> None \<and> (case dl_currency t of None \<Rightarrow> False | Some c \<Rightarrow> c \<in> set enabledCurrencies)
      else dl_amountMinor t = None \<and> dl_amountScope t = None \<and> dl_currency t = None)"

definition dates_wf :: "DealTermsRow \<Rightarrow> bool" where
  "dates_wf t \<longleftrightarrow> date_order (dl_bookFrom t) (dl_bookTo t) \<and> date_order (dl_stayFrom t) (dl_stayTo t)
     \<and> date_order (dl_activeFrom t) (dl_activeTo t) \<and> (dl_kind t = FLASH_SALE \<longrightarrow> dl_bookFrom t \<noteq> None \<and> dl_bookTo t \<noteq> None)"

definition deal_wf :: "string list \<Rightarrow> DealTermsRow \<Rightarrow> bool" where
  "deal_wf enabledCurrencies t \<longleftrightarrow> percent_wf t \<and> nights_wf t \<and> amount_wf enabledCurrencies t \<and> dates_wf t
     \<and> 0 \<le> dl_priority t \<and> dl_priority t \<le> 100 \<and> dl_ratePlanIds t \<noteq> []"

lemma absent_None: "\<not> present body fld \<Longrightarrow> fst (optInt body fld lo hi) = None"
  by (simp add: present_def optInt_def)

lemma absent_minor_None: "\<not> present body fld \<Longrightarrow> fst (optMinor body fld hi) = None"
  by (simp add: present_def optMinor_def)

lemmas field_of_defs = percent_of_def min_nights_of_def free_nights_of_def from_night_of_def lead_days_of_def amount_of_def sell_floor_of_def

lemma accepted_percent:
  assumes "\<not> has_error (deal_issues body enabledCurrencies days)" "fst (parse_kind (field body ''kind'')) = Some kind"
  shows "percent_wf (deal_terms body kind days)"
  using accepted_issues [OF assms] optInt_bounds [of body "''percentBp''" 1 MAX_DEAL_PERCENT_BP]
  by (auto simp: percent_wf_def deal_terms_def kind_issues_def final_issues_def percent_of_def Let_def split: option.splits)

lemma accepted_nights:
  assumes "\<not> has_error (deal_issues body enabledCurrencies days)" "fst (parse_kind (field body ''kind'')) = Some kind"
  shows "nights_wf (deal_terms body kind days)"
  using accepted_issues(4) [OF assms] optInt_bounds [of body "''minNights''" 1 365] optInt_bounds [of body "''freeNights''" 1 364]
    optInt_bounds [of body "''fromNight''" 2 365] absent_None [of body "''minLeadDays''" 1 730]
  by (cases kind) (auto simp: nights_wf_def deal_terms_def kind_issues_def field_of_defs Let_def split: option.splits)

lemma accepted_amount:
  assumes "\<not> has_error (deal_issues body enabledCurrencies days)" "fst (parse_kind (field body ''kind'')) = Some kind"
  shows "amount_wf enabledCurrencies (deal_terms body kind days)"
  using accepted_issues(1,4) [OF assms] optMinor_bounds [of body "''amountMinor''" MAX_DEAL_AMOUNT_MINOR]
    absent_minor_None [of body "''amountMinor''" MAX_DEAL_AMOUNT_MINOR]
  by (auto simp: amount_wf_def deal_terms_def kind_issues_def number_issues_def amount_of_def Let_def split: option.splits if_splits)

lemma accepted_dates:
  assumes "\<not> has_error (deal_issues body enabledCurrencies days)" "fst (parse_kind (field body ''kind'')) = Some kind"
  shows "dates_wf (deal_terms body kind days)"
  using accepted_issues(2,4) [OF assms] by (auto simp: dates_wf_def deal_terms_def date_issues_def kind_issues_def Let_def)

lemma accepted_deal_wf:
  assumes "\<not> has_error (deal_issues body enabledCurrencies days)" "fst (parse_kind (field body ''kind'')) = Some kind"
  shows "deal_wf enabledCurrencies (deal_terms body kind days)"
proof -
  have "whole (priority_of body) 0 100" "fst (plans_of body) \<noteq> []"
    using accepted_issues(1,3) [OF assms] by (auto simp: number_issues_def final_issues_def)
  then have "0 \<le> int_of_val (priority_of body) \<and> int_of_val (priority_of body) \<le> 100" "fst (plans_of body) \<noteq> []"
    by (auto simp: whole_iff int_of_val_def)
  moreover have "dl_priority (deal_terms body kind days) = int_of_val (priority_of body)"
    "dl_ratePlanIds (deal_terms body kind days) = fst (plans_of body)" by (simp_all add: deal_terms_def)
  ultimately show ?thesis
    using accepted_percent [OF assms] accepted_nights [OF assms] accepted_amount [OF assms] accepted_dates [OF assms]
    by (simp add: deal_wf_def)
qed

lemma parseDealInput_wf:
  assumes "parseDealInput v enabledCurrencies = Inr (Some t, is)"
  shows "deal_wf enabledCurrencies t" "\<not> has_error is"
proof -
  obtain body where "parse_fields body enabledCurrencies = Inr (Some t, is)"
    using assms by (auto simp: parseDealInput_def split: jsval.splits)
  then obtain days kind where k: "fst (parse_kind (field body ''kind'')) = Some kind" and t: "t = deal_terms body kind days"
      and i: "is = deal_issues body enabledCurrencies days" "\<not> has_error is"
    by (rule parse_fields_accepted)
  show "\<not> has_error is" by (rule i(2))
  show "deal_wf enabledCurrencies t" using accepted_deal_wf i k by (simp add: t)
qed

lemma deal_rule_paid:
  assumes "deal_wf enabledCurrencies t" "pm_kind (dealToRule i t) = EngineKind.EVERY_NTH_FREE"
  shows "pm_minNights (dealToRule i t) \<noteq> Some 1"
proof -
  have "dl_kind t = DealKind.EVERY_NTH_FREE" using assms(2) by (cases "dl_kind t") (simp_all add: dealToRule_def)
  then show ?thesis using assms(1) by (auto simp: deal_wf_def nights_wf_def dealToRule_def)
qed


definition sample_body :: body where
  "sample_body = [(''code'', JStr ''STAY3''), (''name'', JStr '' Stay 3 pay 2 ''), (''kind'', JStr ''STAY_X_PAY_Y''), (''minNights'', JNum (JInt 3)),
     (''freeNights'', JNum (JInt 1)), (''stayFrom'', JStr ''2025-01-01''), (''ratePlanIds'', JArr [JStr ''p2'', JStr ''p1''])]"

definition sample_deal :: DealTermsRow where
  "sample_deal = (case parseDealInput (JObj sample_body) [''EUR''] of Inr (Some t, _) \<Rightarrow> t)"


subsection \<open>The stored row\<close>

definition good_day :: "string option \<Rightarrow> bool" where
  "good_day v \<longleftrightarrow> (case v of None \<Rightarrow> True | Some s \<Rightarrow> isIsoDate s)"

lemma optDay_good: "optDay body fld = Inr (v, is) \<Longrightarrow> good_day v"
  by (auto simp: optDay_def good_day_def Let_def ebind_Inr_iff text_of_def isDay_True split: if_splits)

lemma parse_days_good:
  assumes "parse_days body = Inr days"
  shows "list_all good_day [dd_bookFrom days, dd_bookTo days, dd_stayFrom days, dd_stayTo days, dd_activeFrom days, dd_activeTo days]"
  using assms by (auto simp: parse_days_def ebind_Inr_iff split: prod.splits dest!: optDay_good)

lemma day_text_date_of: "good_day v \<Longrightarrow> day_text (date_of v) = v"
  by (auto simp: good_day_def day_text_def date_of_def MS_PER_DAY_def iso_of_dayNumber isIsoDate_def date_shape_def split: option.splits)

lemma sorted_texts_parse_list: "sorted_texts (fst (parse_list body fld n valid)) = fst (parse_list body fld n valid)"
  by (auto simp: parse_list_def sorted_texts_def Let_def text_order.js_sort_fixed text_order.sorted_js_sort split: jsval.splits)

lemma row_of_terms:
  assumes "parse_days body = Inr days"
  shows "rowToTerms (termsToColumns (deal_terms body kind days)) (dl_ratePlanIds (deal_terms body kind days)) = deal_terms body kind days"
  using parse_days_good [OF assms]
  by (simp add: rowToTerms_def termsToColumns_def deal_terms_def day_text_date_of sorted_texts_parse_list
      incompatible_of_def channels_of_def markets_of_def agencies_of_def plans_of_def)

text \<open>
  C39. Storing an accepted deal in its columns and reading the row back with its rate plans gives exactly
  the terms that were parsed: no day shifts, no list is reordered, no amount changes.
\<close>

theorem deal_row_roundtrip:
  assumes "parseDealInput v enabledCurrencies = Inr (Some t, is)"
  shows "rowToTerms (termsToColumns t) (dl_ratePlanIds t) = t"
proof -
  obtain body where "parse_fields body enabledCurrencies = Inr (Some t, is)"
    using assms by (auto simp: parseDealInput_def split: jsval.splits)
  then obtain days kind where "parse_days body = Inr days" "t = deal_terms body kind days" by (rule parse_fields_accepted)
  then show ?thesis by (simp add: row_of_terms)
qed

lemma deal_row_roundtrip_witness:
  "dr_stayFrom (termsToColumns sample_deal) = Some (20089 * 86400000)
   \<and> rowToTerms (termsToColumns sample_deal) [''p1'', ''p2''] = sample_deal"
proof -
  have "parseDealInput (JObj sample_body) [''EUR''] = Inr (Some sample_deal, [])" "dl_ratePlanIds sample_deal = [''p1'', ''p2'']"
    "dr_stayFrom (termsToColumns sample_deal) = Some (20089 * 86400000)" by code_simp+
  with deal_row_roundtrip [of "JObj sample_body" "[''EUR'']" sample_deal "[]"] show ?thesis by simp
qed

subsection \<open>Days of the week\<close>

text \<open>A weekday list survives its bit mask.\<close>

lemma maskToWeekdays_roundtrip: "list_all (\<lambda>m. m = weekdaysToMask (maskToWeekdays (Some m))) [0..127]"
  by code_simp

subsection \<open>What a reader sees today\<close>

text \<open>The label a reader sees is a label the state machine may move to, and seeing it again changes nothing.\<close>

lemma effectiveDealStatus_allowed:
  "effectiveDealStatus st f u today = st \<or> (st = ACTIVE \<and> effectiveDealStatus st f u today = SCHEDULED)
     \<or> canTransition st (effectiveDealStatus st f u today)"
  by (cases st) (auto simp: effectiveDealStatus_def canTransition_def split: option.splits)

lemma effectiveDealStatus_idem:
  "effectiveDealStatus (effectiveDealStatus st f u today) f u today = effectiveDealStatus st f u today"
  by (cases st) (auto simp: effectiveDealStatus_def not_less split: option.splits)

end
