(* ===== verification/Promotion_Rules.thy ===== *)
theory Promotion_Rules
  imports Deals
begin


text \<open>
  Validation of a rate plan's promotion set on write (\<open>validatePromotions\<close> of
  \<open>apps/api/src/supply/promotions.ts\<close>). A rule is the untyped object of the request; an issue is its code
  with the index of its rule (none for the set as a whole). The messages are left out.
\<close>

record PromotionIssue =
  pi_rule :: "nat option"
  pi_code :: string

datatype PromotionKind = EARLY_BIRD | LAST_MINUTE | LONG_STAY | FREE_NIGHTS

definition PROMOTION_KINDS :: "(string \<times> PromotionKind) list" where
  "PROMOTION_KINDS = [(''EARLY_BIRD'', EARLY_BIRD), (''LAST_MINUTE'', LAST_MINUTE), (''LONG_STAY'', LONG_STAY), (''FREE_NIGHTS'', FREE_NIGHTS)]"

definition MAX_PERCENT_BP :: int where "MAX_PERCENT_BP = 9000"
definition MAX_PROMOTIONS_PER_PLAN :: nat where "MAX_PROMOTIONS_PER_PLAN = 20"
definition STAY_WINDOW_MODES :: "jsval list" where "STAY_WINDOW_MODES = [JStr ''WHOLE_STAY'', JStr ''NIGHTS_IN_WINDOW'']"
definition DISCOUNT_BASES :: "jsval list" where "DISCOUNT_BASES = [JStr ''ROOM_AND_GUESTS'', JStr ''ROOM_ONLY'']"

definition promotion_kind :: "body \<Rightarrow> PromotionKind option" where
  "promotion_kind rule = (case field rule ''kind'' of JStr s \<Rightarrow> map_of PROMOTION_KINDS s | _ \<Rightarrow> None)"

definition promotion_name :: "body \<Rightarrow> string" where
  "promotion_name rule = trim (text_of (field rule ''name''))"

definition code_if :: "bool \<Rightarrow> string \<Rightarrow> string list" where
  "code_if test code = (if test then [code] else [])"

definition name_codes :: "string list \<Rightarrow> string \<Rightarrow> string list" where
  "name_codes names name =
     (if length name < 1 \<or> length name > 80 then [''PROMOTION_NAME_INVALID'']
      else code_if (toLowerCase name \<in> set names) ''PROMOTION_NAME_DUPLICATE'')"

definition kind_codes :: "body \<Rightarrow> PromotionKind \<Rightarrow> string list" where
  "kind_codes rule kind =
     (let percentKind = (kind \<noteq> FREE_NIGHTS); f = field rule in
      code_if (percentKind \<and> \<not> whole (f ''percentBp'') 1 MAX_PERCENT_BP) ''PROMOTION_PERCENT_INVALID''
      @ code_if (\<not> percentKind \<and> \<not> nullish (f ''percentBp'')) ''PROMOTION_PERCENT_INVALID''
      @ code_if (kind = EARLY_BIRD \<and> (\<not> whole (f ''minLeadDays'') 1 730 \<or> \<not> nullish (f ''maxLeadDays''))) ''PROMOTION_LEAD_INVALID''
      @ code_if (kind = LAST_MINUTE \<and> (\<not> whole (f ''maxLeadDays'') 0 365 \<or> \<not> nullish (f ''minLeadDays''))) ''PROMOTION_LEAD_INVALID''
      @ code_if ((kind = LONG_STAY \<or> kind = FREE_NIGHTS) \<and> \<not> whole (f ''minNights'') 2 365) ''PROMOTION_NIGHTS_INVALID''
      @ code_if (kind = FREE_NIGHTS \<and> \<not> (whole (f ''freeNights'') 1 364 \<and> whole (f ''minNights'') 2 365
            \<and> int_of_val (f ''freeNights'') < int_of_val (f ''minNights''))) ''PROMOTION_FREE_NIGHTS_INVALID''
      @ code_if (kind \<noteq> FREE_NIGHTS \<and> \<not> nullish (f ''freeNights'')) ''PROMOTION_FREE_NIGHTS_INVALID''
      @ code_if ((kind = EARLY_BIRD \<or> kind = LAST_MINUTE) \<and> \<not> nullish (f ''minNights'')) ''PROMOTION_NIGHTS_INVALID''
      @ code_if (kind = EARLY_BIRD \<and> \<not> nullish (f ''maxLeadDays'')) ''PROMOTION_LEAD_INVALID'')"

text \<open>One day field, and the order of two: each reads its days with \<open>isDay\<close>, which may throw.\<close>

definition day_codes :: "body \<Rightarrow> string \<Rightarrow> string list result" where
  "day_codes rule key =
     (if nullish (field rule key) then Inr []
      else ebind (isDay (field rule key)) (\<lambda>ok. Inr (code_if (\<not> ok) ''PROMOTION_WINDOW_INVALID'')))"

definition order_codes :: "body \<Rightarrow> string \<Rightarrow> string \<Rightarrow> string list result" where
  "order_codes rule a b =
     ebind (isDay (field rule a)) (\<lambda>ok_a.
     if \<not> ok_a then Inr []
     else ebind (isDay (field rule b)) (\<lambda>ok_b.
       Inr (code_if (ok_b \<and> text_of (field rule b) < text_of (field rule a)) ''PROMOTION_WINDOW_INVALID'')))"

definition mode_codes :: "body \<Rightarrow> string list" where
  "mode_codes rule =
     (let f = field rule in
      code_if (\<not> nullish (f ''combinable'') \<and> f ''combinable'' \<notin> {JBool True, JBool False}) ''PROMOTION_COMBINABLE_INVALID''
      @ code_if (\<not> nullish (f ''stayWindowMode'') \<and> f ''stayWindowMode'' \<notin> set STAY_WINDOW_MODES) ''PROMOTION_WINDOW_INVALID''
      @ code_if (f ''stayWindowMode'' = JStr ''NIGHTS_IN_WINDOW'' \<and> nullish (f ''stayFrom'') \<and> nullish (f ''stayTo'')) ''PROMOTION_WINDOW_INVALID''
      @ code_if (\<not> nullish (f ''discountBase'') \<and> f ''discountBase'' \<notin> set DISCOUNT_BASES) ''PROMOTION_BASE_INVALID'')"

definition rule_codes :: "string list \<Rightarrow> body \<Rightarrow> (string list \<times> string list) result" where
  "rule_codes names rule =
     (case promotion_kind rule of
        None \<Rightarrow> Inr ([''PROMOTION_KIND_INVALID''], names)
      | Some kind \<Rightarrow>
          let name = promotion_name rule in
          ebind (day_codes rule ''bookFrom'') (\<lambda>d1.
          ebind (day_codes rule ''bookTo'') (\<lambda>d2.
          ebind (day_codes rule ''stayFrom'') (\<lambda>d3.
          ebind (day_codes rule ''stayTo'') (\<lambda>d4.
          ebind (order_codes rule ''bookFrom'' ''bookTo'') (\<lambda>o1.
          ebind (order_codes rule ''stayFrom'' ''stayTo'') (\<lambda>o2.
            Inr (name_codes names name @ kind_codes rule kind @ d1 @ d2 @ d3 @ d4 @ o1 @ o2 @ mode_codes rule,
                 toLowerCase name # names))))))))"

fun validate_rules :: "nat \<Rightarrow> string list \<Rightarrow> body list \<Rightarrow> PromotionIssue list result" where
  "validate_rules i names [] = Inr []"
| "validate_rules i names (rule # rules) =
     ebind (rule_codes names rule) (\<lambda>(codes, names').
     ebind (validate_rules (Suc i) names' rules) (\<lambda>issues.
       Inr (map (\<lambda>c. \<lparr>pi_rule = Some i, pi_code = c\<rparr>) codes @ issues)))"

definition validatePromotions :: "body list \<Rightarrow> PromotionIssue list result" where
  "validatePromotions rules =
     ebind (validate_rules 0 [] rules) (\<lambda>issues.
       Inr ((if length rules > MAX_PROMOTIONS_PER_PLAN then [\<lparr>pi_rule = None, pi_code = ''PROMOTION_TOO_MANY''\<rparr>] else []) @ issues))"

subsection \<open>Accepted sets\<close>

definition int_field :: "body \<Rightarrow> string \<Rightarrow> int option" where
  "int_field rule key = (if nullish (field rule key) then None else Some (int_of_val (field rule key)))"

text \<open>A rule whose fields are those of its kind, in their ranges, with real days in order.\<close>

definition promotion_wf :: "body \<Rightarrow> bool" where
  "promotion_wf rule \<longleftrightarrow>
     (case promotion_kind rule of
        None \<Rightarrow> False
      | Some kind \<Rightarrow>
          (case int_field rule ''percentBp'' of None \<Rightarrow> kind = FREE_NIGHTS | Some p \<Rightarrow> kind \<noteq> FREE_NIGHTS \<and> 1 \<le> p \<and> p \<le> 9000)
          \<and> (kind = FREE_NIGHTS \<longrightarrow> (case (int_field rule ''minNights'', int_field rule ''freeNights'') of
               (Some m, Some f) \<Rightarrow> 1 \<le> f \<and> f < m \<and> m \<le> 365 | _ \<Rightarrow> False))
          \<and> (kind = LONG_STAY \<longrightarrow> (case int_field rule ''minNights'' of None \<Rightarrow> False | Some m \<Rightarrow> 2 \<le> m \<and> m \<le> 365))
          \<and> (kind = EARLY_BIRD \<longrightarrow> (case int_field rule ''minLeadDays'' of None \<Rightarrow> False | Some l \<Rightarrow> 1 \<le> l \<and> l \<le> 730))
          \<and> (kind = LAST_MINUTE \<longrightarrow> (case int_field rule ''maxLeadDays'' of None \<Rightarrow> False | Some l \<Rightarrow> 0 \<le> l \<and> l \<le> 365)))
     \<and> list_all (\<lambda>key. nullish (field rule key) \<or> isIsoDate (text_of (field rule key))) [''bookFrom'', ''bookTo'', ''stayFrom'', ''stayTo'']
     \<and> 1 \<le> length (promotion_name rule) \<and> length (promotion_name rule) \<le> 80"

lemma code_if_Nil [simp]: "code_if test code = [] \<longleftrightarrow> \<not> test"
  by (simp add: code_if_def)

lemma day_codes_Nil: "day_codes rule key = Inr [] \<longleftrightarrow> nullish (field rule key) \<or> (\<exists>s. field rule key = JStr s \<and> isIsoDate s)"
  unfolding isDay_True [symmetric] by (auto simp: day_codes_def ebind_Inr_iff)

lemma int_field_whole: "whole (field rule key) lo hi \<Longrightarrow> \<exists>i. int_field rule key = Some i \<and> lo \<le> i \<and> i \<le> hi"
  by (auto simp: whole_iff int_field_def nullish_def int_of_val_def)

lemma int_field_value: "whole (field rule key) lo hi \<Longrightarrow> int_field rule key = Some (int_of_val (field rule key))"
  by (auto simp: whole_iff int_field_def nullish_def)

lemma int_field_null: "nullish (field rule key) \<Longrightarrow> int_field rule key = None"
  by (simp add: int_field_def)

lemma kind_codes_wf:
  assumes codes: "kind_codes rule kind = []" and kind: "promotion_kind rule = Some kind"
    and days: "day_codes rule ''bookFrom'' = Inr []" "day_codes rule ''bookTo'' = Inr []" "day_codes rule ''stayFrom'' = Inr []" "day_codes rule ''stayTo'' = Inr []"
    and name: "1 \<le> length (promotion_name rule)" "length (promotion_name rule) \<le> 80"
  shows "promotion_wf rule"
proof -
  have "list_all (\<lambda>key. nullish (field rule key) \<or> isIsoDate (text_of (field rule key))) [''bookFrom'', ''bookTo'', ''stayFrom'', ''stayTo'']"
    using days by (auto simp: day_codes_Nil text_of_def)
  moreover have "case int_field rule ''percentBp'' of None \<Rightarrow> kind = FREE_NIGHTS | Some p \<Rightarrow> kind \<noteq> FREE_NIGHTS \<and> 1 \<le> p \<and> p \<le> 9000"
    using codes int_field_whole [of rule "''percentBp''" 1 9000] int_field_null [of rule "''percentBp''"]
    by (cases "kind = FREE_NIGHTS") (auto simp: kind_codes_def Let_def MAX_PERCENT_BP_def)
  moreover have "case (int_field rule ''minNights'', int_field rule ''freeNights'') of (Some m, Some f) \<Rightarrow> 1 \<le> f \<and> f < m \<and> m \<le> 365 | _ \<Rightarrow> False"
    if "kind = FREE_NIGHTS"
  proof -
    have w: "whole (field rule ''freeNights'') 1 364" "whole (field rule ''minNights'') 2 365"
        "int_of_val (field rule ''freeNights'') < int_of_val (field rule ''minNights'')"
      using codes that by (simp_all add: kind_codes_def Let_def)
    show ?thesis using int_field_whole [OF w(1)] int_field_whole [OF w(2)] w(3) int_field_value [OF w(1)] int_field_value [OF w(2)] by auto
  qed
  moreover have "case int_field rule ''minNights'' of None \<Rightarrow> False | Some m \<Rightarrow> 2 \<le> m \<and> m \<le> 365" if "kind = LONG_STAY"
    using codes that int_field_whole [of rule "''minNights''" 2 365] by (auto simp: kind_codes_def Let_def)
  moreover have "case int_field rule ''minLeadDays'' of None \<Rightarrow> False | Some l \<Rightarrow> 1 \<le> l \<and> l \<le> 730" if "kind = EARLY_BIRD"
    using codes that int_field_whole [of rule "''minLeadDays''" 1 730] by (auto simp: kind_codes_def Let_def)
  moreover have "case int_field rule ''maxLeadDays'' of None \<Rightarrow> False | Some l \<Rightarrow> 0 \<le> l \<and> l \<le> 365" if "kind = LAST_MINUTE"
    using codes that int_field_whole [of rule "''maxLeadDays''" 0 365] by (auto simp: kind_codes_def Let_def)
  ultimately show ?thesis using name by (simp add: promotion_wf_def kind)
qed

lemma rule_codes_Nil:
  assumes "rule_codes names rule = Inr ([], names')"
  shows "promotion_wf rule \<and> names' = toLowerCase (promotion_name rule) # names \<and> toLowerCase (promotion_name rule) \<notin> set names"
proof (cases "promotion_kind rule")
  case None
  then show ?thesis using assms by (simp add: rule_codes_def)
next
  case (Some kind)
  then have "name_codes names (promotion_name rule) = []" "kind_codes rule kind = []"
      "day_codes rule ''bookFrom'' = Inr []" "day_codes rule ''bookTo'' = Inr []" "day_codes rule ''stayFrom'' = Inr []"
      "day_codes rule ''stayTo'' = Inr []" "names' = toLowerCase (promotion_name rule) # names"
    using assms by (auto simp: rule_codes_def Let_def ebind_Inr_iff)
  with Some show ?thesis by (auto simp: name_codes_def Suc_le_eq intro!: kind_codes_wf split: if_splits)
qed

lemma validate_rules_Nil:
  assumes "validate_rules i names rules = Inr []" "distinct names"
  shows "list_all promotion_wf rules \<and> distinct (map (toLowerCase \<circ> promotion_name) rules @ names)"
  using assms
proof (induction rules arbitrary: i names)
  case (Cons rule rules)
  then obtain names' where r: "rule_codes names rule = Inr ([], names')" and v: "validate_rules (Suc i) names' rules = Inr []"
    by (auto simp: ebind_Inr_iff split: prod.splits)
  note w = rule_codes_Nil [OF r]
  with Cons.IH [OF v] Cons.prems(2) show ?case by auto
qed simp

text \<open>
  A promotion set that validation passes has at most twenty rules, no two names that differ only in case,
  and every rule complete for its kind: a percentage of at most 90%, a free-night rule that keeps a paid
  night, lead times and lengths of stay in range, and windows made of real calendar days.
\<close>

theorem accepted_promotions_wf:
  assumes "validatePromotions rules = Inr []"
  shows "length rules \<le> MAX_PROMOTIONS_PER_PLAN \<and> distinct (map (\<lambda>r. toLowerCase (promotion_name r)) rules) \<and> list_all promotion_wf rules"
proof -
  have "validate_rules 0 [] rules = Inr []" "length rules \<le> MAX_PROMOTIONS_PER_PLAN"
    using assms by (auto simp: validatePromotions_def ebind_Inr_iff split: if_splits)
  with validate_rules_Nil [OF this(1)] show ?thesis by (simp add: comp_def)
qed

text \<open>A day that does not exist in its month is reported, a month that does not exist is thrown.\<close>

lemma validatePromotions_days:
  "validatePromotions [[(''kind'', JStr ''LONG_STAY''), (''name'', JStr ''L''), (''percentBp'', JNum (JInt 500)), (''minNights'', JNum (JInt 7)),
     (''stayTo'', JStr ''2025-02-30'')]] = Inr [\<lparr>pi_rule = Some 0, pi_code = ''PROMOTION_WINDOW_INVALID''\<rparr>]"
  "validatePromotions [[(''kind'', JStr ''LONG_STAY''), (''name'', JStr ''L''), (''percentBp'', JNum (JInt 500)), (''minNights'', JNum (JInt 7)),
     (''stayTo'', JStr ''2025-13-01'')]] = Inl (RangeError ''Invalid time value'')"
  by code_simp+

end
