(* ===== verification/Permissions.thy ===== *)
theory Permissions
  imports Prelude
begin

text \<open>
  The permission catalogue (\<open>packages/contracts/src/admin-departments.ts\<close>): the departments, the class of
  each action, and every permission key with its status. Descriptions are display text and are left out.
\<close>

datatype DepartmentId =
    EXECUTIVE_DEPT
  | BUSINESS_DEPT
  | CONTRACTING_DEPT
  | SUPPLY_DEPT
  | MAPPING_DEPT
  | RATES_DEPT
  | COMMERCIAL_DEPT
  | DISTRIBUTION_DEPT
  | CONNECTIVITY_DEPT
  | RESERVATIONS_DEPT
  | RECONCILIATION_DEPT
  | CLIENTS_DEPT
  | FINANCE_DEPT
  | SERVICE_DEPT
  | RISK_DEPT
  | MARKETS_DEPT
  | PLATFORM_DEPT
  | RELIABILITY_DEPT
  | AUDIT_DEPT

datatype ActionClass = S0 | S1 | S2 | S3

datatype PermissionScope = PLATFORM | TENANT

datatype PermissionStatus = ENFORCED | PLANNED

record PermissionDef =
  pd_key :: string
  pd_department :: DepartmentId
  pd_actionClass :: ActionClass
  pd_scope :: PermissionScope
  pd_status :: PermissionStatus
  pd_refines :: "string option"
  pd_approvalOnly :: bool

definition enforced :: "string \<Rightarrow> DepartmentId \<Rightarrow> ActionClass \<Rightarrow> PermissionDef" where
  "enforced key department actionClass =
     \<lparr>pd_key = key, pd_department = department, pd_actionClass = actionClass, pd_scope = TENANT, pd_status = ENFORCED,
      pd_refines = None, pd_approvalOnly = False\<rparr>"

definition planned :: "string \<Rightarrow> DepartmentId \<Rightarrow> ActionClass \<Rightarrow> string option \<Rightarrow> PermissionScope \<Rightarrow> PermissionDef" where
  "planned key department actionClass refines scope =
     \<lparr>pd_key = key, pd_department = department, pd_actionClass = actionClass, pd_scope = scope, pd_status = PLANNED,
      pd_refines = refines, pd_approvalOnly = False\<rparr>"

text \<open>An action that names what a maker-checker request authorises.\<close>

definition approval_action :: "string \<Rightarrow> DepartmentId \<Rightarrow> PermissionScope \<Rightarrow> string \<Rightarrow> PermissionDef" where
  "approval_action key department scope refines =
     \<lparr>pd_key = key, pd_department = department, pd_actionClass = S3, pd_scope = scope, pd_status = ENFORCED,
      pd_refines = Some refines, pd_approvalOnly = True\<rparr>"

definition permissionCatalogue :: "PermissionDef list" where
  "permissionCatalogue = [
     (enforced ''platform.tenants.lifecycle.request'' PLATFORM_DEPT S3)\<lparr>pd_scope := PLATFORM\<rparr>,
     approval_action ''tenant.lifecycle.manage'' PLATFORM_DEPT PLATFORM ''platform.tenants.lifecycle.request'',
     enforced ''supply.hotels.read'' SUPPLY_DEPT S0,
     enforced ''supply.hotels.manage'' SUPPLY_DEPT S1,
     enforced ''supply.hotels.export'' SUPPLY_DEPT S2,
     enforced ''supply.rooms.read'' SUPPLY_DEPT S0,
     enforced ''supply.rooms.manage'' SUPPLY_DEPT S1,
     enforced ''supply.suppliers.read'' CONNECTIVITY_DEPT S0,
     enforced ''supply.suppliers.manage'' CONNECTIVITY_DEPT S1,
     enforced ''supply.mappings.read'' MAPPING_DEPT S0,
     enforced ''supply.mappings.manage'' MAPPING_DEPT S2,
     enforced ''supply.contracts.read'' CONTRACTING_DEPT S0,
     enforced ''supply.contracts.manage'' CONTRACTING_DEPT S2,
     enforced ''supply.room_events.read'' CONTRACTING_DEPT S0,
     enforced ''supply.room_events.manage'' CONTRACTING_DEPT S2,
     enforced ''supply.event_supplements.read'' CONTRACTING_DEPT S0,
     enforced ''supply.event_supplements.manage'' CONTRACTING_DEPT S2,
     enforced ''supply.rates.read'' RATES_DEPT S0,
     enforced ''supply.rates.manage'' RATES_DEPT S2,
     enforced ''supply.availability.read'' RATES_DEPT S0,
     enforced ''supply.availability.manage'' RATES_DEPT S2,
     enforced ''supply.pool_capacity.preview'' RATES_DEPT S1,
     enforced ''supply.pool_capacity.apply'' RATES_DEPT S2,
     enforced ''supply.pool_nights.request'' RATES_DEPT S2,
     enforced ''supply.pool_nights.decide'' RATES_DEPT S2,
     enforced ''booking.read'' RESERVATIONS_DEPT S0,
     enforced ''booking.reconcile'' RECONCILIATION_DEPT S3,
     enforced ''booking.cancel'' RESERVATIONS_DEPT S3,
     enforced ''booking.view.agency'' RESERVATIONS_DEPT S0,
     enforced ''booking.view.net'' RESERVATIONS_DEPT S2,
     enforced ''booking.pii.view'' RESERVATIONS_DEPT S2,
     enforced ''finance.read'' FINANCE_DEPT S0,
     enforced ''funding.manage'' FINANCE_DEPT S3,
     enforced ''finance.reconcile.run'' FINANCE_DEPT S2,
     enforced ''finance.reconcile.resolve'' FINANCE_DEPT S3,
     enforced ''finance.settle.propose'' FINANCE_DEPT S2,
     enforced ''finance.settle.approve'' FINANCE_DEPT S3,
     enforced ''finance.creditnote.propose'' FINANCE_DEPT S2,
     enforced ''finance.creditnote.approve'' FINANCE_DEPT S3,
     enforced ''finance.adjustment.propose'' FINANCE_DEPT S2,
     enforced ''finance.adjustment.approve'' FINANCE_DEPT S3,
     enforced ''finance.period.close'' FINANCE_DEPT S3,
     enforced ''finance.chart.manage'' FINANCE_DEPT S3,
     enforced ''finance.journal.export'' FINANCE_DEPT S2,
     enforced ''finance.terms.manage'' FINANCE_DEPT S3,
     enforced ''audit.read'' AUDIT_DEPT S0,
     enforced ''agency.read'' CLIENTS_DEPT S0,
     enforced ''agency.manage'' CLIENTS_DEPT S1,
     enforced ''case.read'' SERVICE_DEPT S0,
     enforced ''case.manage'' SERVICE_DEPT S1,
     enforced ''distribution.read'' DISTRIBUTION_DEPT S0,
     enforced ''distribution.manage'' DISTRIBUTION_DEPT S2,
     planned ''booking.view.supplier-payload'' RESERVATIONS_DEPT S2 None TENANT,
     enforced ''booking.on-request.resolve'' RESERVATIONS_DEPT S3,
     enforced ''booking.confirm.manual'' RESERVATIONS_DEPT S3,
     enforced ''booking.supplier.retry'' RESERVATIONS_DEPT S2,
     enforced ''booking.supplier-ref.edit'' RESERVATIONS_DEPT S2,
     enforced ''booking.amend'' RESERVATIONS_DEPT S3,
     enforced ''booking.amend.request'' RESERVATIONS_DEPT S2,
     enforced ''booking.cancel.request'' RESERVATIONS_DEPT S2,
     enforced ''booking.cancel.nonrefundable'' RESERVATIONS_DEPT S3,
     enforced ''booking.penalty.waive.approve'' FINANCE_DEPT S3,
     enforced ''booking.finance.view'' FINANCE_DEPT S2,
     enforced ''booking.bulk.assign'' RESERVATIONS_DEPT S1,
     enforced ''booking.bulk.acknowledge'' RESERVATIONS_DEPT S1,
     enforced ''booking.bulk.read'' RESERVATIONS_DEPT S0,
     enforced ''booking.savedview.read'' RESERVATIONS_DEPT S0,
     enforced ''booking.savedview.create'' RESERVATIONS_DEPT S1,
     enforced ''booking.savedview.update.own'' RESERVATIONS_DEPT S1,
     enforced ''booking.savedview.delete.own'' RESERVATIONS_DEPT S1,
     enforced ''booking.documents.issue'' RESERVATIONS_DEPT S2,
     enforced ''booking.rebook'' RESERVATIONS_DEPT S3,
     enforced ''booking.no-show.mark'' RESERVATIONS_DEPT S3,
     enforced ''booking.ops.view'' RESERVATIONS_DEPT S0,
     enforced ''booking.ops.assign'' RESERVATIONS_DEPT S1,
     enforced ''booking.ops.escalate'' RESERVATIONS_DEPT S2,
     enforced ''booking.ops.resolve'' RESERVATIONS_DEPT S3,
     enforced ''booking.ops.note'' RESERVATIONS_DEPT S1,
     planned ''booking.assign'' RESERVATIONS_DEPT S1 (Some ''booking.read'') TENANT,
     enforced ''booking.manual.create'' RESERVATIONS_DEPT S3,
     enforced ''booking.export'' RESERVATIONS_DEPT S2,
     enforced ''booking.export.agency'' RESERVATIONS_DEPT S2,
     planned ''booking.sla.manage'' RESERVATIONS_DEPT S2 (Some ''booking.read'') TENANT,
     approval_action ''contract.approve'' CONTRACTING_DEPT TENANT ''supply.contracts.manage'',
     planned ''contract.terminate'' CONTRACTING_DEPT S3 (Some ''supply.contracts.manage'') TENANT,
     approval_action ''room_event.approve'' CONTRACTING_DEPT TENANT ''supply.room_events.manage'',
     approval_action ''event_supplement.approve'' CONTRACTING_DEPT TENANT ''supply.event_supplements.manage'',
     approval_action ''hotel.activate'' SUPPLY_DEPT TENANT ''supply.hotels.manage'',
     planned ''hotel.deactivate'' SUPPLY_DEPT S2 (Some ''supply.hotels.manage'') TENANT,
     planned ''mapping.override'' MAPPING_DEPT S3 (Some ''supply.mappings.manage'') TENANT,
     planned ''rate.bulk_update'' RATES_DEPT S3 (Some ''supply.rates.manage'') TENANT,
     planned ''availability.bulk_update'' RATES_DEPT S3 (Some ''supply.availability.manage'') TENANT,
     planned ''stop_sell.update'' RATES_DEPT S2 (Some ''supply.availability.manage'') TENANT,
     approval_action ''rate_plan.activate'' RATES_DEPT TENANT ''supply.rates.manage'',
     approval_action ''markup.activate'' COMMERCIAL_DEPT TENANT ''supply.rates.manage'',
     approval_action ''promotion.activate'' COMMERCIAL_DEPT TENANT ''supply.rates.manage'',
     approval_action ''fx.activate'' COMMERCIAL_DEPT TENANT ''supply.rates.manage'',
     planned ''distribution.rule.approve'' DISTRIBUTION_DEPT S3 None TENANT,
     planned ''connector.credentials.manage'' CONNECTIVITY_DEPT S3 None TENANT,
     planned ''connector.search.activate'' CONNECTIVITY_DEPT S3 None TENANT,
     planned ''connector.recheck.activate'' CONNECTIVITY_DEPT S3 None TENANT,
     planned ''connector.booking.activate'' CONNECTIVITY_DEPT S3 None TENANT,
     planned ''connector.cancel.activate'' CONNECTIVITY_DEPT S3 None TENANT,
     approval_action ''reconciliation.resolve'' RECONCILIATION_DEPT TENANT ''booking.reconcile'',
     approval_action ''credit_limit.approve'' FINANCE_DEPT TENANT ''agency.manage'',
     planned ''refund.request'' FINANCE_DEPT S2 None TENANT,
     planned ''refund.approve'' FINANCE_DEPT S3 None TENANT,
     planned ''adjustment.request'' FINANCE_DEPT S2 None TENANT,
     planned ''adjustment.approve'' FINANCE_DEPT S3 None TENANT,
     approval_action ''agency.suspend'' CLIENTS_DEPT TENANT ''agency.manage'',
     planned ''role_permission.assign'' PLATFORM_DEPT S3 None PLATFORM,
     planned ''user_role.assign'' PLATFORM_DEPT S3 None PLATFORM,
     planned ''audit.export'' AUDIT_DEPT S3 None TENANT]"

definition FORBIDDEN_PERMISSION_KEYS :: "string list" where
  "FORBIDDEN_PERMISSION_KEYS = [
     ''inventory.held.update'', ''inventory.sold.update'', ''ledger.update'', ''wallet.balance.update'',
     ''booking.status.update'', ''booking.confirm'', ''admin.all'', ''finance.all'', ''hotel.manage_everything'']"

text \<open>\<open>permissionCatalogue.find((p) => p.key === key)\<close>\<close>

definition permission_of :: "string \<Rightarrow> PermissionDef option" where
  "permission_of key = find (\<lambda>p. pd_key p = key) permissionCatalogue"

lemma permission_of_key: "permission_of key = Some p \<Longrightarrow> p \<in> set permissionCatalogue \<and> pd_key p = key"
  by (auto simp: permission_of_def find_Some_iff)

text \<open>A number for a key, told apart faster than the texts are: no two keys of the catalogue share one.\<close>

definition key_number :: "string \<Rightarrow> int" where
  "key_number k = snd (foldl (\<lambda>(i, n) c. (i + 1, n + i * of_char c)) (1, 0) k)"

text \<open>
  The catalogue is sound: no key appears twice, no forbidden key is a permission, and every approval
  action is transaction-critical and refines a key that is itself a permission an API guard enforces (so
  it is never reachable through a planned key).
\<close>

theorem catalogue_sound:
  "distinct (map pd_key permissionCatalogue)
   \<and> list_all (\<lambda>p. pd_key p \<notin> set FORBIDDEN_PERMISSION_KEYS) permissionCatalogue
   \<and> list_all (\<lambda>p. if pd_approvalOnly p
        then pd_actionClass p = S3
          \<and> (case pd_refines p of None \<Rightarrow> False
             | Some k \<Rightarrow> (case permission_of k of None \<Rightarrow> False | Some q \<Rightarrow> pd_status q = ENFORCED \<and> \<not> pd_approvalOnly q))
        else True) permissionCatalogue"
proof (intro conjI)
  have "distinct (map key_number (map pd_key permissionCatalogue))" by code_simp
  then show "distinct (map pd_key permissionCatalogue)" by (simp only: distinct_map)
  show "list_all (\<lambda>p. pd_key p \<notin> set FORBIDDEN_PERMISSION_KEYS) permissionCatalogue" by code_simp
  show "list_all (\<lambda>p. if pd_approvalOnly p
        then pd_actionClass p = S3
          \<and> (case pd_refines p of None \<Rightarrow> False
             | Some k \<Rightarrow> (case permission_of k of None \<Rightarrow> False | Some q \<Rightarrow> pd_status q = ENFORCED \<and> \<not> pd_approvalOnly q))
        else True) permissionCatalogue" by code_simp
qed

end
