(* ===== verification/Approvals.thy ===== *)
theory Approvals
  imports Permissions Js_Values
begin

text \<open>
  The maker-checker approval service (\<open>apps/api/src/approvals/approval.service.ts\<close>): requests, decisions,
  single-use execution, cancellation and expiry, for one tenant. The table is the list of its rows in
  insertion order, the audit trail the list of its events. Every method is one function that runs its
  transactions in the order of the code; \<open>execute\<close> is also given as its three transactions (claim, run,
  release), so that a claim can be interleaved with other callers. Times are milliseconds.
\<close>

subsection \<open>Rows\<close>

datatype ApprovalStatus = PENDING | APPROVED | REJECTED | CANCELLED | EXECUTED | EXPIRED

record ApprovalRow =
  aq_id :: string
  aq_action :: string
  aq_entityType :: string
  aq_entityId :: string
  aq_requestId :: string
  aq_status :: ApprovalStatus
  aq_requestedById :: string
  aq_reason :: string
  aq_beforeState :: "jsval option"
  aq_proposedState :: "jsval option"
  aq_decidedById :: "string option"
  aq_decidedAt :: "int option"
  aq_decisionReason :: "string option"
  aq_executedById :: "string option"
  aq_executedAt :: "int option"
  aq_createdAt :: int

record ApprovalAudit =
  av_userId :: "string option"
  av_action :: string
  av_entityId :: string

record ApprovalStore =
  as_rows :: "ApprovalRow list"
  as_audit :: "ApprovalAudit list"

record RequestApprovalInput =
  ri_requesterId :: string
  ri_action :: string
  ri_entityType :: string
  ri_entityId :: string
  ri_requestId :: string
  ri_reason :: string
  ri_beforeState :: "(string \<times> jsval) list option"
  ri_proposedState :: "(string \<times> jsval) list option"

definition MAX_REASON :: nat where "MAX_REASON = 500"
definition MAX_STATE_BYTES :: nat where "MAX_STATE_BYTES = 4000"
definition DEFAULT_TTL_HOURS :: int where "DEFAULT_TTL_HOURS = 72"
definition MAX_TTL_HOURS :: int where "MAX_TTL_HOURS = 24 * 30"
definition MAX_EXPIRY_BATCH :: nat where "MAX_EXPIRY_BATCH = 100"

text \<open>The setting is \<open>None\<close> when unset or blank, and otherwise what \<open>Number\<close> makes of its text.\<close>

definition approvalTtlMs :: "jsnum option \<Rightarrow> int" where
  "approvalTtlMs setting =
     (let hours = (case setting of None \<Rightarrow> JInt DEFAULT_TTL_HOURS | Some n \<Rightarrow> n) in
      (if isInteger hours \<and> 1 \<le> int_of_num hours \<and> int_of_num hours \<le> MAX_TTL_HOURS then int_of_num hours else DEFAULT_TTL_HOURS) * 3600000)"

subsection \<open>Stored states\<close>

text \<open>A fractional number anywhere in a state is refused.\<close>

fun no_fractions :: "jsval \<Rightarrow> bool" where
  "no_fractions (JNum n) = isInteger n"
| "no_fractions (JArr vs) = list_all no_fractions vs"
| "no_fractions (JObj kvs) = list_all (\<lambda>(k, v). no_fractions v) kvs"
| "no_fractions _ = True"

definition BLOCKED_KEYS :: "string list" where
  "BLOCKED_KEYS = [''password'', ''passwordhash'', ''token'', ''tokenhash'', ''authorization'', ''cookie'',
     ''cardnumber'', ''cvv'', ''pan'', ''suppliercredential'', ''supplierpassword'', ''apikey'', ''secret'', ''accesstoken'', ''bearertoken'',
     ''email'', ''phone'', ''guestemail'', ''guestphone'', ''passportnumber'', ''passport'']"

definition blocked_key :: "string \<Rightarrow> bool" where
  "blocked_key key \<longleftrightarrow> toLowerCase (filter (\<lambda>c. is_upper c \<or> is_lower c \<or> is_digit c) key) \<in> set BLOCKED_KEYS"

text \<open>\<open>sanitizeValue\<close>, and \<open>sanitizeAuditPayload\<close> on the entries of an object.\<close>

fun sanitizeValue :: "string \<Rightarrow> jsval \<Rightarrow> jsval" where
  "sanitizeValue key v =
     (if blocked_key key then JStr ''[REDACTED]''
      else case v of
        JArr vs \<Rightarrow> JArr (map (sanitizeValue key) vs)
      | JObj kvs \<Rightarrow> JObj (map (\<lambda>(k, v). (k, sanitizeValue k v)) kvs)
      | JUndefined \<Rightarrow> JStr ''undefined''
      | _ \<Rightarrow> v)"

declare sanitizeValue.simps [simp del]

definition sanitizeAuditPayload :: "(string \<times> jsval) list \<Rightarrow> jsval" where
  "sanitizeAuditPayload kvs = JObj (map (\<lambda>(k, v). (k, sanitizeValue k v)) kvs)"

type_synonym state_entries = "(string \<times> jsval) list"

definition cleanState :: "state_entries option \<Rightarrow> string \<Rightarrow> jsval option http" where
  "cleanState state name =
     (case state of
        None \<Rightarrow> Inr None
      | Some kvs \<Rightarrow>
          if \<not> no_fractions (JObj kvs) then Inl (BadRequest (name @ '' must not contain fractional numbers; money is integer minor units''))
          else
            let clean = sanitizeAuditPayload kvs in
            if length (json_text clean) > MAX_STATE_BYTES then Inl (BadRequest (name @ '' is too large; store identifiers and minimal values only''))
            else Inr (Some clean))"

subsection \<open>The table\<close>

definition find_approval :: "string \<Rightarrow> ApprovalStore \<Rightarrow> ApprovalRow option" where
  "find_approval i st = find (\<lambda>r. aq_id r = i) (as_rows st)"

text \<open>\<open>updateMany\<close> on the row of an id when a condition holds: the count and the new table.\<close>

definition update_approval :: "string \<Rightarrow> (ApprovalRow \<Rightarrow> bool) \<Rightarrow> (ApprovalRow \<Rightarrow> ApprovalRow) \<Rightarrow> ApprovalStore \<Rightarrow> nat \<times> ApprovalStore" where
  "update_approval i P f st =
     (length (filter (\<lambda>r. aq_id r = i \<and> P r) (as_rows st)),
      st\<lparr>as_rows := map (\<lambda>r. if aq_id r = i \<and> P r then f r else r) (as_rows st)\<rparr>)"

definition record_audit :: "string option \<Rightarrow> string \<Rightarrow> string \<Rightarrow> ApprovalStore \<Rightarrow> ApprovalStore" where
  "record_audit user action i st = st\<lparr>as_audit := as_audit st @ [\<lparr>av_userId = user, av_action = action, av_entityId = i\<rparr>]\<rparr>"

definition require :: "string \<Rightarrow> ApprovalStore \<Rightarrow> ApprovalRow http" where
  "require i st = (case find_approval i st of None \<Rightarrow> Inl (NotFound ''Approval request not found'') | Some r \<Rightarrow> Inr r)"

fun status_text :: "ApprovalStatus \<Rightarrow> string" where
  "status_text PENDING = ''pending''"
| "status_text APPROVED = ''approved''"
| "status_text REJECTED = ''rejected''"
| "status_text CANCELLED = ''cancelled''"
| "status_text EXECUTED = ''executed''"
| "status_text EXPIRED = ''expired''"

text \<open>\<open>refuseIfExpired\<close> followed by the refusal of a request that is already settled.\<close>

definition EXPIRED_MESSAGE :: string where "EXPIRED_MESSAGE = ''Approval request has expired; make a new request''"

definition already :: "ApprovalStatus \<Rightarrow> http_error" where
  "already s = (if s = EXPIRED then Conflict EXPIRED_MESSAGE else Conflict (''Approval request is already '' @ status_text s))"

subsection \<open>Expiry\<close>

definition lapsed_row :: "int \<Rightarrow> ApprovalRow \<Rightarrow> bool" where
  "lapsed_row cutoff r \<longleftrightarrow>
     (aq_status r = PENDING \<and> aq_createdAt r < cutoff)
     \<or> (aq_status r = APPROVED \<and> (case aq_decidedAt r of None \<Rightarrow> False | Some t \<Rightarrow> t < cutoff))"

definition lapsed :: "int \<Rightarrow> ApprovalStore \<Rightarrow> ApprovalRow list" where
  "lapsed cutoff st =
     take MAX_EXPIRY_BATCH (js_sort (\<lambda>a b. aq_createdAt a - aq_createdAt b) (filter (lapsed_row cutoff) (as_rows st)))"

definition expire_row :: "ApprovalStore \<Rightarrow> ApprovalRow \<Rightarrow> ApprovalStore" where
  "expire_row st row =
     (let (moved, st') = update_approval (aq_id row) (\<lambda>r. aq_status r = aq_status row) (\<lambda>r. r\<lparr>aq_status := EXPIRED\<rparr>) st in
      if moved \<noteq> 1 then st' else record_audit None ''approval.expired'' (aq_id row) st')"

definition expireLapsed :: "int \<Rightarrow> int \<Rightarrow> ApprovalStore \<Rightarrow> ApprovalStore" where
  "expireLapsed now ttl st = foldl expire_row st (lapsed (now - ttl) st)"

subsection \<open>Requests\<close>

definition request_row :: "int \<Rightarrow> string \<Rightarrow> RequestApprovalInput \<Rightarrow> string \<Rightarrow> jsval option \<Rightarrow> jsval option \<Rightarrow> ApprovalRow" where
  "request_row now newId i reason prior proposed =
     \<lparr>aq_id = newId, aq_action = ri_action i, aq_entityType = ri_entityType i, aq_entityId = ri_entityId i,
      aq_requestId = ri_requestId i, aq_status = PENDING, aq_requestedById = ri_requesterId i, aq_reason = reason,
      aq_beforeState = prior, aq_proposedState = proposed, aq_decidedById = None, aq_decidedAt = None,
      aq_decisionReason = None, aq_executedById = None, aq_executedAt = None, aq_createdAt = now\<rparr>"

definition request :: "int \<Rightarrow> string \<Rightarrow> RequestApprovalInput \<Rightarrow> ApprovalStore \<Rightarrow> ApprovalRow http \<times> ApprovalStore" where
  "request now newId i st =
     (case permission_of (ri_action i) of
        None \<Rightarrow> (Inl (BadRequest ''Unknown approval action''), st)
      | Some p \<Rightarrow>
          if ri_action i \<in> set FORBIDDEN_PERMISSION_KEYS then (Inl (BadRequest ''Unknown approval action''), st)
          else if pd_actionClass p \<noteq> S2 \<and> pd_actionClass p \<noteq> S3 then (Inl (BadRequest ''Only sensitive actions (S2, S3) use approval''), st)
          else let reason = trim (ri_reason i) in
          if reason = [] \<or> length reason > MAX_REASON then (Inl (BadRequest ''A reason of 1 to 500 characters is required''), st)
          else if trim (ri_requestId i) = [] \<or> trim (ri_entityType i) = [] \<or> trim (ri_entityId i) = []
            then (Inl (BadRequest ''requestId, entityType and entityId are required''), st)
          else
            (case cleanState (ri_beforeState i) ''beforeState'' of
               Inl e \<Rightarrow> (Inl e, st)
             | Inr prior \<Rightarrow>
            (case cleanState (ri_proposedState i) ''proposedState'' of
               Inl e \<Rightarrow> (Inl e, st)
             | Inr proposed \<Rightarrow>
                 let row = request_row now newId i reason prior proposed in
                 if list_ex (\<lambda>r. aq_id r = newId \<or> (aq_action r = ri_action i \<and> aq_requestId r = ri_requestId i)) (as_rows st)
                 then
                   (case find (\<lambda>r. aq_action r = ri_action i \<and> aq_requestId r = ri_requestId i) (as_rows st) of
                      None \<Rightarrow> (Inl (Conflict ''Approval request idempotency key conflicts''), st)
                    | Some existing \<Rightarrow>
                        if aq_entityType existing \<noteq> ri_entityType i \<or> aq_entityId existing \<noteq> ri_entityId i
                           \<or> aq_requestedById existing \<noteq> ri_requesterId i
                        then (Inl (Conflict ''Approval request idempotency key conflicts''), st)
                        else (Inr existing, st))
                 else (Inr row, record_audit (Some (ri_requesterId i)) ''approval.requested'' newId (st\<lparr>as_rows := as_rows st @ [row]\<rparr>)))))"

subsection \<open>Decisions\<close>

datatype ApprovalDecision = DecideApproved | DecideRejected

fun decision_status :: "ApprovalDecision \<Rightarrow> ApprovalStatus" where
  "decision_status DecideApproved = APPROVED"
| "decision_status DecideRejected = REJECTED"

definition decide ::
  "int \<Rightarrow> int \<Rightarrow> string \<Rightarrow> string \<Rightarrow> ApprovalDecision \<Rightarrow> string \<Rightarrow> ApprovalStore \<Rightarrow> ApprovalRow http \<times> ApprovalStore" where
  "decide now ttl approverId approvalId decision reason0 st0 =
     (let reason = trim reason0 in
      if reason = [] \<or> length reason > MAX_REASON then (Inl (BadRequest ''A reason of 1 to 500 characters is required''), st0)
      else
        let st = expireLapsed now ttl st0 in
        case require approvalId st of
          Inl e \<Rightarrow> (Inl e, st)
        | Inr current \<Rightarrow>
            if aq_requestedById current = approverId
            then (Inl (Forbidden ''A request cannot be decided by the user who made it''), record_audit (Some approverId) ''approval.denied'' (aq_id current) st)
            else if aq_status current \<noteq> PENDING
            then (if aq_status current = decision_status decision \<and> aq_decidedById current = Some approverId then (Inr current, st)
                  else (Inl (already (aq_status current)), st))
            else
              let (updated, st) = update_approval approvalId (\<lambda>r. aq_status r = PENDING)
                    (\<lambda>r. r\<lparr>aq_status := decision_status decision, aq_decidedById := Some approverId, aq_decidedAt := Some now,
                       aq_decisionReason := Some reason\<rparr>) st in
              case require approvalId st of
                Inl e \<Rightarrow> (Inl e, st)
              | Inr after \<Rightarrow>
                  if updated \<noteq> 1
                  then (if aq_status after = decision_status decision \<and> aq_decidedById after = Some approverId then (Inr after, st)
                        else (Inl (already (aq_status after)), st))
                  else (Inr after, record_audit (Some approverId) (''approval.'' @ status_text (decision_status decision)) (aq_id after) st))"

subsection \<open>Execution\<close>

text \<open>The claim: what \<open>execute\<close> does before it runs the action.\<close>

definition claim :: "int \<Rightarrow> int \<Rightarrow> string \<Rightarrow> string \<Rightarrow> string \<Rightarrow> ApprovalStore \<Rightarrow> ApprovalRow http \<times> ApprovalStore" where
  "claim now ttl executorId approvalId expectedAction st0 =
     (let st = expireLapsed now ttl st0 in
      case require approvalId st of
        Inl e \<Rightarrow> (Inl e, st)
      | Inr current \<Rightarrow>
          if aq_action current \<noteq> expectedAction then (Inl (BadRequest ''Approval is for a different action''), st)
          else if aq_status current = EXECUTED then (Inl (Conflict ''Approval was already used''), st)
          else if aq_status current = EXPIRED then (Inl (Conflict EXPIRED_MESSAGE), st)
          else if aq_status current \<noteq> APPROVED
            then (Inl (Conflict (''Approval request is '' @ status_text (aq_status current) @ '', not approved'')), st)
          else
            let (claimed, st) = update_approval approvalId (\<lambda>r. aq_status r = APPROVED)
                  (\<lambda>r. r\<lparr>aq_status := EXECUTED, aq_executedById := Some executorId, aq_executedAt := Some now\<rparr>) st in
            if claimed \<noteq> 1 then (Inl (Conflict ''Approval was already used''), st)
            else (require approvalId st, st))"

definition executed :: "string \<Rightarrow> string \<Rightarrow> ApprovalStore \<Rightarrow> ApprovalStore" where
  "executed executorId approvalId st = record_audit (Some executorId) ''approval.executed'' approvalId st"

definition release :: "string \<Rightarrow> string \<Rightarrow> ApprovalStore \<Rightarrow> ApprovalStore" where
  "release executorId approvalId st =
     (let (_, st) = update_approval approvalId (\<lambda>r. aq_status r = EXECUTED \<and> aq_executedById r = Some executorId)
            (\<lambda>r. r\<lparr>aq_status := APPROVED, aq_executedById := None, aq_executedAt := None\<rparr>) st in
      record_audit (Some executorId) ''approval.execution_failed'' approvalId st)"

text \<open>\<open>run\<close> acts on the rest of the world; its own transaction rolls back when it fails.\<close>

definition execute ::
  "int \<Rightarrow> int \<Rightarrow> string \<Rightarrow> string \<Rightarrow> string \<Rightarrow> (ApprovalRow \<Rightarrow> 'w \<Rightarrow> 'a http \<times> 'w) \<Rightarrow> ApprovalStore \<times> 'w
     \<Rightarrow> (ApprovalRow \<times> 'a) http \<times> ApprovalStore \<times> 'w" where
  "execute now ttl executorId approvalId expectedAction run s =
     (case s of (st0, w) \<Rightarrow>
      case claim now ttl executorId approvalId expectedAction st0 of
        (Inl e, st) \<Rightarrow> (Inl e, st, w)
      | (Inr approval, st) \<Rightarrow>
          (case run approval w of
             (Inr x, w') \<Rightarrow> (Inr (approval, x), executed executorId (aq_id approval) st, w')
           | (Inl e, w') \<Rightarrow> (Inl e, release executorId approvalId st, w')))"

subsection \<open>Cancellation and reads\<close>

definition cancel :: "string \<Rightarrow> string \<Rightarrow> ApprovalStore \<Rightarrow> ApprovalRow http \<times> ApprovalStore" where
  "cancel requesterId approvalId st =
     (case require approvalId st of
        Inl e \<Rightarrow> (Inl e, st)
      | Inr current \<Rightarrow>
          if aq_requestedById current \<noteq> requesterId then (Inl (Forbidden ''Only the requester can cancel a request''), st)
          else if aq_status current = CANCELLED then (Inr current, st)
          else
            let (updated, st) = update_approval approvalId (\<lambda>r. aq_status r = PENDING) (\<lambda>r. r\<lparr>aq_status := CANCELLED\<rparr>) st in
            case require approvalId st of
              Inl e \<Rightarrow> (Inl e, st)
            | Inr after \<Rightarrow>
                if updated \<noteq> 1 then (Inl (Conflict (''Approval request is already '' @ status_text (aq_status after))), st)
                else (Inr after, record_audit (Some requesterId) ''approval.cancelled'' (aq_id after) st))"

definition get :: "int \<Rightarrow> int \<Rightarrow> string \<Rightarrow> ApprovalStore \<Rightarrow> ApprovalRow http \<times> ApprovalStore" where
  "get now ttl approvalId st = (let st = expireLapsed now ttl st in (require approvalId st, st))"

definition list_approvals ::
  "int \<Rightarrow> int \<Rightarrow> ApprovalStatus option \<Rightarrow> string option \<Rightarrow> string option \<Rightarrow> int option \<Rightarrow> ApprovalStore \<Rightarrow> ApprovalRow list \<times> ApprovalStore" where
  "list_approvals now ttl status entityType entityId row_limit st0 =
     (let st = expireLapsed now ttl st0;
          matching = filter (\<lambda>r. (case status of None \<Rightarrow> True | Some s \<Rightarrow> aq_status r = s)
            \<and> (case entityType of None \<Rightarrow> True | Some t \<Rightarrow> t = [] \<or> aq_entityType r = t)
            \<and> (case entityId of None \<Rightarrow> True | Some e \<Rightarrow> e = [] \<or> aq_entityId r = e)) (as_rows st) in
      (take (nat (min (max (case row_limit of None \<Rightarrow> 50 | Some n \<Rightarrow> n) 1) 100)) (js_sort (\<lambda>a b. aq_createdAt b - aq_createdAt a) matching), st))"

definition listForEntities :: "int \<Rightarrow> int \<Rightarrow> string \<Rightarrow> string list \<Rightarrow> ApprovalStore \<Rightarrow> ApprovalRow list \<times> ApprovalStore" where
  "listForEntities now ttl entityType entityIds st0 =
     (if entityIds = [] then ([], st0)
      else
        let st = expireLapsed now ttl st0 in
        (js_sort (\<lambda>a b. cmp_then (aq_createdAt b - aq_createdAt a) (cmp_text (aq_id b) (aq_id a)))
           (filter (\<lambda>r. aq_entityType r = entityType \<and> aq_entityId r \<in> set entityIds) (as_rows st)), st))"


subsection \<open>Steps\<close>

text \<open>One call of the service, by anybody, at any time; a run in progress is between its claim and its end.\<close>

inductive approval_step :: "ApprovalStore \<Rightarrow> ApprovalStore \<Rightarrow> bool" where
  step_request: "list_all (\<lambda>r. aq_id r \<noteq> newId) (as_rows st) \<Longrightarrow> approval_step st (snd (request now newId i st))"
| step_decide: "approval_step st (snd (decide now ttl approver i decision reason st))"
| step_claim: "approval_step st (snd (claim now ttl executor i action st))"
| step_executed: "approval_step st (executed executor i st)"
| step_release: "approval_step st (release executor i st)"
| step_cancel: "approval_step st (snd (cancel requester i st))"
| step_get: "approval_step st (snd (get now ttl i st))"
| step_list: "approval_step st (snd (list_approvals now ttl status entityType entityId n st))"
| step_entities: "approval_step st (snd (listForEntities now ttl entityType ids st))"

inductive_cases approval_stepE: "approval_step st st'"

definition no_approvals :: ApprovalStore where
  "no_approvals = \<lparr>as_rows = [], as_audit = []\<rparr>"

text \<open>What a row may become: a settled request never changes, a decision is never revised, the request itself never changes.\<close>

definition request_of :: "ApprovalRow \<Rightarrow> string list \<times> jsval option \<times> jsval option \<times> int" where
  "request_of r = ([aq_id r, aq_action r, aq_entityType r, aq_entityId r, aq_requestId r, aq_requestedById r, aq_reason r],
     aq_beforeState r, aq_proposedState r, aq_createdAt r)"

definition decision_of :: "ApprovalRow \<Rightarrow> string option \<times> int option \<times> string option" where
  "decision_of r = (aq_decidedById r, aq_decidedAt r, aq_decisionReason r)"

definition evolves :: "ApprovalRow \<Rightarrow> ApprovalRow \<Rightarrow> bool" where
  "evolves r r' \<longleftrightarrow>
     request_of r' = request_of r
     \<and> (aq_status r \<in> {REJECTED, CANCELLED, EXPIRED} \<longrightarrow> r' = r)
     \<and> (aq_status r \<in> {APPROVED, EXECUTED} \<longrightarrow> aq_status r' \<in> {APPROVED, EXECUTED, EXPIRED} \<and> decision_of r' = decision_of r)"

definition approval_wf :: "ApprovalRow \<Rightarrow> bool" where
  "approval_wf r \<longleftrightarrow>
     aq_decidedById r \<noteq> Some (aq_requestedById r)
     \<and> (aq_status r \<in> {APPROVED, REJECTED, EXECUTED} \<longrightarrow> aq_decidedById r \<noteq> None \<and> aq_decidedAt r \<noteq> None)
     \<and> (aq_status r \<in> {PENDING, CANCELLED} \<longrightarrow> aq_decidedById r = None)
     \<and> (aq_status r = EXECUTED \<longleftrightarrow> aq_executedById r \<noteq> None)
     \<and> aq_action r \<notin> set FORBIDDEN_PERMISSION_KEYS
     \<and> (case permission_of (aq_action r) of None \<Rightarrow> False | Some p \<Rightarrow> pd_actionClass p \<in> {S2, S3})"

definition approvals_wf :: "ApprovalStore \<Rightarrow> bool" where
  "approvals_wf st \<longleftrightarrow> distinct (map aq_id (as_rows st)) \<and> distinct (map (\<lambda>r. (aq_action r, aq_requestId r)) (as_rows st))
     \<and> list_all approval_wf (as_rows st)"

text \<open>A change of the table that keeps every row in place and lets each only evolve.\<close>

definition keeps :: "ApprovalStore \<Rightarrow> ApprovalStore \<Rightarrow> bool" where
  "keeps st st' \<longleftrightarrow> list_all2 (\<lambda>r r'. evolves r r' \<and> (approval_wf r \<longrightarrow> approval_wf r')) (as_rows st) (as_rows st')"

lemma evolves_refl [simp]: "evolves r r"
  by (simp add: evolves_def)

lemma evolves_trans: "evolves a b \<Longrightarrow> evolves b c \<Longrightarrow> evolves a c"
  unfolding evolves_def by (cases "aq_status b") auto

lemma keeps_refl [simp]: "keeps st st"
  by (simp add: keeps_def list_all2_refl)

lemma keeps_trans: "keeps a b \<Longrightarrow> keeps b c \<Longrightarrow> keeps a c"
  unfolding keeps_def by (erule (1) list_all2_trans [rotated]) (blast intro: evolves_trans)

lemma keeps_audit [simp]:
  "keeps st (record_audit u a i st') = keeps st st'" "as_rows (record_audit u a i st) = as_rows st"
  "find_approval j (record_audit u a i st) = find_approval j st" "require j (record_audit u a i st) = require j st"
  by (simp_all add: keeps_def record_audit_def find_approval_def require_def)

lemma keeps_update:
  assumes "\<And>r. P r \<Longrightarrow> aq_id r = i \<Longrightarrow> r \<in> set (as_rows st) \<Longrightarrow> evolves r (f r) \<and> (approval_wf r \<longrightarrow> approval_wf (f r))"
  shows "keeps st (snd (update_approval i P f st))"
  using assms by (auto simp: keeps_def update_approval_def list_all2_conv_all_nth)

lemma keeps_expire_row: "aq_status row \<in> {PENDING, APPROVED} \<Longrightarrow> keeps st (expire_row st row)"
proof -
  assume "aq_status row \<in> {PENDING, APPROVED}"
  then have "keeps st (snd (update_approval (aq_id row) (\<lambda>r. aq_status r = aq_status row) (\<lambda>r. r\<lparr>aq_status := EXPIRED\<rparr>) st))"
    by (intro keeps_update) (auto simp: evolves_def request_of_def decision_of_def approval_wf_def)
  then show ?thesis by (simp add: expire_row_def Let_def case_prod_beta)
qed

lemma keeps_expireLapsed [simp]: "keeps st (expireLapsed now ttl st)"
proof -
  have "keeps st (foldl expire_row st rows)" if "list_all (\<lambda>r. aq_status r \<in> {PENDING, APPROVED}) rows" for rows st
    using that by (induction rows arbitrary: st) (auto intro: keeps_trans keeps_expire_row)
  moreover have "list_all (\<lambda>r. aq_status r \<in> {PENDING, APPROVED}) (lapsed (now - ttl) st)"
    by (auto simp: lapsed_def list_all_iff lapsed_row_def dest!: in_set_takeD)
  ultimately show ?thesis by (simp add: expireLapsed_def)
qed

lemma keeps_wf: "keeps st st' \<Longrightarrow> approvals_wf st \<Longrightarrow> approvals_wf st'"
proof -
  assume k: "keeps st st'" and wf: "approvals_wf st"
  have len: "length (as_rows st') = length (as_rows st)" using k by (auto simp: keeps_def dest: list_all2_lengthD)
  have nth: "evolves (as_rows st ! n) (as_rows st' ! n)" "approval_wf (as_rows st ! n) \<Longrightarrow> approval_wf (as_rows st' ! n)"
    if "n < length (as_rows st)" for n
    using k that by (auto simp: keeps_def list_all2_conv_all_nth)
  have "map aq_id (as_rows st') = map aq_id (as_rows st)"
    "map (\<lambda>r. (aq_action r, aq_requestId r)) (as_rows st') = map (\<lambda>r. (aq_action r, aq_requestId r)) (as_rows st)"
    using len nth(1) by (auto intro!: nth_equalityI simp: evolves_def request_of_def)
  moreover have "list_all approval_wf (as_rows st')"
    using wf nth(2) len by (auto simp: approvals_wf_def list_all_length)
  ultimately show ?thesis using wf by (simp add: approvals_wf_def)
qed

lemma require_Inr: "require i st = Inr r \<Longrightarrow> r \<in> set (as_rows st) \<and> aq_id r = i"
  by (auto simp: require_def find_approval_def find_Some_iff split: option.splits)

lemmas evolve_defs = evolves_def request_of_def decision_of_def approval_wf_def

lemma keeps_decide:
  assumes "approvals_wf st"
  shows "keeps st (snd (decide now ttl approver i decision reason st))"
proof -
  let ?st = "expireLapsed now ttl st"
  let ?f = "\<lambda>r. r\<lparr>aq_status := decision_status decision, aq_decidedById := Some approver, aq_decidedAt := Some now,
    aq_decisionReason := Some (trim reason)\<rparr>"
  have "distinct (map aq_id (as_rows ?st))" using keeps_wf [OF keeps_expireLapsed assms] by (simp add: approvals_wf_def)
  then have unique: "r = current" if "require i ?st = Inr current" "r \<in> set (as_rows ?st)" "aq_id r = i" for r current
    using require_Inr [OF that(1)] that by (auto simp: distinct_map dest: inj_onD)
  have "keeps ?st (snd (update_approval i (\<lambda>r. aq_status r = PENDING) ?f ?st))"
    if "require i ?st = Inr current" "aq_requestedById current \<noteq> approver" for current
    using that unique [OF that(1)] by (intro keeps_update) (cases decision; auto simp: evolve_defs)
  then have "keeps st (snd (update_approval i (\<lambda>r. aq_status r = PENDING) ?f ?st))"
    if "require i ?st = Inr current" "aq_requestedById current \<noteq> approver" for current
    using that keeps_trans [OF keeps_expireLapsed] by blast
  then show ?thesis
    by (auto simp: decide_def Let_def case_prod_beta split: sum.splits)
qed

lemma keeps_claim: "keeps st (snd (claim now ttl executor i action st))"
proof -
  have "keeps st' (snd (update_approval i (\<lambda>r. aq_status r = APPROVED)
      (\<lambda>r. r\<lparr>aq_status := EXECUTED, aq_executedById := Some executor, aq_executedAt := Some now\<rparr>) st'))" for st'
    by (intro keeps_update) (auto simp: evolve_defs)
  then show ?thesis
    by (auto simp: claim_def Let_def case_prod_beta split: sum.splits intro: keeps_trans [OF keeps_expireLapsed])
qed

lemma keeps_release: "keeps st (release executor i st)"
proof -
  have "keeps st (snd (update_approval i (\<lambda>r. aq_status r = EXECUTED \<and> aq_executedById r = Some executor)
      (\<lambda>r. r\<lparr>aq_status := APPROVED, aq_executedById := None, aq_executedAt := None\<rparr>) st))"
    by (intro keeps_update) (auto simp: evolve_defs)
  then show ?thesis by (simp add: release_def Let_def case_prod_beta)
qed

lemma keeps_cancel: "keeps st (snd (cancel requester i st))"
proof -
  have "keeps st (snd (update_approval i (\<lambda>r. aq_status r = PENDING) (\<lambda>r. r\<lparr>aq_status := CANCELLED\<rparr>) st))"
    by (intro keeps_update) (auto simp: evolve_defs)
  then show ?thesis by (auto simp: cancel_def Let_def case_prod_beta split: sum.splits)
qed

lemma request_row_wf:
  assumes "permission_of (ri_action i) = Some p" "pd_actionClass p \<in> {S2, S3}" "ri_action i \<notin> set FORBIDDEN_PERMISSION_KEYS"
  shows "approval_wf (request_row now newId i reason prior proposed)"
  using assms by (auto simp: approval_wf_def request_row_def)

lemma request_cases:
  obtains "snd (request now newId i st) = st" |
    row where "as_rows (snd (request now newId i st)) = as_rows st @ [row]" "approval_wf row" "aq_id row = newId"
      "aq_action row = ri_action i" "aq_requestId row = ri_requestId i"
      "\<not> list_ex (\<lambda>r. aq_id r = newId \<or> (aq_action r = ri_action i \<and> aq_requestId r = ri_requestId i)) (as_rows st)"
proof (cases "snd (request now newId i st) = st")
  case True
  then show ?thesis by (rule that(1))
next
  case False
  have "snd (request now newId i st) = st \<or>
      (\<exists>reason prior proposed. as_rows (snd (request now newId i st)) = as_rows st @ [request_row now newId i reason prior proposed]
      \<and> (\<exists>p. permission_of (ri_action i) = Some p \<and> pd_actionClass p \<in> {S2, S3}) \<and> ri_action i \<notin> set FORBIDDEN_PERMISSION_KEYS
      \<and> \<not> list_ex (\<lambda>r. aq_id r = newId \<or> (aq_action r = ri_action i \<and> aq_requestId r = ri_requestId i)) (as_rows st))"
    unfolding request_def Let_def by (cases "permission_of (ri_action i)") (simp_all split: option.split sum.split, blast)
  with False obtain reason prior proposed p where
      "as_rows (snd (request now newId i st)) = as_rows st @ [request_row now newId i reason prior proposed]"
      "permission_of (ri_action i) = Some p" "pd_actionClass p \<in> {S2, S3}" "ri_action i \<notin> set FORBIDDEN_PERMISSION_KEYS"
      "\<not> list_ex (\<lambda>r. aq_id r = newId \<or> (aq_action r = ri_action i \<and> aq_requestId r = ri_requestId i)) (as_rows st)"
    by blast
  then show ?thesis using request_row_wf by (intro that(2)) (auto simp: request_row_def)
qed

lemma request_wf:
  assumes "approvals_wf st"
  shows "approvals_wf (snd (request now newId i st))"
proof (rule request_cases [of now newId i st])
  assume "snd (request now newId i st) = st"
  then show ?thesis using assms by simp
next
  fix row
  assume "as_rows (snd (request now newId i st)) = as_rows st @ [row]" "approval_wf row" "aq_id row = newId"
    "aq_action row = ri_action i" "aq_requestId row = ri_requestId i"
    "\<not> list_ex (\<lambda>r. aq_id r = newId \<or> (aq_action r = ri_action i \<and> aq_requestId r = ri_requestId i)) (as_rows st)"
  then show ?thesis using assms by (auto simp: approvals_wf_def list_ex_iff)
qed

text \<open>Every step keeps the rows there were, in order, and lets each evolve.\<close>

definition extends :: "ApprovalStore \<Rightarrow> ApprovalStore \<Rightarrow> bool" where
  "extends st st' \<longleftrightarrow> (\<forall>r \<in> set (as_rows st). \<exists>r' \<in> set (as_rows st'). evolves r r')"

lemma extends_refl [simp]: "extends st st"
  unfolding extends_def by (meson evolves_refl)

lemma extends_trans: "extends a b \<Longrightarrow> extends b c \<Longrightarrow> extends a c"
  unfolding extends_def by (meson evolves_trans)

lemma keeps_extends: "keeps st st' \<Longrightarrow> extends st st'"
  unfolding keeps_def extends_def list_all2_conv_all_nth by (metis in_set_conv_nth)

lemma request_extends: "extends st (snd (request now newId i st))"
  by (rule request_cases [of now newId i st]) (auto simp: extends_def intro: evolves_refl)

lemma approval_step_sound:
  assumes "approval_step st st'" "approvals_wf st"
  shows "approvals_wf st' \<and> extends st st'"
  using assms
proof (cases rule: approval_step.cases)
  case (step_executed executor i)
  then have "keeps st st'" by (simp add: executed_def)
  then show ?thesis using assms(2) keeps_wf keeps_extends by blast
qed (use assms(2) in \<open>auto simp: get_def list_approvals_def listForEntities_def Let_def
      intro: request_wf request_extends keeps_extends keeps_decide keeps_claim keeps_release keeps_cancel
        keeps_wf [OF keeps_decide] keeps_wf [OF keeps_claim] keeps_wf [OF keeps_release] keeps_wf [OF keeps_cancel]
        keeps_wf [OF keeps_expireLapsed]\<close>)

abbreviation approvals_reachable :: "ApprovalStore \<Rightarrow> bool" where
  "approvals_reachable st \<equiv> approval_step\<^sup>*\<^sup>* no_approvals st"

lemma approval_steps_sound:
  assumes "approval_step\<^sup>*\<^sup>* st st'" "approvals_wf st"
  shows "approvals_wf st' \<and> extends st st'"
  using assms
proof (induction rule: rtranclp_induct)
  case (step y z)
  then show ?case using approval_step_sound extends_trans by blast
qed simp

lemma reachable_wf: "approvals_reachable st \<Longrightarrow> approvals_wf st"
  using approval_steps_sound [of no_approvals st] by (simp add: approvals_wf_def no_approvals_def)

text \<open>
  C19. Four eyes: in every state the service can reach, an approved, rejected or executed request was decided by
  somebody who did not make it, an executed one names who executed it, and only sensitive, known and
  not forbidden actions are ever requested.
\<close>

theorem approvals_four_eyes:
  assumes "approvals_reachable st" "r \<in> set (as_rows st)"
  shows "(aq_status r \<in> {APPROVED, REJECTED, EXECUTED} \<longrightarrow> (\<exists>d. aq_decidedById r = Some d \<and> d \<noteq> aq_requestedById r))
    \<and> (aq_status r = EXECUTED \<longleftrightarrow> (\<exists>e. aq_executedById r = Some e))
    \<and> aq_action r \<notin> set FORBIDDEN_PERMISSION_KEYS
    \<and> (\<exists>p. permission_of (aq_action r) = Some p \<and> pd_actionClass p \<in> {S2, S3})"
proof -
  have "approval_wf r" using reachable_wf [OF assms(1)] assms(2) by (auto simp: approvals_wf_def list_all_iff)
  then show ?thesis by (auto simp: approval_wf_def split: option.splits)
qed

text \<open>
  A request never changes and a decision is never revised: whatever calls follow, the request is still
  there with the same contents, a rejected, cancelled or expired one is exactly as it was, and an approved
  one stays approved, executed or expired under the same decision.
\<close>

theorem decision_final:
  assumes "approvals_reachable st" "approval_step\<^sup>*\<^sup>* st st'" "r \<in> set (as_rows st)"
  shows "\<exists>r' \<in> set (as_rows st'). request_of r' = request_of r
    \<and> (aq_status r \<in> {REJECTED, CANCELLED, EXPIRED} \<longrightarrow> r' = r)
    \<and> (aq_status r \<in> {APPROVED, EXECUTED} \<longrightarrow> aq_status r' \<in> {APPROVED, EXECUTED, EXPIRED} \<and> decision_of r' = decision_of r)"
proof -
  have "extends st st'" using approval_steps_sound [OF assms(2) reachable_wf [OF assms(1)]] by blast
  then show ?thesis using assms(3) by (auto simp: extends_def evolves_def)
qed

subsection \<open>Single use\<close>

lemma find_update:
  assumes "\<And>r. aq_id (f r) = aq_id r"
  shows "find_approval i (snd (update_approval i P f st)) = map_option (\<lambda>r. if P r then f r else r) (find_approval i st)"
proof -
  have "find (\<lambda>r. aq_id r = i) (map (\<lambda>r. if aq_id r = i \<and> P r then f r else r) rows)
      = map_option (\<lambda>r. if P r then f r else r) (find (\<lambda>r. aq_id r = i) rows)" for rows
    using assms by (induction rows) auto
  then show ?thesis by (simp add: find_approval_def update_approval_def)
qed

lemma find_expire_row:
  assumes "find_approval i st = Some r"
  shows "\<exists>r'. find_approval i (expire_row st row) = Some r' \<and> (r' = r \<or> (aq_status r = aq_status row \<and> r' = r\<lparr>aq_status := EXPIRED\<rparr>))"
proof -
  let ?g = "\<lambda>r :: ApprovalRow. if aq_id r = aq_id row \<and> aq_status r = aq_status row then r\<lparr>aq_status := EXPIRED\<rparr> else r"
  have "find (\<lambda>r. aq_id r = i) (map ?g rows) = map_option ?g (find (\<lambda>r. aq_id r = i) rows)" for rows
    by (induction rows) auto
  moreover have "find_approval i (expire_row st row) = find (\<lambda>r. aq_id r = i) (map ?g (as_rows st))"
    by (simp add: expire_row_def Let_def case_prod_beta, simp add: find_approval_def update_approval_def)
  ultimately have "find_approval i (expire_row st row) = Some (?g r)" using assms by (simp add: find_approval_def)
  then show ?thesis by simp
qed

text \<open>A request that is executing stays so under expiry: only open requests lapse.\<close>

lemma find_expire_executed:
  assumes "find_approval i st = Some r" "aq_status r = EXECUTED"
  shows "find_approval i (expireLapsed now ttl st) = Some r"
proof -
  have "find_approval i (foldl expire_row st rows) = Some r"
    if "list_all (\<lambda>r. aq_status r \<in> {PENDING, APPROVED}) rows" "find_approval i st = Some r" for rows st
    using that
  proof (induction rows arbitrary: st)
    case (Cons row rows)
    then have "find_approval i (expire_row st row) = Some r" using find_expire_row [OF Cons.prems(2), of row] assms(2) by auto
    then show ?case using Cons by simp
  qed simp
  moreover have "list_all (\<lambda>r. aq_status r \<in> {PENDING, APPROVED}) (lapsed (now - ttl) st)"
    by (auto simp: lapsed_def list_all_iff lapsed_row_def dest!: in_set_takeD)
  ultimately show ?thesis using assms(1) by (simp add: expireLapsed_def)
qed

lemma claim_Inr:
  assumes "claim now ttl executor i action st = (Inr a, st')"
  obtains r where "find_approval i (expireLapsed now ttl st) = Some r" "aq_status r = APPROVED" "aq_action r = action"
    "a = r\<lparr>aq_status := EXECUTED, aq_executedById := Some executor, aq_executedAt := Some now\<rparr>" "find_approval i st' = Some a"
    "st' = snd (update_approval i (\<lambda>r. aq_status r = APPROVED)
       (\<lambda>r. r\<lparr>aq_status := EXECUTED, aq_executedById := Some executor, aq_executedAt := Some now\<rparr>) (expireLapsed now ttl st))"
proof -
  let ?st = "expireLapsed now ttl st"
  let ?f = "\<lambda>r. r\<lparr>aq_status := EXECUTED, aq_executedById := Some executor, aq_executedAt := Some now\<rparr>"
  obtain r where r: "find_approval i ?st = Some r" "aq_status r = APPROVED" "aq_action r = action"
      and st': "st' = snd (update_approval i (\<lambda>r. aq_status r = APPROVED) ?f ?st)" and a: "require i st' = Inr a"
    using assms by (auto simp: claim_def Let_def case_prod_beta require_def split: option.splits if_splits)
  have "find_approval i st' = Some (?f r)" using find_update [of ?f i "\<lambda>r. aq_status r = APPROVED" ?st] r by (simp add: st')
  with a r st' that show ?thesis by (simp add: require_def)
qed

lemma claim_refused:
  assumes "find_approval i st = Some r" "aq_status r = EXECUTED"
  shows "\<exists>e. claim now ttl executor i action st = (Inl e, expireLapsed now ttl st)"
  using find_expire_executed [OF assms, of now ttl] assms(2) by (simp add: claim_def Let_def require_def)

lemma release_claim:
  assumes "find_approval i st = Some (r\<lparr>aq_status := EXECUTED, aq_executedById := Some executor, aq_executedAt := t\<rparr>)"
  shows "find_approval i (release executor i st) = Some (r\<lparr>aq_status := APPROVED, aq_executedById := None, aq_executedAt := None\<rparr>)"
  using find_update [of "\<lambda>r. r\<lparr>aq_status := APPROVED, aq_executedById := None, aq_executedAt := None\<rparr>" i
      "\<lambda>r. aq_status r = EXECUTED \<and> aq_executedById r = Some executor" st] assms
  by (simp add: release_def Let_def case_prod_beta)


subsection \<open>Expiry is exact\<close>

lemma expire_row_rows:
  "as_rows (expire_row st row) = map (\<lambda>r. if aq_id r = aq_id row \<and> aq_status r = aq_status row then r\<lparr>aq_status := EXPIRED\<rparr> else r) (as_rows st)"
  by (simp add: expire_row_def Let_def case_prod_beta, simp add: update_approval_def)

lemma expire_rows:
  assumes "distinct (map aq_id (as_rows st))" "distinct rows" "set rows \<subseteq> set (as_rows st)"
  shows "as_rows (foldl expire_row st rows) = map (\<lambda>r. if r \<in> set rows then r\<lparr>aq_status := EXPIRED\<rparr> else r) (as_rows st)"
  using assms
proof (induction rows arbitrary: st)
  case (Cons row rows)
  have inj: "r = row" if "r \<in> set (as_rows st)" "aq_id r = aq_id row" for r
    using Cons.prems that by (auto simp: distinct_map dest: inj_onD)
  then have first: "as_rows (expire_row st row) = map (\<lambda>r. if r = row then r\<lparr>aq_status := EXPIRED\<rparr> else r) (as_rows st)"
    by (auto simp: expire_row_rows)
  have ids: "map aq_id (as_rows (expire_row st row)) = map aq_id (as_rows st)" by (simp add: first)
  have sub: "set rows \<subseteq> set (as_rows (expire_row st row))"
    using Cons.prems(2,3) by (auto simp: first image_iff)
  have other: "row\<lparr>aq_status := EXPIRED\<rparr> \<notin> set rows"
  proof
    assume "row\<lparr>aq_status := EXPIRED\<rparr> \<in> set rows"
    then have "row\<lparr>aq_status := EXPIRED\<rparr> = row" using Cons.prems(3) by (intro inj) auto
    then show False using \<open>row\<lparr>aq_status := EXPIRED\<rparr> \<in> set rows\<close> Cons.prems(2) by simp
  qed
  have "as_rows (foldl expire_row st (row # rows))
      = map (\<lambda>r. if r \<in> set rows then r\<lparr>aq_status := EXPIRED\<rparr> else r) (as_rows (expire_row st row))"
    using Cons.IH [of "expire_row st row"] Cons.prems ids sub by simp
  also have "\<dots> = map (\<lambda>r. if r \<in> set (row # rows) then r\<lparr>aq_status := EXPIRED\<rparr> else r) (as_rows st)"
    using other Cons.prems(2) by (auto simp: first)
  finally show ?case .
qed simp

lemma expireLapsed_rows:
  assumes "approvals_wf st"
  shows "as_rows (expireLapsed now ttl st) =
    map (\<lambda>r. if r \<in> set (lapsed (now - ttl) st) then r\<lparr>aq_status := EXPIRED\<rparr> else r) (as_rows st)"
proof -
  have "distinct (as_rows st)" using assms by (simp add: approvals_wf_def distinct_map)
  then have "distinct (lapsed (now - ttl) st)" by (simp add: lapsed_def)
  moreover have "set (lapsed (now - ttl) st) \<subseteq> set (as_rows st)"
    by (auto simp: lapsed_def dest!: in_set_takeD)
  ultimately show ?thesis using assms by (simp add: expireLapsed_def expire_rows approvals_wf_def)
qed

lemma lapsed_all:
  assumes "length (filter (lapsed_row cutoff) (as_rows st)) \<le> MAX_EXPIRY_BATCH"
  shows "set (lapsed cutoff st) = {r \<in> set (as_rows st). lapsed_row cutoff r}"
  using assms by (auto simp: lapsed_def)

lemma find_by_id:
  assumes "approvals_wf st" "r \<in> set (as_rows st)"
  shows "find_approval (aq_id r) st = Some r"
proof (cases "find_approval (aq_id r) st")
  case None
  then show ?thesis using assms(2) by (auto simp: find_approval_def find_None_iff)
next
  case (Some r')
  then have "r' \<in> set (as_rows st)" "aq_id r' = aq_id r" by (auto simp: find_approval_def find_Some_iff)
  then show ?thesis using assms Some by (auto simp: approvals_wf_def distinct_map dest: inj_onD)
qed

text \<open>
  C37. An expired request is neither decided nor executed: while no more requests have lapsed than one batch
  expires, a request that waited longer than the time to live is refused by \<open>decide\<close> and by \<open>execute\<close> (its
  action does not run) and becomes expired, whoever calls. The bound is needed, see \<open>decided_after_expiry\<close>.
\<close>

theorem expired_never_used:
  assumes "approvals_wf st" "r \<in> set (as_rows st)" "lapsed_row (now - ttl) r"
    and "length (filter (lapsed_row (now - ttl)) (as_rows st)) \<le> MAX_EXPIRY_BATCH"
    and "trim reason \<noteq> []" "length (trim reason) \<le> MAX_REASON"
  shows "(\<exists>e. fst (decide now ttl approver (aq_id r) decision reason st) = Inl e)
    \<and> find_approval (aq_id r) (snd (decide now ttl approver (aq_id r) decision reason st)) = Some (r\<lparr>aq_status := EXPIRED\<rparr>)
    \<and> (\<exists>e st'. execute now ttl executor (aq_id r) action run (st, w) = (Inl e, st', w))"
proof -
  let ?st = "expireLapsed now ttl st"
  have "r\<lparr>aq_status := EXPIRED\<rparr> \<in> set (as_rows ?st)"
    using assms(2,3) lapsed_all [OF assms(4)] by (auto simp: expireLapsed_rows [OF assms(1)] image_iff)
  moreover have "approvals_wf ?st" by (rule keeps_wf [OF keeps_expireLapsed assms(1)])
  ultimately have f: "find_approval (aq_id r) ?st = Some (r\<lparr>aq_status := EXPIRED\<rparr>)"
    using find_by_id [of ?st "r\<lparr>aq_status := EXPIRED\<rparr>"] by simp
  then have "claim now ttl executor (aq_id r) action st = (Inl (BadRequest ''Approval is for a different action''), ?st)
      \<or> claim now ttl executor (aq_id r) action st = (Inl (Conflict EXPIRED_MESSAGE), ?st)"
    by (simp add: claim_def Let_def require_def)
  then have "\<exists>e st'. execute now ttl executor (aq_id r) action run (st, w) = (Inl e, st', w)" by (auto simp: execute_def)
  with f assms(5,6) show ?thesis by (cases decision) (auto simp: decide_def Let_def require_def)
qed

text \<open>A decision on an open request by somebody else takes effect.\<close>

lemma decide_open:
  assumes "approvals_wf st" "r \<in> set (as_rows st)" "aq_status r = PENDING" "r \<notin> set (lapsed (now - ttl) st)"
    and "aq_requestedById r \<noteq> approver" "trim reason \<noteq> []" "length (trim reason) \<le> MAX_REASON"
  shows "fst (decide now ttl approver (aq_id r) decision reason st) =
    Inr (r\<lparr>aq_status := decision_status decision, aq_decidedById := Some approver, aq_decidedAt := Some now, aq_decisionReason := Some (trim reason)\<rparr>)"
proof -
  let ?st = "expireLapsed now ttl st" and ?P = "\<lambda>r. aq_status r = PENDING"
  let ?f = "\<lambda>r. r\<lparr>aq_status := decision_status decision, aq_decidedById := Some approver, aq_decidedAt := Some now,
    aq_decisionReason := Some (trim reason)\<rparr>"
  have wf: "approvals_wf ?st" by (rule keeps_wf [OF keeps_expireLapsed assms(1)])
  have r: "r \<in> set (as_rows ?st)" using assms(2,4) by (auto simp: expireLapsed_rows [OF assms(1)] image_iff)
  note f = find_by_id [OF wf r]
  have "filter (\<lambda>q. aq_id q = aq_id r \<and> aq_status q = PENDING) (as_rows ?st) = filter (\<lambda>q. q = r) (as_rows ?st)"
    using wf r assms(3) by (intro filter_cong) (auto simp: approvals_wf_def distinct_map dest: inj_onD)
  moreover have "distinct (as_rows ?st)" using wf by (simp add: approvals_wf_def distinct_map)
  then have "length (filter (\<lambda>q. q = r) (as_rows ?st)) = 1"
    using r by (simp add: distinct_length_filter Int_absorb1 Collect_conv_if)
  ultimately have n: "fst (update_approval (aq_id r) ?P ?f ?st) = 1" by (simp add: update_approval_def)
  have "find_approval (aq_id r) (snd (update_approval (aq_id r) ?P ?f ?st)) = Some (?f r)"
    using find_update [of ?f "aq_id r" ?P ?st] f assms(3) by simp
  with f n assms(3,5-7) show ?thesis by (simp add: decide_def Let_def require_def case_prod_beta)
qed

text \<open>With more than one batch of lapsed requests, the newest of them is decided after its time has passed.\<close>

definition crowd_row :: "nat \<Rightarrow> ApprovalRow" where
  "crowd_row n = \<lparr>aq_id = [char_of n], aq_action = ''contract.approve'', aq_entityType = ''contract'', aq_entityId = ''c'',
     aq_requestId = [char_of n], aq_status = PENDING, aq_requestedById = ''maker'', aq_reason = ''why'', aq_beforeState = None,
     aq_proposedState = None, aq_decidedById = None, aq_decidedAt = None, aq_decisionReason = None, aq_executedById = None,
     aq_executedAt = None, aq_createdAt = int n\<rparr>"

definition crowded :: ApprovalStore where
  "crowded = \<lparr>as_rows = map crowd_row [0..<101], as_audit = []\<rparr>"

lemma crowded_wf: "approvals_wf crowded"
proof -
  have "inj_on (\<lambda>n :: nat. char_of n :: char) {0..<101}" by (rule inj_on_inverseI [where g = of_char]) simp
  then have "distinct (map (\<lambda>n :: nat. [char_of n :: char]) [0..<101])" by (simp add: distinct_map inj_on_def)
  moreover have "approval_wf (crowd_row n)" for n
  proof -
    have "(case permission_of ''contract.approve'' of None \<Rightarrow> False | Some p \<Rightarrow> pd_actionClass p \<in> {S2, S3})
      \<and> ''contract.approve'' \<notin> set FORBIDDEN_PERMISSION_KEYS" by code_simp
    then show ?thesis by (simp add: approval_wf_def crowd_row_def)
  qed
  ultimately show ?thesis by (simp add: approvals_wf_def crowded_def crowd_row_def comp_def list_all_iff inj_on_def distinct_map)
qed

lemma decided_after_expiry:
  "crowd_row 100 \<in> set (as_rows crowded) \<and> lapsed_row (1000 - 100) (crowd_row 100)
   \<and> (\<exists>r. fst (decide 1000 100 ''checker'' (aq_id (crowd_row 100)) DecideApproved ''fine'' crowded) = Inr r \<and> aq_status r = APPROVED)"
proof -
  have in_rows: "crowd_row 100 \<in> set (as_rows crowded)" by (simp add: crowded_def)
  have "list_all (\<lambda>r. aq_createdAt r < 100) (lapsed (1000 - 100) crowded)" by code_simp
  then have "crowd_row 100 \<notin> set (lapsed (1000 - 100) crowded)" by (auto simp: list_all_iff crowd_row_def)
  moreover have "trim ''fine'' = ''fine''" by code_simp
  ultimately have "fst (decide 1000 100 ''checker'' (aq_id (crowd_row 100)) DecideApproved ''fine'' crowded) =
      Inr ((crowd_row 100)\<lparr>aq_status := decision_status DecideApproved, aq_decidedById := Some ''checker'', aq_decidedAt := Some 1000,
        aq_decisionReason := Some (trim ''fine'')\<rparr>)"
    using in_rows by (intro decide_open [OF crowded_wf]) (simp_all add: crowd_row_def MAX_REASON_def)
  with in_rows show ?thesis by (simp add: lapsed_row_def crowd_row_def)
qed

subsection \<open>Examples\<close>

definition sample_request :: RequestApprovalInput where
  "sample_request = \<lparr>ri_requesterId = ''maker'', ri_action = ''contract.approve'', ri_entityType = ''contract'', ri_entityId = ''c1'',
     ri_requestId = ''req-0001'', ri_reason = '' activate '', ri_beforeState = Some [(''status'', JStr ''DRAFT'')],
     ri_proposedState = Some [(''version'', JNum (JInt 2)), (''token'', JStr ''t'')]\<rparr>"

definition sample_pending :: ApprovalStore where
  "sample_pending = snd (request 1000 ''a1'' sample_request no_approvals)"

definition sample_approved :: ApprovalStore where
  "sample_approved = snd (decide 2000 100000 ''checker'' ''a1'' DecideApproved ''looks right'' sample_pending)"

definition sample_pending_row :: ApprovalRow where "sample_pending_row = hd (as_rows sample_pending)"
definition sample_approved_row :: ApprovalRow where "sample_approved_row = hd (as_rows sample_approved)"

lemma sample_rows: "as_rows sample_pending = [sample_pending_row]" "as_rows sample_approved = [sample_approved_row]"
  by code_simp+

lemma sample_reachable: "approvals_reachable sample_pending" "approvals_reachable sample_approved"
    "approval_step\<^sup>*\<^sup>* sample_pending sample_approved"
proof -
  have "approval_step no_approvals sample_pending"
    unfolding sample_pending_def by (rule step_request) (simp add: no_approvals_def)
  then show p: "approvals_reachable sample_pending" by blast
  have "approval_step sample_pending sample_approved" unfolding sample_approved_def by (rule step_decide)
  then show "approval_step\<^sup>*\<^sup>* sample_pending sample_approved" by blast
  with p show "approvals_reachable sample_approved" by simp
qed

lemma approvals_four_eyes_witness:
  "aq_status sample_approved_row = APPROVED \<and> (\<exists>d. aq_decidedById sample_approved_row = Some d \<and> d \<noteq> aq_requestedById sample_approved_row)"
proof -
  have s: "aq_status sample_approved_row = APPROVED" by code_simp
  with approvals_four_eyes [OF sample_reachable(2), of sample_approved_row] sample_rows show ?thesis by simp
qed

definition sample_run :: "ApprovalRow \<Rightarrow> nat \<Rightarrow> unit http \<times> nat" where
  "sample_run a n = (if n = 0 then Inr () else Inl (Conflict ''busy''), n + 1)"


lemma expired_never_used_witness:
  "lapsed_row (200000 - 100000) sample_pending_row
   \<and> (\<exists>e. fst (decide 200000 100000 ''checker'' (aq_id sample_pending_row) DecideApproved ''late'' sample_pending) = Inl e)"
proof -
  have l: "lapsed_row (200000 - 100000) sample_pending_row" and t: "trim ''late'' = ''late''" by code_simp+
  have m: "sample_pending_row \<in> set (as_rows sample_pending)" by (simp add: sample_rows)
  have b: "length (filter (lapsed_row (200000 - 100000)) (as_rows sample_pending)) \<le> MAX_EXPIRY_BATCH"
    by (simp add: sample_rows MAX_EXPIRY_BATCH_def)
  have "\<exists>e. fst (decide 200000 100000 ''checker'' (aq_id sample_pending_row) DecideApproved ''late'' sample_pending) = Inl e"
    using t by (intro conjunct1 [OF expired_never_used [OF reachable_wf [OF sample_reachable(1)] m l b]]) (simp_all add: MAX_REASON_def)
  with l show ?thesis by simp
qed

end
