(* ===== verification/Deal_Lifecycle.thy ===== *)
theory Deal_Lifecycle
  imports Deals Approvals
begin


text \<open>
  The life of a hotel deal (\<open>apps/api/src/promotions/hotel-deal.service.ts\<close>) over the approval service: the
  stored deal with the database's own guards, the checks against the catalogue, and the handlers create,
  replace, submit, decide, execute, withdraw, transition and reconcile. One tenant. A transaction is a
  function that returns the new state or the exception it throws, in which case nothing of it is kept.
\<close>

subsection \<open>Texts and fingerprints\<close>

definition kind_text :: "DealKind \<Rightarrow> string" where
  "kind_text k = (case k of
     DealKind.PERCENT_OFF \<Rightarrow> ''PERCENT_OFF'' | DealKind.EARLY_BIRD \<Rightarrow> ''EARLY_BIRD'' | DealKind.FLASH_SALE \<Rightarrow> ''FLASH_SALE''
   | STAY_X_PAY_Y \<Rightarrow> ''STAY_X_PAY_Y'' | DealKind.SUBSEQUENT_NIGHTS \<Rightarrow> ''SUBSEQUENT_NIGHTS''
   | DealKind.EVERY_NTH_FREE \<Rightarrow> ''EVERY_NTH_FREE'' | DealKind.FIXED_OFF \<Rightarrow> ''FIXED_OFF'')"

definition scope_text :: "AmountScope \<Rightarrow> string" where
  "scope_text s = (case s of PER_NIGHT \<Rightarrow> ''PER_NIGHT'' | PER_STAY \<Rightarrow> ''PER_STAY'')"

definition js_int :: "int option \<Rightarrow> jsval" where
  "js_int v = (case v of None \<Rightarrow> JNull | Some i \<Rightarrow> JNum (JInt i))"

definition js_text :: "string option \<Rightarrow> jsval" where
  "js_text v = (case v of None \<Rightarrow> JNull | Some s \<Rightarrow> JStr s)"

definition js_texts :: "string list \<Rightarrow> jsval" where
  "js_texts xs = JArr (map JStr (sorted_texts xs))"

text \<open>A bigint is written as its decimal text, a list sorted; the keys are in sorted order.\<close>

definition canonicalDealTerms :: "string \<Rightarrow> DealTermsRow \<Rightarrow> string" where
  "canonicalDealTerms hotelId t = json_text (JObj [
     (''activeFrom'', js_text (dl_activeFrom t)), (''activeTo'', js_text (dl_activeTo t)), (''agencyIds'', js_texts (dl_agencyIds t)),
     (''amountMinor'', js_text (map_option string_of_int (dl_amountMinor t))), (''amountScope'', js_text (map_option scope_text (dl_amountScope t))),
     (''bookFrom'', js_text (dl_bookFrom t)), (''bookTo'', js_text (dl_bookTo t)), (''channels'', js_texts (dl_channels t)),
     (''code'', JStr (dl_code t)), (''combinable'', JBool (dl_combinable t)), (''currency'', js_text (dl_currency t)),
     (''discountBase'', JStr (case dl_discountBase t of ROOM_AND_GUESTS \<Rightarrow> ''ROOM_AND_GUESTS'' | ROOM_ONLY \<Rightarrow> ''ROOM_ONLY'')),
     (''freeNights'', js_int (dl_freeNights t)), (''fromNight'', js_int (dl_fromNight t)), (''hotelId'', JStr hotelId),
     (''incompatibleDealIds'', js_texts (dl_incompatibleDealIds t)), (''internalNotes'', js_text (dl_internalNotes t)),
     (''kind'', JStr (kind_text (dl_kind t))), (''maxDiscountBp'', js_int (dl_maxDiscountBp t)), (''minLeadDays'', js_int (dl_minLeadDays t)),
     (''minMarginBp'', js_int (dl_minMarginBp t)), (''minNights'', js_int (dl_minNights t)),
     (''minSellFloorMinor'', js_text (map_option string_of_int (dl_minSellFloorMinor t))), (''name'', JStr (dl_name t)),
     (''percentBp'', js_int (dl_percentBp t)), (''priority'', JNum (JInt (dl_priority t))), (''publicDescription'', js_text (dl_publicDescription t)),
     (''ratePlanIds'', js_texts (dl_ratePlanIds t)), (''sourceMarkets'', js_texts (dl_sourceMarkets t)),
     (''stackingGroup'', js_text (dl_stackingGroup t)), (''stayFrom'', js_text (dl_stayFrom t)), (''stayTo'', js_text (dl_stayTo t)),
     (''stayWindowMode'', JStr (case dl_stayWindowMode t of WHOLE_STAY \<Rightarrow> ''WHOLE_STAY'' | NIGHTS_IN_WINDOW \<Rightarrow> ''NIGHTS_IN_WINDOW'')),
     (''weekdays'', js_int (dl_weekdays t))])"

text \<open>\<open>sha256\<close> (of \<open>node:crypto\<close>) is a parameter.\<close>

definition dealFingerprint :: "(string \<Rightarrow> string) \<Rightarrow> string \<Rightarrow> DealTermsRow \<Rightarrow> string" where
  "dealFingerprint sha256 hotelId terms = sha256 (canonicalDealTerms hotelId terms)"

definition percentText :: "int \<Rightarrow> string" where
  "percentText bp = string_of_int (bp div 100) @ (if bp mod 100 = 0 then [] else ''.'' @ padStart 2 (CHR ''0'') (string_of_int (bp mod 100))) @ ''%''"

definition majorText :: "int \<Rightarrow> string \<Rightarrow> string" where
  "majorText minor code = code @ '' '' @ string_of_int (minor div 100)
     @ (if minor mod 100 = 0 then [] else ''.'' @ padStart 2 (CHR ''0'') (string_of_int (minor mod 100)))"

definition or_zero :: "int option \<Rightarrow> int" where
  "or_zero v = (case v of None \<Rightarrow> 0 | Some i \<Rightarrow> i)"

definition shown :: "int option \<Rightarrow> string" where
  "shown v = (case v of None \<Rightarrow> ''null'' | Some i \<Rightarrow> string_of_int i)"

definition shown_text :: "string option \<Rightarrow> string" where
  "shown_text v = (case v of None \<Rightarrow> ''null'' | Some s \<Rightarrow> s)"

definition dealSummary :: "DealTermsRow \<Rightarrow> string" where
  "dealSummary t =
     (case dl_kind t of
        DealKind.PERCENT_OFF \<Rightarrow> percentText (or_zero (dl_percentBp t)) @ '' off every eligible night''
      | DealKind.EARLY_BIRD \<Rightarrow> percentText (or_zero (dl_percentBp t)) @ '' off when booked '' @ shown (dl_minLeadDays t) @ '' or more days ahead''
      | DealKind.FLASH_SALE \<Rightarrow> percentText (or_zero (dl_percentBp t)) @ '' off, booking window '' @ shown_text (dl_bookFrom t) @ '' to '' @ shown_text (dl_bookTo t)
      | STAY_X_PAY_Y \<Rightarrow> ''Stay '' @ shown (dl_minNights t) @ '', pay '' @ string_of_int (or_zero (dl_minNights t) - or_zero (dl_freeNights t))
      | DealKind.SUBSEQUENT_NIGHTS \<Rightarrow> percentText (or_zero (dl_percentBp t)) @ '' off from night '' @ shown (dl_fromNight t)
      | DealKind.EVERY_NTH_FREE \<Rightarrow> ''Every '' @ shown (dl_minNights t) @ ''th night free''
      | DealKind.FIXED_OFF \<Rightarrow> majorText (or_zero (dl_amountMinor t)) (case dl_currency t of None \<Rightarrow> [] | Some c \<Rightarrow> c) @ '' off ''
          @ (if dl_amountScope t = Some PER_STAY then ''per stay'' else ''per night''))"

subsection \<open>State\<close>

record Deal =
  de_id :: string
  de_hotelId :: string
  de_columns :: DealRow
  de_ratePlans :: "string list"
  de_status :: DealStatus
  de_version :: int
  de_termsFingerprint :: "string option"
  de_approvalId :: "string option"
  de_activatedAt :: "int option"
  de_activatedById :: "string option"
  de_statusReason :: "string option"
  de_statusChangedAt :: "int option"
  de_statusChangedById :: "string option"
  de_idempotencyKey :: string
  de_createdById :: string

record PlanInfo =
  pn_id :: string
  pn_status :: string
  pn_currency :: string
  pn_occupancy :: int
  pn_derivedFromId :: "string option"
  pn_validFrom :: "int option"
  pn_validTo :: "int option"
  pn_hotelId :: string
  pn_contractStatus :: string
  pn_contractFrom :: "int option"
  pn_contractTo :: "int option"

record RateInfo =
  rt_planId :: string
  rt_stayDate :: int
  rt_amountMinor :: int
  rt_amountBasis :: string
  rt_occupancy :: int

record Catalogue =
  ct_hotels :: "string list"
  ct_plans :: "PlanInfo list"
  ct_agencies :: "string list"
  ct_rates :: "RateInfo list"

text \<open>
  What a call reads besides the deals: the clock, the hotel's calendar day (\<open>hotelToday\<close>, a parameter that
  stands for the time zone data of \<open>Intl\<close>), the time to live of approvals, the enabled currencies and the
  catalogue at that moment.
\<close>

record DealEnv =
  en_now :: int
  en_ttl :: int
  en_today :: "string \<Rightarrow> string option"
  en_currencies :: "string list"
  en_catalogue :: Catalogue

record DealAudit =
  da_userId :: string
  da_action :: string
  da_dealId :: string

text \<open>\<open>dw_claimed\<close> are the approvals whose execution is running.\<close>

record DealWorld =
  dw_deals :: "Deal list"
  dw_approvals :: ApprovalStore
  dw_audit :: "DealAudit list"
  dw_claimed :: "ApprovalRow list"

definition DEAL_APPROVAL_ACTION :: string where "DEAL_APPROVAL_ACTION = ''promotion.activate''"
definition ENTITY_TYPE :: string where "ENTITY_TYPE = ''hotel_deal''"
definition REASON_MIN :: nat where "REASON_MIN = 3"
definition REASON_MAX :: nat where "REASON_MAX = 500"
definition RECONCILE_BATCH :: nat where "RECONCILE_BATCH = 200"
definition RATE_LOOKAHEAD_DAYS :: int where "RATE_LOOKAHEAD_DAYS = 90"

definition termsOf :: "Deal \<Rightarrow> DealTermsRow" where
  "termsOf d = rowToTerms (de_columns d) (de_ratePlans d)"

definition find_deal :: "string \<Rightarrow> DealWorld \<Rightarrow> Deal option" where
  "find_deal i w = find (\<lambda>d. de_id d = i) (dw_deals w)"

definition put_deal :: "Deal \<Rightarrow> DealWorld \<Rightarrow> DealWorld" where
  "put_deal d w = w\<lparr>dw_deals := map (\<lambda>x. if de_id x = de_id d then d else x) (dw_deals w)\<rparr>"

definition deal_audit :: "string \<Rightarrow> string \<Rightarrow> string \<Rightarrow> DealWorld \<Rightarrow> DealWorld" where
  "deal_audit user action i w = w\<lparr>dw_audit := dw_audit w @ [\<lparr>da_userId = user, da_action = action, da_dealId = i\<rparr>]\<rparr>"

text \<open>\<open>idParam\<close>: the characters of an identifier.\<close>

definition id_char :: "char \<Rightarrow> bool" where
  "id_char c \<longleftrightarrow> word_char c \<or> c = CHR ''.'' \<or> c = CHR '':''"

definition is_identifier :: "nat \<Rightarrow> nat \<Rightarrow> string \<Rightarrow> bool" where
  "is_identifier lo hi s \<longleftrightarrow> lo \<le> length s \<and> length s \<le> hi \<and> list_all id_char s"

definition load :: "string \<Rightarrow> DealWorld \<Rightarrow> Deal http" where
  "load dealId w =
     (if dealId = [] then Inl (BadRequest ''DEAL_ID_INVALID'')
      else if \<not> is_identifier 1 80 dealId then Inl (BadRequest ''Invalid dealId'')
      else case find_deal dealId w of None \<Rightarrow> Inl (NotFound ''DEAL_NOT_FOUND'') | Some d \<Rightarrow> Inr d)"

subsection \<open>The database's guards\<close>

text \<open>The constraint \<open>HotelDeal_lifecycle_check\<close> and the trigger \<open>HotelDeal_guard\<close> of the migration.\<close>

definition lifecycle_check :: "Deal \<Rightarrow> bool" where
  "lifecycle_check d \<longleftrightarrow>
     (de_status d \<in> {PENDING_APPROVAL, DealStatus.APPROVED, SCHEDULED, ACTIVE, PAUSED, SUSPENDED, DealStatus.EXPIRED} \<longrightarrow> de_termsFingerprint d \<noteq> None)
     \<and> (de_status d \<in> {SCHEDULED, ACTIVE} \<longrightarrow> de_approvalId d \<noteq> None \<and> de_activatedAt d \<noteq> None \<and> de_activatedById d \<noteq> None)
     \<and> (de_status d = SCHEDULED \<longrightarrow> dr_activeFrom (de_columns d) \<noteq> None)
     \<and> (de_status d \<in> {DealStatus.REJECTED, PAUSED, SUSPENDED} \<longrightarrow>
         (case de_statusReason d of None \<Rightarrow> False | Some r \<Rightarrow> 3 \<le> length (trim r)))"

definition guard_allows :: "Deal \<Rightarrow> Deal \<Rightarrow> bool" where
  "guard_allows old new \<longleftrightarrow>
     de_id new = de_id old \<and> de_hotelId new = de_hotelId old \<and> de_createdById new = de_createdById old \<and> de_idempotencyKey new = de_idempotencyKey old
     \<and> (de_status new = de_status old \<or> canTransition (de_status old) (de_status new))
     \<and> (de_status old \<noteq> DRAFT \<longrightarrow> de_columns new = de_columns old \<and> de_ratePlans new = de_ratePlans old)
     \<and> (if de_status old \<noteq> DRAFT \<and> de_status new = DRAFT
         then de_version new = de_version old + 1 \<and> de_termsFingerprint new = None \<and> de_approvalId new = None \<and> de_activatedAt new = None
         else de_version old \<le> de_version new)"

text \<open>\<open>updateMany\<close> on one deal under a condition: the count and the new state, or the database's refusal.\<close>

definition move_deal :: "string \<Rightarrow> (Deal \<Rightarrow> bool) \<Rightarrow> (Deal \<Rightarrow> Deal) \<Rightarrow> DealWorld \<Rightarrow> (nat \<times> DealWorld) http" where
  "move_deal i P f w =
     (case find_deal i w of
        None \<Rightarrow> Inr (0, w)
      | Some d \<Rightarrow>
          if \<not> P d then Inr (0, w)
          else if guard_allows d (f d) \<and> lifecycle_check (f d) then Inr (1, put_deal (f d) w)
          else Inl (ServerError ''HotelDeal_guard''))"

text \<open>A move that must hit its row.\<close>

definition must_move :: "string \<Rightarrow> (Deal \<Rightarrow> bool) \<Rightarrow> (Deal \<Rightarrow> Deal) \<Rightarrow> DealWorld \<Rightarrow> DealWorld http" where
  "must_move i P f w = ebind (move_deal i P f w) (\<lambda>(n, w'). if n \<noteq> 1 then Inl (Conflict ''DEAL_CHANGED'') else Inr w')"

subsection \<open>Request fields\<close>

definition cleanReason :: "jsval \<Rightarrow> bool \<Rightarrow> string option http" where
  "cleanReason v required =
     (if nullish v \<or> v = JStr [] then (if required then Inl (BadRequest ''DEAL_REASON_REQUIRED'') else Inr None)
      else let text = trim (text_of v) in
        if length text < REASON_MIN \<or> length text > REASON_MAX then Inl (BadRequest ''DEAL_REASON_REQUIRED'') else Inr (Some text))"

definition expectedVersion :: "jsval \<Rightarrow> bool \<Rightarrow> int option http" where
  "expectedVersion v required =
     (if nullish v then (if required then Inl (BadRequest ''DEAL_VERSION_REQUIRED'') else Inr None)
      else case v of
        JNum (JInt n) \<Rightarrow> if n < 1 then Inl (BadRequest ''DEAL_VERSION_REQUIRED'') else Inr (Some n)
      | _ \<Rightarrow> Inl (BadRequest ''DEAL_VERSION_REQUIRED''))"


subsection \<open>Checks against the catalogue\<close>

definition deal_error :: "string \<Rightarrow> string option \<Rightarrow> DealIssue" where
  "deal_error code fld = \<lparr>di_code = code, di_field = fld, di_severity = ERROR\<rparr>"

definition deal_warn :: "string \<Rightarrow> string \<Rightarrow> DealIssue" where
  "deal_warn code fld = \<lparr>di_code = code, di_field = Some fld, di_severity = WARNING\<rparr>"

definition if_issue :: "bool \<Rightarrow> DealIssue \<Rightarrow> DealIssue list" where
  "if_issue test i = (if test then [i] else [])"

text \<open>An optional text before another: false when either is missing.\<close>

definition day_before :: "string option \<Rightarrow> string option \<Rightarrow> bool" where
  "day_before a b \<longleftrightarrow> (case (a, b) of (Some x, Some y) \<Rightarrow> x < y | _ \<Rightarrow> False)"

definition or_else :: "'a option \<Rightarrow> 'a option \<Rightarrow> 'a option" where
  "or_else a b = (case a of None \<Rightarrow> b | Some x \<Rightarrow> Some x)"

definition the_later :: "string option \<Rightarrow> string option \<Rightarrow> string option" where
  "the_later a b = (case (a, b) of (Some x, Some y) \<Rightarrow> Some (max x y) | _ \<Rightarrow> or_else a b)"

definition the_earlier :: "string option \<Rightarrow> string option \<Rightarrow> string option" where
  "the_earlier a b = (case (a, b) of (Some x, Some y) \<Rightarrow> Some (min x y) | _ \<Rightarrow> or_else a b)"

definition plan_issues :: "string \<Rightarrow> DealTermsRow \<Rightarrow> PlanInfo list \<Rightarrow> DealIssue list" where
  "plan_issues hotelId t plans =
     (let live = filter (\<lambda>p. pn_status p = ''ACTIVE'') plans in
      if_issue (length plans \<noteq> length (dl_ratePlanIds t)) (deal_error ''DEAL_PLAN_NOT_FOUND'' (Some ''ratePlanIds''))
      @ if_issue (list_ex (\<lambda>p. pn_hotelId p \<noteq> hotelId) plans) (deal_error ''DEAL_PLAN_OTHER_HOTEL'' (Some ''ratePlanIds''))
      @ if_issue (plans \<noteq> [] \<and> live = []) (deal_error ''NO_ACTIVE_RATE_PLAN'' (Some ''ratePlanIds''))
      @ concat (map (\<lambda>p. if_issue (pn_status p \<noteq> ''ACTIVE'' \<and> live \<noteq> []) (deal_warn ''PLAN_NOT_ACTIVE'' ''ratePlanIds'')
          @ if_issue (pn_contractStatus p \<noteq> ''ACTIVE'') (deal_warn ''CONTRACT_NOT_ACTIVE'' ''ratePlanIds'')) plans))"

definition currency_issues :: "DealTermsRow \<Rightarrow> PlanInfo list \<Rightarrow> DealIssue list" where
  "currency_issues t plans =
     (if dl_kind t \<noteq> DealKind.FIXED_OFF then []
      else if plans \<noteq> [] \<and> filter (\<lambda>p. Some (pn_currency p) = dl_currency t) plans = []
        then [deal_error ''PLAN_CURRENCY_MISMATCH'' (Some ''currency'')]
      else concat (map (\<lambda>p. if_issue (Some (pn_currency p) \<noteq> dl_currency t) (deal_warn ''PLAN_CURRENCY_MISMATCH'' ''currency'')) plans))"

definition validity_issues :: "DealTermsRow \<Rightarrow> PlanInfo list \<Rightarrow> DealIssue list" where
  "validity_issues t plans =
     (let stayStart = or_else (dl_stayFrom t) (dl_activeFrom t); stayEnd = or_else (dl_stayTo t) (dl_activeTo t) in
      concat (map (\<lambda>p.
        let validFrom = the_later (day_text (pn_validFrom p)) (day_text (pn_contractFrom p));
            validTo = the_earlier (day_text (pn_validTo p)) (day_text (pn_contractTo p)) in
        if_issue (day_before stayEnd validFrom \<or> day_before validTo stayStart) (deal_warn ''OUTSIDE_PLAN_VALIDITY'' ''stayFrom'')) plans))"

definition reference_issues :: "Deal \<Rightarrow> Deal list \<Rightarrow> Catalogue \<Rightarrow> DealTermsRow \<Rightarrow> DealIssue list" where
  "reference_issues d deals cat t =
     if_issue (dl_agencyIds t \<noteq> [] \<and> length (filter (\<lambda>a. a \<in> set (dl_agencyIds t)) (ct_agencies cat)) \<noteq> length (dl_agencyIds t))
       (deal_error ''AGENCY_NOT_FOUND'' (Some ''agencyIds''))
     @ (if dl_incompatibleDealIds t = [] then []
        else if_issue (length (filter (\<lambda>x. de_hotelId x = de_hotelId d \<and> de_id x \<in> set (dl_incompatibleDealIds t)) deals) \<noteq> length (dl_incompatibleDealIds t))
               (deal_error ''INCOMPATIBLE_DEAL_NOT_FOUND'' (Some ''incompatibleDealIds''))
          @ if_issue (de_id d \<in> set (dl_incompatibleDealIds t)) (deal_error ''INCOMPATIBLE_WITH_ITSELF'' (Some ''incompatibleDealIds'')))"

text \<open>The stored rates of the next ninety days: what the guards can and cannot protect.\<close>

definition rate_issues :: "DealTermsRow \<Rightarrow> RateInfo list \<Rightarrow> PlanInfo \<Rightarrow> DealIssue list" where
  "rate_issues t rates p =
     (let own = filter (\<lambda>r. rt_planId r = pn_id p \<and> rt_occupancy r = pn_occupancy p) rates;
          smallest = (case map rt_amountMinor own of [] \<Rightarrow> None | a # as \<Rightarrow> Some (foldl min a as)) in
      if_issue (own = [] \<and> pn_derivedFromId p = None) (deal_warn ''NO_RATES_AHEAD'' ''ratePlanIds'')
      @ if_issue (dl_kind t = DealKind.FIXED_OFF \<and> dl_amountScope t = Some PER_NIGHT
          \<and> (case (dl_amountMinor t, smallest) of (Some a, Some s) \<Rightarrow> s \<le> a | _ \<Rightarrow> False) \<and> Some (pn_currency p) = dl_currency t)
          (deal_warn ''DISCOUNT_EXCEEDS_RATE'' ''amountMinor'')
      @ if_issue (dl_minMarginBp t \<noteq> None \<and> list_ex (\<lambda>r. rt_amountBasis r = ''SELL'') own) (deal_warn ''MARGIN_GUARD_UNVERIFIABLE'' ''minMarginBp'')
      @ if_issue (case dl_minSellFloorMinor t of None \<Rightarrow> False | Some f \<Rightarrow> list_ex (\<lambda>r. rt_amountBasis r = ''SELL'' \<and> rt_amountMinor r < f) own)
          (deal_warn ''FLOOR_ABOVE_BASE_SELL'' ''minSellFloorMinor''))"

definition ahead_issues :: "string option \<Rightarrow> DealTermsRow \<Rightarrow> Catalogue \<Rightarrow> PlanInfo list \<Rightarrow> DealIssue list" where
  "ahead_issues today t cat plans =
     (let live = filter (\<lambda>p. pn_status p = ''ACTIVE'') plans in
      case today of
        None \<Rightarrow> []
      | Some day \<Rightarrow>
          if live = [] then []
          else
            let from_ms = dayNumber day * MS_PER_DAY; to_ms = (dayNumber day + RATE_LOOKAHEAD_DAYS) * MS_PER_DAY;
                rates = filter (\<lambda>r. rt_planId r \<in> set (map pn_id live) \<and> from_ms \<le> rt_stayDate r \<and> rt_stayDate r \<le> to_ms) (ct_rates cat) in
            concat (map (rate_issues t rates) live))"

text \<open>One warning for each other live or pending deal on one of the plans whose window meets the deal's.\<close>

definition overlap_issues :: "Deal \<Rightarrow> Deal list \<Rightarrow> DealTermsRow \<Rightarrow> DealIssue list" where
  "overlap_issues d deals t =
     map (\<lambda>_. deal_warn ''OVERLAPS_DEAL'' ''activeFrom'')
       (filter (\<lambda>x. de_id x \<noteq> de_id d \<and> de_status x \<in> {ACTIVE, SCHEDULED, PENDING_APPROVAL, DealStatus.APPROVED}
          \<and> list_ex (\<lambda>p. p \<in> set (dl_ratePlanIds t)) (de_ratePlans x)
          \<and> \<not> day_before (dl_activeTo t) (day_text (dr_activeFrom (de_columns x)))
          \<and> \<not> day_before (day_text (dr_activeTo (de_columns x))) (dl_activeFrom t)) deals)"

definition cmp_severity :: "DealIssue \<Rightarrow> DealIssue \<Rightarrow> int" where
  "cmp_severity a b = (if di_severity a = di_severity b then 0 else if di_severity a = ERROR then -1 else 1)"

definition validation :: "DealEnv \<Rightarrow> Deal list \<Rightarrow> Deal \<Rightarrow> DealTermsRow \<Rightarrow> DealIssue list" where
  "validation env deals d t =
     (let cat = en_catalogue env; today = en_today env (de_hotelId d);
          plans = filter (\<lambda>p. pn_id p \<in> set (dl_ratePlanIds t)) (ct_plans cat) in
      js_sort cmp_severity
        (if_issue (today = None) (deal_error ''HOTEL_TIME_ZONE_INVALID'' None)
         @ if_issue (day_before (dl_activeTo t) today) (deal_error ''DEAL_WINDOW_ENDED'' (Some ''activeTo''))
         @ plan_issues (de_hotelId d) t plans
         @ currency_issues t plans
         @ if_issue (''API'' \<in> set (dl_channels t)) (deal_warn ''CHANNEL_API_NOT_DISTRIBUTED'' ''channels'')
         @ validity_issues t plans
         @ reference_issues d deals cat t
         @ ahead_issues today t cat plans
         @ overlap_issues d deals t))"

definition scopeChecks :: "Catalogue \<Rightarrow> string \<Rightarrow> DealTermsRow \<Rightarrow> DealWorld \<Rightarrow> unit http" where
  "scopeChecks cat hotelId t w =
     (if length (filter (\<lambda>p. pn_id p \<in> set (dl_ratePlanIds t) \<and> pn_hotelId p = hotelId) (ct_plans cat)) \<noteq> length (dl_ratePlanIds t)
        then Inl (BadRequest ''DEAL_PLAN_NOT_IN_HOTEL'')
      else if dl_agencyIds t \<noteq> [] \<and> length (filter (\<lambda>a. a \<in> set (dl_agencyIds t)) (ct_agencies cat)) \<noteq> length (dl_agencyIds t)
        then Inl (BadRequest ''AGENCY_NOT_FOUND'')
      else if dl_incompatibleDealIds t \<noteq> []
           \<and> length (filter (\<lambda>x. de_hotelId x = hotelId \<and> de_id x \<in> set (dl_incompatibleDealIds t)) (dw_deals w)) \<noteq> length (dl_incompatibleDealIds t)
        then Inl (BadRequest ''INCOMPATIBLE_DEAL_NOT_FOUND'')
      else Inr ())"

subsection \<open>Authoring\<close>

text \<open>A parse that throws is an unhandled server error; issues become one bad request with the first error's code.\<close>

definition first_error :: "DealIssue list \<Rightarrow> string" where
  "first_error is = (case find (\<lambda>i. di_severity i = ERROR) is of
     Some i \<Rightarrow> di_code i
   | None \<Rightarrow> (case is of [] \<Rightarrow> ''DEAL_INVALID'' | i # _ \<Rightarrow> di_code i))"

definition parsed :: "jsval \<Rightarrow> string list \<Rightarrow> (DealTermsRow option \<times> DealIssue list) http" where
  "parsed v currencies = (case parseDealInput v currencies of Inl _ \<Rightarrow> Inl (ServerError ''Invalid time value'') | Inr r \<Rightarrow> Inr r)"

definition raw_of :: "jsval \<Rightarrow> body" where
  "raw_of v = (case v of JObj kvs \<Rightarrow> kvs | _ \<Rightarrow> [])"

definition with_terms :: "DealTermsRow \<Rightarrow> Deal \<Rightarrow> Deal" where
  "with_terms t d = d\<lparr>de_columns := termsToColumns t, de_ratePlans := dl_ratePlanIds t\<rparr>"

definition new_deal :: "string \<Rightarrow> string \<Rightarrow> string \<Rightarrow> string \<Rightarrow> DealTermsRow \<Rightarrow> Deal" where
  "new_deal newId hotelId userId idempotencyKey t =
     \<lparr>de_id = newId, de_hotelId = hotelId, de_columns = termsToColumns t, de_ratePlans = dl_ratePlanIds t, de_status = DRAFT, de_version = 1,
      de_termsFingerprint = None, de_approvalId = None, de_activatedAt = None, de_activatedById = None, de_statusReason = None,
      de_statusChangedAt = None, de_statusChangedById = None, de_idempotencyKey = idempotencyKey, de_createdById = userId\<rparr>"

definition create_tx :: "(string \<Rightarrow> string) \<Rightarrow> DealEnv \<Rightarrow> string \<Rightarrow> string \<Rightarrow> string \<Rightarrow> string \<Rightarrow> DealTermsRow \<Rightarrow> DealWorld \<Rightarrow> (Deal \<times> DealWorld) http" where
  "create_tx sha256 env newId userId hotelId idempotencyKey t w =
     (if hotelId \<notin> set (ct_hotels (en_catalogue env)) then Inl (NotFound ''HOTEL_NOT_FOUND'')
      else case find (\<lambda>d. de_idempotencyKey d = idempotencyKey) (dw_deals w) of
        Some existing \<Rightarrow>
          if de_createdById existing = userId \<and> de_hotelId existing = hotelId
             \<and> dealFingerprint sha256 hotelId (termsOf existing) = dealFingerprint sha256 hotelId t
          then Inr (existing, w) else Inl (Conflict ''IDEMPOTENCY_KEY_REUSED'')
      | None \<Rightarrow>
          ebind (scopeChecks (en_catalogue env) hotelId t w) (\<lambda>_.
          if list_ex (\<lambda>d. de_id d = newId \<or> dr_codeKey (de_columns d) = dr_codeKey (termsToColumns t)) (dw_deals w)
          then Inl (Conflict ''DEAL_CODE_TAKEN'')
          else let d = new_deal newId hotelId userId idempotencyKey t in
            Inr (d, deal_audit userId ''promotion.deal.created'' newId (w\<lparr>dw_deals := dw_deals w @ [d]\<rparr>))))"

definition create :: "(string \<Rightarrow> string) \<Rightarrow> DealEnv \<Rightarrow> string \<Rightarrow> string \<Rightarrow> jsval \<Rightarrow> DealWorld \<Rightarrow> (Deal \<times> DealWorld) http" where
  "create sha256 env newId userId v w =
     ebind (parsed v (en_currencies env)) (\<lambda>(terms, issues0).
     let raw = raw_of v;
         idempotencyKey = text_of (field raw ''idempotencyKey'');
         hotel = text_of (field raw ''hotelId'');
         issues1 = issues0 @ if_issue (\<not> is_identifier 8 80 idempotencyKey) (deal_error ''DEAL_IDEMPOTENCY_KEY_REQUIRED'' (Some ''idempotencyKey'')) in
     if hotel \<noteq> [] \<and> \<not> is_identifier 1 80 hotel then Inl (BadRequest ''Invalid hotelId'')
     else
       let issues = issues1 @ if_issue (hotel = []) (deal_error ''DEAL_HOTEL_REQUIRED'' (Some ''hotelId'')) in
       case terms of
         None \<Rightarrow> Inl (BadRequest (first_error issues))
       | Some t \<Rightarrow> if has_error issues then Inl (BadRequest (first_error issues)) else create_tx sha256 env newId userId hotel idempotencyKey t w)"

definition replace_tx :: "DealEnv \<Rightarrow> string \<Rightarrow> string \<Rightarrow> body \<Rightarrow> int \<Rightarrow> DealTermsRow \<Rightarrow> DealWorld \<Rightarrow> DealWorld http" where
  "replace_tx env userId dealId raw version t w =
     ebind (load dealId w) (\<lambda>d.
     if field raw ''hotelId'' \<noteq> JUndefined \<and> field raw ''hotelId'' \<noteq> JStr (de_hotelId d) then Inl (BadRequest ''DEAL_FIELD_NOT_ALLOWED'')
     else if de_status d \<noteq> DRAFT then Inl (Conflict ''DEAL_TERMS_LOCKED'')
     else if de_version d \<noteq> version then Inl (Conflict ''DEAL_CHANGED'')
     else
       ebind (scopeChecks (en_catalogue env) (de_hotelId d) t w) (\<lambda>_.
       if list_ex (\<lambda>x. de_id x \<noteq> de_id d \<and> dr_codeKey (de_columns x) = dr_codeKey (termsToColumns t)) (dw_deals w)
       then Inl (Conflict ''DEAL_CODE_TAKEN'')
       else
         ebind (must_move (de_id d) (\<lambda>x. de_status x = DRAFT \<and> de_version x = version)
                  (\<lambda>x. (with_terms t x)\<lparr>de_version := version + 1\<rparr>) w) (\<lambda>w.
         Inr (deal_audit userId ''promotion.deal.updated'' (de_id d) w))))"

definition replace :: "DealEnv \<Rightarrow> string \<Rightarrow> string \<Rightarrow> jsval \<Rightarrow> DealWorld \<Rightarrow> DealWorld http" where
  "replace env userId dealId v w =
     ebind (parsed v (en_currencies env)) (\<lambda>(terms, issues).
     ebind (expectedVersion (field (raw_of v) ''expectedVersion'') True) (\<lambda>version.
       case terms of
         None \<Rightarrow> Inl (BadRequest (first_error issues))
       | Some t \<Rightarrow> replace_tx env userId dealId (raw_of v) (the version) t w))"

subsection \<open>Approval\<close>

definition submit_prepare :: "(string \<Rightarrow> string) \<Rightarrow> DealEnv \<Rightarrow> string \<Rightarrow> int \<Rightarrow> DealWorld \<Rightarrow> (Deal \<times> DealTermsRow \<times> string) http" where
  "submit_prepare sha256 env dealId version w =
     ebind (load dealId w) (\<lambda>d.
     if de_status d \<noteq> DRAFT then Inl (Conflict ''DEAL_TRANSITION_NOT_ALLOWED'')
     else if de_version d \<noteq> version then Inl (Conflict ''DEAL_CHANGED'')
     else let t = termsOf d in
       if has_error (validation env (dw_deals w) d t) then Inl (Conflict ''DEAL_VALIDATION_FAILED'')
       else Inr (d, t, dealFingerprint sha256 (de_hotelId d) t))"

definition proposal :: "string \<Rightarrow> int \<Rightarrow> string \<Rightarrow> Deal \<Rightarrow> DealTermsRow \<Rightarrow> body" where
  "proposal dealId version fingerprint d t =
     [(''dealId'', JStr dealId), (''version'', JNum (JInt version)), (''termsFingerprint'', JStr fingerprint), (''kind'', JStr (kind_text (dl_kind t))),
      (''hotelId'', JStr (de_hotelId d)), (''planCount'', JNum (JInt (int (length (dl_ratePlanIds t))))), (''summary'', JStr (dealSummary t))]"

definition submit_bind :: "DealEnv \<Rightarrow> string \<Rightarrow> string \<Rightarrow> int \<Rightarrow> string \<Rightarrow> string \<Rightarrow> DealWorld \<Rightarrow> DealWorld http" where
  "submit_bind env userId dealId version fingerprint approvalId w =
     ebind (load dealId w) (\<lambda>d.
     if de_status d = PENDING_APPROVAL \<and> de_approvalId d = Some approvalId then Inr w
     else
       ebind (must_move (de_id d) (\<lambda>x. de_status x = DRAFT \<and> de_version x = version)
                (\<lambda>x. x\<lparr>de_status := PENDING_APPROVAL, de_termsFingerprint := Some fingerprint, de_approvalId := Some approvalId,
                   de_statusChangedAt := Some (en_now env), de_statusChangedById := Some userId, de_statusReason := None\<rparr>) w) (\<lambda>w.
       Inr (deal_audit userId ''promotion.deal.submitted'' (de_id d) w)))"

text \<open>A handler whose earlier transactions stay when a later one throws returns its result beside the state.\<close>

definition submit :: "(string \<Rightarrow> string) \<Rightarrow> DealEnv \<Rightarrow> string \<Rightarrow> string \<Rightarrow> string \<Rightarrow> body \<Rightarrow> DealWorld \<Rightarrow> unit http \<times> DealWorld" where
  "submit sha256 env newApprovalId userId dealId raw w =
     (case expectedVersion (field raw ''expectedVersion'') True of
        Inl e \<Rightarrow> (Inl e, w)
      | Inr version0 \<Rightarrow>
          let version = the version0; requestId = text_of (field raw ''requestId'') in
          if \<not> is_identifier 8 80 requestId then (Inl (BadRequest ''DEAL_REQUEST_ID_REQUIRED''), w)
          else case cleanReason (field raw ''reason'') True of
            Inl e \<Rightarrow> (Inl e, w)
          | Inr reason \<Rightarrow>
              (case submit_prepare sha256 env dealId version w of
                 Inl e \<Rightarrow> (Inl e, w)
               | Inr (d, t, fingerprint) \<Rightarrow>
                   (case request (en_now env) newApprovalId
                       \<lparr>ri_requesterId = userId, ri_action = DEAL_APPROVAL_ACTION, ri_entityType = ENTITY_TYPE, ri_entityId = dealId,
                        ri_requestId = requestId, ri_reason = the reason,
                        ri_beforeState = Some [(''status'', JStr ''DRAFT''), (''version'', JNum (JInt version))],
                        ri_proposedState = Some (proposal dealId version fingerprint d t)\<rparr> (dw_approvals w) of
                      (Inl e, st) \<Rightarrow> (Inl e, w\<lparr>dw_approvals := st\<rparr>)
                    | (Inr approval, st) \<Rightarrow>
                        let w1 = w\<lparr>dw_approvals := st\<rparr> in
                        case submit_bind env userId dealId version fingerprint (aq_id approval) w1 of
                          Inr w2 \<Rightarrow> (Inr (), w2)
                        | Inl e \<Rightarrow> (Inl e, w1\<lparr>dw_approvals := snd (cancel userId (aq_id approval) (dw_approvals w1))\<rparr>))))"

definition approvalFor :: "DealEnv \<Rightarrow> string \<Rightarrow> DealWorld \<Rightarrow> ApprovalRow http \<times> DealWorld" where
  "approvalFor env approvalId w =
     (case get (en_now env) (en_ttl env) approvalId (dw_approvals w) of
        (Inl e, st) \<Rightarrow> (Inl e, w\<lparr>dw_approvals := st\<rparr>)
      | (Inr a, st) \<Rightarrow>
          (if aq_entityType a \<noteq> ENTITY_TYPE \<or> aq_action a \<noteq> DEAL_APPROVAL_ACTION then Inl (BadRequest ''NOT_A_PROMOTION_APPROVAL'') else Inr a,
           w\<lparr>dw_approvals := st\<rparr>))"

definition decide_tx :: "DealEnv \<Rightarrow> string \<Rightarrow> string \<Rightarrow> string \<Rightarrow> ApprovalDecision \<Rightarrow> string option \<Rightarrow> DealWorld \<Rightarrow> DealWorld http" where
  "decide_tx env userId dealId approvalId decision reason w =
     ebind (load dealId w) (\<lambda>d.
     if de_status d \<noteq> PENDING_APPROVAL \<or> de_approvalId d \<noteq> Some approvalId then Inr w
     else
       let target = (if decision = DecideApproved then DealStatus.APPROVED else DealStatus.REJECTED) in
       ebind (move_deal (de_id d) (\<lambda>x. de_status x = PENDING_APPROVAL \<and> de_approvalId x = Some approvalId)
                (\<lambda>x. x\<lparr>de_status := target, de_statusChangedAt := Some (en_now env), de_statusChangedById := Some userId,
                   de_statusReason := (if target = DealStatus.REJECTED then reason else None)\<rparr>) w) (\<lambda>(n, w).
       Inr (if n = 1 then deal_audit userId (if decision = DecideApproved then ''promotion.deal.approved'' else ''promotion.deal.rejected'') (de_id d) w else w)))"

definition decide_deal :: "DealEnv \<Rightarrow> string \<Rightarrow> string \<Rightarrow> ApprovalDecision \<Rightarrow> body \<Rightarrow> DealWorld \<Rightarrow> unit http \<times> DealWorld" where
  "decide_deal env userId approvalId decision raw w =
     (case cleanReason (field raw ''reason'') True of
        Inl e \<Rightarrow> (Inl e, w)
      | Inr reason \<Rightarrow>
          (case approvalFor env approvalId w of
             (Inl e, w) \<Rightarrow> (Inl e, w)
           | (Inr approval, w) \<Rightarrow>
               (case decide (en_now env) (en_ttl env) userId approvalId decision (the reason) (dw_approvals w) of
                  (Inl e, st) \<Rightarrow> (Inl e, w\<lparr>dw_approvals := st\<rparr>)
                | (Inr _, st) \<Rightarrow>
                    (case decide_tx env userId (aq_entityId approval) approvalId decision reason (w\<lparr>dw_approvals := st\<rparr>) of
                       Inl e \<Rightarrow> (Inl e, w\<lparr>dw_approvals := st\<rparr>)
                     | Inr w2 \<Rightarrow> (Inr (), w2)))))"

text \<open>The action of an execution: one transaction, given the approval as it was claimed.\<close>

definition proposed_field :: "ApprovalRow \<Rightarrow> string \<Rightarrow> jsval" where
  "proposed_field a key = (case aq_proposedState a of Some (JObj kvs) \<Rightarrow> field kvs key | _ \<Rightarrow> JUndefined)"

definition activation_moves :: "int \<Rightarrow> string \<Rightarrow> string \<Rightarrow> string \<Rightarrow> DealStatus \<Rightarrow> Deal \<Rightarrow> DealWorld \<Rightarrow> DealWorld http" where
  "activation_moves now userId approvalId approver target d w =
     ebind (if de_status d = PENDING_APPROVAL
            then move_deal (de_id d) (\<lambda>x. de_status x = PENDING_APPROVAL \<and> de_approvalId x = Some approvalId)
                   (\<lambda>x. x\<lparr>de_status := DealStatus.APPROVED, de_statusChangedAt := Some now, de_statusChangedById := Some approver\<rparr>) w
            else Inr (0, w)) (\<lambda>(_, w).
     ebind (must_move (de_id d) (\<lambda>x. de_status x = DealStatus.APPROVED \<and> de_approvalId x = Some approvalId \<and> de_version x = de_version d)
              (\<lambda>x. x\<lparr>de_status := target, de_activatedAt := Some now, de_activatedById := Some userId, de_statusChangedAt := Some now,
                 de_statusChangedById := Some userId, de_statusReason := None\<rparr>) w) (\<lambda>w.
     Inr (deal_audit userId ''promotion.deal.activated'' (de_id d) w)))"

definition activate_tx :: "(string \<Rightarrow> string) \<Rightarrow> DealEnv \<Rightarrow> string \<Rightarrow> string \<Rightarrow> ApprovalRow \<Rightarrow> DealWorld \<Rightarrow> DealWorld http" where
  "activate_tx sha256 env userId approvalId a w =
     ebind (load (aq_entityId a) w) (\<lambda>d.
     if proposed_field a ''dealId'' \<noteq> JStr (de_id d) \<or> (de_status d \<noteq> DealStatus.APPROVED \<and> de_status d \<noteq> PENDING_APPROVAL) \<or> de_approvalId d \<noteq> Some approvalId
       then Inl (Conflict ''DEAL_NOT_AWAITING_ACTIVATION'')
     else
       let t = termsOf d; fingerprint = dealFingerprint sha256 (de_hotelId d) t in
       if JNum (JInt (de_version d)) \<noteq> proposed_field a ''version'' \<or> JStr fingerprint \<noteq> proposed_field a ''termsFingerprint'' \<or> Some fingerprint \<noteq> de_termsFingerprint d
         then Inl (Conflict ''DEAL_DIFFERS_FROM_APPROVAL'')
       else if has_error (validation env (dw_deals w) d t) then Inl (Conflict ''DEAL_VALIDATION_FAILED'')
       else case en_today env (de_hotelId d) of
         None \<Rightarrow> Inl (Conflict ''HOTEL_TIME_ZONE_INVALID'')
       | Some today \<Rightarrow>
           activation_moves (en_now env) userId approvalId (case aq_decidedById a of None \<Rightarrow> userId | Some u \<Rightarrow> u)
             (if day_before (Some today) (dl_activeFrom t) then SCHEDULED else ACTIVE) d w)"

text \<open>\<open>execute\<close> in its parts: the claim, the action, and the end of the claim.\<close>

definition drop_claim :: "string \<Rightarrow> ApprovalRow list \<Rightarrow> ApprovalRow list" where
  "drop_claim i claims = filter (\<lambda>a. aq_id a \<noteq> i) claims"

definition execute_claim :: "DealEnv \<Rightarrow> string \<Rightarrow> string \<Rightarrow> DealWorld \<Rightarrow> ApprovalRow http \<times> DealWorld" where
  "execute_claim env userId approvalId w =
     (case claim (en_now env) (en_ttl env) userId approvalId DEAL_APPROVAL_ACTION (dw_approvals w) of
        (Inl e, st) \<Rightarrow> (Inl e, w\<lparr>dw_approvals := st\<rparr>)
      | (Inr a, st) \<Rightarrow> (Inr a, w\<lparr>dw_approvals := st, dw_claimed := dw_claimed w @ [a]\<rparr>))"

definition execute_end :: "string \<Rightarrow> string \<Rightarrow> bool \<Rightarrow> DealWorld \<Rightarrow> DealWorld" where
  "execute_end userId approvalId ok w =
     w\<lparr>dw_approvals := (if ok then executed userId approvalId (dw_approvals w) else release userId approvalId (dw_approvals w)),
       dw_claimed := drop_claim approvalId (dw_claimed w)\<rparr>"

definition execute_deal :: "(string \<Rightarrow> string) \<Rightarrow> DealEnv \<Rightarrow> string \<Rightarrow> string \<Rightarrow> DealWorld \<Rightarrow> unit http \<times> DealWorld" where
  "execute_deal sha256 env userId approvalId w0 =
     (case approvalFor env approvalId w0 of
        (Inl e, w) \<Rightarrow> (Inl e, w)
      | (Inr _, w) \<Rightarrow>
          (case execute_claim env userId approvalId w of
             (Inl e, w) \<Rightarrow> (Inl e, w)
           | (Inr a, w) \<Rightarrow>
               (case activate_tx sha256 env userId approvalId a w of
                  Inl e \<Rightarrow> (Inl e, execute_end userId approvalId False w)
                | Inr w \<Rightarrow> (Inr (), execute_end userId approvalId True w))))"

subsection \<open>Lifecycle\<close>

definition toDraft :: "DealEnv \<Rightarrow> string \<Rightarrow> Deal \<Rightarrow> DealWorld \<Rightarrow> DealWorld http" where
  "toDraft env userId d w =
     ebind (must_move (de_id d) (\<lambda>x. de_status x = de_status d \<and> de_version x = de_version d)
              (\<lambda>x. x\<lparr>de_status := DRAFT, de_version := de_version d + 1, de_termsFingerprint := None, de_approvalId := None, de_activatedAt := None,
                 de_activatedById := None, de_statusReason := None, de_statusChangedAt := Some (en_now env), de_statusChangedById := Some userId\<rparr>) w) (\<lambda>w.
     Inr (deal_audit userId ''promotion.deal.returned_to_draft'' (de_id d) w))"

definition withdraw_tx :: "DealEnv \<Rightarrow> string \<Rightarrow> string \<Rightarrow> DealWorld \<Rightarrow> DealWorld http" where
  "withdraw_tx env userId dealId w =
     ebind (load dealId w) (\<lambda>locked. if de_status locked \<noteq> PENDING_APPROVAL then Inr w else toDraft env userId locked w)"

definition withdraw :: "DealEnv \<Rightarrow> string \<Rightarrow> string \<Rightarrow> DealWorld \<Rightarrow> unit http \<times> DealWorld" where
  "withdraw env userId dealId w =
     (case load dealId w of
        Inl e \<Rightarrow> (Inl e, w)
      | Inr d \<Rightarrow>
          (case (de_status d, de_approvalId d) of
             (PENDING_APPROVAL, Some approvalId) \<Rightarrow>
               (case cancel userId approvalId (dw_approvals w) of
                  (Inl e, st) \<Rightarrow> (Inl e, w\<lparr>dw_approvals := st\<rparr>)
                | (Inr _, st) \<Rightarrow>
                    (case withdraw_tx env userId dealId (w\<lparr>dw_approvals := st\<rparr>) of
                       Inl e \<Rightarrow> (Inl e, w\<lparr>dw_approvals := st\<rparr>)
                     | Inr w2 \<Rightarrow> (Inr (), w2)))
           | _ \<Rightarrow> (Inl (Conflict ''DEAL_TRANSITION_NOT_ALLOWED''), w)))"

datatype DealAction = Pause | Resume | Suspend | ReturnToDraft | Archive

definition action_target :: "DealEnv \<Rightarrow> DealAction \<Rightarrow> Deal \<Rightarrow> DealStatus http" where
  "action_target env action d =
     (case action of
        Pause \<Rightarrow> Inr PAUSED
      | Suspend \<Rightarrow> Inr SUSPENDED
      | Archive \<Rightarrow> Inr ARCHIVED
      | ReturnToDraft \<Rightarrow> Inr DRAFT
      | Resume \<Rightarrow>
          (case en_today env (de_hotelId d) of
             None \<Rightarrow> Inl (Conflict ''HOTEL_TIME_ZONE_INVALID'')
           | Some today \<Rightarrow>
               if day_before (day_text (dr_activeTo (de_columns d))) (Some today) then Inl (Conflict ''DEAL_WINDOW_ENDED'')
               else Inr (if day_before (Some today) (day_text (dr_activeFrom (de_columns d))) then SCHEDULED else ACTIVE)))"

fun action_event :: "DealAction \<Rightarrow> string" where
  "action_event Resume = ''promotion.deal.resumed''"
| "action_event Pause = ''promotion.deal.paused''"
| "action_event Suspend = ''promotion.deal.suspended''"
| "action_event _ = ''promotion.deal.archived''"

definition transition_tx :: "DealEnv \<Rightarrow> string \<Rightarrow> string \<Rightarrow> DealAction \<Rightarrow> int option \<Rightarrow> string option \<Rightarrow> DealWorld \<Rightarrow> DealWorld http" where
  "transition_tx env userId dealId action version reason w =
     ebind (load dealId w) (\<lambda>d.
     if version \<noteq> None \<and> version \<noteq> Some (de_version d) then Inl (Conflict ''DEAL_CHANGED'')
     else
       ebind (action_target env action d) (\<lambda>target.
       if de_status d = target then Inr w
       else if \<not> canTransition (de_status d) target then Inl (Conflict ''DEAL_TRANSITION_NOT_ALLOWED'')
       else if target = DRAFT then toDraft env userId d w
       else if action = Resume \<and> has_error (validation env (dw_deals w) d (termsOf d)) then Inl (Conflict ''DEAL_VALIDATION_FAILED'')
       else
         ebind (must_move (de_id d) (\<lambda>x. de_status x = de_status d \<and> de_version x = de_version d)
                  (\<lambda>x. x\<lparr>de_status := target, de_statusReason := (if target = PAUSED \<or> target = SUSPENDED then reason else None),
                     de_statusChangedAt := Some (en_now env), de_statusChangedById := Some userId\<rparr>) w) (\<lambda>w.
         Inr (deal_audit userId (action_event action) (de_id d) w))))"

definition transition :: "DealEnv \<Rightarrow> string \<Rightarrow> string \<Rightarrow> DealAction \<Rightarrow> body \<Rightarrow> DealWorld \<Rightarrow> DealWorld http" where
  "transition env userId dealId action raw w =
     ebind (expectedVersion (field raw ''expectedVersion'') False) (\<lambda>version.
     ebind (cleanReason (field raw ''reason'') (action = Pause \<or> action = Suspend)) (\<lambda>reason.
       transition_tx env userId dealId action version reason w))"

definition reconcile_row :: "DealEnv \<Rightarrow> string \<Rightarrow> Deal \<Rightarrow> (string \<times> DealStatus) list \<times> DealWorld \<Rightarrow> ((string \<times> DealStatus) list \<times> DealWorld) http" where
  "reconcile_row env userId row s =
     (case s of (moved_ids, w) \<Rightarrow>
      let target = effectiveDealStatus (de_status row) (day_text (dr_activeFrom (de_columns row))) (day_text (dr_activeTo (de_columns row))) (en_today env (de_hotelId row)) in
      if target = de_status row \<or> (target \<noteq> ACTIVE \<and> target \<noteq> DealStatus.EXPIRED) \<or> \<not> canTransition (de_status row) target then Inr s
      else
        ebind (move_deal (de_id row) (\<lambda>x. de_status x = de_status row \<and> de_version x = de_version row)
                 (\<lambda>x. x\<lparr>de_status := target, de_statusReason := None, de_statusChangedAt := Some (en_now env), de_statusChangedById := Some userId\<rparr>) w) (\<lambda>(n, w).
        if n \<noteq> 1 then Inr (moved_ids, w)
        else Inr (moved_ids @ [(de_id row, target)],
              deal_audit userId (if target = DealStatus.EXPIRED then ''promotion.deal.expired'' else ''promotion.deal.started'') (de_id row) w)))"

definition reconcile :: "DealEnv \<Rightarrow> string \<Rightarrow> DealWorld \<Rightarrow> ((string \<times> DealStatus) list \<times> DealWorld) http" where
  "reconcile env userId w =
     foldl (\<lambda>r row. ebind r (reconcile_row env userId row)) (Inr ([], w))
       (take RECONCILE_BATCH (js_sort (\<lambda>a b. cmp_text (de_id a) (de_id b))
          (filter (\<lambda>d. de_status d \<in> {SCHEDULED, ACTIVE, PAUSED}) (dw_deals w))))"

end
