(* ===== verification/Deal_Approval.thy ===== *)
theory Deal_Approval
  imports Deal_Lifecycle
begin


text \<open>
  What the deal handlers and the approval service guarantee together: every transaction of either is a step,
  any number of users and calls interleave, and a deal on sale carries exactly the terms that a second
  person approved.
\<close>

subsection \<open>Steps\<close>

text \<open>
  One transaction. The steps over-approximate the handlers: a submission may bind any approval, a decision may
  settle any deal at any time, so every interleaving of the handlers' transactions is a path.
\<close>

inductive deal_step :: "(string \<Rightarrow> string) \<Rightarrow> DealWorld \<Rightarrow> DealWorld \<Rightarrow> bool" for sha256 where
  deal_create: "create_tx sha256 env newId userId hotelId key t w = Inr (d, w') \<Longrightarrow> deal_step sha256 w w'"
| deal_replace: "replace_tx env userId dealId raw version t w = Inr w' \<Longrightarrow> deal_step sha256 w w'"
| deal_bind: "submit_bind env userId dealId version fingerprint approvalId w = Inr w' \<Longrightarrow> deal_step sha256 w w'"
| deal_decide: "decide_tx env userId dealId approvalId decision reason w = Inr w' \<Longrightarrow> deal_step sha256 w w'"
| deal_claim: "deal_step sha256 w (snd (execute_claim env userId approvalId w))"
| deal_activate: "a \<in> set (dw_claimed w) \<Longrightarrow> activate_tx sha256 env userId (aq_id a) a w = Inr w' \<Longrightarrow> deal_step sha256 w w'"
| deal_end: "deal_step sha256 w (execute_end userId approvalId ok w)"
| deal_withdraw: "withdraw_tx env userId dealId w = Inr w' \<Longrightarrow> deal_step sha256 w w'"
| deal_transition: "transition_tx env userId dealId action version reason w = Inr w' \<Longrightarrow> deal_step sha256 w w'"
| deal_reconcile: "reconcile env userId w = Inr (ids, w') \<Longrightarrow> deal_step sha256 w w'"
| deal_approvals: "approval_step (dw_approvals w) st \<Longrightarrow> deal_step sha256 w (w\<lparr>dw_approvals := st\<rparr>)"

definition no_deals :: DealWorld where
  "no_deals = \<lparr>dw_deals = [], dw_approvals = no_approvals, dw_audit = [], dw_claimed = []\<rparr>"

subsection \<open>Moves\<close>

definition on_sale :: "DealStatus \<Rightarrow> bool" where
  "on_sale s \<longleftrightarrow> s \<in> {SCHEDULED, ACTIVE, PAUSED, SUSPENDED, DealStatus.EXPIRED}"

text \<open>A later version of a deal, or the same version with the same terms.\<close>

definition newer :: "Deal \<Rightarrow> Deal \<Rightarrow> bool" where
  "newer d d' \<longleftrightarrow> de_id d' = de_id d \<and> de_hotelId d' = de_hotelId d \<and> de_version d \<le> de_version d'
     \<and> (de_version d' = de_version d \<longrightarrow> de_columns d' = de_columns d \<and> de_ratePlans d' = de_ratePlans d)"

lemma newer_refl [simp]: "newer d d"
  by (simp add: newer_def)

lemma newer_trans: "newer a b \<Longrightarrow> newer b c \<Longrightarrow> newer a c"
  unfolding newer_def by (metis order_antisym order_trans)

text \<open>One deal replaced by a newer one the database accepts, the rest of the world aside.\<close>

definition moved :: "DealWorld \<Rightarrow> Deal \<Rightarrow> Deal \<Rightarrow> DealWorld \<Rightarrow> bool" where
  "moved w d d' w' \<longleftrightarrow> d \<in> set (dw_deals w) \<and> newer d d' \<and> guard_allows d d' \<and> lifecycle_check d'
     \<and> dw_deals w' = map (\<lambda>x. if de_id x = de_id d then d' else x) (dw_deals w)
     \<and> dw_approvals w' = dw_approvals w \<and> dw_claimed w' = dw_claimed w"

text \<open>The world apart from the audit trail.\<close>

definition same_world :: "DealWorld \<Rightarrow> DealWorld \<Rightarrow> bool" where
  "same_world w w' \<longleftrightarrow> dw_deals w' = dw_deals w \<and> dw_approvals w' = dw_approvals w \<and> dw_claimed w' = dw_claimed w"

lemma same_world_refl [simp]: "same_world w w"
  by (simp add: same_world_def)

lemma deal_audit_simps [simp]:
  "dw_deals (deal_audit u a i w) = dw_deals w" "dw_approvals (deal_audit u a i w) = dw_approvals w" "dw_claimed (deal_audit u a i w) = dw_claimed w"
  "find_deal j (deal_audit u a i w) = find_deal j w"
  by (simp_all add: deal_audit_def find_deal_def)

lemma find_deal_Some: "find_deal i w = Some d \<Longrightarrow> d \<in> set (dw_deals w) \<and> de_id d = i"
  by (auto simp: find_deal_def find_Some_iff)

lemma load_Inr: "load i w = Inr d \<Longrightarrow> find_deal (de_id d) w = Some d"
  using find_deal_Some by (auto simp: load_def split: if_splits option.splits)

lemma move_deal_Inr:
  assumes "move_deal i P f w = Inr (n, w')"
  shows "(n = 0 \<and> w' = w)
    \<or> (n = 1 \<and> (\<exists>d. find_deal i w = Some d \<and> P d \<and> guard_allows d (f d) \<and> lifecycle_check (f d) \<and> w' = put_deal (f d) w))"
  using assms by (auto simp: move_deal_def split: option.splits if_splits)

lemma must_move_Inr:
  assumes "must_move i P f w = Inr w'"
  obtains d where "find_deal i w = Some d" "P d" "guard_allows d (f d)" "lifecycle_check (f d)" "w' = put_deal (f d) w"
proof -
  obtain n where "move_deal i P f w = Inr (n, w')" "n = 1"
    using assms by (auto simp: must_move_def ebind_Inr_iff split: if_splits)
  then show ?thesis using that move_deal_Inr by fastforce
qed

lemma moved_put:
  assumes "find_deal i w = Some d" "guard_allows d d'" "lifecycle_check d'" "newer d d'" "de_id d' = de_id d"
  shows "moved w d d' (put_deal d' w)" "moved w d d' (deal_audit u a j (put_deal d' w))"
  using assms find_deal_Some [OF assms(1)] by (simp_all add: moved_def put_deal_def)

subsection \<open>The invariant\<close>

definition proposes :: "(string \<Rightarrow> string) \<Rightarrow> ApprovalRow \<Rightarrow> Deal \<Rightarrow> bool" where
  "proposes sha256 r d \<longleftrightarrow> proposed_field r ''dealId'' = JStr (de_id d) \<and> proposed_field r ''version'' = JNum (JInt (de_version d))
     \<and> proposed_field r ''termsFingerprint'' = JStr (dealFingerprint sha256 (de_hotelId d) (termsOf d))"

text \<open>A second person approved the very terms the deal carries.\<close>

definition approved_terms :: "(string \<Rightarrow> string) \<Rightarrow> ApprovalStore \<Rightarrow> Deal \<Rightarrow> bool" where
  "approved_terms sha256 st d \<longleftrightarrow>
     (\<exists>r \<in> set (as_rows st). de_approvalId d = Some (aq_id r) \<and> aq_action r = DEAL_APPROVAL_ACTION
       \<and> aq_status r \<in> {ApprovalStatus.APPROVED, EXECUTED, ApprovalStatus.EXPIRED}
       \<and> (\<exists>u. aq_decidedById r = Some u \<and> u \<noteq> aq_requestedById r) \<and> proposes sha256 r d)"

definition deal_ok :: "(string \<Rightarrow> string) \<Rightarrow> ApprovalStore \<Rightarrow> Deal \<Rightarrow> bool" where
  "deal_ok sha256 st d \<longleftrightarrow>
     (if on_sale (de_status d) then approved_terms sha256 st d
      else de_status d \<noteq> ARCHIVED \<longrightarrow> de_activatedAt d = None)"

text \<open>A claim that is running was approved by a second person and is still the approval of its row.\<close>

definition claim_ok :: "ApprovalStore \<Rightarrow> ApprovalRow \<Rightarrow> bool" where
  "claim_ok st a \<longleftrightarrow> aq_status a = EXECUTED \<and> approval_wf a \<and> aq_action a = DEAL_APPROVAL_ACTION \<and> (\<exists>r \<in> set (as_rows st). evolves a r)"

definition deals_inv :: "(string \<Rightarrow> string) \<Rightarrow> DealWorld \<Rightarrow> bool" where
  "deals_inv sha256 w \<longleftrightarrow> approvals_wf (dw_approvals w) \<and> distinct (map de_id (dw_deals w))
     \<and> (\<forall>d \<in> set (dw_deals w). deal_ok sha256 (dw_approvals w) d) \<and> (\<forall>a \<in> set (dw_claimed w). claim_ok (dw_approvals w) a)"

lemma approved_terms_extends:
  assumes "approved_terms sha256 st d" "extends st st'"
  shows "approved_terms sha256 st' d"
proof -
  obtain r where r: "r \<in> set (as_rows st)" "de_approvalId d = Some (aq_id r)" "aq_action r = DEAL_APPROVAL_ACTION"
      "aq_status r \<in> {ApprovalStatus.APPROVED, EXECUTED, ApprovalStatus.EXPIRED}" "\<exists>u. aq_decidedById r = Some u \<and> u \<noteq> aq_requestedById r"
      "proposes sha256 r d"
    using assms(1) by (auto simp: approved_terms_def)
  obtain r' where r': "r' \<in> set (as_rows st')" "evolves r r'" using assms(2) r(1) by (auto simp: extends_def)
  then have "aq_status r' \<in> {ApprovalStatus.APPROVED, EXECUTED, ApprovalStatus.EXPIRED}" "aq_id r' = aq_id r" "aq_action r' = aq_action r"
      "aq_requestedById r' = aq_requestedById r" "aq_proposedState r' = aq_proposedState r" "aq_decidedById r' = aq_decidedById r"
    using r(4) by (auto simp: evolves_def decision_of_def request_of_def)
  then show ?thesis using r(2,3,5,6) r'(1) unfolding approved_terms_def proposes_def proposed_field_def by metis
qed

lemma claim_ok_extends: "claim_ok st a \<Longrightarrow> extends st st' \<Longrightarrow> claim_ok st' a"
  unfolding claim_ok_def extends_def by (meson evolves_trans)

lemma deals_inv_approvals:
  assumes "deals_inv sha256 w" "approvals_wf st" "extends (dw_approvals w) st"
  shows "deals_inv sha256 (w\<lparr>dw_approvals := st\<rparr>)"
  using assms approved_terms_extends claim_ok_extends by (auto simp: deals_inv_def deal_ok_def)

lemma deals_inv_moved:
  assumes "deals_inv sha256 w" "moved w d d' w'" "deal_ok sha256 (dw_approvals w) d'"
  shows "deals_inv sha256 w'"
proof -
  have ids: "map de_id (dw_deals w') = map de_id (dw_deals w)"
    using assms(2) by (auto simp: moved_def newer_def)
  have "deal_ok sha256 (dw_approvals w) x" if "x \<in> set (dw_deals w')" for x
    using assms that by (auto simp: moved_def deals_inv_def split: if_splits)
  moreover have "distinct (map de_id (dw_deals w'))" unfolding ids using assms(1) by (simp add: deals_inv_def)
  ultimately show ?thesis using assms(1,2) by (simp add: deals_inv_def moved_def)
qed

lemma deals_inv_same: "deals_inv sha256 w \<Longrightarrow> same_world w w' \<Longrightarrow> deals_inv sha256 w'"
  by (simp add: deals_inv_def same_world_def)

text \<open>On sale before and after: the approval stays the deal's.\<close>

lemma deal_ok_keep:
  assumes "deal_ok sha256 st d" "on_sale (de_status d)" "de_id d' = de_id d" "de_hotelId d' = de_hotelId d" "de_columns d' = de_columns d"
    "de_ratePlans d' = de_ratePlans d" "de_version d' = de_version d" "de_approvalId d' = de_approvalId d"
    "on_sale (de_status d') \<or> de_status d' = ARCHIVED"
  shows "deal_ok sha256 st d'"
  using assms by (auto simp: deal_ok_def approved_terms_def proposes_def termsOf_def on_sale_def)


subsection \<open>Every step is sound\<close>

definition deals_newer :: "DealWorld \<Rightarrow> DealWorld \<Rightarrow> bool" where
  "deals_newer w w' \<longleftrightarrow> (\<forall>d \<in> set (dw_deals w). \<exists>d' \<in> set (dw_deals w'). newer d d')"

definition sound :: "(string \<Rightarrow> string) \<Rightarrow> DealWorld \<Rightarrow> DealWorld \<Rightarrow> bool" where
  "sound sha256 w w' \<longleftrightarrow> (deals_inv sha256 w \<longrightarrow> deals_inv sha256 w' \<and> deals_newer w w')"

lemma deals_newer_refl: "dw_deals w' = dw_deals w \<Longrightarrow> deals_newer w w'"
  unfolding deals_newer_def by (metis newer_refl)

lemma sound_trans: "sound sha256 a b \<Longrightarrow> sound sha256 b c \<Longrightarrow> sound sha256 a c"
  unfolding sound_def deals_newer_def by (meson newer_trans)

lemma sound_same: "same_world w w' \<Longrightarrow> sound sha256 w w'"
  by (simp add: sound_def deals_inv_same deals_newer_refl same_world_def deals_inv_def)

lemma sound_moved:
  assumes "moved w d d' w'" "deals_inv sha256 w \<Longrightarrow> deal_ok sha256 (dw_approvals w) d \<Longrightarrow> deal_ok sha256 (dw_approvals w) d'"
  shows "sound sha256 w w'"
  unfolding sound_def
proof (intro impI conjI)
  assume inv: "deals_inv sha256 w"
  have d: "d \<in> set (dw_deals w)" using assms(1) by (simp add: moved_def)
  then have "deal_ok sha256 (dw_approvals w) d" using inv by (simp add: deals_inv_def)
  then show "deals_inv sha256 w'" using deals_inv_moved [OF inv assms(1)] assms(2) inv by blast
  have eq: "x = d" if "x \<in> set (dw_deals w)" "de_id x = de_id d" for x
    using inv d that by (auto simp: deals_inv_def distinct_map dest: inj_onD)
  show "deals_newer w w'"
    unfolding deals_newer_def
  proof
    fix x
    assume x: "x \<in> set (dw_deals w)"
    have "(if de_id x = de_id d then d' else x) \<in> set (dw_deals w')"
      using assms(1) x by (auto simp: moved_def)
    moreover have "newer x (if de_id x = de_id d then d' else x)"
      using eq [OF x] assms(1) by (auto simp: moved_def)
    ultimately show "\<exists>x' \<in> set (dw_deals w'). newer x x'" by blast
  qed
qed

lemma replace_sound: "replace_tx env userId dealId raw version t w = Inr w' \<Longrightarrow> sound sha256 w w'"
proof -
  assume r: "replace_tx env userId dealId raw version t w = Inr w'"
  let ?f = "\<lambda>x. (with_terms t x)\<lparr>de_version := version + 1\<rparr>"
  obtain d w1 where d: "find_deal (de_id d) w = Some d" "de_status d = DRAFT" "de_version d = version"
      and m: "must_move (de_id d) (\<lambda>x. de_status x = DRAFT \<and> de_version x = version) ?f w = Inr w1"
      and w': "w' = deal_audit userId ''promotion.deal.updated'' (de_id d) w1"
    using r by (auto simp: replace_tx_def ebind_Inr_iff dest!: load_Inr split: if_splits)
  from m d(1) have g: "guard_allows d (?f d)" "lifecycle_check (?f d)" "w1 = put_deal (?f d) w"
    by (auto elim!: must_move_Inr)
  have "moved w d (?f d) w'"
    unfolding w' g(3) by (rule moved_put [OF d(1) g(1,2)]) (use d in \<open>simp_all add: newer_def with_terms_def\<close>)
  then show ?thesis by (rule sound_moved) (simp add: deal_ok_def with_terms_def d(2) on_sale_def)
qed

lemma bind_sound: "submit_bind env userId dealId version fingerprint approvalId w = Inr w' \<Longrightarrow> sound sha256 w w'"
proof -
  assume r: "submit_bind env userId dealId version fingerprint approvalId w = Inr w'"
  let ?f = "\<lambda>x. x\<lparr>de_status := PENDING_APPROVAL, de_termsFingerprint := Some fingerprint, de_approvalId := Some approvalId,
    de_statusChangedAt := Some (en_now env), de_statusChangedById := Some userId, de_statusReason := None\<rparr>"
  show ?thesis
  proof (cases "w' = w")
    case True
    then show ?thesis by (simp add: sound_same)
  next
    case False
    then obtain d w1 where d: "find_deal (de_id d) w = Some d"
        and m: "must_move (de_id d) (\<lambda>x. de_status x = DRAFT \<and> de_version x = version) ?f w = Inr w1"
        and w': "w' = deal_audit userId ''promotion.deal.submitted'' (de_id d) w1"
      using r by (auto simp: submit_bind_def ebind_Inr_iff dest!: load_Inr split: if_splits)
    from m d have g: "de_status d = DRAFT" "guard_allows d (?f d)" "lifecycle_check (?f d)" "w1 = put_deal (?f d) w"
      by (auto elim!: must_move_Inr)
    have "moved w d (?f d) w'"
      unfolding w' g(4) by (rule moved_put [OF d g(2,3)]) (simp_all add: newer_def)
    then show ?thesis by (rule sound_moved) (simp add: deal_ok_def g(1) on_sale_def)
  qed
qed

lemma decide_sound: "decide_tx env userId dealId approvalId decision reason w = Inr w' \<Longrightarrow> sound sha256 w w'"
proof -
  assume r: "decide_tx env userId dealId approvalId decision reason w = Inr w'"
  let ?t = "if decision = DecideApproved then DealStatus.APPROVED else DealStatus.REJECTED"
  let ?f = "\<lambda>x. x\<lparr>de_status := ?t, de_statusChangedAt := Some (en_now env), de_statusChangedById := Some userId,
    de_statusReason := (if ?t = DealStatus.REJECTED then reason else None)\<rparr>"
  show ?thesis
  proof (cases "same_world w w'")
    case True
    then show ?thesis by (rule sound_same)
  next
    case False
    obtain d where d: "load dealId w = Inr d" using r by (auto simp: decide_tx_def ebind_Inr_iff)
    have st: "de_status d = PENDING_APPROVAL" using r d False by (auto simp: decide_tx_def split: if_splits)
    then obtain n w1 where m: "move_deal (de_id d) (\<lambda>x. de_status x = PENDING_APPROVAL \<and> de_approvalId x = Some approvalId) ?f w = Inr (n, w1)"
        and w': "dw_deals w' = dw_deals w1" "dw_approvals w' = dw_approvals w1" "dw_claimed w' = dw_claimed w1"
      using r d False by (auto simp: decide_tx_def ebind_Inr_iff Let_def split: if_splits)
    have f: "find_deal (de_id d) w = Some d" using d by (rule load_Inr)
    have "\<not> (n = 0 \<and> w1 = w)" using False w' by (auto simp: same_world_def)
    then have g: "guard_allows d (?f d)" "lifecycle_check (?f d)" "w1 = put_deal (?f d) w"
      using move_deal_Inr [OF m] f by auto
    have "moved w d (?f d) w1"
      unfolding g(3) by (rule moved_put [OF f g(1,2)]) (simp_all add: newer_def)
    then have "moved w d (?f d) w'" using w' by (simp add: moved_def)
    then show ?thesis by (rule sound_moved) (simp add: deal_ok_def st on_sale_def)
  qed
qed

lemma toDraft_sound: "toDraft env userId d w = Inr w' \<Longrightarrow> find_deal (de_id d) w = Some d \<Longrightarrow> sound sha256 w w'"
proof -
  assume r: "toDraft env userId d w = Inr w'" and d: "find_deal (de_id d) w = Some d"
  let ?f = "\<lambda>x. x\<lparr>de_status := DRAFT, de_version := de_version d + 1, de_termsFingerprint := None, de_approvalId := None, de_activatedAt := None,
    de_activatedById := None, de_statusReason := None, de_statusChangedAt := Some (en_now env), de_statusChangedById := Some userId\<rparr>"
  obtain w1 where m: "must_move (de_id d) (\<lambda>x. de_status x = de_status d \<and> de_version x = de_version d) ?f w = Inr w1"
      and w': "w' = deal_audit userId ''promotion.deal.returned_to_draft'' (de_id d) w1"
    using r by (auto simp: toDraft_def ebind_Inr_iff)
  from m d have g: "guard_allows d (?f d)" "lifecycle_check (?f d)" "w1 = put_deal (?f d) w"
    by (auto elim!: must_move_Inr)
  have "moved w d (?f d) w'"
    unfolding w' g(3) by (rule moved_put [OF d g(1,2)]) (simp_all add: newer_def)
  then show ?thesis by (rule sound_moved) (simp add: deal_ok_def on_sale_def)
qed

lemma withdraw_sound: "withdraw_tx env userId dealId w = Inr w' \<Longrightarrow> sound sha256 w w'"
  by (auto simp: withdraw_tx_def ebind_Inr_iff sound_same dest!: load_Inr intro: toDraft_sound split: if_splits)

text \<open>A lifecycle move that changes only the status: from a deal on sale, or to a status that is not on sale.\<close>

lemma status_move:
  assumes "find_deal (de_id d) w = Some d" "guard_allows d d'" "lifecycle_check d'"
    and f: "d' = d\<lparr>de_status := target, de_statusReason := reason, de_statusChangedAt := t, de_statusChangedById := u\<rparr>"
    and from_sale: "on_sale (de_status d) \<or> target \<in> {ARCHIVED, SCHEDULED, ACTIVE}"
    and to_sale: "on_sale target \<or> target = ARCHIVED"
    and w': "dw_deals w' = dw_deals (put_deal d' w)" "dw_approvals w' = dw_approvals w" "dw_claimed w' = dw_claimed w"
  shows "sound sha256 w w'"
proof -
  have "moved w d d' (put_deal d' w)"
    using assms(1-3) by (intro moved_put) (simp_all add: f newer_def)
  then have m: "moved w d d' w'" using w' by (simp add: moved_def put_deal_def)
  show ?thesis
  proof (rule sound_moved [OF m])
    assume ok: "deal_ok sha256 (dw_approvals w) d"
    show "deal_ok sha256 (dw_approvals w) d'"
    proof (cases "on_sale (de_status d)")
      case True
      then show ?thesis by (rule deal_ok_keep [OF ok]) (use to_sale in \<open>simp_all add: f\<close>)
    next
      case False
      then consider "target = ARCHIVED" | "target \<in> {SCHEDULED, ACTIVE}" "on_sale target" using from_sale by (auto simp: on_sale_def)
      then show ?thesis
      proof cases
        case 1
        then show ?thesis by (simp add: deal_ok_def f on_sale_def)
      next
        case 2
        then have "de_activatedAt d \<noteq> None" using assms(3) by (auto simp: lifecycle_check_def f)
        moreover have "de_status d \<noteq> ARCHIVED"
          using assms(2) 2(1) by (auto simp: guard_allows_def f canTransition_def)
        ultimately show ?thesis using ok False by (simp add: deal_ok_def)
      qed
    qed
  qed
qed

lemma action_target_range:
  "action_target env action d = Inr target \<Longrightarrow> target \<in> {PAUSED, SUSPENDED, ARCHIVED, DRAFT, SCHEDULED, ACTIVE}"
  by (auto simp: action_target_def split: DealAction.splits option.splits if_splits)

lemma transition_sound: "transition_tx env userId dealId action version reason w = Inr w' \<Longrightarrow> sound sha256 w w'"
proof -
  assume r: "transition_tx env userId dealId action version reason w = Inr w'"
  obtain d target where d: "load dealId w = Inr d" and t: "action_target env action d = Inr target"
    using r by (auto simp: transition_tx_def ebind_Inr_iff split: if_splits)
  have f: "find_deal (de_id d) w = Some d" using d by (rule load_Inr)
  let ?f = "\<lambda>x. x\<lparr>de_status := target, de_statusReason := (if target = PAUSED \<or> target = SUSPENDED then reason else None),
    de_statusChangedAt := Some (en_now env), de_statusChangedById := Some userId\<rparr>"
  consider "w' = w" | "target = DRAFT" "toDraft env userId d w = Inr w'"
    | w1 where "target \<noteq> DRAFT" "canTransition (de_status d) target"
        "must_move (de_id d) (\<lambda>x. de_status x = de_status d \<and> de_version x = de_version d) ?f w = Inr w1"
        "w' = deal_audit userId (action_event action) (de_id d) w1"
    using r d t by (auto simp: transition_tx_def ebind_Inr_iff split: if_splits)
  then show ?thesis
  proof cases
    case 1
    then show ?thesis by (simp add: sound_same)
  next
    case 2
    then show ?thesis using toDraft_sound f by blast
  next
    case 3
    from 3(3) f have g: "guard_allows d (?f d)" "lifecycle_check (?f d)" "w1 = put_deal (?f d) w"
      by (auto elim!: must_move_Inr)
    have target: "target \<in> {PAUSED, SUSPENDED, ARCHIVED, SCHEDULED, ACTIVE}" using action_target_range [OF t] 3(1) by auto
    moreover have "on_sale (de_status d)" if "target \<in> {PAUSED, SUSPENDED}"
      using 3(2) that by (cases "de_status d") (auto simp: canTransition_def on_sale_def)
    ultimately show ?thesis
      by (intro status_move [OF f g(1,2)]) (auto simp: on_sale_def 3(4) g(3) put_deal_def)
  qed
qed

lemma reconcile_row_sound:
  assumes "reconcile_row env userId row (ids, w) = Inr (ids', w')"
  shows "sound sha256 w w'"
proof -
  let ?t = "effectiveDealStatus (de_status row) (day_text (dr_activeFrom (de_columns row))) (day_text (dr_activeTo (de_columns row))) (en_today env (de_hotelId row))"
  let ?P = "\<lambda>x. de_status x = de_status row \<and> de_version x = de_version row"
  let ?f = "\<lambda>x. x\<lparr>de_status := ?t, de_statusReason := None, de_statusChangedAt := Some (en_now env), de_statusChangedById := Some userId\<rparr>"
  show ?thesis
  proof (cases "?t = de_status row \<or> (?t \<noteq> ACTIVE \<and> ?t \<noteq> DealStatus.EXPIRED) \<or> \<not> canTransition (de_status row) ?t")
    case True
    then show ?thesis using assms by (simp add: reconcile_row_def Let_def sound_same)
  next
    case False
    then obtain n w1 where m: "move_deal (de_id row) ?P ?f w = Inr (n, w1)"
        and w': "w' = w1 \<or> (\<exists>a. w' = deal_audit userId a (de_id row) w1)"
      using assms by (auto simp: reconcile_row_def Let_def ebind_Inr_iff split: if_splits)
    have s1: "sound sha256 w w1"
      using move_deal_Inr [OF m]
    proof (elim disjE conjE exE)
      assume "w1 = w"
      then show ?thesis by (simp add: sound_same)
    next
      fix d
      assume d: "find_deal (de_id row) w = Some d" "de_status d = de_status row" "guard_allows d (?f d)" "lifecycle_check (?f d)" "w1 = put_deal (?f d) w"
      then have f: "find_deal (de_id d) w = Some d" using find_deal_Some by fastforce
      have "de_status d \<in> {ACTIVE, SCHEDULED, PAUSED}"
        using False d(2) by (auto simp: effectiveDealStatus_def split: option.splits if_splits)
      then show ?thesis
        using False by (intro status_move [OF f d(3,4)]) (auto simp: on_sale_def d(5) put_deal_def)
    qed
    moreover have "sound sha256 w1 w'" using w' by (auto simp: same_world_def intro: sound_same)
    ultimately show ?thesis by (rule sound_trans)
  qed
qed

lemma reconcile_sound: "reconcile env userId w = Inr (ids, w') \<Longrightarrow> sound sha256 w w'"
proof -
  have stop: "foldl (\<lambda>r row. ebind r (reconcile_row env userId row)) (Inl e) rows = Inl e" for e rows
    by (induction rows) simp_all
  have "sound sha256 (snd s) w'" if "foldl (\<lambda>r row. ebind r (reconcile_row env userId row)) (Inr s) rows = Inr (ids, w')" for rows s
    using that
  proof (induction rows arbitrary: s)
    case Nil
    then show ?case by (simp add: sound_same)
  next
    case (Cons row rows)
    show ?case
    proof (cases "reconcile_row env userId row s")
      case (Inl e)
      then show ?thesis using Cons.prems by (simp add: stop)
    next
      case (Inr s')
      then have "sound sha256 (snd s) (snd s')"
        by (cases s; cases s') (auto intro: reconcile_row_sound)
      moreover have "sound sha256 (snd s') w'" using Cons Inr by simp
      ultimately show ?thesis by (rule sound_trans)
    qed
  qed
  then show "reconcile env userId w = Inr (ids, w') \<Longrightarrow> sound sha256 w w'" by (fastforce simp: reconcile_def)
qed

lemma create_sound: "create_tx sha256 env newId userId hotelId key t w = Inr (d, w') \<Longrightarrow> sound sha' w w'"
proof -
  assume r: "create_tx sha256 env newId userId hotelId key t w = Inr (d, w')"
  show ?thesis
  proof (cases "w' = w")
    case True
    then show ?thesis by (simp add: sound_same)
  next
    case False
    then have w': "dw_deals w' = dw_deals w @ [new_deal newId hotelId userId key t]" "dw_approvals w' = dw_approvals w" "dw_claimed w' = dw_claimed w"
        and fresh: "\<forall>x \<in> set (dw_deals w). de_id x \<noteq> newId"
      using r by (auto simp: create_tx_def ebind_Inr_iff Let_def list_ex_iff split: if_splits option.splits)
    have "deal_ok sha' (dw_approvals w) (new_deal newId hotelId userId key t)" by (simp add: deal_ok_def new_deal_def on_sale_def)
    moreover have "de_id (new_deal newId hotelId userId key t) = newId" by (simp add: new_deal_def)
    ultimately show ?thesis using w' fresh
      by (auto simp: sound_def deals_inv_def deals_newer_def intro: newer_refl)
  qed
qed

lemma approvals_sound: "approval_step (dw_approvals w) st \<Longrightarrow> sound sha256 w (w\<lparr>dw_approvals := st\<rparr>)"
proof -
  assume step: "approval_step (dw_approvals w) st"
  have "approvals_wf st \<and> extends (dw_approvals w) st" if "deals_inv sha256 w"
    using approval_step_sound [OF step] that by (simp add: deals_inv_def)
  then show ?thesis using deals_inv_approvals by (auto simp: sound_def deals_newer_refl)
qed

lemma claim_sound: "sound sha256 w (snd (execute_claim env userId approvalId w))"
proof -
  obtain c st where c: "claim (en_now env) (en_ttl env) userId approvalId DEAL_APPROVAL_ACTION (dw_approvals w) = (c, st)" by fastforce
  have step: "approval_step (dw_approvals w) st"
    using step_claim [of "dw_approvals w" "en_now env" "en_ttl env" userId approvalId DEAL_APPROVAL_ACTION] by (simp add: c)
  note s = approvals_sound [OF step, of sha256]
  show ?thesis
  proof (cases c)
    case (Inl e)
    then show ?thesis using s by (simp add: execute_claim_def c)
  next
    case (Inr a)
    let ?w = "w\<lparr>dw_approvals := st, dw_claimed := dw_claimed w @ [a]\<rparr>"
    have "deals_inv sha256 ?w \<and> deals_newer w ?w" if inv: "deals_inv sha256 w"
    proof -
      have i: "deals_inv sha256 (w\<lparr>dw_approvals := st\<rparr>)" using s inv by (simp add: sound_def)
      obtain r where r: "aq_action r = DEAL_APPROVAL_ACTION" "a = r\<lparr>aq_status := EXECUTED, aq_executedById := Some userId, aq_executedAt := Some (en_now env)\<rparr>"
          and f: "find_approval approvalId st = Some a"
        using c Inr by (auto elim: claim_Inr)
      have "a \<in> set (as_rows st)" using f by (auto simp: find_approval_def find_Some_iff)
      moreover have "approval_wf a" using i calculation by (auto simp: deals_inv_def approvals_wf_def list_all_iff)
      ultimately have "claim_ok st a" using r by (auto simp: claim_ok_def intro: evolves_refl)
      then show ?thesis using i by (simp add: deals_inv_def deals_newer_refl)
    qed
    then show ?thesis using Inr by (simp add: sound_def execute_claim_def c)
  qed
qed

lemma end_sound: "sound sha256 w (execute_end userId approvalId ok w)"
proof -
  let ?st = "if ok then executed userId approvalId (dw_approvals w) else release userId approvalId (dw_approvals w)"
  have "approval_step (dw_approvals w) ?st" by (simp add: step_executed step_release)
  then have "sound sha256 w (w\<lparr>dw_approvals := ?st\<rparr>)" by (rule approvals_sound)
  then show ?thesis by (auto simp: sound_def execute_end_def deals_inv_def drop_claim_def deals_newer_def)
qed

text \<open>The two moves of an activation, and what it checked before them.\<close>

lemma find_put: "find_deal (de_id d) w = Some x \<Longrightarrow> find_deal (de_id d) (put_deal d w) = Some d"
proof -
  have "find (\<lambda>y. de_id y = de_id d) xs = Some x \<Longrightarrow> find (\<lambda>y. de_id y = de_id d) (map (\<lambda>x. if de_id x = de_id d then d else x) xs) = Some d" for xs
    by (induction xs) auto
  then show "find_deal (de_id d) w = Some x \<Longrightarrow> find_deal (de_id d) (put_deal d w) = Some d"
    by (simp add: find_deal_def put_deal_def)
qed

lemma activation_move:
  assumes d: "find_deal (de_id d) w = Some d" "de_status d = DealStatus.APPROVED" "de_approvalId d = Some (aq_id a)"
    and ok: "deals_inv sha256 w \<Longrightarrow> claim_ok (dw_approvals w) a" and pro: "proposes sha256 a d" and target: "target \<in> {SCHEDULED, ACTIVE}"
    and m: "must_move (de_id d) (\<lambda>x. de_status x = DealStatus.APPROVED \<and> de_approvalId x = Some (aq_id a) \<and> de_version x = de_version d)
      (\<lambda>x. x\<lparr>de_status := target, de_activatedAt := Some now, de_activatedById := Some userId, de_statusChangedAt := Some now,
         de_statusChangedById := Some userId, de_statusReason := None\<rparr>) w = Inr w'"
  shows "sound sha256 w w'"
proof -
  define d' where "d' = d\<lparr>de_status := target, de_activatedAt := Some now, de_activatedById := Some userId, de_statusChangedAt := Some now,
    de_statusChangedById := Some userId, de_statusReason := None\<rparr>"
  have g: "guard_allows d d'" "lifecycle_check d'" "w' = put_deal d' w"
    using m d(1) by (auto simp: d'_def elim!: must_move_Inr)
  have "moved w d d' w'" unfolding g(3) by (rule moved_put [OF d(1) g(1,2)]) (simp_all add: d'_def newer_def)
  then show ?thesis
  proof (rule sound_moved)
    assume inv: "deals_inv sha256 w"
    obtain r where r: "r \<in> set (as_rows (dw_approvals w))" "evolves a r" and a: "aq_status a = EXECUTED" "approval_wf a" "aq_action a = DEAL_APPROVAL_ACTION"
      using ok [OF inv] by (auto simp: claim_ok_def)
    from r(2) a(1) have e: "aq_status r \<in> {ApprovalStatus.APPROVED, EXECUTED, ApprovalStatus.EXPIRED}" "aq_id r = aq_id a" "aq_action r = aq_action a"
        "aq_requestedById r = aq_requestedById a" "aq_proposedState r = aq_proposedState a" "aq_decidedById r = aq_decidedById a"
      by (auto simp: evolves_def request_of_def decision_of_def)
    obtain u where u: "aq_decidedById a = Some u" "u \<noteq> aq_requestedById a" using a(1,2) by (auto simp: approval_wf_def)
    have "proposes sha256 r d'" using pro e(5) by (simp add: proposes_def proposed_field_def d'_def termsOf_def)
    then have "approved_terms sha256 (dw_approvals w) d'"
      using r(1) e u d(3) a(3) by (auto simp: approved_terms_def d'_def intro!: bexI [of _ r])
    then show "deal_ok sha256 (dw_approvals w) d'" using target by (auto simp: deal_ok_def d'_def on_sale_def)
  qed
qed

lemma activate_sound:
  assumes "a \<in> set (dw_claimed w)" "activate_tx sha256 env userId (aq_id a) a w = Inr w'"
  shows "sound sha256 w w'"
proof -
  obtain d where l: "load (aq_entityId a) w = Inr d" using assms(2) by (auto simp: activate_tx_def ebind_Inr_iff)
  have f: "find_deal (de_id d) w = Some d" using l by (rule load_Inr)
  obtain target approver where st: "de_status d \<in> {PENDING_APPROVAL, DealStatus.APPROVED}" and ap: "de_approvalId d = Some (aq_id a)"
    and pro: "proposes sha256 a d" and target: "target \<in> {SCHEDULED, ACTIVE}"
    and moves: "activation_moves (en_now env) userId (aq_id a) approver target d w = Inr w'"
    using assms(2) l
    by (cases "en_today env (de_hotelId d)") (auto simp: activate_tx_def Let_def proposes_def split: if_splits)
  let ?f1 = "\<lambda>x. x\<lparr>de_status := DealStatus.APPROVED, de_statusChangedAt := Some (en_now env), de_statusChangedById := Some approver\<rparr>"
  obtain n w1 w2 where
      m1: "(if de_status d = PENDING_APPROVAL
        then move_deal (de_id d) (\<lambda>x. de_status x = PENDING_APPROVAL \<and> de_approvalId x = Some (aq_id a)) ?f1 w else Inr (0, w)) = Inr (n, w1)"
    and m2: "must_move (de_id d) (\<lambda>x. de_status x = DealStatus.APPROVED \<and> de_approvalId x = Some (aq_id a) \<and> de_version x = de_version d)
        (\<lambda>x. x\<lparr>de_status := target, de_activatedAt := Some (en_now env), de_activatedById := Some userId, de_statusChangedAt := Some (en_now env),
           de_statusChangedById := Some userId, de_statusReason := None\<rparr>) w1 = Inr w2"
    and w': "w' = deal_audit userId ''promotion.deal.activated'' (de_id d) w2"
    using moves by (auto simp: activation_moves_def ebind_Inr_iff simp del: if_split)
  have claim: "claim_ok (dw_approvals w) a" if "deals_inv sha256 w" using that assms(1) by (simp add: deals_inv_def)
  have s2: "sound sha256 w2 w'" by (simp add: w' sound_same same_world_def)
  show ?thesis
  proof (cases "de_status d = PENDING_APPROVAL")
    case False
    then have "w1 = w" "de_status d = DealStatus.APPROVED" using m1 st by auto
    then have "sound sha256 w w2" using activation_move [OF f _ ap claim pro target] m2 by blast
    then show ?thesis using s2 sound_trans by blast
  next
    case True
    then have mv: "move_deal (de_id d) (\<lambda>x. de_status x = PENDING_APPROVAL \<and> de_approvalId x = Some (aq_id a)) ?f1 w = Inr (n, w1)" using m1 by simp
    show ?thesis
    proof (cases "w1 = w")
      case eq: True
      with m2 f True show ?thesis by (auto elim!: must_move_Inr)
    next
      case False
      then have g: "guard_allows d (?f1 d)" "lifecycle_check (?f1 d)" and w1: "w1 = put_deal (?f1 d) w"
        using move_deal_Inr [OF mv] f by auto
      have "moved w d (?f1 d) w1" unfolding w1 by (rule moved_put [OF f g(1,2)]) (simp_all add: newer_def)
      then have "sound sha256 w w1" by (rule sound_moved) (simp add: deal_ok_def True on_sale_def)
      moreover have "sound sha256 w1 w2"
      proof (rule activation_move)
        show "find_deal (de_id (?f1 d)) w1 = Some (?f1 d)" using find_put [of "?f1 d" w d] f by (simp add: w1)
        show "claim_ok (dw_approvals w1) a" if "deals_inv sha256 w1"
          using that assms(1) by (simp add: deals_inv_def w1 put_deal_def)
        show "proposes sha256 a (?f1 d)" using pro by (simp add: proposes_def termsOf_def)
      qed (use ap target m2 in simp_all)
      ultimately show ?thesis using s2 sound_trans by blast
    qed
  qed
qed

theorem deal_step_sound: "deal_step sha256 w w' \<Longrightarrow> sound sha256 w w'"
proof (induction rule: deal_step.induct)
  case (deal_claim w env userId approvalId)
  show ?case by (rule claim_sound)
next
  case (deal_end w userId approvalId ok)
  show ?case by (rule end_sound)
qed (auto intro: create_sound replace_sound bind_sound decide_sound activate_sound withdraw_sound transition_sound reconcile_sound approvals_sound)

lemma deal_steps_sound: "(deal_step sha256)\<^sup>*\<^sup>* w w' \<Longrightarrow> sound sha256 w w'"
proof (induction rule: rtranclp_induct)
  case base
  show ?case by (simp add: sound_same)
next
  case (step y z)
  then show ?case using deal_step_sound sound_trans by blast
qed

lemma no_deals_inv: "deals_inv sha256 no_deals"
  by (simp add: deals_inv_def no_deals_def approvals_wf_def no_approvals_def)

text \<open>
  C1. Whatever users call and however their transactions interleave, a deal that has gone on sale carries terms
  whose fingerprint, version and identity are those of a request that a person other than its maker
  approved, and that approval is the deal's.
\<close>

theorem deal_on_sale_approved:
  assumes "(deal_step sha256)\<^sup>*\<^sup>* no_deals w" "d \<in> set (dw_deals w)" "on_sale (de_status d)"
  shows "\<exists>r \<in> set (as_rows (dw_approvals w)). de_approvalId d = Some (aq_id r) \<and> aq_action r = DEAL_APPROVAL_ACTION
    \<and> (\<exists>u. aq_decidedById r = Some u \<and> u \<noteq> aq_requestedById r) \<and> aq_status r \<notin> {PENDING, ApprovalStatus.REJECTED, CANCELLED}
    \<and> proposed_field r ''dealId'' = JStr (de_id d) \<and> proposed_field r ''version'' = JNum (JInt (de_version d))
    \<and> proposed_field r ''termsFingerprint'' = JStr (dealFingerprint sha256 (de_hotelId d) (termsOf d))"
proof -
  have "deals_inv sha256 w" using deal_steps_sound [OF assms(1)] no_deals_inv by (simp add: sound_def)
  then have "approved_terms sha256 (dw_approvals w) d" using assms(2,3) by (auto simp: deals_inv_def deal_ok_def)
  then show ?thesis by (auto simp: approved_terms_def proposes_def)
qed

text \<open>
  C36. The version of a deal names its terms: along any interleaving a deal is never lost, its version never goes
  back, and while its version stays the same so do its terms, so what was reviewed under a version is what
  is priced under it.
\<close>

theorem deal_version_names_terms:
  assumes "(deal_step sha256)\<^sup>*\<^sup>* no_deals w" "(deal_step sha256)\<^sup>*\<^sup>* w w'" "d \<in> set (dw_deals w)"
  shows "\<exists>d' \<in> set (dw_deals w'). de_id d' = de_id d \<and> de_hotelId d' = de_hotelId d \<and> de_version d \<le> de_version d'
    \<and> (de_version d' = de_version d \<longrightarrow> termsOf d' = termsOf d)"
proof -
  have "deals_inv sha256 w" using deal_steps_sound [OF assms(1)] no_deals_inv by (simp add: sound_def)
  then have "deals_newer w w'" using deal_steps_sound [OF assms(2)] by (simp add: sound_def)
  then show ?thesis using assms(3) unfolding deals_newer_def newer_def termsOf_def by metis
qed

subsection \<open>The handlers are paths\<close>

lemma step_path: "approval_step (dw_approvals w) st \<Longrightarrow> (deal_step sha256)\<^sup>*\<^sup>* w (w\<lparr>dw_approvals := st\<rparr>)"
  by (rule r_into_rtranclp) (rule deal_approvals)

lemma approvalFor_path: "(deal_step sha256)\<^sup>*\<^sup>* w (snd (approvalFor env approvalId w))"
proof -
  have "approval_step (dw_approvals w) (snd (get (en_now env) (en_ttl env) approvalId (dw_approvals w)))" by (rule step_get)
  then show ?thesis using step_path by (auto simp: approvalFor_def split: prod.splits sum.splits)
qed

lemma decide_deal_path: "(deal_step sha256)\<^sup>*\<^sup>* w (snd (decide_deal env userId approvalId decision raw w))"
proof -
  have dec: "(deal_step sha256)\<^sup>*\<^sup>* w (w\<lparr>dw_approvals := st\<rparr>)"
    if "decide now ttl u i de r (dw_approvals w) = (res, st)" for w now ttl u i de r res st
    using that step_decide [of "dw_approvals w" now ttl u i de r] step_path by simp
  have ap: "(deal_step sha256)\<^sup>*\<^sup>* w v" if "approvalFor env i w = (res, v)" for i res v
    using approvalFor_path [of sha256 w env i] that by simp
  show ?thesis
    by (auto simp: decide_deal_def split: sum.splits prod.splits dest!: ap dec deal_decide intro: rtranclp_trans)
qed

lemma execute_deal_path: "(deal_step sha256)\<^sup>*\<^sup>* w (snd (execute_deal sha256 env userId approvalId w))"
proof (cases "approvalFor env approvalId w")
  case (Pair res w1)
  have p1: "(deal_step sha256)\<^sup>*\<^sup>* w w1" using approvalFor_path [of sha256 w env approvalId] Pair by simp
  obtain res2 w2 where c: "execute_claim env userId approvalId w1 = (res2, w2)" by fastforce
  have p2: "deal_step sha256 w1 w2" using deal_claim [of sha256 w1 env userId approvalId] c by simp
  show ?thesis
  proof (cases res)
    case (Inl e)
    then show ?thesis using Pair p1 by (simp add: execute_deal_def)
  next
    case r1: (Inr x)
    show ?thesis
    proof (cases res2)
      case (Inl e)
      then show ?thesis using Pair r1 c p1 p2 by (simp add: execute_deal_def)
    next
      case r2: (Inr a)
      then have a: "a \<in> set (dw_claimed w2)" "aq_id a = approvalId"
        using c by (auto simp: execute_claim_def require_def find_approval_def find_Some_iff split: prod.splits sum.splits elim!: claim_Inr)
      show ?thesis
      proof (cases "activate_tx sha256 env userId approvalId a w2")
        case (Inl e)
        then have "snd (execute_deal sha256 env userId approvalId w) = execute_end userId approvalId False w2"
          using Pair r1 c r2 by (simp add: execute_deal_def)
        then show ?thesis using p1 p2 deal_end by (metis rtranclp.rtrancl_into_rtrancl)
      next
        case (Inr w3)
        then have "snd (execute_deal sha256 env userId approvalId w) = execute_end userId approvalId True w3"
          using Pair r1 c r2 by (simp add: execute_deal_def)
        moreover have "deal_step sha256 w2 w3" using deal_activate a Inr by blast
        ultimately show ?thesis using p1 p2 deal_end by (metis rtranclp.rtrancl_into_rtrancl)
      qed
    qed
  qed
qed

lemma submit_path:
  assumes "list_all (\<lambda>r. aq_id r \<noteq> newApprovalId) (as_rows (dw_approvals w))"
  shows "(deal_step sha256)\<^sup>*\<^sup>* w (snd (submit sha256 env newApprovalId userId dealId raw w))"
proof -
  have req: "(deal_step sha256)\<^sup>*\<^sup>* w (w\<lparr>dw_approvals := st\<rparr>)" if "request now newApprovalId i (dw_approvals w) = (res, st)" for now i res st
    using that step_request [OF assms, of now i] step_path by simp
  have can: "(deal_step sha256)\<^sup>*\<^sup>* v (v\<lparr>dw_approvals := snd (cancel u i (dw_approvals v))\<rparr>)" for v u i
    by (rule step_path) (rule step_cancel)
  have can': "(deal_step sha256)\<^sup>*\<^sup>* (w\<lparr>dw_approvals := st\<rparr>) (w\<lparr>dw_approvals := snd (cancel u i st)\<rparr>)" for st u i
    using can [of "w\<lparr>dw_approvals := st\<rparr>"] by simp
  show ?thesis
    by (auto simp: submit_def Let_def split: sum.splits prod.splits dest!: req deal_bind intro: rtranclp_trans can')
qed

lemma withdraw_path: "(deal_step sha256)\<^sup>*\<^sup>* w (snd (withdraw env userId dealId w))"
proof -
  have can: "(deal_step sha256)\<^sup>*\<^sup>* w (w\<lparr>dw_approvals := st\<rparr>)" if "cancel u i (dw_approvals w) = (res, st)" for u i res st
    using that step_cancel [of "dw_approvals w" u i] step_path by simp
  show ?thesis
    by (auto simp: withdraw_def split: sum.splits prod.splits option.splits DealStatus.splits dest!: can deal_withdraw intro: rtranclp_trans)
qed

lemma single_paths:
  "create sha256 env newId userId v w = Inr (d, w') \<Longrightarrow> (deal_step sha256)\<^sup>*\<^sup>* w w'"
  "replace env userId dealId v w = Inr w' \<Longrightarrow> (deal_step sha256)\<^sup>*\<^sup>* w w'"
  "transition env userId dealId action raw w = Inr w' \<Longrightarrow> (deal_step sha256)\<^sup>*\<^sup>* w w'"
  "reconcile env userId w = Inr (ids, w') \<Longrightarrow> (deal_step sha256)\<^sup>*\<^sup>* w w'"
  by (auto simp: create_def replace_def transition_def ebind_Inr_iff Let_def intro: deal_create deal_replace deal_transition deal_reconcile
      split: if_splits option.splits)

subsection \<open>Example: a deal from its creation to sale\<close>

definition sample_plan :: "string \<Rightarrow> PlanInfo" where
  "sample_plan i = \<lparr>pn_id = i, pn_status = ''ACTIVE'', pn_currency = ''EUR'', pn_occupancy = 2, pn_derivedFromId = None, pn_validFrom = None,
     pn_validTo = None, pn_hotelId = ''h1'', pn_contractStatus = ''ACTIVE'', pn_contractFrom = None, pn_contractTo = None\<rparr>"

definition sample_env :: DealEnv where
  "sample_env = \<lparr>en_now = 1000, en_ttl = 100000, en_today = (\<lambda>_. Some ''2025-02-01''), en_currencies = [''EUR''],
     en_catalogue = \<lparr>ct_hotels = [''h1''], ct_plans = [sample_plan ''p1''], ct_agencies = [], ct_rates = []\<rparr>\<rparr>"

definition sample_hash :: "string \<Rightarrow> string" where "sample_hash s = ''f1''"

definition sample_offer_terms :: DealTermsRow where
  "sample_offer_terms = \<lparr>dl_code = ''STAY3'', dl_name = ''Stay 3'', dl_kind = STAY_X_PAY_Y, dl_priority = 0, dl_percentBp = None, dl_amountMinor = None,
     dl_currency = None, dl_amountScope = None, dl_minNights = Some 3, dl_freeNights = Some 1, dl_fromNight = None, dl_minLeadDays = None,
     dl_bookFrom = None, dl_bookTo = None, dl_stayFrom = None, dl_stayTo = None, dl_weekdays = None, dl_stayWindowMode = WHOLE_STAY,
     dl_discountBase = ROOM_AND_GUESTS, dl_combinable = False, dl_stackingGroup = None, dl_incompatibleDealIds = [], dl_channels = [],
     dl_sourceMarkets = [], dl_agencyIds = [], dl_maxDiscountBp = None, dl_minSellFloorMinor = None, dl_minMarginBp = None,
     dl_activeFrom = None, dl_activeTo = None, dl_publicDescription = None, dl_internalNotes = None, dl_ratePlanIds = [''p1'']\<rparr>"

definition sample_offer :: Deal where
  "sample_offer = new_deal ''d1'' ''h1'' ''maker'' ''key-0001'' sample_offer_terms"

definition sample_bound :: Deal where
  "sample_bound = sample_offer\<lparr>de_status := PENDING_APPROVAL, de_termsFingerprint := Some ''f1'', de_approvalId := Some ''a1'',
     de_statusChangedAt := Some 1000, de_statusChangedById := Some ''maker''\<rparr>"

definition sample_sold :: Deal where
  "sample_sold = sample_bound\<lparr>de_status := ACTIVE, de_activatedAt := Some 1000, de_activatedById := Some ''checker'',
     de_statusChangedById := Some ''checker''\<rparr>"

definition sample_proposal :: RequestApprovalInput where
  "sample_proposal = \<lparr>ri_requesterId = ''maker'', ri_action = ''promotion.activate'', ri_entityType = ''hotel_deal'', ri_entityId = ''d1'',
     ri_requestId = ''req-0001'', ri_reason = ''spring'', ri_beforeState = None,
     ri_proposedState = Some [(''dealId'', JStr ''d1''), (''version'', JNum (JInt 1)), (''termsFingerprint'', JStr ''f1'')]\<rparr>"

definition sample_row :: ApprovalRow where
  "sample_row = request_row 1000 ''a1'' sample_proposal ''spring'' None
     (Some (JObj [(''dealId'', JStr ''d1''), (''version'', JNum (JInt 1)), (''termsFingerprint'', JStr ''f1'')]))"

definition sample_granted :: ApprovalRow where
  "sample_granted = sample_row\<lparr>aq_status := ApprovalStatus.APPROVED, aq_decidedById := Some ''checker'', aq_decidedAt := Some 1000, aq_decisionReason := Some ''agreed''\<rparr>"

definition sample_used :: ApprovalRow where
  "sample_used = sample_granted\<lparr>aq_status := EXECUTED, aq_executedById := Some ''checker'', aq_executedAt := Some 1000\<rparr>"

text \<open>The worlds along the way, with the first \<open>n\<close> deal events and the first \<open>m\<close> approval events.\<close>

definition sample_world :: "Deal \<Rightarrow> ApprovalRow list \<Rightarrow> ApprovalRow list \<Rightarrow> nat \<Rightarrow> nat \<Rightarrow> DealWorld" where
  "sample_world d rows claims n m =
     \<lparr>dw_deals = [d],
      dw_approvals = \<lparr>as_rows = rows,
        as_audit = take m [\<lparr>av_userId = Some ''maker'', av_action = ''approval.requested'', av_entityId = ''a1''\<rparr>,
          \<lparr>av_userId = Some ''checker'', av_action = ''approval.approved'', av_entityId = ''a1''\<rparr>]\<rparr>,
      dw_audit = take n [\<lparr>da_userId = ''maker'', da_action = ''promotion.deal.created'', da_dealId = ''d1''\<rparr>,
        \<lparr>da_userId = ''maker'', da_action = ''promotion.deal.submitted'', da_dealId = ''d1''\<rparr>,
        \<lparr>da_userId = ''checker'', da_action = ''promotion.deal.activated'', da_dealId = ''d1''\<rparr>],
      dw_claimed = claims\<rparr>"

lemma sample_stages:
  "create_tx sample_hash sample_env ''d1'' ''maker'' ''h1'' ''key-0001'' sample_offer_terms no_deals = Inr (sample_offer, sample_world sample_offer [] [] 1 0)"
  "(sample_world sample_offer [] [] 1 0)\<lparr>dw_approvals := snd (request 1000 ''a1'' sample_proposal (dw_approvals (sample_world sample_offer [] [] 1 0)))\<rparr>
    = sample_world sample_offer [sample_row] [] 1 1"
  "submit_bind sample_env ''maker'' ''d1'' 1 ''f1'' ''a1'' (sample_world sample_offer [sample_row] [] 1 1) = Inr (sample_world sample_bound [sample_row] [] 2 1)"
  "(sample_world sample_bound [sample_row] [] 2 1)\<lparr>dw_approvals := snd (decide 1000 100000 ''checker'' ''a1'' DecideApproved ''agreed''
      (dw_approvals (sample_world sample_bound [sample_row] [] 2 1)))\<rparr> = sample_world sample_bound [sample_granted] [] 2 2"
  "snd (execute_claim sample_env ''checker'' ''a1'' (sample_world sample_bound [sample_granted] [] 2 2)) = sample_world sample_bound [sample_used] [sample_used] 2 2"
  "activate_tx sample_hash sample_env ''checker'' (aq_id sample_used) sample_used (sample_world sample_bound [sample_used] [sample_used] 2 2)
    = Inr (sample_world sample_sold [sample_used] [sample_used] 3 2)"
  by code_simp+

lemma sample_path:
  "(deal_step sample_hash)\<^sup>*\<^sup>* no_deals (sample_world sample_offer [] [] 1 0)"
  "(deal_step sample_hash)\<^sup>*\<^sup>* (sample_world sample_offer [] [] 1 0) (sample_world sample_sold [sample_used] [sample_used] 3 2)"
proof -
  show "(deal_step sample_hash)\<^sup>*\<^sup>* no_deals (sample_world sample_offer [] [] 1 0)"
    using deal_create [OF sample_stages(1)] by blast
  have "approval_step (dw_approvals (sample_world sample_offer [] [] 1 0))
      (snd (request 1000 ''a1'' sample_proposal (dw_approvals (sample_world sample_offer [] [] 1 0))))"
    by (rule step_request) (simp add: sample_world_def)
  then have 2: "deal_step sample_hash (sample_world sample_offer [] [] 1 0) (sample_world sample_offer [sample_row] [] 1 1)"
    using deal_approvals sample_stages(2) by metis
  have 3: "deal_step sample_hash (sample_world sample_offer [sample_row] [] 1 1) (sample_world sample_bound [sample_row] [] 2 1)"
    by (rule deal_bind [OF sample_stages(3)])
  have 4: "deal_step sample_hash (sample_world sample_bound [sample_row] [] 2 1) (sample_world sample_bound [sample_granted] [] 2 2)"
    using deal_approvals [OF step_decide] sample_stages(4) by metis
  have 5: "deal_step sample_hash (sample_world sample_bound [sample_granted] [] 2 2) (sample_world sample_bound [sample_used] [sample_used] 2 2)"
    using deal_claim sample_stages(5) by metis
  have 6: "deal_step sample_hash (sample_world sample_bound [sample_used] [sample_used] 2 2) (sample_world sample_sold [sample_used] [sample_used] 3 2)"
    by (rule deal_activate [OF _ sample_stages(6)]) (simp add: sample_world_def)
  from 2 3 4 5 6 show "(deal_step sample_hash)\<^sup>*\<^sup>* (sample_world sample_offer [] [] 1 0) (sample_world sample_sold [sample_used] [sample_used] 3 2)"
    by (meson converse_rtranclp_into_rtranclp rtranclp.rtrancl_refl)
qed

lemma deal_on_sale_approved_witness:
  "de_status sample_sold = ACTIVE \<and> (\<exists>r \<in> set (as_rows (dw_approvals (sample_world sample_sold [sample_used] [sample_used] 3 2))).
     de_approvalId sample_sold = Some (aq_id r) \<and> (\<exists>u. aq_decidedById r = Some u \<and> u \<noteq> aq_requestedById r))"
proof -
  have "(deal_step sample_hash)\<^sup>*\<^sup>* no_deals (sample_world sample_sold [sample_used] [sample_used] 3 2)"
    by (rule rtranclp_trans [OF sample_path])
  moreover have "sample_sold \<in> set (dw_deals (sample_world sample_sold [sample_used] [sample_used] 3 2))" by (simp add: sample_world_def)
  moreover have a: "de_status sample_sold = ACTIVE" by (simp add: sample_sold_def)
  moreover from a have "on_sale (de_status sample_sold)" by (simp add: on_sale_def)
  ultimately show ?thesis using deal_on_sale_approved [of sample_hash _ sample_sold] by blast
qed

lemma deal_version_names_terms_witness:
  "de_version sample_sold = de_version sample_offer \<and> termsOf sample_sold = termsOf sample_offer"
proof -
  have d: "sample_offer \<in> set (dw_deals (sample_world sample_offer [] [] 1 0))" by (simp add: sample_world_def)
  have v: "de_version sample_sold = de_version sample_offer" by (simp add: sample_sold_def sample_bound_def)
  then show ?thesis
    using deal_version_names_terms [OF sample_path(1,2) d] by (simp add: sample_world_def)
qed


subsection \<open>Resuming an approved deal\<close>

text \<open>
  \<open>resume\<close> on an approved deal that was never activated passes the table of moves and the checks, and only the
  database stops it: the caller gets a server error and not a refusal.
\<close>

lemma resume_approved_server_error:
  assumes "load dealId w = Inr d" "find_deal (de_id d) w = Some d" "de_status d = DealStatus.APPROVED" "de_activatedAt d = None"
    and "action_target env Resume d = Inr target" "\<not> has_error (validation env (dw_deals w) d (termsOf d))"
  shows "transition_tx env userId dealId Resume None None w = Inl (ServerError ''HotelDeal_guard'')"
proof -
  have "target \<in> {SCHEDULED, ACTIVE}" using assms(5) by (auto simp: action_target_def split: option.splits if_splits)
  then show ?thesis
    using assms by (auto simp: transition_tx_def must_move_def move_deal_def lifecycle_check_def canTransition_def)
qed


end
