(* ===== verification/Room_Sales.thy ===== *)
theory Room_Sales
  imports Calendar
begin

text \<open>
  Room availability and allocation (\<open>apps/api/src/inventory/room-sales/engine.ts\<close> with the modes of
  \<open>packages/contracts/src/room-sales.ts\<close>): which sales rules apply to a night, what a buyer gets, the plan
  of a batch of rule changes, and the reservation and amendment of finite stock. Dates and the time of a
  hotel are text and milliseconds; \<open>Date.parse\<close> and the parts \<open>Intl\<close> formats are parameters.
\<close>

subsection \<open>Modes and rules\<close>

datatype RoomSalesMode = FREE_SALE | STOP_SALE | ON_REQUEST | LIMITED

definition ROOM_SALES_MODES :: "string list" where
  "ROOM_SALES_MODES = [''FREE_SALE'', ''STOP_SALE'', ''ON_REQUEST'', ''LIMITED'']"

datatype RoomSalesOutcome = INSTANT | ON_REQUEST | STOPPED | UNAVAILABLE | NOT_CONFIGURED

definition POST_RELEASE_POLICIES :: "string list" where
  "POST_RELEASE_POLICIES = [''CLOSED'', ''ON_REQUEST'', ''AUTHORIZED_FREE_SALE'']"

definition reasonMin :: nat where "reasonMin = 3"
definition reasonMax :: nat where "reasonMax = 500"
definition max_cells :: nat where "max_cells = 2000"
definition capMax :: int where "capMax = 9999"
definition deadlineHoursMax :: int where "deadlineHoursMax = 168"

record RoomSalesRuleView =
  rv_roomTypeId :: string
  rv_stayDate :: string
  rv_poolKey :: string
  rv_planKey :: string
  rv_channelKey :: string
  rv_marketKey :: string
  rv_contractKey :: string
  rv_mode :: RoomSalesMode
  rv_salesCap :: "int option"
  rv_consumesInventory :: bool
  rv_overrideExpiresAt :: "string option"

text \<open>\<open>parts\<close> is what \<open>formatToParts\<close> gives for a time in a zone, none when the zone is not usable.\<close>

definition hotelLocalDate :: "(int \<Rightarrow> string \<Rightarrow> (string \<Rightarrow> string option) option) \<Rightarrow> int \<Rightarrow> string \<Rightarrow> string option" where
  "hotelLocalDate parts now timeZone =
     (if timeZone = [] then None
      else case parts now timeZone of
        None \<Rightarrow> None
      | Some part \<Rightarrow>
          (case (part ''year'', part ''month'', part ''day'') of
             (Some y, Some m, Some d) \<Rightarrow>
               if y = [] \<or> m = [] \<or> d = [] then None
               else let date = y @ ''-'' @ m @ ''-'' @ d in if isIsoDate date then Some date else None
           | _ \<Rightarrow> None))"

definition scopeKey :: "string option \<Rightarrow> string" where
  "scopeKey value = (case value of None \<Rightarrow> [] | Some v \<Rightarrow> trim v)"

definition freeSaleConsumesInventory :: "string option \<Rightarrow> bool" where
  "freeSaleConsumesInventory allotmentType \<longleftrightarrow> allotmentType \<noteq> Some ''FREE_SALE''"

record InventoryTerms =
  it_contracted :: int
  it_approvedAdjustment :: int
  it_confirmed :: int
  it_activeHolds :: int
  it_blocked :: int
  it_blockedAlreadyExcluded :: bool

definition availableInventory :: "InventoryTerms \<Rightarrow> int" where
  "availableInventory t =
     (let blocked = (if it_blockedAlreadyExcluded t then 0 else it_blocked t) in
      it_contracted t + it_approvedAdjustment t - it_confirmed t - it_activeHolds t - blocked)"

definition remainingCap :: "int \<Rightarrow> int \<Rightarrow> int \<Rightarrow> int" where
  "remainingCap cap bookings holds = cap - bookings - holds"

subsection \<open>Resolving the rules of a night\<close>

record ResolvedSales =
  rs_configuredMode :: "RoomSalesMode option"
  rs_stopSale :: bool
  rs_onRequest :: bool
  rs_capRemaining :: "int option"
  rs_capUnknown :: bool
  rs_overCap :: bool
  rs_consumesInventory :: bool
  rs_applicable :: nat

record ResolveInput =
  ri_rules :: "RoomSalesRuleView list"
  ri_roomTypeId :: string
  ri_ratePlanId :: string
  ri_poolId :: "string option"
  ri_contractId :: "string option"
  ri_stayDate :: string
  ri_channel :: "string option"
  ri_market :: "string option"
  ri_now :: int
  ri_consumed :: "int option"

text \<open>\<open>date_parse\<close> is \<open>Date.parse\<close>; a text it cannot read compares as neither before nor after now.\<close>

definition override_over :: "(string \<Rightarrow> int option) \<Rightarrow> int \<Rightarrow> string option \<Rightarrow> bool" where
  "override_over date_parse now expires \<longleftrightarrow>
     (case expires of
        None \<Rightarrow> False
      | Some t \<Rightarrow> t \<noteq> [] \<and> (case date_parse t of None \<Rightarrow> False | Some ms \<Rightarrow> ms \<le> now))"

definition rule_applies :: "(string \<Rightarrow> int option) \<Rightarrow> ResolveInput \<Rightarrow> RoomSalesRuleView \<Rightarrow> bool" where
  "rule_applies date_parse i r \<longleftrightarrow>
     rv_roomTypeId r = ri_roomTypeId i \<and> rv_stayDate r = ri_stayDate i
     \<and> (rv_poolKey r = [] \<or> rv_poolKey r = scopeKey (ri_poolId i))
     \<and> (rv_planKey r = [] \<or> rv_planKey r = ri_ratePlanId i)
     \<and> (rv_channelKey r = [] \<or> rv_channelKey r = scopeKey (ri_channel i))
     \<and> (rv_marketKey r = [] \<or> rv_marketKey r = scopeKey (ri_market i))
     \<and> (rv_contractKey r = [] \<or> rv_contractKey r = scopeKey (ri_contractId i))
     \<and> \<not> override_over date_parse (ri_now i) (rv_overrideExpiresAt r)"

definition limits :: "RoomSalesRuleView \<Rightarrow> bool" where
  "limits r \<longleftrightarrow> rv_mode r = LIMITED \<and> (case rv_salesCap r of None \<Rightarrow> False | Some c \<Rightarrow> c > 0)"

definition cap_of :: "RoomSalesRuleView \<Rightarrow> int" where
  "cap_of r = (case rv_salesCap r of None \<Rightarrow> 0 | Some c \<Rightarrow> c)"

text \<open>\<open>Math.min(...xs)\<close> of a list that is not empty.\<close>

fun min_of :: "int list \<Rightarrow> int" where
  "min_of [] = 0"
| "min_of (x # xs) = foldl min x xs"

definition resolveRoomSales :: "(string \<Rightarrow> int option) \<Rightarrow> ResolveInput \<Rightarrow> ResolvedSales" where
  "resolveRoomSales date_parse i =
     (let matched = filter (rule_applies date_parse i) (ri_rules i);
          stopSale = list_ex (\<lambda>r. rv_mode r = STOP_SALE) matched;
          onRequest = list_ex (\<lambda>r. rv_mode r = RoomSalesMode.ON_REQUEST) matched;
          caps = filter limits matched;
          capRemaining = (case ri_consumed i of
              None \<Rightarrow> None
            | Some consumed \<Rightarrow> if caps = [] then None else Some (min_of (map (\<lambda>r. remainingCap (cap_of r) consumed 0) caps)))
      in
      \<lparr>rs_configuredMode = (if stopSale then Some STOP_SALE
          else if onRequest then Some RoomSalesMode.ON_REQUEST
          else if caps \<noteq> [] then Some LIMITED
          else if list_ex (\<lambda>r. rv_mode r = FREE_SALE) matched then Some FREE_SALE
          else None),
       rs_stopSale = stopSale, rs_onRequest = onRequest, rs_capRemaining = capRemaining,
       rs_capUnknown = (caps \<noteq> [] \<and> ri_consumed i = None),
       rs_overCap = (case capRemaining of None \<Rightarrow> False | Some c \<Rightarrow> c < 0),
       rs_consumesInventory = list_ex rv_consumesInventory matched,
       rs_applicable = length matched\<rparr>)"

subsection \<open>What the buyer gets\<close>

datatype LegacyMode = ALLOTMENT | FREE_SALE | ON_REQUEST | CLOSED

record EffectiveInput =
  ei_resolved :: ResolvedSales
  ei_verifiedRate :: bool
  ei_quarantinedRate :: bool
  ei_inventoryRemaining :: "int option"
  ei_legacyMode :: "LegacyMode option"
  ei_legacyStop :: bool
  ei_roomsRequested :: int

definition NO_RULE :: string where
  "NO_RULE = ''No sales-control rule is saved for this scope. Missing configuration is not Free Sale.''"
definition NO_RULE_LEGACY :: string where
  "NO_RULE_LEGACY = ''No sales-control rule is saved. The rate-plan inventory mode still applies at booking time and is not shown as Free Sale.''"
definition NO_RULE_SCOPE :: string where
  "NO_RULE_SCOPE = ''No sales-control rule is saved for this scope.''"
definition STOP_REASON :: string where
  "STOP_REASON = ''Stop Sale blocks new sales. Existing bookings stay.''"
definition SUPPLIER_REASON :: string where
  "SUPPLIER_REASON = ''Supplier confirmation is required before this stay can be confirmed.''"
definition INSTANT_REASON :: string where
  "INSTANT_REASON = ''Instant confirmation is allowed only while inventory, cap, rate and restrictions still pass at commitment.''"

definition reason_if :: "bool \<Rightarrow> string \<Rightarrow> string list" where
  "reason_if test reason = (if test then [reason] else [])"

definition needs_stock :: "ResolvedSales \<Rightarrow> bool" where
  "needs_stock r \<longleftrightarrow> rs_configuredMode r \<noteq> None \<and> rs_configuredMode r \<noteq> Some STOP_SALE
     \<and> (rs_consumesInventory r \<or> rs_configuredMode r = Some LIMITED)"

definition stock_reasons :: "EffectiveInput \<Rightarrow> string list" where
  "stock_reasons i =
     (if \<not> needs_stock (ei_resolved i) then []
      else case ei_inventoryRemaining i of
        None \<Rightarrow> [''Inventory for this night is unknown, not zero.'']
      | Some left \<Rightarrow> reason_if (left < ei_roomsRequested i) ''Not enough remaining inventory.'')"

definition sales_reasons :: "EffectiveInput \<Rightarrow> string list" where
  "sales_reasons i =
     (let r = ei_resolved i in
      reason_if (ei_legacyStop i \<or> ei_legacyMode i = Some CLOSED \<or> rs_stopSale r) STOP_REASON
      @ (if ei_quarantinedRate i then [''A rate for this night is quarantined and cannot be sold.'']
         else reason_if (\<not> ei_verifiedRate i) ''No verified rate for this scope.'')
      @ reason_if (rs_overCap r) ''The sales cap is below existing commitments. Further sales are blocked and bookings are kept.''
      @ reason_if (rs_capUnknown r) ''A sales cap applies but inventory consumption is unknown.''
      @ stock_reasons i
      @ reason_if (case rs_capRemaining r of None \<Rightarrow> False | Some c \<Rightarrow> max 0 c < ei_roomsRequested i) ''The remaining sales cap is not enough.''
      @ reason_if (ei_legacyMode i = Some LegacyMode.ON_REQUEST \<or> rs_onRequest r) SUPPLIER_REASON)"

definition effectiveOutcome :: "EffectiveInput \<Rightarrow> RoomSalesOutcome \<times> string list" where
  "effectiveOutcome i =
     (let r = ei_resolved i in
      if rs_applicable r = 0 \<and> \<not> ei_legacyStop i \<and> ei_legacyMode i = None then (NOT_CONFIGURED, [NO_RULE])
      else
        let reasons = sales_reasons i in
        if rs_applicable r = 0 \<and> reasons = [] then (NOT_CONFIGURED, [NO_RULE_LEGACY])
        else if filter (\<lambda>t. \<not> startsWith t ''Supplier confirmation'') reasons \<noteq> []
          then (if list_ex (\<lambda>t. startsWith t ''Stop Sale'') reasons then STOPPED else UNAVAILABLE, reasons)
        else if list_ex (\<lambda>t. startsWith t ''Supplier confirmation'') reasons then (RoomSalesOutcome.ON_REQUEST, reasons)
        else if rs_configuredMode r = None then (NOT_CONFIGURED, [NO_RULE_SCOPE])
        else (INSTANT, [INSTANT_REASON]))"

definition sellableQuantity :: "int option \<Rightarrow> int option \<Rightarrow> bool \<Rightarrow> int option" where
  "sellableQuantity inventoryRemaining capRemaining unlimited =
     (if unlimited then None
      else
        let inventory = (case inventoryRemaining of None \<Rightarrow> 0 | Some n \<Rightarrow> max 0 n) in
        Some (case capRemaining of None \<Rightarrow> inventory | Some c \<Rightarrow> max 0 (min inventory c)))"

subsection \<open>Planning a batch of rule changes\<close>

record CurrentRule =
  cu_version :: int
  cu_mode :: RoomSalesMode
  cu_planKey :: string
  cu_channelKey :: string
  cu_marketKey :: string
  cu_contractKey :: string

record BatchCell =
  bc_roomTypeId :: string
  bc_stayDate :: string
  bc_expectedVersion :: "int option"
  bc_current :: "CurrentRule option"

record BatchPlan =
  bp_ok :: bool
  bp_errors :: "string list"
  bp_conflicts :: "string list"
  bp_cells :: "BatchCell list"
  bp_reopensBroad :: bool
  bp_consumesInventory :: bool

record BatchInput =
  bi_roomTypeIds :: "string list"
  bi_from :: string
  bi_to :: string
  bi_weekdays :: "string list"
  bi_mode :: string
  bi_salesCap :: "jsnum option"
  bi_deadlineHours :: "jsnum option"
  bi_owner :: "string option"
  bi_escalation :: "string option"
  bi_reason :: string
  bi_confirmBroadReopen :: bool
  bi_canReopenBroad :: bool
  bi_allotmentType :: "string option"
  bi_current :: "BatchCell list"
  bi_targets :: "(string \<times> string) list option"

fun weekday_text :: "Weekday \<Rightarrow> string" where
  "weekday_text MON = ''MON''" | "weekday_text TUE = ''TUE''" | "weekday_text WED = ''WED''" | "weekday_text THU = ''THU''"
| "weekday_text FRI = ''FRI''" | "weekday_text SAT = ''SAT''" | "weekday_text SUN = ''SUN''"

definition whole_from_to :: "jsnum option \<Rightarrow> int \<Rightarrow> int \<Rightarrow> bool" where
  "whole_from_to v lo hi \<longleftrightarrow> (case v of Some (JInt i) \<Rightarrow> lo \<le> i \<and> i \<le> hi | _ \<Rightarrow> False)"

definition short_text :: "string option \<Rightarrow> nat \<Rightarrow> bool" where
  "short_text v n \<longleftrightarrow> (case v of None \<Rightarrow> True | Some s \<Rightarrow> length (trim s) < n)"

text \<open>The errors that do not depend on the nights.\<close>

definition settings_errors :: "BatchInput \<Rightarrow> string list option \<Rightarrow> string list" where
  "settings_errors i dates =
     reason_if (dates = None) ''Stay date from and stay date to must be inclusive calendar dates, at most 62 nights, with from on or before to.''
     @ reason_if (bi_roomTypeIds i = []) ''Select at least one room type, or All room types.''
     @ reason_if (bi_mode i \<notin> set ROOM_SALES_MODES) ''Choose Free Sale, Stop Sale, On Request or Limited.''
     @ reason_if (bi_mode i = ''LIMITED'' \<and> \<not> whole_from_to (bi_salesCap i) 1 capMax) ''Limited needs a sales cap from 1 to 9999 for each stay night.''
     @ (if bi_mode i = ''ON_REQUEST''
        then reason_if (\<not> whole_from_to (bi_deadlineHours i) 1 deadlineHoursMax) ''On Request needs a response deadline between 1 and 168 hours.''
          @ reason_if (short_text (bi_owner i) 2) ''On Request needs an owner.''
          @ reason_if (short_text (bi_escalation i) 3) ''On Request needs an escalation policy.''
        else [])
     @ reason_if (length (trim (bi_reason i)) < reasonMin \<or> length (trim (bi_reason i)) > reasonMax) ''A reason is required.''"

definition allowed_days :: "BatchInput \<Rightarrow> string list" where
  "allowed_days i = (if bi_weekdays i = [] then map weekday_text WEEKDAYS else bi_weekdays i)"

definition listed_nights :: "BatchInput \<Rightarrow> string list option \<Rightarrow> (string \<times> string) list" where
  "listed_nights i dates =
     (case bi_targets i of
        Some ts \<Rightarrow> ts
      | None \<Rightarrow>
          let selected = filter (\<lambda>d. weekday_text (weekdayOf d) \<in> set (allowed_days i)) (case dates of None \<Rightarrow> [] | Some ds \<Rightarrow> ds) in
          concat (map (\<lambda>room. map (\<lambda>d. (room, d)) selected) (bi_roomTypeIds i)))"

definition cell_key :: "string \<Rightarrow> string \<Rightarrow> string" where
  "cell_key room day = room @ ''|'' @ day"

definition want_cell :: "string list \<times> (string, BatchCell) omap \<Rightarrow> string \<times> string \<Rightarrow> string list \<times> (string, BatchCell) omap" where
  "want_cell st target =
     (let (errors, wanted) = st; (room, day) = target in
      if \<not> isIsoDate day then (errors @ [''A stay date is not a calendar date.''], wanted)
      else (errors, omap_put (cell_key room day)
             \<lparr>bc_roomTypeId = room, bc_stayDate = day, bc_expectedVersion = None, bc_current = None\<rparr> wanted))"

definition broad_stop :: "BatchCell \<Rightarrow> bool" where
  "broad_stop cell \<longleftrightarrow>
     (case bc_current cell of
        None \<Rightarrow> False
      | Some c \<Rightarrow> cu_mode c = STOP_SALE \<and> cu_planKey c = [] \<and> cu_channelKey c = [] \<and> cu_marketKey c = [] \<and> cu_contractKey c = [])"

text \<open>The loop over the saved cells: the wanted cells, the conflicts and whether a broad stop reopens.\<close>

definition meet_cell :: "string \<Rightarrow> (string, BatchCell) omap \<times> string list \<times> bool \<Rightarrow> BatchCell \<Rightarrow> (string, BatchCell) omap \<times> string list \<times> bool" where
  "meet_cell mode st cell =
     (let (wanted, conflicts, reopens) = st; key = cell_key (bc_roomTypeId cell) (bc_stayDate cell) in
      case omap_get wanted key of
        None \<Rightarrow> st
      | Some target \<Rightarrow>
          (omap_put key (target\<lparr>bc_current := bc_current cell, bc_expectedVersion := bc_expectedVersion cell\<rparr>) wanted,
           conflicts @ reason_if (map_option cu_version (bc_current cell) \<noteq> bc_expectedVersion cell)
             (bc_stayDate cell @ '' was saved by someone else. Reload before saving.''),
           reopens \<or> (broad_stop cell \<and> mode \<noteq> ''STOP_SALE'')))"

definition planSalesBatch :: "BatchInput \<Rightarrow> BatchPlan" where
  "planSalesBatch i =
     (let dates = inclusiveDates (bi_from i) (bi_to i);
          mode = bi_mode i;
          days = reason_if (\<not> list_all (\<lambda>d. d \<in> set (map weekday_text WEEKDAYS)) (allowed_days i)) ''Weekdays must be MON to SUN.'';
          (errors, wanted0) = foldl want_cell (settings_errors i dates @ days, []) (listed_nights i dates);
          sizes = reason_if (wanted0 = []) ''No stay nights match the dates and weekdays.''
            @ reason_if (length wanted0 > max_cells) ''Too many cells in one save.'';
          (wanted, conflicts, reopens) = foldl (meet_cell mode) (wanted0, [], False) (bi_current i);
          broad = reason_if (reopens \<and> \<not> bi_confirmBroadReopen i) ''Reopening a room-wide Stop Sale needs an explicit confirmation.''
            @ reason_if (reopens \<and> \<not> bi_canReopenBroad i) ''Reopening a room-wide Stop Sale needs hotel management authority.'';
          consumes = (mode = ''LIMITED'' \<or> mode = ''STOP_SALE''
            \<or> ((mode = ''FREE_SALE'' \<or> mode = ''ON_REQUEST'') \<and> freeSaleConsumesInventory (bi_allotmentType i)));
          finite = reason_if ((mode = ''FREE_SALE'' \<or> mode = ''ON_REQUEST'') \<and> \<not> consumes \<and> bi_allotmentType i \<noteq> Some ''FREE_SALE'')
            ''Selling beyond finite allocation is not authorized on this contract.'';
          all_errors = errors @ sizes @ broad @ finite
      in
      \<lparr>bp_ok = (all_errors = [] \<and> conflicts = []), bp_errors = all_errors, bp_conflicts = conflicts, bp_cells = omap_values wanted,
       bp_reopensBroad = reopens, bp_consumesInventory = consumes\<rparr>)"

subsection \<open>Reserving finite stock\<close>

record StockNight =
  sn_id :: string
  sn_available :: int
  sn_version :: int

record ReserveRequest =
  rq_idempotencyKey :: string
  rq_fingerprint :: string
  rq_nights :: "string list"
  rq_rooms :: jsnum

datatype SeenResult = SEEN_RESERVED | SEEN_REJECTED

record ReserveState =
  rt_stock :: "(string, StockNight) omap"
  rt_seen :: "(string, string \<times> SeenResult) omap"

datatype ReserveResult = REPLAY | CONFLICT | RESERVED | REJECTED

definition see :: "ReserveRequest \<Rightarrow> SeenResult \<Rightarrow> ReserveState \<Rightarrow> ReserveState" where
  "see r res s = s\<lparr>rt_seen := omap_put (rq_idempotencyKey r) (rq_fingerprint r, res) (rt_seen s)\<rparr>"

definition has_rooms :: "(string, StockNight) omap \<Rightarrow> int \<Rightarrow> string \<Rightarrow> bool" where
  "has_rooms stock rooms night = (case omap_get stock night of None \<Rightarrow> False | Some row \<Rightarrow> rooms \<le> sn_available row)"

definition take_night :: "int \<Rightarrow> (string, StockNight) omap \<Rightarrow> string \<Rightarrow> (string, StockNight) omap" where
  "take_night rooms stock night =
     (case omap_get stock night of
        None \<Rightarrow> stock
      | Some row \<Rightarrow> omap_put night (row\<lparr>sn_available := sn_available row - rooms, sn_version := sn_version row + 1\<rparr>) stock)"

definition reserveFinite :: "ReserveState \<Rightarrow> ReserveRequest \<Rightarrow> ReserveState \<times> ReserveResult" where
  "reserveFinite s r =
     (case omap_get (rt_seen s) (rq_idempotencyKey r) of
        Some (fingerprint, res) \<Rightarrow>
          if fingerprint = rq_fingerprint r then (s, if res = SEEN_RESERVED then REPLAY else REJECTED) else (s, CONFLICT)
      | None \<Rightarrow>
          (case rq_rooms r of
             JNonInt \<Rightarrow> (s, REJECTED)
           | JInt rooms \<Rightarrow>
               if rooms < 1 then (s, REJECTED)
               else if \<not> list_all (has_rooms (rt_stock s) rooms) (rq_nights r) then (see r SEEN_REJECTED s, REJECTED)
               else (see r SEEN_RESERVED (s\<lparr>rt_stock := foldl (take_night rooms) (rt_stock s) (rq_nights r)\<rparr>), RESERVED)))"

text \<open>The rooms of an amendment are whole numbers; its key and fingerprint are not read.\<close>

definition availableToSelf :: "ReserveState \<Rightarrow> string list \<Rightarrow> int \<Rightarrow> string \<Rightarrow> int" where
  "availableToSelf s nights rooms night =
     (case omap_get (rt_stock s) night of None \<Rightarrow> -1 | Some row \<Rightarrow> sn_available row) + (if night \<in> set nights then rooms else 0)"

definition give_night :: "int \<Rightarrow> (string, StockNight) omap \<Rightarrow> string \<Rightarrow> (string, StockNight) omap" where
  "give_night rooms stock night =
     (case omap_get stock night of
        None \<Rightarrow> stock
      | Some row \<Rightarrow> omap_put night (row\<lparr>sn_available := sn_available row + rooms\<rparr>) stock)"

definition retake_night :: "int \<Rightarrow> (string, StockNight) omap option \<Rightarrow> string \<Rightarrow> (string, StockNight) omap option" where
  "retake_night rooms st night =
     (case st of
        None \<Rightarrow> None
      | Some stock \<Rightarrow> if has_rooms stock rooms night then Some (take_night rooms stock night) else None)"

definition amendFinite :: "ReserveState \<Rightarrow> string list \<Rightarrow> int \<Rightarrow> string list \<Rightarrow> int \<Rightarrow> ReserveState \<times> ReserveResult" where
  "amendFinite s old_nights old_rooms new_nights new_rooms =
     (if \<not> list_all (\<lambda>night. new_rooms \<le> availableToSelf s old_nights old_rooms night) new_nights then (s, REJECTED)
      else
        case foldl (retake_night new_rooms) (Some (foldl (give_night old_rooms) (rt_stock s) old_nights)) new_nights of
          None \<Rightarrow> (s, REJECTED)
        | Some stock \<Rightarrow> (s\<lparr>rt_stock := stock\<rparr>, RESERVED))"

definition releaseOnCancel :: "bool \<Rightarrow> int \<Rightarrow> int" where
  "releaseOnCancel release_policy quantity = (if release_policy then quantity else 0)"

record HoldRow =
  hr_id :: string
  hr_status :: string
  hr_expiresAt :: string

definition holdsToExpire :: "(string \<Rightarrow> int option) \<Rightarrow> HoldRow list \<Rightarrow> int \<Rightarrow> string list" where
  "holdsToExpire date_parse holds now =
     map hr_id (filter (\<lambda>h. hr_status h = ''ACTIVE'' \<and> (case date_parse (hr_expiresAt h) of None \<Rightarrow> False | Some t \<Rightarrow> t \<le> now)) holds)"

subsection \<open>Distribution and release\<close>

datatype DistributionState = PENDING | ACKNOWLEDGED | FAILED

record DistributionJobState =
  dj_state :: DistributionState
  dj_attempts :: nat
  dj_lastError :: "string option"

definition applyDelivery :: "DistributionJobState \<Rightarrow> bool \<Rightarrow> string option \<Rightarrow> DistributionJobState" where
  "applyDelivery job acknowledged err =
     (if dj_state job = ACKNOWLEDGED then job
      else if acknowledged then \<lparr>dj_state = ACKNOWLEDGED, dj_attempts = dj_attempts job + 1, dj_lastError = None\<rparr>
      else \<lparr>dj_state = FAILED, dj_attempts = dj_attempts job + 1,
             dj_lastError = Some (case err of None \<Rightarrow> ''Delivery failed'' | Some e \<Rightarrow> e)\<rparr>)"

definition postReleaseMode :: "string \<Rightarrow> RoomSalesMode result" where
  "postReleaseMode policy =
     (if policy \<notin> set POST_RELEASE_POLICIES then Inl (Error ''POST_RELEASE_POLICY'')
      else if policy = ''ON_REQUEST'' then Inr RoomSalesMode.ON_REQUEST
      else if policy = ''AUTHORIZED_FREE_SALE'' then Inr RoomSalesMode.FREE_SALE
      else Inr STOP_SALE)"

definition releasedContracted :: "InventoryTerms \<Rightarrow> int \<times> bool" where
  "releasedContracted t =
     (let kept = it_confirmed t + it_activeHolds t;
          blocked = (if it_blockedAlreadyExcluded t then 0 else it_blocked t) in
      (max 0 (kept - it_approvedAdjustment t + blocked), availableInventory t < 0))"

datatype IdempotencyDecision = New | Replay | Clash

definition idempotencyDecision :: "string option \<Rightarrow> string \<Rightarrow> IdempotencyDecision" where
  "idempotencyDecision storedHash requestHash =
     (case storedHash of None \<Rightarrow> New | Some h \<Rightarrow> if h = requestHash then Replay else Clash)"


subsection \<open>Instant confirmation\<close>

lemma foldl_min: "foldl min (m :: int) xs \<ge> k \<longleftrightarrow> k \<le> m \<and> (\<forall>x \<in> set xs. k \<le> x)"
  by (induction xs arbitrary: m) auto

lemma min_of_ge: "xs \<noteq> [] \<Longrightarrow> k \<le> min_of xs \<longleftrightarrow> (\<forall>x \<in> set xs. k \<le> x)"
  by (cases xs) (auto simp: foldl_min)

lemma reason_if_Nil [simp]: "reason_if test t = [] \<longleftrightarrow> \<not> test" "set (reason_if test t) = (if test then {t} else {})"
  by (simp_all add: reason_if_def)

lemma supplier_prefix: "startsWith SUPPLIER_REASON ''Supplier confirmation''" "\<not> startsWith STOP_REASON ''Supplier confirmation''"
    "startsWith STOP_REASON ''Stop Sale''"
  by code_simp+

text \<open>The night has a rule that sells it, no rule that stops it or asks the supplier, and every cap and the stock suffice.\<close>

definition instant_rules :: "RoomSalesRuleView list \<Rightarrow> int option \<Rightarrow> int option \<Rightarrow> int \<Rightarrow> bool" where
  "instant_rules rules consumed left rooms \<longleftrightarrow>
     (\<exists>r \<in> set rules. rv_mode r = RoomSalesMode.FREE_SALE \<or> limits r)
     \<and> (\<forall>r \<in> set rules. rv_mode r \<noteq> STOP_SALE \<and> rv_mode r \<noteq> RoomSalesMode.ON_REQUEST)
     \<and> (\<forall>r \<in> set rules. limits r \<longrightarrow> (case consumed of None \<Rightarrow> False | Some c \<Rightarrow> c + rooms \<le> cap_of r))
     \<and> ((\<exists>r \<in> set rules. rv_consumesInventory r \<or> limits r) \<longrightarrow> (case left of None \<Rightarrow> False | Some n \<Rightarrow> rooms \<le> n))"

lemma no_sales_reasons:
  "sales_reasons i = [] \<longleftrightarrow>
     \<not> ei_legacyStop i \<and> ei_legacyMode i \<noteq> Some CLOSED \<and> \<not> rs_stopSale (ei_resolved i)
     \<and> \<not> ei_quarantinedRate i \<and> ei_verifiedRate i \<and> \<not> rs_overCap (ei_resolved i) \<and> \<not> rs_capUnknown (ei_resolved i)
     \<and> (needs_stock (ei_resolved i) \<longrightarrow> (case ei_inventoryRemaining i of None \<Rightarrow> False | Some n \<Rightarrow> ei_roomsRequested i \<le> n))
     \<and> (case rs_capRemaining (ei_resolved i) of None \<Rightarrow> True | Some c \<Rightarrow> ei_roomsRequested i \<le> max 0 c)
     \<and> ei_legacyMode i \<noteq> Some LegacyMode.ON_REQUEST \<and> \<not> rs_onRequest (ei_resolved i)"
  by (auto simp: sales_reasons_def Let_def stock_reasons_def not_less split: option.splits)

lemma effective_instant:
  "fst (effectiveOutcome i) = INSTANT \<longleftrightarrow>
     sales_reasons i = [] \<and> rs_applicable (ei_resolved i) \<noteq> 0 \<and> rs_configuredMode (ei_resolved i) \<noteq> None"
proof (cases "sales_reasons i")
  case Nil
  then show ?thesis by (auto simp: effectiveOutcome_def Let_def)
next
  case (Cons a as)
  have "list_ex (\<lambda>t. startsWith t ''Supplier confirmation'') (sales_reasons i)"
    if "filter (\<lambda>t. \<not> startsWith t ''Supplier confirmation'') (sales_reasons i) = []"
    using that Cons by (auto split: if_splits)
  then show ?thesis using Cons by (auto simp: effectiveOutcome_def Let_def)
qed

lemma resolved_caps:
  assumes "matched = filter (rule_applies date_parse i) (ri_rules i)" "1 \<le> (rooms :: int)"
  shows "(\<not> rs_overCap (resolveRoomSales date_parse i) \<and> \<not> rs_capUnknown (resolveRoomSales date_parse i)
      \<and> (case rs_capRemaining (resolveRoomSales date_parse i) of None \<Rightarrow> True | Some c \<Rightarrow> rooms \<le> max 0 c))
    \<longleftrightarrow> (\<forall>r \<in> set matched. limits r \<longrightarrow> (case ri_consumed i of None \<Rightarrow> False | Some c \<Rightarrow> c + rooms \<le> cap_of r))"
proof (cases "ri_consumed i")
  case None
  then show ?thesis using assms(1) by (auto simp: resolveRoomSales_def Let_def filter_empty_conv)
next
  case (Some consumed)
  let ?caps = "map (\<lambda>r. remainingCap (cap_of r) consumed 0) (filter limits matched)"
  show ?thesis
  proof (cases "filter limits matched = []")
    case True
    then show ?thesis using Some assms(1) by (auto simp: resolveRoomSales_def Let_def filter_empty_conv)
  next
    case False
    have "rooms \<le> min_of ?caps \<longleftrightarrow> (\<forall>r \<in> set matched. limits r \<longrightarrow> consumed + rooms \<le> cap_of r)"
      using False by (subst min_of_ge) (auto simp: remainingCap_def)
    moreover have "rs_capRemaining (resolveRoomSales date_parse i) = Some (min_of ?caps)"
        "rs_overCap (resolveRoomSales date_parse i) \<longleftrightarrow> min_of ?caps < 0" "\<not> rs_capUnknown (resolveRoomSales date_parse i)"
      using False Some assms(1) by (simp_all add: resolveRoomSales_def Let_def)
    ultimately show ?thesis using Some assms(2) by auto
  qed
qed

text \<open>
  C27. A night is sold with instant confirmation exactly when, among the rules that apply to it, one sells
  it, none stops it or asks the supplier, each cap leaves the rooms after what is consumed, the stock holds
  them whenever a rule or a cap draws on it, the plan's own mode neither closes nor asks, and a verified
  rate is not quarantined. A cap with unknown consumption or an unknown stock is never instant.
\<close>

theorem instant_sale_iff:
  assumes "ei_resolved e = resolveRoomSales date_parse i" "1 \<le> ei_roomsRequested e"
  shows "fst (effectiveOutcome e) = INSTANT \<longleftrightarrow>
    instant_rules (filter (rule_applies date_parse i) (ri_rules i)) (ri_consumed i) (ei_inventoryRemaining e) (ei_roomsRequested e)
    \<and> ei_verifiedRate e \<and> \<not> ei_quarantinedRate e
    \<and> \<not> ei_legacyStop e \<and> ei_legacyMode e \<noteq> Some CLOSED \<and> ei_legacyMode e \<noteq> Some LegacyMode.ON_REQUEST"
proof -
  let ?m = "filter (rule_applies date_parse i) (ri_rules i)" and ?r = "resolveRoomSales date_parse i"
  have modes: "rs_stopSale ?r \<longleftrightarrow> (\<exists>r \<in> set ?m. rv_mode r = STOP_SALE)" "rs_onRequest ?r \<longleftrightarrow> (\<exists>r \<in> set ?m. rv_mode r = RoomSalesMode.ON_REQUEST)"
    "rs_applicable ?r = length ?m"
    by (simp_all add: resolveRoomSales_def Let_def list_ex_iff)
  have sells: "\<not> rs_stopSale ?r \<Longrightarrow> \<not> rs_onRequest ?r \<Longrightarrow>
      rs_configuredMode ?r \<noteq> None \<longleftrightarrow> (\<exists>r \<in> set ?m. rv_mode r = RoomSalesMode.FREE_SALE \<or> limits r)"
    by (auto simp: resolveRoomSales_def Let_def list_ex_iff filter_empty_conv)
  have stock: "\<not> rs_stopSale ?r \<Longrightarrow> \<not> rs_onRequest ?r \<Longrightarrow> rs_configuredMode ?r \<noteq> None \<Longrightarrow>
      needs_stock ?r \<longleftrightarrow> (\<exists>r \<in> set ?m. rv_consumesInventory r \<or> limits r)"
    by (auto simp: resolveRoomSales_def Let_def list_ex_iff needs_stock_def filter_empty_conv)
  have n: "rs_applicable ?r \<noteq> 0" if "\<exists>r \<in> set ?m. rv_mode r = RoomSalesMode.FREE_SALE \<or> limits r"
    using that modes(3) by (metis length_pos_if_in_set less_numeral_extra(3))
  show ?thesis
    using resolved_caps [OF refl assms(2), of date_parse i] modes sells stock n
    unfolding effective_instant no_sales_reasons instant_rules_def assms(1) by blast
qed

text \<open>A rule that stops the night at any breadth blocks it, whatever the other rules say.\<close>

lemma stop_sale_dominates:
  assumes "ei_resolved e = resolveRoomSales date_parse i" "r \<in> set (ri_rules i)" "rule_applies date_parse i r" "rv_mode r = STOP_SALE"
  shows "fst (effectiveOutcome e) = STOPPED"
proof -
  have s: "rs_stopSale (ei_resolved e)" "rs_applicable (ei_resolved e) \<noteq> 0"
    using assms by (auto simp: resolveRoomSales_def Let_def list_ex_iff filter_empty_conv)
  then have m: "STOP_REASON \<in> set (sales_reasons e)" by (simp add: sales_reasons_def Let_def)
  then have "STOP_REASON \<in> set (filter (\<lambda>t. \<not> startsWith t ''Supplier confirmation'') (sales_reasons e))"
    by (simp add: supplier_prefix)
  then have "filter (\<lambda>t. \<not> startsWith t ''Supplier confirmation'') (sales_reasons e) \<noteq> []"
    by (metis emptyE empty_set)
  moreover have "list_ex (\<lambda>t. startsWith t ''Stop Sale'') (sales_reasons e)" using m supplier_prefix(3) by (auto simp: list_ex_iff)
  ultimately show ?thesis using s by (simp add: effectiveOutcome_def Let_def)
qed

definition sample_rule :: RoomSalesRuleView where
  "sample_rule = \<lparr>rv_roomTypeId = ''r1'', rv_stayDate = ''2025-07-01'', rv_poolKey = [], rv_planKey = [], rv_channelKey = [], rv_marketKey = [],
     rv_contractKey = [], rv_mode = LIMITED, rv_salesCap = Some 5, rv_consumesInventory = True, rv_overrideExpiresAt = None\<rparr>"

definition sample_night :: ResolveInput where
  "sample_night = \<lparr>ri_rules = [sample_rule], ri_roomTypeId = ''r1'', ri_ratePlanId = ''p1'', ri_poolId = None, ri_contractId = None,
     ri_stayDate = ''2025-07-01'', ri_channel = None, ri_market = None, ri_now = 0, ri_consumed = Some 3\<rparr>"

definition sample_effective :: "int \<Rightarrow> EffectiveInput" where
  "sample_effective rooms = \<lparr>ei_resolved = resolveRoomSales (\<lambda>_. None) sample_night, ei_verifiedRate = True, ei_quarantinedRate = False,
     ei_inventoryRemaining = Some 4, ei_legacyMode = None, ei_legacyStop = False, ei_roomsRequested = rooms\<rparr>"

lemma instant_sale_iff_witness:
  "fst (effectiveOutcome (sample_effective 2)) = INSTANT \<and> fst (effectiveOutcome (sample_effective 3)) = UNAVAILABLE"
proof
  have "instant_rules (filter (rule_applies (\<lambda>_. None) sample_night) (ri_rules sample_night)) (Some 3) (Some 4) 2"
    by code_simp
  then show "fst (effectiveOutcome (sample_effective 2)) = INSTANT"
    using instant_sale_iff [of "sample_effective 2" "\<lambda>_. None" sample_night]
    by (simp add: sample_effective_def sample_night_def)
  show "fst (effectiveOutcome (sample_effective 3)) = UNAVAILABLE" by code_simp
qed



subsection \<open>The reservation refines a booking list\<close>

text \<open>
  The abstract seller keeps a capacity per night, the list of what it sold and the requests it refused for
  lack of rooms; it sells a request when every night still has the rooms.
\<close>

record SalesBook =
  sb_sold :: "(string \<times> string \<times> string list \<times> int) list"
  sb_refused :: "(string \<times> string) list"

definition rooms_sold :: "SalesBook \<Rightarrow> string \<Rightarrow> int" where
  "rooms_sold b night = sum_list (map (\<lambda>(_, _, nights, rooms). if night \<in> set nights then rooms else 0) (sb_sold b))"

definition sell :: "(string \<Rightarrow> int option) \<Rightarrow> SalesBook \<Rightarrow> ReserveRequest \<Rightarrow> SalesBook \<times> ReserveResult" where
  "sell capacity b r =
     (let key = rq_idempotencyKey r; fp = rq_fingerprint r in
      if (\<exists>s \<in> set (sb_sold b). fst s = key) then (b, if (\<exists>s \<in> set (sb_sold b). fst s = key \<and> fst (snd s) = fp) then REPLAY else CONFLICT)
      else if (\<exists>s \<in> set (sb_refused b). fst s = key) then (b, if (key, fp) \<in> set (sb_refused b) then REJECTED else CONFLICT)
      else case rq_rooms r of
        JNonInt \<Rightarrow> (b, REJECTED)
      | JInt rooms \<Rightarrow>
          if rooms < 1 then (b, REJECTED)
          else if list_all (\<lambda>night. case capacity night of None \<Rightarrow> False | Some c \<Rightarrow> rooms_sold b night + rooms \<le> c) (rq_nights r)
            then (b\<lparr>sb_sold := sb_sold b @ [(key, fp, rq_nights r, rooms)]\<rparr>, RESERVED)
          else (b\<lparr>sb_refused := sb_refused b @ [(key, fp)]\<rparr>, REJECTED))"

text \<open>The abstraction: what is left of a night is its capacity less what was sold, and the seen keys are the book's.\<close>

definition refines :: "(string \<Rightarrow> int option) \<Rightarrow> ReserveState \<Rightarrow> SalesBook \<Rightarrow> bool" where
  "refines capacity s b \<longleftrightarrow>
     (\<forall>night. map_option sn_available (omap_get (rt_stock s) night) = map_option (\<lambda>c. c - rooms_sold b night) (capacity night))
     \<and> (\<forall>key. omap_get (rt_seen s) key =
          (case map_of (map (\<lambda>(k, fp, _). (k, fp)) (sb_sold b)) key of
             Some fp \<Rightarrow> Some (fp, SEEN_RESERVED)
           | None \<Rightarrow> map_option (\<lambda>fp. (fp, SEEN_REJECTED)) (map_of (sb_refused b) key)))
     \<and> distinct (map fst (sb_sold b)) \<and> distinct (map fst (sb_refused b))"

lemma take_night_get:
  "omap_get (take_night rooms stock night) n =
     (if n = night then map_option (\<lambda>row. row\<lparr>sn_available := sn_available row - rooms, sn_version := sn_version row + 1\<rparr>) (omap_get stock n)
      else omap_get stock n)"
  by (simp add: take_night_def split: option.splits)

lemma take_nights_available:
  assumes "distinct nights"
  shows "map_option sn_available (omap_get (foldl (take_night rooms) stock nights) n) =
     map_option (\<lambda>a. a - (if n \<in> set nights then rooms else 0)) (map_option sn_available (omap_get stock n))"
  using assms
proof (induction nights arbitrary: stock)
  case (Cons night nights)
  then show ?case by (auto simp: take_night_get option.map_comp comp_def)
qed (simp add: option.map_comp comp_def option.map_ident)

lemma has_rooms_refines:
  assumes "refines capacity s b"
  shows "has_rooms (rt_stock s) rooms night \<longleftrightarrow> (case capacity night of None \<Rightarrow> False | Some c \<Rightarrow> rooms_sold b night + rooms \<le> c)"
proof -
  have "map_option sn_available (omap_get (rt_stock s) night) = map_option (\<lambda>c. c - rooms_sold b night) (capacity night)"
    using assms by (simp add: refines_def)
  then show ?thesis by (cases "omap_get (rt_stock s) night"; cases "capacity night") (auto simp: has_rooms_def)
qed

lemma sold_key: "(\<exists>s \<in> set xs. fst s = key) \<longleftrightarrow> map_of (map (\<lambda>(k, fp, _). (k, fp)) xs) key \<noteq> None"
  by (induction xs) auto

lemma sold_fingerprint:
  "distinct (map fst xs) \<Longrightarrow>
   (\<exists>s \<in> set xs. fst s = key \<and> fst (snd s) = fp) \<longleftrightarrow> map_of (map (\<lambda>(k, fp, _). (k, fp)) xs) key = Some fp"
  by (induction xs) (auto simp: image_iff)

lemma refused_key: "(\<exists>s \<in> set xs. fst s = key) \<longleftrightarrow> map_of xs key \<noteq> None"
  by (induction xs) auto

lemma rooms_sold_sold [simp]:
  "rooms_sold (b\<lparr>sb_sold := sb_sold b @ [(key, fp, nights, rooms)]\<rparr>) night = rooms_sold b night + (if night \<in> set nights then rooms else 0)"
  "rooms_sold (b\<lparr>sb_refused := x\<rparr>) night = rooms_sold b night"
  by (simp_all add: rooms_sold_def)

text \<open>A key that neither side knows.\<close>

definition fresh_key :: "SalesBook \<Rightarrow> string \<Rightarrow> bool" where
  "fresh_key b key \<longleftrightarrow> key \<notin> fst ` set (sb_sold b) \<and> key \<notin> fst ` set (sb_refused b)"

lemma fresh_maps:
  "fresh_key b key \<Longrightarrow> map_of (map (\<lambda>(k, fp, _). (k, fp)) (sb_sold b)) key = None \<and> map_of (sb_refused b) key = None"
  by (force simp: fresh_key_def map_of_eq_None_iff)

lemma refines_sold:
  assumes "refines capacity s b" "fresh_key b (rq_idempotencyKey r)" "distinct (rq_nights r)"
  shows "refines capacity (see r SEEN_RESERVED (s\<lparr>rt_stock := foldl (take_night rooms) (rt_stock s) (rq_nights r)\<rparr>))
    (b\<lparr>sb_sold := sb_sold b @ [(rq_idempotencyKey r, rq_fingerprint r, rq_nights r, rooms)]\<rparr>)"
  using assms fresh_maps [OF assms(2)]
  by (auto simp: refines_def fresh_key_def see_def take_nights_available option.map_comp comp_def map_add_def
      intro!: option.map_cong split: option.splits)

lemma refines_refused:
  assumes "refines capacity s b" "fresh_key b (rq_idempotencyKey r)"
  shows "refines capacity (see r SEEN_REJECTED s) (b\<lparr>sb_refused := sb_refused b @ [(rq_idempotencyKey r, rq_fingerprint r)]\<rparr>)"
  using assms fresh_maps [OF assms(2)]
  by (auto simp: refines_def fresh_key_def see_def map_add_def split: option.splits)

lemma fits_refines:
  assumes "refines capacity s b"
  shows "list_all (\<lambda>night. case capacity night of None \<Rightarrow> False | Some c \<Rightarrow> rooms_sold b night + rooms \<le> c) nights
    \<longleftrightarrow> list_all (has_rooms (rt_stock s) rooms) nights"
  by (simp add: has_rooms_refines [OF assms] list_all_iff)

lemma sell_fresh:
  assumes "refines capacity s b" "fresh_key b (rq_idempotencyKey r)"
  shows "sell capacity b r =
     (case rq_rooms r of
        JNonInt \<Rightarrow> (b, REJECTED)
      | JInt rooms \<Rightarrow>
          if rooms < 1 then (b, REJECTED)
          else if \<not> list_all (has_rooms (rt_stock s) rooms) (rq_nights r)
            then (b\<lparr>sb_refused := sb_refused b @ [(rq_idempotencyKey r, rq_fingerprint r)]\<rparr>, REJECTED)
          else (b\<lparr>sb_sold := sb_sold b @ [(rq_idempotencyKey r, rq_fingerprint r, rq_nights r, rooms)]\<rparr>, RESERVED))"
proof -
  have "\<not> (\<exists>x \<in> set (sb_sold b). fst x = rq_idempotencyKey r)" "\<not> (\<exists>x \<in> set (sb_refused b). fst x = rq_idempotencyKey r)"
    using assms(2) unfolding fresh_key_def by (metis image_eqI)+
  then show ?thesis by (simp add: sell_def Let_def fits_refines [OF assms(1)] split: jsnum.splits)
qed

lemma refines_seen:
  assumes "refines capacity s b"
  shows "omap_get (rt_seen s) key =
      (case map_of (map (\<lambda>(k, fp, _). (k, fp)) (sb_sold b)) key of
         Some fp \<Rightarrow> Some (fp, SEEN_RESERVED)
       | None \<Rightarrow> map_option (\<lambda>fp. (fp, SEEN_REJECTED)) (map_of (sb_refused b) key))"
  using assms by (simp add: refines_def)

text \<open>A key both sides know: nothing moves and the answers agree.\<close>

lemma reserve_known:
  assumes "refines capacity s b" "\<not> fresh_key b (rq_idempotencyKey r)"
  shows "snd (reserveFinite s r) = snd (sell capacity b r) \<and> fst (reserveFinite s r) = s \<and> fst (sell capacity b r) = b"
proof -
  let ?key = "rq_idempotencyKey r"
  have d: "distinct (map fst (sb_sold b))" "distinct (map fst (sb_refused b))" using assms(1) by (simp_all add: refines_def)
  show ?thesis
  proof (cases "map_of (map (\<lambda>(k, fp, _). (k, fp)) (sb_sold b)) ?key")
    case (Some fp)
    then show ?thesis
      by (simp add: reserveFinite_def sell_def Let_def refines_seen [OF assms(1)] sold_key sold_fingerprint [OF d(1)])
  next
    case sold: None
    then have "?key \<notin> fst ` set (sb_sold b)" using sold_key [of "sb_sold b" ?key] by auto
    then have "?key \<in> fst ` set (sb_refused b)" using assms(2) by (simp add: fresh_key_def)
    then obtain fp where fp: "map_of (sb_refused b) ?key = Some fp" by (metis map_of_eq_None_iff not_None_eq)
    then have "(?key, rq_fingerprint r) \<in> set (sb_refused b) \<longleftrightarrow> fp = rq_fingerprint r"
      using d(2) by (metis map_of_SomeD map_of_is_SomeI option.inject)
    then show ?thesis using sold fp
      by (simp add: reserveFinite_def sell_def Let_def refines_seen [OF assms(1)] sold_key refused_key)
  qed
qed

text \<open>
  C18. Reserving finite stock implements the booking list: on states that agree, the code and the abstract
  seller give the same answer (reserved, replayed, in conflict or refused) and end in states that agree, so
  nothing is reserved in part, a repeated key never takes rooms twice, and what is left is always the
  capacity less what was sold, never below nothing.
\<close>

theorem reserve_refines_sell:
  assumes "refines capacity s b" "distinct (rq_nights r)" "\<forall>night c. capacity night = Some c \<longrightarrow> rooms_sold b night \<le> c"
  shows "snd (reserveFinite s r) = snd (sell capacity b r) \<and> refines capacity (fst (reserveFinite s r)) (fst (sell capacity b r))
    \<and> (\<forall>night c. capacity night = Some c \<longrightarrow> rooms_sold (fst (sell capacity b r)) night \<le> c)"
proof (cases "fresh_key b (rq_idempotencyKey r)")
  case fresh: True
  then have seen: "omap_get (rt_seen s) (rq_idempotencyKey r) = None" using fresh_maps by (simp add: refines_seen [OF assms(1)])
  show ?thesis
  proof (cases "rq_rooms r")
    case (JInt rooms)
    have "rooms_sold b night + (if night \<in> set (rq_nights r) then rooms else 0) \<le> c"
      if "list_all (has_rooms (rt_stock s) rooms) (rq_nights r)" "capacity night = Some c" for night c
      using that assms(3) by (auto simp: list_all_iff has_rooms_refines [OF assms(1)])
    then show ?thesis
      using JInt seen refines_sold [OF assms(1) fresh assms(2)] refines_refused [OF assms(1) fresh] assms(1,3)
      by (simp add: sell_fresh [OF assms(1) fresh] reserveFinite_def)
  qed (use seen assms(1,3) in \<open>simp add: sell_fresh [OF assms(1) fresh] reserveFinite_def\<close>)
qed (use reserve_known [OF assms(1)] assms(1,3) in simp)

definition sample_stock :: ReserveState where
  "sample_stock = \<lparr>rt_stock = [(''n1'', \<lparr>sn_id = ''n1'', sn_available = 2, sn_version = 1\<rparr>), (''n2'', \<lparr>sn_id = ''n2'', sn_available = 1, sn_version = 1\<rparr>)],
     rt_seen = []\<rparr>"

definition sample_request :: "string \<Rightarrow> ReserveRequest" where
  "sample_request key = \<lparr>rq_idempotencyKey = key, rq_fingerprint = ''f'', rq_nights = [''n1'', ''n2''], rq_rooms = JInt 1\<rparr>"

lemma reserve_refines_sell_witness:
  "snd (reserveFinite sample_stock (sample_request ''a'')) = RESERVED
   \<and> snd (reserveFinite (fst (reserveFinite sample_stock (sample_request ''a''))) (sample_request ''b'')) = REJECTED
   \<and> refines (map_of [(''n1'', 2), (''n2'', 1)]) (fst (reserveFinite sample_stock (sample_request ''a'')))
       \<lparr>sb_sold = [(''a'', ''f'', [''n1'', ''n2''], 1)], sb_refused = []\<rparr>"
proof (intro conjI)
  let ?b = "\<lparr>sb_sold = [], sb_refused = []\<rparr>" and ?c = "map_of [(''n1'', 2), (''n2'', 1)] :: string \<Rightarrow> int option"
  have "refines ?c sample_stock ?b"
    by (simp add: refines_def rooms_sold_def sample_stock_def omap_get_def)
  moreover have "distinct (rq_nights (sample_request ''a''))" by code_simp
  moreover have "\<forall>night c. ?c night = Some c \<longrightarrow> rooms_sold ?b night \<le> c" by (simp add: rooms_sold_def split: if_splits)
  ultimately have r: "snd (reserveFinite sample_stock (sample_request ''a'')) = snd (sell ?c ?b (sample_request ''a''))"
      "refines ?c (fst (reserveFinite sample_stock (sample_request ''a''))) (fst (sell ?c ?b (sample_request ''a'')))"
    using reserve_refines_sell [of ?c sample_stock ?b "sample_request ''a''"] by blast+
  have s: "sell ?c ?b (sample_request ''a'') = (\<lparr>sb_sold = [(''a'', ''f'', [''n1'', ''n2''], 1)], sb_refused = []\<rparr>, RESERVED)"
    by (simp add: sell_def sample_request_def rooms_sold_def)
  show "snd (reserveFinite sample_stock (sample_request ''a'')) = RESERVED" using r(1) s by simp
  show "refines ?c (fst (reserveFinite sample_stock (sample_request ''a''))) \<lparr>sb_sold = [(''a'', ''f'', [''n1'', ''n2''], 1)], sb_refused = []\<rparr>"
    using r(2) s by simp
  show "snd (reserveFinite (fst (reserveFinite sample_stock (sample_request ''a''))) (sample_request ''b'')) = REJECTED" by code_simp
qed



subsection \<open>Amending a reservation\<close>

lemma give_nights_available:
  assumes "distinct nights"
  shows "map_option sn_available (omap_get (foldl (give_night rooms) stock nights) n) =
     map_option (\<lambda>a. a + (if n \<in> set nights then rooms else 0)) (map_option sn_available (omap_get stock n))"
  using assms
proof (induction nights arbitrary: stock)
  case (Cons night nights)
  have "omap_get (give_night rooms stock night) n =
      (if n = night then map_option (\<lambda>row. row\<lparr>sn_available := sn_available row + rooms\<rparr>) (omap_get stock n) else omap_get stock n)"
    by (simp add: give_night_def split: option.splits)
  with Cons show ?case by (auto simp: option.map_comp comp_def)
qed (simp add: option.map_comp comp_def option.map_ident)

lemma retake_None [simp]: "foldl (retake_night rooms) None nights = None"
  by (induction nights) (simp_all add: retake_night_def)

lemma has_rooms_other: "n \<noteq> night \<Longrightarrow> has_rooms (take_night rooms stock night) k n = has_rooms stock k n"
  by (simp add: has_rooms_def take_night_get)

lemma retake_Some: "retake_night rooms (Some stock) night = (if has_rooms stock rooms night then Some (take_night rooms stock night) else None)"
  by (simp add: retake_night_def)

lemma retake_nights:
  assumes "distinct nights"
  shows "foldl (retake_night rooms) (Some stock) nights =
     (if list_all (has_rooms stock rooms) nights then Some (foldl (take_night rooms) stock nights) else None)"
  using assms
proof (induction nights arbitrary: stock)
  case (Cons night nights)
  have "list_all (has_rooms (take_night rooms stock night) rooms) nights = list_all (has_rooms stock rooms) nights"
    using Cons.prems has_rooms_other unfolding list_all_iff by (metis distinct.simps(2))
  with Cons show ?case by (simp add: retake_Some)
qed simp

text \<open>
  An amendment moves exactly its own rooms: it succeeds when every replacement night is in stock and holds
  the new rooms counting the ones the booking gives back, and then each night has what it had plus the
  rooms given back less the rooms taken; otherwise nothing changes at all.
\<close>

theorem amend_exact:
  assumes "distinct old_nights" "distinct new_nights"
  shows "let (s', res) = amendFinite s old_nights old_rooms new_nights new_rooms;
      given = (\<lambda>night. if night \<in> set old_nights then old_rooms else 0);
      enough = (\<forall>night \<in> set new_nights. \<exists>row. omap_get (rt_stock s) night = Some row \<and> new_rooms \<le> sn_available row + given night)
    in (res = (if enough then RESERVED else REJECTED)) \<and> rt_seen s' = rt_seen s
      \<and> (if enough
          then (\<forall>night. map_option sn_available (omap_get (rt_stock s') night) =
                 map_option (\<lambda>row. sn_available row + given night - (if night \<in> set new_nights then new_rooms else 0)) (omap_get (rt_stock s) night))
          else s' = s)"
proof -
  define given where "given = (\<lambda>night. if night \<in> set old_nights then old_rooms else 0)"
  define stock where "stock = foldl (give_night old_rooms) (rt_stock s) old_nights"
  have av: "map_option sn_available (omap_get stock night) = map_option (\<lambda>row. sn_available row + given night) (omap_get (rt_stock s) night)" for night
    by (simp add: stock_def given_def give_nights_available [OF assms(1)] option.map_comp comp_def)
  have rooms: "has_rooms stock new_rooms night \<longleftrightarrow> (\<exists>row. omap_get (rt_stock s) night = Some row \<and> new_rooms \<le> sn_available row + given night)" for night
    using av [of night] by (cases "omap_get stock night"; cases "omap_get (rt_stock s) night") (auto simp: has_rooms_def)
  have self: "has_rooms stock new_rooms night \<Longrightarrow> new_rooms \<le> availableToSelf s old_nights old_rooms night" for night
    by (auto simp: rooms availableToSelf_def given_def)
  have "amendFinite s old_nights old_rooms new_nights new_rooms =
      (if list_all (has_rooms stock new_rooms) new_nights then (s\<lparr>rt_stock := foldl (take_night new_rooms) stock new_nights\<rparr>, RESERVED) else (s, REJECTED))"
    using self by (auto simp: amendFinite_def retake_nights [OF assms(2)] stock_def [symmetric] list_all_iff)
  moreover have "list_all (has_rooms stock new_rooms) new_nights \<longleftrightarrow>
      (\<forall>night \<in> set new_nights. \<exists>row. omap_get (rt_stock s) night = Some row \<and> new_rooms \<le> sn_available row + given night)"
    by (simp add: list_all_iff rooms)
  ultimately show ?thesis
    by (simp add: Let_def given_def [symmetric] take_nights_available [OF assms(2)] av option.map_comp comp_def)
qed

lemma amend_exact_witness:
  "snd (amendFinite sample_stock [''n1''] 1 [''n1'', ''n2''] 1) = RESERVED
   \<and> map_option sn_available (omap_get (rt_stock (fst (amendFinite sample_stock [''n1''] 1 [''n1'', ''n2''] 1))) ''n2'') = Some 0"
proof -
  have d: "distinct [''n1'']" "distinct [''n1'', ''n2'']" by simp_all
  obtain s' res where a: "amendFinite sample_stock [''n1''] 1 [''n1'', ''n2''] 1 = (s', res)" by fastforce
  show ?thesis using amend_exact [OF d, of sample_stock 1 1] unfolding a Let_def prod.case
    by (simp add: sample_stock_def omap_get_def)
qed

subsection \<open>Batches\<close>

lemma cell_key_inj:
  assumes "isIsoDate d" "isIsoDate d'"
  shows "cell_key r d = cell_key r' d' \<longleftrightarrow> r = r' \<and> d = d'"
proof -
  have "length d = 10" "length d' = 10" using assms by (simp_all add: isIsoDate_def date_shape_def)
  then show ?thesis by (auto simp: cell_key_def)
qed

text \<open>Every wanted cell stands under its own key, with a real date, and they are the listed nights.\<close>

definition cells_ok :: "(string, BatchCell) omap \<Rightarrow> bool" where
  "cells_ok m \<longleftrightarrow> omap_ok m \<and> (\<forall>(k, c) \<in> set m. k = cell_key (bc_roomTypeId c) (bc_stayDate c) \<and> isIsoDate (bc_stayDate c))"

definition cell_night :: "BatchCell \<Rightarrow> string \<times> string" where
  "cell_night c = (bc_roomTypeId c, bc_stayDate c)"

lemma set_omap_put:
  assumes "omap_ok m"
  shows "set (omap_put k v m) = insert (k, v) {p \<in> set m. fst p \<noteq> k}"
proof -
  have "(k', v') \<in> set (omap_put k v m) \<longleftrightarrow> (k', v') \<in> insert (k, v) {p \<in> set m. fst p \<noteq> k}" for k' v'
    using omap_get_Some_iff [of "omap_put k v m" k' v'] omap_get_Some_iff [OF assms, of k' v'] assms by (auto split: if_splits)
  then show ?thesis by auto
qed

lemma want_cell_simps:
  "want_cell (errs, m) (room, day) =
     (if isIsoDate day
      then (errs, omap_put (cell_key room day) \<lparr>bc_roomTypeId = room, bc_stayDate = day, bc_expectedVersion = None, bc_current = None\<rparr> m)
      else (errs @ [''A stay date is not a calendar date.''], m))"
  by (simp add: want_cell_def)

lemma want_cells:
  assumes "foldl want_cell (errs, m) ts = (errs', m')" "cells_ok m"
  shows "cells_ok m' \<and> (errs' = [] \<longrightarrow> errs = [] \<and> cell_night ` snd ` set m' = cell_night ` snd ` set m \<union> set ts)"
  using assms
proof (induction ts arbitrary: errs m)
  case (Cons t ts)
  obtain room day where t: "t = (room, day)" by fastforce
  show ?case
  proof (cases "isIsoDate day")
    case True
    let ?c = "\<lparr>bc_roomTypeId = room, bc_stayDate = day, bc_expectedVersion = None, bc_current = None\<rparr>"
    let ?m = "omap_put (cell_key room day) ?c m"
    have st: "set ?m = insert (cell_key room day, ?c) {p \<in> set m. fst p \<noteq> cell_key room day}"
      using Cons.prems(2) by (simp add: cells_ok_def set_omap_put)
    have "cells_ok ?m" using Cons.prems(2) True by (auto simp: cells_ok_def st)
    moreover have "cell_night ` snd ` set ?m = insert (room, day) (cell_night ` snd ` set m)"
    proof -
      have "cell_night c = (room, day)" if "(cell_key room day, c) \<in> set m" for c
        using that Cons.prems(2) True by (auto simp: cells_ok_def cell_night_def cell_key_inj)
      then show ?thesis unfolding st by (force simp: cell_night_def image_iff)
    qed
    moreover have "foldl want_cell (errs, ?m) ts = (errs', m')" using Cons.prems(1) t True by (simp add: want_cell_simps)
    ultimately show ?thesis using Cons.IH [of errs ?m] t by auto
  next
    case False
    then have "foldl want_cell (errs @ [''A stay date is not a calendar date.''], m) ts = (errs', m')"
      using Cons.prems(1) t by (simp add: want_cell_simps)
    from Cons.IH [OF this Cons.prems(2)] show ?thesis by auto
  qed
qed simp

lemma map_omap_put_same:
  "omap_get m k = Some v \<Longrightarrow> f v' = f v \<Longrightarrow> map (\<lambda>(k, c). (k, f c)) (omap_put k v' m) = map (\<lambda>(k, c). (k, f c)) m"
  by (induction m) (auto simp: omap_get_def split: if_splits)

lemma keys_of_map:
  assumes "map (\<lambda>(k, c). (k, f c)) m = map (\<lambda>(k, c). (k, f c)) m'"
  shows "omap_keys m = omap_keys m'"
  using arg_cong [OF assms, of "map fst"] by (simp add: omap_keys_def comp_def case_prod_beta)

definition wanted_key :: "(string, BatchCell) omap \<Rightarrow> BatchCell \<Rightarrow> bool" where
  "wanted_key m c \<longleftrightarrow> cell_key (bc_roomTypeId c) (bc_stayDate c) \<in> set (omap_keys m)"

lemma meet_cell_one:
  assumes "meet_cell mode (m, conflicts, reopens) cell = (m', conflicts', reopens')"
  shows "map (\<lambda>(k, c). (k, cell_night c)) m' = map (\<lambda>(k, c). (k, cell_night c)) m
    \<and> (conflicts' = [] \<longleftrightarrow> conflicts = [] \<and> (wanted_key m cell \<longrightarrow> map_option cu_version (bc_current cell) = bc_expectedVersion cell))
    \<and> (reopens' \<longleftrightarrow> reopens \<or> (wanted_key m cell \<and> broad_stop cell \<and> mode \<noteq> ''STOP_SALE''))"
proof (cases "omap_get m (cell_key (bc_roomTypeId cell) (bc_stayDate cell))")
  case None
  moreover have "\<not> wanted_key m cell" using None by (simp add: wanted_key_def omap_get_None_iff)
  ultimately show ?thesis using assms by (simp add: meet_cell_def)
next
  case (Some target)
  moreover have "wanted_key m cell" using Some unfolding wanted_key_def by (metis omap_get_None_iff option.distinct(1))
  ultimately show ?thesis using assms
    by (auto simp: meet_cell_def Let_def cell_night_def intro!: map_omap_put_same)
qed

lemma meet_cells:
  assumes "foldl (meet_cell mode) (m, conflicts, reopens) cells = (m', conflicts', reopens')"
  shows "map (\<lambda>(k, c). (k, cell_night c)) m' = map (\<lambda>(k, c). (k, cell_night c)) m
    \<and> (conflicts' = [] \<longleftrightarrow> conflicts = [] \<and> (\<forall>c \<in> set cells. wanted_key m c \<longrightarrow> map_option cu_version (bc_current c) = bc_expectedVersion c))
    \<and> (reopens' \<longleftrightarrow> reopens \<or> (\<exists>c \<in> set cells. wanted_key m c \<and> broad_stop c \<and> mode \<noteq> ''STOP_SALE''))"
  using assms
proof (induction cells arbitrary: m conflicts reopens)
  case (Cons cell cells)
  obtain m1 c1 r1 where s: "meet_cell mode (m, conflicts, reopens) cell = (m1, c1, r1)" by (metis prod_cases3)
  then have rest: "foldl (meet_cell mode) (m1, c1, r1) cells = (m', conflicts', reopens')" using Cons.prems by simp
  note one = meet_cell_one [OF s]
  then have "wanted_key m1 c = wanted_key m c" for c using keys_of_map [of cell_night m1 m] by (simp add: wanted_key_def)
  then show ?case using one Cons.IH [OF rest] by auto
qed simp

lemma cells_distinct:
  assumes "cells_ok m"
  shows "distinct (map cell_night (omap_values m))"
proof -
  have "inj_on (cell_night \<circ> snd) (set m)"
  proof (rule inj_onI)
    fix p q assume a: "p \<in> set m" "q \<in> set m" "(cell_night \<circ> snd) p = (cell_night \<circ> snd) q"
    have "fst x = cell_key (fst (cell_night (snd x))) (snd (cell_night (snd x)))" if "x \<in> set m" for x
      using that assms by (auto simp: cells_ok_def cell_night_def)
    with a have "fst p = fst q" by simp
    then show "p = q" using a assms by (metis cells_ok_def omap_get_Some_iff option.inject prod.collapse)
  qed
  moreover have "distinct m" using assms by (simp add: cells_ok_def omap_ok_def omap_keys_def distinct_map)
  ultimately have "distinct (map (cell_night \<circ> snd) m)" by (simp add: distinct_map)
  then show ?thesis by (simp add: omap_values_def)
qed

lemma wanted_keyI:
  assumes "cells_ok m" "cell_night c \<in> cell_night ` snd ` set m"
  shows "wanted_key m c"
proof -
  obtain k c' where c': "(k, c') \<in> set m" "cell_night c' = cell_night c" using assms(2) by auto
  then have "k = cell_key (bc_roomTypeId c) (bc_stayDate c)" using assms(1) by (auto simp: cells_ok_def cell_night_def)
  moreover have "k \<in> set (omap_keys m)" using c'(1) by (force simp: omap_keys_def)
  ultimately show ?thesis by (simp add: wanted_key_def)
qed

text \<open>
  A batch that may be saved changes exactly the listed room nights, each once and at most two thousand,
  all real dates; no saved rule among them has another version than the one on screen; a room-wide stop is
  reopened only with the confirmation and the authority; a sales cap is between 1 and 9999; and the sale
  draws on finite stock unless the contract is a free sale.
\<close>

theorem batch_accepted:
  assumes "bp_ok (planSalesBatch i)" "list_all (\<lambda>c. isIsoDate (bc_stayDate c)) (bi_current i)"
  shows "let plan = planSalesBatch i; cells = bp_cells plan; nights = listed_nights i (inclusiveDates (bi_from i) (bi_to i)) in
    distinct (map cell_night cells) \<and> cell_night ` set cells = set nights \<and> 1 \<le> length cells \<and> length cells \<le> max_cells
    \<and> list_all (\<lambda>c. isIsoDate (bc_stayDate c)) cells
    \<and> (\<forall>c \<in> set (bi_current i). cell_night c \<in> set nights \<longrightarrow>
         map_option cu_version (bc_current c) = bc_expectedVersion c
         \<and> (broad_stop c \<and> bi_mode i \<noteq> ''STOP_SALE'' \<longrightarrow> bi_confirmBroadReopen i \<and> bi_canReopenBroad i))
    \<and> bi_mode i \<in> set ROOM_SALES_MODES \<and> (bi_mode i = ''LIMITED'' \<longrightarrow> whole_from_to (bi_salesCap i) 1 capMax)
    \<and> (bp_consumesInventory plan \<or> bi_allotmentType i = Some ''FREE_SALE'')"
proof -
  let ?dates = "inclusiveDates (bi_from i) (bi_to i)" and ?mode = "bi_mode i"
  define errs0 where "errs0 = settings_errors i ?dates
    @ reason_if (\<not> list_all (\<lambda>d. d \<in> set (map weekday_text WEEKDAYS)) (allowed_days i)) ''Weekdays must be MON to SUN.''"
  obtain errs m0 where f1: "foldl want_cell (errs0, []) (listed_nights i ?dates) = (errs, m0)" by fastforce
  obtain m conflicts reopens where f2: "foldl (meet_cell ?mode) (m0, [], False) (bi_current i) = (m, conflicts, reopens)" by (metis prod_cases3)
  have plan: "bp_cells (planSalesBatch i) = omap_values m"
    "bp_consumesInventory (planSalesBatch i) \<longleftrightarrow> ?mode = ''LIMITED'' \<or> ?mode = ''STOP_SALE''
       \<or> ((?mode = ''FREE_SALE'' \<or> ?mode = ''ON_REQUEST'') \<and> freeSaleConsumesInventory (bi_allotmentType i))"
    and ok: "errs = []" "m0 \<noteq> []" "length m0 \<le> max_cells" "conflicts = []" "reopens \<longrightarrow> bi_confirmBroadReopen i \<and> bi_canReopenBroad i"
    using assms(1) f1 f2 unfolding planSalesBatch_def Let_def errs0_def [symmetric] by auto
  have w: "cells_ok m0" "errs0 = []" "cell_night ` snd ` set m0 = set (listed_nights i ?dates)"
    using want_cells [OF f1] ok(1) by (auto simp: cells_ok_def omap_ok_def omap_keys_def)
  have met: "map (\<lambda>(k, c). (k, cell_night c)) m = map (\<lambda>(k, c). (k, cell_night c)) m0"
    "\<forall>c \<in> set (bi_current i). wanted_key m0 c \<longrightarrow> map_option cu_version (bc_current c) = bc_expectedVersion c"
    "reopens \<longleftrightarrow> (\<exists>c \<in> set (bi_current i). wanted_key m0 c \<and> broad_stop c \<and> ?mode \<noteq> ''STOP_SALE'')"
    using meet_cells [OF f2] ok(4) by auto
  have cells: "map cell_night (omap_values m) = map cell_night (omap_values m0)"
    using arg_cong [OF met(1), of "map snd"] by (simp add: omap_values_def comp_def case_prod_beta)
  have d0: "distinct (map cell_night (omap_values m0))" using w(1) by (rule cells_distinct)
  have wanted: "wanted_key m0 c" if "c \<in> set (bi_current i)" "cell_night c \<in> set (listed_nights i ?dates)" for c
    using that wanted_keyI [OF w(1)] w(3) by simp
  have settings: "?mode \<in> set ROOM_SALES_MODES" "?mode = ''LIMITED'' \<longrightarrow> whole_from_to (bi_salesCap i) 1 capMax"
    using w(2) by (auto simp: errs0_def settings_errors_def)
  have "\<forall>c \<in> set (bi_current i). cell_night c \<in> set (listed_nights i ?dates) \<longrightarrow>
      map_option cu_version (bc_current c) = bc_expectedVersion c
      \<and> (broad_stop c \<and> ?mode \<noteq> ''STOP_SALE'' \<longrightarrow> bi_confirmBroadReopen i \<and> bi_canReopenBroad i)"
    using met(2,3) ok(5) wanted by blast
  moreover have "distinct (map cell_night (omap_values m))" using d0 cells by simp
  moreover have "cell_night ` set (omap_values m) = set (listed_nights i ?dates)"
    using arg_cong [OF cells, of set] w(3) by (simp add: omap_values_def image_image)
  moreover have "1 \<le> length (omap_values m)" "length (omap_values m) \<le> max_cells"
    using arg_cong [OF cells, of length] ok(2,3) by (cases m0; simp add: omap_values_def)+
  moreover have "list_all (\<lambda>c. isIsoDate (bc_stayDate c)) (omap_values m)"
    using w(1) arg_cong [OF cells, of "list_all (\<lambda>n. isIsoDate (snd n))"]
    by (auto simp: cells_ok_def omap_values_def list_all_iff cell_night_def)
  moreover have "bp_consumesInventory (planSalesBatch i) \<or> bi_allotmentType i = Some ''FREE_SALE''"
    using settings(1) plan(2) by (auto simp: ROOM_SALES_MODES_def freeSaleConsumesInventory_def)
  ultimately show ?thesis using settings unfolding Let_def plan(1) by - (intro conjI; assumption)
qed

end
