(* ===== verification/Time_Zones.thy ===== *)
theory Time_Zones
  imports Js_Values
begin
text \<open>
  Instants and hotel-local time: the part of JavaScript's \<open>Date\<close> the booking code uses on instants, and the
  conversion of a hotel's wall clock to an instant in
  \<open>apps/api/src/agent/cancellation-policy.service.ts\<close>. The time zone database (\<open>Intl.DateTimeFormat\<close>) is a
  parameter: which zones it knows and what its wall clocks show at an instant.
\<close>

subsection \<open>Instants\<close>

definition HOUR_MS :: int where
  "HOUR_MS = 3600000"

definition MAX_DATE_MS :: int where
  "MAX_DATE_MS = 8640000000000000"

text \<open>\<open>Date.UTC\<close>: the years 0 to 99 stand for 1900 to 1999, and months and days past their end roll over.\<close>

definition utc_year :: "int \<Rightarrow> int" where
  "utc_year y = (if 0 \<le> y \<and> y \<le> 99 then 1900 + y else y)"

definition utc_day :: "int \<Rightarrow> int \<Rightarrow> int \<Rightarrow> int" where
  "utc_day y m d = day_of (utc_year y + (m - 1) div 12) ((m - 1) mod 12 + 1) d"

definition utc_ms :: "int \<Rightarrow> int \<Rightarrow> int \<Rightarrow> int \<Rightarrow> int \<Rightarrow> int \<Rightarrow> int" where
  "utc_ms y m d h mi s = MS_PER_DAY * utc_day y m d + HOUR_MS * h + 60000 * mi + 1000 * s"

text \<open>\<open>toISOString\<close>, which throws outside the range of \<open>Date\<close>.\<close>

definition iso_time :: "int \<Rightarrow> string" where
  "iso_time r =
     two_digits (r div HOUR_MS) @ '':'' @ two_digits (r div 60000 mod 60) @ '':'' @ two_digits (r div 1000 mod 60)
     @ ''.'' @ padStart 3 (CHR ''0'') (string_of_nat (nat (r mod 1000)))"

definition iso_date :: "int \<Rightarrow> string" where
  "iso_date n = (let (y, m, d) = civil_of n in year_text y @ ''-'' @ two_digits m @ ''-'' @ two_digits d)"

definition iso_text :: "int \<Rightarrow> string" where
  "iso_text t = iso_date (t div MS_PER_DAY) @ ''T'' @ iso_time (t mod MS_PER_DAY) @ ''Z''"

definition toISOString :: "int \<Rightarrow> string result" where
  "toISOString t = (if \<bar>t\<bar> > MAX_DATE_MS then Inl (RangeError ''Invalid time value'') else Inr (iso_text t))"

text \<open>
  \<open>Date.parse\<close> of the text \<open>toISOString\<close> writes for a four-digit year; \<open>other\<close> is what it makes of any other
  text, not-a-number being none. As the engine does, a day past the end of its month rolls over.
\<close>

definition time_shape :: "string \<Rightarrow> bool" where
  "time_shape s \<longleftrightarrow> length s = 14 \<and> s ! 0 = CHR ''T'' \<and> s ! 3 = CHR '':'' \<and> s ! 6 = CHR '':'' \<and> s ! 9 = CHR ''.'' \<and> s ! 13 = CHR ''Z''
     \<and> list_all is_digit (take 2 (drop 1 s)) \<and> list_all is_digit (take 2 (drop 4 s)) \<and> list_all is_digit (take 2 (drop 7 s))
     \<and> list_all is_digit (take 3 (drop 10 s))"

definition time_ms :: "string \<Rightarrow> int" where
  "time_ms s = HOUR_MS * int (nat_of_digits (take 2 (drop 1 s))) + 60000 * int (nat_of_digits (take 2 (drop 4 s)))
     + 1000 * int (nat_of_digits (take 2 (drop 7 s))) + int (nat_of_digits (take 3 (drop 10 s)))"

definition instant_shape :: "string \<Rightarrow> bool" where
  "instant_shape s \<longleftrightarrow> date_shape (take 10 s) \<and> 1 \<le> month_part s \<and> month_part s \<le> 12 \<and> 1 \<le> day_part s \<and> day_part s \<le> 31
     \<and> time_shape (drop 10 s)
     \<and> nat_of_digits (take 2 (drop 11 s)) < 24 \<and> nat_of_digits (take 2 (drop 14 s)) < 60 \<and> nat_of_digits (take 2 (drop 17 s)) < 60"

definition date_parse :: "(string \<Rightarrow> int option) \<Rightarrow> string \<Rightarrow> int option" where
  "date_parse other s = (if instant_shape s then Some (MS_PER_DAY * dayNumber (take 10 s) + time_ms (drop 10 s)) else other s)"

subsection \<open>Hotel-local time\<close>

record wall_clock =
  wc_year :: int
  wc_month :: int
  wc_day :: int
  wc_hour :: int
  wc_minute :: int
  wc_second :: int

text \<open>A zone that is not known, or an instant that is not a date, makes the formatter throw: none.\<close>

record time_zones =
  tz_known :: "string \<Rightarrow> bool"
  tz_clock :: "string \<Rightarrow> int \<Rightarrow> wall_clock option"

definition partsAt :: "time_zones \<Rightarrow> int \<Rightarrow> string \<Rightarrow> wall_clock option" where
  "partsAt tz instant timeZone = tz_clock tz timeZone instant"

text \<open>The pattern \<open>/^([01]\d|2[0-3]):([0-5]\d)$/\<close>.\<close>

definition local_time_shape :: "string \<Rightarrow> bool" where
  "local_time_shape s \<longleftrightarrow> length s = 5 \<and> s ! 2 = CHR '':'' \<and> list_all is_digit (take 2 s) \<and> list_all is_digit (drop 3 s)
     \<and> nat_of_digits (take 2 s) < 24 \<and> nat_of_digits (drop 3 s) < 60"

definition subtractCalendarDays :: "string \<Rightarrow> jsnum \<Rightarrow> string option" where
  "subtractCalendarDays isoDate days =
     (case days of
        JNonInt \<Rightarrow> None
      | JInt n \<Rightarrow>
          if \<not> date_shape isoDate \<or> n < 0 then None
          else let day = utc_day (year_part isoDate) (month_part isoDate) (day_part isoDate - n) in
               if \<bar>MS_PER_DAY * day\<bar> > MAX_DATE_MS then None else Some (iso_of_day day))"

definition represented :: "wall_clock \<Rightarrow> int" where
  "represented p = utc_ms (wc_year p) (wc_month p) (wc_day p) (wc_hour p) (wc_minute p) (wc_second p)"

text \<open>The guess is corrected by what its wall clock is off, four times at most.\<close>

fun settle :: "(int \<Rightarrow> wall_clock option) \<Rightarrow> int \<Rightarrow> nat \<Rightarrow> int \<Rightarrow> int option" where
  "settle clock desired 0 guess = Some guess"
| "settle clock desired (Suc n) guess =
     (case clock guess of
        None \<Rightarrow> None
      | Some p \<Rightarrow>
          let delta = desired - represented p in
          if delta = 0 then Some (guess + delta) else settle clock desired n (guess + delta))"

definition shows_minute :: "wall_clock \<Rightarrow> int \<Rightarrow> int \<Rightarrow> int \<Rightarrow> int \<Rightarrow> int \<Rightarrow> bool" where
  "shows_minute p y m d h mi \<longleftrightarrow> wc_year p = y \<and> wc_month p = m \<and> wc_day p = d \<and> wc_hour p = h \<and> wc_minute p = mi"

definition zonedLocalToUtc :: "time_zones \<Rightarrow> string \<Rightarrow> string \<Rightarrow> string \<Rightarrow> int option" where
  "zonedLocalToUtc tz date time timeZone =
     (if \<not> date_shape date \<or> \<not> local_time_shape time then None
      else if \<not> tz_known tz timeZone then None
      else
        let y = year_part date; m = month_part date; d = day_part date;
            h = int (nat_of_digits (take 2 time)); mi = int (nat_of_digits (drop 3 time));
            desired = utc_ms y m d h mi 0 in
        case settle (\<lambda>t. partsAt tz t timeZone) desired 4 desired of
          None \<Rightarrow> None
        | Some guess \<Rightarrow>
            (case partsAt tz guess timeZone of
               None \<Rightarrow> None
             | Some p \<Rightarrow> if shows_minute p y m d h mi then Some guess else None))"

text \<open>The day of a tier is found by \<open>setUTCDate\<close>, and a day outside the range of \<open>Date\<close> throws.\<close>

definition penaltyStartsAt :: "time_zones \<Rightarrow> string \<Rightarrow> jsnum \<Rightarrow> string \<Rightarrow> int option result" where
  "penaltyStartsAt tz checkIn days timeZone =
     (case days of
        JNonInt \<Rightarrow> Inr None
      | JInt n \<Rightarrow>
          if \<not> date_shape checkIn \<or> n < 0 then Inr None
          else let day = utc_day (year_part checkIn) (month_part checkIn) (day_part checkIn) - n in
               if \<bar>MS_PER_DAY * day\<bar> > MAX_DATE_MS then Inl (RangeError ''Invalid time value'')
               else Inr (zonedLocalToUtc tz (iso_of_day day) ''00:00'' timeZone))"

subsection \<open>Reading an instant back\<close>

definition four_digit_year :: "int \<Rightarrow> bool" where
  "four_digit_year n \<longleftrightarrow> 0 \<le> fst (civil_of n) \<and> fst (civil_of n) \<le> 9999"

lemma civil_of_month_day:
  assumes "civil_of n = (y, m, d)"
  shows "1 \<le> m \<and> m \<le> 12 \<and> 1 \<le> d \<and> d \<le> 31"
proof -
  obtain yoe doy m' d' where yd: "year_day ((n + 719468) mod 146097) = (yoe, doy)" and md: "month_day doy = (m', d')"
    by fastforce
  have "0 \<le> doy" "doy \<le> 365" using year_day_inverse [OF _ _ yd] by simp_all
  note month_day_inverse [OF this md]
  moreover have "m = m'" "d = d'" using assms unfolding civil_of_def Let_def yd md prod.case by auto
  ultimately show ?thesis by blast
qed

lemma civil_of_bounds:
  assumes "four_digit_year n" "civil_of n = (y, m, d)"
  shows "0 \<le> y" "y \<le> 9999" "1 \<le> m" "m \<le> 12" "1 \<le> d" "d \<le> 31"
  using assms civil_of_month_day [OF assms(2)] by (simp_all add: four_digit_year_def)

lemma iso_date_four:
  assumes "four_digit_year n"
  shows "iso_date n = iso_of_day n" "length (iso_of_day n) = 10"
proof -
  obtain y m d where c: "civil_of n = (y, m, d)" by (cases "civil_of n") auto
  show "iso_date n = iso_of_day n" "length (iso_of_day n) = 10"
    using civil_of_bounds [OF assms c] by (simp_all add: iso_date_def iso_of_day_def c length_year_text length_two_digits)
qed

lemma two_digits_digits: "list_all is_digit (two_digits n)" "list_all is_digit (padStart k (CHR ''0'') (string_of_nat j))"
  using string_of_nat_digits [of "nat n"] string_of_nat_digits [of j]
  by (auto simp: two_digits_def padStart_def list_all_iff is_digit_def char_code_def)

lemma iso_parts:
  assumes "four_digit_year n" "civil_of n = (y, m, d)"
  shows "date_shape (iso_of_day n)" "year_part (iso_of_day n @ s) = y" "month_part (iso_of_day n @ s) = m" "day_part (iso_of_day n @ s) = d"
proof -
  note b = civil_of_bounds [OF assms]
  let ?Y = "year_text y" and ?M = "two_digits m" and ?D = "two_digits d"
  have len: "length ?Y = 4" "length ?M = 2" "length ?D = 2"
    using b by (simp_all add: length_year_text length_two_digits)
  have iso: "iso_of_day n = ?Y @ ''-'' @ ?M @ ''-'' @ ?D"
    using len by (simp add: iso_of_day_def assms(2))
  have Y: "list_all is_digit ?Y" using b by (simp add: year_text_def two_digits_digits)
  show "date_shape (iso_of_day n)"
    unfolding date_shape_def iso using len Y two_digits_digits(1) [of m] two_digits_digits(1) [of d]
    by (simp add: nth_append)
  show "year_part (iso_of_day n @ s) = y" "month_part (iso_of_day n @ s) = m" "day_part (iso_of_day n @ s) = d"
    using len b unfolding year_part_def month_part_def day_part_def iso
    by (simp_all add: nat_of_year_text nat_of_two_digits)
qed

lemma time_of_iso_time:
  assumes "0 \<le> r" "r < MS_PER_DAY"
  shows "time_shape (''T'' @ iso_time r @ ''Z'')" "time_ms (''T'' @ iso_time r @ ''Z'') = r"
    "nat_of_digits (take 2 (iso_time r)) < 24" "nat_of_digits (take 2 (drop 3 (iso_time r))) < 60"
    "nat_of_digits (take 2 (drop 6 (iso_time r))) < 60"
proof -
  define h mi s ms where d: "h = r div HOUR_MS" "mi = r div 60000 mod 60" "s = r div 1000 mod 60" "ms = nat (r mod 1000)"
  let ?H = "two_digits h" and ?M = "two_digits mi" and ?S = "two_digits s" and ?F = "padStart 3 (CHR ''0'') (string_of_nat ms)"
  have b: "0 \<le> h" "h < 24" "0 \<le> mi" "mi < 60" "0 \<le> s" "s < 60" "ms < 1000"
    using assms by (auto simp: d HOUR_MS_def MS_PER_DAY_def pos_imp_zdiv_nonneg_iff)
  have "r div 60000 div 60 = h" "r div 1000 div 60 = r div 60000" by (simp_all add: d HOUR_MS_def zdiv_zmult2_eq [symmetric])
  then have split: "r = HOUR_MS * h + 60000 * mi + 1000 * s + int ms"
    using assms(1) div_mult_mod_eq [of r 1000] div_mult_mod_eq [of "r div 1000" 60] div_mult_mod_eq [of "r div 60000" 60]
    unfolding d(2-4) HOUR_MS_def by (simp del: div_mult_mod_eq; linarith)
  have len: "length ?H = 2" "length ?M = 2" "length ?S = 2" "length ?F = 3"
    using b length_string_of_nat_le [of ms 3] by (simp_all add: length_two_digits)
  have iso: "iso_time r = ?H @ '':'' @ ?M @ '':'' @ ?S @ ''.'' @ ?F" by (simp add: iso_time_def d)
  have F: "nat_of_digits ?F = ms" by simp
  have H: "int (nat_of_digits ?H) = h" "int (nat_of_digits ?M) = mi" "int (nat_of_digits ?S) = s"
    using b by (simp_all add: nat_of_two_digits)
  show "time_shape (''T'' @ iso_time r @ ''Z'')"
    unfolding time_shape_def iso using len two_digits_digits by (simp add: nth_append)
  show "time_ms (''T'' @ iso_time r @ ''Z'') = r"
    unfolding time_ms_def iso using len F H split by simp
  show "nat_of_digits (take 2 (iso_time r)) < 24" "nat_of_digits (take 2 (drop 3 (iso_time r))) < 60"
    "nat_of_digits (take 2 (drop 6 (iso_time r))) < 60"
    unfolding iso using len H b by simp_all
qed

lemma dayNumber_iso_four:
  assumes "four_digit_year n"
  shows "dayNumber (iso_of_day n) = n"
proof -
  obtain y m d where c: "civil_of n = (y, m, d)" by (cases "civil_of n") auto
  show ?thesis using iso_parts(2-4) [OF assms c, of "[]"] day_of_civil_of [of n] c by (simp add: dayNumber_def)
qed

text \<open>Only the days of four-digit years print in the shape of a day.\<close>

lemma four_digit_of_shape:
  assumes "date_shape (iso_of_day n)"
  shows "four_digit_year n"
proof (rule ccontr)
  assume no: "\<not> four_digit_year n"
  obtain y m d where c: "civil_of n = (y, m, d)" by (cases "civil_of n") auto
  define ds where "ds = padStart 6 (CHR ''0'') (string_of_nat (nat \<bar>y\<bar>))"
  obtain sign where iso: "iso_of_day n = take 10 (sign # ds @ ''-'' @ two_digits m @ ''-'' @ two_digits d)"
    using no c by (auto simp: iso_of_day_def year_text_def four_digit_year_def ds_def)
  have len: "6 \<le> length ds" by (simp add: ds_def)
  then have "iso_of_day n ! 4 = ds ! 3" by (simp add: iso nth_append)
  moreover have "is_digit (ds ! 3)" using len two_digits_digits(2) by (auto simp: ds_def list_all_length)
  ultimately show False using assms by (simp add: date_shape_def is_digit_def char_code_def)
qed

text \<open>\<open>Date.parse\<close> reads every instant of a four-digit year back from the text \<open>toISOString\<close> writes.\<close>

theorem parse_iso_text:
  assumes "four_digit_year (t div MS_PER_DAY)"
  shows "date_parse other (iso_text t) = Some t"
proof -
  let ?n = "t div MS_PER_DAY" and ?r = "t mod MS_PER_DAY"
  obtain y m d where c: "civil_of ?n = (y, m, d)" by (cases "civil_of ?n") auto
  note b = civil_of_bounds [OF assms c]
  have r: "0 \<le> ?r" "?r < MS_PER_DAY" by (simp_all add: MS_PER_DAY_def)
  note p = iso_parts [OF assms c] and t = time_of_iso_time [OF r] and l = iso_date_four [OF assms]
  have iso: "iso_text t = iso_of_day ?n @ ''T'' @ iso_time ?r @ ''Z''" by (simp add: iso_text_def l)
  have len: "13 \<le> length (''T'' @ iso_time ?r @ ''Z'')" "length (iso_time ?r) = 12" using t(1) by (simp_all add: time_shape_def)
  have "instant_shape (iso_text t)"
    unfolding instant_shape_def iso using p t l(2) b len by simp
  moreover have "take 10 (iso_text t) = iso_of_day ?n" "drop 10 (iso_text t) = ''T'' @ iso_time ?r @ ''Z''"
    unfolding iso using l(2) by simp_all
  ultimately show ?thesis
    using t(2) dayNumber_iso_four [OF assms] by (simp add: date_parse_def)
qed

subsection \<open>Local midnights\<close>

text \<open>
  What the code relies on of a zone: the midnights of later days come later, and a midnight of a four-digit
  year is an instant of one.
\<close>

definition midnights_ordered :: "time_zones \<Rightarrow> string \<Rightarrow> bool" where
  "midnights_ordered tz zone \<longleftrightarrow>
     (\<forall>a b x y. a < b \<longrightarrow> zonedLocalToUtc tz (iso_of_day a) ''00:00'' zone = Some x \<longrightarrow>
        zonedLocalToUtc tz (iso_of_day b) ''00:00'' zone = Some y \<longrightarrow> x < y)
     \<and> (\<forall>a x. zonedLocalToUtc tz (iso_of_day a) ''00:00'' zone = Some x \<longrightarrow> four_digit_year (x div MS_PER_DAY))"

text \<open>Coordinated universal time, the zone the code falls back to.\<close>

definition utc_clock :: "int \<Rightarrow> wall_clock option" where
  "utc_clock t =
     (if \<bar>t\<bar> > MAX_DATE_MS then None
      else let (y, m, d) = civil_of (t div MS_PER_DAY); r = t mod MS_PER_DAY in
           Some \<lparr>wc_year = y, wc_month = m, wc_day = d, wc_hour = r div HOUR_MS, wc_minute = r div 60000 mod 60,
                 wc_second = r div 1000 mod 60\<rparr>)"

definition utc_zones :: time_zones where
  "utc_zones = \<lparr>tz_known = (\<lambda>zone. zone = ''UTC''), tz_clock = (\<lambda>zone. utc_clock)\<rparr>"

lemma utc_shown:
  assumes "utc_clock x = Some p" "shows_minute p y m d h mi"
  shows "civil_of (x div MS_PER_DAY) = (y, m, d)"
proof -
  obtain y' m' d' where c: "civil_of (x div MS_PER_DAY) = (y', m', d')" by (cases "civil_of (x div MS_PER_DAY)") auto
  then have "wc_year p = y'" "wc_month p = m'" "wc_day p = d'"
    using assms(1) by (auto simp: utc_clock_def Let_def split: if_splits)
  then show ?thesis using assms(2) c by (simp add: shows_minute_def)
qed

lemma utc_midnight:
  assumes "zonedLocalToUtc utc_zones (iso_of_day a) ''00:00'' zone = Some x"
  shows "four_digit_year a \<and> x div MS_PER_DAY = a"
proof -
  have sh: "date_shape (iso_of_day a)" using assms by (simp add: zonedLocalToUtc_def split: if_splits)
  then have four: "four_digit_year a" by (rule four_digit_of_shape)
  obtain y m d where c: "civil_of a = (y, m, d)" by (cases "civil_of a") auto
  have parts: "year_part (iso_of_day a) = y" "month_part (iso_of_day a) = m" "day_part (iso_of_day a) = d"
    using iso_parts(2-4) [OF four c, of "[]"] by simp_all
  obtain p h mi where p: "utc_clock x = Some p" "shows_minute p y m d h mi"
    using assms by (auto simp: zonedLocalToUtc_def parts Let_def partsAt_def utc_zones_def split: if_splits option.splits)
  then have "civil_of (x div MS_PER_DAY) = civil_of a" using utc_shown [OF p] c by simp
  with four show ?thesis using civil_of_inj by blast
qed

lemma utc_midnights_ordered: "midnights_ordered utc_zones zone"
  unfolding midnights_ordered_def
proof (intro conjI allI impI)
  fix a b x y
  assume "a < b" "zonedLocalToUtc utc_zones (iso_of_day a) ''00:00'' zone = Some x"
    "zonedLocalToUtc utc_zones (iso_of_day b) ''00:00'' zone = Some y"
  then have "x div MS_PER_DAY < y div MS_PER_DAY" using utc_midnight by blast
  then show "x < y" using zdiv_mono1 [of y x MS_PER_DAY] by (auto simp: MS_PER_DAY_def not_less [symmetric])
next
  fix a x
  assume "zonedLocalToUtc utc_zones (iso_of_day a) ''00:00'' zone = Some x"
  then show "four_digit_year (x div MS_PER_DAY)" using utc_midnight by metis
qed

text \<open>The start of a tier shows midnight on the hotel's clock, on the day the tier's days before check-in.\<close>

lemma penaltyStartsAt_cases:
  assumes "penaltyStartsAt tz checkIn days zone = Inr (Some x)"
  shows "\<exists>n. days = JInt n \<and> 0 \<le> n \<and> date_shape checkIn
    \<and> zonedLocalToUtc tz (iso_of_day (utc_day (year_part checkIn) (month_part checkIn) (day_part checkIn) - n)) ''00:00'' zone = Some x"
  using assms by (auto simp: penaltyStartsAt_def Let_def split: jsnum.splits if_splits)

lemma utc_day_of_date: "isIsoDate s \<Longrightarrow> 100 \<le> year_part s \<Longrightarrow> utc_day (year_part s) (month_part s) (day_part s) = dayNumber s"
  using valid_date_bounds [of "year_part s" "month_part s" "day_part s"]
  by (simp add: utc_day_def utc_year_def isIsoDate_def dayNumber_def)

lemma zoned_shows:
  assumes "zonedLocalToUtc tz (iso_of_day a) ''00:00'' zone = Some x"
  shows "\<exists>p. partsAt tz x zone = Some p \<and> civil_of a = (wc_year p, wc_month p, wc_day p) \<and> wc_hour p = 0 \<and> wc_minute p = 0"
proof -
  have sh: "date_shape (iso_of_day a)" using assms by (simp add: zonedLocalToUtc_def split: if_splits)
  obtain y m d where c: "civil_of a = (y, m, d)" by (cases "civil_of a") auto
  have parts: "year_part (iso_of_day a) = y" "month_part (iso_of_day a) = m" "day_part (iso_of_day a) = d"
    using iso_parts(2-4) [OF four_digit_of_shape [OF sh] c, of "[]"] by simp_all
  have time: "nat_of_digits ''00'' = 0" by code_simp
  show ?thesis
    using assms
    by (auto simp: zonedLocalToUtc_def parts time c Let_def shows_minute_def split: if_splits option.splits)
qed

theorem tier_starts_at_local_midnight:
  assumes "penaltyStartsAt tz checkIn (JInt n) zone = Inr (Some x)" "isIsoDate checkIn" "100 \<le> year_part checkIn"
  shows "\<exists>p. partsAt tz x zone = Some p \<and> civil_of (dayNumber checkIn - n) = (wc_year p, wc_month p, wc_day p)
    \<and> wc_hour p = 0 \<and> wc_minute p = 0"
  using penaltyStartsAt_cases [OF assms(1)] zoned_shows utc_day_of_date [OF assms(2,3)] by fastforce

lemma tiers_ordered:
  assumes "midnights_ordered tz zone" "penaltyStartsAt tz checkIn (JInt n) zone = Inr (Some x)"
    "penaltyStartsAt tz checkIn (JInt k) zone = Inr (Some y)"
  shows "n < k \<longleftrightarrow> y < x" "n = k \<longleftrightarrow> x = y"
proof -
  let ?day = "utc_day (year_part checkIn) (month_part checkIn) (day_part checkIn)"
  have z: "zonedLocalToUtc tz (iso_of_day (?day - n)) ''00:00'' zone = Some x" "zonedLocalToUtc tz (iso_of_day (?day - k)) ''00:00'' zone = Some y"
    using penaltyStartsAt_cases [OF assms(2)] penaltyStartsAt_cases [OF assms(3)] by auto
  have ord: "\<And>a b u v. a < b \<Longrightarrow> zonedLocalToUtc tz (iso_of_day a) ''00:00'' zone = Some u \<Longrightarrow>
      zonedLocalToUtc tz (iso_of_day b) ''00:00'' zone = Some v \<Longrightarrow> u < v"
    using assms(1) unfolding midnights_ordered_def by blast
  consider "n < k" | "n = k" | "k < n" by linarith
  then have "(n < k \<longleftrightarrow> y < x) \<and> (n = k \<longleftrightarrow> x = y)"
  proof cases
    case 1
    then show ?thesis using ord [OF _ z(2,1)] by simp
  next
    case 2
    then show ?thesis using z by simp
  next
    case 3
    then show ?thesis using ord [OF _ z(1,2)] by simp
  qed
  then show "n < k \<longleftrightarrow> y < x" "n = k \<longleftrightarrow> x = y" by blast+
qed

lemma tier_four_digit:
  assumes "midnights_ordered tz zone" "penaltyStartsAt tz checkIn days zone = Inr (Some x)"
  shows "four_digit_year (x div MS_PER_DAY)"
  using penaltyStartsAt_cases [OF assms(2)] assms(1) unfolding midnights_ordered_def by blast
end
