(* ===== verification/Cancellation_Terms.thy ===== *)
theory Cancellation_Terms
  imports Time_Zones Pricing
begin
text \<open>
  Cancellation terms: the penalty of cancelling at an instant, the free cancellation deadline and the whole
  penalty schedule of a booking, as \<open>apps/api/src/agent/cancellation-policy.service.ts\<close> works them out.
  The days of a tier are a number that may not be whole, amounts are unbounded integers, and the time zone
  database and the rest of \<open>Date.parse\<close> are parameters (Time_Zones).
\<close>

subsection \<open>Rules\<close>

record CancellationRule =
  cn_daysBeforeCheckin :: jsnum
  cn_penaltyPercent :: "jsnum option"
  cn_penaltyMinor :: "int option"
  cn_penaltyNights :: "jsnum option"
  cn_currency :: "string option"

definition MAX_PENALTY_NIGHTS :: int where
  "MAX_PENALTY_NIGHTS = 30"

definition penaltyForms :: "CancellationRule \<Rightarrow> nat" where
  "penaltyForms rule =
     length (filter id [cn_penaltyPercent rule \<noteq> None, cn_penaltyMinor rule \<noteq> None, cn_penaltyNights rule \<noteq> None])"

text \<open>Days that are no whole number stay so when the buffer is added.\<close>

definition add_days :: "jsnum \<Rightarrow> int \<Rightarrow> jsnum" where
  "add_days days buffer = (case days of JInt d \<Rightarrow> JInt (d + buffer) | JNonInt \<Rightarrow> JNonInt)"

definition buyerRules :: "CancellationRule list \<Rightarrow> int \<Rightarrow> CancellationRule list" where
  "buyerRules rules bufferDays =
     (if bufferDays > 0 then map (\<lambda>r. r\<lparr>cn_daysBeforeCheckin := add_days (cn_daysBeforeCheckin r) bufferDays\<rparr>) rules else rules)"

definition nightsPenalty :: "int \<Rightarrow> int \<Rightarrow> int \<Rightarrow> int" where
  "nightsPenalty amount nights stay = (amount * min nights stay) sdiv stay"

text \<open>How a penalty reads to a buyer; \<open>money\<close> formats an amount. The parts of a rule may also be null, which is absent here.\<close>

definition num_text :: "jsnum \<Rightarrow> string" where
  "num_text n = string_of_int (int_of_num n)"

definition describePenalty :: "(string \<Rightarrow> string) \<Rightarrow> CancellationRule \<Rightarrow> string" where
  "describePenalty money_text rule =
     (case cn_penaltyNights rule of
        Some n \<Rightarrow> num_text n @ '' night'' @ (if n = JInt 1 then [] else ''s'') @ '' (pro rata of the booking total)''
      | None \<Rightarrow>
          (case cn_penaltyPercent rule of
             Some n \<Rightarrow> num_text n @ ''% of the booking total''
           | None \<Rightarrow> money_text (case cn_penaltyMinor rule of Some m \<Rightarrow> string_of_int m | None \<Rightarrow> ''0'')))"

subsection \<open>The quote\<close>

datatype QuoteStatus = MANUAL_REVIEW_REQUIRED | POLICY_UNAVAILABLE

record QuotedPenalty =
  qp_currency :: string
  qp_cancellableAmountMinor :: int
  qp_penaltyMinor :: int
  qp_refundMinor :: int
  qp_effectiveRule :: "CancellationRule option"
  qp_evaluatedAt :: string

datatype CancellationQuote =
    Quotable QuotedPenalty
  | NotQuotable QuoteStatus string string

record CancellationQuoteInput =
  ci_cancellableAmountMinor :: int
  ci_currency :: string
  ci_checkIn :: string
  ci_requestedAt :: string
  ci_rules :: "CancellationRule list"
  ci_propertyTimeZone :: "string option"
  ci_stayNights :: "jsnum option"

definition zone_of :: "string option \<Rightarrow> string" where
  "zone_of zone = (case zone of Some z \<Rightarrow> z | None \<Rightarrow> ''UTC'')"

definition whole_between :: "jsnum option \<Rightarrow> int \<Rightarrow> int \<Rightarrow> bool" where
  "whole_between n lo hi \<longleftrightarrow> (case n of Some (JInt i) \<Rightarrow> lo \<le> i \<and> i \<le> hi | _ \<Rightarrow> False)"

definition num_value :: "jsnum option \<Rightarrow> int" where
  "num_value n = (case n of Some v \<Rightarrow> int_of_num v | None \<Rightarrow> 0)"

definition start_reached :: "int option \<Rightarrow> int \<Rightarrow> bool" where
  "start_reached start requestedAt \<longleftrightarrow> (case start of None \<Rightarrow> False | Some s \<Rightarrow> s \<le> requestedAt)"

fun started_rules :: "(jsnum \<Rightarrow> int option result) \<Rightarrow> int \<Rightarrow> CancellationRule list \<Rightarrow> CancellationRule list result" where
  "started_rules starts requestedAt [] = Inr []"
| "started_rules starts requestedAt (rule # rules) =
     ebind (starts (cn_daysBeforeCheckin rule)) (\<lambda>start.
       ebind (started_rules starts requestedAt rules) (\<lambda>rest.
         Inr (if start_reached start requestedAt then rule # rest else rest)))"

definition cmp_days :: "CancellationRule \<Rightarrow> CancellationRule \<Rightarrow> int" where
  "cmp_days a b = int_of_num (cn_daysBeforeCheckin a) - int_of_num (cn_daysBeforeCheckin b)"

text \<open>The penalty of the rule in force before the cap, or why a person must look at it.\<close>

definition raw_penalty :: "CancellationQuoteInput \<Rightarrow> CancellationRule \<Rightarrow> string + int" where
  "raw_penalty i rule =
     (if penaltyForms rule \<noteq> 1 then Inl ''ambiguous_penalty_rule''
      else if cn_currency rule \<noteq> None \<and> cn_currency rule \<noteq> Some [] \<and> cn_currency rule \<noteq> Some (ci_currency i) then Inl ''penalty_currency_mismatch''
      else if cn_penaltyPercent rule \<noteq> None then
        (if \<not> whole_between (cn_penaltyPercent rule) 0 100 then Inl ''invalid_penalty_percent''
         else Inr ((ci_cancellableAmountMinor i * num_value (cn_penaltyPercent rule)) sdiv 100))
      else if cn_penaltyNights rule \<noteq> None then
        (if \<not> whole_between (cn_penaltyNights rule) 1 MAX_PENALTY_NIGHTS then Inl ''invalid_penalty_nights''
         else if \<not> (case ci_stayNights i of Some (JInt n) \<Rightarrow> 1 \<le> n | _ \<Rightarrow> False) then Inl ''stay_nights_unknown''
         else Inr (nightsPenalty (ci_cancellableAmountMinor i) (num_value (cn_penaltyNights rule)) (num_value (ci_stayNights i))))
      else
        (case cn_penaltyMinor rule of
           Some m \<Rightarrow> if m < 0 then Inl ''negative_penalty'' else Inr m
         | None \<Rightarrow> Inl ''ambiguous_penalty_rule''))"

definition free_quote :: "CancellationQuoteInput \<Rightarrow> QuotedPenalty" where
  "free_quote i = \<lparr>qp_currency = ci_currency i, qp_cancellableAmountMinor = ci_cancellableAmountMinor i, qp_penaltyMinor = 0,
     qp_refundMinor = ci_cancellableAmountMinor i, qp_effectiveRule = None, qp_evaluatedAt = ci_requestedAt i\<rparr>"

definition charged_quote :: "CancellationQuoteInput \<Rightarrow> CancellationRule \<Rightarrow> int \<Rightarrow> QuotedPenalty" where
  "charged_quote i rule penalty =
     (let capped = (if penalty > ci_cancellableAmountMinor i then ci_cancellableAmountMinor i else penalty) in
      \<lparr>qp_currency = ci_currency i, qp_cancellableAmountMinor = ci_cancellableAmountMinor i, qp_penaltyMinor = capped,
       qp_refundMinor = ci_cancellableAmountMinor i - capped, qp_effectiveRule = Some rule, qp_evaluatedAt = ci_requestedAt i\<rparr>)"

definition quote :: "time_zones \<Rightarrow> (string \<Rightarrow> int option) \<Rightarrow> CancellationQuoteInput \<Rightarrow> CancellationQuote result" where
  "quote tz other i =
     (if ci_cancellableAmountMinor i < 0 then Inr (NotQuotable MANUAL_REVIEW_REQUIRED ''negative_cancellable_amount'' (ci_requestedAt i))
      else
        let starts = (\<lambda>days. penaltyStartsAt tz (ci_checkIn i) days (zone_of (ci_propertyTimeZone i))) in
        ebind (starts (JInt 0)) (\<lambda>checkIn.
          case (checkIn, date_parse other (ci_requestedAt i)) of
            (Some _, Some requestedAt) \<Rightarrow>
              if ci_rules i = [] then Inr (NotQuotable POLICY_UNAVAILABLE ''missing_cancellation_policy'' (ci_requestedAt i))
              else ebind (started_rules starts requestedAt (ci_rules i)) (\<lambda>applicable.
                (case js_sort cmp_days applicable of
                   [] \<Rightarrow> Inr (Quotable (free_quote i))
                 | rule # _ \<Rightarrow>
                     (case raw_penalty i rule of
                        Inl reason \<Rightarrow> Inr (NotQuotable MANUAL_REVIEW_REQUIRED reason (ci_requestedAt i))
                      | Inr penalty \<Rightarrow> Inr (Quotable (charged_quote i rule penalty)))))
          | _ \<Rightarrow> Inr (NotQuotable MANUAL_REVIEW_REQUIRED ''invalid_timestamp_or_timezone'' (ci_requestedAt i))))"

subsection \<open>The free cancellation deadline\<close>

text \<open>A rule that is not clear ends the search, one that costs nothing is passed over.\<close>

definition unclear_rule :: "CancellationRule \<Rightarrow> bool" where
  "unclear_rule rule \<longleftrightarrow>
     \<not> (case cn_daysBeforeCheckin rule of JInt d \<Rightarrow> 0 \<le> d | JNonInt \<Rightarrow> False)
     \<or> penaltyForms rule \<noteq> 1
     \<or> cn_penaltyPercent rule \<noteq> None \<and> \<not> whole_between (cn_penaltyPercent rule) 0 100
     \<or> (case cn_penaltyMinor rule of Some m \<Rightarrow> m < 0 | None \<Rightarrow> False)
     \<or> cn_penaltyNights rule \<noteq> None \<and> \<not> whole_between (cn_penaltyNights rule) 1 MAX_PENALTY_NIGHTS"

definition penalises :: "CancellationRule \<Rightarrow> bool" where
  "penalises rule \<longleftrightarrow>
     cn_penaltyPercent rule \<noteq> None \<and> num_value (cn_penaltyPercent rule) > 0
     \<or> (case cn_penaltyMinor rule of Some m \<Rightarrow> m > 0 | None \<Rightarrow> False)
     \<or> cn_penaltyNights rule \<noteq> None"

fun earliest_days :: "int option \<Rightarrow> CancellationRule list \<Rightarrow> int option option" where
  "earliest_days best [] = Some best"
| "earliest_days best (rule # rules) =
     (if unclear_rule rule then None
      else if \<not> penalises rule then earliest_days best rules
      else let d = int_of_num (cn_daysBeforeCheckin rule) in
           earliest_days (case best of None \<Rightarrow> Some d | Some e \<Rightarrow> if d > e then Some d else best) rules)"

definition freeCancellationDeadline :: "time_zones \<Rightarrow> bool \<Rightarrow> string \<Rightarrow> string \<Rightarrow> CancellationRule list \<Rightarrow> string option result" where
  "freeCancellationDeadline tz refundable checkIn timeZone rules =
     (if \<not> refundable \<or> \<not> date_shape checkIn \<or> rules = [] then Inr None
      else case earliest_days None rules of
        None \<Rightarrow> Inr None
      | Some None \<Rightarrow> Inr None
      | Some (Some days) \<Rightarrow>
          ebind (penaltyStartsAt tz checkIn (JInt days) timeZone) (\<lambda>instant.
            case instant of None \<Rightarrow> Inr None | Some t \<Rightarrow> ebind (toISOString t) (\<lambda>s. Inr (Some s))))"

subsection \<open>The schedule\<close>

record PenaltyTier =
  pt_startsAt :: "string option"
  pt_penaltyMinor :: int
  pt_refundMinor :: int

text \<open>Farthest from check-in first; days that are no whole number have no start, so the schedule ends wherever they stand.\<close>

definition cmp_far :: "jsnum \<Rightarrow> jsnum \<Rightarrow> int" where
  "cmp_far a b = int_of_num b - int_of_num a"

definition tier_days :: "CancellationRule list \<Rightarrow> jsnum list" where
  "tier_days rules = js_sort cmp_far (foldl (\<lambda>seen r. set_add (cn_daysBeforeCheckin r) seen) [] rules)"

fun schedule_tiers :: "time_zones \<Rightarrow> (string \<Rightarrow> int option) \<Rightarrow> CancellationQuoteInput \<Rightarrow> jsnum list \<Rightarrow> PenaltyTier list option result" where
  "schedule_tiers tz other i [] = Inr (Some [])"
| "schedule_tiers tz other i (days # rest) =
     ebind (penaltyStartsAt tz (ci_checkIn i) days (zone_of (ci_propertyTimeZone i))) (\<lambda>instant.
       case instant of
         None \<Rightarrow> Inr None
       | Some t \<Rightarrow>
           ebind (toISOString t) (\<lambda>startsAt.
           ebind (quote tz other (i\<lparr>ci_requestedAt := startsAt\<rparr>)) (\<lambda>q.
             case q of
               NotQuotable _ _ _ \<Rightarrow> Inr None
             | Quotable p \<Rightarrow>
                 ebind (schedule_tiers tz other i rest) (\<lambda>tiers.
                   Inr (map_option (\<lambda>ts. \<lparr>pt_startsAt = Some startsAt, pt_penaltyMinor = qp_penaltyMinor p, pt_refundMinor = qp_refundMinor p\<rparr> # ts) tiers)))))"

definition penaltySchedule :: "time_zones \<Rightarrow> (string \<Rightarrow> int option) \<Rightarrow> CancellationQuoteInput \<Rightarrow> PenaltyTier list option result" where
  "penaltySchedule tz other i =
     (if ci_rules i = [] then Inr None
      else ebind (schedule_tiers tz other i (tier_days (ci_rules i))) (\<lambda>tiers.
        Inr (case tiers of
               None \<Rightarrow> None
             | Some [] \<Rightarrow> Some []
             | Some (t # ts) \<Rightarrow>
                 if pt_penaltyMinor t \<noteq> 0
                 then Some (\<lparr>pt_startsAt = None, pt_penaltyMinor = 0, pt_refundMinor = ci_cancellableAmountMinor i\<rparr> # t # ts)
                 else Some (t # ts))))"

subsection \<open>What a quote is\<close>

interpretation near: comparator cmp_days
  by unfold_locales (simp_all add: cmp_days_def, linarith)

interpretation far: comparator cmp_far
  by unfold_locales (simp_all add: cmp_far_def, linarith)

definition tier_started :: "time_zones \<Rightarrow> CancellationQuoteInput \<Rightarrow> int \<Rightarrow> CancellationRule \<Rightarrow> bool" where
  "tier_started tz i t rule \<longleftrightarrow>
     (case penaltyStartsAt tz (ci_checkIn i) (cn_daysBeforeCheckin rule) (zone_of (ci_propertyTimeZone i)) of
        Inr start \<Rightarrow> start_reached start t
      | Inl _ \<Rightarrow> False)"

lemma started_rules_Inr:
  "started_rules starts t rules = Inr rs \<longleftrightarrow>
     (\<forall>r \<in> set rules. returns (starts (cn_daysBeforeCheckin r)))
     \<and> rs = filter (\<lambda>r. case starts (cn_daysBeforeCheckin r) of Inr s \<Rightarrow> start_reached s t | Inl _ \<Rightarrow> False) rules"
  by (induction rules arbitrary: rs) (auto simp: ebind_Inr_iff returns_iff split: sum.splits)

definition can_quote :: "time_zones \<Rightarrow> CancellationQuoteInput \<Rightarrow> bool" where
  "can_quote tz i \<longleftrightarrow>
     0 \<le> ci_cancellableAmountMinor i \<and> ci_rules i \<noteq> []
     \<and> (\<exists>c. penaltyStartsAt tz (ci_checkIn i) (JInt 0) (zone_of (ci_propertyTimeZone i)) = Inr (Some c))
     \<and> (\<forall>r \<in> set (ci_rules i). returns (penaltyStartsAt tz (ci_checkIn i) (cn_daysBeforeCheckin r) (zone_of (ci_propertyTimeZone i))))"

definition in_force :: "time_zones \<Rightarrow> CancellationQuoteInput \<Rightarrow> int \<Rightarrow> CancellationRule list" where
  "in_force tz i t = js_sort cmp_days (filter (tier_started tz i t) (ci_rules i))"

lemma quote_Quotable:
  "quote tz other i = Inr (Quotable q) \<longleftrightarrow>
     can_quote tz i \<and> (\<exists>t. date_parse other (ci_requestedAt i) = Some t \<and>
       (case in_force tz i t of
          [] \<Rightarrow> q = free_quote i
        | rule # _ \<Rightarrow> \<exists>penalty. raw_penalty i rule = Inr penalty \<and> q = charged_quote i rule penalty))"
  unfolding quote_def can_quote_def in_force_def tier_started_def
  by (auto simp: Let_def ebind_Inr_iff started_rules_Inr split: option.splits list.splits sum.splits if_splits)

lemma charged_quote_simps [simp]:
  "qp_penaltyMinor (charged_quote i r p) = min p (ci_cancellableAmountMinor i)"
  "qp_refundMinor (charged_quote i r p) = ci_cancellableAmountMinor i - min p (ci_cancellableAmountMinor i)"
  "qp_effectiveRule (charged_quote i r p) = Some r"
  by (simp_all add: charged_quote_def Let_def)

lemma raw_penalty_Inr:
  assumes "raw_penalty i rule = Inr penalty" "0 \<le> ci_cancellableAmountMinor i"
  shows "0 \<le> penalty"
    "cn_penaltyPercent rule = Some p \<Longrightarrow> \<exists>k. p = JInt k \<and> 0 \<le> k \<and> k \<le> 100 \<and> penalty = ci_cancellableAmountMinor i * k div 100"
    "cn_penaltyNights rule = Some n \<Longrightarrow> \<exists>a b. n = JInt a \<and> 1 \<le> a \<and> a \<le> 30 \<and> ci_stayNights i = Some (JInt b) \<and> 1 \<le> b
       \<and> penalty = ci_cancellableAmountMinor i * min a b div b"
    "cn_penaltyMinor rule = Some m \<Longrightarrow> penalty = m"
    "penaltyForms rule = 1"
  using assms
  by (auto simp: raw_penalty_def whole_between_def num_value_def nightsPenalty_def sdiv_nonneg penaltyForms_def MAX_PENALTY_NIGHTS_def
      pos_imp_zdiv_nonneg_iff split: if_splits option.splits jsnum.splits)

text \<open>
  A quote splits the cancellable amount: penalty and refund are both between nothing and the amount and
  make it up together. Without a started tier cancelling is free; otherwise the penalty is that of a started
  tier and no started tier is nearer to check-in, priced as its one form says (a share rounded down, nights
  pro rata, or a fixed amount) and capped at the whole amount.
\<close>

theorem quote_exact:
  assumes "quote tz other i = Inr (Quotable q)"
  shows "0 \<le> qp_penaltyMinor q \<and> 0 \<le> qp_refundMinor q \<and> qp_penaltyMinor q + qp_refundMinor q = ci_cancellableAmountMinor i
    \<and> (\<exists>t. date_parse other (ci_requestedAt i) = Some t \<and>
        (case qp_effectiveRule q of
           None \<Rightarrow> qp_penaltyMinor q = 0 \<and> (\<forall>r \<in> set (ci_rules i). \<not> tier_started tz i t r)
         | Some r \<Rightarrow>
             r \<in> set (ci_rules i) \<and> tier_started tz i t r
             \<and> (\<forall>r' \<in> set (ci_rules i). tier_started tz i t r' \<longrightarrow>
                  int_of_num (cn_daysBeforeCheckin r) \<le> int_of_num (cn_daysBeforeCheckin r'))
             \<and> (\<forall>k. cn_penaltyPercent r = Some (JInt k) \<longrightarrow> qp_penaltyMinor q = ci_cancellableAmountMinor i * k div 100)
             \<and> (\<forall>a b. cn_penaltyNights r = Some (JInt a) \<and> ci_stayNights i = Some (JInt b) \<longrightarrow>
                  qp_penaltyMinor q = ci_cancellableAmountMinor i * min a b div b)
             \<and> (\<forall>m. cn_penaltyMinor r = Some m \<longrightarrow> qp_penaltyMinor q = min m (ci_cancellableAmountMinor i))))"
proof -
  let ?A = "ci_cancellableAmountMinor i"
  obtain t where can: "can_quote tz i" and t: "date_parse other (ci_requestedAt i) = Some t"
    and q: "case in_force tz i t of [] \<Rightarrow> q = free_quote i
        | rule # _ \<Rightarrow> \<exists>penalty. raw_penalty i rule = Inr penalty \<and> q = charged_quote i rule penalty"
    using assms quote_Quotable by blast
  have A: "0 \<le> ?A" using can by (simp add: can_quote_def)
  show ?thesis
  proof (cases "in_force tz i t")
    case Nil
    then have "filter (tier_started tz i t) (ci_rules i) = []"
      using set_js_sort [of cmp_days "filter (tier_started tz i t) (ci_rules i)"] by (simp add: in_force_def)
    with Nil q t A show ?thesis by (auto simp: free_quote_def filter_empty_conv)
  next
    case (Cons r rs)
    with q obtain penalty where raw: "raw_penalty i r = Inr penalty" and q: "q = charged_quote i r penalty" by auto
    note raw' = raw_penalty_Inr [OF raw A]
    have r: "r \<in> set (ci_rules i)" "tier_started tz i t r"
      using Cons set_js_sort [of cmp_days "filter (tier_started tz i t) (ci_rules i)"] by (auto simp: in_force_def)
    have least: "int_of_num (cn_daysBeforeCheckin r) \<le> int_of_num (cn_daysBeforeCheckin r')"
      if "r' \<in> set (ci_rules i)" "tier_started tz i t r'" for r'
      using near.js_sort_least [OF Cons [unfolded in_force_def], of r'] that by (simp add: cmp_days_def)
    have percent: "qp_penaltyMinor q = ?A * k div 100" if "cn_penaltyPercent r = Some (JInt k)" for k
    proof -
      have "penalty = ?A * k div 100" "k \<le> 100" "0 \<le> k" using raw'(2) [OF that] by auto
      moreover from this have "?A * k div 100 \<le> ?A" using zdiv_mono1 [of "?A * k" "?A * 100" 100] A mult_left_mono [of k 100 ?A] by simp
      ultimately show ?thesis by (simp add: q)
    qed
    have nights: "qp_penaltyMinor q = ?A * min a b div b" if "cn_penaltyNights r = Some (JInt a)" "ci_stayNights i = Some (JInt b)" for a b
    proof -
      have p: "penalty = ?A * min a b div b" and b: "1 \<le> b" using raw'(3) [OF that(1)] that(2) by auto
      have "?A * min a b div b \<le> ?A" using zdiv_mono1 [of "?A * min a b" "?A * b" b] b A mult_left_mono [of "min a b" b ?A] by simp
      then show ?thesis by (simp add: q p)
    qed
    have "qp_effectiveRule q = Some r" "0 \<le> qp_penaltyMinor q" "0 \<le> qp_refundMinor q" "qp_penaltyMinor q + qp_refundMinor q = ?A"
      "\<And>m. cn_penaltyMinor r = Some m \<Longrightarrow> qp_penaltyMinor q = min m ?A"
      using raw'(1,4) A by (auto simp: q)
    with t r least percent nights show ?thesis by auto
  qed
qed


text \<open>The quote depends on the moment only through the tiers that have started.\<close>

lemma in_force_cong: "(\<And>r. r \<in> set (ci_rules i) \<Longrightarrow> tier_started tz i t r \<longleftrightarrow> tier_started tz i u r) \<Longrightarrow> in_force tz i t = in_force tz i u"
  unfolding in_force_def by (metis (mono_tags, lifting) filter_cong)

lemma requested_irrelevant [simp]:
  "can_quote tz (i\<lparr>ci_requestedAt := s\<rparr>) = can_quote tz i"
  "raw_penalty (i\<lparr>ci_requestedAt := s\<rparr>) r = raw_penalty i r" "tier_started tz (i\<lparr>ci_requestedAt := s\<rparr>) t = tier_started tz i t"
  by (simp_all add: can_quote_def tier_started_def raw_penalty_def fun_eq_iff)

lemma in_force_requested [simp]: "in_force tz (i\<lparr>ci_requestedAt := s\<rparr>) t = in_force tz i t"
  by (simp add: in_force_def)

lemma quote_adds_up: "quote tz other i = Inr (Quotable q) \<Longrightarrow> qp_penaltyMinor q + qp_refundMinor q = ci_cancellableAmountMinor i"
  unfolding quote_Quotable by (elim conjE exE, case_tac "in_force tz i t") (auto simp: free_quote_def)

definition penalty_now :: "time_zones \<Rightarrow> CancellationQuoteInput \<Rightarrow> int \<Rightarrow> int option" where
  "penalty_now tz i t =
     (case in_force tz i t of
        [] \<Rightarrow> Some 0
      | r # _ \<Rightarrow> (case raw_penalty i r of Inl _ \<Rightarrow> None | Inr p \<Rightarrow> Some (min p (ci_cancellableAmountMinor i))))"

lemma quote_at:
  assumes "date_parse other s = Some t"
  shows "(\<exists>q. quote tz other (i\<lparr>ci_requestedAt := s\<rparr>) = Inr (Quotable q) \<and> qp_penaltyMinor q = p)
    \<longleftrightarrow> can_quote tz i \<and> penalty_now tz i t = Some p"
  using assms unfolding quote_Quotable penalty_now_def
  by (auto simp: in_force_def [symmetric] free_quote_def split: list.splits sum.splits)

subsection \<open>Before the deadline cancelling is free\<close>

lemma earliest_days_Some:
  assumes "earliest_days best rules = Some result"
  shows "(\<forall>r \<in> set rules. \<not> unclear_rule r)
    \<and> (\<forall>e. best = Some e \<longrightarrow> (\<exists>d. result = Some d \<and> e \<le> d))
    \<and> (\<forall>r \<in> set rules. penalises r \<longrightarrow> (\<exists>d. result = Some d \<and> int_of_num (cn_daysBeforeCheckin r) \<le> d))"
  using assms
proof (induction best rules rule: earliest_days.induct)
  case (2 best rule rules)
  show ?case
  proof (cases "penalises rule")
    case False
    with 2 show ?thesis by (auto split: if_splits)
  next
    case True
    with "2.prems" have u: "\<not> unclear_rule rule"
      and rec: "earliest_days (case best of None \<Rightarrow> Some (int_of_num (cn_daysBeforeCheckin rule))
          | Some e \<Rightarrow> if int_of_num (cn_daysBeforeCheckin rule) > e then Some (int_of_num (cn_daysBeforeCheckin rule)) else best) rules = Some result"
      by (auto simp: Let_def split: if_splits)
    from "2.IH"(2) [OF u _ refl rec] True u show ?thesis by (auto split: option.splits if_splits)
  qed
qed simp

lemma clear_free_penalty:
  assumes "\<not> unclear_rule r" "\<not> penalises r" "raw_penalty i r = Inr p" "0 \<le> ci_cancellableAmountMinor i"
  shows "p = 0"
  using raw_penalty_Inr [OF assms(3,4)] assms(1,2)
  by (auto simp: penalises_def unclear_rule_def penaltyForms_def num_value_def whole_between_def split: if_splits option.splits jsnum.splits)

text \<open>
  C30. Whoever cancels before the free cancellation deadline an offer shows pays nothing: the deadline reads
  back as an instant, and every quote taken before it has no penalty and refunds the whole amount.
\<close>

theorem free_until_deadline:
  assumes "freeCancellationDeadline tz True (ci_checkIn i) (zone_of (ci_propertyTimeZone i)) (ci_rules i) = Inr (Some deadline)"
    and "midnights_ordered tz (zone_of (ci_propertyTimeZone i))"
  shows "\<exists>x. date_parse other deadline = Some x \<and>
    (\<forall>s t q. date_parse other s = Some t \<and> t < x \<and> quote tz other (i\<lparr>ci_requestedAt := s\<rparr>) = Inr (Quotable q) \<longrightarrow>
       qp_penaltyMinor q = 0 \<and> qp_refundMinor q = ci_cancellableAmountMinor i)"
proof -
  let ?start = "\<lambda>days. penaltyStartsAt tz (ci_checkIn i) days (zone_of (ci_propertyTimeZone i))"
  obtain days x where e: "earliest_days None (ci_rules i) = Some (Some days)" and x: "?start (JInt days) = Inr (Some x)"
    and s: "toISOString x = Inr deadline"
    using assms(1) by (auto simp: freeCancellationDeadline_def ebind_Inr_iff split: if_splits option.splits)
  note clear = earliest_days_Some [OF e]
  have read: "date_parse other deadline = Some x"
    using s parse_iso_text [OF tier_four_digit [OF assms(2) x]] by (simp add: toISOString_def split: if_splits)
  moreover have "qp_penaltyMinor q = 0 \<and> qp_refundMinor q = ci_cancellableAmountMinor i"
    if st: "date_parse other s = Some t" "t < x" and q: "quote tz other (i\<lparr>ci_requestedAt := s\<rparr>) = Inr (Quotable q)" for s t q
  proof -
    have can: "can_quote tz i" and now: "penalty_now tz i t = Some (qp_penaltyMinor q)"
      using q quote_at [OF st(1), of tz i "qp_penaltyMinor q"] by auto
    have "qp_penaltyMinor q = 0"
    proof (cases "in_force tz i t")
      case Nil
      with now show ?thesis by (simp add: penalty_now_def)
    next
      case (Cons r rs)
      then have r: "r \<in> set (ci_rules i)" "tier_started tz i t r"
        using set_js_sort [of cmp_days "filter (tier_started tz i t) (ci_rules i)"] by (auto simp: in_force_def)
      then obtain d y where d: "cn_daysBeforeCheckin r = JInt d" "?start (JInt d) = Inr (Some y)" "y \<le> t"
        using penaltyStartsAt_cases by (fastforce simp: tier_started_def start_reached_def split: sum.splits option.splits)
      then have "days < d" using tiers_ordered(1) [OF assms(2) x d(2)] st(2) by simp
      with clear r d(1) have "\<not> penalises r" "\<not> unclear_rule r" by auto
      moreover obtain p where "raw_penalty i r = Inr p" "qp_penaltyMinor q = min p (ci_cancellableAmountMinor i)"
        using now Cons by (auto simp: penalty_now_def split: sum.splits)
      moreover have "0 \<le> ci_cancellableAmountMinor i" using can by (simp add: can_quote_def)
      ultimately show ?thesis using clear_free_penalty by fastforce
    qed
    moreover have "qp_penaltyMinor q + qp_refundMinor q = ci_cancellableAmountMinor i" using quote_adds_up [OF q] by simp
    ultimately show ?thesis by simp
  qed
  ultimately show ?thesis by blast
qed

subsection \<open>The schedule is the quote at every moment\<close>

lemma tier_days_set: "set (tier_days rules) = cn_daysBeforeCheckin ` set rules"
proof -
  have "set (foldl (\<lambda>seen r. set_add (cn_daysBeforeCheckin r) seen) seen rules) = set seen \<union> cn_daysBeforeCheckin ` set rules" for seen
    by (induction rules arbitrary: seen) (auto simp: set_add_def)
  then show ?thesis by (simp add: tier_days_def)
qed

lemma tier_days_sorted: "sorted_wrt (\<lambda>a b. cmp_far a b \<le> 0) (tier_days rules)"
  unfolding tier_days_def by (rule far.sorted_js_sort)

lemma last_sorted: "sorted_wrt R xs \<Longrightarrow> x \<in> set xs \<Longrightarrow> x = last xs \<or> R x (last xs)"
  by (induction xs) auto

text \<open>The tiers, day by day: each reads back as its start and has the penalty in force there.\<close>

definition tier_is :: "time_zones \<Rightarrow> (string \<Rightarrow> int option) \<Rightarrow> CancellationQuoteInput \<Rightarrow> jsnum \<Rightarrow> PenaltyTier \<Rightarrow> bool" where
  "tier_is tz other i days tier \<longleftrightarrow>
     (\<exists>x s. penaltyStartsAt tz (ci_checkIn i) days (zone_of (ci_propertyTimeZone i)) = Inr (Some x) \<and> pt_startsAt tier = Some s
        \<and> date_parse other s = Some x \<and> can_quote tz i \<and> penalty_now tz i x = Some (pt_penaltyMinor tier)
        \<and> pt_refundMinor tier = ci_cancellableAmountMinor i - pt_penaltyMinor tier)"

lemma schedule_tiers_Cons:
  assumes "schedule_tiers tz other i (d # days) = Inr (Some tiers)"
  obtains x s q ts where "penaltyStartsAt tz (ci_checkIn i) d (zone_of (ci_propertyTimeZone i)) = Inr (Some x)"
    "toISOString x = Inr s" "quote tz other (i\<lparr>ci_requestedAt := s\<rparr>) = Inr (Quotable q)"
    "schedule_tiers tz other i days = Inr (Some ts)"
    "tiers = \<lparr>pt_startsAt = Some s, pt_penaltyMinor = qp_penaltyMinor q, pt_refundMinor = qp_refundMinor q\<rparr> # ts"
proof (cases "penaltyStartsAt tz (ci_checkIn i) d (zone_of (ci_propertyTimeZone i))")
  case (Inr start)
  with assms obtain x where x: "start = Some x" by (cases start) simp_all
  with Inr assms obtain s where s: "toISOString x = Inr s" by (cases "toISOString x") simp_all
  with x Inr assms obtain q' where q': "quote tz other (i\<lparr>ci_requestedAt := s\<rparr>) = Inr q'"
    by (cases "quote tz other (i\<lparr>ci_requestedAt := s\<rparr>)") simp_all
  with s x Inr assms obtain q where q: "q' = Quotable q" by (cases q') simp_all
  with q' s x Inr assms obtain r where r: "schedule_tiers tz other i days = Inr r"
    by (cases "schedule_tiers tz other i days") simp_all
  with q q' s x Inr assms obtain ts where ts: "r = Some ts" by (cases r) simp_all
  show ?thesis using that [of x s q ts] assms Inr x s q' q r ts by simp
qed (use assms in simp)

lemma list_all2_last: "list_all2 R xs ys \<Longrightarrow> xs \<noteq> [] \<Longrightarrow> R (last xs) (last ys)"
  by (induction rule: list_all2_induct) auto

lemma schedule_tiers_Some:
  assumes "midnights_ordered tz (zone_of (ci_propertyTimeZone i))" "schedule_tiers tz other i days = Inr (Some tiers)"
  shows "list_all2 (tier_is tz other i) days tiers"
  using assms(2)
proof (induction days arbitrary: tiers)
  case (Cons d days)
  obtain x s q ts where x: "penaltyStartsAt tz (ci_checkIn i) d (zone_of (ci_propertyTimeZone i)) = Inr (Some x)"
    and s: "toISOString x = Inr s" and q: "quote tz other (i\<lparr>ci_requestedAt := s\<rparr>) = Inr (Quotable q)"
    and ts: "schedule_tiers tz other i days = Inr (Some ts)"
    and tiers: "tiers = \<lparr>pt_startsAt = Some s, pt_penaltyMinor = qp_penaltyMinor q, pt_refundMinor = qp_refundMinor q\<rparr> # ts"
    by (rule schedule_tiers_Cons [OF Cons.prems])
  have read: "date_parse other s = Some x"
    using s parse_iso_text [OF tier_four_digit [OF assms(1) x]] by (simp add: toISOString_def split: if_splits)
  then have "can_quote tz i" "penalty_now tz i x = Some (qp_penaltyMinor q)" using q quote_at [OF read] by auto
  moreover have "qp_refundMinor q = ci_cancellableAmountMinor i - qp_penaltyMinor q" using quote_adds_up [OF q] by simp
  ultimately have "tier_is tz other i d \<lparr>pt_startsAt = Some s, pt_penaltyMinor = qp_penaltyMinor q, pt_refundMinor = qp_refundMinor q\<rparr>"
    using x read by (auto simp: tier_is_def)
  with Cons.IH [OF ts] tiers show ?case by simp
qed simp

text \<open>The tier a reader of the schedule takes for an instant: the last that has begun.\<close>

definition tier_begun :: "(string \<Rightarrow> int option) \<Rightarrow> int \<Rightarrow> PenaltyTier \<Rightarrow> bool" where
  "tier_begun other t tier \<longleftrightarrow>
     (case pt_startsAt tier of None \<Rightarrow> True | Some s \<Rightarrow> (case date_parse other s of Some x \<Rightarrow> x \<le> t | None \<Rightarrow> False))"

definition scheduled_penalty :: "(string \<Rightarrow> int option) \<Rightarrow> PenaltyTier list \<Rightarrow> int \<Rightarrow> int" where
  "scheduled_penalty other tiers t = (case filter (tier_begun other t) tiers of [] \<Rightarrow> 0 | ts \<Rightarrow> pt_penaltyMinor (last ts))"

lemma tier_is_begun:
  assumes "tier_is tz other i days tier"
  shows "tier_begun other t tier \<longleftrightarrow> (\<exists>x. penaltyStartsAt tz (ci_checkIn i) days (zone_of (ci_propertyTimeZone i)) = Inr (Some x) \<and> x \<le> t)"
  using assms by (auto simp: tier_is_def tier_begun_def)

lemma list_all2_filter_last:
  assumes "list_all2 R xs ys" "\<And>x y. R x y \<Longrightarrow> P x = Q y"
  shows "list_all2 R (filter P xs) (filter Q ys)"
  using assms(1) by (induction rule: list_all2_induct) (auto simp: assms(2))

lemma penalty_of_tiers:
  assumes ord: "midnights_ordered tz (zone_of (ci_propertyTimeZone i))"
    and tiers: "list_all2 (tier_is tz other i) (tier_days (ci_rules i)) tiers"
  shows "penalty_now tz i t = Some (scheduled_penalty other tiers t)"
proof -
  let ?start = "\<lambda>days. penaltyStartsAt tz (ci_checkIn i) days (zone_of (ci_propertyTimeZone i))"
  let ?on = "\<lambda>days. \<exists>x. ?start days = Inr (Some x) \<and> x \<le> t"
  have has: "\<exists>x. ?start d = Inr (Some x)" if "d \<in> set (tier_days (ci_rules i))" for d
    using tiers that by (auto simp: list_all2_conv_all_nth in_set_conv_nth tier_is_def)
  have started: "tier_started tz i u r \<longleftrightarrow> (\<exists>x. ?start (cn_daysBeforeCheckin r) = Inr (Some x) \<and> x \<le> u)" for u r
    by (auto simp: tier_started_def start_reached_def split: sum.splits option.splits)
  have begun: "list_all2 (tier_is tz other i) (filter ?on (tier_days (ci_rules i))) (filter (tier_begun other t) tiers)"
    using tier_is_begun by (intro list_all2_filter_last [OF tiers]) blast
  show ?thesis
  proof (cases "filter ?on (tier_days (ci_rules i)) = []")
    case True
    then have "\<not> tier_started tz i t r" if "r \<in> set (ci_rules i)" for r
      using that tier_days_set [of "ci_rules i"] unfolding started filter_empty_conv by blast
    then have "filter (tier_started tz i t) (ci_rules i) = []" by (simp add: filter_empty_conv)
    moreover have "filter (tier_begun other t) tiers = []" using True begun by simp
    ultimately show ?thesis by (simp add: penalty_now_def in_force_def scheduled_penalty_def)
  next
    case False
    define d where "d = last (filter ?on (tier_days (ci_rules i)))"
    define tier where "tier = last (filter (tier_begun other t) tiers)"
    have "filter (tier_begun other t) tiers \<noteq> []" using False begun by auto
    then have sched: "scheduled_penalty other tiers t = pt_penaltyMinor tier" by (simp add: scheduled_penalty_def tier_def split: list.splits)
    have is_tier: "tier_is tz other i d tier"
      using list_all2_last [OF begun False] unfolding d_def tier_def .
    have "d \<in> set (filter ?on (tier_days (ci_rules i)))" using False last_in_set unfolding d_def by blast
    then obtain x where x: "?start d = Inr (Some x)" "x \<le> t" by auto
    obtain n where n: "d = JInt n" using penaltyStartsAt_cases [OF x(1)] by blast
    have low: "n \<le> k" if "JInt k \<in> set (tier_days (ci_rules i))" "?on (JInt k)" for k
    proof -
      have "JInt k \<in> set (filter ?on (tier_days (ci_rules i)))" using that by simp
      then have "JInt k = d \<or> cmp_far (JInt k) d \<le> 0"
        using last_sorted [OF sorted_wrt_filter [OF tier_days_sorted, of ?on "ci_rules i"]] unfolding d_def by blast
      then show ?thesis by (auto simp: n cmp_far_def)
    qed
    have "tier_started tz i t r \<longleftrightarrow> tier_started tz i x r" if r: "r \<in> set (ci_rules i)" for r
    proof -
      have mem: "cn_daysBeforeCheckin r \<in> set (tier_days (ci_rules i))" using r by (simp add: tier_days_set)
      then obtain y where y: "?start (cn_daysBeforeCheckin r) = Inr (Some y)" using has by blast
      then obtain k where k: "cn_daysBeforeCheckin r = JInt k" using penaltyStartsAt_cases by blast
      have "y \<le> t \<longleftrightarrow> y \<le> x"
      proof
        assume "y \<le> t"
        then have "n \<le> k" using low mem y k by auto
        then show "y \<le> x" using tiers_ordered [OF ord x(1) [unfolded n] y [unfolded k]] by auto
      qed (use x(2) in simp)
      then show ?thesis using y by (simp add: started)
    qed
    then have "in_force tz i t = in_force tz i x" by (rule in_force_cong)
    moreover have "penalty_now tz i x = Some (pt_penaltyMinor tier)" using is_tier x(1) by (auto simp: tier_is_def)
    ultimately show ?thesis by (simp add: sched penalty_now_def)
  qed
qed

text \<open>
  C21. The penalty schedule shown with a booking is the quote, at every moment: when there is a schedule, a
  cancellation quoted at any instant is charged exactly the penalty of the last tier that has begun by then,
  and nothing before the first.
\<close>

theorem schedule_is_quote:
  assumes "penaltySchedule tz other i = Inr (Some tiers)" "midnights_ordered tz (zone_of (ci_propertyTimeZone i))"
    and "date_parse other s = Some t"
  shows "\<exists>q. quote tz other (i\<lparr>ci_requestedAt := s\<rparr>) = Inr (Quotable q) \<and> qp_penaltyMinor q = scheduled_penalty other tiers t"
proof -
  obtain res where res: "schedule_tiers tz other i (tier_days (ci_rules i)) = Inr res" and rules: "ci_rules i \<noteq> []"
    and some: "(case res of None \<Rightarrow> None | Some [] \<Rightarrow> Some []
      | Some (u # us) \<Rightarrow> if pt_penaltyMinor u \<noteq> 0
          then Some (\<lparr>pt_startsAt = None, pt_penaltyMinor = 0, pt_refundMinor = ci_cancellableAmountMinor i\<rparr> # u # us) else Some (u # us)) = Some tiers"
    using assms(1) by (auto simp: penaltySchedule_def ebind_Inr_iff split: if_splits)
  then obtain ts where ts: "schedule_tiers tz other i (tier_days (ci_rules i)) = Inr (Some ts)"
    and tiers: "tiers = ts \<or> (\<exists>u us. ts = u # us \<and> tiers = \<lparr>pt_startsAt = None, pt_penaltyMinor = 0, pt_refundMinor = ci_cancellableAmountMinor i\<rparr> # ts)"
    by (cases res; cases "the res") (auto split: if_splits)
  note all = schedule_tiers_Some [OF assms(2) ts]
  have "tier_days (ci_rules i) \<noteq> []" using rules tier_days_set [of "ci_rules i"] by auto
  then have can: "can_quote tz i" using all by (cases "tier_days (ci_rules i)"; cases ts) (auto simp: tier_is_def)
  have "scheduled_penalty other tiers t = scheduled_penalty other ts t"
    using tiers by (auto simp: scheduled_penalty_def tier_begun_def split: list.splits)
  with penalty_of_tiers [OF assms(2) all] have "penalty_now tz i t = Some (scheduled_penalty other tiers t)" by simp
  with can quote_at [OF assms(3)] show ?thesis by blast
qed

subsection \<open>Examples\<close>

definition sample_terms :: "string \<Rightarrow> CancellationQuoteInput" where
  "sample_terms requested = \<lparr>ci_cancellableAmountMinor = 10001, ci_currency = ''AED'', ci_checkIn = ''2025-06-10'', ci_requestedAt = requested,
     ci_rules = [\<lparr>cn_daysBeforeCheckin = JInt 2, cn_penaltyPercent = None, cn_penaltyMinor = None, cn_penaltyNights = Some (JInt 1), cn_currency = None\<rparr>,
                 \<lparr>cn_daysBeforeCheckin = JInt 7, cn_penaltyPercent = Some (JInt 20), cn_penaltyMinor = None, cn_penaltyNights = None, cn_currency = None\<rparr>],
     ci_propertyTimeZone = None, ci_stayNights = Some (JInt 3)\<rparr>"

definition read_other :: "string \<Rightarrow> int option" where
  "read_other s = None"

lemma sample_terms_requested [simp]: "sample_terms r\<lparr>ci_requestedAt := s\<rparr> = sample_terms s"
  by (simp add: sample_terms_def)

lemma free_until_deadline_witness:
  "freeCancellationDeadline utc_zones True ''2025-06-10'' ''UTC'' (ci_rules (sample_terms [])) = Inr (Some ''2025-06-03T00:00:00.000Z'')
   \<and> (\<exists>q. quote utc_zones read_other (sample_terms ''2025-06-02T23:59:59.999Z'') = Inr (Quotable q) \<and> qp_penaltyMinor q = 0)"
proof
  let ?i = "sample_terms ''2025-06-02T23:59:59.999Z''"
  have zone: "zone_of (ci_propertyTimeZone ?i) = ''UTC''" "ci_checkIn ?i = ''2025-06-10''" "ci_rules (sample_terms []) = ci_rules ?i"
    by (simp_all add: sample_terms_def zone_of_def)
  show d: "freeCancellationDeadline utc_zones True ''2025-06-10'' ''UTC'' (ci_rules (sample_terms [])) = Inr (Some ''2025-06-03T00:00:00.000Z'')"
    by code_simp
  have x: "date_parse read_other ''2025-06-03T00:00:00.000Z'' = Some 1748908800000"
    and t: "date_parse read_other ''2025-06-02T23:59:59.999Z'' = Some 1748908799999" by code_simp+
  have q: "quote utc_zones read_other ?i = Inr (Quotable (free_quote ?i))" by code_simp
  show "\<exists>q. quote utc_zones read_other ?i = Inr (Quotable q) \<and> qp_penaltyMinor q = 0"
    using free_until_deadline [OF _ utc_midnights_ordered, of ?i "''2025-06-03T00:00:00.000Z''" read_other] d x t q zone by fastforce
qed

definition sample_tier :: "string \<Rightarrow> CancellationQuoteInput" where
  "sample_tier requested = (sample_terms requested)\<lparr>ci_rules := drop 1 (ci_rules (sample_terms []))\<rparr>"

lemma sample_tier_requested [simp]: "sample_tier r\<lparr>ci_requestedAt := s\<rparr> = sample_tier s"
  by (simp add: sample_tier_def sample_terms_def)

lemma schedule_is_quote_witness:
  "\<exists>tiers q. penaltySchedule utc_zones read_other (sample_tier []) = Inr (Some tiers) \<and> length tiers = 2
     \<and> quote utc_zones read_other (sample_tier ''2025-06-09T00:00:00.000Z'') = Inr (Quotable q) \<and> qp_penaltyMinor q = 2000"
proof -
  let ?tiers = "[\<lparr>pt_startsAt = None, pt_penaltyMinor = 0, pt_refundMinor = 10001\<rparr>,
     \<lparr>pt_startsAt = Some ''2025-06-03T00:00:00.000Z'', pt_penaltyMinor = 2000, pt_refundMinor = 8001\<rparr>]"
  have s: "penaltySchedule utc_zones read_other (sample_tier []) = Inr (Some ?tiers)" by code_simp
  have t: "date_parse read_other ''2025-06-09T00:00:00.000Z'' = Some 1749427200000" by code_simp
  have p: "scheduled_penalty read_other ?tiers 1749427200000 = 2000" by code_simp
  from schedule_is_quote [OF s utc_midnights_ordered t] p s show ?thesis by auto
qed
end
