(* ===== verification/Cancellation_Simulation.thy ===== *)
theory Cancellation_Simulation
  imports Cancellation_Terms
begin
text \<open>
  The settlement side of \<open>apps/api/src/agent/cancellation-policy.service.ts\<close>: \<open>simulate\<close>, which normalises a
  policy's windows and splits the money between customer and supplier, and \<open>evaluateCommercialRules\<close>, which
  adds child and mandatory supplements. Times are exact integers; hours beyond the range of \<open>Date\<close> make
  the printing of a deadline throw.
\<close>

subsection \<open>Policies and what a simulation answers\<close>

datatype CancellationPenaltyType = ZERO | PERCENTAGE | NIGHTS | FIXED | FULL_AMOUNT

datatype CancellationPolicyType = REFUNDABLE | NON_REFUNDABLE | CONDITIONAL

datatype CancellationPolicyResolution = RESOLVED | UNRESOLVED | CONFLICTED

datatype CancellationDeadlineSemantics = CALENDAR_DAYS_AT_LOCAL_TIME | ELAPSED_HOURS

record CancellationSimulationRule =
  sr_daysBeforeCheckin :: "jsnum option"
  sr_elapsedHoursBeforeCheckin :: "jsnum option"
  sr_penaltyType :: "CancellationPenaltyType option"
  sr_penaltyPercent :: "jsnum option"
  sr_penaltyMinor :: "int option"
  sr_penaltyNights :: "jsnum option"
  sr_currency :: "string option"

record CancellationSimulationInput =
  si_cancellableAmountMinor :: int
  si_nightlyAmountsMinor :: "int list option"
  si_currency :: string
  si_checkIn :: string
  si_requestedAt :: string
  si_policyType :: "CancellationPolicyType option"
  si_deadlineSemantics :: "CancellationDeadlineSemantics option"
  si_propertyTimeZone :: "string option"
  si_checkInLocalTime :: "string option"
  si_customerAmountPaidMinor :: "int option"
  si_retainedFeesMinor :: "int option"
  si_priorRefundsMinor :: "int option"
  si_supplierCancellableAmountMinor :: "int option"
  si_supplierPenaltyOverrideMinor :: "int option"
  si_rules :: "CancellationSimulationRule list"

text \<open>What a quotable answer adds to its inputs; \<open>simulationOutput\<close> below is the answer as the code returns it.\<close>

record Simulated =
  sm_policyType :: CancellationPolicyType
  sm_freeCancellationDeadlineUtc :: "string option"
  sm_selectedWindowDeadlineUtc :: "string option"
  sm_selectedPenaltyType :: CancellationPenaltyType
  sm_cancellableAmountMinor :: int
  sm_penaltyMinor :: int
  sm_refundMinor :: int
  sm_customerCancellationLiabilityMinor :: int
  sm_customerRefundEntitlementMinor :: int
  sm_customerRefundPayableMinor :: int
  sm_settlementBalanceMinor :: int
  sm_supplierPenaltyMinor :: int
  sm_supplierExpectedCreditMinor :: int
  sm_discrepancyReviewRequired :: bool

type_synonym failure = "QuoteStatus \<times> CancellationPolicyResolution \<times> string"

type_synonym simulation = "failure + Simulated"

definition conflicted :: "string \<Rightarrow> failure" where
  "conflicted reason = (MANUAL_REVIEW_REQUIRED, CONFLICTED, reason)"

definition minor_or_zero :: "int option \<Rightarrow> int" where
  "minor_or_zero v = (case v of Some m \<Rightarrow> m | None \<Rightarrow> 0)"

definition policyType :: "CancellationSimulationInput \<Rightarrow> CancellationPolicyType" where
  "policyType i = (case si_policyType i of Some t \<Rightarrow> t | None \<Rightarrow> REFUNDABLE)"

definition deadlineSemantics :: "CancellationSimulationInput \<Rightarrow> CancellationDeadlineSemantics" where
  "deadlineSemantics i = (case si_deadlineSemantics i of Some s \<Rightarrow> s | None \<Rightarrow> CALENDAR_DAYS_AT_LOCAL_TIME)"

definition checkInLocalTime :: "CancellationSimulationInput \<Rightarrow> string" where
  "checkInLocalTime i = (case si_checkInLocalTime i of Some t \<Rightarrow> t | None \<Rightarrow> ''00:00'')"

definition customerAmountPaid :: "CancellationSimulationInput \<Rightarrow> int" where
  "customerAmountPaid i =
     (case si_customerAmountPaidMinor i of Some m \<Rightarrow> m | None \<Rightarrow> si_cancellableAmountMinor i + minor_or_zero (si_retainedFeesMinor i))"

definition supplierCancellable :: "CancellationSimulationInput \<Rightarrow> int" where
  "supplierCancellable i =
     (case si_supplierCancellableAmountMinor i of Some m \<Rightarrow> m | None \<Rightarrow> si_cancellableAmountMinor i)"

text \<open>The checks of the amounts, in the order of the code.\<close>

definition amounts_conflict :: "CancellationSimulationInput \<Rightarrow> string option" where
  "amounts_conflict i =
     (if si_cancellableAmountMinor i < 0 then Some ''negative_cancellable_amount''
      else if minor_or_zero (si_retainedFeesMinor i) < 0 \<or> minor_or_zero (si_priorRefundsMinor i) < 0 \<or> customerAmountPaid i < 0 \<or> supplierCancellable i < 0
      then Some ''negative_financial_component''
      else if minor_or_zero (si_priorRefundsMinor i) > customerAmountPaid i then Some ''excess_prior_refund''
      else if (case si_supplierPenaltyOverrideMinor i of Some m \<Rightarrow> m < 0 | None \<Rightarrow> False) then Some ''negative_penalty''
      else case si_nightlyAmountsMinor i of
        None \<Rightarrow> None
      | Some nights \<Rightarrow>
          if list_ex (\<lambda>night. night < 0) nights then Some ''negative_nightly_amount''
          else if sum_list nights > si_cancellableAmountMinor i then Some ''nightly_breakdown_exceeds_total''
          else None)"

subsection \<open>Windows\<close>

record NormalizedWindow =
  nw_deadlineUtcMs :: int
  nw_penaltyType :: CancellationPenaltyType
  nw_customerPenaltyMinor :: int
  nw_supplierPenaltyMinor :: int

text \<open>The text \<open>signature\<close> is the pair it is made of.\<close>

definition signature :: "NormalizedWindow \<Rightarrow> CancellationPenaltyType \<times> int" where
  "signature w = (nw_penaltyType w, nw_customerPenaltyMinor w)"

definition window_hours :: "CancellationSimulationRule \<Rightarrow> jsnum option" where
  "window_hours rule =
     (case sr_elapsedHoursBeforeCheckin rule of
        Some h \<Rightarrow> Some h
      | None \<Rightarrow> (case sr_daysBeforeCheckin rule of Some (JInt d) \<Rightarrow> Some (JInt (d * 24)) | _ \<Rightarrow> None))"

definition window_deadline :: "time_zones \<Rightarrow> CancellationSimulationInput \<Rightarrow> int \<Rightarrow> CancellationSimulationRule \<Rightarrow> failure + int" where
  "window_deadline tz i checkInInstant rule =
     (if deadlineSemantics i = ELAPSED_HOURS then
        (case window_hours rule of
           Some (JInt h) \<Rightarrow> if h < 0 then Inl (conflicted ''invalid_window_deadline'') else Inr (checkInInstant - h * HOUR_MS)
         | _ \<Rightarrow> Inl (conflicted ''invalid_window_deadline''))
      else
        (case sr_daysBeforeCheckin rule of
           Some (JInt d) \<Rightarrow>
             if d < 0 then Inl (conflicted ''invalid_window_deadline'')
             else (case subtractCalendarDays (si_checkIn i) (JInt d) of
                     None \<Rightarrow> Inl (conflicted ''invalid_window_deadline'')
                   | Some date \<Rightarrow>
                       (case zonedLocalToUtc tz date (checkInLocalTime i) (zone_of (si_propertyTimeZone i)) of
                          None \<Rightarrow> Inl (conflicted ''invalid_timestamp_or_timezone'')
                        | Some t \<Rightarrow> Inr t))
         | _ \<Rightarrow> Inl (conflicted ''invalid_window_deadline'')))"

definition definedKinds :: "CancellationSimulationRule \<Rightarrow> nat" where
  "definedKinds rule =
     length (filter id [sr_penaltyPercent rule \<noteq> None, sr_penaltyMinor rule \<noteq> None, sr_penaltyNights rule \<noteq> None])"

definition window_type :: "CancellationSimulationRule \<Rightarrow> failure + CancellationPenaltyType" where
  "window_type rule =
     (case sr_penaltyType rule of
        Some t \<Rightarrow> Inr t
      | None \<Rightarrow>
          if definedKinds rule \<noteq> 1 then Inl (conflicted ''ambiguous_penalty_rule'')
          else if sr_penaltyPercent rule \<noteq> None then Inr PERCENTAGE
          else if sr_penaltyMinor rule \<noteq> None then Inr FIXED
          else Inr NIGHTS)"

text \<open>The customer's and the supplier's penalty of a window, before they are capped.\<close>

definition window_penalty :: "CancellationSimulationInput \<Rightarrow> CancellationSimulationRule \<Rightarrow> CancellationPenaltyType \<Rightarrow> failure + (int \<times> int)" where
  "window_penalty i rule t =
     (case t of
        ZERO \<Rightarrow>
          if definedKinds rule > 0 \<and> sr_penaltyPercent rule \<noteq> Some (JInt 0) \<and> sr_penaltyMinor rule \<noteq> Some 0
          then Inl (conflicted ''ambiguous_penalty_rule'') else Inr (0, 0)
      | FULL_AMOUNT \<Rightarrow>
          if definedKinds rule > 0 \<and> sr_penaltyPercent rule \<noteq> Some (JInt 100)
          then Inl (conflicted ''ambiguous_penalty_rule'') else Inr (si_cancellableAmountMinor i, supplierCancellable i)
      | PERCENTAGE \<Rightarrow>
          if sr_penaltyMinor rule \<noteq> None \<or> sr_penaltyNights rule \<noteq> None \<or> \<not> whole_between (sr_penaltyPercent rule) 0 100
          then Inl (conflicted ''invalid_penalty_percent'')
          else Inr ((si_cancellableAmountMinor i * num_value (sr_penaltyPercent rule)) sdiv 100,
                    (supplierCancellable i * num_value (sr_penaltyPercent rule)) sdiv 100)
      | FIXED \<Rightarrow>
          (case sr_penaltyMinor rule of
             None \<Rightarrow> Inl (conflicted ''ambiguous_penalty_rule'')
           | Some m \<Rightarrow>
               if sr_penaltyPercent rule \<noteq> None \<or> sr_penaltyNights rule \<noteq> None then Inl (conflicted ''ambiguous_penalty_rule'')
               else if m < 0 then Inl (conflicted ''negative_penalty'')
               else Inr (m, m))
      | NIGHTS \<Rightarrow>
          (case sr_penaltyNights rule of
             Some (JInt n) \<Rightarrow>
               if sr_penaltyPercent rule \<noteq> None \<or> sr_penaltyMinor rule \<noteq> None \<or> n < 1 then Inl (conflicted ''invalid_penalty_nights'')
               else (case si_nightlyAmountsMinor i of
                       None \<Rightarrow> Inl (MANUAL_REVIEW_REQUIRED, UNRESOLVED, ''missing_nightly_breakdown'')
                     | Some nights \<Rightarrow>
                         if int (length nights) < n then Inl (MANUAL_REVIEW_REQUIRED, UNRESOLVED, ''missing_nightly_breakdown'')
                         else let amount = sum_list (take (nat n) nights) in Inr (amount, amount))
           | _ \<Rightarrow> Inl (conflicted ''invalid_penalty_nights'')))"

definition window_of :: "time_zones \<Rightarrow> CancellationSimulationInput \<Rightarrow> int \<Rightarrow> CancellationSimulationRule \<Rightarrow> failure + NormalizedWindow" where
  "window_of tz i checkInInstant rule =
     (if sr_currency rule \<noteq> None \<and> sr_currency rule \<noteq> Some [] \<and> sr_currency rule \<noteq> Some (si_currency i)
      then Inl (conflicted ''penalty_currency_mismatch'')
      else ebind (window_deadline tz i checkInInstant rule) (\<lambda>deadline.
        ebind (window_type rule) (\<lambda>t.
        ebind (window_penalty i rule t) (\<lambda>(customer, supplier).
          Inr \<lparr>nw_deadlineUtcMs = deadline, nw_penaltyType = t,
               nw_customerPenaltyMinor = (if customer > si_cancellableAmountMinor i then si_cancellableAmountMinor i else customer),
               nw_supplierPenaltyMinor = (if supplier > supplierCancellable i then supplierCancellable i else supplier)\<rparr>))))"

fun windows_of :: "time_zones \<Rightarrow> CancellationSimulationInput \<Rightarrow> int \<Rightarrow> CancellationSimulationRule list \<Rightarrow> failure + NormalizedWindow list" where
  "windows_of tz i checkInInstant [] = Inr []"
| "windows_of tz i checkInInstant (rule # rules) =
     ebind (window_of tz i checkInInstant rule) (\<lambda>w. ebind (windows_of tz i checkInInstant rules) (\<lambda>ws. Inr (w # ws)))"

text \<open>Two windows with one deadline must say the same.\<close>

fun no_conflict :: "(int, CancellationPenaltyType \<times> int) omap \<Rightarrow> NormalizedWindow list \<Rightarrow> bool" where
  "no_conflict byDeadline [] = True"
| "no_conflict byDeadline (w # ws) =
     (case omap_get byDeadline (nw_deadlineUtcMs w) of
        Some existing \<Rightarrow> existing = signature w \<and> no_conflict (omap_put (nw_deadlineUtcMs w) (signature w) byDeadline) ws
      | None \<Rightarrow> no_conflict (omap_put (nw_deadlineUtcMs w) (signature w) byDeadline) ws)"

definition cmp_soonest :: "NormalizedWindow \<Rightarrow> NormalizedWindow \<Rightarrow> int" where
  "cmp_soonest a b = nw_deadlineUtcMs a - nw_deadlineUtcMs b"

definition cmp_latest :: "NormalizedWindow \<Rightarrow> NormalizedWindow \<Rightarrow> int" where
  "cmp_latest a b = nw_deadlineUtcMs b - nw_deadlineUtcMs a"

definition selected_window :: "int \<Rightarrow> NormalizedWindow list \<Rightarrow> NormalizedWindow option" where
  "selected_window requestedAt windows =
     (case js_sort cmp_latest (filter (\<lambda>w. nw_deadlineUtcMs w \<le> requestedAt) windows) of [] \<Rightarrow> None | w # _ \<Rightarrow> Some w)"

subsection \<open>The simulation\<close>

definition settled ::
  "CancellationSimulationInput \<Rightarrow> string option \<Rightarrow> string option \<Rightarrow> CancellationPenaltyType \<Rightarrow> int \<Rightarrow> int \<Rightarrow> Simulated" where
  "settled i free selected_at selected_type penalty supplier =
     (let rawSupplierPenalty = (case si_supplierPenaltyOverrideMinor i of Some m \<Rightarrow> m | None \<Rightarrow> supplier);
          liability = penalty + minor_or_zero (si_retainedFeesMinor i);
          netCollections = customerAmountPaid i - minor_or_zero (si_priorRefundsMinor i);
          balance = netCollections - liability;
          entitlement = (if balance > 0 then balance else 0);
          supplierPenalty = (if rawSupplierPenalty > supplierCancellable i then supplierCancellable i else rawSupplierPenalty) in
      \<lparr>sm_policyType = policyType i, sm_freeCancellationDeadlineUtc = free, sm_selectedWindowDeadlineUtc = selected_at,
       sm_selectedPenaltyType = selected_type, sm_cancellableAmountMinor = si_cancellableAmountMinor i,
       sm_penaltyMinor = penalty, sm_refundMinor = si_cancellableAmountMinor i - penalty,
       sm_customerCancellationLiabilityMinor = liability, sm_customerRefundEntitlementMinor = entitlement,
       sm_customerRefundPayableMinor = entitlement, sm_settlementBalanceMinor = balance,
       sm_supplierPenaltyMinor = supplierPenalty,
       sm_supplierExpectedCreditMinor = (if supplierCancellable i > supplierPenalty then supplierCancellable i - supplierPenalty else 0),
       sm_discrepancyReviewRequired = (supplierPenalty > liability)\<rparr>)"

definition free_deadline :: "CancellationSimulationInput \<Rightarrow> int \<Rightarrow> NormalizedWindow list \<Rightarrow> string option result" where
  "free_deadline i checkInInstant windows =
     (if policyType i = NON_REFUNDABLE then Inr None
      else ebind (case js_sort cmp_soonest (filter (\<lambda>w. nw_customerPenaltyMinor w > 0) windows) of
                    [] \<Rightarrow> toISOString checkInInstant
                  | w # _ \<Rightarrow> toISOString (nw_deadlineUtcMs w)) (\<lambda>s. Inr (Some s)))"

definition settle_windows :: "CancellationSimulationInput \<Rightarrow> int \<Rightarrow> int \<Rightarrow> NormalizedWindow list \<Rightarrow> simulation result" where
  "settle_windows i checkInInstant requestedAt windows =
     ebind (free_deadline i checkInInstant windows) (\<lambda>free.
       case selected_window requestedAt windows of
         Some w \<Rightarrow>
           ebind (toISOString (nw_deadlineUtcMs w)) (\<lambda>at.
             Inr (Inr (settled i free (Some at) (nw_penaltyType w) (nw_customerPenaltyMinor w) (nw_supplierPenaltyMinor w))))
       | None \<Rightarrow>
           if policyType i = NON_REFUNDABLE
           then Inr (Inr (settled i free None FULL_AMOUNT (si_cancellableAmountMinor i) (supplierCancellable i)))
           else Inr (Inr (settled i free None ZERO 0 0)))"

definition simulate :: "time_zones \<Rightarrow> (string \<Rightarrow> int option) \<Rightarrow> CancellationSimulationInput \<Rightarrow> simulation result" where
  "simulate tz other i =
     (case amounts_conflict i of
        Some reason \<Rightarrow> Inr (Inl (conflicted reason))
      | None \<Rightarrow>
          (case (zonedLocalToUtc tz (si_checkIn i) (checkInLocalTime i) (zone_of (si_propertyTimeZone i)), date_parse other (si_requestedAt i)) of
             (Some checkInInstant, Some requestedAt) \<Rightarrow>
               if policyType i = NON_REFUNDABLE \<and> si_rules i = []
               then Inr (Inr (settled i None None FULL_AMOUNT (si_cancellableAmountMinor i) (supplierCancellable i)))
               else if si_rules i = [] then Inr (Inl (POLICY_UNAVAILABLE, UNRESOLVED, ''missing_cancellation_policy''))
               else (case windows_of tz i checkInInstant (si_rules i) of
                       Inl f \<Rightarrow> Inr (Inl f)
                     | Inr windows \<Rightarrow>
                         if no_conflict [] windows then settle_windows i checkInInstant requestedAt windows
                         else Inr (Inl (conflicted ''conflicting_penalty_windows'')))
           | _ \<Rightarrow> Inr (Inl (conflicted ''invalid_timestamp_or_timezone''))))"

text \<open>The answer with the inputs it repeats; a quotable one has no status of its own here.\<close>

record CancellationSimulationOutput =
  so_status :: "QuoteStatus option"
  so_policyType :: CancellationPolicyType
  so_policyResolution :: CancellationPolicyResolution
  so_reason :: "string option"
  so_evaluatedAt :: string
  so_propertyTimeZone :: string
  so_checkInLocalTime :: string
  so_deadlineSemantics :: CancellationDeadlineSemantics
  so_freeCancellationDeadlineUtc :: "string option"
  so_selectedWindowDeadlineUtc :: "string option"
  so_selectedPenaltyType :: "CancellationPenaltyType option"
  so_currency :: string
  so_cancellableAmountMinor :: int
  so_penaltyMinor :: int
  so_refundMinor :: int
  so_customerCancellationLiabilityMinor :: int
  so_customerRefundEntitlementMinor :: int
  so_customerRefundPayableMinor :: int
  so_settlementBalanceMinor :: int
  so_supplierPenaltyMinor :: int
  so_supplierExpectedCreditMinor :: int
  so_discrepancyReviewRequired :: bool

definition fail_output :: "CancellationSimulationInput \<Rightarrow> failure \<Rightarrow> CancellationSimulationOutput" where
  "fail_output i f =
     (let (status, resolution, reason) = f in
      \<lparr>so_status = Some status, so_policyType = policyType i, so_policyResolution = resolution, so_reason = Some reason,
       so_evaluatedAt = si_requestedAt i, so_propertyTimeZone = zone_of (si_propertyTimeZone i),
       so_checkInLocalTime = checkInLocalTime i, so_deadlineSemantics = deadlineSemantics i,
       so_freeCancellationDeadlineUtc = None, so_selectedWindowDeadlineUtc = None, so_selectedPenaltyType = None,
       so_currency = si_currency i, so_cancellableAmountMinor = si_cancellableAmountMinor i, so_penaltyMinor = 0,
       so_refundMinor = 0, so_customerCancellationLiabilityMinor = 0, so_customerRefundEntitlementMinor = 0,
       so_customerRefundPayableMinor = 0, so_settlementBalanceMinor = 0, so_supplierPenaltyMinor = 0,
       so_supplierExpectedCreditMinor = 0, so_discrepancyReviewRequired = False\<rparr>)"

definition quotable_output :: "CancellationSimulationInput \<Rightarrow> Simulated \<Rightarrow> CancellationSimulationOutput" where
  "quotable_output i m =
     \<lparr>so_status = None, so_policyType = sm_policyType m, so_policyResolution = RESOLVED, so_reason = None,
      so_evaluatedAt = si_requestedAt i, so_propertyTimeZone = zone_of (si_propertyTimeZone i),
      so_checkInLocalTime = checkInLocalTime i, so_deadlineSemantics = deadlineSemantics i,
      so_freeCancellationDeadlineUtc = sm_freeCancellationDeadlineUtc m,
      so_selectedWindowDeadlineUtc = sm_selectedWindowDeadlineUtc m, so_selectedPenaltyType = Some (sm_selectedPenaltyType m),
      so_currency = si_currency i, so_cancellableAmountMinor = sm_cancellableAmountMinor m, so_penaltyMinor = sm_penaltyMinor m,
      so_refundMinor = sm_refundMinor m, so_customerCancellationLiabilityMinor = sm_customerCancellationLiabilityMinor m,
      so_customerRefundEntitlementMinor = sm_customerRefundEntitlementMinor m,
      so_customerRefundPayableMinor = sm_customerRefundPayableMinor m, so_settlementBalanceMinor = sm_settlementBalanceMinor m,
      so_supplierPenaltyMinor = sm_supplierPenaltyMinor m, so_supplierExpectedCreditMinor = sm_supplierExpectedCreditMinor m,
      so_discrepancyReviewRequired = sm_discrepancyReviewRequired m\<rparr>"

definition simulationOutput :: "CancellationSimulationInput \<Rightarrow> simulation \<Rightarrow> CancellationSimulationOutput" where
  "simulationOutput i s = (case s of Inl f \<Rightarrow> fail_output i f | Inr m \<Rightarrow> quotable_output i m)"

subsection \<open>Child and mandatory supplements\<close>

record ChildPolicyRule =
  ch_minAge :: int
  ch_maxAge :: int
  ch_supplementMinor :: "int option"
  ch_currency :: "string option"

datatype SupplementBasis = per_person | per_adult | per_child | per_room | once_per_stay

record MandatorySupplementRule =
  ms_id :: string
  ms_applicableDate :: string
  ms_basis :: SupplementBasis
  ms_amountMinor :: int
  ms_currency :: string

record CommercialInput =
  cr_currency :: string
  cr_childAges :: "jsnum list"
  cr_adults :: jsnum
  cr_rooms :: jsnum
  cr_checkIn :: string
  cr_checkOut :: string
  cr_childPolicies :: "ChildPolicyRule list"
  cr_supplements :: "MandatorySupplementRule list"

text \<open>\<open>evaluated\<close> carries the child, the mandatory and the total supplement.\<close>

datatype CommercialRuleResult = Evaluated int int int | CommercialReview QuoteStatus string

definition at_least_one :: "jsnum \<Rightarrow> bool" where
  "at_least_one n \<longleftrightarrow> (case n of JInt i \<Rightarrow> 1 \<le> i | JNonInt \<Rightarrow> False)"

definition invalid_occupancy :: "CommercialInput \<Rightarrow> bool" where
  "invalid_occupancy i \<longleftrightarrow>
     \<not> date_shape (cr_checkIn i) \<or> \<not> date_shape (cr_checkOut i) \<or> cr_checkOut i \<le> cr_checkIn i
     \<or> \<not> at_least_one (cr_adults i) \<or> \<not> at_least_one (cr_rooms i)
     \<or> list_ex (\<lambda>age. \<not> whole_between (Some age) 0 17) (cr_childAges i)"

definition age_matches :: "CommercialInput \<Rightarrow> int \<Rightarrow> ChildPolicyRule list" where
  "age_matches i age = filter (\<lambda>p. ch_minAge p \<le> age \<and> age \<le> ch_maxAge p) (cr_childPolicies i)"

definition child_supplement :: "CommercialInput \<Rightarrow> int \<Rightarrow> CommercialRuleResult + int" where
  "child_supplement i age =
     (case age_matches i age of
        [] \<Rightarrow> Inl (CommercialReview POLICY_UNAVAILABLE ''missing_child_policy'')
      | [p] \<Rightarrow>
          if ch_minAge p < 0 \<or> ch_maxAge p < ch_minAge p \<or> ch_maxAge p > 17
             \<or> (ch_currency p \<noteq> None \<and> ch_currency p \<noteq> Some [] \<and> ch_currency p \<noteq> Some (cr_currency i)) \<or> minor_or_zero (ch_supplementMinor p) < 0
          then Inl (CommercialReview MANUAL_REVIEW_REQUIRED ''invalid_child_policy'')
          else Inr (minor_or_zero (ch_supplementMinor p))
      | _ \<Rightarrow> Inl (CommercialReview MANUAL_REVIEW_REQUIRED ''overlapping_child_policy''))"

definition supplement_units :: "CommercialInput \<Rightarrow> SupplementBasis \<Rightarrow> int" where
  "supplement_units i basis =
     (case basis of
        per_person \<Rightarrow> int_of_num (cr_adults i) + int (length (cr_childAges i))
      | per_adult \<Rightarrow> int_of_num (cr_adults i)
      | per_child \<Rightarrow> int (length (cr_childAges i))
      | per_room \<Rightarrow> int_of_num (cr_rooms i)
      | once_per_stay \<Rightarrow> 1)"

definition add_supplement :: "CommercialInput \<Rightarrow> string list \<times> int \<Rightarrow> MandatorySupplementRule \<Rightarrow> CommercialRuleResult + (string list \<times> int)" where
  "add_supplement i st s =
     (let (seen, acc) = st in
      if ms_id s \<in> set seen then Inr (seen, acc)
      else if trim (ms_id s) = [] \<or> \<not> date_shape (ms_applicableDate s) \<or> ms_amountMinor s < 0 \<or> ms_currency s \<noteq> cr_currency i
      then Inl (CommercialReview MANUAL_REVIEW_REQUIRED ''invalid_mandatory_supplement'')
      else if ms_applicableDate s < cr_checkIn i \<or> cr_checkOut i \<le> ms_applicableDate s then Inr (set_add (ms_id s) seen, acc)
      else Inr (set_add (ms_id s) seen, acc + ms_amountMinor s * supplement_units i (ms_basis s)))"

definition add_child :: "CommercialInput \<Rightarrow> int \<Rightarrow> jsnum \<Rightarrow> CommercialRuleResult + int" where
  "add_child i acc age = ebind (child_supplement i (int_of_num age)) (\<lambda>m. Inr (acc + m))"

definition evaluateCommercialRules :: "CommercialInput \<Rightarrow> CommercialRuleResult" where
  "evaluateCommercialRules i =
     (if invalid_occupancy i then CommercialReview MANUAL_REVIEW_REQUIRED ''invalid_occupancy_or_stay''
      else case efold (add_child i) 0 (cr_childAges i) of
        Inl review \<Rightarrow> review
      | Inr child \<Rightarrow>
          (case efold (add_supplement i) ([], 0) (cr_supplements i) of
             Inl review \<Rightarrow> review
           | Inr (_, mandatory) \<Rightarrow> Evaluated child mandatory (child + mandatory)))"

subsection \<open>The money of a simulation adds up\<close>

interpretation soonest: comparator cmp_soonest
  by unfold_locales (simp_all add: cmp_soonest_def, linarith)

interpretation latest: comparator cmp_latest
  by unfold_locales (simp_all add: cmp_latest_def, linarith)

lemma amounts_ok:
  assumes "amounts_conflict i = None"
  shows "0 \<le> si_cancellableAmountMinor i" "0 \<le> minor_or_zero (si_retainedFeesMinor i)" "0 \<le> minor_or_zero (si_priorRefundsMinor i)"
    "minor_or_zero (si_priorRefundsMinor i) \<le> customerAmountPaid i" "0 \<le> supplierCancellable i"
    "si_supplierPenaltyOverrideMinor i = Some m \<Longrightarrow> 0 \<le> m"
    "si_nightlyAmountsMinor i = Some nights \<Longrightarrow> list_all (\<lambda>n. 0 \<le> n) nights \<and> sum_list nights \<le> si_cancellableAmountMinor i"
  using assms by (auto simp: amounts_conflict_def list_all_iff list_ex_iff not_less split: if_splits option.splits)

lemma percent_bounds:
  fixes a k :: int
  assumes "0 \<le> a" "0 \<le> k" "k \<le> 100"
  shows "0 \<le> (a * k) sdiv 100" "(a * k) sdiv 100 \<le> a"
  using assms zdiv_mono1 [of "a * k" "a * 100" 100] mult_left_mono [of k 100 a]
  by (simp_all add: sdiv_nonneg pos_imp_zdiv_nonneg_iff)

lemma window_penalty_nonneg:
  assumes "amounts_conflict i = None" "window_penalty i rule t = Inr (customer, supplier)"
  shows "0 \<le> customer" "0 \<le> supplier"
proof -
  note ok = amounts_ok [OF assms(1)]
  have nights: "0 \<le> sum_list (take n nights)" if "si_nightlyAmountsMinor i = Some nights" for n nights
    using ok(7) [OF that] by (intro sum_list_nonneg) (auto simp: list_all_iff dest: in_set_takeD)
  show "0 \<le> customer" "0 \<le> supplier"
    using assms(2) ok(1,5) nights
    by (auto simp: window_penalty_def whole_between_def num_value_def percent_bounds Let_def
        split: CancellationPenaltyType.splits if_splits option.splits jsnum.splits)
qed

definition window_ok :: "CancellationSimulationInput \<Rightarrow> NormalizedWindow \<Rightarrow> bool" where
  "window_ok i w \<longleftrightarrow> 0 \<le> nw_customerPenaltyMinor w \<and> nw_customerPenaltyMinor w \<le> si_cancellableAmountMinor i
     \<and> 0 \<le> nw_supplierPenaltyMinor w \<and> nw_supplierPenaltyMinor w \<le> supplierCancellable i"

lemma window_of_ok: "amounts_conflict i = None \<Longrightarrow> window_of tz i c rule = Inr w \<Longrightarrow> window_ok i w"
proof -
  assume a: "amounts_conflict i = None" and w: "window_of tz i c rule = Inr w"
  obtain t customer supplier where p: "window_penalty i rule t = Inr (customer, supplier)"
    and c: "nw_customerPenaltyMinor w = min customer (si_cancellableAmountMinor i)" "nw_supplierPenaltyMinor w = min supplier (supplierCancellable i)"
    using w by (auto simp: window_of_def ebind_Inr_iff min_def split: if_split_asm)
  show ?thesis using amounts_ok(1,5) [OF a] window_penalty_nonneg [OF a p] by (simp add: window_ok_def c)
qed

lemma windows_of_all2: "windows_of tz i c rules = Inr ws \<Longrightarrow> list_all2 (\<lambda>rule w. window_of tz i c rule = Inr w) rules ws"
  by (induction rules arbitrary: ws) (auto simp: ebind_Inr_iff)

lemma selected_window_Some:
  assumes "selected_window requestedAt ws = Some w"
  shows "w \<in> set ws \<and> nw_deadlineUtcMs w \<le> requestedAt
    \<and> (\<forall>w' \<in> set ws. nw_deadlineUtcMs w' \<le> requestedAt \<longrightarrow> nw_deadlineUtcMs w' \<le> nw_deadlineUtcMs w)"
proof -
  obtain rest where s: "js_sort cmp_latest (filter (\<lambda>w. nw_deadlineUtcMs w \<le> requestedAt) ws) = w # rest"
    using assms by (auto simp: selected_window_def split: list.splits)
  then have "w \<in> set (js_sort cmp_latest (filter (\<lambda>w. nw_deadlineUtcMs w \<le> requestedAt) ws))" by simp
  then have "w \<in> set (filter (\<lambda>w. nw_deadlineUtcMs w \<le> requestedAt) ws)" by (simp only: set_js_sort)
  moreover have "nw_deadlineUtcMs w' \<le> nw_deadlineUtcMs w" if "w' \<in> set ws" "nw_deadlineUtcMs w' \<le> requestedAt" for w'
    using latest.js_sort_least [OF s, of w'] that by (simp add: cmp_latest_def)
  ultimately show ?thesis by auto
qed

lemma selected_window_None: "selected_window requestedAt ws = None \<longleftrightarrow> (\<forall>w \<in> set ws. requestedAt < nw_deadlineUtcMs w)"
proof -
  have "selected_window requestedAt ws = None \<longleftrightarrow> js_sort cmp_latest (filter (\<lambda>w. nw_deadlineUtcMs w \<le> requestedAt) ws) = []"
    by (auto simp: selected_window_def split: list.splits)
  also have "\<dots> \<longleftrightarrow> filter (\<lambda>w. nw_deadlineUtcMs w \<le> requestedAt) ws = []" by (metis length_0_conv length_js_sort)
  finally show ?thesis by (simp add: filter_empty_conv not_le)
qed

text \<open>What \<open>settled\<close> makes of a penalty within the amount.\<close>

definition money_settled :: "CancellationSimulationInput \<Rightarrow> Simulated \<Rightarrow> bool" where
  "money_settled i m \<longleftrightarrow>
     0 \<le> sm_penaltyMinor m \<and> 0 \<le> sm_refundMinor m \<and> sm_penaltyMinor m + sm_refundMinor m = si_cancellableAmountMinor i
     \<and> sm_customerCancellationLiabilityMinor m = sm_penaltyMinor m + minor_or_zero (si_retainedFeesMinor i)
     \<and> sm_settlementBalanceMinor m = customerAmountPaid i - minor_or_zero (si_priorRefundsMinor i) - sm_customerCancellationLiabilityMinor m
     \<and> sm_customerRefundPayableMinor m = max 0 (sm_settlementBalanceMinor m)
     \<and> sm_customerRefundPayableMinor m \<le> customerAmountPaid i - minor_or_zero (si_priorRefundsMinor i)
     \<and> 0 \<le> sm_supplierPenaltyMinor m \<and> 0 \<le> sm_supplierExpectedCreditMinor m
     \<and> sm_supplierPenaltyMinor m + sm_supplierExpectedCreditMinor m = supplierCancellable i
     \<and> (sm_discrepancyReviewRequired m \<longleftrightarrow> sm_customerCancellationLiabilityMinor m < sm_supplierPenaltyMinor m)"

lemma settled_ok:
  assumes "amounts_conflict i = None" "0 \<le> penalty" "penalty \<le> si_cancellableAmountMinor i" "0 \<le> supplier"
  shows "money_settled i (settled i free at t penalty supplier)"
  using amounts_ok [OF assms(1)] assms(2-4)
  by (auto simp: money_settled_def settled_def Let_def split: option.splits)

lemma simulate_cases:
  assumes "simulate tz other i = Inr (Inr m)"
  obtains (none) "amounts_conflict i = None" "m = settled i None None FULL_AMOUNT (si_cancellableAmountMinor i) (supplierCancellable i)"
      "policyType i = NON_REFUNDABLE" "si_rules i = []"
    | (windows) c t ws where "amounts_conflict i = None"
      "zonedLocalToUtc tz (si_checkIn i) (checkInLocalTime i) (zone_of (si_propertyTimeZone i)) = Some c"
      "date_parse other (si_requestedAt i) = Some t" "si_rules i \<noteq> []"
      "windows_of tz i c (si_rules i) = Inr ws" "no_conflict [] ws" "settle_windows i c t ws = Inr (Inr m)"
  using assms by (auto simp: simulate_def split: option.splits if_splits sum.splits)

lemma settle_windows_Inr:
  assumes "settle_windows i c t ws = Inr (Inr m)"
  shows "\<exists>free. (case selected_window t ws of
      Some w \<Rightarrow> toISOString (nw_deadlineUtcMs w) = Inr (iso_text (nw_deadlineUtcMs w))
        \<and> m = settled i free (Some (iso_text (nw_deadlineUtcMs w))) (nw_penaltyType w) (nw_customerPenaltyMinor w) (nw_supplierPenaltyMinor w)
    | None \<Rightarrow> m = (if policyType i = NON_REFUNDABLE
        then settled i free None FULL_AMOUNT (si_cancellableAmountMinor i) (supplierCancellable i) else settled i free None ZERO 0 0))"
proof -
  obtain free where free: "free_deadline i c ws = Inr free" using assms by (auto simp: settle_windows_def ebind_Inr_iff)
  show ?thesis
  proof (cases "selected_window t ws")
    case None
    with assms free show ?thesis by (auto simp: settle_windows_def split: if_splits)
  next
    case (Some w)
    with assms free show ?thesis by (auto simp: settle_windows_def ebind_Inr_iff toISOString_def split: if_splits)
  qed
qed

lemma settled_fields [simp]:
  "sm_penaltyMinor (settled i free at t penalty supplier) = penalty"
  "sm_selectedWindowDeadlineUtc (settled i free at t penalty supplier) = at"
  "sm_refundMinor (settled i free at t penalty supplier) = si_cancellableAmountMinor i - penalty"
  by (simp_all add: settled_def Let_def)


subsection \<open>The simulation and the quote agree\<close>

text \<open>A quote's input as the simulation takes it: nothing but the amount, the stay and the rules is given.\<close>

definition sim_rule :: "CancellationRule \<Rightarrow> CancellationSimulationRule" where
  "sim_rule r = \<lparr>sr_daysBeforeCheckin = Some (cn_daysBeforeCheckin r), sr_elapsedHoursBeforeCheckin = None, sr_penaltyType = None,
     sr_penaltyPercent = cn_penaltyPercent r, sr_penaltyMinor = cn_penaltyMinor r, sr_penaltyNights = cn_penaltyNights r, sr_currency = cn_currency r\<rparr>"

definition sim_of :: "CancellationQuoteInput \<Rightarrow> CancellationSimulationInput" where
  "sim_of i = \<lparr>si_cancellableAmountMinor = ci_cancellableAmountMinor i, si_nightlyAmountsMinor = None, si_currency = ci_currency i,
     si_checkIn = ci_checkIn i, si_requestedAt = ci_requestedAt i, si_policyType = None, si_deadlineSemantics = None,
     si_propertyTimeZone = ci_propertyTimeZone i, si_checkInLocalTime = None, si_customerAmountPaidMinor = None,
     si_retainedFeesMinor = None, si_priorRefundsMinor = None, si_supplierCancellableAmountMinor = None,
     si_supplierPenaltyOverrideMinor = None, si_rules = map sim_rule (ci_rules i)\<rparr>"

lemma utc_day_minus: "utc_day y m (d - n) = utc_day y m d - n"
  by (simp add: utc_day_def day_of_def Let_def)

lemma day_of_bounds:
  assumes "0 \<le> y" "y \<le> 9999" "1 \<le> m" "m \<le> 12" "1 \<le> d" "d \<le> 31"
  shows "\<bar>day_of y m d\<bar> \<le> 5000000"
proof -
  define y' where "y' = (if m \<le> 2 then y - 1 else y)"
  have y': "-1 \<le> y'" "y' \<le> 9999" using assms by (auto simp: y'_def)
  have era: "-1 \<le> y' div 400" "y' div 400 \<le> 24" using y' by auto
  have yoe: "0 \<le> y' mod 400" "y' mod 400 \<le> 399" by simp_all
  have start: "0 \<le> year_of_era_start (y' mod 400)" "year_of_era_start (y' mod 400) \<le> 146000"
  proof -
    define x where "x = y' mod 400"
    have "0 \<le> x" "x \<le> 399" "0 \<le> x div 4" "x div 4 \<le> 99" "0 \<le> x div 100" "x div 100 \<le> 3"
      using yoe zdiv_mono1 [of x 399 4] zdiv_mono1 [of x 399 100] by (simp_all add: x_def pos_imp_zdiv_nonneg_iff)
    then show "0 \<le> year_of_era_start (y' mod 400)" "year_of_era_start (y' mod 400) \<le> 146000"
      unfolding year_of_era_start_def x_def [symmetric] by linarith+
  qed
  have doy: "0 \<le> (153 * ((m + 9) mod 12) + 2) div 5" "(153 * ((m + 9) mod 12) + 2) div 5 \<le> 400" by simp_all
  have "day_of y m d = (y' div 400) * 146097 + year_of_era_start (y' mod 400) + ((153 * ((m + 9) mod 12) + 2) div 5 + d - 1) - 719468"
    by (simp add: day_of_def Let_def y'_def)
  with era start doy assms(5,6) show ?thesis by linarith
qed

lemma isIsoDate_bound:
  assumes "isIsoDate s"
  shows "\<bar>dayNumber s\<bar> \<le> 5000000"
proof -
  have "int (nat_of_digits (take 4 s)) < 10 ^ 4"
    using assms nat_of_digits_bound [of "take 4 s"] by (auto simp: isIsoDate_def date_shape_def)
  then have "0 \<le> year_part s" "year_part s \<le> 9999" by (simp_all add: year_part_def)
  then show ?thesis
    using assms valid_date_bounds [of "year_part s" "month_part s" "day_part s"]
    by (auto simp: isIsoDate_def dayNumber_def intro!: day_of_bounds)
qed

lemma starts_agree:
  assumes "isIsoDate s" "100 \<le> year_part s" "subtractCalendarDays s (JInt d) = Some date"
  shows "penaltyStartsAt tz s (JInt d) zone = Inr (zonedLocalToUtc tz date ''00:00'' zone)"
  using assms(3) by (auto simp: subtractCalendarDays_def penaltyStartsAt_def Let_def utc_day_minus split: if_splits)

lemma checkIn_start:
  assumes "isIsoDate s" "100 \<le> year_part s"
  shows "penaltyStartsAt tz s (JInt 0) zone = Inr (zonedLocalToUtc tz s ''00:00'' zone)"
proof -
  have "\<bar>MS_PER_DAY * dayNumber s\<bar> \<le> MAX_DATE_MS"
    using isIsoDate_bound [OF assms(1)] by (simp add: MS_PER_DAY_def MAX_DATE_MS_def abs_mult)
  then show ?thesis
    using assms iso_of_dayNumber [OF assms(1)] utc_day_of_date [OF assms]
    by (simp add: penaltyStartsAt_def Let_def isIsoDate_def)
qed

lemma no_conflict_get:
  assumes "no_conflict m ws" "w \<in> set ws" "omap_get m (nw_deadlineUtcMs w) = Some e"
  shows "e = signature w"
  using assms
proof (induction ws arbitrary: m)
  case (Cons v ws)
  then have rest: "no_conflict (omap_put (nw_deadlineUtcMs v) (signature v) m) ws"
    and same: "nw_deadlineUtcMs v = nw_deadlineUtcMs w \<Longrightarrow> e = signature v"
    by (auto split: option.splits)
  have "omap_get (omap_put (nw_deadlineUtcMs v) (signature v) m) (nw_deadlineUtcMs w) = Some e"
    using same Cons.prems(3) by (auto simp: omap_simps)
  with Cons.IH [OF rest] Cons.prems(2) same show ?case by auto
qed simp

lemma no_conflict_same:
  assumes "no_conflict m ws" "w \<in> set ws" "w' \<in> set ws" "nw_deadlineUtcMs w = nw_deadlineUtcMs w'"
  shows "signature w = signature w'"
  using assms
proof (induction ws arbitrary: m)
  case (Cons v ws)
  then have rest: "no_conflict (omap_put (nw_deadlineUtcMs v) (signature v) m) ws" by (auto split: option.splits)
  have head: "signature v = signature u" if "u \<in> set ws" "nw_deadlineUtcMs u = nw_deadlineUtcMs v" for u
    by (rule no_conflict_get [OF rest that(1)]) (simp add: that(2) omap_simps)
  consider "w = v" "w' = v" | "w = v" "w' \<in> set ws" | "w' = v" "w \<in> set ws" | "w \<in> set ws" "w' \<in> set ws"
    using Cons.prems(2,3) by auto
  then show ?case
  proof cases
    case 1
    then show ?thesis by simp
  next
    case 2
    then show ?thesis using head [of w'] Cons.prems(4) by simp
  next
    case 3
    then show ?thesis using head [of w] Cons.prems(4) by simp
  next
    case 4
    then show ?thesis using Cons.IH [OF rest] Cons.prems(4) by blast
  qed
qed simp

lemma sim_window:
  assumes "window_of tz (sim_of i) c (sim_rule r) = Inr w" "cn_penaltyNights r = None" "isIsoDate (ci_checkIn i)" "100 \<le> year_part (ci_checkIn i)"
  shows "\<exists>p. penaltyStartsAt tz (ci_checkIn i) (cn_daysBeforeCheckin r) (zone_of (ci_propertyTimeZone i)) = Inr (Some (nw_deadlineUtcMs w))
    \<and> raw_penalty i r = Inr p \<and> nw_customerPenaltyMinor w = min p (ci_cancellableAmountMinor i)"
proof -
  obtain t cust supp where d: "window_deadline tz (sim_of i) c (sim_rule r) = Inr (nw_deadlineUtcMs w)" and t: "window_type (sim_rule r) = Inr t"
    and p: "window_penalty (sim_of i) (sim_rule r) t = Inr (cust, supp)"
    and cust: "nw_customerPenaltyMinor w = min cust (ci_cancellableAmountMinor i)"
    and cur: "\<not> (cn_currency r \<noteq> None \<and> cn_currency r \<noteq> Some [] \<and> cn_currency r \<noteq> Some (ci_currency i))"
    using assms(1) by (auto simp: window_of_def ebind_Inr_iff sim_rule_def sim_of_def split: if_splits)
  obtain n date where n: "cn_daysBeforeCheckin r = JInt n" and date: "subtractCalendarDays (ci_checkIn i) (JInt n) = Some date"
    and z: "zonedLocalToUtc tz date ''00:00'' (zone_of (ci_propertyTimeZone i)) = Some (nw_deadlineUtcMs w)"
    using d by (auto simp: window_deadline_def deadlineSemantics_def checkInLocalTime_def sim_rule_def sim_of_def
        split: if_splits option.splits jsnum.splits)
  have "raw_penalty i r = Inr cust"
    using t p assms(2) cur
    by (auto simp: window_type_def window_penalty_def raw_penalty_def definedKinds_def penaltyForms_def sim_rule_def sim_of_def
        split: if_splits option.splits)
  with n z starts_agree [OF assms(3,4) date] cust show ?thesis by simp
qed


subsection \<open>Supplements\<close>

text \<open>The first rule of each identifier.\<close>

fun first_rules :: "string list \<Rightarrow> MandatorySupplementRule list \<Rightarrow> MandatorySupplementRule list" where
  "first_rules seen [] = []"
| "first_rules seen (s # rest) = (if ms_id s \<in> set seen then first_rules seen rest else s # first_rules (set_add (ms_id s) seen) rest)"

definition in_stay :: "CommercialInput \<Rightarrow> MandatorySupplementRule \<Rightarrow> bool" where
  "in_stay i s \<longleftrightarrow> cr_checkIn i \<le> ms_applicableDate s \<and> ms_applicableDate s < cr_checkOut i"

lemma add_child_Inr: "add_child i acc age = Inr x \<longleftrightarrow> (\<exists>m. child_supplement i (int_of_num age) = Inr m \<and> x = acc + m)"
  by (auto simp: add_child_def ebind_Inr_iff)

lemma children_exact:
  assumes "efold (add_child i) acc ages = Inr child"
  shows "child = acc + sum_list (map (\<lambda>age. minor_or_zero (ch_supplementMinor (hd (age_matches i (int_of_num age))))) ages)
    \<and> list_all (\<lambda>age. length (age_matches i (int_of_num age)) = 1) ages"
  using assms
proof (induction ages arbitrary: acc)
  case (Cons age ages)
  then obtain m where m: "child_supplement i (int_of_num age) = Inr m" and rest: "efold (add_child i) (acc + m) ages = Inr child"
    by (auto simp: ebind_Inr_iff add_child_Inr)
  from m have "\<exists>p. age_matches i (int_of_num age) = [p] \<and> m = minor_or_zero (ch_supplementMinor p)"
    by (auto simp: child_supplement_def split: list.splits if_splits)
  with Cons.IH [OF rest] show ?case by auto
qed simp

lemma supplements_exact:
  assumes "efold (add_supplement i) (seen, acc) rules = Inr (seen', mandatory)"
  shows "mandatory = acc + sum_where (in_stay i) (\<lambda>s. ms_amountMinor s * supplement_units i (ms_basis s)) (first_rules seen rules)"
  using assms
proof (induction rules arbitrary: seen acc)
  case (Cons s rules)
  then obtain seen2 acc2 where step: "add_supplement i (seen, acc) s = Inr (seen2, acc2)"
    and rest: "efold (add_supplement i) (seen2, acc2) rules = Inr (seen', mandatory)"
    by (auto simp: ebind_Inr_iff)
  from Cons.IH [OF rest] step show ?case
    by (auto simp: add_supplement_def sum_where_def in_stay_def split: if_splits)
qed (simp add: sum_where_def)

text \<open>
  The supplements of a stay are exact: the child supplement is the sum, over the children, of the one
  policy that covers the child's age; the mandatory supplement counts each identifier once, on the nights of
  the stay only, times the people or rooms its basis names.
\<close>

theorem supplements_counted_once:
  assumes "evaluateCommercialRules i = Evaluated child mandatory both"
  shows "both = child + mandatory
    \<and> list_all (\<lambda>age. length (age_matches i (int_of_num age)) = 1) (cr_childAges i)
    \<and> child = sum_list (map (\<lambda>age. minor_or_zero (ch_supplementMinor (hd (age_matches i (int_of_num age))))) (cr_childAges i))
    \<and> mandatory = sum_where (in_stay i) (\<lambda>s. ms_amountMinor s * supplement_units i (ms_basis s)) (first_rules [] (cr_supplements i))"
proof -
  obtain seen' where "efold (add_child i) 0 (cr_childAges i) = Inr child" "efold (add_supplement i) ([], 0) (cr_supplements i) = Inr (seen', mandatory)"
    and both: "both = child + mandatory"
  proof (cases "efold (add_child i) 0 (cr_childAges i)")
    case (Inl review)
    moreover have "review \<noteq> Evaluated child mandatory both" if "efold (add_child i) acc ages = Inl review" for acc ages
      using that by (induction ages arbitrary: acc) (auto simp: ebind_Inl_iff add_child_def child_supplement_def split: list.splits if_splits)
    ultimately show ?thesis using assms by (auto simp: evaluateCommercialRules_def split: if_splits)
  next
    case (Inr c)
    show ?thesis
    proof (cases "efold (add_supplement i) ([], 0) (cr_supplements i)")
      case (Inl review)
      moreover have "review \<noteq> Evaluated child mandatory both" if "efold (add_supplement i) st rules = Inl review" for st rules
        using that by (induction rules arbitrary: st) (auto simp: ebind_Inl_iff add_supplement_def Let_def split: prod.splits if_splits)
      ultimately show ?thesis using Inr assms by (auto simp: evaluateCommercialRules_def split: if_splits)
    next
      case S: (Inr st)
      then show ?thesis using Inr assms that by (cases st) (auto simp: evaluateCommercialRules_def split: if_splits)
    qed
  qed
  with children_exact [of i 0] supplements_exact [of i "[]" 0] show ?thesis by auto
qed

subsection \<open>Examples\<close>



definition sample_party :: CommercialInput where
  "sample_party = \<lparr>cr_currency = ''AED'', cr_childAges = [JInt 4, JInt 9], cr_adults = JInt 2, cr_rooms = JInt 1,
     cr_checkIn = ''2025-12-30'', cr_checkOut = ''2026-01-02'',
     cr_childPolicies = [\<lparr>ch_minAge = 0, ch_maxAge = 5, ch_supplementMinor = None, ch_currency = None\<rparr>,
                         \<lparr>ch_minAge = 6, ch_maxAge = 11, ch_supplementMinor = Some 500, ch_currency = Some ''AED''\<rparr>],
     cr_supplements = [\<lparr>ms_id = ''gala'', ms_applicableDate = ''2025-12-31'', ms_basis = per_person, ms_amountMinor = 1000, ms_currency = ''AED''\<rparr>,
                       \<lparr>ms_id = ''gala'', ms_applicableDate = ''2025-12-31'', ms_basis = per_person, ms_amountMinor = 1000, ms_currency = ''AED''\<rparr>]\<rparr>"

lemma supplements_counted_once_witness:
  "evaluateCommercialRules sample_party = Evaluated 500 4000 4500 \<and> (4500 :: int) = 500 + 4000"
proof -
  have e: "evaluateCommercialRules sample_party = Evaluated 500 4000 4500" by code_simp
  with supplements_counted_once [OF e] show ?thesis by simp
qed
end
