(* ===== verification/Booking_Finance.thy ===== *)
theory Booking_Finance
  imports Cancellation_Terms
begin
text \<open>
  The money rules of a booking (\<open>packages/contracts/src/booking-finance.ts\<close>): cancellation rules frozen with it,
  the penalty that counts, what a person may change about it, and which documents may be issued; with
  \<open>apps/api/src/agent/booking-cancellation-terms.ts\<close>, which freezes and reads the terms, and
  \<open>apps/api/src/booking-ops/booking-penalty-quote.ts\<close>, which prices them. An amount the code prints to a
  decimal text for transport is the integer here; texts that come from outside stay texts.
\<close>

subsection \<open>Statuses, events and documents\<close>

datatype BookingStatus = PENDING_SUPPLIER | ON_REQUEST | CONFIRMED | AMEND_REQUESTED | CANCEL_REQUESTED | CANCELLED
  | CHECKED_OUT | NO_SHOW | REJECTED | FAILED

datatype BookingFinanceEventType = FE_CONFIRMED | FE_ON_REQUEST_HOLD | FE_HOLD_RELEASED | FE_CANCELLED | FE_NO_SHOW
  | FE_PENALTY_DECIDED | FE_PENALTY_WAIVED | FE_AMENDED

datatype BookingDocumentType = VOUCHER | INVOICE | CREDIT_NOTE | CANCELLATION_NOTE

definition bookingDocumentTypeFromRoute :: "string \<Rightarrow> BookingDocumentType option" where
  "bookingDocumentTypeFromRoute =
     map_of [(''voucher'', VOUCHER), (''invoice'', INVOICE), (''credit-note'', CREDIT_NOTE), (''cancellation-note'', CANCELLATION_NOTE)]"

fun BOOKING_DOCUMENT_PREFIX :: "BookingDocumentType \<Rightarrow> string" where
  "BOOKING_DOCUMENT_PREFIX VOUCHER = ''VCH''"
| "BOOKING_DOCUMENT_PREFIX INVOICE = ''INV''"
| "BOOKING_DOCUMENT_PREFIX CREDIT_NOTE = ''CN''"
| "BOOKING_DOCUMENT_PREFIX CANCELLATION_NOTE = ''CXL''"

subsection \<open>Frozen rules\<close>

definition MAX_MINOR :: int where
  "MAX_MINOR = 9007199254740991 * 1000"

definition MAX_CANCELLATION_RULES :: nat where
  "MAX_CANCELLATION_RULES = 12"

definition PENALTY_REASON_MAX :: nat where
  "PENALTY_REASON_MAX = 500"

text \<open>The pattern \<open>/^\d{1,24}$/\<close>.\<close>

definition minor_digits :: "string \<Rightarrow> bool" where
  "minor_digits s \<longleftrightarrow> 1 \<le> length s \<and> length s \<le> 24 \<and> list_all is_digit s"

definition parseMinor :: "jsval \<Rightarrow> int option" where
  "parseMinor value =
     (case value of
        JStr s \<Rightarrow>
          if \<not> minor_digits s then None
          else let n = int (nat_of_digits s) in if n \<le> MAX_MINOR then Some n else None
      | _ \<Rightarrow> None)"

record FrozenCancellationRule =
  fr_daysBeforeCheckin :: int
  fr_penaltyPercent :: "int option"
  fr_penaltyMinor :: "string option"
  fr_penaltyNights :: "int option"

definition rule_source :: "jsval \<Rightarrow> jsval list option" where
  "rule_source value =
     (case value of
        JArr vs \<Rightarrow> Some vs
      | JObj kvs \<Rightarrow> (case field kvs ''rules'' of JArr vs \<Rightarrow> Some vs | _ \<Rightarrow> None)
      | _ \<Rightarrow> None)"

definition parse_rule :: "jsval \<Rightarrow> FrozenCancellationRule option" where
  "parse_rule raw =
     (case raw of
        JObj r \<Rightarrow>
          let days = field r ''daysBeforeCheckin''; percent = field r ''penaltyPercent''; minor = field r ''penaltyMinor''; nights = field r ''penaltyNights'' in
          if \<not> whole days 0 100000 then None
          else if length (filter (\<lambda>v. \<not> nullish v) [percent, minor, nights]) \<noteq> 1 then None
          else if \<not> nullish nights then
            (if \<not> whole nights 1 30 then None
             else Some \<lparr>fr_daysBeforeCheckin = int_of_val days, fr_penaltyPercent = None, fr_penaltyMinor = None, fr_penaltyNights = Some (int_of_val nights)\<rparr>)
          else if \<not> nullish percent then
            (if \<not> whole percent 0 100 then None
             else Some \<lparr>fr_daysBeforeCheckin = int_of_val days, fr_penaltyPercent = Some (int_of_val percent), fr_penaltyMinor = None, fr_penaltyNights = None\<rparr>)
          else
            (if parseMinor minor = None then None
             else Some \<lparr>fr_daysBeforeCheckin = int_of_val days, fr_penaltyPercent = None, fr_penaltyMinor = Some (text_of minor), fr_penaltyNights = None\<rparr>)
      | _ \<Rightarrow> None)"

fun all_rules :: "jsval list \<Rightarrow> FrozenCancellationRule list option" where
  "all_rules [] = Some []"
| "all_rules (v # vs) = (case parse_rule v of None \<Rightarrow> None | Some r \<Rightarrow> map_option ((#) r) (all_rules vs))"

definition parseFrozenRules :: "jsval \<Rightarrow> FrozenCancellationRule list option" where
  "parseFrozenRules value =
     (case rule_source value of
        None \<Rightarrow> None
      | Some vs \<Rightarrow> if vs = [] \<or> length vs > MAX_CANCELLATION_RULES then None else all_rules vs)"

subsection \<open>The penalty that counts\<close>

datatype QuoteBasis = BASIS_RULE | BASIS_NON_REFUNDABLE | BASIS_NO_SHOW

record StoredQuote =
  sq_currency :: string
  sq_sellMinor :: int
  sq_penaltyMinor :: int
  sq_refundMinor :: int
  sq_ruleDaysBeforeCheckin :: "jsnum option"
  sq_basis :: QuoteBasis
  sq_evaluatedAt :: string
  sq_bookingVersion :: "int option"

text \<open>\<open>needs_decision\<close> carries its reason, detail, evaluation time and booking version.\<close>

datatype StoredPenaltyQuote = StoredQuotable StoredQuote | StoredNeedsDecision string string string "int option"

definition splitSell :: "int \<Rightarrow> int \<Rightarrow> (int \<times> int) option" where
  "splitSell sellMinor penaltyMinor =
     (if sellMinor < 0 \<or> penaltyMinor < 0 \<or> penaltyMinor > sellMinor then None else Some (penaltyMinor, sellMinor - penaltyMinor))"

record PenaltyFact =
  pf_type :: BookingFinanceEventType
  pf_penaltyMinor :: "int option"

text \<open>A determined penalty carries the penalty and the refund.\<close>

datatype EffectivePenalty = NOT_REQUESTED | NEEDS_DECISION string | QUOTED int int | DECIDED int int | WAIVED int int

text \<open>The latest usable waiver or decision; \<open>facts\<close> is walked from its end.\<close>

fun latest_fact :: "int \<Rightarrow> PenaltyFact list \<Rightarrow> EffectivePenalty option" where
  "latest_fact sell [] = None"
| "latest_fact sell (f # facts) =
     (case (if pf_type f = FE_PENALTY_WAIVED \<or> pf_type f = FE_PENALTY_DECIDED then pf_penaltyMinor f else None) of
        None \<Rightarrow> latest_fact sell facts
      | Some p \<Rightarrow>
          (case splitSell sell p of
             None \<Rightarrow> latest_fact sell facts
           | Some (penalty, refund) \<Rightarrow> Some (if pf_type f = FE_PENALTY_WAIVED then WAIVED penalty refund else DECIDED penalty refund)))"

definition effectivePenalty :: "string \<Rightarrow> bool \<Rightarrow> StoredPenaltyQuote option \<Rightarrow> PenaltyFact list \<Rightarrow> EffectivePenalty" where
  "effectivePenalty sellMinor requested stored facts =
     (if \<not> requested then NOT_REQUESTED
      else case parseMinor (JStr sellMinor) of
        None \<Rightarrow> NEEDS_DECISION ''invalid_sell_amount''
      | Some sell \<Rightarrow>
          (case latest_fact sell (rev facts) of
             Some penalty \<Rightarrow> penalty
           | None \<Rightarrow>
               (case stored of
                  Some (StoredQuotable q) \<Rightarrow>
                    (case splitSell sell (sq_penaltyMinor q) of
                       Some (penalty, refund) \<Rightarrow> QUOTED penalty refund
                     | None \<Rightarrow> NEEDS_DECISION ''no_quote'')
                | Some (StoredNeedsDecision reason _ _ _) \<Rightarrow> NEEDS_DECISION reason
                | None \<Rightarrow> NEEDS_DECISION ''no_quote'')))"

fun determined :: "EffectivePenalty \<Rightarrow> (int \<times> int) option" where
  "determined (QUOTED p r) = Some (p, r)"
| "determined (DECIDED p r) = Some (p, r)"
| "determined (WAIVED p r) = Some (p, r)"
| "determined NOT_REQUESTED = None"
| "determined (NEEDS_DECISION reason) = None"

datatype PenaltyRefusal = PENALTY_UNCHANGED | PENALTY_CANNOT_INCREASE | PENALTY_INVALID | PENALTY_NOT_OPEN

datatype PenaltyChange = DECIDE | WAIVE | REFUSE PenaltyRefusal

definition classifyPenaltyChange :: "EffectivePenalty \<Rightarrow> int \<Rightarrow> int \<Rightarrow> PenaltyChange" where
  "classifyPenaltyChange current sellMinor requested =
     (if current = NOT_REQUESTED then REFUSE PENALTY_NOT_OPEN
      else if splitSell sellMinor requested = None then REFUSE PENALTY_INVALID
      else case determined current of
        None \<Rightarrow> DECIDE
      | Some (now, _) \<Rightarrow>
          if requested = now then REFUSE PENALTY_UNCHANGED
          else if requested < now then WAIVE
          else REFUSE PENALTY_CANNOT_INCREASE)"

subsection \<open>Documents\<close>

text \<open>The sell amount of the facts is not read by the rules.\<close>

record DocumentEligibilityFacts =
  df_status :: BookingStatus
  df_hasConfirmedEvent :: bool
  df_hotelConfirmationNo :: "string option"
  df_penalty :: EffectivePenalty
  df_issued :: "BookingDocumentType list"

definition DOCUMENT_CONFIRMED_STATUSES :: "BookingStatus list" where
  "DOCUMENT_CONFIRMED_STATUSES = [CONFIRMED, AMEND_REQUESTED, CANCEL_REQUESTED, CANCELLED, CHECKED_OUT, NO_SHOW]"

definition bookingConfirmedForDocuments :: "BookingStatus \<Rightarrow> bool \<Rightarrow> bool" where
  "bookingConfirmedForDocuments status hasConfirmedFinanceEvent \<longleftrightarrow>
     hasConfirmedFinanceEvent \<or> status \<in> set DOCUMENT_CONFIRMED_STATUSES"

datatype DocumentBlock = ALREADY_ISSUED | NOT_CONFIRMED | HOTEL_CONFIRMATION_REQUIRED | BOOKING_CANCELLED | NOT_CANCELLED
  | PENALTY_DECISION_REQUIRED | NOTHING_TO_CREDIT | INVOICE_REQUIRED

definition documentBlock :: "BookingDocumentType \<Rightarrow> DocumentEligibilityFacts \<Rightarrow> DocumentBlock option" where
  "documentBlock type f =
     (if type \<in> set (df_issued f) then Some ALREADY_ISSUED
      else if \<not> df_hasConfirmedEvent f then Some NOT_CONFIRMED
      else if type = VOUCHER then
        (if df_status f = CANCELLED \<or> df_status f = CANCEL_REQUESTED \<or> df_status f = NO_SHOW then Some BOOKING_CANCELLED
         else if (case df_hotelConfirmationNo f of None \<Rightarrow> True | Some no \<Rightarrow> trim no = []) then Some HOTEL_CONFIRMATION_REQUIRED
         else None)
      else if type = INVOICE then None
      else if df_status f \<noteq> CANCELLED \<and> \<not> (df_status f = NO_SHOW \<and> type = CREDIT_NOTE) then Some NOT_CANCELLED
      else case determined (df_penalty f) of
        None \<Rightarrow> Some PENALTY_DECISION_REQUIRED
      | Some (_, refund) \<Rightarrow>
          if type = CREDIT_NOTE then
            (if refund = 0 then Some NOTHING_TO_CREDIT
             else if INVOICE \<in> set (df_issued f) then None
             else Some INVOICE_REQUIRED)
          else None)"

definition confirmationEmailVoucherBlock :: "DocumentEligibilityFacts \<Rightarrow> DocumentBlock option" where
  "confirmationEmailVoucherBlock f =
     (let block = documentBlock VOUCHER f in
      if block \<noteq> Some ALREADY_ISSUED then block
      else let fresh = documentBlock VOUCHER (f\<lparr>df_issued := filter (\<lambda>t. t \<noteq> VOUCHER) (df_issued f)\<rparr>) in
           if fresh = Some BOOKING_CANCELLED \<or> fresh = Some NOT_CONFIRMED then fresh else None)"

subsection \<open>Freezing the terms of a contract\<close>

record LiveRule =
  lr_kind :: "string option"
  lr_daysBeforeCheckin :: int
  lr_penaltyPercent :: "int option"
  lr_penaltyMinor :: "int option"
  lr_penaltyNights :: "int option"
  lr_currency :: "string option"

record FreezeContext =
  fc_bufferDays :: int
  fc_stayNights :: int
  fc_timeZone :: "string option"
  fc_contract :: "(string \<times> jsval \<times> jsval) option"

definition FROZEN_SOURCE :: string where
  "FROZEN_SOURCE = ''CONTRACT_AT_BOOKING''"

definition freezeRule :: "LiveRule \<Rightarrow> string \<Rightarrow> (string \<times> jsval) list option" where
  "freezeRule rule bookingCurrency =
     (if length (filter id [lr_penaltyPercent rule \<noteq> None, lr_penaltyMinor rule \<noteq> None, lr_penaltyNights rule \<noteq> None]) \<noteq> 1 then None
      else case lr_penaltyNights rule of
        Some n \<Rightarrow> Some [(''penaltyNights'', JNum (JInt n))]
      | None \<Rightarrow>
          (case lr_penaltyPercent rule of
             Some p \<Rightarrow> Some [(''penaltyPercent'', JNum (JInt p))]
           | None \<Rightarrow>
               if lr_currency rule \<noteq> None \<and> lr_currency rule \<noteq> Some bookingCurrency then None
               else (case lr_penaltyMinor rule of Some m \<Rightarrow> Some [(''penaltyMinor'', JStr (string_of_int m))] | None \<Rightarrow> None)))"

fun freeze_tiers :: "string \<Rightarrow> LiveRule list \<Rightarrow> jsval list option" where
  "freeze_tiers bookingCurrency [] = Some []"
| "freeze_tiers bookingCurrency (rule # rules) =
     (case freezeRule rule bookingCurrency of
        None \<Rightarrow> None
      | Some penalty \<Rightarrow>
          map_option ((#) (JObj ((''daysBeforeCheckin'', JNum (JInt (lr_daysBeforeCheckin rule))) # penalty))) (freeze_tiers bookingCurrency rules))"

definition live_tiers :: "LiveRule list \<Rightarrow> int \<Rightarrow> LiveRule list" where
  "live_tiers rules bufferDays =
     (let tiers = filter (\<lambda>r. lr_kind r \<noteq> Some ''NO_SHOW'') rules in
      if bufferDays > 0 then map (\<lambda>r. r\<lparr>lr_daysBeforeCheckin := lr_daysBeforeCheckin r + bufferDays\<rparr>) tiers else tiers)"

definition name_value :: "string option \<Rightarrow> jsval" where
  "name_value name = (case name of Some s \<Rightarrow> JStr s | None \<Rightarrow> JNull)"

definition no_show_rules :: "LiveRule list \<Rightarrow> LiveRule list" where
  "no_show_rules rules = filter (\<lambda>r. lr_kind r = Some ''NO_SHOW'') rules"

definition frozen_noShow :: "LiveRule list \<Rightarrow> string \<Rightarrow> (string \<times> jsval) list option option" where
  "frozen_noShow rules bookingCurrency =
     (case no_show_rules rules of [] \<Rightarrow> Some None | r # _ \<Rightarrow> map_option Some (freezeRule r bookingCurrency))"

definition frozen_body :: "string option \<Rightarrow> int \<Rightarrow> FreezeContext \<Rightarrow> jsval list \<Rightarrow> (string \<times> jsval) list option \<Rightarrow> jsval" where
  "frozen_body setName now context frozen noShow =
     JObj ([(''rules'', JArr frozen), (''setName'', name_value setName), (''frozenAt'', JStr (iso_text now)),
       (''source'', JStr FROZEN_SOURCE), (''stayNights'', JNum (JInt (fc_stayNights context))), (''bufferDays'', JNum (JInt (fc_bufferDays context)))]
       @ (case fc_timeZone context of Some zone \<Rightarrow> [(''timeZone'', JStr zone)] | None \<Rightarrow> [])
       @ (case fc_contract context of
            Some (contractId, version, ratePlan) \<Rightarrow>
              if contractId = [] then []
              else [(''contractId'', JStr contractId), (''contractVersion'', version), (''ratePlanId'', ratePlan)]
          | None \<Rightarrow> [])
       @ (case noShow of Some penalty \<Rightarrow> [(''noShow'', JObj penalty)] | None \<Rightarrow> []))"

definition freezeCancellationTerms ::
  "time_zones \<Rightarrow> LiveRule list \<Rightarrow> string \<Rightarrow> string option \<Rightarrow> int \<Rightarrow> FreezeContext \<Rightarrow> jsval option" where
  "freezeCancellationTerms tz rules bookingCurrency setName now context =
     (if (case fc_timeZone context of Some zone \<Rightarrow> \<not> tz_known tz zone | None \<Rightarrow> False) then None
      else if length (no_show_rules rules) > 1 then None
      else case freeze_tiers bookingCurrency (live_tiers rules (fc_bufferDays context)) of
        None \<Rightarrow> None
      | Some frozen \<Rightarrow>
          if frozen \<noteq> [] \<and> parseFrozenRules (JArr frozen) = None then None
          else map_option (frozen_body setName now context frozen) (frozen_noShow rules bookingCurrency))"

subsection \<open>Reading frozen terms\<close>

definition toRule :: "FrozenCancellationRule \<Rightarrow> CancellationRule" where
  "toRule rule =
     (case fr_penaltyNights rule of
        Some n \<Rightarrow> \<lparr>cn_daysBeforeCheckin = JInt (fr_daysBeforeCheckin rule), cn_penaltyPercent = None, cn_penaltyMinor = None,
                    cn_penaltyNights = Some (JInt n), cn_currency = None\<rparr>
      | None \<Rightarrow>
          (case fr_penaltyPercent rule of
             Some p \<Rightarrow> \<lparr>cn_daysBeforeCheckin = JInt (fr_daysBeforeCheckin rule), cn_penaltyPercent = Some (JInt p), cn_penaltyMinor = None,
                         cn_penaltyNights = None, cn_currency = None\<rparr>
           | None \<Rightarrow> \<lparr>cn_daysBeforeCheckin = JInt (fr_daysBeforeCheckin rule), cn_penaltyPercent = None,
                       cn_penaltyMinor = Some (case fr_penaltyMinor rule of Some s \<Rightarrow> int (nat_of_digits s) | None \<Rightarrow> 0),
                       cn_penaltyNights = None, cn_currency = None\<rparr>))"

record ReadTerms =
  rt_rules :: "CancellationRule list"
  rt_setName :: "string option"
  rt_stayNights :: "int option"
  rt_noShow :: "CancellationRule option"

datatype FrozenTerms = TermsNone | TermsInvalid | TermsFrozen ReadTerms

text \<open>Spreading anything but an object adds no field a rule has.\<close>

definition spread :: "jsval \<Rightarrow> (string \<times> jsval) list" where
  "spread v = (case v of JObj kvs \<Rightarrow> kvs | _ \<Rightarrow> [])"

text \<open>The days of a no-show rule are dropped, and 0 when the rule is priced: 0 here.\<close>

definition read_noShow :: "jsval \<Rightarrow> CancellationRule option option" where
  "read_noShow stored =
     (if stored = JUndefined then Some None
      else case parseFrozenRules (JArr [JObj (spread stored @ [(''daysBeforeCheckin'', JNum (JInt 0))])]) of
        Some (one # _) \<Rightarrow> Some (Some ((toRule one)\<lparr>cn_daysBeforeCheckin := JInt 0\<rparr>))
      | _ \<Rightarrow> None)"

definition readFrozenTerms :: "jsval \<Rightarrow> FrozenTerms" where
  "readFrozenTerms value =
     (if nullish value then TermsNone
      else case value of
        JObj stored \<Rightarrow>
          (case (field stored ''frozenAt'', field stored ''rules'') of
             (JStr _, JArr rules) \<Rightarrow>
               (case (if rules = [] then Some [] else parseFrozenRules (JArr rules)) of
                  None \<Rightarrow> TermsInvalid
                | Some parsed \<Rightarrow>
                    (case read_noShow (field stored ''noShow'') of
                       None \<Rightarrow> TermsInvalid
                     | Some noShow \<Rightarrow>
                         TermsFrozen \<lparr>rt_rules = map toRule parsed,
                           rt_setName = (case field stored ''setName'' of JStr s \<Rightarrow> Some s | _ \<Rightarrow> None),
                           rt_stayNights = (case field stored ''stayNights'' of JNum (JInt n) \<Rightarrow> if n > 0 then Some n else None | _ \<Rightarrow> None),
                           rt_noShow = noShow\<rparr>))
           | _ \<Rightarrow> TermsInvalid)
      | _ \<Rightarrow> TermsInvalid)"

subsection \<open>Pricing the frozen terms\<close>

record PenaltyQuoteInput =
  pq_sellMinor :: int
  pq_currency :: string
  pq_isRefundable :: "bool option"
  pq_checkIn :: "string option"
  pq_checkOut :: "string option"
  pq_rules :: jsval
  pq_requestedAt :: int
  pq_timeZone :: string

definition frozenTimeZone :: "jsval \<Rightarrow> string \<Rightarrow> string" where
  "frozenTimeZone terms legacyZone =
     (case field (spread terms) ''timeZone'' of JUndefined \<Rightarrow> legacyZone | JStr zone \<Rightarrow> zone | _ \<Rightarrow> [])"

definition midnight_of :: "(string \<Rightarrow> int option) \<Rightarrow> string \<Rightarrow> int option" where
  "midnight_of other date = date_parse other (date @ ''T00:00:00.000Z'')"

text \<open>\<open>Math.round\<close> of a number of days; a missing date gives not-a-number, none here.\<close>

definition nights_from_dates :: "(string \<Rightarrow> int option) \<Rightarrow> string option \<Rightarrow> string \<Rightarrow> int option" where
  "nights_from_dates other checkOut checkIn =
     (case checkOut of
        None \<Rightarrow> None
      | Some out \<Rightarrow>
          if out = [] then None
          else case (midnight_of other out, midnight_of other checkIn) of
            (Some b, Some a) \<Rightarrow> Some ((2 * (b - a) + MS_PER_DAY) div (2 * MS_PER_DAY))
          | _ \<Rightarrow> None)"

definition quote_nights :: "(string \<Rightarrow> int option) \<Rightarrow> PenaltyQuoteInput \<Rightarrow> string \<Rightarrow> jsnum option" where
  "quote_nights other i checkIn =
     (case field (spread (pq_rules i)) ''stayNights'' of
        JNum (JInt n) \<Rightarrow> if n > 0 then Some (JInt n)
          else (case nights_from_dates other (pq_checkOut i) checkIn of Some k \<Rightarrow> if k > 0 then Some (JInt k) else None | None \<Rightarrow> None)
      | _ \<Rightarrow> (case nights_from_dates other (pq_checkOut i) checkIn of Some k \<Rightarrow> if k > 0 then Some (JInt k) else None | None \<Rightarrow> None))"

text \<open>A fixed amount is charged in the currency of the booking.\<close>

definition priced_rule :: "string \<Rightarrow> FrozenCancellationRule \<Rightarrow> CancellationRule" where
  "priced_rule cur r = (let rule = toRule r in if cn_penaltyMinor rule = None then rule else rule\<lparr>cn_currency := Some cur\<rparr>)"

definition quote_input :: "(string \<Rightarrow> int option) \<Rightarrow> PenaltyQuoteInput \<Rightarrow> string \<Rightarrow> CancellationRule list \<Rightarrow> CancellationQuoteInput" where
  "quote_input other i checkIn rules =
     \<lparr>ci_cancellableAmountMinor = pq_sellMinor i, ci_currency = pq_currency i, ci_checkIn = checkIn,
      ci_requestedAt = iso_text (pq_requestedAt i), ci_rules = rules,
      ci_propertyTimeZone = Some (frozenTimeZone (pq_rules i) (pq_timeZone i)), ci_stayNights = quote_nights other i checkIn\<rparr>"

definition quote_status_text :: "QuoteStatus \<Rightarrow> string" where
  "quote_status_text s = (case s of MANUAL_REVIEW_REQUIRED \<Rightarrow> ''manual_review_required'' | POLICY_UNAVAILABLE \<Rightarrow> ''policy_unavailable'')"

definition undecided :: "PenaltyQuoteInput \<Rightarrow> string \<Rightarrow> string \<Rightarrow> StoredPenaltyQuote" where
  "undecided i reason detail = StoredNeedsDecision reason detail (iso_text (pq_requestedAt i)) None"

definition buildPenaltyQuote :: "time_zones \<Rightarrow> (string \<Rightarrow> int option) \<Rightarrow> PenaltyQuoteInput \<Rightarrow> StoredPenaltyQuote result" where
  "buildPenaltyQuote tz other i =
     (case pq_isRefundable i of
        None \<Rightarrow> Inr (undecided i ''refundability_unknown'' ''It is not known whether this booking is refundable.'')
      | Some False \<Rightarrow>
          Inr (StoredQuotable \<lparr>sq_currency = pq_currency i, sq_sellMinor = pq_sellMinor i, sq_penaltyMinor = pq_sellMinor i, sq_refundMinor = 0,
            sq_ruleDaysBeforeCheckin = None, sq_basis = BASIS_NON_REFUNDABLE, sq_evaluatedAt = iso_text (pq_requestedAt i), sq_bookingVersion = None\<rparr>)
      | Some True \<Rightarrow>
          (case parseFrozenRules (pq_rules i) of
             None \<Rightarrow> Inr (undecided i ''policy_unavailable'' ''No readable cancellation terms were stored with this booking.'')
           | Some frozen \<Rightarrow>
               (case pq_checkIn i of
                  None \<Rightarrow> Inr (undecided i ''manual_review_required'' ''The check-in date is not known.'')
                | Some checkIn \<Rightarrow>
                    if checkIn = [] then Inr (undecided i ''manual_review_required'' ''The check-in date is not known.'')
                    else ebind (quote tz other (quote_input other i checkIn (map (priced_rule (pq_currency i)) frozen))) (\<lambda>q.
                      Inr (case q of
                        NotQuotable status reason _ \<Rightarrow>
                          undecided i (quote_status_text status) (''The cancellation terms could not be applied ('' @ reason @ '').'')
                      | Quotable p \<Rightarrow>
                          StoredQuotable \<lparr>sq_currency = qp_currency p, sq_sellMinor = pq_sellMinor i, sq_penaltyMinor = qp_penaltyMinor p,
                            sq_refundMinor = qp_refundMinor p,
                            sq_ruleDaysBeforeCheckin = map_option cn_daysBeforeCheckin (qp_effectiveRule p), sq_basis = BASIS_RULE,
                            sq_evaluatedAt = iso_text (pq_requestedAt i), sq_bookingVersion = None\<rparr>)))))"

definition buildNoShowQuote :: "time_zones \<Rightarrow> (string \<Rightarrow> int option) \<Rightarrow> PenaltyQuoteInput \<Rightarrow> StoredPenaltyQuote result" where
  "buildNoShowQuote tz other i =
     (case (readFrozenTerms (pq_rules i), pq_checkIn i) of
        (TermsFrozen terms, Some checkIn) \<Rightarrow>
          (case rt_noShow terms of
             None \<Rightarrow> Inr (undecided i ''policy_unavailable'' ''No readable no-show clause was stored with this booking.'')
           | Some rule \<Rightarrow>
               if checkIn = [] then Inr (undecided i ''policy_unavailable'' ''No readable no-show clause was stored with this booking.'')
               else ebind (quote tz other (quote_input other i checkIn [rule])) (\<lambda>q.
                 Inr (case q of
                   Quotable p \<Rightarrow>
                     if qp_effectiveRule p = None
                     then undecided i ''manual_review_required'' ''The no-show clause cannot be evaluated for this stay and time.''
                     else StoredQuotable \<lparr>sq_currency = pq_currency i, sq_sellMinor = pq_sellMinor i, sq_penaltyMinor = qp_penaltyMinor p,
                       sq_refundMinor = qp_refundMinor p, sq_ruleDaysBeforeCheckin = None, sq_basis = BASIS_NO_SHOW,
                       sq_evaluatedAt = iso_text (pq_requestedAt i), sq_bookingVersion = None\<rparr>
                 | NotQuotable _ _ _ \<Rightarrow> undecided i ''manual_review_required'' ''The no-show clause cannot be evaluated for this stay and time.'')))
      | _ \<Rightarrow> Inr (undecided i ''policy_unavailable'' ''No readable no-show clause was stored with this booking.''))"

subsection \<open>A penalty is a share of the sell amount and only goes down\<close>

lemma splitSell_Some: "splitSell sell p = Some (a, b) \<longleftrightarrow> 0 \<le> p \<and> p \<le> sell \<and> a = p \<and> b = sell - p"
  by (auto simp: splitSell_def)

lemma splitSell_None: "splitSell sell p = None \<longleftrightarrow> sell < 0 \<or> p < 0 \<or> sell < p"
  by (auto simp: splitSell_def)

lemma latest_fact_Some:
  "latest_fact sell facts = Some e \<Longrightarrow> \<exists>p. 0 \<le> p \<and> p \<le> sell \<and> determined e = Some (p, sell - p)"
  by (induction sell facts rule: latest_fact.induct) (auto simp: splitSell_Some split: option.splits if_splits)

lemma effectivePenalty_determined:
  assumes "determined (effectivePenalty s requested stored facts) = Some (p, r)"
  shows "requested \<and> (\<exists>sell. parseMinor (JStr s) = Some sell \<and> 0 \<le> p \<and> 0 \<le> r \<and> p + r = sell)"
  using assms by (auto simp: effectivePenalty_def splitSell_Some dest!: latest_fact_Some split: if_splits option.splits StoredPenaltyQuote.splits)

definition change_type :: "PenaltyChange \<Rightarrow> BookingFinanceEventType" where
  "change_type change = (if change = WAIVE then FE_PENALTY_WAIVED else FE_PENALTY_DECIDED)"

lemma effectivePenalty_append:
  assumes "parseMinor (JStr s) = Some sell" "splitSell sell p \<noteq> None" "t = FE_PENALTY_WAIVED \<or> t = FE_PENALTY_DECIDED"
  shows "effectivePenalty s True stored (facts @ [\<lparr>pf_type = t, pf_penaltyMinor = Some p\<rparr>])
    = (if t = FE_PENALTY_WAIVED then WAIVED p (sell - p) else DECIDED p (sell - p))"
proof -
  have "splitSell sell p = Some (p, sell - p)" using assms(2) by (auto simp: splitSell_def split: if_splits)
  with assms(1,3) show ?thesis by (auto simp: effectivePenalty_def)
qed

text \<open>Other events leave the penalty as it is.\<close>

lemma effectivePenalty_other:
  assumes "t \<noteq> FE_PENALTY_WAIVED" "t \<noteq> FE_PENALTY_DECIDED"
  shows "effectivePenalty s requested stored (facts @ [\<lparr>pf_type = t, pf_penaltyMinor = p\<rparr>]) = effectivePenalty s requested stored facts"
  using assms by (simp add: effectivePenalty_def split: option.splits)

lemma change_takes_effect:
  assumes "classifyPenaltyChange (effectivePenalty s True stored facts) sell p = change" "change = DECIDE \<or> change = WAIVE"
    and "parseMinor (JStr s) = Some sell"
  shows "determined (effectivePenalty s True stored (facts @ [\<lparr>pf_type = change_type change, pf_penaltyMinor = Some p\<rparr>])) = Some (p, sell - p)
    \<and> (case determined (effectivePenalty s True stored facts) of None \<Rightarrow> change = DECIDE | Some (old, _) \<Rightarrow> change = WAIVE \<and> p < old)"
proof -
  have ok: "splitSell sell p \<noteq> None" "change = DECIDE \<or> change = WAIVE"
    using assms(1,2) by (auto simp: classifyPenaltyChange_def split: if_splits option.splits)
  have "determined (effectivePenalty s True stored (facts @ [\<lparr>pf_type = change_type change, pf_penaltyMinor = Some p\<rparr>])) = Some (p, sell - p)"
    using effectivePenalty_append [OF assms(3) ok(1), of "change_type change" stored facts] by (auto simp: change_type_def)
  moreover have "case determined (effectivePenalty s True stored facts) of None \<Rightarrow> change = DECIDE | Some (old, _) \<Rightarrow> change = WAIVE \<and> p < old"
    using assms(1,2) by (auto simp: classifyPenaltyChange_def split: if_splits option.splits)
  ultimately show ?thesis ..
qed

lemma parseMinor_string:
  assumes "0 \<le> n" "n \<le> MAX_MINOR"
  shows "parseMinor (JStr (string_of_int n)) = Some n"
proof -
  have "nat n < 10 ^ 24" using assms by (simp add: MAX_MINOR_def)
  then have "length (string_of_nat (nat n)) \<le> 24" by (intro length_string_of_nat_le) simp_all
  moreover have "string_of_nat (nat n) \<noteq> []" by (subst string_of_nat.simps) simp
  ultimately show ?thesis
    using assms string_of_nat_digits [of "nat n"] by (simp add: parseMinor_def minor_digits_def string_of_int_def Suc_le_eq)
qed

subsection \<open>Freezing and reading\<close>

definition live_rule :: "LiveRule \<Rightarrow> CancellationRule" where
  "live_rule r = \<lparr>cn_daysBeforeCheckin = JInt (lr_daysBeforeCheckin r), cn_penaltyPercent = map_option JInt (lr_penaltyPercent r),
     cn_penaltyMinor = lr_penaltyMinor r, cn_penaltyNights = map_option JInt (lr_penaltyNights r), cn_currency = None\<rparr>"

definition live_rule_ok :: "LiveRule \<Rightarrow> bool" where
  "live_rule_ok r \<longleftrightarrow> (\<forall>p. lr_penaltyPercent r = Some p \<longrightarrow> 0 \<le> p \<and> p \<le> 100) \<and> (\<forall>n. lr_penaltyNights r = Some n \<longrightarrow> 1 \<le> n \<and> n \<le> 30)
     \<and> (\<forall>m. lr_penaltyMinor r = Some m \<longrightarrow> 0 \<le> m \<and> m \<le> MAX_MINOR)"

lemma string_of_int_digits: "minor_digits (string_of_int m) \<Longrightarrow> 0 \<le> m \<and> int (nat_of_digits (string_of_int m)) = m"
proof -
  assume a: "minor_digits (string_of_int m)"
  have "0 \<le> m"
  proof (rule ccontr)
    assume "\<not> 0 \<le> m"
    then have "hd (string_of_int m) = CHR ''-''" "string_of_int m \<noteq> []" by (simp_all add: string_of_int_def)
    with a have "is_digit (CHR ''-'')" by (cases "string_of_int m") (auto simp: minor_digits_def)
    then show False by (simp add: is_digit_def char_code_def)
  qed
  then show ?thesis by (simp add: string_of_int_def)
qed

lemma freezeRule_Some:
  assumes "freezeRule r cur = Some penalty"
  obtains (nights) n where "lr_penaltyNights r = Some n" "lr_penaltyPercent r = None" "lr_penaltyMinor r = None" "penalty = [(''penaltyNights'', JNum (JInt n))]"
    | (percent) p where "lr_penaltyPercent r = Some p" "lr_penaltyNights r = None" "lr_penaltyMinor r = None" "penalty = [(''penaltyPercent'', JNum (JInt p))]"
    | (minor) m where "lr_penaltyMinor r = Some m" "lr_penaltyNights r = None" "lr_penaltyPercent r = None" "penalty = [(''penaltyMinor'', JStr (string_of_int m))]"
  using assms by (auto simp: freezeRule_def split: if_splits option.splits)

lemma frozen_rule_reads:
  assumes "freezeRule r cur = Some penalty" "parse_rule (JObj ((''daysBeforeCheckin'', JNum (JInt d)) # penalty)) = Some fr"
  shows "toRule fr = (live_rule r)\<lparr>cn_daysBeforeCheckin := JInt d\<rparr>"
  using assms(1)
proof (cases rule: freezeRule_Some)
  case (nights n)
  with assms(2) show ?thesis
    by (auto simp: parse_rule_def field_def nullish_def toRule_def live_rule_def int_of_val_def Let_def split: if_splits)
next
  case (percent p)
  with assms(2) show ?thesis
    by (auto simp: parse_rule_def field_def nullish_def toRule_def live_rule_def int_of_val_def Let_def split: if_splits)
next
  case (minor m)
  with assms(2) have "parseMinor (JStr (string_of_int m)) \<noteq> None"
    and fr: "fr = \<lparr>fr_daysBeforeCheckin = d, fr_penaltyPercent = None, fr_penaltyMinor = Some (string_of_int m), fr_penaltyNights = None\<rparr>"
    by (auto simp: parse_rule_def field_def nullish_def int_of_val_def text_of_def Let_def split: if_splits)
  then have "minor_digits (string_of_int m)" by (auto simp: parseMinor_def split: if_splits)
  with string_of_int_digits [OF this] fr minor show ?thesis by (simp add: toRule_def live_rule_def)
qed

lemma frozen_tiers_read:
  assumes "freeze_tiers cur tiers = Some vs" "all_rules vs = Some frs"
  shows "map toRule frs = map live_rule tiers"
  using assms
proof (induction tiers arbitrary: vs frs)
  case (Cons r tiers)
  obtain penalty ws where p: "freezeRule r cur = Some penalty" and ws: "freeze_tiers cur tiers = Some ws"
    and vs: "vs = JObj ((''daysBeforeCheckin'', JNum (JInt (lr_daysBeforeCheckin r))) # penalty) # ws"
    using Cons.prems(1) by (auto split: option.splits)
  obtain fr frs' where fr: "parse_rule (JObj ((''daysBeforeCheckin'', JNum (JInt (lr_daysBeforeCheckin r))) # penalty)) = Some fr"
    and frs': "all_rules ws = Some frs'" and frs: "frs = fr # frs'"
    using Cons.prems(2) by (auto simp: vs split: option.splits)
  have "toRule fr = live_rule r" using frozen_rule_reads [OF p fr] by (simp add: live_rule_def)
  with Cons.IH [OF ws frs'] show ?case by (simp add: frs)
qed simp

lemma noShow_reads:
  assumes "freezeRule r cur = Some penalty" "live_rule_ok r"
  shows "read_noShow (JObj penalty) = Some (Some ((live_rule r)\<lparr>cn_daysBeforeCheckin := JInt 0\<rparr>))"
  using assms(1)
proof (cases rule: freezeRule_Some)
  case (nights n)
  with assms(2) show ?thesis
    by (auto simp: read_noShow_def parseFrozenRules_def rule_source_def MAX_CANCELLATION_RULES_def parse_rule_def spread_def field_def nullish_def
        toRule_def live_rule_def live_rule_ok_def int_of_val_def whole_def Let_def)
next
  case (percent p)
  with assms(2) show ?thesis
    by (auto simp: read_noShow_def parseFrozenRules_def rule_source_def MAX_CANCELLATION_RULES_def parse_rule_def spread_def field_def nullish_def
        toRule_def live_rule_def live_rule_ok_def int_of_val_def whole_def Let_def)
next
  case (minor m)
  with assms(2) have "parseMinor (JStr (string_of_int m)) = Some m" by (intro parseMinor_string) (auto simp: live_rule_ok_def)
  moreover from this have "minor_digits (string_of_int m)" by (auto simp: parseMinor_def split: if_splits)
  ultimately show ?thesis
    using minor string_of_int_digits [of m]
    by (auto simp: read_noShow_def parseFrozenRules_def rule_source_def MAX_CANCELLATION_RULES_def parse_rule_def spread_def field_def nullish_def
        toRule_def live_rule_def int_of_val_def text_of_def whole_def Let_def)
qed

text \<open>
  C35. Freezing a contract's terms onto a booking and reading them back gives exactly what the buyer was sold:
  each tier with its days moved earlier by the buffer and its one form of penalty, the name of the set, the
  length of the stay, and the no-show rule when the contract has one within the limits of a rule.
\<close>

theorem frozen_terms_roundtrip:
  assumes "freezeCancellationTerms tz rules cur name now ctx = Some v" "list_all live_rule_ok (no_show_rules rules)"
  shows "readFrozenTerms v = TermsFrozen \<lparr>rt_rules = map live_rule (live_tiers rules (fc_bufferDays ctx)), rt_setName = name,
    rt_stayNights = (if fc_stayNights ctx > 0 then Some (fc_stayNights ctx) else None),
    rt_noShow = (case no_show_rules rules of [] \<Rightarrow> None | r # _ \<Rightarrow> Some ((live_rule r)\<lparr>cn_daysBeforeCheckin := JInt 0\<rparr>))\<rparr>"
proof -
  obtain frozen noShow where frozen: "freeze_tiers cur (live_tiers rules (fc_bufferDays ctx)) = Some frozen"
    and ok: "frozen \<noteq> [] \<longrightarrow> parseFrozenRules (JArr frozen) \<noteq> None"
    and noShow: "frozen_noShow rules cur = Some noShow" and v: "v = frozen_body name now ctx frozen noShow"
    using assms(1) by (auto simp: freezeCancellationTerms_def split: if_splits option.splits)
  obtain kvs where kvs: "v = JObj kvs" by (simp add: v frozen_body_def)
  have fields: "field kvs ''rules'' = JArr frozen" "field kvs ''setName'' = name_value name" "field kvs ''frozenAt'' = JStr (iso_text now)"
      "field kvs ''stayNights'' = JNum (JInt (fc_stayNights ctx))"
      "field kvs ''noShow'' = (case noShow of Some penalty \<Rightarrow> JObj penalty | None \<Rightarrow> JUndefined)"
    using v unfolding kvs frozen_body_def by (auto simp: field_def map_add_def split: option.splits if_splits)
  have rules: "\<exists>parsed. (if frozen = [] then Some [] else parseFrozenRules (JArr frozen)) = Some parsed
      \<and> map toRule parsed = map live_rule (live_tiers rules (fc_bufferDays ctx))"
  proof (cases "frozen = []")
    case True
    with frozen have "live_tiers rules (fc_bufferDays ctx) = []" by (cases "live_tiers rules (fc_bufferDays ctx)") (auto split: option.splits)
    with True show ?thesis by simp
  next
    case False
    with ok obtain parsed where p: "parseFrozenRules (JArr frozen) = Some parsed" by auto
    then have "all_rules frozen = Some parsed" by (simp add: parseFrozenRules_def rule_source_def split: if_splits)
    with frozen_tiers_read [OF frozen] p False show ?thesis by simp
  qed
  have no: "read_noShow (field kvs ''noShow'')
      = Some (case no_show_rules rules of [] \<Rightarrow> None | r # _ \<Rightarrow> Some ((live_rule r)\<lparr>cn_daysBeforeCheckin := JInt 0\<rparr>))"
  proof (cases "no_show_rules rules")
    case Nil
    with noShow show ?thesis by (simp add: fields(5) read_noShow_def frozen_noShow_def)
  next
    case (Cons r rs)
    with noShow obtain penalty where p: "freezeRule r cur = Some penalty" "noShow = Some penalty" by (auto simp: frozen_noShow_def)
    have "live_rule_ok r" using assms(2) Cons by simp
    with noShow_reads [OF p(1)] p(2) Cons show ?thesis by (simp add: fields(5))
  qed
  have "(case name_value name of JStr s \<Rightarrow> Some s | _ \<Rightarrow> None) = name" by (cases name) (simp_all add: name_value_def)
  with rules no show ?thesis by (auto simp: kvs readFrozenTerms_def nullish_def fields(1-4))
qed

text \<open>A no-show rule outside the limits is frozen all the same and makes the terms unreadable as a whole.\<close>

lemma unreadable_no_show:
  "\<exists>v. freezeCancellationTerms utc_zones [\<lparr>lr_kind = Some ''NO_SHOW'', lr_daysBeforeCheckin = 0, lr_penaltyPercent = Some 150,
      lr_penaltyMinor = None, lr_penaltyNights = None, lr_currency = None\<rparr>] ''AED'' None 0
      \<lparr>fc_bufferDays = 0, fc_stayNights = 2, fc_timeZone = None, fc_contract = None\<rparr> = Some v \<and> readFrozenTerms v = TermsInvalid"
  by (simp add: freezeCancellationTerms_def no_show_rules_def frozen_noShow_def frozen_body_def live_tiers_def freezeRule_def readFrozenTerms_def nullish_def field_def name_value_def
      read_noShow_def spread_def parseFrozenRules_def rule_source_def MAX_CANCELLATION_RULES_def parse_rule_def whole_def int_of_val_def)

lemma quote_bounds: "quote tz other i = Inr (Quotable q) \<Longrightarrow> 0 \<le> qp_penaltyMinor q \<and> qp_penaltyMinor q \<le> ci_cancellableAmountMinor i"
  unfolding quote_Quotable
  by (elim conjE exE, case_tac "in_force tz i t") (auto simp: free_quote_def can_quote_def dest: raw_penalty_Inr(1))

lemma buildPenaltyQuote_rules:
  assumes "buildPenaltyQuote tz other i = Inr (StoredQuotable q)" "pq_isRefundable i = Some True"
  obtains frozen checkIn p where "parseFrozenRules (pq_rules i) = Some frozen" "pq_checkIn i = Some checkIn" "checkIn \<noteq> []"
    "quote tz other (quote_input other i checkIn (map (priced_rule (pq_currency i)) frozen)) = Inr (Quotable p)"
    "sq_penaltyMinor q = qp_penaltyMinor p" "sq_refundMinor q = qp_refundMinor p"
proof -
  obtain frozen checkIn where f: "parseFrozenRules (pq_rules i) = Some frozen" "pq_checkIn i = Some checkIn" "checkIn \<noteq> []"
    using assms by (auto simp: buildPenaltyQuote_def undecided_def split: option.splits if_splits)
  with assms obtain r where r: "quote tz other (quote_input other i checkIn (map (priced_rule (pq_currency i)) frozen)) = Inr r"
    by (auto simp: buildPenaltyQuote_def ebind_Inr_iff)
  with assms f obtain p where p: "r = Quotable p" by (cases r) (auto simp: buildPenaltyQuote_def undecided_def)
  show ?thesis using that [OF f, of p] assms f r p by (auto simp: buildPenaltyQuote_def)
qed

text \<open>
  A stored penalty quote with an amount splits the sell amount and is the penalty that counts until a
  person changes it: a booking known to be non-refundable keeps everything, one whose refundability is not
  known, whose terms cannot be read or whose check-in is missing never gets an amount.
\<close>

theorem stored_quote_counts:
  assumes "buildPenaltyQuote tz other i = Inr (StoredQuotable q)" "0 \<le> pq_sellMinor i" "pq_sellMinor i \<le> MAX_MINOR"
  shows "0 \<le> sq_penaltyMinor q \<and> sq_penaltyMinor q + sq_refundMinor q = pq_sellMinor i \<and> 0 \<le> sq_refundMinor q
    \<and> effectivePenalty (string_of_int (pq_sellMinor i)) True (Some (StoredQuotable q)) [] = QUOTED (sq_penaltyMinor q) (sq_refundMinor q)
    \<and> (pq_isRefundable i = Some False \<and> sq_penaltyMinor q = pq_sellMinor i
       \<or> pq_isRefundable i = Some True \<and> parseFrozenRules (pq_rules i) \<noteq> None \<and> pq_checkIn i \<noteq> None \<and> pq_checkIn i \<noteq> Some [])"
proof -
  have sell: "parseMinor (JStr (string_of_int (pq_sellMinor i))) = Some (pq_sellMinor i)" using assms(2,3) by (rule parseMinor_string)
  have split: "0 \<le> sq_penaltyMinor q \<and> sq_penaltyMinor q + sq_refundMinor q = pq_sellMinor i \<and> sq_penaltyMinor q \<le> pq_sellMinor i
    \<and> (pq_isRefundable i = Some False \<and> sq_penaltyMinor q = pq_sellMinor i
       \<or> pq_isRefundable i = Some True \<and> parseFrozenRules (pq_rules i) \<noteq> None \<and> pq_checkIn i \<noteq> None \<and> pq_checkIn i \<noteq> Some [])"
  proof (cases "pq_isRefundable i")
    case None
    with assms(1) show ?thesis by (simp add: buildPenaltyQuote_def undecided_def)
  next
    case (Some refundable)
    show ?thesis
    proof (cases refundable)
      case False
      with assms Some show ?thesis by (auto simp: buildPenaltyQuote_def)
    next
      case True
      obtain frozen checkIn p where parsed: "parseFrozenRules (pq_rules i) = Some frozen" "pq_checkIn i = Some checkIn" "checkIn \<noteq> []"
        and p: "quote tz other (quote_input other i checkIn (map (priced_rule (pq_currency i)) frozen)) = Inr (Quotable p)"
        and q: "sq_penaltyMinor q = qp_penaltyMinor p" "sq_refundMinor q = qp_refundMinor p"
        by (rule buildPenaltyQuote_rules [OF assms(1)]) (use Some True in simp_all)
      have "ci_cancellableAmountMinor (quote_input other i checkIn (map (priced_rule (pq_currency i)) frozen)) = pq_sellMinor i"
        by (simp add: quote_input_def)
      with quote_bounds [OF p] quote_adds_up [OF p] q parsed Some True show ?thesis by auto
    qed
  qed
  then have "splitSell (pq_sellMinor i) (sq_penaltyMinor q) = Some (sq_penaltyMinor q, sq_refundMinor q)"
    by (auto simp: splitSell_Some)
  then have "effectivePenalty (string_of_int (pq_sellMinor i)) True (Some (StoredQuotable q)) [] = QUOTED (sq_penaltyMinor q) (sq_refundMinor q)"
    by (simp add: effectivePenalty_def sell)
  with split show ?thesis by auto
qed

subsection \<open>Examples\<close>

definition sample_contract :: "LiveRule list" where
  "sample_contract =
     [\<lparr>lr_kind = None, lr_daysBeforeCheckin = 5, lr_penaltyPercent = Some 20, lr_penaltyMinor = None, lr_penaltyNights = None, lr_currency = None\<rparr>,
      \<lparr>lr_kind = Some ''NO_SHOW'', lr_daysBeforeCheckin = 0, lr_penaltyPercent = Some 100, lr_penaltyMinor = None, lr_penaltyNights = None, lr_currency = None\<rparr>]"

definition sample_context :: FreezeContext where
  "sample_context = \<lparr>fc_bufferDays = 2, fc_stayNights = 3, fc_timeZone = Some ''UTC'', fc_contract = None\<rparr>"

lemma frozen_terms_roundtrip_witness:
  "\<exists>v rt. freezeCancellationTerms utc_zones sample_contract ''AED'' (Some ''std'') 0 sample_context = Some v \<and> readFrozenTerms v = TermsFrozen rt
     \<and> map cn_daysBeforeCheckin (rt_rules rt) = [JInt 7] \<and> rt_stayNights rt = Some 3"
proof -
  have "freezeCancellationTerms utc_zones sample_contract ''AED'' (Some ''std'') 0 sample_context \<noteq> None"
    by (simp add: freezeCancellationTerms_def sample_context_def sample_contract_def utc_zones_def no_show_rules_def frozen_noShow_def live_tiers_def
        freezeRule_def parseFrozenRules_def rule_source_def MAX_CANCELLATION_RULES_def parse_rule_def field_def whole_def nullish_def Let_def)
  then obtain v where v: "freezeCancellationTerms utc_zones sample_contract ''AED'' (Some ''std'') 0 sample_context = Some v" by auto
  have ok: "list_all live_rule_ok (no_show_rules sample_contract)"
    by (simp add: no_show_rules_def sample_contract_def live_rule_ok_def)
  have "map cn_daysBeforeCheckin (map live_rule (live_tiers sample_contract (fc_bufferDays sample_context))) = [JInt 7]"
    by (simp add: live_tiers_def sample_contract_def sample_context_def live_rule_def)
  moreover have "fc_stayNights sample_context = 3" by (simp add: sample_context_def)
  ultimately show ?thesis using frozen_terms_roundtrip [OF v ok] v by fastforce
qed

end
