(* ===== verification/Booking_Lifecycle.thy ===== *)
theory Booking_Lifecycle
  imports Booking_Finance
begin
text \<open>
  The booking lifecycle of \<open>packages/contracts/src/booking-lifecycle.ts\<close>: the statuses and the legal moves, the
  named actions that perform them with who may take them, and what a request must carry. The labels and
  effects of the actions are display texts and left out.
\<close>

subsection \<open>Moves\<close>

fun BOOKING_TRANSITIONS :: "BookingStatus \<Rightarrow> BookingStatus list" where
  "BOOKING_TRANSITIONS PENDING_SUPPLIER = [CONFIRMED, ON_REQUEST, FAILED]"
| "BOOKING_TRANSITIONS ON_REQUEST = [CONFIRMED, REJECTED]"
| "BOOKING_TRANSITIONS CONFIRMED = [AMEND_REQUESTED, CANCEL_REQUESTED, CHECKED_OUT]"
| "BOOKING_TRANSITIONS AMEND_REQUESTED = [CONFIRMED]"
| "BOOKING_TRANSITIONS CANCEL_REQUESTED = [CANCELLED]"
| "BOOKING_TRANSITIONS CHECKED_OUT = [NO_SHOW]"
| "BOOKING_TRANSITIONS NO_SHOW = []"
| "BOOKING_TRANSITIONS CANCELLED = []"
| "BOOKING_TRANSITIONS REJECTED = []"
| "BOOKING_TRANSITIONS FAILED = []"

definition BOOKING_CLOSABLE_STATUSES :: "BookingStatus list" where
  "BOOKING_CLOSABLE_STATUSES = [CHECKED_OUT, NO_SHOW, CANCELLED, REJECTED, FAILED]"

definition NO_SHOW_WINDOW_DAYS :: int where
  "NO_SHOW_WINDOW_DAYS = 7"

datatype BookingAction = recordConfirmed | recordOnRequest | recordFailed
  | confirmOnRequest | rejectOnRequest
  | requestAmendment | approveAmendment | rejectAmendment
  | requestCancellation | confirmCancellation
  | markNoShow | markCheckedOut | close_failed
  | systemCloseCheckedOut | systemCloseNoShow | systemCloseCancelled | systemCloseRejected | systemCloseFailed
  | systemConfirm | systemOnRequest | systemConfirmOnRequest | systemRejectOnRequest | systemFail
  | systemRequestCancellation | systemCompleteCancellation

definition BOOKING_ACTIONS :: "BookingAction list" where
  "BOOKING_ACTIONS =
     [recordConfirmed, recordOnRequest, recordFailed, confirmOnRequest, rejectOnRequest, requestAmendment, approveAmendment,
      rejectAmendment, requestCancellation, confirmCancellation, markNoShow, markCheckedOut, close_failed,
      systemCloseCheckedOut, systemCloseNoShow, systemCloseCancelled, systemCloseRejected, systemCloseFailed,
      systemConfirm, systemOnRequest, systemConfirmOnRequest, systemRejectOnRequest, systemFail,
      systemRequestCancellation, systemCompleteCancellation]"

datatype BookingActionField = F_reason | F_supplierRef | F_hotelConfirmationNo | F_supplierCancellationRef | F_confirmNonRefundable

datatype BookingActorKind = OPERATOR | AGENCY | SYSTEM

record BookingActionRule =
  br_from :: BookingStatus
  br_to :: BookingStatus
  br_permissions :: "string list"
  br_required :: "BookingActionField list"
  br_actors :: "BookingActorKind list"
  br_secondConfirmationWhenNonRefundable :: bool
  br_bumpsVersion :: bool
  br_locks :: bool

definition plain_rule :: "BookingStatus \<Rightarrow> BookingStatus \<Rightarrow> string list \<Rightarrow> BookingActionField list \<Rightarrow> BookingActorKind list \<Rightarrow> BookingActionRule" where
  "plain_rule from_status to_status permissions required actors =
     \<lparr>br_from = from_status, br_to = to_status, br_permissions = permissions, br_required = required, br_actors = actors,
      br_secondConfirmationWhenNonRefundable = False, br_bumpsVersion = False, br_locks = False\<rparr>"

definition lock_rule :: "BookingStatus \<Rightarrow> BookingActionRule" where
  "lock_rule status = (plain_rule status status [] [] [SYSTEM])\<lparr>br_locks := True\<rparr>"

fun BOOKING_ACTION_RULES :: "BookingAction \<Rightarrow> BookingActionRule" where
  "BOOKING_ACTION_RULES recordConfirmed = plain_rule PENDING_SUPPLIER CONFIRMED [''booking.confirm.manual''] [F_supplierRef] [OPERATOR]"
| "BOOKING_ACTION_RULES recordOnRequest = plain_rule PENDING_SUPPLIER ON_REQUEST [''booking.confirm.manual''] [] [OPERATOR]"
| "BOOKING_ACTION_RULES recordFailed = plain_rule PENDING_SUPPLIER FAILED [''booking.confirm.manual''] [F_reason] [OPERATOR]"
| "BOOKING_ACTION_RULES confirmOnRequest = plain_rule ON_REQUEST CONFIRMED [''booking.on-request.resolve''] [F_supplierRef, F_hotelConfirmationNo] [OPERATOR]"
| "BOOKING_ACTION_RULES rejectOnRequest = plain_rule ON_REQUEST REJECTED [''booking.on-request.resolve''] [F_reason] [OPERATOR]"
| "BOOKING_ACTION_RULES requestAmendment = plain_rule CONFIRMED AMEND_REQUESTED [''booking.amend'', ''booking.amend.request''] [F_reason] [OPERATOR, AGENCY]"
| "BOOKING_ACTION_RULES approveAmendment = (plain_rule AMEND_REQUESTED CONFIRMED [''booking.amend''] [] [OPERATOR])\<lparr>br_bumpsVersion := True\<rparr>"
| "BOOKING_ACTION_RULES rejectAmendment = plain_rule AMEND_REQUESTED CONFIRMED [''booking.amend''] [F_reason] [OPERATOR]"
| "BOOKING_ACTION_RULES requestCancellation =
     (plain_rule CONFIRMED CANCEL_REQUESTED [''booking.cancel'', ''booking.cancel.nonrefundable'', ''booking.cancel.request''] [F_reason] [OPERATOR, AGENCY])
       \<lparr>br_secondConfirmationWhenNonRefundable := True\<rparr>"
| "BOOKING_ACTION_RULES confirmCancellation =
     (plain_rule CANCEL_REQUESTED CANCELLED [''booking.cancel'', ''booking.cancel.nonrefundable''] [F_supplierCancellationRef] [OPERATOR])
       \<lparr>br_secondConfirmationWhenNonRefundable := True\<rparr>"
| "BOOKING_ACTION_RULES markNoShow = plain_rule CHECKED_OUT NO_SHOW [''booking.no-show.mark''] [F_reason] [OPERATOR]"
| "BOOKING_ACTION_RULES markCheckedOut = plain_rule CONFIRMED CHECKED_OUT [] [] [SYSTEM]"
| "BOOKING_ACTION_RULES systemConfirm = plain_rule PENDING_SUPPLIER CONFIRMED [] [] [SYSTEM]"
| "BOOKING_ACTION_RULES systemOnRequest = plain_rule PENDING_SUPPLIER ON_REQUEST [] [] [SYSTEM]"
| "BOOKING_ACTION_RULES systemConfirmOnRequest = plain_rule ON_REQUEST CONFIRMED [] [] [SYSTEM]"
| "BOOKING_ACTION_RULES systemRejectOnRequest = plain_rule ON_REQUEST REJECTED [] [F_reason] [SYSTEM]"
| "BOOKING_ACTION_RULES systemFail = plain_rule PENDING_SUPPLIER FAILED [] [F_reason] [SYSTEM]"
| "BOOKING_ACTION_RULES systemRequestCancellation = plain_rule CONFIRMED CANCEL_REQUESTED [] [] [SYSTEM]"
| "BOOKING_ACTION_RULES systemCompleteCancellation = plain_rule CANCEL_REQUESTED CANCELLED [] [] [SYSTEM]"
| "BOOKING_ACTION_RULES close_failed = (plain_rule FAILED FAILED [''booking.rebook''] [F_reason] [OPERATOR])\<lparr>br_locks := True\<rparr>"
| "BOOKING_ACTION_RULES systemCloseCheckedOut = lock_rule CHECKED_OUT"
| "BOOKING_ACTION_RULES systemCloseNoShow = lock_rule NO_SHOW"
| "BOOKING_ACTION_RULES systemCloseCancelled = lock_rule CANCELLED"
| "BOOKING_ACTION_RULES systemCloseRejected = lock_rule REJECTED"
| "BOOKING_ACTION_RULES systemCloseFailed = lock_rule FAILED"

definition isLegalMove :: "BookingStatus \<Rightarrow> BookingStatus \<Rightarrow> bool" where
  "isLegalMove from_status to_status \<longleftrightarrow> to_status \<in> set (BOOKING_TRANSITIONS from_status)"

subsection \<open>What blocks an action and who may take it\<close>

record BookingActionFacts =
  af_status :: BookingStatus
  af_closed :: bool
  af_isRefundable :: "bool option"
  af_checkIn :: "string option"

datatype ActionBlock = WRONG_STATUS | CLOSED | NO_SHOW_WINDOW | NO_STAY_DATES | NOT_CLOSABLE

text \<open>A check-in that is no date makes the limit not-a-number, and nothing is at or past that.\<close>

definition past_no_show_window :: "(string \<Rightarrow> int option) \<Rightarrow> string \<Rightarrow> int \<Rightarrow> bool" where
  "past_no_show_window other checkIn now \<longleftrightarrow>
     (case date_parse other (checkIn @ ''T00:00:00Z'') of
        Some t \<Rightarrow> t + (NO_SHOW_WINDOW_DAYS + 1) * 86400000 \<le> now
      | None \<Rightarrow> False)"

definition actionBlock :: "(string \<Rightarrow> int option) \<Rightarrow> BookingAction \<Rightarrow> BookingActionFacts \<Rightarrow> int \<Rightarrow> ActionBlock option" where
  "actionBlock other action facts now =
     (let rule = BOOKING_ACTION_RULES action in
      if af_closed facts then Some CLOSED
      else if af_status facts \<noteq> br_from rule then Some WRONG_STATUS
      else if br_locks rule \<and> af_status facts \<notin> set BOOKING_CLOSABLE_STATUSES then Some NOT_CLOSABLE
      else if action = markNoShow then
        (case af_checkIn facts of
           None \<Rightarrow> Some NO_STAY_DATES
         | Some checkIn \<Rightarrow>
             if checkIn = [] then Some NO_STAY_DATES
             else if past_no_show_window other checkIn now then Some NO_SHOW_WINDOW
             else None)
      else None)"

definition held_key :: "string set \<Rightarrow> string \<Rightarrow> string option" where
  "held_key held key = (if key \<in> held then Some key else None)"

definition permissionFor :: "BookingAction \<Rightarrow> BookingActorKind \<Rightarrow> string set \<Rightarrow> bool option \<Rightarrow> string option" where
  "permissionFor action level held isRefundable =
     (let rule = BOOKING_ACTION_RULES action in
      if level \<notin> set (br_actors rule) then None
      else if action = requestCancellation \<or> action = confirmCancellation then
        (if level = AGENCY then
           (if ''booking.cancel.request'' \<in> held \<and> action = requestCancellation then Some ''booking.cancel.request'' else None)
         else if isRefundable = Some True then
           (if ''booking.cancel'' \<in> held then Some ''booking.cancel'' else held_key held ''booking.cancel.nonrefundable'')
         else held_key held ''booking.cancel.nonrefundable'')
      else if action = requestAmendment \<and> level = AGENCY then held_key held ''booking.amend.request''
      else find (\<lambda>key. key \<in> held) (br_permissions rule))"

record BookingAvailableAction =
  ba_action :: BookingAction
  ba_to :: BookingStatus
  ba_required :: "BookingActionField list"
  ba_needsSecondConfirmation :: bool

definition needs_second :: "BookingAction \<Rightarrow> BookingActorKind \<Rightarrow> bool option \<Rightarrow> bool" where
  "needs_second action level isRefundable \<longleftrightarrow>
     br_secondConfirmationWhenNonRefundable (BOOKING_ACTION_RULES action) \<and> (level = AGENCY \<or> isRefundable \<noteq> Some True)"

definition availableActions ::
  "(string \<Rightarrow> int option) \<Rightarrow> BookingActionFacts \<Rightarrow> BookingActorKind \<Rightarrow> string set \<Rightarrow> int \<Rightarrow> BookingAvailableAction list" where
  "availableActions other facts level held now =
     map (\<lambda>a. \<lparr>ba_action = a, ba_to = br_to (BOOKING_ACTION_RULES a), ba_required = br_required (BOOKING_ACTION_RULES a),
                ba_needsSecondConfirmation = needs_second a level (af_isRefundable facts)\<rparr>)
       (filter (\<lambda>a. actionBlock other a facts now = None \<and> permissionFor a level held (af_isRefundable facts) \<noteq> None)
         (filter (\<lambda>a. SYSTEM \<notin> set (br_actors (BOOKING_ACTION_RULES a)) \<or> length (br_actors (BOOKING_ACTION_RULES a)) > 1) BOOKING_ACTIONS))"

text \<open>What a request carries, as the texts and flags it has.\<close>

definition field_given :: "(BookingActionField \<Rightarrow> jsval) \<Rightarrow> BookingActionField \<Rightarrow> bool" where
  "field_given input f \<longleftrightarrow>
     (if f = F_confirmNonRefundable then input f = JBool True
      else (case input f of JStr s \<Rightarrow> trim s \<noteq> [] | _ \<Rightarrow> False))"

definition missingFields :: "BookingAction \<Rightarrow> (BookingActionField \<Rightarrow> jsval) \<Rightarrow> BookingActionField list" where
  "missingFields action input = filter (\<lambda>f. \<not> field_given input f) (br_required (BOOKING_ACTION_RULES action))"

fun CLOSE_ACTION_BY_STATUS :: "BookingStatus \<Rightarrow> BookingAction option" where
  "CLOSE_ACTION_BY_STATUS CHECKED_OUT = Some systemCloseCheckedOut"
| "CLOSE_ACTION_BY_STATUS NO_SHOW = Some systemCloseNoShow"
| "CLOSE_ACTION_BY_STATUS CANCELLED = Some systemCloseCancelled"
| "CLOSE_ACTION_BY_STATUS REJECTED = Some systemCloseRejected"
| "CLOSE_ACTION_BY_STATUS FAILED = Some systemCloseFailed"
| "CLOSE_ACTION_BY_STATUS _ = None"

definition close_days_error :: string where
  "close_days_error = ''must be a whole number of days from 1 to 365''"

definition parseCloseAfterDays :: "string option \<Rightarrow> string + nat option" where
  "parseCloseAfterDays raw =
     (case raw of
        None \<Rightarrow> Inr None
      | Some s \<Rightarrow>
          let t = trim s in
          if t = [] then Inr None
          else if \<not> (1 \<le> length t \<and> length t \<le> 3 \<and> list_all is_digit t) then Inl close_days_error
          else let days = nat_of_digits t in if 1 \<le> days \<and> days \<le> 365 then Inr (Some days) else Inl close_days_error)"

subsection \<open>The table and the rules agree\<close>

lemma all_actions: "a \<in> set BOOKING_ACTIONS"
  by (cases a) (simp_all add: BOOKING_ACTIONS_def)

lemma rule_moves:
  "br_locks (BOOKING_ACTION_RULES a) \<Longrightarrow> br_to (BOOKING_ACTION_RULES a) = br_from (BOOKING_ACTION_RULES a)
     \<and> br_from (BOOKING_ACTION_RULES a) \<in> set BOOKING_CLOSABLE_STATUSES"
  "\<not> br_locks (BOOKING_ACTION_RULES a) \<Longrightarrow> isLegalMove (br_from (BOOKING_ACTION_RULES a)) (br_to (BOOKING_ACTION_RULES a))"
  by (cases a; simp add: plain_rule_def lock_rule_def BOOKING_CLOSABLE_STATUSES_def isLegalMove_def)+

text \<open>Every legal move has an action, and every closable status an action of the system that locks it.\<close>

lemma moves_have_actions:
  "isLegalMove f t \<longleftrightarrow> (\<exists>a. \<not> br_locks (BOOKING_ACTION_RULES a) \<and> br_from (BOOKING_ACTION_RULES a) = f \<and> br_to (BOOKING_ACTION_RULES a) = t)"
proof
  assume l: "isLegalMove f t"
  have "list_ex (\<lambda>a. \<not> br_locks (BOOKING_ACTION_RULES a) \<and> br_from (BOOKING_ACTION_RULES a) = f \<and> br_to (BOOKING_ACTION_RULES a) = t) BOOKING_ACTIONS"
    using l by (cases f) (auto simp: isLegalMove_def BOOKING_ACTIONS_def plain_rule_def lock_rule_def)
  then show "\<exists>a. \<not> br_locks (BOOKING_ACTION_RULES a) \<and> br_from (BOOKING_ACTION_RULES a) = f \<and> br_to (BOOKING_ACTION_RULES a) = t"
    by (auto simp: list_ex_iff)
qed (use rule_moves(2) in blast)

lemma close_actions:
  "CLOSE_ACTION_BY_STATUS s = Some a \<longleftrightarrow> br_locks (BOOKING_ACTION_RULES a) \<and> br_from (BOOKING_ACTION_RULES a) = s \<and> br_actors (BOOKING_ACTION_RULES a) = [SYSTEM]"
  by (cases s; cases a) (simp_all add: plain_rule_def lock_rule_def)

text \<open>No status is left after the terminal ones, and none is reached twice except confirmed, over an amendment.\<close>

definition stage :: "BookingStatus \<Rightarrow> nat" where
  "stage s = (case s of PENDING_SUPPLIER \<Rightarrow> 0 | ON_REQUEST \<Rightarrow> 1 | CONFIRMED \<Rightarrow> 2 | AMEND_REQUESTED \<Rightarrow> 2 | CANCEL_REQUESTED \<Rightarrow> 3 | CHECKED_OUT \<Rightarrow> 3
     | CANCELLED \<Rightarrow> 4 | NO_SHOW \<Rightarrow> 4 | REJECTED \<Rightarrow> 4 | FAILED \<Rightarrow> 4)"

lemma moves_advance:
  "isLegalMove f t \<Longrightarrow> stage f < stage t \<or> {f, t} = {CONFIRMED, AMEND_REQUESTED}"
  by (cases f) (auto simp: isLegalMove_def stage_def)


definition sample_facts :: BookingActionFacts where
  "sample_facts = \<lparr>af_status = CONFIRMED, af_closed = False, af_isRefundable = None, af_checkIn = None\<rparr>"

end
