(* ===== verification/Booking_Amendment.thy ===== *)
theory Booking_Amendment
  imports Booking_Finance
begin
text \<open>
  The rules of a booking amendment (\<open>packages/contracts/src/booking-amendment.ts\<close>): what a proposal may
  change, what an approval records and what the new price does to net, markup and deadline. A proposal is an
  untrusted value; the issues are listed in the order the code finds them, with their messages.
\<close>

subsection \<open>Data\<close>

datatype BookingAmendmentStatus = AMENDMENT_REQUESTED | AMENDMENT_APPROVED | AMENDMENT_REJECTED

definition maxNights :: int where "maxNights = 60"
definition maxAdults :: int where "maxAdults = 9"
definition maxChildren :: int where "maxChildren = 6"
definition maxChildAge :: int where "maxChildAge = 17"
definition maxRooms :: nat where "maxRooms = 8"
definition minorDigits :: nat where "minorDigits = 15"

record AmendmentRoom =
  rm_position :: int
  rm_adults :: int
  rm_children :: int
  rm_childAges :: "int list"

record BookingAmendmentProposal =
  ap_checkIn :: "string option"
  ap_checkOut :: "string option"
  ap_rooms :: "AmendmentRoom list option"

text \<open>A net or deadline that is given is \<open>Some\<close>; \<open>Some None\<close> is the \<open>null\<close> that makes it unknown.\<close>

record BookingAmendmentApproval =
  aa_sellMinor :: int
  aa_netMinor :: "int option option"
  aa_cancelDeadline :: "int option option"

record AmendmentSubject =
  as_checkIn :: "string option"
  as_checkOut :: "string option"
  as_rooms :: "AmendmentRoom list"

record AmendmentState = AmendmentSubject +
  am_nights :: "int option"
  am_sellMinor :: int
  am_netMinor :: "int option"
  am_cancelDeadline :: "int option"

record AmendmentIssue =
  ai_field :: string
  ai_message :: string

datatype AmendmentChange = STAY_DATES | OCCUPANCY

record AmendmentStay =
  sy_checkIn :: "string option"
  sy_checkOut :: "string option"
  sy_nights :: "int option"

record AmendmentChecked =
  ac_proposal :: BookingAmendmentProposal
  ac_stay :: AmendmentStay
  ac_changes :: "AmendmentChange list"

type_synonym AmendmentValidation = "AmendmentIssue list + AmendmentChecked"

abbreviation am_issue :: "string \<Rightarrow> string \<Rightarrow> AmendmentIssue" where
  "am_issue f m \<equiv> \<lparr>ai_field = f, ai_message = m\<rparr>"

subsection \<open>Dates and texts\<close>

text \<open>A day that is in the calendar: the text of the day the date reads as is the text itself.\<close>

definition validDay :: "jsval \<Rightarrow> string option" where
  "validDay value = (case value of JStr s \<Rightarrow> if isIsoDate s then Some s else None | _ \<Rightarrow> None)"

text \<open>\<open>Math.round\<close> of the days between two dates; not-a-number is none.\<close>

definition nightsBetween :: "(string \<Rightarrow> int option) \<Rightarrow> string \<Rightarrow> string \<Rightarrow> int option" where
  "nightsBetween other checkIn checkOut =
     (case (midnight_of other checkOut, midnight_of other checkIn) of
        (Some b, Some a) \<Rightarrow> Some ((2 * (b - a) + MS_PER_DAY) div (2 * MS_PER_DAY))
      | _ \<Rightarrow> None)"

definition sameAges :: "int list \<Rightarrow> int list \<Rightarrow> bool" where
  "sameAges a b \<longleftrightarrow> length a = length b \<and> sort a = sort b"

text \<open>A text that is present and not empty.\<close>

definition given :: "string option \<Rightarrow> string option" where
  "given s = (if s = Some [] then None else s)"

definition unsupported :: "string \<Rightarrow> string list \<Rightarrow> (string \<times> jsval) list \<Rightarrow> AmendmentIssue list" where
  "unsupported at known_keys entries =
     map (\<lambda>key. am_issue (at @ key) (''Unsupported field '' @ [CHR 0x22] @ take 40 key @ [CHR 0x22]))
       (filter (\<lambda>key. key \<notin> set known_keys) (map fst entries))"

subsection \<open>A proposal against the booking\<close>

definition date_issue :: "(string \<times> jsval) list \<Rightarrow> string \<Rightarrow> AmendmentIssue list" where
  "date_issue input key =
     (if field input key \<noteq> JUndefined \<and> validDay (field input key) = None
      then [am_issue key (key @ '' must be a real date as YYYY-MM-DD'')] else [])"

definition new_or :: "string option \<Rightarrow> string option \<Rightarrow> string option" where
  "new_or new_value old_value = (if new_value \<noteq> None then new_value else old_value)"

definition stay_issues ::
  "(string \<Rightarrow> int option) \<Rightarrow> 'a AmendmentSubject_scheme \<Rightarrow> string \<Rightarrow> string option \<Rightarrow> string option \<Rightarrow> AmendmentIssue list" where
  "stay_issues other current today newIn newOut =
     (if newIn = None \<and> newOut = None then []
      else case (given (new_or newIn (as_checkIn current)), given (new_or newOut (as_checkOut current))) of
        (Some checkIn, Some checkOut) \<Rightarrow>
          (case nightsBetween other checkIn checkOut of
             Some nights \<Rightarrow>
               if nights < 1 then [am_issue ''checkOut'' ''Check-out must be after check-in'']
               else if nights > maxNights then [am_issue ''checkOut'' (''A stay is at most '' @ string_of_int maxNights @ '' nights'')]
               else []
           | None \<Rightarrow> [])
          @ (case newIn of
               Some d \<Rightarrow> if newIn \<noteq> as_checkIn current \<and> d < today then [am_issue ''checkIn'' ''Check-in cannot be moved into the past''] else []
             | None \<Rightarrow> [])
      | _ \<Rightarrow> [am_issue ''checkIn'' ''This booking has no recorded stay dates; give both check-in and check-out''])"

definition stay_differs :: "'a AmendmentSubject_scheme \<Rightarrow> string option \<Rightarrow> string option \<Rightarrow> bool" where
  "stay_differs current newIn newOut \<longleftrightarrow>
     (newIn \<noteq> None \<and> newIn \<noteq> as_checkIn current) \<or> (newOut \<noteq> None \<and> newOut \<noteq> as_checkOut current)"

text \<open>The rooms are scanned in order; \<open>scan_issues\<close> starts with what was found before them.\<close>

record RoomScan =
  scan_issues :: "AmendmentIssue list"
  scan_seen :: "int list"
  scan_rooms :: "AmendmentRoom list"
  scan_differs :: bool

definition room_at :: "nat \<Rightarrow> string" where
  "room_at i = ''rooms.'' @ string_of_nat i"

definition value_or :: "jsval \<Rightarrow> jsval \<Rightarrow> jsval" where
  "value_or v d = (if nullish v then d else v)"

definition age_list :: "jsval \<Rightarrow> jsval \<Rightarrow> int list option" where
  "age_list ages children =
     (case value_or ages (JArr []) of
        JArr vs \<Rightarrow>
          if value_or children (JNum (JInt 0)) = JNum (JInt (int (length vs))) \<and> list_all (\<lambda>v. whole v 0 maxChildAge) vs
          then Some (map int_of_val vs) else None
      | _ \<Rightarrow> None)"

definition count_issues :: "nat \<Rightarrow> (string \<times> jsval) list \<Rightarrow> AmendmentIssue list" where
  "count_issues i r =
     (if whole (field r ''adults'') 1 maxAdults then [] else [am_issue (room_at i @ ''.adults'') (''Adults: 1 to '' @ string_of_int maxAdults)])
     @ (if whole (value_or (field r ''children'') (JNum (JInt 0))) 0 maxChildren then []
        else [am_issue (room_at i @ ''.children'') (''Children: 0 to '' @ string_of_int maxChildren)])
     @ (if age_list (field r ''childAges'') (field r ''children'') \<noteq> None then []
        else [am_issue (room_at i @ ''.childAges'') (''Give one age (0 to '' @ string_of_int maxChildAge @ '') per child'')])"

definition room_of :: "int \<Rightarrow> (string \<times> jsval) list \<Rightarrow> AmendmentRoom" where
  "room_of position r =
     \<lparr>rm_position = position, rm_adults = int_of_val (field r ''adults''),
      rm_children = int_of_val (value_or (field r ''children'') (JNum (JInt 0))),
      rm_childAges = sort (case age_list (field r ''childAges'') (field r ''children'') of Some ages \<Rightarrow> ages | None \<Rightarrow> [])\<rparr>"

definition room_differs :: "AmendmentRoom \<Rightarrow> AmendmentRoom \<Rightarrow> bool" where
  "room_differs existing new_room \<longleftrightarrow> rm_adults existing \<noteq> rm_adults new_room \<or> rm_children existing \<noteq> rm_children new_room
     \<or> \<not> sameAges (rm_childAges existing) (rm_childAges new_room)"

definition room_known :: "AmendmentRoom list \<Rightarrow> jsval \<Rightarrow> (int \<times> AmendmentRoom) option" where
  "room_known rooms position =
     (case position of
        JNum (JInt p) \<Rightarrow> map_option (Pair p) (find (\<lambda>c. rm_position c = p) rooms)
      | _ \<Rightarrow> None)"

definition add_issues :: "AmendmentIssue list \<Rightarrow> RoomScan \<Rightarrow> RoomScan" where
  "add_issues new_issues s = s\<lparr>scan_issues := scan_issues s @ new_issues\<rparr>"

definition add_room :: "nat \<Rightarrow> AmendmentRoom \<Rightarrow> AmendmentRoom \<Rightarrow> RoomScan \<Rightarrow> RoomScan" where
  "add_room i existing new_room s =
     (if list_ex (\<lambda>x. startsWith (ai_field x) (room_at i @ ''.'')) (scan_issues s) then s
      else s\<lparr>scan_rooms := scan_rooms s @ [new_room], scan_differs := scan_differs s \<or> room_differs existing new_room\<rparr>)"

definition scan_room :: "AmendmentRoom list \<Rightarrow> nat \<Rightarrow> jsval \<Rightarrow> RoomScan \<Rightarrow> RoomScan" where
  "scan_room rooms i entry s =
     (case entry of
        JObj r \<Rightarrow>
          let s = add_issues (unsupported (room_at i @ ''.'') [''position'', ''adults'', ''children'', ''childAges''] r) s in
          (case room_known rooms (field r ''position'') of
             None \<Rightarrow> add_issues [am_issue (room_at i @ ''.position'') ''This booking has no room at that position''] s
           | Some (position, existing) \<Rightarrow>
               if position \<in> set (scan_seen s) then add_issues [am_issue (room_at i @ ''.position'') ''A room is listed twice''] s
               else add_room i existing (room_of position r)
                 (add_issues (count_issues i r) (s\<lparr>scan_seen := position # scan_seen s\<rparr>)))
      | _ \<Rightarrow> add_issues [am_issue (room_at i) ''Each room must be an object''] s)"

fun scan_all :: "AmendmentRoom list \<Rightarrow> nat \<Rightarrow> jsval list \<Rightarrow> RoomScan \<Rightarrow> RoomScan" where
  "scan_all rooms i [] s = s"
| "scan_all rooms i (e # es) s = scan_all rooms (Suc i) es (scan_room rooms i e s)"

definition rooms_part :: "AmendmentRoom list \<Rightarrow> jsval \<Rightarrow> AmendmentIssue list \<Rightarrow> AmendmentIssue list \<times> AmendmentRoom list option" where
  "rooms_part rooms value issues =
     (if value = JUndefined then (issues, None)
      else case value of
        JArr es \<Rightarrow>
          if es = [] \<or> length es > maxRooms then (issues @ [am_issue ''rooms'' (''rooms must list 1 to '' @ string_of_nat maxRooms @ '' rooms'')], None)
          else let s = scan_all rooms 0 es \<lparr>scan_issues = issues, scan_seen = [], scan_rooms = [], scan_differs = False\<rparr> in
               (scan_issues s,
                if scan_differs s \<and> \<not> list_ex (\<lambda>x. startsWith (ai_field x) ''rooms'') (scan_issues s)
                then Some (sort_key rm_position (scan_rooms s)) else None)
      | _ \<Rightarrow> (issues @ [am_issue ''rooms'' (''rooms must list 1 to '' @ string_of_nat maxRooms @ '' rooms'')], None))"

definition stay_after ::
  "(string \<Rightarrow> int option) \<Rightarrow> string option \<Rightarrow> string option \<Rightarrow> AmendmentStay" where
  "stay_after other checkIn checkOut =
     \<lparr>sy_checkIn = checkIn, sy_checkOut = checkOut,
      sy_nights = (case (given checkIn, given checkOut) of (Some a, Some b) \<Rightarrow> nightsBetween other a b | _ \<Rightarrow> None)\<rparr>"

definition nothing_would_change :: AmendmentIssue where
  "nothing_would_change = am_issue ''*'' ''Nothing would change: the proposal matches the booking as it is''"

definition validateAmendmentProposal ::
  "(string \<Rightarrow> int option) \<Rightarrow> jsval \<Rightarrow> 'a AmendmentSubject_scheme \<Rightarrow> string \<Rightarrow> AmendmentValidation" where
  "validateAmendmentProposal other raw current today =
     (case raw of
        JObj input \<Rightarrow>
          let newIn = validDay (field input ''checkIn''); newOut = validDay (field input ''checkOut'');
              issues = unsupported [] [''checkIn'', ''checkOut'', ''rooms''] input @ date_issue input ''checkIn'' @ date_issue input ''checkOut''
                @ stay_issues other current today newIn newOut;
              moved = stay_differs current newIn newOut;
              (issues, rooms) = rooms_part (as_rooms current) (field input ''rooms'') issues;
              changes = (if moved then [STAY_DATES] else []) @ (if rooms \<noteq> None then [OCCUPANCY] else []) in
          if issues \<noteq> [] then Inl issues
          else if changes = [] then Inl [nothing_would_change]
          else Inr \<lparr>ac_proposal = \<lparr>ap_checkIn = (if moved then newIn else None), ap_checkOut = (if moved then newOut else None), ap_rooms = rooms\<rparr>,
                    ac_stay = (if moved then stay_after other (new_or newIn (as_checkIn current)) (new_or newOut (as_checkOut current))
                               else stay_after other (as_checkIn current) (as_checkOut current)),
                    ac_changes = changes\<rparr>
      | _ \<Rightarrow> Inl [am_issue ''*'' ''The amendment must be an object''])"

subsection \<open>An approval\<close>

definition minor15 :: "string \<Rightarrow> bool" where
  "minor15 s \<longleftrightarrow> 1 \<le> length s \<and> length s \<le> minorDigits \<and> list_all is_digit s"

definition approval_sell :: "jsval \<Rightarrow> int option" where
  "approval_sell v =
     (case v of JStr s \<Rightarrow> if minor15 s \<and> nat_of_digits s > 0 then Some (int (nat_of_digits s)) else None | _ \<Rightarrow> None)"

definition approval_net :: "jsval \<Rightarrow> int option \<Rightarrow> AmendmentIssue list \<times> int option option" where
  "approval_net v sell =
     (case v of
        JNull \<Rightarrow> ([], Some None)
      | JUndefined \<Rightarrow> ([], None)
      | JStr s \<Rightarrow>
          if minor15 s then
            let net = int (nat_of_digits s) in
            (if sell \<noteq> None \<and> the sell < net then [am_issue ''netMinor'' ''The net cannot exceed the sell''] else [], Some (Some net))
          else ([am_issue ''netMinor'' ''The new net must be a whole number of minor units''], None)
      | _ \<Rightarrow> ([am_issue ''netMinor'' ''The new net must be a whole number of minor units''], None))"

definition approval_deadline :: "(string \<Rightarrow> int option) \<Rightarrow> jsval \<Rightarrow> AmendmentIssue list \<times> int option option" where
  "approval_deadline other v =
     (case v of
        JNull \<Rightarrow> ([], Some None)
      | JUndefined \<Rightarrow> ([], None)
      | JStr s \<Rightarrow>
          (case date_parse other s of
             Some t \<Rightarrow> ([], Some (Some t))
           | None \<Rightarrow> ([am_issue ''cancelDeadline'' ''The cancellation deadline must be a date-time''], None))
      | _ \<Rightarrow> ([am_issue ''cancelDeadline'' ''The cancellation deadline must be a date-time''], None))"

definition validateAmendmentApproval :: "(string \<Rightarrow> int option) \<Rightarrow> jsval \<Rightarrow> AmendmentIssue list + BookingAmendmentApproval" where
  "validateAmendmentApproval other raw =
     (case raw of
        JObj input \<Rightarrow>
          let sell = approval_sell (field input ''sellMinor'');
              (net_issues, net) = approval_net (field input ''netMinor'') sell;
              (deadline_issues, deadline) = approval_deadline other (field input ''cancelDeadline'');
              issues = unsupported [] [''sellMinor'', ''netMinor'', ''cancelDeadline''] input
                @ (if sell = None then [am_issue ''sellMinor'' ''The new sell total is required, as a positive whole number of minor units''] else [])
                @ net_issues @ deadline_issues in
          (case sell of
             Some price \<Rightarrow>
               if issues \<noteq> [] then Inl issues
               else Inr \<lparr>aa_sellMinor = price, aa_netMinor = net, aa_cancelDeadline = deadline\<rparr>
           | None \<Rightarrow> Inl issues)
      | _ \<Rightarrow> Inl [am_issue ''*'' ''The approval must be an object''])"

datatype AmendmentDirection = INCREASE | DECREASE | NONE

definition amendmentDifference :: "int \<Rightarrow> int \<Rightarrow> int \<times> AmendmentDirection" where
  "amendmentDifference oldSellMinor newSellMinor =
     (let d = newSellMinor - oldSellMinor in (d, if d > 0 then INCREASE else if d < 0 then DECREASE else NONE))"

definition amendedNetAndMarkup :: "int \<Rightarrow> int option option \<Rightarrow> int option \<times> int option" where
  "amendedNetAndMarkup sell net = (case net of Some (Some n) \<Rightarrow> (Some n, Some (sell - n)) | _ \<Rightarrow> (None, None))"

definition amendedCancelDeadline :: "int option \<Rightarrow> AmendmentChange list \<Rightarrow> int option option \<Rightarrow> int option" where
  "amendedCancelDeadline current changes recorded =
     (case recorded of Some d \<Rightarrow> d | None \<Rightarrow> if STAY_DATES \<in> set changes then None else current)"

subsection \<open>What the scan of the rooms accepts\<close>

text \<open>The room an entry stands for, with the one it replaces: the entry on its own, whatever its place.\<close>

definition entry_room :: "AmendmentRoom list \<Rightarrow> jsval \<Rightarrow> (AmendmentRoom \<times> AmendmentRoom) option" where
  "entry_room rooms e =
     (case e of
        JObj r \<Rightarrow>
          if unsupported [] [''position'', ''adults'', ''children'', ''childAges''] r \<noteq> [] \<or> count_issues 0 r \<noteq> [] then None
          else map_option (\<lambda>(p, existing). (existing, room_of p r)) (room_known rooms (field r ''position''))
      | _ \<Rightarrow> None)"

definition room_fits :: "AmendmentRoom \<Rightarrow> bool" where
  "room_fits r \<longleftrightarrow> 1 \<le> rm_adults r \<and> rm_adults r \<le> maxAdults \<and> 0 \<le> rm_children r \<and> rm_children r \<le> maxChildren
     \<and> rm_children r = int (length (rm_childAges r)) \<and> sorted (rm_childAges r) \<and> (\<forall>a \<in> set (rm_childAges r). 0 \<le> a \<and> a \<le> maxChildAge)"

lemma unsupported_Nil: "unsupported at ks r = [] \<longleftrightarrow> (\<forall>k \<in> set (map fst r). k \<in> set ks)"
  by (auto simp: unsupported_def filter_empty_conv)

lemma count_issues_place: "count_issues i r = [] \<longleftrightarrow> count_issues 0 r = []"
  by (simp add: count_issues_def)

lemma add_issues_clean: "scan_issues (add_issues new s) = [] \<longleftrightarrow> scan_issues s = [] \<and> new = []"
  by (simp add: add_issues_def)

lemma add_issues_Nil [simp]: "add_issues [] s = s"
  by (simp add: add_issues_def)

lemma add_room_issues: "scan_issues (add_room i ex r s) = scan_issues s"
  by (simp add: add_room_def)

lemma scan_room_clean:
  "scan_issues (scan_room rooms i e s) = [] \<longleftrightarrow>
     scan_issues s = [] \<and> (\<exists>ex r. entry_room rooms e = Some (ex, r) \<and> rm_position r \<notin> set (scan_seen s))"
proof (cases e)
  case (JObj r)
  show ?thesis
  proof (cases "room_known rooms (field r ''position'')")
    case None
    then show ?thesis by (simp add: scan_room_def JObj entry_room_def add_issues_clean)
  next
    case (Some a)
    then show ?thesis
      using count_issues_place [of i r] unsupported_Nil [of "room_at i @ ''.''" _ r] unsupported_Nil [of "[]" _ r]
      by (cases a) (auto simp: scan_room_def JObj entry_room_def add_issues_clean add_room_issues Let_def room_of_def add_issues_def)
  qed
qed (simp_all add: scan_room_def entry_room_def add_issues_clean)

lemma scan_room_result:
  assumes "scan_issues (scan_room rooms i e s) = []" and "entry_room rooms e = Some (ex, r)"
  shows "scan_room rooms i e s = s\<lparr>scan_seen := rm_position r # scan_seen s, scan_rooms := scan_rooms s @ [r], scan_differs := scan_differs s \<or> room_differs ex r\<rparr>"
proof -
  have clean: "scan_issues s = []" "rm_position r \<notin> set (scan_seen s)" using assms by (auto simp: scan_room_clean)
  obtain kv p where e: "e = JObj kv" "unsupported [] [''position'', ''adults'', ''children'', ''childAges''] kv = []" "count_issues 0 kv = []"
      "room_known rooms (field kv ''position'') = Some (p, ex)" "r = room_of p kv"
    using assms(2) by (auto simp: entry_room_def split: jsval.splits if_splits)
  have u: "unsupported (room_at i @ ''.'') [''position'', ''adults'', ''children'', ''childAges''] kv = []"
    using e(2) by (simp add: unsupported_Nil)
  have c: "count_issues i kv = []" using e(3) by (simp add: count_issues_place [of i])
  have p: "rm_position r = p" by (simp add: e(5) room_of_def)
  show ?thesis using clean p by (simp add: scan_room_def e(1,4) u c add_room_def e(5))
qed

lemma scan_all_issues: "scan_issues (scan_all rooms i es s) = [] \<Longrightarrow> scan_issues s = []"
  by (induction rooms i es s rule: scan_all.induct) (auto simp: scan_room_clean)

definition entry_positions :: "AmendmentRoom list \<Rightarrow> jsval list \<Rightarrow> int list" where
  "entry_positions rooms es = map (\<lambda>e. rm_position (snd (the (entry_room rooms e)))) es"

lemma scan_all_clean:
  "scan_issues (scan_all rooms i es s) = [] \<longleftrightarrow>
     scan_issues s = [] \<and> (\<forall>e \<in> set es. entry_room rooms e \<noteq> None)
       \<and> distinct (entry_positions rooms es) \<and> set (entry_positions rooms es) \<inter> set (scan_seen s) = {}"
proof (induction es arbitrary: i s)
  case (Cons e es)
  show ?case
  proof (cases "scan_issues (scan_room rooms i e s) = []")
    case True
    then obtain ex r where er: "entry_room rooms e = Some (ex, r)" "rm_position r \<notin> set (scan_seen s)" "scan_issues s = []"
      by (auto simp: scan_room_clean)
    show ?thesis using er by (auto simp: Cons.IH scan_room_result [OF True er(1)] entry_positions_def)
  next
    case False
    then have "scan_issues (scan_all rooms (Suc i) es (scan_room rooms i e s)) \<noteq> []" using scan_all_issues by blast
    with False show ?thesis by (auto simp: scan_room_clean entry_positions_def)
  qed
qed (simp add: entry_positions_def)

lemma scan_all_result:
  "scan_issues (scan_all rooms i es s) = [] \<Longrightarrow>
     scan_rooms (scan_all rooms i es s) = scan_rooms s @ map (\<lambda>e. snd (the (entry_room rooms e))) es
     \<and> (scan_differs (scan_all rooms i es s) \<longleftrightarrow> scan_differs s \<or> (\<exists>e \<in> set es. case the (entry_room rooms e) of (ex, r) \<Rightarrow> room_differs ex r))"
proof (induction es arbitrary: i s)
  case (Cons e es)
  have c: "scan_issues (scan_room rooms i e s) = []" using scan_all_issues Cons.prems by fastforce
  then obtain ex r where er: "entry_room rooms e = Some (ex, r)" by (auto simp: scan_room_clean)
  show ?case
    using Cons.IH [of "Suc i" "scan_room rooms i e s"] Cons.prems scan_room_result [OF c er] er by auto
qed simp

lemma whole_bounds: "whole v lo hi \<Longrightarrow> lo \<le> int_of_val v \<and> int_of_val v \<le> hi"
  by (auto simp: whole_def int_of_val_def split: jsval.splits jsnum.splits)

lemma entry_room_fits:
  assumes "entry_room rooms e = Some (ex, r)"
  shows "room_fits r \<and> find (\<lambda>c. rm_position c = rm_position r) rooms = Some ex"
proof -
  obtain kv p where e: "e = JObj kv" "count_issues 0 kv = []" "room_known rooms (field kv ''position'') = Some (p, ex)" "r = room_of p kv"
    using assms by (auto simp: entry_room_def split: jsval.splits if_splits)
  obtain ages where ages: "age_list (field kv ''childAges'') (field kv ''children'') = Some ages"
    using e(2) by (auto simp: count_issues_def split: if_splits)
  have "int_of_val (value_or (field kv ''children'') (JNum (JInt 0))) = int (length ages) \<and> (\<forall>a \<in> set ages. 0 \<le> a \<and> a \<le> maxChildAge)"
    using ages whole_bounds [of _ 0 maxChildAge] by (auto simp: age_list_def list_all_iff int_of_val_def [of "JNum _"] split: jsval.splits if_splits)
  moreover have "find (\<lambda>c. rm_position c = p) rooms = Some ex"
    using e(3) by (auto simp: room_known_def split: jsval.splits jsnum.splits)
  moreover have "whole (field kv ''adults'') 1 maxAdults" "whole (value_or (field kv ''children'') (JNum (JInt 0))) 0 maxChildren"
    using e(2) by (auto simp: count_issues_def split: if_splits)
  ultimately show ?thesis
    using whole_bounds [of "field kv ''adults''" 1 maxAdults] whole_bounds [of "value_or (field kv ''children'') (JNum (JInt 0))" 0 maxChildren]
    by (simp add: e(4) room_of_def room_fits_def ages)
qed

text \<open>The value a room is stored as, and what scanning it again gives.\<close>

definition room_json :: "AmendmentRoom \<Rightarrow> jsval" where
  "room_json r = JObj [(''position'', JNum (JInt (rm_position r))), (''adults'', JNum (JInt (rm_adults r))),
     (''children'', JNum (JInt (rm_children r))), (''childAges'', JArr (map (\<lambda>a. JNum (JInt a)) (rm_childAges r)))]"

lemma entry_room_fields:
  assumes "room_fits r" and "find (\<lambda>c. rm_position c = rm_position r) rooms = Some ex"
    and f: "field kv ''position'' = JNum (JInt (rm_position r))" "field kv ''adults'' = JNum (JInt (rm_adults r))"
      "field kv ''children'' = JNum (JInt (rm_children r))" "field kv ''childAges'' = JArr (map (\<lambda>a. JNum (JInt a)) (rm_childAges r))"
    and keys: "set (map fst kv) \<subseteq> {''position'', ''adults'', ''children'', ''childAges''}"
  shows "entry_room rooms (JObj kv) = Some (ex, r)"
proof -
  have ages: "age_list (field kv ''childAges'') (field kv ''children'') = Some (rm_childAges r)"
    using assms(1) by (simp add: f age_list_def value_or_def nullish_def room_fits_def list_all_iff whole_def int_of_val_def comp_def)
  have "count_issues 0 kv = []"
    using assms(1) by (simp add: count_issues_def ages) (simp add: f value_or_def nullish_def whole_def room_fits_def)
  moreover have "room_of (rm_position r) kv = r"
    using assms(1) by (simp add: room_of_def ages) (simp add: f value_or_def nullish_def int_of_val_def room_fits_def sorted_sort_id)
  moreover have "unsupported [] [''position'', ''adults'', ''children'', ''childAges''] kv = []"
    using keys by (auto simp: unsupported_Nil)
  ultimately show ?thesis
    using assms(2) f by (simp add: entry_room_def room_known_def)
qed

lemma entry_room_json:
  assumes "room_fits r" and "find (\<lambda>c. rm_position c = rm_position r) rooms = Some ex"
  shows "entry_room rooms (room_json r) = Some (ex, r)"
  unfolding room_json_def by (rule entry_room_fields) (use assms in \<open>simp_all add: field_def\<close>)

subsection \<open>An accepted proposal\<close>

definition rooms_accepted :: "AmendmentRoom list \<Rightarrow> AmendmentRoom list \<Rightarrow> bool" where
  "rooms_accepted rooms rs \<longleftrightarrow> rs \<noteq> [] \<and> length rs \<le> maxRooms \<and> sorted (map rm_position rs) \<and> distinct (map rm_position rs)
     \<and> (\<forall>r \<in> set rs. room_fits r \<and> find (\<lambda>c. rm_position c = rm_position r) rooms \<noteq> None)"

lemma rooms_part_issues: "fst (rooms_part rooms v issues) = [] \<Longrightarrow> issues = []"
  by (auto simp: rooms_part_def Let_def split: if_splits jsval.splits dest: scan_all_issues)

lemma rooms_part_Some:
  assumes "rooms_part rooms v [] = ([], Some rs)"
  shows "rooms_accepted rooms rs \<and> (\<exists>r \<in> set rs. room_differs (the (find (\<lambda>c. rm_position c = rm_position r) rooms)) r)"
proof -
  let ?s = "\<lparr>scan_issues = [], scan_seen = [], scan_rooms = [], scan_differs = False\<rparr>"
  obtain es where es: "es \<noteq> []" "length es \<le> maxRooms" "scan_issues (scan_all rooms 0 es ?s) = []" "scan_differs (scan_all rooms 0 es ?s)"
      "rs = sort_key rm_position (scan_rooms (scan_all rooms 0 es ?s))"
    using assms by (auto simp: rooms_part_def Let_def split: if_splits jsval.splits)
  let ?new = "\<lambda>e. snd (the (entry_room rooms e))"
  have ok: "\<forall>e \<in> set es. entry_room rooms e \<noteq> None" "distinct (entry_positions rooms es)" using es(3) by (auto simp: scan_all_clean)
  have rs: "rs = sort_key rm_position (map ?new es)" "\<exists>e \<in> set es. case the (entry_room rooms e) of (ex, r) \<Rightarrow> room_differs ex r"
    using scan_all_result [OF es(3)] es(4,5) by auto
  have fits: "room_fits (?new e) \<and> find (\<lambda>c. rm_position c = rm_position (?new e)) rooms = Some (fst (the (entry_room rooms e)))" if "e \<in> set es" for e
    using ok(1) that entry_room_fits by (metis option.exhaust_sel prod.collapse)
  have "mset (map rm_position rs) = mset (entry_positions rooms es)" by (simp add: rs(1) entry_positions_def image_mset.compositionality comp_def)
  then have d: "distinct (map rm_position rs)" using ok(2) by (metis mset_eq_imp_distinct_iff)
  have len: "length rs = length es" by (simp add: rs(1))
  have each: "\<forall>r \<in> set rs. room_fits r \<and> find (\<lambda>c. rm_position c = rm_position r) rooms \<noteq> None"
    using fits by (auto simp: rs(1))
  have "sorted (map rm_position rs)" by (simp add: rs(1))
  with d each len es(1,2) have "rooms_accepted rooms rs" by (auto simp: rooms_accepted_def)
  moreover from rs(2) obtain e where "e \<in> set es" "room_differs (fst (the (entry_room rooms e))) (?new e)" by (auto simp: case_prod_beta)
  then have "\<exists>r \<in> set rs. room_differs (the (find (\<lambda>c. rm_position c = rm_position r) rooms)) r"
    using fits by (intro bexI [of _ "?new e"]) (auto simp: rs(1))
  ultimately show ?thesis by blast
qed

lemma rooms_part_json:
  assumes "rooms_accepted rooms rs"
  shows "rooms_part rooms (JArr (map room_json rs)) [] =
    ([], if \<exists>r \<in> set rs. room_differs (the (find (\<lambda>c. rm_position c = rm_position r) rooms)) r then Some rs else None)"
proof -
  let ?s = "\<lparr>scan_issues = [], scan_seen = [], scan_rooms = [], scan_differs = False\<rparr>"
  have e: "entry_room rooms (room_json r) = Some (the (find (\<lambda>c. rm_position c = rm_position r) rooms), r)" if "r \<in> set rs" for r
    using assms that by (intro entry_room_json) (auto simp: rooms_accepted_def)
  have m: "map (\<lambda>e. snd (the (entry_room rooms e))) (map room_json rs) = rs" using e by (simp add: comp_def map_idI)
  have c: "scan_issues (scan_all rooms 0 (map room_json rs) ?s) = []"
    using assms e m by (auto simp: scan_all_clean entry_positions_def rooms_accepted_def comp_def cong: map_cong)
  have "sort_key rm_position rs = rs" using assms by (simp add: rooms_accepted_def sort_key_id_if_sorted)
  then show ?thesis
    using assms scan_all_result [OF c] m e c by (auto simp: rooms_part_def Let_def rooms_accepted_def)
qed

text \<open>What acceptance says of the parts of a proposal.\<close>

lemma validate_ok:
  assumes "validateAmendmentProposal other raw current today = Inr c"
  obtains newIn newOut rooms where
    "\<And>d. newIn = Some d \<Longrightarrow> isIsoDate d" "\<And>d. newOut = Some d \<Longrightarrow> isIsoDate d"
    "stay_issues other current today newIn newOut = []"
    "rooms = None \<or> (\<exists>v. rooms_part (as_rooms current) v [] = ([], rooms))"
    "stay_differs current newIn newOut \<or> rooms \<noteq> None"
    "c = \<lparr>ac_proposal = \<lparr>ap_checkIn = (if stay_differs current newIn newOut then newIn else None),
              ap_checkOut = (if stay_differs current newIn newOut then newOut else None), ap_rooms = rooms\<rparr>,
            ac_stay = (if stay_differs current newIn newOut
              then stay_after other (new_or newIn (as_checkIn current)) (new_or newOut (as_checkOut current))
              else stay_after other (as_checkIn current) (as_checkOut current)),
            ac_changes = (if stay_differs current newIn newOut then [STAY_DATES] else []) @ (if rooms \<noteq> None then [OCCUPANCY] else [])\<rparr>"
proof -
  obtain input where raw: "raw = JObj input" using assms by (cases raw) (auto simp: validateAmendmentProposal_def)
  define newIn where "newIn = validDay (field input ''checkIn'')"
  define newOut where "newOut = validDay (field input ''checkOut'')"
  define before where "before = unsupported [] [''checkIn'', ''checkOut'', ''rooms''] input @ date_issue input ''checkIn'' @ date_issue input ''checkOut''
      @ stay_issues other current today newIn newOut"
  obtain issues rooms where rp: "rooms_part (as_rooms current) (field input ''rooms'') before = (issues, rooms)" by fastforce
  note v = assms [unfolded validateAmendmentProposal_def raw jsval.case Let_def, folded newIn_def newOut_def, folded before_def,
      unfolded rp prod.case]
  have i: "issues = []" "(if stay_differs current newIn newOut then [STAY_DATES] else []) @ (if rooms \<noteq> None then [OCCUPANCY] else []) \<noteq> []"
    using v by (auto split: if_splits)
  have b: "before = []" using rooms_part_issues [of "as_rooms current" "field input ''rooms''" before] rp i(1) by simp
  show ?thesis
  proof
    show "isIsoDate d" if "newIn = Some d" for d using that by (auto simp: newIn_def validDay_def split: jsval.splits if_splits)
    show "isIsoDate d" if "newOut = Some d" for d using that by (auto simp: newOut_def validDay_def split: jsval.splits if_splits)
    show "stay_issues other current today newIn newOut = []" using b by (simp add: before_def)
    show "rooms = None \<or> (\<exists>v. rooms_part (as_rooms current) v [] = ([], rooms))" using rp b i(1) by auto
    show "stay_differs current newIn newOut \<or> rooms \<noteq> None" using i(2) by auto
  qed (use v i in \<open>auto split: if_splits\<close>)
qed

text \<open>The value a proposal is stored as.\<close>

definition proposal_json :: "BookingAmendmentProposal \<Rightarrow> jsval" where
  "proposal_json p = JObj
     ((case ap_checkIn p of Some d \<Rightarrow> [(''checkIn'', JStr d)] | None \<Rightarrow> [])
      @ (case ap_checkOut p of Some d \<Rightarrow> [(''checkOut'', JStr d)] | None \<Rightarrow> [])
      @ (case ap_rooms p of Some rs \<Rightarrow> [(''rooms'', JArr (map room_json rs))] | None \<Rightarrow> []))"

lemma validate_json:
  fixes p :: BookingAmendmentProposal
  assumes "\<And>d. ap_checkIn p = Some d \<Longrightarrow> isIsoDate d" "\<And>d. ap_checkOut p = Some d \<Longrightarrow> isIsoDate d"
    and "stay_issues other current today (ap_checkIn p) (ap_checkOut p) = []"
    and "ap_rooms p = None \<and> rooms = None \<or> (\<exists>rs. ap_rooms p = Some rs \<and> rooms_part (as_rooms current) (JArr (map room_json rs)) [] = ([], rooms))"
  shows "validateAmendmentProposal other (proposal_json p) current today =
    (let moved = stay_differs current (ap_checkIn p) (ap_checkOut p);
         changes = (if moved then [STAY_DATES] else []) @ (if rooms \<noteq> None then [OCCUPANCY] else []) in
     if changes = [] then Inl [nothing_would_change]
     else Inr \<lparr>ac_proposal = \<lparr>ap_checkIn = (if moved then ap_checkIn p else None), ap_checkOut = (if moved then ap_checkOut p else None), ap_rooms = rooms\<rparr>,
            ac_stay = (if moved then stay_after other (new_or (ap_checkIn p) (as_checkIn current)) (new_or (ap_checkOut p) (as_checkOut current))
                       else stay_after other (as_checkIn current) (as_checkOut current)),
            ac_changes = changes\<rparr>)"
proof -
  obtain input where j: "proposal_json p = JObj input"
    and f: "field input ''checkIn'' = (case ap_checkIn p of Some d \<Rightarrow> JStr d | None \<Rightarrow> JUndefined)"
      "field input ''checkOut'' = (case ap_checkOut p of Some d \<Rightarrow> JStr d | None \<Rightarrow> JUndefined)"
      "field input ''rooms'' = (case ap_rooms p of Some rs \<Rightarrow> JArr (map room_json rs) | None \<Rightarrow> JUndefined)"
    and k: "set (map fst input) \<subseteq> {''checkIn'', ''checkOut'', ''rooms''}"
    by (rule that [OF proposal_json_def]) (auto simp: field_def split: option.splits)
  have d: "validDay (field input ''checkIn'') = ap_checkIn p" "validDay (field input ''checkOut'') = ap_checkOut p"
    using assms(1,2) by (auto simp: f validDay_def split: option.splits)
  have u: "unsupported [] [''checkIn'', ''checkOut'', ''rooms''] input = []" using k by (auto simp: unsupported_Nil)
  have di: "date_issue input ''checkIn'' = []" "date_issue input ''checkOut'' = []" using assms(1,2) by (auto simp: date_issue_def f validDay_def split: option.splits)
  have r: "rooms_part (as_rooms current) (field input ''rooms'') [] = ([], rooms)"
    using assms(4) by (auto simp: f rooms_part_def)
  show ?thesis by (simp add: j validateAmendmentProposal_def d u di assms(3) r Let_def)
qed

subsection \<open>Amended bookings\<close>

definition set_room :: "AmendmentRoom list \<Rightarrow> AmendmentRoom \<Rightarrow> AmendmentRoom list" where
  "set_room rooms r =
     map (\<lambda>c. if rm_position c = rm_position r
              then c\<lparr>rm_adults := rm_adults r, rm_children := rm_children r, rm_childAges := rm_childAges r\<rparr> else c) rooms"

definition amended_rooms :: "AmendmentRoom list \<Rightarrow> BookingAmendmentProposal \<Rightarrow> AmendmentRoom list" where
  "amended_rooms rooms p = foldl set_room rooms (case ap_rooms p of Some rs \<Rightarrow> rs | None \<Rightarrow> [])"

definition amended_subject :: "'a AmendmentSubject_scheme \<Rightarrow> BookingAmendmentProposal \<Rightarrow> AmendmentSubject" where
  "amended_subject current p =
     \<lparr>as_checkIn = new_or (ap_checkIn p) (as_checkIn current), as_checkOut = new_or (ap_checkOut p) (as_checkOut current),
      as_rooms = amended_rooms (as_rooms current) p\<rparr>"

lemma find_set_room:
  "find (\<lambda>c. rm_position c = p) (set_room rooms r) =
     (if p = rm_position r then map_option (\<lambda>c. r) (find (\<lambda>c. rm_position c = p) rooms) else find (\<lambda>c. rm_position c = p) rooms)"
  by (induction rooms) (auto simp: set_room_def)

lemma find_amended:
  assumes "distinct (map rm_position rs)"
  shows "find (\<lambda>c. rm_position c = p) (foldl set_room rooms rs) =
    (case find (\<lambda>r. rm_position r = p) rs of
       Some r \<Rightarrow> map_option (\<lambda>c. r) (find (\<lambda>c. rm_position c = p) rooms)
     | None \<Rightarrow> find (\<lambda>c. rm_position c = p) rooms)"
  using assms
proof (induction rs arbitrary: rooms)
  case (Cons r rs)
  have "find (\<lambda>x. rm_position x = rm_position r) rs = None"
    unfolding find_None_iff using Cons.prems by (metis distinct.simps(2) image_eqI list.map(2) list.set_map)
  with Cons show ?case by (auto simp: find_set_room option.map_comp comp_def split: option.splits)
qed simp

lemma find_position: "distinct (map rm_position rs) \<Longrightarrow> r \<in> set rs \<Longrightarrow> find (\<lambda>x. rm_position x = rm_position r) rs = Some r"
  by (induction rs) auto

lemma amended_rooms_settled:
  assumes "rooms_accepted rooms rs"
  shows "rooms_part (foldl set_room rooms rs) (JArr (map room_json rs)) [] = ([], None)"
proof -
  have "find (\<lambda>c. rm_position c = rm_position r) (foldl set_room rooms rs) = Some r" if "r \<in> set rs" for r
    using assms that find_position [of rs r] by (auto simp: find_amended rooms_accepted_def)
  then show ?thesis
    using assms by (subst rooms_part_json) (auto simp: rooms_accepted_def room_differs_def sameAges_def)
qed

lemma accepted_rooms:
  assumes "rooms = None \<or> (\<exists>v. rooms_part old v [] = ([], rooms))" and "rooms = Some rs"
  shows "rooms_accepted old rs \<and> rooms_part old (JArr (map room_json rs)) [] = ([], rooms)"
proof -
  from assms obtain v where "rooms_part old v [] = ([], Some rs)" by auto
  from rooms_part_Some [OF this] show ?thesis using rooms_part_json [of old rs] assms(2) by auto
qed

lemma new_or_again: "new_or a (new_or a x) = new_or a x"
  by (simp add: new_or_def)

lemma stay_settled:
  assumes "stay_issues other current today a b = []"
    and new: "as_checkIn later = new_or a (as_checkIn current)" "as_checkOut later = new_or b (as_checkOut current)"
  shows "stay_issues other later today a b = []"
proof -
  have past: "(case a of Some d \<Rightarrow> if a \<noteq> new_or a x \<and> d < today then [i] else [] | None \<Rightarrow> []) = []" for x and i :: AmendmentIssue
    by (cases a) (simp_all add: new_or_def)
  show ?thesis
    using assms(1) unfolding stay_issues_def new new_or_again past
    by (cases "given (new_or a (as_checkIn current))"; cases "given (new_or b (as_checkOut current))") (simp_all split: if_splits)
qed

text \<open>
  C16. An accepted proposal is stable: judged again against the booking it was accepted for, the stored value is
  accepted with the same proposal, stay and changes; and judged against the booking as amended by it, it is
  refused because nothing would change, so applying it twice is not possible.
\<close>

theorem accepted_proposal_stable:
  assumes "validateAmendmentProposal other raw current today = Inr c"
  shows "validateAmendmentProposal other (proposal_json (ac_proposal c)) current today = Inr c
    \<and> validateAmendmentProposal other (proposal_json (ac_proposal c)) (amended_subject current (ac_proposal c)) today = Inl [nothing_would_change]"
  using assms
proof (rule validate_ok)
  fix newIn newOut rooms
  assume iso: "\<And>d. newIn = Some d \<Longrightarrow> isIsoDate d" "\<And>d. newOut = Some d \<Longrightarrow> isIsoDate d"
    and stay: "stay_issues other current today newIn newOut = []"
    and rooms: "rooms = None \<or> (\<exists>v. rooms_part (as_rooms current) v [] = ([], rooms))"
    and changes: "stay_differs current newIn newOut \<or> rooms \<noteq> None"
    and c: "c = \<lparr>ac_proposal = \<lparr>ap_checkIn = (if stay_differs current newIn newOut then newIn else None),
              ap_checkOut = (if stay_differs current newIn newOut then newOut else None), ap_rooms = rooms\<rparr>,
            ac_stay = (if stay_differs current newIn newOut
              then stay_after other (new_or newIn (as_checkIn current)) (new_or newOut (as_checkOut current))
              else stay_after other (as_checkIn current) (as_checkOut current)),
            ac_changes = (if stay_differs current newIn newOut then [STAY_DATES] else []) @ (if rooms \<noteq> None then [OCCUPANCY] else [])\<rparr>"
  let ?m = "stay_differs current newIn newOut"
  let ?p = "ac_proposal c"
  let ?new = "amended_subject current ?p"
  have p: "ap_checkIn ?p = (if ?m then newIn else None)" "ap_checkOut ?p = (if ?m then newOut else None)" "ap_rooms ?p = rooms" by (simp_all add: c)
  have none: "\<not> stay_differs current None None" by (simp add: stay_differs_def)
  have m: "stay_differs current (ap_checkIn ?p) (ap_checkOut ?p) \<longleftrightarrow> ?m" using none by (cases ?m) (simp_all add: p)
  have s: "stay_issues other current today (ap_checkIn ?p) (ap_checkOut ?p) = []"
  proof (cases ?m)
    case True
    with stay show ?thesis by (simp add: p)
  qed (simp add: p stay_issues_def)
  have new: "as_checkIn ?new = new_or (ap_checkIn ?p) (as_checkIn current)" "as_checkOut ?new = new_or (ap_checkOut ?p) (as_checkOut current)"
      "as_rooms ?new = foldl set_room (as_rooms current) (case rooms of Some rs \<Rightarrow> rs | None \<Rightarrow> [])"
    by (simp_all add: amended_subject_def amended_rooms_def p)
  have "validateAmendmentProposal other (proposal_json ?p) current today = Inr c"
    by (subst validate_json [where rooms = rooms])
      (use iso s rooms changes accepted_rooms [OF rooms] m p in \<open>auto simp: c\<close>)
  moreover have "\<not> stay_differs ?new (ap_checkIn ?p) (ap_checkOut ?p)"
    by (auto simp: stay_differs_def new new_or_def)
  moreover have "stay_issues other ?new today (ap_checkIn ?p) (ap_checkOut ?p) = []"
    by (rule stay_settled [OF s new(1,2)])
  moreover have "ap_rooms ?p = None \<or> (\<exists>rs. ap_rooms ?p = Some rs \<and> rooms_part (as_rooms ?new) (JArr (map room_json rs)) [] = ([], None))"
    using accepted_rooms [OF rooms] amended_rooms_settled by (cases rooms) (auto simp: p new)
  ultimately show ?thesis
    using iso by (subst (2) validate_json [where rooms = None]) (auto simp: p split: if_splits)
qed

text \<open>
  What an accepted proposal can be: it lists the stay or the occupancy and nothing else; a new stay has one to
  sixty nights where the dates can be read, and does not move the check-in into the past; the rooms are rooms of
  the booking, each listed once and in order, within the limits of occupancy and with one age for each child.
\<close>

theorem accepted_proposal_bounds:
  assumes "validateAmendmentProposal other raw current today = Inr c"
  shows "ac_changes c \<noteq> [] \<and> distinct (ac_changes c)
    \<and> (STAY_DATES \<in> set (ac_changes c) \<longleftrightarrow> ap_checkIn (ac_proposal c) \<noteq> None \<or> ap_checkOut (ac_proposal c) \<noteq> None)
    \<and> (OCCUPANCY \<in> set (ac_changes c) \<longleftrightarrow> ap_rooms (ac_proposal c) \<noteq> None)
    \<and> (STAY_DATES \<in> set (ac_changes c) \<longrightarrow> (\<forall>n. sy_nights (ac_stay c) = Some n \<longrightarrow> 1 \<le> n \<and> n \<le> maxNights))
    \<and> (\<forall>d. ap_checkIn (ac_proposal c) = Some d \<longrightarrow> isIsoDate d \<and> (as_checkIn current \<noteq> Some d \<longrightarrow> today \<le> d))
    \<and> (\<forall>rs. ap_rooms (ac_proposal c) = Some rs \<longrightarrow> rooms_accepted (as_rooms current) rs)"
  using assms
proof (rule validate_ok)
  fix newIn newOut rooms
  assume iso: "\<And>d. newIn = Some d \<Longrightarrow> isIsoDate d" "\<And>d. newOut = Some d \<Longrightarrow> isIsoDate d"
    and stay: "stay_issues other current today newIn newOut = []"
    and rooms: "rooms = None \<or> (\<exists>v. rooms_part (as_rooms current) v [] = ([], rooms))"
    and changes: "stay_differs current newIn newOut \<or> rooms \<noteq> None"
    and c: "c = \<lparr>ac_proposal = \<lparr>ap_checkIn = (if stay_differs current newIn newOut then newIn else None),
              ap_checkOut = (if stay_differs current newIn newOut then newOut else None), ap_rooms = rooms\<rparr>,
            ac_stay = (if stay_differs current newIn newOut
              then stay_after other (new_or newIn (as_checkIn current)) (new_or newOut (as_checkOut current))
              else stay_after other (as_checkIn current) (as_checkOut current)),
            ac_changes = (if stay_differs current newIn newOut then [STAY_DATES] else []) @ (if rooms \<noteq> None then [OCCUPANCY] else [])\<rparr>"
  have m: "stay_differs current newIn newOut \<Longrightarrow> newIn \<noteq> None \<or> newOut \<noteq> None" by (auto simp: stay_differs_def)
  have nights: "1 \<le> n \<and> n \<le> maxNights" if "stay_differs current newIn newOut"
      "sy_nights (stay_after other (new_or newIn (as_checkIn current)) (new_or newOut (as_checkOut current))) = Some n" for n
    using stay m [OF that(1)] that(2) by (auto simp: stay_issues_def stay_after_def split: option.splits if_splits)
  have past: "today \<le> d" if "newIn = Some d" "as_checkIn current \<noteq> Some d" for d
    using stay that by (auto simp: stay_issues_def split: option.splits if_splits)
  show ?thesis using iso changes m nights past accepted_rooms [OF rooms] by (auto simp: c)
qed

definition sample_rooms :: "AmendmentSubject" where
  "sample_rooms = \<lparr>as_checkIn = Some ''2026-03-10'', as_checkOut = Some ''2026-03-12'',
     as_rooms = [\<lparr>rm_position = 1, rm_adults = 2, rm_children = 0, rm_childAges = []\<rparr>]\<rparr>"

definition sample_proposal :: jsval where
  "sample_proposal = JObj [(''rooms'', JArr [JObj [(''position'', JNum (JInt 1)), (''adults'', JNum (JInt 2)), (''children'', JNum (JInt 2)),
     (''childAges'', JArr [JNum (JInt 9), JNum (JInt 4)])]])]"

definition sample_checked :: AmendmentChecked where
  "sample_checked = \<lparr>ac_proposal = \<lparr>ap_checkIn = None, ap_checkOut = None,
       ap_rooms = Some [\<lparr>rm_position = 1, rm_adults = 2, rm_children = 2, rm_childAges = [4, 9]\<rparr>]\<rparr>,
     ac_stay = \<lparr>sy_checkIn = Some ''2026-03-10'', sy_checkOut = Some ''2026-03-12'', sy_nights = Some 2\<rparr>, ac_changes = [OCCUPANCY]\<rparr>"

lemma sample_accepted: "validateAmendmentProposal read_other sample_proposal sample_rooms ''2026-03-01'' = Inr sample_checked"
  by code_simp

lemma accepted_proposal_stable_witness:
  "validateAmendmentProposal read_other (proposal_json (ac_proposal sample_checked)) (amended_subject sample_rooms (ac_proposal sample_checked)) ''2026-03-01''
     = Inl [nothing_would_change]"
  using accepted_proposal_stable [OF sample_accepted] by blast

end
