(* ===== verification/Booking_Transition.thy ===== *)
theory Booking_Transition
  imports Booking_Lifecycle Booking_Amendment
begin
text \<open>
  The one writer of a booking's status (\<open>apps/api/src/booking-ops/booking-transition.ts\<close>) and the money facts it
  records (\<open>booking-finance-events.ts\<close>). A file is the row of one booking with the rows that hang on it, each list
  in the order the rows were written. An error is its HTTP kind with the stable code; message texts are left out.
  \<open>transition_on\<close> takes what the transaction read and what the row is when the guarded update
  reaches it, which differ only when another transaction wrote in between. \<open>sha256\<close> stands for the hash of
  \<open>node:crypto\<close>. The release of a cancelled booking's rooms is a database function and not part of the file.
\<close>

subsection \<open>Rows\<close>

record BookingRow =
  bk_reference :: string
  bk_agencyId :: "string option"
  bk_status :: BookingStatus
  bk_version :: int
  bk_closedAt :: "int option"
  bk_isRefundable :: "bool option"
  bk_checkIn :: "string option"
  bk_checkOut :: "string option"
  bk_nights :: "int option"
  bk_currency :: string
  bk_totalMinor :: int
  bk_netMinor :: "int option"
  bk_markupMinor :: "int option"
  bk_paymentMode :: "string option"
  bk_cancelDeadline :: "int option"
  bk_supplierRef :: "string option"
  bk_hotelConfirmationNo :: "string option"
  bk_agentRef :: "string option"
  bk_supplierStatus :: "string option"
  bk_inventoryHold :: bool
  bk_cancellationPolicy :: jsval
  bk_rooms :: "AmendmentRoom list"

datatype BookingEventActor = BY_USER | BY_SYSTEM | BY_SUPPLIER

datatype EventAction = Lifecycle BookingAction | EditReferences | CreateManual

record EventPayload =
  pl_facts :: "(string \<times> jsval) list"
  pl_supplierCancellationRef :: "string option"
  pl_supplierRef :: "string option"
  pl_hotelConfirmationNo :: "string option"
  pl_secondConfirmation :: bool
  pl_amendment :: "string option"
  pl_closed :: bool
  pl_penaltyQuote :: "StoredPenaltyQuote option"

record BookingEventRow =
  ev_fromStatus :: "BookingStatus option"
  ev_toStatus :: BookingStatus
  ev_actorType :: BookingEventActor
  ev_actorId :: "string option"
  ev_reason :: "string option"
  ev_action :: EventAction
  ev_payload :: EventPayload
  ev_idempotencyKey :: "string option"
  ev_requestFingerprint :: "string option"

record BookingFinanceRow =
  fe_type :: BookingFinanceEventType
  fe_seq :: int
  fe_currency :: string
  fe_sellMinor :: int
  fe_netMinor :: "int option"
  fe_penaltyMinor :: "int option"
  fe_refundMinor :: "int option"
  fe_adjustmentMinor :: "int option"
  fe_paymentMode :: "string option"
  fe_actorUserId :: "string option"
  fe_payload :: "(string \<times> jsval) list"

record BookingDocumentRow =
  bd_type :: BookingDocumentType
  bd_number :: string

record BookingAmendmentRow =
  mr_id :: string
  mr_status :: BookingAmendmentStatus
  mr_fromVersion :: int
  mr_proposal :: BookingAmendmentProposal
  mr_beforeState :: AmendmentState
  mr_requestedBy :: string
  mr_decidedBy :: "string option"
  mr_decidedAt :: "int option"
  mr_approvedSellMinor :: "int option"
  mr_approvedNetMinor :: "int option"
  mr_differenceMinor :: "int option"
  mr_approvedCancelDeadline :: "int option"
  mr_documentsNotReissued :: "BookingDocumentType list"

record AuditRow =
  au_userId :: string
  au_action :: string
  au_payload :: "(string \<times> jsval) list"

record BookingFile =
  bf_booking :: BookingRow
  bf_events :: "BookingEventRow list"
  bf_finance :: "BookingFinanceRow list"
  bf_documents :: "BookingDocumentRow list"
  bf_amendments :: "BookingAmendmentRow list"
  bf_audit :: "AuditRow list"

datatype booking_error = Http http_error | UnprocessableEntity string

type_synonym 'a booking_result = "booking_error + 'a"

abbreviation bad_request :: "string \<Rightarrow> 'a booking_result" where "bad_request code \<equiv> Inl (Http (BadRequest code))"
abbreviation conflict :: "string \<Rightarrow> 'a booking_result" where "conflict code \<equiv> Inl (Http (Conflict code))"
abbreviation forbidden :: "string \<Rightarrow> 'a booking_result" where "forbidden code \<equiv> Inl (Http (Forbidden code))"
abbreviation not_found :: "string \<Rightarrow> 'a booking_result" where "not_found code \<equiv> Inl (Http (NotFound code))"
abbreviation unprocessable :: "string \<Rightarrow> 'a booking_result" where "unprocessable code \<equiv> Inl (UnprocessableEntity code)"

subsection \<open>Names\<close>

fun action_name :: "BookingAction \<Rightarrow> string" where
  "action_name recordConfirmed = ''recordConfirmed''"
| "action_name recordOnRequest = ''recordOnRequest''"
| "action_name recordFailed = ''recordFailed''"
| "action_name confirmOnRequest = ''confirmOnRequest''"
| "action_name rejectOnRequest = ''rejectOnRequest''"
| "action_name requestAmendment = ''requestAmendment''"
| "action_name approveAmendment = ''approveAmendment''"
| "action_name rejectAmendment = ''rejectAmendment''"
| "action_name requestCancellation = ''requestCancellation''"
| "action_name confirmCancellation = ''confirmCancellation''"
| "action_name markNoShow = ''markNoShow''"
| "action_name markCheckedOut = ''markCheckedOut''"
| "action_name close_failed = ''close''"
| "action_name systemCloseCheckedOut = ''systemCloseCheckedOut''"
| "action_name systemCloseNoShow = ''systemCloseNoShow''"
| "action_name systemCloseCancelled = ''systemCloseCancelled''"
| "action_name systemCloseRejected = ''systemCloseRejected''"
| "action_name systemCloseFailed = ''systemCloseFailed''"
| "action_name systemConfirm = ''systemConfirm''"
| "action_name systemOnRequest = ''systemOnRequest''"
| "action_name systemConfirmOnRequest = ''systemConfirmOnRequest''"
| "action_name systemRejectOnRequest = ''systemRejectOnRequest''"
| "action_name systemFail = ''systemFail''"
| "action_name systemRequestCancellation = ''systemRequestCancellation''"
| "action_name systemCompleteCancellation = ''systemCompleteCancellation''"

fun status_name :: "BookingStatus \<Rightarrow> string" where
  "status_name PENDING_SUPPLIER = ''PENDING_SUPPLIER''"
| "status_name ON_REQUEST = ''ON_REQUEST''"
| "status_name CONFIRMED = ''CONFIRMED''"
| "status_name AMEND_REQUESTED = ''AMEND_REQUESTED''"
| "status_name CANCEL_REQUESTED = ''CANCEL_REQUESTED''"
| "status_name CANCELLED = ''CANCELLED''"
| "status_name CHECKED_OUT = ''CHECKED_OUT''"
| "status_name NO_SHOW = ''NO_SHOW''"
| "status_name REJECTED = ''REJECTED''"
| "status_name FAILED = ''FAILED''"

subsection \<open>Money facts\<close>

definition CONFIRMING :: "BookingAction list" where
  "CONFIRMING = [recordConfirmed, confirmOnRequest, systemConfirm, systemConfirmOnRequest]"

definition HOLDING :: "BookingAction list" where
  "HOLDING = [recordOnRequest, systemOnRequest]"

definition RELEASING :: "BookingAction list" where
  "RELEASING = [rejectOnRequest, systemRejectOnRequest, recordFailed, systemFail]"

definition REQUESTING_CANCEL :: "BookingAction list" where
  "REQUESTING_CANCEL = [requestCancellation, systemRequestCancellation]"

definition COMPLETING_CANCEL :: "BookingAction list" where
  "COMPLETING_CANCEL = [confirmCancellation, systemCompleteCancellation]"

definition isRequestingCancellation :: "BookingAction \<Rightarrow> bool" where
  "isRequestingCancellation action \<longleftrightarrow> action \<in> set REQUESTING_CANCEL"

text \<open>The newest event that asked for a cancellation or marked a no-show.\<close>

definition penalty_request :: "BookingFile \<Rightarrow> BookingEventRow option" where
  "penalty_request f =
     find (\<lambda>e. ev_action e \<in> {Lifecycle requestCancellation, Lifecycle systemRequestCancellation, Lifecycle markNoShow}) (rev (bf_events f))"

definition penalty_facts :: "BookingFile \<Rightarrow> PenaltyFact list" where
  "penalty_facts f = map (\<lambda>e. \<lparr>pf_type = fe_type e, pf_penaltyMinor = fe_penaltyMinor e\<rparr>) (bf_finance f)"

definition stored_quote :: "BookingFile \<Rightarrow> StoredPenaltyQuote option" where
  "stored_quote f = (case penalty_request f of Some e \<Rightarrow> pl_penaltyQuote (ev_payload e) | None \<Rightarrow> None)"

definition currentPenalty :: "BookingFile \<Rightarrow> int \<Rightarrow> bool \<Rightarrow> EffectivePenalty" where
  "currentPenalty f totalMinor requested = effectivePenalty (string_of_int totalMinor) requested (stored_quote f) (penalty_facts f)"

definition nextSeq :: "BookingFile \<Rightarrow> BookingFinanceEventType \<Rightarrow> int" where
  "nextSeq f type =
     (case map fe_seq (filter (\<lambda>e. fe_type e = type) (bf_finance f)) of [] \<Rightarrow> 0 | s # ss \<Rightarrow> foldl max s ss) + 1"

definition count_type :: "BookingFile \<Rightarrow> BookingFinanceEventType \<Rightarrow> nat" where
  "count_type f type = length (filter (\<lambda>e. fe_type e = type) (bf_finance f))"

definition write_fact ::
  "BookingRow \<Rightarrow> string option \<Rightarrow> BookingFinanceEventType \<Rightarrow> (int \<times> int) option \<Rightarrow> (string \<times> jsval) list \<Rightarrow> BookingFile \<Rightarrow> BookingFile" where
  "write_fact b actorUserId type amounts payload f =
     f\<lparr>bf_finance := bf_finance f @
        [\<lparr>fe_type = type, fe_seq = nextSeq f type, fe_currency = bk_currency b, fe_sellMinor = bk_totalMinor b, fe_netMinor = bk_netMinor b,
          fe_penaltyMinor = map_option fst amounts, fe_refundMinor = map_option snd amounts, fe_adjustmentMinor = None,
          fe_paymentMode = bk_paymentMode b, fe_actorUserId = actorUserId, fe_payload = payload\<rparr>]\<rparr>"

fun penalty_state :: "EffectivePenalty \<Rightarrow> string" where
  "penalty_state NOT_REQUESTED = ''NOT_REQUESTED''"
| "penalty_state (NEEDS_DECISION reason) = ''NEEDS_DECISION''"
| "penalty_state (QUOTED p r) = ''QUOTED''"
| "penalty_state (DECIDED p r) = ''DECIDED''"
| "penalty_state (WAIVED p r) = ''WAIVED''"

definition cancel_state :: "EffectivePenalty \<Rightarrow> string" where
  "cancel_state penalty = (if determined penalty = None then ''NEEDS_DECISION'' else penalty_state penalty)"

definition emitTransitionFinance :: "BookingRow \<Rightarrow> BookingAction \<Rightarrow> string option \<Rightarrow> BookingFile \<Rightarrow> BookingFile" where
  "emitTransitionFinance b action actorUserId f =
     (let by_action = (''action'', JStr (action_name action)) in
      if action \<in> set CONFIRMING then write_fact b actorUserId FE_CONFIRMED None [by_action] f
      else if action \<in> set HOLDING then write_fact b actorUserId FE_ON_REQUEST_HOLD None [by_action] f
      else if action \<in> set RELEASING then
        (if count_type f FE_ON_REQUEST_HOLD > count_type f FE_HOLD_RELEASED then write_fact b actorUserId FE_HOLD_RELEASED None [by_action] f else f)
      else if action \<in> set COMPLETING_CANCEL \<or> action = markNoShow then
        (let penalty = currentPenalty f (bk_totalMinor b) True in
         write_fact b actorUserId (if action = markNoShow then FE_NO_SHOW else FE_CANCELLED) (determined penalty)
           [by_action, (''penaltyState'', JStr (cancel_state penalty))] f)
      else f)"

definition emitAmendmentFinance :: "BookingRow \<Rightarrow> int \<Rightarrow> string option \<Rightarrow> (string \<times> jsval) list \<Rightarrow> BookingFile \<Rightarrow> BookingFile" where
  "emitAmendmentFinance b differenceMinor actorUserId payload f =
     (if differenceMinor = 0 then f
      else f\<lparr>bf_finance := bf_finance f @
        [\<lparr>fe_type = FE_AMENDED, fe_seq = nextSeq f FE_AMENDED, fe_currency = bk_currency b, fe_sellMinor = bk_totalMinor b, fe_netMinor = bk_netMinor b,
          fe_penaltyMinor = None, fe_refundMinor = None, fe_adjustmentMinor = Some differenceMinor,
          fe_paymentMode = bk_paymentMode b, fe_actorUserId = actorUserId,
          fe_payload = payload @ [(''direction'', JStr (if differenceMinor > 0 then ''INCREASE'' else ''DECREASE''))]\<rparr>]\<rparr>)"

subsection \<open>One named action\<close>

definition BOOKING_REASON_MAX :: nat where "BOOKING_REASON_MAX = 500"
definition BOOKING_REF_MAX :: nat where "BOOKING_REF_MAX = 64"

record TransitionInput =
  ti_bookingId :: string
  ti_action :: BookingAction
  ti_expectedStatus :: BookingStatus
  ti_actorType :: BookingEventActor
  ti_actorId :: "string option"
  ti_level :: BookingActorKind
  ti_reason :: "string option"
  ti_supplierRef :: "string option"
  ti_hotelConfirmationNo :: "string option"
  ti_supplierCancellationRef :: "string option"
  ti_confirmNonRefundable :: bool
  ti_supplierStatus :: "string option"
  ti_emitFinance :: bool
  ti_penaltyQuote :: "StoredPenaltyQuote option"
  ti_idempotencyKey :: "string option"
  ti_eventPayload :: "(string \<times> jsval) list"
  ti_fingerprintExtra :: "string option"
  ti_now :: int

record TransitionOutcome =
  to_reference :: string
  to_status :: BookingStatus
  to_version :: int
  to_closed :: bool
  to_replayed :: bool

definition clean_text :: "string option \<Rightarrow> string option" where
  "clean_text value = (case value of None \<Rightarrow> None | Some s \<Rightarrow> let v = trim s in if v = [] then None else Some v)"

definition cleaned :: "TransitionInput \<Rightarrow> TransitionInput" where
  "cleaned i = i\<lparr>ti_reason := clean_text (ti_reason i), ti_supplierRef := clean_text (ti_supplierRef i),
     ti_hotelConfirmationNo := clean_text (ti_hotelConfirmationNo i), ti_supplierCancellationRef := clean_text (ti_supplierCancellationRef i)\<rparr>"

definition text_or_null :: "string option \<Rightarrow> jsval" where
  "text_or_null t = (case clean_text t of Some s \<Rightarrow> JStr s | None \<Rightarrow> JNull)"

definition requestFingerprint :: "(string \<Rightarrow> string) \<Rightarrow> TransitionInput \<Rightarrow> string" where
  "requestFingerprint sha256 i =
     sha256 (json_text (JArr
       ([JStr (ti_bookingId i), JStr (action_name (ti_action i)), JStr (status_name (ti_expectedStatus i)), text_or_null (ti_reason i),
         text_or_null (ti_supplierRef i), text_or_null (ti_hotelConfirmationNo i), text_or_null (ti_supplierCancellationRef i),
         JBool (ti_confirmNonRefundable i)]
        @ (case ti_fingerprintExtra i of None \<Rightarrow> [] | Some extra \<Rightarrow> [JStr extra]))))"

definition assertBounded :: "string option \<Rightarrow> nat \<Rightarrow> unit booking_result" where
  "assertBounded value limit = (case value of Some s \<Rightarrow> if length s > limit then bad_request ''FIELD_TOO_LONG'' else Inr () | None \<Rightarrow> Inr ())"

text \<open>The checks before the booking is read; \<open>i\<close> has its texts cleaned.\<close>

definition input_check :: "TransitionInput \<Rightarrow> unit booking_result" where
  "input_check i =
     ebind (assertBounded (ti_reason i) BOOKING_REASON_MAX) (\<lambda>_.
     ebind (assertBounded (ti_supplierRef i) BOOKING_REF_MAX) (\<lambda>_.
     ebind (assertBounded (ti_hotelConfirmationNo i) BOOKING_REF_MAX) (\<lambda>_.
     ebind (assertBounded (ti_supplierCancellationRef i) BOOKING_REF_MAX) (\<lambda>_.
     if ti_actorType i = BY_USER \<and> (ti_actorId i = None \<or> ti_actorId i = Some []) then bad_request ''ACTOR_REQUIRED''
     else if ti_level i \<notin> set (br_actors (BOOKING_ACTION_RULES (ti_action i))) then conflict ''ILLEGAL_TRANSITION''
     else Inr ()))))"

definition outcome_of :: "BookingRow \<Rightarrow> bool \<Rightarrow> TransitionOutcome" where
  "outcome_of b replayed = \<lparr>to_reference = bk_reference b, to_status = bk_status b, to_version = bk_version b,
     to_closed = (bk_closedAt b \<noteq> None), to_replayed = replayed\<rparr>"

definition event_of_key :: "BookingFile \<Rightarrow> string option \<Rightarrow> BookingEventRow option" where
  "event_of_key f key =
     (if key = None \<or> key = Some [] then None else find (\<lambda>e. ev_idempotencyKey e = key) (bf_events f))"

definition facts_of :: "BookingRow \<Rightarrow> BookingActionFacts" where
  "facts_of b = \<lparr>af_status = bk_status b, af_closed = (bk_closedAt b \<noteq> None), af_isRefundable = bk_isRefundable b, af_checkIn = bk_checkIn b\<rparr>"

definition block_error :: "ActionBlock \<Rightarrow> booking_error" where
  "block_error block =
     (case block of
        CLOSED \<Rightarrow> Http (Conflict ''BOOKING_CLOSED'')
      | NO_SHOW_WINDOW \<Rightarrow> UnprocessableEntity ''NO_SHOW_WINDOW''
      | NO_STAY_DATES \<Rightarrow> UnprocessableEntity ''NO_SHOW_WINDOW''
      | _ \<Rightarrow> Http (Conflict ''ILLEGAL_TRANSITION''))"

definition given_fields :: "TransitionInput \<Rightarrow> BookingActionField \<Rightarrow> jsval" where
  "given_fields i f =
     (let text = (\<lambda>t. case t of Some s \<Rightarrow> JStr s | None \<Rightarrow> JUndefined) in
      case f of
        F_reason \<Rightarrow> text (ti_reason i)
      | F_supplierRef \<Rightarrow> text (ti_supplierRef i)
      | F_hotelConfirmationNo \<Rightarrow> text (ti_hotelConfirmationNo i)
      | F_supplierCancellationRef \<Rightarrow> text (ti_supplierCancellationRef i)
      | F_confirmNonRefundable \<Rightarrow> JUndefined)"

fun quote_version :: "StoredPenaltyQuote \<Rightarrow> int option" where
  "quote_version (StoredQuotable q) = sq_bookingVersion q"
| "quote_version (StoredNeedsDecision reason detail at version) = version"

definition quote_stale :: "StoredPenaltyQuote option \<Rightarrow> int \<Rightarrow> bool" where
  "quote_stale stored version \<longleftrightarrow>
     (case stored of Some q \<Rightarrow> quote_version q \<noteq> None \<and> quote_version q \<noteq> Some version | None \<Rightarrow> False)"

definition state_check :: "(string \<Rightarrow> int option) \<Rightarrow> BookingRow \<Rightarrow> TransitionInput \<Rightarrow> unit booking_result" where
  "state_check other b i =
     (if bk_status b \<noteq> ti_expectedStatus i then conflict ''STALE_STATUS''
      else case actionBlock other (ti_action i) (facts_of b) (ti_now i) of
        Some block \<Rightarrow> Inl (block_error block)
      | None \<Rightarrow>
          if missingFields (ti_action i) (given_fields i) \<noteq> [] then unprocessable ''MISSING_FIELDS''
          else if needs_second (ti_action i) (ti_level i) (bk_isRefundable b) \<and> \<not> ti_confirmNonRefundable i then unprocessable ''CONFIRMATION_REQUIRED''
          else if quote_stale (ti_penaltyQuote i) (bk_version b) then conflict ''STALE_STATUS''
          else Inr ())"

definition writesRefs :: "BookingAction \<Rightarrow> bool" where
  "writesRefs action \<longleftrightarrow> action \<in> {recordConfirmed, confirmOnRequest, systemConfirm, systemConfirmOnRequest}"

definition row_update :: "TransitionInput \<Rightarrow> BookingRow \<Rightarrow> BookingRow" where
  "row_update i b =
     (let rule = BOOKING_ACTION_RULES (ti_action i) in
      b\<lparr>bk_status := br_to rule,
        bk_supplierRef := (if ti_supplierRef i \<noteq> None \<and> writesRefs (ti_action i) then ti_supplierRef i else bk_supplierRef b),
        bk_hotelConfirmationNo := (if ti_hotelConfirmationNo i \<noteq> None \<and> writesRefs (ti_action i) then ti_hotelConfirmationNo i else bk_hotelConfirmationNo b),
        bk_supplierStatus := (if ti_supplierStatus i \<noteq> None then map_option (take 40) (ti_supplierStatus i) else bk_supplierStatus b),
        bk_version := (if br_bumpsVersion rule then bk_version b + 1 else bk_version b),
        bk_closedAt := (if br_locks rule then Some (ti_now i) else bk_closedAt b)\<rparr>)"

definition cas_holds :: "BookingRow \<Rightarrow> BookingRow \<Rightarrow> BookingAction \<Rightarrow> bool" where
  "cas_holds seen current action \<longleftrightarrow>
     bk_status current = br_from (BOOKING_ACTION_RULES action) \<and> bk_version current = bk_version seen \<and> bk_closedAt current = None"

definition event_row :: "(string \<Rightarrow> string) \<Rightarrow> TransitionInput \<Rightarrow> bool option \<Rightarrow> BookingEventRow" where
  "event_row sha256 i isRefundable =
     (let rule = BOOKING_ACTION_RULES (ti_action i); keyed = ti_idempotencyKey i \<noteq> None \<and> ti_idempotencyKey i \<noteq> Some [] in
      \<lparr>ev_fromStatus = Some (br_from rule), ev_toStatus = br_to rule, ev_actorType = ti_actorType i, ev_actorId = ti_actorId i,
       ev_reason = ti_reason i, ev_action = Lifecycle (ti_action i),
       ev_payload =
         \<lparr>pl_facts = ti_eventPayload i, pl_supplierCancellationRef = ti_supplierCancellationRef i,
          pl_supplierRef = (if writesRefs (ti_action i) then ti_supplierRef i else None),
          pl_hotelConfirmationNo = (if writesRefs (ti_action i) then ti_hotelConfirmationNo i else None),
          pl_secondConfirmation = needs_second (ti_action i) (ti_level i) isRefundable,
          pl_amendment = (if ti_action i = approveAmendment then Some ''approved'' else if ti_action i = rejectAmendment then Some ''rejected'' else None),
          pl_closed = br_locks rule,
          pl_penaltyQuote = (if ti_emitFinance i \<and> (isRequestingCancellation (ti_action i) \<or> ti_action i = markNoShow) then ti_penaltyQuote i else None)\<rparr>,
       ev_idempotencyKey = ti_idempotencyKey i,
       ev_requestFingerprint = (if keyed then Some (requestFingerprint sha256 i) else None)\<rparr>)"

text \<open>The unique key of the table: one event of a booking for each idempotency key.\<close>

definition create_event :: "BookingEventRow \<Rightarrow> BookingFile \<Rightarrow> BookingFile booking_result" where
  "create_event e f =
     (if ev_idempotencyKey e \<noteq> None \<and> ev_idempotencyKey e \<in> ev_idempotencyKey ` set (bf_events f) then Inl (Http (ServerError ''P2002''))
      else Inr (f\<lparr>bf_events := bf_events f @ [e]\<rparr>))"

definition actor_user :: "TransitionInput \<Rightarrow> string option" where
  "actor_user i = (if ti_actorType i = BY_USER then ti_actorId i else None)"

definition commit_transition ::
  "(string \<Rightarrow> string) \<Rightarrow> BookingRow \<Rightarrow> BookingFile \<Rightarrow> TransitionInput \<Rightarrow> (BookingFile \<times> TransitionOutcome) booking_result" where
  "commit_transition sha256 seen current i =
     (if \<not> cas_holds seen (bf_booking current) (ti_action i) then conflict ''STALE_STATUS''
      else ebind (create_event (event_row sha256 i (bk_isRefundable seen)) (current\<lparr>bf_booking := row_update i (bf_booking current)\<rparr>)) (\<lambda>f.
        let rule = BOOKING_ACTION_RULES (ti_action i) in
        Inr (if ti_emitFinance i then emitTransitionFinance seen (ti_action i) (actor_user i) f else f,
             \<lparr>to_reference = bk_reference seen, to_status = br_to rule, to_version = bk_version seen + (if br_bumpsVersion rule then 1 else 0),
              to_closed = br_locks rule, to_replayed = False\<rparr>)))"

definition transition_on ::
  "(string \<Rightarrow> string) \<Rightarrow> (string \<Rightarrow> int option) \<Rightarrow> BookingFile \<Rightarrow> BookingFile \<Rightarrow> TransitionInput \<Rightarrow> (BookingFile \<times> TransitionOutcome) booking_result" where
  "transition_on sha256 other seen current input =
     (let i = cleaned input in
      case event_of_key seen (ti_idempotencyKey i) of
        Some earlier \<Rightarrow>
          if ev_requestFingerprint earlier \<noteq> Some (requestFingerprint sha256 i) then conflict ''IDEMPOTENCY_CONFLICT''
          else Inr (current, outcome_of (bf_booking seen) True)
      | None \<Rightarrow>
          ebind (state_check other (bf_booking seen) i) (\<lambda>_. commit_transition sha256 (bf_booking seen) current i))"

type_synonym booking_store = "string \<times> string \<Rightarrow> BookingFile option"

definition transitionBooking ::
  "(string \<Rightarrow> string) \<Rightarrow> (string \<Rightarrow> int option) \<Rightarrow> string \<Rightarrow> booking_store \<Rightarrow> TransitionInput \<Rightarrow> (booking_store \<times> TransitionOutcome) booking_result" where
  "transitionBooking sha256 other tenantId db input =
     ebind (input_check (cleaned input)) (\<lambda>_.
       case db (tenantId, ti_bookingId input) of
         None \<Rightarrow> not_found ''BOOKING_NOT_FOUND''
       | Some f \<Rightarrow>
           ebind (transition_on sha256 other f f input) (\<lambda>(f', outcome). Inr (db((tenantId, ti_bookingId input) \<mapsto> f'), outcome)))"

subsection \<open>What an accepted action does\<close>

lemma cleaned_simps [simp]:
  "ti_action (cleaned i) = ti_action i" "ti_idempotencyKey (cleaned i) = ti_idempotencyKey i" "ti_emitFinance (cleaned i) = ti_emitFinance i"
  "ti_expectedStatus (cleaned i) = ti_expectedStatus i" "ti_level (cleaned i) = ti_level i" "ti_now (cleaned i) = ti_now i"
  "ti_penaltyQuote (cleaned i) = ti_penaltyQuote i" "ti_confirmNonRefundable (cleaned i) = ti_confirmNonRefundable i"
  "ti_actorId (cleaned i) = ti_actorId i" "ti_actorType (cleaned i) = ti_actorType i" "ti_bookingId (cleaned i) = ti_bookingId i"
  by (simp_all add: cleaned_def)

lemma write_fact_simps [simp]:
  "bf_booking (write_fact b a t m p f) = bf_booking f" "bf_events (write_fact b a t m p f) = bf_events f"
  "bf_documents (write_fact b a t m p f) = bf_documents f" "bf_amendments (write_fact b a t m p f) = bf_amendments f"
  "bf_audit (write_fact b a t m p f) = bf_audit f"
  by (simp_all add: write_fact_def)

lemma emit_simps [simp]:
  "bf_booking (emitTransitionFinance b a u f) = bf_booking f" "bf_events (emitTransitionFinance b a u f) = bf_events f"
  "bf_documents (emitTransitionFinance b a u f) = bf_documents f" "bf_amendments (emitTransitionFinance b a u f) = bf_amendments f"
  "bf_audit (emitTransitionFinance b a u f) = bf_audit f"
  by (simp_all add: emitTransitionFinance_def Let_def)

lemma row_update_simps [simp]:
  "bk_status (row_update i b) = br_to (BOOKING_ACTION_RULES (ti_action i))"
  "bk_closedAt (row_update i b) = (if br_locks (BOOKING_ACTION_RULES (ti_action i)) then Some (ti_now i) else bk_closedAt b)"
  "bk_totalMinor (row_update i b) = bk_totalMinor b"
  "bk_version (row_update i b) = (if br_bumpsVersion (BOOKING_ACTION_RULES (ti_action i)) then bk_version b + 1 else bk_version b)"
  by (simp_all add: row_update_def Let_def)

lemma event_row_simps [simp]:
  "ev_fromStatus (event_row sha256 i r) = Some (br_from (BOOKING_ACTION_RULES (ti_action i)))"
  "ev_toStatus (event_row sha256 i r) = br_to (BOOKING_ACTION_RULES (ti_action i))"
  "ev_action (event_row sha256 i r) = Lifecycle (ti_action i)" "ev_idempotencyKey (event_row sha256 i r) = ti_idempotencyKey i"
  "ev_actorId (event_row sha256 i r) = ti_actorId i"
  by (simp_all add: event_row_def Let_def)

definition moved :: "(string \<Rightarrow> string) \<Rightarrow> BookingRow \<Rightarrow> TransitionInput \<Rightarrow> BookingFile \<Rightarrow> BookingFile" where
  "moved sha256 seen i f =
     (let g = f\<lparr>bf_booking := row_update i (bf_booking f), bf_events := bf_events f @ [event_row sha256 i (bk_isRefundable seen)]\<rparr> in
      if ti_emitFinance i then emitTransitionFinance seen (ti_action i) (actor_user i) g else g)"

lemma commit_ok:
  assumes "commit_transition sha256 seen current i = Inr (f', out)"
  shows "cas_holds seen (bf_booking current) (ti_action i) \<and> f' = moved sha256 seen i current \<and> \<not> to_replayed out
    \<and> (ti_idempotencyKey i = None \<or> ti_idempotencyKey i \<notin> ev_idempotencyKey ` set (bf_events current))"
  using assms by (auto simp: commit_transition_def create_event_def moved_def Let_def split: if_splits)

lemma state_check_ok:
  assumes "state_check other b i = Inr u"
  shows "bk_status b = br_from (BOOKING_ACTION_RULES (ti_action i)) \<and> bk_closedAt b = None \<and> bk_status b = ti_expectedStatus i
    \<and> actionBlock other (ti_action i) (facts_of b) (ti_now i) = None"
  using assms by (auto simp: state_check_def actionBlock_def facts_of_def Let_def split: if_splits option.splits)

lemma transition_cases:
  assumes "transition_on sha256 other seen current input = Inr (f', out)"
  obtains (replay) e where "event_of_key seen (ti_idempotencyKey input) = Some e" "f' = current" "to_replayed out"
      "out = outcome_of (bf_booking seen) True" "ev_requestFingerprint e = Some (requestFingerprint sha256 (cleaned input))"
    | (move) "event_of_key seen (ti_idempotencyKey input) = None" "state_check other (bf_booking seen) (cleaned input) = Inr ()"
      "commit_transition sha256 (bf_booking seen) current (cleaned input) = Inr (f', out)" "\<not> to_replayed out"
  using assms that
  by (auto simp: transition_on_def Let_def outcome_of_def ebind_Inr_iff split: option.splits if_splits dest: commit_ok)

lemma moved_simps [simp]:
  "bf_booking (moved sha256 seen i f) = row_update i (bf_booking f)"
  "bf_events (moved sha256 seen i f) = bf_events f @ [event_row sha256 i (bk_isRefundable seen)]"
  "bf_documents (moved sha256 seen i f) = bf_documents f" "bf_amendments (moved sha256 seen i f) = bf_amendments f"
  "bf_audit (moved sha256 seen i f) = bf_audit f"
  by (simp_all add: moved_def Let_def)

lemma moves_change: "br_to (BOOKING_ACTION_RULES a) = br_from (BOOKING_ACTION_RULES a) \<Longrightarrow> br_locks (BOOKING_ACTION_RULES a)"
  by (cases a) (simp_all add: plain_rule_def lock_rule_def)

text \<open>
  C6. Two people never both win: of two actions decided on the same reading of a booking, the one that commits
  second is refused, whatever the actions are; it can only be answered as the replay of an earlier request, which
  changes nothing.
\<close>

theorem one_winner:
  assumes "transition_on sha256 other f f first_input = Inr (f1, out1)" and "\<not> to_replayed out1"
    and "transition_on sha256 other f f1 second_input = Inr (f2, out2)"
  shows "to_replayed out2 \<and> f2 = f1"
  using assms(3)
proof (cases rule: transition_cases)
  case replay
  then show ?thesis by simp
next
  case move
  from assms(1,2) have one: "state_check other (bf_booking f) (cleaned first_input) = Inr ()"
      "commit_transition sha256 (bf_booking f) f (cleaned first_input) = Inr (f1, out1)"
    by (auto elim!: transition_cases)
  have f1: "bf_booking f1 = row_update (cleaned first_input) (bf_booking f)" using commit_ok [OF one(2)] by simp
  have same: "br_from (BOOKING_ACTION_RULES (ti_action first_input)) = br_from (BOOKING_ACTION_RULES (ti_action second_input))"
    using state_check_ok [OF one(1)] state_check_ok [OF move(2)] by simp
  have "cas_holds (bf_booking f) (bf_booking f1) (ti_action second_input)" using commit_ok [OF move(3)] by simp
  then have "br_to (BOOKING_ACTION_RULES (ti_action first_input)) = br_from (BOOKING_ACTION_RULES (ti_action first_input))"
      "\<not> br_locks (BOOKING_ACTION_RULES (ti_action first_input))"
    by (auto simp: cas_holds_def f1 same split: if_splits)
  with moves_change show ?thesis by blast
qed

lemma event_of_key_None: "key \<noteq> None \<Longrightarrow> key \<noteq> Some [] \<Longrightarrow> event_of_key f key = None \<longleftrightarrow> key \<notin> ev_idempotencyKey ` set (bf_events f)"
  by (auto simp: event_of_key_def find_None_iff image_iff)

lemma find_app: "find P (xs @ ys) = (case find P xs of Some x \<Rightarrow> Some x | None \<Rightarrow> find P ys)"
  by (induction xs) auto

lemma event_of_key_append:
  assumes "key \<noteq> None" "key \<noteq> Some []" "event_of_key f key = None" "bf_events g = bf_events f @ [e]" "ev_idempotencyKey e = key"
  shows "event_of_key g key = Some e"
proof -
  have "find (\<lambda>e. ev_idempotencyKey e = key) (bf_events f) = None" using assms(1-3) by (auto simp: event_of_key_def split: if_splits)
  with assms show ?thesis by (simp add: event_of_key_def find_app)
qed

text \<open>
  C15. A request with an idempotency key is carried out at most once: sent again, now or on the file it left, it
  changes nothing and is answered with the booking as it is, marked as a replay; and the key does not serve for a
  request with another fingerprint, which is refused.
\<close>

theorem replay_is_idempotent:
  assumes "transition_on sha256 other f f input = Inr (f1, out1)" and "ti_idempotencyKey input = Some key" and "key \<noteq> []"
  shows "transition_on sha256 other' f1 f1 input = Inr (f1, outcome_of (bf_booking f1) True)
    \<and> (ti_idempotencyKey input' = Some key \<longrightarrow> requestFingerprint sha256 (cleaned input') \<noteq> requestFingerprint sha256 (cleaned input) \<longrightarrow>
        transition_on sha256 other' f1 f1 input' = conflict ''IDEMPOTENCY_CONFLICT'')"
proof -
  have "\<exists>e. event_of_key f1 (Some key) = Some e \<and> ev_requestFingerprint e = Some (requestFingerprint sha256 (cleaned input))"
    using assms(1)
  proof (cases rule: transition_cases)
    case (replay e)
    then show ?thesis using assms(2) by auto
  next
    case move
    have c: "f1 = moved sha256 (bf_booking f) (cleaned input) f" using commit_ok [OF move(3)] by blast
    have "event_of_key f1 (Some key) = Some (event_row sha256 (cleaned input) (bk_isRefundable (bf_booking f)))"
      by (rule event_of_key_append [of _ f]) (use assms(2,3) move(1) c in simp_all)
    then show ?thesis using assms(2,3) by (simp add: event_row_def Let_def)
  qed
  then obtain e where e: "event_of_key f1 (Some key) = Some e" "ev_requestFingerprint e = Some (requestFingerprint sha256 (cleaned input))" by blast
  then show ?thesis using assms(2) by (simp add: transition_on_def Let_def)
qed

subsection \<open>A sample\<close>

definition sample_row :: BookingRow where
  "sample_row = \<lparr>bk_reference = ''R1'', bk_agencyId = Some ''a1'', bk_status = PENDING_SUPPLIER, bk_version = 1, bk_closedAt = None,
     bk_isRefundable = Some True, bk_checkIn = None, bk_checkOut = None, bk_nights = None, bk_currency = ''EUR'', bk_totalMinor = 1000,
     bk_netMinor = None, bk_markupMinor = None, bk_paymentMode = None, bk_cancelDeadline = None, bk_supplierRef = None, bk_hotelConfirmationNo = None,
     bk_agentRef = None, bk_supplierStatus = None, bk_inventoryHold = False, bk_cancellationPolicy = JNull, bk_rooms = []\<rparr>"

definition sample_file :: BookingFile where
  "sample_file = \<lparr>bf_booking = sample_row, bf_events = [], bf_finance = [], bf_documents = [], bf_amendments = [], bf_audit = []\<rparr>"

definition sample_input :: "BookingAction \<Rightarrow> string \<Rightarrow> TransitionInput" where
  "sample_input action key = \<lparr>ti_bookingId = ''b1'', ti_action = action, ti_expectedStatus = br_from (BOOKING_ACTION_RULES action),
     ti_actorType = BY_USER, ti_actorId = Some ''u1'', ti_level = OPERATOR, ti_reason = Some ''no answer'', ti_supplierRef = Some ''S1'',
     ti_hotelConfirmationNo = None, ti_supplierCancellationRef = Some ''C1'', ti_confirmNonRefundable = False, ti_supplierStatus = None, ti_emitFinance = True,
     ti_penaltyQuote = None, ti_idempotencyKey = Some key, ti_eventPayload = [], ti_fingerprintExtra = None, ti_now = 0\<rparr>"

definition sample_confirmed :: BookingFile where
  "sample_confirmed = moved id sample_row (cleaned (sample_input recordConfirmed ''k1'')) sample_file"

lemma sample_transition:
  "transition_on id read_other sample_file sample_file (sample_input recordConfirmed ''k1'')
    = Inr (sample_confirmed, \<lparr>to_reference = ''R1'', to_status = CONFIRMED, to_version = 1, to_closed = False, to_replayed = False\<rparr>)"
  by code_simp

lemma one_winner_witness:
  "\<nexists>f2 out2. transition_on id read_other sample_file sample_confirmed (sample_input recordFailed ''k2'') = Inr (f2, out2)"
proof
  assume "\<exists>f2 out2. transition_on id read_other sample_file sample_confirmed (sample_input recordFailed ''k2'') = Inr (f2, out2)"
  then obtain f2 out2 where c: "transition_on id read_other sample_file sample_confirmed (sample_input recordFailed ''k2'') = Inr (f2, out2)" by blast
  from one_winner [OF sample_transition _ c] have "to_replayed out2" by simp
  moreover have "event_of_key sample_file (ti_idempotencyKey (sample_input recordFailed ''k2'')) = None" by code_simp
  ultimately show False by (auto intro: transition_cases [OF c])
qed

lemma replay_is_idempotent_witness:
  "transition_on id read_other sample_confirmed sample_confirmed (sample_input recordConfirmed ''k1'')
    = Inr (sample_confirmed, outcome_of (bf_booking sample_confirmed) True)"
  using replay_is_idempotent [OF sample_transition, of "''k1''" read_other] by (simp add: sample_input_def)
end
