(* ===== verification/Booking_Writes.thy ===== *)
theory Booking_Writes
  imports Booking_Transition
begin
text \<open>
  What a person can change on a booking: the lifecycle actions and the references
  (\<open>apps/api/src/booking-ops/booking-actions.service.ts\<close>), the structured amendments that go with them
  (\<open>booking-amendment.ts\<close>), the penalty and the documents (\<open>booking-finance.service.ts\<close>). Each handler is one
  transaction on the file of the booking, checks in the order of the code. Parameters: the hash \<open>sha256\<close>, the
  reading of dates in other formats, the time zones, the zone of the hotel, whether the agency ledger holds an
  entry for the booking (\<open>None\<close> when that cannot be read), and the identifier the database gives a new row.
  The content of a document and the settlement of a refund after a write are other services and left out.
\<close>

subsection \<open>Callers and requests\<close>

record BookingAccess =
  vx_level :: BookingActorKind
  vx_agencyId :: "string option"
  vx_permissions :: "string list"

definition operatorWith :: "BookingAccess \<Rightarrow> string \<Rightarrow> bool" where
  "operatorWith access key \<longleftrightarrow> vx_level access = OPERATOR \<and> key \<in> set (vx_permissions access)"

text \<open>The pattern \<open>/^[A-Za-z0-9._:-]{8,128}$/\<close>.\<close>

definition key_char :: "char \<Rightarrow> bool" where
  "key_char c \<longleftrightarrow> is_upper c \<or> is_lower c \<or> is_digit c \<or> c \<in> set ''._:-''"

definition idempotencyKey :: "jsval \<Rightarrow> string booking_result" where
  "idempotencyKey raw =
     (case raw of
        JStr s \<Rightarrow> if 8 \<le> length s \<and> length s \<le> 128 \<and> list_all key_char s then Inr s else bad_request ''IDEMPOTENCY_KEY_REQUIRED''
      | _ \<Rightarrow> bad_request ''IDEMPOTENCY_KEY_REQUIRED'')"

definition body_fields :: "jsval \<Rightarrow> (string \<times> jsval) list option" where
  "body_fields body = (case body of JObj kvs \<Rightarrow> Some kvs | JArr vs \<Rightarrow> Some [] | _ \<Rightarrow> None)"

definition clean_value :: "jsval \<Rightarrow> string option" where
  "clean_value v = (case v of JStr s \<Rightarrow> clean_text (Some s) | _ \<Rightarrow> None)"

definition text_field_ok :: "jsval \<Rightarrow> bool" where
  "text_field_ok v \<longleftrightarrow> (case v of JUndefined \<Rightarrow> True | JStr s \<Rightarrow> True | _ \<Rightarrow> False)"

record ActRequest =
  ar_action :: BookingAction
  ar_expectedStatus :: BookingStatus
  ar_reason :: "string option"
  ar_supplierRef :: "string option"
  ar_hotelConfirmationNo :: "string option"
  ar_supplierCancellationRef :: "string option"
  ar_confirmNonRefundable :: bool
  ar_amendment :: jsval
  ar_approval :: jsval

definition BOOKING_STATUSES :: "BookingStatus list" where
  "BOOKING_STATUSES = [PENDING_SUPPLIER, ON_REQUEST, CONFIRMED, AMEND_REQUESTED, CANCEL_REQUESTED, CANCELLED, CHECKED_OUT, NO_SHOW, REJECTED, FAILED]"

definition parse_act :: "jsval \<Rightarrow> ActRequest booking_result" where
  "parse_act raw_body =
     (case body_fields raw_body of
        None \<Rightarrow> bad_request ''INVALID_REQUEST''
      | Some body \<Rightarrow>
          (case find (\<lambda>a. field body ''action'' = JStr (action_name a)) BOOKING_ACTIONS of
             None \<Rightarrow> bad_request ''UNKNOWN_ACTION''
           | Some action \<Rightarrow>
               (case find (\<lambda>s. field body ''expectedStatus'' = JStr (status_name s)) BOOKING_STATUSES of
                  None \<Rightarrow> bad_request ''INVALID_REQUEST''
                | Some status \<Rightarrow>
                    if \<not> list_all (\<lambda>k. text_field_ok (field body k)) [''reason'', ''supplierRef'', ''hotelConfirmationNo'', ''supplierCancellationRef'']
                    then bad_request ''INVALID_REQUEST''
                    else Inr \<lparr>ar_action = action, ar_expectedStatus = status, ar_reason = clean_value (field body ''reason''),
                           ar_supplierRef = clean_value (field body ''supplierRef''), ar_hotelConfirmationNo = clean_value (field body ''hotelConfirmationNo''),
                           ar_supplierCancellationRef = clean_value (field body ''supplierCancellationRef''),
                           ar_confirmNonRefundable = (field body ''confirmNonRefundable'' = JBool True),
                           ar_amendment = field body ''amendment'', ar_approval = field body ''approval''\<rparr>)))"

text \<open>The penalty of a booking as it stands, with the version it was worked out for.\<close>

fun with_version :: "int \<Rightarrow> StoredPenaltyQuote \<Rightarrow> StoredPenaltyQuote" where
  "with_version v (StoredQuotable q) = StoredQuotable (q\<lparr>sq_bookingVersion := Some v\<rparr>)"
| "with_version v (StoredNeedsDecision reason detail at version) = StoredNeedsDecision reason detail at (Some v)"

definition quote_penalty ::
  "time_zones \<Rightarrow> (string \<Rightarrow> int option) \<Rightarrow> string \<Rightarrow> BookingFile option \<Rightarrow> int \<Rightarrow> bool \<Rightarrow> StoredPenaltyQuote booking_result" where
  "quote_penalty tz other zone file now noShow =
     (case file of
        None \<Rightarrow> Inr (StoredNeedsDecision ''manual_review_required'' ''Booking not found.'' (iso_text now) None)
      | Some f \<Rightarrow>
          let b = bf_booking f;
              i = \<lparr>pq_sellMinor = bk_totalMinor b, pq_currency = bk_currency b, pq_isRefundable = bk_isRefundable b, pq_checkIn = bk_checkIn b,
                   pq_checkOut = bk_checkOut b, pq_rules = bk_cancellationPolicy b, pq_requestedAt = now, pq_timeZone = zone\<rparr> in
          (case (if noShow then buildNoShowQuote tz other i else buildPenaltyQuote tz other i) of
             Inl e \<Rightarrow> Inl (Http (ServerError ''''))
           | Inr q \<Rightarrow> Inr (with_version (bk_version b) q)))"

subsection \<open>Structured amendments\<close>

definition AMENDMENT_INVALID :: string where "AMENDMENT_INVALID = ''AMENDMENT_INVALID''"
definition AMENDMENT_NO_CHANGE :: string where "AMENDMENT_NO_CHANGE = ''AMENDMENT_NO_CHANGE''"
definition APPROVAL_REQUIRED :: string where "APPROVAL_REQUIRED = ''AMENDMENT_APPROVAL_REQUIRED''"
definition APPROVAL_INVALID :: string where "APPROVAL_INVALID = ''AMENDMENT_APPROVAL_INVALID''"
definition APPROVAL_NOT_EXPECTED :: string where "APPROVAL_NOT_EXPECTED = ''AMENDMENT_APPROVAL_NOT_EXPECTED''"
definition AMENDMENT_STALE :: string where "AMENDMENT_STALE = ''AMENDMENT_STALE''"
definition LEDGER_REQUIRED :: string where "LEDGER_REQUIRED = ''AMENDMENT_LEDGER_ADJUSTMENT_REQUIRED''"
definition LEDGER_UNVERIFIABLE :: string where "LEDGER_UNVERIFIABLE = ''AMENDMENT_LEDGER_UNVERIFIABLE''"
definition INVENTORY_BACKED :: string where "INVENTORY_BACKED = ''AMENDMENT_INVENTORY_BACKED''"

definition inventoryBacked :: "BookingRow \<Rightarrow> bool" where
  "inventoryBacked b \<longleftrightarrow> bk_inventoryHold b \<or> field (spread (bk_cancellationPolicy b)) ''source'' = JStr ''CONTRACT_AT_BOOKING''"

definition refuseInventoryBacked :: "BookingRow \<Rightarrow> AmendmentChange list \<Rightarrow> unit booking_result" where
  "refuseInventoryBacked b changes = (if inventoryBacked b \<and> changes \<noteq> [] then conflict INVENTORY_BACKED else Inr ())"

definition stateOf :: "BookingRow \<Rightarrow> AmendmentState" where
  "stateOf b = \<lparr>as_checkIn = bk_checkIn b, as_checkOut = bk_checkOut b, as_rooms = map (\<lambda>r. r\<lparr>rm_childAges := sort (rm_childAges r)\<rparr>) (bk_rooms b),
     am_nights = bk_nights b, am_sellMinor = bk_totalMinor b, am_netMinor = bk_netMinor b, am_cancelDeadline = bk_cancelDeadline b\<rparr>"

text \<open>The same value whatever the order of its keys.\<close>

function canonical :: "jsval \<Rightarrow> jsval" where
  "canonical JUndefined = JUndefined"
| "canonical JNull = JNull"
| "canonical (JBool b) = JBool b"
| "canonical (JNum n) = JNum n"
| "canonical (JStr s) = JStr s"
| "canonical (JArr vs) = JArr (map canonical vs)"
| "canonical (JObj kvs) = JObj (map (\<lambda>kv. (fst kv, canonical (snd kv))) (sort_key fst kvs))"
  by pat_completeness auto
termination
proof (relation "measure size")
  fix kvs :: "(string \<times> jsval) list" and kv
  assume "kv \<in> set (sort_key fst kvs)"
  then have "size (snd kv) \<le> size_list (\<lambda>kv. size_prod (\<lambda>_. 0) size kv) kvs"
    by (intro size_list_estimation') (auto simp: size_prod_simp)
  then show "(snd kv, JObj kvs) \<in> measure size" by (simp add: size_prod_simp)
qed (auto dest: size_list_estimation' [of _ _ _ size, OF _ order_refl])

definition canonicalJson :: "jsval \<Rightarrow> string" where
  "canonicalJson value = json_text (canonical value)"

definition amendmentFingerprint :: "BookingAction \<Rightarrow> jsval \<Rightarrow> jsval \<Rightarrow> string option" where
  "amendmentFingerprint action amendment approval =
     (if action = requestAmendment \<and> amendment \<noteq> JUndefined then Some (''amendment:'' @ canonicalJson amendment)
      else if action = approveAmendment \<and> approval \<noteq> JUndefined then Some (''approval:'' @ canonicalJson approval)
      else None)"

fun change_name :: "AmendmentChange \<Rightarrow> string" where
  "change_name STAY_DATES = ''STAY_DATES''"
| "change_name OCCUPANCY = ''OCCUPANCY''"

definition changes_value :: "AmendmentChange list \<Rightarrow> jsval" where
  "changes_value changes = JArr (map (\<lambda>c. JStr (change_name c)) changes)"

definition utc_today :: "int \<Rightarrow> string" where
  "utc_today now = iso_of_day (now div MS_PER_DAY)"

text \<open>The payload of the event of a request or a decision; none for a free-text one.\<close>

definition recordAmendmentRequest ::
  "(string \<Rightarrow> int option) \<Rightarrow> string \<Rightarrow> string \<Rightarrow> jsval \<Rightarrow> int \<Rightarrow> BookingFile \<Rightarrow> (BookingFile \<times> (string \<times> jsval) list option) booking_result" where
  "recordAmendmentRequest other fresh userId raw now f =
     (if raw = JUndefined then Inr (f, None)
      else let b = bf_booking f in
        (case validateAmendmentProposal other raw (stateOf b) (utc_today now) of
           Inl issues \<Rightarrow> unprocessable (if issues = [nothing_would_change] then AMENDMENT_NO_CHANGE else AMENDMENT_INVALID)
         | Inr checked \<Rightarrow>
             ebind (refuseInventoryBacked b (ac_changes checked)) (\<lambda>_.
               Inr (f\<lparr>bf_amendments := bf_amendments f @
                      [\<lparr>mr_id = fresh, mr_status = AMENDMENT_REQUESTED, mr_fromVersion = bk_version b, mr_proposal = ac_proposal checked,
                        mr_beforeState = stateOf b, mr_requestedBy = userId, mr_decidedBy = None, mr_decidedAt = None, mr_approvedSellMinor = None,
                        mr_approvedNetMinor = None, mr_differenceMinor = None, mr_approvedCancelDeadline = None, mr_documentsNotReissued = []\<rparr>]\<rparr>,
                    Some [(''amendmentId'', JStr fresh), (''changes'', changes_value (ac_changes checked))]))))"

record PreparedDecision =
  dc_approve :: bool
  dc_amendmentId :: string
  dc_subject :: BookingRow
  dc_proposal :: BookingAmendmentProposal
  dc_changes :: "AmendmentChange list"
  dc_approval :: "BookingAmendmentApproval option"
  dc_differenceMinor :: "int option"
  dc_eventPayload :: "(string \<times> jsval) list"

definition open_amendment :: "BookingFile \<Rightarrow> BookingAmendmentRow option" where
  "open_amendment f = find (\<lambda>m. mr_status m = AMENDMENT_REQUESTED) (bf_amendments f)"

definition prepare_approval ::
  "(string \<Rightarrow> int option) \<Rightarrow> BookingAmendmentRow \<Rightarrow> jsval \<Rightarrow> bool option \<Rightarrow> int \<Rightarrow> BookingRow \<Rightarrow> PreparedDecision booking_result" where
  "prepare_approval other m rawApproval ledgerCharged now b =
     (if rawApproval = JUndefined then unprocessable APPROVAL_REQUIRED
      else case validateAmendmentApproval other rawApproval of
        Inl issues \<Rightarrow> unprocessable APPROVAL_INVALID
      | Inr approval \<Rightarrow>
          (case validateAmendmentProposal other (proposal_json (mr_proposal m)) (stateOf b) (utc_today now) of
             Inl issues \<Rightarrow> unprocessable AMENDMENT_STALE
           | Inr again \<Rightarrow>
               ebind (refuseInventoryBacked b (ac_changes again)) (\<lambda>_.
                 let difference = fst (amendmentDifference (bk_totalMinor b) (aa_sellMinor approval)) in
                 if difference \<noteq> 0 \<and> ledgerCharged = Some True then conflict LEDGER_REQUIRED
                 else if difference \<noteq> 0 \<and> ledgerCharged = None then conflict LEDGER_UNVERIFIABLE
                 else Inr \<lparr>dc_approve = True, dc_amendmentId = mr_id m, dc_subject = b, dc_proposal = mr_proposal m, dc_changes = ac_changes again,
                        dc_approval = Some approval, dc_differenceMinor = Some difference,
                        dc_eventPayload = [(''amendmentId'', JStr (mr_id m)), (''changes'', changes_value (ac_changes again)),
                          (''differenceMinor'', JStr (string_of_int difference)), (''newSellMinor'', JStr (string_of_int (aa_sellMinor approval)))]\<rparr>)))"

definition prepareAmendmentDecision ::
  "(string \<Rightarrow> int option) \<Rightarrow> bool \<Rightarrow> jsval \<Rightarrow> bool option \<Rightarrow> int \<Rightarrow> BookingFile \<Rightarrow> PreparedDecision option booking_result" where
  "prepareAmendmentDecision other approve rawApproval ledgerCharged now f =
     (let b = bf_booking f in
      case open_amendment f of
        None \<Rightarrow>
          if rawApproval \<noteq> JUndefined \<and> bk_status b = AMEND_REQUESTED then bad_request APPROVAL_NOT_EXPECTED
          else Inr None
      | Some m \<Rightarrow>
          if bk_version b \<noteq> mr_fromVersion m then conflict AMENDMENT_STALE
          else if approve then ebind (prepare_approval other m rawApproval ledgerCharged now b) (\<lambda>d. Inr (Some d))
          else if rawApproval \<noteq> JUndefined then bad_request APPROVAL_NOT_EXPECTED
          else Inr (Some \<lparr>dc_approve = False, dc_amendmentId = mr_id m, dc_subject = b, dc_proposal = mr_proposal m, dc_changes = [],
                 dc_approval = None, dc_differenceMinor = None, dc_eventPayload = [(''amendmentId'', JStr (mr_id m))]\<rparr>))"

definition decide_amendment :: "string \<Rightarrow> (BookingAmendmentRow \<Rightarrow> BookingAmendmentRow) \<Rightarrow> BookingFile \<Rightarrow> BookingFile" where
  "decide_amendment amendmentId change f =
     f\<lparr>bf_amendments := map (\<lambda>m. if mr_id m = amendmentId \<and> mr_status m = AMENDMENT_REQUESTED then change m else m) (bf_amendments f)\<rparr>"

definition amended_nights :: "(string \<Rightarrow> int option) \<Rightarrow> BookingRow \<Rightarrow> string option \<Rightarrow> string option \<Rightarrow> int option" where
  "amended_nights other subject checkIn checkOut =
     (case (given checkIn, given checkOut) of (Some a, Some b) \<Rightarrow> nightsBetween other a b | _ \<Rightarrow> bk_nights subject)"

definition issued_types :: "BookingFile \<Rightarrow> BookingDocumentType list" where
  "issued_types f = filter (\<lambda>t. t \<in> bd_type ` set (bf_documents f)) [CANCELLATION_NOTE, CREDIT_NOTE, INVOICE, VOUCHER]"

definition amended_row :: "(string \<Rightarrow> int option) \<Rightarrow> PreparedDecision \<Rightarrow> BookingAmendmentApproval \<Rightarrow> BookingRow \<Rightarrow> BookingRow" where
  "amended_row other d approval b =
     (let subject = dc_subject d; p = dc_proposal d;
          checkIn = new_or (ap_checkIn p) (bk_checkIn subject); checkOut = new_or (ap_checkOut p) (bk_checkOut subject);
          (net, markup) = amendedNetAndMarkup (aa_sellMinor approval) (aa_netMinor approval);
          stayChanged = STAY_DATES \<in> set (dc_changes d) in
      b\<lparr>bk_totalMinor := aa_sellMinor approval, bk_netMinor := net, bk_markupMinor := markup,
        bk_cancelDeadline := amendedCancelDeadline (bk_cancelDeadline subject) (dc_changes d) (aa_cancelDeadline approval),
        bk_checkIn := (if stayChanged then checkIn else bk_checkIn b), bk_checkOut := (if stayChanged then checkOut else bk_checkOut b),
        bk_nights := (if stayChanged then amended_nights other subject checkIn checkOut else bk_nights b),
        bk_rooms := amended_rooms (bk_rooms b) p\<rparr>)"

definition applyAmendmentDecision ::
  "(string \<Rightarrow> int option) \<Rightarrow> string \<Rightarrow> PreparedDecision \<Rightarrow> int \<Rightarrow> BookingFile \<Rightarrow> (BookingFile \<times> BookingDocumentType list) booking_result" where
  "applyAmendmentDecision other userId d now f =
     (if \<not> dc_approve d then
        Inr (decide_amendment (dc_amendmentId d) (\<lambda>m. m\<lparr>mr_status := AMENDMENT_REJECTED, mr_decidedBy := Some userId, mr_decidedAt := Some now\<rparr>) f, [])
      else case (dc_approval d, dc_differenceMinor d) of
        (Some approval, Some difference) \<Rightarrow>
          if bk_status (bf_booking f) \<noteq> CONFIRMED \<or> bk_closedAt (bf_booking f) \<noteq> None then conflict ''STALE_STATUS''
          else
            let row = amended_row other d approval (bf_booking f); notReissued = issued_types f;
                g = decide_amendment (dc_amendmentId d)
                  (\<lambda>m. m\<lparr>mr_status := AMENDMENT_APPROVED, mr_approvedSellMinor := Some (aa_sellMinor approval), mr_approvedNetMinor := bk_netMinor row,
                         mr_differenceMinor := Some difference, mr_approvedCancelDeadline := bk_cancelDeadline row,
                         mr_documentsNotReissued := notReissued, mr_decidedBy := Some userId, mr_decidedAt := Some now\<rparr>) (f\<lparr>bf_booking := row\<rparr>) in
            Inr (emitAmendmentFinance ((dc_subject d)\<lparr>bk_totalMinor := aa_sellMinor approval, bk_netMinor := bk_netMinor row\<rparr>) difference (Some userId)
                   [(''amendmentId'', JStr (dc_amendmentId d))] g, notReissued)
      | _ \<Rightarrow> conflict APPROVAL_REQUIRED)"

subsection \<open>The lifecycle actions of a person\<close>

definition add_audit :: "string \<Rightarrow> string \<Rightarrow> (string \<times> jsval) list \<Rightarrow> BookingFile \<Rightarrow> BookingFile" where
  "add_audit userId action payload f = f\<lparr>bf_audit := bf_audit f @ [\<lparr>au_userId = userId, au_action = action, au_payload = payload\<rparr>]\<rparr>"

definition level_name :: "BookingActorKind \<Rightarrow> string" where
  "level_name level = (case level of OPERATOR \<Rightarrow> ''OPERATOR'' | AGENCY \<Rightarrow> ''AGENCY'' | SYSTEM \<Rightarrow> ''SYSTEM'')"

definition document_name :: "BookingDocumentType \<Rightarrow> string" where
  "document_name type = (case type of VOUCHER \<Rightarrow> ''VOUCHER'' | INVOICE \<Rightarrow> ''INVOICE'' | CREDIT_NOTE \<Rightarrow> ''CREDIT_NOTE'' | CANCELLATION_NOTE \<Rightarrow> ''CANCELLATION_NOTE'')"

record ActContext =
  cx_userId :: string
  cx_access :: BookingAccess
  cx_bookingId :: string
  cx_key :: string
  cx_requestId :: string
  cx_fresh :: string
  cx_ledgerCharged :: "bool option"
  cx_now :: int

definition act_input :: "ActContext \<Rightarrow> ActRequest \<Rightarrow> StoredPenaltyQuote option \<Rightarrow> (string \<times> jsval) list \<Rightarrow> TransitionInput" where
  "act_input c r penaltyQuote eventPayload =
     \<lparr>ti_bookingId = cx_bookingId c, ti_action = ar_action r, ti_expectedStatus = ar_expectedStatus r, ti_actorType = BY_USER,
      ti_actorId = Some (cx_userId c), ti_level = vx_level (cx_access c), ti_reason = ar_reason r, ti_supplierRef = ar_supplierRef r,
      ti_hotelConfirmationNo = ar_hotelConfirmationNo r, ti_supplierCancellationRef = ar_supplierCancellationRef r,
      ti_confirmNonRefundable = ar_confirmNonRefundable r, ti_supplierStatus = None, ti_emitFinance = True, ti_penaltyQuote = penaltyQuote,
      ti_idempotencyKey = Some (cx_key c), ti_eventPayload = eventPayload,
      ti_fingerprintExtra = amendmentFingerprint (ar_action r) (ar_amendment r) (ar_approval r), ti_now = cx_now c\<rparr>"

definition act_audit :: "ActContext \<Rightarrow> ActRequest \<Rightarrow> string \<Rightarrow> (string \<times> jsval) list option \<Rightarrow> (int option \<times> BookingDocumentType list) option \<Rightarrow> BookingFile \<Rightarrow> BookingFile" where
  "act_audit c r permission prepared applied =
     add_audit (cx_userId c) (''booking.'' @ action_name (ar_action r))
       ([(''bookingAction'', JStr (action_name (ar_action r))), (''from'', JStr (status_name (br_from (BOOKING_ACTION_RULES (ar_action r))))),
         (''to'', JStr (status_name (br_to (BOOKING_ACTION_RULES (ar_action r))))), (''permission'', JStr permission),
         (''level'', JStr (level_name (vx_level (cx_access c)))), (''requestId'', JStr (cx_requestId c)), (''reasonGiven'', JBool (ar_reason r \<noteq> None))]
        @ (case prepared of
             None \<Rightarrow> []
           | Some payload \<Rightarrow>
               [(''amendmentId'', field payload ''amendmentId''), (''changes'', value_or (field payload ''changes'') (JArr []))]
               @ (case applied of
                    Some (Some difference, notReissued) \<Rightarrow>
                      [(''differenceMinor'', JStr (string_of_int difference)), (''documentsNotReissued'', JArr (map (\<lambda>t. JStr (document_name t)) notReissued))]
                  | _ \<Rightarrow> [])))"

text \<open>The transaction of an action, once the caller is permitted.\<close>

definition act_tx ::
  "(string \<Rightarrow> string) \<Rightarrow> (string \<Rightarrow> int option) \<Rightarrow> ActContext \<Rightarrow> ActRequest \<Rightarrow> StoredPenaltyQuote option \<Rightarrow> string \<Rightarrow> BookingFile
    \<Rightarrow> (BookingFile \<times> TransitionOutcome) booking_result" where
  "act_tx sha256 other c r penaltyQuote permission f =
     (let action = ar_action r; first_time = event_of_key f (Some (cx_key c)) = None in
      ebind (if first_time \<and> action = requestAmendment
             then recordAmendmentRequest other (cx_fresh c) (cx_userId c) (ar_amendment r) (cx_now c) f else Inr (f, None)) (\<lambda>(f1, request).
      ebind (if first_time \<and> (action = approveAmendment \<or> action = rejectAmendment)
             then prepareAmendmentDecision other (action = approveAmendment) (ar_approval r) (cx_ledgerCharged c) (cx_now c) f1 else Inr None) (\<lambda>decision.
      let prepared = (if request \<noteq> None then request else map_option dc_eventPayload decision);
          input = act_input c r penaltyQuote (case prepared of Some payload \<Rightarrow> payload | None \<Rightarrow> []) in
      ebind (input_check (cleaned input)) (\<lambda>_.
      ebind (transition_on sha256 other f1 f1 input) (\<lambda>(f2, outcome).
        if to_replayed outcome then Inr (f2, outcome)
        else case decision of
          None \<Rightarrow> Inr (act_audit c r permission prepared None f2, outcome)
        | Some d \<Rightarrow>
            ebind (applyAmendmentDecision other (cx_userId c) d (cx_now c) f2) (\<lambda>(f3, notReissued).
              Inr (act_audit c r permission prepared (Some (dc_differenceMinor d, notReissued)) f3, outcome)))))))"

definition act_denied :: "ActContext \<Rightarrow> ActRequest \<Rightarrow> BookingFile \<Rightarrow> BookingFile" where
  "act_denied c r = add_audit (cx_userId c) ''permission.denied''
     [(''bookingAction'', JStr (action_name (ar_action r))), (''requestId'', JStr (cx_requestId c))]"

text \<open>The result with the store it leaves: a denial is recorded although the request fails.\<close>

definition act ::
  "(string \<Rightarrow> string) \<Rightarrow> (string \<Rightarrow> int option) \<Rightarrow> time_zones \<Rightarrow> string \<Rightarrow> string \<Rightarrow> booking_store \<Rightarrow> ActContext \<Rightarrow> jsval \<Rightarrow> jsval
    \<Rightarrow> booking_store \<times> TransitionOutcome booking_result" where
  "act sha256 other tz zone tenantId db c0 body rawKey =
     (case idempotencyKey rawKey of
        Inl e \<Rightarrow> (db, Inl e)
      | Inr key \<Rightarrow>
     (case parse_act body of
        Inl e \<Rightarrow> (db, Inl e)
      | Inr r \<Rightarrow>
          let c = c0\<lparr>cx_key := key\<rparr>; row_key = (tenantId, cx_bookingId c); action = ar_action r in
     (case (if action = requestCancellation \<or> action = markNoShow
            then map_sum id Some (quote_penalty tz other zone (db row_key) (cx_now c) (action = markNoShow)) else Inr None) of
        Inl e \<Rightarrow> (db, Inl e)
      | Inr penaltyQuote \<Rightarrow>
          if ar_amendment r \<noteq> JUndefined \<and> action \<noteq> requestAmendment then (db, bad_request AMENDMENT_INVALID)
          else if ar_approval r \<noteq> JUndefined \<and> action \<noteq> approveAmendment then (db, bad_request APPROVAL_NOT_EXPECTED)
          else case db row_key of
            None \<Rightarrow> (db, not_found ''BOOKING_NOT_FOUND'')
          | Some f \<Rightarrow>
              if vx_level (cx_access c) = AGENCY \<and> bk_agencyId (bf_booking f) \<noteq> vx_agencyId (cx_access c) then (db, not_found ''BOOKING_NOT_FOUND'')
              else case permissionFor action (vx_level (cx_access c)) (set (vx_permissions (cx_access c))) (bk_isRefundable (bf_booking f)) of
                None \<Rightarrow> (db(row_key \<mapsto> act_denied c r f), forbidden ''PERMISSION_DENIED'')
              | Some permission \<Rightarrow>
                  (case act_tx sha256 other c r penaltyQuote permission f of
                     Inl e \<Rightarrow> (db, Inl e)
                   | Inr (f', outcome) \<Rightarrow> (db(row_key \<mapsto> f'), Inr outcome)))))"

subsection \<open>References\<close>

datatype ref_field = R_supplierRef | R_hotelConfirmationNo | R_agentRef

fun ref_name :: "ref_field \<Rightarrow> string" where
  "ref_name R_supplierRef = ''supplierRef''"
| "ref_name R_hotelConfirmationNo = ''hotelConfirmationNo''"
| "ref_name R_agentRef = ''agentRef''"

fun ref_of :: "ref_field \<Rightarrow> BookingRow \<Rightarrow> string option" where
  "ref_of R_supplierRef b = bk_supplierRef b"
| "ref_of R_hotelConfirmationNo b = bk_hotelConfirmationNo b"
| "ref_of R_agentRef b = bk_agentRef b"

fun set_ref :: "BookingRow \<Rightarrow> ref_field \<times> string option \<Rightarrow> BookingRow" where
  "set_ref b (R_supplierRef, v) = b\<lparr>bk_supplierRef := v\<rparr>"
| "set_ref b (R_hotelConfirmationNo, v) = b\<lparr>bk_hotelConfirmationNo := v\<rparr>"
| "set_ref b (R_agentRef, v) = b\<lparr>bk_agentRef := v\<rparr>"

definition parse_ref :: "jsval \<Rightarrow> string option booking_result" where
  "parse_ref v =
     (case v of
        JNull \<Rightarrow> Inr None
      | JStr s \<Rightarrow> (case clean_text (Some s) of
          Some t \<Rightarrow> if length t > BOOKING_REF_MAX then bad_request ''FIELD_TOO_LONG'' else Inr (Some t)
        | None \<Rightarrow> Inr None)
      | _ \<Rightarrow> bad_request ''INVALID_REQUEST'')"

fun parse_refs :: "(string \<times> jsval) list \<Rightarrow> ref_field list \<Rightarrow> (ref_field \<times> string option) list booking_result" where
  "parse_refs body [] = Inr []"
| "parse_refs body (r # rs) =
     (if field body (ref_name r) = JUndefined then parse_refs body rs
      else ebind (parse_ref (field body (ref_name r))) (\<lambda>v. ebind (parse_refs body rs) (\<lambda>vs. Inr ((r, v) # vs))))"

definition null_or :: "string option \<Rightarrow> jsval" where
  "null_or t = (case t of Some s \<Rightarrow> JStr s | None \<Rightarrow> JNull)"

definition edit_fingerprint :: "(string \<Rightarrow> string) \<Rightarrow> string \<Rightarrow> (ref_field \<times> string option) list \<Rightarrow> string \<Rightarrow> string" where
  "edit_fingerprint sha256 bookingId refs reason =
     sha256 (json_text (JArr [JStr bookingId, JStr ''editReferences'', JObj (map (\<lambda>(r, v). (ref_name r, null_or v)) refs), JStr reason]))"

definition edit_event :: "ActContext \<Rightarrow> string \<Rightarrow> string \<Rightarrow> BookingRow \<Rightarrow> (ref_field \<times> string option) list \<Rightarrow> BookingEventRow" where
  "edit_event c fingerprint reason b changed =
     \<lparr>ev_fromStatus = Some (bk_status b), ev_toStatus = bk_status b, ev_actorType = BY_USER, ev_actorId = Some (cx_userId c), ev_reason = Some reason,
      ev_action = EditReferences,
      ev_payload = \<lparr>pl_facts = [(''changed'', JObj (map (\<lambda>(r, v). (ref_name r, JObj [(''from'', null_or (ref_of r b)), (''to'', null_or v)])) changed))],
        pl_supplierCancellationRef = None, pl_supplierRef = None, pl_hotelConfirmationNo = None, pl_secondConfirmation = False, pl_amendment = None,
        pl_closed = False, pl_penaltyQuote = None\<rparr>,
      ev_idempotencyKey = Some (cx_key c), ev_requestFingerprint = Some fingerprint\<rparr>"

definition edit_tx :: "(string \<Rightarrow> string) \<Rightarrow> ActContext \<Rightarrow> string \<Rightarrow> (ref_field \<times> string option) list \<Rightarrow> BookingFile \<Rightarrow> (BookingFile \<times> TransitionOutcome) booking_result" where
  "edit_tx sha256 c reason refs f =
     (let b = bf_booking f; fingerprint = edit_fingerprint sha256 (cx_bookingId c) refs reason in
      case event_of_key f (Some (cx_key c)) of
        Some earlier \<Rightarrow>
          if ev_requestFingerprint earlier \<noteq> Some fingerprint then conflict ''IDEMPOTENCY_CONFLICT''
          else Inr (f, outcome_of b True)
      | None \<Rightarrow>
          let changed = filter (\<lambda>(r, v). v \<noteq> ref_of r b) refs in
          if bk_closedAt b \<noteq> None then conflict ''BOOKING_CLOSED''
          else if changed = [] then bad_request ''NO_CHANGE''
          else ebind (create_event (edit_event c fingerprint reason b changed) (f\<lparr>bf_booking := foldl set_ref b changed\<rparr>)) (\<lambda>g.
            Inr (add_audit (cx_userId c) ''booking.references.edited''
                   [(''fields'', JArr (map (\<lambda>(r, v). JStr (ref_name r)) changed)), (''requestId'', JStr (cx_requestId c))] g,
                 (outcome_of b False)\<lparr>to_closed := False\<rparr>)))"

definition editReferences ::
  "(string \<Rightarrow> string) \<Rightarrow> string \<Rightarrow> booking_store \<Rightarrow> ActContext \<Rightarrow> jsval \<Rightarrow> jsval \<Rightarrow> (booking_store \<times> TransitionOutcome) booking_result" where
  "editReferences sha256 tenantId db c0 raw_body rawKey =
     ebind (idempotencyKey rawKey) (\<lambda>key.
       let c = c0\<lparr>cx_key := key\<rparr> in
       if \<not> operatorWith (cx_access c) ''booking.supplier-ref.edit'' then forbidden ''PERMISSION_DENIED''
       else case body_fields raw_body of
         None \<Rightarrow> bad_request ''INVALID_REQUEST''
       | Some body \<Rightarrow>
           (case clean_value (field body ''reason'') of
              None \<Rightarrow> bad_request ''MISSING_FIELDS''
            | Some reason \<Rightarrow>
                if length reason > BOOKING_REASON_MAX then bad_request ''FIELD_TOO_LONG''
                else ebind (parse_refs body [R_supplierRef, R_hotelConfirmationNo, R_agentRef]) (\<lambda>refs.
                  if refs = [] then bad_request ''INVALID_REQUEST''
                  else case db (tenantId, cx_bookingId c) of
                    None \<Rightarrow> not_found ''BOOKING_NOT_FOUND''
                  | Some f \<Rightarrow> ebind (edit_tx sha256 c reason refs f) (\<lambda>(f', outcome). Inr (db((tenantId, cx_bookingId c) \<mapsto> f'), outcome)))))"

subsection \<open>The penalty\<close>

record PenaltyResult =
  pr_waive :: bool
  pr_penaltyMinor :: int
  pr_refundMinor :: int
  pr_replayed :: bool

definition penalty_replay :: "string \<Rightarrow> BookingFile \<Rightarrow> BookingFinanceRow option" where
  "penalty_replay key f =
     find (\<lambda>e. (fe_type e = FE_PENALTY_DECIDED \<or> fe_type e = FE_PENALTY_WAIVED) \<and> field (fe_payload e) ''idempotencyKey'' = JStr key) (bf_finance f)"

definition penalty_open :: "BookingStatus \<Rightarrow> bool" where
  "penalty_open status \<longleftrightarrow> status = CANCEL_REQUESTED \<or> status = CANCELLED \<or> status = NO_SHOW"

definition refusal_code :: "PenaltyRefusal \<Rightarrow> string" where
  "refusal_code code =
     (case code of PENALTY_UNCHANGED \<Rightarrow> ''PENALTY_UNCHANGED'' | PENALTY_CANNOT_INCREASE \<Rightarrow> ''PENALTY_CANNOT_INCREASE''
      | PENALTY_INVALID \<Rightarrow> ''PENALTY_INVALID'' | PENALTY_NOT_OPEN \<Rightarrow> ''PENALTY_NOT_OPEN'')"

definition penalty_permission :: "ActContext \<Rightarrow> PenaltyChange \<Rightarrow> BookingFile \<Rightarrow> unit booking_result" where
  "penalty_permission c change f =
     (if change = DECIDE then
        (if ''booking.cancel.nonrefundable'' \<notin> set (vx_permissions (cx_access c)) then forbidden ''BOOKING_FINANCE_FORBIDDEN'' else Inr ())
      else if ''booking.penalty.waive.approve'' \<notin> set (vx_permissions (cx_access c)) then forbidden ''BOOKING_FINANCE_FORBIDDEN''
      else if (case penalty_request f of Some e \<Rightarrow> ev_actorId e = Some (cx_userId c) | None \<Rightarrow> False) then forbidden ''PENALTY_SELF_APPROVAL''
      else Inr ())"

definition penalty_fact ::
  "(string \<Rightarrow> string) \<Rightarrow> ActContext \<Rightarrow> PenaltyChange \<Rightarrow> string \<Rightarrow> int \<Rightarrow> string \<Rightarrow> EffectivePenalty \<Rightarrow> BookingFile \<Rightarrow> BookingFile" where
  "penalty_fact sha256 c change fingerprint requested reason previous f =
     (let b = bf_booking f in
      write_fact b (Some (cx_userId c)) (change_type change) (Some (requested, bk_totalMinor b - requested))
        [(''idempotencyKey'', JStr (cx_key c)), (''fingerprint'', JStr fingerprint), (''note'', JStr reason),
         (''previousPenaltyMinor'', case determined previous of Some (p, _) \<Rightarrow> JStr (string_of_int p) | None \<Rightarrow> JNull)] f)"

definition penalty_tx ::
  "(string \<Rightarrow> string) \<Rightarrow> ActContext \<Rightarrow> int \<Rightarrow> string \<Rightarrow> BookingFile \<Rightarrow> (BookingFile \<times> PenaltyResult) booking_result" where
  "penalty_tx sha256 c requested reason f =
     (let b = bf_booking f; fingerprint = sha256 (json_text (JArr [JStr (cx_bookingId c), JStr (string_of_int requested), JStr reason])) in
      case penalty_replay (cx_key c) f of
        Some e \<Rightarrow>
          if field (fe_payload e) ''fingerprint'' \<noteq> JStr fingerprint then conflict ''IDEMPOTENCY_CONFLICT''
          else Inr (f, \<lparr>pr_waive = (fe_type e = FE_PENALTY_WAIVED), pr_penaltyMinor = the (fe_penaltyMinor e), pr_refundMinor = the (fe_refundMinor e), pr_replayed = True\<rparr>)
      | None \<Rightarrow>
          if bk_closedAt b \<noteq> None then conflict ''BOOKING_CLOSED''
          else if \<not> penalty_open (bk_status b) then conflict ''PENALTY_NOT_OPEN''
          else if \<exists>d \<in> set (bf_documents f). bd_type d = CREDIT_NOTE \<or> bd_type d = CANCELLATION_NOTE then conflict ''DOCUMENTS_ISSUED''
          else let current = currentPenalty f (bk_totalMinor b) True; change = classifyPenaltyChange current (bk_totalMinor b) requested in
            (case change of
               REFUSE code \<Rightarrow> conflict (refusal_code code)
             | _ \<Rightarrow>
                 ebind (penalty_permission c change f) (\<lambda>_.
                   Inr (add_audit (cx_userId c) (if change = WAIVE then ''booking.penalty.waived'' else ''booking.penalty.decided'')
                          [(''penaltyMinor'', JStr (string_of_int requested)), (''refundMinor'', JStr (string_of_int (bk_totalMinor b - requested))),
                           (''currency'', JStr (bk_currency b)), (''requestId'', JStr (cx_requestId c)), (''reasonGiven'', JBool True)]
                          (penalty_fact sha256 c change fingerprint requested reason current f),
                        \<lparr>pr_waive = (change = WAIVE), pr_penaltyMinor = requested, pr_refundMinor = bk_totalMinor b - requested, pr_replayed = False\<rparr>))))"

definition changePenalty ::
  "(string \<Rightarrow> string) \<Rightarrow> string \<Rightarrow> booking_store \<Rightarrow> ActContext \<Rightarrow> jsval \<Rightarrow> jsval \<Rightarrow> (booking_store \<times> PenaltyResult) booking_result" where
  "changePenalty sha256 tenantId db c0 raw_body rawKey =
     ebind (idempotencyKey rawKey) (\<lambda>key.
       let c = c0\<lparr>cx_key := key\<rparr> in
       if vx_level (cx_access c) \<noteq> OPERATOR then forbidden ''BOOKING_FINANCE_FORBIDDEN''
       else case body_fields raw_body of
         None \<Rightarrow> bad_request ''INVALID_REQUEST''
       | Some body \<Rightarrow>
           (case parseMinor (field body ''penaltyMinor'') of
              None \<Rightarrow> bad_request ''PENALTY_INVALID''
            | Some requested \<Rightarrow>
                (case clean_value (field body ''reason'') of
                   None \<Rightarrow> bad_request ''MISSING_FIELDS''
                 | Some reason \<Rightarrow>
                     if length reason > PENALTY_REASON_MAX then bad_request ''FIELD_TOO_LONG''
                     else case db (tenantId, cx_bookingId c) of
                       None \<Rightarrow> not_found ''BOOKING_NOT_FOUND''
                     | Some f \<Rightarrow> ebind (penalty_tx sha256 c requested reason f) (\<lambda>(f', result). Inr (db((tenantId, cx_bookingId c) \<mapsto> f'), result)))))"

subsection \<open>Documents\<close>

definition document_facts :: "BookingFile \<Rightarrow> DocumentEligibilityFacts" where
  "document_facts f =
     (let b = bf_booking f in
      \<lparr>df_status = bk_status b,
       df_hasConfirmedEvent = bookingConfirmedForDocuments (bk_status b) (\<exists>e \<in> set (bf_finance f). fe_type e = FE_CONFIRMED),
       df_hotelConfirmationNo = bk_hotelConfirmationNo b,
       df_penalty = currentPenalty f (bk_totalMinor b) (penalty_open (bk_status b)),
       df_issued = map bd_type (bf_documents f)\<rparr>)"

definition block_code :: "DocumentBlock \<Rightarrow> string" where
  "block_code block =
     (case block of ALREADY_ISSUED \<Rightarrow> ''ALREADY_ISSUED'' | NOT_CONFIRMED \<Rightarrow> ''NOT_CONFIRMED''
      | HOTEL_CONFIRMATION_REQUIRED \<Rightarrow> ''HOTEL_CONFIRMATION_REQUIRED'' | BOOKING_CANCELLED \<Rightarrow> ''BOOKING_CANCELLED''
      | NOT_CANCELLED \<Rightarrow> ''NOT_CANCELLED'' | PENALTY_DECISION_REQUIRED \<Rightarrow> ''PENALTY_DECISION_REQUIRED''
      | NOTHING_TO_CREDIT \<Rightarrow> ''NOTHING_TO_CREDIT'' | INVOICE_REQUIRED \<Rightarrow> ''INVOICE_REQUIRED'')"

text \<open>
  The write after the checks on \<open>seen\<close>: when another transaction issued the document in between, the unique key
  of the table refuses the row, and the document that won is answered.
\<close>

definition issue_on :: "ActContext \<Rightarrow> BookingDocumentType \<Rightarrow> BookingFile \<Rightarrow> BookingFile \<Rightarrow> (BookingFile \<times> BookingDocumentRow \<times> bool) booking_result" where
  "issue_on c type seen current =
     (case find (\<lambda>d. bd_type d = type) (bf_documents seen) of
        Some existing \<Rightarrow> Inr (current, existing, True)
      | None \<Rightarrow>
          (case documentBlock type (document_facts seen) of
             Some block \<Rightarrow> conflict (block_code block)
           | None \<Rightarrow>
               (case find (\<lambda>d. bd_type d = type) (bf_documents current) of
                  Some won \<Rightarrow> Inr (current, won, True)
                | None \<Rightarrow>
                    let d = \<lparr>bd_type = type, bd_number = BOOKING_DOCUMENT_PREFIX type @ ''-'' @ bk_reference (bf_booking seen)\<rparr> in
                    Inr (add_audit (cx_userId c) ''booking.document.issued''
                           [(''type'', JStr (document_name type)), (''number'', JStr (bd_number d)), (''requestId'', JStr (cx_requestId c))]
                           (current\<lparr>bf_documents := bf_documents current @ [d]\<rparr>), d, False))))"

definition issueDocument ::
  "string \<Rightarrow> booking_store \<Rightarrow> ActContext \<Rightarrow> BookingDocumentType \<Rightarrow> (booking_store \<times> BookingDocumentRow \<times> bool) booking_result" where
  "issueDocument tenantId db c type =
     (if \<not> operatorWith (cx_access c) ''booking.documents.issue'' then forbidden ''BOOKING_FINANCE_FORBIDDEN''
      else case db (tenantId, cx_bookingId c) of
        None \<Rightarrow> not_found ''BOOKING_NOT_FOUND''
      | Some f \<Rightarrow> ebind (issue_on c type f f) (\<lambda>(f', result). Inr (db((tenantId, cx_bookingId c) \<mapsto> f'), result)))"
end
