(* ===== verification/Booking_History.thy ===== *)
theory Booking_History
  imports Booking_Writes
begin
text \<open>
  What holds of a booking over its life: the steps are the handlers of \<open>Booking_Writes\<close> and the actions of the
  platform (\<open>transitionBooking\<close> called by the jobs and the agent flow), in any order, each one transaction. The
  lemmas give the shape every step has, and the properties follow by induction over the steps.
\<close>

subsection \<open>Steps\<close>

inductive booking_step :: "(string \<Rightarrow> string) \<Rightarrow> (string \<Rightarrow> int option) \<Rightarrow> BookingFile \<Rightarrow> BookingFile \<Rightarrow> bool"
  for sha256 :: "string \<Rightarrow> string" and other :: "string \<Rightarrow> int option"
where
  act_step: "act_tx sha256 other c r penaltyQuote permission f = Inr (f', outcome) \<Longrightarrow> booking_step sha256 other f f'"
| denied_step: "booking_step sha256 other f (act_denied c r f)"
| platform_step: "input_check (cleaned i) = Inr () \<Longrightarrow> transition_on sha256 other f f i = Inr (f', outcome) \<Longrightarrow> booking_step sha256 other f f'"
| edit_step: "edit_tx sha256 c reason refs f = Inr (f', outcome) \<Longrightarrow> booking_step sha256 other f f'"
| penalty_step: "penalty_tx sha256 c requested reason f = Inr (f', result) \<Longrightarrow> booking_step sha256 other f f'"
| document_step: "issue_on c type f f = Inr (f', d, replayed) \<Longrightarrow> booking_step sha256 other f f'"

text \<open>A booking as it is created: open, with the event that created it and nothing else.\<close>

definition created_file :: "BookingFile \<Rightarrow> bool" where
  "created_file f \<longleftrightarrow> bk_closedAt (bf_booking f) = None \<and> 0 \<le> bk_totalMinor (bf_booking f) \<and> bk_totalMinor (bf_booking f) \<le> MAX_MINOR
     \<and> (\<exists>e. bf_events f = [e] \<and> ev_toStatus e = bk_status (bf_booking f) \<and> ev_action e = CreateManual)
     \<and> bf_finance f = [] \<and> bf_documents f = []"

inductive booking_reachable :: "(string \<Rightarrow> string) \<Rightarrow> (string \<Rightarrow> int option) \<Rightarrow> BookingFile \<Rightarrow> bool"
  for sha256 :: "string \<Rightarrow> string" and other :: "string \<Rightarrow> int option"
where
  reach_created: "created_file f \<Longrightarrow> booking_reachable sha256 other f"
| reach_step: "booking_reachable sha256 other f \<Longrightarrow> booking_step sha256 other f f' \<Longrightarrow> booking_reachable sha256 other f'"

subsection \<open>The shape of a step\<close>

definition same_rows :: "BookingFile \<Rightarrow> BookingFile \<Rightarrow> bool" where
  "same_rows f g \<longleftrightarrow> bf_booking g = bf_booking f \<and> bf_events g = bf_events f \<and> bf_finance g = bf_finance f \<and> bf_documents g = bf_documents f"

definition fresh_key :: "BookingFile \<Rightarrow> string option \<Rightarrow> bool" where
  "fresh_key f key \<longleftrightarrow> key = None \<or> key \<notin> ev_idempotencyKey ` set (bf_events f)"

text \<open>A move by a lifecycle action, without and with the terms of an approved amendment.\<close>

definition move_shape :: "(string \<Rightarrow> string) \<Rightarrow> (string \<Rightarrow> int option) \<Rightarrow> TransitionInput \<Rightarrow> BookingFile \<Rightarrow> BookingFile \<Rightarrow> bool" where
  "move_shape sha256 other i f f' \<longleftrightarrow>
     state_check other (bf_booking f) i = Inr () \<and> fresh_key f (ti_idempotencyKey i)
     \<and> bf_events f' = bf_events f @ [event_row sha256 i (bk_isRefundable (bf_booking f))] \<and> bf_documents f' = bf_documents f"

definition amended_finance :: "BookingRow \<Rightarrow> BookingFile \<Rightarrow> BookingFile \<Rightarrow> bool" where
  "amended_finance row f f' \<longleftrightarrow>
     bf_finance f' = bf_finance f \<or>
     (\<exists>e. bf_finance f' = bf_finance f @ [e] \<and> fe_type e = FE_AMENDED \<and> fe_seq e = nextSeq f FE_AMENDED \<and> fe_penaltyMinor e = None \<and> fe_refundMinor e = None
        \<and> fe_sellMinor e = bk_totalMinor row)"

lemma same_rows_penalty: "same_rows f g \<Longrightarrow> currentPenalty g t requested = currentPenalty f t requested \<and> penalty_request g = penalty_request f"
  by (simp add: same_rows_def currentPenalty_def stored_quote_def penalty_request_def penalty_facts_def)

lemma moved_rows: "bf_finance (moved sha256 seen i (f\<lparr>bf_amendments := ms\<rparr>)) = bf_finance (moved sha256 seen i f)"
  by (simp add: moved_def emitTransitionFinance_def write_fact_def Let_def nextSeq_def count_type_def currentPenalty_def stored_quote_def
      penalty_request_def penalty_facts_def)

lemma recordAmendmentRequest_rows:
  assumes "recordAmendmentRequest other fresh userId raw now f = Inr (f1, request)"
  obtains ms where "f1 = f\<lparr>bf_amendments := ms\<rparr>"
proof -
  have "f1 = f\<lparr>bf_amendments := bf_amendments f1\<rparr>"
    using assms by (auto simp: recordAmendmentRequest_def Let_def ebind_Inr_iff split: if_splits sum.splits)
  then show ?thesis by (rule that)
qed

lemma prepare_kind:
  assumes "prepareAmendmentDecision other approve rawApproval ledgerCharged now f = Inr (Some d)"
  shows "dc_approve d = approve \<and> (\<forall>a. dc_approval d = Some a \<longrightarrow> 0 < aa_sellMinor a \<and> aa_sellMinor a \<le> MAX_MINOR)"
proof -
  have small: "0 < n \<and> n \<le> MAX_MINOR" if v: "approval_sell v = Some n" for v n
  proof -
    obtain s where s: "minor15 s" "n = int (nat_of_digits s)" "nat_of_digits s > 0"
      using v by (auto simp: approval_sell_def split: jsval.splits if_splits)
    have "int (nat_of_digits s) < 10 ^ length s" using s(1) nat_of_digits_bound [of s] by (auto simp: minor15_def)
    also have "(10::int) ^ length s \<le> 10 ^ 15" using s(1) by (intro power_increasing) (auto simp: minor15_def minorDigits_def)
    finally show ?thesis using s by (simp add: MAX_MINOR_def)
  qed
  have ok: "0 < aa_sellMinor a \<and> aa_sellMinor a \<le> MAX_MINOR" if "validateAmendmentApproval other raw = Inr a" for raw a
    using that small by (auto simp: validateAmendmentApproval_def Let_def split: jsval.splits option.splits prod.splits if_splits)
  have "dc_approve p \<and> (\<forall>a. dc_approval p = Some a \<longrightarrow> 0 < aa_sellMinor a \<and> aa_sellMinor a \<le> MAX_MINOR)"
    if "prepare_approval other m rawApproval ledgerCharged now b = Inr p" for m b p
    using that ok by (auto simp: prepare_approval_def Let_def ebind_Inr_iff split: if_splits sum.splits)
  then show ?thesis
    using assms by (auto simp: prepareAmendmentDecision_def Let_def ebind_Inr_iff split: option.splits if_splits)
qed

text \<open>The shapes of a step, the audit trail and the rows of the amendments left out.\<close>

inductive shape_step :: "(string \<Rightarrow> string) \<Rightarrow> (string \<Rightarrow> int option) \<Rightarrow> BookingFile \<Rightarrow> BookingFile \<Rightarrow> bool"
  for sha256 :: "string \<Rightarrow> string" and other :: "string \<Rightarrow> int option"
where
  shape_stay: "same_rows f f' \<Longrightarrow> shape_step sha256 other f f'"
| shape_move: "move_shape sha256 other i f f' \<Longrightarrow> bf_booking f' = row_update i (bf_booking f)
    \<Longrightarrow> bf_finance f' = bf_finance (moved sha256 (bf_booking f) i f) \<Longrightarrow> shape_step sha256 other f f'"
| shape_amend: "move_shape sha256 other i f f' \<Longrightarrow> ti_action i = approveAmendment \<Longrightarrow> bk_status (bf_booking f') = CONFIRMED
    \<Longrightarrow> bk_closedAt (bf_booking f') = None \<Longrightarrow> 0 \<le> bk_totalMinor (bf_booking f') \<Longrightarrow> bk_totalMinor (bf_booking f') \<le> MAX_MINOR
    \<Longrightarrow> amended_finance (bf_booking f') f f' \<Longrightarrow> shape_step sha256 other f f'"
| shape_edit: "bk_closedAt (bf_booking f) = None \<Longrightarrow> bf_events f' = bf_events f @ [e] \<Longrightarrow> ev_fromStatus e = Some (bk_status (bf_booking f))
    \<Longrightarrow> ev_toStatus e = bk_status (bf_booking f) \<Longrightarrow> ev_action e = EditReferences \<Longrightarrow> fresh_key f (ev_idempotencyKey e)
    \<Longrightarrow> bk_status (bf_booking f') = bk_status (bf_booking f) \<Longrightarrow> bk_totalMinor (bf_booking f') = bk_totalMinor (bf_booking f)
    \<Longrightarrow> bf_finance f' = bf_finance f \<Longrightarrow> bf_documents f' = bf_documents f \<Longrightarrow> shape_step sha256 other f f'"
| shape_penalty: "bk_closedAt (bf_booking f) = None \<Longrightarrow> penalty_open (bk_status (bf_booking f))
    \<Longrightarrow> \<forall>d \<in> set (bf_documents f). bd_type d \<noteq> CREDIT_NOTE \<and> bd_type d \<noteq> CANCELLATION_NOTE
    \<Longrightarrow> classifyPenaltyChange (currentPenalty f (bk_totalMinor (bf_booking f)) True) (bk_totalMinor (bf_booking f)) requested = change
    \<Longrightarrow> change = DECIDE \<or> change = WAIVE \<Longrightarrow> penalty_permission c change f = Inr ()
    \<Longrightarrow> bf_booking f' = bf_booking f \<Longrightarrow> bf_events f' = bf_events f \<Longrightarrow> bf_documents f' = bf_documents f
    \<Longrightarrow> bf_finance f' = bf_finance (penalty_fact sha256 c change fingerprint requested reason previous f) \<Longrightarrow> shape_step sha256 other f f'"
| shape_document: "documentBlock (bd_type d) (document_facts f) = None \<Longrightarrow> bf_booking f' = bf_booking f \<Longrightarrow> bf_events f' = bf_events f
    \<Longrightarrow> bf_finance f' = bf_finance f \<Longrightarrow> bf_documents f' = bf_documents f @ [d] \<Longrightarrow> shape_step sha256 other f f'"

lemma add_audit_rows [simp]:
  "bf_booking (add_audit u a p f) = bf_booking f" "bf_events (add_audit u a p f) = bf_events f" "bf_finance (add_audit u a p f) = bf_finance f"
  "bf_documents (add_audit u a p f) = bf_documents f"
  by (simp_all add: add_audit_def)

lemma act_audit_rows [simp]:
  "bf_booking (act_audit c r p x y f) = bf_booking f" "bf_events (act_audit c r p x y f) = bf_events f" "bf_finance (act_audit c r p x y f) = bf_finance f"
  "bf_documents (act_audit c r p x y f) = bf_documents f"
  by (simp_all add: act_audit_def)

lemma set_refs_rows:
  "bk_status (foldl set_ref b rs) = bk_status b \<and> bk_totalMinor (foldl set_ref b rs) = bk_totalMinor b \<and> bk_closedAt (foldl set_ref b rs) = bk_closedAt b"
proof (induction rs arbitrary: b)
  case (Cons r rs)
  then show ?case by (cases r; cases "fst r") auto
qed simp

lemma apply_rejected:
  assumes "applyAmendmentDecision other u d now f = Inr (f', issued)" "\<not> dc_approve d"
  shows "same_rows f f'"
  using assms by (auto simp: applyAmendmentDecision_def decide_amendment_def same_rows_def)

lemma apply_approved:
  assumes "applyAmendmentDecision other u d now f = Inr (f', issued)" "dc_approve d"
    and "\<forall>a. dc_approval d = Some a \<longrightarrow> 0 < aa_sellMinor a \<and> aa_sellMinor a \<le> MAX_MINOR"
  shows "bk_status (bf_booking f') = CONFIRMED \<and> bk_closedAt (bf_booking f') = None \<and> 0 \<le> bk_totalMinor (bf_booking f')
    \<and> bk_totalMinor (bf_booking f') \<le> MAX_MINOR \<and> bf_events f' = bf_events f \<and> bf_documents f' = bf_documents f \<and> amended_finance (bf_booking f') f f'"
proof -
  obtain a diff where a: "dc_approval d = Some a" "dc_differenceMinor d = Some diff" "bk_status (bf_booking f) = CONFIRMED" "bk_closedAt (bf_booking f) = None"
    and f': "f' = emitAmendmentFinance ((dc_subject d)\<lparr>bk_totalMinor := aa_sellMinor a, bk_netMinor := bk_netMinor (amended_row other d a (bf_booking f))\<rparr>) diff (Some u)
        [(''amendmentId'', JStr (dc_amendmentId d))]
        (decide_amendment (dc_amendmentId d) (\<lambda>m. m\<lparr>mr_status := AMENDMENT_APPROVED, mr_approvedSellMinor := Some (aa_sellMinor a),
           mr_approvedNetMinor := bk_netMinor (amended_row other d a (bf_booking f)), mr_differenceMinor := Some diff,
           mr_approvedCancelDeadline := bk_cancelDeadline (amended_row other d a (bf_booking f)), mr_documentsNotReissued := issued_types f,
           mr_decidedBy := Some u, mr_decidedAt := Some now\<rparr>) (f\<lparr>bf_booking := amended_row other d a (bf_booking f)\<rparr>))"
    using assms(1,2) by (auto simp: applyAmendmentDecision_def Let_def split: option.splits if_splits)
  have row: "bk_status (amended_row other d a b) = bk_status b" "bk_closedAt (amended_row other d a b) = bk_closedAt b"
      "bk_totalMinor (amended_row other d a b) = aa_sellMinor a" for b
    by (simp_all add: amended_row_def Let_def split: prod.split)
  show ?thesis
    using a assms(3)
    by (auto simp: f' emitAmendmentFinance_def decide_amendment_def row amended_finance_def nextSeq_def)
qed

lemma act_step_shape:
  assumes "act_tx sha256 other c r penaltyQuote permission f = Inr (f', outcome)"
  shows "shape_step sha256 other f f'"
proof -
  let ?first = "event_of_key f (Some (cx_key c)) = None"
  obtain f1 request decision where request: "(if ?first \<and> ar_action r = requestAmendment
        then recordAmendmentRequest other (cx_fresh c) (cx_userId c) (ar_amendment r) (cx_now c) f else Inr (f, None)) = Inr (f1, request)"
    and decision: "(if ?first \<and> (ar_action r = approveAmendment \<or> ar_action r = rejectAmendment)
        then prepareAmendmentDecision other (ar_action r = approveAmendment) (ar_approval r) (cx_ledgerCharged c) (cx_now c) f1 else Inr None) = Inr decision"
    and rest: "(let prepared = (if request \<noteq> None then request else map_option dc_eventPayload decision);
          input = act_input c r penaltyQuote (case prepared of Some payload \<Rightarrow> payload | None \<Rightarrow> []) in
      ebind (input_check (cleaned input)) (\<lambda>_.
      ebind (transition_on sha256 other f1 f1 input) (\<lambda>(f2, outcome).
        if to_replayed outcome then Inr (f2, outcome)
        else case decision of
          None \<Rightarrow> Inr (act_audit c r permission prepared None f2, outcome)
        | Some d \<Rightarrow>
            ebind (applyAmendmentDecision other (cx_userId c) d (cx_now c) f2) (\<lambda>(f3, notReissued).
              Inr (act_audit c r permission prepared (Some (dc_differenceMinor d, notReissued)) f3, outcome))))) = Inr (f', outcome)"
    using assms unfolding act_tx_def Let_def by (auto simp: ebind_Inr_iff)
  define prepared where "prepared = (if request \<noteq> None then request else map_option dc_eventPayload decision)"
  define input where "input = act_input c r penaltyQuote (case prepared of Some payload \<Rightarrow> payload | None \<Rightarrow> [])"
  have action: "ti_action (cleaned input) = ar_action r" by (simp add: input_def act_input_def)
  obtain ms where f1: "f1 = f\<lparr>bf_amendments := ms\<rparr>"
  proof (cases "?first \<and> ar_action r = requestAmendment")
    case True
    with request that show ?thesis by (auto elim: recordAmendmentRequest_rows)
  next
    case False
    with request have "f1 = f\<lparr>bf_amendments := bf_amendments f\<rparr>" by simp
    then show ?thesis by (rule that)
  qed
  obtain f2 out2 where t: "transition_on sha256 other f1 f1 input = Inr (f2, out2)"
    and final: "(if to_replayed out2 then Inr (f2, out2)
        else case decision of
          None \<Rightarrow> Inr (act_audit c r permission prepared None f2, out2)
        | Some d \<Rightarrow>
            ebind (applyAmendmentDecision other (cx_userId c) d (cx_now c) f2) (\<lambda>(f3, notReissued).
              Inr (act_audit c r permission prepared (Some (dc_differenceMinor d, notReissued)) f3, out2))) = Inr (f', outcome)"
    using rest [unfolded Let_def, folded prepared_def, folded input_def] by (auto simp: ebind_Inr_iff)
  show ?thesis
    using t
  proof (cases rule: transition_cases)
    case replay
    then have "f' = f1" using final by simp
    then show ?thesis by (intro shape_stay) (simp add: same_rows_def f1)
  next
    case move
    note c = commit_ok [OF move(3)]
    have f2: "f2 = moved sha256 (bf_booking f) (cleaned input) f1" using c by (simp add: f1)
    have shape: "move_shape sha256 other (cleaned input) f g" if "bf_events g = bf_events f2" "bf_documents g = bf_documents f2" for g
      using move(2) c that by (simp add: move_shape_def fresh_key_def f1 f2)
    show ?thesis
    proof (cases decision)
      case None
      then have f': "f' = act_audit c r permission prepared None f2" using final move(4) by simp
      show ?thesis
        by (rule shape_move [OF shape]) (simp_all add: f' f2 f1 moved_rows)
    next
      case (Some d)
      then obtain f3 issued where apply_ok: "applyAmendmentDecision other (cx_userId c) d (cx_now c) f2 = Inr (f3, issued)"
        and f': "f' = act_audit c r permission prepared (Some (dc_differenceMinor d, issued)) f3"
        using final move(4) by (auto simp: ebind_Inr_iff)
      have p: "prepareAmendmentDecision other (ar_action r = approveAmendment) (ar_approval r) (cx_ledgerCharged c) (cx_now c) f1 = Inr (Some d)"
        using decision Some by (auto split: if_splits)
      note kind = prepare_kind [OF p]
      show ?thesis
      proof (cases "dc_approve d")
        case True
        note a = apply_approved [OF apply_ok True]
        have approve: "ar_action r = approveAmendment" using kind True by simp
        have approve': "ti_action input = approveAmendment" using action approve by simp
        have fin: "bf_finance f2 = bf_finance f"
          by (simp add: f2 f1 moved_def emitTransitionFinance_def approve' Let_def CONFIRMING_def HOLDING_def RELEASING_def COMPLETING_CANCEL_def)
        have am: "amended_finance (bf_booking f') f f'"
          using a kind fin by (auto simp: f' amended_finance_def nextSeq_def)
        show ?thesis
          by (rule shape_amend [OF shape]) (use a kind am approve action in \<open>auto simp: f'\<close>)
      next
        case False
        then have "same_rows f2 f3" using apply_rejected [OF apply_ok] by blast
        then show ?thesis
          by (intro shape_move [OF shape]) (simp_all add: f' same_rows_def f2 f1 moved_rows)
      qed
    qed
  qed
qed

lemma event_of_key_fresh: "event_of_key f (Some key) = None \<Longrightarrow> key \<noteq> [] \<Longrightarrow> fresh_key f (Some key)"
  by (auto simp: event_of_key_def fresh_key_def find_None_iff split: if_splits)

lemma edit_step_shape:
  assumes "edit_tx sha256 c reason refs f = Inr (f', outcome)"
  shows "shape_step sha256 other f f'"
proof (cases "event_of_key f (Some (cx_key c))")
  case (Some e)
  then have "f' = f" using assms by (auto simp: edit_tx_def Let_def split: if_splits)
  then show ?thesis by (intro shape_stay) (simp add: same_rows_def)
next
  case None
  let ?changed = "filter (\<lambda>(r, v). v \<noteq> ref_of r (bf_booking f)) refs"
  let ?e = "edit_event c (edit_fingerprint sha256 (cx_bookingId c) refs reason) reason (bf_booking f) ?changed"
  obtain g where open_row: "bk_closedAt (bf_booking f) = None"
    and g: "create_event ?e (f\<lparr>bf_booking := foldl set_ref (bf_booking f) ?changed\<rparr>) = Inr g"
    and f': "bf_booking f' = bf_booking g" "bf_events f' = bf_events g" "bf_finance f' = bf_finance g" "bf_documents f' = bf_documents g"
    using assms None by (auto simp: edit_tx_def Let_def ebind_Inr_iff split: if_splits)
  show ?thesis
    by (rule shape_edit [where e = ?e])
      (use open_row g f' set_refs_rows [of "bf_booking f" ?changed] in \<open>auto simp: create_event_def edit_event_def fresh_key_def split: if_splits\<close>)
qed

lemma penalty_step_shape:
  assumes "penalty_tx sha256 c requested reason f = Inr (f', result)"
  shows "shape_step sha256 other f f'"
proof (cases "penalty_replay (cx_key c) f")
  case (Some e)
  then have "f' = f" using assms by (auto simp: penalty_tx_def Let_def split: if_splits)
  then show ?thesis by (intro shape_stay) (simp add: same_rows_def)
next
  case None
  let ?current = "currentPenalty f (bk_totalMinor (bf_booking f)) True"
  let ?change = "classifyPenaltyChange ?current (bk_totalMinor (bf_booking f)) requested"
  let ?fp = "sha256 (json_text (JArr [JStr (cx_bookingId c), JStr (string_of_int requested), JStr reason]))"
  have ok: "bk_closedAt (bf_booking f) = None" "penalty_open (bk_status (bf_booking f))"
      "\<forall>d \<in> set (bf_documents f). bd_type d \<noteq> CREDIT_NOTE \<and> bd_type d \<noteq> CANCELLATION_NOTE"
    using assms None by (auto simp: penalty_tx_def Let_def split: if_splits)
  have "?change = DECIDE \<or> ?change = WAIVE"
    using assms None ok by (auto simp: penalty_tx_def Let_def split: PenaltyChange.splits)
  moreover from this have "penalty_permission c ?change f = Inr () \<and> bf_booking f' = bf_booking f \<and> bf_events f' = bf_events f \<and> bf_documents f' = bf_documents f
      \<and> bf_finance f' = bf_finance (penalty_fact sha256 c ?change ?fp requested reason ?current f)"
    using assms None ok by (auto simp: penalty_tx_def Let_def ebind_Inr_iff penalty_fact_def)
  ultimately show ?thesis by (intro shape_penalty [OF ok refl]) auto
qed

lemma document_step_shape:
  assumes "issue_on c type f f = Inr (f', d, replayed)"
  shows "shape_step sha256 other f f'"
proof (cases "find (\<lambda>d. bd_type d = type) (bf_documents f)")
  case (Some e)
  then have "f' = f" using assms by (auto simp: issue_on_def)
  then show ?thesis by (intro shape_stay) (simp add: same_rows_def)
next
  case None
  then show ?thesis
    using assms by (intro shape_document [where d = d]) (auto simp: issue_on_def Let_def split: option.splits)
qed

lemma platform_step_shape:
  assumes "transition_on sha256 other f f i = Inr (f', outcome)"
  shows "shape_step sha256 other f f'"
  using assms
proof (cases rule: transition_cases)
  case replay
  then show ?thesis by (intro shape_stay) (simp add: same_rows_def)
next
  case move
  note c = commit_ok [OF move(3)]
  show ?thesis
    by (rule shape_move [where i = "cleaned i"]) (use c move(2) in \<open>simp_all add: move_shape_def fresh_key_def\<close>)
qed

lemma booking_step_shape: "booking_step sha256 other f f' \<Longrightarrow> shape_step sha256 other f f'"
proof (induction rule: booking_step.induct)
  case (denied_step f c r)
  show ?case by (intro shape_stay) (simp add: same_rows_def act_denied_def)
qed (blast intro: act_step_shape edit_step_shape penalty_step_shape document_step_shape platform_step_shape)+

lemma reachable_induct [consumes 1, case_names created shape]:
  assumes "booking_reachable sha256 other f"
    and "\<And>f. created_file f \<Longrightarrow> P f"
    and "\<And>f f'. booking_reachable sha256 other f \<Longrightarrow> P f \<Longrightarrow> shape_step sha256 other f f' \<Longrightarrow> P f'"
  shows "P f"
  using assms(1) by (induction rule: booking_reachable.induct) (use assms(2,3) booking_step_shape in blast)+

subsection \<open>History\<close>

text \<open>The events lead from one status to another: each starts where the one before ended.\<close>

fun history :: "BookingStatus \<Rightarrow> BookingEventRow list \<Rightarrow> BookingStatus \<Rightarrow> bool" where
  "history s [] t \<longleftrightarrow> s = t"
| "history s (e # es) t \<longleftrightarrow>
     ev_fromStatus e = Some s
     \<and> (isLegalMove s (ev_toStatus e) \<or> ev_toStatus e = s \<and> (ev_action e = EditReferences \<or> s \<in> set BOOKING_CLOSABLE_STATUSES))
     \<and> history (ev_toStatus e) es t"

definition inv_history :: "BookingFile \<Rightarrow> bool" where
  "inv_history f \<longleftrightarrow> (\<exists>e es. bf_events f = e # es \<and> history (ev_toStatus e) es (bk_status (bf_booking f)))"

definition inv_keys :: "BookingFile \<Rightarrow> bool" where
  "inv_keys f \<longleftrightarrow> distinct (filter (\<lambda>k. k \<noteq> None) (map ev_idempotencyKey (bf_events f)))"

lemma history_append: "history s (es @ [e]) t \<longleftrightarrow> (\<exists>u. history s es u \<and> history u [e] t)"
  by (induction es arbitrary: s) auto

lemma inv_history_append:
  assumes "inv_history f" "bf_events f' = bf_events f @ [e]" "history (bk_status (bf_booking f)) [e] (bk_status (bf_booking f'))"
  shows "inv_history f'"
proof -
  obtain e0 es where "bf_events f = e0 # es" "history (ev_toStatus e0) es (bk_status (bf_booking f))" using assms(1) by (auto simp: inv_history_def)
  then have "bf_events f' = e0 # (es @ [e]) \<and> history (ev_toStatus e0) (es @ [e]) (bk_status (bf_booking f'))"
    using assms(2,3) by (auto simp: history_append)
  then show ?thesis by (auto simp: inv_history_def)
qed

lemma inv_keys_append:
  assumes "inv_keys f" "bf_events f' = bf_events f @ [e]" "fresh_key f (ev_idempotencyKey e)"
  shows "inv_keys f'"
  using assms by (auto simp: inv_keys_def fresh_key_def)

lemma move_event:
  assumes "move_shape sha256 other i f f'" and "bk_status (bf_booking f') = br_to (BOOKING_ACTION_RULES (ti_action i))"
  shows "history (bk_status (bf_booking f)) [event_row sha256 i (bk_isRefundable (bf_booking f))] (bk_status (bf_booking f'))"
proof -
  have "bk_status (bf_booking f) = br_from (BOOKING_ACTION_RULES (ti_action i))" using assms(1) by (auto simp: move_shape_def dest: state_check_ok)
  then show ?thesis using assms(2) rule_moves [of "ti_action i"] by auto
qed

lemma shape_history:
  assumes "shape_step sha256 other f f'" "inv_history f" "inv_keys f"
  shows "inv_history f' \<and> inv_keys f'"
  using assms
proof (cases rule: shape_step.cases)
  case shape_stay
  with assms show ?thesis by (simp add: same_rows_def inv_history_def inv_keys_def)
next
  case (shape_move i)
  then show ?thesis
    using assms move_event [OF shape_move(1)]
    by (auto simp: move_shape_def intro: inv_history_append inv_keys_append)
next
  case (shape_amend i)
  then have "bk_status (bf_booking f') = br_to (BOOKING_ACTION_RULES (ti_action i))" by (simp add: plain_rule_def)
  then show ?thesis
    using assms move_event [OF shape_amend(1)] shape_amend
    by (auto simp: move_shape_def intro: inv_history_append inv_keys_append)
next
  case (shape_edit e)
  then show ?thesis using assms by (auto intro!: inv_history_append [of f f' e] inv_keys_append [of f f' e])
next
  case shape_penalty
  with assms show ?thesis by (simp add: inv_history_def inv_keys_def)
next
  case shape_document
  with assms show ?thesis by (simp add: inv_history_def inv_keys_def)
qed


subsection \<open>Closed bookings\<close>

lemma closed_step:
  assumes "booking_step sha256 other f g" "bk_closedAt (bf_booking f) \<noteq> None"
  shows "bf_booking g = bf_booking f \<and> bf_events g = bf_events f \<and> bf_finance g = bf_finance f"
  using booking_step_shape [OF assms(1)] assms(2)
  by (cases rule: shape_step.cases) (auto simp: same_rows_def move_shape_def dest: state_check_ok)


subsection \<open>Money facts\<close>

text \<open>
  Facts of a type are numbered one after another, a hold is released at most as often as it was taken, and a
  penalty and its refund are not negative and make up the amount the fact was written for.
\<close>

definition of_type :: "BookingFinanceEventType \<Rightarrow> BookingFinanceRow list \<Rightarrow> BookingFinanceRow list" where
  "of_type t rows = filter (\<lambda>e. fe_type e = t) rows"

definition fact_adds_up :: "BookingFinanceRow \<Rightarrow> bool" where
  "fact_adds_up e \<longleftrightarrow>
     (case fe_penaltyMinor e of
        None \<Rightarrow> fe_refundMinor e = None
      | Some p \<Rightarrow> (\<exists>r. fe_refundMinor e = Some r \<and> 0 \<le> p \<and> 0 \<le> r \<and> p + r = fe_sellMinor e))"

definition inv_facts :: "BookingFile \<Rightarrow> bool" where
  "inv_facts f \<longleftrightarrow>
     0 \<le> bk_totalMinor (bf_booking f) \<and> bk_totalMinor (bf_booking f) \<le> MAX_MINOR
     \<and> (\<forall>t. map fe_seq (of_type t (bf_finance f)) = map int [1..<Suc (length (of_type t (bf_finance f)))])
     \<and> length (of_type FE_HOLD_RELEASED (bf_finance f)) \<le> length (of_type FE_ON_REQUEST_HOLD (bf_finance f))
     \<and> (\<forall>e \<in> set (bf_finance f). fact_adds_up e)"

lemma foldl_max_seq: "foldl max (int m) (map int [Suc m..<Suc (m + k)]) = int (m + k)"
  by (induction k) auto

lemma nextSeq_number:
  assumes "map fe_seq (of_type t (bf_finance f)) = map int [1..<Suc n]"
  shows "nextSeq f t = int (Suc n)"
proof (cases n)
  case 0
  then show ?thesis using assms by (simp add: nextSeq_def of_type_def)
next
  case (Suc k)
  have "[1..<Suc n] = 1 # [Suc 1..<Suc (1 + k)]" by (simp add: Suc upt_conv_Cons del: upt_Suc)
  then show ?thesis using assms foldl_max_seq [of 1 k] by (simp add: nextSeq_def of_type_def Suc)
qed

lemma of_type_append: "of_type t (rows @ [e]) = of_type t rows @ (if fe_type e = t then [e] else [])"
  by (simp add: of_type_def)

lemma inv_facts_append:
  assumes "inv_facts f" "bf_finance f' = bf_finance f @ [e]" "fe_seq e = nextSeq f (fe_type e)" "fact_adds_up e"
    and "0 \<le> bk_totalMinor (bf_booking f')" "bk_totalMinor (bf_booking f') \<le> MAX_MINOR"
    and "fe_type e = FE_HOLD_RELEASED \<Longrightarrow> length (of_type FE_HOLD_RELEASED (bf_finance f)) < length (of_type FE_ON_REQUEST_HOLD (bf_finance f))"
  shows "inv_facts f'"
proof -
  have seq: "map fe_seq (of_type t (bf_finance f)) = map int [1..<Suc (length (of_type t (bf_finance f)))]" for t
    using assms(1) by (simp add: inv_facts_def)
  show ?thesis
    unfolding inv_facts_def
  proof (intro conjI allI ballI)
    fix t
    show "map fe_seq (of_type t (bf_finance f')) = map int [1..<Suc (length (of_type t (bf_finance f')))]"
      using seq [of t] assms(3) nextSeq_number [OF seq [of t]] by (auto simp: assms(2) of_type_append)
  next
    fix x assume "x \<in> set (bf_finance f')"
    then show "fact_adds_up x" using assms(1,2,4) by (auto simp: inv_facts_def)
  qed (use assms in \<open>auto simp: inv_facts_def of_type_append\<close>)
qed

lemma currentPenalty_adds_up:
  assumes "determined (currentPenalty f sell True) = Some (p, r)" "0 \<le> sell" "sell \<le> MAX_MINOR"
  shows "0 \<le> p \<and> 0 \<le> r \<and> p + r = sell"
  using assms effectivePenalty_determined [of "string_of_int sell" True] parseMinor_string [of sell] by (auto simp: currentPenalty_def)

lemma write_fact_inv:
  assumes "inv_facts f" "bf_finance f' = bf_finance (write_fact b u t amounts payload g)" "bf_finance g = bf_finance f"
    and "0 \<le> bk_totalMinor (bf_booking f')" "bk_totalMinor (bf_booking f') \<le> MAX_MINOR"
    and "\<And>p r. amounts = Some (p, r) \<Longrightarrow> 0 \<le> p \<and> 0 \<le> r \<and> p + r = bk_totalMinor b"
    and "t = FE_HOLD_RELEASED \<Longrightarrow> length (of_type FE_HOLD_RELEASED (bf_finance f)) < length (of_type FE_ON_REQUEST_HOLD (bf_finance f))"
  shows "inv_facts f'"
proof -
  let ?e = "\<lparr>fe_type = t, fe_seq = nextSeq g t, fe_currency = bk_currency b, fe_sellMinor = bk_totalMinor b, fe_netMinor = bk_netMinor b,
          fe_penaltyMinor = map_option fst amounts, fe_refundMinor = map_option snd amounts, fe_adjustmentMinor = None,
          fe_paymentMode = bk_paymentMode b, fe_actorUserId = u, fe_payload = payload\<rparr>"
  show ?thesis
    by (rule inv_facts_append [of f f' ?e])
      (use assms in \<open>auto simp: write_fact_def nextSeq_def fact_adds_up_def split: option.splits\<close>)
qed

lemma moved_inv:
  assumes inv: "inv_facts f" and fin: "bf_finance f' = bf_finance (moved sha256 (bf_booking f) i f)"
    and total: "0 \<le> bk_totalMinor (bf_booking f')" "bk_totalMinor (bf_booking f') \<le> MAX_MINOR"
  shows "inv_facts f'"
proof -
  define g where "g = f\<lparr>bf_booking := row_update i (bf_booking f), bf_events := bf_events f @ [event_row sha256 i (bk_isRefundable (bf_booking f))]\<rparr>"
  have g: "bf_finance g = bf_finance f" by (simp add: g_def)
  have sell: "0 \<le> bk_totalMinor (bf_booking f)" "bk_totalMinor (bf_booking f) \<le> MAX_MINOR" using inv by (simp_all add: inv_facts_def)
  have same: "inv_facts f'" if "bf_finance f' = bf_finance f" using inv that total by (simp add: inv_facts_def)
  have wrote: "inv_facts f'"
    if "bf_finance f' = bf_finance (write_fact (bf_booking f) u t amounts payload g)"
      "\<And>p r. amounts = Some (p, r) \<Longrightarrow> 0 \<le> p \<and> 0 \<le> r \<and> p + r = bk_totalMinor (bf_booking f)"
      "t = FE_HOLD_RELEASED \<Longrightarrow> length (of_type FE_HOLD_RELEASED (bf_finance f)) < length (of_type FE_ON_REQUEST_HOLD (bf_finance f))"
    for u t amounts payload
    using write_fact_inv [OF inv that(1) g total that(2,3)] by blast
  have count: "count_type g t = length (of_type t (bf_finance f))" for t by (simp add: count_type_def of_type_def g)
  have fin': "bf_finance f' = bf_finance (if ti_emitFinance i then emitTransitionFinance (bf_booking f) (ti_action i) (actor_user i) g else g)"
    using fin by (simp add: moved_def g_def)
  show ?thesis
  proof (cases "ti_emitFinance i")
    case False
    then show ?thesis using fin' g same by simp
  next
    case True
    then show ?thesis
      using fin' same g count currentPenalty_adds_up [OF _ sell, of g] unfolding emitTransitionFinance_def Let_def
      by (auto intro!: wrote split: if_splits)
  qed
qed

lemma penalty_fact_inv:
  assumes "inv_facts f" "bf_finance f' = bf_finance (penalty_fact sha256 c change fingerprint requested reason previous f)" "bf_booking f' = bf_booking f"
    and "splitSell (bk_totalMinor (bf_booking f)) requested \<noteq> None"
  shows "inv_facts f'"
proof -
  have "0 \<le> requested \<and> requested \<le> bk_totalMinor (bf_booking f)" using assms(4) by (auto simp: splitSell_def split: if_splits)
  then show ?thesis
    using assms by (intro write_fact_inv [of f f' "bf_booking f" "Some (cx_userId c)" "change_type change" "Some (requested, bk_totalMinor (bf_booking f) - requested)" _ f])
      (auto simp: penalty_fact_def Let_def inv_facts_def change_type_def split: if_splits)
qed

lemma classify_accepts: "classifyPenaltyChange current sell requested = change \<Longrightarrow> change = DECIDE \<or> change = WAIVE \<Longrightarrow> splitSell sell requested \<noteq> None"
  by (auto simp: classifyPenaltyChange_def split: if_splits)

lemma shape_facts:
  assumes "shape_step sha256 other f f'" "inv_facts f"
  shows "inv_facts f'"
  using assms
proof (cases rule: shape_step.cases)
  case shape_stay
  with assms show ?thesis by (simp add: same_rows_def inv_facts_def)
next
  case (shape_move i)
  then show ?thesis using assms(2) by (intro moved_inv [of f f' sha256 i]) (auto simp: inv_facts_def)
next
  case (shape_amend i)
  show ?thesis
  proof (cases "bf_finance f' = bf_finance f")
    case True
    with assms(2) shape_amend show ?thesis by (simp add: inv_facts_def)
  next
    case False
    then show ?thesis
      using shape_amend by (auto simp: amended_finance_def fact_adds_up_def intro!: inv_facts_append [OF assms(2)])
  qed
next
  case shape_edit
  with assms show ?thesis by (simp add: inv_facts_def)
next
  case (shape_penalty requested change)
  then show ?thesis using assms(2) classify_accepts by (blast intro: penalty_fact_inv)
next
  case shape_document
  with assms show ?thesis by (simp add: inv_facts_def)
qed

lemma reachable_facts: "booking_reachable sha256 other f \<Longrightarrow> inv_facts f"
proof (induction rule: reachable_induct)
  case (created f)
  then show ?case by (simp add: created_file_def inv_facts_def of_type_def)
qed (use shape_facts in blast)

text \<open>
  C14. The money facts of a booking are consistent whatever happened to it: the facts of each type are numbered from
  one without a gap, holds are released at most as often as they were taken, and every fact with a penalty has a
  refund, neither negative, that together make up the sell amount it was written for.
\<close>

theorem finance_facts_consistent:
  assumes "booking_reachable sha256 other f"
  shows "inv_facts f"
  using assms by (rule reachable_facts)

subsection \<open>The penalty of a cancelled booking\<close>

definition booking_penalty :: "BookingFile \<Rightarrow> EffectivePenalty" where
  "booking_penalty f = currentPenalty f (bk_totalMinor (bf_booking f)) True"

definition cancellation_document :: "BookingFile \<Rightarrow> bool" where
  "cancellation_document f \<longleftrightarrow> (\<exists>d \<in> set (bf_documents f). bd_type d = CREDIT_NOTE \<or> bd_type d = CANCELLATION_NOTE)"

definition person_fact :: "BookingFinanceRow \<Rightarrow> bool" where
  "person_fact e \<longleftrightarrow> fe_type e = FE_PENALTY_DECIDED \<or> fe_type e = FE_PENALTY_WAIVED"

lemma open_moves:
  "penalty_open (br_from (BOOKING_ACTION_RULES a)) \<Longrightarrow>
     penalty_open (br_to (BOOKING_ACTION_RULES a)) \<and> a \<noteq> requestCancellation \<and> a \<noteq> systemRequestCancellation \<and> a \<noteq> markNoShow \<and> a \<noteq> approveAmendment"
  by (cases a) (simp_all add: penalty_open_def plain_rule_def lock_rule_def)

lemma cancelled_moves:
  "br_from (BOOKING_ACTION_RULES a) = CANCELLED \<or> br_from (BOOKING_ACTION_RULES a) = NO_SHOW \<Longrightarrow> br_to (BOOKING_ACTION_RULES a) = br_from (BOOKING_ACTION_RULES a)"
  by (cases a) (simp_all add: plain_rule_def lock_rule_def)

lemma moved_facts:
  "bf_finance (moved sha256 seen i f) = bf_finance f \<or> (\<exists>e. bf_finance (moved sha256 seen i f) = bf_finance f @ [e] \<and> \<not> person_fact e)"
  by (auto simp: moved_def emitTransitionFinance_def write_fact_def person_fact_def Let_def)

lemma penalty_facts_append: "bf_finance f' = bf_finance f @ [e] \<Longrightarrow> penalty_facts f' = penalty_facts f @ [\<lparr>pf_type = fe_type e, pf_penaltyMinor = fe_penaltyMinor e\<rparr>]"
  by (simp add: penalty_facts_def)

lemma stored_quote_same: "penalty_request f' = penalty_request f \<Longrightarrow> stored_quote f' = stored_quote f"
  by (simp add: stored_quote_def)

lemma booking_penalty_same:
  assumes "penalty_request f' = penalty_request f" "bk_totalMinor (bf_booking f') = bk_totalMinor (bf_booking f)"
    and "bf_finance f' = bf_finance f \<or> (\<exists>e. bf_finance f' = bf_finance f @ [e] \<and> \<not> person_fact e)"
  shows "booking_penalty f' = booking_penalty f"
  using assms(3)
proof
  assume "bf_finance f' = bf_finance f"
  then show ?thesis using assms(1,2) by (simp add: booking_penalty_def currentPenalty_def stored_quote_def penalty_facts_def)
next
  assume "\<exists>e. bf_finance f' = bf_finance f @ [e] \<and> \<not> person_fact e"
  then obtain e where e: "bf_finance f' = bf_finance f @ [e]" "fe_type e \<noteq> FE_PENALTY_WAIVED" "fe_type e \<noteq> FE_PENALTY_DECIDED" by (auto simp: person_fact_def)
  show ?thesis
    by (simp only: booking_penalty_def currentPenalty_def assms(2) stored_quote_same [OF assms(1)] penalty_facts_append [OF e(1)] effectivePenalty_other [OF e(2,3)])
qed

lemma penalty_request_append:
  "bf_events f' = bf_events f @ [e] \<Longrightarrow> ev_action e \<notin> {Lifecycle requestCancellation, Lifecycle systemRequestCancellation, Lifecycle markNoShow}
    \<Longrightarrow> penalty_request f' = penalty_request f"
  by (simp add: penalty_request_def)

lemma penalty_step_effect:
  assumes "classifyPenaltyChange (booking_penalty f) (bk_totalMinor (bf_booking f)) requested = change" "change = DECIDE \<or> change = WAIVE" "inv_facts f"
    and "bf_booking f' = bf_booking f" "bf_events f' = bf_events f"
    and "bf_finance f' = bf_finance (penalty_fact sha256 c change fingerprint requested reason previous f)"
  shows "determined (booking_penalty f') = Some (requested, bk_totalMinor (bf_booking f) - requested)
    \<and> (case determined (booking_penalty f) of None \<Rightarrow> change = DECIDE | Some (old, _) \<Rightarrow> change = WAIVE \<and> requested < old)"
proof -
  have facts: "penalty_facts f' = penalty_facts f @ [\<lparr>pf_type = change_type change, pf_penaltyMinor = Some requested\<rparr>]"
    using assms(6) by (simp add: penalty_facts_def penalty_fact_def write_fact_def Let_def)
  have quote: "stored_quote f' = stored_quote f" using assms(5) by (simp add: stored_quote_def penalty_request_def)
  have sell: "parseMinor (JStr (string_of_int (bk_totalMinor (bf_booking f)))) = Some (bk_totalMinor (bf_booking f))"
    using assms(3) by (intro parseMinor_string) (simp_all add: inv_facts_def)
  from change_takes_effect [OF assms(1) [unfolded booking_penalty_def currentPenalty_def] assms(2) sell] show ?thesis
    by (simp add: booking_penalty_def currentPenalty_def facts quote assms(4))
qed

text \<open>What a step can do to a booking whose cancellation was asked for, or that was a no-show.\<close>

lemma open_step:
  assumes "shape_step sha256 other f f'" "penalty_open (bk_status (bf_booking f))" "inv_facts f"
  shows "penalty_open (bk_status (bf_booking f')) \<and> bk_totalMinor (bf_booking f') = bk_totalMinor (bf_booking f) \<and> penalty_request f' = penalty_request f
    \<and> (bk_status (bf_booking f) = CANCELLED \<or> bk_status (bf_booking f) = NO_SHOW \<longrightarrow> bk_status (bf_booking f') = bk_status (bf_booking f))
    \<and> (booking_penalty f' = booking_penalty f \<or>
        \<not> cancellation_document f \<and> (\<exists>p. determined (booking_penalty f') = Some (p, bk_totalMinor (bf_booking f) - p)
          \<and> (case determined (booking_penalty f) of None \<Rightarrow> True | Some (old, _) \<Rightarrow> p < old)))"
  using assms(1)
proof (cases rule: shape_step.cases)
  case shape_stay
  then show ?thesis using assms(2) same_rows_penalty [OF shape_stay] by (simp add: same_rows_def booking_penalty_def)
next
  case (shape_move i)
  have from_status: "bk_status (bf_booking f) = br_from (BOOKING_ACTION_RULES (ti_action i))"
    using shape_move(1) by (auto simp: move_shape_def dest: state_check_ok)
  note m = open_moves [OF assms(2) [unfolded from_status]]
  have req: "penalty_request f' = penalty_request f"
    using shape_move(1) m by (intro penalty_request_append [of f' f "event_row sha256 i (bk_isRefundable (bf_booking f))"]) (auto simp: move_shape_def)
  have "booking_penalty f' = booking_penalty f"
    by (rule booking_penalty_same [OF req]) (use shape_move moved_facts [of sha256 "bf_booking f" i f] in auto)
  then show ?thesis using shape_move m req cancelled_moves [of "ti_action i"] by (auto simp: from_status)
next
  case (shape_amend i)
  have "bk_status (bf_booking f) = br_from (BOOKING_ACTION_RULES approveAmendment)"
    using shape_amend(1,2) by (auto simp: move_shape_def dest: state_check_ok)
  then show ?thesis using assms(2) by (simp add: penalty_open_def plain_rule_def)
next
  case (shape_edit e)
  have req: "penalty_request f' = penalty_request f" by (rule penalty_request_append [OF shape_edit(2)]) (simp add: shape_edit)
  then show ?thesis using assms(2) shape_edit booking_penalty_same [OF req] by simp
next
  case (shape_penalty requested change)
  have req: "penalty_request f' = penalty_request f" using shape_penalty by (simp add: penalty_request_def)
  have effect: "determined (booking_penalty f') = Some (requested, bk_totalMinor (bf_booking f) - requested)
    \<and> (case determined (booking_penalty f) of None \<Rightarrow> change = DECIDE | Some (old, _) \<Rightarrow> change = WAIVE \<and> requested < old)"
    by (rule penalty_step_effect) (use shape_penalty assms(3) in \<open>auto simp: booking_penalty_def\<close>)
  then show ?thesis
    using assms(2) shape_penalty req by (auto simp: cancellation_document_def split: option.splits)
next
  case (shape_document d)
  then have "penalty_request f' = penalty_request f" by (simp add: penalty_request_def)
  then show ?thesis using assms(2) shape_document booking_penalty_same [of f' f] by simp
qed

lemma run_reachable:
  assumes "(booking_step sha256 other)\<^sup>*\<^sup>* f g" "booking_reachable sha256 other f"
  shows "booking_reachable sha256 other g"
  using assms by (induction rule: rtranclp_induct) (auto intro: reach_step)


lemma open_run:
  assumes "(booking_step sha256 other)\<^sup>*\<^sup>* f g" "booking_reachable sha256 other f" "penalty_open (bk_status (bf_booking f))"
    and "determined (booking_penalty f) = Some (p, r)"
  shows "penalty_open (bk_status (bf_booking g)) \<and> bk_totalMinor (bf_booking g) = bk_totalMinor (bf_booking f) \<and> penalty_request g = penalty_request f
    \<and> (\<exists>q s. determined (booking_penalty g) = Some (q, s) \<and> q \<le> p \<and> (cancellation_document f \<longrightarrow> q = p \<and> cancellation_document g))"
  using assms(1)
proof (induction rule: rtranclp_induct)
  case base
  then show ?case using assms(3,4) by simp
next
  case (step g h)
  have g: "inv_facts g" using run_reachable [OF step(1) assms(2)] by (rule reachable_facts)
  have shape: "shape_step sha256 other g h" using step(2) by (rule booking_step_shape)
  note o = open_step [OF shape _ g]
  have docs: "cancellation_document g \<Longrightarrow> cancellation_document h"
    using shape by (cases rule: shape_step.cases) (auto simp: cancellation_document_def same_rows_def move_shape_def)
  show ?case using o step(3) docs by (fastforce split: option.splits)
qed


definition inv_documents :: "BookingFile \<Rightarrow> bool" where
  "inv_documents f \<longleftrightarrow>
     distinct (map bd_type (bf_documents f))
     \<and> (CREDIT_NOTE \<in> bd_type ` set (bf_documents f) \<longrightarrow> INVOICE \<in> bd_type ` set (bf_documents f))
     \<and> (cancellation_document f \<longrightarrow> (bk_status (bf_booking f) = CANCELLED \<or> bk_status (bf_booking f) = NO_SHOW)
          \<and> (\<exists>p r. determined (booking_penalty f) = Some (p, r) \<and> (CREDIT_NOTE \<in> bd_type ` set (bf_documents f) \<longrightarrow> r \<noteq> 0)))"

lemma final_open: "s = CANCELLED \<or> s = NO_SHOW \<Longrightarrow> penalty_open s"
  by (auto simp: penalty_open_def)

lemma inv_documents_same:
  assumes "shape_step sha256 other f f'" "inv_facts f" "inv_documents f" "bf_documents f' = bf_documents f"
  shows "inv_documents f'"
proof -
  have same: "cancellation_document f' \<longleftrightarrow> cancellation_document f" using assms(4) by (simp add: cancellation_document_def)
  have "(bk_status (bf_booking f') = CANCELLED \<or> bk_status (bf_booking f') = NO_SHOW) \<and> booking_penalty f' = booking_penalty f" if "cancellation_document f"
  proof -
    have "bk_status (bf_booking f) = CANCELLED \<or> bk_status (bf_booking f) = NO_SHOW" using assms(3) that by (simp add: inv_documents_def)
    then show ?thesis using open_step [OF assms(1) final_open assms(2)] that by metis
  qed
  then show ?thesis using assms(3,4) same by (auto simp: inv_documents_def)
qed

lemma document_block_none:
  assumes "documentBlock type (document_facts f) = None" "type = CREDIT_NOTE \<or> type = CANCELLATION_NOTE"
  shows "(bk_status (bf_booking f) = CANCELLED \<or> bk_status (bf_booking f) = NO_SHOW)
    \<and> (\<exists>p r. determined (booking_penalty f) = Some (p, r) \<and> (type = CREDIT_NOTE \<longrightarrow> r \<noteq> 0 \<and> INVOICE \<in> bd_type ` set (bf_documents f)))"
proof -
  have status: "bk_status (bf_booking f) = CANCELLED \<or> bk_status (bf_booking f) = NO_SHOW"
    using assms by (auto simp: documentBlock_def document_facts_def Let_def split: if_splits)
  then have "df_penalty (document_facts f) = booking_penalty f"
    by (auto simp: document_facts_def Let_def booking_penalty_def penalty_open_def)
  then show ?thesis
    using assms status by (auto simp: documentBlock_def document_facts_def Let_def split: if_splits option.splits)
qed

lemma document_fresh: "documentBlock type (document_facts f) = None \<Longrightarrow> type \<notin> bd_type ` set (bf_documents f)"
  by (auto simp: documentBlock_def document_facts_def Let_def split: if_splits)

lemma shape_documents:
  assumes "shape_step sha256 other f f'" "inv_facts f" "inv_documents f"
  shows "inv_documents f'"
  using assms(1)
proof (cases rule: shape_step.cases)
  case (shape_document d)
  have now: "booking_penalty f' = booking_penalty f" using shape_document by (intro booking_penalty_same) (simp_all add: penalty_request_def)
  define T where "T = bd_type ` set (bf_documents f)"
  have T': "bd_type ` set (bf_documents f') = insert (bd_type d) T" using shape_document by (simp add: T_def)
  have c: "cancellation_document g \<longleftrightarrow> CREDIT_NOTE \<in> bd_type ` set (bf_documents g) \<or> CANCELLATION_NOTE \<in> bd_type ` set (bf_documents g)" for g
    by (force simp: cancellation_document_def)
  have fresh: "bd_type d \<notin> T" using document_fresh [OF shape_document(1)] by (simp add: T_def)
  have d: "distinct (map bd_type (bf_documents f'))" using assms(3) fresh shape_document by (simp add: inv_documents_def T_def)
  note old = assms(3) [unfolded inv_documents_def c, folded T_def]
  show ?thesis
  proof (cases "bd_type d = CREDIT_NOTE \<or> bd_type d = CANCELLATION_NOTE")
    case True
    then show ?thesis
      using document_block_none [OF shape_document(1) True, folded T_def] d old shape_document(2) now
      unfolding inv_documents_def c T' by auto
  next
    case False
    then show ?thesis using d old shape_document(2) now unfolding inv_documents_def c T' by auto
  qed
qed (use assms inv_documents_same in \<open>auto simp: same_rows_def move_shape_def\<close>)


definition inv_waivers :: "BookingFile \<Rightarrow> bool" where
  "inv_waivers f \<longleftrightarrow>
     (\<forall>e \<in> set (bf_finance f). person_fact e \<longrightarrow> penalty_open (bk_status (bf_booking f)))
     \<and> (\<forall>e \<in> set (bf_finance f). fe_type e = FE_PENALTY_WAIVED \<longrightarrow>
          fe_actorUserId e \<noteq> None \<and> (\<forall>request. penalty_request f = Some request \<longrightarrow> ev_actorId request \<noteq> fe_actorUserId e))"

lemma inv_waivers_keep:
  assumes "shape_step sha256 other f f'" "inv_facts f" "inv_waivers f"
    and "bf_finance f' = bf_finance f \<or> (\<exists>e. bf_finance f' = bf_finance f @ [e] \<and> \<not> person_fact e)"
  shows "inv_waivers f'"
proof (cases "\<exists>e \<in> set (bf_finance f). person_fact e")
  case True
  then have "penalty_open (bk_status (bf_booking f))" using assms(3) by (auto simp: inv_waivers_def)
  then show ?thesis using open_step [OF assms(1) _ assms(2)] assms(3,4) by (auto simp: inv_waivers_def person_fact_def)
next
  case False
  then show ?thesis using assms(4) by (auto simp: inv_waivers_def person_fact_def)
qed

lemma shape_waivers:
  assumes "shape_step sha256 other f f'" "inv_facts f" "inv_waivers f"
  shows "inv_waivers f'"
  using assms(1)
proof (cases rule: shape_step.cases)
  case (shape_penalty requested change c)
  have req: "penalty_request f' = penalty_request f" using shape_penalty by (simp add: penalty_request_def)
  obtain e where e: "bf_finance f' = bf_finance f @ [e]" "fe_type e = change_type change" "fe_actorUserId e = Some (cx_userId c)"
    using shape_penalty by (auto simp: penalty_fact_def write_fact_def Let_def)
  have "ev_actorId request \<noteq> Some (cx_userId c)" if "change = WAIVE" "penalty_request f = Some request" for request
    using shape_penalty(6) that by (auto simp: penalty_permission_def split: if_splits)
  then show ?thesis using assms(3) e req shape_penalty by (auto simp: inv_waivers_def change_type_def split: if_splits)
next
  case (shape_move i)
  then show ?thesis using inv_waivers_keep [OF assms] moved_facts [of sha256 "bf_booking f" i f] by simp
next
  case (shape_amend i)
  then have "bf_finance f' = bf_finance f \<or> (\<exists>e. bf_finance f' = bf_finance f @ [e] \<and> \<not> person_fact e)"
    by (auto simp: amended_finance_def person_fact_def)
  then show ?thesis by (rule inv_waivers_keep [OF assms])
qed (use inv_waivers_keep [OF assms] in \<open>simp_all add: same_rows_def\<close>)

text \<open>
  C4. Four eyes on waivers: in whatever order things happen, a penalty is decided or waived only after a cancellation was
  requested or a no-show marked, and no waiver on file was approved by the person who requested that
  cancellation or marked that no-show.
\<close>

theorem waiver_four_eyes:
  assumes "booking_reachable sha256 other f"
  shows "inv_waivers f"
  using assms
proof (induction rule: reachable_induct)
  case (created f)
  then show ?case by (simp add: created_file_def inv_waivers_def)
next
  case (shape f f')
  then show ?case using shape_waivers reachable_facts by blast
qed

subsection \<open>A sample booking\<close>

definition sample_created :: BookingFile where
  "sample_created = sample_file\<lparr>bf_events :=
     [\<lparr>ev_fromStatus = None, ev_toStatus = PENDING_SUPPLIER, ev_actorType = BY_USER, ev_actorId = Some ''u1'', ev_reason = None, ev_action = CreateManual,
       ev_payload = \<lparr>pl_facts = [], pl_supplierCancellationRef = None, pl_supplierRef = None, pl_hotelConfirmationNo = None, pl_secondConfirmation = False,
         pl_amendment = None, pl_closed = False, pl_penaltyQuote = None\<rparr>, ev_idempotencyKey = None, ev_requestFingerprint = None\<rparr>]\<rparr>"

definition sample_system :: "BookingAction \<Rightarrow> StoredPenaltyQuote option \<Rightarrow> TransitionInput" where
  "sample_system action quoted = (sample_input action [])\<lparr>ti_actorType := BY_SYSTEM, ti_actorId := None, ti_level := SYSTEM,
     ti_confirmNonRefundable := True, ti_idempotencyKey := None, ti_penaltyQuote := quoted\<rparr>"

definition sample_penalty :: StoredPenaltyQuote where
  "sample_penalty = StoredQuotable \<lparr>sq_currency = ''EUR'', sq_sellMinor = 1000, sq_penaltyMinor = 400, sq_refundMinor = 600,
     sq_ruleDaysBeforeCheckin = None, sq_basis = BASIS_RULE, sq_evaluatedAt = [], sq_bookingVersion = None\<rparr>"

definition run_action :: "TransitionInput \<Rightarrow> BookingFile \<Rightarrow> BookingFile" where
  "run_action i f = (case transition_on id read_other f f i of Inr (f', _) \<Rightarrow> f' | Inl _ \<Rightarrow> f)"

definition sample_cancelling :: BookingFile where
  "sample_cancelling = run_action (sample_system systemRequestCancellation (Some sample_penalty)) (run_action (sample_system systemConfirm None) sample_created)"

definition sample_manager :: ActContext where
  "sample_manager = \<lparr>cx_userId = ''u9'', cx_access = \<lparr>vx_level = OPERATOR, vx_agencyId = None, vx_permissions = [''booking.penalty.waive.approve'']\<rparr>,
     cx_bookingId = ''b1'', cx_key = ''key-0001'', cx_requestId = ''r'', cx_fresh = ''m1'', cx_ledgerCharged = None, cx_now = 0\<rparr>"

definition sample_waived :: BookingFile where
  "sample_waived = (case penalty_tx id sample_manager 100 ''goodwill'' sample_cancelling of Inr (f, _) \<Rightarrow> f | Inl _ \<Rightarrow> sample_cancelling)"

definition sample_closed :: BookingFile where
  "sample_closed = run_action (sample_system systemCloseCancelled None) (run_action (sample_system systemCompleteCancellation None) sample_waived)"

lemma run_action_step:
  assumes "input_check (cleaned i) = Inr ()"
  shows "(booking_step id read_other)\<^sup>*\<^sup>* f (run_action i f)"
proof (cases "transition_on id read_other f f i")
  case (Inr x)
  then obtain f' out where "x = (f', out)" "transition_on id read_other f f i = Inr (f', out)" by (cases x) auto
  then show ?thesis using platform_step [OF assms] by (auto simp: run_action_def)
qed (simp add: run_action_def)

lemma sample_waived_step: "(booking_step id read_other)\<^sup>*\<^sup>* sample_cancelling sample_waived"
  by (auto simp: sample_waived_def split: sum.split intro: penalty_step)

lemma sample_inputs:
  "input_check (cleaned (sample_system systemConfirm None)) = Inr ()"
  "input_check (cleaned (sample_system systemRequestCancellation (Some sample_penalty))) = Inr ()"
  "input_check (cleaned (sample_system systemCompleteCancellation None)) = Inr ()"
  "input_check (cleaned (sample_system systemCloseCancelled None)) = Inr ()"
  by code_simp+

lemma sample_cancelling_reachable: "booking_reachable id read_other sample_cancelling"
proof -
  have "booking_reachable id read_other sample_created"
    by (rule reach_created) (simp add: created_file_def sample_created_def sample_file_def sample_row_def MAX_MINOR_def)
  then show ?thesis
    unfolding sample_cancelling_def by (intro run_reachable [OF run_action_step] sample_inputs)
qed

lemma sample_waived_reachable: "booking_reachable id read_other sample_waived"
  by (rule run_reachable [OF sample_waived_step sample_cancelling_reachable])

lemma sample_closed_reachable: "booking_reachable id read_other sample_closed"
  unfolding sample_closed_def by (intro run_reachable [OF run_action_step] sample_waived_reachable sample_inputs)

lemma sample_waived_state:
  "penalty_open (bk_status (bf_booking sample_cancelling))" "determined (booking_penalty sample_cancelling) = Some (400, 600)"
  "determined (booking_penalty sample_waived) = Some (100, 900)" "map fe_type (bf_finance sample_waived) = [FE_CONFIRMED, FE_PENALTY_WAIVED]"
  by code_simp+

lemma sample_closed_state:
  "bk_closedAt (bf_booking sample_closed) = Some 0" "map ev_toStatus (bf_events sample_closed) = [PENDING_SUPPLIER, CONFIRMED, CANCEL_REQUESTED, CANCELLED, CANCELLED]"
  by code_simp+



lemma finance_facts_consistent_witness: "inv_facts sample_waived \<and> map fe_type (bf_finance sample_waived) = [FE_CONFIRMED, FE_PENALTY_WAIVED]"
  using finance_facts_consistent [OF sample_waived_reachable] sample_waived_state(4) by blast


definition sample_noted :: BookingFile where
  "sample_noted = (case issue_on sample_manager CANCELLATION_NOTE sample_closed sample_closed of Inr (f, _) \<Rightarrow> f | Inl _ \<Rightarrow> sample_closed)"

lemma sample_noted_reachable: "booking_reachable id read_other sample_noted"
  by (auto simp: sample_noted_def split: sum.split intro: reach_step document_step sample_closed_reachable)


lemma waiver_four_eyes_witness: "inv_waivers sample_waived \<and> map fe_type (bf_finance sample_waived) = [FE_CONFIRMED, FE_PENALTY_WAIVED]"
  using waiver_four_eyes [OF sample_waived_reachable] sample_waived_state(4) by blast
end
