(* ===== verification/Inventory_Holds.thy ===== *)
theory Inventory_Holds
  imports Agency_Credit Time_Zones Js_Values Room_Sales
begin
text \<open>
  Inventory counters and the holds on them: \<open>inventory/inventory-counters.ts\<close>,
  \<open>agent/inventory-hold.service.ts\<close>, \<open>agent/agency-credit.ts\<close> and the database function
  \<open>fbeds_booking_release_cancelled_inventory\<close>. The tables are lists of rows of one tenant; a guarded update
  changes the rows that satisfy its condition and reports how many; a transaction is a function of the state, and
  one that throws leaves the state as it was. The identifiers of new rows, the hash and what \<open>Date.parse\<close> makes of
  texts that are not ISO instants are parameters. Row identifiers are not empty.
\<close>

subsection \<open>Rows\<close>

datatype CounterKind = PLAN_ROW | POOL_DAY | NO_COUNTER

record NightReservation =
  nr_availabilityId :: string
  nr_counterKind :: CounterKind
  nr_poolDayId :: "string option"

record HeldNight =
  hn_availabilityId :: string
  hn_counterKind :: CounterKind
  hn_poolDayId :: "string option"
  hn_quantity :: int

record HoldNightRow = HeldNight +
  hn_holdId :: string
  hn_stayDate :: int

record PlanRow =
  dr_id :: string
  dr_ratePlanId :: string
  dr_stayDate :: int
  dr_mode :: LegacyMode
  dr_stopSell :: bool
  dr_source :: string
  dr_freshUntil :: "int option"
  dr_allotment :: int
  dr_sold :: int
  dr_held :: int

record RatePlanRow =
  rp_id :: string
  rp_roomTypeId :: string
  rp_contractId :: string
  rp_poolId :: "string option"

record PoolRow =
  po_id :: string
  po_active :: bool

record PoolDayRow =
  pd_id :: string
  pd_poolId :: string
  pd_stayDate :: int
  pd_source :: string
  pd_freshUntil :: "int option"
  pd_capacity :: int
  pd_sold :: int
  pd_held :: int

record SalesRow =
  sr_roomTypeId :: string
  sr_stayDate :: int
  sr_poolKey :: string
  sr_planKey :: string
  sr_channelKey :: string
  sr_marketKey :: string
  sr_contractKey :: string
  sr_mode :: RoomSalesMode
  sr_salesCap :: "int option"
  sr_consumesInventory :: bool
  sr_overrideExpiresAt :: "int option"

datatype InventoryHoldStatus = PENDING_RECHECK | RECHECKED | HOLD_PENDING | HELD | PROCESSING | HOLD_CONFIRMED | RELEASED | EXPIRED | HOLD_FAILED

fun hold_status_text :: "InventoryHoldStatus \<Rightarrow> string" where
  "hold_status_text PENDING_RECHECK = ''PENDING_RECHECK''"
| "hold_status_text RECHECKED = ''RECHECKED''"
| "hold_status_text HOLD_PENDING = ''HOLD_PENDING''"
| "hold_status_text HELD = ''HELD''"
| "hold_status_text PROCESSING = ''PROCESSING''"
| "hold_status_text HOLD_CONFIRMED = ''CONFIRMED''"
| "hold_status_text RELEASED = ''RELEASED''"
| "hold_status_text EXPIRED = ''EXPIRED''"
| "hold_status_text HOLD_FAILED = ''FAILED''"

record HoldCommand =
  hc_userId :: string
  hc_requestId :: string
  hc_offerId :: string
  hc_searchId :: string
  hc_ratePlanId :: string
  hc_canonicalHotelId :: string
  hc_canonicalRoomTypeId :: string
  hc_boardBasisId :: string
  hc_checkIn :: string
  hc_checkOut :: string
  hc_rooms :: jsnum
  hc_currency :: string
  hc_sellAmountMinor :: jsnum
  hc_netAmountMinor :: "jsnum option"
  hc_offerExpiresAt :: string
  hc_idempotencyKey :: string

record InventoryHoldRow =
  ih_id :: string
  ih_ratePlanId :: string
  ih_canonicalHotelId :: string
  ih_rooms :: int
  ih_currency :: string
  ih_sellAmountMinor :: int
  ih_netAmountMinor :: "int option"
  ih_idempotencyKey :: string
  ih_requestFingerprint :: string
  ih_requestId :: string
  ih_createdByUserId :: string
  ih_status :: InventoryHoldStatus
  ih_expiresAt :: int
  ih_releasedAt :: "int option"

record HoldAudit =
  ha_userId :: "string option"
  ha_action :: string
  ha_entityId :: string
  ha_requestId :: string

record InventoryDb =
  iv_rows :: "PlanRow list"
  iv_plans :: "RatePlanRow list"
  iv_pools :: "PoolRow list"
  iv_poolDays :: "PoolDayRow list"
  iv_rules :: "SalesRow list"
  iv_holds :: "InventoryHoldRow list"
  iv_nights :: "HoldNightRow list"
  iv_ledger :: wl_state
  iv_members :: "member_row list"
  iv_audits :: "HoldAudit list"

subsection \<open>Counters\<close>

definition rowIsFresh :: "string \<Rightarrow> int option \<Rightarrow> int \<Rightarrow> bool" where
  "rowIsFresh source freshUntil now = (case freshUntil of None \<Rightarrow> \<not> startsWith source ''SUPPLIER_'' | Some u \<Rightarrow> now < u)"

definition no_inventory :: "'a http" where
  "no_inventory = Inl (Conflict ''Inventory unavailable'')"

definition bad_hold_state :: "'a http" where
  "bad_hold_state = Inl (Conflict ''Inventory hold state is inconsistent'')"

record ReserveInput =
  ri_ratePlanId :: string
  ri_stayDate :: int
  ri_rooms :: jsnum
  ri_channel :: string
  ri_market :: string

definition plan_rows_of :: "InventoryDb \<Rightarrow> ReserveInput \<Rightarrow> (PlanRow \<times> RatePlanRow) list" where
  "plan_rows_of db i = filter (\<lambda>(r, p). dr_ratePlanId r = ri_ratePlanId i \<and> dr_stayDate r = ri_stayDate i \<and> rp_id p = dr_ratePlanId r)
     (List.product (iv_rows db) (iv_plans db))"

definition pool_key :: "RatePlanRow \<Rightarrow> string" where
  "pool_key p = (case rp_poolId p of None \<Rightarrow> [] | Some x \<Rightarrow> x)"

definition sales_rules :: "InventoryDb \<Rightarrow> int \<Rightarrow> ReserveInput \<Rightarrow> RatePlanRow \<Rightarrow> SalesRow list" where
  "sales_rules db now i p = filter (\<lambda>r. sr_roomTypeId r = rp_roomTypeId p \<and> sr_stayDate r = ri_stayDate i
     \<and> (sr_poolKey r = [] \<or> sr_poolKey r = pool_key p) \<and> (sr_planKey r = [] \<or> sr_planKey r = rp_id p)
     \<and> (sr_channelKey r = [] \<or> sr_channelKey r = ri_channel i) \<and> (sr_marketKey r = [] \<or> sr_marketKey r = ri_market i)
     \<and> (sr_contractKey r = [] \<or> sr_contractKey r = rp_contractId p)
     \<and> (case sr_overrideExpiresAt r of None \<Rightarrow> True | Some t \<Rightarrow> t > now)) (iv_rules db)"

definition sales_cap :: "SalesRow list \<Rightarrow> int option" where
  "sales_cap rules =
     (case map (\<lambda>r. the (sr_salesCap r)) (filter (\<lambda>r. sr_mode r = LIMITED \<and> sr_salesCap r \<noteq> None) rules) of
        [] \<Rightarrow> None
      | c # cs \<Rightarrow> Some (foldl min c cs))"

definition fits :: "int \<Rightarrow> int \<Rightarrow> int \<Rightarrow> int \<Rightarrow> int option \<Rightarrow> bool" where
  "fits sold held q limit cap \<longleftrightarrow> sold + held + q \<le> limit \<and> (case cap of None \<Rightarrow> True | Some c \<Rightarrow> sold + held + q \<le> c)"

definition pool_day_takes :: "InventoryDb \<Rightarrow> int \<Rightarrow> string \<Rightarrow> int \<Rightarrow> int \<Rightarrow> int option \<Rightarrow> PoolDayRow \<Rightarrow> bool" where
  "pool_day_takes db now poolId stayDate q cap d \<longleftrightarrow> pd_poolId d = poolId \<and> pd_stayDate d = stayDate
     \<and> (\<exists>p \<in> set (iv_pools db). po_id p = pd_poolId d \<and> po_active p)
     \<and> (case pd_freshUntil d of None \<Rightarrow> pd_source d \<notin> {''SUPPLIER_API'', ''SUPPLIER_FEED''} | Some u \<Rightarrow> u > now)
     \<and> fits (pd_sold d) (pd_held d) q (pd_capacity d) cap"

definition plan_row_takes :: "string \<Rightarrow> int \<Rightarrow> int option \<Rightarrow> PlanRow \<Rightarrow> bool" where
  "plan_row_takes rowId q cap r \<longleftrightarrow> dr_id r = rowId \<and> \<not> dr_stopSell r \<and> fits (dr_sold r) (dr_held r) q (dr_allotment r) cap"

definition change_pool_days :: "(PoolDayRow \<Rightarrow> bool) \<Rightarrow> (PoolDayRow \<Rightarrow> PoolDayRow) \<Rightarrow> InventoryDb \<Rightarrow> InventoryDb" where
  "change_pool_days P f db = db\<lparr>iv_poolDays := map (\<lambda>d. if P d then f d else d) (iv_poolDays db)\<rparr>"

definition change_plan_rows :: "(PlanRow \<Rightarrow> bool) \<Rightarrow> (PlanRow \<Rightarrow> PlanRow) \<Rightarrow> InventoryDb \<Rightarrow> InventoryDb" where
  "change_plan_rows P f db = db\<lparr>iv_rows := map (\<lambda>r. if P r then f r else r) (iv_rows db)\<rparr>"

text \<open>The counter of the pool day, or of the plan's own row: the guarded updates that take \<open>q\<close> units.\<close>

definition take_units :: "int \<Rightarrow> ReserveInput \<Rightarrow> PlanRow \<Rightarrow> RatePlanRow \<Rightarrow> int \<Rightarrow> int option \<Rightarrow> InventoryDb \<Rightarrow> (InventoryDb \<times> NightReservation) http" where
  "take_units now i row plan q cap db =
     (if pool_key plan \<noteq> [] then
        let takes = pool_day_takes db now (pool_key plan) (ri_stayDate i) q cap in
        (case filter takes (iv_poolDays db) of
           [d] \<Rightarrow> Inr (change_pool_days takes (\<lambda>d. d\<lparr>pd_held := pd_held d + q\<rparr>) db,
                      \<lparr>nr_availabilityId = dr_id row, nr_counterKind = POOL_DAY, nr_poolDayId = Some (pd_id d)\<rparr>)
         | _ \<Rightarrow> no_inventory)
      else
        let takes = plan_row_takes (dr_id row) q cap in
        if length (filter takes (iv_rows db)) \<noteq> 1 then no_inventory
        else Inr (change_plan_rows takes (\<lambda>r. r\<lparr>dr_held := dr_held r + q\<rparr>) db,
                  \<lparr>nr_availabilityId = dr_id row, nr_counterKind = PLAN_ROW, nr_poolDayId = None\<rparr>))"

definition reserveNight :: "int \<Rightarrow> ReserveInput \<Rightarrow> InventoryDb \<Rightarrow> (InventoryDb \<times> NightReservation) http" where
  "reserveNight now i db =
     (if \<not> isSafeInteger (ri_rooms i) \<or> int_of_num (ri_rooms i) < 1 then no_inventory
      else case plan_rows_of db i of
        [(row, plan)] \<Rightarrow>
          if dr_stopSell row \<or> \<not> rowIsFresh (dr_source row) (dr_freshUntil row) now then no_inventory
          else let rules = sales_rules db now i plan; cap = sales_cap rules in
            if \<exists>r \<in> set rules. sr_mode r = STOP_SALE \<or> sr_mode r = RoomSalesMode.ON_REQUEST then no_inventory
            else if dr_mode row = LegacyMode.FREE_SALE \<and> \<not> (\<exists>r \<in> set rules. sr_consumesInventory r) \<and> cap = None
              then Inr (db, \<lparr>nr_availabilityId = dr_id row, nr_counterKind = NO_COUNTER, nr_poolDayId = None\<rparr>)
            else if dr_mode row \<noteq> ALLOTMENT \<and> dr_mode row \<noteq> LegacyMode.FREE_SALE then no_inventory
            else take_units now i row plan (int_of_num (ri_rooms i)) cap db
      | _ \<Rightarrow> no_inventory)"

datatype Move = MoveRelease | MoveConfirm | MoveCancel

definition move_pool_day :: "Move \<Rightarrow> int \<Rightarrow> PoolDayRow \<Rightarrow> PoolDayRow" where
  "move_pool_day m q d =
     (case m of
        MoveRelease \<Rightarrow> d\<lparr>pd_held := pd_held d - q\<rparr>
      | MoveConfirm \<Rightarrow> d\<lparr>pd_held := pd_held d - q, pd_sold := pd_sold d + q\<rparr>
      | MoveCancel \<Rightarrow> d\<lparr>pd_sold := pd_sold d - q\<rparr>)"

definition move_plan_row :: "Move \<Rightarrow> int \<Rightarrow> PlanRow \<Rightarrow> PlanRow" where
  "move_plan_row m q r =
     (case m of
        MoveRelease \<Rightarrow> r\<lparr>dr_held := dr_held r - q\<rparr>
      | MoveConfirm \<Rightarrow> r\<lparr>dr_held := dr_held r - q, dr_sold := dr_sold r + q\<rparr>
      | MoveCancel \<Rightarrow> r\<lparr>dr_sold := dr_sold r - q\<rparr>)"

definition counter_has :: "Move \<Rightarrow> int \<Rightarrow> int \<Rightarrow> int \<Rightarrow> bool" where
  "counter_has m q held sold \<longleftrightarrow> (if m = MoveCancel then sold \<ge> q else held \<ge> q)"

definition moveNight :: "Move \<Rightarrow> InventoryDb \<Rightarrow> 'a HeldNight_scheme \<Rightarrow> InventoryDb http" where
  "moveNight m db n =
     (let q = hn_quantity n; failed = (if m = MoveCancel then Inl (Conflict ''Inventory state is inconsistent'') else bad_hold_state) in
      case hn_counterKind n of
        NO_COUNTER \<Rightarrow> Inr db
      | POOL_DAY \<Rightarrow>
          if hn_poolDayId n = None \<or> hn_poolDayId n = Some [] then bad_hold_state
          else let moves = (\<lambda>d. Some (pd_id d) = hn_poolDayId n \<and> counter_has m q (pd_held d) (pd_sold d)) in
            if length (filter moves (iv_poolDays db)) \<noteq> 1 then failed else Inr (change_pool_days moves (move_pool_day m q) db)
      | PLAN_ROW \<Rightarrow>
          let moves = (\<lambda>r. dr_id r = hn_availabilityId n \<and> counter_has m q (dr_held r) (dr_sold r)) in
          if length (filter moves (iv_rows db)) \<noteq> 1 then failed else Inr (change_plan_rows moves (move_plan_row m q) db))"

subsection \<open>Credit check of a hold\<close>

definition credit_view :: "string \<Rightarrow> InventoryDb \<Rightarrow> credit_db" where
  "credit_view t db = \<lparr>cd_ledger = iv_ledger db, cd_members = iv_members db,
     cd_holds = map (\<lambda>h. \<lparr>hd_tenantId = t, hd_currency = ih_currency h, hd_createdByUserId = ih_createdByUserId h,
       hd_status = hold_status_text (ih_status h), hd_expiresAt = ih_expiresAt h, hd_sellAmountMinor = ih_sellAmountMinor h\<rparr>) (iv_holds db)\<rparr>"

text \<open>
  \<open>assertAgencyCredit\<close> answers whether the shadow mode leaves an audit event, and for which agency. An exception that
  is not an HTTP one becomes the unavailable answer.
\<close>

definition agency_funds_check :: "risk_mode \<Rightarrow> string \<Rightarrow> string \<Rightarrow> string \<Rightarrow> int \<Rightarrow> int \<Rightarrow> credit_db \<Rightarrow> string option http" where
  "agency_funds_check mode t agencyId cur amount now cdb =
     ebind (case agency_wallet cdb t agencyId cur of None \<Rightarrow> Inr () | Some w \<Rightarrow> lockWalletRow (cd_ledger cdb) t (wa_id w)) (\<lambda>_.
       let position = agencyPosition cdb t agencyId cur now in
       ebind (assertNotOverdue (accountAging cdb t (ps_accountId position) now)) (\<lambda>_.
       ebind (enforceCreditRisk mode cdb t agencyId cur now amount HOLD_SCOPE) (\<lambda>shadow.
         if amount > ps_availableMinor position then Inl (Forbidden ''AGENCY_CREDIT_LIMIT_EXCEEDED'')
         else Inr (map_option (\<lambda>_. agencyId) shadow))))"

definition assertAgencyCredit :: "risk_mode \<Rightarrow> string \<Rightarrow> string \<Rightarrow> string \<Rightarrow> int \<Rightarrow> int \<Rightarrow> credit_db \<Rightarrow> string option http" where
  "assertAgencyCredit mode t userId cur amount now cdb =
     (case find (\<lambda>m. mb_tenantId m = t \<and> mb_userId m = userId) (cd_members cdb) of
        None \<Rightarrow> Inr None
      | Some m \<Rightarrow>
          (case agency_funds_check mode t (mb_agencyId m) cur amount now cdb of
             Inl (ServerError e) \<Rightarrow> Inl (ServiceUnavailable ''AGENCY_CREDIT_UNAVAILABLE'')
           | r \<Rightarrow> r))"

subsection \<open>Placing a hold\<close>

definition stay_start :: "(string \<Rightarrow> int option) \<Rightarrow> string \<Rightarrow> int option" where
  "stay_start other day = date_parse other (day @ ''T00:00:00.000Z'')"

definition stayDates :: "(string \<Rightarrow> int option) \<Rightarrow> string \<Rightarrow> string \<Rightarrow> int list http" where
  "stayDates other checkIn checkOut =
     (if \<not> date_shape checkIn \<or> \<not> date_shape checkOut then Inl (BadRequest ''Invalid stay dates'')
      else case (stay_start other checkIn, stay_start other checkOut) of
        (Some start, Some finish) \<Rightarrow>
          if finish \<le> start then Inl (BadRequest ''Invalid stay dates'')
          else let nights = (2 * (finish - start) + MS_PER_DAY) div (2 * MS_PER_DAY) in
            if nights < 1 \<or> nights > 30 then Inl (BadRequest ''Invalid stay length'')
            else Inr (map (\<lambda>k. start + int k * MS_PER_DAY) [0..<nat nights])
      | _ \<Rightarrow> Inl (BadRequest ''Invalid stay dates''))"

definition holdFingerprint :: "(string \<Rightarrow> string) \<Rightarrow> HoldCommand \<Rightarrow> string" where
  "holdFingerprint sha256 c = sha256 (json_text (JObj
     ([(''offerId'', JStr (hc_offerId c)), (''searchId'', JStr (hc_searchId c)), (''ratePlanId'', JStr (hc_ratePlanId c)),
       (''canonicalHotelId'', JStr (hc_canonicalHotelId c)), (''canonicalRoomTypeId'', JStr (hc_canonicalRoomTypeId c)),
       (''boardBasisId'', JStr (hc_boardBasisId c)), (''checkIn'', JStr (hc_checkIn c)), (''checkOut'', JStr (hc_checkOut c)),
       (''rooms'', JNum (hc_rooms c)), (''currency'', JStr (hc_currency c)), (''sellAmountMinor'', JNum (hc_sellAmountMinor c))]
      @ (case hc_netAmountMinor c of None \<Rightarrow> [] | Some n \<Rightarrow> [(''netAmountMinor'', JNum n)])
      @ [(''offerExpiresAt'', JStr (hc_offerExpiresAt c))])))"

definition hold_key_char :: "char \<Rightarrow> bool" where
  "hold_key_char c \<longleftrightarrow> is_upper c \<or> is_lower c \<or> is_digit c \<or> c \<in> set ''._:-''"

definition idempotency_key_ok :: "string \<Rightarrow> bool" where
  "idempotency_key_ok key \<longleftrightarrow> 8 \<le> length key \<and> length key \<le> 128 \<and> list_all hold_key_char key"

definition hold_validate :: "string option \<Rightarrow> (string \<Rightarrow> int option) \<Rightarrow> string \<Rightarrow> int \<Rightarrow> HoldCommand \<Rightarrow> int http" where
  "hold_validate env other t now c =
     (if \<exists>v \<in> set [t, hc_userId c, hc_requestId c, hc_offerId c, hc_searchId c, hc_ratePlanId c, hc_canonicalHotelId c, hc_canonicalRoomTypeId c,
                  hc_boardBasisId c]. v = [] \<or> trim v \<noteq> v then Inl (BadRequest ''Invalid hold command'')
      else if \<not> idempotency_key_ok (hc_idempotencyKey c) then Inl (BadRequest ''Invalid idempotency key'')
      else if \<not> isSafeInteger (hc_rooms c) \<or> int_of_num (hc_rooms c) < 1 \<or> int_of_num (hc_rooms c) > 8 then Inl (BadRequest ''Invalid room quantity'')
      else if \<not> isSafeInteger (hc_sellAmountMinor c) \<or> int_of_num (hc_sellAmountMinor c) < 0 then Inl (BadRequest ''Invalid sell amount'')
      else if (case hc_netAmountMinor c of None \<Rightarrow> False
               | Some n \<Rightarrow> \<not> isSafeInteger n \<or> int_of_num n < 1 \<or> int_of_num n > int_of_num (hc_sellAmountMinor c)) then Inl (BadRequest ''Invalid supplier net'')
      else ebind (assertSupportedSettlementCurrency env (hc_currency c)) (\<lambda>_.
           ebind (stayDates other (hc_checkIn c) (hc_checkOut c)) (\<lambda>_.
             case date_parse other (hc_offerExpiresAt c) of
               None \<Rightarrow> Inl (Conflict ''Offer expired'')
             | Some expires \<Rightarrow> if expires \<le> now then Inl (Conflict ''Offer expired'') else Inr expires)))"

record HoldResponse =
  hr_holdId :: string
  hr_requestId :: string
  hr_already :: bool
  hr_expiresAt :: int
  hr_currency :: string
  hr_sellAmountMinor :: int

definition hold_response :: "InventoryHoldRow \<Rightarrow> bool \<Rightarrow> HoldResponse http" where
  "hold_response h already =
     (if \<not> safe_int (ih_sellAmountMinor h) then Inl (Conflict ''Hold amount cannot be represented safely'')
      else Inr \<lparr>hr_holdId = ih_id h, hr_requestId = ih_requestId h, hr_already = already, hr_expiresAt = ih_expiresAt h,
                hr_currency = ih_currency h, hr_sellAmountMinor = ih_sellAmountMinor h\<rparr>)"

definition existing_hold :: "InventoryHoldRow \<Rightarrow> string \<Rightarrow> HoldResponse http" where
  "existing_hold h fingerprint =
     (if ih_requestFingerprint h \<noteq> fingerprint then Inl (Conflict ''Idempotency key conflicts with another request'')
      else if ih_status h \<noteq> HELD then Inl (Conflict ''Idempotent hold is no longer active'')
      else hold_response h True)"

definition hold_of_key :: "InventoryDb \<Rightarrow> string \<Rightarrow> InventoryHoldRow option" where
  "hold_of_key db key = find (\<lambda>h. ih_idempotencyKey h = key) (iv_holds db)"

definition hold_audit :: "string option \<Rightarrow> string \<Rightarrow> string \<Rightarrow> string \<Rightarrow> InventoryDb \<Rightarrow> InventoryDb" where
  "hold_audit userId action entityId requestId db =
     db\<lparr>iv_audits := iv_audits db @ [\<lparr>ha_userId = userId, ha_action = action, ha_entityId = entityId, ha_requestId = requestId\<rparr>]\<rparr>"

definition new_hold :: "string \<Rightarrow> string \<Rightarrow> int \<Rightarrow> HoldCommand \<Rightarrow> InventoryHoldRow" where
  "new_hold newId fingerprint expiresAt c =
     \<lparr>ih_id = newId, ih_ratePlanId = hc_ratePlanId c, ih_canonicalHotelId = hc_canonicalHotelId c, ih_rooms = int_of_num (hc_rooms c),
      ih_currency = hc_currency c, ih_sellAmountMinor = int_of_num (hc_sellAmountMinor c), ih_netAmountMinor = map_option int_of_num (hc_netAmountMinor c),
      ih_idempotencyKey = hc_idempotencyKey c, ih_requestFingerprint = fingerprint, ih_requestId = hc_requestId c, ih_createdByUserId = hc_userId c,
      ih_status = HOLD_PENDING, ih_expiresAt = expiresAt, ih_releasedAt = None\<rparr>"

definition reserve_date :: "int \<Rightarrow> string \<Rightarrow> HoldCommand \<Rightarrow> InventoryDb \<Rightarrow> int \<Rightarrow> InventoryDb http" where
  "reserve_date now holdId c db day =
     ebind (reserveNight now \<lparr>ri_ratePlanId = hc_ratePlanId c, ri_stayDate = day, ri_rooms = hc_rooms c, ri_channel = ''PORTAL'', ri_market = []\<rparr> db) (\<lambda>(db', r).
       Inr (db'\<lparr>iv_nights := iv_nights db' @ [\<lparr>hn_availabilityId = nr_availabilityId r, hn_counterKind = nr_counterKind r, hn_poolDayId = nr_poolDayId r,
                  hn_quantity = int_of_num (hc_rooms c), hn_holdId = holdId, hn_stayDate = day\<rparr>]\<rparr>))"

definition set_hold :: "string \<Rightarrow> (InventoryHoldRow \<Rightarrow> InventoryHoldRow) \<Rightarrow> InventoryDb \<Rightarrow> InventoryDb" where
  "set_hold holdId f db = db\<lparr>iv_holds := map (\<lambda>h. if ih_id h = holdId then f h else h) (iv_holds db)\<rparr>"

definition place_hold ::
  "(string \<Rightarrow> int option) \<Rightarrow> int \<Rightarrow> string \<Rightarrow> string \<Rightarrow> int \<Rightarrow> HoldCommand \<Rightarrow> InventoryDb \<Rightarrow> (InventoryDb \<times> HoldResponse) http" where
  "place_hold other now newId fingerprint expires c db =
     (let h = new_hold newId fingerprint (min expires (now + 15 * 60000)) c in
      ebind (stayDates other (hc_checkIn c) (hc_checkOut c)) (\<lambda>days.
      ebind (efold (reserve_date now newId c) (db\<lparr>iv_holds := iv_holds db @ [h]\<rparr>) days) (\<lambda>db'.
      ebind (hold_response (h\<lparr>ih_status := HELD\<rparr>) False) (\<lambda>r.
        Inr (hold_audit (Some (hc_userId c)) ''inventory.hold.created'' newId (hc_requestId c) (set_hold newId (\<lambda>h. h\<lparr>ih_status := HELD\<rparr>) db'), r)))))"

text \<open>\<open>seen\<close> is the state the transaction read first, \<open>db\<close> the one it writes to: the unique key is the database's.\<close>

definition create_hold ::
  "string option \<Rightarrow> (string \<Rightarrow> string) \<Rightarrow> (string \<Rightarrow> int option) \<Rightarrow> risk_mode \<Rightarrow> string \<Rightarrow> int \<Rightarrow> string \<Rightarrow> HoldCommand \<Rightarrow> InventoryDb \<Rightarrow> InventoryDb
    \<Rightarrow> (InventoryDb \<times> HoldResponse) http" where
  "create_hold env sha256 other mode t now newId c seen db =
     ebind (hold_validate env other t now c) (\<lambda>expires.
       let fingerprint = holdFingerprint sha256 c in
       case hold_of_key seen (hc_idempotencyKey c) of
         Some h \<Rightarrow> ebind (existing_hold h fingerprint) (\<lambda>r. Inr (db, r))
       | None \<Rightarrow>
           ebind (assertAgencyCredit mode t (hc_userId c) (hc_currency c) (int_of_num (hc_sellAmountMinor c)) now (credit_view t db)) (\<lambda>shadow.
             case hold_of_key db (hc_idempotencyKey c) of
               Some h \<Rightarrow> ebind (existing_hold h fingerprint) (\<lambda>r. Inr (db, r))
             | None \<Rightarrow> place_hold other now newId fingerprint expires c
                 (case shadow of None \<Rightarrow> db | Some agencyId \<Rightarrow> hold_audit (Some (hc_userId c)) ''credit.risk.would_pause'' agencyId [] db)))"

subsection \<open>Claiming and returning a hold\<close>

definition find_hold :: "InventoryDb \<Rightarrow> string \<Rightarrow> InventoryHoldRow option" where
  "find_hold db holdId = find (\<lambda>h. ih_id h = holdId) (iv_holds db)"

definition beginProcessing :: "int \<Rightarrow> string \<Rightarrow> string \<Rightarrow> string \<Rightarrow> InventoryDb \<Rightarrow> InventoryDb http" where
  "beginProcessing now holdId requestId userId db =
     (case find_hold db holdId of
        None \<Rightarrow> Inl (Conflict ''Inventory hold is no longer active'')
      | Some h \<Rightarrow>
          if ih_status h = HELD \<and> ih_expiresAt h > now
          then Inr (hold_audit (Some userId) ''inventory.hold.processing'' holdId requestId (set_hold holdId (\<lambda>h. h\<lparr>ih_status := PROCESSING\<rparr>) db))
          else if ih_status h = PROCESSING then Inr db
          else Inl (Conflict ''Inventory hold is no longer active''))"

definition nights_of :: "InventoryDb \<Rightarrow> string \<Rightarrow> HoldNightRow list" where
  "nights_of db holdId = filter (\<lambda>n. hn_holdId n = holdId) (iv_nights db)"

definition nights_by_date :: "InventoryDb \<Rightarrow> string \<Rightarrow> HoldNightRow list" where
  "nights_by_date db holdId = sort_key hn_stayDate (nights_of db holdId)"

definition release_hold :: "int \<Rightarrow> string \<Rightarrow> string \<Rightarrow> string option \<Rightarrow> bool \<Rightarrow> bool \<Rightarrow> InventoryDb \<Rightarrow> InventoryDb http" where
  "release_hold now holdId requestId userId expired heldOnly db =
     (case find_hold db holdId of
        None \<Rightarrow> Inr db
      | Some h \<Rightarrow>
          if ih_status h \<noteq> HELD \<and> (ih_status h \<noteq> PROCESSING \<or> expired \<or> heldOnly) then Inr db
          else ebind (efold (moveNight MoveRelease)
                 (set_hold holdId (\<lambda>h. h\<lparr>ih_status := (if expired then EXPIRED else RELEASED), ih_releasedAt := Some now\<rparr>) db) (nights_by_date db holdId)) (\<lambda>db'.
               Inr (hold_audit userId (if expired then ''inventory.hold.expired'' else ''inventory.hold.released'') holdId requestId db')))"

definition own_hold :: "InventoryDb \<Rightarrow> string \<Rightarrow> string \<Rightarrow> InventoryHoldStatus option" where
  "own_hold db holdId userId =
     map_option ih_status (find (\<lambda>h. ih_id h = holdId \<and> ih_createdByUserId h = userId) (iv_holds db))"

definition releaseOwn :: "int \<Rightarrow> string \<Rightarrow> string \<Rightarrow> string \<Rightarrow> InventoryDb \<Rightarrow> InventoryDb \<times> InventoryHoldStatus http" where
  "releaseOwn now holdId userId requestId db =
     (case own_hold db holdId userId of
        None \<Rightarrow> (db, Inl (NotFound ''Inventory hold not found''))
      | Some s \<Rightarrow>
          if s = RELEASED \<or> s = EXPIRED then (db, Inr s)
          else if s \<noteq> HELD then (db, Inl (Conflict ''Inventory hold can no longer be released''))
          else case release_hold now holdId requestId (Some userId) False True db of
            Inl e \<Rightarrow> (db, Inl e)
          | Inr db' \<Rightarrow>
              (db', (case own_hold db' holdId userId of
                       Some s' \<Rightarrow> if s' = RELEASED \<or> s' = EXPIRED then Inr s' else Inl (Conflict ''Inventory hold can no longer be released'')
                     | None \<Rightarrow> Inl (Conflict ''Inventory hold can no longer be released''))))"

text \<open>The sweep returns each lapsed hold in a transaction of its own; the first that fails ends it.\<close>

definition due_holds :: "int \<Rightarrow> InventoryDb \<Rightarrow> string list" where
  "due_holds now db = map ih_id (take 100 (sort_key ih_expiresAt (filter (\<lambda>h. ih_status h = HELD \<and> ih_expiresAt h \<le> now) (iv_holds db))))"

fun expire_each :: "int \<Rightarrow> string list \<Rightarrow> InventoryDb \<Rightarrow> InventoryDb \<times> unit http" where
  "expire_each now [] db = (db, Inr ())"
| "expire_each now (holdId # ids) db =
     (case release_hold now holdId (''expiry:'' @ holdId) None True False db of
        Inl e \<Rightarrow> (db, Inl e)
      | Inr db' \<Rightarrow> expire_each now ids db')"

definition expireDue :: "int \<Rightarrow> InventoryDb \<Rightarrow> InventoryDb \<times> nat http" where
  "expireDue now db =
     (let ids = due_holds now db; (db', r) = expire_each now ids db in (db', ebind r (\<lambda>_. Inr (length ids))))"

subsection \<open>Selling and returning a booking's rooms\<close>

text \<open>The inventory part of a confirmation and of an agent's cancellation (\<open>booking-confirmation.service.ts\<close>,
  \<open>booking-cancellation.service.ts\<close>).\<close>

definition confirm_inventory :: "string \<Rightarrow> InventoryDb \<Rightarrow> InventoryDb http" where
  "confirm_inventory holdId db =
     (if nights_of db holdId = [] then Inl (Conflict ''Inventory hold has no nights'')
      else ebind (efold (moveNight MoveConfirm) db (nights_of db holdId)) (\<lambda>db'. Inr (set_hold holdId (\<lambda>h. h\<lparr>ih_status := HOLD_CONFIRMED\<rparr>) db')))"

definition cancel_inventory :: "int \<Rightarrow> string \<Rightarrow> InventoryDb \<Rightarrow> InventoryDb http" where
  "cancel_inventory now holdId db =
     (if nights_of db holdId = [] then Inl (Conflict ''Booking has no inventory record'')
      else ebind (efold (moveNight MoveCancel) db (nights_of db holdId))
             (\<lambda>db'. Inr (set_hold holdId (\<lambda>h. h\<lparr>ih_status := RELEASED, ih_releasedAt := Some now\<rparr>) db')))"

text \<open>The database function called when the operations module cancels a booking; an exception of it is a server error.\<close>

definition raise_exception :: "string \<Rightarrow> 'a http" where
  "raise_exception m = Inl (ServerError m)"

definition return_night :: "InventoryDb \<Rightarrow> HoldNightRow \<Rightarrow> InventoryDb http" where
  "return_night db n =
     (if hn_quantity n < 1 then raise_exception ''Invalid inventory quantity''
      else if hn_counterKind n = NO_COUNTER then Inr db
      else if \<not> (\<exists>r \<in> set (iv_rows db). dr_id r = hn_availabilityId n) then raise_exception ''Inventory row missing''
      else let moved = (if hn_counterKind n = POOL_DAY
              then let moves = (\<lambda>d. Some (pd_id d) = hn_poolDayId n \<and> pd_sold d \<ge> hn_quantity n) in
                (length (filter moves (iv_poolDays db)), change_pool_days moves (move_pool_day MoveCancel (hn_quantity n)) db)
              else let moves = (\<lambda>r. dr_id r = hn_availabilityId n \<and> dr_sold r \<ge> hn_quantity n) in
                (length (filter moves (iv_rows db)), change_plan_rows moves (move_plan_row MoveCancel (hn_quantity n)) db)) in
        if fst moved \<noteq> 1 then raise_exception ''Inventory counter inconsistent'' else Inr (snd moved))"

definition release_cancelled_inventory :: "int \<Rightarrow> bool \<Rightarrow> string option \<Rightarrow> string \<Rightarrow> string option \<Rightarrow> InventoryDb \<Rightarrow> InventoryDb http" where
  "release_cancelled_inventory now cancelled holdId hotelId ratePlanId db =
     (if \<not> cancelled then raise_exception ''Cancelled booking required''
      else case holdId of
        None \<Rightarrow> Inr db
      | Some holdId \<Rightarrow>
          (case find_hold db holdId of
             None \<Rightarrow> raise_exception ''Inventory hold is inconsistent''
           | Some h \<Rightarrow>
               if ih_canonicalHotelId h \<noteq> hotelId \<or> Some (ih_ratePlanId h) \<noteq> ratePlanId then raise_exception ''Inventory hold is inconsistent''
               else if ih_status h = RELEASED then Inr db
               else if ih_status h \<noteq> HOLD_CONFIRMED then raise_exception ''Confirmed inventory required''
               else if nights_of db holdId = [] then raise_exception ''Inventory nights missing''
               else ebind (efold return_night db (sort_key hn_stayDate (sort_key hn_availabilityId (nights_of db holdId))))
                      (\<lambda>db'. Inr (set_hold holdId (\<lambda>h. h\<lparr>ih_status := RELEASED, ih_releasedAt := Some now\<rparr>) db'))))"

end
