(* ===== verification/Inventory_Stock.thy ===== *)
theory Inventory_Stock
  imports Inventory_Holds
begin
text \<open>
  What holds of the counters of \<open>Inventory_Holds\<close>: every counter shows exactly the rooms of the holds on it, held and sold
  apart, and never passes its limit, whatever order holds are placed, claimed, returned, expired, confirmed and
  cancelled in and however the stock is edited between.
\<close>

subsection \<open>Counters, abstractly\<close>

datatype counter = OnRow string | OnDay string

text \<open>What a counter shows: rooms held, rooms sold and its limit.\<close>

fun counts :: "InventoryDb \<Rightarrow> counter \<Rightarrow> (int \<times> int \<times> int) option" where
  "counts db (OnRow i) = map_option (\<lambda>r. (dr_held r, dr_sold r, dr_allotment r)) (find (\<lambda>r. dr_id r = i) (iv_rows db))"
| "counts db (OnDay i) = map_option (\<lambda>d. (pd_held d, pd_sold d, pd_capacity d)) (find (\<lambda>d. pd_id d = i) (iv_poolDays db))"

definition counter_of :: "'a HeldNight_scheme \<Rightarrow> counter option" where
  "counter_of n = (case hn_counterKind n of NO_COUNTER \<Rightarrow> None | PLAN_ROW \<Rightarrow> Some (OnRow (hn_availabilityId n)) | POOL_DAY \<Rightarrow> map_option OnDay (hn_poolDayId n))"

definition ids_distinct :: "InventoryDb \<Rightarrow> bool" where
  "ids_distinct db \<longleftrightarrow> distinct (map dr_id (iv_rows db)) \<and> distinct (map pd_id (iv_poolDays db)) \<and> [] \<notin> set (map pd_id (iv_poolDays db))"

definition same_tables :: "InventoryDb \<Rightarrow> InventoryDb \<Rightarrow> bool" where
  "same_tables db db' \<longleftrightarrow> iv_holds db' = iv_holds db \<and> iv_nights db' = iv_nights db"

definition moved_count :: "Move \<Rightarrow> int \<Rightarrow> int \<times> int \<times> int \<Rightarrow> int \<times> int \<times> int" where
  "moved_count m q = (\<lambda>(held, sold, limit).
     case m of MoveRelease \<Rightarrow> (held - q, sold, limit) | MoveConfirm \<Rightarrow> (held - q, sold + q, limit) | MoveCancel \<Rightarrow> (held, sold - q, limit))"

lemma find_map_other:
  "(\<And>x. key (f x) = key x) \<Longrightarrow> find (\<lambda>x. key x = i) (map (\<lambda>x. if P x then f x else x) xs)
     = map_option (\<lambda>x. if P x then f x else x) (find (\<lambda>x. key x = i) xs)"
  by (induction xs) auto

text \<open>A guarded update with a key reaches the row of the key, if its guard holds.\<close>

lemma one_hit:
  assumes "distinct (map key xs)"
  shows "length (filter (\<lambda>x. key x = i \<and> G x) xs) = 1 \<longleftrightarrow> (\<exists>x. find (\<lambda>x. key x = i) xs = Some x \<and> G x)"
  using assms
proof (induction xs)
  case (Cons y ys)
  show ?case
  proof (cases "key y = i")
    case True
    have "key x \<noteq> i" if "x \<in> set ys" for x using Cons.prems True imageI [OF that, of key] by auto
    then have "filter (\<lambda>x. key x = i \<and> G x) ys = []" by (simp add: filter_empty_conv)
    then show ?thesis using True by simp
  next
    case False
    then show ?thesis using Cons by simp
  qed
qed simp

lemma map_fst_key: "(\<And>x. key (f x) = key x) \<Longrightarrow> map key (map (\<lambda>x. if P x then f x else x) xs) = map key xs"
  by (induction xs) auto

lemma move_keys [simp]: "dr_id (move_plan_row m q r) = dr_id r" "pd_id (move_pool_day m q d) = pd_id d"
  by (cases m; simp add: move_plan_row_def move_pool_day_def)+

lemma change_plan_counts:
  assumes "\<And>r. dr_id (f r) = dr_id r"
  shows "counts (change_plan_rows P f db) (OnDay j) = counts db (OnDay j)"
    and "counts (change_plan_rows P f db) (OnRow j) = map_option (\<lambda>r. (dr_held r, dr_sold r, dr_allotment r))
           (map_option (\<lambda>r. if P r then f r else r) (find (\<lambda>r. dr_id r = j) (iv_rows db)))"
    and "same_tables db (change_plan_rows P f db)" "ids_distinct (change_plan_rows P f db) \<longleftrightarrow> ids_distinct db"
  using find_map_other [of dr_id f j P, OF assms] map_fst_key [of dr_id f P "iv_rows db", OF assms]
  by (simp_all add: change_plan_rows_def same_tables_def ids_distinct_def del: map_map set_map)

lemma change_pool_counts:
  assumes "\<And>d. pd_id (f d) = pd_id d"
  shows "counts (change_pool_days P f db) (OnRow j) = counts db (OnRow j)"
    and "counts (change_pool_days P f db) (OnDay j) = map_option (\<lambda>d. (pd_held d, pd_sold d, pd_capacity d))
           (map_option (\<lambda>d. if P d then f d else d) (find (\<lambda>d. pd_id d = j) (iv_poolDays db)))"
    and "same_tables db (change_pool_days P f db)" "ids_distinct (change_pool_days P f db) \<longleftrightarrow> ids_distinct db"
  using find_map_other [of pd_id f j P, OF assms] map_fst_key [of pd_id f P "iv_poolDays db", OF assms]
  by (simp_all add: change_pool_days_def same_tables_def ids_distinct_def del: map_map set_map)

definition counter_allows :: "Move \<Rightarrow> int \<Rightarrow> int \<times> int \<times> int \<Rightarrow> bool" where
  "counter_allows m q = (\<lambda>(held, sold, limit). counter_has m q held sold)"

text \<open>What a move does, and when it succeeds.\<close>

definition night_named :: "'a HeldNight_scheme \<Rightarrow> bool" where
  "night_named n \<longleftrightarrow> (hn_counterKind n = POOL_DAY \<longrightarrow> hn_poolDayId n \<noteq> None \<and> hn_poolDayId n \<noteq> Some [])"

definition after_move :: "Move \<Rightarrow> InventoryDb \<Rightarrow> 'a HeldNight_scheme \<Rightarrow> InventoryDb \<Rightarrow> bool" where
  "after_move m db n db' \<longleftrightarrow> same_tables db db' \<and> ids_distinct db'
     \<and> (\<forall>c. counts db' c = (if counter_of n = Some c then map_option (moved_count m (hn_quantity n)) (counts db c) else counts db c))"

lemma moveNight_iff:
  assumes "ids_distinct db" "night_named n"
  shows "(\<exists>db'. moveNight m db n = Inr db') \<longleftrightarrow> (\<forall>c. counter_of n = Some c \<longrightarrow> (\<exists>k. counts db c = Some k \<and> counter_allows m (hn_quantity n) k))"
    and "moveNight m db n = Inr db' \<Longrightarrow> after_move m db n db'"
proof -
  let ?q = "hn_quantity n"
  let ?R = "\<lambda>r. dr_id r = hn_availabilityId n \<and> counter_has m ?q (dr_held r) (dr_sold r)"
  let ?D = "\<lambda>d. Some (pd_id d) = hn_poolDayId n \<and> counter_has m ?q (pd_held d) (pd_sold d)"
  have rows: "length (filter ?R (iv_rows db)) = 1 \<longleftrightarrow> (\<exists>k. counts db (OnRow (hn_availabilityId n)) = Some k \<and> counter_allows m ?q k)"
    using one_hit [of dr_id "iv_rows db" "hn_availabilityId n" "\<lambda>r. counter_has m ?q (dr_held r) (dr_sold r)"] assms(1)
    by (auto simp: ids_distinct_def counter_allows_def)
  have days: "length (filter ?D (iv_poolDays db)) = 1 \<longleftrightarrow> (\<exists>k. counts db (OnDay i) = Some k \<and> counter_allows m ?q k)" if "hn_poolDayId n = Some i" for i
    using one_hit [of pd_id "iv_poolDays db" i "\<lambda>d. counter_has m ?q (pd_held d) (pd_sold d)"] assms(1) that
    by (auto simp: ids_distinct_def counter_allows_def)
  show "(\<exists>db'. moveNight m db n = Inr db') \<longleftrightarrow> (\<forall>c. counter_of n = Some c \<longrightarrow> (\<exists>k. counts db c = Some k \<and> counter_allows m ?q k))"
    using rows days assms(2)
    by (auto simp: moveNight_def counter_of_def night_named_def Let_def bad_hold_state_def split: CounterKind.splits)
  show "after_move m db n db'" if run: "moveNight m db n = Inr db'"
  proof (cases "hn_counterKind n")
    case PLAN_ROW
    then have one: "length (filter ?R (iv_rows db)) = 1" and db': "db' = change_plan_rows ?R (move_plan_row m ?q) db"
      using run by (auto simp: moveNight_def Let_def bad_hold_state_def split: if_splits)
    have "\<exists>x. find (\<lambda>x. dr_id x = hn_availabilityId n) (iv_rows db) = Some x \<and> counter_has m ?q (dr_held x) (dr_sold x)"
      using one one_hit [of dr_id "iv_rows db" "hn_availabilityId n" "\<lambda>r. counter_has m ?q (dr_held r) (dr_sold r)"] assms(1)
      by (simp add: ids_distinct_def)
    then obtain x where x: "find (\<lambda>x. dr_id x = hn_availabilityId n) (iv_rows db) = Some x" "counter_has m ?q (dr_held x) (dr_sold x)" by blast
    have "counts db' c = (if counter_of n = Some c then map_option (moved_count m ?q) (counts db c) else counts db c)" for c
    proof (cases c)
      case (OnRow j)
      show ?thesis
        using x PLAN_ROW unfolding OnRow db' change_plan_counts(2) [where f = "move_plan_row m ?q", OF move_keys(1)]
        by (cases "j = hn_availabilityId n"; cases "find (\<lambda>r. dr_id r = j) (iv_rows db)")
          (auto simp: counter_of_def moved_count_def move_plan_row_def dest!: find_SomeD split: Move.splits)
    next
      case (OnDay j)
      then show ?thesis using PLAN_ROW unfolding db' by (simp add: change_plan_rows_def counter_of_def)
    qed
    then show ?thesis using assms(1) unfolding after_move_def db' by (simp add: change_plan_counts)
  next
    case POOL_DAY
    then obtain i where i: "hn_poolDayId n = Some i" using assms(2) by (auto simp: night_named_def)
    have one: "length (filter ?D (iv_poolDays db)) = 1" and db': "db' = change_pool_days ?D (move_pool_day m ?q) db"
      using run POOL_DAY by (auto simp: moveNight_def Let_def bad_hold_state_def split: if_splits)
    have "\<exists>x. find (\<lambda>x. pd_id x = i) (iv_poolDays db) = Some x \<and> counter_has m ?q (pd_held x) (pd_sold x)"
      using one one_hit [of pd_id "iv_poolDays db" i "\<lambda>d. counter_has m ?q (pd_held d) (pd_sold d)"] assms(1) i
      by (simp add: ids_distinct_def)
    then obtain x where x: "find (\<lambda>x. pd_id x = i) (iv_poolDays db) = Some x" "counter_has m ?q (pd_held x) (pd_sold x)" by blast
    have "counts db' c = (if counter_of n = Some c then map_option (moved_count m ?q) (counts db c) else counts db c)" for c
    proof (cases c)
      case (OnDay j)
      show ?thesis
        using x POOL_DAY i unfolding OnDay db' change_pool_counts(2) [where f = "move_pool_day m ?q", OF move_keys(2)]
        by (cases "j = i"; cases "find (\<lambda>d. pd_id d = j) (iv_poolDays db)")
          (auto simp: counter_of_def moved_count_def move_pool_day_def dest!: find_SomeD split: Move.splits)
    next
      case (OnRow j)
      then show ?thesis using POOL_DAY i unfolding db' by (simp add: change_pool_days_def counter_of_def)
    qed
    then show ?thesis using assms(1) unfolding after_move_def db' by (simp add: change_pool_counts)
  next
    case NO_COUNTER
    then have "db' = db" using run by (simp add: moveNight_def Let_def)
    then show ?thesis using assms(1) NO_COUNTER by (simp add: after_move_def same_tables_def counter_of_def)
  qed
qed

definition units_in :: "counter \<Rightarrow> HoldNightRow list \<Rightarrow> int" where
  "units_in c ns = sum_where (\<lambda>n. counter_of n = Some c) hn_quantity ns"

lemma moved_count_0 [simp]: "moved_count m 0 k = k"
  by (cases m; cases k; simp add: moved_count_def)

lemma moved_count_add: "moved_count m b (moved_count m a k) = moved_count m (a + b) k"
  by (cases m; cases k; simp add: moved_count_def)

lemma moves_effect:
  assumes "ids_distinct db" "\<forall>n \<in> set ns. night_named n" "efold (moveNight m) db ns = Inr db'"
  shows "same_tables db db' \<and> ids_distinct db' \<and> (\<forall>c. counts db' c = map_option (moved_count m (units_in c ns)) (counts db c))"
  using assms
proof (induction ns arbitrary: db)
  case Nil
  then show ?case by (simp add: same_tables_def units_in_def option.map_ident moved_count_0 [abs_def])
next
  case (Cons n ns)
  obtain db1 where n: "moveNight m db n = Inr db1" and rest: "efold (moveNight m) db1 ns = Inr db'"
    using Cons.prems(3) by (auto simp: ebind_Inr_iff)
  have a: "after_move m db n db1" using moveNight_iff(2) [OF Cons.prems(1) _ n] Cons.prems(2) by simp
  then have "ids_distinct db1" by (simp add: after_move_def)
  note IH = Cons.IH [OF this _ rest]
  have "counts db' c = map_option (moved_count m (units_in c (n # ns))) (counts db c)" for c
    using a IH Cons.prems(2)
    by (cases "counts db c"; cases "counter_of n = Some c") (simp_all add: after_move_def units_in_def moved_count_add add.commute)
  then show ?case using a IH Cons.prems(2) by (simp add: after_move_def same_tables_def)
qed

lemma units_in_nonneg: "\<forall>n \<in> set ns. 0 \<le> hn_quantity n \<Longrightarrow> 0 \<le> units_in c ns"
  unfolding units_in_def by (rule sum_where_nonneg) simp

text \<open>Moves succeed when every counter has the units of all of them together.\<close>

lemma moves_succeed:
  assumes "ids_distinct db" "\<forall>n \<in> set ns. night_named n \<and> 0 \<le> hn_quantity n \<and> (\<forall>c. counter_of n = Some c \<longrightarrow> counts db c \<noteq> None)"
    and "\<forall>c k. counts db c = Some k \<longrightarrow> counter_allows m (units_in c ns) k"
  shows "\<exists>db'. efold (moveNight m) db ns = Inr db'"
  using assms
proof (induction ns arbitrary: db)
  case (Cons n ns)
  have nonneg: "0 \<le> units_in c ns" for c using units_in_nonneg [of ns c] Cons.prems(2) by auto
  have q: "0 \<le> hn_quantity n" using Cons.prems(2) by simp
  have "\<exists>k. counts db c = Some k \<and> counter_allows m (hn_quantity n) k" if c: "counter_of n = Some c" for c
  proof -
    obtain k where k: "counts db c = Some k" using Cons.prems(2) c by auto
    then have "counter_allows m (units_in c (n # ns)) k" using Cons.prems(3) by blast
    then show ?thesis using k nonneg [of c] c by (cases k) (auto simp: units_in_def counter_allows_def counter_has_def split: if_splits)
  qed
  then obtain db1 where n: "moveNight m db n = Inr db1" using moveNight_iff(1) [OF Cons.prems(1), of n m] Cons.prems(2) by auto
  have a: "after_move m db n db1" using moveNight_iff(2) [OF Cons.prems(1) _ n] Cons.prems(2) by simp
  have d: "ids_distinct db1" using a by (simp add: after_move_def)
  have named: "\<forall>n' \<in> set ns. night_named n' \<and> 0 \<le> hn_quantity n' \<and> (\<forall>c. counter_of n' = Some c \<longrightarrow> counts db1 c \<noteq> None)"
  proof (intro ballI conjI allI impI)
    fix n' c assume n': "n' \<in> set ns" and c: "counter_of n' = Some c"
    then have "counts db c \<noteq> None" using Cons.prems(2) by auto
    moreover have "counts db1 c = (if counter_of n = Some c then map_option (moved_count m (hn_quantity n)) (counts db c) else counts db c)"
      using a by (simp only: after_move_def)
    ultimately show "counts db1 c \<noteq> None" by (metis option.map_disc_iff)
  qed (use Cons.prems(2) in simp_all)
  have enough: "\<forall>c k. counts db1 c = Some k \<longrightarrow> counter_allows m (units_in c ns) k"
  proof (intro allI impI)
    fix c k assume "counts db1 c = Some k"
    then obtain k0 where k0: "counts db c = Some k0" and k: "k = (if counter_of n = Some c then moved_count m (hn_quantity n) k0 else k0)"
      using a by (auto simp: after_move_def split: if_splits)
    have "counter_allows m (units_in c (n # ns)) k0" using Cons.prems(3) k0 by blast
    then show "counter_allows m (units_in c ns) k"
      unfolding k by (cases k0; cases m) (auto simp: units_in_def counter_allows_def counter_has_def moved_count_def split: if_splits)
  qed
  show ?case using Cons.IH [OF d named enough] n by simp
qed simp

subsection \<open>The invariant\<close>

definition live :: "InventoryHoldStatus \<Rightarrow> bool" where
  "live s \<longleftrightarrow> s = HOLD_PENDING \<or> s = HELD \<or> s = PROCESSING"

definition sold :: "InventoryHoldStatus \<Rightarrow> bool" where
  "sold s \<longleftrightarrow> s = HOLD_CONFIRMED"

definition status_of :: "InventoryDb \<Rightarrow> string \<Rightarrow> InventoryHoldStatus option" where
  "status_of db holdId = map_option ih_status (find_hold db holdId)"

definition rooms_on :: "(InventoryHoldStatus \<Rightarrow> bool) \<Rightarrow> counter \<Rightarrow> InventoryDb \<Rightarrow> int" where
  "rooms_on S c db = sum_where (\<lambda>n. counter_of n = Some c \<and> (case status_of db (hn_holdId n) of Some s \<Rightarrow> S s | None \<Rightarrow> False)) hn_quantity (iv_nights db)"

definition nights_ok :: "InventoryDb \<Rightarrow> bool" where
  "nights_ok db \<longleftrightarrow> (\<forall>n \<in> set (iv_nights db). night_named n \<and> 1 \<le> hn_quantity n \<and> status_of db (hn_holdId n) \<noteq> None
     \<and> (\<forall>c. counter_of n = Some c \<longrightarrow> counts db c \<noteq> None))"

definition counters_ok :: "InventoryDb \<Rightarrow> bool" where
  "counters_ok db \<longleftrightarrow> (\<forall>c held_rooms sold_rooms limit. counts db c = Some (held_rooms, sold_rooms, limit)
     \<longrightarrow> held_rooms = rooms_on live c db \<and> sold_rooms = rooms_on sold c db \<and> sold_rooms + held_rooms \<le> limit)"

definition inventory_ok :: "InventoryDb \<Rightarrow> bool" where
  "inventory_ok db \<longleftrightarrow> ids_distinct db \<and> distinct (map ih_id (iv_holds db)) \<and> nights_ok db \<and> counters_ok db"

lemma sum_where_mset: "mset xs = mset ys \<Longrightarrow> sum_where P f xs = sum_where P f ys"
proof -
  have "sum_where P f zs = sum_mset (image_mset f (filter_mset P (mset zs)))" for zs
    by (induction zs) simp_all
  then show "mset xs = mset ys \<Longrightarrow> ?thesis" by simp
qed

lemma status_set_hold:
  assumes "\<And>h. ih_id (f h) = ih_id h" "\<And>h. ih_status (f h) = s"
  shows "status_of (set_hold i f db) j = (if j = i \<and> status_of db j \<noteq> None then Some s else status_of db j)"
proof -
  have "find (\<lambda>h. ih_id h = j) (map (\<lambda>h. if ih_id h = i then f h else h) xs) = map_option (\<lambda>h. if ih_id h = i then f h else h) (find (\<lambda>h. ih_id h = j) xs)" for xs
    using find_map_other [of ih_id f j "\<lambda>h. ih_id h = i" xs] assms(1) by simp
  then show ?thesis
    by (cases "find (\<lambda>h. ih_id h = j) (iv_holds db)") (auto simp: status_of_def find_hold_def set_hold_def assms dest: find_SomeD)
qed

lemma rooms_split:
  "rooms_on S c db = (case status_of db i of Some s \<Rightarrow> if S s then units_in c (nights_of db i) else 0 | None \<Rightarrow> 0)
     + sum_where (\<lambda>n. counter_of n = Some c \<and> hn_holdId n \<noteq> i \<and> (case status_of db (hn_holdId n) of Some s \<Rightarrow> S s | None \<Rightarrow> False)) hn_quantity (iv_nights db)"
proof -
  have "rooms_on S c db = sum_where (\<lambda>n. counter_of n = Some c \<and> hn_holdId n = i \<and> (case status_of db i of Some s \<Rightarrow> S s | None \<Rightarrow> False)) hn_quantity (iv_nights db)
     + sum_where (\<lambda>n. counter_of n = Some c \<and> hn_holdId n \<noteq> i \<and> (case status_of db (hn_holdId n) of Some s \<Rightarrow> S s | None \<Rightarrow> False)) hn_quantity (iv_nights db)"
  proof -
    have "sum_where (\<lambda>n. counter_of n = Some c \<and> (case status_of db (hn_holdId n) of Some s \<Rightarrow> S s | None \<Rightarrow> False)) hn_quantity xs
      = sum_where (\<lambda>n. counter_of n = Some c \<and> hn_holdId n = i \<and> (case status_of db i of Some s \<Rightarrow> S s | None \<Rightarrow> False)) hn_quantity xs
      + sum_where (\<lambda>n. counter_of n = Some c \<and> hn_holdId n \<noteq> i \<and> (case status_of db (hn_holdId n) of Some s \<Rightarrow> S s | None \<Rightarrow> False)) hn_quantity xs" for xs
      by (induction xs) auto
    then show ?thesis unfolding rooms_on_def .
  qed
  then show ?thesis
    by (cases "status_of db i") (auto simp: units_in_def nights_of_def sum_where_filter conj_commute sum_where_def)
qed

subsection \<open>Moving the rooms of a hold\<close>

lemma move_commutes: "moveNight m (set_hold i f db) n = (case moveNight m db n of Inl e \<Rightarrow> Inl e | Inr db' \<Rightarrow> Inr (set_hold i f db'))"
  by (simp add: moveNight_def set_hold_def change_pool_days_def change_plan_rows_def bad_hold_state_def Let_def split: CounterKind.splits)

lemma moves_commute: "efold (moveNight m) (set_hold i f db) ns = (case efold (moveNight m) db ns of Inl e \<Rightarrow> Inl e | Inr db' \<Rightarrow> Inr (set_hold i f db'))"
proof (induction ns arbitrary: db)
  case (Cons n ns)
  then show ?case by (cases "moveNight m db n") (simp_all add: move_commutes)
qed simp

lemma counts_set_hold [simp]: "counts (set_hold i f db) c = counts db c"
  by (cases c) (simp_all add: set_hold_def)

lemma set_hold_tables [simp]:
  "ids_distinct (set_hold i f db) = ids_distinct db" "iv_nights (set_hold i f db) = iv_nights db" "nights_of (set_hold i f db) j = nights_of db j"
  by (simp_all add: set_hold_def ids_distinct_def nights_of_def)

lemma same_tables_status: "same_tables db db' \<Longrightarrow> status_of db' = status_of db \<and> iv_nights db' = iv_nights db \<and> rooms_on S c db' = rooms_on S c db"
  by (auto simp: same_tables_def status_of_def find_hold_def rooms_on_def fun_eq_iff)

text \<open>Which change of a hold's status belongs to which move.\<close>

definition move_status :: "Move \<Rightarrow> InventoryHoldStatus \<Rightarrow> InventoryHoldStatus \<Rightarrow> bool" where
  "move_status m s s' \<longleftrightarrow>
     (case m of
        MoveRelease \<Rightarrow> live s \<and> \<not> live s' \<and> \<not> sold s'
      | MoveConfirm \<Rightarrow> live s \<and> sold s'
      | MoveCancel \<Rightarrow> sold s \<and> \<not> live s' \<and> \<not> sold s')"

lemma live_not_sold: "live s \<Longrightarrow> \<not> sold s" "sold s \<Longrightarrow> \<not> live s"
  by (auto simp: live_def sold_def)

lemma rooms_set_hold:
  assumes f: "\<And>h. ih_id (f h) = ih_id h" "\<And>h. ih_status (f h) = s'" and s: "status_of db i = Some s"
  shows "rooms_on S c (set_hold i f db)
    = rooms_on S c db - (if S s then units_in c (nights_of db i) else 0) + (if S s' then units_in c (nights_of db i) else 0)"
proof -
  have same: "sum_where (\<lambda>n. counter_of n = Some c \<and> hn_holdId n \<noteq> i \<and> (case status_of (set_hold i f db) (hn_holdId n) of Some s \<Rightarrow> S s | None \<Rightarrow> False)) hn_quantity (iv_nights db)
    = sum_where (\<lambda>n. counter_of n = Some c \<and> hn_holdId n \<noteq> i \<and> (case status_of db (hn_holdId n) of Some s \<Rightarrow> S s | None \<Rightarrow> False)) hn_quantity (iv_nights db)"
    by (rule sum_where_cong) (auto simp: status_set_hold f)
  show ?thesis
    unfolding rooms_split [of S c "set_hold i f db" i] rooms_split [of S c db i] set_hold_tables same
    by (simp add: status_set_hold f s)
qed

lemma hold_ids_set_hold: "(\<And>h. ih_id (f h) = ih_id h) \<Longrightarrow> map ih_id (iv_holds (set_hold i f db)) = map ih_id (iv_holds db)"
  by (simp add: set_hold_def)

lemma moves_keep_ok:
  assumes ok: "inventory_ok db" and s: "status_of db i = Some s" and f: "\<And>h. ih_id (f h) = ih_id h" "\<And>h. ih_status (f h) = s'"
    and m: "move_status m s s'" and ns: "mset ns = mset (nights_of db i)" and run: "efold (moveNight m) db ns = Inr db'"
  shows "inventory_ok (set_hold i f db')"
proof -
  have d: "ids_distinct db" and nights: "nights_ok db" and counters: "counters_ok db" and hids: "distinct (map ih_id (iv_holds db))"
    using ok by (simp_all add: inventory_ok_def)
  have sub: "set ns \<subseteq> set (iv_nights db)" using mset_eq_setD [OF ns] by (auto simp: nights_of_def)
  have named: "\<forall>n \<in> set ns. night_named n" using nights sub by (auto simp: nights_ok_def)
  note e = moves_effect [OF d named run]
  have u: "units_in c ns = units_in c (nights_of db i)" for c unfolding units_in_def by (rule sum_where_mset [OF ns])
  have st: "same_tables db db'" using e by simp
  note same = same_tables_status [OF st]
  have s2: "status_of db' i = Some s" using s same by simp
  have n2: "nights_of db' i = nights_of db i" using same by (simp add: nights_of_def)
  have nights': "nights_ok (set_hold i f db')"
    unfolding nights_ok_def
  proof (intro ballI conjI allI impI)
    fix n assume "n \<in> set (iv_nights (set_hold i f db'))"
    then have n: "n \<in> set (iv_nights db)" using same by simp
    show "night_named n" "1 \<le> hn_quantity n" using nights n by (simp_all add: nights_ok_def)
    show "status_of (set_hold i f db') (hn_holdId n) \<noteq> None" using nights n same by (auto simp: nights_ok_def status_set_hold f)
    fix c assume "counter_of n = Some c"
    then have "counts db c \<noteq> None" using nights n by (auto simp: nights_ok_def)
    moreover have "counts db' c = map_option (moved_count m (units_in c ns)) (counts db c)" using e by blast
    ultimately show "counts (set_hold i f db') c \<noteq> None" by (metis counts_set_hold option.map_disc_iff)
  qed
  have counters': "counters_ok (set_hold i f db')"
    unfolding counters_ok_def
  proof (intro allI impI)
    fix c held_rooms sold_rooms limit assume "counts (set_hold i f db') c = Some (held_rooms, sold_rooms, limit)"
    then obtain k where k: "counts db c = Some k" and now: "moved_count m (units_in c ns) k = (held_rooms, sold_rooms, limit)"
      using e by (metis (no_types, lifting) counts_set_hold map_option_eq_Some)
    obtain h0 s0 l0 where k0: "k = (h0, s0, l0)" by (cases k)
    have before: "h0 = rooms_on live c db \<and> s0 = rooms_on sold c db \<and> s0 + h0 \<le> l0" using counters k unfolding k0 counters_ok_def by blast
    have U: "0 \<le> units_in c (nights_of db i)" using nights by (intro units_in_nonneg) (force simp: nights_ok_def nights_of_def)
    have r: "rooms_on S c (set_hold i f db') = rooms_on S c db - (if S s then units_in c (nights_of db i) else 0) + (if S s' then units_in c (nights_of db i) else 0)" for S
      using rooms_set_hold [of f s' db' i s S c, OF f s2] same n2 by simp
    show "held_rooms = rooms_on live c (set_hold i f db') \<and> sold_rooms = rooms_on sold c (set_hold i f db') \<and> sold_rooms + held_rooms \<le> limit"
      using now before m U live_not_sold [of s] live_not_sold [of s'] unfolding r k0 u
      by (cases m) (auto simp: moved_count_def move_status_def)
  qed
  show ?thesis
    using e hids nights' counters' st hold_ids_set_hold [of f i db', OF f(1)] by (simp add: inventory_ok_def same_tables_def)
qed

text \<open>And the rooms are there to be moved.\<close>

lemma rooms_nonneg: "nights_ok db \<Longrightarrow> 0 \<le> rooms_on S c db"
  unfolding rooms_on_def nights_ok_def by (rule sum_where_nonneg) force

lemma hold_rooms_le:
  assumes "nights_ok db" "status_of db i = Some s" "S s"
  shows "units_in c (nights_of db i) \<le> rooms_on S c db"
proof -
  have "0 \<le> sum_where (\<lambda>n. counter_of n = Some c \<and> hn_holdId n \<noteq> i \<and> (case status_of db (hn_holdId n) of Some s \<Rightarrow> S s | None \<Rightarrow> False)) hn_quantity (iv_nights db)"
    using assms(1) unfolding nights_ok_def by (intro sum_where_nonneg) force
  then show ?thesis using assms unfolding rooms_split [of S c db i] by simp
qed

lemma hold_moves_succeed:
  assumes ok: "inventory_ok db" and s: "status_of db i = Some s" and m: "if m = MoveCancel then sold s else live s" and ns: "mset ns = mset (nights_of db i)"
  shows "\<exists>db'. efold (moveNight m) db ns = Inr db'"
proof (rule moves_succeed)
  have nights: "nights_ok db" and counters: "counters_ok db" using ok by (simp_all add: inventory_ok_def)
  show "ids_distinct db" using ok by (simp add: inventory_ok_def)
  show "\<forall>n \<in> set ns. night_named n \<and> 0 \<le> hn_quantity n \<and> (\<forall>c. counter_of n = Some c \<longrightarrow> counts db c \<noteq> None)"
  proof
    fix n assume "n \<in> set ns"
    then have "n \<in> set (iv_nights db)" using mset_eq_setD [OF ns] by (auto simp: nights_of_def)
    then have "night_named n \<and> 1 \<le> hn_quantity n \<and> (\<forall>c. counter_of n = Some c \<longrightarrow> counts db c \<noteq> None)"
      using nights unfolding nights_ok_def by blast
    then show "night_named n \<and> 0 \<le> hn_quantity n \<and> (\<forall>c. counter_of n = Some c \<longrightarrow> counts db c \<noteq> None)" by auto
  qed
  show "\<forall>c k. counts db c = Some k \<longrightarrow> counter_allows m (units_in c ns) k"
  proof (intro allI impI)
    fix c k assume k: "counts db c = Some k"
    obtain h0 s0 l0 where k0: "k = (h0, s0, l0)" by (cases k)
    have "h0 = rooms_on live c db \<and> s0 = rooms_on sold c db" using counters k unfolding k0 counters_ok_def by blast
    moreover have "units_in c ns = units_in c (nights_of db i)" unfolding units_in_def by (rule sum_where_mset [OF ns])
    ultimately show "counter_allows m (units_in c ns) k"
      using hold_rooms_le [OF nights s, of live c] hold_rooms_le [OF nights s, of sold c] m by (simp add: k0 counter_allows_def counter_has_def split: if_splits)
  qed
qed

subsection \<open>Taking rooms\<close>

lemma counts_nights [simp]: "counts (db\<lparr>iv_nights := ns\<rparr>) c = counts db c" "counts (db\<lparr>iv_holds := hs\<rparr>) c = counts db c" "counts (db\<lparr>iv_audits := as\<rparr>) c = counts db c"
  by (cases c; simp)+

definition took :: "InventoryDb \<Rightarrow> int \<Rightarrow> NightReservation \<Rightarrow> InventoryDb \<Rightarrow> bool" where
  "took db q r db' \<longleftrightarrow> same_tables db db' \<and> ids_distinct db' \<and> (nr_counterKind r = POOL_DAY \<longrightarrow> nr_poolDayId r \<noteq> None \<and> nr_poolDayId r \<noteq> Some [])
     \<and> (\<forall>c. counts db' c =
          (if (case nr_counterKind r of NO_COUNTER \<Rightarrow> None | PLAN_ROW \<Rightarrow> Some (OnRow (nr_availabilityId r)) | POOL_DAY \<Rightarrow> map_option OnDay (nr_poolDayId r)) = Some c
           then map_option (\<lambda>(h, s, l). (h + q, s, l)) (counts db c) else counts db c))
     \<and> (\<forall>c. (case nr_counterKind r of NO_COUNTER \<Rightarrow> None | PLAN_ROW \<Rightarrow> Some (OnRow (nr_availabilityId r)) | POOL_DAY \<Rightarrow> map_option OnDay (nr_poolDayId r)) = Some c
          \<longrightarrow> (\<exists>h s l. counts db c = Some (h, s, l) \<and> s + h + q \<le> l))"

lemma find_distinct: "distinct (map key xs) \<Longrightarrow> x \<in> set xs \<Longrightarrow> find (\<lambda>y. key y = key x) xs = Some x"
  by (induction xs) (auto simp: rev_image_eqI)

lemma filter_single_only: "filter P xs = [d] \<Longrightarrow> x \<in> set xs \<Longrightarrow> P x \<longleftrightarrow> x = d"
proof -
  assume f: "filter P xs = [d]" and x: "x \<in> set xs"
  have "set (filter P xs) = {d}" by (simp add: f)
  then show ?thesis using x by auto
qed

lemma take_units_took:
  assumes d: "ids_distinct db" and run: "take_units now i row plan q cap db = Inr (db', r)"
  shows "took db q r db'"
proof (cases "pool_key plan \<noteq> []")
  case True
  let ?T = "pool_day_takes db now (pool_key plan) (ri_stayDate i) q cap"
  obtain p where p: "filter ?T (iv_poolDays db) = [p]" and db': "db' = change_pool_days ?T (\<lambda>d. d\<lparr>pd_held := pd_held d + q\<rparr>) db"
    and r: "r = \<lparr>nr_availabilityId = dr_id row, nr_counterKind = POOL_DAY, nr_poolDayId = Some (pd_id p)\<rparr>"
    using run True by (auto simp: take_units_def Let_def no_inventory_def split: list.splits)
  have "p \<in> set (filter ?T (iv_poolDays db))" by (simp add: p)
  then have pin: "p \<in> set (iv_poolDays db)" "?T p" by auto
  have fp: "find (\<lambda>d. pd_id d = pd_id p) (iv_poolDays db) = Some p" using d pin by (intro find_distinct) (simp_all add: ids_distinct_def)
  have c': "counts db' c = (if OnDay (pd_id p) = c then map_option (\<lambda>(h, s, l). (h + q, s, l)) (counts db c) else counts db c)" for c
  proof (cases c)
    case (OnRow j)
    then show ?thesis unfolding db' by (simp add: change_pool_days_def)
  next
    case (OnDay j)
    have key: "pd_id (d\<lparr>pd_held := pd_held d + q\<rparr>) = pd_id d" for d :: PoolDayRow by simp
    note now = change_pool_counts(2) [of "\<lambda>d. d\<lparr>pd_held := pd_held d + q\<rparr>", OF key]
    show ?thesis
    proof (cases "j = pd_id p")
      case True
      then show ?thesis using fp pin(2) unfolding OnDay db' now by simp
    next
      case False
      have "\<not> ?T x" if "find (\<lambda>d. pd_id d = j) (iv_poolDays db) = Some x" for x
        using filter_single_only [OF p, of x] find_SomeD [OF that] False by auto
      then show ?thesis using False unfolding OnDay db' now by (cases "find (\<lambda>d. pd_id d = j) (iv_poolDays db)") auto
    qed
  qed
  have room: "pd_sold p + pd_held p + q \<le> pd_capacity p" using pin(2) by (simp add: pool_day_takes_def fits_def)
  have t: "same_tables db db'" "ids_distinct db'" using d unfolding db' by (simp_all add: change_pool_counts)
  have named: "pd_id p \<noteq> []" using d imageI [OF pin(1), of pd_id] by (auto simp: ids_distinct_def simp del: image_eqI)
  show ?thesis unfolding took_def r by (simp add: t c' named fp room)
next
  case False
  let ?T = "plan_row_takes (dr_id row) q cap"
  have one: "length (filter ?T (iv_rows db)) = 1" and db': "db' = change_plan_rows ?T (\<lambda>r. r\<lparr>dr_held := dr_held r + q\<rparr>) db"
    and r: "r = \<lparr>nr_availabilityId = dr_id row, nr_counterKind = PLAN_ROW, nr_poolDayId = None\<rparr>"
    using run False by (auto simp: take_units_def Let_def no_inventory_def split: if_splits)
  obtain x where x: "find (\<lambda>r. dr_id r = dr_id row) (iv_rows db) = Some x" "?T x"
    using one one_hit [of dr_id "iv_rows db" "dr_id row" "\<lambda>r. \<not> dr_stopSell r \<and> fits (dr_sold r) (dr_held r) q (dr_allotment r) cap"] d
    by (auto simp: plan_row_takes_def [abs_def] ids_distinct_def dest: find_SomeD)
  have c': "counts db' c = (if OnRow (dr_id row) = c then map_option (\<lambda>(h, s, l). (h + q, s, l)) (counts db c) else counts db c)" for c
  proof (cases c)
    case (OnDay j)
    then show ?thesis unfolding db' by (simp add: change_plan_rows_def)
  next
    case (OnRow j)
    have key: "dr_id (r\<lparr>dr_held := dr_held r + q\<rparr>) = dr_id r" for r :: PlanRow by simp
    note now = change_plan_counts(2) [of "\<lambda>r. r\<lparr>dr_held := dr_held r + q\<rparr>", OF key]
    show ?thesis
    proof (cases "j = dr_id row")
      case True
      then show ?thesis using x unfolding OnRow db' now by simp
    next
      case False
      have "\<not> ?T y" if "find (\<lambda>r. dr_id r = j) (iv_rows db) = Some y" for y
        using find_SomeD [OF that] False by (auto simp: plan_row_takes_def)
      then show ?thesis using False unfolding OnRow db' now by (cases "find (\<lambda>r. dr_id r = j) (iv_rows db)") auto
    qed
  qed
  have room: "dr_sold x + dr_held x + q \<le> dr_allotment x" using x(2) by (simp add: plan_row_takes_def fits_def)
  have t: "same_tables db db'" "ids_distinct db'" using d unfolding db' by (simp_all add: change_plan_counts)
  show ?thesis unfolding took_def r by (simp add: t c' x(1) room)
qed

lemma reserveNight_took:
  assumes "ids_distinct db" "reserveNight now i db = Inr (db', r)"
  shows "took db (int_of_num (ri_rooms i)) r db' \<and> 1 \<le> int_of_num (ri_rooms i)"
  using assms take_units_took [OF assms(1)]
  by (auto simp: reserveNight_def no_inventory_def took_def same_tables_def Let_def split: if_splits list.splits)

lemma inventory_ok_audits [simp]: "inventory_ok (hold_audit u a e i db) = inventory_ok db"
  by (simp add: inventory_ok_def hold_audit_def ids_distinct_def nights_ok_def counters_ok_def status_of_def find_hold_def rooms_on_def)

lemma set_hold_ok:
  assumes ok: "inventory_ok db" and s: "status_of db i = Some s" and f: "\<And>h. ih_id (f h) = ih_id h" "\<And>h. ih_status (f h) = s'"
    and same: "live s \<longleftrightarrow> live s'" "sold s \<longleftrightarrow> sold s'"
  shows "inventory_ok (set_hold i f db)"
proof -
  have "rooms_on live c (set_hold i f db) = rooms_on live c db" "rooms_on sold c (set_hold i f db) = rooms_on sold c db" for c
    using same by (simp_all add: rooms_set_hold [OF f s])
  moreover have "status_of (set_hold i f db) j \<noteq> None \<longleftrightarrow> status_of db j \<noteq> None" for j
    using s by (simp add: status_set_hold f)
  ultimately show ?thesis
    using ok hold_ids_set_hold [of f i db, OF f(1)] by (simp add: inventory_ok_def nights_ok_def counters_ok_def)
qed

lemma reserve_date_ok:
  assumes ok: "inventory_ok db" and s: "status_of db holdId = Some s" "live s" and run: "reserve_date now holdId c db day = Inr db'"
  shows "inventory_ok db' \<and> iv_holds db' = iv_holds db"
proof -
  let ?i = "\<lparr>ri_ratePlanId = hc_ratePlanId c, ri_stayDate = day, ri_rooms = hc_rooms c, ri_channel = ''PORTAL'', ri_market = []\<rparr>"
  let ?q = "int_of_num (hc_rooms c)"
  obtain db1 r where res: "reserveNight now ?i db = Inr (db1, r)"
    and db': "db' = db1\<lparr>iv_nights := iv_nights db1 @ [\<lparr>hn_availabilityId = nr_availabilityId r, hn_counterKind = nr_counterKind r, hn_poolDayId = nr_poolDayId r,
                  hn_quantity = ?q, hn_holdId = holdId, hn_stayDate = day\<rparr>]\<rparr>" (is "_ = db1\<lparr>iv_nights := _ @ [?n]\<rparr>")
    using run by (auto simp: reserve_date_def ebind_Inr_iff)
  have nights: "nights_ok db" and counters: "counters_ok db" and d: "ids_distinct db" and hids: "distinct (map ih_id (iv_holds db))"
    using ok by (simp_all add: inventory_ok_def)
  have t: "took db ?q r db1" and q: "1 \<le> ?q" using reserveNight_took [OF d res] by simp_all
  have st: "same_tables db db1" and d1: "ids_distinct db1" using t by (simp_all add: took_def)
  note same = same_tables_status [OF st]
  have kind: "counter_of ?n = (case nr_counterKind r of NO_COUNTER \<Rightarrow> None | PLAN_ROW \<Rightarrow> Some (OnRow (nr_availabilityId r)) | POOL_DAY \<Rightarrow> map_option OnDay (nr_poolDayId r))"
    by (simp add: counter_of_def split: CounterKind.splits)
  have c1: "counts db1 k = (if counter_of ?n = Some k then map_option (\<lambda>(h, s, l). (h + ?q, s, l)) (counts db k) else counts db k)" for k
    using t unfolding took_def kind by blast
  have room: "counter_of ?n = Some k \<Longrightarrow> \<exists>h s l. counts db k = Some (h, s, l) \<and> s + h + ?q \<le> l" for k
    using t unfolding took_def kind by blast
  have status: "status_of db' = status_of db" using same by (simp add: db' status_of_def find_hold_def fun_eq_iff)
  have rooms: "rooms_on S k db' = rooms_on S k db + (if counter_of ?n = Some k \<and> S s then ?q else 0)" for S k
    using same s by (simp add: rooms_on_def status) (simp add: db' rooms_on_def)
  have c': "counts db' k = counts db1 k" for k by (simp add: db')
  have "counters_ok db'"
    unfolding counters_ok_def
  proof (intro allI impI)
    fix k held_rooms sold_rooms limit assume "counts db' k = Some (held_rooms, sold_rooms, limit)"
    then have now: "(if counter_of ?n = Some k then map_option (\<lambda>(h, s, l). (h + ?q, s, l)) (counts db k) else counts db k) = Some (held_rooms, sold_rooms, limit)"
      by (simp add: c' c1)
    show "held_rooms = rooms_on live k db' \<and> sold_rooms = rooms_on sold k db' \<and> sold_rooms + held_rooms \<le> limit"
    proof (cases "counter_of ?n = Some k")
      case True
      obtain h0 s0 l0 where k0: "counts db k = Some (h0, s0, l0)" "s0 + h0 + ?q \<le> l0" using room [OF True] by blast
      have "h0 = rooms_on live k db \<and> s0 = rooms_on sold k db" using counters k0(1) unfolding counters_ok_def by blast
      then show ?thesis using now k0 True s live_not_sold(1) [OF s(2)] by (auto simp: rooms)
    next
      case False
      then have "counts db k = Some (held_rooms, sold_rooms, limit)" using now by simp
      then have "held_rooms = rooms_on live k db \<and> sold_rooms = rooms_on sold k db \<and> sold_rooms + held_rooms \<le> limit"
        using counters unfolding counters_ok_def by blast
      then show ?thesis using False by (simp add: rooms)
    qed
  qed
  moreover have "nights_ok db'"
    unfolding nights_ok_def
  proof (intro ballI)
    fix n assume "n \<in> set (iv_nights db')"
    then consider "n \<in> set (iv_nights db)" | "n = ?n" using same by (auto simp: db')
    then show "night_named n \<and> 1 \<le> hn_quantity n \<and> status_of db' (hn_holdId n) \<noteq> None \<and> (\<forall>k. counter_of n = Some k \<longrightarrow> counts db' k \<noteq> None)"
    proof cases
      case 1
      have "counts db k \<noteq> None \<Longrightarrow> counts db' k \<noteq> None" for k by (cases "counts db k") (auto simp: c' c1)
      then show ?thesis using nights 1 unfolding nights_ok_def status by blast
    next
      case 2
      have "counts db' k \<noteq> None" if "counter_of ?n = Some k" for k using room [OF that] that by (auto simp: c' c1)
      moreover have "night_named ?n" using t by (simp add: night_named_def took_def)
      ultimately show ?thesis using q s by (simp add: 2 status)
    qed
  qed
  ultimately show ?thesis
    using d1 hids st by (simp add: inventory_ok_def db' same_tables_def ids_distinct_def)
qed

lemma reserve_dates_ok:
  assumes "inventory_ok db" "status_of db holdId = Some s" "live s" "efold (reserve_date now holdId c) db days = Inr db'"
  shows "inventory_ok db' \<and> iv_holds db' = iv_holds db"
  using assms
proof (induction days arbitrary: db)
  case (Cons day days)
  obtain db1 where r: "reserve_date now holdId c db day = Inr db1" and rest: "efold (reserve_date now holdId c) db1 days = Inr db'"
    using Cons.prems(4) by (auto simp: ebind_Inr_iff)
  note one = reserve_date_ok [OF Cons.prems(1,2,3) r]
  have "status_of db1 holdId = Some s" using one Cons.prems(2) by (simp add: status_of_def find_hold_def)
  then show ?case using Cons.IH [OF _ _ Cons.prems(3) rest] one by simp
qed simp

lemma add_hold_ok:
  assumes ok: "inventory_ok db" and fresh: "ih_id h \<notin> ih_id ` set (iv_holds db)"
  shows "inventory_ok (db\<lparr>iv_holds := iv_holds db @ [h]\<rparr>)" and "status_of (db\<lparr>iv_holds := iv_holds db @ [h]\<rparr>) (ih_id h) = Some (ih_status h)"
proof -
  let ?db = "db\<lparr>iv_holds := iv_holds db @ [h]\<rparr>"
  have f: "find P (xs @ [x]) = (case find P xs of Some y \<Rightarrow> Some y | None \<Rightarrow> if P x then Some x else None)" for P xs and x :: InventoryHoldRow
    by (induction xs) auto
  have none: "find (\<lambda>k. ih_id k = ih_id h) (iv_holds db) = None"
    using fresh by (metis (mono_tags, lifting) find_None_iff image_eqI)
  show "status_of ?db (ih_id h) = Some (ih_status h)" by (simp add: status_of_def find_hold_def f none)
  have old: "status_of db i \<noteq> None \<Longrightarrow> status_of ?db i = status_of db i" for i by (auto simp: status_of_def find_hold_def f split: option.splits)
  have nights: "nights_ok db" using ok by (simp add: inventory_ok_def)
  have rooms: "rooms_on S c ?db = rooms_on S c db" for S c
  proof -
    have "rooms_on S c ?db = sum_where (\<lambda>n. counter_of n = Some c \<and> (case status_of ?db (hn_holdId n) of Some s \<Rightarrow> S s | None \<Rightarrow> False)) hn_quantity (iv_nights db)"
      by (simp add: rooms_on_def)
    also have "\<dots> = rooms_on S c db"
      unfolding rooms_on_def by (rule sum_where_cong) (use nights old in \<open>auto simp: nights_ok_def\<close>)
    finally show ?thesis .
  qed
  have "nights_ok ?db" using nights old unfolding nights_ok_def by auto
  then show "inventory_ok ?db"
    using ok fresh by (simp add: inventory_ok_def ids_distinct_def counters_ok_def rooms)
qed

lemma place_hold_ok:
  assumes ok: "inventory_ok db" and fresh: "newId \<notin> ih_id ` set (iv_holds db)" and run: "place_hold other now newId fingerprint expires c db = Inr (db', r)"
  shows "inventory_ok db'"
proof -
  define h where "h = new_hold newId fingerprint (min expires (now + 15 * 60000)) c"
  obtain days db1 where e: "efold (reserve_date now newId c) (db\<lparr>iv_holds := iv_holds db @ [h]\<rparr>) days = Inr db1"
    and db': "db' = hold_audit (Some (hc_userId c)) ''inventory.hold.created'' newId (hc_requestId c) (set_hold newId (\<lambda>h. h\<lparr>ih_status := HELD\<rparr>) db1)"
    using run unfolding place_hold_def h_def [symmetric] Let_def by (auto simp: ebind_Inr_iff)
  have h: "ih_id h = newId" "ih_status h = HOLD_PENDING" by (simp_all add: h_def new_hold_def)
  note added = add_hold_ok [OF ok, of h]
  have s: "status_of (db\<lparr>iv_holds := iv_holds db @ [h]\<rparr>) newId = Some HOLD_PENDING" using added(2) fresh h by simp
  have ok1: "inventory_ok db1" and same: "iv_holds db1 = iv_holds db @ [h]"
    using reserve_dates_ok [OF added(1) s _ e] fresh h by (simp_all add: live_def)
  have s1: "status_of db1 newId = Some HOLD_PENDING" using s same by (simp add: status_of_def find_hold_def)
  show ?thesis unfolding db' inventory_ok_audits
    by (rule set_hold_ok [OF ok1 s1, where s' = HELD]) (simp_all add: live_def sold_def)
qed

lemma create_hold_ok:
  assumes "inventory_ok db" "newId \<notin> ih_id ` set (iv_holds db)" "create_hold env sha256 other mode t now newId c seen db = Inr (db', r)"
  shows "inventory_ok db'"
proof -
  consider "db' = db" | db1 fingerprint expires where "place_hold other now newId fingerprint expires c db1 = Inr (db', r)" "inventory_ok db1" "iv_holds db1 = iv_holds db"
    using assms(1,3) unfolding create_hold_def Let_def
    by (auto simp: ebind_Inr_iff hold_audit_def inventory_ok_audits [unfolded hold_audit_def] split: option.splits)
  then show ?thesis
  proof cases
    case 1
    then show ?thesis using assms(1) by simp
  next
    case 2
    then show ?thesis using place_hold_ok [OF 2(2) _ 2(1)] assms(2) by simp
  qed
qed

subsection \<open>Every operation keeps the invariant\<close>

lemma mset_nights [simp]: "mset (nights_by_date db i) = mset (nights_of db i)"
  by (simp add: nights_by_date_def)

lemma status_find: "find_hold db i = Some h \<Longrightarrow> status_of db i = Some (ih_status h)"
  by (simp add: status_of_def)

lemma release_hold_Inr:
  assumes "release_hold now i requestId userId expired heldOnly db = Inr db'"
  obtains (nothing) "db' = db"
  | (returned) h db1 where "find_hold db i = Some h" "ih_status h = HELD \<or> ih_status h = PROCESSING" "efold (moveNight MoveRelease) db (nights_by_date db i) = Inr db1"
      "db' = hold_audit userId (if expired then ''inventory.hold.expired'' else ''inventory.hold.released'') i requestId
         (set_hold i (\<lambda>h. h\<lparr>ih_status := (if expired then EXPIRED else RELEASED), ih_releasedAt := Some now\<rparr>) db1)"
  using assms by (auto simp: release_hold_def moves_commute split: option.splits if_splits sum.splits)

lemma release_hold_ok:
  assumes ok: "inventory_ok db" and run: "release_hold now i requestId userId expired heldOnly db = Inr db'"
  shows "inventory_ok db'"
  using run
proof (cases rule: release_hold_Inr)
  case nothing
  then show ?thesis using ok by simp
next
  case (returned h db1)
  have "move_status MoveRelease (ih_status h) (if expired then EXPIRED else RELEASED)" using returned(2) by (auto simp: move_status_def live_def sold_def)
  then show ?thesis unfolding returned(4) inventory_ok_audits
    by (intro moves_keep_ok [OF ok status_find [OF returned(1)] _ _ _ mset_nights returned(3)]) simp_all
qed

lemma expire_each_ok: "inventory_ok db \<Longrightarrow> inventory_ok (fst (expire_each now ids db))"
  by (induction now ids db rule: expire_each.induct) (auto split: sum.splits dest: release_hold_ok)

lemma releaseOwn_ok: "inventory_ok db \<Longrightarrow> inventory_ok (fst (releaseOwn now i userId requestId db))"
  by (auto simp: releaseOwn_def split: option.splits sum.splits dest: release_hold_ok)

lemma beginProcessing_ok:
  assumes "inventory_ok db" "beginProcessing now i requestId userId db = Inr db'"
  shows "inventory_ok db'"
proof -
  consider "db' = db" | h where "find_hold db i = Some h" "ih_status h = HELD"
      "db' = hold_audit (Some userId) ''inventory.hold.processing'' i requestId (set_hold i (\<lambda>h. h\<lparr>ih_status := PROCESSING\<rparr>) db)"
    using assms(2) by (auto simp: beginProcessing_def split: option.splits if_splits)
  then show ?thesis
  proof cases
    case 1
    then show ?thesis using assms(1) by simp
  next
    case 2
    show ?thesis unfolding 2(3) inventory_ok_audits
      by (rule set_hold_ok [OF assms(1) status_find [OF 2(1)], where s' = PROCESSING]) (simp_all add: 2(2) live_def sold_def)
  qed
qed

lemma confirm_inventory_ok:
  assumes ok: "inventory_ok db" and s: "status_of db i = Some s" "live s" and run: "confirm_inventory i db = Inr db'"
  shows "inventory_ok db'"
proof -
  obtain db1 where e: "efold (moveNight MoveConfirm) db (nights_of db i) = Inr db1" and db': "db' = set_hold i (\<lambda>h. h\<lparr>ih_status := HOLD_CONFIRMED\<rparr>) db1"
    using run by (auto simp: confirm_inventory_def ebind_Inr_iff split: if_splits)
  show ?thesis unfolding db'
    by (rule moves_keep_ok [OF ok s(1) _ _ _ refl e, where s' = HOLD_CONFIRMED]) (simp_all add: move_status_def sold_def s(2))
qed

lemma cancel_inventory_ok:
  assumes ok: "inventory_ok db" and s: "status_of db i = Some HOLD_CONFIRMED" and run: "cancel_inventory now i db = Inr db'"
  shows "inventory_ok db'"
proof -
  obtain db1 where e: "efold (moveNight MoveCancel) db (nights_of db i) = Inr db1"
    and db': "db' = set_hold i (\<lambda>h. h\<lparr>ih_status := RELEASED, ih_releasedAt := Some now\<rparr>) db1"
    using run by (auto simp: cancel_inventory_def ebind_Inr_iff split: if_splits)
  show ?thesis unfolding db'
    by (rule moves_keep_ok [OF ok s _ _ _ refl e, where s' = RELEASED]) (simp_all add: move_status_def live_def sold_def)
qed

text \<open>The database function moves the counters as the service does.\<close>

lemma return_night_moves: "night_named n \<Longrightarrow> return_night db n = Inr db' \<Longrightarrow> moveNight MoveCancel db n = Inr db'"
  by (cases "hn_counterKind n")
    (auto simp: return_night_def moveNight_def night_named_def raise_exception_def counter_has_def Let_def split: if_splits)

lemma return_nights_move:
  "\<forall>n \<in> set ns. night_named n \<Longrightarrow> efold return_night db ns = Inr db' \<Longrightarrow> efold (moveNight MoveCancel) db ns = Inr db'"
  by (induction ns arbitrary: db) (auto simp: ebind_Inr_iff dest: return_night_moves)

lemma release_cancelled_ok:
  assumes ok: "inventory_ok db" and run: "release_cancelled_inventory now cancelled holdId hotelId ratePlanId db = Inr db'"
  shows "inventory_ok db'"
proof -
  consider "db' = db" | i h db1 where "find_hold db i = Some h" "ih_status h = HOLD_CONFIRMED"
      "efold return_night db (sort_key hn_stayDate (sort_key hn_availabilityId (nights_of db i))) = Inr db1"
      "db' = set_hold i (\<lambda>h. h\<lparr>ih_status := RELEASED, ih_releasedAt := Some now\<rparr>) db1"
    using run by (auto simp: release_cancelled_inventory_def raise_exception_def ebind_Inr_iff split: option.splits if_splits)
  then show ?thesis
  proof cases
    case 1
    then show ?thesis using ok by simp
  next
    case 2
    let ?ns = "sort_key hn_stayDate (sort_key hn_availabilityId (nights_of db i))"
    have ns: "mset ?ns = mset (nights_of db i)" by simp
    have "\<forall>n \<in> set ?ns. night_named n" using ok by (auto simp: inventory_ok_def nights_ok_def nights_of_def)
    note e = return_nights_move [OF this 2(3)]
    show ?thesis unfolding 2(4)
      by (rule moves_keep_ok [OF ok status_find [OF 2(1)] _ _ _ ns e, where s' = RELEASED]) (simp_all add: 2(2) move_status_def live_def sold_def)
  qed
qed

subsection \<open>Histories of the stock\<close>

text \<open>
  What the administration does to the stock between: rows and pool days are added empty, edited and removed while no
  hold is on them. The database's CHECK keeps what is held and sold within the new limit.
\<close>

definition stock_edited :: "InventoryDb \<Rightarrow> InventoryDb \<Rightarrow> bool" where
  "stock_edited db db' \<longleftrightarrow> same_tables db db' \<and> ids_distinct db'
     \<and> (\<forall>n \<in> set (iv_nights db). \<forall>c. counter_of n = Some c \<longrightarrow> counts db' c \<noteq> None)
     \<and> (\<forall>c h s l. counts db' c = Some (h, s, l) \<longrightarrow> s + h \<le> l
          \<and> (case counts db c of Some (h0, s0, l0) \<Rightarrow> h = h0 \<and> s = s0 | None \<Rightarrow> h = 0 \<and> s = 0))"

inductive stock_step :: "InventoryDb \<Rightarrow> InventoryDb \<Rightarrow> bool" where
  stock_create: "create_hold env sha256 other mode t now newId c seen db = Inr (db', r) \<Longrightarrow> newId \<notin> ih_id ` set (iv_holds db) \<Longrightarrow> stock_step db db'"
| stock_begin: "beginProcessing now i requestId userId db = Inr db' \<Longrightarrow> stock_step db db'"
| stock_release: "release_hold now i requestId userId expired heldOnly db = Inr db' \<Longrightarrow> stock_step db db'"
| stock_releaseOwn: "releaseOwn now i userId requestId db = (db', r) \<Longrightarrow> stock_step db db'"
| stock_expire: "expireDue now db = (db', n) \<Longrightarrow> stock_step db db'"
| stock_confirm: "find_hold db i = Some h \<Longrightarrow> ih_status h = PROCESSING \<Longrightarrow> confirm_inventory i db = Inr db' \<Longrightarrow> stock_step db db'"
| stock_cancel: "find_hold db i = Some h \<Longrightarrow> ih_status h = HOLD_CONFIRMED \<Longrightarrow> cancel_inventory now i db = Inr db' \<Longrightarrow> stock_step db db'"
| stock_return: "release_cancelled_inventory now cancelled holdId hotelId ratePlanId db = Inr db' \<Longrightarrow> stock_step db db'"
| stock_edit: "stock_edited db db' \<Longrightarrow> stock_step db db'"

definition empty_stock :: "InventoryDb \<Rightarrow> bool" where
  "empty_stock db \<longleftrightarrow> ids_distinct db \<and> iv_holds db = [] \<and> iv_nights db = []
     \<and> (\<forall>r \<in> set (iv_rows db). dr_held r = 0 \<and> dr_sold r = 0 \<and> 0 \<le> dr_allotment r)
     \<and> (\<forall>d \<in> set (iv_poolDays db). pd_held d = 0 \<and> pd_sold d = 0 \<and> 0 \<le> pd_capacity d)"

inductive stock_reachable :: "InventoryDb \<Rightarrow> bool" where
  stock_empty: "empty_stock db \<Longrightarrow> stock_reachable db"
| stock_next: "stock_reachable db \<Longrightarrow> stock_step db db' \<Longrightarrow> stock_reachable db'"

lemma edited_ok:
  assumes ok: "inventory_ok db" and e: "stock_edited db db'"
  shows "inventory_ok db'"
proof -
  have st: "same_tables db db'" using e by (simp add: stock_edited_def)
  note same = same_tables_status [OF st]
  have nights: "nights_ok db" and counters: "counters_ok db" using ok by (simp_all add: inventory_ok_def)
  have n': "nights_ok db'" using nights e same unfolding nights_ok_def stock_edited_def by auto
  have "counters_ok db'"
    unfolding counters_ok_def
  proof (intro allI impI)
    fix c h s l assume c: "counts db' c = Some (h, s, l)"
    have edit: "s + h \<le> l \<and> (case counts db c of Some (h0, s0, l0) \<Rightarrow> h = h0 \<and> s = s0 | None \<Rightarrow> h = 0 \<and> s = 0)" using e c unfolding stock_edited_def by blast
    show "h = rooms_on live c db' \<and> s = rooms_on sold c db' \<and> s + h \<le> l"
    proof (cases "counts db c")
      case None
      have "counter_of n \<noteq> Some c" if "n \<in> set (iv_nights db)" for n using nights that None by (auto simp: nights_ok_def)
      then have "rooms_on S c db = 0" for S unfolding rooms_on_def sum_where_def by (auto simp: filter_empty_conv)
      then show ?thesis using edit None same by simp
    next
      case (Some k)
      obtain h0 s0 l0 where k: "counts db c = Some (h0, s0, l0)" using Some by (cases k) simp
      have "h0 = rooms_on live c db \<and> s0 = rooms_on sold c db" using counters k unfolding counters_ok_def by blast
      then show ?thesis using edit k same by simp
    qed
  qed
  then show ?thesis using ok n' st e by (simp add: inventory_ok_def same_tables_def stock_edited_def)
qed

lemma stock_step_ok: "stock_step db db' \<Longrightarrow> inventory_ok db \<Longrightarrow> inventory_ok db'"
proof (induction rule: stock_step.induct)
  case (stock_create env sha256 other mode t now newId c seen db db' r)
  then show ?case using create_hold_ok [of db newId] by blast
next
  case stock_begin
  then show ?case by (rule beginProcessing_ok [rotated])
next
  case stock_release
  then show ?case by (rule release_hold_ok [rotated])
next
  case (stock_releaseOwn now i userId requestId db db' r)
  then show ?case using releaseOwn_ok [of db now i userId requestId] by simp
next
  case (stock_expire now db db' n)
  then show ?case using expire_each_ok [of db now "due_holds now db"] by (auto simp: expireDue_def Let_def split: prod.splits)
next
  case (stock_confirm db i h db')
  then show ?case using confirm_inventory_ok [OF _ status_find [OF stock_confirm(1)]] by (simp add: live_def)
next
  case (stock_cancel db i h now db')
  then show ?case using cancel_inventory_ok [of db i] status_find [OF stock_cancel(1)] by simp
next
  case stock_return
  then show ?case by (rule release_cancelled_ok [rotated])
next
  case stock_edit
  then show ?case by (rule edited_ok [rotated])
qed

lemma stock_reachable_ok: "stock_reachable db \<Longrightarrow> inventory_ok db"
proof (induction rule: stock_reachable.induct)
  case (stock_empty db)
  have "counts db c = Some (h, s, l) \<Longrightarrow> h = 0 \<and> s = 0 \<and> 0 \<le> l" for c h s l
    using stock_empty by (cases c) (auto simp: empty_stock_def dest: find_SomeD)
  then have "counts db c = Some (h, s, l) \<Longrightarrow> h = rooms_on live c db \<and> s = rooms_on sold c db \<and> s + h \<le> l" for c h s l
    using stock_empty by (fastforce simp: rooms_on_def empty_stock_def)
  then have "counters_ok db" unfolding counters_ok_def by blast
  then show ?case using stock_empty by (simp add: inventory_ok_def empty_stock_def nights_ok_def)
next
  case (stock_next db db')
  then show ?case by (blast intro: stock_step_ok)
qed

subsection \<open>Properties\<close>


lemma status_after: "(\<And>h. ih_id (f h) = ih_id h) \<Longrightarrow> (\<And>h. ih_status (f h) = s) \<Longrightarrow> status_of db i \<noteq> None \<Longrightarrow> status_of (set_hold i f db) i = Some s"
  by (simp add: status_set_hold)

lemma status_audit [simp]: "status_of (hold_audit u a e r db) i = status_of db i"
  by (simp add: status_of_def find_hold_def hold_audit_def)


subsection \<open>Sample stock\<close>

definition sample_day :: int where "sample_day = 1893456000000"
definition sample_now :: int where "sample_now = 1893369600000"

definition sample_row :: "int \<Rightarrow> int \<Rightarrow> int \<Rightarrow> PlanRow" where
  "sample_row held_rooms sold_rooms limit = \<lparr>dr_id = ''d'', dr_ratePlanId = ''p'', dr_stayDate = sample_day, dr_mode = ALLOTMENT, dr_stopSell = False,
     dr_source = ''ADMIN'', dr_freshUntil = None, dr_allotment = limit, dr_sold = sold_rooms, dr_held = held_rooms\<rparr>"

definition sample_stock_db :: "PlanRow \<Rightarrow> InventoryHoldRow list \<Rightarrow> HoldNightRow list \<Rightarrow> HoldAudit list \<Rightarrow> InventoryDb" where
  "sample_stock_db row holds nights audits = \<lparr>iv_rows = [row], iv_plans = [\<lparr>rp_id = ''p'', rp_roomTypeId = ''t'', rp_contractId = ''k'', rp_poolId = None\<rparr>],
     iv_pools = [], iv_poolDays = [], iv_rules = [], iv_holds = holds, iv_nights = nights,
     iv_ledger = \<lparr>ws_rows = [], ws_wallets = [], ws_limits = [], ws_cachedBalance = [], ws_audits = []\<rparr>, iv_members = [], iv_audits = audits\<rparr>"

definition sample_hold_command :: HoldCommand where
  "sample_hold_command = \<lparr>hc_userId = ''u'', hc_requestId = ''r'', hc_offerId = ''o'', hc_searchId = ''s'', hc_ratePlanId = ''p'', hc_canonicalHotelId = ''h'',
     hc_canonicalRoomTypeId = ''t'', hc_boardBasisId = ''b'', hc_checkIn = ''2030-01-01'', hc_checkOut = ''2030-01-02'', hc_rooms = JInt 1, hc_currency = ''AED'',
     hc_sellAmountMinor = JInt 900, hc_netAmountMinor = None, hc_offerExpiresAt = ''2029-12-31T10:00:00.000Z'', hc_idempotencyKey = ''key-0001''\<rparr>"

definition sample_hold :: "string \<Rightarrow> InventoryHoldStatus \<Rightarrow> InventoryHoldRow" where
  "sample_hold i s = (new_hold i ''f'' (sample_now + 15 * 60000) sample_hold_command)\<lparr>ih_status := s\<rparr>"

definition sample_hold_night :: "string \<Rightarrow> HoldNightRow" where
  "sample_hold_night i = \<lparr>hn_availabilityId = ''d'', hn_counterKind = PLAN_ROW, hn_poolDayId = None, hn_quantity = 1, hn_holdId = i, hn_stayDate = sample_day\<rparr>"

definition sample_empty :: InventoryDb where "sample_empty = sample_stock_db (sample_row 0 0 1) [] [] []"

definition sample_held :: InventoryDb where
  "sample_held = hold_audit (Some ''u'') ''inventory.hold.created'' ''x'' ''r'' (sample_stock_db (sample_row 1 0 1) [sample_hold ''x'' HELD] [sample_hold_night ''x''] [])"

definition sample_claimed :: InventoryDb where
  "sample_claimed = hold_audit (Some ''u'') ''inventory.hold.processing'' ''x'' ''r'' (set_hold ''x'' (\<lambda>h. h\<lparr>ih_status := PROCESSING\<rparr>) sample_held)"

lemma sample_validate: "hold_validate None (\<lambda>s. None) ''T'' sample_now sample_hold_command = Inr (sample_now + 36000000)"
  by code_simp

lemma sample_stay: "stayDates (\<lambda>s. None) ''2030-01-01'' ''2030-01-02'' = Inr [sample_day]"
  by code_simp

lemma sample_placed:
  "place_hold (\<lambda>s. None) sample_now ''x'' ''f'' (sample_now + 36000000) sample_hold_command sample_empty
    = Inr (sample_held, \<lparr>hr_holdId = ''x'', hr_requestId = ''r'', hr_already = False, hr_expiresAt = sample_now + 15 * 60000, hr_currency = ''AED'', hr_sellAmountMinor = 900\<rparr>)"
  unfolding place_hold_def Let_def
  by (simp add: sample_hold_command_def sample_stay)
    (simp add: reserve_date_def reserveNight_def plan_rows_of_def sample_empty_def sample_stock_db_def sample_row_def sales_rules_def sales_cap_def rowIsFresh_def
      startsWith_def take_units_def pool_key_def plan_row_takes_def fits_def change_plan_rows_def hold_response_def new_hold_def sample_held_def sample_hold_def
      sample_hold_command_def sample_hold_night_def set_hold_def hold_audit_def safe_int_def MAX_SAFE_INTEGER_def Let_def)

lemma sample_created:
  "create_hold None (\<lambda>s. ''f'') (\<lambda>s. None) Shadow ''T'' sample_now ''x'' sample_hold_command sample_empty sample_empty
    = Inr (sample_held, \<lparr>hr_holdId = ''x'', hr_requestId = ''r'', hr_already = False, hr_expiresAt = sample_now + 15 * 60000, hr_currency = ''AED'', hr_sellAmountMinor = 900\<rparr>)"
proof -
  have "hold_of_key sample_empty k = None" "iv_members sample_empty = []" for k
    by (simp_all add: hold_of_key_def sample_empty_def sample_stock_db_def)
  then show ?thesis
    by (simp add: create_hold_def sample_validate holdFingerprint_def assertAgencyCredit_def credit_view_def sample_placed Let_def)
qed

lemma sample_stock_reachable: "stock_reachable sample_held" "stock_reachable sample_claimed"
proof -
  have 0: "stock_reachable sample_empty"
    by (rule stock_empty) (simp add: empty_stock_def ids_distinct_def sample_empty_def sample_stock_db_def sample_row_def)
  show 1: "stock_reachable sample_held"
    by (rule stock_next [OF 0 stock_create [OF sample_created]]) (simp add: sample_empty_def sample_stock_db_def)
  have "beginProcessing sample_now ''x'' ''r'' ''u'' sample_held = Inr sample_claimed"
    by (simp add: beginProcessing_def find_hold_def sample_held_def hold_audit_def sample_stock_db_def sample_hold_def new_hold_def sample_now_def sample_claimed_def)
  then show "stock_reachable sample_claimed" by (rule stock_next [OF 1 stock_begin])
qed

lemma sample_claimed_state:
  "counts sample_claimed (OnRow ''d'') = Some (1, 0, 1)" "find_hold sample_claimed ''x'' = Some (sample_hold ''x'' PROCESSING)" "nights_of sample_claimed ''x'' = [sample_hold_night ''x'']"
  by (simp_all add: sample_claimed_def sample_held_def hold_audit_def sample_stock_db_def sample_row_def set_hold_def find_hold_def sample_hold_def new_hold_def nights_of_def
      sample_hold_night_def)



text \<open>
  The agent's cancellation does not look at the status of the hold, as the database function does. For a booking whose
  hold was claimed and never confirmed (an operator recorded the confirmation) it takes the rooms of another booking
  off the sold counter and leaves its own held.
\<close>

definition sample_mixed :: InventoryDb where
  "sample_mixed = sample_stock_db (sample_row 1 1 2) [sample_hold ''x'' PROCESSING, sample_hold ''y'' HOLD_CONFIRMED] [sample_hold_night ''x'', sample_hold_night ''y''] []"

lemma sample_mixed_ok: "inventory_ok sample_mixed"
proof -
  have "counts sample_mixed c = Some (h, s, l) \<Longrightarrow> h = rooms_on live c sample_mixed \<and> s = rooms_on sold c sample_mixed \<and> s + h \<le> l" for c h s l
    by (cases c) (auto simp: sample_mixed_def sample_stock_db_def sample_row_def sample_hold_def new_hold_def sample_hold_night_def rooms_on_def counter_of_def status_of_def
        find_hold_def live_def sold_def split: if_splits)
  then show ?thesis
    by (simp add: inventory_ok_def counters_ok_def ids_distinct_def nights_ok_def night_named_def counter_of_def status_of_def find_hold_def
        sample_mixed_def sample_stock_db_def sample_row_def sample_hold_def new_hold_def sample_hold_night_def)
qed

lemma cancel_takes_other_rooms:
  "inventory_ok sample_mixed \<and> status_of sample_mixed ''x'' = Some PROCESSING
    \<and> (\<exists>db. cancel_inventory sample_now ''x'' sample_mixed = Inr db \<and> counts db (OnRow ''d'') = Some (1, 0, 2)
         \<and> rooms_on sold (OnRow ''d'') db = 1 \<and> rooms_on live (OnRow ''d'') db = 0)
    \<and> release_cancelled_inventory sample_now True (Some ''x'') ''h'' (Some ''p'') sample_mixed = Inl (ServerError ''Confirmed inventory required'')"
  using sample_mixed_ok
  by (simp add: cancel_inventory_def nights_of_def moveNight_def counter_has_def change_plan_rows_def move_plan_row_def set_hold_def rooms_on_def counter_of_def status_of_def
      find_hold_def live_def sold_def release_cancelled_inventory_def raise_exception_def sample_mixed_def sample_stock_db_def sample_row_def sample_hold_def new_hold_def
      sample_hold_night_def sample_hold_command_def Let_def)
end
