(* ===== verification/Finance_Posting.thy ===== *)
theory Finance_Posting
  imports Booking_Finance Wallet_Ledger
begin
text \<open>
  The finance consumer of a booking's money facts: the accounting rules
  (\<open>apps/api/src/booking-finance-posting/posting-plan.ts\<close>) and the service that reads what the ledger already
  says, posts the entries they prescribe and records the outcome (\<open>booking-finance-posting.service.ts\<close>), over the
  ledger of \<open>Wallet_Ledger\<close>. A transaction sees its tenant's rows; two events of a booking are never posted
  concurrently (an advisory lock). The identifiers and the time the database gives new rows are parameters.
\<close>

subsection \<open>Facts and plans\<close>

datatype PaymentMode = PM_CREDIT | PM_PREPAID | PM_PAY_AT_HOTEL

datatype PayableKind = ACCRUAL | PAYABLE_ADJUSTMENT | PAYABLE_REVERSAL

record PostingEvent =
  pe_id :: string
  pe_type :: BookingFinanceEventType
  pe_seq :: int
  pe_currency :: string
  pe_sellMinor :: int
  pe_netMinor :: "int option"
  pe_penaltyMinor :: "int option"
  pe_refundMinor :: "int option"
  pe_adjustmentMinor :: "int option"
  pe_paymentMode :: "PaymentMode option"

record PostingFacts =
  fx_bookingId :: string
  fx_agencyId :: "string option"
  fx_supplierId :: "string option"
  fx_walletId :: "string option"
  fx_heldMinor :: "int option"
  fx_holdReleased :: bool
  fx_chargedMinor :: "int option"
  fx_cancellationRefundMinor :: "int option"
  fx_laterAmendments :: "(int \<times> int option) list"
  fx_refundedMinor :: int
  fx_payableMinor :: int
  fx_cancelledBefore :: bool
  fx_noShow :: bool

record LedgerLeg =
  lg_legType :: LedgerEntryKind
  lg_legMinor :: int
  lg_reference :: string
  lg_key :: string

record PayableLeg =
  pl_kind :: PayableKind
  pl_amountMinor :: int

datatype SkipReason = SKIP_PAY_AT_HOTEL | ZERO_SELL | ALREADY_CHARGED_ON_LEDGER | HOLD_ALREADY_POSTED | NO_HOLD_ON_LEDGER | HOLD_ALREADY_RELEASED
  | PENALTY_UNDETERMINED | AWAITS_CANCELLATION | NOT_CHARGED_ON_LEDGER | NOTHING_TO_ADD | AMENDMENT_ALREADY_REFLECTED

datatype ReviewReason = PAYMENT_MODE_UNKNOWN | NO_AGENCY | NO_WALLET | NO_SUPPLIER | NET_UNKNOWN | REFUND_EXCEEDS_CHARGE | REFUND_WOULD_DECREASE
  | EVENT_INCONSISTENT | HOLD_AMOUNT_DIFFERS | AMENDMENT_NEEDS_LEDGER_ADJUSTMENT

datatype PostingPlan = Post "LedgerLeg list" "PayableLeg option" "int option" "string list" | Skip SkipReason | Review ReviewReason

definition bookingReference :: "string \<Rightarrow> string" where "bookingReference bookingId = ''booking:'' @ bookingId"
definition holdKey :: "string \<Rightarrow> string" where "holdKey bookingId = ''booking:'' @ bookingId @ '':authorize''"
definition releaseKey :: "string \<Rightarrow> string" where "releaseKey bookingId = holdKey bookingId @ '':release''"
definition settleReleaseKey :: "string \<Rightarrow> string" where "settleReleaseKey bookingId = holdKey bookingId @ '':settle-release''"
definition settleDebitKey :: "string \<Rightarrow> string" where "settleDebitKey bookingId = holdKey bookingId @ '':settle-debit''"

definition refundKey :: "string \<Rightarrow> int \<Rightarrow> int \<Rightarrow> string" where
  "refundKey bookingId targetMinor alreadyRefundedMinor =
     (if alreadyRefundedMinor = 0 then ''booking:'' @ bookingId @ '':cancel-refund''
      else ''booking:'' @ bookingId @ '':cancel-refund:'' @ string_of_int targetMinor)"

subsection \<open>The accounting rules\<close>

definition posting_gate :: "PostingEvent \<Rightarrow> PostingFacts \<Rightarrow> PostingPlan option" where
  "posting_gate e x =
     (if pe_paymentMode e = None then Some (Review PAYMENT_MODE_UNKNOWN)
      else if pe_paymentMode e = Some PM_PAY_AT_HOTEL then Some (Skip SKIP_PAY_AT_HOTEL)
      else if fx_agencyId x = None then Some (Review NO_AGENCY)
      else None)"

definition needsWallet :: "PostingFacts \<Rightarrow> LedgerLeg list \<Rightarrow> bool" where
  "needsWallet x legs \<longleftrightarrow> legs \<noteq> [] \<and> fx_walletId x = None"

definition leg :: "PostingFacts \<Rightarrow> LedgerEntryKind \<Rightarrow> int \<Rightarrow> string \<Rightarrow> LedgerLeg" where
  "leg x type amount key = \<lparr>lg_legType = type, lg_legMinor = amount, lg_reference = bookingReference (fx_bookingId x), lg_key = key\<rparr>"

definition charge_legs :: "PostingFacts \<Rightarrow> int \<Rightarrow> LedgerLeg list" where
  "charge_legs x sell =
     (let b = fx_bookingId x in
      if sell > 0 then
        (if fx_heldMinor x = None then [leg x ''HOLD'' (- sell) (holdKey b)] else [])
        @ (if fx_heldMinor x = None \<or> \<not> fx_holdReleased x then [leg x ''RELEASE'' sell (settleReleaseKey b)] else [])
        @ [leg x ''DEBIT'' (- sell) (settleDebitKey b)]
      else [])"

definition confirmed_plan :: "PostingEvent \<Rightarrow> PostingFacts \<Rightarrow> PostingPlan" where
  "confirmed_plan e x =
     (if fx_chargedMinor x \<noteq> None then Skip ALREADY_CHARGED_ON_LEDGER
      else let (sell, net) = (if fx_laterAmendments x = [] then (pe_sellMinor e, pe_netMinor e) else last (fx_laterAmendments x)) in
        if fx_heldMinor x \<noteq> None \<and> \<not> fx_holdReleased x \<and> fx_heldMinor x \<noteq> Some sell then Review HOLD_AMOUNT_DIFFERS
        else let legs = charge_legs x sell in
          if needsWallet x legs then Review NO_WALLET
          else case net of
            None \<Rightarrow> Review NET_UNKNOWN
          | Some n \<Rightarrow>
              if n > 0 \<and> fx_supplierId x = None then Review NO_SUPPLIER
              else let payable = (if n > 0 then Some \<lparr>pl_kind = ACCRUAL, pl_amountMinor = n\<rparr> else None) in
                if legs = [] \<and> payable = None then Skip ZERO_SELL
                else Post legs payable None (if fx_laterAmendments x = [] then [] else [''INCLUDES_LATER_AMENDMENT'']))"

definition hold_plan :: "PostingEvent \<Rightarrow> PostingFacts \<Rightarrow> PostingPlan" where
  "hold_plan e x =
     (if pe_sellMinor e \<le> 0 then Skip ZERO_SELL
      else if fx_heldMinor x \<noteq> None then Skip HOLD_ALREADY_POSTED
      else if fx_chargedMinor x \<noteq> None then Skip ALREADY_CHARGED_ON_LEDGER
      else if fx_walletId x = None then Review NO_WALLET
      else Post [leg x ''HOLD'' (- pe_sellMinor e) (holdKey (fx_bookingId x))] None None [])"

definition release_plan :: "PostingFacts \<Rightarrow> PostingPlan" where
  "release_plan x =
     (case fx_heldMinor x of
        None \<Rightarrow> Skip NO_HOLD_ON_LEDGER
      | Some held \<Rightarrow>
          if fx_holdReleased x then Skip HOLD_ALREADY_RELEASED
          else Post [leg x ''RELEASE'' held (releaseKey (fx_bookingId x))] None None [])"

definition cancellationPayable :: "PostingEvent \<Rightarrow> PostingFacts \<Rightarrow> PayableLeg option" where
  "cancellationPayable e x =
     (if pe_penaltyMinor e \<noteq> Some 0 \<or> fx_payableMinor x \<le> 0 then None
      else Some \<lparr>pl_kind = PAYABLE_REVERSAL, pl_amountMinor = - fx_payableMinor x\<rparr>)"

definition refund_legs :: "PostingFacts \<Rightarrow> int \<Rightarrow> LedgerLeg list" where
  "refund_legs x target =
     (if target - fx_refundedMinor x > 0
      then [leg x ''REFUND'' (target - fx_refundedMinor x) (refundKey (fx_bookingId x) target (fx_refundedMinor x))] else [])"

definition refund_plan :: "PostingEvent \<Rightarrow> PostingFacts \<Rightarrow> int \<Rightarrow> int \<Rightarrow> PostingPlan" where
  "refund_plan e x penalty target =
     (let payable = cancellationPayable e x; notes = (if penalty > 0 then [''SUPPLIER_LEG_AWAITS_STATEMENT''] else []) in
      case fx_chargedMinor x of
        None \<Rightarrow> if payable \<noteq> None then Post [] payable None notes else Skip NOT_CHARGED_ON_LEDGER
      | Some charged \<Rightarrow>
          if \<not> refundWithin target charged then Review REFUND_EXCEEDS_CHARGE
          else if target < fx_refundedMinor x then Review REFUND_WOULD_DECREASE
          else let legs = refund_legs x target in
            if needsWallet x legs then Review NO_WALLET
            else let recordNeeded = pe_type e \<noteq> FE_NO_SHOW \<and> \<not> fx_noShow x \<and> fx_cancellationRefundMinor x \<noteq> Some target in
              if legs = [] \<and> payable = None \<and> \<not> recordNeeded then Skip NOTHING_TO_ADD
              else Post legs payable (if recordNeeded then Some target else None) notes)"

definition cancel_plan :: "PostingEvent \<Rightarrow> PostingFacts \<Rightarrow> PostingPlan" where
  "cancel_plan e x =
     (if pe_type e \<noteq> FE_CANCELLED \<and> pe_type e \<noteq> FE_NO_SHOW \<and> \<not> fx_cancelledBefore x then Skip AWAITS_CANCELLATION
      else case (pe_penaltyMinor e, pe_refundMinor e) of
        (Some penalty, Some refund) \<Rightarrow>
          if penalty + refund \<noteq> pe_sellMinor e then Review EVENT_INCONSISTENT else refund_plan e x penalty refund
      | _ \<Rightarrow> Skip PENALTY_UNDETERMINED)"

definition amended_plan :: "PostingEvent \<Rightarrow> PostingFacts \<Rightarrow> PostingPlan" where
  "amended_plan e x =
     (if pe_adjustmentMinor e = None \<or> pe_adjustmentMinor e = Some 0 then Review EVENT_INCONSISTENT
      else case fx_chargedMinor x of
        None \<Rightarrow> Skip NOT_CHARGED_ON_LEDGER
      | Some charged \<Rightarrow>
          if charged \<in> set (pe_sellMinor e # map fst (fx_laterAmendments x)) then Skip AMENDMENT_ALREADY_REFLECTED
          else Review AMENDMENT_NEEDS_LEDGER_ADJUSTMENT)"

definition planPosting :: "PostingEvent \<Rightarrow> PostingFacts \<Rightarrow> PostingPlan" where
  "planPosting e x =
     (case posting_gate e x of
        Some early \<Rightarrow> early
      | None \<Rightarrow>
          (case pe_type e of
             FE_CONFIRMED \<Rightarrow> confirmed_plan e x
           | FE_ON_REQUEST_HOLD \<Rightarrow> hold_plan e x
           | FE_HOLD_RELEASED \<Rightarrow> release_plan x
           | FE_AMENDED \<Rightarrow> amended_plan e x
           | _ \<Rightarrow> cancel_plan e x))"

definition agencyEffect :: "LedgerLeg list \<Rightarrow> int" where
  "agencyEffect legs = foldl (\<lambda>s l. s + lg_legMinor l) 0 legs"

definition salesOf :: "LedgerLeg list \<Rightarrow> int" where
  "salesOf legs = foldl (\<lambda>s l. if lg_legType l = ''DEBIT'' then s - lg_legMinor l else s) 0 legs"

definition refundsOf :: "LedgerLeg list \<Rightarrow> int" where
  "refundsOf legs = foldl (\<lambda>s l. if lg_legType l = ''REFUND'' then s + lg_legMinor l else s) 0 legs"

subsection \<open>The service\<close>

record PostingBooking =
  pb_id :: string
  pb_currency :: string
  pb_agencyId :: "string option"
  pb_supplierId :: "string option"
  pb_paymentMode :: "PaymentMode option"
  pb_netMinor :: "int option"

record PostedEvent = PostingEvent +
  pe_bookingId :: string
  pe_createdAt :: int

datatype PostingStatus = POSTED | SKIPPED | REVIEW_REQUIRED

datatype PostingReason = BySkip SkipReason | ByReview ReviewReason

record PostingRow =
  pr_eventId :: string
  pr_bookingId :: string
  pr_status :: PostingStatus
  pr_reason :: "PostingReason option"
  pr_attempts :: nat
  pr_walletId :: "string option"
  pr_currency :: string
  pr_salesMinor :: int
  pr_refundsMinor :: int
  pr_agencyEffectMinor :: int
  pr_payableEffectMinor :: int
  pr_updatedAt :: int

record PayableRow =
  py_bookingId :: string
  py_supplierId :: string
  py_eventId :: string
  py_kind :: PayableKind
  py_currency :: string
  py_amountMinor :: int

record PostingAudit =
  pa_posted :: bool
  pa_bookingId :: string
  pa_eventId :: string
  pa_reason :: "PostingReason option"

text \<open>A cancellation record whose refund is \<open>null\<close> holds none.\<close>

record PostingDb =
  fd_ledger :: wl_state
  fd_bookings :: "PostingBooking list"
  fd_events :: "PostedEvent list"
  fd_postings :: "PostingRow list"
  fd_payables :: "PayableRow list"
  fd_cancellations :: "(string \<times> int option) list"
  fd_audits :: "PostingAudit list"

datatype PostingOutcome = OUT_POSTED | OUT_SKIPPED | OUT_REVIEW | OUT_BLOCKED | OUT_ALREADY_FINAL | OUT_NOT_FOUND

text \<open>A unique violation is caught by the caller; anything else rolls the transaction back and is thrown on.\<close>

datatype PostingFailure = UniqueViolation | Thrown http_error | Fault string

type_synonym 'a posting = "PostingFailure + 'a"

definition earlier :: "PostedEvent \<Rightarrow> PostedEvent \<Rightarrow> bool" where
  "earlier a b \<longleftrightarrow> pe_createdAt a < pe_createdAt b \<or> (pe_createdAt a = pe_createdAt b \<and> pe_id a < pe_id b)"

definition posting_of :: "PostingDb \<Rightarrow> string \<Rightarrow> PostingRow option" where
  "posting_of db eventId = find (\<lambda>p. pr_eventId p = eventId) (fd_postings db)"

definition is_final :: "PostingDb \<Rightarrow> string \<Rightarrow> bool" where
  "is_final db eventId \<longleftrightarrow> (case posting_of db eventId of Some p \<Rightarrow> pr_status p \<noteq> REVIEW_REQUIRED | None \<Rightarrow> False)"

definition outcome_of_status :: "PostingStatus \<Rightarrow> PostingOutcome" where
  "outcome_of_status s = (case s of POSTED \<Rightarrow> OUT_POSTED | SKIPPED \<Rightarrow> OUT_SKIPPED | REVIEW_REQUIRED \<Rightarrow> OUT_REVIEW)"

definition new_posting ::
  "PostedEvent \<Rightarrow> PostingStatus \<Rightarrow> PostingReason option \<Rightarrow> string option \<Rightarrow> int \<Rightarrow> LedgerLeg list \<Rightarrow> int \<Rightarrow> nat \<Rightarrow> PostingRow" where
  "new_posting e status reason walletId at legs payableEffect attempts =
     \<lparr>pr_eventId = pe_id e, pr_bookingId = pe_bookingId e, pr_status = status, pr_reason = reason, pr_attempts = attempts, pr_walletId = walletId,
      pr_currency = pe_currency e, pr_salesMinor = salesOf legs, pr_refundsMinor = refundsOf legs, pr_agencyEffectMinor = agencyEffect legs,
      pr_payableEffectMinor = payableEffect, pr_updatedAt = at\<rparr>"

definition put_posting :: "PostingRow \<Rightarrow> PostingRow option \<Rightarrow> PostingRow list \<Rightarrow> PostingRow list" where
  "put_posting row prior rows =
     (case prior of
        None \<Rightarrow> rows @ [row]
      | Some p \<Rightarrow> map (\<lambda>r. if pr_eventId r = pr_eventId row then row\<lparr>pr_attempts := pr_attempts p + 1\<rparr> else r) rows)"

definition record_posting ::
  "int \<Rightarrow> PostedEvent \<Rightarrow> PostingStatus \<Rightarrow> PostingReason option \<Rightarrow> string option \<Rightarrow> LedgerLeg list \<Rightarrow> int \<Rightarrow> PostingDb \<Rightarrow> PostingDb \<times> PostingOutcome" where
  "record_posting at e status reason walletId legs payableEffect db =
     (let prior = posting_of db (pe_id e);
          audited = (status = POSTED \<or> (status = REVIEW_REQUIRED \<and> (case prior of None \<Rightarrow> True | Some p \<Rightarrow> pr_reason p \<noteq> reason))) in
      (db\<lparr>fd_postings := put_posting (new_posting e status reason walletId at legs payableEffect 1) prior (fd_postings db),
          fd_audits := fd_audits db @ (if audited then [\<lparr>pa_posted = (status = POSTED), pa_bookingId = pe_bookingId e, pa_eventId = pe_id e, pa_reason = reason\<rparr>] else [])\<rparr>,
       outcome_of_status status))"

definition recordReview :: "int \<Rightarrow> string \<Rightarrow> ReviewReason \<Rightarrow> string option \<Rightarrow> PostingDb \<Rightarrow> PostingDb \<times> PostingOutcome" where
  "recordReview at eventId reason walletId db =
     (case find (\<lambda>e. pe_id e = eventId) (fd_events db) of
        None \<Rightarrow> (db, OUT_NOT_FOUND)
      | Some e \<Rightarrow> record_posting at e REVIEW_REQUIRED (Some (ByReview reason)) walletId [] 0 db)"

record LedgerSnapshot =
  sn_hold :: "ledger_row option"
  sn_released :: bool
  sn_settleReleased :: bool
  sn_debit :: "ledger_row option"

definition entry_of :: "string \<Rightarrow> ledger_row list \<Rightarrow> string \<Rightarrow> LedgerEntryKind \<Rightarrow> ledger_row option" where
  "entry_of t rows key type = find (\<lambda>r. lr_tenantId r = t \<and> lr_idempotencyKey r = key \<and> lr_type r = type) rows"

definition ledgerSnapshot :: "string \<Rightarrow> ledger_row list \<Rightarrow> string \<Rightarrow> LedgerSnapshot" where
  "ledgerSnapshot t rows b =
     \<lparr>sn_hold = entry_of t rows (holdKey b) ''HOLD'', sn_released = (entry_of t rows (releaseKey b) ''RELEASE'' \<noteq> None),
      sn_settleReleased = (entry_of t rows (settleReleaseKey b) ''RELEASE'' \<noteq> None), sn_debit = entry_of t rows (settleDebitKey b) ''DEBIT''\<rparr>"

definition snap_wallet :: "LedgerSnapshot \<Rightarrow> string option \<Rightarrow> string option" where
  "snap_wallet snap account =
     (case sn_debit snap of
        Some r \<Rightarrow> Some (lr_walletId r)
      | None \<Rightarrow> (case sn_hold snap of Some r \<Rightarrow> Some (lr_walletId r) | None \<Rightarrow> account))"

definition leg_append :: "string \<Rightarrow> string \<Rightarrow> string \<Rightarrow> LedgerLeg \<Rightarrow> LedgerAppend" where
  "leg_append t walletId cur l = \<lparr>la_tenantId = t, la_walletId = walletId, la_type = lg_legType l, la_amountMinor = lg_legMinor l, la_currency = cur,
     la_idempotencyKey = lg_key l, la_reference = Some (lg_reference l)\<rparr>"

text \<open>The unique index of the ledger refuses a second entry with the key on the wallet.\<close>

fun append_legs :: "(string \<Rightarrow> string) \<Rightarrow> int \<Rightarrow> string \<Rightarrow> string option \<Rightarrow> string \<Rightarrow> LedgerLeg list \<Rightarrow> ledger_row list \<Rightarrow> ledger_row list posting" where
  "append_legs rid at t walletId cur [] rows = Inr rows"
| "append_legs rid at t walletId cur (l # ls) rows =
     (case walletId of
        None \<Rightarrow> Inl (Fault ''A ledger leg needs an account'')
      | Some w \<Rightarrow>
          (case appendLedgerEntry (rid (lg_key l)) at (leg_append t w cur l) rows of
             Inl e \<Rightarrow> Inl (Thrown e)
           | Inr (rows', row) \<Rightarrow>
               if entry_key row \<in> entry_key ` set rows then Inl UniqueViolation
               else append_legs rid at t walletId cur ls rows'))"

definition add_payable :: "PostedEvent \<Rightarrow> string option \<Rightarrow> PayableLeg option \<Rightarrow> PayableRow list \<Rightarrow> PayableRow list posting" where
  "add_payable e supplierId payable rows =
     (case payable of
        None \<Rightarrow> Inr rows
      | Some p \<Rightarrow>
          (case supplierId of
             None \<Rightarrow> Inl (Fault ''A payable entry needs a supplier'')
           | Some s \<Rightarrow>
               if s = [] then Inl (Fault ''A payable entry needs a supplier'')
               else if (pe_id e, pl_kind p) \<in> (\<lambda>r. (py_eventId r, py_kind r)) ` set rows then Inl UniqueViolation
               else Inr (rows @ [\<lparr>py_bookingId = pe_bookingId e, py_supplierId = s, py_eventId = pe_id e, py_kind = pl_kind p,
                                  py_currency = pe_currency e, py_amountMinor = pl_amountMinor p\<rparr>])))"

definition set_cancellation :: "string \<Rightarrow> int option \<Rightarrow> (string \<times> int option) list \<Rightarrow> (string \<times> int option) list" where
  "set_cancellation b refund rows =
     (if refund = None then rows
      else if map_of rows b = None then rows @ [(b, refund)]
      else map (\<lambda>(k, v). if k = b then (k, refund) else (k, v)) rows)"

definition post_plan ::
  "(string \<Rightarrow> string) \<Rightarrow> int \<Rightarrow> string \<Rightarrow> PostedEvent \<Rightarrow> string option \<Rightarrow> string option \<Rightarrow> LedgerLeg list \<Rightarrow> PayableLeg option \<Rightarrow> int option
    \<Rightarrow> PostingDb \<Rightarrow> (PostingDb \<times> PostingOutcome) posting" where
  "post_plan rid at t e supplierId walletId legs payable cancellationRefund db =
     ebind (append_legs rid at t walletId (pe_currency e) legs (ws_rows (fd_ledger db))) (\<lambda>rows.
     ebind (add_payable e supplierId payable (fd_payables db)) (\<lambda>payables.
       Inr (record_posting at e POSTED None walletId legs (case payable of Some p \<Rightarrow> pl_amountMinor p | None \<Rightarrow> 0)
         (db\<lparr>fd_ledger := (fd_ledger db)\<lparr>ws_rows := rows\<rparr>, fd_payables := payables,
             fd_cancellations := set_cancellation (pe_bookingId e) cancellationRefund (fd_cancellations db)\<rparr>))))"

definition posting_facts :: "string \<Rightarrow> PostingDb \<Rightarrow> PostedEvent \<Rightarrow> PostingBooking \<Rightarrow> string option \<Rightarrow> PostingFacts" where
  "posting_facts t db e b walletId =
     (let rows = ws_rows (fd_ledger db); snap = ledgerSnapshot t rows (pb_id b);
          story = filter (\<lambda>h. pe_bookingId h = pe_bookingId e) (fd_events db);
          prior = filter (\<lambda>h. pe_id h \<noteq> pe_id e \<and> earlier h e) story in
      \<lparr>fx_bookingId = pb_id b, fx_agencyId = pb_agencyId b, fx_supplierId = pb_supplierId b, fx_walletId = walletId,
       fx_heldMinor = map_option (\<lambda>r. - lr_amountMinor r) (sn_hold snap), fx_holdReleased = (sn_released snap \<or> sn_settleReleased snap),
       fx_chargedMinor = map_option (\<lambda>r. - lr_amountMinor r) (sn_debit snap),
       fx_cancellationRefundMinor = (case map_of (fd_cancellations db) (pb_id b) of None \<Rightarrow> None | Some r \<Rightarrow> Some (case r of Some m \<Rightarrow> m | None \<Rightarrow> 0)),
       fx_laterAmendments = map (\<lambda>h. (pe_sellMinor h, if pe_netMinor h \<noteq> None then pe_netMinor h else pb_netMinor b))
         (filter (\<lambda>h. pe_type h = FE_AMENDED \<and> earlier e h) story),
       fx_refundedMinor = (case walletId of Some w \<Rightarrow> referenceSumMinor rows t w (bookingReference (pb_id b)) ''REFUND'' | None \<Rightarrow> 0),
       fx_payableMinor = sum_where (\<lambda>p. py_bookingId p = pb_id b) py_amountMinor (fd_payables db),
       fx_cancelledBefore = (\<exists>h \<in> set prior. pe_type h = FE_CANCELLED \<or> pe_type h = FE_NO_SHOW),
       fx_noShow = (pe_type e = FE_NO_SHOW \<or> (\<exists>h \<in> set prior. pe_type h = FE_NO_SHOW))\<rparr>)"

definition completed_event :: "PostedEvent \<Rightarrow> PostingBooking \<Rightarrow> PostingEvent" where
  "completed_event e b = \<lparr>pe_id = pe_id e, pe_type = pe_type e, pe_seq = pe_seq e, pe_currency = pe_currency e, pe_sellMinor = pe_sellMinor e,
     pe_netMinor = (if pe_netMinor e \<noteq> None then pe_netMinor e else pb_netMinor b), pe_penaltyMinor = pe_penaltyMinor e, pe_refundMinor = pe_refundMinor e,
     pe_adjustmentMinor = pe_adjustmentMinor e, pe_paymentMode = (if pe_paymentMode e \<noteq> None then pe_paymentMode e else pb_paymentMode b)\<rparr>"

definition unfinished_before :: "PostingDb \<Rightarrow> PostedEvent \<Rightarrow> bool" where
  "unfinished_before db e \<longleftrightarrow>
     (\<exists>h \<in> set (fd_events db). pe_bookingId h = pe_bookingId e \<and> pe_id h \<noteq> pe_id e \<and> earlier h e \<and> \<not> is_final db (pe_id h))"

definition agency_account_of :: "string \<Rightarrow> PostingDb \<Rightarrow> PostingBooking \<Rightarrow> string option" where
  "agency_account_of t db b =
     (if pb_agencyId b = None \<or> pb_agencyId b = Some [] then None
      else map_option wa_id (find (\<lambda>w. wa_tenantId w = t \<and> wa_agencyId w = pb_agencyId b \<and> wa_currency w = pb_currency b) (ws_wallets (fd_ledger db))))"

definition apply_plan ::
  "(string \<Rightarrow> string) \<Rightarrow> int \<Rightarrow> string \<Rightarrow> PostedEvent \<Rightarrow> PostingBooking \<Rightarrow> string option \<Rightarrow> PostingDb \<Rightarrow> (PostingDb \<times> PostingOutcome) posting" where
  "apply_plan rid at t e b walletId db =
     (case planPosting (completed_event e b) (posting_facts t db e b walletId) of
        Review reason \<Rightarrow> Inr (recordReview at (pe_id e) reason walletId db)
      | Skip reason \<Rightarrow> Inr (record_posting at e SKIPPED (Some (BySkip reason)) walletId [] 0 db)
      | Post legs payable cancellationRefund notes \<Rightarrow> post_plan rid at t e (pb_supplierId b) walletId legs payable cancellationRefund db)"

text \<open>\<open>first_rows\<close> is the ledger as read before the account is locked, \<open>db\<close> the state under the lock.\<close>

definition apply_event ::
  "(string \<Rightarrow> string) \<Rightarrow> int \<Rightarrow> string \<Rightarrow> ledger_row list \<Rightarrow> PostingDb \<Rightarrow> string \<Rightarrow> (PostingDb \<times> PostingOutcome) posting" where
  "apply_event rid at t first_rows db eventId =
     (case find (\<lambda>e. pe_id e = eventId) (fd_events db) of
        None \<Rightarrow> Inr (db, OUT_NOT_FOUND)
      | Some e \<Rightarrow>
          if is_final db eventId then Inr (db, OUT_ALREADY_FINAL)
          else if unfinished_before db e then Inr (db, OUT_BLOCKED)
          else (case find (\<lambda>b. pb_id b = pe_bookingId e) (fd_bookings db) of
            None \<Rightarrow> Inr (recordReview at eventId EVENT_INCONSISTENT None db)
          | Some b \<Rightarrow>
              if pb_currency b \<noteq> pe_currency e then Inr (recordReview at eventId EVENT_INCONSISTENT None db)
              else let account = agency_account_of t db b; walletId = snap_wallet (ledgerSnapshot t first_rows (pb_id b)) account in
                (case (if pb_agencyId b = Some [] then None else pb_agencyId b, walletId) of
                   (Some agencyId, Some w) \<Rightarrow>
                     (case lockWalletRow (fd_ledger db) t w of
                        Inl refusal \<Rightarrow> Inr (recordReview at eventId NO_WALLET None db)
                      | Inr _ \<Rightarrow>
                          let seen = snap_wallet (ledgerSnapshot t (ws_rows (fd_ledger db)) (pb_id b)) account in
                          if seen \<noteq> None \<and> seen \<noteq> Some [] \<and> seen \<noteq> Some w then Inr (recordReview at eventId NO_WALLET None db)
                          else apply_plan rid at t e b seen db)
                 | _ \<Rightarrow> apply_plan rid at t e b walletId db)))"

definition postEvent ::
  "(string \<Rightarrow> string) \<Rightarrow> int \<Rightarrow> string \<Rightarrow> ledger_row list \<Rightarrow> PostingDb \<Rightarrow> string \<Rightarrow> (PostingDb \<times> PostingOutcome) posting" where
  "postEvent rid at t first_rows db eventId =
     (case apply_event rid at t first_rows db eventId of
        Inl UniqueViolation \<Rightarrow>
          if is_final db eventId then Inr (db, OUT_ALREADY_FINAL) else Inr (recordReview at eventId EVENT_INCONSISTENT None db)
      | r \<Rightarrow> r)"

subsection \<open>A pass over the backlog\<close>

definition REVIEW_RETRY_MS :: int where "REVIEW_RETRY_MS = 5 * 60 * 1000"
definition POSTING_BATCH :: nat where "POSTING_BATCH = 200"

record PostingDrainSummary =
  ds_examined :: nat
  ds_posted :: nat
  ds_skipped :: nat
  ds_reviewRequired :: nat
  ds_blocked :: nat

definition pending :: "int \<Rightarrow> nat \<Rightarrow> PostingDb \<Rightarrow> PostedEvent list" where
  "pending now limit db =
     take limit (sort_key pe_createdAt (sort_key pe_id
       (filter (\<lambda>e. case posting_of db (pe_id e) of
                 None \<Rightarrow> True
               | Some p \<Rightarrow> pr_status p = REVIEW_REQUIRED \<and> pr_updatedAt p < now - REVIEW_RETRY_MS) (fd_events db))))"

text \<open>One event of the pass: what it did, and the bookings that are stalled for the rest of it.\<close>

definition drain_one ::
  "(string \<Rightarrow> string) \<Rightarrow> int \<Rightarrow> string \<Rightarrow> PostedEvent \<Rightarrow> PostingDb \<times> PostingDrainSummary \<times> string list \<Rightarrow> PostingDb \<times> PostingDrainSummary \<times> string list" where
  "drain_one rid at t e = (\<lambda>(db, s, stalled).
     if pe_bookingId e \<in> set stalled then (db, s\<lparr>ds_blocked := ds_blocked s + 1\<rparr>, stalled)
     else case postEvent rid at t (ws_rows (fd_ledger db)) db (pe_id e) of
       Inl failure \<Rightarrow> (db, s\<lparr>ds_blocked := ds_blocked s + 1\<rparr>, pe_bookingId e # stalled)
     | Inr (db', outcome) \<Rightarrow>
         (case outcome of
            OUT_POSTED \<Rightarrow> (db', s\<lparr>ds_posted := ds_posted s + 1\<rparr>, stalled)
          | OUT_SKIPPED \<Rightarrow> (db', s\<lparr>ds_skipped := ds_skipped s + 1\<rparr>, stalled)
          | OUT_REVIEW \<Rightarrow> (db', s\<lparr>ds_reviewRequired := ds_reviewRequired s + 1\<rparr>, pe_bookingId e # stalled)
          | OUT_BLOCKED \<Rightarrow> (db', s\<lparr>ds_blocked := ds_blocked s + 1\<rparr>, pe_bookingId e # stalled)
          | _ \<Rightarrow> (db', s, stalled)))"

definition drain :: "(string \<Rightarrow> string) \<Rightarrow> int \<Rightarrow> nat option \<Rightarrow> string \<Rightarrow> PostingDb \<Rightarrow> PostingDb \<times> PostingDrainSummary" where
  "drain rid now limit t db =
     (let todo = pending now (case limit of Some n \<Rightarrow> n | None \<Rightarrow> POSTING_BATCH) db;
          (db', s, stalled) = foldl (\<lambda>st e. drain_one rid now t e st)
            (db, \<lparr>ds_examined = length todo, ds_posted = 0, ds_skipped = 0, ds_reviewRequired = 0, ds_blocked = 0\<rparr>, []) todo in
      (db', s))"

subsection \<open>The account of a booking, abstractly\<close>

text \<open>
  What the consumer writes for one booking, as a story: a hold, its release, one charge, refunds up to the charge, all
  on one wallet. The state it reaches is what is held, whether that was released, what was charged and refunded.
\<close>

definition written :: "string \<Rightarrow> string \<Rightarrow> string \<Rightarrow> LedgerEntryKind \<Rightarrow> int \<Rightarrow> string \<Rightarrow> ledger_row \<Rightarrow> bool" where
  "written t b w type amount key r \<longleftrightarrow> lr_tenantId r = t \<and> lr_reference r = Some (bookingReference b) \<and> lr_walletId r = w \<and> lr_type r = type
     \<and> lr_amountMinor r = amount \<and> lr_idempotencyKey r = key"

inductive account_story :: "string \<Rightarrow> string \<Rightarrow> string \<Rightarrow> ledger_row list \<Rightarrow> int option \<Rightarrow> bool \<Rightarrow> int option \<Rightarrow> int \<Rightarrow> bool"
  for t :: string and b :: string and w :: string
where
  story_none: "account_story t b w [] None False None 0"
| story_hold: "account_story t b w rows None False None 0 \<Longrightarrow> written t b w ''HOLD'' (- h) (holdKey b) r \<Longrightarrow> 0 < h
    \<Longrightarrow> account_story t b w (rows @ [r]) (Some h) False None 0"
| story_release: "account_story t b w rows (Some h) False None 0 \<Longrightarrow> written t b w ''RELEASE'' h key r \<Longrightarrow> key = releaseKey b \<or> key = settleReleaseKey b
    \<Longrightarrow> account_story t b w (rows @ [r]) (Some h) True None 0"
| story_charge: "account_story t b w rows (Some h) True None 0 \<Longrightarrow> written t b w ''DEBIT'' (- d) (settleDebitKey b) r \<Longrightarrow> 0 < d
    \<Longrightarrow> account_story t b w (rows @ [r]) (Some h) True (Some d) 0"
| story_refund: "account_story t b w rows (Some h) True (Some d) q \<Longrightarrow> written t b w ''REFUND'' a key r \<Longrightarrow> 0 < a \<Longrightarrow> q + a \<le> d
    \<Longrightarrow> account_story t b w (rows @ [r]) (Some h) True (Some d) (q + a)"

definition KINDS :: "LedgerEntryKind list" where
  "KINDS = [''HOLD'', ''RELEASE'', ''DEBIT'', ''REFUND'']"

definition of_kind :: "LedgerEntryKind \<Rightarrow> ledger_row list \<Rightarrow> ledger_row list" where
  "of_kind type rows = filter (\<lambda>r. lr_type r = type) rows"

definition net_of :: "ledger_row list \<Rightarrow> int" where
  "net_of rows = sum_where (\<lambda>r. True) lr_amountMinor rows"

definition minor_of :: "int option \<Rightarrow> int" where
  "minor_of a = (case a of None \<Rightarrow> 0 | Some n \<Rightarrow> n)"

definition open_hold :: "int option \<Rightarrow> bool \<Rightarrow> int" where
  "open_hold held released = (if released then 0 else minor_of held)"

lemma story_numbers:
  assumes "account_story t b w rows held released charged refunded"
  shows "net_of rows = refunded - minor_of charged - open_hold held released \<and> 0 \<le> refunded \<and> refunded \<le> minor_of charged
    \<and> 0 \<le> open_hold held released \<and> (charged \<noteq> None \<longrightarrow> released)
    \<and> sum_where (\<lambda>r. lr_type r = ''DEBIT'') lr_amountMinor rows = - minor_of charged
    \<and> sum_where (\<lambda>r. lr_type r = ''REFUND'') lr_amountMinor rows = refunded
    \<and> length (of_kind ''HOLD'' rows) = (if held = None then 0 else 1) \<and> length (of_kind ''RELEASE'' rows) = (if released then 1 else 0)
    \<and> length (of_kind ''DEBIT'' rows) = (if charged = None then 0 else 1) \<and> (\<forall>h. held = Some h \<longrightarrow> 0 < h) \<and> (\<forall>d. charged = Some d \<longrightarrow> 0 < d)"
  using assms
  by (induction rule: account_story.induct)
    (auto simp: net_of_def minor_of_def open_hold_def of_kind_def written_def)

lemma story_parts:
  assumes "account_story t b w rows held released charged refunded"
  shows "(\<forall>h. held = Some h \<longrightarrow> (\<exists>r \<in> set rows. written t b w ''HOLD'' (- h) (holdKey b) r))
    \<and> (released \<longrightarrow> (\<exists>r \<in> set rows. written t b w ''RELEASE'' (the held) (releaseKey b) r \<or> written t b w ''RELEASE'' (the held) (settleReleaseKey b) r))
    \<and> (\<forall>d. charged = Some d \<longrightarrow> (\<exists>r \<in> set rows. written t b w ''DEBIT'' (- d) (settleDebitKey b) r))
    \<and> (\<forall>r \<in> set rows. (lr_type r = ''HOLD'' \<longrightarrow> held = Some (- lr_amountMinor r)) \<and> (lr_type r = ''RELEASE'' \<longrightarrow> released)
         \<and> (lr_type r = ''DEBIT'' \<longrightarrow> charged = Some (- lr_amountMinor r)))"
  using assms by (induction rule: account_story.induct) (auto simp: written_def)

lemma story_rows:
  assumes "account_story t b w rows held released charged refunded" "r \<in> set rows"
  shows "lr_tenantId r = t \<and> lr_reference r = Some (bookingReference b) \<and> lr_walletId r = w \<and> lr_type r \<in> set KINDS
    \<and> (lr_type r = ''HOLD'' \<longrightarrow> lr_idempotencyKey r = holdKey b) \<and> (lr_type r = ''DEBIT'' \<longrightarrow> lr_idempotencyKey r = settleDebitKey b)
    \<and> (lr_type r = ''RELEASE'' \<longrightarrow> lr_idempotencyKey r = releaseKey b \<or> lr_idempotencyKey r = settleReleaseKey b)"
  using assms by (induction rule: account_story.induct) (auto simp: written_def KINDS_def)

lemma entry_of_append:
  "entry_of t (rows @ [r]) key type = (case entry_of t rows key type of Some x \<Rightarrow> Some x
     | None \<Rightarrow> if lr_tenantId r = t \<and> lr_idempotencyKey r = key \<and> lr_type r = type then Some r else None)"
proof -
  have f: "find P (xs @ [x]) = (case find P xs of Some y \<Rightarrow> Some y | None \<Rightarrow> if P x then Some x else None)" for P xs and x :: ledger_row
    by (induction xs) auto
  show ?thesis by (simp add: entry_of_def f)
qed

text \<open>What the reads of the service find on such a story.\<close>

lemma story_reads:
  assumes "account_story t b w rows held released charged refunded"
  shows "map_option (\<lambda>r. - lr_amountMinor r) (entry_of t rows (holdKey b) ''HOLD'') = held
    \<and> map_option lr_walletId (entry_of t rows (holdKey b) ''HOLD'') = map_option (\<lambda>h. w) held
    \<and> (entry_of t rows (releaseKey b) ''RELEASE'' \<noteq> None \<or> entry_of t rows (settleReleaseKey b) ''RELEASE'' \<noteq> None \<longleftrightarrow> released)
    \<and> map_option (\<lambda>r. - lr_amountMinor r) (entry_of t rows (settleDebitKey b) ''DEBIT'') = charged
    \<and> map_option lr_walletId (entry_of t rows (settleDebitKey b) ''DEBIT'') = map_option (\<lambda>d. w) charged"
  using assms
proof (induction rule: account_story.induct)
  case story_none
  then show ?case by (simp add: entry_of_def)
qed (auto simp: entry_of_append written_def split: option.splits)

subsection \<open>The rows of a booking in the whole ledger\<close>

definition rows_of :: "string \<Rightarrow> string \<Rightarrow> ledger_row list \<Rightarrow> ledger_row list" where
  "rows_of t b rows = filter (\<lambda>r. lr_tenantId r = t \<and> lr_type r \<in> set KINDS \<and> lr_reference r = Some (bookingReference b)) rows"

text \<open>The entries the reads look for.\<close>

definition booking_entry :: "string \<Rightarrow> LedgerEntryKind \<Rightarrow> string \<Rightarrow> bool" where
  "booking_entry b type key \<longleftrightarrow> (type = ''HOLD'' \<and> key = holdKey b) \<or> (type = ''DEBIT'' \<and> key = settleDebitKey b)
     \<or> (type = ''RELEASE'' \<and> (key = releaseKey b \<or> key = settleReleaseKey b))"

lemma booking_entry_kind: "booking_entry b type key \<Longrightarrow> type \<in> set KINDS"
  by (auto simp: booking_entry_def KINDS_def)

definition ledger_ok :: "string \<Rightarrow> ledger_row list \<Rightarrow> bool" where
  "ledger_ok t rows \<longleftrightarrow>
     (\<forall>b. \<exists>w held released charged refunded. account_story t b w (rows_of t b rows) held released charged refunded)
     \<and> (\<forall>r \<in> set rows. \<forall>b. lr_tenantId r = t \<and> booking_entry b (lr_type r) (lr_idempotencyKey r) \<longrightarrow> lr_reference r = Some (bookingReference b))"

lemma keys_differ [simp]:
  "releaseKey b \<noteq> settleReleaseKey c" "settleReleaseKey b \<noteq> releaseKey c"
  by (auto simp: releaseKey_def settleReleaseKey_def holdKey_def dest!: arg_cong [where f = "\<lambda>s. take 8 (rev s)"])

lemma keys_inject [simp]:
  "holdKey b = holdKey c \<longleftrightarrow> b = c" "releaseKey b = releaseKey c \<longleftrightarrow> b = c" "settleReleaseKey b = settleReleaseKey c \<longleftrightarrow> b = c"
  "settleDebitKey b = settleDebitKey c \<longleftrightarrow> b = c" "bookingReference b = bookingReference c \<longleftrightarrow> b = c"
  by (simp_all add: holdKey_def releaseKey_def settleReleaseKey_def settleDebitKey_def bookingReference_def)

lemma find_filter: "\<forall>x \<in> set xs. P x \<longrightarrow> Q x \<Longrightarrow> find P (filter Q xs) = find P xs"
  by (induction xs) auto

lemma booking_entry_inject: "booking_entry b type key \<Longrightarrow> booking_entry c type key \<Longrightarrow> b = c"
  by (auto simp: booking_entry_def)

lemma entry_of_rows:
  assumes "ledger_ok t rows" "booking_entry b type key"
  shows "entry_of t (rows_of t b rows) key type = entry_of t rows key type"
  unfolding entry_of_def rows_of_def
  using assms booking_entry_kind [OF assms(2)] by (intro find_filter) (auto simp: ledger_ok_def)

lemma snapshot_reads:
  assumes "ledger_ok t rows" "account_story t b w (rows_of t b rows) held released charged refunded"
  shows "map_option (\<lambda>r. - lr_amountMinor r) (sn_hold (ledgerSnapshot t rows b)) = held"
    "sn_released (ledgerSnapshot t rows b) \<or> sn_settleReleased (ledgerSnapshot t rows b) \<longleftrightarrow> released"
    "map_option (\<lambda>r. - lr_amountMinor r) (sn_debit (ledgerSnapshot t rows b)) = charged"
    "held \<noteq> None \<Longrightarrow> snap_wallet (ledgerSnapshot t rows b) account = Some w"
    "rows_of t b rows \<noteq> [] \<Longrightarrow> held \<noteq> None"
proof -
  note s = story_reads [OF assms(2)]
  have e: "entry_of t (rows_of t b rows) (holdKey b) ''HOLD'' = entry_of t rows (holdKey b) ''HOLD''"
    "entry_of t (rows_of t b rows) (releaseKey b) ''RELEASE'' = entry_of t rows (releaseKey b) ''RELEASE''"
    "entry_of t (rows_of t b rows) (settleReleaseKey b) ''RELEASE'' = entry_of t rows (settleReleaseKey b) ''RELEASE''"
    "entry_of t (rows_of t b rows) (settleDebitKey b) ''DEBIT'' = entry_of t rows (settleDebitKey b) ''DEBIT''"
    by (simp_all add: entry_of_rows [OF assms(1)] booking_entry_def)
  show "map_option (\<lambda>r. - lr_amountMinor r) (sn_hold (ledgerSnapshot t rows b)) = held"
    "sn_released (ledgerSnapshot t rows b) \<or> sn_settleReleased (ledgerSnapshot t rows b) \<longleftrightarrow> released"
    "map_option (\<lambda>r. - lr_amountMinor r) (sn_debit (ledgerSnapshot t rows b)) = charged"
    using s by (simp_all add: ledgerSnapshot_def e)
  show "snap_wallet (ledgerSnapshot t rows b) account = Some w" if "held \<noteq> None"
    using s that by (auto simp: ledgerSnapshot_def snap_wallet_def e split: option.splits)
  show "held \<noteq> None" if "rows_of t b rows \<noteq> []"
    using assms(2) that by (cases rule: account_story.cases) auto
qed

subsection \<open>A posted plan continues the story\<close>

definition leg_row :: "(string \<Rightarrow> string) \<Rightarrow> int \<Rightarrow> string \<Rightarrow> string \<Rightarrow> string \<Rightarrow> LedgerLeg \<Rightarrow> ledger_row" where
  "leg_row rid at t w cur l = append_row (rid (lg_key l)) at (leg_append t w cur l)"

lemma append_legs_Inr:
  "append_legs rid at t walletId cur legs rows = Inr rows'
    \<Longrightarrow> (legs = [] \<or> walletId \<noteq> None) \<and> rows' = rows @ map (leg_row rid at t (the walletId) cur) legs"
  by (induction rid at t walletId cur legs rows rule: append_legs.induct)
    (auto simp: leg_row_def appendLedgerEntry_def ebind_Inr_iff Let_def split: option.splits sum.splits prod.splits if_splits)

lemma leg_row_written: "written t b w type amount key (leg_row rid at t w cur (leg x type amount key)) \<longleftrightarrow> fx_bookingId x = b"
  by (auto simp: written_def leg_row_def leg_append_def leg_def append_row_def)

lemma story_charged: "account_story t b w rows held released charged refunded \<Longrightarrow> charged = Some d \<Longrightarrow> \<exists>h. held = Some h \<and> released"
  by (induction rule: account_story.induct) auto

lemma story_unheld: "account_story t b w rows None released charged refunded \<Longrightarrow> rows = [] \<and> \<not> released \<and> charged = None \<and> refunded = 0"
  by (erule account_story.cases) auto

lemma story_uncharged: "account_story t b w rows held released None refunded \<Longrightarrow> refunded = 0"
  by (erule account_story.cases) auto

lemma charge_continues:
  assumes s: "account_story t b w rows held released None refunded" and sell: "held \<noteq> None \<Longrightarrow> \<not> released \<Longrightarrow> held = Some sell"
    and x: "fx_bookingId x = b" "fx_heldMinor x = held" "fx_holdReleased x = released"
  shows "\<exists>held' released' charged'. account_story t b w (rows @ map (leg_row rid at t w cur) (charge_legs x sell)) held' released' charged' 0"
proof (cases "sell > 0")
  case False
  then show ?thesis using s story_uncharged [OF s] by (auto simp: charge_legs_def Let_def)
next
  case sell_pos: True
  let ?row = "leg_row rid at t w cur"
  have q: "refunded = 0" by (rule story_uncharged [OF s])
  have debit: "written t b w ''DEBIT'' (- sell) (settleDebitKey b) (?row (leg x ''DEBIT'' (- sell) (settleDebitKey b)))"
    and release: "written t b w ''RELEASE'' sell (settleReleaseKey b) (?row (leg x ''RELEASE'' sell (settleReleaseKey b)))"
    and hold: "written t b w ''HOLD'' (- sell) (holdKey b) (?row (leg x ''HOLD'' (- sell) (holdKey b)))"
    by (simp_all add: leg_row_written x)
  show ?thesis
  proof (cases held)
    case None
    then have s0: "account_story t b w rows None False None 0" using s story_unheld [of t b w rows released None refunded] by auto
    note 1 = story_hold [OF s0 hold sell_pos]
    note 2 = story_release [OF 1 release disjI2 [OF refl]]
    note 3 = story_charge [OF 2 debit sell_pos]
    then show ?thesis using None sell_pos by (auto simp: charge_legs_def Let_def x)
  next
    case (Some h)
    show ?thesis
    proof (cases released)
      case True
      have s1: "account_story t b w rows (Some h) True None 0" using s Some True q by simp
      show ?thesis using story_charge [OF s1 debit sell_pos] Some True sell_pos by (auto simp: charge_legs_def Let_def x)
    next
      case False
      have s1: "account_story t b w rows (Some sell) False None 0" using s Some False q sell by simp
      note 2 = story_release [OF s1 release disjI2 [OF refl]]
      note 3 = story_charge [OF 2 debit sell_pos]
      then show ?thesis using Some False sell_pos by (auto simp: charge_legs_def Let_def x)
    qed
  qed
qed

lemma plan_continues:
  assumes s: "account_story t b w rows held released charged refunded"
    and x: "fx_bookingId x = b" "fx_heldMinor x = held" "fx_holdReleased x = released" "fx_chargedMinor x = charged"
    and q: "fx_refundedMinor x = refunded" and plan: "planPosting e x = Post legs payable refund remarks"
  shows "\<exists>held' released' charged' refunded'. account_story t b w (rows @ map (leg_row rid at t w cur) legs) held' released' charged' refunded'"
proof (cases "legs = []")
  case True
  then show ?thesis using s by auto
next
  case False
  have gate: "posting_gate e x = None" using plan by (auto simp: planPosting_def posting_gate_def split: option.splits if_splits)
  consider "confirmed_plan e x = Post legs payable refund remarks" | "hold_plan e x = Post legs payable refund remarks"
    | "release_plan x = Post legs payable refund remarks" | "cancel_plan e x = Post legs payable refund remarks"
    using plan gate by (auto simp: planPosting_def amended_plan_def split: option.splits BookingFinanceEventType.splits if_splits)
  then show ?thesis
  proof cases
    case 1
    obtain sell net where sn: "(if fx_laterAmendments x = [] then (pe_sellMinor e, pe_netMinor e) else last (fx_laterAmendments x)) = (sell, net)"
      by (metis surj_pair)
    have uncharged: "charged = None" and legs: "legs = charge_legs x sell"
      and held: "\<not> (held \<noteq> None \<and> \<not> released \<and> held \<noteq> Some sell)"
      using 1 sn by (simp_all add: confirmed_plan_def x Let_def split: if_splits option.splits)
    show ?thesis
      using charge_continues [of t b w rows held released refunded sell x rid at cur] s uncharged held x legs by blast
  next
    case 2
    then have legs: "legs = [leg x ''HOLD'' (- pe_sellMinor e) (holdKey b)]" and pos: "0 < pe_sellMinor e" and none: "held = None" "charged = None"
      by (simp_all add: hold_plan_def x split: if_splits)
    have s0: "account_story t b w rows None False None 0" using s none story_unheld [of t b w rows released charged refunded] by auto
    show ?thesis unfolding legs list.map by (intro exI) (rule story_hold [OF s0 iffD2 [OF leg_row_written x(1)] pos])
  next
    case 3
    then obtain h where h: "held = Some h" "\<not> released" "legs = [leg x ''RELEASE'' h (releaseKey b)]"
      by (auto simp: release_plan_def x split: option.splits if_splits)
    have "charged = None" using story_charged [OF s] h by (cases charged) auto
    then have s0: "account_story t b w rows (Some h) False None 0" using s h story_uncharged [of t b w rows held released refunded] by simp
    show ?thesis unfolding h(3) list.map by (intro exI) (rule story_release [OF s0 iffD2 [OF leg_row_written x(1)] disjI1 [OF refl]])
  next
    case 4
    then obtain penalty target where r: "refund_plan e x penalty target = Post legs payable refund remarks"
      by (auto simp: cancel_plan_def split: if_splits option.splits)
    then obtain d where d: "charged = Some d" using False by (cases charged) (auto simp: refund_plan_def Let_def x split: if_splits)
    have within: "refundWithin target d" and legs: "legs = refund_legs x target"
      using r by (simp_all add: refund_plan_def Let_def x d split: if_splits)
    have le: "target \<le> d" using within by (simp add: refundWithin_def)
    have l: "legs = [leg x ''REFUND'' (target - refunded) (refundKey b target refunded)]" and pos: "0 < target - refunded"
      using legs False by (simp_all add: refund_legs_def q x split: if_splits)
    obtain h where s0: "account_story t b w rows (Some h) True (Some d) refunded"
      using story_charged [OF s d] s d by auto
    have w: "written t b w ''REFUND'' (target - refunded) (refundKey b (refunded + (target - refunded)) refunded)
        (leg_row rid at t w cur (leg x ''REFUND'' (target - refunded) (refundKey b target refunded)))"
      by (simp add: leg_row_written x)
    have "refunded + (target - refunded) \<le> d" using le by simp
    note grown = story_refund [OF s0 w pos this]
    show ?thesis unfolding l list.map by (intro exI) (rule grown)
  qed
qed

lemma plan_legs:
  assumes "planPosting e x = Post legs payable refund remarks" "l \<in> set legs"
  shows "lg_legType l \<in> set KINDS \<and> lg_reference l = bookingReference (fx_bookingId x)
    \<and> (lg_legType l = ''REFUND'' \<or> booking_entry (fx_bookingId x) (lg_legType l) (lg_key l))"
  using assms
  by (auto simp: booking_entry_def planPosting_def posting_gate_def confirmed_plan_def charge_legs_def hold_plan_def release_plan_def cancel_plan_def refund_plan_def refund_legs_def
      amended_plan_def leg_def KINDS_def Let_def split: option.splits BookingFinanceEventType.splits if_splits prod.splits)

lemma leg_row_sel [simp]:
  "lr_tenantId (leg_row rid at t w cur l) = t" "lr_type (leg_row rid at t w cur l) = lg_legType l" "lr_walletId (leg_row rid at t w cur l) = w"
  "lr_reference (leg_row rid at t w cur l) = Some (lg_reference l)" "lr_amountMinor (leg_row rid at t w cur l) = lg_legMinor l"
  "lr_idempotencyKey (leg_row rid at t w cur l) = lg_key l"
  by (simp_all add: leg_row_def leg_append_def append_row_def)

lemma rows_of_append [simp]: "rows_of t b (xs @ ys) = rows_of t b xs @ rows_of t b ys"
  by (simp add: rows_of_def)

text \<open>New rows of one booking that continue its story leave every other booking alone.\<close>

lemma ledger_ok_append:
  assumes ok: "ledger_ok t rows"
    and new: "\<forall>r \<in> set new. lr_tenantId r = t \<longrightarrow> lr_type r \<in> set KINDS
      \<longrightarrow> lr_reference r = Some (bookingReference b) \<and> (lr_type r = ''REFUND'' \<or> booking_entry b (lr_type r) (lr_idempotencyKey r))"
    and story: "\<exists>w held released charged refunded. account_story t b w (rows_of t b rows @ rows_of t b new) held released charged refunded"
  shows "ledger_ok t (rows @ new)"
proof -
  have other: "rows_of t c new = []" if "c \<noteq> b" for c
    using new that by (auto simp: rows_of_def filter_empty_conv)
  have "\<exists>w held released charged refunded. account_story t c w (rows_of t c (rows @ new)) held released charged refunded" for c
  proof (cases "c = b")
    case True
    then show ?thesis using story by simp
  next
    case False
    have "\<exists>w held released charged refunded. account_story t c w (rows_of t c rows) held released charged refunded"
      using ok unfolding ledger_ok_def by blast
    then show ?thesis by (simp add: other [OF False])
  qed
  moreover have "lr_reference r = Some (bookingReference c)" if r: "r \<in> set new" "lr_tenantId r = t \<and> booking_entry c (lr_type r) (lr_idempotencyKey r)" for r c
  proof -
    have n: "lr_reference r = Some (bookingReference b)" "lr_type r = ''REFUND'' \<or> booking_entry b (lr_type r) (lr_idempotencyKey r)"
      using new r booking_entry_kind by blast+
    have "lr_type r \<noteq> ''REFUND''" using r(2) by (auto simp: booking_entry_def)
    then have "c = b" using n(2) r(2) booking_entry_inject by blast
    then show ?thesis using n(1) by simp
  qed
  then have "\<forall>r \<in> set (rows @ new). \<forall>c. lr_tenantId r = t \<and> booking_entry c (lr_type r) (lr_idempotencyKey r) \<longrightarrow> lr_reference r = Some (bookingReference c)"
    using ok unfolding ledger_ok_def by auto
  ultimately show ?thesis unfolding ledger_ok_def by blast
qed

text \<open>What was refunded, as the ledger sums it on the wallet of the story.\<close>

lemma story_refunded:
  assumes "account_story t b w (rows_of t b rows) held released charged refunded"
    and "rows_of t b rows \<noteq> [] \<Longrightarrow> v = w"
  shows "referenceSumMinor rows t v (bookingReference b) ''REFUND'' = refunded"
proof -
  have "referenceSumMinor rows t v (bookingReference b) ''REFUND'' = sum_where (\<lambda>r. lr_walletId r = v \<and> lr_type r = ''REFUND'') lr_amountMinor (rows_of t b rows)"
    unfolding referenceSumMinor_def rows_of_def sum_where_filter by (rule sum_where_cong) (auto simp: KINDS_def)
  also have "\<dots> = sum_where (\<lambda>r. lr_type r = ''REFUND'') lr_amountMinor (rows_of t b rows)"
  proof (rule sum_where_cong)
    fix r assume r: "r \<in> set (rows_of t b rows)"
    then have "rows_of t b rows \<noteq> []" by (cases "rows_of t b rows") simp_all
    then have "v = w" by (rule assms(2))
    then show "(lr_walletId r = v \<and> lr_type r = ''REFUND'') \<longleftrightarrow> lr_type r = ''REFUND''" using story_rows [OF assms(1) r] by simp
  qed simp
  also have "\<dots> = refunded" using story_numbers [OF assms(1)] by simp
  finally show ?thesis .
qed

lemma record_posting_ledger [simp]: "fd_ledger (fst (record_posting at e status reason walletId legs payableEffect db)) = fd_ledger db"
  by (simp add: record_posting_def Let_def)

lemma recordReview_ledger [simp]: "fd_ledger (fst (recordReview at eventId reason walletId db)) = fd_ledger db"
  by (simp add: recordReview_def split: option.splits)

lemma post_plan_Inr:
  assumes "post_plan rid at t e supplierId walletId legs payable refund db = Inr (db', outcome)"
  obtains payables where "legs = [] \<or> walletId \<noteq> None" "add_payable e supplierId payable (fd_payables db) = Inr payables"
    "(db', outcome) = record_posting at e POSTED None walletId legs (case payable of Some p \<Rightarrow> pl_amountMinor p | None \<Rightarrow> 0)
       (db\<lparr>fd_ledger := (fd_ledger db)\<lparr>ws_rows := ws_rows (fd_ledger db) @ map (leg_row rid at t (the walletId) (pe_currency e)) legs\<rparr>, fd_payables := payables,
           fd_cancellations := set_cancellation (pe_bookingId e) refund (fd_cancellations db)\<rparr>)"
  using assms by (auto simp: post_plan_def ebind_Inr_iff dest!: append_legs_Inr)

lemma apply_plan_ledger:
  assumes ok: "ledger_ok t (ws_rows (fd_ledger db))" and walletId: "walletId = snap_wallet (ledgerSnapshot t (ws_rows (fd_ledger db)) (pb_id b)) account \<or> walletId = None"
    and run: "apply_plan rid at t e b walletId db = Inr (db', outcome)"
  shows "ledger_ok t (ws_rows (fd_ledger db'))"
proof -
  let ?rows = "ws_rows (fd_ledger db)" and ?x = "posting_facts t db e b walletId"
  consider (post) legs payable refund remarks where "planPosting (completed_event e b) ?x = Post legs payable refund remarks"
      "post_plan rid at t e (pb_supplierId b) walletId legs payable refund db = Inr (db', outcome)"
    | (same) "fd_ledger db' = fd_ledger db"
    using run unfolding apply_plan_def by (auto split: PostingPlan.splits dest!: arg_cong [where f = fst])
  then show ?thesis
  proof cases
    case same
    then show ?thesis using ok by simp
  next
    case post
    obtain w held released charged refunded where s: "account_story t (pb_id b) w (rows_of t (pb_id b) ?rows) held released charged refunded"
      using ok unfolding ledger_ok_def by blast
    note reads = snapshot_reads [OF ok s]
    show ?thesis
    proof (cases "legs = []")
      case True
      then show ?thesis using post(2) ok by (elim post_plan_Inr) (auto dest!: arg_cong [where f = fst])
    next
      case False
      have rows': "ws_rows (fd_ledger db') = ?rows @ map (leg_row rid at t (the walletId) (pe_currency e)) legs" and some: "walletId \<noteq> None"
        using post(2) False by (elim post_plan_Inr; auto dest!: arg_cong [where f = fst])+
      have w': "account_story t (pb_id b) (the walletId) (rows_of t (pb_id b) ?rows) held released charged refunded
          \<and> (rows_of t (pb_id b) ?rows \<noteq> [] \<longrightarrow> the walletId = w)"
      proof (cases "rows_of t (pb_id b) ?rows = []")
        case True
        have "held = None" using s True by (auto elim: account_story.cases)
        then have "account_story t (pb_id b) (the walletId) (rows_of t (pb_id b) ?rows) held released charged refunded"
          using story_unheld [OF s [unfolded \<open>held = None\<close>]] s True by (auto intro: story_none)
        then show ?thesis using True by simp
      next
        case False
        then have "walletId = Some w" using walletId some reads(4,5) by auto
        then show ?thesis using s by simp
      qed
      have q: "fx_refundedMinor ?x = refunded"
        using story_refunded [OF s, of "the walletId"] w' some by (auto simp: posting_facts_def Let_def)
      have x: "fx_bookingId ?x = pb_id b" "fx_heldMinor ?x = held" "fx_holdReleased ?x = released" "fx_chargedMinor ?x = charged"
        using reads by (simp_all add: posting_facts_def Let_def)
      have of_b: "rows_of t (pb_id b) (map (leg_row rid at t (the walletId) (pe_currency e)) legs) = map (leg_row rid at t (the walletId) (pe_currency e)) legs"
        using plan_legs [OF post(1)] x(1) by (auto simp: rows_of_def filter_id_conv)
      show ?thesis
        unfolding rows'
      proof (rule ledger_ok_append [OF ok, where b = "pb_id b"])
        show "\<forall>r \<in> set (map (leg_row rid at t (the walletId) (pe_currency e)) legs). lr_tenantId r = t \<longrightarrow> lr_type r \<in> set KINDS
            \<longrightarrow> lr_reference r = Some (bookingReference (pb_id b)) \<and> (lr_type r = ''REFUND'' \<or> booking_entry (pb_id b) (lr_type r) (lr_idempotencyKey r))"
          using plan_legs [OF post(1)] x(1) by auto
        show "\<exists>w held released charged refunded. account_story t (pb_id b) w
            (rows_of t (pb_id b) ?rows @ rows_of t (pb_id b) (map (leg_row rid at t (the walletId) (pe_currency e)) legs)) held released charged refunded"
          using plan_continues [OF conjunct1 [OF w'] x q post(1)] unfolding of_b by blast
      qed
    qed
  qed
qed

definition agencies_named :: "PostingDb \<Rightarrow> bool" where
  "agencies_named db \<longleftrightarrow> (\<forall>b \<in> set (fd_bookings db). pb_agencyId b \<noteq> Some [])"

lemma no_agency_no_post:
  assumes "apply_plan rid at t e b walletId db = Inr (db', outcome)" "pb_agencyId b = None"
  shows "fd_ledger db' = fd_ledger db"
proof -
  have "planPosting (completed_event e b) (posting_facts t db e b walletId) \<in> {Review PAYMENT_MODE_UNKNOWN, Skip SKIP_PAY_AT_HOTEL, Review NO_AGENCY}"
    using assms(2) by (auto simp: planPosting_def posting_gate_def posting_facts_def Let_def)
  then show ?thesis using assms(1) unfolding apply_plan_def by (auto dest!: arg_cong [where f = fst])
qed

lemma apply_event_ledger:
  assumes ok: "ledger_ok t (ws_rows (fd_ledger db))" and named: "agencies_named db"
    and run: "apply_event rid at t first_rows db eventId = Inr (db', outcome)"
  shows "ledger_ok t (ws_rows (fd_ledger db'))"
proof -
  consider (same) "fd_ledger db' = fd_ledger db"
    | (planned) e b walletId account where "find (\<lambda>b. pb_id b = pe_bookingId e) (fd_bookings db) = Some b" "apply_plan rid at t e b walletId db = Inr (db', outcome)"
        "pb_agencyId b = None \<or> pb_agencyId b = Some [] \<or> walletId = None \<or> walletId = snap_wallet (ledgerSnapshot t (ws_rows (fd_ledger db)) (pb_id b)) account"
    using run unfolding apply_event_def Let_def
    by (auto split: option.splits sum.splits if_splits dest!: arg_cong [where f = fst])
  then show ?thesis
  proof cases
    case same
    then show ?thesis using ok by simp
  next
    case planned
    have "b \<in> set (fd_bookings db)" using planned(1) by (auto dest: find_SomeD)
    then have "pb_agencyId b \<noteq> Some []" using named by (simp add: agencies_named_def)
    then consider "pb_agencyId b = None" | "walletId = snap_wallet (ledgerSnapshot t (ws_rows (fd_ledger db)) (pb_id b)) account \<or> walletId = None"
      using planned(3) by argo
    then show ?thesis
    proof cases
      case 1
      then show ?thesis using no_agency_no_post [OF planned(2)] ok by simp
    next
      case 2
      show ?thesis by (rule apply_plan_ledger [OF ok 2 planned(2)])
    qed
  qed
qed

lemma postEvent_cases:
  assumes "postEvent rid at t first_rows db eventId = Inr (db', outcome)"
  obtains (applied) "apply_event rid at t first_rows db eventId = Inr (db', outcome)"
  | (done_already) "is_final db eventId" "db' = db" "outcome = OUT_ALREADY_FINAL"
  | (refused) "\<not> is_final db eventId" "recordReview at eventId EVENT_INCONSISTENT None db = (db', outcome)"
  using assms unfolding postEvent_def by (auto split: sum.splits PostingFailure.splits if_splits)

lemma postEvent_ledger:
  assumes "ledger_ok t (ws_rows (fd_ledger db))" "agencies_named db" "postEvent rid at t first_rows db eventId = Inr (db', outcome)"
  shows "ledger_ok t (ws_rows (fd_ledger db'))"
  using assms(3)
proof (cases rule: postEvent_cases)
  case applied
  then show ?thesis by (rule apply_event_ledger [OF assms(1,2)])
next
  case done_already
  then show ?thesis using assms(1) by simp
next
  case refused
  then show ?thesis using assms(1) by (auto dest!: arg_cong [where f = fst])
qed

subsection \<open>Entries of other handlers\<close>

lemma ledger_story:
  assumes "ledger_ok t rows"
  obtains w held released charged refunded where "account_story t b w (rows_of t b rows) held released charged refunded"
  using assms unfolding ledger_ok_def by blast

lemma entry_in_story:
  assumes "ledger_ok t rows" "r \<in> set rows" "lr_tenantId r = t" "booking_entry b (lr_type r) (lr_idempotencyKey r)"
  shows "r \<in> set (rows_of t b rows)"
  using assms booking_entry_kind [OF assms(4)] unfolding ledger_ok_def rows_of_def by auto

lemma entry_of_Some: "entry_of t rows key type = Some r \<Longrightarrow> r \<in> set rows \<and> lr_tenantId r = t \<and> lr_idempotencyKey r = key \<and> lr_type r = type"
  by (auto simp: entry_of_def dest: find_SomeD)

lemma ledger_ok_one:
  assumes ok: "ledger_ok t rows" and s: "account_story t b w (rows_of t b rows @ [r]) held released charged refunded"
    and r: "lr_type r = ''REFUND'' \<or> booking_entry b (lr_type r) (lr_idempotencyKey r)"
  shows "ledger_ok t (rows @ [r])"
proof (rule ledger_ok_append [OF ok, where b = b])
  have r': "lr_tenantId r = t \<and> lr_reference r = Some (bookingReference b) \<and> lr_type r \<in> set KINDS" using story_rows [OF s, of r] by simp
  show "\<forall>x \<in> set [r]. lr_tenantId x = t \<longrightarrow> lr_type x \<in> set KINDS
      \<longrightarrow> lr_reference x = Some (bookingReference b) \<and> (lr_type x = ''REFUND'' \<or> booking_entry b (lr_type x) (lr_idempotencyKey x))"
    using r r' by simp
  have "rows_of t b [r] = [r]" using r' by (simp add: rows_of_def)
  then show "\<exists>w held released charged refunded. account_story t b w (rows_of t b rows @ rows_of t b [r]) held released charged refunded" by simp (use s in blast)
qed

lemma ledger_ok_two:
  assumes "ledger_ok t rows" "account_story t b w (rows_of t b rows @ [r]) held released charged refunded"
    and "lr_type r = ''REFUND'' \<or> booking_entry b (lr_type r) (lr_idempotencyKey r)"
    and "account_story t b w ((rows_of t b rows @ [r]) @ [q]) held' released' charged' refunded'"
    and "lr_type q = ''REFUND'' \<or> booking_entry b (lr_type q) (lr_idempotencyKey q)"
  shows "ledger_ok t (rows @ [r, q])"
proof -
  have r: "ledger_ok t (rows @ [r])" by (rule ledger_ok_one [OF assms(1-3)])
  have "rows_of t b [r] = [r]" using story_rows [OF assms(2), of r] by (simp add: rows_of_def)
  then have "ledger_ok t ((rows @ [r]) @ [q])" using assms(4) by (intro ledger_ok_one [OF r _ assms(5)]) simp
  then show ?thesis by simp
qed

lemma sum_where_no: "\<forall>x \<in> set xs. \<not> P x \<Longrightarrow> sum_where P f xs = 0"
  by (induction xs) auto

text \<open>A refund of a charged booking that keeps the sum within the charge.\<close>

lemma refund_ledger:
  assumes ok: "ledger_ok t rows" and debit: "entry_of t rows (settleDebitKey b) ''DEBIT'' = Some d"
    and within: "referenceSumMinor rows t (lr_walletId d) (bookingReference b) ''REFUND'' + a \<le> - lr_amountMinor d" and pos: "0 < a"
    and r: "written t b (lr_walletId d) ''REFUND'' a key r"
  shows "ledger_ok t (rows @ [r])"
proof -
  obtain w held released charged refunded where st: "account_story t b w (rows_of t b rows) held released charged refunded" by (rule ledger_story [OF ok])
  have in_story: "d \<in> set (rows_of t b rows)" using entry_of_Some [OF debit] by (intro entry_in_story [OF ok]) (auto simp: booking_entry_def)
  have charged: "charged = Some (- lr_amountMinor d)" and w: "lr_walletId d = w"
    using story_parts [OF st] story_rows [OF st in_story] in_story entry_of_Some [OF debit] by auto
  obtain h where h: "held = Some h" "released" using story_charged [OF st charged] by blast
  have q: "referenceSumMinor rows t (lr_walletId d) (bookingReference b) ''REFUND'' = refunded" by (rule story_refunded [OF st w])
  have s0: "account_story t b w (rows_of t b rows) (Some h) True (Some (- lr_amountMinor d)) refunded" using st h charged by simp
  show ?thesis using within q
    by (intro ledger_ok_one [OF ok story_refund [OF s0 r [unfolded w] pos]]) (use r in \<open>simp_all add: written_def\<close>)
qed

subsection \<open>Events in order\<close>

definition finals_in_order :: "PostingDb \<Rightarrow> bool" where
  "finals_in_order db \<longleftrightarrow> distinct (map pe_id (fd_events db)) \<and> distinct (map pr_eventId (fd_postings db))
     \<and> (\<forall>e \<in> set (fd_events db). is_final db (pe_id e) \<longrightarrow> \<not> unfinished_before db e)"

text \<open>What one run of the service does to the postings: nothing, or one row of an event whose turn it is.\<close>

definition one_posting :: "PostingDb \<Rightarrow> PostingDb \<Rightarrow> PostedEvent \<Rightarrow> PostingStatus \<Rightarrow> bool" where
  "one_posting db db' e status \<longleftrightarrow> e \<in> set (fd_events db) \<and> \<not> is_final db (pe_id e) \<and> \<not> unfinished_before db e
     \<and> (\<exists>row. pr_eventId row = pe_id e \<and> pr_bookingId row = pe_bookingId e \<and> pr_status row = status
          \<and> fd_postings db' = put_posting row (posting_of db (pe_id e)) (fd_postings db))"

lemma record_posting_one:
  assumes "record_posting at e status reason walletId legs payableEffect db = (db', outcome)"
  shows "outcome = outcome_of_status status \<and> fd_events db' = fd_events db \<and> fd_bookings db' = fd_bookings db
    \<and> (\<exists>row. pr_eventId row = pe_id e \<and> pr_bookingId row = pe_bookingId e \<and> pr_status row = status
          \<and> fd_postings db' = put_posting row (posting_of db (pe_id e)) (fd_postings db))"
  using assms by (auto simp: record_posting_def Let_def new_posting_def intro!: exI)

lemma recordReview_one:
  assumes "find (\<lambda>e. pe_id e = eventId) (fd_events db) = Some e" "\<not> is_final db (pe_id e)" "\<not> unfinished_before db e"
    and "recordReview at eventId reason walletId db = (db', outcome)"
  shows "outcome = OUT_REVIEW \<and> fd_events db' = fd_events db \<and> fd_bookings db' = fd_bookings db \<and> one_posting db db' e REVIEW_REQUIRED"
  using assms record_posting_one [of at e REVIEW_REQUIRED _ walletId "[]" 0 db db' outcome]
  by (auto simp: recordReview_def one_posting_def outcome_of_status_def dest: find_SomeD)

lemma apply_plan_one:
  assumes "e \<in> set (fd_events db)" "find (\<lambda>e. pe_id e = pe_id e') (fd_events db) = Some e" "e' = e" "\<not> is_final db (pe_id e)" "\<not> unfinished_before db e"
    and run: "apply_plan rid at t e b walletId db = Inr (db', outcome)"
  obtains status where "outcome = outcome_of_status status" "fd_events db' = fd_events db" "fd_bookings db' = fd_bookings db" "one_posting db db' e status"
  using run unfolding apply_plan_def
proof (cases "planPosting (completed_event e b) (posting_facts t db e b walletId)")
  case (Post legs payable refund remarks)
  then have "post_plan rid at t e (pb_supplierId b) walletId legs payable refund db = Inr (db', outcome)" using run by (simp add: apply_plan_def)
  then obtain payables where r: "record_posting at e POSTED None walletId legs (case payable of Some p \<Rightarrow> pl_amountMinor p | None \<Rightarrow> 0)
       (db\<lparr>fd_ledger := (fd_ledger db)\<lparr>ws_rows := ws_rows (fd_ledger db) @ map (leg_row rid at t (the walletId) (pe_currency e)) legs\<rparr>, fd_payables := payables,
           fd_cancellations := set_cancellation (pe_bookingId e) refund (fd_cancellations db)\<rparr>) = (db', outcome)"
    by (rule post_plan_Inr) simp
  have same: "posting_of (db\<lparr>fd_ledger := l, fd_payables := p, fd_cancellations := c\<rparr>) i = posting_of db i" for l p c i
    by (simp add: posting_of_def)
  have "one_posting db db' e POSTED \<and> outcome = outcome_of_status POSTED \<and> fd_events db' = fd_events db \<and> fd_bookings db' = fd_bookings db"
    using record_posting_one [OF r] assms(1,4,5) unfolding one_posting_def same by simp
  then show ?thesis using that [of POSTED] by simp
next
  case (Skip reason)
  then have "record_posting at e SKIPPED (Some (BySkip reason)) walletId [] 0 db = (db', outcome)" using run by (simp add: apply_plan_def)
  from record_posting_one [OF this] show ?thesis using assms that [of SKIPPED] by (auto simp: one_posting_def)
next
  case (Review reason)
  then have "recordReview at (pe_id e) reason walletId db = (db', outcome)" using run by (simp add: apply_plan_def)
  from recordReview_one [OF _ assms(4,5) this] show ?thesis using assms that [of REVIEW_REQUIRED] by (auto simp: outcome_of_status_def)
qed

lemma apply_event_one:
  assumes run: "apply_event rid at t first_rows db eventId = Inr (db', outcome)"
  obtains (stay) "db' = db" "outcome \<in> {OUT_NOT_FOUND, OUT_ALREADY_FINAL, OUT_BLOCKED}"
  | (posted) e status where "pe_id e = eventId" "outcome = outcome_of_status status" "fd_events db' = fd_events db" "fd_bookings db' = fd_bookings db"
      "one_posting db db' e status"
proof (cases "find (\<lambda>e. pe_id e = eventId) (fd_events db)")
  case None
  then show ?thesis using run stay by (simp add: apply_event_def)
next
  case (Some e)
  have e: "e \<in> set (fd_events db)" "pe_id e = eventId" using find_SomeD [OF Some] by simp_all
  show ?thesis
  proof (cases "is_final db eventId \<or> unfinished_before db e")
    case True
    then show ?thesis using run stay Some by (auto simp: apply_event_def split: if_splits)
  next
    case False
    consider reason where "recordReview at eventId reason None db = (db', outcome)"
      | b walletId where "apply_plan rid at t e b walletId db = Inr (db', outcome)"
      using run False Some unfolding apply_event_def Let_def by (auto split: option.splits sum.splits if_splits)
    then show ?thesis
    proof cases
      case 1
      then show ?thesis using recordReview_one [OF Some _ _ 1] False e posted [of e REVIEW_REQUIRED] by (auto simp: outcome_of_status_def)
    next
      case 2
      have f: "find (\<lambda>e. pe_id e = pe_id e') (fd_events db) = Some e" if "e' = e" for e' using Some e(2) that by simp
      have fresh: "\<not> is_final db (pe_id e)" "\<not> unfinished_before db e" using False e(2) by simp_all
      show ?thesis by (rule apply_plan_one [OF e(1) f [OF refl] refl fresh 2]) (use e(2) posted in blast)
    qed
  qed
qed

lemma apply_event_Inl:
  "apply_event rid at t first_rows db eventId = Inl failure
    \<Longrightarrow> \<exists>e. find (\<lambda>e. pe_id e = eventId) (fd_events db) = Some e \<and> \<not> is_final db eventId \<and> \<not> unfinished_before db e"
  unfolding apply_event_def by (auto split: option.splits if_splits)

lemma postEvent_one:
  assumes run: "postEvent rid at t first_rows db eventId = Inr (db', outcome)"
  obtains (stay) "db' = db" "outcome \<in> {OUT_NOT_FOUND, OUT_ALREADY_FINAL, OUT_BLOCKED}"
  | (posted) e status where "pe_id e = eventId" "outcome = outcome_of_status status" "fd_events db' = fd_events db" "fd_bookings db' = fd_bookings db"
      "one_posting db db' e status"
proof (cases "apply_event rid at t first_rows db eventId")
  case (Inr r)
  then have "apply_event rid at t first_rows db eventId = Inr (db', outcome)" using run by (simp add: postEvent_def)
  then show ?thesis by (rule apply_event_one) (fact stay posted)+
next
  case (Inl failure)
  obtain e where e: "find (\<lambda>e. pe_id e = eventId) (fd_events db) = Some e" "\<not> is_final db eventId" "\<not> unfinished_before db e"
    using apply_event_Inl [OF Inl] by blast
  have id: "pe_id e = eventId" using find_SomeD [OF e(1)] by simp
  have "recordReview at eventId EVENT_INCONSISTENT None db = (db', outcome)"
    using run Inl e(2) by (auto simp: postEvent_def split: PostingFailure.splits)
  then show ?thesis using recordReview_one [OF e(1) _ e(3)] e(2) id posted [of e REVIEW_REQUIRED] by (auto simp: outcome_of_status_def)
qed

lemma find_put_posting:
  assumes "pr_eventId row = i"
  shows "j \<noteq> i \<Longrightarrow> find (\<lambda>p. pr_eventId p = j) (put_posting row prior rows) = find (\<lambda>p. pr_eventId p = j) rows"
    and "map_option pr_status (find (\<lambda>p. pr_eventId p = i) (put_posting row (find (\<lambda>p. pr_eventId p = i) rows) rows)) = Some (pr_status row)"
    and "distinct (map pr_eventId rows) \<Longrightarrow> distinct (map pr_eventId (put_posting row (find (\<lambda>p. pr_eventId p = i) rows) rows))"
proof -
  have f: "find P (xs @ [x]) = (case find P xs of Some y \<Rightarrow> Some y | None \<Rightarrow> if P x then Some x else None)" for P xs and x :: PostingRow
    by (induction xs) auto
  have m: "j \<noteq> i \<Longrightarrow> find (\<lambda>p. pr_eventId p = j) (map (\<lambda>r. if pr_eventId r = i then row\<lparr>pr_attempts := n\<rparr> else r) rows) = find (\<lambda>p. pr_eventId p = j) rows" for n
    using assms by (induction rows) auto
  have u: "find (\<lambda>p. pr_eventId p = i) rows \<noteq> None \<Longrightarrow>
      find (\<lambda>p. pr_eventId p = i) (map (\<lambda>r. if pr_eventId r = i then row\<lparr>pr_attempts := n\<rparr> else r) rows) = Some (row\<lparr>pr_attempts := n\<rparr>)" for n
    using assms by (induction rows) auto
  have k: "map pr_eventId (map (\<lambda>r. if pr_eventId r = i then row\<lparr>pr_attempts := n\<rparr> else r) rows) = map pr_eventId rows" for n
    using assms by (induction rows) auto
  show "find (\<lambda>p. pr_eventId p = j) (put_posting row prior rows) = find (\<lambda>p. pr_eventId p = j) rows" if "j \<noteq> i"
    using m that assms by (auto simp: put_posting_def f split: option.splits)
  show "map_option pr_status (find (\<lambda>p. pr_eventId p = i) (put_posting row (find (\<lambda>p. pr_eventId p = i) rows) rows)) = Some (pr_status row)"
    using u assms by (auto simp: put_posting_def f split: option.splits)
  show "distinct (map pr_eventId (put_posting row (find (\<lambda>p. pr_eventId p = i) rows) rows))" if "distinct (map pr_eventId rows)"
    using that k assms by (auto simp: put_posting_def find_None_iff split: option.splits simp del: map_map)
qed

lemma one_posting_final:
  assumes "one_posting db db' e status"
  shows "is_final db' j \<longleftrightarrow> (if j = pe_id e then status \<noteq> REVIEW_REQUIRED else is_final db j)"
    and "is_final db j \<Longrightarrow> posting_of db' j = posting_of db j"
proof -
  obtain row where row: "pr_eventId row = pe_id e" "pr_status row = status" "fd_postings db' = put_posting row (posting_of db (pe_id e)) (fd_postings db)"
    and fresh: "\<not> is_final db (pe_id e)" using assms by (auto simp: one_posting_def)
  note f = find_put_posting [OF row(1), where rows = "fd_postings db"]
  show "is_final db' j \<longleftrightarrow> (if j = pe_id e then status \<noteq> REVIEW_REQUIRED else is_final db j)"
    using f(1) f(2) row(2,3) unfolding is_final_def posting_of_def by (auto split: option.splits)
  show "posting_of db' j = posting_of db j" if "is_final db j"
    using f(1) fresh that row(3) unfolding posting_of_def by (cases "j = pe_id e") auto
qed

lemma one_posting_order:
  assumes inv: "finals_in_order db" and one: "one_posting db db' e status" and events: "fd_events db' = fd_events db"
  shows "finals_in_order db'"
proof -
  have grow: "is_final db j \<Longrightarrow> is_final db' j" for j
    using one_posting_final(1) [OF one, of j] one by (auto simp: one_posting_def)
  have less: "unfinished_before db' h \<Longrightarrow> unfinished_before db h" for h
    using grow by (auto simp: unfinished_before_def events)
  have "\<not> unfinished_before db' h" if "h \<in> set (fd_events db')" "is_final db' (pe_id h)" for h
  proof (cases "pe_id h = pe_id e")
    case True
    have "inj_on pe_id (set (fd_events db))" "e \<in> set (fd_events db)" using inv one by (simp_all add: finals_in_order_def distinct_map one_posting_def)
    then have "h = e" using True that(1) by (auto simp: events dest: inj_onD)
    then show ?thesis using one less by (auto simp: one_posting_def)
  next
    case False
    then have "is_final db (pe_id h)" using that(2) one_posting_final(1) [OF one] by simp
    then show ?thesis using inv that(1) less by (auto simp: finals_in_order_def events)
  qed
  moreover have "distinct (map pr_eventId (fd_postings db'))"
    using one inv find_put_posting(3) unfolding one_posting_def finals_in_order_def posting_of_def by metis
  ultimately show ?thesis using inv by (simp add: finals_in_order_def events)
qed
end
