(* ===== verification/Agent_Booking.thy ===== *)
theory Agent_Booking
  imports Finance_Posting Inventory_Holds Booking_Transition
begin
text \<open>
  An agent's booking and its money: \<open>agent/booking-financial-authorization.service.ts\<close>,
  \<open>agent/booking-confirmation.service.ts\<close>, \<open>agent/booking-cancellation.service.ts\<close>,
  \<open>agent/cancellation-settlement.service.ts\<close> and \<open>agent/booking-agency-scope.ts\<close>. Each handler is one transaction on
  the ledger, the stock and the file of the booking; what it throws rolls it back. The snapshot of the search stored
  with the booking is a JavaScript value whose texts are texts.
\<close>

subsection \<open>Authorising the payment\<close>

record FinancialCommand =
  fc_userId :: string
  fc_requestId :: string
  fc_walletId :: string
  fc_bookingId :: string
  fc_currency :: string
  fc_amountMinor :: int
  fc_idempotencyKey :: string

definition validate_financial :: "string option \<Rightarrow> string \<Rightarrow> FinancialCommand \<Rightarrow> unit http" where
  "validate_financial env t c =
     ebind (assertSupportedSettlementCurrency env (fc_currency c)) (\<lambda>_.
       if \<exists>v \<in> set [t, fc_userId c, fc_requestId c, fc_walletId c, fc_bookingId c, fc_idempotencyKey c]. v = [] \<or> trim v \<noteq> v
       then Inl (BadRequest ''Invalid financial authorization command'')
       else if fc_amountMinor c \<le> 0 then Inl (BadRequest ''Authorization amount must be positive'')
       else Inr ())"

definition same_row_as :: "string \<Rightarrow> LedgerEntryKind \<Rightarrow> int \<Rightarrow> FinancialCommand \<Rightarrow> ledger_row \<Rightarrow> bool" where
  "same_row_as t type amount c r \<longleftrightarrow> lr_tenantId r = t \<and> lr_walletId r = fc_walletId c \<and> lr_type r = type \<and> lr_amountMinor r = amount
     \<and> lr_currency r = fc_currency c \<and> lr_reference r = Some (bookingReference (fc_bookingId c))"

definition assertSameAuthorization :: "string \<Rightarrow> FinancialCommand \<Rightarrow> ledger_row \<Rightarrow> unit http" where
  "assertSameAuthorization t c r =
     (if same_row_as t ''HOLD'' (- fc_amountMinor c) c r then Inr ()
      else Inl (Conflict ''Financial authorization idempotency key was reused with different intent''))"

definition assertSameRelease :: "string \<Rightarrow> FinancialCommand \<Rightarrow> ledger_row \<Rightarrow> unit http" where
  "assertSameRelease t c r =
     (if same_row_as t ''RELEASE'' (fc_amountMinor c) c r then Inr ()
      else Inl (Conflict ''Financial release idempotency key was reused with different intent''))"

definition finance_append :: "string \<Rightarrow> FinancialCommand \<Rightarrow> LedgerEntryKind \<Rightarrow> int \<Rightarrow> string \<Rightarrow> LedgerAppend" where
  "finance_append t c type amount key = \<lparr>la_tenantId = t, la_walletId = fc_walletId c, la_type = type, la_amountMinor = amount, la_currency = fc_currency c,
     la_idempotencyKey = key, la_reference = Some (bookingReference (fc_bookingId c))\<rparr>"

definition finance_audit :: "string \<Rightarrow> FinancialCommand \<Rightarrow> string \<Rightarrow> audit_event" where
  "finance_audit t c action = \<lparr>au_tenantId = t, au_userId = fc_userId c, au_action = action, au_entityType = ''booking'', au_entityId = fc_bookingId c,
     au_code = None, au_balanceBefore = None, au_balanceAfter = None\<rparr>"

text \<open>
  The append and its audit event; when the unique key refuses the row the transaction is rolled back and the row that
  took the key is read and compared.
\<close>

definition append_audited ::
  "(string \<Rightarrow> string) \<Rightarrow> int \<Rightarrow> string \<Rightarrow> FinancialCommand \<Rightarrow> LedgerAppend \<Rightarrow> string \<Rightarrow> (ledger_row \<Rightarrow> unit http) \<Rightarrow> wl_state \<Rightarrow> (wl_state \<times> ledger_row) http" where
  "append_audited rid at t c i action assertSame s =
     ebind (appendLedgerEntry (rid (la_idempotencyKey i)) at i (ws_rows s)) (\<lambda>(rows, row).
       if entry_key row \<in> entry_key ` set (ws_rows s) then
         (case find_entry (ws_rows s) t (la_walletId i) (la_idempotencyKey i) of
            None \<Rightarrow> Inl (ServerError ''P2002'')
          | Some raced \<Rightarrow> ebind (assertSame raced) (\<lambda>_. Inr (s, raced)))
       else Inr (s\<lparr>ws_rows := rows, ws_audits := ws_audits s @ [finance_audit t c action]\<rparr>, row))"

definition authorize :: "string option \<Rightarrow> (string \<Rightarrow> string) \<Rightarrow> int \<Rightarrow> string \<Rightarrow> FinancialCommand \<Rightarrow> wl_state \<Rightarrow> (wl_state \<times> ledger_row) http" where
  "authorize env rid at t c s =
     ebind (validate_financial env t c) (\<lambda>_.
     ebind (lockWalletRow s t (fc_walletId c)) (\<lambda>_.
       case find_wallet s t (fc_walletId c) of
         None \<Rightarrow> Inl (Forbidden ''Wallet is unavailable'')
       | Some w \<Rightarrow>
           if wa_currency w \<noteq> fc_currency c then Inl (Conflict ''Wallet currency mismatch'')
           else case find_entry (ws_rows s) t (fc_walletId c) (fc_idempotencyKey c) of
             Some existing \<Rightarrow> ebind (assertSameAuthorization t c existing) (\<lambda>_. Inr (s, existing))
           | None \<Rightarrow>
               ebind (assertSpendableUnderLock s w (fc_amountMinor c)) (\<lambda>_.
                 append_audited rid at t c (finance_append t c ''HOLD'' (- fc_amountMinor c) (fc_idempotencyKey c)) ''booking.finance.authorized''
                   (assertSameAuthorization t c) s)))"

definition release_authorization :: "string option \<Rightarrow> (string \<Rightarrow> string) \<Rightarrow> int \<Rightarrow> string \<Rightarrow> FinancialCommand \<Rightarrow> wl_state \<Rightarrow> (wl_state \<times> ledger_row) http" where
  "release_authorization env rid at t c s =
     ebind (validate_financial env t c) (\<lambda>_.
     ebind (lockWalletRow s t (fc_walletId c)) (\<lambda>_.
       case find_entry (ws_rows s) t (fc_walletId c) (fc_idempotencyKey c) of
         None \<Rightarrow> Inl (Conflict ''Financial authorization is unavailable'')
       | Some authorization \<Rightarrow>
           ebind (assertSameAuthorization t c authorization) (\<lambda>_.
             case find_entry (ws_rows s) t (fc_walletId c) (fc_idempotencyKey c @ '':release'') of
               Some existing \<Rightarrow> ebind (assertSameRelease t c existing) (\<lambda>_. Inr (s, existing))
             | None \<Rightarrow> append_audited rid at t c (finance_append t c ''RELEASE'' (fc_amountMinor c) (fc_idempotencyKey c @ '':release''))
                         ''booking.finance.released'' (assertSameRelease t c) s)))"

subsection \<open>Who may touch a booking\<close>

datatype AgentBookingScope = SCOPE_AGENCY string | SCOPE_OPERATOR

record membership_row =
  ms_tenantId :: string
  ms_role :: string
  ms_revoked :: bool
  ms_tenantActive :: bool

definition membershipGrantsPermission :: "string \<Rightarrow> string list \<Rightarrow> string \<Rightarrow> bool" where
  "membershipGrantsPermission role formalKeys required \<longleftrightarrow>
     required \<in> set formalKeys \<or> role = ''owner'' \<or> (required = ''finance.read'' \<and> role = ''finance'')"

definition resolveAgentBookingScope :: "string \<Rightarrow> membership_row option \<Rightarrow> string option \<Rightarrow> string list \<Rightarrow> AgentBookingScope http" where
  "resolveAgentBookingScope t membership member_agency formal =
     (case membership of
        None \<Rightarrow> Inl (Forbidden ''Access denied'')
      | Some m \<Rightarrow>
          if ms_revoked m \<or> ms_tenantId m \<noteq> t \<or> \<not> ms_tenantActive m then Inl (Forbidden ''Access denied'')
          else case member_agency of
            Some a \<Rightarrow> Inr (SCOPE_AGENCY a)
          | None \<Rightarrow> if \<not> membershipGrantsPermission (ms_role m) formal ''booking.read'' then Inl (Forbidden ''Access denied'') else Inr SCOPE_OPERATOR)"

fun in_scope :: "AgentBookingScope \<Rightarrow> BookingRow \<Rightarrow> bool" where
  "in_scope (SCOPE_AGENCY a) b = (bk_agencyId b = Some a)"
| "in_scope SCOPE_OPERATOR b = True"

subsection \<open>Confirmation\<close>

datatype MutationStatus = MUT_PREPARED | MUT_SENDING | MUT_ACKNOWLEDGED | MUT_REJECTED | MUT_UNKNOWN | MUT_RESOLVED

record SupplierMutationRow =
  sm_status :: MutationStatus
  sm_supplierReference :: "string option"
  sm_supplierStatus :: "string option"

definition supplierMutationAcceptedReference :: "SupplierMutationRow \<Rightarrow> string option" where
  "supplierMutationAcceptedReference m =
     (if sm_supplierReference m = None \<or> sm_supplierReference m = Some [] then None
      else if sm_status m = MUT_ACKNOWLEDGED then sm_supplierReference m
      else if sm_status m = MUT_RESOLVED \<and> (case sm_supplierStatus m of None \<Rightarrow> False
                | Some s \<Rightarrow> toLowerCase (trim s) \<in> {''accepted'', ''fulfilled'', ''confirmed''}) then sm_supplierReference m
      else None)"

record RecordedPrebook =
  rc_unknown :: bool
  rc_supplierReference :: "string option"

definition readSupplierPrebook :: "jsval \<Rightarrow> RecordedPrebook option" where
  "readSupplierPrebook snapshot =
     (case snapshot of
        JObj s \<Rightarrow>
          (case field s ''supplierPrebook'' of
             JObj r \<Rightarrow>
               (if field r ''outcome'' \<noteq> JStr ''prebooked'' \<and> field r ''outcome'' \<noteq> JStr ''unknown'' then None
                else Some \<lparr>rc_unknown = (field r ''outcome'' = JStr ''unknown''),
                           rc_supplierReference = (case field r ''supplierReference'' of JStr x \<Rightarrow> if x = [] then None else Some x | _ \<Rightarrow> None)\<rparr>)
           | _ \<Rightarrow> None)
      | _ \<Rightarrow> None)"

definition snapshot_text :: "jsval \<Rightarrow> string \<Rightarrow> string option" where
  "snapshot_text snapshot key = (case field (spread snapshot) key of JStr s \<Rightarrow> Some s | _ \<Rightarrow> None)"

record AgentDb =
  ag_bookingId :: string
  ag_snapshot :: jsval
  ag_supplier :: string
  ag_stock :: InventoryDb
  ag_file :: BookingFile
  ag_mutation :: "SupplierMutationRow option"
  ag_prebookAudits :: nat
  ag_cancellations :: "(string \<times> int option) list"
  ag_email :: "(string \<times> string list) option"
  ag_audits :: "(string \<times> string) list"

definition lift_http :: "'a http \<Rightarrow> 'a booking_result" where
  "lift_http r = (case r of Inl e \<Rightarrow> Inl (Http e) | Inr x \<Rightarrow> Inr x)"

definition lift_posting :: "'a posting \<Rightarrow> 'a booking_result" where
  "lift_posting r =
     (case r of
        Inr x \<Rightarrow> Inr x
      | Inl UniqueViolation \<Rightarrow> Inl (Http (ServerError ''P2002''))
      | Inl (PostingFailure.Thrown e) \<Rightarrow> Inl (Http e)
      | Inl (Fault m) \<Rightarrow> Inl (Http (ServerError m)))"

definition prebook_check :: "AgentDb \<Rightarrow> unit http" where
  "prebook_check db =
     (case ag_mutation db of
        Some m \<Rightarrow>
          if sm_status m = MUT_SENDING \<or> sm_status m = MUT_UNKNOWN \<or> (sm_status m = MUT_RESOLVED \<and> sm_supplierStatus m = Some ''unknown'')
          then Inl (Conflict ''Supplier outcome is unknown'')
          else if supplierMutationAcceptedReference m = None then Inl (Conflict ''Booking has not been prebooked'') else Inr ()
      | None \<Rightarrow>
          let recorded = readSupplierPrebook (ag_snapshot db) in
          if recorded \<noteq> None \<and> rc_unknown (the recorded) \<and> ag_prebookAudits db = 0 then Inl (Conflict ''Supplier outcome is unknown'')
          else if ag_prebookAudits db = 0 \<and> \<not> (recorded \<noteq> None \<and> \<not> rc_unknown (the recorded) \<and> rc_supplierReference (the recorded) \<noteq> None)
            then Inl (Conflict ''Booking has not been prebooked'')
          else Inr ())"

text \<open>The hold of the ledger the booking was authorised with, read again under the lock of its wallet.\<close>

definition matches_booking :: "ledger_row \<Rightarrow> int \<Rightarrow> string \<Rightarrow> bool" where
  "matches_booking r totalMinor cur \<longleftrightarrow> - lr_amountMinor r = totalMinor \<and> lr_currency r = cur"

definition reservation_of :: "string \<Rightarrow> string \<Rightarrow> int \<Rightarrow> string \<Rightarrow> wl_state \<Rightarrow> ledger_row http" where
  "reservation_of t b totalMinor cur s =
     (case entry_of t (ws_rows s) (holdKey b) ''HOLD'' of
        None \<Rightarrow> Inl (Conflict ''Financial authorization is unavailable'')
      | Some preview \<Rightarrow>
          if \<not> matches_booking preview totalMinor cur then Inl (Conflict ''Financial authorization does not match the booking'')
          else ebind (lockWalletRow s t (lr_walletId preview)) (\<lambda>_.
            case find (\<lambda>r. lr_tenantId r = t \<and> lr_walletId r = lr_walletId preview \<and> lr_idempotencyKey r = holdKey b \<and> lr_type r = ''HOLD'') (ws_rows s) of
              None \<Rightarrow> Inl (Conflict ''Financial authorization is unavailable'')
            | Some reservation \<Rightarrow>
                if \<not> matches_booking reservation totalMinor cur then Inl (Conflict ''Financial authorization does not match the booking'')
                else if \<exists>r \<in> set (ws_rows s). lr_tenantId r = t \<and> lr_walletId r = lr_walletId reservation \<and> lr_idempotencyKey r = releaseKey b
                  then Inl (Conflict ''Financial authorization was released'')
                else Inr reservation))"

definition booking_leg :: "string \<Rightarrow> LedgerEntryKind \<Rightarrow> int \<Rightarrow> string \<Rightarrow> LedgerLeg" where
  "booking_leg b type amount key = \<lparr>lg_legType = type, lg_legMinor = amount, lg_reference = bookingReference b, lg_key = key\<rparr>"

definition settle_legs :: "string \<Rightarrow> int \<Rightarrow> LedgerLeg list" where
  "settle_legs b amount = [booking_leg b ''RELEASE'' amount (settleReleaseKey b), booking_leg b ''DEBIT'' (- amount) (settleDebitKey b)]"

definition system_move :: "string \<Rightarrow> string \<Rightarrow> BookingAction \<Rightarrow> BookingStatus \<Rightarrow> string \<Rightarrow> int \<Rightarrow> TransitionInput" where
  "system_move b userId action expected key now =
     \<lparr>ti_bookingId = b, ti_action = action, ti_expectedStatus = expected, ti_actorType = BY_USER, ti_actorId = Some userId, ti_level = SYSTEM, ti_reason = None,
      ti_supplierRef = None, ti_hotelConfirmationNo = None, ti_supplierCancellationRef = None, ti_confirmNonRefundable = False, ti_supplierStatus = None,
      ti_emitFinance = False, ti_penaltyQuote = None, ti_idempotencyKey = Some key, ti_eventPayload = [], ti_fingerprintExtra = None, ti_now = now\<rparr>"

definition checked_transition ::
  "(string \<Rightarrow> string) \<Rightarrow> (string \<Rightarrow> int option) \<Rightarrow> TransitionInput \<Rightarrow> BookingFile \<Rightarrow> BookingFile booking_result" where
  "checked_transition sha256 other i f =
     ebind (input_check (cleaned i)) (\<lambda>_. ebind (transition_on sha256 other f f i) (\<lambda>(f', outcome). Inr f'))"

definition agent_audit :: "string \<Rightarrow> string \<Rightarrow> AgentDb \<Rightarrow> AgentDb" where
  "agent_audit action code db = db\<lparr>ag_audits := ag_audits db @ [(action, code)]\<rparr>"

definition queue_email :: "string option \<Rightarrow> string list \<Rightarrow> AgentDb \<Rightarrow> AgentDb booking_result" where
  "queue_email recipient cc db =
     (case recipient of
        None \<Rightarrow> Inr db
      | Some address \<Rightarrow>
          if address = [] then Inr db
          else if ag_email db \<noteq> None then Inl (Http (ServerError ''P2002''))
          else Inr (agent_audit ''booking.email.queued'' [] (db\<lparr>ag_email := Some (address, cc)\<rparr>)))"

definition with_rows :: "ledger_row list \<Rightarrow> InventoryDb \<Rightarrow> InventoryDb" where
  "with_rows rows stock = stock\<lparr>iv_ledger := (iv_ledger stock)\<lparr>ws_rows := rows\<rparr>\<rparr>"

definition stock_rows :: "AgentDb \<Rightarrow> ledger_row list" where
  "stock_rows db = ws_rows (iv_ledger (ag_stock db))"

record ConfirmCommand =
  cf_userId :: string
  cf_recipient :: "string option"
  cf_cc :: "string list"

definition confirm_pending ::
  "(string \<Rightarrow> string) \<Rightarrow> (string \<Rightarrow> int option) \<Rightarrow> (string \<Rightarrow> string) \<Rightarrow> int \<Rightarrow> string \<Rightarrow> ConfirmCommand \<Rightarrow> string \<Rightarrow> AgentDb \<Rightarrow> AgentDb booking_result" where
  "confirm_pending sha256 other rid now t c holdId db =
     (let b = ag_bookingId db; row = bf_booking (ag_file db) in
      ebind (lift_http (reservation_of t b (bk_totalMinor row) (bk_currency row) (iv_ledger (ag_stock db)))) (\<lambda>reservation.
      ebind (lift_http (confirm_inventory holdId (ag_stock db))) (\<lambda>stock.
      ebind (lift_posting (append_legs rid now t (Some (lr_walletId reservation)) (bk_currency row) (settle_legs b (- lr_amountMinor reservation)) (stock_rows db))) (\<lambda>rows.
      ebind (checked_transition sha256 other (system_move b (cf_userId c) systemConfirm PENDING_SUPPLIER (''confirm:'' @ b) now) (ag_file db)) (\<lambda>f.
        queue_email (cf_recipient c) (cf_cc c)
          (agent_audit ''booking.confirmed'' [] (db\<lparr>ag_stock := with_rows rows stock, ag_file := f, ag_supplier := ''contracted-inventory''\<rparr>)))))))"

definition confirm_booking ::
  "(string \<Rightarrow> string) \<Rightarrow> (string \<Rightarrow> int option) \<Rightarrow> (string \<Rightarrow> string) \<Rightarrow> int \<Rightarrow> string \<Rightarrow> AgentBookingScope \<Rightarrow> ConfirmCommand \<Rightarrow> AgentDb
    \<Rightarrow> (AgentDb \<times> bool) booking_result" where
  "confirm_booking sha256 other rid now t scope c db =
     (let row = bf_booking (ag_file db) in
      if \<not> in_scope scope row then Inl (Http (NotFound ''Booking not found''))
      else if bk_status row = BookingStatus.CONFIRMED then Inr (db, True)
      else if bk_status row \<noteq> PENDING_SUPPLIER then conflict ''Booking is not confirmable''
      else ebind (lift_http (prebook_check db)) (\<lambda>_.
        case snapshot_text (ag_snapshot db) ''inventoryHoldId'' of
          None \<Rightarrow> conflict ''Booking has no inventory hold''
        | Some holdId \<Rightarrow>
            if map_option ih_status (find_hold (ag_stock db) holdId) \<noteq> Some PROCESSING then conflict ''Inventory hold is no longer active''
            else ebind (confirm_pending sha256 other rid now t c holdId db) (\<lambda>db'. Inr (db', False))))"
subsection \<open>Cancellation by the agent\<close>

record PlanTerms =
  pt_id :: string
  pt_policySet :: "string option"
  pt_bufferDays :: int
  pt_hotelTimeZone :: string
  pt_rules :: "(string option \<times> LiveRule) list"

definition rulesForPlan :: "string option \<Rightarrow> (string option \<times> LiveRule) list \<Rightarrow> LiveRule list" where
  "rulesForPlan policySet contractRules = map snd (filter (\<lambda>(s, r). s = policySet) contractRules)"

definition cancellationTiers :: "LiveRule list \<Rightarrow> LiveRule list" where
  "cancellationTiers rules = filter (\<lambda>r. lr_kind r \<noteq> Some ''NO_SHOW'') rules"

definition agent_rule :: "LiveRule \<Rightarrow> CancellationRule" where
  "agent_rule r = \<lparr>cn_daysBeforeCheckin = JInt (lr_daysBeforeCheckin r), cn_penaltyPercent = map_option JInt (lr_penaltyPercent r),
     cn_penaltyMinor = lr_penaltyMinor r, cn_penaltyNights = map_option JInt (lr_penaltyNights r),
     cn_currency = (if LiveRule.lr_currency r = Some [] then None else LiveRule.lr_currency r)\<rparr>"

definition nights_between :: "(string \<Rightarrow> int option) \<Rightarrow> string \<Rightarrow> string option \<Rightarrow> int option" where
  "nights_between other checkIn checkOut =
     (case nights_from_dates other checkOut checkIn of Some n \<Rightarrow> if n > 0 then Some n else None | None \<Rightarrow> None)"

record Evaluation =
  el_holdId :: string
  el_penaltyMinor :: int
  el_refundMinor :: int

definition lift_js :: "'a result \<Rightarrow> 'a booking_result" where
  "lift_js r = (case r of Inl e \<Rightarrow> Inl (Http (ServerError ''Error'')) | Inr x \<Rightarrow> Inr x)"

definition evaluate_terms ::
  "time_zones \<Rightarrow> (string \<Rightarrow> int option) \<Rightarrow> int \<Rightarrow> jsval \<Rightarrow> BookingRow \<Rightarrow> string \<Rightarrow> string \<Rightarrow> PlanTerms \<Rightarrow> Evaluation booking_result" where
  "evaluate_terms tz other now snapshot row checkIn holdId plan =
     (let timeZone = frozenTimeZone (bk_cancellationPolicy row) (pt_hotelTimeZone plan); frozen = readFrozenTerms (bk_cancellationPolicy row) in
      if frozen = TermsInvalid then conflict ''Cancellation requires manual review: the frozen cancellation terms are unreadable''
      else
        let rules = (case frozen of TermsFrozen terms \<Rightarrow> rt_rules terms
                     | _ \<Rightarrow> buyerRules (map agent_rule (cancellationTiers (rulesForPlan (pt_policySet plan) (pt_rules plan)))) (pt_bufferDays plan));
            frozen_nights = (case frozen of TermsFrozen terms \<Rightarrow> rt_stayNights terms | _ \<Rightarrow> None);
            nights = (if frozen_nights \<noteq> None then frozen_nights else nights_between other checkIn (snapshot_text snapshot ''checkOut'')) in
        ebind (lift_js (quote tz other \<lparr>ci_cancellableAmountMinor = bk_totalMinor row, ci_currency = bk_currency row, ci_checkIn = checkIn,
                 ci_requestedAt = iso_text now, ci_rules = rules, ci_propertyTimeZone = Some timeZone, ci_stayNights = map_option JInt nights\<rparr>)) (\<lambda>q.
        case q of
          NotQuotable status reason at \<Rightarrow> conflict (''Cancellation requires manual review: '' @ reason)
        | Quotable p \<Rightarrow>
            ebind (lift_js (penaltyStartsAt tz checkIn (JInt 0) timeZone)) (\<lambda>starts.
              case starts of
                None \<Rightarrow> conflict ''Stay has already started''
              | Some s \<Rightarrow>
                  if now \<ge> s then conflict ''Stay has already started''
                  else Inr \<lparr>el_holdId = holdId, el_penaltyMinor = qp_penaltyMinor p, el_refundMinor = qp_refundMinor p\<rparr>)))"

definition evaluate :: "time_zones \<Rightarrow> (string \<Rightarrow> int option) \<Rightarrow> int \<Rightarrow> PlanTerms list \<Rightarrow> jsval \<Rightarrow> BookingRow \<Rightarrow> Evaluation booking_result" where
  "evaluate tz other now plans snapshot row =
     (let text = (\<lambda>key. case snapshot_text snapshot key of Some s \<Rightarrow> s | None \<Rightarrow> []) in
      if text ''checkIn'' = [] \<or> text ''inventoryHoldId'' = [] \<or> text ''ratePlanId'' = [] then conflict ''Booking snapshot is incomplete''
      else case find (\<lambda>p. pt_id p = text ''ratePlanId'') plans of
        None \<Rightarrow> conflict ''Rate plan is unavailable''
      | Some plan \<Rightarrow> evaluate_terms tz other now snapshot row (text ''checkIn'') (text ''inventoryHoldId'') plan)"

definition charge_of :: "string \<Rightarrow> string \<Rightarrow> BookingRow \<Rightarrow> wl_state \<Rightarrow> ledger_row http" where
  "charge_of t b row s =
     (case entry_of t (ws_rows s) (settleDebitKey b) ''DEBIT'' of
        None \<Rightarrow> Inl (Conflict ''Booking was never charged'')
      | Some debit \<Rightarrow>
          if - lr_amountMinor debit \<noteq> bk_totalMinor row \<or> lr_currency debit \<noteq> bk_currency row then Inl (Conflict ''Booking was never charged'')
          else if find_wallet s t (lr_walletId debit) = None then Inl (Conflict ''Wallet is unavailable'')
          else Inr debit)"

definition cancel_refund_legs :: "string \<Rightarrow> int \<Rightarrow> LedgerLeg list" where
  "cancel_refund_legs b refund = (if refund > 0 then [booking_leg b ''REFUND'' refund (''booking:'' @ b @ '':cancel-refund'')] else [])"

definition create_cancellation :: "string \<Rightarrow> int option \<Rightarrow> (string \<times> int option) list \<Rightarrow> (string \<times> int option) list booking_result" where
  "create_cancellation b refund rows = (if map_of rows b \<noteq> None then Inl (Http (ServerError ''P2002'')) else Inr (rows @ [(b, refund)]))"

definition cancel_post ::
  "(string \<Rightarrow> string) \<Rightarrow> (string \<Rightarrow> int option) \<Rightarrow> (string \<Rightarrow> string) \<Rightarrow> int \<Rightarrow> string \<Rightarrow> string \<Rightarrow> Evaluation \<Rightarrow> AgentDb \<Rightarrow> AgentDb booking_result" where
  "cancel_post sha256 other rid now t userId e db =
     (let b = ag_bookingId db; row = bf_booking (ag_file db) in
      ebind (lift_http (charge_of t b row (iv_ledger (ag_stock db)))) (\<lambda>debit.
      ebind (lift_http (cancel_inventory now (el_holdId e) (ag_stock db))) (\<lambda>stock.
      ebind (lift_posting (append_legs rid now t (Some (lr_walletId debit)) (bk_currency row) (cancel_refund_legs b (el_refundMinor e)) (stock_rows db))) (\<lambda>rows.
      ebind (create_cancellation b (Some (el_refundMinor e)) (ag_cancellations db)) (\<lambda>cancellations.
      ebind (checked_transition sha256 other (system_move b userId systemRequestCancellation BookingStatus.CONFIRMED (''cancel:'' @ b @ '':request'') now) (ag_file db)) (\<lambda>f1.
      ebind (checked_transition sha256 other (system_move b userId systemCompleteCancellation CANCEL_REQUESTED (''cancel:'' @ b @ '':complete'') now) f1) (\<lambda>f2.
        Inr (agent_audit ''booking.cancelled'' [] (db\<lparr>ag_stock := with_rows rows stock, ag_file := f2, ag_cancellations := cancellations\<rparr>)))))))))"

definition cancel_confirmed ::
  "time_zones \<Rightarrow> (string \<Rightarrow> string) \<Rightarrow> (string \<Rightarrow> int option) \<Rightarrow> (string \<Rightarrow> string) \<Rightarrow> int \<Rightarrow> string \<Rightarrow> string \<Rightarrow> PlanTerms list \<Rightarrow> AgentDb \<Rightarrow> (AgentDb \<times> int) booking_result" where
  "cancel_confirmed tz sha256 other rid now t userId plans db =
     ebind (evaluate tz other now plans (ag_snapshot db) (bf_booking (ag_file db))) (\<lambda>e.
       if \<not> refundWithin (el_refundMinor e) (bk_totalMinor (bf_booking (ag_file db))) then bad_request ''Refund exceeds authorized refundable amount''
       else ebind (cancel_post sha256 other rid now t userId e db) (\<lambda>db'. Inr (db', el_refundMinor e)))"

definition cancel_transaction ::
  "time_zones \<Rightarrow> (string \<Rightarrow> string) \<Rightarrow> (string \<Rightarrow> int option) \<Rightarrow> (string \<Rightarrow> string) \<Rightarrow> int \<Rightarrow> string \<Rightarrow> AgentBookingScope \<Rightarrow> string \<Rightarrow> PlanTerms list \<Rightarrow> AgentDb
    \<Rightarrow> (AgentDb \<times> int \<times> bool) booking_result" where
  "cancel_transaction tz sha256 other rid now t scope userId plans db =
     (let row = bf_booking (ag_file db) in
      if \<not> in_scope scope row then not_found ''Booking not found''
      else if bk_status row = BookingStatus.CANCELLED then
        (case map_of (ag_cancellations db) (ag_bookingId db) of
           None \<Rightarrow> Inl (Http (ServerError ''P2025''))
         | Some refund \<Rightarrow> Inr (db, (case refund of Some r \<Rightarrow> r | None \<Rightarrow> 0), True))
      else if bk_status row \<noteq> BookingStatus.CONFIRMED then conflict ''Booking is not cancellable''
      else ebind (cancel_confirmed tz sha256 other rid now t userId plans db) (\<lambda>(db', refund). Inr (db', refund, False)))"

text \<open>A refused cancellation is audited after the transaction rolled back.\<close>

definition cancel_booking ::
  "time_zones \<Rightarrow> (string \<Rightarrow> string) \<Rightarrow> (string \<Rightarrow> int option) \<Rightarrow> (string \<Rightarrow> string) \<Rightarrow> int \<Rightarrow> string \<Rightarrow> AgentBookingScope \<Rightarrow> string \<Rightarrow> PlanTerms list \<Rightarrow> AgentDb
    \<Rightarrow> AgentDb \<times> (int \<times> bool) booking_result" where
  "cancel_booking tz sha256 other rid now t scope userId plans db =
     (case cancel_transaction tz sha256 other rid now t scope userId plans db of
        Inr (db', refund, already) \<Rightarrow> (db', Inr (refund, already))
      | Inl (Http (Conflict m)) \<Rightarrow> (agent_audit ''booking.cancel.refused'' m db, Inl (Http (Conflict m)))
      | Inl (Http (NotFound m)) \<Rightarrow> (agent_audit ''booking.cancel.refused'' m db, Inl (Http (NotFound m)))
      | Inl e \<Rightarrow> (db, Inl e))"

subsection \<open>Settlement of a cancellation\<close>

datatype SettlementOutcome = NOT_CANCELLED_YET | NOT_LEDGER_CHARGED | SETTLE_REVIEW | AWAITING_PENALTY_DECISION | ALREADY_SETTLED | SETTLED | TOPPED_UP

record Settlement =
  st_outcome :: SettlementOutcome
  st_refundMinor :: "int option"
  st_postedMinor :: "int option"

definition settlement :: "SettlementOutcome \<Rightarrow> int option \<Rightarrow> int option \<Rightarrow> Settlement" where
  "settlement outcome refund posted = \<lparr>st_outcome = outcome, st_refundMinor = refund, st_postedMinor = posted\<rparr>"

definition settle_refund_legs :: "string \<Rightarrow> int \<Rightarrow> int \<Rightarrow> LedgerLeg list" where
  "settle_refund_legs b target posted = (if target - posted > 0 then [booking_leg b ''REFUND'' (target - posted) (refundKey b target posted)] else [])"

definition no_show_settled :: "AgentDb \<Rightarrow> bool" where
  "no_show_settled db \<longleftrightarrow> (\<exists>a \<in> set (ag_audits db). fst a = ''booking.no_show.settled'')"

definition settle_target ::
  "(string \<Rightarrow> string) \<Rightarrow> int \<Rightarrow> string \<Rightarrow> ledger_row \<Rightarrow> int \<Rightarrow> AgentDb \<Rightarrow> (AgentDb \<times> Settlement) booking_result" where
  "settle_target rid now t debit target db =
     (let b = ag_bookingId db; noShow = (bk_status (bf_booking (ag_file db)) = NO_SHOW);
          posted = referenceSumMinor (stock_rows db) t (lr_walletId debit) (bookingReference b) ''REFUND'';
          cancellation = map_of (ag_cancellations db) b in
      if \<not> refundWithin target (- lr_amountMinor debit) \<or> target < posted then Inr (db, settlement SETTLE_REVIEW (Some target) None)
      else if target - posted = 0 \<and> (cancellation = Some (Some target) \<or> (noShow \<and> no_show_settled db))
        then Inr (db, settlement ALREADY_SETTLED (Some target) (Some 0))
      else
        ebind (lift_posting (append_legs rid now t (Some (lr_walletId debit)) (lr_currency debit) (settle_refund_legs b target posted) (stock_rows db))) (\<lambda>rows.
          let db' = db\<lparr>ag_stock := with_rows rows (ag_stock db),
                       ag_cancellations := (if noShow then ag_cancellations db else set_cancellation b (Some target) (ag_cancellations db))\<rparr> in
          Inr (agent_audit (if noShow then ''booking.no_show.settled'' else ''booking.cancellation.settled'') [] db',
               settlement (if posted = 0 then SETTLED else TOPPED_UP) (Some target) (Some (target - posted)))))"

definition settle_cancellation :: "(string \<Rightarrow> string) \<Rightarrow> int \<Rightarrow> string \<Rightarrow> AgentDb \<Rightarrow> (AgentDb \<times> Settlement) booking_result" where
  "settle_cancellation rid now t db =
     (let b = ag_bookingId db; row = bf_booking (ag_file db); s = iv_ledger (ag_stock db) in
      if bk_status row \<noteq> BookingStatus.CANCELLED \<and> bk_status row \<noteq> NO_SHOW then Inr (db, settlement NOT_CANCELLED_YET None None)
      else case entry_of t (ws_rows s) (settleDebitKey b) ''DEBIT'' of
        None \<Rightarrow> Inr (db, settlement NOT_LEDGER_CHARGED None None)
      | Some debit \<Rightarrow>
          if lr_currency debit \<noteq> bk_currency row \<or> - lr_amountMinor debit \<noteq> bk_totalMinor row then Inr (db, settlement SETTLE_REVIEW None None)
          else if find_wallet s t (lr_walletId debit) = None then Inr (db, settlement SETTLE_REVIEW None None)
          else case determined (currentPenalty (ag_file db) (bk_totalMinor row) True) of
            None \<Rightarrow>
              Inr (db, settlement (if map_of (ag_cancellations db) b \<noteq> None then ALREADY_SETTLED else AWAITING_PENALTY_DECISION)
                         (case map_of (ag_cancellations db) b of Some r \<Rightarrow> r | None \<Rightarrow> None) None)
          | Some (penalty, target) \<Rightarrow> settle_target rid now t debit target db)"
subsection \<open>What these do to the account of the booking\<close>

lemma append_audited_rows:
  assumes "append_audited rid at t c i action same s = Inr (s', r)"
  shows "s' = s \<or> (ws_rows s' = ws_rows s @ [append_row (rid (la_idempotencyKey i)) at i] \<and> (la_walletId i, la_idempotencyKey i) \<notin> entry_key ` set (ws_rows s))"
  using assms by (auto simp: append_audited_def ebind_Inr_iff appendLedgerEntry_Inr entry_key_def split: if_splits option.splits)

lemma authorize_ledger:
  assumes ok: "ledger_ok t (ws_rows s)" and run: "authorize env rid at t c s = Inr (s', r)" and key: "fc_idempotencyKey c = holdKey (fc_bookingId c)"
    and wallet: "\<forall>h \<in> set (ws_rows s). lr_tenantId h = t \<and> lr_type h = ''HOLD'' \<and> lr_idempotencyKey h = holdKey (fc_bookingId c) \<longrightarrow> lr_walletId h = fc_walletId c"
  shows "ledger_ok t (ws_rows s')"
proof -
  let ?b = "fc_bookingId c"
  let ?i = "finance_append t c ''HOLD'' (- fc_amountMinor c) (fc_idempotencyKey c)"
  let ?row = "append_row (rid (la_idempotencyKey ?i)) at ?i"
  have pos: "0 < fc_amountMinor c" and cases: "s' = s \<or> (ws_rows s' = ws_rows s @ [?row] \<and> (la_walletId ?i, la_idempotencyKey ?i) \<notin> entry_key ` set (ws_rows s))"
    using run by (auto simp: authorize_def validate_financial_def ebind_Inr_iff split: option.splits if_splits dest: append_audited_rows)
  show ?thesis
  proof (cases "s' = s")
    case True
    then show ?thesis using ok by simp
  next
    case False
    then have rows: "ws_rows s' = ws_rows s @ [?row]" and fresh: "(fc_walletId c, holdKey ?b) \<notin> entry_key ` set (ws_rows s)"
      using cases key by (auto simp: finance_append_def)
    obtain w held released charged refunded where st: "account_story t ?b w (rows_of t ?b (ws_rows s)) held released charged refunded" by (rule ledger_story [OF ok])
    have "held = None"
    proof (cases held)
      case (Some h)
      then obtain r where r: "r \<in> set (rows_of t ?b (ws_rows s))" "written t ?b w ''HOLD'' (- h) (holdKey ?b) r" using story_parts [OF st] by blast
      then have "r \<in> set (ws_rows s)" "lr_walletId r = fc_walletId c" using wallet by (auto simp: rows_of_def written_def)
      then have "(fc_walletId c, holdKey ?b) \<in> entry_key ` set (ws_rows s)" using r(2) by (force simp: entry_key_def written_def)
      then show ?thesis using fresh by simp
    qed simp
    then have none: "rows_of t ?b (ws_rows s) = []" using story_unheld [of t ?b w _ released charged refunded] st by blast
    have "written t ?b (fc_walletId c) ''HOLD'' (- fc_amountMinor c) (holdKey ?b) ?row" by (simp add: written_def finance_append_def key append_row_def)
    from story_hold [OF story_none this pos]
    have s1: "account_story t ?b (fc_walletId c) (rows_of t ?b (ws_rows s) @ [?row]) (Some (fc_amountMinor c)) False None 0" by (simp add: none)
    show ?thesis unfolding rows by (rule ledger_ok_one [OF ok s1]) (simp add: finance_append_def key booking_entry_def append_row_def)
  qed
qed

lemma same_row_as_sel:
  "same_row_as t type amount c r \<Longrightarrow> lr_tenantId r = t \<and> lr_walletId r = fc_walletId c \<and> lr_type r = type \<and> lr_amountMinor r = amount
     \<and> lr_reference r = Some (bookingReference (fc_bookingId c))"
  by (simp add: same_row_as_def)

lemma release_ledger:
  assumes ok: "ledger_ok t (ws_rows s)" and run: "release_authorization env rid at t c s = Inr (s', r)" and key: "fc_idempotencyKey c = holdKey (fc_bookingId c)"
    and unsettled: "entry_of t (ws_rows s) (settleReleaseKey (fc_bookingId c)) ''RELEASE'' = None"
  shows "ledger_ok t (ws_rows s')"
proof -
  let ?b = "fc_bookingId c"
  let ?i = "finance_append t c ''RELEASE'' (fc_amountMinor c) (fc_idempotencyKey c @ '':release'')"
  let ?row = "append_row (rid (la_idempotencyKey ?i)) at ?i"
  obtain a where a: "find_entry (ws_rows s) t (fc_walletId c) (holdKey ?b) = Some a" "same_row_as t ''HOLD'' (- fc_amountMinor c) c a"
    and cases: "s' = s \<or> (ws_rows s' = ws_rows s @ [?row] \<and> (la_walletId ?i, la_idempotencyKey ?i) \<notin> entry_key ` set (ws_rows s))"
    using run by (auto simp: release_authorization_def ebind_Inr_iff key assertSameAuthorization_def split: option.splits if_splits dest: append_audited_rows)
  show ?thesis
  proof (cases "s' = s")
    case True
    then show ?thesis using ok by simp
  next
    case False
    then have rows: "ws_rows s' = ws_rows s @ [?row]" and fresh: "(fc_walletId c, releaseKey ?b) \<notin> entry_key ` set (ws_rows s)"
      using cases key by (auto simp: finance_append_def releaseKey_def)
    obtain w held released charged refunded where st: "account_story t ?b w (rows_of t ?b (ws_rows s)) held released charged refunded" by (rule ledger_story [OF ok])
    have in_story: "a \<in> set (rows_of t ?b (ws_rows s))"
      using find_entry_Some [OF a(1)] same_row_as_sel [OF a(2)] by (simp add: rows_of_def KINDS_def)
    have held: "held = Some (fc_amountMinor c)" and w: "w = fc_walletId c"
      using story_parts [OF st] story_rows [OF st in_story] in_story same_row_as_sel [OF a(2)] by auto
    have "\<not> released"
    proof
      assume released
      then obtain r where r: "r \<in> set (rows_of t ?b (ws_rows s))"
        and "written t ?b w ''RELEASE'' (the held) (releaseKey ?b) r \<or> written t ?b w ''RELEASE'' (the held) (settleReleaseKey ?b) r"
        using story_parts [OF st] by blast
      then show False
      proof (elim disjE)
        assume "written t ?b w ''RELEASE'' (the held) (releaseKey ?b) r"
        then have "(fc_walletId c, releaseKey ?b) \<in> entry_key ` set (ws_rows s)" using r w by (force simp: entry_key_def written_def rows_of_def)
        then show False using fresh by simp
      next
        assume "written t ?b w ''RELEASE'' (the held) (settleReleaseKey ?b) r"
        then show False using unsettled r by (auto simp: entry_of_def find_None_iff written_def rows_of_def)
      qed
    qed
    then have c: "charged = None" using story_charged [OF st] by (cases charged) auto
    then have s0: "account_story t ?b w (rows_of t ?b (ws_rows s)) (Some (fc_amountMinor c)) False None 0"
      using st held \<open>\<not> released\<close> story_uncharged [OF st [unfolded c]] by simp
    have wr: "written t ?b w ''RELEASE'' (fc_amountMinor c) (releaseKey ?b) ?row" by (simp add: written_def finance_append_def key append_row_def w releaseKey_def)
    note s1 = story_release [OF s0 wr disjI1 [OF refl]]
    show ?thesis unfolding rows by (rule ledger_ok_one [OF ok s1]) (simp add: finance_append_def key booking_entry_def append_row_def releaseKey_def)
  qed
qed

lemma append_legs_fresh: "append_legs rid at t (Some w) cur (l # ls) rows = Inr rows' \<Longrightarrow> (w, lg_key l) \<notin> entry_key ` set rows"
  by (auto simp: ebind_Inr_iff appendLedgerEntry_Inr leg_append_def entry_key_def split: sum.splits prod.splits if_splits)

lemma reservation_Inr:
  assumes "reservation_of t b totalMinor cur s = Inr r"
  shows "r \<in> set (ws_rows s) \<and> lr_tenantId r = t \<and> lr_idempotencyKey r = holdKey b \<and> lr_type r = ''HOLD''
    \<and> \<not> (\<exists>x \<in> set (ws_rows s). lr_tenantId x = t \<and> lr_walletId x = lr_walletId r \<and> lr_idempotencyKey x = releaseKey b)"
  using assms by (auto simp: reservation_of_def ebind_Inr_iff split: option.splits if_splits dest: find_SomeD)

lemma stock_rows_simps [simp]:
  "stock_rows (agent_audit a m db) = stock_rows db" "stock_rows (db\<lparr>ag_stock := with_rows rows stock, ag_file := f, ag_supplier := x\<rparr>) = rows"
  "stock_rows (db\<lparr>ag_stock := with_rows rows stock, ag_file := f, ag_cancellations := cs\<rparr>) = rows"
  "stock_rows (db\<lparr>ag_stock := with_rows rows stock, ag_cancellations := cs\<rparr>) = rows" "stock_rows (db\<lparr>ag_stock := with_rows rows stock\<rparr>) = rows"
  by (simp_all add: stock_rows_def agent_audit_def with_rows_def)

lemma queue_email_rows: "queue_email recipient cc db = Inr db' \<Longrightarrow> stock_rows db' = stock_rows db"
  by (auto simp: queue_email_def stock_rows_def agent_audit_def split: option.splits if_splits)

lemma lift_Inr [simp]:
  "lift_http r = Inr x \<longleftrightarrow> r = Inr x" "lift_js j = Inr y \<longleftrightarrow> j = Inr y" "lift_posting p = Inr z \<longleftrightarrow> p = Inr z"
  by (auto simp: lift_http_def lift_js_def lift_posting_def split: sum.splits PostingFailure.splits)

lemma booking_leg_row [simp]:
  "written t b w type amount key (leg_row rid at t w cur (booking_leg b type amount key))" "lr_type (leg_row rid at t w cur (booking_leg b type amount key)) = type"
  "lr_idempotencyKey (leg_row rid at t w cur (booking_leg b type amount key)) = key"
  by (simp_all add: written_def leg_row_def leg_append_def booking_leg_def append_row_def)

lemma confirm_pending_ledger:
  assumes ok: "ledger_ok t (stock_rows db)" and run: "confirm_pending sha256 other rid now t c holdId db = Inr db'"
  shows "ledger_ok t (stock_rows db')"
proof -
  let ?b = "ag_bookingId db" and ?cur = "bk_currency (bf_booking (ag_file db))"
  obtain r where r: "reservation_of t ?b (bk_totalMinor (bf_booking (ag_file db))) ?cur (iv_ledger (ag_stock db)) = Inr r"
    and legs: "append_legs rid now t (Some (lr_walletId r)) ?cur (settle_legs ?b (- lr_amountMinor r)) (stock_rows db) = Inr (stock_rows db')"
    using run by (auto simp: confirm_pending_def Let_def ebind_Inr_iff dest!: queue_email_rows)
  let ?w = "lr_walletId r" and ?h = "- lr_amountMinor r"
  note res = reservation_Inr [OF r, folded stock_rows_def]
  obtain w held released charged refunded where st: "account_story t ?b w (rows_of t ?b (stock_rows db)) held released charged refunded" by (rule ledger_story [OF ok])
  have in_story: "r \<in> set (rows_of t ?b (stock_rows db))" using res by (intro entry_in_story [OF ok]) (auto simp: booking_entry_def)
  have held: "held = Some ?h" and w: "w = ?w" using story_parts [OF st] story_rows [OF st in_story] in_story res by auto
  have pos: "0 < ?h" using story_numbers [OF st] held by simp
  have fresh: "(?w, settleReleaseKey ?b) \<notin> entry_key ` set (stock_rows db)"
    using append_legs_fresh [OF legs [unfolded settle_legs_def]] by (simp add: booking_leg_def)
  have unreleased: "\<not> released"
  proof
    assume released
    then obtain x where x: "x \<in> set (stock_rows db)" "lr_walletId x = ?w" "lr_tenantId x = t"
      "lr_idempotencyKey x = releaseKey ?b \<or> lr_idempotencyKey x = settleReleaseKey ?b"
      using story_parts [OF st] w by (auto simp: written_def rows_of_def)
    then have "lr_idempotencyKey x = settleReleaseKey ?b" using res by blast
    then have "entry_key x = (?w, settleReleaseKey ?b)" using x(2) by (simp add: entry_key_def)
    then show False using fresh x(1) by (metis imageI)
  qed
  have uncharged: "charged = None" using story_charged [OF st] unreleased by (cases charged) auto
  have s0: "account_story t ?b ?w (rows_of t ?b (stock_rows db)) (Some ?h) False None 0"
    using st held w unreleased uncharged story_uncharged [OF st [unfolded uncharged]] by simp
  have rows: "stock_rows db' = stock_rows db @ [leg_row rid now t ?w ?cur (booking_leg ?b ''RELEASE'' ?h (settleReleaseKey ?b)),
      leg_row rid now t ?w ?cur (booking_leg ?b ''DEBIT'' (- ?h) (settleDebitKey ?b))]"
    using append_legs_Inr [OF legs] by (simp add: settle_legs_def)
  note s1 = story_release [OF s0 booking_leg_row(1) disjI2 [OF refl]]
  note s2 = story_charge [OF s1 booking_leg_row(1) pos]
  show ?thesis unfolding rows by (rule ledger_ok_two [OF ok s1 _ s2]) (simp_all add: booking_entry_def booking_leg_def)
qed

lemma confirm_ledger:
  assumes "ledger_ok t (stock_rows db)" "confirm_booking sha256 other rid now t scope c db = Inr (db', already)"
  shows "ledger_ok t (stock_rows db')"
  using assms confirm_pending_ledger [OF assms(1)]
  by (auto simp: confirm_booking_def Let_def ebind_Inr_iff split: if_splits option.splits)

lemma cancel_post_Inr:
  assumes "cancel_post sha256 other rid now t userId e db = Inr db'"
  obtains d where "charge_of t (ag_bookingId db) (bf_booking (ag_file db)) (iv_ledger (ag_stock db)) = Inr d"
    "append_legs rid now t (Some (lr_walletId d)) (bk_currency (bf_booking (ag_file db))) (cancel_refund_legs (ag_bookingId db) (el_refundMinor e)) (stock_rows db)
       = Inr (stock_rows db')"
  using assms by (auto simp: cancel_post_def Let_def ebind_Inr_iff)

lemma cancel_ledger:
  assumes ok: "ledger_ok t (stock_rows db)" and run: "cancel_booking tz sha256 other rid now t scope userId plans db = (db', result)"
    and unrefunded: "\<forall>r \<in> set (stock_rows db). \<not> (lr_tenantId r = t \<and> lr_type r = ''REFUND'' \<and> lr_reference r = Some (bookingReference (ag_bookingId db)))"
  shows "ledger_ok t (stock_rows db')"
proof -
  let ?b = "ag_bookingId db"
  consider (same) "stock_rows db' = stock_rows db" | (gone) refund where "cancel_confirmed tz sha256 other rid now t userId plans db = Inr (db', refund)"
    using run by (auto simp: cancel_booking_def cancel_transaction_def Let_def ebind_Inr_iff split: sum.splits booking_error.splits http_error.splits if_splits option.splits)
  then show ?thesis
  proof cases
    case same
    then show ?thesis using ok by simp
  next
    case gone
    obtain e where within: "refundWithin (el_refundMinor e) (bk_totalMinor (bf_booking (ag_file db)))" and post: "cancel_post sha256 other rid now t userId e db = Inr db'"
      using gone by (auto simp: cancel_confirmed_def ebind_Inr_iff split: if_splits)
    obtain d where d: "charge_of t ?b (bf_booking (ag_file db)) (iv_ledger (ag_stock db)) = Inr d"
      and legs: "append_legs rid now t (Some (lr_walletId d)) (bk_currency (bf_booking (ag_file db))) (cancel_refund_legs ?b (el_refundMinor e)) (stock_rows db) = Inr (stock_rows db')"
      by (rule cancel_post_Inr [OF post])
    have debit: "entry_of t (stock_rows db) (settleDebitKey ?b) ''DEBIT'' = Some d" "- lr_amountMinor d = bk_totalMinor (bf_booking (ag_file db))"
      using d by (auto simp: charge_of_def stock_rows_def split: option.splits if_splits)
    show ?thesis
    proof (cases "el_refundMinor e > 0")
      case True
      have zero: "referenceSumMinor (stock_rows db) t (lr_walletId d) (bookingReference ?b) ''REFUND'' = 0"
        unfolding referenceSumMinor_def by (rule sum_where_no) (use unrefunded in auto)
      have le: "el_refundMinor e \<le> - lr_amountMinor d" using within debit(2) by (simp add: refundWithin_def)
      show ?thesis
        using append_legs_Inr [OF legs] True
        by (simp add: cancel_refund_legs_def) (rule refund_ledger [OF ok debit(1) _ True booking_leg_row(1)], use zero le in simp)
    next
      case False
      then show ?thesis using append_legs_Inr [OF legs] ok by (simp add: cancel_refund_legs_def)
    qed
  qed
qed

lemma settle_ledger:
  assumes ok: "ledger_ok t (stock_rows db)" and run: "settle_cancellation rid now t db = Inr (db', result)"
  shows "ledger_ok t (stock_rows db')"
proof -
  let ?b = "ag_bookingId db"
  consider (same) "stock_rows db' = stock_rows db"
    | (target) d target where "entry_of t (stock_rows db) (settleDebitKey ?b) ''DEBIT'' = Some d" "settle_target rid now t d target db = Inr (db', result)"
    using run by (auto simp: settle_cancellation_def Let_def stock_rows_def split: option.splits if_splits)
  then show ?thesis
  proof cases
    case same
    then show ?thesis using ok by simp
  next
    case target
    let ?posted = "referenceSumMinor (stock_rows db) t (lr_walletId d) (bookingReference ?b) ''REFUND''"
    consider (same) "stock_rows db' = stock_rows db"
      | (refund) "refundWithin target (- lr_amountMinor d)" "append_legs rid now t (Some (lr_walletId d)) (lr_currency d) (settle_refund_legs ?b target ?posted) (stock_rows db) = Inr (stock_rows db')"
      using target(2) by (auto simp: settle_target_def Let_def ebind_Inr_iff split: if_splits)
    then show ?thesis
    proof cases
      case same
      then show ?thesis using ok by simp
    next
      case refund
      show ?thesis
      proof (cases "target - ?posted > 0")
        case True
        have le: "?posted + (target - ?posted) \<le> - lr_amountMinor d" using refund(1) by (simp add: refundWithin_def)
        show ?thesis
          using append_legs_Inr [OF refund(2)] True by (simp add: settle_refund_legs_def) (rule refund_ledger [OF ok target(1) le True booking_leg_row(1)])
      next
        case False
        then show ?thesis using append_legs_Inr [OF refund(2)] ok by (simp add: settle_refund_legs_def)
      qed
    qed
  qed
qed
end
