(* ===== verification/Credit_Notes.thy ===== *)
theory Credit_Notes
  imports Finance_Posting Period_Close Deal_Lifecycle
begin
text \<open>
  Partial credit notes to agencies: \<open>apps/api/src/finance-credit-notes/credit-note-input.ts\<close> and
  \<open>credit-note.service.ts\<close>. Proposing records intent, approving by another person posts one REFUND. A handler
  that reads before it takes the row locks is given that earlier state (\<open>seen\<close>) beside the state under them; the
  update of a note by its status counts the rows of the current one. Refusals carry their code.
\<close>

subsection \<open>Input\<close>

datatype CreditNoteReasonName = SUPPLIER_SERVICE_FAILURE | PRICE_CORRECTION | GOODWILL

definition CREDIT_NOTE_REASONS :: "(string \<times> CreditNoteReasonName) list" where
  "CREDIT_NOTE_REASONS = [(''SUPPLIER_SERVICE_FAILURE'', SUPPLIER_SERVICE_FAILURE), (''PRICE_CORRECTION'', PRICE_CORRECTION), (''GOODWILL'', GOODWILL)]"

definition idParam :: "string \<Rightarrow> jsval \<Rightarrow> string option http" where
  "idParam name v =
     (if v = JUndefined \<or> v = JStr [] then Inr None
      else case v of
        JStr s \<Rightarrow> if is_identifier 1 80 s then Inr (Some s) else Inl (BadRequest (''Invalid '' @ name))
      | _ \<Rightarrow> Inl (BadRequest (''Invalid '' @ name)))"

definition text_of :: "jsval \<Rightarrow> string" where
  "text_of v = (case v of JStr s \<Rightarrow> trim s | _ \<Rightarrow> [])"

definition positive_minor :: "string \<Rightarrow> bool" where
  "positive_minor s \<longleftrightarrow> s \<noteq> [] \<and> length s \<le> 18 \<and> list_all is_digit s \<and> hd s \<noteq> CHR ''0''"

definition printable :: "string \<Rightarrow> bool" where
  "printable s \<longleftrightarrow> 3 \<le> length s \<and> length s \<le> 500 \<and> \<not> list_ex is_control s"

record CreditNoteProposal =
  np_requestId :: string
  np_bookingId :: string
  np_amountMinor :: int
  np_reason :: CreditNoteReasonName
  np_note :: string

definition bad_note :: "'a http" where "bad_note = Inl (BadRequest ''CREDIT_NOTE_INVALID'')"

definition parseCreditNoteProposal :: "jsval \<Rightarrow> CreditNoteProposal http" where
  "parseCreditNoteProposal body =
     (case body of
        JObj b \<Rightarrow>
          let requestId = text_of (field b ''requestId''); bookingId = text_of (field b ''bookingId'');
              amount = text_of (field b ''amountMinor''); remark = text_of (field b ''note'') in
          if length requestId < 8 \<or> length requestId > 80 \<or> \<not> is_identifier 1 80 requestId then bad_note
          else if \<not> is_identifier 1 80 bookingId then bad_note
          else if \<not> positive_minor amount then bad_note
          else (case (case field b ''reason'' of JStr r \<Rightarrow> map_of CREDIT_NOTE_REASONS r | _ \<Rightarrow> None) of
            None \<Rightarrow> bad_note
          | Some reason \<Rightarrow>
              if \<not> printable remark then bad_note
              else Inr \<lparr>np_requestId = requestId, np_bookingId = bookingId, np_amountMinor = int (nat_of_digits amount), np_reason = reason, np_note = remark\<rparr>)
      | _ \<Rightarrow> bad_note)"

definition parseDecisionReason :: "jsval \<Rightarrow> string http" where
  "parseDecisionReason body =
     (let reason = (case body of JObj b \<Rightarrow> text_of (field b ''reason'') | _ \<Rightarrow> []) in
      if \<not> printable reason then bad_note else Inr reason)"

subsection \<open>Rows\<close>

datatype CreditNoteStatus = NOTE_PROPOSED | NOTE_APPROVED | NOTE_REJECTED

record CreditNoteRow =
  cnr_id :: string
  cnr_bookingId :: string
  cnr_seq :: int
  cnr_number :: string
  cnr_currency :: string
  cnr_amountMinor :: int
  cnr_reason :: CreditNoteReasonName
  cnr_note :: string
  cnr_status :: CreditNoteStatus
  cnr_requestId :: string
  cnr_proposedById :: string
  cnr_decidedById :: "string option"
  cnr_decidedAt :: "int option"
  cnr_decisionReason :: "string option"
  cnr_ledgerEntryId :: "string option"

record CreditBooking =
  cbk_id :: string
  cbk_reference :: string
  cbk_status :: BookingStatus
  cbk_currency :: string

record CreditDb =
  cr_ledger :: wl_state
  cr_bookings :: "CreditBooking list"
  cr_notes :: "CreditNoteRow list"
  cr_audits :: "(string \<times> string) list"

definition CREDITABLE_STATES :: "BookingStatus list" where
  "CREDITABLE_STATES = [BookingStatus.CONFIRMED, CHECKED_OUT, NO_SHOW]"

definition canDecide :: "string \<Rightarrow> CreditNoteRow \<Rightarrow> bool" where
  "canDecide me r \<longleftrightarrow> cnr_status r = NOTE_PROPOSED \<and> cnr_proposedById r \<noteq> me"

definition assertEnabled :: "string option \<Rightarrow> unit http" where
  "assertEnabled env = (if env \<noteq> Some ''true'' then Inl (ServiceUnavailable ''CREDIT_NOTES_DISABLED'') else Inr ())"

definition note_of :: "CreditDb \<Rightarrow> string \<Rightarrow> CreditNoteRow option" where
  "note_of db i = find (\<lambda>n. cnr_id n = i) (cr_notes db)"

definition credit_key :: "string \<Rightarrow> string \<Rightarrow> string" where
  "credit_key bookingId noteId = ''booking:'' @ bookingId @ '':credit-note:'' @ noteId"

definition note_key :: "CreditNoteRow \<Rightarrow> string" where
  "note_key n = credit_key (cnr_bookingId n) (cnr_id n)"

text \<open>The booking under its row lock, and the charge the ledger holds for it.\<close>

definition lockCreditable :: "string \<Rightarrow> CreditDb \<Rightarrow> string \<Rightarrow> (CreditBooking \<times> ledger_row) http" where
  "lockCreditable t db bookingId =
     (case find (\<lambda>b. cbk_id b = bookingId) (cr_bookings db) of
        None \<Rightarrow> Inl (NotFound ''CREDIT_NOTE_BOOKING_NOT_FOUND'')
      | Some b \<Rightarrow>
          if cbk_status b \<notin> set CREDITABLE_STATES then Inl (Conflict ''CREDIT_NOTE_BOOKING_STATE'')
          else case entry_of t (ws_rows (cr_ledger db)) (settleDebitKey bookingId) ''DEBIT'' of
            None \<Rightarrow> Inl (Conflict ''CREDIT_NOTE_NOT_LEDGER_CHARGED'')
          | Some debit \<Rightarrow> Inr (b, debit))"

definition refunded_of :: "string \<Rightarrow> CreditDb \<Rightarrow> ledger_row \<Rightarrow> string \<Rightarrow> int" where
  "refunded_of t db debit bookingId = referenceSumMinor (ws_rows (cr_ledger db)) t (lr_walletId debit) (bookingReference bookingId) ''REFUND''"

subsection \<open>Proposing\<close>

definition waiting_minor :: "CreditDb \<Rightarrow> string \<Rightarrow> int" where
  "waiting_minor db b = sum_where (\<lambda>n. cnr_bookingId n = b \<and> cnr_status n = NOTE_PROPOSED) cnr_amountMinor (cr_notes db)"

definition last_seq :: "CreditDb \<Rightarrow> string \<Rightarrow> int" where
  "last_seq db b = foldl (\<lambda>m n. max m (cnr_seq n)) 0 (filter (\<lambda>n. cnr_bookingId n = b) (cr_notes db))"

definition replay_note :: "CreditNoteProposal \<Rightarrow> CreditDb \<Rightarrow> CreditNoteRow option http" where
  "replay_note p db =
     (case find (\<lambda>n. cnr_requestId n = np_requestId p) (cr_notes db) of
        None \<Rightarrow> Inr None
      | Some n \<Rightarrow>
          if cnr_bookingId n \<noteq> np_bookingId p \<or> cnr_amountMinor n \<noteq> np_amountMinor p \<or> cnr_reason n \<noteq> np_reason p
          then Inl (Conflict ''CREDIT_NOTE_REQUEST_REUSED'') else Inr (Some n))"

definition new_note :: "string \<Rightarrow> string \<Rightarrow> CreditNoteProposal \<Rightarrow> CreditBooking \<Rightarrow> ledger_row \<Rightarrow> int \<Rightarrow> CreditNoteRow" where
  "new_note newId userId p b debit seq =
     \<lparr>cnr_id = newId, cnr_bookingId = cbk_id b, cnr_seq = seq, cnr_number = ''CN-'' @ cbk_reference b @ ''-P'' @ string_of_int seq,
      cnr_currency = lr_currency debit, cnr_amountMinor = np_amountMinor p, cnr_reason = np_reason p, cnr_note = np_note p, cnr_status = NOTE_PROPOSED,
      cnr_requestId = np_requestId p, cnr_proposedById = userId, cnr_decidedById = None, cnr_decidedAt = None, cnr_decisionReason = None, cnr_ledgerEntryId = None\<rparr>"

definition note_clash :: "CreditNoteRow \<Rightarrow> CreditNoteRow \<Rightarrow> bool" where
  "note_clash a b \<longleftrightarrow> cnr_requestId a = cnr_requestId b \<or> cnr_number a = cnr_number b \<or> (cnr_bookingId a = cnr_bookingId b \<and> cnr_seq a = cnr_seq b)"

definition note_audit :: "string \<Rightarrow> string \<Rightarrow> CreditDb \<Rightarrow> CreditDb" where
  "note_audit action i db = db\<lparr>cr_audits := cr_audits db @ [(action, i)]\<rparr>"

text \<open>The transaction: \<open>None\<close> when a unique index refuses the row.\<close>

definition propose_transaction :: "string \<Rightarrow> string \<Rightarrow> string \<Rightarrow> CreditNoteProposal \<Rightarrow> CreditDb \<Rightarrow> (CreditDb \<times> CreditNoteRow) option http" where
  "propose_transaction newId t userId p db =
     ebind (lockCreditable t db (np_bookingId p)) (\<lambda>(b, debit).
       let refundable = - lr_amountMinor debit - refunded_of t db debit (cbk_id b) - waiting_minor db (cbk_id b);
           row = new_note newId userId p b debit (last_seq db (cbk_id b) + 1) in
       if \<not> refundWithin (np_amountMinor p) (if refundable < 0 then 0 else refundable) then Inl (Conflict ''CREDIT_NOTE_EXCEEDS_REFUNDABLE'')
       else if \<exists>n \<in> set (cr_notes db). note_clash n row then Inr None
       else Inr (Some (note_audit ''finance.credit_note.proposed'' newId (db\<lparr>cr_notes := cr_notes db @ [row]\<rparr>), row)))"

definition propose_note :: "string option \<Rightarrow> string \<Rightarrow> string \<Rightarrow> string \<Rightarrow> jsval \<Rightarrow> CreditDb \<Rightarrow> CreditDb \<Rightarrow> (CreditDb \<times> CreditNoteRow) http" where
  "propose_note env newId t userId body seen db =
     ebind (assertEnabled env) (\<lambda>_.
     ebind (parseCreditNoteProposal body) (\<lambda>p.
     ebind (replay_note p seen) (\<lambda>earlier.
       case earlier of
         Some n \<Rightarrow> Inr (db, n)
       | None \<Rightarrow>
           ebind (propose_transaction newId t userId p db) (\<lambda>done_row.
             case done_row of
               Some r \<Rightarrow> Inr r
             | None \<Rightarrow>
                 ebind (replay_note p db) (\<lambda>raced. case raced of Some n \<Rightarrow> Inr (db, n) | None \<Rightarrow> Inl (ServerError ''P2002''))))))"

subsection \<open>Deciding\<close>

definition decidable :: "string \<Rightarrow> CreditNoteRow option \<Rightarrow> CreditNoteRow http" where
  "decidable userId found =
     (case found of
        None \<Rightarrow> Inl (NotFound ''CREDIT_NOTE_NOT_FOUND'')
      | Some n \<Rightarrow>
          if cnr_status n \<noteq> NOTE_PROPOSED then Inl (Conflict ''CREDIT_NOTE_DECIDED'')
          else if cnr_proposedById n = userId then Inl (Forbidden ''CREDIT_NOTE_OWN_PROPOSAL'') else Inr n)"

text \<open>\<open>updateMany\<close> where the note is still proposed.\<close>

definition decide_note :: "string \<Rightarrow> (CreditNoteRow \<Rightarrow> CreditNoteRow) \<Rightarrow> CreditDb \<Rightarrow> CreditDb http" where
  "decide_note i f db =
     (if length (filter (\<lambda>n. cnr_id n = i \<and> cnr_status n = NOTE_PROPOSED) (cr_notes db)) \<noteq> 1 then Inl (Conflict ''CREDIT_NOTE_CHANGED'')
      else Inr (db\<lparr>cr_notes := map (\<lambda>n. if cnr_id n = i \<and> cnr_status n = NOTE_PROPOSED then f n else n) (cr_notes db)\<rparr>))"

definition credit_leg :: "CreditNoteRow \<Rightarrow> LedgerLeg" where
  "credit_leg n = \<lparr>lg_legType = ''REFUND'', lg_legMinor = cnr_amountMinor n, lg_reference = bookingReference (cnr_bookingId n), lg_key = note_key n\<rparr>"

definition lift_posted :: "'a posting \<Rightarrow> 'a http" where
  "lift_posted r =
     (case r of
        Inr x \<Rightarrow> Inr x
      | Inl UniqueViolation \<Rightarrow> Inl (ServerError ''P2002'')
      | Inl (PostingFailure.Thrown e) \<Rightarrow> Inl e
      | Inl (Fault m) \<Rightarrow> Inl (ServerError m))"

definition approve_locked :: "(string \<Rightarrow> string) \<Rightarrow> int \<Rightarrow> string \<Rightarrow> string \<Rightarrow> CreditNoteRow \<Rightarrow> CreditDb \<Rightarrow> CreditDb http" where
  "approve_locked rid now t userId n db =
     ebind (lockCreditable t db (cnr_bookingId n)) (\<lambda>(b, debit).
       let refunded = refunded_of t db debit (cnr_bookingId n); left = - lr_amountMinor debit - refunded in
       if find_wallet (cr_ledger db) t (lr_walletId debit) = None then Inl (Conflict ''CREDIT_NOTE_CHANGED'')
       else if \<not> refundWithin (cnr_amountMinor n) (if left < 0 then 0 else left) then Inl (Conflict ''CREDIT_NOTE_EXCEEDS_REFUNDABLE'')
       else
         ebind (lift_posted (append_legs rid now t (Some (lr_walletId debit)) (lr_currency debit) [credit_leg n] (ws_rows (cr_ledger db)))) (\<lambda>rows.
         ebind (decide_note (cnr_id n)
                  (\<lambda>r. r\<lparr>cnr_status := NOTE_APPROVED, cnr_decidedById := Some userId, cnr_decidedAt := Some now, cnr_ledgerEntryId := Some (rid (note_key n))\<rparr>)
                  (db\<lparr>cr_ledger := (cr_ledger db)\<lparr>ws_rows := rows\<rparr>\<rparr>)) (\<lambda>db'.
           Inr (note_audit ''finance.credit_note.approved'' (cnr_id n) db'))))"

definition approve_note ::
  "string option \<Rightarrow> (string \<Rightarrow> string) \<Rightarrow> int \<Rightarrow> string \<Rightarrow> string \<Rightarrow> jsval \<Rightarrow> CreditDb \<Rightarrow> CreditDb \<Rightarrow> CreditDb http" where
  "approve_note env rid now t userId creditNoteId seen db =
     ebind (assertEnabled env) (\<lambda>_.
     ebind (idParam ''creditNoteId'' creditNoteId) (\<lambda>given.
       case given of
         None \<Rightarrow> bad_note
       | Some i \<Rightarrow> ebind (decidable userId (note_of seen i)) (\<lambda>n. approve_locked rid now t userId n db)))"

definition reject_note :: "string option \<Rightarrow> int \<Rightarrow> string \<Rightarrow> jsval \<Rightarrow> jsval \<Rightarrow> CreditDb \<Rightarrow> CreditDb \<Rightarrow> CreditDb http" where
  "reject_note env now userId creditNoteId body seen db =
     ebind (assertEnabled env) (\<lambda>_.
     ebind (idParam ''creditNoteId'' creditNoteId) (\<lambda>given.
       case given of
         None \<Rightarrow> bad_note
       | Some i \<Rightarrow>
           ebind (parseDecisionReason body) (\<lambda>reason.
           ebind (decidable userId (note_of seen i)) (\<lambda>n.
           ebind (decide_note i (\<lambda>r. r\<lparr>cnr_status := NOTE_REJECTED, cnr_decidedById := Some userId, cnr_decidedAt := Some now, cnr_decisionReason := Some reason\<rparr>) db) (\<lambda>db'.
             Inr (note_audit ''finance.credit_note.rejected'' i db'))))))"

subsection \<open>What an approval does to the account of the booking\<close>

lemma lockCreditable_Inr:
  "lockCreditable t db b = Inr (row, debit) \<Longrightarrow> entry_of t (ws_rows (cr_ledger db)) (settleDebitKey b) ''DEBIT'' = Some debit \<and> cbk_id row = b"
  by (auto simp: lockCreditable_def split: option.splits if_splits dest: find_SomeD)

lemma lift_posted_Inr [simp]: "lift_posted r = Inr x \<longleftrightarrow> r = Inr x"
  by (auto simp: lift_posted_def split: sum.splits PostingFailure.splits)

lemma decide_note_same: "decide_note i f db = Inr db' \<Longrightarrow> cr_ledger db' = cr_ledger db \<and> cr_bookings db' = cr_bookings db"
  by (auto simp: decide_note_def split: if_splits)

lemma approve_locked_Inr:
  assumes "approve_locked rid now t userId n db = Inr db'"
  obtains b d where "lockCreditable t db (cnr_bookingId n) = Inr (b, d)" "0 < cnr_amountMinor n"
    "refunded_of t db d (cnr_bookingId n) + cnr_amountMinor n \<le> - lr_amountMinor d"
    "ws_rows (cr_ledger db') = ws_rows (cr_ledger db) @ [leg_row rid now t (lr_walletId d) (lr_currency d) (credit_leg n)]"
    "(lr_walletId d, note_key n) \<notin> entry_key ` set (ws_rows (cr_ledger db))"
    "decide_note (cnr_id n) (\<lambda>r. r\<lparr>cnr_status := NOTE_APPROVED, cnr_decidedById := Some userId, cnr_decidedAt := Some now, cnr_ledgerEntryId := Some (rid (note_key n))\<rparr>)
       (db\<lparr>cr_ledger := cr_ledger db'\<rparr>) = Inr (db'\<lparr>cr_audits := cr_audits db\<rparr>)"
proof -
  obtain b d where l: "lockCreditable t db (cnr_bookingId n) = Inr (b, d)" using assms by (auto simp: approve_locked_def ebind_Inr_iff)
  let ?left = "- lr_amountMinor d - refunded_of t db d (cnr_bookingId n)"
  have within: "refundWithin (cnr_amountMinor n) (if ?left < 0 then 0 else ?left)"
    using assms l by (auto simp: approve_locked_def Let_def split: if_splits)
  then obtain rows db1 where legs: "append_legs rid now t (Some (lr_walletId d)) (lr_currency d) [credit_leg n] (ws_rows (cr_ledger db)) = Inr rows"
    and decide: "decide_note (cnr_id n) (\<lambda>r. r\<lparr>cnr_status := NOTE_APPROVED, cnr_decidedById := Some userId, cnr_decidedAt := Some now, cnr_ledgerEntryId := Some (rid (note_key n))\<rparr>)
       (db\<lparr>cr_ledger := (cr_ledger db)\<lparr>ws_rows := rows\<rparr>\<rparr>) = Inr db1"
    and db': "db' = note_audit ''finance.credit_note.approved'' (cnr_id n) db1"
    using assms l by (auto simp: approve_locked_def ebind_Inr_iff Let_def simp del: append_legs.simps split: if_splits)
  have ledger: "cr_ledger db' = (cr_ledger db)\<lparr>ws_rows := rows\<rparr>" using decide_note_same [OF decide] db' by (simp add: note_audit_def)
  have pos: "0 < cnr_amountMinor n"
    using legs by (auto simp: ebind_Inr_iff appendLedgerEntry_Inr leg_append_def credit_leg_def assertValidAppend_iff split: sum.splits prod.splits if_splits)
  have "cnr_amountMinor n \<le> ?left" using within pos by (auto simp: refundWithin_def split: if_splits)
  then have le: "refunded_of t db d (cnr_bookingId n) + cnr_amountMinor n \<le> - lr_amountMinor d" by simp
  have rows: "ws_rows (cr_ledger db') = ws_rows (cr_ledger db) @ [leg_row rid now t (lr_walletId d) (lr_currency d) (credit_leg n)]"
    using append_legs_Inr [OF legs] ledger by simp
  have fresh: "(lr_walletId d, note_key n) \<notin> entry_key ` set (ws_rows (cr_ledger db))"
    using legs by (auto simp: ebind_Inr_iff appendLedgerEntry_Inr leg_append_def entry_key_def credit_leg_def split: sum.splits prod.splits if_splits)
  have "db1 = db'\<lparr>cr_audits := cr_audits db\<rparr>" using decide db' by (auto simp: note_audit_def decide_note_def split: if_splits)
  then show ?thesis using that [OF l pos le rows fresh] decide ledger by simp
qed

lemma approve_ledger:
  assumes ok: "ledger_ok t (ws_rows (cr_ledger db))" and run: "approve_note env rid now t userId noteId seen db = Inr db'"
  shows "ledger_ok t (ws_rows (cr_ledger db'))"
proof -
  obtain n where "approve_locked rid now t userId n db = Inr db'"
    using run by (auto simp: approve_note_def ebind_Inr_iff bad_note_def split: option.splits)
  then show ?thesis
  proof (rule approve_locked_Inr)
    fix b d
    assume l: "lockCreditable t db (cnr_bookingId n) = Inr (b, d)" and pos: "0 < cnr_amountMinor n"
      and le: "refunded_of t db d (cnr_bookingId n) + cnr_amountMinor n \<le> - lr_amountMinor d"
      and rows: "ws_rows (cr_ledger db') = ws_rows (cr_ledger db) @ [leg_row rid now t (lr_walletId d) (lr_currency d) (credit_leg n)]"
    have w: "written t (cnr_bookingId n) (lr_walletId d) ''REFUND'' (cnr_amountMinor n) (note_key n) (leg_row rid now t (lr_walletId d) (lr_currency d) (credit_leg n))"
      by (simp add: written_def credit_leg_def)
    show ?thesis unfolding rows
      using refund_ledger [OF ok _ _ pos w] lockCreditable_Inr [OF l] le by (simp add: refunded_of_def)
  qed
qed

subsection \<open>Notes and their entries\<close>

text \<open>A handler that read earlier sees notes that are still there with the same terms.\<close>

definition same_terms :: "CreditNoteRow \<Rightarrow> CreditNoteRow \<Rightarrow> bool" where
  "same_terms n m \<longleftrightarrow> note_key n = note_key m \<and> cnr_id n = cnr_id m \<and> cnr_bookingId n = cnr_bookingId m \<and> cnr_amountMinor n = cnr_amountMinor m
     \<and> cnr_proposedById n = cnr_proposedById m"

definition terms_kept :: "CreditDb \<Rightarrow> CreditDb \<Rightarrow> bool" where
  "terms_kept seen db \<longleftrightarrow> (\<forall>n \<in> set (cr_notes seen). \<exists>m \<in> set (cr_notes db). same_terms n m)"

definition entries_of :: "string \<Rightarrow> CreditDb \<Rightarrow> CreditNoteRow \<Rightarrow> ledger_row list" where
  "entries_of t db n = filter (\<lambda>r. lr_tenantId r = t \<and> lr_idempotencyKey r = note_key n) (ws_rows (cr_ledger db))"

inductive credit_step :: "string \<Rightarrow> CreditDb \<Rightarrow> CreditDb \<Rightarrow> bool" for t :: string where
  note_proposed: "propose_note env newId t userId body seen db = Inr (db', row) \<Longrightarrow> newId \<notin> cnr_id ` set (cr_notes db)
    \<Longrightarrow> (\<And>b. credit_key b newId \<notin> lr_idempotencyKey ` set (ws_rows (cr_ledger db)) \<union> note_key ` set (cr_notes db))
    \<Longrightarrow> terms_kept seen db \<Longrightarrow> credit_step t db db'"
| note_approved: "approve_note env rid now t userId noteId seen db = Inr db' \<Longrightarrow> terms_kept seen db \<Longrightarrow> credit_step t db db'"
| note_rejected: "reject_note env now userId noteId body seen db = Inr db' \<Longrightarrow> terms_kept seen db \<Longrightarrow> credit_step t db db'"
| other_entries: "(\<And>r n. r \<in> set new \<Longrightarrow> n \<in> set (cr_notes db) \<Longrightarrow> lr_tenantId r = t \<Longrightarrow> lr_idempotencyKey r \<noteq> note_key n)
    \<Longrightarrow> credit_step t db (db\<lparr>cr_ledger := (cr_ledger db)\<lparr>ws_rows := ws_rows (cr_ledger db) @ new, ws_wallets := wallets\<rparr>, cr_bookings := bookings\<rparr>)"

inductive credit_reachable :: "string \<Rightarrow> CreditDb \<Rightarrow> bool" for t :: string where
  no_notes: "cr_notes db = [] \<Longrightarrow> credit_reachable t db"
| next_credit: "credit_reachable t db \<Longrightarrow> credit_step t db db' \<Longrightarrow> credit_reachable t db'"

definition credit_ok :: "string \<Rightarrow> CreditDb \<Rightarrow> CreditNoteRow \<Rightarrow> bool" where
  "credit_ok t db n \<longleftrightarrow>
     (if cnr_status n = NOTE_APPROVED
      then (\<exists>r. entries_of t db n = [r] \<and> lr_type r = ''REFUND'' \<and> lr_amountMinor r = cnr_amountMinor n \<and> lr_reference r = Some (bookingReference (cnr_bookingId n))
              \<and> cnr_ledgerEntryId n = Some (lr_id r)) \<and> cnr_decidedById n \<noteq> None \<and> cnr_decidedById n \<noteq> Some (cnr_proposedById n)
      else entries_of t db n = [])"

definition notes_ok :: "string \<Rightarrow> CreditDb \<Rightarrow> bool" where
  "notes_ok t db \<longleftrightarrow> distinct (map cnr_id (cr_notes db)) \<and> distinct (map note_key (cr_notes db)) \<and> (\<forall>n \<in> set (cr_notes db). credit_ok t db n)"

lemma propose_note_cases:
  assumes "propose_note env newId t userId body seen db = Inr (db', row)"
  obtains "db' = db" | b p d where "db' = note_audit ''finance.credit_note.proposed'' newId (db\<lparr>cr_notes := cr_notes db @ [row]\<rparr>)"
    "row = new_note newId userId p b d (last_seq db (cbk_id b) + 1)"
  using assms
  by (auto simp: propose_note_def propose_transaction_def ebind_Inr_iff Let_def split: option.splits if_splits prod.splits)

lemma decided_notes:
  assumes "decide_note i f db = Inr db'" "distinct (map cnr_id (cr_notes db))" "\<And>n. cnr_id (f n) = cnr_id n" "\<And>n. note_key (f n) = note_key n"
  obtains n where "n \<in> set (cr_notes db)" "cnr_id n = i" "cnr_status n = NOTE_PROPOSED"
    "cr_notes db' = map (\<lambda>m. if m = n then f m else m) (cr_notes db)" "map cnr_id (cr_notes db') = map cnr_id (cr_notes db)" "map note_key (cr_notes db') = map note_key (cr_notes db)"
proof -
  have one: "length (filter (\<lambda>n. cnr_id n = i \<and> cnr_status n = NOTE_PROPOSED) (cr_notes db)) = 1"
    and changed: "cr_notes db' = map (\<lambda>n. if cnr_id n = i \<and> cnr_status n = NOTE_PROPOSED then f n else n) (cr_notes db)"
    using assms(1) by (auto simp: decide_note_def split: if_splits)
  have "filter (\<lambda>n. cnr_id n = i \<and> cnr_status n = NOTE_PROPOSED) (cr_notes db) \<noteq> []" using one by auto
  then obtain n where n: "n \<in> set (cr_notes db)" "cnr_id n = i" "cnr_status n = NOTE_PROPOSED" by (auto simp: filter_empty_conv)
  have "\<forall>m \<in> set (cr_notes db). (cnr_id m = i \<and> cnr_status m = NOTE_PROPOSED) = (m = n)"
    using assms(2) n by (auto simp: distinct_map inj_on_def)
  then have "cr_notes db' = map (\<lambda>m. if m = n then f m else m) (cr_notes db)" unfolding changed by (intro map_cong) auto
  moreover have "map cnr_id (cr_notes db') = map cnr_id (cr_notes db)" "map note_key (cr_notes db') = map note_key (cr_notes db)"
    unfolding changed using assms(3,4) by (simp_all add: comp_def)
  ultimately show ?thesis using that n by blast
qed

lemma credit_ok_cong:
  "entries_of t db' n = entries_of t db n \<Longrightarrow> credit_ok t db' n = credit_ok t db n"
  by (simp add: credit_ok_def)

lemma decided_ok:
  assumes ok: "notes_ok t db" and run: "decide_note i f db' = Inr db''" and same: "cr_notes db' = cr_notes db"
    and keep: "\<And>n. cnr_id (f n) = cnr_id n" "\<And>n. note_key (f n) = note_key n"
    and others: "\<And>n. n \<in> set (cr_notes db) \<Longrightarrow> cnr_id n \<noteq> i \<Longrightarrow> entries_of t db'' n = entries_of t db n"
    and it: "\<And>n. n \<in> set (cr_notes db) \<Longrightarrow> cnr_id n = i \<Longrightarrow> cnr_status n = NOTE_PROPOSED \<Longrightarrow> credit_ok t db'' (f n)"
  shows "notes_ok t db''"
proof -
  have d: "distinct (map cnr_id (cr_notes db'))" using ok same by (simp add: notes_ok_def)
  show ?thesis
  proof (rule decided_notes [OF run d keep])
    fix n assume n: "n \<in> set (cr_notes db')" "cnr_id n = i" "cnr_status n = NOTE_PROPOSED"
      and rows: "cr_notes db'' = map (\<lambda>m. if m = n then f m else m) (cr_notes db')" "map cnr_id (cr_notes db'') = map cnr_id (cr_notes db')"
        "map note_key (cr_notes db'') = map note_key (cr_notes db')"
    have "credit_ok t db'' m" if m: "m \<in> set (cr_notes db'')" for m
    proof -
      consider "m = f n" | "m \<in> set (cr_notes db)" "m \<noteq> n" using m n(1) unfolding rows(1) same by auto
      then show ?thesis
      proof cases
        case 1
        then show ?thesis using it [of n] n same by simp
      next
        case 2
        then have "cnr_id m \<noteq> i" using 2 d n(1,2) unfolding same distinct_map by (metis inj_onD)
        then have e: "entries_of t db'' m = entries_of t db m" using others 2(1) by blast
        have "credit_ok t db m" using ok 2(1) by (simp add: notes_ok_def)
        then show ?thesis using credit_ok_cong [OF e] by blast
      qed
    qed
    then show ?thesis using ok unfolding notes_ok_def rows(2,3) same by blast
  qed
qed

lemma entries_audit [simp]: "entries_of t (db\<lparr>cr_audits := a\<rparr>) n = entries_of t db n" "credit_ok t (db\<lparr>cr_audits := a\<rparr>) n = credit_ok t db n" "notes_ok t (db\<lparr>cr_audits := a\<rparr>) = notes_ok t db"
  by (simp_all add: entries_of_def credit_ok_def notes_ok_def)

lemma entries_append: "entries_of t (db\<lparr>cr_ledger := l\<rparr>) n = filter (\<lambda>r. lr_tenantId r = t \<and> lr_idempotencyKey r = note_key n) (ws_rows l)"
  by (simp add: entries_of_def)

lemma approve_step_ok:
  assumes ok: "notes_ok t db" and kept: "terms_kept seen db" and run: "approve_note env rid now t userId noteId seen db = Inr db'"
  shows "notes_ok t db'"
proof -
  obtain i s where s: "note_of seen i = Some s" "cnr_proposedById s \<noteq> userId" and run': "approve_locked rid now t userId s db = Inr db'"
    using run by (auto simp: approve_note_def decidable_def ebind_Inr_iff bad_note_def split: option.splits if_splits)
  obtain m where m: "m \<in> set (cr_notes db)" "same_terms s m" using kept s(1) by (auto simp: terms_kept_def note_of_def dest: find_SomeD)
  obtain w cur where rows: "ws_rows (cr_ledger db') = ws_rows (cr_ledger db) @ [leg_row rid now t w cur (credit_leg s)]"
    and decide: "decide_note (cnr_id s) (\<lambda>r. r\<lparr>cnr_status := NOTE_APPROVED, cnr_decidedById := Some userId, cnr_decidedAt := Some now, cnr_ledgerEntryId := Some (rid (note_key s))\<rparr>)
       (db\<lparr>cr_ledger := cr_ledger db'\<rparr>) = Inr (db'\<lparr>cr_audits := cr_audits db\<rparr>)"
    by (rule approve_locked_Inr [OF run']) blast
  have entries: "entries_of t db' n = entries_of t db n @ (if note_key n = note_key s then [leg_row rid now t w cur (credit_leg s)] else [])" for n
    by (auto simp: entries_of_def rows credit_leg_def)
  have key: "note_key n = note_key s \<longleftrightarrow> n = m" "cnr_id n = cnr_id s \<longleftrightarrow> n = m" if "n \<in> set (cr_notes db)" for n
    using ok m that by (auto simp: notes_ok_def distinct_map inj_on_def same_terms_def)
  have "notes_ok t (db'\<lparr>cr_audits := cr_audits db\<rparr>)"
  proof (rule decided_ok [OF ok decide])
    fix n assume "n \<in> set (cr_notes db)" "cnr_id n \<noteq> cnr_id s"
    then have "note_key n \<noteq> note_key s" using key by simp
    then show "entries_of t (db'\<lparr>cr_audits := cr_audits db\<rparr>) n = entries_of t db n" using entries [of n] by (simp add: entries_of_def)
  next
    fix n assume n: "n \<in> set (cr_notes db)" "cnr_id n = cnr_id s" "cnr_status n = NOTE_PROPOSED"
    then have nm: "n = m" using key by simp
    have none: "entries_of t db n = []" using ok n by (auto simp: notes_ok_def credit_ok_def)
    show "credit_ok t (db'\<lparr>cr_audits := cr_audits db\<rparr>)
        (n\<lparr>cnr_status := NOTE_APPROVED, cnr_decidedById := Some userId, cnr_decidedAt := Some now, cnr_ledgerEntryId := Some (rid (note_key s))\<rparr>)"
      using entries [of n] none m(2) s(2) nm
      by (simp add: credit_ok_def entries_of_def note_key_def same_terms_def credit_leg_def leg_row_def append_row_def leg_append_def)
  qed (simp_all add: note_key_def)
  then show ?thesis by simp
qed

lemma reject_step_ok:
  assumes ok: "notes_ok t db" and run: "reject_note env now userId noteId body seen db = Inr db'"
  shows "notes_ok t db'"
proof -
  obtain i reason db1 where decide: "decide_note i (\<lambda>r. r\<lparr>cnr_status := NOTE_REJECTED, cnr_decidedById := Some userId, cnr_decidedAt := Some now,
      cnr_decisionReason := Some reason\<rparr>) db = Inr db1" and db': "db' = note_audit ''finance.credit_note.rejected'' i db1"
    using run by (auto simp: reject_note_def ebind_Inr_iff bad_note_def split: option.splits)
  have same: "entries_of t db1 n = entries_of t db n" for n using decide_note_same [OF decide] by (simp add: entries_of_def)
  have "notes_ok t db1"
  proof (rule decided_ok [OF ok decide])
    fix n assume n: "n \<in> set (cr_notes db)" "cnr_status n = NOTE_PROPOSED"
    have none: "entries_of t db n = []" using ok n by (auto simp: notes_ok_def credit_ok_def)
    show "credit_ok t db1 (n\<lparr>cnr_status := NOTE_REJECTED, cnr_decidedById := Some userId, cnr_decidedAt := Some now, cnr_decisionReason := Some reason\<rparr>)"
      using none same [of n] by (simp add: credit_ok_def entries_of_def note_key_def)
  qed (simp_all add: same note_key_def)
  then show ?thesis by (simp add: db' note_audit_def)
qed

lemma propose_step_ok:
  assumes ok: "notes_ok t db" and run: "propose_note env newId t userId body seen db = Inr (db', row)" and fresh: "newId \<notin> cnr_id ` set (cr_notes db)"
    and key: "\<And>b. credit_key b newId \<notin> lr_idempotencyKey ` set (ws_rows (cr_ledger db)) \<union> note_key ` set (cr_notes db)"
  shows "notes_ok t db'"
  using run
proof (rule propose_note_cases)
  assume "db' = db"
  then show ?thesis using ok by simp
next
  fix b p d assume db': "db' = note_audit ''finance.credit_note.proposed'' newId (db\<lparr>cr_notes := cr_notes db @ [row]\<rparr>)"
    and row: "row = new_note newId userId p b d (last_seq db (cbk_id b) + 1)"
  have e: "entries_of t db' n = entries_of t db n" for n by (simp add: db' note_audit_def entries_of_def)
  have k: "note_key row = credit_key (cbk_id b) newId" "cnr_id row = newId" "cnr_status row = NOTE_PROPOSED" by (simp_all add: row new_note_def note_key_def)
  have none: "entries_of t db row = []" using key [of "cbk_id b"] by (force simp: entries_of_def k filter_empty_conv)
  have "credit_ok t db' row" by (simp add: credit_ok_def k e none)
  moreover have "credit_ok t db' n" if "n \<in> set (cr_notes db)" for n using ok that credit_ok_cong [OF e] by (simp add: notes_ok_def)
  ultimately show ?thesis using ok fresh key [of "cbk_id b"] by (auto simp: notes_ok_def db' note_audit_def k)
qed

lemma credit_step_ok: "credit_step t db db' \<Longrightarrow> notes_ok t db \<Longrightarrow> notes_ok t db'"
proof (induction rule: credit_step.induct)
  case (note_proposed env newId userId body seen db db' row)
  then show ?case by (intro propose_step_ok [OF _ note_proposed(1)]) auto
next
  case note_approved
  then show ?case by (blast intro: approve_step_ok)
next
  case note_rejected
  then show ?case by (blast intro: reject_step_ok)
next
  case (other_entries new db bookings wallets)
  let ?db' = "db\<lparr>cr_ledger := (cr_ledger db)\<lparr>ws_rows := ws_rows (cr_ledger db) @ new, ws_wallets := wallets\<rparr>, cr_bookings := bookings\<rparr>"
  have "credit_ok t ?db' n" if n: "n \<in> set (cr_notes db)" for n
  proof -
    have "entries_of t ?db' n = entries_of t db n"
      using other_entries(1) [OF _ n] by (auto simp: entries_of_def filter_empty_conv)
    then show ?thesis using other_entries(2) n credit_ok_cong unfolding notes_ok_def by blast
  qed
  moreover have "cr_notes ?db' = cr_notes db" by simp
  ultimately show ?case using other_entries(2) unfolding notes_ok_def by metis
qed

lemma decide_terms:
  assumes "decide_note i f db = Inr db'" "\<And>n. same_terms n (f n)"
  shows "terms_kept db db'"
proof -
  have e: "cr_notes db' = map (\<lambda>n. if cnr_id n = i \<and> cnr_status n = NOTE_PROPOSED then f n else n) (cr_notes db)"
    using assms(1) by (auto simp: decide_note_def split: if_splits)
  have "(if cnr_id n = i \<and> cnr_status n = NOTE_PROPOSED then f n else n) \<in> set (cr_notes db')" if "n \<in> set (cr_notes db)" for n
    unfolding e set_map by (rule imageI [OF that])
  moreover have "same_terms n (if cnr_id n = i \<and> cnr_status n = NOTE_PROPOSED then f n else n)" for n
    using assms(2) [of n] by (simp add: same_terms_def)
  ultimately show ?thesis unfolding terms_kept_def by blast
qed

lemma credit_step_terms:
  assumes "credit_step t db db'"
  shows "terms_kept db db'"
  using assms
proof (cases rule: credit_step.cases)
  case (note_proposed env newId userId body seen row)
  from note_proposed(1) show ?thesis by (rule propose_note_cases) (auto simp: terms_kept_def same_terms_def note_audit_def)
next
  case (note_approved env rid now userId noteId seen)
  then obtain n where "approve_locked rid now t userId n db = Inr db'" by (auto simp: approve_note_def ebind_Inr_iff bad_note_def split: option.splits)
  then show ?thesis
  proof (rule approve_locked_Inr)
    assume "decide_note (cnr_id n) (\<lambda>r. r\<lparr>cnr_status := NOTE_APPROVED, cnr_decidedById := Some userId, cnr_decidedAt := Some now, cnr_ledgerEntryId := Some (rid (note_key n))\<rparr>)
       (db\<lparr>cr_ledger := cr_ledger db'\<rparr>) = Inr (db'\<lparr>cr_audits := cr_audits db\<rparr>)"
    from decide_terms [OF this] show ?thesis by (simp add: terms_kept_def same_terms_def note_key_def)
  qed
next
  case (note_rejected env now userId noteId body seen)
  then obtain i reason db1 where decide: "decide_note i (\<lambda>r. r\<lparr>cnr_status := NOTE_REJECTED, cnr_decidedById := Some userId, cnr_decidedAt := Some now,
      cnr_decisionReason := Some reason\<rparr>) db = Inr db1" and db': "db' = note_audit ''finance.credit_note.rejected'' i db1"
    by (auto simp: reject_note_def ebind_Inr_iff bad_note_def split: option.splits)
  from decide_terms [OF decide] show ?thesis by (simp add: terms_kept_def same_terms_def note_key_def db' note_audit_def)
qed (auto simp: terms_kept_def same_terms_def)

lemma credit_reachable_ok: "credit_reachable t db \<Longrightarrow> notes_ok t db"
  by (induction rule: credit_reachable.induct) (simp add: notes_ok_def, rule credit_step_ok)

subsection \<open>Properties\<close>

text \<open>
  C12. A credit note moves money exactly once and takes two people: whatever was proposed, approved, rejected and
  posted, in any order and on whatever earlier state a handler had read, an approved note was decided by
  someone other than its proposer and has exactly one entry on the ledger, a refund of its amount for its booking that
  it links to; a note that is waiting or rejected has none. Its terms never change.
\<close>

theorem credit_note_posts_once:
  assumes "credit_reachable t db" "n \<in> set (cr_notes db)"
  shows "(cnr_status n = NOTE_APPROVED \<longrightarrow>
      (\<exists>r. entries_of t db n = [r] \<and> lr_type r = ''REFUND'' \<and> lr_amountMinor r = cnr_amountMinor n \<and> lr_reference r = Some (bookingReference (cnr_bookingId n))
         \<and> cnr_ledgerEntryId n = Some (lr_id r)) \<and> cnr_decidedById n \<notin> {None, Some (cnr_proposedById n)})
    \<and> (cnr_status n \<noteq> NOTE_APPROVED \<longrightarrow> entries_of t db n = [])
    \<and> (\<forall>db'. credit_step t db db' \<longrightarrow> (\<exists>m \<in> set (cr_notes db'). same_terms n m))"
proof -
  have "credit_ok t db n" using credit_reachable_ok [OF assms(1)] assms(2) by (simp add: notes_ok_def)
  moreover have "\<exists>m \<in> set (cr_notes db'). same_terms n m" if "credit_step t db db'" for db'
    using credit_step_terms [OF that] assms(2) by (simp add: terms_kept_def)
  ultimately show ?thesis by (simp add: credit_ok_def)
qed

definition sample_credit_rows :: "ledger_row list" where
  "sample_credit_rows = [leg_row (\<lambda>k. ''e1'') 0 ''T'' ''w'' ''AED'' \<lparr>lg_legType = ''DEBIT'', lg_legMinor = - 1000, lg_reference = ''booking:b'', lg_key = settleDebitKey ''b''\<rparr>]"

definition sample_credit_wallet :: wallet_row where
  "sample_credit_wallet = \<lparr>wa_id = ''w'', wa_tenantId = ''T'', wa_agencyId = Some ''a'', wa_currency = ''AED'', wa_creditLimit = 0\<rparr>"

definition sample_credit_db :: "ledger_row list \<Rightarrow> CreditNoteRow list \<Rightarrow> (string \<times> string) list \<Rightarrow> CreditDb" where
  "sample_credit_db rows ns audits = \<lparr>cr_ledger = \<lparr>ws_rows = rows, ws_wallets = [sample_credit_wallet], ws_limits = [], ws_cachedBalance = [], ws_audits = []\<rparr>,
     cr_bookings = [\<lparr>cbk_id = ''b'', cbk_reference = ''R1'', cbk_status = BookingStatus.CONFIRMED, cbk_currency = ''AED''\<rparr>], cr_notes = ns, cr_audits = audits\<rparr>"

definition sample_note :: CreditNoteRow where
  "sample_note = \<lparr>cnr_id = ''n1'', cnr_bookingId = ''b'', cnr_seq = 1, cnr_number = ''CN-R1-P1'', cnr_currency = ''AED'', cnr_amountMinor = 300,
     cnr_reason = GOODWILL, cnr_note = ''late check-in'', cnr_status = NOTE_PROPOSED, cnr_requestId = ''request1'', cnr_proposedById = ''u'',
     cnr_decidedById = None, cnr_decidedAt = None, cnr_decisionReason = None, cnr_ledgerEntryId = None\<rparr>"

definition sample_approved :: CreditNoteRow where
  "sample_approved = sample_note\<lparr>cnr_status := NOTE_APPROVED, cnr_decidedById := Some ''v'', cnr_decidedAt := Some 5, cnr_ledgerEntryId := Some ''e2''\<rparr>"

definition sample_note_body :: jsval where
  "sample_note_body = JObj [(''requestId'', JStr ''request1''), (''bookingId'', JStr ''b''), (''amountMinor'', JStr ''300''), (''reason'', JStr ''GOODWILL''),
     (''note'', JStr ''late check-in'')]"

definition sample_credited_rows :: "ledger_row list" where
  "sample_credited_rows = sample_credit_rows @ [leg_row (\<lambda>k. ''e2'') 5 ''T'' ''w'' ''AED'' (credit_leg sample_note)]"

lemma sample_proposed:
  "propose_note (Some ''true'') ''n1'' ''T'' ''u'' sample_note_body (sample_credit_db sample_credit_rows [] []) (sample_credit_db sample_credit_rows [] [])
    = Inr (sample_credit_db sample_credit_rows [sample_note] [(''finance.credit_note.proposed'', ''n1'')], sample_note)"
  by code_simp

lemma sample_decided:
  "approve_note (Some ''true'') (\<lambda>k. ''e2'') 5 ''T'' ''v'' (JStr ''n1'') (sample_credit_db sample_credit_rows [sample_note] [(''finance.credit_note.proposed'', ''n1'')])
      (sample_credit_db sample_credit_rows [sample_note] [(''finance.credit_note.proposed'', ''n1'')])
    = Inr (sample_credit_db sample_credited_rows [sample_approved] [(''finance.credit_note.proposed'', ''n1''), (''finance.credit_note.approved'', ''n1'')])"
  by code_simp

lemma sample_credit_reachable:
  "credit_reachable ''T'' (sample_credit_db sample_credited_rows [sample_approved] [(''finance.credit_note.proposed'', ''n1''), (''finance.credit_note.approved'', ''n1'')])"
proof -
  let ?db0 = "sample_credit_db sample_credit_rows [] []" and ?db1 = "sample_credit_db sample_credit_rows [sample_note] [(''finance.credit_note.proposed'', ''n1'')]"
  have kept: "terms_kept db db" for db by (auto simp: terms_kept_def same_terms_def)
  have "credit_reachable ''T'' ?db0" by (rule no_notes) (simp add: sample_credit_db_def)
  moreover have "credit_step ''T'' ?db0 ?db1"
    by (rule note_proposed [OF sample_proposed _ _ kept])
      (simp_all add: sample_credit_db_def sample_credit_rows_def credit_key_def settleDebitKey_def holdKey_def leg_row_def leg_append_def append_row_def)
  ultimately have "credit_reachable ''T'' ?db1" by (rule next_credit)
  then show ?thesis by (rule next_credit) (rule note_approved [OF sample_decided kept])
qed

lemma credit_note_posts_once_witness:
  "\<exists>r. entries_of ''T'' (sample_credit_db sample_credited_rows [sample_approved] [(''finance.credit_note.proposed'', ''n1''), (''finance.credit_note.approved'', ''n1'')]) sample_approved
     = [r] \<and> lr_amountMinor r = 300"
  using credit_note_posts_once [OF sample_credit_reachable, of sample_approved] by (auto simp: sample_credit_db_def sample_approved_def sample_note_def)
end
