(* ===== verification/Account_History.thy ===== *)
theory Account_History
  imports Agent_Booking Credit_Notes
begin
text \<open>
  Every way an entry of a booking reaches the ledger, in any order: the finance consumer, the authorisation of the
  payment and its release, the agent's confirmation and cancellation, the settlement of a cancellation and the credit
  notes. The rows they read beside the ledger (events, bookings, stock, files) are arbitrary at every step.
\<close>

subsection \<open>Steps\<close>

text \<open>Entries of other tenants, other kinds, or with neither the reference nor a key of a booking.\<close>

definition foreign_row :: "string \<Rightarrow> ledger_row \<Rightarrow> bool" where
  "foreign_row t r \<longleftrightarrow> lr_tenantId r \<noteq> t \<or> lr_type r \<notin> set KINDS
     \<or> ((\<forall>b. lr_reference r \<noteq> Some (bookingReference b)) \<and> (\<forall>b. \<not> booking_entry b (lr_type r) (lr_idempotencyKey r)))"

text \<open>
  What the code leaves to its callers is a condition of the step: a payment is authorised on the wallet that already
  holds it, a hold is not released once it was settled, and an agent does not cancel what was refunded before.
\<close>

inductive account_step :: "string \<Rightarrow> ledger_row list \<Rightarrow> ledger_row list \<Rightarrow> bool" for t :: string where
  consumed: "ws_rows (fd_ledger db) = rows \<Longrightarrow> agencies_named db \<Longrightarrow> postEvent rid at t first_rows db eventId = Inr (db', outcome)
    \<Longrightarrow> account_step t rows (ws_rows (fd_ledger db'))"
| authorised: "ws_rows s = rows \<Longrightarrow> authorize env rid at t c s = Inr (s', r) \<Longrightarrow> fc_idempotencyKey c = holdKey (fc_bookingId c)
    \<Longrightarrow> \<forall>h \<in> set rows. lr_tenantId h = t \<and> lr_type h = ''HOLD'' \<and> lr_idempotencyKey h = holdKey (fc_bookingId c) \<longrightarrow> lr_walletId h = fc_walletId c
    \<Longrightarrow> account_step t rows (ws_rows s')"
| hold_released: "ws_rows s = rows \<Longrightarrow> release_authorization env rid at t c s = Inr (s', r) \<Longrightarrow> fc_idempotencyKey c = holdKey (fc_bookingId c)
    \<Longrightarrow> entry_of t rows (settleReleaseKey (fc_bookingId c)) ''RELEASE'' = None \<Longrightarrow> account_step t rows (ws_rows s')"
| stay_confirmed: "stock_rows db = rows \<Longrightarrow> confirm_booking sha256 other rid now t scope cc db = Inr (db', was_confirmed) \<Longrightarrow> account_step t rows (stock_rows db')"
| stay_cancelled: "stock_rows db = rows \<Longrightarrow> cancel_booking tz sha256 other rid now t scope userId plans db = (db', result)
    \<Longrightarrow> \<forall>r \<in> set rows. \<not> (lr_tenantId r = t \<and> lr_type r = ''REFUND'' \<and> lr_reference r = Some (bookingReference (ag_bookingId db)))
    \<Longrightarrow> account_step t rows (stock_rows db')"
| cancellation_settled: "stock_rows db = rows \<Longrightarrow> settle_cancellation rid now t db = Inr (db', done_settlement) \<Longrightarrow> account_step t rows (stock_rows db')"
| credited: "ws_rows (cr_ledger db) = rows \<Longrightarrow> approve_note env rid now t userId noteId seen db = Inr db' \<Longrightarrow> account_step t rows (ws_rows (cr_ledger db'))"
| other_rows: "\<forall>r \<in> set new. foreign_row t r \<Longrightarrow> account_step t rows (rows @ new)"

inductive account_reachable :: "string \<Rightarrow> ledger_row list \<Rightarrow> bool" for t :: string where
  account_start: "\<forall>r \<in> set rows. foreign_row t r \<Longrightarrow> account_reachable t rows"
| account_next: "account_reachable t rows \<Longrightarrow> account_step t rows rows' \<Longrightarrow> account_reachable t rows'"

lemma foreign_rows_of: "\<forall>r \<in> set rows. foreign_row t r \<Longrightarrow> rows_of t b rows = []"
  by (auto simp: rows_of_def foreign_row_def filter_empty_conv)

lemma foreign_ok:
  assumes "ledger_ok t rows" "\<forall>r \<in> set new. foreign_row t r"
  shows "ledger_ok t (rows @ new)"
proof -
  have "booking_entry b (lr_type r) (lr_idempotencyKey r) \<Longrightarrow> lr_tenantId r = t \<Longrightarrow> r \<in> set new \<Longrightarrow> False" for r b
    using assms(2) booking_entry_kind unfolding foreign_row_def by blast
  then show ?thesis using assms(1) unfolding ledger_ok_def by (auto simp: foreign_rows_of [OF assms(2)])
qed

lemma foreign_start_ok: "\<forall>r \<in> set rows. foreign_row t r \<Longrightarrow> ledger_ok t rows"
proof -
  assume f: "\<forall>r \<in> set rows. foreign_row t r"
  have "account_story t b w (rows_of t b []) None False None 0" for b w by (simp add: rows_of_def story_none)
  then have "\<exists>w held released charged refunded. account_story t b w (rows_of t b []) held released charged refunded" for b by blast
  then have "ledger_ok t []" unfolding ledger_ok_def by simp
  from foreign_ok [OF this f] show ?thesis by simp
qed

lemma account_step_ok: "account_step t rows rows' \<Longrightarrow> ledger_ok t rows \<Longrightarrow> ledger_ok t rows'"
proof (induction rule: account_step.induct)
  case consumed
  then show ?case using postEvent_ledger by blast
next
  case (authorised s rows env rid at c s' r)
  then show ?case using authorize_ledger [of t s env rid at c s' r] by simp
next
  case (hold_released s rows env rid at c s' r)
  then show ?case using release_ledger [of t s env rid at c s' r] by simp
next
  case stay_confirmed
  then show ?case using confirm_ledger by blast
next
  case stay_cancelled
  then show ?case using cancel_ledger by blast
next
  case cancellation_settled
  then show ?case using settle_ledger by blast
next
  case credited
  then show ?case using approve_ledger by blast
next
  case other_rows
  then show ?case using foreign_ok by blast
qed

lemma account_reachable_ok: "account_reachable t rows \<Longrightarrow> ledger_ok t rows"
  by (induction rule: account_reachable.induct) (use foreign_start_ok account_step_ok in blast)+

subsection \<open>Properties\<close>

definition kind_sum :: "LedgerEntryKind \<Rightarrow> ledger_row list \<Rightarrow> int" where
  "kind_sum type rows = sum_where (\<lambda>r. lr_type r = type) lr_amountMinor rows"

definition still_held :: "ledger_row list \<Rightarrow> int" where
  "still_held rows = - (kind_sum ''HOLD'' rows + kind_sum ''RELEASE'' rows)"

lemma story_held: "account_story t b w rows held released charged refunded \<Longrightarrow> still_held rows = open_hold held released"
  by (induction rule: account_story.induct) (auto simp: still_held_def kind_sum_def open_hold_def minor_of_def written_def)


subsection \<open>Events in order\<close>

text \<open>A new event is later than the earlier ones of its booking; everything else about the state may change.\<close>

inductive posting_step :: "string \<Rightarrow> PostingDb \<Rightarrow> PostingDb \<Rightarrow> bool" for t :: string where
  event_posted: "postEvent rid at t first_rows db eventId = Inr (db', outcome) \<Longrightarrow> posting_step t db db'"
| event_added: "pe_id e \<notin> pe_id ` set (fd_events db) \<union> pr_eventId ` set (fd_postings db) \<Longrightarrow> \<forall>h \<in> set (fd_events db). pe_bookingId h = pe_bookingId e \<longrightarrow> \<not> earlier e h
    \<Longrightarrow> posting_step t db (db\<lparr>fd_events := fd_events db @ [e]\<rparr>)"
| rest_changed: "fd_events db' = fd_events db \<Longrightarrow> fd_postings db' = fd_postings db \<Longrightarrow> posting_step t db db'"

inductive posting_reachable :: "string \<Rightarrow> PostingDb \<Rightarrow> bool" for t :: string where
  nothing_posted: "fd_postings db = [] \<Longrightarrow> fd_events db = [] \<Longrightarrow> posting_reachable t db"
| posting_next: "posting_reachable t db \<Longrightarrow> posting_step t db db' \<Longrightarrow> posting_reachable t db'"

lemma posting_step_final:
  assumes "posting_step t db db'" "is_final db i"
  shows "posting_of db' i = posting_of db i"
  using assms(1)
proof (cases rule: posting_step.cases)
  case (event_posted rid at first_rows eventId outcome)
  then show ?thesis
  proof (cases rule: postEvent_one)
    case stay
    then show ?thesis by simp
  next
    case posted
    then show ?thesis using one_posting_final(2) assms(2) by blast
  qed
qed (simp_all add: posting_of_def)

lemma posting_step_order:
  assumes "posting_step t db db'" "finals_in_order db"
  shows "finals_in_order db'"
  using assms(1)
proof (cases rule: posting_step.cases)
  case (event_posted rid at first_rows eventId outcome)
  then show ?thesis
  proof (cases rule: postEvent_one)
    case stay
    then show ?thesis using assms(2) by simp
  next
    case (posted e status)
    then show ?thesis using one_posting_order assms(2) by blast
  qed
next
  case (event_added e)
  have f: "is_final db' i = is_final db i" for i by (simp add: event_added is_final_def posting_of_def)
  have new: "\<not> is_final db (pe_id e)" using event_added(2) by (force simp: is_final_def posting_of_def split: option.splits dest: find_SomeD)
  have "\<not> unfinished_before db' h" if "h \<in> set (fd_events db')" "is_final db' (pe_id h)" for h
  proof -
    have "h \<noteq> e" using that(2) new by (auto simp: f)
    then have "h \<in> set (fd_events db)" using that(1) by (simp add: event_added(1))
    then show ?thesis using assms(2) that event_added(3) by (auto simp: unfinished_before_def finals_in_order_def event_added(1) f [unfolded event_added(1)])
  qed
  then show ?thesis using assms(2) event_added(2) by (simp add: finals_in_order_def event_added(1))
next
  case rest_changed
  then show ?thesis using assms(2) by (simp add: finals_in_order_def unfinished_before_def is_final_def posting_of_def)
qed

lemma posting_reachable_order: "posting_reachable t db \<Longrightarrow> finals_in_order db"
  by (induction rule: posting_reachable.induct) (simp add: finals_in_order_def, rule posting_step_order)

text \<open>
  C10. The money facts of a booking are posted in their order and once: whatever runs, retries and new facts came, when
  a fact has its final posting so has every earlier fact of the booking, and no later step changes a final posting.
\<close>

theorem posted_in_order:
  assumes "posting_reachable t db" "h \<in> set (fd_events db)" "e \<in> set (fd_events db)" "pe_bookingId h = pe_bookingId e" "pe_id h \<noteq> pe_id e" "earlier h e"
    "is_final db (pe_id e)"
  shows "is_final db (pe_id h) \<and> (\<forall>db'. posting_step t db db' \<longrightarrow> posting_of db' (pe_id h) = posting_of db (pe_id h) \<and> posting_of db' (pe_id e) = posting_of db (pe_id e))"
proof -
  have "is_final db (pe_id h)"
    using posting_reachable_order [OF assms(1)] assms(2-7) by (auto simp: finals_in_order_def unfinished_before_def)
  then show ?thesis using posting_step_final assms(7) by blast
qed

subsection \<open>Samples\<close>

definition sample_fact :: "string \<Rightarrow> BookingFinanceEventType \<Rightarrow> int \<Rightarrow> int option \<Rightarrow> int option \<Rightarrow> PostedEvent" where
  "sample_fact i type at penalty refund = \<lparr>pe_id = i, pe_type = type, pe_seq = 1, pe_currency = ''AED'', pe_sellMinor = 1000, pe_netMinor = None,
     pe_penaltyMinor = penalty, pe_refundMinor = refund, pe_adjustmentMinor = None, pe_paymentMode = Some PM_CREDIT, pe_bookingId = ''b'', pe_createdAt = at\<rparr>"

definition sample_fact1 :: PostedEvent where "sample_fact1 = sample_fact ''e1'' FE_CONFIRMED 1 None None"
definition sample_fact2 :: PostedEvent where "sample_fact2 = sample_fact ''e2'' FE_CANCELLED 2 (Some 400) (Some 600)"

definition sample_posting_db :: "PostedEvent list \<Rightarrow> PostingDb" where
  "sample_posting_db events = \<lparr>fd_ledger = \<lparr>ws_rows = [], ws_wallets = [sample_credit_wallet], ws_limits = [], ws_cachedBalance = [], ws_audits = []\<rparr>,
     fd_bookings = [\<lparr>pb_id = ''b'', pb_currency = ''AED'', pb_agencyId = Some ''a'', pb_supplierId = Some ''s'', pb_paymentMode = Some PM_CREDIT, pb_netMinor = Some 800\<rparr>],
     fd_events = events, fd_postings = [], fd_payables = [], fd_cancellations = [], fd_audits = []\<rparr>"

definition sample_run :: "int \<Rightarrow> PostingDb \<Rightarrow> string \<Rightarrow> PostingDb" where
  "sample_run at db i = (case postEvent (\<lambda>k. k) at ''T'' (ws_rows (fd_ledger db)) db i of Inr (db', outcome) \<Rightarrow> db' | Inl e \<Rightarrow> db)"

definition sample_run1 :: PostingDb where "sample_run1 = sample_run 10 (sample_posting_db [sample_fact1, sample_fact2]) ''e1''"
definition sample_run2 :: PostingDb where "sample_run2 = sample_run 20 sample_run1 ''e2''"

lemma sample_runs:
  "\<exists>outcome. postEvent (\<lambda>k. k) 10 ''T'' [] (sample_posting_db [sample_fact1, sample_fact2]) ''e1'' = Inr (sample_run1, outcome)"
  "\<exists>outcome. postEvent (\<lambda>k. k) 20 ''T'' (ws_rows (fd_ledger sample_run1)) sample_run1 ''e2'' = Inr (sample_run2, outcome)"
proof -
  have "returns (postEvent (\<lambda>k. k) 10 ''T'' [] (sample_posting_db [sample_fact1, sample_fact2]) ''e1'')" by code_simp
  then show "\<exists>outcome. postEvent (\<lambda>k. k) 10 ''T'' [] (sample_posting_db [sample_fact1, sample_fact2]) ''e1'' = Inr (sample_run1, outcome)"
    by (auto simp: sample_run1_def sample_run_def sample_posting_db_def split: sum.splits)
  have "returns (postEvent (\<lambda>k. k) 20 ''T'' (ws_rows (fd_ledger sample_run1)) sample_run1 ''e2'')" by code_simp
  then show "\<exists>outcome. postEvent (\<lambda>k. k) 20 ''T'' (ws_rows (fd_ledger sample_run1)) sample_run1 ''e2'' = Inr (sample_run2, outcome)"
    by (auto simp: sample_run2_def sample_run_def split: sum.splits)
qed

lemma sample_state:
  "map lr_amountMinor (rows_of ''T'' ''b'' (ws_rows (fd_ledger sample_run2))) = [- 1000, 1000, - 1000, 600]" "is_final sample_run2 ''e2''"
  "fd_events sample_run2 = [sample_fact1, sample_fact2]" "agencies_named (sample_posting_db [sample_fact1, sample_fact2])" "agencies_named sample_run1"
  by code_simp+

lemma sample_account: "account_reachable ''T'' (ws_rows (fd_ledger sample_run2))"
proof -
  obtain o1 o2 where r: "postEvent (\<lambda>k. k) 10 ''T'' [] (sample_posting_db [sample_fact1, sample_fact2]) ''e1'' = Inr (sample_run1, o1)"
    "postEvent (\<lambda>k. k) 20 ''T'' (ws_rows (fd_ledger sample_run1)) sample_run1 ''e2'' = Inr (sample_run2, o2)"
    using sample_runs by blast
  have "account_reachable ''T'' []" by (rule account_start) simp
  then have "account_reachable ''T'' (ws_rows (fd_ledger sample_run1))"
    by (rule account_next) (rule consumed [OF _ sample_state(4) r(1)], simp add: sample_posting_db_def)
  then show ?thesis by (rule account_next) (rule consumed [OF refl sample_state(5) r(2)])
qed


lemma sample_posting: "posting_reachable ''T'' sample_run2"
proof -
  obtain o1 o2 where r: "postEvent (\<lambda>k. k) 10 ''T'' [] (sample_posting_db [sample_fact1, sample_fact2]) ''e1'' = Inr (sample_run1, o1)"
    "postEvent (\<lambda>k. k) 20 ''T'' (ws_rows (fd_ledger sample_run1)) sample_run1 ''e2'' = Inr (sample_run2, o2)"
    using sample_runs by blast
  have "posting_reachable ''T'' (sample_posting_db [])" by (rule nothing_posted) (simp_all add: sample_posting_db_def)
  moreover have "posting_step ''T'' (sample_posting_db []) (sample_posting_db [sample_fact1])"
    using event_added [of sample_fact1 "sample_posting_db []" "''T''"] by (simp add: sample_posting_db_def)
  moreover have "posting_step ''T'' (sample_posting_db [sample_fact1]) (sample_posting_db [sample_fact1, sample_fact2])"
    using event_added [of sample_fact2 "sample_posting_db [sample_fact1]" "''T''"]
    by (simp add: sample_posting_db_def sample_fact1_def sample_fact2_def sample_fact_def earlier_def)
  ultimately have "posting_reachable ''T'' (sample_posting_db [sample_fact1, sample_fact2])" by (blast intro: posting_next)
  then have "posting_reachable ''T'' sample_run1" by (rule posting_next) (rule event_posted [OF r(1)])
  then show ?thesis by (rule posting_next) (rule event_posted [OF r(2)])
qed

lemma posted_in_order_witness: "is_final sample_run2 ''e1''"
  using posted_in_order [OF sample_posting, of sample_fact1 sample_fact2] sample_state(2,3)
  by (simp add: sample_fact1_def sample_fact2_def sample_fact_def earlier_def)

subsection \<open>Where the code leaves a gap\<close>

text \<open>
  \<open>release\<close> looks for its own entry only. A hold the consumer settled (an operator recorded the confirmation) is
  returned a second time by a compensation that still runs, and the charged booking nets to nothing.
\<close>

definition settled_rows :: "ledger_row list" where
  "settled_rows = map (leg_row (\<lambda>k. k) 0 ''T'' ''w'' ''AED'') [booking_leg ''b'' ''HOLD'' (- 900) (holdKey ''b''),
     booking_leg ''b'' ''RELEASE'' 900 (settleReleaseKey ''b''), booking_leg ''b'' ''DEBIT'' (- 900) (settleDebitKey ''b'')]"

definition settled_state :: wl_state where
  "settled_state = \<lparr>ws_rows = settled_rows, ws_wallets = [sample_credit_wallet], ws_limits = [], ws_cachedBalance = [], ws_audits = []\<rparr>"

lemma release_after_settlement:
  "account_story ''T'' ''b'' ''w'' settled_rows (Some 900) True (Some 900) 0
    \<and> (\<exists>s' r. release_authorization None (\<lambda>k. k) 0 ''T'' \<lparr>fc_userId = ''u'', fc_requestId = ''r'', fc_walletId = ''w'', fc_bookingId = ''b'', fc_currency = ''AED'',
         fc_amountMinor = 900, fc_idempotencyKey = holdKey ''b''\<rparr> settled_state = Inr (s', r) \<and> net_of (rows_of ''T'' ''b'' (ws_rows s')) = 0)"
proof -
  let ?c = "\<lparr>fc_userId = ''u'', fc_requestId = ''r'', fc_walletId = ''w'', fc_bookingId = ''b'', fc_currency = ''AED'', fc_amountMinor = 900, fc_idempotencyKey = holdKey ''b''\<rparr>"
  note 1 = story_hold [OF story_none [of "''T''" "''b''" "''w''"] booking_leg_row(1), of 900]
  note 2 = story_release [OF 1 booking_leg_row(1) disjI2 [OF refl]]
  note 3 = story_charge [OF 2 booking_leg_row(1)]
  have "account_story ''T'' ''b'' ''w'' settled_rows (Some 900) True (Some 900) 0" unfolding settled_rows_def using 3 by simp
  moreover have "(case release_authorization None (\<lambda>k. k) 0 ''T'' ?c settled_state of Inr (s', r) \<Rightarrow> net_of (rows_of ''T'' ''b'' (ws_rows s')) = 0 | Inl e \<Rightarrow> False)" by code_simp
  ultimately show ?thesis by (auto split: sum.splits prod.splits)
qed

text \<open>
  The agent's cancellation refunds what the terms give back of the whole price, whatever was refunded before. After a credit
  note of 300 on a charge of 1000, a free cancellation brings the refunds to 1300.
\<close>

definition credited_rows :: "ledger_row list" where
  "credited_rows = map (leg_row (\<lambda>k. k) 0 ''T'' ''w'' ''AED'') [booking_leg ''b'' ''HOLD'' (- 1000) (holdKey ''b''),
     booking_leg ''b'' ''RELEASE'' 1000 (settleReleaseKey ''b''), booking_leg ''b'' ''DEBIT'' (- 1000) (settleDebitKey ''b''),
     booking_leg ''b'' ''REFUND'' 300 (credit_key ''b'' ''n1'')]"

definition credited_stock :: InventoryDb where
  "credited_stock = \<lparr>iv_rows = [\<lparr>dr_id = ''d'', dr_ratePlanId = ''p'', dr_stayDate = 864000000, dr_mode = ALLOTMENT, dr_stopSell = False,
       dr_source = ''ADMIN'', dr_freshUntil = None, dr_allotment = 1, dr_sold = 1, dr_held = 0\<rparr>],
     iv_plans = [], iv_pools = [], iv_poolDays = [], iv_rules = [], iv_holds = [],
     iv_nights = [\<lparr>hn_availabilityId = ''d'', hn_counterKind = PLAN_ROW, hn_poolDayId = None, hn_quantity = 1, hn_holdId = ''x'', hn_stayDate = 864000000\<rparr>],
     iv_ledger = \<lparr>ws_rows = credited_rows, ws_wallets = [sample_credit_wallet], ws_limits = [], ws_cachedBalance = [], ws_audits = []\<rparr>,
     iv_members = [], iv_audits = []\<rparr>"

definition credited_terms :: jsval where
  "credited_terms = JObj [(''frozenAt'', JStr ''1969-12-01T00:00:00.000Z''), (''timeZone'', JStr ''UTC''),
     (''rules'', JArr [JObj [(''daysBeforeCheckin'', JNum (JInt 1)), (''penaltyPercent'', JNum (JInt 100))]])]"

definition credited_booking :: AgentDb where
  "credited_booking = \<lparr>ag_bookingId = ''b'',
     ag_snapshot = JObj [(''checkIn'', JStr ''1970-01-11''), (''checkOut'', JStr ''1970-01-12''), (''inventoryHoldId'', JStr ''x''), (''ratePlanId'', JStr ''p'')],
     ag_supplier = ''contracted-inventory'', ag_stock = credited_stock,
     ag_file = sample_file\<lparr>bf_booking := Booking_Transition.sample_row\<lparr>bk_status := BookingStatus.CONFIRMED, bk_currency := ''AED'', bk_totalMinor := 1000, bk_inventoryHold := True,
       bk_isRefundable := Some True, bk_cancellationPolicy := credited_terms\<rparr>\<rparr>,
     ag_mutation = None, ag_prebookAudits = 1, ag_cancellations = [], ag_email = None, ag_audits = []\<rparr>"

definition credited_plan :: PlanTerms where
  "credited_plan = \<lparr>pt_id = ''p'', pt_policySet = None, pt_bufferDays = 0, pt_hotelTimeZone = ''UTC'', pt_rules = []\<rparr>"

lemma credited_evaluation:
  "evaluate utc_zones (\<lambda>s. None) 0 [credited_plan] (ag_snapshot credited_booking) (bf_booking (ag_file credited_booking))
    = Inr \<lparr>el_holdId = ''x'', el_penaltyMinor = 0, el_refundMinor = 1000\<rparr>"
  by code_simp

lemma credited_post:
  "case cancel_post (\<lambda>s. s) (\<lambda>s. None) (\<lambda>k. k) 0 ''T'' ''u'' \<lparr>el_holdId = ''x'', el_penaltyMinor = 0, el_refundMinor = 1000\<rparr> credited_booking of
     Inr db \<Rightarrow> kind_sum ''REFUND'' (rows_of ''T'' ''b'' (stock_rows db)) = 1300 \<and> kind_sum ''DEBIT'' (rows_of ''T'' ''b'' (stock_rows db)) = - 1000
   | Inl e \<Rightarrow> False"
  by code_simp

lemma cancel_refunds_credit_again:
  "account_story ''T'' ''b'' ''w'' credited_rows (Some 1000) True (Some 1000) 300
    \<and> (case cancel_booking utc_zones (\<lambda>s. s) (\<lambda>s. None) (\<lambda>k. k) 0 ''T'' SCOPE_OPERATOR ''u'' [credited_plan] credited_booking of
         (db, result) \<Rightarrow> result = Inr (1000, False) \<and> kind_sum ''REFUND'' (rows_of ''T'' ''b'' (stock_rows db)) = 1300
           \<and> kind_sum ''DEBIT'' (rows_of ''T'' ''b'' (stock_rows db)) = - 1000)"
proof -
  note 1 = story_hold [OF story_none [of "''T''" "''b''" "''w''"] booking_leg_row(1), of 1000]
  note 2 = story_release [OF 1 booking_leg_row(1) disjI2 [OF refl]]
  note 3 = story_charge [OF 2 booking_leg_row(1)]
  note 4 = story_refund [OF 3 booking_leg_row(1)]
  have "account_story ''T'' ''b'' ''w'' credited_rows (Some 1000) True (Some 1000) 300" unfolding credited_rows_def using 4 by simp
  moreover have "case cancel_booking utc_zones (\<lambda>s. s) (\<lambda>s. None) (\<lambda>k. k) 0 ''T'' SCOPE_OPERATOR ''u'' [credited_plan] credited_booking of
         (db, result) \<Rightarrow> result = Inr (1000, False) \<and> kind_sum ''REFUND'' (rows_of ''T'' ''b'' (stock_rows db)) = 1300
           \<and> kind_sum ''DEBIT'' (rows_of ''T'' ''b'' (stock_rows db)) = - 1000"
  proof -
    have "\<not> bk_status (bf_booking (ag_file credited_booking)) = BookingStatus.CANCELLED" "bk_status (bf_booking (ag_file credited_booking)) = BookingStatus.CONFIRMED"
      "refundWithin 1000 (bk_totalMinor (bf_booking (ag_file credited_booking)))"
      by (simp_all add: credited_booking_def refundWithin_def)
    then show ?thesis using credited_post
      by (auto simp: cancel_booking_def cancel_transaction_def cancel_confirmed_def credited_evaluation Let_def split: sum.splits)
  qed
  ultimately show ?thesis by blast
qed
end
