(* ===== verification/Spec2Isabelle.thy ===== *)
theory Spec2Isabelle
  imports Money Ledger Ledger_Integrity Reconciliation General_Ledger Credit_Risk Calendar
    Finance_Period Period_Close Ledger_Store Wallet_Ledger Credit_Aging Agency_Credit
    Bank_Matching Settlement_Fx Pricing Promotions Promotion_Rules Js_Values Deals Permissions
    Approvals Deal_Lifecycle Deal_Approval Room_Sales Time_Zones Cancellation_Terms
    Cancellation_Simulation Booking_Finance Booking_Lifecycle Booking_Amendment
    Booking_Transition Booking_Writes Booking_History Inventory_Holds Inventory_Stock
    Finance_Posting Agent_Booking Credit_Notes Account_History
begin

text \<open>
  Verification of the money, pricing and control core of the bedbanks platform: a multi-tenant hotel
  distribution system with a NestJS API (\<open>apps/api\<close>), shared packages (\<open>packages\<close>) and four web
  applications. Suppliers' rates are contracted and promoted (\<open>supply\<close>, \<open>promotions\<close>), sold to agencies
  with a markup (\<open>packages/pricing\<close>), paid from agency wallets by ledger entries
  (\<open>agent/ledger.service.ts\<close>), reconciled with suppliers, banks and the general ledger
  (\<open>packages/money\<close>), and closed month by month (\<open>finance-periods\<close>); sensitive actions pass a
  maker-checker approval (\<open>approvals\<close>).

  Theories and the code they model.
  Prelude: thrown errors as sums, JavaScript numbers, decimal text, insertion-ordered maps, the stable sort,
  and the locales \<open>additive_rows\<close>, \<open>tagged_rows\<close> (folds that group records by a key and add amounts),
  \<open>comparator\<close>, \<open>strict_comparator\<close> and \<open>collation\<close> (what the sort asks of a comparison), each interpreted
  where a component folds or sorts.
  Money, Ledger, Ledger_Integrity, Reconciliation, General_Ledger, Credit_Risk, Finance_Period,
  Bank_Matching: the files of \<open>packages/money/src\<close>.
  Calendar: JavaScript's UTC calendar as \<open>inventory/room-sales/engine.ts\<close> and \<open>supply/promotions.ts\<close>
  use it. Pricing and Settlement_Fx: \<open>packages/pricing/src\<close> and \<open>supply/fx.ts\<close>.
  Ledger_Store, Wallet_Ledger: \<open>ledger/ledger-core.ts\<close>, \<open>ledger/wallet-lock.ts\<close>,
  \<open>agent/ledger.service.ts\<close>; the table is the list of its rows in insertion order, a transaction is a
  function of the state, and the step relation \<open>wl_step\<close> interleaves posts and adjustments.
  Credit_Aging, Agency_Credit: \<open>agent/credit-aging.ts\<close>, \<open>agent/agency-account.ts\<close>.
  Period_Close: \<open>finance-periods/finance-period.service.ts\<close>, with \<open>fp_step\<close> for closes, postings and
  the clock.
  Promotions, Promotion_Rules: \<open>supply/promotions.ts\<close>. Js_Values, Deals: the untyped request values and
  \<open>supply/deal-model.ts\<close>.
  Permissions: the catalogue of \<open>packages/contracts/src/admin-departments.ts\<close>.
  Approvals: \<open>approvals/approval.service.ts\<close> and \<open>agent/audit-payload.ts\<close>, with \<open>approval_step\<close>.
  Deal_Lifecycle: the handlers of \<open>promotions/hotel-deal.service.ts\<close> and the constraint and trigger of
  its migration; Deal_Approval: \<open>deal_step\<close>, the transactions of the deal handlers and of the approval
  service interleaved.
  Room_Sales: \<open>inventory/room-sales/engine.ts\<close> with the limits of \<open>packages/contracts/src/room-sales.ts\<close>; its
  stock is refined from a book of sales (\<open>SalesBook\<close>).
  Time_Zones, Cancellation_Terms, Cancellation_Simulation: \<open>agent/cancellation-policy.service.ts\<close>: hotel-local
  midnights over a time zone database that is a parameter, the penalty quote, schedule and deadline, and the
  settlement of a simulated cancellation.
  Booking_Finance: \<open>packages/contracts/src/booking-finance.ts\<close>, \<open>agent/booking-cancellation-terms.ts\<close> and
  \<open>booking-ops/booking-penalty-quote.ts\<close>: the terms frozen with a booking and the penalty that counts.
  Booking_Lifecycle: \<open>packages/contracts/src/booking-lifecycle.ts\<close>. Booking_Amendment: \<open>booking-amendment.ts\<close> there.
  Booking_Transition, Booking_Writes: \<open>booking-ops/booking-transition.ts\<close> and \<open>booking-finance-events.ts\<close>: one transaction on the file of
  a booking, with the row read and the row the guarded update reaches kept apart.
  Booking_History: \<open>booking_step\<close>, the handlers of Booking_Writes and the actions of the platform in any order, and what
  holds of every history of a booking.
  Inventory_Holds: \<open>inventory/inventory-counters.ts\<close>, \<open>agent/inventory-hold.service.ts\<close>, \<open>agent/agency-credit.ts\<close> and the
  database function that returns the rooms of a cancelled booking. Inventory_Stock: \<open>stock_step\<close>, every
  operation on holds and the edits of the stock in any order; counters and holds always agree.
  Finance_Posting: \<open>booking-finance-posting\<close>: the accounting rules and the consumer of the money facts of bookings; the entries of one
  booking as a story (\<open>account_story\<close>) that every posting continues. Agent_Booking:
  \<open>agent/booking-financial-authorization.service.ts\<close>, \<open>booking-confirmation.service.ts\<close>, \<open>booking-cancellation.service.ts\<close>,
  \<open>cancellation-settlement.service.ts\<close> and \<open>booking-agency-scope.ts\<close>. Credit_Notes: \<open>finance-credit-notes\<close>, with
  \<open>credit_step\<close>. Account_History: \<open>account_step\<close>, every way an entry of a booking reaches the ledger, and \<open>posting_step\<close>, the
  order of its money facts; two runs of the handlers that leave the story (a release after the charge, a cancellation
  after a credit note) are shown as they are, and the steps of the relation exclude exactly those.
  What the lemmas show. Of pure components: the exact result of each operation against a declarative
  reading (the integrity report is empty exactly when the records keep every rule, the journal ties to
  the ledger, unpaid charges, the best promotion), bounds (a price between zero and the old price, a
  conversion never below the booking rate), round trips (amounts, rates, CSV cells, deal rows, dates) and
  the accepted values of each validator. Of stateful components: invariants of all reachable states by
  rule induction over a step relation (no overdraft, closed months never change, four eyes, what is on
  sale is what was approved, no room sold twice, a booking charged once and refunded within its charge), and that each handler of the code is a path of steps.

  Conventions. Records, datatypes and functions carry the code's names (a record field has a short
  prefix). A thrown error is \<open>Inl\<close>; an HTTP exception keeps its class and its code or message. Amounts are
  unbounded integers where the code uses \<open>bigint\<close>, and JavaScript numbers (\<open>jsnum\<close>) where it does not;
  \<open>money\<close> refuses what is not a safe integer, as the code does. Times are milliseconds, a database row
  is a record, a table the list of its rows, and a tenant's view of a table is the list (row-level security
  is not modelled, except where the code compares tenants itself). Transactions are serial; a handler that reads before
  it locks, or races another on a unique key, is given the state it read beside the current one. Library code is a parameter: the
  SHA-256 hash, the collation of \<open>localeCompare\<close>, \<open>Intl\<close> formatting and time zones, and the identifiers the
  database assigns. Loops over lists are structural recursions; the paged scan and date loops carry fuel
  that the termination theorems show to be enough (pages of the range, thirty nights, the range limit).

  Not modelled: the web applications, connectors, tracing, infrastructure and Prisma's SQL; read models,
  lists and display texts (issue messages are dropped, their codes kept); the remaining services of
  \<open>apps/api\<close> listed as such in the manifest.
\<close>

end
